(* ===== verification/Py_Prelude.thy ===== *)
theory Py_Prelude
  imports Complex_Main "HOL-Library.Multiset"
begin

text \<open>
  What the components share: the exceptions and results of the Python code, the string,
  number and list operations of its standard library that the sources use, and the
  collections of facts the proofs of the components draw on.

  Conventions. A Python exception is a value of \<open>py_exn\<close> and a computation that may raise
  is of type \<open>'a py\<close> (a sum, \<open>Inl\<close> the exception). A character is a code point below 256.
  A finite Python float is a real number (rounding is not modelled); where the code reads a
  float from text the result is a \<open>pyfloat\<close>, which also has the infinities and NaN, since
  \<open>float("nan")\<close> and \<open>float("inf")\<close> are accepted by Python and compare as IEEE 754 says.
\<close>

named_theorems op_defs "definitions of operations, unfolded together"
named_theorems frame_simps "what an operation leaves unchanged"

section \<open>Exceptions and results\<close>

datatype py_exn =
    KeyError string
  | ValueError string
  | TypeError string
  | IndexError
  | ZeroDivisionError
  | RuntimeError string
  | SQLAlchemyError string
  | NetworkError string  \<comment> \<open>an \<open>HTTPError\<close>, \<open>URLError\<close> or \<open>TimeoutError\<close>\<close>
  | OtherError string

type_synonym 'a py = "py_exn + 'a"

fun py_bind :: "'a py \<Rightarrow> ('a \<Rightarrow> 'b py) \<Rightarrow> 'b py" where
  "py_bind (Inl e) f = Inl e"
| "py_bind (Inr x) f = f x"

text \<open>\<open>str(exc)\<close>: the message an exception carries; a \<open>KeyError\<close> shows it quoted.\<close>

fun exn_str :: "py_exn \<Rightarrow> string" where
  "exn_str (KeyError s) = [char_of (39::nat)] @ s @ [char_of (39::nat)]"
| "exn_str (ValueError s) = s"
| "exn_str (TypeError s) = s"
| "exn_str IndexError = ''list index out of range''"
| "exn_str ZeroDivisionError = ''division by zero''"
| "exn_str (RuntimeError s) = s"
| "exn_str (SQLAlchemyError s) = s"
| "exn_str (NetworkError s) = s"
| "exn_str (OtherError s) = s"

fun is_sql_error :: "py_exn \<Rightarrow> bool" where
  "is_sql_error (SQLAlchemyError _) = True"
| "is_sql_error _ = False"

fun is_key_or_value_error :: "py_exn \<Rightarrow> bool" where
  "is_key_or_value_error (KeyError _) = True"
| "is_key_or_value_error (ValueError _) = True"
| "is_key_or_value_error _ = False"

lemma py_bind_Inr_iff: "py_bind m f = Inr y \<longleftrightarrow> (\<exists>x. m = Inr x \<and> f x = Inr y)"
  by (cases m) auto

lemma py_bind_Inl_iff: "py_bind m f = Inl e \<longleftrightarrow> m = Inl e \<or> (\<exists>x. m = Inr x \<and> f x = Inl e)"
  by (cases m) auto

text \<open>\<open>x or default\<close> for a float that may be \<open>None\<close>: both \<open>None\<close> and zero are falsy.\<close>

definition or_real :: "real option \<Rightarrow> real \<Rightarrow> real" where
  "or_real x d = (case x of None \<Rightarrow> d | Some v \<Rightarrow> if v = 0 then d else v)"

definition truthy_str :: "string option \<Rightarrow> bool" where
  "truthy_str x = (case x of None \<Rightarrow> False | Some s \<Rightarrow> s \<noteq> [])"

section \<open>Strings\<close>

definition ch_code :: "char \<Rightarrow> nat" where
  "ch_code c = of_char c"

definition py_isspace :: "char \<Rightarrow> bool" where
  "py_isspace c = (let n = ch_code c in (9 \<le> n \<and> n \<le> 13) \<or> (28 \<le> n \<and> n \<le> 32) \<or> n = 133 \<or> n = 160)"

definition ascii_digit :: "char \<Rightarrow> bool" where
  "ascii_digit c = (48 \<le> ch_code c \<and> ch_code c \<le> 57)"

text \<open>\<open>str.isdigit\<close> of one character: the decimal digits and the superscripts two, three, one.\<close>

definition py_isdigit_char :: "char \<Rightarrow> bool" where
  "py_isdigit_char c = (ascii_digit c \<or> ch_code c \<in> {178, 179, 185})"

definition py_isdigit :: "string \<Rightarrow> bool" where
  "py_isdigit s = (s \<noteq> [] \<and> list_all py_isdigit_char s)"

definition py_strip :: "string \<Rightarrow> string" where
  "py_strip s = rev (dropWhile py_isspace (rev (dropWhile py_isspace s)))"

definition py_lower_char :: "char \<Rightarrow> char" where
  "py_lower_char c =
     (let n = ch_code c in
      if (65 \<le> n \<and> n \<le> 90) \<or> (192 \<le> n \<and> n \<le> 222 \<and> n \<noteq> 215) then char_of (n + 32) else c)"

definition py_lower :: "string \<Rightarrow> string" where
  "py_lower s = map py_lower_char s"

text \<open>
  \<open>str.upper\<close>; the sharp s becomes two letters, and the two letters whose capitals lie outside
  Latin-1 are left as they are.
\<close>

definition py_upper_char :: "char \<Rightarrow> string" where
  "py_upper_char c =
     (let n = ch_code c in
      if n = 223 then ''SS''
      else if (97 \<le> n \<and> n \<le> 122) \<or> (224 \<le> n \<and> n \<le> 254 \<and> n \<noteq> 247) then [char_of (n - 32)] else [c])"

definition py_upper :: "string \<Rightarrow> string" where
  "py_upper s = concat (map py_upper_char s)"

fun py_startswith :: "string \<Rightarrow> string \<Rightarrow> bool" where
  "py_startswith s [] = True"
| "py_startswith [] (p # ps) = False"
| "py_startswith (c # cs) (p # ps) = (c = p \<and> py_startswith cs ps)"

text \<open>\<open>s.split(sep)\<close> for a one-character separator: always at least one piece.\<close>

fun py_split :: "char \<Rightarrow> string \<Rightarrow> string list" where
  "py_split sep [] = [[]]"
| "py_split sep (c # cs) =
     (if c = sep then [] # py_split sep cs
      else case py_split sep cs of [] \<Rightarrow> [[c]] | p # ps \<Rightarrow> (c # p) # ps)"

lemma py_split_nonempty [simp]: "py_split sep s \<noteq> []"
  by (induction s) (auto split: list.splits)

fun py_join :: "string \<Rightarrow> string list \<Rightarrow> string" where
  "py_join sep [] = []"
| "py_join sep [s] = s"
| "py_join sep (s # t # ts) = s @ sep @ py_join sep (t # ts)"

lemma py_startswith_append: "py_startswith (p @ s) p"
  by (induction p) auto

lemma py_startswith_iff: "py_startswith s p \<longleftrightarrow> (\<exists>t. s = p @ t)"
  by (induction s p rule: py_startswith.induct) auto

lemma py_join_split: "py_join [sep] (py_split sep s) = s"
proof (induction s)
  case Nil
  show ?case by simp
next
  case (Cons c cs)
  then show ?case
    by (cases "py_split sep cs"; cases "tl (py_split sep cs)") (auto split: list.splits)
qed

section \<open>Decimal numbers in text\<close>

definition digit_char :: "nat \<Rightarrow> char" where
  "digit_char d = char_of (48 + d)"

fun show_nat :: "nat \<Rightarrow> string" where
  "show_nat n = (if n < 10 then [digit_char n] else show_nat (n div 10) @ [digit_char (n mod 10)])"

declare show_nat.simps [simp del]

definition show_int :: "int \<Rightarrow> string" where
  "show_int i = (if i < 0 then ''-'' @ show_nat (nat (- i)) else show_nat (nat i))"

definition pad2 :: "nat \<Rightarrow> string" where
  "pad2 n = (if n < 10 then ''0'' @ show_nat n else show_nat n)"

definition pad4 :: "nat \<Rightarrow> string" where
  "pad4 n = (if n < 10 then ''000'' else if n < 100 then ''00'' else if n < 1000 then ''0'' else []) @ show_nat n"

definition digits_val :: "string \<Rightarrow> nat" where
  "digits_val s = foldl (\<lambda>a c. 10 * a + (ch_code c - 48)) 0 s"

lemma code_digit_char: "d < 10 \<Longrightarrow> ch_code (digit_char d) = 48 + d"
  by (simp add: ch_code_def digit_char_def)

lemma ascii_digit_char: "d < 10 \<Longrightarrow> ascii_digit (digit_char d)"
  by (simp add: ascii_digit_def code_digit_char)

lemma digits_val_snoc: "digits_val (s @ [c]) = 10 * digits_val s + (ch_code c - 48)"
  by (simp add: digits_val_def)

lemma show_nat_digits: "list_all ascii_digit (show_nat n)"
proof (induction n rule: show_nat.induct)
  case (1 n)
  then show ?case
    by (subst show_nat.simps) (auto simp: ascii_digit_char)
qed

lemma show_nat_nonempty [simp]: "show_nat n \<noteq> []"
  by (subst show_nat.simps) simp

lemma digits_val_show_nat [simp]: "digits_val (show_nat n) = n"
proof (induction n rule: show_nat.induct)
  case (1 n)
  show ?case
  proof (cases "n < 10")
    case True
    then show ?thesis
      by (subst show_nat.simps) (simp add: digits_val_def code_digit_char)
  next
    case False
    with "1.IH" have "digits_val (show_nat (n div 10)) = n div 10" by simp
    with False show ?thesis
      by (subst show_nat.simps) (simp add: digits_val_snoc code_digit_char)
  qed
qed

lemma show_nat_inj: "show_nat m = show_nat n \<longleftrightarrow> m = n"
  by (metis digits_val_show_nat)

text \<open>The digit groups of Python's literals: digits, single underscores between them.\<close>

fun digitpart :: "string \<Rightarrow> string option" where
  "digitpart [] = None"
| "digitpart [c] = (if ascii_digit c then Some [c] else None)"
| "digitpart (c # d # cs) =
     (if \<not> ascii_digit c then None
      else if d = CHR ''_'' then map_option (\<lambda>r. c # r) (digitpart cs)
      else map_option (\<lambda>r. c # r) (digitpart (d # cs)))"

lemma digitpart_digits: "s \<noteq> [] \<Longrightarrow> list_all ascii_digit s \<Longrightarrow> digitpart s = Some s"
proof (induction s rule: digitpart.induct)
  case (3 c d cs)
  then show ?case by (auto simp: ascii_digit_def ch_code_def)
qed auto

fun split_sign :: "string \<Rightarrow> bool \<times> string" where
  "split_sign [] = (False, [])"
| "split_sign (c # cs) =
     (if c = CHR ''-'' then (True, cs) else if c = CHR ''+'' then (False, cs) else (False, c # cs))"

text \<open>
  \<open>int(s)\<close> of a string; \<open>None\<close> is the \<open>ValueError\<close>. More than 4300 digits are refused, the
  interpreter's default limit.
\<close>

definition py_int_of :: "string \<Rightarrow> int option" where
  "py_int_of s =
     (let (neg, r) = split_sign (py_strip s) in
      case digitpart r of
        None \<Rightarrow> None
      | Some ds \<Rightarrow> if length ds > 4300 then None
                   else Some (if neg then - int (digits_val ds) else int (digits_val ds)))"

datatype pyfloat = Fin real | PosInf | NegInf | NaN

fun pf_lt :: "pyfloat \<Rightarrow> pyfloat \<Rightarrow> bool" where
  "pf_lt NaN _ = False"
| "pf_lt _ NaN = False"
| "pf_lt (Fin a) (Fin b) = (a < b)"
| "pf_lt NegInf y = (y \<noteq> NegInf)"
| "pf_lt x NegInf = False"
| "pf_lt PosInf y = False"
| "pf_lt x PosInf = True"

definition pf_le :: "pyfloat \<Rightarrow> pyfloat \<Rightarrow> bool" where
  "pf_le x y = (pf_lt x y \<or> (x = y \<and> x \<noteq> NaN))"

fun pf_neg :: "pyfloat \<Rightarrow> pyfloat" where
  "pf_neg (Fin a) = Fin (- a)"
| "pf_neg PosInf = NegInf"
| "pf_neg NegInf = PosInf"
| "pf_neg NaN = NaN"

text \<open>
  \<open>a * y\<close> and \<open>a - y\<close> for a finite \<open>a\<close>, and \<open>x != y\<close> (NaN differs from everything, itself too).
\<close>

fun pf_scale :: "real \<Rightarrow> pyfloat \<Rightarrow> pyfloat" where
  "pf_scale a (Fin b) = Fin (a * b)"
| "pf_scale a PosInf = (if a > 0 then PosInf else if a < 0 then NegInf else NaN)"
| "pf_scale a NegInf = (if a > 0 then NegInf else if a < 0 then PosInf else NaN)"
| "pf_scale a NaN = NaN"

fun pf_minus :: "real \<Rightarrow> pyfloat \<Rightarrow> pyfloat" where
  "pf_minus a (Fin b) = Fin (a - b)"
| "pf_minus a PosInf = NegInf"
| "pf_minus a NegInf = PosInf"
| "pf_minus a NaN = NaN"

definition pf_ne :: "pyfloat option \<Rightarrow> pyfloat option \<Rightarrow> bool" where
  "pf_ne x y = (x \<noteq> y \<or> x = Some NaN)"

text \<open>Magnitudes from here on round to infinity (halfway above the largest double).\<close>

definition float_overflow :: real where
  "float_overflow = 2 ^ 1024 - 2 ^ 970"

definition pf_of_real :: "real \<Rightarrow> pyfloat" where
  "pf_of_real x = (if float_overflow \<le> x then PosInf else if x \<le> - float_overflow then NegInf else Fin x)"

definition scale10 :: "nat \<Rightarrow> int \<Rightarrow> real" where
  "scale10 n e = (if 0 \<le> e then real n * 10 ^ nat e else real n / 10 ^ nat (- e))"

text \<open>A part of a mantissa may be empty, otherwise it is a digit group.\<close>

definition opt_digits :: "string \<Rightarrow> string option" where
  "opt_digits s = (if s = [] then Some [] else digitpart s)"

definition exponent_of :: "string \<Rightarrow> int option" where
  "exponent_of s =
     (let (neg, r) = split_sign s in
      map_option (\<lambda>ds. if neg then - int (digits_val ds) else int (digits_val ds)) (digitpart r))"

definition unsigned_float :: "string \<Rightarrow> pyfloat option" where
  "unsigned_float s =
     (let m = takeWhile (\<lambda>c. c \<noteq> CHR ''e'' \<and> c \<noteq> CHR ''E'') s;
          r = drop (length m) s;
          ip = takeWhile (\<lambda>c. c \<noteq> CHR ''.'') m;
          fp = drop (Suc (length ip)) m
      in case (opt_digits ip, opt_digits fp, if r = [] then Some 0 else exponent_of (tl r)) of
           (Some i, Some f, Some e) \<Rightarrow>
             if i = [] \<and> f = [] then None
             else Some (pf_of_real (scale10 (digits_val (i @ f)) (e - int (length f))))
         | _ \<Rightarrow> None)"

definition py_float_of :: "string \<Rightarrow> pyfloat option" where
  "py_float_of s =
     (let (neg, r) = split_sign (py_strip s); l = py_lower r in
      map_option (\<lambda>x. if neg then pf_neg x else x)
        (if l = ''inf'' \<or> l = ''infinity'' then Some PosInf
         else if l = ''nan'' then Some NaN
         else unsigned_float r))"

text \<open>Evaluating these functions on a literal string with the simplifier.\<close>

lemmas text_eval =
  py_float_of_def py_int_of_def py_strip_def py_isspace_def ch_code_def Let_def unsigned_float_def
  opt_digits_def exponent_of_def py_lower_def py_lower_char_def ascii_digit_def digits_val_def
  scale10_def pf_of_real_def float_overflow_def

lemma pf_lt_Fin [simp]: "pf_lt (Fin a) (Fin b) = (a < b)"
  by simp

lemma pf_lt_NaN [simp]: "\<not> pf_lt NaN x" "\<not> pf_lt x NaN"
  by (cases x; simp)+

lemma pf_le_Fin [simp]: "pf_le (Fin a) (Fin b) = (a \<le> b)"
  by (auto simp: pf_le_def)

lemma pf_le_NaN [simp]: "\<not> pf_le NaN x" "\<not> pf_le x NaN"
  by (auto simp: pf_le_def)

lemma no_space_digit: "ascii_digit c \<Longrightarrow> \<not> py_isspace c"
  by (auto simp: ascii_digit_def py_isspace_def Let_def)

lemma dropWhile_digits:
  assumes "list_all ascii_digit s"
  shows "dropWhile py_isspace s = s"
  using assms by (cases s) (auto dest: no_space_digit)

lemma py_strip_digits: "list_all ascii_digit s \<Longrightarrow> py_strip s = s"
  by (simp add: py_strip_def dropWhile_digits list_all_iff)

lemma split_sign_digits:
  assumes "list_all ascii_digit s" "s \<noteq> []"
  shows "split_sign s = (False, s)"
  using assms by (cases s) (auto simp: ascii_digit_def ch_code_def)

text \<open>Printing a number and reading it back gives the number.\<close>

lemma py_int_of_show_nat: "length (show_nat n) \<le> 4300 \<Longrightarrow> py_int_of (show_nat n) = Some (int n)"
  by (simp add: py_int_of_def show_nat_digits py_strip_digits split_sign_digits digitpart_digits)

section \<open>Lists\<close>

text \<open>\<open>xs[a:b]\<close> with Python's treatment of negative and out-of-range bounds.\<close>

definition slice_bound :: "nat \<Rightarrow> int \<Rightarrow> nat" where
  "slice_bound n i = (if i < 0 then nat (int n + i) else min n (nat i))"

definition py_slice :: "'a list \<Rightarrow> int \<Rightarrow> int \<Rightarrow> 'a list" where
  "py_slice xs a b =
     (let n = length xs; i = slice_bound n a; j = slice_bound n b in take (j - i) (drop i xs))"

text \<open>\<open>sorted(xs, key=f)\<close> is stable, as \<open>sort_key\<close> is; with \<open>reverse=True\<close> it stays stable.\<close>

definition py_sorted_rev :: "('a \<Rightarrow> 'b::linorder) \<Rightarrow> 'a list \<Rightarrow> 'a list" where
  "py_sorted_rev f xs = rev (sort_key f (rev xs))"

lemma set_py_sorted_rev [simp]: "set (py_sorted_rev f xs) = set xs"
  by (simp add: py_sorted_rev_def)

lemma length_py_sorted_rev [simp]: "length (py_sorted_rev f xs) = length xs"
  by (simp add: py_sorted_rev_def)

lemma length_py_slice_le: "length (py_slice xs a b) \<le> length xs"
  by (simp add: py_slice_def Let_def)

lemma set_py_slice: "set (py_slice xs a b) \<subseteq> set xs"
  by (auto simp: py_slice_def Let_def dest: in_set_takeD in_set_dropD)

text \<open>\<open>xs[-1]\<close>: the last element, or an \<open>IndexError\<close>.\<close>

definition py_last :: "'a list \<Rightarrow> 'a py" where
  "py_last xs = (if xs = [] then Inl IndexError else Inr (last xs))"

text \<open>\<open>xs[i]\<close>: a negative index counts from the end.\<close>

definition py_index :: "'a list \<Rightarrow> int \<Rightarrow> 'a py" where
  "py_index xs i =
     (let j = (if i < 0 then i + int (length xs) else i) in
      if 0 \<le> j \<and> j < int (length xs) then Inr (xs ! nat j) else Inl IndexError)"

text \<open>\<open>int(x)\<close> of a finite float cuts off towards zero.\<close>

definition truncate_real :: "real \<Rightarrow> int" where
  "truncate_real x = (if x \<ge> 0 then floor x else ceiling x)"

definition py_div :: "real \<Rightarrow> real \<Rightarrow> real py" where
  "py_div a b = (if b = 0 then Inl ZeroDivisionError else Inr (a / b))"

lemma py_index_nonneg: "0 \<le> i \<Longrightarrow> i < int (length xs) \<Longrightarrow> py_index xs i = Inr (xs ! nat i)"
  by (simp add: py_index_def)

lemma py_slice_from: "0 \<le> a \<Longrightarrow> py_slice xs a (int (length xs)) = drop (nat a) xs"
  by (simp add: py_slice_def slice_bound_def Let_def min_def)

lemma py_slice_append: "0 \<le> a \<Longrightarrow> 0 \<le> b \<Longrightarrow> b \<le> int (length xs) \<Longrightarrow> py_slice (xs @ ys) a b = py_slice xs a b"
  using nat_le_iff [of b "length xs"]
  by (cases "nat a \<le> length xs") (auto simp: py_slice_def slice_bound_def Let_def min_def)

lemma sum_list_nonneg_all: "\<forall>x\<in>set xs. 0 \<le> (x::real) \<Longrightarrow> 0 \<le> sum_list xs"
  by (simp add: sum_list_nonneg)

end
