(* ===== verification/Domain_Models.thy ===== *)
theory Domain_Models
  imports Py_Prelude
begin

text \<open>
  The value objects of \<open>app/domain/models.py\<close>, the universe status of
  \<open>app/domain/universe_status.py\<close> and the rows of \<open>app/db/models/ordering.py\<close>. An aware
  \<open>datetime\<close> that the code only compares or shifts is an instant: an integer number of
  microseconds, Python's resolution. Sides, states and timeframes are the strings the code uses.
\<close>

type_synonym instant = int

abbreviation seconds :: "int \<Rightarrow> int" where
  "seconds n \<equiv> n * 1000000"

section \<open>Domain objects\<close>

record candle =
  cd_open :: real
  cd_high :: real
  cd_low :: real
  cd_close :: real
  cd_ts :: instant
  cd_volume :: real

record signal =
  sg_index :: int
  sg_side :: string
  sg_ticker :: string
  sg_strategy_id :: string
  sg_timeframe :: string
  sg_price :: "real option"
  sg_signal_time :: "instant option"

record order_request =
  rq_ticker :: string
  rq_side :: string
  rq_order_type :: string
  rq_qty :: real
  rq_price :: "real option"

record order_result =
  res_ok :: bool
  res_order_id :: "string option"
  res_error :: "string option"

record order_status =
  st_exists :: bool
  st_status :: string
  st_filled_qty :: pyfloat

section \<open>Universe status\<close>

datatype universe_status = NORMAL | EXIT_PENDING | REMOVED | HALTED

fun status_value :: "universe_status \<Rightarrow> string" where
  "status_value NORMAL = ''normal''"
| "status_value EXIT_PENDING = ''exit_pending''"
| "status_value REMOVED = ''removed''"
| "status_value HALTED = ''halted''"

text \<open>\<open>UniverseStatus(raw)\<close>: \<open>None\<close> is the \<open>ValueError\<close> of a value that is no member.\<close>

definition universe_status_of :: "string \<Rightarrow> universe_status option" where
  "universe_status_of raw =
     (if raw = ''normal'' then Some NORMAL
      else if raw = ''exit_pending'' then Some EXIT_PENDING
      else if raw = ''removed'' then Some REMOVED
      else if raw = ''halted'' then Some HALTED
      else None)"

text \<open>The Korean label, as a value: the label of a member, or the "unknown" text with the input.\<close>

datatype label_ko = LabelKo universe_status | UnknownLabel string

definition universe_status_label_ko :: "string \<Rightarrow> label_ko" where
  "universe_status_label_ko raw =
     (case universe_status_of raw of None \<Rightarrow> UnknownLabel raw | Some s \<Rightarrow> LabelKo s)"

lemma universe_status_of_value [simp]: "universe_status_of (status_value s) = Some s"
  by (cases s) (simp_all add: universe_status_of_def)

lemma universe_status_of_Some: "universe_status_of raw = Some s \<Longrightarrow> raw = status_value s"
  by (auto simp: universe_status_of_def split: if_splits)

section \<open>Rows of the ordering tables\<close>

text \<open>
  The trailing stop is the one price that is computed from a configured multiplier read from
  text, so it is a \<open>pyfloat\<close>; the other prices are finite.
\<close>

record signal_row =
  sr_id :: nat
  sr_ticker :: string
  sr_strategy_id :: string
  sr_timeframe :: string
  sr_side :: string
  sr_signal_price :: real
  sr_signal_time :: instant
  sr_status :: string

record order_row =
  ord_id :: nat
  ord_signal_id :: "nat option"
  ord_external_order_id :: "string option"
  ord_ticker :: string
  ord_side :: string
  ord_order_type :: string
  ord_price :: "real option"
  ord_quantity :: real
  ord_filled_quantity :: real
  ord_status :: string
  ord_reason :: "string option"

record position_row =
  pos_id :: nat
  pos_order_id :: "nat option"
  pos_ticker :: string
  pos_strategy_id :: string
  pos_state :: string
  pos_entry_price :: real
  pos_stop_price :: real
  pos_take_profit_price :: real
  pos_trailing_stop_price :: "pyfloat option"
  pos_highest_price :: "real option"
  pos_quantity :: real
  pos_remaining_quantity :: real
  pos_entry_time :: instant
  pos_closed_time :: "instant option"
  pos_close_reason :: "string option"
  pos_updated_at :: instant

end
