(* ===== verification/Py_Datetime.thy ===== *)
theory Py_Datetime
  imports Domain_Models
begin

text \<open>
  Python's aware \<open>datetime\<close> as the code uses it: the civil fields with the UTC offset, the
  naive wall-clock time of day (\<open>now.timetz().replace(tzinfo=None)\<close>), the instant (for
  comparisons and differences) and the \<open>strftime\<close> and \<open>isoformat\<close> pieces the slots are made of.
\<close>

record datetime =
  dt_year :: nat
  dt_month :: nat
  dt_day :: nat
  dt_hour :: nat
  dt_minute :: nat
  dt_second :: nat
  dt_micro :: nat
  dt_offset :: int  \<comment> \<open>seconds east of UTC\<close>

definition datetime_ok :: "datetime \<Rightarrow> bool" where
  "datetime_ok d \<longleftrightarrow> 1 \<le> dt_year d \<and> dt_year d \<le> 9999 \<and> 1 \<le> dt_month d \<and> dt_month d \<le> 12 \<and>
     1 \<le> dt_day d \<and> dt_day d \<le> 31 \<and> dt_hour d < 24 \<and> dt_minute d < 60 \<and> dt_second d < 60 \<and>
     dt_micro d < 1000000"

text \<open>The time of day in microseconds; Python compares naive times field by field.\<close>

definition hhmm :: "nat \<Rightarrow> nat \<Rightarrow> nat" where
  "hhmm h m = (h * 3600 + m * 60) * 1000000"

definition time_of :: "datetime \<Rightarrow> nat" where
  "time_of d = hhmm (dt_hour d) (dt_minute d) + dt_second d * 1000000 + dt_micro d"

definition is_leap :: "nat \<Rightarrow> bool" where
  "is_leap y \<longleftrightarrow> y mod 4 = 0 \<and> (y mod 100 \<noteq> 0 \<or> y mod 400 = 0)"

definition days_in_month :: "nat \<Rightarrow> nat \<Rightarrow> nat" where
  "days_in_month y m =
     (if m = 2 then (if is_leap y then 29 else 28) else if m \<in> {4, 6, 9, 11} then 30 else 31)"

definition to_ordinal :: "nat \<Rightarrow> nat \<Rightarrow> nat \<Rightarrow> nat" where
  "to_ordinal y m d =
     (let p = y - 1 in p * 365 + p div 4 - p div 100 + p div 400
        + sum_list (map (days_in_month y) [1..<m]) + d)"

definition instant_of :: "datetime \<Rightarrow> instant" where
  "instant_of d =
     (((int (to_ordinal (dt_year d) (dt_month d) (dt_day d)) - 719163) * 86400
        + int (dt_hour d * 3600 + dt_minute d * 60 + dt_second d) - dt_offset d) * 1000000
      + int (dt_micro d))"

text \<open>\<open>strftime("%Y-%m-%d")\<close>, also \<open>date().isoformat()\<close>; and \<open>strftime("%Y-%m-%d %H:")\<close>.\<close>

definition date_str :: "datetime \<Rightarrow> string" where
  "date_str d = pad4 (dt_year d) @ ''-'' @ pad2 (dt_month d) @ ''-'' @ pad2 (dt_day d)"

definition date_hour_str :: "datetime \<Rightarrow> string" where
  "date_hour_str d = date_str d @ '' '' @ pad2 (dt_hour d) @ '':''"

section \<open>Padded fields are injective\<close>

lemma show_nat_lt10: "n < 10 \<Longrightarrow> show_nat n = [digit_char n]"
  by (subst show_nat.simps) simp

lemma digit_char_0 [simp]: "digit_char 0 = CHR ''0''"
proof -
  have "of_char (CHR ''0'') = (48 :: nat)" by simp
  then show ?thesis unfolding digit_char_def by (metis add.right_neutral char_of_char)
qed

lemma pad2_digits: "n < 100 \<Longrightarrow> pad2 n = [digit_char (n div 10), digit_char (n mod 10)]"
  by (cases "n < 10")
     (auto simp: pad2_def show_nat_lt10 show_nat.simps [of n])

lemma length_pad2: "n < 100 \<Longrightarrow> length (pad2 n) = 2"
  by (simp add: pad2_digits)

lemma digits_val_zero: "digits_val (CHR ''0'' # s) = digits_val s"
  by (simp add: digits_val_def ch_code_def)

lemma digits_val_pad2 [simp]: "digits_val (pad2 n) = n"
  by (simp add: pad2_def digits_val_zero)

lemma digits_val_pad4 [simp]: "digits_val (pad4 n) = n"
  by (simp add: pad4_def digits_val_zero)

lemma pad2_inj: "pad2 m = pad2 n \<longleftrightarrow> m = n"
  by (metis digits_val_pad2)

lemma length_show_nat: "n < 10 ^ k \<Longrightarrow> 0 < k \<Longrightarrow> length (show_nat n) \<le> k"
proof (induction k arbitrary: n)
  case (Suc k)
  show ?case
  proof (cases "n < 10")
    case True
    then show ?thesis by (simp add: show_nat_lt10)
  next
    case False
    then have "0 < k" using Suc.prems by (cases k) auto
    moreover have "n div 10 < 10 ^ k" using Suc.prems by auto
    ultimately have "length (show_nat (n div 10)) \<le> k" using Suc.IH by blast
    with False show ?thesis by (subst show_nat.simps) simp
  qed
qed simp

lemma length_show_nat_ge: "10 ^ k \<le> n \<Longrightarrow> Suc k \<le> length (show_nat n)"
proof (induction k arbitrary: n)
  case 0
  then show ?case by (cases "show_nat n") auto
next
  case (Suc k)
  then have "Suc k \<le> length (show_nat (n div 10))" by (intro Suc.IH) (simp add: less_eq_div_iff_mult_less_eq mult.commute)
  moreover have "1 \<le> (10::nat) ^ k" by simp
  then have "\<not> n < 10" using Suc.prems unfolding power_Suc by linarith
  ultimately show ?case by (subst show_nat.simps) simp
qed

lemma length_pad4: "n \<le> 9999 \<Longrightarrow> length (pad4 n) = 4"
  using length_show_nat [of n 1] length_show_nat [of n 2] length_show_nat [of n 3] length_show_nat [of n 4]
    length_show_nat_ge [of 0 n] length_show_nat_ge [of 1 n] length_show_nat_ge [of 2 n] length_show_nat_ge [of 3 n]
  by (cases "n = 0") (auto simp: pad4_def show_nat_lt10)

lemma pad4_inj: "pad4 m = pad4 n \<longleftrightarrow> m = n"
  by (metis digits_val_pad4)

text \<open>Equal date strings mean equal dates, equal hour strings equal dates and hours.\<close>

lemma date_str_inj:
  assumes "datetime_ok a" "datetime_ok b" "date_str a = date_str b"
  shows "dt_year a = dt_year b \<and> dt_month a = dt_month b \<and> dt_day a = dt_day b"
proof -
  have ok: "dt_year a \<le> 9999" "dt_year b \<le> 9999" "dt_month a < 100" "dt_month b < 100"
    using assms(1,2) by (auto simp: datetime_ok_def)
  from assms(3) ok(1,2)
  have y: "pad4 (dt_year a) = pad4 (dt_year b)"
    and r: "pad2 (dt_month a) @ ''-'' @ pad2 (dt_day a) = pad2 (dt_month b) @ ''-'' @ pad2 (dt_day b)"
    by (auto simp: date_str_def length_pad4)
  from r ok(3,4) have "pad2 (dt_month a) = pad2 (dt_month b)" "pad2 (dt_day a) = pad2 (dt_day b)"
    by (auto simp: length_pad2)
  with y show ?thesis by (simp add: pad2_inj pad4_inj)
qed

lemma length_date_str: "datetime_ok a \<Longrightarrow> length (date_str a) = 10"
  by (auto simp: date_str_def datetime_ok_def length_pad4 length_pad2)

lemma length_date_hour_str: "datetime_ok a \<Longrightarrow> length (date_hour_str a) = 14"
  by (auto simp: date_hour_str_def length_date_str) (auto simp: datetime_ok_def length_pad2)

lemma date_hour_str_inj:
  assumes "datetime_ok a" "datetime_ok b" "date_hour_str a = date_hour_str b"
  shows "date_str a = date_str b \<and> dt_hour a = dt_hour b"
proof -
  from assms have "date_str a = date_str b"
    and "pad2 (dt_hour a) @ '':'' = pad2 (dt_hour b) @ '':''"
    by (auto simp: date_hour_str_def length_date_str)
  then show ?thesis by (simp add: pad2_inj)
qed

text \<open>Two moments of the same slot: same hour on the same date and the same minute bucket.\<close>

definition slot_str :: "datetime \<Rightarrow> nat \<Rightarrow> string" where
  "slot_str d minute = date_hour_str d @ pad2 minute"

lemma slot_str_inj:
  assumes "datetime_ok a" "datetime_ok b" "slot_str a m = slot_str b n"
  shows "date_str a = date_str b \<and> dt_hour a = dt_hour b \<and> m = n"
proof -
  from assms have "date_hour_str a = date_hour_str b" and "pad2 m = pad2 n"
    by (auto simp: slot_str_def length_date_hour_str)
  then show ?thesis using date_hour_str_inj [OF assms(1,2)] by (simp add: pad2_inj)
qed

end
