(* ===== verification/Strategies.thy ===== *)
theory Strategies
  imports Py_Datetime
begin

text \<open>
  \<open>app/strategies\<close>: the active-hours check of the base class, the exponential moving average,
  the five strategies and the registry that scans a candle window with the strategies of a
  timeframe. A strategy object is a record with its kind; constructors may raise (they parse
  their hours), and so may \<open>generate\<close> (division, the checks of \<open>ema\<close>).
\<close>

section \<open>Base class\<close>

definition parse_hhmm :: "string \<Rightarrow> nat py" where
  "parse_hhmm value =
     (case py_split (CHR '':'') value of
        [hh, mm] \<Rightarrow>
          (case (py_int_of hh, py_int_of mm) of
             (Some h, Some m) \<Rightarrow>
               if 0 \<le> h \<and> h < 24 \<and> 0 \<le> m \<and> m < 60 then Inr (hhmm (nat h) (nat m))
               else Inl (ValueError ''time out of range'')
           | _ \<Rightarrow> Inl (ValueError ''invalid literal for int()''))
      | _ \<Rightarrow> Inl (ValueError ''values to unpack''))"

fun parse_hours :: "(string \<times> string) list \<Rightarrow> (nat \<times> nat) list py" where
  "parse_hours [] = Inr []"
| "parse_hours ((s, e) # hs) =
     py_bind (parse_hhmm s) (\<lambda>a. py_bind (parse_hhmm e) (\<lambda>b. py_bind (parse_hours hs) (\<lambda>r. Inr ((a, b) # r))))"

datatype strategy_kind = GapMomentum | EmaPullback | VolatilityBreakout real | VolumeSurge | SupportResistance

record strategy =
  str_kind :: strategy_kind
  str_id :: string
  str_timeframe :: string
  str_active_hours :: "(nat \<times> nat) list"

definition base_strategy :: "strategy_kind \<Rightarrow> string \<Rightarrow> string \<Rightarrow> (string \<times> string) list \<Rightarrow> strategy py" where
  "base_strategy k sid timeframe active_hours =
     py_bind (parse_hours active_hours)
       (\<lambda>hs. Inr \<lparr>str_kind = k, str_id = sid, str_timeframe = timeframe, str_active_hours = hs\<rparr>)"

definition is_active_time :: "strategy \<Rightarrow> datetime \<Rightarrow> bool" where
  "is_active_time st now = list_ex (\<lambda>(s, e). s \<le> time_of now \<and> time_of now \<le> e) (str_active_hours st)"

section \<open>Helpers\<close>

definition ema :: "real list \<Rightarrow> int \<Rightarrow> real py" where
  "ema values period =
     (if period \<le> 0 then Inl (ValueError ''period must be positive'')
      else if int (length values) < period then Inl (ValueError ''not enough samples for EMA'')
      else (let k = 2 / (real_of_int period + 1);
                current = sum_list (take (nat period) values) / real_of_int period
            in Inr (foldl (\<lambda>c v. v * k + c * (1 - k)) current (drop (nat period) values))))"

definition closes :: "candle list \<Rightarrow> real list" where
  "closes candles = map cd_close candles"

definition volumes :: "candle list \<Rightarrow> real list" where
  "volumes candles = map cd_volume candles"

section \<open>The strategies\<close>

definition hours_or :: "(string \<times> string) list option \<Rightarrow> (string \<times> string) list \<Rightarrow> (string \<times> string) list" where
  "hours_or given dflt = (case given of None \<Rightarrow> dflt | Some hs \<Rightarrow> if hs = [] then dflt else hs)"

definition GapMomentumStrategy :: "string \<Rightarrow> (string \<times> string) list option \<Rightarrow> strategy py" where
  "GapMomentumStrategy timeframe active_hours = base_strategy GapMomentum ''1'' timeframe
     (hours_or active_hours [(''08:00'', ''09:00''), (''09:00'', ''09:30'')])"

definition EmaPullbackStrategy :: "string \<Rightarrow> (string \<times> string) list option \<Rightarrow> strategy py" where
  "EmaPullbackStrategy timeframe active_hours = base_strategy EmaPullback ''2'' timeframe
     (hours_or active_hours [(''09:00'', ''15:20'')])"

definition VolatilityBreakoutStrategy :: "string \<Rightarrow> (string \<times> string) list option \<Rightarrow> real \<Rightarrow> strategy py" where
  "VolatilityBreakoutStrategy timeframe active_hours k = base_strategy (VolatilityBreakout k) ''3'' timeframe
     (hours_or active_hours [(''09:00'', ''15:20'')])"

definition VolumeSurgeStrategy :: "string \<Rightarrow> (string \<times> string) list option \<Rightarrow> strategy py" where
  "VolumeSurgeStrategy timeframe active_hours = base_strategy VolumeSurge ''4'' timeframe
     (hours_or active_hours [(''09:00'', ''15:20''), (''15:30'', ''20:00'')])"

definition SupportResistanceStrategy :: "string \<Rightarrow> (string \<times> string) list option \<Rightarrow> strategy py" where
  "SupportResistanceStrategy timeframe active_hours = base_strategy SupportResistance ''5'' timeframe
     (hours_or active_hours [(''09:00'', ''15:20'')])"

text \<open>The signal every strategy builds: the last index, its own identity, the close, now.\<close>

definition mk_signal :: "strategy \<Rightarrow> string \<Rightarrow> string \<Rightarrow> candle list \<Rightarrow> real \<Rightarrow> datetime \<Rightarrow> signal" where
  "mk_signal st side ticker candles price now =
     \<lparr>sg_index = int (length candles) - 1, sg_side = side, sg_ticker = ticker,
      sg_strategy_id = str_id st, sg_timeframe = str_timeframe st,
      sg_price = Some price, sg_signal_time = Some (instant_of now)\<rparr>"

definition gap_generate :: "strategy \<Rightarrow> string \<Rightarrow> candle list \<Rightarrow> datetime \<Rightarrow> signal option py" where
  "gap_generate st ticker candles now =
     (if \<not> is_active_time st now \<or> length candles < 2 then Inr None
      else
        let prev_close = cd_close (candles ! (length candles - 2));
            opening = cd_open (last candles)
        in if prev_close \<le> 0 then Inr None
           else
             let gap_ratio = (opening - prev_close) / prev_close
             in if \<bar>gap_ratio\<bar> < 2 / 100 then Inr None
                else Inr (Some (mk_signal st (if gap_ratio > 0 then ''buy'' else ''sell'') ticker candles
                                  (cd_close (last candles)) now)))"

definition ema_generate :: "strategy \<Rightarrow> string \<Rightarrow> candle list \<Rightarrow> datetime \<Rightarrow> signal option py" where
  "ema_generate st ticker candles now =
     (if \<not> is_active_time st now \<or> length candles < 60 then Inr None
      else
        let cls = closes candles in
        py_bind (ema cls 5) (\<lambda>ema5.
        py_bind (ema cls 20) (\<lambda>ema20.
        py_bind (ema cls 60) (\<lambda>ema60.
          if \<not> (ema5 > ema20 \<and> ema20 > ema60) then Inr None
          else
            py_bind (py_div \<bar>last cls - ema20\<bar> ema20) (\<lambda>pullback_ratio.
              if pullback_ratio > 1 / 100 then Inr None
              else
                let vols = volumes candles;
                    window = py_slice vols (-20) (-1);
                    recent_avg = (if length window > 0 then sum_list window / 19 else 0)
                in if length vols \<ge> 20 \<and> recent_avg > 0 \<and> last vols < recent_avg then Inr None
                   else Inr (Some (mk_signal st ''buy'' ticker candles (last cls) now)))))))"

definition breakout_generate :: "real \<Rightarrow> strategy \<Rightarrow> string \<Rightarrow> candle list \<Rightarrow> datetime \<Rightarrow> signal option py" where
  "breakout_generate k st ticker candles now =
     (if \<not> is_active_time st now \<or> length candles < 2 then Inr None
      else
        let prev = candles ! (length candles - 2);
            current = last candles;
            target = cd_high prev + (cd_high prev - cd_low prev) * k
        in if cd_high current < target \<or> cd_close current < target then Inr None
           else Inr (Some (mk_signal st ''buy'' ticker candles (cd_close current) now)))"

definition surge_generate :: "strategy \<Rightarrow> string \<Rightarrow> candle list \<Rightarrow> datetime \<Rightarrow> signal option py" where
  "surge_generate st ticker candles now =
     (if \<not> is_active_time st now \<or> length candles < 21 then Inr None
      else
        let prev = candles ! (length candles - 2);
            lst = last candles;
            recent = py_slice (volumes candles) (-21) (-1);
            avg20 = (if recent \<noteq> [] then sum_list recent / real (length recent) else 0)
        in if avg20 \<le> 0 then Inr None
           else if cd_volume lst < avg20 * 3 then Inr None
           else if cd_close prev \<le> 0 then Inr None
           else if (cd_close lst - cd_close prev) / cd_close prev < 1 / 100 then Inr None
           else Inr (Some (mk_signal st ''buy'' ticker candles (cd_close lst) now)))"

definition pivot_generate :: "strategy \<Rightarrow> string \<Rightarrow> candle list \<Rightarrow> datetime \<Rightarrow> signal option py" where
  "pivot_generate st ticker candles now =
     (if \<not> is_active_time st now \<or> length candles < 2 then Inr None
      else
        let prev = candles ! (length candles - 2);
            lst = last candles;
            pivot = (cd_high prev + cd_low prev + cd_close prev) / 3;
            resistance = 2 * pivot - cd_low prev;
            support = 2 * pivot - cd_high prev;
            breakout = (cd_close lst \<ge> resistance \<and> cd_volume lst \<ge> cd_volume prev);
            rebound = (support > 0 \<and> \<bar>cd_low lst - support\<bar> / support \<le> 3 / 1000 \<and>
                       cd_close lst > support \<and> cd_close lst \<ge> cd_open lst)
        in if \<not> (breakout \<or> rebound) then Inr None
           else Inr (Some (mk_signal st ''buy'' ticker candles (cd_close lst) now)))"

text \<open>The dynamic dispatch of \<open>strategy.generate\<close>.\<close>

definition generate :: "strategy \<Rightarrow> string \<Rightarrow> candle list \<Rightarrow> datetime \<Rightarrow> signal option py" where
  "generate st = (case str_kind st of
       GapMomentum \<Rightarrow> gap_generate st
     | EmaPullback \<Rightarrow> ema_generate st
     | VolatilityBreakout k \<Rightarrow> breakout_generate k st
     | VolumeSurge \<Rightarrow> surge_generate st
     | SupportResistance \<Rightarrow> pivot_generate st)"

lemmas generate_defs = generate_def gap_generate_def ema_generate_def breakout_generate_def
  surge_generate_def pivot_generate_def

section \<open>Registry\<close>

definition default_strategies :: "strategy list py" where
  "default_strategies =
     py_bind (GapMomentumStrategy ''3m'' None) (\<lambda>s1.
     py_bind (EmaPullbackStrategy ''15m'' None) (\<lambda>s2.
     py_bind (VolatilityBreakoutStrategy ''3m'' None (1 / 2)) (\<lambda>s3.
     py_bind (VolumeSurgeStrategy ''3m'' None) (\<lambda>s4.
     py_bind (SupportResistanceStrategy ''15m'' None) (\<lambda>s5. Inr [s1, s2, s3, s4, s5])))))"

definition for_timeframe :: "strategy list \<Rightarrow> string \<Rightarrow> strategy list" where
  "for_timeframe strategies timeframe = filter (\<lambda>s. str_timeframe s = timeframe) strategies"

fun scan_strategies :: "strategy list \<Rightarrow> string \<Rightarrow> candle list \<Rightarrow> datetime \<Rightarrow> signal list py" where
  "scan_strategies [] ticker candles now = Inr []"
| "scan_strategies (st # sts) ticker candles now =
     py_bind (generate st ticker candles now) (\<lambda>sg.
     py_bind (scan_strategies sts ticker candles now) (\<lambda>rest.
       Inr (case sg of None \<Rightarrow> rest | Some s \<Rightarrow> s # rest)))"

definition scan :: "strategy list \<Rightarrow> string \<Rightarrow> string \<Rightarrow> candle list \<Rightarrow> datetime \<Rightarrow> signal list py" where
  "scan strategies timeframe ticker candles now =
     scan_strategies (for_timeframe strategies timeframe) ticker candles now"

section \<open>The moving average\<close>

lemma ema_step_bounds:
  fixes lo hi :: real
  assumes "0 \<le> k" "k \<le> 1" "lo \<le> c" "c \<le> hi" "lo \<le> v" "v \<le> hi"
  shows "lo \<le> v * k + c * (1 - k)" "v * k + c * (1 - k) \<le> hi"
proof -
  have "lo * k + lo * (1 - k) \<le> v * k + c * (1 - k)"
    using assms by (intro add_mono mult_right_mono) auto
  moreover have "v * k + c * (1 - k) \<le> hi * k + hi * (1 - k)"
    using assms by (intro add_mono mult_right_mono) auto
  ultimately show "lo \<le> v * k + c * (1 - k)" "v * k + c * (1 - k) \<le> hi"
    by (simp_all add: algebra_simps)
qed

lemma ema_fold_bounds:
  fixes lo hi :: real
  assumes "0 \<le> k" "k \<le> 1" "lo \<le> c" "c \<le> hi" "\<forall>v\<in>set vs. lo \<le> v \<and> v \<le> hi"
  shows "lo \<le> foldl (\<lambda>c v. v * k + c * (1 - k)) c vs \<and> foldl (\<lambda>c v. v * k + c * (1 - k)) c vs \<le> hi"
  using assms(3-)
proof (induction vs arbitrary: c)
  case (Cons v vs)
  then show ?case using ema_step_bounds [OF assms(1,2), of lo c hi v] by simp
qed simp

lemma mean_bounds:
  fixes lo hi :: real
  assumes "\<forall>v\<in>set vs. lo \<le> v \<and> v \<le> hi" "vs \<noteq> []"
  shows "lo \<le> sum_list vs / real (length vs) \<and> sum_list vs / real (length vs) \<le> hi"
proof -
  have "real (length vs) * lo \<le> sum_list vs \<and> sum_list vs \<le> real (length vs) * hi"
    using assms(1) by (induction vs) (auto simp: algebra_simps)
  then show ?thesis using assms(2) by (simp add: field_simps)
qed

lemma ema_Inr_iff: "(\<exists>r. ema vs p = Inr r) \<longleftrightarrow> 0 < p \<and> p \<le> int (length vs)"
  by (auto simp: ema_def Let_def)

lemma ema_bounds:
  assumes "ema vs p = Inr r" "\<forall>v\<in>set vs. lo \<le> v \<and> v \<le> hi"
  shows "lo \<le> r \<and> r \<le> hi"
proof -
  from assms(1) have p: "0 < p" "nat p \<le> length vs"
    using ema_Inr_iff [of vs p] by auto
  let ?t = "take (nat p) vs"
  have len: "real (length ?t) = real_of_int p" using p by simp
  have "?t \<noteq> []" using p by auto
  moreover have "\<forall>v\<in>set ?t. lo \<le> v \<and> v \<le> hi"
    using assms(2) by (auto dest: in_set_takeD)
  ultimately have "lo \<le> sum_list ?t / real_of_int p \<and> sum_list ?t / real_of_int p \<le> hi"
    using mean_bounds [of ?t lo hi] unfolding len by blast
  moreover have "0 \<le> 2 / (real_of_int p + 1)" "2 / (real_of_int p + 1) \<le> 1" using p by auto
  moreover have "\<forall>v\<in>set (drop (nat p) vs). lo \<le> v \<and> v \<le> hi"
    using assms(2) by (auto dest: in_set_dropD)
  moreover have "r = foldl (\<lambda>c v. v * (2 / (real_of_int p + 1)) + c * (1 - 2 / (real_of_int p + 1)))
      (sum_list ?t / real_of_int p) (drop (nat p) vs)"
    using assms(1) p by (auto simp: ema_def Let_def split: if_splits)
  ultimately show ?thesis
    using ema_fold_bounds [of "2 / (real_of_int p + 1)" lo "sum_list ?t / real_of_int p" hi "drop (nat p) vs"]
    by blast
qed

lemma ema_pos:
  assumes "ema vs p = Inr r" "\<forall>v\<in>set vs. 0 < v"
  shows "0 < r"
proof -
  have "vs \<noteq> []" using assms(1) ema_Inr_iff [of vs p] by auto
  then have "0 < Min (set vs)" using assms(2) by simp
  moreover have "Min (set vs) \<le> r" using ema_bounds [OF assms(1), of "Min (set vs)" "Max (set vs)"] by simp
  ultimately show ?thesis by simp
qed

section \<open>What every signal satisfies\<close>

definition signal_of :: "strategy \<Rightarrow> string \<Rightarrow> candle list \<Rightarrow> datetime \<Rightarrow> signal \<Rightarrow> bool" where
  "signal_of st ticker candles now sg \<longleftrightarrow>
     sg_ticker sg = ticker \<and> sg_strategy_id sg = str_id st \<and> sg_timeframe sg = str_timeframe st \<and>
     sg_index sg = int (length candles) - 1 \<and> 2 \<le> length candles \<and>
     sg_price sg = Some (cd_close (last candles)) \<and> sg_signal_time sg = Some (instant_of now) \<and>
     (sg_side sg = ''buy'' \<or> sg_side sg = ''sell'' \<and> str_kind st = GapMomentum) \<and> is_active_time st now"

lemma last_closes: "cs \<noteq> [] \<Longrightarrow> last (closes cs) = cd_close (last cs)"
  by (simp add: closes_def last_map)

lemma gap_signal_of:
  "gap_generate st ticker cs now = Inr (Some sg) \<Longrightarrow> str_kind st = GapMomentum \<Longrightarrow> signal_of st ticker cs now sg"
  by (auto simp: gap_generate_def Let_def mk_signal_def signal_of_def split: if_splits)

lemma ema_signal_of: "ema_generate st ticker cs now = Inr (Some sg) \<Longrightarrow> signal_of st ticker cs now sg"
  by (auto simp: ema_generate_def Let_def mk_signal_def signal_of_def py_bind_Inr_iff split: if_splits
        intro!: last_closes)

lemma breakout_signal_of: "breakout_generate k st ticker cs now = Inr (Some sg) \<Longrightarrow> signal_of st ticker cs now sg"
  by (auto simp: breakout_generate_def Let_def mk_signal_def signal_of_def split: if_splits)

lemma surge_signal_of: "surge_generate st ticker cs now = Inr (Some sg) \<Longrightarrow> signal_of st ticker cs now sg"
  by (auto simp: surge_generate_def Let_def mk_signal_def signal_of_def split: if_splits)

lemma pivot_signal_of: "pivot_generate st ticker cs now = Inr (Some sg) \<Longrightarrow> signal_of st ticker cs now sg"
  by (auto simp: pivot_generate_def Let_def mk_signal_def signal_of_def split: if_splits)

lemma generate_signal_of:
  "generate st ticker cs now = Inr (Some sg) \<Longrightarrow> signal_of st ticker cs now sg"
  by (cases "str_kind st")
     (auto simp: generate_def gap_signal_of ema_signal_of breakout_signal_of surge_signal_of pivot_signal_of)

text \<open>With positive closes no strategy raises.\<close>

lemma ema_generate_total:
  assumes "\<forall>c\<in>set cs. 0 < cd_close c"
  shows "\<exists>r. ema_generate st ticker cs now = Inr r"
proof (cases "\<not> is_active_time st now \<or> length cs < 60")
  case True
  then show ?thesis by (simp add: ema_generate_def)
next
  case False
  then have len: "60 \<le> length (closes cs)" by (simp add: closes_def)
  obtain a b c where e: "ema (closes cs) 5 = Inr a" "ema (closes cs) 20 = Inr b" "ema (closes cs) 60 = Inr c"
    using len ema_Inr_iff [of "closes cs" 5] ema_Inr_iff [of "closes cs" 20] ema_Inr_iff [of "closes cs" 60] by auto
  have "0 < b" using ema_pos [OF e(2)] assms by (auto simp: closes_def)
  then show ?thesis using False e by (auto simp: ema_generate_def Let_def py_div_def)
qed

lemma generate_total:
  assumes "\<forall>c\<in>set cs. 0 < cd_close c"
  shows "\<exists>r. generate st ticker cs now = Inr r"
  using ema_generate_total [OF assms]
  by (cases "str_kind st") (auto simp: generate_defs Let_def)

section \<open>What a scan returns\<close>

lemma scan_strategies_signals:
  "scan_strategies sts ticker cs now = Inr sgs \<Longrightarrow>
   sgs = List.map_filter (\<lambda>st. case generate st ticker cs now of Inr (Some s) \<Rightarrow> Some s | _ \<Rightarrow> None) sts"
  by (induction sts arbitrary: sgs)
     (auto simp: py_bind_Inr_iff List.map_filter_def split: option.splits)

lemma scan_strategies_signal_of:
  assumes "scan_strategies sts ticker cs now = Inr sgs" "sg \<in> set sgs"
  shows "\<exists>st\<in>set sts. signal_of st ticker cs now sg"
  using assms
  by (induction sts arbitrary: sgs) (auto simp: py_bind_Inr_iff generate_signal_of split: option.splits)

lemma scan_strategies_length: "scan_strategies sts ticker cs now = Inr sgs \<Longrightarrow> length sgs \<le> length sts"
  by (induction sts arbitrary: sgs) (fastforce simp: py_bind_Inr_iff split: option.splits)+

lemma scan_strategies_total:
  "\<forall>c\<in>set cs. 0 < cd_close c \<Longrightarrow> \<exists>sgs. scan_strategies sts ticker cs now = Inr sgs"
  by (induction sts) (auto simp: py_bind_Inr_iff generate_total)

lemma hour_literals:
  "parse_hhmm ''08:00'' = Inr (hhmm 8 0)" "parse_hhmm ''09:00'' = Inr (hhmm 9 0)"
  "parse_hhmm ''09:30'' = Inr (hhmm 9 30)" "parse_hhmm ''15:20'' = Inr (hhmm 15 20)"
  "parse_hhmm ''15:30'' = Inr (hhmm 15 30)" "parse_hhmm ''20:00'' = Inr (hhmm 20 0)"
  by (simp_all add: parse_hhmm_def text_eval)

lemma default_strategies_Inr:
  "default_strategies = Inr
     [\<lparr>str_kind = GapMomentum, str_id = ''1'', str_timeframe = ''3m'',
       str_active_hours = [(hhmm 8 0, hhmm 9 0), (hhmm 9 0, hhmm 9 30)]\<rparr>,
      \<lparr>str_kind = EmaPullback, str_id = ''2'', str_timeframe = ''15m'',
       str_active_hours = [(hhmm 9 0, hhmm 15 20)]\<rparr>,
      \<lparr>str_kind = VolatilityBreakout (1 / 2), str_id = ''3'', str_timeframe = ''3m'',
       str_active_hours = [(hhmm 9 0, hhmm 15 20)]\<rparr>,
      \<lparr>str_kind = VolumeSurge, str_id = ''4'', str_timeframe = ''3m'',
       str_active_hours = [(hhmm 9 0, hhmm 15 20), (hhmm 15 30, hhmm 20 0)]\<rparr>,
      \<lparr>str_kind = SupportResistance, str_id = ''5'', str_timeframe = ''15m'',
       str_active_hours = [(hhmm 9 0, hhmm 15 20)]\<rparr>]"
  by (simp add: default_strategies_def GapMomentumStrategy_def EmaPullbackStrategy_def
        VolatilityBreakoutStrategy_def VolumeSurgeStrategy_def SupportResistanceStrategy_def
        base_strategy_def hours_or_def hour_literals)

end
