(* ===== verification/Config_Manager.thy ===== *)
theory Config_Manager
  imports Py_Prelude "HOL-Library.AList"
begin

text \<open>
  \<open>app/core/config.py\<close>: the configuration manager with its validation rules. The dictionary of
  values is an association list in insertion order (\<open>AList.update\<close> is Python's assignment).
  The texts of error messages name the key but not the printed bound.
\<close>

section \<open>Rules\<close>

record rule =
  min_value :: "real option"
  max_value :: "real option"
  read_only :: bool
  as_int :: bool
  allowed_values :: "string list option"

definition num_rule :: "real option \<Rightarrow> real option \<Rightarrow> bool \<Rightarrow> rule" where
  "num_rule lo hi i = \<lparr>min_value = lo, max_value = hi, read_only = False, as_int = i, allowed_values = None\<rparr>"

definition plain_rule :: rule where
  "plain_rule = num_rule None None False"

definition choice_rule :: "string list \<Rightarrow> rule" where
  "choice_rule vs = plain_rule\<lparr>allowed_values := Some vs\<rparr>"

definition config_rules :: "(string \<times> rule) list" where
  "config_rules =
    [(''position_size_max_pct'', num_rule (Some 1) (Some 30) False),
     (''position_size_min_pct'', num_rule (Some (1/2)) (Some 10) False),
     (''max_positions'', num_rule (Some 1) (Some 30) True),
     (''risk_per_trade_pct'', num_rule (Some (1/10)) (Some 3) False),
     (''daily_loss_pct'', num_rule (Some (1/2)) (Some 10) False),
     (''stop_count'', num_rule (Some 1) (Some 20) True),
     (''cooldown_hours'', num_rule (Some 0) (Some 72) True),
     (''order_cancel_minutes'', num_rule (Some 1) (Some 30) True),
     (''slippage_pct'', num_rule (Some 0) (Some (1/2)) False),
     (''liquidity_threshold'', num_rule (Some 10) None False),
     (''margin_ratio'', num_rule (Some 1) (Some (5/2)) False),
     (''daily_base_capital'', plain_rule\<lparr>read_only := True\<rparr>),
     (''margin_close_time'', plain_rule),
     (''margin_close_priority'', plain_rule),
     (''atr_period'', num_rule (Some 5) (Some 30) True),
     (''stop_atr_mult'', num_rule (Some (1/2)) (Some 5) False),
     (''tp_atr_mult'', num_rule (Some (1/2)) (Some 10) False),
     (''trail_atr_mult'', num_rule (Some (1/2)) (Some 5) False),
     (''sync_mode'', choice_rule [''auto'', ''manual'']),
     (''log_level'', choice_rule [''DEBUG'', ''INFO''])]"

definition rule_of :: "string \<Rightarrow> rule option" where
  "rule_of key = map_of config_rules key"

definition strategy_overridable_keys :: "string set" where
  "strategy_overridable_keys = {''stop_atr_mult'', ''tp_atr_mult'', ''trail_atr_mult''}"

definition is_strategy_override_key :: "string \<Rightarrow> bool" where
  "is_strategy_override_key key =
     (if \<not> py_startswith key ''strategy.'' then False
      else case py_split (CHR ''.'') key of
             [_, _, param] \<Rightarrow> param \<in> strategy_overridable_keys
           | _ \<Rightarrow> False)"

text \<open>The last part of an override key (the code splits it off once the test has passed).\<close>

definition override_param :: "string \<Rightarrow> string" where
  "override_param key = last (py_split (CHR ''.'') key)"

definition default_values :: "(string \<times> string) list" where
  "default_values =
    [(''position_size_max_pct'', ''10''), (''position_size_min_pct'', ''2''), (''max_positions'', ''10''),
     (''risk_per_trade_pct'', ''0.5''), (''daily_loss_pct'', ''2''), (''stop_count'', ''5''),
     (''cooldown_hours'', ''24''), (''order_cancel_minutes'', ''3''), (''slippage_pct'', ''0.05''),
     (''liquidity_threshold'', ''50''), (''margin_ratio'', ''1.5''), (''margin_close_time'', ''15:20''),
     (''margin_close_priority'', ''1,2,3,5,4''), (''atr_period'', ''14''), (''stop_atr_mult'', ''1.5''),
     (''tp_atr_mult'', ''2.0''), (''trail_atr_mult'', ''1.5''), (''sync_mode'', ''auto''), (''log_level'', ''INFO'')]"

section \<open>Setting a value\<close>

type_synonym config = "(string \<times> string) list"

text \<open>\<open>int(value)\<close> or \<open>float(value)\<close> and the two bound checks.\<close>

definition read_number :: "bool \<Rightarrow> string \<Rightarrow> pyfloat py" where
  "read_number is_int value =
     (if is_int
      then (case py_int_of value of None \<Rightarrow> Inl (ValueError ''invalid literal for int()'')
                                  | Some i \<Rightarrow> Inr (Fin (real_of_int i)))
      else (case py_float_of value of None \<Rightarrow> Inl (ValueError ''could not convert string to float'')
                                    | Some x \<Rightarrow> Inr x))"

definition check_bounds :: "string \<Rightarrow> rule \<Rightarrow> pyfloat \<Rightarrow> unit py" where
  "check_bounds key rl number =
     (if (case min_value rl of None \<Rightarrow> False | Some lo \<Rightarrow> pf_lt number (Fin lo))
      then Inl (ValueError (key @ '' must be >= min''))
      else if (case max_value rl of None \<Rightarrow> False | Some hi \<Rightarrow> pf_lt (Fin hi) number)
      then Inl (ValueError (key @ '' must be <= max''))
      else Inr ())"

definition check_number :: "string \<Rightarrow> rule \<Rightarrow> string \<Rightarrow> unit py" where
  "check_number key rl value =
     (if min_value rl = None \<and> max_value rl = None then Inr ()
      else py_bind (read_number (as_int rl) value) (check_bounds key rl))"

definition check_allowed :: "string \<Rightarrow> rule \<Rightarrow> string \<Rightarrow> unit py" where
  "check_allowed key rl value =
     (case allowed_values rl of
        None \<Rightarrow> Inr ()
      | Some vs \<Rightarrow> if value \<in> set vs then Inr ()
                   else Inl (ValueError (key @ '' must be one of: '' @ py_join '', '' vs)))"

definition check_close_time :: "string \<Rightarrow> unit py" where
  "check_close_time value =
     (case py_split (CHR '':'') value of
        [hh, mm] \<Rightarrow>
          (case py_int_of hh of
             None \<Rightarrow> Inl (ValueError ''invalid literal for int()'')
           | Some h \<Rightarrow>
               if \<not> (0 \<le> h \<and> h \<le> 23) then Inl (ValueError ''margin_close_time must be HH:MM'')
               else (case py_int_of mm of
                       None \<Rightarrow> Inl (ValueError ''invalid literal for int()'')
                     | Some m \<Rightarrow> if 0 \<le> m \<and> m \<le> 59 then Inr ()
                                 else Inl (ValueError ''margin_close_time must be HH:MM'')))
      | _ \<Rightarrow> Inl (ValueError ''margin_close_time must be HH:MM''))"

definition priority_chunks :: "string \<Rightarrow> string list" where
  "priority_chunks value = map py_strip (filter (\<lambda>x. py_strip x \<noteq> []) (py_split (CHR '','') value))"

definition check_priority :: "string \<Rightarrow> unit py" where
  "check_priority value =
     (let chunks = priority_chunks value in
      if chunks = [] then Inl (ValueError ''margin_close_priority must not be empty'')
      else if card (set chunks) \<noteq> length chunks then Inl (ValueError ''margin_close_priority must be unique'')
      else if list_ex (\<lambda>x. \<not> py_isdigit x) chunks
      then Inl (ValueError ''margin_close_priority must contain numeric strategy IDs'')
      else Inr ())"

definition check_override :: "string \<Rightarrow> string \<Rightarrow> unit py" where
  "check_override key value =
     (case rule_of (override_param key) of
        None \<Rightarrow> Inl (KeyError (override_param key))
      | Some base \<Rightarrow> py_bind (read_number False value) (check_bounds key base))"

definition config_check :: "string \<Rightarrow> string \<Rightarrow> bool \<Rightarrow> unit py" where
  "config_check key value allow_read_only =
     (if rule_of key = None \<and> \<not> is_strategy_override_key key
      then Inl (KeyError (''unknown config key: '' @ key))
      else if (case rule_of key of None \<Rightarrow> False | Some rl \<Rightarrow> read_only rl) \<and> \<not> allow_read_only
      then Inl (ValueError (key @ '' is read-only''))
      else
        py_bind (case rule_of key of None \<Rightarrow> Inr () | Some rl \<Rightarrow> check_number key rl value) (\<lambda>_.
        py_bind (case rule_of key of None \<Rightarrow> Inr () | Some rl \<Rightarrow> check_allowed key rl value) (\<lambda>_.
        py_bind (if key = ''margin_close_time'' then check_close_time value else Inr ()) (\<lambda>_.
        py_bind (if key = ''margin_close_priority'' then check_priority value else Inr ()) (\<lambda>_.
          if is_strategy_override_key key then check_override key value else Inr ())))))"

definition config_set :: "string \<Rightarrow> string \<Rightarrow> bool \<Rightarrow> config \<Rightarrow> config py" where
  "config_set key value allow_read_only cfg =
     py_bind (config_check key value allow_read_only) (\<lambda>_. Inr (AList.update key value cfg))"

fun config_set_all :: "(string \<times> string) list \<Rightarrow> config \<Rightarrow> config py" where
  "config_set_all [] cfg = Inr cfg"
| "config_set_all ((k, v) # kvs) cfg = py_bind (config_set k v True cfg) (config_set_all kvs)"

text \<open>\<open>ConfigManager(initial)\<close>\<close>

definition config_init :: "(string \<times> string) list \<Rightarrow> config py" where
  "config_init initial = config_set_all initial default_values"

definition config_get :: "string \<Rightarrow> config \<Rightarrow> string py" where
  "config_get key cfg =
     (case map_of cfg key of None \<Rightarrow> Inl (KeyError (''unknown config key: '' @ key)) | Some v \<Rightarrow> Inr v)"

definition config_get_all :: "config \<Rightarrow> (string \<times> string) list" where
  "config_get_all cfg = cfg"

text \<open>
  \<open>describe\<close>: the Korean label and description are the texts registered for a key
  (\<open>Registered\<close>), the key itself with the fixed fallback text, or the override wording
  around those of the parameter.
\<close>

datatype display = Registered string | Unregistered string | Override string display

definition describe :: "string \<Rightarrow> display \<times> string list" where
  "describe key =
     (let meta = (\<lambda>k. if rule_of k \<noteq> None then Registered k else Unregistered k) in
      if is_strategy_override_key key
      then (Override (py_split (CHR ''.'') key ! 1) (meta (override_param key)), [])
      else (meta key,
            case rule_of key of
              None \<Rightarrow> []
            | Some rl \<Rightarrow> (case allowed_values rl of None \<Rightarrow> [] | Some vs \<Rightarrow> vs)))"

section \<open>The invariant\<close>

text \<open>
  A value is admissible for a key if the key is known and the value passes the checks (the
  read-only flag protects a key, it does not restrict its value).
\<close>

definition value_ok :: "string \<Rightarrow> string \<Rightarrow> bool" where
  "value_ok key value \<longleftrightarrow> config_check key value True = Inr ()"

definition config_inv :: "config \<Rightarrow> bool" where
  "config_inv cfg \<longleftrightarrow> distinct (map fst cfg) \<and> (\<forall>(k, v) \<in> set cfg. value_ok k v)"

lemma config_check_weaken: "config_check key value ro = Inr () \<Longrightarrow> value_ok key value"
  by (auto simp: value_ok_def config_check_def split: if_splits)

lemma config_set_Inr:
  "config_set key value ro cfg = Inr cfg' \<longleftrightarrow>
     config_check key value ro = Inr () \<and> cfg' = AList.update key value cfg"
  by (auto simp: config_set_def py_bind_Inr_iff)

lemma set_AList_update: "set (AList.update k v al) \<subseteq> insert (k, v) (set al)"
  by (induction al) auto

lemma config_inv_update: "config_inv cfg \<Longrightarrow> value_ok k v \<Longrightarrow> config_inv (AList.update k v cfg)"
  using set_AList_update [of k v cfg] by (auto simp: config_inv_def distinct_update)

lemma config_set_inv: "config_inv cfg \<Longrightarrow> config_set k v ro cfg = Inr cfg' \<Longrightarrow> config_inv cfg'"
  by (auto simp: config_set_Inr config_inv_update config_check_weaken)

lemma config_set_all_inv: "config_inv cfg \<Longrightarrow> config_set_all kvs cfg = Inr cfg' \<Longrightarrow> config_inv cfg'"
  by (induction kvs arbitrary: cfg) (auto simp: py_bind_Inr_iff, metis config_set_inv)

lemma config_get_set:
  "config_set k v ro cfg = Inr cfg' \<Longrightarrow>
     config_get k' cfg' = (if k' = k then Inr v else config_get k' cfg)"
  by (auto simp: config_set_Inr config_get_def update_conv')

lemma config_get_ok: "config_inv cfg \<Longrightarrow> config_get k cfg = Inr v \<Longrightarrow> value_ok k v"
  by (auto simp: config_inv_def config_get_def split: option.splits dest: map_of_SomeD)

section \<open>Evaluating the rules\<close>

lemma rule_of_simps [simp]:
  "rule_of ''position_size_max_pct'' = Some (num_rule (Some 1) (Some 30) False)"
  "rule_of ''position_size_min_pct'' = Some (num_rule (Some (1/2)) (Some 10) False)"
  "rule_of ''max_positions'' = Some (num_rule (Some 1) (Some 30) True)"
  "rule_of ''risk_per_trade_pct'' = Some (num_rule (Some (1/10)) (Some 3) False)"
  "rule_of ''daily_loss_pct'' = Some (num_rule (Some (1/2)) (Some 10) False)"
  "rule_of ''stop_count'' = Some (num_rule (Some 1) (Some 20) True)"
  "rule_of ''cooldown_hours'' = Some (num_rule (Some 0) (Some 72) True)"
  "rule_of ''order_cancel_minutes'' = Some (num_rule (Some 1) (Some 30) True)"
  "rule_of ''slippage_pct'' = Some (num_rule (Some 0) (Some (1/2)) False)"
  "rule_of ''liquidity_threshold'' = Some (num_rule (Some 10) None False)"
  "rule_of ''margin_ratio'' = Some (num_rule (Some 1) (Some (5/2)) False)"
  "rule_of ''daily_base_capital'' = Some (plain_rule\<lparr>read_only := True\<rparr>)"
  "rule_of ''margin_close_time'' = Some plain_rule"
  "rule_of ''margin_close_priority'' = Some plain_rule"
  "rule_of ''atr_period'' = Some (num_rule (Some 5) (Some 30) True)"
  "rule_of ''stop_atr_mult'' = Some (num_rule (Some (1/2)) (Some 5) False)"
  "rule_of ''tp_atr_mult'' = Some (num_rule (Some (1/2)) (Some 10) False)"
  "rule_of ''trail_atr_mult'' = Some (num_rule (Some (1/2)) (Some 5) False)"
  "rule_of ''sync_mode'' = Some (choice_rule [''auto'', ''manual''])"
  "rule_of ''log_level'' = Some (choice_rule [''DEBUG'', ''INFO''])"
  by (simp_all add: rule_of_def config_rules_def)

lemma rule_fields [simp]:
  "min_value (num_rule lo hi i) = lo" "max_value (num_rule lo hi i) = hi"
  "read_only (num_rule lo hi i) = False" "as_int (num_rule lo hi i) = i"
  "allowed_values (num_rule lo hi i) = None"
  "min_value plain_rule = None" "max_value plain_rule = None" "read_only plain_rule = False"
  "allowed_values plain_rule = None"
  "min_value (choice_rule vs) = None" "max_value (choice_rule vs) = None"
  "read_only (choice_rule vs) = False" "allowed_values (choice_rule vs) = Some vs"
  by (simp_all add: num_rule_def plain_rule_def choice_rule_def)

lemma number_literals:
  "read_number False ''10'' = Inr (Fin 10)" "read_number False ''2'' = Inr (Fin 2)"
  "read_number False ''0.5'' = Inr (Fin (1/2))" "read_number False ''0.05'' = Inr (Fin (5/100))"
  "read_number False ''50'' = Inr (Fin 50)" "read_number False ''1.5'' = Inr (Fin (3/2))"
  "read_number False ''2.0'' = Inr (Fin 2)" "read_number True ''10'' = Inr (Fin 10)"
  "read_number True ''5'' = Inr (Fin 5)" "read_number True ''24'' = Inr (Fin 24)"
  "read_number True ''3'' = Inr (Fin 3)" "read_number True ''14'' = Inr (Fin 14)"
  "read_number False ''nan'' = Inr NaN"
  by (simp_all add: read_number_def text_eval)

lemma default_texts_ok:
  "check_close_time ''15:20'' = Inr ()" "check_priority ''1,2,3,5,4'' = Inr ()"
  by (simp_all add: check_close_time_def check_priority_def priority_chunks_def py_isdigit_def
        py_isdigit_char_def text_eval)

lemmas check_eval = value_ok_def config_check_def check_number_def check_bounds_def check_allowed_def
  is_strategy_override_key_def

lemma default_values_ok: "config_inv default_values"
  by (simp add: config_inv_def default_values_def check_eval number_literals default_texts_ok
        choice_rule_def plain_rule_def)

section \<open>What an admissible value is\<close>

lemma value_ok_int:
  assumes "value_ok key v" "rule_of key = Some (num_rule (Some lo) (Some hi) True)"
  shows "\<exists>i. py_int_of v = Some i \<and> lo \<le> real_of_int i \<and> real_of_int i \<le> hi"
proof -
  have "check_number key (num_rule (Some lo) (Some hi) True) v = Inr ()"
    using assms by (auto simp: value_ok_def config_check_def py_bind_Inr_iff)
  then show ?thesis
    by (auto simp: check_number_def read_number_def check_bounds_def py_bind_Inr_iff split: option.splits if_splits)
qed

lemma value_ok_float:
  assumes "value_ok key v" "rule_of key = Some (num_rule (Some lo) (Some hi) False)"
  shows "py_float_of v = Some NaN \<or> (\<exists>x. py_float_of v = Some (Fin x) \<and> lo \<le> x \<and> x \<le> hi)"
proof -
  have "check_number key (num_rule (Some lo) (Some hi) False) v = Inr ()"
    using assms by (auto simp: value_ok_def config_check_def py_bind_Inr_iff)
  then obtain y where "py_float_of v = Some y" "\<not> pf_lt y (Fin lo)" "\<not> pf_lt (Fin hi) y"
    by (auto simp: check_number_def read_number_def check_bounds_def py_bind_Inr_iff split: option.splits if_splits)
  then show ?thesis by (cases y) auto
qed

lemma value_ok_override:
  assumes "value_ok key v" "is_strategy_override_key key" "rule_of (override_param key) = Some (num_rule (Some lo) (Some hi) False)"
  shows "py_float_of v = Some NaN \<or> (\<exists>x. py_float_of v = Some (Fin x) \<and> lo \<le> x \<and> x \<le> hi)"
proof -
  have "check_override key v = Inr ()"
    using assms by (auto simp: value_ok_def config_check_def py_bind_Inr_iff)
  then obtain y where "py_float_of v = Some y" "\<not> pf_lt y (Fin lo)" "\<not> pf_lt (Fin hi) y"
    using assms(3)
    by (auto simp: check_override_def read_number_def check_bounds_def py_bind_Inr_iff split: option.splits if_splits)
  then show ?thesis by (cases y) auto
qed

lemma value_ok_priority:
  assumes "value_ok ''margin_close_priority'' v"
  shows "priority_chunks v \<noteq> [] \<and> distinct (priority_chunks v) \<and> list_all py_isdigit (priority_chunks v)"
proof -
  have "check_priority v = Inr ()"
    using assms by (auto simp: value_ok_def config_check_def py_bind_Inr_iff)
  then show ?thesis
    by (auto simp: check_priority_def Let_def list_ex_iff list_all_iff card_distinct split: if_splits)
qed

section \<open>What the manager refuses with\<close>

text \<open>A computation that raises nothing but \<open>KeyError\<close> and \<open>ValueError\<close>.\<close>

definition kv_only :: "'a py \<Rightarrow> bool" where
  "kv_only r \<longleftrightarrow> (case r of Inl x \<Rightarrow> is_key_or_value_error x | Inr _ \<Rightarrow> True)"

lemma kv_only_simps [simp]: "kv_only (Inr v)" "kv_only (Inl x) \<longleftrightarrow> is_key_or_value_error x"
  by (simp_all add: kv_only_def)

lemma kv_only_bind: "kv_only a \<Longrightarrow> (\<And>v. kv_only (f v)) \<Longrightarrow> kv_only (py_bind a f)"
  by (cases a) auto

lemma kv_only_if: "kv_only a \<Longrightarrow> kv_only b \<Longrightarrow> kv_only (if c then a else b)"
  by simp

lemma kv_only_option: "kv_only a \<Longrightarrow> (\<And>x. kv_only (f x)) \<Longrightarrow> kv_only (case z of None \<Rightarrow> a | Some x \<Rightarrow> f x)"
  by (cases z) simp_all

lemma kv_only_checks [simp]:
  "kv_only (check_bounds k rl n)" "kv_only (read_number i v)" "kv_only (check_allowed k rl v)"
  "kv_only (check_close_time v)" "kv_only (check_priority v)"
  by (auto simp: check_bounds_def read_number_def check_allowed_def check_close_time_def check_priority_def Let_def
      split: option.splits list.splits)

lemma kv_only_numbers [simp]: "kv_only (check_number k rl v)" "kv_only (check_override k v)"
  by (auto simp: check_number_def check_override_def intro: kv_only_bind split: option.splits)

lemma config_set_kv_only:
  assumes "config_set k v ro cfg = Inl x"
  shows "is_key_or_value_error x"
proof -
  have "kv_only (config_check k v ro)"
    unfolding config_check_def by (intro kv_only_if kv_only_bind kv_only_option) simp_all
  then show ?thesis using assms by (auto simp: config_set_def py_bind_Inl_iff)
qed

end
