(* ===== verification/Risk_Engine.thy ===== *)
theory Risk_Engine
  imports Domain_Models
begin

text \<open>
  \<open>app/risk/engine.py\<close>: the limits, the average true range, the stop and take-profit prices and
  the forced-close order. The specification of the forced close is the shortest prefix of the
  priority order that brings the exposure down to the base capital.
\<close>

section \<open>The code\<close>

record position_exposure =
  ex_position_id :: int
  ex_strategy_id :: string
  ex_market_value :: real

definition can_open_new_position :: "int \<Rightarrow> int \<Rightarrow> bool" where
  "can_open_new_position open_count max_positions = (open_count < max_positions)"

definition hit_daily_loss_limit :: "real \<Rightarrow> real \<Rightarrow> bool" where
  "hit_daily_loss_limit daily_loss_pct daily_loss_limit_pct = (daily_loss_pct \<ge> daily_loss_limit_pct)"

definition hit_stop_count_limit :: "int \<Rightarrow> int \<Rightarrow> bool" where
  "hit_stop_count_limit stop_count stop_count_limit = (stop_count \<ge> stop_count_limit)"

text \<open>
  \<open>compute_atr\<close>: the loop over \<open>range(n)\<close>; the close before the first is the first itself.
\<close>

definition true_range :: "real \<Rightarrow> real \<Rightarrow> real \<Rightarrow> real" where
  "true_range high low prev_close = max (max (high - low) \<bar>high - prev_close\<bar>) \<bar>low - prev_close\<bar>"

definition true_ranges :: "real list \<Rightarrow> real list \<Rightarrow> real list \<Rightarrow> real list" where
  "true_ranges highs lows closes =
     (let n = min (min (length highs) (length lows)) (length closes) in
      map (\<lambda>i. true_range (highs ! i) (lows ! i) (if i > 0 then closes ! (i - 1) else closes ! i)) [0..<n])"

definition compute_atr :: "real list \<Rightarrow> real list \<Rightarrow> real list \<Rightarrow> real py" where
  "compute_atr highs lows closes =
     (if highs = [] \<or> lows = [] \<or> closes = [] then Inl (ValueError ''high/low/close series are required'')
      else (let trs = true_ranges highs lows closes in py_div (sum_list trs) (real (length trs))))"

definition build_stop_take_profit :: "real \<Rightarrow> real \<Rightarrow> real \<Rightarrow> real \<Rightarrow> real \<times> real" where
  "build_stop_take_profit entry_price atr_value stop_atr_mult tp_atr_mult =
     (max (entry_price - atr_value * stop_atr_mult) 0, entry_price + atr_value * tp_atr_mult)"

definition priority_rank :: "string list \<Rightarrow> position_exposure \<Rightarrow> nat" where
  "priority_rank priority x =
     (if ex_strategy_id x \<in> set priority
      then length (takeWhile (\<lambda>p. p \<noteq> ex_strategy_id x) priority)
      else length priority)"

fun close_until :: "real \<Rightarrow> real \<Rightarrow> position_exposure list \<Rightarrow> int list" where
  "close_until base running [] = []"
| "close_until base running (row # rows) =
     (let running' = running - ex_market_value row in
      ex_position_id row # (if running' \<le> base then [] else close_until base running' rows))"

definition margin_forced_close_order ::
  "position_exposure list \<Rightarrow> real \<Rightarrow> string list \<Rightarrow> int list" where
  "margin_forced_close_order exposures daily_base_capital priority =
     (let total = sum_list (map ex_market_value exposures) in
      if total \<le> daily_base_capital then []
      else close_until daily_base_capital total (sort_key (priority_rank priority) exposures))"

section \<open>Average true range\<close>

lemma true_range_ge: "high - low \<le> true_range high low p"
  by (simp add: true_range_def)

lemma true_range_nonneg [simp]: "0 \<le> true_range high low p"
  by (simp add: true_range_def)

lemma true_range_shift: "true_range (h + d) (l + d) (p + d) = true_range h l p"
  by (simp add: true_range_def)

lemma true_range_scale: "0 \<le> k \<Longrightarrow> true_range (k * h) (k * l) (k * p) = k * true_range h l p"
  by (simp add: true_range_def max_mult_distrib_left right_diff_distrib [symmetric] abs_mult)

lemma true_ranges_length:
  "length (true_ranges hs ls cs) = min (min (length hs) (length ls)) (length cs)"
  by (simp add: true_ranges_def Let_def)

lemma true_ranges_map:
  assumes "\<And>h l p. true_range (f h) (f l) (f p) = g (true_range h l p)"
  shows "true_ranges (map f hs) (map f ls) (map f cs) = map g (true_ranges hs ls cs)"
  by (rule nth_equalityI) (auto simp: true_ranges_def Let_def assms)

lemma compute_atr_Inr:
  assumes "hs \<noteq> []" "ls \<noteq> []" "cs \<noteq> []"
  shows "compute_atr hs ls cs =
         Inr (sum_list (true_ranges hs ls cs) / real (length (true_ranges hs ls cs)))"
proof -
  have "length (true_ranges hs ls cs) \<noteq> 0" using assms by (simp add: true_ranges_length)
  then show ?thesis using assms by (simp add: compute_atr_def Let_def py_div_def)
qed

lemma compute_atr_nonneg: "compute_atr hs ls cs = Inr a \<Longrightarrow> 0 \<le> a"
  by (auto simp: compute_atr_def Let_def py_div_def true_ranges_def split: if_splits
        intro!: divide_nonneg_nonneg sum_list_nonneg)

lemma compute_atr_total:
  "(\<exists>a. compute_atr hs ls cs = Inr a) \<longleftrightarrow> hs \<noteq> [] \<and> ls \<noteq> [] \<and> cs \<noteq> []"
  using compute_atr_Inr [of hs ls cs] by (auto simp: compute_atr_def)

lemma compute_atr_shift:
  "compute_atr (map (\<lambda>x. x + d) hs) (map (\<lambda>x. x + d) ls) (map (\<lambda>x. x + d) cs) = compute_atr hs ls cs"
proof -
  have "true_ranges (map (\<lambda>x. x + d) hs) (map (\<lambda>x. x + d) ls) (map (\<lambda>x. x + d) cs) = true_ranges hs ls cs"
    using true_ranges_map [of "\<lambda>x. x + d" "\<lambda>x. x"] by (simp add: true_range_shift)
  then show ?thesis by (simp add: compute_atr_def)
qed

lemma compute_atr_scale:
  assumes "0 \<le> k" "compute_atr hs ls cs = Inr a"
  shows "compute_atr (map ((*) k) hs) (map ((*) k) ls) (map ((*) k) cs) = Inr (k * a)"
proof -
  have ne: "hs \<noteq> []" "ls \<noteq> []" "cs \<noteq> []" using assms(2) compute_atr_total by blast+
  have "true_ranges (map ((*) k) hs) (map ((*) k) ls) (map ((*) k) cs) = map ((*) k) (true_ranges hs ls cs)"
    by (rule true_ranges_map) (simp add: true_range_scale assms(1))
  moreover have "a = sum_list (true_ranges hs ls cs) / real (length (true_ranges hs ls cs))"
    using assms(2) ne by (simp add: compute_atr_Inr)
  ultimately show ?thesis
    using ne by (simp add: compute_atr_Inr sum_list_const_mult)
qed

text \<open>The average true range is at least the average candle height.\<close>

lemma sum_list_mono_nth:
  assumes "length xs = length ys" "\<And>i. i < length xs \<Longrightarrow> xs ! i \<le> (ys ! i :: real)"
  shows "sum_list xs \<le> sum_list ys"
  using assms by (induction xs ys rule: list_induct2) (force, fastforce intro: add_mono)

section \<open>Forced close\<close>

lemma close_until_prefix:
  assumes "running = sum_list (map ex_market_value rows)" "base < running"
  shows "\<exists>k \<le> length rows. close_until base running rows = map ex_position_id (take k rows)
           \<and> (\<forall>j<k. base < sum_list (map ex_market_value (drop j rows)))
           \<and> (k = length rows \<or> sum_list (map ex_market_value (drop k rows)) \<le> base)"
  using assms
proof (induction rows arbitrary: running)
  case Nil
  then show ?case by simp
next
  case (Cons row rows)
  let ?r = "running - ex_market_value row"
  have r: "?r = sum_list (map ex_market_value rows)" using Cons.prems(1) by simp
  show ?case
  proof (cases "?r \<le> base")
    case True
    then show ?thesis using Cons.prems r by (intro exI [of _ 1]) (auto simp: Let_def)
  next
    case False
    then obtain k where k: "k \<le> length rows" "close_until base ?r rows = map ex_position_id (take k rows)"
      "\<forall>j<k. base < sum_list (map ex_market_value (drop j rows))"
      "k = length rows \<or> sum_list (map ex_market_value (drop k rows)) \<le> base"
      using Cons.IH [OF r] by auto
    have "\<forall>j<Suc k. base < sum_list (map ex_market_value (drop j (row # rows)))"
    proof (intro allI impI)
      fix j assume "j < Suc k"
      then show "base < sum_list (map ex_market_value (drop j (row # rows)))"
        using k(3) Cons.prems by (cases j) auto
    qed
    then show ?thesis using False k by (intro exI [of _ "Suc k"]) (auto simp: Let_def)
  qed
qed

lemma sum_list_sort_key:
  "sum_list (map f (sort_key g xs)) = sum_list (map f (xs :: 'a list) :: real list)"
  by (metis mset_map mset_sort sum_mset_sum_list)

lemma priority_rank_le: "priority_rank ps x \<le> length ps"
  by (simp add: priority_rank_def length_takeWhile_le)

lemma takeWhile_ne_nth:
  "distinct ps \<Longrightarrow> i < length ps \<Longrightarrow> length (takeWhile (\<lambda>p. p \<noteq> ps ! i) ps) = i"
proof (induction ps arbitrary: i)
  case (Cons p ps)
  then show ?case by (cases i) auto
qed simp

lemma priority_rank_nth:
  "distinct ps \<Longrightarrow> i < length ps \<Longrightarrow> ex_strategy_id x = ps ! i \<Longrightarrow> priority_rank ps x = i"
  by (auto simp: priority_rank_def takeWhile_ne_nth)

end
