(* ===== verification/Loop_Core.thy ===== *)
theory Loop_Core
  imports Strategies Config_Manager Risk_Engine
begin

text \<open>
  \<open>app/loops/core.py\<close>: the signal queue between the loops, the scanner that fills it, the
  executor that empties it, the forced-close decision and the maintenance loop. The queue's
  contract is the locale \<open>signal_queue\<close>; what its clients rely on (first in, first out, nothing
  lost, nothing served twice) is proved there once and holds for the list the code keeps.
\<close>

section \<open>The code\<close>

type_synonym queue = "signal list"

definition put_many :: "signal list \<Rightarrow> queue \<Rightarrow> queue" where
  "put_many signals items = items @ signals"

definition pop_one :: "queue \<Rightarrow> signal option \<times> queue" where
  "pop_one items = (case items of [] \<Rightarrow> (None, []) | s # rest \<Rightarrow> (Some s, rest))"

text \<open>\<open>LoopBScanner\<close> over an engine that may raise: the count of the signals it enqueued.\<close>

definition scanner_run_once :: "signal list py \<Rightarrow> queue \<Rightarrow> nat py \<times> queue" where
  "scanner_run_once scan_signals q =
     (case scan_signals of
        Inl x \<Rightarrow> (Inl x, q)
      | Inr signals \<Rightarrow> (Inr (length signals), put_many signals q))"

definition run_for_timeframe ::
  "strategy list \<Rightarrow> string \<Rightarrow> string \<Rightarrow> candle list \<Rightarrow> datetime \<Rightarrow> queue \<Rightarrow> nat py \<times> queue" where
  "run_for_timeframe strategies timeframe ticker candles now q =
     (case scan strategies timeframe ticker candles now of
        Inl x \<Rightarrow> (Inl x, q)
      | Inr signals \<Rightarrow> (Inr (length signals), put_many signals q))"

text \<open>\<open>LoopAExecutor.run_once\<close>: the executor is a parameter; its exceptions propagate.\<close>

definition executor_run_once ::
  "(signal \<Rightarrow> 'w \<Rightarrow> unit py \<times> 'w) \<Rightarrow> queue \<Rightarrow> 'w \<Rightarrow> bool py \<times> queue \<times> 'w" where
  "executor_run_once execute q w =
     (case pop_one q of
        (None, q') \<Rightarrow> (Inr False, q', w)
      | (Some s, q') \<Rightarrow>
          (case execute s w of
             (Inl x, w') \<Rightarrow> (Inl x, q', w')
           | (Inr _, w') \<Rightarrow> (Inr True, q', w')))"

text \<open>
  \<open>resolve_margin_forced_close\<close>: \<open>float\<close> of the base capital, which may raise, then the split
  priority list. A capital of infinity or NaN compares false with any total: NaN closes
  everything in order, infinity nothing; only the finite case calls the engine's model.
\<close>

definition forced_close_pf :: "position_exposure list \<Rightarrow> pyfloat \<Rightarrow> string list \<Rightarrow> int list" where
  "forced_close_pf exposures base priority =
     (case base of
        Fin b \<Rightarrow> margin_forced_close_order exposures b priority
      | PosInf \<Rightarrow> []
      | _ \<Rightarrow> map ex_position_id (sort_key (priority_rank priority) exposures))"

definition resolve_margin_forced_close :: "config \<Rightarrow> position_exposure list \<Rightarrow> int list py" where
  "resolve_margin_forced_close cfg exposures =
     py_bind (config_get ''daily_base_capital'' cfg) (\<lambda>raw.
       (case py_float_of raw of
          None \<Rightarrow> Inl (ValueError ''could not convert string to float'')
        | Some base \<Rightarrow>
            py_bind (config_get ''margin_close_priority'' cfg) (\<lambda>pr.
              Inr (forced_close_pf exposures base (priority_chunks pr)))))"

text \<open>\<open>LoopCMaintainer.run_once\<close>: the hook, when the service has one, then the three steps in order.\<close>

definition maintainer_run_once ::
  "('m \<Rightarrow> 'm) option \<Rightarrow> ('m \<Rightarrow> 'm) \<Rightarrow> ('m \<Rightarrow> 'm) \<Rightarrow> ('m \<Rightarrow> 'm) \<Rightarrow> 'm \<Rightarrow> 'm" where
  "maintainer_run_once hook refresh optimize aggregate m =
     aggregate (optimize (refresh (case hook of None \<Rightarrow> m | Some h \<Rightarrow> h m)))"

section \<open>The contract of the queue\<close>

locale signal_queue =
  fixes put :: "'s list \<Rightarrow> 'q \<Rightarrow> 'q"
    and pop :: "'q \<Rightarrow> 's option \<times> 'q"
    and contents :: "'q \<Rightarrow> 's list"
  assumes contents_put: "contents (put xs q) = contents q @ xs"
    and pop_empty: "contents q = [] \<Longrightarrow> pop q = (None, q') \<Longrightarrow> contents q' = []"
    and pop_none: "pop q = (None, q') \<Longrightarrow> contents q = []"
    and pop_some: "pop q = (Some s, q') \<Longrightarrow> contents q = s # contents q'"
begin

text \<open>Serving up to \<open>n\<close> times.\<close>

fun serve :: "nat \<Rightarrow> 'q \<Rightarrow> 's list \<times> 'q" where
  "serve 0 q = ([], q)"
| "serve (Suc n) q =
     (case pop q of
        (None, q') \<Rightarrow> ([], q')
      | (Some s, q') \<Rightarrow> (case serve n q' of (ss, q'') \<Rightarrow> (s # ss, q'')))"

lemma serve_contents:
  "serve n q = (ss, q') \<Longrightarrow> ss = take n (contents q) \<and> contents q' = drop n (contents q)"
proof (induction n arbitrary: q ss q')
  case (Suc n)
  show ?case
  proof (cases "pop q")
    case (Pair so q1)
    show ?thesis
    proof (cases so)
      case None
      then show ?thesis using Suc.prems Pair pop_none [of q q1] pop_empty [of q q1] by simp
    next
      case (Some s)
      obtain ts q2 where s: "serve n q1 = (ts, q2)" by fastforce
      then show ?thesis using Suc.prems Pair Some pop_some [of q s q1] Suc.IH [OF s] by simp
    qed
  qed
qed simp

lemma contents_fold_put: "contents (fold put xss q) = contents q @ concat xss"
  by (induction xss arbitrary: q) (simp_all add: contents_put)

text \<open>However signals are put in, they are served in that order, each once.\<close>

lemma served_in_order:
  assumes "contents q = []" "serve n (fold put xss q) = (ss, q')"
  shows "ss @ contents q' = concat xss" "length ss = min n (length (concat xss))"
  using serve_contents [OF assms(2)] by (simp_all add: contents_fold_put assms(1))

end

interpretation sq: signal_queue put_many pop_one "\<lambda>q. q"
  by unfold_locales (auto simp: put_many_def pop_one_def split: list.splits)

section \<open>Facts\<close>

lemma pop_one_simps [simp]: "pop_one [] = (None, [])" "pop_one (s # q) = (Some s, q)"
  by (simp_all add: pop_one_def)

lemma run_for_timeframe_appends:
  "run_for_timeframe ss tf ticker cs now q = (Inr n, q') \<Longrightarrow> \<exists>xs. q' = q @ xs \<and> length xs = n"
  by (auto simp: run_for_timeframe_def put_many_def split: sum.splits)

lemma run_for_timeframe_error:
  "run_for_timeframe ss tf ticker cs now q = (Inl x, q') \<Longrightarrow> q' = q"
  by (auto simp: run_for_timeframe_def split: sum.splits)

end
