(* ===== verification/Runtime_Safety.thy ===== *)
theory Runtime_Safety
  imports Domain_Models
begin

text \<open>
  \<open>app/services/runtime_state.py\<close> and \<open>app/services/runtime_safety.py\<close>: the pause and halt
  flags, and the safety manager that records critical events, halts the runtime and sends an
  alert. The alert sink (the Telegram client, which never raises: \<open>send_message\<close> catches every
  exception) is modelled by the list of messages handed to it, or is absent.
\<close>

section \<open>Runtime state\<close>

record pending_config_change =
  pc_key :: string
  pc_value :: string
  pc_changed_by :: string

record runtime_state =
  entry_paused :: bool
  all_paused :: bool
  halted :: bool
  halt_reason :: "string option"
  halted_at :: "instant option"
  pending_change :: "pending_config_change option"

definition runtime_init :: runtime_state where
  "runtime_init = \<lparr>entry_paused = False, all_paused = False, halted = False,
     halt_reason = None, halted_at = None, pending_change = None\<rparr>"

definition pause_entry :: "runtime_state \<Rightarrow> runtime_state" where
  "pause_entry s = s\<lparr>entry_paused := True, all_paused := False\<rparr>"

definition pause_all :: "runtime_state \<Rightarrow> runtime_state" where
  "pause_all s = s\<lparr>entry_paused := True, all_paused := True\<rparr>"

definition halt :: "instant \<Rightarrow> string \<Rightarrow> runtime_state \<Rightarrow> runtime_state" where
  "halt now reason s =
     (pause_all s)\<lparr>halted := True, halt_reason := Some reason, halted_at := Some now\<rparr>"

definition resume :: "runtime_state \<Rightarrow> runtime_state" where
  "resume s = s\<lparr>entry_paused := False, all_paused := False, halted := False, halt_reason := None\<rparr>"

declare pause_entry_def [op_defs] pause_all_def [op_defs] halt_def [op_defs] resume_def [op_defs]

section \<open>Safety manager\<close>

record runtime_event =
  ev_level :: string
  ev_code :: string
  ev_message :: string
  ev_created_at :: instant

datatype alert = CriticalAlert string string

record safety =
  sf_runtime :: runtime_state
  sf_alerts :: "alert list option"
  sf_max_events :: nat
  sf_events :: "runtime_event list"

definition safety_init :: "bool \<Rightarrow> nat \<Rightarrow> safety" where
  "safety_init has_sink mx =
     \<lparr>sf_runtime = runtime_init, sf_alerts = (if has_sink then Some [] else None),
      sf_max_events = mx, sf_events = []\<rparr>"

text \<open>
  \<open>RuntimeSafetyManager.critical\<close>: append the event, drop the oldest one if there are too
  many, halt, and alert. The two clock readings of the call are the one instant \<open>now\<close>.
\<close>

definition push_event :: "nat \<Rightarrow> runtime_event list \<Rightarrow> runtime_event \<Rightarrow> runtime_event list" where
  "push_event mx es e = (let es' = es @ [e] in if length es' > mx then tl es' else es')"

definition critical :: "instant \<Rightarrow> string \<Rightarrow> string \<Rightarrow> safety \<Rightarrow> safety" where
  "critical now cd msg s =
     (let e = \<lparr>ev_level = ''CRITICAL'', ev_code = cd, ev_message = msg, ev_created_at = now\<rparr> in
      s\<lparr>sf_events := push_event (sf_max_events s) (sf_events s) e,
        sf_runtime := halt now (cd @ '': '' @ msg) (sf_runtime s),
        sf_alerts := map_option (\<lambda>as. as @ [CriticalAlert cd msg]) (sf_alerts s)\<rparr>)"

definition latest_events :: "int \<Rightarrow> safety \<Rightarrow> runtime_event list" where
  "latest_events limit s =
     (if limit \<le> 0 then []
      else drop (length (sf_events s) - nat limit) (sf_events s))"

text \<open>\<open>events_on\<close>: the local date of an instant is the time zone's, a parameter.\<close>

definition events_on :: "(instant \<Rightarrow> int) \<Rightarrow> int \<Rightarrow> safety \<Rightarrow> runtime_event list" where
  "events_on local_day day s = filter (\<lambda>e. local_day (ev_created_at e) = day) (sf_events s)"

section \<open>Facts\<close>

lemma halt_flags [simp]:
  "halted (halt now r s)" "entry_paused (halt now r s)" "all_paused (halt now r s)"
  "halt_reason (halt now r s) = Some r" "halted_at (halt now r s) = Some now"
  "pending_change (halt now r s) = pending_change s"
  by (simp_all add: op_defs)

lemma critical_halts [simp]: "halted (sf_runtime (critical now c m s))"
  by (simp add: critical_def Let_def)

lemma critical_frame [frame_simps]:
  "sf_max_events (critical now c m s) = sf_max_events s"
  "pending_change (sf_runtime (critical now c m s)) = pending_change (sf_runtime s)"
  by (simp_all add: critical_def Let_def)

lemma length_push_event: "length es \<le> mx \<Longrightarrow> length (push_event mx es e) \<le> mx"
  by (auto simp: push_event_def Let_def)

text \<open>The journal never outgrows \<open>max_events\<close>, and holds the newest event.\<close>

definition safety_inv :: "safety \<Rightarrow> bool" where
  "safety_inv s \<longleftrightarrow> length (sf_events s) \<le> sf_max_events s"

lemma critical_inv: "safety_inv s \<Longrightarrow> safety_inv (critical now c m s)"
  by (simp add: safety_inv_def critical_def Let_def length_push_event)

lemma push_event_last: "mx > 0 \<Longrightarrow> push_event mx es e \<noteq> [] \<and> last (push_event mx es e) = e"
  by (cases es) (auto simp: push_event_def Let_def)

lemma latest_events_1_critical:
  assumes "sf_max_events s > 0"
  shows "map ev_code (latest_events 1 (critical now c m s)) = [c]"
proof -
  let ?e = "\<lparr>ev_level = ''CRITICAL'', ev_code = c, ev_message = m, ev_created_at = now\<rparr>"
  let ?es = "push_event (sf_max_events s) (sf_events s) ?e"
  have "?es \<noteq> []" "last ?es = ?e"
    using push_event_last [OF assms] by auto
  then have "drop (length ?es - 1) ?es = [?e]"
    by (cases ?es rule: rev_cases) auto
  then show ?thesis
    by (simp add: latest_events_def critical_def Let_def)
qed

text \<open>A run of critical reports: after it the runtime is halted with the last reason.\<close>

fun criticals :: "(instant \<times> string \<times> string) list \<Rightarrow> safety \<Rightarrow> safety" where
  "criticals [] s = s"
| "criticals ((t, c, m) # rs) s = criticals rs (critical t c m s)"

lemma criticals_append: "criticals (xs @ ys) s = criticals ys (criticals xs s)"
  by (induction xs arbitrary: s) auto

lemma criticals_inv: "safety_inv s \<Longrightarrow> safety_inv (criticals rs s)"
  by (induction rs arbitrary: s) (auto simp: critical_inv)

lemma criticals_frame [frame_simps]: "sf_max_events (criticals rs s) = sf_max_events s"
  by (induction rs arbitrary: s) (auto simp: frame_simps)

text \<open>The journal is the tail of all events ever reported, of the length it may have.\<close>

lemma criticals_journal:
  assumes "sf_events s = []" "sf_max_events s > 0"
  shows "map (\<lambda>e. (ev_created_at e, ev_code e, ev_message e)) (sf_events (criticals rs s))
         = drop (length rs - sf_max_events s) rs"
proof (induction rs rule: rev_induct)
  case Nil
  then show ?case using assms by simp
next
  case (snoc r rs)
  obtain t c m where r: "r = (t, c, m)" by (cases r)
  let ?q = "criticals rs s"
  let ?f = "\<lambda>e. (ev_created_at e, ev_code e, ev_message e)"
  have len: "length (sf_events ?q) = length (drop (length rs - sf_max_events s) rs)"
    using arg_cong [OF snoc, of length] by simp
  have "sf_events (criticals (rs @ [r]) s)
        = push_event (sf_max_events s) (sf_events ?q)
            \<lparr>ev_level = ''CRITICAL'', ev_code = c, ev_message = m, ev_created_at = t\<rparr>"
    by (simp add: criticals_append r critical_def Let_def frame_simps)
  moreover have "map ?f (push_event (sf_max_events s) (sf_events ?q)
            \<lparr>ev_level = ''CRITICAL'', ev_code = c, ev_message = m, ev_created_at = t\<rparr>)
      = drop (length (rs @ [r]) - sf_max_events s) (rs @ [r])"
  proof (cases "length rs < sf_max_events s")
    case True
    then show ?thesis using snoc len r by (simp add: push_event_def Let_def)
  next
    case False
    then have ne: "sf_events ?q \<noteq> []" using len assms(2) by auto
    have "map ?f (tl (sf_events ?q)) = tl (drop (length rs - sf_max_events s) rs)"
      by (simp only: map_tl snoc)
    also have "\<dots> = drop (Suc (length rs) - sf_max_events s) rs"
      using False by (simp add: tl_drop drop_Suc Suc_diff_le)
    finally show ?thesis
      using False ne len r assms(2) by (auto simp: push_event_def Let_def)
  qed
  ultimately show ?case by simp
qed

end
