(* ===== verification/Order_Service.thy ===== *)
theory Order_Service
  imports Runtime_Safety
begin

text \<open>
  \<open>app/orders/service.py\<close> and \<open>app/orders/paper_gateway.py\<close>: order placement with one
  reconciled retry over an order gateway. The gateway (a protocol in the code) is a pair of
  functions over an environment state \<open>'e\<close>; what it promises its client is the locale
  \<open>order_gateway\<close>, interpreted here on the paper gateway and in \<open>Kiwoom_Gateway\<close> on the broker
  gateway.
\<close>

section \<open>The code\<close>

type_synonym 'e place_fn = "order_request \<Rightarrow> 'e \<Rightarrow> order_result py \<times> 'e"
type_synonym 'e status_fn = "string \<Rightarrow> 'e \<Rightarrow> order_status py \<times> 'e"

text \<open>\<open>_critical\<close>: nothing without a safety manager.\<close>

definition report :: "instant \<Rightarrow> string \<Rightarrow> string \<Rightarrow> safety option \<Rightarrow> safety option" where
  "report now cd msg sf = map_option (critical now cd msg) sf"

text \<open>One placement: an exception is reported and becomes a failed result.\<close>

definition try_place ::
  "'e place_fn \<Rightarrow> instant \<Rightarrow> string \<Rightarrow> order_request \<Rightarrow> 'e \<times> safety option \<Rightarrow> order_result \<times> 'e \<times> safety option" where
  "try_place place now cd req s =
     (case s of (e, sf) \<Rightarrow>
        (case place req e of
           (Inr r, e') \<Rightarrow> (r, e', sf)
         | (Inl x, e') \<Rightarrow>
             (\<lparr>res_ok = False, res_order_id = None, res_error = Some (exn_str x)\<rparr>, e',
              report now cd (rq_ticker req @ '' '' @ rq_side req @ '': '' @ exn_str x) sf)))"

definition accepted_states :: "string set" where
  "accepted_states = {''accepted'', ''partial'', ''filled''}"

text \<open>
  The status check after a failed placement that carries an order id: \<open>Some\<close> result is the
  early return, \<open>None\<close> falls through. Nothing is asked when there is no order id.
\<close>

definition check_status ::
  "'e status_fn \<Rightarrow> instant \<Rightarrow> string \<Rightarrow> order_request \<Rightarrow> order_result \<Rightarrow> 'e \<times> safety option
     \<Rightarrow> order_result option \<times> 'e \<times> safety option" where
  "check_status status now label req r s =
     (case s of (e, sf) \<Rightarrow>
        (case res_order_id r of
           None \<Rightarrow> (None, e, sf)
         | Some oid \<Rightarrow>
            if oid = [] then (None, e, sf)
            else
              (case status oid e of
                 (Inl x, e') \<Rightarrow>
                   (Some \<lparr>res_ok = False, res_order_id = Some oid, res_error = Some ''status_check_failed''\<rparr>, e',
                    report now ''order_status_check_failed''
                      (rq_ticker req @ '' '' @ label @ '' order_id='' @ oid @ '': '' @ exn_str x) sf)
               | (Inr st, e') \<Rightarrow>
                   if st_exists st \<and> st_status st \<in> accepted_states
                   then (Some \<lparr>res_ok = True, res_order_id = Some oid, res_error = None\<rparr>, e', sf)
                   else (None, e', sf))))"

definition unresolved_error :: "order_result \<Rightarrow> order_result \<Rightarrow> string" where
  "unresolved_error second first =
     (if truthy_str (res_error second) then the (res_error second)
      else if truthy_str (res_error first) then the (res_error first)
      else ''unresolved'')"

definition place_with_reconcile ::
  "'e place_fn \<Rightarrow> 'e status_fn \<Rightarrow> instant \<Rightarrow> order_request \<Rightarrow> 'e \<times> safety option
     \<Rightarrow> order_result \<times> 'e \<times> safety option" where
  "place_with_reconcile place status now req s =
     (let (first, s1) = try_place place now ''order_place_exception'' req s in
      if res_ok first then (first, s1)
      else
        case check_status status now ''first'' req first s1 of
          (Some r, s2) \<Rightarrow> (r, s2)
        | (None, s2) \<Rightarrow>
            let (second, s3) = try_place place now ''order_retry_exception'' req s2 in
            if res_ok second then (second, s3)
            else
              (case check_status status now ''second'' req second s3 of
                 (Some r, s4) \<Rightarrow> (r, s4)
               | (None, (e4, sf4)) \<Rightarrow>
                   (\<lparr>res_ok = False, res_order_id = res_order_id second,
                     res_error = Some (unresolved_error second first)\<rparr>,
                    e4,
                    report now ''order_unresolved''
                      (rq_ticker req @ '' '' @ rq_side req @ '' unresolved after reconcile'') sf4)))"

declare report_def [op_defs] try_place_def [op_defs] check_status_def [op_defs]
  place_with_reconcile_def [op_defs]

subsection \<open>The paper gateway\<close>

type_synonym paper_gateway = nat  \<comment> \<open>the field \<open>_seq\<close>\<close>

definition paper_place_order :: "paper_gateway place_fn" where
  "paper_place_order req seq =
     (Inr \<lparr>res_ok = True, res_order_id = Some (''PAPER-'' @ show_nat (Suc seq)), res_error = None\<rparr>, Suc seq)"

definition paper_get_order_status :: "paper_gateway status_fn" where
  "paper_get_order_status oid seq =
     (Inr \<lparr>st_exists = True, st_status = ''filled'', st_filled_qty = Fin 1\<rparr>, seq)"

section \<open>What a gateway is asked: recording its calls\<close>

datatype gateway_call = Place order_request | Status string

definition logged_place :: "'e place_fn \<Rightarrow> ('e \<times> gateway_call list) place_fn" where
  "logged_place place req s = (case s of (e, l) \<Rightarrow> case place req e of (r, e') \<Rightarrow> (r, e', l @ [Place req]))"

definition logged_status :: "'e status_fn \<Rightarrow> ('e \<times> gateway_call list) status_fn" where
  "logged_status status oid s = (case s of (e, l) \<Rightarrow> case status oid e of (r, e') \<Rightarrow> (r, e', l @ [Status oid]))"

text \<open>The calls of one \<open>place_with_reconcile\<close> in the order they were made.\<close>

definition reconcile_calls ::
  "'e place_fn \<Rightarrow> 'e status_fn \<Rightarrow> instant \<Rightarrow> order_request \<Rightarrow> 'e \<Rightarrow> gateway_call list" where
  "reconcile_calls place status now req e =
     snd (fst (snd (place_with_reconcile (logged_place place) (logged_status status) now req ((e, []), None))))"

section \<open>Facts\<close>

lemma report_simps [simp]: "report now c m None = None" "report now c m (Some s) = Some (critical now c m s)"
  by (simp_all add: report_def)

lemma report_halts: "report now c m sf = Some s' \<Longrightarrow> halted (sf_runtime s')"
  by (auto simp: report_def)

text \<open>
  What a critical report keeps is kept by everything that reports: by the order service here, by the
  trading service and by Loop A in their theories. The journal's invariant is of this kind, and
  so is the halt, which nothing but a resumption ends.
\<close>

locale safety_observer =
  fixes P :: "safety \<Rightarrow> bool"
  assumes critical_keeps: "P s \<Longrightarrow> P (critical now c m s)"
begin

lemma report_inv: "pred_option P sf \<Longrightarrow> pred_option P (report now c m sf)"
  by (cases sf) (auto simp: critical_keeps)

lemma try_place_inv:
  "try_place place now cd req (e, sf) = (r, e', sf') \<Longrightarrow> pred_option P sf \<Longrightarrow> pred_option P sf'"
  by (auto simp: try_place_def report_inv split: prod.splits sum.splits)

lemma check_status_inv:
  "check_status status now l req r (e, sf) = (ro, e', sf') \<Longrightarrow> pred_option P sf \<Longrightarrow> pred_option P sf'"
  by (auto simp: check_status_def report_inv split: prod.splits sum.splits option.splits if_splits)

end

interpretation journal: safety_observer safety_inv
  by unfold_locales (rule critical_inv)

interpretation halts: safety_observer "\<lambda>s. halted (sf_runtime s)"
  by unfold_locales simp

lemma check_status_SomeD:
  assumes "check_status status now l req r (e, sf) = (Some q, e', sf')"
  shows "\<exists>oid. res_order_id r = Some oid \<and> oid \<noteq> [] \<and> res_order_id q = Some oid \<and>
           (res_ok q \<longrightarrow> (\<exists>st. fst (status oid e) = Inr st \<and> st_exists st \<and> st_status st \<in> accepted_states) \<and> sf' = sf) \<and>
           (\<not> res_ok q \<longrightarrow> res_error q = Some ''status_check_failed'' \<and> (\<exists>x. fst (status oid e) = Inl x) \<and>
              (\<exists>m. sf' = report now ''order_status_check_failed'' m sf))"
  using assms by (auto simp: check_status_def split: prod.splits sum.splits option.splits if_splits)

lemma try_place_okD:
  assumes "try_place place now cd req (e, sf) = (r, e', sf')" "res_ok r"
  shows "place req e = (Inr r, e') \<and> sf' = sf"
  using assms by (auto simp: try_place_def split: prod.splits sum.splits)

text \<open>
  The outcomes of one call. Each states what the two attempts returned, so a property of the
  service is a case distinction over this rule.
\<close>

lemma place_with_reconcile_cases:
  assumes "place_with_reconcile place status now req (e, sf) = (r, e', sf')"
  obtains (first_ok) "res_ok r" "place req e = (Inr r, e')" "sf' = sf"
  | (first_status) first e1 sf1 where
      "try_place place now ''order_place_exception'' req (e, sf) = (first, e1, sf1)" "\<not> res_ok first"
      "check_status status now ''first'' req first (e1, sf1) = (Some r, e', sf')"
  | (second_ok) first e1 sf1 e2 sf2 where
      "try_place place now ''order_place_exception'' req (e, sf) = (first, e1, sf1)" "\<not> res_ok first"
      "check_status status now ''first'' req first (e1, sf1) = (None, e2, sf2)"
      "res_ok r" "place req e2 = (Inr r, e')" "sf' = sf2"
  | (second_status) first e1 sf1 e2 sf2 second e3 sf3 where
      "try_place place now ''order_place_exception'' req (e, sf) = (first, e1, sf1)" "\<not> res_ok first"
      "check_status status now ''first'' req first (e1, sf1) = (None, e2, sf2)"
      "try_place place now ''order_retry_exception'' req (e2, sf2) = (second, e3, sf3)" "\<not> res_ok second"
      "check_status status now ''second'' req second (e3, sf3) = (Some r, e', sf')"
  | (unresolved) first e1 sf1 e2 sf2 second e3 sf3 sf4 where
      "try_place place now ''order_place_exception'' req (e, sf) = (first, e1, sf1)" "\<not> res_ok first"
      "check_status status now ''first'' req first (e1, sf1) = (None, e2, sf2)"
      "try_place place now ''order_retry_exception'' req (e2, sf2) = (second, e3, sf3)" "\<not> res_ok second"
      "check_status status now ''second'' req second (e3, sf3) = (None, e', sf4)"
      "\<not> res_ok r" "res_order_id r = res_order_id second" "res_error r = Some (unresolved_error second first)"
      "sf' = report now ''order_unresolved'' (rq_ticker req @ '' '' @ rq_side req @ '' unresolved after reconcile'') sf4"
proof -
  obtain first e1 sf1 where 1: "try_place place now ''order_place_exception'' req (e, sf) = (first, e1, sf1)"
    by (cases "try_place place now ''order_place_exception'' req (e, sf)") auto
  show thesis
  proof (cases "res_ok first")
    case True
    then show thesis using assms 1 try_place_okD [OF 1 True] first_ok
      by (auto simp: place_with_reconcile_def Let_def)
  next
    case nok1: False
    obtain ro2 e2 sf2 where 2: "check_status status now ''first'' req first (e1, sf1) = (ro2, e2, sf2)"
      by (cases "check_status status now ''first'' req first (e1, sf1)") auto
    obtain second e3 sf3 where 3: "try_place place now ''order_retry_exception'' req (e2, sf2) = (second, e3, sf3)"
      by (cases "try_place place now ''order_retry_exception'' req (e2, sf2)") auto
    obtain ro4 e4 sf4 where 4: "check_status status now ''second'' req second (e3, sf3) = (ro4, e4, sf4)"
      by (cases "check_status status now ''second'' req second (e3, sf3)") auto
    show thesis
    proof (cases ro2)
      case (Some q)
      with assms 1 nok1 2 have "q = r \<and> e2 = e' \<and> sf2 = sf'" by (simp add: place_with_reconcile_def)
      with first_status 1 nok1 2 Some show thesis by simp
    next
      case none2: None
      show thesis
      proof (cases "res_ok second")
        case True
        from assms 1 nok1 2 none2 3 True have "second = r \<and> e3 = e' \<and> sf3 = sf'"
          by (simp add: place_with_reconcile_def)
        with second_ok [OF 1 nok1 2 [unfolded none2]] True try_place_okD [OF 3 True]
        show thesis by simp
      next
        case nok2: False
        show thesis
        proof (cases ro4)
          case (Some q)
          with assms 1 nok1 2 none2 3 nok2 4 have "q = r \<and> e4 = e' \<and> sf4 = sf'"
            by (simp add: place_with_reconcile_def)
          with second_status [OF 1 nok1 2 [unfolded none2] 3 nok2] 4 Some show thesis by simp
        next
          case None
          with assms 1 nok1 2 none2 3 nok2 4
          have "e4 = e'" "r = \<lparr>res_ok = False, res_order_id = res_order_id second,
              res_error = Some (unresolved_error second first)\<rparr>"
            "sf' = report now ''order_unresolved'' (rq_ticker req @ '' '' @ rq_side req @ '' unresolved after reconcile'') sf4"
            by (simp_all add: place_with_reconcile_def)
          then show thesis
            by (intro unresolved [OF 1 nok1 2 [unfolded none2] 3 nok2, of sf4]) (auto simp: 4 None)
        qed
      qed
    qed
  qed
qed

context safety_observer
begin

lemma place_with_reconcile_inv:
  assumes "place_with_reconcile place status now req (e, sf) = (r, e', sf')" "pred_option P sf"
  shows "pred_option P sf'"
  using assms(1)
proof (cases rule: place_with_reconcile_cases)
  case first_ok
  then show ?thesis using assms(2) by simp
next
  case (first_status first e1 sf1)
  then show ?thesis using assms(2) by (auto dest: try_place_inv check_status_inv)
next
  case (second_ok first e1 sf1 e2 sf2)
  then show ?thesis using assms(2) by (auto dest: try_place_inv check_status_inv)
next
  case (second_status first e1 sf1 e2 sf2 second e3 sf3)
  then show ?thesis using assms(2) by (auto dest: try_place_inv check_status_inv)
next
  case (unresolved first e1 sf1 e2 sf2 second e3 sf3 sf4)
  then show ?thesis using assms(2) by (auto dest!: try_place_inv check_status_inv simp: report_inv)
qed

end

text \<open>Whether there is a safety manager never changes.\<close>

lemma report_None [simp]: "report now c m sf = None \<longleftrightarrow> sf = None"
  by (simp add: report_def)

lemma try_place_None: "try_place place now cd req (e, sf) = (r, e', sf') \<Longrightarrow> sf' = None \<longleftrightarrow> sf = None"
  by (auto simp: try_place_def split: prod.splits sum.splits)

lemma check_status_None: "check_status status now l req r (e, sf) = (ro, e', sf') \<Longrightarrow> sf' = None \<longleftrightarrow> sf = None"
  by (auto simp: check_status_def split: prod.splits sum.splits option.splits if_splits)

lemma place_with_reconcile_None:
  assumes "place_with_reconcile place status now req (e, sf) = (r, e', sf')"
  shows "sf' = None \<longleftrightarrow> sf = None"
  using assms
proof (cases rule: place_with_reconcile_cases)
  case first_ok
  then show ?thesis by simp
next
  case (first_status first e1 sf1)
  then show ?thesis using try_place_None [OF first_status(1)] check_status_None [OF first_status(3)] by simp
next
  case (second_ok first e1 sf1 e2 sf2)
  then show ?thesis using try_place_None [OF second_ok(1)] check_status_None [OF second_ok(3)] by simp
next
  case (second_status first e1 sf1 e2 sf2 second e3 sf3)
  then show ?thesis
    using try_place_None [OF second_status(1)] check_status_None [OF second_status(3)]
      try_place_None [OF second_status(4)] check_status_None [OF second_status(6)] by simp
next
  case (unresolved first e1 sf1 e2 sf2 second e3 sf3 sf4)
  then show ?thesis
    using try_place_None [OF unresolved(1)] check_status_None [OF unresolved(3)]
      try_place_None [OF unresolved(4)] check_status_None [OF unresolved(6)] by simp
qed

text \<open>A failed result always leaves the runtime halted, with a critical event.\<close>

lemma reconcile_failure_halts:
  assumes "place_with_reconcile place status now req (e, Some s) = (r, e', Some s')" "\<not> res_ok r"
  shows "halted (sf_runtime s')"
  using assms(1)
proof (cases rule: place_with_reconcile_cases)
  case first_ok
  with assms(2) show ?thesis by simp
next
  case (first_status first e1 sf1)
  with assms(2) show ?thesis by (auto dest!: check_status_SomeD dest: report_halts sym)
next
  case (second_ok first e1 sf1 e2 sf2)
  with assms(2) show ?thesis by simp
next
  case (second_status first e1 sf1 e2 sf2 second e3 sf3)
  with assms(2) show ?thesis by (auto dest!: check_status_SomeD dest: report_halts sym)
next
  case (unresolved first e1 sf1 e2 sf2 second e3 sf3 sf4)
  then show ?thesis by (auto dest: report_halts sym)
qed

lemma reconcile_failure_has_error:
  assumes "place_with_reconcile place status now req (e, sf) = (r, e', sf')" "\<not> res_ok r"
  shows "\<exists>m. res_error r = Some m"
  using assms(1)
  by (cases rule: place_with_reconcile_cases) (use assms(2) in \<open>auto dest!: check_status_SomeD\<close>)

section \<open>The calls a reconciliation makes\<close>

definition status_calls :: "order_result \<Rightarrow> gateway_call list" where
  "status_calls r = (if truthy_str (res_order_id r) then [Status (the (res_order_id r))] else [])"

lemma logged_try_place:
  assumes "try_place (logged_place place) now cd req (el, sf) = (r, el', sf')"
  shows "snd el' = snd el @ [Place req]"
  using assms by (auto simp: try_place_def logged_place_def split: prod.splits sum.splits)

lemma logged_check_status:
  assumes "check_status (logged_status status) now label req r (el, sf) = (ro, el', sf')"
  shows "snd el' = snd el @ status_calls r"
  using assms
  by (auto simp: check_status_def logged_status_def status_calls_def truthy_str_def
      split: prod.splits sum.splits option.splits if_splits)

lemma logged_placed: "logged_place place req el = (x, el') \<Longrightarrow> snd el' = snd el @ [Place req]"
  by (auto simp: logged_place_def split: prod.splits)

lemma reconcile_calls_cases:
  obtains (accepted) "reconcile_calls place status now req e = [Place req]"
  | (checked) first where "reconcile_calls place status now req e = Place req # status_calls first"
  | (retried) first where "reconcile_calls place status now req e = Place req # status_calls first @ [Place req]"
  | (exhausted) first second where
      "reconcile_calls place status now req e = Place req # status_calls first @ Place req # status_calls second"
proof -
  obtain r el sf where run: "place_with_reconcile (logged_place place) (logged_status status) now req ((e, []), None)
      = (r, el, sf)" by (rule prod_cases3)
  then have calls: "reconcile_calls place status now req e = snd el" by (simp add: reconcile_calls_def)
  from run show thesis
  proof (cases rule: place_with_reconcile_cases)
    case first_ok
    then show thesis using accepted calls logged_placed [OF first_ok(2)] by simp
  next
    case (first_status first e1 sf1)
    then show thesis
      using checked calls logged_try_place [OF first_status(1)] logged_check_status [OF first_status(3)] by simp
  next
    case (second_ok first e1 sf1 e2 sf2)
    then show thesis
      using retried calls logged_try_place [OF second_ok(1)] logged_check_status [OF second_ok(3)]
        logged_placed [OF second_ok(5)] by simp
  next
    case (second_status first e1 sf1 e2 sf2 second e3 sf3)
    then show thesis
      using exhausted calls logged_try_place [OF second_status(1)] logged_check_status [OF second_status(3)]
        logged_try_place [OF second_status(4)] logged_check_status [OF second_status(6)] by simp
  next
    case (unresolved first e1 sf1 e2 sf2 second e3 sf3 sf4)
    then show thesis
      using exhausted calls logged_try_place [OF unresolved(1)] logged_check_status [OF unresolved(3)]
        logged_try_place [OF unresolved(4)] logged_check_status [OF unresolved(6)] by simp
  qed
qed

text \<open>A placement that raises is repeated at once: there is no order id to ask about.\<close>

lemma reconcile_calls_raised:
  assumes "place req e = (Inl x, e1)"
  shows "\<exists>rest. reconcile_calls place status now req e = Place req # Place req # rest"
proof -
  let ?first = "\<lparr>res_ok = False, res_order_id = None, res_error = Some (exn_str x)\<rparr>"
  have t1: "try_place (logged_place place) now ''order_place_exception'' req ((e, []), None)
      = (?first, (e1, [Place req]), None)"
    using assms by (simp add: try_place_def logged_place_def)
  have c1: "check_status (logged_status status) now ''first'' req ?first ((e1, [Place req]), None)
      = (None, (e1, [Place req]), None)"
    by (simp add: check_status_def)
  obtain second el2 sf2 where t2: "try_place (logged_place place) now ''order_retry_exception'' req ((e1, [Place req]), None)
      = (second, el2, sf2)" by (rule prod_cases3)
  have l2: "snd el2 = [Place req, Place req]" using logged_try_place [OF t2] by simp
  obtain ro el3 sf3 where c2: "check_status (logged_status status) now ''second'' req second (el2, sf2) = (ro, el3, sf3)"
    by (rule prod_cases3)
  have l3: "snd el3 = [Place req, Place req] @ status_calls second" using logged_check_status [OF c2] l2 by simp
  show ?thesis
    using l2 l3
    by (auto simp: reconcile_calls_def place_with_reconcile_def t1 c1 t2 c2 split: option.splits)
qed

section \<open>The interface of a gateway\<close>

text \<open>
  What \<open>OrderService\<close> and its clients rely on: the gateway's own state keeps its invariant
  (\<open>gateway_state\<close>), and an accepted placement names the order it created (\<open>order_gateway\<close>).
\<close>

locale gateway_state =
  fixes place :: "'e place_fn"
    and status :: "'e status_fn"
    and ginv :: "'e \<Rightarrow> bool"
  assumes place_inv: "ginv e \<Longrightarrow> place req e = (x, e') \<Longrightarrow> ginv e'"
    and status_inv: "ginv e \<Longrightarrow> status oid e = (y, e') \<Longrightarrow> ginv e'"
begin

lemma try_place_ginv: "ginv e \<Longrightarrow> try_place place now cd req (e, sf) = (r, e', sf') \<Longrightarrow> ginv e'"
  by (auto simp: try_place_def split: prod.splits sum.splits dest: place_inv)

lemma check_status_ginv: "ginv e \<Longrightarrow> check_status status now l req r (e, sf) = (ro, e', sf') \<Longrightarrow> ginv e'"
  by (auto simp: check_status_def split: prod.splits sum.splits option.splits if_splits dest: status_inv)

lemma reconcile_ginv:
  assumes "ginv e" "place_with_reconcile place status now req (e, sf) = (r, e', sf')"
  shows "ginv e'"
  using assms(2)
  by (cases rule: place_with_reconcile_cases)
     (use assms(1) in \<open>blast dest: try_place_ginv check_status_ginv place_inv\<close>)+

end

locale order_gateway = gateway_state +
  assumes accepted_has_id: "ginv e \<Longrightarrow> place req e = (Inr r, e') \<Longrightarrow> res_ok r \<Longrightarrow> truthy_str (res_order_id r)"
begin

text \<open>A successful reconciliation always names the broker's order.\<close>

lemma reconcile_ok_has_id:
  assumes "ginv e" "place_with_reconcile place status now req (e, sf) = (r, e', sf')" "res_ok r"
  shows "truthy_str (res_order_id r)"
  using assms(2)
proof (cases rule: place_with_reconcile_cases)
  case first_ok
  then show ?thesis using assms accepted_has_id by blast
next
  case (first_status first e1 sf1)
  then show ?thesis by (auto dest!: check_status_SomeD simp: truthy_str_def)
next
  case (second_ok first e1 sf1 e2 sf2)
  then have "ginv e2" using assms(1) by (blast dest: try_place_ginv check_status_ginv)
  then show ?thesis using second_ok accepted_has_id by blast
next
  case (second_status first e1 sf1 e2 sf2 second e3 sf3)
  then show ?thesis by (auto dest!: check_status_SomeD simp: truthy_str_def)
next
  case (unresolved first e1 sf1 e2 sf2 second e3 sf3 sf4)
  then show ?thesis using assms(3) by simp
qed

end

interpretation paper: order_gateway paper_place_order paper_get_order_status "\<lambda>_. True"
  by unfold_locales (auto simp: paper_place_order_def truthy_str_def)

text \<open>On the paper gateway every order is filled at once, under the next identifier.\<close>

lemma paper_reconcile:
  "place_with_reconcile paper_place_order paper_get_order_status now req (n, sf)
   = (\<lparr>res_ok = True, res_order_id = Some (''PAPER-'' @ show_nat (Suc n)), res_error = None\<rparr>, Suc n, sf)"
  by (simp add: place_with_reconcile_def try_place_def paper_place_order_def)

end
