(* ===== verification/Db_Session.thy ===== *)
theory Db_Session
  imports Py_Prelude
begin

text \<open>
  How database failures enter the model. SQLAlchemy and the database are not code of the
  repository: a statement (a query, a flush with its commit, a refresh) either takes effect or
  raises \<open>SQLAlchemyError\<close>. Which statements fail is a fault plan, a list of booleans read one per
  statement (an exhausted list means no more failures). A theorem that quantifies over the
  plan holds for every pattern of failures. Uncommitted changes of a failed session are gone:
  the tables of the model are the committed ones.
\<close>

type_synonym fault_plan = "bool list"

definition stmt_fails :: "fault_plan \<Rightarrow> bool" where
  "stmt_fails orc = (case orc of [] \<Rightarrow> False | b # _ \<Rightarrow> b)"

definition db_error :: py_exn where
  "db_error = SQLAlchemyError ''database error''"

lemma stmt_fails_simps [simp]: "\<not> stmt_fails []" "stmt_fails (b # bs) = b"
  by (simp_all add: stmt_fails_def)

lemma is_sql_db_error [simp]: "is_sql_error db_error"
  by (simp add: db_error_def)

text \<open>\<open>offset(max(offset, 0)).limit(limit)\<close> of a query result.\<close>

definition page :: "int \<Rightarrow> nat \<Rightarrow> 'a list \<Rightarrow> 'a list" where
  "page offset limit xs = take limit (drop (nat (max offset 0)) xs)"

lemma length_page: "length (page offset limit xs) \<le> limit"
  by (simp add: page_def)

lemma set_page: "set (page offset limit xs) \<subseteq> set xs"
  by (auto simp: page_def dest: in_set_takeD in_set_dropD)

text \<open>Consecutive pages cover the whole result, in order and without overlap.\<close>

lemma page_concat:
  assumes "0 \<le> off"
  shows "page off n xs @ page (off + int n) m xs = page off (n + m) xs"
proof -
  have "nat (max (off + int n) 0) = n + nat (max off 0)" using assms by auto
  then show ?thesis by (simp add: page_def take_add drop_drop)
qed

text \<open>Keys that are distinct and below the next one to be given out.\<close>

definition keys_ok :: "('a \<Rightarrow> nat) \<Rightarrow> 'a list \<Rightarrow> nat \<Rightarrow> bool" where
  "keys_ok key xs n \<longleftrightarrow> distinct (map key xs) \<and> (\<forall>x\<in>set xs. key x < n)"

lemma keys_ok_Nil [simp]: "keys_ok key [] n"
  by (simp add: keys_ok_def)

lemma keys_ok_snoc [simp]: "key x = n \<Longrightarrow> keys_ok key (xs @ [x]) (Suc n) = keys_ok key xs n"
  by (auto simp: keys_ok_def less_Suc_eq) (metis imageI)

lemma keys_ok_alt: "keys_ok key xs n \<longleftrightarrow> distinct (map key xs) \<and> (\<forall>k\<in>set (map key xs). k < n)"
  by (auto simp: keys_ok_def)

lemma keys_ok_map: "map key ys = map key xs \<Longrightarrow> keys_ok key ys n = keys_ok key xs n"
  by (simp only: keys_ok_alt)

text \<open>A filter parameter that is absent or blank does not restrict the query.\<close>

definition opt_filter :: "string option \<Rightarrow> (string \<Rightarrow> bool) \<Rightarrow> bool" where
  "opt_filter p test = (case p of None \<Rightarrow> True | Some s \<Rightarrow> py_strip s = [] \<or> test s)"

end
