(* ===== verification/Order_State_Machine.thy ===== *)
theory Order_State_Machine
  imports Domain_Models
begin

text \<open>
  \<open>app/orders/state_machine.py\<close>: the decision a position takes at a price and its effect on
  the position. The abstract contract is the phase automaton OPEN, HALF_CLOSED, CLOSED; the
  refinement lemmas show that a decision followed by its application takes one abstract step,
  and the well-formedness invariant ties the remaining quantity to the phase.
\<close>

section \<open>The code\<close>

record position_snapshot =
  ps_state :: string
  ps_remaining_quantity :: real
  ps_stop_price :: real
  ps_take_profit_price :: real
  ps_trailing_stop_price :: "pyfloat option"
  ps_highest_price :: "real option"

record transition =
  tr_new_state :: string
  tr_close_qty :: real
  tr_reason :: "string option"
  tr_new_highest :: "real option"
  tr_new_trailing_stop :: "pyfloat option"

definition decide :: "position_snapshot \<Rightarrow> real \<Rightarrow> real \<Rightarrow> pyfloat \<Rightarrow> transition" where
  "decide p current_price atr_value trail_atr_mult =
     (if ps_state p = ''OPEN'' then
        if current_price \<le> ps_stop_price p then
          \<lparr>tr_new_state = ''CLOSED'', tr_close_qty = ps_remaining_quantity p,
           tr_reason = Some ''stop_loss'', tr_new_highest = ps_highest_price p,
           tr_new_trailing_stop = ps_trailing_stop_price p\<rparr>
        else if current_price \<ge> ps_take_profit_price p then
          \<lparr>tr_new_state = ''HALF_CLOSED'', tr_close_qty = ps_remaining_quantity p / 2,
           tr_reason = Some ''take_profit_half'', tr_new_highest = Some current_price,
           tr_new_trailing_stop = Some (pf_minus current_price (pf_scale atr_value trail_atr_mult))\<rparr>
        else
          \<lparr>tr_new_state = ''OPEN'', tr_close_qty = 0, tr_reason = None,
           tr_new_highest = ps_highest_price p, tr_new_trailing_stop = ps_trailing_stop_price p\<rparr>
      else if ps_state p = ''HALF_CLOSED'' then
        let highest = max (or_real (ps_highest_price p) current_price) current_price;
            trailing = pf_minus highest (pf_scale atr_value trail_atr_mult)
        in if pf_le (Fin current_price) trailing then
             \<lparr>tr_new_state = ''CLOSED'', tr_close_qty = ps_remaining_quantity p,
              tr_reason = Some ''trailing_stop'', tr_new_highest = Some highest,
              tr_new_trailing_stop = Some trailing\<rparr>
           else
             \<lparr>tr_new_state = ''HALF_CLOSED'', tr_close_qty = 0, tr_reason = None,
              tr_new_highest = Some highest, tr_new_trailing_stop = Some trailing\<rparr>
      else
        \<lparr>tr_new_state = ps_state p, tr_close_qty = 0, tr_reason = None,
         tr_new_highest = ps_highest_price p, tr_new_trailing_stop = ps_trailing_stop_price p\<rparr>)"

text \<open>\<open>PositionStateMachine.apply\<close>, on a position row (it mutates the object; here the new row).\<close>

definition sm_apply :: "instant \<Rightarrow> position_row \<Rightarrow> transition \<Rightarrow> position_row" where
  "sm_apply now row t =
     (let row1 = row\<lparr>pos_state := tr_new_state t, pos_highest_price := tr_new_highest t,
                     pos_trailing_stop_price := tr_new_trailing_stop t\<rparr>;
          row2 = (if tr_close_qty t > 0
                  then row1\<lparr>pos_remaining_quantity := max (pos_remaining_quantity row1 - tr_close_qty t) 0\<rparr>
                  else row1);
          row3 = (if tr_new_state t = ''CLOSED''
                  then (let r = row2\<lparr>pos_closed_time := Some now\<rparr> in
                        if truthy_str (tr_reason t) then r\<lparr>pos_close_reason := tr_reason t\<rparr> else r)
                  else row2)
      in row3)"

text \<open>The snapshot Loop A builds from a row before it asks for a decision.\<close>

definition snapshot_of :: "position_row \<Rightarrow> position_snapshot" where
  "snapshot_of r =
     \<lparr>ps_state = pos_state r, ps_remaining_quantity = pos_remaining_quantity r,
      ps_stop_price = pos_stop_price r, ps_take_profit_price = pos_take_profit_price r,
      ps_trailing_stop_price = pos_trailing_stop_price r, ps_highest_price = pos_highest_price r\<rparr>"

text \<open>A position followed through a list of (time, price, ATR, multiplier) observations.\<close>

type_synonym observation = "instant \<times> real \<times> real \<times> pyfloat"

definition observe :: "position_row \<Rightarrow> observation \<Rightarrow> position_row" where
  "observe r ob = (case ob of (now, price, atr, m) \<Rightarrow> sm_apply now r (decide (snapshot_of r) price atr m))"

fun follow :: "position_row \<Rightarrow> observation list \<Rightarrow> position_row" where
  "follow r [] = r"
| "follow r (ob # obs) = follow (observe r ob) obs"

text \<open>What was ordered to be sold along the way.\<close>

fun sold :: "position_row \<Rightarrow> observation list \<Rightarrow> real" where
  "sold r [] = 0"
| "sold r (ob # obs) =
     (case ob of (now, price, atr, m) \<Rightarrow> tr_close_qty (decide (snapshot_of r) price atr m)) +
     sold (observe r ob) obs"

section \<open>The abstract automaton\<close>

datatype phase = Open | Half | Closed

definition phase_of :: "string \<Rightarrow> phase option" where
  "phase_of s =
     (if s = ''OPEN'' then Some Open else if s = ''HALF_CLOSED'' then Some Half
      else if s = ''CLOSED'' then Some Closed else None)"

inductive phase_step :: "phase \<Rightarrow> string option \<Rightarrow> phase \<Rightarrow> bool" where
  stay: "phase_step p None p"
| stop_loss: "phase_step Open (Some ''stop_loss'') Closed"
| take_profit: "phase_step Open (Some ''take_profit_half'') Half"
| trailing: "phase_step Half (Some ''trailing_stop'') Closed"

inductive_cases phase_step_closedE: "phase_step Closed r p"
inductive_simps phase_step_from_closed: "phase_step Closed r p"

section \<open>Facts about one decision\<close>

lemma phase_of_simps [simp]:
  "phase_of ''OPEN'' = Some Open" "phase_of ''HALF_CLOSED'' = Some Half" "phase_of ''CLOSED'' = Some Closed"
  by (simp_all add: phase_of_def)

lemma phase_of_eq:
  "phase_of s = Some Open \<longleftrightarrow> s = ''OPEN''"
  "phase_of s = Some Half \<longleftrightarrow> s = ''HALF_CLOSED''"
  "phase_of s = Some Closed \<longleftrightarrow> s = ''CLOSED''"
  by (auto simp: phase_of_def split: if_splits)

lemma decide_closed [simp]:
  "ps_state p = ''CLOSED'' \<Longrightarrow> decide p c a m =
     \<lparr>tr_new_state = ''CLOSED'', tr_close_qty = 0, tr_reason = None,
      tr_new_highest = ps_highest_price p, tr_new_trailing_stop = ps_trailing_stop_price p\<rparr>"
  by (simp add: decide_def)

lemma decide_phase_step:
  assumes "phase_of (ps_state p) = Some ph"
  shows "\<exists>ph'. phase_of (tr_new_state (decide p c a m)) = Some ph' \<and>
               phase_step ph (tr_reason (decide p c a m)) ph'"
  using assms
  by (cases ph) (auto simp: phase_of_eq decide_def Let_def intro: phase_step.intros)

lemma decide_close_qty:
  assumes "0 \<le> ps_remaining_quantity p"
  shows "0 \<le> tr_close_qty (decide p c a m) \<and> tr_close_qty (decide p c a m) \<le> ps_remaining_quantity p"
  using assms by (auto simp: decide_def Let_def)

lemma sm_apply_frame [frame_simps]:
  "pos_id (sm_apply now r t) = pos_id r"
  "pos_ticker (sm_apply now r t) = pos_ticker r"
  "pos_strategy_id (sm_apply now r t) = pos_strategy_id r"
  "pos_stop_price (sm_apply now r t) = pos_stop_price r"
  "pos_take_profit_price (sm_apply now r t) = pos_take_profit_price r"
  "pos_entry_price (sm_apply now r t) = pos_entry_price r"
  "pos_quantity (sm_apply now r t) = pos_quantity r"
  "pos_updated_at (sm_apply now r t) = pos_updated_at r"
  "pos_order_id (sm_apply now r t) = pos_order_id r"
  "pos_entry_time (sm_apply now r t) = pos_entry_time r"
  by (simp_all add: sm_apply_def Let_def)

lemma sm_apply_effects:
  "pos_state (sm_apply now r t) = tr_new_state t"
  "pos_highest_price (sm_apply now r t) = tr_new_highest t"
  "pos_trailing_stop_price (sm_apply now r t) = tr_new_trailing_stop t"
  "pos_remaining_quantity (sm_apply now r t) =
     (if tr_close_qty t > 0 then max (pos_remaining_quantity r - tr_close_qty t) 0 else pos_remaining_quantity r)"
  "pos_closed_time (sm_apply now r t) = (if tr_new_state t = ''CLOSED'' then Some now else pos_closed_time r)"
  "pos_close_reason (sm_apply now r t) =
     (if tr_new_state t = ''CLOSED'' \<and> truthy_str (tr_reason t) then tr_reason t else pos_close_reason r)"
  by (simp_all add: sm_apply_def Let_def)

lemma snapshot_of_simps [simp]:
  "ps_state (snapshot_of r) = pos_state r"
  "ps_remaining_quantity (snapshot_of r) = pos_remaining_quantity r"
  "ps_stop_price (snapshot_of r) = pos_stop_price r"
  "ps_take_profit_price (snapshot_of r) = pos_take_profit_price r"
  "ps_trailing_stop_price (snapshot_of r) = pos_trailing_stop_price r"
  "ps_highest_price (snapshot_of r) = pos_highest_price r"
  by (simp_all add: snapshot_of_def)

section \<open>The invariant of a position\<close>

definition position_wf :: "position_row \<Rightarrow> bool" where
  "position_wf r \<longleftrightarrow>
     0 < pos_quantity r \<and>
     (pos_state r = ''OPEN'' \<and> pos_remaining_quantity r = pos_quantity r \<and> pos_close_reason r = None
    \<or> pos_state r = ''HALF_CLOSED'' \<and> pos_remaining_quantity r = pos_quantity r / 2 \<and> pos_close_reason r = None
    \<or> pos_state r = ''CLOSED'' \<and> pos_remaining_quantity r = 0 \<and>
        pos_closed_time r \<noteq> None \<and> pos_close_reason r \<in> {Some ''stop_loss'', Some ''trailing_stop''})"

lemma position_wf_cases:
  assumes "position_wf r"
  obtains (open_pos) "pos_state r = ''OPEN''" "pos_remaining_quantity r = pos_quantity r" "0 < pos_quantity r" "pos_close_reason r = None"
  | (half_pos) "pos_state r = ''HALF_CLOSED''" "pos_remaining_quantity r = pos_quantity r / 2" "0 < pos_quantity r" "pos_close_reason r = None"
  | (closed_pos) "pos_state r = ''CLOSED''" "pos_remaining_quantity r = 0" "0 < pos_quantity r" "pos_closed_time r \<noteq> None"
      "pos_close_reason r \<in> {Some ''stop_loss'', Some ''trailing_stop''}"
  proof -
  consider "pos_state r = ''OPEN''" | "pos_state r = ''HALF_CLOSED''" | "pos_state r = ''CLOSED''"
    using assms by (auto simp: position_wf_def)
  then show thesis
  proof cases
    case 1
    with assms show ?thesis by (intro open_pos) (auto simp: position_wf_def)
  next
    case 2
    with assms show ?thesis by (intro half_pos) (auto simp: position_wf_def)
  next
    case 3
    with assms show ?thesis by (intro closed_pos) (auto simp: position_wf_def)
  qed
qed

lemma sm_apply_decide_wf:
  assumes "position_wf r"
  shows "position_wf (sm_apply now r (decide (snapshot_of r) c a m))"
  using assms
proof (cases rule: position_wf_cases)
  case open_pos
  then show ?thesis
    by (simp add: position_wf_def sm_apply_effects frame_simps decide_def truthy_str_def)
next
  case half_pos
  then show ?thesis
    by (simp add: position_wf_def sm_apply_effects frame_simps decide_def truthy_str_def Let_def)
next
  case closed_pos
  then show ?thesis
    by (simp add: position_wf_def sm_apply_effects frame_simps truthy_str_def)
qed

lemma observe_wf: "position_wf r \<Longrightarrow> position_wf (observe r ob)"
  by (auto simp: observe_def sm_apply_decide_wf split: prod.splits)

lemma follow_wf: "position_wf r \<Longrightarrow> position_wf (follow r obs)"
  by (induction obs arbitrary: r) (auto simp: observe_wf)

lemma observe_remaining:
  assumes "position_wf r"
  shows "pos_remaining_quantity (observe r (now, c, a, m))
         = pos_remaining_quantity r - tr_close_qty (decide (snapshot_of r) c a m)"
proof -
  have "0 \<le> pos_remaining_quantity r"
    using assms by (cases rule: position_wf_cases) auto
  then show ?thesis
    using decide_close_qty [of "snapshot_of r" c a m]
    by (auto simp: observe_def sm_apply_effects)
qed

lemma observe_frame [frame_simps]: "pos_quantity (observe r ob) = pos_quantity r"
  by (auto simp: observe_def frame_simps split: prod.splits)

lemma follow_sold:
  assumes "position_wf r"
  shows "sold r obs = pos_remaining_quantity r - pos_remaining_quantity (follow r obs)"
  using assms
proof (induction obs arbitrary: r)
  case Nil
  then show ?case by simp
next
  case (Cons ob obs)
  obtain now c a m where ob: "ob = (now, c, a, m)" by (cases ob)
  from Cons.IH [OF observe_wf [OF Cons.prems, of ob]] observe_remaining [OF Cons.prems]
  show ?case by (simp add: ob)
qed

lemma follow_frame [frame_simps]: "pos_quantity (follow r obs) = pos_quantity r"
  by (induction obs arbitrary: r) (auto simp: frame_simps)

lemma follow_append: "follow r (xs @ ys) = follow (follow r xs) ys"
  by (induction xs arbitrary: r) auto

lemma closed_observe:
  "pos_state r = ''CLOSED'' \<Longrightarrow> pos_state (observe r ob) = ''CLOSED'' \<and> pos_remaining_quantity (observe r ob) = pos_remaining_quantity r"
  by (auto simp: observe_def sm_apply_effects split: prod.splits)

lemma closed_follow:
  "pos_state r = ''CLOSED'' \<Longrightarrow> pos_state (follow r obs) = ''CLOSED'' \<and> sold r obs = 0"
proof (induction obs arbitrary: r)
  case (Cons ob obs)
  then show ?case using closed_observe [of r ob] by (auto split: prod.splits)
qed simp

section \<open>The trailing stop follows the highest price\<close>

text \<open>
  While a position stays HALF_CLOSED the recorded high is the maximum of the high at the start
  and of all prices seen since, whatever the order of the prices.
\<close>

fun prices :: "observation list \<Rightarrow> real list" where
  "prices [] = []"
| "prices ((t, c, a, m) # obs) = c # prices obs"

lemma half_observe:
  assumes "pos_state r = ''HALF_CLOSED''" "pos_highest_price r = Some h" "0 < h"
  shows "pos_highest_price (observe r (t, c, a, m)) = Some (max h c)"
    and "pos_trailing_stop_price (observe r (t, c, a, m)) = Some (pf_minus (max h c) (pf_scale a m))"
    and "pos_state (observe r (t, c, a, m)) = (if pf_le (Fin c) (pf_minus (max h c) (pf_scale a m)) then ''CLOSED'' else ''HALF_CLOSED'')"
  using assms by (auto simp: observe_def sm_apply_effects decide_def or_real_def Let_def)

lemma half_follow_highest:
  assumes "pos_state r = ''HALF_CLOSED''" "pos_highest_price r = Some h" "0 < h"
    and "pos_state (follow r obs) = ''HALF_CLOSED''"
  shows "pos_highest_price (follow r obs) = Some (foldl max h (prices obs))"
  using assms
proof (induction obs arbitrary: r h)
  case Nil
  then show ?case by simp
next
  case (Cons ob obs)
  obtain t c a m where ob: "ob = (t, c, a, m)" by (cases ob)
  note h = half_observe [OF Cons.prems(1-3), of t c a m]
  have st: "pos_state (observe r (t, c, a, m)) = ''HALF_CLOSED''"
  proof (rule ccontr)
    assume "pos_state (observe r (t, c, a, m)) \<noteq> ''HALF_CLOSED''"
    then have "pos_state (observe r (t, c, a, m)) = ''CLOSED''" using h(3) by (auto split: if_splits)
    then have "pos_state (follow (observe r (t, c, a, m)) obs) = ''CLOSED''"
      using closed_follow by blast
    with Cons.prems(4) ob show False by simp
  qed
  show ?case
    using Cons.IH [OF st h(1)] Cons.prems(3,4) by (simp add: ob)
qed

end
