(* ===== verification/Ordering_Repository.thy ===== *)
theory Ordering_Repository
  imports Db_Session Order_State_Machine
begin

text \<open>
  \<open>app/repositories/ordering.py\<close>: the signals, orders and positions tables and the operations on
  them, each with the statements at which the database may fail. Identifiers are the
  autoincrement keys.
\<close>

record odb =
  od_signals :: "signal_row list"
  od_orders :: "order_row list"
  od_positions :: "position_row list"
  od_next_signal :: nat
  od_next_order :: nat
  od_next_position :: nat
  od_faults :: fault_plan

definition odb_init :: "fault_plan \<Rightarrow> odb" where
  "odb_init orc = \<lparr>od_signals = [], od_orders = [], od_positions = [],
     od_next_signal = 1, od_next_order = 1, od_next_position = 1, od_faults = orc\<rparr>"

text \<open>One statement: whether it fails, and the plan read on.\<close>

abbreviation fails :: "odb \<Rightarrow> bool" where
  "fails d \<equiv> stmt_fails (od_faults d)"

definition tick :: "odb \<Rightarrow> odb" where
  "tick d = d\<lparr>od_faults := tl (od_faults d)\<rparr>"

section \<open>The code\<close>

text \<open>\<open>db.add; db.commit; db.refresh\<close>: a failed refresh leaves the committed row.\<close>

definition create_signal ::
  "string \<Rightarrow> string \<Rightarrow> string \<Rightarrow> string \<Rightarrow> real \<Rightarrow> instant \<Rightarrow> string \<Rightarrow> odb \<Rightarrow> signal_row py \<times> odb" where
  "create_signal ticker sid timeframe side price time status d =
     (let row = \<lparr>sr_id = od_next_signal d, sr_ticker = ticker, sr_strategy_id = sid, sr_timeframe = timeframe,
                 sr_side = side, sr_signal_price = price, sr_signal_time = time, sr_status = status\<rparr>
      in if fails d then (Inl db_error, tick d)
         else let d1 = (tick d)\<lparr>od_signals := od_signals d @ [row], od_next_signal := Suc (od_next_signal d)\<rparr>
              in if fails d1 then (Inl db_error, tick d1) else (Inr row, tick d1))"

definition create_order ::
  "nat option \<Rightarrow> string option \<Rightarrow> string \<Rightarrow> string \<Rightarrow> string \<Rightarrow> real option \<Rightarrow> real \<Rightarrow> string \<Rightarrow> string option
     \<Rightarrow> odb \<Rightarrow> order_row py \<times> odb" where
  "create_order signal_id external_order_id ticker side order_type price quantity status reason d =
     (let row = \<lparr>ord_id = od_next_order d, ord_signal_id = signal_id, ord_external_order_id = external_order_id,
                 ord_ticker = ticker, ord_side = side, ord_order_type = order_type, ord_price = price,
                 ord_quantity = quantity, ord_filled_quantity = 0, ord_status = status, ord_reason = reason\<rparr>
      in if fails d then (Inl db_error, tick d)
         else let d1 = (tick d)\<lparr>od_orders := od_orders d @ [row], od_next_order := Suc (od_next_order d)\<rparr>
              in if fails d1 then (Inl db_error, tick d1) else (Inr row, tick d1))"

definition open_position ::
  "instant \<Rightarrow> nat option \<Rightarrow> string \<Rightarrow> string \<Rightarrow> real \<Rightarrow> real \<Rightarrow> real \<Rightarrow> real \<Rightarrow> odb \<Rightarrow> position_row py \<times> odb" where
  "open_position now order_id ticker sid entry_price stop_price take_profit_price quantity d =
     (let row = \<lparr>pos_id = od_next_position d, pos_order_id = order_id, pos_ticker = ticker,
                 pos_strategy_id = sid, pos_state = ''OPEN'', pos_entry_price = entry_price,
                 pos_stop_price = stop_price, pos_take_profit_price = take_profit_price,
                 pos_trailing_stop_price = None, pos_highest_price = Some entry_price,
                 pos_quantity = quantity, pos_remaining_quantity = quantity,
                 pos_entry_time = now, pos_closed_time = None, pos_close_reason = None, pos_updated_at = now\<rparr>
      in if fails d then (Inl db_error, tick d)
         else let d1 = (tick d)\<lparr>od_positions := od_positions d @ [row], od_next_position := Suc (od_next_position d)\<rparr>
              in if fails d1 then (Inl db_error, tick d1) else (Inr row, tick d1))"

definition list_open_positions :: "odb \<Rightarrow> position_row list py \<times> odb" where
  "list_open_positions d =
     (if fails d then (Inl db_error, tick d)
      else (Inr (filter (\<lambda>p. pos_state p \<noteq> ''CLOSED'') (od_positions d)), tick d))"

definition list_positions :: "string option \<Rightarrow> int \<Rightarrow> nat \<Rightarrow> odb \<Rightarrow> position_row list py \<times> odb" where
  "list_positions state offset limit d =
     (if fails d then (Inl db_error, tick d)
      else (Inr (page offset limit
                   (py_sorted_rev pos_updated_at
                      (filter (\<lambda>p. opt_filter state (\<lambda>s. pos_state p = s)) (od_positions d)))), tick d))"

definition count_positions :: "string option \<Rightarrow> odb \<Rightarrow> nat py \<times> odb" where
  "count_positions state d =
     (if fails d then (Inl db_error, tick d)
      else (Inr (length (filter (\<lambda>p. opt_filter state (\<lambda>s. pos_state p = s)) (od_positions d))), tick d))"

definition find_position :: "odb \<Rightarrow> nat \<Rightarrow> position_row option" where
  "find_position d pid = find (\<lambda>p. pos_id p = pid) (od_positions d)"

text \<open>
  The committed update of one row; \<open>updated_at\<close> moves when a column of the row changed (SQLAlchemy
  emits no UPDATE otherwise).
\<close>

definition store_position :: "instant \<Rightarrow> position_row \<Rightarrow> odb \<Rightarrow> odb" where
  "store_position now row d =
     d\<lparr>od_positions := map (\<lambda>p. if pos_id p = pos_id row \<and> p \<noteq> row then row\<lparr>pos_updated_at := now\<rparr> else p) (od_positions d)\<rparr>"

text \<open>
  \<open>db.get\<close>, mutate, \<open>db.commit\<close>, \<open>db.refresh\<close>: the shape of the two updating operations.
\<close>

definition update_position :: "instant \<Rightarrow> nat \<Rightarrow> (position_row \<Rightarrow> position_row) \<Rightarrow> odb \<Rightarrow> position_row py \<times> odb" where
  "update_position now pid f d =
     (if fails d then (Inl db_error, tick d)
      else
        (case find_position d pid of
           None \<Rightarrow> (Inl (KeyError (''position not found: '' @ show_nat pid)), tick d)
         | Some row \<Rightarrow>
             let d1 = tick d in
             if fails d1 then (Inl db_error, tick d1)
             else
               let d2 = store_position now (f row) (tick d1) in
               if fails d2 then (Inl db_error, tick d2)
               else (case find_position d2 pid of
                       None \<Rightarrow> (Inl db_error, tick d2)
                     | Some row' \<Rightarrow> (Inr row', tick d2))))"

definition mark_position_closed :: "instant \<Rightarrow> nat \<Rightarrow> string \<Rightarrow> odb \<Rightarrow> position_row py \<times> odb" where
  "mark_position_closed now pid reason =
     update_position now pid
       (\<lambda>row. row\<lparr>pos_state := ''CLOSED'', pos_remaining_quantity := 0,
                  pos_closed_time := Some now, pos_close_reason := Some reason\<rparr>)"

text \<open>The assignments of \<open>apply_transition\<close>, written out as in the repository.\<close>

definition transition_row :: "instant \<Rightarrow> transition \<Rightarrow> position_row \<Rightarrow> position_row" where
  "transition_row now t row =
     (let r1 = row\<lparr>pos_state := tr_new_state t, pos_highest_price := tr_new_highest t,
                   pos_trailing_stop_price := tr_new_trailing_stop t\<rparr>;
          r2 = (if tr_close_qty t > 0
                then r1\<lparr>pos_remaining_quantity := max (pos_remaining_quantity r1 - tr_close_qty t) 0\<rparr> else r1)
      in if tr_new_state t = ''CLOSED''
         then let r3 = r2\<lparr>pos_closed_time := Some now\<rparr>
              in if truthy_str (tr_reason t) then r3\<lparr>pos_close_reason := tr_reason t\<rparr> else r3
         else r2)"

definition apply_transition :: "instant \<Rightarrow> nat \<Rightarrow> transition \<Rightarrow> odb \<Rightarrow> position_row py \<times> odb" where
  "apply_transition now pid t = update_position now pid (transition_row now t)"

section \<open>Facts\<close>

lemma tick_simps [simp]:
  "od_signals (tick d) = od_signals d" "od_orders (tick d) = od_orders d"
  "od_positions (tick d) = od_positions d" "od_next_signal (tick d) = od_next_signal d"
  "od_next_order (tick d) = od_next_order d" "od_next_position (tick d) = od_next_position d"
  "od_faults (tick d) = tl (od_faults d)" "find_position (tick d) pid = find_position d pid"
  by (simp_all add: tick_def find_position_def)

lemma find_position_Some:
  "find_position d pid = Some p \<Longrightarrow> p \<in> set (od_positions d) \<and> pos_id p = pid"
  by (auto simp: find_position_def find_Some_iff)

lemma find_position_None: "find_position d pid = None \<longleftrightarrow> pid \<notin> pos_id ` set (od_positions d)"
  by (auto simp: find_position_def find_None_iff)

lemma find_position_distinct:
  assumes "distinct (map pos_id (od_positions d))" "p \<in> set (od_positions d)"
  shows "find_position d (pos_id p) = Some p"
proof -
  obtain q where q: "find_position d (pos_id p) = Some q"
    using assms(2) find_position_None [of d "pos_id p"] by (cases "find_position d (pos_id p)") auto
  then have "q \<in> set (od_positions d)" "pos_id q = pos_id p" using find_position_Some by blast+
  then have "q = p" using assms by (metis distinct_map inj_onD)
  with q show ?thesis by simp
qed

text \<open>The repository's copy of the state machine's \<open>apply\<close> is the state machine's \<open>apply\<close>.\<close>

lemma transition_row_sm_apply: "transition_row now t row = sm_apply now row t"
  by (simp add: transition_row_def sm_apply_def Let_def)

text \<open>Identifiers are fresh, positions are well formed up to their last-update time.\<close>

definition odb_inv :: "odb \<Rightarrow> bool" where
  "odb_inv d \<longleftrightarrow>
     keys_ok sr_id (od_signals d) (od_next_signal d) \<and> keys_ok ord_id (od_orders d) (od_next_order d) \<and>
     keys_ok pos_id (od_positions d) (od_next_position d) \<and>
     (\<forall>p\<in>set (od_positions d). position_wf p)"

lemma odb_inv_init: "odb_inv (odb_init orc)"
  by (simp add: odb_inv_def odb_init_def)

lemma odb_inv_tick [simp]: "odb_inv (tick d) = odb_inv d"
  by (simp add: odb_inv_def)

lemma position_wf_updated_at [simp]: "position_wf (p\<lparr>pos_updated_at := t\<rparr>) = position_wf p"
  by (simp add: position_wf_def)

lemma position_wf_new:
  "0 < q \<Longrightarrow> position_wf \<lparr>pos_id = i, pos_order_id = oid, pos_ticker = t, pos_strategy_id = s,
     pos_state = ''OPEN'', pos_entry_price = e, pos_stop_price = sp, pos_take_profit_price = tp,
     pos_trailing_stop_price = None, pos_highest_price = h, pos_quantity = q, pos_remaining_quantity = q,
     pos_entry_time = now, pos_closed_time = None, pos_close_reason = None, pos_updated_at = now\<rparr>"
  by (simp add: position_wf_def)

lemma create_signal_inv: "odb_inv d \<Longrightarrow> create_signal t s f sd p tm st d = (r, d') \<Longrightarrow> odb_inv d'"
  by (auto simp: create_signal_def Let_def odb_inv_def split: if_splits)

lemma create_order_inv: "odb_inv d \<Longrightarrow> create_order s x t sd ty p q st rs d = (r, d') \<Longrightarrow> odb_inv d'"
  by (auto simp: create_order_def Let_def odb_inv_def split: if_splits)

lemma open_position_inv:
  "odb_inv d \<Longrightarrow> 0 < q \<Longrightarrow> open_position now oid t s e sp tp q d = (r, d') \<Longrightarrow> odb_inv d'"
  by (auto simp: open_position_def Let_def odb_inv_def position_wf_new split: if_splits)

lemma list_open_positions_inv: "odb_inv d \<Longrightarrow> list_open_positions d = (r, d') \<Longrightarrow> odb_inv d'"
  by (auto simp: list_open_positions_def split: if_splits)

lemma store_position_ids:
  "map pos_id (od_positions (store_position now row d)) = map pos_id (od_positions d)"
  by (auto simp: store_position_def)

lemma store_position_inv:
  assumes "odb_inv d" "position_wf row"
  shows "odb_inv (store_position now row d)"
proof -
  have "keys_ok pos_id (od_positions (store_position now row d)) (od_next_position d)"
    using assms(1) keys_ok_map [OF store_position_ids] by (auto simp: odb_inv_def)
  moreover have "\<forall>p\<in>set (od_positions (store_position now row d)). position_wf p"
    using assms by (auto simp: store_position_def odb_inv_def)
  ultimately show ?thesis using assms(1) by (auto simp: odb_inv_def store_position_def)
qed

lemma update_position_inv:
  assumes "odb_inv d" "update_position now pid f d = (r, d')"
    and "\<And>row. find_position d pid = Some row \<Longrightarrow> position_wf (f row)"
  shows "odb_inv d'"
  using assms by (auto simp: update_position_def Let_def store_position_inv split: if_splits option.splits)

lemma apply_transition_inv:
  assumes "odb_inv d" "apply_transition now pid t d = (r, d')"
    and "\<And>row. find_position d pid = Some row \<Longrightarrow> position_wf (sm_apply now row t)"
  shows "odb_inv d'"
  using assms(2) unfolding apply_transition_def
  by (rule update_position_inv [OF assms(1)]) (simp add: transition_row_sm_apply assms(3))

text \<open>The row an update returns is the stored one; the other rows keep their values.\<close>

lemma store_position_other:
  assumes "pid \<noteq> pos_id row"
  shows "find_position (store_position now row d) pid = find_position d pid"
proof -
  have "find (\<lambda>p. pos_id p = pid) (map (\<lambda>p. if pos_id p = pos_id row \<and> p \<noteq> row then row\<lparr>pos_updated_at := now\<rparr> else p) ps)
        = find (\<lambda>p. pos_id p = pid) ps" for ps
    using assms by (induction ps) auto
  then show ?thesis by (simp add: find_position_def store_position_def)
qed

lemma store_position_same:
  assumes "find_position d (pos_id row) = Some old"
  shows "find_position (store_position now row d) (pos_id row)
         = Some (if old = row then old else row\<lparr>pos_updated_at := now\<rparr>)"
proof -
  have "find (\<lambda>p. pos_id p = pos_id row) ps = Some old \<Longrightarrow>
     find (\<lambda>p. pos_id p = pos_id row) (map (\<lambda>p. if pos_id p = pos_id row \<and> p \<noteq> row then row\<lparr>pos_updated_at := now\<rparr> else p) ps)
      = Some (if old = row then old else row\<lparr>pos_updated_at := now\<rparr>)" for ps
  proof (induction ps)
    case (Cons p ps)
    then show ?case by (cases "pos_id p = pos_id row"; cases "p = row") simp_all
  qed simp
  with assms show ?thesis by (simp add: find_position_def store_position_def)
qed

section \<open>A database that answers\<close>

definition healthy :: "odb \<Rightarrow> bool" where
  "healthy d \<longleftrightarrow> True \<notin> set (od_faults d)"

lemma healthy_not_fails [simp]: "healthy d \<Longrightarrow> \<not> fails d"
  by (cases "od_faults d") (auto simp: healthy_def)

lemma healthy_cong: "od_faults d' = tl (od_faults d) \<Longrightarrow> healthy d \<Longrightarrow> healthy d'"
  by (cases "od_faults d") (auto simp: healthy_def)

lemma healthy_tick [simp]: "healthy d \<Longrightarrow> healthy (tick d)"
  by (rule healthy_cong) simp

lemma healthy_tl [simp]:
  assumes "healthy d"
  shows "\<not> stmt_fails (tl (od_faults d))" "\<not> stmt_fails (tl (tl (od_faults d)))"
  using healthy_not_fails [OF healthy_tick [OF assms]] healthy_not_fails [OF healthy_tick [OF healthy_tick [OF assms]]]
  by simp_all

lemma healthy_update:
  "healthy d \<Longrightarrow> healthy (od_positions_update f d)" "healthy d \<Longrightarrow> healthy (od_orders_update g d)"
  "healthy d \<Longrightarrow> healthy (od_next_order_update h d)" "healthy d \<Longrightarrow> healthy (od_signals_update k d)"
  "healthy d \<Longrightarrow> healthy (od_next_signal_update h d)" "healthy d \<Longrightarrow> healthy (od_next_position_update h d)"
  by (simp_all add: healthy_def)

lemma healthy_create_order:
  assumes "healthy d" "create_order s x t sd ty p q st rs d = (r, d')"
  shows "\<exists>row. r = Inr row" "healthy d'" "od_positions d' = od_positions d"
    "\<exists>row. od_orders d' = od_orders d @ [row] \<and> ord_ticker row = t \<and> ord_side row = sd \<and>
       ord_quantity row = q \<and> ord_external_order_id row = x \<and> ord_signal_id row = s \<and> ord_status row = st"
    "\<And>row. r = Inr row \<Longrightarrow> od_orders d' = od_orders d @ [row] \<and> ord_id row = od_next_order d"
    "od_signals d' = od_signals d" "od_next_position d' = od_next_position d"
  using assms by (auto simp: create_order_def Let_def healthy_update split: if_splits)

lemma healthy_create_signal:
  assumes "healthy d" "create_signal t s tf sd p tm st d = (r, d')"
  shows "\<exists>row. r = Inr row \<and> od_signals d' = od_signals d @ [row] \<and> sr_id row = od_next_signal d \<and>
      sr_ticker row = t \<and> sr_strategy_id row = s \<and> sr_side row = sd \<and> sr_status row = st"
    and "healthy d'" "od_positions d' = od_positions d" "od_orders d' = od_orders d"
    "od_next_order d' = od_next_order d" "od_next_position d' = od_next_position d"
  using assms by (auto simp: create_signal_def Let_def healthy_update split: if_splits)

lemma healthy_open_position:
  assumes "healthy d" "open_position now oid t s e sp tp q d = (r, d')"
  shows "\<exists>row. r = Inr row \<and> od_positions d' = od_positions d @ [row] \<and> pos_id row = od_next_position d \<and>
      pos_order_id row = oid \<and> pos_ticker row = t \<and> pos_strategy_id row = s \<and> pos_state row = ''OPEN'' \<and>
      pos_entry_price row = e \<and> pos_stop_price row = sp \<and> pos_take_profit_price row = tp \<and>
      pos_highest_price row = Some e \<and> pos_remaining_quantity row = q"
    and "od_orders d' = od_orders d" "od_signals d' = od_signals d"
  using assms by (auto simp: open_position_def Let_def healthy_update split: if_splits)

end
