(* ===== verification/Trading_Service.thy ===== *)
theory Trading_Service
  imports Order_Service Ordering_Repository Risk_Engine
begin

text \<open>
  \<open>app/services/trading_service.py\<close>: the execution of one signal, over the gateway's
  environment, the safety manager and the ordering tables.
\<close>

type_synonym 'e world = "'e \<times> safety option \<times> odb"

section \<open>The code\<close>

definition signal_request :: "signal \<Rightarrow> order_request" where
  "signal_request sg =
     \<lparr>rq_ticker = sg_ticker sg, rq_side = sg_side sg, rq_order_type = ''limit'', rq_qty = 1, rq_price = sg_price sg\<rparr>"

definition execute_from_signal ::
  "'e place_fn \<Rightarrow> 'e status_fn \<Rightarrow> instant \<Rightarrow> signal \<Rightarrow> 'e world \<Rightarrow> unit py \<times> 'e world" where
  "execute_from_signal place status now sg w =
     (case w of (e, sf, d) \<Rightarrow>
      (case create_signal (sg_ticker sg) (sg_strategy_id sg) (sg_timeframe sg) (sg_side sg)
              (or_real (sg_price sg) 0) (case sg_signal_time sg of None \<Rightarrow> now | Some t \<Rightarrow> t) ''queued'' d of
         (Inl x, d1) \<Rightarrow> (Inl x, e, sf, d1)
       | (Inr db_signal, d1) \<Rightarrow>
           (let req = signal_request sg;
                (result, e1, sf1) = place_with_reconcile place status now req (e, sf)
            in case create_order (Some (sr_id db_signal)) (res_order_id result) (sg_ticker sg) (sg_side sg)
                      (rq_order_type req) (rq_price req) (rq_qty req)
                      (if res_ok result then ''filled'' else ''rejected'') (res_error result) d1 of
                 (Inl x, d2) \<Rightarrow> (Inl x, e1, sf1, d2)
               | (Inr order, d2) \<Rightarrow>
                   if res_ok result
                   then
                     (let price = or_real (rq_price req) 0;
                          (stop, tp) = build_stop_take_profit price (max (price * (1 / 100)) 1) (3 / 2) 2
                      in case open_position now (Some (ord_id order)) (sg_ticker sg) (sg_strategy_id sg)
                                price stop tp (rq_qty req) d2 of
                           (Inl x, d3) \<Rightarrow> (Inl x, e1, sf1, d3)
                         | (Inr _, d3) \<Rightarrow> (Inr (), e1, sf1, d3))
                   else (Inr (), e1, sf1, d2))))"

section \<open>Facts\<close>

text \<open>What the safety manager holds never changes what the order service does.\<close>

lemma try_place_indep:
  "try_place place now cd req (e, sf) = (r, e', sf') \<Longrightarrow> \<exists>sg'. try_place place now cd req (e, sg) = (r, e', sg')"
  by (auto simp: try_place_def split: prod.splits sum.splits)

lemma check_status_indep:
  "check_status status now l req r (e, sf) = (ro, e', sf') \<Longrightarrow> \<exists>sg'. check_status status now l req r (e, sg) = (ro, e', sg')"
  by (auto simp: check_status_def split: prod.splits sum.splits option.splits if_splits)

lemma place_with_reconcile_indep:
  assumes "place_with_reconcile place status now req (e, sf) = (r, e', sf')"
  shows "\<exists>sg'. place_with_reconcile place status now req (e, sg) = (r, e', sg')"
proof -
  obtain r1 e1 s1 where a1: "try_place place now ''order_place_exception'' req (e, sf) = (r1, e1, s1)"
    by (cases "try_place place now ''order_place_exception'' req (e, sf)") auto
  obtain t1 where b1: "try_place place now ''order_place_exception'' req (e, sg) = (r1, e1, t1)"
    using try_place_indep [OF a1] by (rule exE)
  obtain o2 e2 s2 where a2: "check_status status now ''first'' req r1 (e1, s1) = (o2, e2, s2)"
    by (cases "check_status status now ''first'' req r1 (e1, s1)") auto
  obtain t2 where b2: "check_status status now ''first'' req r1 (e1, t1) = (o2, e2, t2)"
    using check_status_indep [OF a2] by (rule exE)
  obtain r3 e3 s3 where a3: "try_place place now ''order_retry_exception'' req (e2, s2) = (r3, e3, s3)"
    by (cases "try_place place now ''order_retry_exception'' req (e2, s2)") auto
  obtain t3 where b3: "try_place place now ''order_retry_exception'' req (e2, t2) = (r3, e3, t3)"
    using try_place_indep [OF a3] by (rule exE)
  obtain o4 e4 s4 where a4: "check_status status now ''second'' req r3 (e3, s3) = (o4, e4, s4)"
    by (cases "check_status status now ''second'' req r3 (e3, s3)") auto
  obtain t4 where b4: "check_status status now ''second'' req r3 (e3, t3) = (o4, e4, t4)"
    using check_status_indep [OF a4] by (rule exE)
  show ?thesis
    using assms
    by (auto simp: place_with_reconcile_def a1 b1 a2 b2 a3 b3 a4 b4 split: option.splits if_splits)
qed

text \<open>The four ways an execution ends; a property of it is a case distinction over them.\<close>

definition signal_time_of :: "instant \<Rightarrow> signal \<Rightarrow> instant" where
  "signal_time_of now sg = (case sg_signal_time sg of None \<Rightarrow> now | Some t \<Rightarrow> t)"

lemma execute_cases:
  assumes "execute_from_signal place status now sg (e, sf, d) = (r, e', sf', d')"
  obtains (no_signal) x where "r = Inl x" "e' = e" "sf' = sf"
      "create_signal (sg_ticker sg) (sg_strategy_id sg) (sg_timeframe sg) (sg_side sg) (or_real (sg_price sg) 0)
         (signal_time_of now sg) ''queued'' d = (Inl x, d')"
  | (no_order) row d1 result x where "r = Inl x"
      "create_signal (sg_ticker sg) (sg_strategy_id sg) (sg_timeframe sg) (sg_side sg) (or_real (sg_price sg) 0)
         (signal_time_of now sg) ''queued'' d = (Inr row, d1)"
      "place_with_reconcile place status now (signal_request sg) (e, sf) = (result, e', sf')"
      "create_order (Some (sr_id row)) (res_order_id result) (sg_ticker sg) (sg_side sg) ''limit'' (sg_price sg) 1
         (if res_ok result then ''filled'' else ''rejected'') (res_error result) d1 = (Inl x, d')"
  | (rejected) row d1 result order where "r = Inr ()" "\<not> res_ok result"
      "create_signal (sg_ticker sg) (sg_strategy_id sg) (sg_timeframe sg) (sg_side sg) (or_real (sg_price sg) 0)
         (signal_time_of now sg) ''queued'' d = (Inr row, d1)"
      "place_with_reconcile place status now (signal_request sg) (e, sf) = (result, e', sf')"
      "create_order (Some (sr_id row)) (res_order_id result) (sg_ticker sg) (sg_side sg) ''limit'' (sg_price sg) 1
         ''rejected'' (res_error result) d1 = (Inr order, d')"
  | (filled) row d1 result order d2 stop tp ro where "res_ok result" "r = map_sum (\<lambda>x. x) (\<lambda>_. ()) ro"
      "create_signal (sg_ticker sg) (sg_strategy_id sg) (sg_timeframe sg) (sg_side sg) (or_real (sg_price sg) 0)
         (signal_time_of now sg) ''queued'' d = (Inr row, d1)"
      "place_with_reconcile place status now (signal_request sg) (e, sf) = (result, e', sf')"
      "create_order (Some (sr_id row)) (res_order_id result) (sg_ticker sg) (sg_side sg) ''limit'' (sg_price sg) 1
         ''filled'' (res_error result) d1 = (Inr order, d2)"
      "build_stop_take_profit (or_real (sg_price sg) 0) (max (or_real (sg_price sg) 0 * (1 / 100)) 1) (3 / 2) 2 = (stop, tp)"
      "open_position now (Some (ord_id order)) (sg_ticker sg) (sg_strategy_id sg) (or_real (sg_price sg) 0)
         stop tp 1 d2 = (ro, d')"
proof -
  obtain rs d1 where s: "create_signal (sg_ticker sg) (sg_strategy_id sg) (sg_timeframe sg) (sg_side sg)
      (or_real (sg_price sg) 0) (signal_time_of now sg) ''queued'' d = (rs, d1)" by fastforce
  obtain result e1 sf1 where p: "place_with_reconcile place status now (signal_request sg) (e, sf) = (result, e1, sf1)"
    by (rule prod_cases3)
  note ex = assms [unfolded execute_from_signal_def, folded signal_time_of_def, simplified Let_def split s p]
  show thesis
  proof (cases rs)
    case (Inl x)
    with ex s show thesis by (auto intro: no_signal)
  next
    case (Inr row)
    obtain rd d2 where o: "create_order (Some (sr_id row)) (res_order_id result) (sg_ticker sg) (sg_side sg) ''limit''
        (sg_price sg) 1 (if res_ok result then ''filled'' else ''rejected'') (res_error result) d1 = (rd, d2)" by fastforce
    obtain stop tp where b: "build_stop_take_profit (or_real (sg_price sg) 0)
        (max (or_real (sg_price sg) 0 * (1 / 100)) 1) (3 / 2) 2 = (stop, tp)" by fastforce
    have rq: "rq_order_type (signal_request sg) = ''limit''" "rq_price (signal_request sg) = sg_price sg"
      "rq_qty (signal_request sg) = 1" by (simp_all add: signal_request_def)
    note ex1 = ex [unfolded Inr s p prod.case sum.case rq o b]
    show thesis
    proof (cases rd)
      case rd: (Inl x)
      with ex1 o s p Inr show thesis by (auto intro: no_order)
    next
      case rd: (Inr order)
      show thesis
      proof (cases "res_ok result")
        case False
        with ex1 rd o s p Inr show thesis by (auto intro: rejected)
      next
        case True
        obtain ro d3 where op: "open_position now (Some (ord_id order)) (sg_ticker sg) (sg_strategy_id sg)
            (or_real (sg_price sg) 0) stop tp 1 d2 = (ro, d3)" by fastforce
        from ex1 True rd op have "r = map_sum (\<lambda>x. x) (\<lambda>_. ()) ro" "e' = e1" "sf' = sf1" "d' = d3"
          by (auto split: sum.splits)
        with True rd o s p b op Inr show thesis by (auto intro: filled)
      qed
    qed
  qed
qed

lemma execute_inv:
  assumes "execute_from_signal place status now sg (e, sf, d) = (r, e', sf', d')" "odb_inv d"
  shows "odb_inv d'"
  using assms(1)
proof (cases rule: execute_cases)
  case no_signal
  then show ?thesis using create_signal_inv [OF assms(2)] by simp
next
  case (no_order row d1 result x)
  then show ?thesis using create_order_inv [OF create_signal_inv [OF assms(2) no_order(2)] no_order(4)] by simp
next
  case (rejected row d1 result order)
  then show ?thesis using create_order_inv [OF create_signal_inv [OF assms(2) rejected(3)] rejected(5)] by simp
next
  case (filled row d1 result order d2 stop tp ro)
  have "odb_inv d2" by (rule create_order_inv [OF create_signal_inv [OF assms(2) filled(3)] filled(5)])
  then show ?thesis by (rule open_position_inv [OF _ _ filled(7)]) simp
qed

context safety_observer
begin

lemma execute_safety_inv:
  assumes "execute_from_signal place status now sg (e, sf, d) = (r, e', sf', d')" "pred_option P sf"
  shows "pred_option P sf'"
  using assms(1) by (cases rule: execute_cases) (use assms(2) place_with_reconcile_inv in \<open>auto\<close>)

end

text \<open>Existing positions are never touched by the execution of a signal.\<close>

lemma create_signal_frame:
  "create_signal t s f sd p tm st d = (r, d') \<Longrightarrow> od_positions d' = od_positions d \<and> od_orders d' = od_orders d"
  by (auto simp: create_signal_def Let_def split: if_splits)

lemma create_order_frame:
  "create_order s x t sd ty p q st rs d = (r, d') \<Longrightarrow> od_positions d' = od_positions d \<and> od_signals d' = od_signals d"
  by (auto simp: create_order_def Let_def split: if_splits)

lemma open_position_appends:
  "open_position now oid t s e sp tp q d = (r, d') \<Longrightarrow> \<exists>ps. od_positions d' = od_positions d @ ps \<and> length ps \<le> 1"
  by (fastforce simp: open_position_def Let_def split: if_splits)

lemma execute_positions:
  assumes "execute_from_signal place status now sg (e, sf, d) = (r, e', sf', d')"
  shows "\<exists>ps. od_positions d' = od_positions d @ ps \<and> length ps \<le> 1"
  using assms
proof (cases rule: execute_cases)
  case no_signal
  then show ?thesis using create_signal_frame by (metis append_Nil2 list.size(3) zero_le)
next
  case no_order
  then show ?thesis using create_signal_frame create_order_frame by (metis append_Nil2 list.size(3) zero_le)
next
  case rejected
  then show ?thesis using create_signal_frame create_order_frame by (metis append_Nil2 list.size(3) zero_le)
next
  case (filled row d1 result order d2 stop tp ro)
  then have "od_positions d2 = od_positions d" using create_signal_frame create_order_frame by metis
  with open_position_appends [OF filled(7)] show ?thesis by simp
qed

text \<open>The stop lies below the entry, the target above it.\<close>

lemma entry_levels:
  fixes price :: real
  assumes "0 < price" "build_stop_take_profit price (max (price * (1 / 100)) 1) (3 / 2) 2 = (stop, tp)"
  shows "0 \<le> stop" "stop < price" "price < tp"
  using assms by (auto simp: build_stop_take_profit_def max_def)

section \<open>When the database answers\<close>

text \<open>
  The whole effect of one execution: a signal row, an order row that says what the broker
  answered, and a position exactly when the order was accepted.
\<close>

definition executed_rows :: "signal \<Rightarrow> order_result \<Rightarrow> odb \<Rightarrow> odb \<Rightarrow> bool" where
  "executed_rows sg result d d' \<longleftrightarrow>
     (\<exists>srow orow.
        od_signals d' = od_signals d @ [srow] \<and> sr_ticker srow = sg_ticker sg \<and> sr_strategy_id srow = sg_strategy_id sg \<and>
        sr_side srow = sg_side sg \<and> sr_status srow = ''queued'' \<and>
        od_orders d' = od_orders d @ [orow] \<and> ord_ticker orow = sg_ticker sg \<and> ord_side orow = sg_side sg \<and>
        ord_signal_id orow = Some (sr_id srow) \<and> ord_external_order_id orow = res_order_id result \<and>
        ord_status orow = (if res_ok result then ''filled'' else ''rejected'') \<and>
        (if res_ok result
         then \<exists>prow. od_positions d' = od_positions d @ [prow] \<and> pos_order_id prow = Some (ord_id orow) \<and>
                pos_ticker prow = sg_ticker sg \<and> pos_strategy_id prow = sg_strategy_id sg \<and> pos_state prow = ''OPEN'' \<and>
                pos_remaining_quantity prow = 1 \<and> pos_entry_price prow = or_real (sg_price sg) 0 \<and>
                (0 < or_real (sg_price sg) 0 \<longrightarrow>
                   0 \<le> pos_stop_price prow \<and> pos_stop_price prow < pos_entry_price prow \<and>
                   pos_entry_price prow < pos_take_profit_price prow)
         else od_positions d' = od_positions d))"

lemma execute_healthy:
  assumes "healthy d" "place_with_reconcile place status now (signal_request sg) (e, sf) = (result, e', sf')"
    and "execute_from_signal place status now sg (e, sf, d) = (r, e2, sf2, d')"
  shows "r = Inr () \<and> e2 = e' \<and> sf2 = sf' \<and> executed_rows sg result d d'"
  using assms(3)
proof (cases rule: execute_cases)
  case (no_signal x)
  then show ?thesis using healthy_create_signal(1) [OF assms(1) no_signal(4)] by simp
next
  case (no_order row d1 res x)
  note S = healthy_create_signal [OF assms(1) no_order(2)]
  show ?thesis using healthy_create_order(1) [OF S(2) no_order(4)] by simp
next
  case (rejected row d1 res order)
  note S = healthy_create_signal [OF assms(1) rejected(3)]
  note O = healthy_create_order [OF S(2) rejected(5)]
  have res: "res = result" "e2 = e'" "sf2 = sf'" using rejected(4) assms(2) by simp_all
  show ?thesis using rejected(1,2) S O res by (auto simp: executed_rows_def)
next
  case (filled row d1 res order d2 stop tp ro)
  note S = healthy_create_signal [OF assms(1) filled(3)]
  note O = healthy_create_order [OF S(2) filled(5)]
  note P = healthy_open_position [OF O(2) filled(7)]
  have res: "res = result" "e2 = e'" "sf2 = sf'" using filled(4) assms(2) by simp_all
  have lev: "0 < or_real (sg_price sg) 0 \<Longrightarrow> 0 \<le> stop \<and> stop < or_real (sg_price sg) 0 \<and> or_real (sg_price sg) 0 < tp"
    using entry_levels [OF _ filled(6)] by blast
  obtain prow where p: "ro = Inr prow" "od_positions d' = od_positions d2 @ [prow]" "pos_order_id prow = Some (ord_id order)"
    "pos_ticker prow = sg_ticker sg" "pos_strategy_id prow = sg_strategy_id sg" "pos_state prow = ''OPEN''"
    "pos_entry_price prow = or_real (sg_price sg) 0" "pos_stop_price prow = stop" "pos_take_profit_price prow = tp"
    "pos_remaining_quantity prow = 1" using P(1) by blast
  show ?thesis using filled(1,2) S O P(2,3) res p lev by (auto simp: executed_rows_def)
qed

section \<open>Property\<close>

text \<open>
  C8: when the database answers, executing a signal places its order and records the signal, the
  order with the broker's answer and, exactly if the order was accepted, one open position of one
  share whose stop lies below and whose take profit above a positive entry price.
\<close>

theorem signal_becomes_rows:
  assumes "healthy d" "place_with_reconcile place status now (signal_request sg) (e, sf) = (result, e', sf')"
    and "execute_from_signal place status now sg (e, sf, d) = (r, e2, sf2, d')"
  shows "r = Inr () \<and> e2 = e' \<and> sf2 = sf' \<and> executed_rows sg result d d'"
  using assms by (rule execute_healthy)

definition sample_buy :: signal where
  "sample_buy = \<lparr>sg_index = 0, sg_side = ''buy'', sg_ticker = ''005930'', sg_strategy_id = ''1'', sg_timeframe = ''5m'',
     sg_price = Some 100, sg_signal_time = None\<rparr>"

theorem signal_becomes_rows_witness:
  "\<exists>d'. execute_from_signal paper_place_order paper_get_order_status 7 sample_buy (0, None, odb_init [])
     = (Inr (), 1, None, d') \<and> length (od_positions d') = 1"
proof -
  obtain r e2 sf2 d' where run: "execute_from_signal paper_place_order paper_get_order_status 7 sample_buy (0, None, odb_init []) = (r, e2, sf2, d')"
    by (rule prod_cases4)
  obtain res where p: "place_with_reconcile paper_place_order paper_get_order_status 7 (signal_request sample_buy) (0, None) = (res, 1, None)" "res_ok res"
    by (simp add: place_with_reconcile_def try_place_def paper_place_order_def)
  have "healthy (odb_init [])" by (simp add: healthy_def odb_init_def)
  from signal_becomes_rows [OF this p(1) run] p(2) run show ?thesis by (auto simp: executed_rows_def odb_init_def)
qed

end
