(* ===== verification/Loop_A.thy ===== *)
theory Loop_A
  imports Loop_Core Trading_Service
begin

text \<open>
  \<open>app/loops/loop_a_runtime.py\<close>: one run of Loop A. It takes one signal off the queue and hands
  it to the trading service, then asks the state machine for a decision on every open position
  and carries it out through the order service and the ordering repository. The price and ATR
  providers and the order gateway are functions over an environment \<open>'e\<close>; the database fails
  where the fault plan says.
\<close>

type_synonym 'e price_fn = "string \<Rightarrow> 'e \<Rightarrow> real py \<times> 'e"
type_synonym 'e atr_fn = "string \<Rightarrow> string \<Rightarrow> 'e \<Rightarrow> real py \<times> 'e"

record loop_a_result =
  executed_signal :: bool
  monitored_positions :: nat
  closed_positions :: nat
  failed_close_orders :: nat

section \<open>The code\<close>

text \<open>
  \<open>_resolve_trail_atr_mult\<close>: the strategy's own multiplier if it is set and is a number, the
  general one otherwise; the default only when there is no configuration.
\<close>

definition to_float :: "string py \<Rightarrow> pyfloat py" where
  "to_float r =
     py_bind r (\<lambda>v. case py_float_of v of
       None \<Rightarrow> Inl (ValueError ''could not convert string to float'')
     | Some x \<Rightarrow> Inr x)"

definition trail_key :: "string \<Rightarrow> string" where
  "trail_key sid = ''strategy.'' @ sid @ ''.trail_atr_mult''"

definition resolve_trail_atr_mult :: "config option \<Rightarrow> pyfloat \<Rightarrow> string \<Rightarrow> pyfloat py" where
  "resolve_trail_atr_mult cfg default_mult sid =
     (case cfg of
        None \<Rightarrow> Inr default_mult
      | Some c \<Rightarrow>
          (case to_float (config_get (trail_key sid) c) of
             Inr m \<Rightarrow> Inr m
           | Inl _ \<Rightarrow> to_float (config_get ''trail_atr_mult'' c)))"

definition close_request :: "position_row \<Rightarrow> transition \<Rightarrow> order_request" where
  "close_request p t =
     \<lparr>rq_ticker = pos_ticker p, rq_side = ''sell'', rq_order_type = ''market'', rq_qty = tr_close_qty t, rq_price = None\<rparr>"

text \<open>
  The outcome of one position: what it adds to the counts of closed and failed positions, or an
  exception that leaves the run.
\<close>

type_synonym counts = "nat \<times> nat"

text \<open>
  A caught database error, or an exception that is none (a vanished position's \<open>KeyError\<close>).
\<close>

definition update_failed :: "instant \<Rightarrow> py_exn \<Rightarrow> 'e \<Rightarrow> safety option \<Rightarrow> odb \<Rightarrow> counts py \<times> 'e world" where
  "update_failed now x e sf d =
     (if is_sql_error x then (Inr (0, 1), e, report now ''position_update_failed'' (exn_str x) sf, d)
      else (Inl x, e, sf, d))"

definition opt_str :: "string option \<Rightarrow> string" where
  "opt_str s = (case s of None \<Rightarrow> ''None'' | Some v \<Rightarrow> v)"

definition close_failed_message :: "position_row \<Rightarrow> transition \<Rightarrow> order_result \<Rightarrow> string" where
  "close_failed_message p t result =
     pos_ticker p @ '' strategy='' @ pos_strategy_id p @ '' reason='' @ opt_str (tr_reason t) @
     '' error='' @ opt_str (res_error result)"

definition close_position ::
  "'e place_fn \<Rightarrow> 'e status_fn \<Rightarrow> instant \<Rightarrow> position_row \<Rightarrow> real \<Rightarrow> transition \<Rightarrow> 'e world \<Rightarrow> counts py \<times> 'e world" where
  "close_position place status now p price t w =
     (case w of (e, sf, d) \<Rightarrow>
      (case place_with_reconcile place status now (close_request p t) (e, sf) of
         (result, e1, sf1) \<Rightarrow>
           if \<not> res_ok result
           then (Inr (0, 1), e1, report now ''close_order_failed'' (close_failed_message p t result) sf1, d)
           else
             (case create_order None (res_order_id result) (pos_ticker p) ''sell'' ''market'' (Some price)
                     (tr_close_qty t) ''filled'' (tr_reason t) d of
                (Inl x, d1) \<Rightarrow> update_failed now x e1 sf1 d1
              | (Inr _, d1) \<Rightarrow>
                  (case apply_transition now (pos_id p) t d1 of
                     (Inl x, d2) \<Rightarrow> update_failed now x e1 sf1 d2
                   | (Inr updated, d2) \<Rightarrow>
                       (Inr (if pos_state updated = ''CLOSED'' then 1 else 0, 0), e1, sf1, d2)))))"

definition refresh_position ::
  "instant \<Rightarrow> position_row \<Rightarrow> transition \<Rightarrow> 'e world \<Rightarrow> counts py \<times> 'e world" where
  "refresh_position now p t w =
     (case w of (e, sf, d) \<Rightarrow>
        if tr_new_highest t \<noteq> pos_highest_price p \<or> pf_ne (tr_new_trailing_stop t) (pos_trailing_stop_price p)
        then (case apply_transition now (pos_id p) t d of
                (Inl x, d1) \<Rightarrow> update_failed now x e sf d1
              | (Inr _, d1) \<Rightarrow> (Inr (0, 0), e, sf, d1))
        else (Inr (0, 0), e, sf, d))"

text \<open>The session is opened before anything is carried out; opening it is a statement that may fail.\<close>

definition act_on ::
  "'e place_fn \<Rightarrow> 'e status_fn \<Rightarrow> instant \<Rightarrow> position_row \<Rightarrow> real \<Rightarrow> transition \<Rightarrow> 'e world \<Rightarrow> counts py \<times> 'e world" where
  "act_on place status now p price t w =
     (case w of (e, sf, d) \<Rightarrow>
        if fails d then (Inr (0, 1), e, report now ''positions_session_failed'' (exn_str db_error) sf, tick d)
        else if tr_close_qty t > 0 then close_position place status now p price t (e, sf, tick d)
        else refresh_position now p t (e, sf, tick d))"

definition monitor_one ::
  "'e place_fn \<Rightarrow> 'e status_fn \<Rightarrow> 'e price_fn \<Rightarrow> 'e atr_fn \<Rightarrow> config option \<Rightarrow> pyfloat \<Rightarrow> instant \<Rightarrow> position_row
     \<Rightarrow> 'e world \<Rightarrow> counts py \<times> 'e world" where
  "monitor_one place status price atr cfg dm now p w =
     (case w of (e, sf, d) \<Rightarrow>
      (case price (pos_ticker p) e of
         (Inl x, e1) \<Rightarrow> (Inl x, e1, sf, d)
       | (Inr current_price, e1) \<Rightarrow>
           (case atr (pos_ticker p) (pos_strategy_id p) e1 of
              (Inl x, e2) \<Rightarrow> (Inl x, e2, sf, d)
            | (Inr atr_value, e2) \<Rightarrow>
                (case resolve_trail_atr_mult cfg dm (pos_strategy_id p) of
                   Inl x \<Rightarrow> (Inl x, e2, sf, d)
                 | Inr m \<Rightarrow>
                     act_on place status now p current_price
                       (decide (snapshot_of p) current_price atr_value m) (e2, sf, d)))))"

text \<open>The loop over the positions: the counters of the code are the accumulated pair.\<close>

fun monitor_all ::
  "(position_row \<Rightarrow> 'w \<Rightarrow> counts py \<times> 'w) \<Rightarrow> position_row list \<Rightarrow> counts \<Rightarrow> 'w \<Rightarrow> counts py \<times> 'w" where
  "monitor_all one [] acc w = (Inr acc, w)"
| "monitor_all one (p # ps) acc w =
     (case one p w of
        (Inl x, w') \<Rightarrow> (Inl x, w')
      | (Inr (c, f), w') \<Rightarrow> monitor_all one ps (fst acc + c, snd acc + f) w')"

definition monitor_positions_once ::
  "'e place_fn \<Rightarrow> 'e status_fn \<Rightarrow> 'e price_fn \<Rightarrow> 'e atr_fn \<Rightarrow> config option \<Rightarrow> pyfloat \<Rightarrow> instant
     \<Rightarrow> 'e world \<Rightarrow> (nat \<times> counts) py \<times> 'e world" where
  "monitor_positions_once place status price atr cfg dm now w =
     (case w of (e, sf, d) \<Rightarrow>
      (case list_open_positions d of
         (Inl x, d1) \<Rightarrow> (Inr (0, 0, 0), e, report now ''positions_query_failed'' (exn_str x) sf, d1)
       | (Inr positions, d1) \<Rightarrow>
           (case monitor_all (monitor_one place status price atr cfg dm now) positions (0, 0) (e, sf, d1) of
              (Inl x, w2) \<Rightarrow> (Inl x, w2)
            | (Inr cf, w2) \<Rightarrow> (Inr (length positions, cf), w2))))"

definition consume_signal_once ::
  "'e place_fn \<Rightarrow> 'e status_fn \<Rightarrow> instant \<Rightarrow> queue \<Rightarrow> 'e world \<Rightarrow> bool \<times> queue \<times> 'e world" where
  "consume_signal_once place status now q w =
     (case pop_one q of
        (None, q') \<Rightarrow> (False, q', w)
      | (Some sg, q') \<Rightarrow>
          (case execute_from_signal place status now sg w of
             (Inr _, w') \<Rightarrow> (True, q', w')
           | (Inl x, (e', sf', d')) \<Rightarrow>
               (False, q', e', report now ''signal_execute_failed'' (exn_str x) sf', d')))"

definition loop_a_run_once ::
  "'e place_fn \<Rightarrow> 'e status_fn \<Rightarrow> 'e price_fn \<Rightarrow> 'e atr_fn \<Rightarrow> config option \<Rightarrow> pyfloat \<Rightarrow> instant
     \<Rightarrow> queue \<times> 'e world \<Rightarrow> loop_a_result py \<times> queue \<times> 'e world" where
  "loop_a_run_once place status price atr cfg dm now s =
     (case s of (q, w) \<Rightarrow>
      (case consume_signal_once place status now q w of
         (executed, q', w1) \<Rightarrow>
           (case monitor_positions_once place status price atr cfg dm now w1 of
              (Inl x, w2) \<Rightarrow> (Inl x, q', w2)
            | (Inr (m, c, f), w2) \<Rightarrow>
                (Inr \<lparr>executed_signal = executed, monitored_positions = m, closed_positions = c,
                      failed_close_orders = f\<rparr>, q', w2))))"

section \<open>Counts\<close>

lemma close_position_counts:
  "close_position place status now p c t w = (Inr (a, b), w') \<Longrightarrow> a + b \<le> 1"
  by (auto simp: close_position_def update_failed_def split: prod.splits sum.splits if_splits)

lemma act_on_counts: "act_on place status now p c t w = (Inr (a, b), w') \<Longrightarrow> a + b \<le> 1"
  by (auto simp: act_on_def refresh_position_def update_failed_def dest: close_position_counts
      split: prod.splits sum.splits if_splits)

lemma monitor_one_counts:
  "monitor_one place status price atr cfg dm now p w = (Inr (a, b), w') \<Longrightarrow> a + b \<le> 1"
  by (auto simp: monitor_one_def dest: act_on_counts split: prod.splits sum.splits)

lemma monitor_all_counts:
  assumes "\<And>p w a b w'. one p w = (Inr (a, b), w') \<Longrightarrow> a + b \<le> (1::nat)"
    and "monitor_all one ps (c0, f0) w = (Inr (c, f), w')"
  shows "c + f \<le> c0 + f0 + length ps"
  using assms(2)
proof (induction ps arbitrary: c0 f0 w)
  case (Cons p ps)
  obtain r w1 where one: "one p w = (r, w1)" by fastforce
  with Cons.prems obtain a b where r: "r = Inr (a, b)" by (cases r) auto
  with Cons.prems one have "monitor_all one ps (c0 + a, f0 + b) w1 = (Inr (c, f), w')" by simp
  from Cons.IH [OF this] assms(1) [OF one [unfolded r]] show ?case by simp
qed simp

section \<open>What a run does to the tables\<close>

lemma update_position_effect:
  assumes "update_position now pid f d = (r, d')"
  shows "od_positions d' = od_positions d \<and> (\<exists>x. r = Inl x)
    \<or> (\<exists>row. find_position d pid = Some row \<and> od_positions d' = od_positions (store_position now (f row) d)
         \<and> (r = Inl db_error \<or> (\<exists>row'. find_position d' pid = Some row' \<and> r = Inr row')))"
  using assms
  by (auto simp: update_position_def Let_def store_position_def find_position_def tick_def
      split: if_splits option.splits)

lemma update_position_frame:
  assumes "update_position now pid f d = (r, d')"
  shows "od_signals d' = od_signals d" "od_orders d' = od_orders d" "od_next_position d' = od_next_position d"
  using assms
  by (auto simp: update_position_def Let_def store_position_def split: if_splits option.splits)

lemma find_position_cong: "od_positions d = od_positions d' \<Longrightarrow> find_position d = find_position d'"
  by (simp add: find_position_def fun_eq_iff)

text \<open>
  Carrying out a decision on the row it was made for changes that row by the decision, or
  nothing; whatever fails, the row stays what it was or becomes what the state machine says.
\<close>

definition row_step :: "instant \<Rightarrow> position_row \<Rightarrow> transition \<Rightarrow> odb \<Rightarrow> odb \<Rightarrow> bool" where
  "row_step now p t d d' \<longleftrightarrow>
     od_positions d' = od_positions d \<or> od_positions d' = od_positions (store_position now (sm_apply now p t) d)"

lemma apply_transition_row_step:
  assumes "apply_transition now (pos_id p) t d = (r, d')" "find_position d (pos_id p) = Some p"
  shows "row_step now p t d d'"
  using update_position_effect [OF assms(1) [unfolded apply_transition_def]] assms(2)
  by (auto simp: row_step_def transition_row_sm_apply)

lemma row_step_cong: "od_positions d1 = od_positions d \<Longrightarrow> row_step now p t d1 d' = row_step now p t d d'"
  by (simp add: row_step_def store_position_def)

lemma row_step_tick [simp]: "row_step now p t (tick d) d' = row_step now p t d d'"
  by (rule row_step_cong) simp

lemma row_step_refl [simp]: "row_step now p t d d" "row_step now p t d (tick d)"
  by (simp_all add: row_step_def)

lemma close_position_row_step:
  assumes "close_position place status now p c t (e, sf, d) = (r, e', sf', d')" "find_position d (pos_id p) = Some p"
  shows "row_step now p t d d'"
proof -
  obtain result e1 sf1 where pl: "place_with_reconcile place status now (close_request p t) (e, sf) = (result, e1, sf1)"
    by (rule prod_cases3)
  obtain ro d1 where co: "create_order None (res_order_id result) (pos_ticker p) ''sell'' ''market'' (Some c)
                     (tr_close_qty t) ''filled'' (tr_reason t) d = (ro, d1)" by fastforce
  obtain ra d2 where ap: "apply_transition now (pos_id p) t d1 = (ra, d2)" by fastforce
  have eq: "od_positions d1 = od_positions d" using create_order_frame [OF co] by simp
  then have fp: "find_position d1 (pos_id p) = Some p" using assms(2) find_position_cong by metis
  have "d' \<in> {d, d1, d2}"
    using assms(1)
    by (auto simp: close_position_def pl co ap update_failed_def split: if_splits sum.splits)
  then show ?thesis
    using apply_transition_row_step [OF ap fp] row_step_cong [OF eq] by (auto simp: row_step_def eq)
qed

lemma act_on_row_step:
  assumes "act_on place status now p c t (e, sf, d) = (r, e', sf', d')" "find_position d (pos_id p) = Some p"
  shows "row_step now p t d d'"
proof -
  obtain ra d2 where ap: "apply_transition now (pos_id p) t (tick d) = (ra, d2)" by fastforce
  have tk: "find_position (tick d) (pos_id p) = Some p" using assms(2) by simp
  show ?thesis
    using assms(1) close_position_row_step [OF _ tk] apply_transition_row_step [OF ap tk]
    by (auto simp: act_on_def refresh_position_def ap update_failed_def split: if_splits sum.splits)
qed

lemma monitor_one_cases:
  assumes "monitor_one place status price atr cfg dm now p (e, sf, d) = (r, e', sf', d')"
  obtains (raised) x where "r = Inl x" "sf' = sf" "d' = d"
  | (acted) e1 c a m e2 where "price (pos_ticker p) e = (Inr c, e1)"
      "atr (pos_ticker p) (pos_strategy_id p) e1 = (Inr a, e2)"
      "resolve_trail_atr_mult cfg dm (pos_strategy_id p) = Inr m"
      "act_on place status now p c (decide (snapshot_of p) c a m) (e2, sf, d) = (r, e', sf', d')"
proof -
  obtain rp e1 where p: "price (pos_ticker p) e = (rp, e1)" by fastforce
  obtain ra e2 where a: "atr (pos_ticker p) (pos_strategy_id p) e1 = (ra, e2)" by fastforce
  note m = assms [unfolded monitor_one_def prod.case p a]
  consider x where "rp = Inl x" | c x where "rp = Inr c" "ra = Inl x"
    | c av x where "rp = Inr c" "ra = Inr av" "resolve_trail_atr_mult cfg dm (pos_strategy_id p) = Inl x"
    | c av mu where "rp = Inr c" "ra = Inr av" "resolve_trail_atr_mult cfg dm (pos_strategy_id p) = Inr mu"
    by (metis sum.exhaust)
  then show thesis
  proof cases
    case 1
    with m have "r = Inl x" "sf' = sf" "d' = d" by simp_all
    then show thesis by (rule raised)
  next
    case 2
    with m have "r = Inl x" "sf' = sf" "d' = d" by simp_all
    then show thesis by (rule raised)
  next
    case 3
    with m have "r = Inl x" "sf' = sf" "d' = d" by simp_all
    then show thesis by (rule raised)
  next
    case 4
    with m acted p a show thesis by simp
  qed
qed

section \<open>Every run keeps the tables well formed\<close>

definition pending :: "position_row list \<Rightarrow> odb \<Rightarrow> bool" where
  "pending ps d \<longleftrightarrow> distinct (map pos_id ps) \<and> (\<forall>p\<in>set ps. find_position d (pos_id p) = Some p)"

lemma pending_Cons:
  assumes "pending (p # ps) d" "row_step now p t d d'"
  shows "pending ps d'"
proof -
  have "find_position d' (pos_id q) = Some q" if q: "q \<in> set ps" for q
  proof -
    have fq: "find_position d (pos_id q) = Some q" using assms(1) q by (simp add: pending_def)
    have "pos_id p \<notin> set (map pos_id ps)" using assms(1) unfolding pending_def list.map distinct.simps by (rule conjunct1 [OF conjunct1])
    then have "pos_id q \<noteq> pos_id p" using q by (metis imageI list.set_map)
    then have ne: "pos_id q \<noteq> pos_id (sm_apply now p t)" by (simp only: sm_apply_frame not_False_eq_True)
    from assms(2) consider "find_position d' = find_position d"
      | "find_position d' = find_position (store_position now (sm_apply now p t) d)"
      unfolding row_step_def using find_position_cong by blast
    then show ?thesis
      by cases (simp_all add: fq store_position_other [OF ne])
  qed
  with assms(1) show ?thesis by (simp add: pending_def)
qed

lemma odb_inv_find_wf: "odb_inv d \<Longrightarrow> find_position d i = Some p \<Longrightarrow> position_wf p"
  using find_position_Some by (fastforce simp: odb_inv_def)

lemma close_position_inv:
  assumes "close_position place status now p c t (e, sf, d) = (r, e', sf', d')"
    and "odb_inv d" "find_position d (pos_id p) = Some p" "position_wf (sm_apply now p t)"
  shows "odb_inv d'"
proof -
  obtain result e1 sf1 where pl: "place_with_reconcile place status now (close_request p t) (e, sf) = (result, e1, sf1)"
    by (rule prod_cases3)
  obtain ro d1 where co: "create_order None (res_order_id result) (pos_ticker p) ''sell'' ''market'' (Some c)
                     (tr_close_qty t) ''filled'' (tr_reason t) d = (ro, d1)" by fastforce
  obtain ra d2 where ap: "apply_transition now (pos_id p) t d1 = (ra, d2)" by fastforce
  have inv1: "odb_inv d1" using create_order_inv [OF assms(2) co] .
  have "od_positions d1 = od_positions d" using create_order_frame [OF co] by simp
  then have "find_position d1 (pos_id p) = Some p" using assms(3) find_position_cong by metis
  then have "odb_inv d2" using apply_transition_inv [OF inv1 ap] assms(4) by simp
  moreover have "d' \<in> {d, d1, d2}"
    using assms(1) by (auto simp: close_position_def pl co ap update_failed_def split: if_splits sum.splits)
  ultimately show ?thesis using inv1 assms(2) by auto
qed

lemma act_on_inv:
  assumes "act_on place status now p c t (e, sf, d) = (r, e', sf', d')"
    and "odb_inv d" "find_position d (pos_id p) = Some p" "position_wf (sm_apply now p t)"
  shows "odb_inv d'"
proof -
  obtain ra d2 where ap: "apply_transition now (pos_id p) t (tick d) = (ra, d2)" by fastforce
  have "odb_inv d2" using apply_transition_inv [OF _ ap] assms by simp
  then show ?thesis
    using assms(1,2) close_position_inv [of place status now p c t e sf "tick d" r e' sf' d'] assms(3,4)
    by (auto simp: act_on_def refresh_position_def ap update_failed_def split: if_splits sum.splits)
qed

lemma monitor_one_step:
  assumes "monitor_one place status price atr cfg dm now p (e, sf, d) = (r, e', sf', d')"
    and "odb_inv d" "pending (p # ps) d"
  shows "odb_inv d' \<and> pending ps d'"
proof -
  have fp: "find_position d (pos_id p) = Some p" using assms(3) by (simp add: pending_def)
  from assms(1) show ?thesis
  proof (cases rule: monitor_one_cases)
    case raised
    then show ?thesis using assms(2,3) by (simp add: pending_def)
  next
    case (acted e1 c a m e2)
    have "position_wf (sm_apply now p (decide (snapshot_of p) c a m))"
      using odb_inv_find_wf [OF assms(2) fp] by (rule sm_apply_decide_wf)
    with acted(4) show ?thesis
      using act_on_inv [OF acted(4) assms(2) fp] pending_Cons [OF assms(3) act_on_row_step [OF acted(4) fp]] by simp
  qed
qed

lemma monitor_all_inv:
  assumes "monitor_all (monitor_one place status price atr cfg dm now) ps acc (e, sf, d) = (r, e', sf', d')"
    and "odb_inv d" "pending ps d"
  shows "odb_inv d'"
  using assms
proof (induction ps arbitrary: acc e sf d)
  case (Cons p ps)
  obtain r1 e1 sf1 d1 where one: "monitor_one place status price atr cfg dm now p (e, sf, d) = (r1, e1, sf1, d1)"
    by (rule prod_cases4)
  have "odb_inv d1 \<and> pending ps d1" using monitor_one_step [OF one Cons.prems(2,3)] .
  then show ?case using Cons.prems(1) Cons.IH by (cases r1) (auto simp: one)
qed simp

lemma odb_inv_pending:
  assumes "odb_inv d"
  shows "pending (filter P (od_positions d)) d"
proof -
  have dist: "distinct (map pos_id (od_positions d))" using assms by (simp add: odb_inv_def keys_ok_def)
  then show ?thesis using find_position_distinct [OF dist] by (auto simp: pending_def distinct_map_filter)
qed

lemma pending_tick [simp]: "pending ps (tick d) = pending ps d"
  by (simp add: pending_def)

lemma list_open_positions_Inr:
  "list_open_positions d = (Inr ps, d') \<Longrightarrow> ps = filter (\<lambda>p. pos_state p \<noteq> ''CLOSED'') (od_positions d) \<and> d' = tick d"
  by (auto simp: list_open_positions_def split: if_splits)

lemma monitor_positions_once_inv:
  assumes "monitor_positions_once place status price atr cfg dm now (e, sf, d) = (r, e', sf', d')" "odb_inv d"
  shows "odb_inv d'"
proof -
  obtain rl d1 where l: "list_open_positions d = (rl, d1)" by fastforce
  show ?thesis
  proof (cases rl)
    case (Inl x)
    then show ?thesis using assms l list_open_positions_inv [OF assms(2) l] by (simp add: monitor_positions_once_def)
  next
    case (Inr ps)
    obtain r2 e2 sf2 d2 where m: "monitor_all (monitor_one place status price atr cfg dm now) ps (0, 0) (e, sf, d1)
        = (r2, e2, sf2, d2)" by (rule prod_cases4)
    have "pending ps d1" using list_open_positions_Inr [OF l [unfolded Inr]] odb_inv_pending [OF assms(2)] by simp
    then have "odb_inv d2" using monitor_all_inv [OF m list_open_positions_inv [OF assms(2) l]] by simp
    then show ?thesis using assms(1) l Inr m by (auto simp: monitor_positions_once_def split: sum.splits)
  qed
qed

lemma consume_signal_once_inv:
  assumes "consume_signal_once place status now q (e, sf, d) = (b, q', e', sf', d')" "odb_inv d"
  shows "odb_inv d'"
proof (cases q)
  case (Cons sg rest)
  obtain r e1 sf1 d1 where x: "execute_from_signal place status now sg (e, sf, d) = (r, e1, sf1, d1)"
    by (rule prod_cases4)
  from execute_inv [OF x assms(2)] assms(1) show ?thesis
    by (auto simp: consume_signal_once_def Cons x split: sum.splits)
qed (use assms in \<open>simp add: consume_signal_once_def\<close>)

lemma loop_a_inv:
  assumes "loop_a_run_once place status price atr cfg dm now (q, e, sf, d) = (r, q', e', sf', d')" "odb_inv d"
  shows "odb_inv d'"
proof -
  obtain b q1 e1 sf1 d1 where c: "consume_signal_once place status now q (e, sf, d) = (b, q1, e1, sf1, d1)"
    by (rule prod_cases5)
  obtain r2 e2 sf2 d2 where m: "monitor_positions_once place status price atr cfg dm now (e1, sf1, d1) = (r2, e2, sf2, d2)"
    by (rule prod_cases4)
  have "odb_inv d2" using monitor_positions_once_inv [OF m consume_signal_once_inv [OF c assms(2)]] .
  then show ?thesis using assms(1) by (auto simp: loop_a_run_once_def c m split: sum.splits)
qed

section \<open>The healthy run refines the state machine\<close>

text \<open>
  No statement fails and the broker accepts every order: then a run moves every open position
  by exactly one observation of the state machine, and \<open>updated_at\<close> moves with the changed rows.
\<close>

definition accepting :: "'e place_fn \<Rightarrow> bool" where
  "accepting place \<longleftrightarrow> (\<forall>req e. \<exists>r e'. place req e = (Inr r, e') \<and> res_ok r)"

definition touched :: "instant \<Rightarrow> position_row \<Rightarrow> position_row \<Rightarrow> position_row" where
  "touched now p row = (if p = row then p else row\<lparr>pos_updated_at := now\<rparr>)"

lemma healthy_apply_transition:
  assumes "healthy d" "apply_transition now (pos_id p) t d = (r, d')" "find_position d (pos_id p) = Some p"
  shows "r = Inr (touched now p (sm_apply now p t))" "healthy d'"
    "od_positions d' = od_positions (store_position now (sm_apply now p t) d)" "od_orders d' = od_orders d"
proof -
  let ?row = "sm_apply now p t"
  let ?d2 = "store_position now ?row (tick (tick d))"
  have h2: "healthy ?d2" using assms(1) by (simp add: store_position_def healthy_update)
  have fp: "find_position ?d2 (pos_id p) = Some (touched now p ?row)"
    using store_position_same [of "tick (tick d)" ?row p now] assms(3) by (simp add: frame_simps touched_def)
  have "apply_transition now (pos_id p) t d = (Inr (touched now p ?row), tick ?d2)"
    using assms(1,3) h2 fp
    by (simp add: apply_transition_def update_position_def Let_def transition_row_sm_apply)
  with assms(2) have "r = Inr (touched now p ?row)" "d' = tick ?d2" by simp_all
  then show "r = Inr (touched now p ?row)" "healthy d'" "od_positions d' = od_positions (store_position now ?row d)"
    "od_orders d' = od_orders d"
    using h2 by (simp_all add: store_position_def)
qed

lemma store_position_map:
  assumes "distinct (map pos_id (od_positions d))" "p \<in> set (od_positions d)" "pos_id row = pos_id p"
  shows "od_positions (store_position now row d) = map (\<lambda>q. if q = p then touched now p row else q) (od_positions d)"
proof -
  have "(if pos_id q = pos_id row \<and> q \<noteq> row then row\<lparr>pos_updated_at := now\<rparr> else q)
      = (if q = p then touched now p row else q)" if q: "q \<in> set (od_positions d)" for q
  proof (cases "pos_id q = pos_id p")
    case True
    then have "q = p" using q assms(2) by (rule inj_onD [OF conjunct2 [OF assms(1) [unfolded distinct_map]]])
    then show ?thesis by (simp only: touched_def assms(3) simp_thms if_True) (auto simp only: split: if_splits)
  next
    case False
    then have "pos_id q \<noteq> pos_id row" "q \<noteq> p" using assms(3) by auto
    then show ?thesis by (simp only: simp_thms if_False)
  qed
  then show ?thesis unfolding store_position_def by simp
qed

lemma accepting_reconcile:
  assumes "accepting place"
  shows "\<exists>r e'. place_with_reconcile place status now req (e, sf) = (r, e', sf) \<and> res_ok r"
proof -
  obtain r e' where "place req e = (Inr r, e')" "res_ok r"
    using assms unfolding accepting_def by blast
  then show ?thesis by (simp add: place_with_reconcile_def try_place_def)
qed

text \<open>A decision that neither closes nor changes the recorded prices changes nothing.\<close>

lemma decide_no_close:
  assumes "position_wf p" "pos_state p \<noteq> ''CLOSED''" "\<not> tr_close_qty (decide (snapshot_of p) c a m) > 0"
  shows "tr_new_state (decide (snapshot_of p) c a m) = pos_state p"
  using assms(1)
proof (cases rule: position_wf_cases)
  case open_pos
  with assms(3) show ?thesis by (simp add: decide_def split: if_splits)
next
  case half_pos
  with assms(3) show ?thesis by (simp add: decide_def Let_def split: if_splits)
next
  case closed_pos
  with assms(2) show ?thesis by simp
qed

lemma sm_apply_unchanged:
  assumes "tr_new_state t = pos_state p" "pos_state p \<noteq> ''CLOSED''" "\<not> tr_close_qty t > 0"
    and "tr_new_highest t = pos_highest_price p" "tr_new_trailing_stop t = pos_trailing_stop_price p"
  shows "sm_apply now p t = p"
  using assms by (simp add: sm_apply_def Let_def)

lemma act_on_healthy:
  assumes "healthy d" "accepting place" "position_wf p" "pos_state p \<noteq> ''CLOSED''"
    and "distinct (map pos_id (od_positions d))" "find_position d (pos_id p) = Some p"
    and "t = decide (snapshot_of p) c a m"
  shows "\<exists>e' d'. act_on place status now p c t (e, sf, d)
       = (Inr (if tr_new_state t = ''CLOSED'' then 1 else 0, 0), e', sf, d') \<and> healthy d' \<and>
         od_positions d' = map (\<lambda>q. if q = p then touched now p (sm_apply now p t) else q) (od_positions d)"
proof -
  have pin: "p \<in> set (od_positions d)" using find_position_Some [OF assms(6)] by simp
  have ids: "pos_id (sm_apply now p t) = pos_id p" by (simp add: frame_simps)
  note sp = store_position_map [OF assms(5) pin ids]
  have ht: "healthy (tick d)" and ft: "find_position (tick d) (pos_id p) = Some p" using assms(1,6) by simp_all
  have spt: "od_positions (store_position now (sm_apply now p t) (tick d)) = od_positions (store_position now (sm_apply now p t) d)"
    by (simp add: store_position_def)
  obtain ra d2 where ap: "apply_transition now (pos_id p) t (tick d) = (ra, d2)" by fastforce
  note A = healthy_apply_transition [OF ht ap ft]
  show ?thesis
  proof (cases "tr_close_qty t > 0")
    case True
    obtain result e1 where pl: "place_with_reconcile place status now (close_request p t) (e, sf) = (result, e1, sf)"
      and ok: "res_ok result" using accepting_reconcile [OF assms(2)] by blast
    obtain ro d1 where co: "create_order None (res_order_id result) (pos_ticker p) ''sell'' ''market'' (Some c)
                       (tr_close_qty t) ''filled'' (tr_reason t) (tick d) = (ro, d1)" by fastforce
    note C = healthy_create_order [OF ht co]
    obtain row where row: "ro = Inr row" using C(1) by blast
    have f1: "find_position d1 (pos_id p) = Some p" using find_position_cong [OF C(3)] ft by simp
    obtain ra' d3 where ap': "apply_transition now (pos_id p) t d1 = (ra', d3)" by fastforce
    note A' = healthy_apply_transition [OF C(2) ap' f1]
    have st: "pos_state (touched now p (sm_apply now p t)) = tr_new_state t"
      by (metis touched_def sm_apply_effects(1) position_row.simps(5) position_row.surjective position_row.update_convs(16))
    have "od_positions (store_position now (sm_apply now p t) d1) = od_positions (store_position now (sm_apply now p t) d)"
      using C(3) by (simp add: store_position_def)
    then show ?thesis
      using True assms(1) pl ok co row ap' A' st sp
      by (simp add: act_on_def close_position_def)
  next
    case False
    show ?thesis
    proof (cases "tr_new_highest t \<noteq> pos_highest_price p \<or> pf_ne (tr_new_trailing_stop t) (pos_trailing_stop_price p)")
      case changed: True
      have "tr_new_state t \<noteq> ''CLOSED''" using decide_no_close [OF assms(3,4)] False assms(4,7) by simp
      then show ?thesis
        using False changed assms(1) ap A sp spt by (auto simp: act_on_def refresh_position_def)
    next
      case same: False
      have st: "tr_new_state t = pos_state p" using decide_no_close [OF assms(3,4)] False assms(7) by simp
      have "sm_apply now p t = p"
        using sm_apply_unchanged [OF st assms(4) False] same by (simp add: pf_ne_def)
      then have "map (\<lambda>q. if q = p then touched now p (sm_apply now p t) else q) (od_positions d) = od_positions d"
        by (simp add: touched_def map_idI)
      then show ?thesis
        using False same assms(1,4) st by (auto simp: act_on_def refresh_position_def)
    qed
  qed
qed

text \<open>Providers that answer, with the same figures through the run.\<close>

definition steady_price :: "'e price_fn \<Rightarrow> (string \<Rightarrow> real) \<Rightarrow> bool" where
  "steady_price price pr \<longleftrightarrow> (\<forall>t e. \<exists>e'. price t e = (Inr (pr t), e'))"

definition steady_atr :: "'e atr_fn \<Rightarrow> (string \<Rightarrow> string \<Rightarrow> real) \<Rightarrow> bool" where
  "steady_atr atr ar \<longleftrightarrow> (\<forall>t s e. \<exists>e'. atr t s e = (Inr (ar t s), e'))"

definition observed ::
  "instant \<Rightarrow> (string \<Rightarrow> real) \<Rightarrow> (string \<Rightarrow> string \<Rightarrow> real) \<Rightarrow> (string \<Rightarrow> pyfloat) \<Rightarrow> position_row \<Rightarrow> position_row" where
  "observed now pr ar mu p =
     observe p (now, pr (pos_ticker p), ar (pos_ticker p) (pos_strategy_id p), mu (pos_strategy_id p))"

lemma monitor_one_healthy:
  assumes "steady_price price pr" "steady_atr atr ar" "\<And>s. resolve_trail_atr_mult cfg dm s = Inr (mu s)"
    and "healthy d" "accepting place" "position_wf p" "pos_state p \<noteq> ''CLOSED''"
    and "distinct (map pos_id (od_positions d))" "find_position d (pos_id p) = Some p"
  shows "\<exists>e' d'. monitor_one place status price atr cfg dm now p (e, sf, d)
       = (Inr (if pos_state (observed now pr ar mu p) = ''CLOSED'' then 1 else 0, 0), e', sf, d') \<and> healthy d' \<and>
         od_positions d' = map (\<lambda>q. if q = p then touched now p (observed now pr ar mu p) else q) (od_positions d)"
proof -
  obtain e1 where p: "price (pos_ticker p) e = (Inr (pr (pos_ticker p)), e1)"
    using assms(1) unfolding steady_price_def by blast
  obtain e2 where a: "atr (pos_ticker p) (pos_strategy_id p) e1 = (Inr (ar (pos_ticker p) (pos_strategy_id p)), e2)"
    using assms(2) unfolding steady_atr_def by blast
  let ?t = "decide (snapshot_of p) (pr (pos_ticker p)) (ar (pos_ticker p) (pos_strategy_id p)) (mu (pos_strategy_id p))"
  have o: "observed now pr ar mu p = sm_apply now p ?t" by (simp add: observed_def observe_def)
  have st: "pos_state (sm_apply now p ?t) = tr_new_state ?t" by (simp add: sm_apply_effects)
  from act_on_healthy [OF assms(4-9) refl [of ?t], of status now e2 sf]
  show ?thesis by (simp only: monitor_one_def prod.case p sum.case a assms(3) o st)
qed

lemma touched_id [simp]: "pos_id (touched now p (observed now pr ar mu p)) = pos_id p"
  by (simp add: touched_def observed_def observe_def frame_simps)

lemma monitor_all_healthy:
  assumes "steady_price price pr" "steady_atr atr ar" "\<And>s. resolve_trail_atr_mult cfg dm s = Inr (mu s)" "accepting place"
    and "healthy d" "distinct (map pos_id (od_positions d))" "pending ps d"
    and "\<forall>p\<in>set ps. position_wf p \<and> pos_state p \<noteq> ''CLOSED''"
  shows "\<exists>e' d'. monitor_all (monitor_one place status price atr cfg dm now) ps (c0, f0) (e, sf, d)
       = (Inr (c0 + length (filter (\<lambda>p. pos_state (observed now pr ar mu p) = ''CLOSED'') ps), f0), e', sf, d') \<and>
         od_positions d' = map (\<lambda>q. if q \<in> set ps then touched now q (observed now pr ar mu q) else q) (od_positions d)"
  using assms(5-8)
proof (induction ps arbitrary: c0 e d)
  case Nil
  then show ?case by simp
next
  case (Cons p ps)
  let ?o = "observed now pr ar mu"
  have fp: "find_position d (pos_id p) = Some p" and p: "position_wf p" "pos_state p \<noteq> ''CLOSED''"
    using Cons.prems(3,4) by (simp_all add: pending_def)
  obtain e1 d1 where one: "monitor_one place status price atr cfg dm now p (e, sf, d)
       = (Inr (if pos_state (?o p) = ''CLOSED'' then 1 else 0, 0), e1, sf, d1)"
    and h1: "healthy d1" and ps1: "od_positions d1 = map (\<lambda>q. if q = p then touched now p (?o p) else q) (od_positions d)"
    using monitor_one_healthy [OF assms(1-3) Cons.prems(1) assms(4) p Cons.prems(2) fp] by blast
  have ids: "map pos_id (od_positions d1) = map pos_id (od_positions d)" by (simp add: ps1)
  have pid: "pos_id p \<notin> pos_id ` set ps" and dps: "distinct (map pos_id ps)"
    using Cons.prems(3) by (simp_all add: pending_def)
  have pend: "pending ps d1"
  proof -
    have "find_position d1 (pos_id q) = Some q" if q: "q \<in> set ps" for q
    proof -
      have "find_position d (pos_id q) = Some q" using Cons.prems(3) q by (simp add: pending_def)
      then have "q \<in> set (od_positions d)" using find_position_Some by blast
      moreover have "q \<noteq> p" using pid q by blast
      ultimately have "q \<in> set (od_positions d1)" unfolding ps1 by (force simp: image_iff)
      then show ?thesis using find_position_distinct [of d1 q] Cons.prems(2) ids by simp
    qed
    then show ?thesis using dps by (simp add: pending_def)
  qed
  have all: "\<forall>p\<in>set ps. position_wf p \<and> pos_state p \<noteq> ''CLOSED''" using Cons.prems(4) by simp
  have dist1: "distinct (map pos_id (od_positions d1))" using Cons.prems(2) ids by simp
  obtain e2 d2 where rest: "monitor_all (monitor_one place status price atr cfg dm now) ps
        (c0 + (if pos_state (?o p) = ''CLOSED'' then 1 else 0), f0) (e1, sf, d1)
      = (Inr (c0 + (if pos_state (?o p) = ''CLOSED'' then 1 else 0) +
           length (filter (\<lambda>p. pos_state (?o p) = ''CLOSED'') ps), f0), e2, sf, d2)"
    and ps2: "od_positions d2 = map (\<lambda>q. if q \<in> set ps then touched now q (?o q) else q) (od_positions d1)"
    using Cons.IH [OF h1 dist1 pend all] by blast
  have tn: "touched now p (?o p) \<notin> set ps" using pid touched_id by (metis imageI)
  have pn: "p \<notin> set ps" using pid by blast
  have "od_positions d2 = map (\<lambda>q. if q \<in> set (p # ps) then touched now q (?o q) else q) (od_positions d)"
    unfolding ps2 ps1 using tn pn by auto
  then show ?case using one rest by simp
qed

lemma monitor_positions_healthy:
  assumes "steady_price price pr" "steady_atr atr ar" "\<And>s. resolve_trail_atr_mult cfg dm s = Inr (mu s)" "accepting place"
    and "healthy d" "odb_inv d"
  shows "\<exists>e' d'. monitor_positions_once place status price atr cfg dm now (e, sf, d)
       = (Inr (length (filter (\<lambda>p. pos_state p \<noteq> ''CLOSED'') (od_positions d)),
               length (filter (\<lambda>p. pos_state p \<noteq> ''CLOSED'' \<and> pos_state (observed now pr ar mu p) = ''CLOSED'') (od_positions d)), 0),
          e', sf, d') \<and>
         od_positions d' = map (\<lambda>q. if pos_state q \<noteq> ''CLOSED'' then touched now q (observed now pr ar mu q) else q) (od_positions d)"
proof -
  let ?ps = "filter (\<lambda>p. pos_state p \<noteq> ''CLOSED'') (od_positions d)"
  have l: "list_open_positions d = (Inr ?ps, tick d)" using assms(5) by (simp add: list_open_positions_def)
  have dist: "distinct (map pos_id (od_positions (tick d)))" using assms(6) by (simp add: odb_inv_def keys_ok_def)
  have wf: "\<forall>p\<in>set ?ps. position_wf p \<and> pos_state p \<noteq> ''CLOSED''" using assms(6) by (simp add: odb_inv_def)
  have pend: "pending ?ps (tick d)" using odb_inv_pending [OF assms(6)] by simp
  obtain e' d' where m: "monitor_all (monitor_one place status price atr cfg dm now) ?ps (0, 0) (e, sf, tick d)
       = (Inr (0 + length (filter (\<lambda>p. pos_state (observed now pr ar mu p) = ''CLOSED'') ?ps), 0), e', sf, d')"
    and ps: "od_positions d' = map (\<lambda>q. if q \<in> set ?ps then touched now q (observed now pr ar mu q) else q) (od_positions (tick d))"
    using monitor_all_healthy [OF assms(1-4) healthy_tick [OF assms(5)] dist pend wf] by blast
  have "od_positions d' = map (\<lambda>q. if pos_state q \<noteq> ''CLOSED'' then touched now q (observed now pr ar mu q) else q) (od_positions d)"
    unfolding ps by simp
  with l m show ?thesis by (simp add: monitor_positions_once_def conj_commute)
qed

section \<open>Failed orders\<close>

text \<open>A close order the broker does not accept changes no row, halts the runtime and counts as failed.\<close>

lemma close_position_failed:
  assumes "place_with_reconcile place status now (close_request p t) (e, Some s) = (result, e1, sf1)" "\<not> res_ok result"
  shows "\<exists>s'. close_position place status now p c t (e, Some s, d) = (Inr (0, 1), e1, Some s', d) \<and> halted (sf_runtime s')"
proof -
  obtain s1 where "sf1 = Some s1"
    using place_with_reconcile_None [OF assms(1)] by auto
  then show ?thesis using assms by (simp add: close_position_def)
qed

text \<open>A close whose order row cannot be written is ordered again by the next attempt.\<close>

lemma accepting_logged:
  assumes "accepting place"
  shows "\<exists>r e'. place_with_reconcile (logged_place place) (logged_status status) now req ((e, l), sf)
      = (r, (e', l @ [Place req]), sf) \<and> res_ok r"
proof -
  obtain r e' where "place req e = (Inr r, e')" "res_ok r" using assms unfolding accepting_def by blast
  then show ?thesis by (simp add: place_with_reconcile_def try_place_def logged_place_def)
qed

lemma close_position_asks:
  assumes "accepting place"
  shows "\<exists>r e' w. close_position (logged_place place) (logged_status status) now p c t ((e, l), sf, d)
      = (r, (e', l @ [Place (close_request p t)]), w)"
proof -
  obtain r e1 where "place_with_reconcile (logged_place place) (logged_status status) now (close_request p t) ((e, l), sf)
      = (r, (e1, l @ [Place (close_request p t)]), sf)" "res_ok r"
    using accepting_logged [OF assms] by blast
  then show ?thesis by (simp add: close_position_def update_failed_def split: prod.splits sum.splits)
qed

lemma lost_close:
  assumes "accepting place" "fails d"
  shows "\<exists>e1 sf1 d1. close_position (logged_place place) (logged_status status) now p c t ((e, l), sf, d)
        = (Inr (0, 1), (e1, l @ [Place (close_request p t)]), sf1, d1) \<and> od_positions d1 = od_positions d \<and>
      (\<exists>r e2 w. close_position (logged_place place) (logged_status status) now p c t
          ((e1, l @ [Place (close_request p t)]), sf1, d1)
        = (r, (e2, l @ [Place (close_request p t), Place (close_request p t)]), w))"
proof -
  obtain r e1 where one: "place_with_reconcile (logged_place place) (logged_status status) now (close_request p t) ((e, l), sf)
      = (r, (e1, l @ [Place (close_request p t)]), sf)" "res_ok r"
    using accepting_logged [OF assms(1)] by blast
  let ?sf = "report now ''position_update_failed'' (exn_str db_error) sf"
  have first: "close_position (logged_place place) (logged_status status) now p c t ((e, l), sf, d)
      = (Inr (0, 1), (e1, l @ [Place (close_request p t)]), ?sf, tick d)"
    using one assms(2) by (simp add: close_position_def create_order_def Let_def update_failed_def)
  show ?thesis
    using first close_position_asks [OF assms(1), of status now p c t e1 "l @ [Place (close_request p t)]" ?sf "tick d"]
    by simp
qed

section \<open>A run never raises\<close>

definition answers :: "'e price_fn \<Rightarrow> 'e atr_fn \<Rightarrow> bool" where
  "answers price atr \<longleftrightarrow>
     (\<forall>t e. \<exists>x e'. price t e = (Inr x, e')) \<and> (\<forall>t s e. \<exists>x e'. atr t s e = (Inr x, e'))"

lemma create_order_errors: "create_order s x t sd ty p q st rs d = (Inl z, d') \<Longrightarrow> z = db_error"
  by (auto simp: create_order_def Let_def split: if_splits)

lemma apply_transition_errors:
  assumes "apply_transition now (pos_id p) t d = (Inl z, d')" "find_position d (pos_id p) = Some p"
  shows "z = db_error"
  using update_position_effect [OF assms(1) [unfolded apply_transition_def]] assms
  by (auto simp: apply_transition_def update_position_def Let_def split: if_splits option.splits)

lemma update_failed_db [simp]:
  "update_failed now db_error e sf d = (Inr (0, 1), e, report now ''position_update_failed'' (exn_str db_error) sf, d)"
  by (simp add: update_failed_def)

lemma close_position_Inr:
  assumes "find_position d (pos_id p) = Some p"
  shows "\<exists>cf. fst (close_position place status now p c t (e, sf, d)) = Inr cf"
proof -
  obtain result e1 sf1 where pl: "place_with_reconcile place status now (close_request p t) (e, sf) = (result, e1, sf1)"
    by (rule prod_cases3)
  obtain ro d1 where co: "create_order None (res_order_id result) (pos_ticker p) ''sell'' ''market'' (Some c)
                     (tr_close_qty t) ''filled'' (tr_reason t) d = (ro, d1)" by fastforce
  obtain ra d2 where ap: "apply_transition now (pos_id p) t d1 = (ra, d2)" by fastforce
  have "od_positions d1 = od_positions d" using create_order_frame [OF co] by simp
  then have f1: "find_position d1 (pos_id p) = Some p" using assms find_position_cong by metis
  have "x = db_error" if "ro = Inl x" for x using create_order_errors co that by simp
  moreover have "x = db_error" if "ra = Inl x" for x using apply_transition_errors [OF _ f1] ap that by simp
  ultimately show ?thesis
    by (cases ro; cases ra) (simp_all add: close_position_def pl co ap)
qed

lemma act_on_Inr:
  assumes "find_position d (pos_id p) = Some p"
  shows "\<exists>cf. fst (act_on place status now p c t (e, sf, d)) = Inr cf"
proof -
  have tk: "find_position (tick d) (pos_id p) = Some p" using assms by simp
  obtain ra d2 where ap: "apply_transition now (pos_id p) t (tick d) = (ra, d2)" by fastforce
  have "x = db_error" if "ra = Inl x" for x using apply_transition_errors [OF _ tk] ap that by simp
  then show ?thesis using close_position_Inr [OF tk]
    by (cases ra) (auto simp: act_on_def refresh_position_def ap)
qed

lemma monitor_one_Inr:
  assumes "answers price atr" "\<exists>m. resolve_trail_atr_mult cfg dm (pos_strategy_id p) = Inr m"
    and "find_position d (pos_id p) = Some p"
  shows "\<exists>cf. fst (monitor_one place status price atr cfg dm now p (e, sf, d)) = Inr cf"
proof -
  obtain c e1 where p: "price (pos_ticker p) e = (Inr c, e1)" using assms(1) unfolding answers_def by blast
  obtain a e2 where a: "atr (pos_ticker p) (pos_strategy_id p) e1 = (Inr a, e2)"
    using assms(1) unfolding answers_def by blast
  obtain m where m: "resolve_trail_atr_mult cfg dm (pos_strategy_id p) = Inr m" using assms(2) by blast
  show ?thesis using act_on_Inr [OF assms(3)] by (simp add: monitor_one_def p a m)
qed

lemma monitor_all_Inr:
  assumes "answers price atr" "\<And>s. \<exists>m. resolve_trail_atr_mult cfg dm s = Inr m"
    and "odb_inv d" "pending ps d"
  shows "\<exists>cf. fst (monitor_all (monitor_one place status price atr cfg dm now) ps acc (e, sf, d)) = Inr cf"
  using assms(3,4)
proof (induction ps arbitrary: acc e sf d)
  case (Cons p ps)
  obtain r1 e1 sf1 d1 where one: "monitor_one place status price atr cfg dm now p (e, sf, d) = (r1, e1, sf1, d1)"
    by (rule prod_cases4)
  have step: "odb_inv d1 \<and> pending ps d1" using monitor_one_step [OF one Cons.prems] .
  have "find_position d (pos_id p) = Some p" using Cons.prems(2) by (simp add: pending_def)
  then obtain cf where "r1 = Inr cf"
    using monitor_one_Inr [OF assms(1,2), of d p place status now e sf] one by auto
  then show ?case using Cons.IH step by (cases cf) (simp add: one)
qed simp

lemma loop_a_Inr:
  assumes "answers price atr" "\<And>s. \<exists>m. resolve_trail_atr_mult cfg dm s = Inr m" "odb_inv d"
  shows "\<exists>res. fst (loop_a_run_once place status price atr cfg dm now (q, e, sf, d)) = Inr res \<and>
           closed_positions res + failed_close_orders res \<le> monitored_positions res"
proof -
  obtain b q1 e1 sf1 d1 where c: "consume_signal_once place status now q (e, sf, d) = (b, q1, e1, sf1, d1)"
    by (rule prod_cases5)
  have inv1: "odb_inv d1" using consume_signal_once_inv [OF c assms(3)] .
  obtain rl d2 where l: "list_open_positions d1 = (rl, d2)" by fastforce
  show ?thesis
  proof (cases rl)
    case (Inl x)
    then show ?thesis by (simp add: loop_a_run_once_def c monitor_positions_once_def l)
  next
    case (Inr ps)
    have pend: "pending ps d2" using list_open_positions_Inr [OF l [unfolded Inr]] odb_inv_pending [OF inv1] by simp
    obtain r w where m: "monitor_all (monitor_one place status price atr cfg dm now) ps (0, 0) (e1, sf1, d2) = (r, w)"
      by (rule prod.exhaust)
    then obtain cl f where r: "r = Inr (cl, f)"
      using monitor_all_Inr [OF assms(1,2) list_open_positions_inv [OF inv1 l] pend, of place status now "(0, 0)" e1 sf1]
      by auto
    have "cl + f \<le> 0 + 0 + length ps" by (rule monitor_all_counts [OF monitor_one_counts m [unfolded r]])
    then show ?thesis by (simp add: loop_a_run_once_def c monitor_positions_once_def l Inr m r)
  qed
qed

text \<open>With a configuration that holds the two values it was initialised with, a multiplier is always found.\<close>

lemma resolve_trail_Inr:
  assumes "case cfg of None \<Rightarrow> True | Some c \<Rightarrow> config_inv c \<and> config_get ''trail_atr_mult'' c = Inr v"
  shows "\<exists>m. resolve_trail_atr_mult cfg dm s = Inr m"
proof (cases cfg)
  case (Some c)
  then have "value_ok ''trail_atr_mult'' v" using assms config_get_ok by auto
  then have "\<exists>m. py_float_of v = Some m" using value_ok_float by fastforce
  then show ?thesis
    using Some assms by (auto simp: resolve_trail_atr_mult_def to_float_def split: sum.splits)
qed (simp add: resolve_trail_atr_mult_def)

section \<open>A multiplier that is no number\<close>

lemma nan_config:
  "\<exists>cfg. config_set ''trail_atr_mult'' ''nan'' False default_values = Inr cfg \<and>
     (\<forall>dm. resolve_trail_atr_mult (Some cfg) dm ''2'' = Inr NaN)"
proof -
  have ov: "\<not> is_strategy_override_key ''trail_atr_mult''" by (simp add: is_strategy_override_key_def)
  have rd: "py_float_of ''nan'' = Some NaN" by (simp add: text_eval)
  have set_ok: "config_set ''trail_atr_mult'' ''nan'' False default_values
      = Inr (AList.update ''trail_atr_mult'' ''nan'' default_values)"
    by (simp add: config_set_Inr config_check_def ov check_number_def read_number_def rd check_bounds_def check_allowed_def)
  have "map_of (AList.update ''trail_atr_mult'' ''nan'' default_values) ''trail_atr_mult'' = Some ''nan''"
    "map_of (AList.update ''trail_atr_mult'' ''nan'' default_values) (trail_key ''2'') = None"
    by (simp_all add: update_conv' trail_key_def default_values_def)
  then have "resolve_trail_atr_mult (Some (AList.update ''trail_atr_mult'' ''nan'' default_values)) dm ''2'' = Inr NaN" for dm
    by (simp add: resolve_trail_atr_mult_def to_float_def config_get_def rd)
  with set_ok show ?thesis by blast
qed

lemma nan_half_closed:
  "pos_state r = ''HALF_CLOSED'' \<Longrightarrow> pos_state (observe r (now, price, atr, NaN)) = ''HALF_CLOSED''"
  by (simp add: observe_def sm_apply_effects decide_def Let_def)

section \<open>The environment Loop A runs in\<close>

text \<open>
  An invariant of the environment that the gateway and the two providers keep is kept by every
  run, whatever fails.
\<close>

locale loop_a_env = gateway_state +
  fixes price :: "'a price_fn" and atr :: "'a atr_fn"
  assumes price_inv: "ginv e \<Longrightarrow> price t e = (x, e') \<Longrightarrow> ginv e'"
    and atr_inv: "ginv e \<Longrightarrow> atr t s e = (x, e') \<Longrightarrow> ginv e'"
begin

lemma execute_ginv:
  assumes "execute_from_signal place status now sg (e, sf, d) = (r, e', sf', d')" "ginv e"
  shows "ginv e'"
  using assms(1) by (cases rule: execute_cases) (use assms(2) reconcile_ginv in \<open>auto\<close>)

lemma update_failed_env: "update_failed now x e sf d = (r, e', sf', d') \<Longrightarrow> e' = e"
  by (auto simp: update_failed_def split: if_splits)

lemma act_on_ginv:
  assumes "act_on place status now p c t (e, sf, d) = (r, e', sf', d')" "ginv e"
  shows "ginv e'"
proof -
  obtain result e1 sf1 where pl: "place_with_reconcile place status now (close_request p t) (e, sf) = (result, e1, sf1)"
    by (rule prod_cases3)
  have "e' = e \<or> e' = e1"
    using assms(1)
    by (auto simp: act_on_def close_position_def refresh_position_def pl dest: update_failed_env
        split: if_splits sum.splits prod.splits)
  then show ?thesis using reconcile_ginv [OF assms(2) pl] assms(2) by auto
qed

lemma monitor_one_ginv:
  assumes "monitor_one place status price atr cfg dm now p (e, sf, d) = (r, e', sf', d')" "ginv e"
  shows "ginv e'"
proof -
  obtain rp e1 where p: "price (pos_ticker p) e = (rp, e1)" by fastforce
  obtain ra e2 where a: "atr (pos_ticker p) (pos_strategy_id p) e1 = (ra, e2)" by fastforce
  have g: "ginv e1" "ginv e2" using price_inv [OF assms(2) p] atr_inv [OF _ a] by simp_all
  show ?thesis
  proof (cases rp)
    case (Inl x)
    then show ?thesis using assms(1) p g by (simp add: monitor_one_def)
  next
    case rp: (Inr c)
    show ?thesis
    proof (cases ra)
      case (Inl x)
      then show ?thesis using assms(1) p a rp g by (simp add: monitor_one_def)
    next
      case (Inr av)
      then show ?thesis using assms(1) p a rp g act_on_ginv
        by (auto simp: monitor_one_def split: sum.splits)
    qed
  qed
qed

lemma monitor_all_ginv:
  "monitor_all (monitor_one place status price atr cfg dm now) ps acc (e, sf, d) = (r, e', sf', d') \<Longrightarrow> ginv e \<Longrightarrow> ginv e'"
proof (induction ps arbitrary: acc e sf d)
  case (Cons p ps)
  obtain r1 e1 sf1 d1 where one: "monitor_one place status price atr cfg dm now p (e, sf, d) = (r1, e1, sf1, d1)"
    by (rule prod_cases4)
  have "ginv e1" using monitor_one_ginv [OF one Cons.prems(2)] .
  then show ?case using Cons.prems(1) Cons.IH one by (cases r1) auto
qed simp

lemma loop_a_ginv:
  assumes "loop_a_run_once place status price atr cfg dm now (q, e, sf, d) = (r, q', e', sf', d')" "ginv e"
  shows "ginv e'"
proof -
  obtain b q1 e1 sf1 d1 where c: "consume_signal_once place status now q (e, sf, d) = (b, q1, e1, sf1, d1)"
    by (rule prod_cases5)
  have g1: "ginv e1"
  proof (cases q)
    case (Cons sg rest)
    obtain rx ex sfx dx where x: "execute_from_signal place status now sg (e, sf, d) = (rx, ex, sfx, dx)"
      by (rule prod_cases4)
    then show ?thesis using c Cons execute_ginv [OF x assms(2)]
      by (auto simp: consume_signal_once_def split: sum.splits)
  qed (use c assms(2) in \<open>simp add: consume_signal_once_def\<close>)
  obtain rl d2 where l: "list_open_positions d1 = (rl, d2)" by fastforce
  obtain rm em sfm dm' where m: "monitor_all (monitor_one place status price atr cfg dm now) (projr rl) (0, 0) (e1, sf1, d2)
      = (rm, em, sfm, dm')" by (rule prod_cases4)
  have "e' = e1 \<or> e' = em"
    using assms(1) c l m by (cases rl; cases rm) (auto simp: loop_a_run_once_def monitor_positions_once_def)
  then show ?thesis using g1 monitor_all_ginv [OF m g1] by auto
qed

end

text \<open>What a critical report keeps is kept by Loop A.\<close>

context safety_observer
begin

lemma close_position_safety:
  assumes "close_position place status now p c t (e, sf, d) = (r, e', sf', d')" "pred_option P sf"
  shows "pred_option P sf'"
proof -
  obtain result e1 sf1 where pl: "place_with_reconcile place status now (close_request p t) (e, sf) = (result, e1, sf1)"
    by (rule prod_cases3)
  have "pred_option P sf1" using place_with_reconcile_inv [OF pl assms(2)] .
  moreover have "sf' = sf1 \<or> (\<exists>c m. sf' = report now c m sf1)"
    using assms(1) by (auto simp: close_position_def pl update_failed_def split: if_splits sum.splits prod.splits)
  ultimately show ?thesis by (auto simp: report_inv)
qed

lemma act_on_safety:
  assumes "act_on place status now p c t (e, sf, d) = (r, e', sf', d')" "pred_option P sf"
  shows "pred_option P sf'"
proof -
  consider "close_position place status now p c t (e, sf, tick d) = (r, e', sf', d')"
    | "sf' = sf" | c m where "sf' = report now c m sf"
    using assms(1)
    by (auto simp: act_on_def refresh_position_def update_failed_def split: if_splits sum.splits prod.splits)
  then show ?thesis using assms(2) close_position_safety report_inv by cases auto
qed

lemma monitor_all_safety:
  "monitor_all (monitor_one place status price atr cfg dm now) ps acc (e, sf, d) = (r, e', sf', d') \<Longrightarrow>
     pred_option P sf \<Longrightarrow> pred_option P sf'"
proof (induction ps arbitrary: acc e sf d)
  case (Cons p ps)
  obtain r1 e1 sf1 d1 where one: "monitor_one place status price atr cfg dm now p (e, sf, d) = (r1, e1, sf1, d1)"
    by (rule prod_cases4)
  have "pred_option P sf1"
    using one by (cases rule: monitor_one_cases) (use Cons.prems(2) act_on_safety in \<open>auto\<close>)
  then show ?case using Cons.prems(1) Cons.IH one by (cases r1) auto
qed simp

lemma loop_a_safety:
  assumes "loop_a_run_once place status price atr cfg dm now (q, e, sf, d) = (r, q', e', sf', d')" "pred_option P sf"
  shows "pred_option P sf'"
proof -
  obtain b q1 e1 sf1 d1 where c: "consume_signal_once place status now q (e, sf, d) = (b, q1, e1, sf1, d1)"
    by (rule prod_cases5)
  have g1: "pred_option P sf1"
  proof (cases q)
    case (Cons sg rest)
    obtain rx ex sfx dx where x: "execute_from_signal place status now sg (e, sf, d) = (rx, ex, sfx, dx)"
      by (rule prod_cases4)
    then show ?thesis using c Cons execute_safety_inv [OF x assms(2)]
      by (auto simp: consume_signal_once_def report_inv split: sum.splits)
  qed (use c assms(2) in \<open>simp add: consume_signal_once_def\<close>)
  obtain rl d2 where l: "list_open_positions d1 = (rl, d2)" by fastforce
  obtain rm em sfm dm' where m: "monitor_all (monitor_one place status price atr cfg dm now) (projr rl) (0, 0) (e1, sf1, d2)
      = (rm, em, sfm, dm')" by (rule prod_cases4)
  have "sf' = sfm \<or> (\<exists>c m. sf' = report now c m sf1)"
    using assms(1) c l m by (cases rl; cases rm) (auto simp: loop_a_run_once_def monitor_positions_once_def)
  then show ?thesis using g1 monitor_all_safety [OF m g1] by (auto simp: report_inv)
qed

end

end
