(* ===== verification/Loop_Runtime.thy ===== *)
theory Loop_Runtime
  imports Loop_A Py_Datetime
begin

text \<open>
  \<open>app/services/loop_runtime.py\<close> and \<open>app/services/loop_background.py\<close>: one cycle of the three
  loops with its metrics, and the background task that repeats it. The loops, the ticker
  provider, the hook and the critical report are functions over the world \<open>'w\<close> they change. The
  clock readings a cycle makes are a record of their results.
\<close>

section \<open>The coordinator\<close>

record cycle_report =
  cr_ok :: bool
  cr_loop_a :: loop_a_result
  cr_loop_b_signals :: nat
  cr_loop_c_ran :: bool
  cr_duration_ms :: real
  cr_error :: "string option"

record metrics =
  cycle_count :: nat
  error_count :: nat
  consecutive_errors :: nat
  last_error :: "string option"
  last_started_at :: "datetime option"
  last_completed_at :: "datetime option"
  last_duration_ms :: real
  avg_duration_ms :: real
  max_duration_ms :: real
  last_loop_b_signals :: nat
  last_loop_c_ran :: bool

record coordinator =
  co_metrics :: metrics
  co_last_loop_c_slot :: "string option"
  co_total_duration_ms :: real

definition metrics_init :: metrics where
  "metrics_init = \<lparr>cycle_count = 0, error_count = 0, consecutive_errors = 0, last_error = None,
     last_started_at = None, last_completed_at = None, last_duration_ms = 0, avg_duration_ms = 0,
     max_duration_ms = 0, last_loop_b_signals = 0, last_loop_c_ran = False\<rparr>"

definition coordinator_init :: coordinator where
  "coordinator_init = \<lparr>co_metrics = metrics_init, co_last_loop_c_slot = None, co_total_duration_ms = 0\<rparr>"

definition record_success :: "datetime \<Rightarrow> real \<Rightarrow> nat \<Rightarrow> bool \<Rightarrow> coordinator \<Rightarrow> coordinator" where
  "record_success completed duration signals loop_c co =
     (let m = co_metrics co; n = cycle_count m + 1; total = co_total_duration_ms co + duration in
      co\<lparr>co_total_duration_ms := total,
         co_metrics := m\<lparr>cycle_count := n, consecutive_errors := 0, last_error := None,
           last_completed_at := Some completed, last_duration_ms := duration, last_loop_b_signals := signals,
           last_loop_c_ran := loop_c, avg_duration_ms := total / real n,
           max_duration_ms := max (max_duration_ms m) duration\<rparr>\<rparr>)"

definition record_failure :: "datetime \<Rightarrow> real \<Rightarrow> string \<Rightarrow> coordinator \<Rightarrow> coordinator" where
  "record_failure completed duration err co =
     (let m = co_metrics co; n = cycle_count m + 1; total = co_total_duration_ms co + duration in
      co\<lparr>co_total_duration_ms := total,
         co_metrics := m\<lparr>cycle_count := n, error_count := error_count m + 1,
           consecutive_errors := consecutive_errors m + 1, last_error := Some err,
           last_completed_at := Some completed, last_duration_ms := duration, last_loop_b_signals := 0,
           last_loop_c_ran := False, avg_duration_ms := total / real n,
           max_duration_ms := max (max_duration_ms m) duration\<rparr>\<rparr>)"

text \<open>\<open>_should_run_loop_c\<close>: an interval of zero is a \<open>ZeroDivisionError\<close>.\<close>

definition should_run_loop_c :: "nat \<Rightarrow> datetime \<Rightarrow> coordinator \<Rightarrow> bool py \<times> coordinator" where
  "should_run_loop_c interval now co =
     (if interval = 0 then (Inl ZeroDivisionError, co)
      else if dt_minute now mod interval \<noteq> 0 then (Inr False, co)
      else
        (let slot = slot_str now (dt_minute now) in
         if co_last_loop_c_slot co = Some slot then (Inr False, co)
         else (Inr True, co\<lparr>co_last_loop_c_slot := Some slot\<rparr>)))"

fun loop_b_all :: "(string \<Rightarrow> 'w \<Rightarrow> nat py \<times> 'w) \<Rightarrow> string list \<Rightarrow> nat \<Rightarrow> 'w \<Rightarrow> nat py \<times> 'w" where
  "loop_b_all loop_b [] n w = (Inr n, w)"
| "loop_b_all loop_b (t # ts) n w =
     (case loop_b t w of
        (Inl x, w') \<Rightarrow> (Inl x, w')
      | (Inr k, w') \<Rightarrow> loop_b_all loop_b ts (n + k) w')"

record cycle_clock =
  ck_started :: datetime
  ck_mono_start :: real
  ck_slot_now :: datetime
  ck_mono_end :: real
  ck_completed :: datetime

record 'w cycle_env =
  en_loop_a :: "'w \<Rightarrow> loop_a_result py \<times> 'w"
  en_hook :: "('w \<Rightarrow> unit py \<times> 'w) option"
  en_tickers :: "'w \<Rightarrow> string list py \<times> 'w"
  en_loop_b :: "string \<Rightarrow> 'w \<Rightarrow> nat py \<times> 'w"
  en_loop_c :: "'w \<Rightarrow> unit py \<times> 'w"
  en_critical :: "string \<Rightarrow> string \<Rightarrow> 'w \<Rightarrow> 'w"
  en_interval :: nat

text \<open>
  The body of the \<open>try\<close>: what it produced (the loops' results) or the exception, with the world
  and the coordinator as they were left.
\<close>

definition cycle_body ::
  "'w cycle_env \<Rightarrow> cycle_clock \<Rightarrow> coordinator \<times> 'w \<Rightarrow> (loop_a_result \<times> nat \<times> bool) py \<times> coordinator \<times> 'w" where
  "cycle_body en ck s =
     (case s of (co, w) \<Rightarrow>
      (case en_loop_a en w of
         (Inl x, w1) \<Rightarrow> (Inl x, co, w1)
       | (Inr a, w1) \<Rightarrow>
           (case (case en_hook en of None \<Rightarrow> (Inr (), w1) | Some h \<Rightarrow> h w1) of
              (Inl x, w2) \<Rightarrow> (Inl x, co, w2)
            | (Inr _, w2) \<Rightarrow>
                (case en_tickers en w2 of
                   (Inl x, w3) \<Rightarrow> (Inl x, co, w3)
                 | (Inr tickers, w3) \<Rightarrow>
                     (case loop_b_all (en_loop_b en) tickers 0 w3 of
                        (Inl x, w4) \<Rightarrow> (Inl x, co, w4)
                      | (Inr b, w4) \<Rightarrow>
                          (case should_run_loop_c (en_interval en) (ck_slot_now ck) co of
                             (Inl x, co1) \<Rightarrow> (Inl x, co1, w4)
                           | (Inr False, co1) \<Rightarrow> (Inr (a, b, False), co1, w4)
                           | (Inr True, co1) \<Rightarrow>
                               (case en_loop_c en w4 of
                                  (Inl x, w5) \<Rightarrow> (Inl x, co1, w5)
                                | (Inr _, w5) \<Rightarrow> (Inr (a, b, True), co1, w5))))))))"

definition default_a :: loop_a_result where
  "default_a = \<lparr>executed_signal = False, monitored_positions = 0, closed_positions = 0, failed_close_orders = 0\<rparr>"

definition run_cycle :: "'w cycle_env \<Rightarrow> cycle_clock \<Rightarrow> coordinator \<times> 'w \<Rightarrow> cycle_report \<times> coordinator \<times> 'w" where
  "run_cycle en ck s =
     (case s of (co, w) \<Rightarrow>
      (let co0 = co\<lparr>co_metrics := (co_metrics co)\<lparr>last_started_at := Some (ck_started ck)\<rparr>\<rparr>;
           duration = (ck_mono_end ck - ck_mono_start ck) * 1000
       in case cycle_body en ck (co0, w) of
            (Inr (a, b, c), co1, w1) \<Rightarrow>
              (\<lparr>cr_ok = True, cr_loop_a = a, cr_loop_b_signals = b, cr_loop_c_ran = c, cr_duration_ms = duration,
                cr_error = None\<rparr>,
               record_success (ck_completed ck) duration b c co1, w1)
          | (Inl x, co1, w1) \<Rightarrow>
              (\<lparr>cr_ok = False, cr_loop_a = default_a, cr_loop_b_signals = 0, cr_loop_c_ran = False,
                cr_duration_ms = duration, cr_error = Some (exn_str x)\<rparr>,
               record_failure (ck_completed ck) duration (exn_str x) co1,
               en_critical en ''loop_cycle_failed'' (exn_str x) w1)))"

text \<open>
  \<open>health_snapshot\<close>: the dictionary as an association list; the values of time are kept as
  they are (the code prints them with \<open>isoformat\<close>). The extra metrics overwrite what has the same
  key; a provider that raises adds nothing.
\<close>

datatype 'x health_value =
    HNat nat | HReal real | HBool bool | HStr "string option" | HTime "datetime option" | HLag "real option" | HExtra 'x

definition cycle_lag_ms :: "real \<Rightarrow> datetime \<Rightarrow> metrics \<Rightarrow> real option" where
  "cycle_lag_ms expected now m =
     map_option (\<lambda>c. max ((real_of_int (instant_of now - instant_of c) / 1000000 - expected) * 1000) 0) (last_completed_at m)"

definition degraded :: "metrics \<Rightarrow> bool" where
  "degraded m \<longleftrightarrow> consecutive_errors m \<ge> 3"

definition health_snapshot ::
  "real \<Rightarrow> datetime \<Rightarrow> (string \<times> 'x) list py option \<Rightarrow> coordinator \<Rightarrow> (string \<times> 'x health_value) list" where
  "health_snapshot expected now extra co =
     (let m = co_metrics co;
          data = [(''cycle_count'', HNat (cycle_count m)), (''error_count'', HNat (error_count m)),
                  (''consecutive_errors'', HNat (consecutive_errors m)), (''last_error'', HStr (last_error m)),
                  (''last_started_at'', HTime (last_started_at m)), (''last_completed_at'', HTime (last_completed_at m)),
                  (''last_duration_ms'', HReal (last_duration_ms m)), (''avg_duration_ms'', HReal (avg_duration_ms m)),
                  (''max_duration_ms'', HReal (max_duration_ms m)),
                  (''last_loop_b_signals'', HNat (last_loop_b_signals m)), (''last_loop_c_ran'', HBool (last_loop_c_ran m)),
                  (''cycle_lag_ms'', HLag (cycle_lag_ms expected now m)), (''degraded'', HBool (degraded m))]
      in case extra of
           Some (Inr kvs) \<Rightarrow> fold (\<lambda>(k, v). AList.update k (HExtra v)) kvs data
         | _ \<Rightarrow> data)"

section \<open>The metrics of a history of cycles\<close>

text \<open>A finished cycle, as the metrics see it.\<close>

datatype outcome = Success datetime real nat bool | Failure datetime real string

fun outcome_duration :: "outcome \<Rightarrow> real" where
  "outcome_duration (Success _ d _ _) = d"
| "outcome_duration (Failure _ d _) = d"

fun is_failure :: "outcome \<Rightarrow> bool" where
  "is_failure (Success _ _ _ _) = False"
| "is_failure (Failure _ _ _) = True"

fun record_outcome :: "outcome \<Rightarrow> coordinator \<Rightarrow> coordinator" where
  "record_outcome (Success t d n c) co = record_success t d n c co"
| "record_outcome (Failure t d e) co = record_failure t d e co"

definition metrics_ok :: "outcome list \<Rightarrow> coordinator \<Rightarrow> bool" where
  "metrics_ok os co \<longleftrightarrow>
     cycle_count (co_metrics co) = length os \<and>
     error_count (co_metrics co) = length (filter is_failure os) \<and>
     consecutive_errors (co_metrics co) = length (takeWhile is_failure (rev os)) \<and>
     co_total_duration_ms co = sum_list (map outcome_duration os) \<and>
     avg_duration_ms (co_metrics co) = sum_list (map outcome_duration os) / real (length os) \<and>
     max_duration_ms (co_metrics co) = foldl max 0 (map outcome_duration os)"

lemma metrics_ok_init: "metrics_ok [] coordinator_init"
  by (simp add: metrics_ok_def coordinator_init_def metrics_init_def)

lemma metrics_ok_record: "metrics_ok os co \<Longrightarrow> metrics_ok (os @ [x]) (record_outcome x co)"
  by (cases x) (simp_all add: metrics_ok_def record_success_def record_failure_def Let_def)

lemma metrics_ok_history: "metrics_ok os (fold record_outcome os coordinator_init)"
  by (induction os rule: rev_induct) (simp_all add: metrics_ok_init metrics_ok_record)

lemma metrics_ok_frame:
  "metrics_ok os (co\<lparr>co_metrics := (co_metrics co)\<lparr>last_started_at := t\<rparr>\<rparr>) = metrics_ok os co"
  "metrics_ok os (co\<lparr>co_last_loop_c_slot := sl\<rparr>) = metrics_ok os co"
  by (simp_all add: metrics_ok_def)

lemma degraded_iff:
  assumes "metrics_ok os co"
  shows "degraded (co_metrics co) \<longleftrightarrow> 3 \<le> length os \<and> list_all is_failure (drop (length os - 3) os)"
proof -
  have tw: "n \<le> length (takeWhile P xs) \<longleftrightarrow> n \<le> length xs \<and> list_all P (take n xs)" for n and P :: "'a \<Rightarrow> bool" and xs
  proof (induction xs arbitrary: n)
    case (Cons x xs)
    then show ?case by (cases n) auto
  qed simp
  have "degraded (co_metrics co) \<longleftrightarrow> 3 \<le> length (takeWhile is_failure (rev os))"
    using assms by (simp add: degraded_def metrics_ok_def)
  also have "\<dots> \<longleftrightarrow> 3 \<le> length os \<and> list_all is_failure (take 3 (rev os))" by (simp add: tw)
  also have "take 3 (rev os) = rev (drop (length os - 3) os)" by (simp add: take_rev)
  finally show ?thesis by (simp add: list_all_iff)
qed

lemma should_run_frame:
  "should_run_loop_c i now co = (r, co') \<Longrightarrow> co_metrics co' = co_metrics co \<and> co_total_duration_ms co' = co_total_duration_ms co"
  by (auto simp: should_run_loop_c_def Let_def split: if_splits)

lemma cycle_body_frame:
  assumes "cycle_body en ck (co, w) = (r, co', w')"
  shows "co_metrics co' = co_metrics co \<and> co_total_duration_ms co' = co_total_duration_ms co"
proof -
  obtain rs co1 where s: "should_run_loop_c (en_interval en) (ck_slot_now ck) co = (rs, co1)" by fastforce
  have "co' = co \<or> co' = co1"
    using assms unfolding cycle_body_def prod.case s
    by (auto split: prod.splits sum.splits option.splits bool.splits)
  then show ?thesis using should_run_frame [OF s] by auto
qed

text \<open>Each cycle adds one outcome to the history: its own report.\<close>

lemma run_cycle_history:
  assumes "run_cycle en ck (co, w) = (rep, co', w')" "metrics_ok os co"
  shows "\<exists>x. metrics_ok (os @ [x]) co' \<and> is_failure x = (\<not> cr_ok rep) \<and> outcome_duration x = cr_duration_ms rep \<and>
     last_error (co_metrics co') = cr_error rep \<and> (cr_error rep = None) = cr_ok rep"
proof -
  let ?co0 = "co\<lparr>co_metrics := (co_metrics co)\<lparr>last_started_at := Some (ck_started ck)\<rparr>\<rparr>"
  let ?d = "(ck_mono_end ck - ck_mono_start ck) * 1000"
  obtain r co1 w1 where b: "cycle_body en ck (?co0, w) = (r, co1, w1)" by (rule prod_cases3)
  have ok1: "metrics_ok os co1"
    using cycle_body_frame [OF b] assms(2) by (simp add: metrics_ok_def)
  show ?thesis
  proof (cases r)
    case (Inl x)
    then have "co' = record_outcome (Failure (ck_completed ck) ?d (exn_str x)) co1"
      "cr_ok rep = False" "cr_duration_ms rep = ?d" "cr_error rep = Some (exn_str x)"
      using assms(1) b by (auto simp: run_cycle_def Let_def)
    then show ?thesis
      using metrics_ok_record [OF ok1, of "Failure (ck_completed ck) ?d (exn_str x)"]
      by (intro exI [of _ "Failure (ck_completed ck) ?d (exn_str x)"]) (simp add: record_failure_def Let_def)
  next
    case (Inr abc)
    obtain a n c where abc: "abc = (a, n, c)" by (rule prod_cases3)
    then have "co' = record_outcome (Success (ck_completed ck) ?d n c) co1"
      "cr_ok rep = True" "cr_duration_ms rep = ?d" "cr_error rep = None"
      using assms(1) b Inr by (auto simp: run_cycle_def Let_def)
    then show ?thesis
      using metrics_ok_record [OF ok1, of "Success (ck_completed ck) ?d n c"]
      by (intro exI [of _ "Success (ck_completed ck) ?d n c"]) (simp add: record_success_def Let_def)
  qed
qed

text \<open>An invariant of the world that every loop keeps is kept by every cycle.\<close>

lemma loop_b_all_inv:
  assumes "\<And>t w r w'. P w \<Longrightarrow> loop_b t w = (r, w') \<Longrightarrow> P w'" "P w" "loop_b_all loop_b ts n w = (r, w')"
  shows "P w'"
  using assms(2,3)
proof (induction ts arbitrary: n w)
  case (Cons t ts)
  obtain r1 w1 where b: "loop_b t w = (r1, w1)" by fastforce
  then have "P w1" using assms(1) Cons.prems(1) by blast
  then show ?case using Cons.prems(2) Cons.IH b by (cases r1) auto
qed simp

lemma cycle_body_inv:
  assumes "\<And>w r w'. P w \<Longrightarrow> en_loop_a en w = (r, w') \<Longrightarrow> P w'"
    and "\<And>h w r w'. en_hook en = Some h \<Longrightarrow> P w \<Longrightarrow> h w = (r, w') \<Longrightarrow> P w'"
    and "\<And>w r w'. P w \<Longrightarrow> en_tickers en w = (r, w') \<Longrightarrow> P w'"
    and "\<And>t w r w'. P w \<Longrightarrow> en_loop_b en t w = (r, w') \<Longrightarrow> P w'"
    and "\<And>w r w'. P w \<Longrightarrow> en_loop_c en w = (r, w') \<Longrightarrow> P w'"
    and "P w" "cycle_body en ck (co, w) = (r, co', w')"
  shows "P w'"
proof -
  obtain ra w1 where a: "en_loop_a en w = (ra, w1)" by fastforce
  obtain rh w2 where h: "(case en_hook en of None \<Rightarrow> (Inr (), w1) | Some h \<Rightarrow> h w1) = (rh, w2)" by fastforce
  obtain rt w3 where t: "en_tickers en w2 = (rt, w3)" by fastforce
  obtain rb w4 where b: "loop_b_all (en_loop_b en) (projr rt) 0 w3 = (rb, w4)" by fastforce
  obtain rs co1 where s: "should_run_loop_c (en_interval en) (ck_slot_now ck) co = (rs, co1)" by fastforce
  obtain rc w5 where c: "en_loop_c en w4 = (rc, w5)" by fastforce
  have P1: "P w1" using assms(1,6) a by blast
  have P2: "P w2" using h assms(2) P1 by (auto split: option.splits)
  have P3: "P w3" using assms(3) P2 t by blast
  have P4: "P w4" by (rule loop_b_all_inv [where P = P, OF _ P3 b]) (rule assms(4))
  have P5: "P w5" using assms(5) P4 c by blast
  have "w' \<in> {w1, w2, w3, w4, w5}"
    using assms(7) a h t b s c
    by (cases ra; cases rh; cases rt; cases rb; cases rs) (auto simp: cycle_body_def split: sum.splits bool.splits)
  then show ?thesis using P1 P2 P3 P4 P5 by auto
qed

lemma run_cycle_inv:
  assumes "\<And>w r w'. P w \<Longrightarrow> en_loop_a en w = (r, w') \<Longrightarrow> P w'"
    and "\<And>h w r w'. en_hook en = Some h \<Longrightarrow> P w \<Longrightarrow> h w = (r, w') \<Longrightarrow> P w'"
    and "\<And>w r w'. P w \<Longrightarrow> en_tickers en w = (r, w') \<Longrightarrow> P w'"
    and "\<And>t w r w'. P w \<Longrightarrow> en_loop_b en t w = (r, w') \<Longrightarrow> P w'"
    and "\<And>w r w'. P w \<Longrightarrow> en_loop_c en w = (r, w') \<Longrightarrow> P w'"
    and "\<And>c m w. P w \<Longrightarrow> P (en_critical en c m w)"
    and "P w" "run_cycle en ck (co, w) = (rep, co', w')"
  shows "P w'"
proof -
  let ?co0 = "co\<lparr>co_metrics := (co_metrics co)\<lparr>last_started_at := Some (ck_started ck)\<rparr>\<rparr>"
  obtain r co1 w1 where b: "cycle_body en ck (?co0, w) = (r, co1, w1)" by (rule prod_cases3)
  have "P w1"
    by (rule cycle_body_inv [where P = P, OF _ _ _ _ _ assms(7) b]) (rule assms(1-5); assumption)+
  then show ?thesis
    using assms(8) assms(6) b by (cases r) (auto simp: run_cycle_def Let_def)
qed

section \<open>Loop C slots\<close>

lemma should_run_once_per_slot:
  assumes "should_run_loop_c i now co = (Inr True, co')" "slot_str now (dt_minute now) = slot_str now' (dt_minute now')"
  shows "should_run_loop_c i now' co' \<in> {(Inr False, co')}"
  using assms by (auto simp: should_run_loop_c_def Let_def split: if_splits)

section \<open>Property\<close>

text \<open>
  After any history of cycles the counters are what the history says: all cycles, all
  failures, the failures since the last success, the sum, average and maximum of the durations;
  and the runtime is degraded exactly if the last three cycles failed.
\<close>

theorem metrics_summarise_the_history:
  "metrics_ok os (fold record_outcome os coordinator_init) \<and>
   (degraded (co_metrics (fold record_outcome os coordinator_init)) \<longleftrightarrow>
      3 \<le> length os \<and> list_all is_failure (drop (length os - 3) os))"
  using metrics_ok_history [of os] degraded_iff by blast

end
