(* ===== verification/Loop_Background.thy ===== *)
theory Loop_Background
  imports Loop_Runtime
begin

text \<open>
  \<open>app/services/loop_background.py\<close>: the task that repeats the cycle. The asyncio task is a state
  machine: scheduled, inside a cycle, asleep between cycles, finished. \<open>start\<close> and \<open>stop\<close> are
  operations on it; the event loop interleaves them with the task's own steps. A cancellation
  arrives where the task waits: inside a cycle its \<open>finally\<close> block still counts the cycle.
\<close>

section \<open>The code\<close>

datatype task = NoTask | Scheduled | InCycle | Asleep | Finished

record background =
  bg_task :: task
  bg_last_started_at :: "instant option"
  bg_last_completed_at :: "instant option"
  bg_last_duration_ms :: "real option"
  bg_last_error :: "string option"
  bg_cycles :: nat

definition background_init :: background where
  "background_init = \<lparr>bg_task = NoTask, bg_last_started_at = None, bg_last_completed_at = None,
     bg_last_duration_ms = None, bg_last_error = None, bg_cycles = 0\<rparr>"

definition is_running :: "background \<Rightarrow> bool" where
  "is_running b = (bg_task b \<in> {Scheduled, InCycle, Asleep})"

definition bg_start :: "background \<Rightarrow> bool \<times> background" where
  "bg_start b = (if is_running b then (False, b) else (True, b\<lparr>bg_task := Scheduled\<rparr>))"

text \<open>The \<open>finally\<close> block at the end of a cycle that began at monotonic time \<open>started\<close>.\<close>

definition end_cycle :: "instant \<Rightarrow> real \<Rightarrow> background \<Rightarrow> background" where
  "end_cycle completed duration b =
     b\<lparr>bg_cycles := bg_cycles b + 1, bg_last_duration_ms := Some duration, bg_last_completed_at := Some completed\<rparr>"

text \<open>\<open>stop\<close> cancels the task and waits for it; a cycle that is cut short is counted.\<close>

definition bg_stop :: "instant \<Rightarrow> real \<Rightarrow> background \<Rightarrow> bool \<times> background" where
  "bg_stop completed duration b =
     (if \<not> is_running b then (False, b)
      else (True, (if bg_task b = InCycle then end_cycle completed duration b else b)\<lparr>bg_task := Finished\<rparr>))"

text \<open>What \<open>run_cycle\<close> did: its report's error, or an exception that escaped it.\<close>

definition begin_cycle :: "instant \<Rightarrow> background \<Rightarrow> background" where
  "begin_cycle now b = b\<lparr>bg_task := InCycle, bg_last_started_at := Some now\<rparr>"

definition finish_cycle :: "instant \<Rightarrow> real \<Rightarrow> string option py \<Rightarrow> bool \<Rightarrow> background \<Rightarrow> background" where
  "finish_cycle completed duration rep sleeps b =
     (let b1 = b\<lparr>bg_last_error := (case rep of Inr err \<Rightarrow> err | Inl x \<Rightarrow> Some (exn_str x))\<rparr>
      in (end_cycle completed duration b1)\<lparr>bg_task := (if sleeps then Asleep else Scheduled)\<rparr>)"

inductive bg_step :: "background \<Rightarrow> background \<Rightarrow> bool" where
  start: "bg_step b (snd (bg_start b))"
| stop: "bg_step b (snd (bg_stop t d b))"
| begin_first: "bg_task b = Scheduled \<Longrightarrow> bg_step b (begin_cycle t b)"
| wake: "bg_task b = Asleep \<Longrightarrow> bg_step b (begin_cycle t b)"
| cycle_done: "bg_task b = InCycle \<Longrightarrow> bg_step b (finish_cycle t d r sleeps b)"

inductive bg_reachable :: "background \<Rightarrow> bool" where
  init: "bg_reachable background_init"
| step: "bg_reachable b \<Longrightarrow> bg_step b b' \<Longrightarrow> bg_reachable b'"

inductive_cases bg_stepE: "bg_step b b'"

text \<open>\<open>status()\<close>, but for the interval, which never changes.\<close>

record bg_status =
  bs_running :: bool
  bs_last_started_at :: "instant option"
  bs_last_completed_at :: "instant option"
  bs_last_duration_ms :: "real option"
  bs_last_error :: "string option"
  bs_cycles :: nat

definition background_status :: "background \<Rightarrow> bg_status" where
  "background_status b =
     \<lparr>bs_running = is_running b, bs_last_started_at = bg_last_started_at b, bs_last_completed_at = bg_last_completed_at b,
      bs_last_duration_ms = bg_last_duration_ms b, bs_last_error = bg_last_error b, bs_cycles = bg_cycles b\<rparr>"

section \<open>Invariant\<close>

text \<open>Nothing is reported completed before a cycle was counted, and a running cycle has started.\<close>

definition background_inv :: "background \<Rightarrow> bool" where
  "background_inv b \<longleftrightarrow>
     (bg_cycles b = 0 \<longleftrightarrow> bg_last_completed_at b = None) \<and>
     (bg_cycles b = 0 \<longleftrightarrow> bg_last_duration_ms b = None) \<and>
     (bg_cycles b = 0 \<longrightarrow> bg_last_error b = None) \<and>
     (bg_cycles b > 0 \<or> bg_task b = InCycle \<longrightarrow> bg_last_started_at b \<noteq> None)"

lemmas bg_defs = bg_start_def bg_stop_def begin_cycle_def finish_cycle_def end_cycle_def is_running_def Let_def

lemma bg_step_inv: "bg_step b b' \<Longrightarrow> background_inv b \<Longrightarrow> background_inv b'"
  by (induction rule: bg_step.induct) (auto simp: background_inv_def bg_defs split: if_splits)

lemma bg_reachable_inv: "bg_reachable b \<Longrightarrow> background_inv b"
  by (induction rule: bg_reachable.induct)
     (auto simp: background_inv_def background_init_def dest: bg_step_inv [unfolded background_inv_def])

lemma bg_step_cycles: "bg_step b b' \<Longrightarrow> bg_cycles b \<le> bg_cycles b' \<and> bg_cycles b' \<le> Suc (bg_cycles b)"
  by (induction rule: bg_step.induct) (auto simp: bg_defs split: if_splits)

lemma start_stop:
  "fst (bg_start b) = (\<not> is_running b)" "is_running (snd (bg_start b))"
  "fst (bg_stop t d b) = is_running b" "\<not> is_running (snd (bg_stop t d b))"
  by (auto simp: bg_defs)

text \<open>A stopped runner starts a cycle only after a new \<open>start\<close>.\<close>

lemma not_running_step:
  assumes "bg_step b b'" "\<not> is_running b"
  shows "b' = b \<or> b' = snd (bg_start b)"
  using assms by (cases rule: bg_step.cases) (auto simp: bg_defs)

end
