(* ===== verification/Candle_Repository.thy ===== *)
theory Candle_Repository
  imports Db_Session Domain_Models "HOL-Library.Char_ord" "HOL-Library.List_Lexorder"
begin

text \<open>
  \<open>app/repositories/candle.py\<close> over the table of \<open>app/db/models/candle.py\<close>, whose rows are unique
  in (ticker, timeframe, time). The abstract view of the table is a partial map from those keys
  to candles; the upserts are map updates.
\<close>

record candle_row =
  cn_ticker :: string
  cn_timeframe :: string
  cn_time :: instant
  cn_open :: real
  cn_high :: real
  cn_low :: real
  cn_close :: real
  cn_volume :: real

record candle_db =
  ca_rows :: "candle_row list"
  ca_faults :: fault_plan

abbreviation ca_fails :: "candle_db \<Rightarrow> bool" where
  "ca_fails d \<equiv> stmt_fails (ca_faults d)"

definition ca_tick :: "candle_db \<Rightarrow> candle_db" where
  "ca_tick d = d\<lparr>ca_faults := tl (ca_faults d)\<rparr>"

type_synonym candle_key = "string \<times> string \<times> instant"

definition row_key :: "candle_row \<Rightarrow> candle_key" where
  "row_key r = (cn_ticker r, cn_timeframe r, cn_time r)"

section \<open>The code\<close>

definition set_prices :: "candle \<Rightarrow> candle_row \<Rightarrow> candle_row" where
  "set_prices c r = r\<lparr>cn_open := cd_open c, cn_high := cd_high c, cn_low := cd_low c, cn_close := cd_close c,
                      cn_volume := cd_volume c\<rparr>"

definition new_row :: "string \<Rightarrow> string \<Rightarrow> instant \<Rightarrow> candle \<Rightarrow> candle_row" where
  "new_row ticker timeframe t c =
     \<lparr>cn_ticker = ticker, cn_timeframe = timeframe, cn_time = t, cn_open = cd_open c, cn_high = cd_high c,
      cn_low = cd_low c, cn_close = cd_close c, cn_volume = cd_volume c\<rparr>"

definition find_row :: "candle_row list \<Rightarrow> candle_key \<Rightarrow> candle_row option" where
  "find_row rows k = find (\<lambda>r. row_key r = k) rows"

definition update_row :: "candle_key \<Rightarrow> candle \<Rightarrow> candle_row list \<Rightarrow> candle_row list" where
  "update_row k c rows = map (\<lambda>r. if row_key r = k then set_prices c r else r) rows"

text \<open>The prices arrive as separate arguments in the code, here as the candle they were taken from.\<close>

definition upsert_incremental :: "string \<Rightarrow> string \<Rightarrow> candle \<Rightarrow> candle_db \<Rightarrow> candle_row py \<times> candle_db" where
  "upsert_incremental ticker timeframe c d =
     (let k = (ticker, timeframe, cd_ts c) in
      if ca_fails d then (Inl db_error, ca_tick d)
      else
        let d1 = ca_tick d in
        if ca_fails d1 then (Inl db_error, ca_tick d1)
        else
          (case find_row (ca_rows d) k of
             Some existing \<Rightarrow> (Inr (set_prices c existing), (ca_tick d1)\<lparr>ca_rows := update_row k c (ca_rows d)\<rparr>)
           | None \<Rightarrow>
               (let row = new_row ticker timeframe (cd_ts c) c
                in (Inr row, (ca_tick d1)\<lparr>ca_rows := ca_rows d @ [row]\<rparr>))))"

definition rows_of :: "string \<Rightarrow> string \<Rightarrow> candle_row list \<Rightarrow> candle_row list" where
  "rows_of ticker timeframe rows = filter (\<lambda>r. cn_ticker r = ticker \<and> cn_timeframe r = timeframe) rows"

definition get_last_candle_time :: "string \<Rightarrow> string \<Rightarrow> candle_db \<Rightarrow> instant option py \<times> candle_db" where
  "get_last_candle_time ticker timeframe d =
     (if ca_fails d then (Inl db_error, ca_tick d)
      else (Inr (case py_sorted_rev cn_time (rows_of ticker timeframe (ca_rows d)) of
                   [] \<Rightarrow> None | r # _ \<Rightarrow> Some (cn_time r)), ca_tick d))"

definition recent_rows :: "string \<Rightarrow> string \<Rightarrow> nat \<Rightarrow> candle_row list \<Rightarrow> candle_row list" where
  "recent_rows ticker timeframe limit rows =
     rev (take limit (py_sorted_rev cn_time (rows_of ticker timeframe rows)))"

definition list_recent :: "string \<Rightarrow> string \<Rightarrow> nat \<Rightarrow> candle_db \<Rightarrow> candle_row list py \<times> candle_db" where
  "list_recent ticker timeframe limit d =
     (if ca_fails d then (Inl db_error, ca_tick d)
      else (Inr (recent_rows ticker timeframe limit (ca_rows d)), ca_tick d))"

definition list_range ::
  "string \<Rightarrow> string \<Rightarrow> instant option \<Rightarrow> instant option \<Rightarrow> int \<Rightarrow> int \<Rightarrow> candle_db \<Rightarrow> candle_row list py \<times> candle_db" where
  "list_range ticker timeframe start stop offset limit d =
     (if ca_fails d then (Inl db_error, ca_tick d)
      else
        (let rows = filter (\<lambda>r. (case start of None \<Rightarrow> True | Some t \<Rightarrow> t \<le> cn_time r) \<and>
                                (case stop of None \<Rightarrow> True | Some t \<Rightarrow> cn_time r \<le> t))
                      (rows_of ticker timeframe (ca_rows d))
         in (Inr (page offset (nat (max 1 limit)) (sort_key cn_time rows)), ca_tick d)))"

definition list_tickers :: "candle_db \<Rightarrow> string list py \<times> candle_db" where
  "list_tickers d =
     (if ca_fails d then (Inl db_error, ca_tick d)
      else (Inr (sort (remdups (map cn_ticker (ca_rows d)))), ca_tick d))"

text \<open>
  The latest close over all timeframes; among rows of the same time the database is free to
  choose, the model takes the first stored.
\<close>

definition latest_close :: "string \<Rightarrow> candle_row list \<Rightarrow> real option" where
  "latest_close ticker rows =
     (case py_sorted_rev cn_time (filter (\<lambda>r. cn_ticker r = ticker) rows) of [] \<Rightarrow> None | r # _ \<Rightarrow> Some (cn_close r))"

definition get_latest_close :: "string \<Rightarrow> candle_db \<Rightarrow> real option py \<times> candle_db" where
  "get_latest_close ticker d =
     (if ca_fails d then (Inl db_error, ca_tick d) else (Inr (latest_close ticker (ca_rows d)), ca_tick d))"

text \<open>
  \<open>upsert_batch\<close>: an item whose time is no \<open>datetime\<close> is skipped. The rows that exist are looked
  up once before the loop, so a new time that occurs twice is inserted twice, which the unique
  constraint refuses at the commit: then nothing of the batch is stored.
\<close>

record batch_item =
  bi_time :: "instant option"
  bi_candle :: candle

fun batch_rows ::
  "string \<Rightarrow> string \<Rightarrow> candle_row list \<Rightarrow> batch_item list \<Rightarrow> candle_row list \<times> nat \<times> nat \<Rightarrow> candle_row list \<times> nat \<times> nat" where
  "batch_rows ticker timeframe existing [] acc = acc"
| "batch_rows ticker timeframe existing (x # xs) (rows, inserted, updated) =
     batch_rows ticker timeframe existing xs
       (case bi_time x of
          None \<Rightarrow> (rows, inserted, updated)
        | Some t \<Rightarrow>
            if find_row existing (ticker, timeframe, t) = None
            then (rows @ [new_row ticker timeframe t (bi_candle x)], Suc inserted, updated)
            else (update_row (ticker, timeframe, t) (bi_candle x) rows, inserted, Suc updated))"

definition upsert_batch :: "string \<Rightarrow> string \<Rightarrow> batch_item list \<Rightarrow> candle_db \<Rightarrow> (nat \<times> nat) py \<times> candle_db" where
  "upsert_batch ticker timeframe items d =
     (if items = [] then (Inr (0, 0), d)
      else if ca_fails d then (Inl db_error, ca_tick d)
      else
        (case batch_rows ticker timeframe (ca_rows d) items (ca_rows d, 0, 0) of
           (rows, inserted, updated) \<Rightarrow>
             (let d1 = ca_tick d in
              if ca_fails d1 \<or> \<not> distinct (map row_key rows) then (Inl db_error, ca_tick d1)
              else (Inr (inserted, updated), (ca_tick d1)\<lparr>ca_rows := rows\<rparr>))))"

section \<open>The table as a map\<close>

definition candles_inv :: "candle_db \<Rightarrow> bool" where
  "candles_inv d \<longleftrightarrow> distinct (map row_key (ca_rows d))"

type_synonym ohlcv = "real \<times> real \<times> real \<times> real \<times> real"

definition row_values :: "candle_row \<Rightarrow> ohlcv" where
  "row_values r = (cn_open r, cn_high r, cn_low r, cn_close r, cn_volume r)"

definition candle_values :: "candle \<Rightarrow> ohlcv" where
  "candle_values c = (cd_open c, cd_high c, cd_low c, cd_close c, cd_volume c)"

definition table_map :: "candle_row list \<Rightarrow> candle_key \<Rightarrow> ohlcv option" where
  "table_map rows k = map_option row_values (find_row rows k)"

lemma ca_tick_simps [simp]: "ca_rows (ca_tick d) = ca_rows d" "ca_faults (ca_tick d) = tl (ca_faults d)"
  by (simp_all add: ca_tick_def)

lemma candles_inv_tick [simp]: "candles_inv (ca_tick d) = candles_inv d"
  by (simp add: candles_inv_def)

lemma set_prices_simps [simp]: "row_key (set_prices c r) = row_key r" "row_values (set_prices c r) = candle_values c"
  by (simp_all add: set_prices_def row_key_def row_values_def candle_values_def)

lemma new_row_simps [simp]:
  "row_key (new_row ticker tf t c) = (ticker, tf, t)" "row_values (new_row ticker tf t c) = candle_values c"
  by (simp_all add: new_row_def row_key_def row_values_def candle_values_def)

lemma find_row_None: "find_row rows k = None \<longleftrightarrow> k \<notin> row_key ` set rows"
  by (auto simp: find_row_def find_None_iff)

lemma table_map_None: "find_row rows k = None \<Longrightarrow> table_map rows k = None"
  by (simp add: table_map_def)

lemma update_row_keys [simp]: "map row_key (update_row k c rows) = map row_key rows"
  by (simp add: update_row_def)

lemma table_map_append: "table_map (rows @ [r]) k = (case table_map rows k of None \<Rightarrow> if row_key r = k then Some (row_values r) else None | Some v \<Rightarrow> Some v)"
  unfolding table_map_def find_row_def by (induction rows) auto

lemma table_map_update:
  "table_map (update_row k c rows) = (if find_row rows k = None then table_map rows else (table_map rows)(k \<mapsto> candle_values c))"
proof -
  have "table_map (update_row k c rows) k' =
      (if k' = k \<and> find_row rows k \<noteq> None then Some (candle_values c) else table_map rows k')" for k'
    unfolding table_map_def find_row_def update_row_def by (induction rows) auto
  then show ?thesis by auto
qed

text \<open>An upsert that succeeds is a map update; one that fails changes nothing.\<close>

lemma upsert_incremental_map:
  assumes "upsert_incremental ticker tf c d = (Inr r, d')"
  shows "table_map (ca_rows d') = (table_map (ca_rows d))((ticker, tf, cd_ts c) \<mapsto> candle_values c)"
proof (cases "find_row (ca_rows d) (ticker, tf, cd_ts c)")
  case None
  then have "table_map (ca_rows d) (ticker, tf, cd_ts c) = None" by (simp add: table_map_def)
  then show ?thesis
    using assms None
    by (auto simp: upsert_incremental_def Let_def table_map_append fun_eq_iff split: if_splits option.splits)
next
  case (Some row)
  then show ?thesis
    using assms by (auto simp: upsert_incremental_def Let_def table_map_update split: if_splits)
qed

lemma upsert_incremental_error: "upsert_incremental ticker tf c d = (Inl x, d') \<Longrightarrow> ca_rows d' = ca_rows d \<and> x = db_error"
  by (auto simp: upsert_incremental_def Let_def split: if_splits option.splits)

lemma upsert_incremental_inv: "candles_inv d \<Longrightarrow> upsert_incremental ticker tf c d = (r, d') \<Longrightarrow> candles_inv d'"
  by (auto simp: upsert_incremental_def Let_def candles_inv_def find_row_None split: if_splits option.splits)

lemma upsert_batch_inv: "candles_inv d \<Longrightarrow> upsert_batch ticker tf items d = (r, d') \<Longrightarrow> candles_inv d'"
  by (auto simp: upsert_batch_def Let_def candles_inv_def split: if_splits prod.splits)

lemma upsert_batch_error: "upsert_batch ticker tf items d = (Inl x, d') \<Longrightarrow> ca_rows d' = ca_rows d \<and> x = db_error"
  by (auto simp: upsert_batch_def Let_def split: if_splits prod.splits)

lemma batch_rows_counts:
  "batch_rows ticker tf ex xs (rows, i, u) = (rows', i', u') \<Longrightarrow>
     i' + u' = i + u + length (filter (\<lambda>x. bi_time x \<noteq> None) xs) \<and> length rows' = length rows + (i' - i) \<and> i \<le> i'"
proof (induction xs arbitrary: rows i u)
  case (Cons x xs)
  show ?case
  proof (cases "bi_time x")
    case None
    then show ?thesis using Cons by simp
  next
    case (Some t)
    show ?thesis
    proof (cases "find_row ex (ticker, tf, t) = None")
      case True
      then show ?thesis using Cons.prems Cons.IH Some by fastforce
    next
      case False
      then show ?thesis using Cons.prems Cons.IH Some by (fastforce simp: update_row_def)
    qed
  qed
qed simp

text \<open>
  A batch that is stored is the sequence of its map updates, in order.
\<close>

definition batch_update :: "string \<Rightarrow> string \<Rightarrow> batch_item \<Rightarrow> (candle_key \<Rightarrow> ohlcv option) \<Rightarrow> candle_key \<Rightarrow> ohlcv option" where
  "batch_update ticker tf x m =
     (case bi_time x of None \<Rightarrow> m | Some t \<Rightarrow> m((ticker, tf, t) \<mapsto> candle_values (bi_candle x)))"

lemma batch_rows_keys_mono:
  "batch_rows ticker tf ex xs (rows, i, u) = (rows', i', u') \<Longrightarrow> \<exists>ks. map row_key rows' = map row_key rows @ ks"
proof (induction xs arbitrary: rows i u)
  case (Cons x xs)
  from Cons.prems Cons.IH show ?case
    by (cases "bi_time x"; cases "find_row ex (ticker, tf, the (bi_time x)) = None") fastforce+
qed simp

lemma batch_rows_map:
  assumes "batch_rows ticker tf ex xs (rows, i, u) = (rows', i', u')"
    and "distinct (map row_key rows')" "row_key ` set ex \<subseteq> row_key ` set rows"
  shows "table_map rows' = fold (batch_update ticker tf) xs (table_map rows)"
  using assms
proof (induction xs arbitrary: rows i u)
  case (Cons x xs)
  show ?case
  proof (cases "bi_time x")
    case None
    then show ?thesis using Cons by (simp add: batch_update_def)
  next
    case (Some t)
    let ?k = "(ticker, tf, t)"
    have bu: "batch_update ticker tf x m = m(?k \<mapsto> candle_values (bi_candle x))" for m
      by (simp add: batch_update_def Some)
    show ?thesis
    proof (cases "find_row ex ?k = None")
      case True
      let ?rows1 = "rows @ [new_row ticker tf t (bi_candle x)]"
      have run: "batch_rows ticker tf ex xs (?rows1, Suc i, u) = (rows', i', u')" using Cons.prems(1) Some True by simp
      obtain ks where "map row_key rows' = map row_key ?rows1 @ ks" using batch_rows_keys_mono [OF run] by blast
      then have "distinct (map row_key ?rows1)" using Cons.prems(2) by simp
      then have "find_row rows ?k = None" by (auto simp: find_row_None)
      then have "table_map ?rows1 = (table_map rows)(?k \<mapsto> candle_values (bi_candle x))"
        using table_map_None by (auto simp: fun_eq_iff table_map_append split: option.splits)
      moreover have "row_key ` set ex \<subseteq> row_key ` set ?rows1" using Cons.prems(3) by auto
      ultimately show ?thesis using Cons.IH [OF run Cons.prems(2)] by (simp only: fold_simps bu)
    next
      case False
      let ?rows1 = "update_row ?k (bi_candle x) rows"
      have run: "batch_rows ticker tf ex xs (?rows1, i, Suc u) = (rows', i', u')" using Cons.prems(1) Some False by simp
      have fr: "find_row rows ?k \<noteq> None" using False Cons.prems(3) by (auto simp: find_row_None)
      have "row_key ` set ?rows1 = row_key ` set rows" by (metis list.set_map update_row_keys)
      then have "row_key ` set ex \<subseteq> row_key ` set ?rows1" using Cons.prems(3) by simp
      then show ?thesis using Cons.IH [OF run Cons.prems(2)]
        by (simp only: fold_simps bu table_map_update fr if_False)
    qed
  qed
qed simp

lemma upsert_batch_map:
  assumes "upsert_batch ticker tf items d = (Inr (i, u), d')" "candles_inv d"
  shows "table_map (ca_rows d') = fold (batch_update ticker tf) items (table_map (ca_rows d)) \<and>
    i + u = length (filter (\<lambda>x. bi_time x \<noteq> None) items) \<and> length (ca_rows d') = length (ca_rows d) + i"
proof (cases "items = []")
  case True
  then show ?thesis using assms(1) by (simp add: upsert_batch_def)
next
  case False
  obtain rows i' u' where b: "batch_rows ticker tf (ca_rows d) items (ca_rows d, 0, 0) = (rows, i', u')"
    by (rule prod_cases3)
  have eq: "i' = i" "u' = u" "ca_rows d' = rows" "distinct (map row_key rows)"
    using assms(1) False b by (auto simp: upsert_batch_def Let_def split: if_splits)
  show ?thesis
    using batch_rows_map [OF b eq(4)] batch_rows_counts [OF b] by (simp add: eq)
qed

section \<open>Queries\<close>

lemma sorted_rows: "sorted (map cn_time (rev (py_sorted_rev cn_time rows)))"
  by (simp add: py_sorted_rev_def)

lemma recent_rows_sorted: "sorted (map cn_time (recent_rows ticker tf n rows))"
proof -
  have "recent_rows ticker tf n rows = drop (length (rows_of ticker tf rows) - n) (rev (py_sorted_rev cn_time (rows_of ticker tf rows)))"
    by (simp add: recent_rows_def rev_take)
  then show ?thesis unfolding drop_map [symmetric] using sorted_wrt_drop [OF sorted_rows] by (simp only: drop_map)
qed

lemma recent_rows_length: "length (recent_rows ticker tf n rows) = min n (length (rows_of ticker tf rows))"
  by (simp add: recent_rows_def)

lemma recent_rows_set: "set (recent_rows ticker tf n rows) \<subseteq> set (rows_of ticker tf rows)"
  using set_take_subset [of n "py_sorted_rev cn_time (rows_of ticker tf rows)"] by (simp add: recent_rows_def)

text \<open>The last row of a recent window is the newest stored one, whatever the window's size.\<close>

lemma sorted_last_ge:
  assumes "sorted (map f xs)" "x \<in> set xs"
  shows "f x \<le> f (last xs)"
  using assms by (induction xs) (auto split: if_splits)

lemma recent_rows_last:
  assumes "r \<in> set (rows_of ticker tf rows)" "0 < n"
  shows "recent_rows ticker tf n rows \<noteq> []" "cn_time r \<le> cn_time (last (recent_rows ticker tf n rows))"
proof -
  let ?s = "rev (py_sorted_rev cn_time (rows_of ticker tf rows))"
  have eq: "recent_rows ticker tf n rows = drop (length ?s - n) ?s" by (simp add: recent_rows_def rev_take)
  have ne: "0 < length (rows_of ticker tf rows)" using assms(1) by (rule length_pos_if_in_set)
  then have lt: "length ?s - n < length ?s" using assms(2) by simp
  then show "recent_rows ticker tf n rows \<noteq> []" using eq by simp
  have "r \<in> set ?s" using assms(1) by simp
  then have "cn_time r \<le> cn_time (last ?s)" using sorted_last_ge [OF sorted_rows] by blast
  then show "cn_time r \<le> cn_time (last (recent_rows ticker tf n rows))"
    using eq lt by simp
qed

section \<open>Property\<close>

text \<open>
  C24: storing a batch of bars is the update of a map: if it succeeds, the table holds under every
  key the last bar of the batch for it or what it held before, the counts add up to the bars that
  have a time, and the table has grown by the inserted ones; if it fails, no row has changed.
\<close>

theorem batch_is_a_map_update:
  assumes "upsert_batch ticker tf items d = (r, d')" "candles_inv d"
  shows "case r of
      Inl x \<Rightarrow> ca_rows d' = ca_rows d
    | Inr (i, u) \<Rightarrow> table_map (ca_rows d') = fold (batch_update ticker tf) items (table_map (ca_rows d)) \<and>
        i + u = length (filter (\<lambda>x. bi_time x \<noteq> None) items) \<and> length (ca_rows d') = length (ca_rows d) + i \<and> candles_inv d'"
proof (cases r)
  case (Inl x)
  then show ?thesis using upsert_batch_error assms(1) by auto
next
  case (Inr iu)
  then show ?thesis using upsert_batch_map upsert_batch_inv assms by (cases iu) auto
qed

definition sample_items :: "batch_item list" where
  "sample_items = [\<lparr>bi_time = Some 5, bi_candle = \<lparr>cd_open = 1, cd_high = 3, cd_low = 1, cd_close = 2, cd_ts = 5, cd_volume = 9\<rparr>\<rparr>,
     \<lparr>bi_time = None, bi_candle = \<lparr>cd_open = 1, cd_high = 3, cd_low = 1, cd_close = 2, cd_ts = 6, cd_volume = 9\<rparr>\<rparr>]"

definition sample_candles :: candle_db where
  "sample_candles = \<lparr>ca_rows = [], ca_faults = []\<rparr>"

theorem batch_is_a_map_update_witness:
  "\<exists>d'. upsert_batch ''A'' ''1d'' sample_items sample_candles = (Inr (1, 0), d') \<and>
     table_map (ca_rows d') (''A'', ''1d'', 5) = Some (1, 3, 1, 2, 9)"
proof -
  obtain d' where run: "upsert_batch ''A'' ''1d'' sample_items sample_candles = (Inr (1, 0), d')"
    by (simp add: upsert_batch_def sample_items_def sample_candles_def stmt_fails_def find_row_def ca_tick_def)
  have "candles_inv sample_candles" by (simp add: candles_inv_def sample_candles_def)
  from batch_is_a_map_update [OF run this] run show ?thesis
    by (simp add: sample_items_def batch_update_def candle_values_def)
qed

end
