(* ===== verification/Loop_B.thy ===== *)
theory Loop_B
  imports Loop_Core Candle_Repository
begin

text \<open>
  \<open>app/loops/loop_b_runtime.py\<close>: the market schedule, the slots that make a closed bar be scanned
  once, and the synchronisation of candles before a scan. The candle fetcher is a function over
  an environment \<open>'e\<close> and the candle table, which its fallback reads; what Loop B relies on is
  the locale \<open>candle_source\<close>. The table fails where its fault plan says.
\<close>

section \<open>The schedule\<close>

definition in_auction :: "datetime \<Rightarrow> bool" where
  "in_auction now \<longleftrightarrow>
     (dt_hour now = 8 \<and> 30 \<le> dt_minute now \<and> dt_minute now < 60) \<or>
     (dt_hour now = 15 \<and> 20 \<le> dt_minute now \<and> dt_minute now < 30)"

definition due_timeframes :: "datetime \<Rightarrow> string list" where
  "due_timeframes now =
     (let hh = dt_hour now; mm = dt_minute now; total_minutes = hh * 60 + mm in
      if in_auction now then []
      else if total_minutes < 8 * 60 \<or> total_minutes > 20 * 60 then []
      else (if mm mod 3 = 0 then [''3m''] else []) @ (if mm mod 5 = 0 then [''5m''] else []) @
           (if mm mod 15 = 0 then [''15m''] else []) @ (if mm = 0 then [''60m''] else []) @
           (if hh = 15 \<and> mm = 30 then [''1d''] else []))"

definition slot_key :: "datetime \<Rightarrow> string \<Rightarrow> string" where
  "slot_key now timeframe =
     (if timeframe = ''1d'' then date_str now
      else if timeframe = ''60m'' then slot_str now 0
      else if timeframe = ''15m'' then slot_str now (dt_minute now div 15 * 15)
      else if timeframe = ''3m'' then slot_str now (dt_minute now div 3 * 3)
      else slot_str now (dt_minute now div 5 * 5))"

section \<open>The runner\<close>

type_synonym 'e fetch_fn =
  "string \<Rightarrow> string \<Rightarrow> instant option \<Rightarrow> 'e \<times> candle_db \<Rightarrow> candle list py \<times> 'e \<times> candle_db"

record 'e loop_b =
  lb_env :: 'e
  lb_candles :: candle_db
  lb_queue :: queue
  lb_slots :: "string \<times> string \<Rightarrow> string option"

fun upsert_all :: "string \<Rightarrow> string \<Rightarrow> candle list \<Rightarrow> candle_db \<Rightarrow> unit py \<times> candle_db" where
  "upsert_all ticker timeframe [] d = (Inr (), d)"
| "upsert_all ticker timeframe (c # cs) d =
     (case upsert_incremental ticker timeframe c d of
        (Inl x, d') \<Rightarrow> (Inl x, d')
      | (Inr _, d') \<Rightarrow> upsert_all ticker timeframe cs d')"

definition candle_of_row :: "candle_row \<Rightarrow> candle" where
  "candle_of_row r =
     \<lparr>cd_open = cn_open r, cd_high = cn_high r, cd_low = cn_low r, cd_close = cn_close r, cd_ts = cn_time r,
      cd_volume = cn_volume r\<rparr>"

definition sync_and_scan ::
  "'e fetch_fn \<Rightarrow> strategy list \<Rightarrow> string \<Rightarrow> string \<Rightarrow> datetime \<Rightarrow> 'e loop_b \<Rightarrow> nat py \<times> 'e loop_b" where
  "sync_and_scan fetch strategies ticker timeframe now s =
     (case get_last_candle_time ticker timeframe (lb_candles s) of
        (Inl x, d1) \<Rightarrow> (Inl x, s\<lparr>lb_candles := d1\<rparr>)
      | (Inr last_ts, d1) \<Rightarrow>
          (case fetch ticker timeframe last_ts (lb_env s, d1) of
             (Inl x, e1, f1) \<Rightarrow> (Inl x, s\<lparr>lb_env := e1, lb_candles := f1\<rparr>)
           | (Inr fresh, e1, f1) \<Rightarrow>
               (case upsert_all ticker timeframe fresh f1 of
                  (Inl x, d2) \<Rightarrow> (Inl x, s\<lparr>lb_env := e1, lb_candles := d2\<rparr>)
                | (Inr _, d2) \<Rightarrow>
                    (case list_recent ticker timeframe 240 d2 of
                       (Inl x, d3) \<Rightarrow> (Inl x, s\<lparr>lb_env := e1, lb_candles := d3\<rparr>)
                     | (Inr rows, d3) \<Rightarrow>
                         (case run_for_timeframe strategies timeframe ticker (map candle_of_row rows) now (lb_queue s) of
                            (r, q') \<Rightarrow> (r, s\<lparr>lb_env := e1, lb_candles := d3, lb_queue := q'\<rparr>))))))"

fun run_due ::
  "'e fetch_fn \<Rightarrow> strategy list \<Rightarrow> string \<Rightarrow> datetime \<Rightarrow> string list \<Rightarrow> nat \<Rightarrow> 'e loop_b \<Rightarrow> nat py \<times> 'e loop_b" where
  "run_due fetch strategies ticker now [] produced s = (Inr produced, s)"
| "run_due fetch strategies ticker now (tf # tfs) produced s =
     (let slot = slot_key now tf; key = (ticker, tf) in
      if lb_slots s key = Some slot then run_due fetch strategies ticker now tfs produced s
      else
        (case sync_and_scan fetch strategies ticker tf now s of
           (Inl x, s') \<Rightarrow>
             if is_sql_error x then run_due fetch strategies ticker now tfs produced s' else (Inl x, s')
         | (Inr n, s') \<Rightarrow>
             run_due fetch strategies ticker now tfs (produced + n) (s'\<lparr>lb_slots := (lb_slots s')(key \<mapsto> slot)\<rparr>)))"

definition run_once_for_ticker ::
  "'e fetch_fn \<Rightarrow> strategy list \<Rightarrow> datetime \<Rightarrow> string \<Rightarrow> 'e loop_b \<Rightarrow> nat py \<times> 'e loop_b" where
  "run_once_for_ticker fetch strategies now ticker s =
     run_due fetch strategies ticker now (due_timeframes now) 0 s"

section \<open>Facts about the schedule\<close>

lemma no_due_in_auction: "in_auction now \<Longrightarrow> due_timeframes now = []"
  by (simp add: due_timeframes_def Let_def)

lemma due_within_hours:
  "due_timeframes now \<noteq> [] \<Longrightarrow> 480 \<le> dt_hour now * 60 + dt_minute now \<and> dt_hour now * 60 + dt_minute now \<le> 1200"
  by (auto simp: due_timeframes_def Let_def split: if_splits)

lemma due_distinct: "distinct (due_timeframes now)"
  by (auto simp: due_timeframes_def Let_def)

definition same_minute :: "datetime \<Rightarrow> datetime \<Rightarrow> bool" where
  "same_minute a b \<longleftrightarrow> dt_year a = dt_year b \<and> dt_month a = dt_month b \<and> dt_day a = dt_day b \<and>
     dt_hour a = dt_hour b \<and> dt_minute a = dt_minute b"

lemma same_minute_due: "same_minute a b \<Longrightarrow> due_timeframes a = due_timeframes b"
  by (simp add: same_minute_def due_timeframes_def in_auction_def)

lemma same_minute_slot: "same_minute a b \<Longrightarrow> slot_key a tf = slot_key b tf"
  by (simp add: same_minute_def slot_key_def slot_str_def date_hour_str_def date_str_def)

definition bar_minutes :: "string \<Rightarrow> nat" where
  "bar_minutes tf = (if tf = ''3m'' then 3 else if tf = ''15m'' then 15 else if tf = ''60m'' then 60 else 5)"

lemma slot_key_intraday: "tf \<noteq> ''1d'' \<Longrightarrow> datetime_ok now \<Longrightarrow>
    slot_key now tf = slot_str now (dt_minute now div bar_minutes tf * bar_minutes tf)"
  by (simp add: slot_key_def bar_minutes_def datetime_ok_def)

text \<open>Two instants have one slot exactly when they lie in the same bar of the same day.\<close>

lemma slot_key_inj:
  assumes "datetime_ok a" "datetime_ok b" "tf \<noteq> ''1d''"
  shows "slot_key a tf = slot_key b tf \<longleftrightarrow>
    date_str a = date_str b \<and> dt_hour a = dt_hour b \<and> dt_minute a div bar_minutes tf = dt_minute b div bar_minutes tf"
proof -
  have "bar_minutes tf \<noteq> 0" by (simp add: bar_minutes_def)
  then have cancel: "x * bar_minutes tf = y * bar_minutes tf \<longleftrightarrow> x = y" for x y by simp
  let ?m = "\<lambda>d. dt_minute d div bar_minutes tf * bar_minutes tf"
  have "slot_str a (?m a) = slot_str b (?m b) \<longleftrightarrow> date_str a = date_str b \<and> dt_hour a = dt_hour b \<and> ?m a = ?m b"
    using slot_str_inj [OF assms(1,2), of "?m a" "?m b"] by (auto simp only: slot_str_def date_hour_str_def)
  then show ?thesis
    by (simp only: slot_key_intraday [OF assms(3,1)] slot_key_intraday [OF assms(3,2)] cancel)
qed

section \<open>Facts about a run\<close>

lemma upsert_all_inv: "candles_inv d \<Longrightarrow> upsert_all ticker tf cs d = (r, d') \<Longrightarrow> candles_inv d'"
  by (induction cs arbitrary: d) (auto split: prod.splits sum.splits dest: upsert_incremental_inv)

lemma upsert_all_map:
  "upsert_all ticker tf cs d = (Inr u, d') \<Longrightarrow>
   table_map (ca_rows d') = fold (\<lambda>c m. m((ticker, tf, cd_ts c) \<mapsto> candle_values c)) cs (table_map (ca_rows d))"
proof (induction cs arbitrary: d)
  case (Cons c cs)
  obtain r d1 where u: "upsert_incremental ticker tf c d = (r, d1)" by fastforce
  with Cons.prems obtain row where r: "r = Inr row" by (cases r) auto
  have "upsert_all ticker tf cs d1 = (Inr u, d')" using Cons.prems u r by simp
  from Cons.IH [OF this] upsert_incremental_map [OF u [unfolded r]] show ?case by simp
qed simp

lemma get_last_inv: "get_last_candle_time t tf d = (r, d') \<Longrightarrow> ca_rows d' = ca_rows d"
  by (auto simp: get_last_candle_time_def split: if_splits)

lemma list_recent_frame: "list_recent t tf n d = (r, d') \<Longrightarrow> ca_rows d' = ca_rows d"
  by (auto simp: list_recent_def split: if_splits)

lemma run_for_timeframe_queue:
  "run_for_timeframe sts tf ticker cs now q = (r, q') \<Longrightarrow>
   \<exists>xs. q' = q @ xs \<and> (case r of Inr n \<Rightarrow> length xs = n | Inl _ \<Rightarrow> xs = [])"
  by (auto simp: run_for_timeframe_def put_many_def split: sum.splits)

section \<open>A bar is scanned once\<close>

definition marked :: "datetime \<Rightarrow> string \<Rightarrow> 'e loop_b \<Rightarrow> string \<Rightarrow> bool" where
  "marked now ticker s tf \<longleftrightarrow> lb_slots s (ticker, tf) = Some (slot_key now tf)"


definition answering :: "'e loop_b \<Rightarrow> bool" where
  "answering s \<longleftrightarrow> True \<notin> set (ca_faults (lb_candles s))"

lemma run_due_done:
  "\<forall>tf\<in>set tfs. lb_slots s (ticker, tf) = Some (slot_key now tf) \<Longrightarrow>
   run_due fetch sts ticker now tfs acc s = (Inr acc, s)"
  by (induction tfs) (simp_all add: Let_def)

lemma answering_not_fails: "True \<notin> set fs \<Longrightarrow> \<not> stmt_fails fs" "True \<notin> set fs \<Longrightarrow> True \<notin> set (tl fs)"
  by (cases fs; auto)+

lemma upsert_all_answering:
  "True \<notin> set (ca_faults d) \<Longrightarrow> upsert_all ticker tf cs d = (r, d') \<Longrightarrow> r = Inr () \<and> True \<notin> set (ca_faults d')"
proof (induction cs arbitrary: d)
  case (Cons c cs)
  obtain r1 d1 where u: "upsert_incremental ticker tf c d = (r1, d1)" by fastforce
  have "\<exists>row. r1 = Inr row" "True \<notin> set (ca_faults d1)"
    using u Cons.prems(1) answering_not_fails
    by (auto simp: upsert_incremental_def Let_def split: if_splits option.splits)
  then show ?case using Cons.IH [of d1] Cons.prems(2) u by auto
qed auto

text \<open>What \<open>generate\<close> raises are arithmetic and value errors.\<close>

lemma ema_no_sql: "ema vs p = Inl x \<Longrightarrow> \<not> is_sql_error x"
  by (auto simp: ema_def Let_def split: if_splits)

lemma generate_no_sql: "generate st ticker cs now = Inl x \<Longrightarrow> \<not> is_sql_error x"
  by (auto simp: generate_defs Let_def py_bind_Inl_iff py_div_def dest: ema_no_sql
      split: strategy_kind.splits if_splits)

lemma scan_strategies_no_sql: "scan_strategies sts ticker cs now = Inl x \<Longrightarrow> \<not> is_sql_error x"
  by (induction sts) (auto simp: py_bind_Inl_iff dest: generate_no_sql)

lemma scan_no_sql: "scan sts tf ticker cs now = Inl x \<Longrightarrow> \<not> is_sql_error x"
  unfolding scan_def by (rule scan_strategies_no_sql)

section \<open>What Loop B relies on\<close>

text \<open>
  A fetch only reads the table, and while the database answers it leaves it answering and raises
  no database error.
\<close>

locale candle_source =
  fixes fetch :: "'e fetch_fn"
  assumes fetch_reads: "fetch t f l (e, d) = (r, e', d') \<Longrightarrow> ca_rows d' = ca_rows d"
    and fetch_answers: "fetch t f l (e, d) = (r, e', d') \<Longrightarrow> True \<notin> set (ca_faults d) \<Longrightarrow>
      True \<notin> set (ca_faults d') \<and> (\<forall>x. r = Inl x \<longrightarrow> \<not> is_sql_error x)"
begin

text \<open>One synchronisation: what it can do to the table, the queue and the slots.\<close>

lemma sync_and_scan_effect:
  assumes "sync_and_scan fetch sts ticker tf now s = (r, s')"
  shows "lb_slots s' = lb_slots s"
    and "\<exists>xs. lb_queue s' = lb_queue s @ xs \<and> (case r of Inr n \<Rightarrow> length xs = n | Inl _ \<Rightarrow> xs = [])"
    and "candles_inv (lb_candles s) \<Longrightarrow> candles_inv (lb_candles s')"
proof -
  obtain r1 d1 where g: "get_last_candle_time ticker tf (lb_candles s) = (r1, d1)" by fastforce
  obtain r2 e1 f1 where f: "fetch ticker tf (projr r1) (lb_env s, d1) = (r2, e1, f1)" by (rule prod_cases3)
  obtain r3 d2 where u: "upsert_all ticker tf (projr r2) f1 = (r3, d2)" by fastforce
  obtain r4 d3 where l: "list_recent ticker tf 240 d2 = (r4, d3)" by fastforce
  obtain r5 q where n: "run_for_timeframe sts tf ticker (map candle_of_row (projr r4)) now (lb_queue s) = (r5, q)" by fastforce
  have out: "(r, s') \<in> {(Inl (projl r1), s\<lparr>lb_candles := d1\<rparr>), (Inl (projl r2), s\<lparr>lb_env := e1, lb_candles := f1\<rparr>),
      (Inl (projl r3), s\<lparr>lb_env := e1, lb_candles := d2\<rparr>), (Inl (projl r4), s\<lparr>lb_env := e1, lb_candles := d3\<rparr>),
      (r5, s\<lparr>lb_env := e1, lb_candles := d3, lb_queue := q\<rparr>)}"
    using assms g f u l n
    by (cases r1; cases r2; cases r3; cases r4) (simp_all add: sync_and_scan_def)
  show "lb_slots s' = lb_slots s" using out by auto
  show "\<exists>xs. lb_queue s' = lb_queue s @ xs \<and> (case r of Inr n \<Rightarrow> length xs = n | Inl _ \<Rightarrow> xs = [])"
    using out run_for_timeframe_queue [OF n] by auto
  have "candles_inv d1 = candles_inv (lb_candles s)" using get_last_inv [OF g] by (simp add: candles_inv_def)
  moreover have "candles_inv f1 = candles_inv d1" using fetch_reads [OF f] by (simp add: candles_inv_def)
  moreover have "candles_inv f1 \<Longrightarrow> candles_inv d2" using upsert_all_inv u by blast
  moreover have "candles_inv d3 = candles_inv d2" using list_recent_frame [OF l] by (simp add: candles_inv_def)
  ultimately show "candles_inv (lb_candles s) \<Longrightarrow> candles_inv (lb_candles s')" using out by auto
qed

lemma run_due_effect:
  assumes "run_due fetch sts ticker now tfs acc s = (r, s')"
  shows "\<exists>xs. lb_queue s' = lb_queue s @ xs \<and> (case r of Inr n \<Rightarrow> n = acc + length xs | Inl _ \<Rightarrow> True)"
    and "candles_inv (lb_candles s) \<Longrightarrow> candles_inv (lb_candles s')"
proof -
  have "(\<exists>xs. lb_queue s' = lb_queue s @ xs \<and> (case r of Inr n \<Rightarrow> n = acc + length xs | Inl _ \<Rightarrow> True)) \<and>
      (candles_inv (lb_candles s) \<longrightarrow> candles_inv (lb_candles s'))"
    using assms
  proof (induction tfs arbitrary: acc s)
    case Nil
    then show ?case by auto
  next
    case (Cons tf tfs)
    obtain r1 s1 where sy: "sync_and_scan fetch sts ticker tf now s = (r1, s1)" by fastforce
    note E = sync_and_scan_effect [OF sy]
    show ?case
    proof (cases "lb_slots s (ticker, tf) = Some (slot_key now tf)")
      case True
      then show ?thesis using Cons by (simp add: Let_def)
    next
      case False
      show ?thesis
      proof (cases r1)
        case (Inl x)
        then show ?thesis
          using Cons.prems Cons.IH [of acc s1] E False sy by (auto simp: Let_def split: if_splits)
      next
        case (Inr n)
        let ?s2 = "s1\<lparr>lb_slots := (lb_slots s1)((ticker, tf) \<mapsto> slot_key now tf)\<rparr>"
        have "run_due fetch sts ticker now tfs (acc + n) ?s2 = (r, s')"
          using Cons.prems False sy Inr by (simp add: Let_def)
        from Cons.IH [OF this] E(2,3) Inr show ?thesis by (auto split: sum.splits)
      qed
    qed
  qed
  then show "\<exists>xs. lb_queue s' = lb_queue s @ xs \<and> (case r of Inr n \<Rightarrow> n = acc + length xs | Inl _ \<Rightarrow> True)"
    "candles_inv (lb_candles s) \<Longrightarrow> candles_inv (lb_candles s')" by blast+
qed

text \<open>A timeframe a run got through without a database error is marked with its slot.\<close>

lemma run_due_keeps_marks:
  assumes "run_due fetch sts ticker now tfs acc s = (r, s')" "marked now ticker s tf"
  shows "marked now ticker s' tf"
  using assms
proof (induction tfs arbitrary: acc s)
  case (Cons t tfs)
  obtain r1 s1 where sy: "sync_and_scan fetch sts ticker t now s = (r1, s1)" by fastforce
  have sl: "lb_slots s1 = lb_slots s" using sync_and_scan_effect(1) [OF sy] .
  have m1: "marked now ticker s1 tf" "marked now ticker (s1\<lparr>lb_slots := (lb_slots s1)((ticker, t) \<mapsto> slot_key now t)\<rparr>) tf"
    using Cons.prems(2) sl by (auto simp: marked_def)
  show ?case using Cons.prems(1) Cons.IH sy m1 Cons.prems(2)
    by (auto simp: Let_def split: if_splits sum.splits)
qed simp

lemma sync_and_scan_answering:
  assumes "sync_and_scan fetch sts ticker tf now s = (r, s')" "answering s"
  shows "answering s'"
proof -
  obtain r1 d1 where g: "get_last_candle_time ticker tf (lb_candles s) = (r1, d1)" by fastforce
  have d1: "True \<notin> set (ca_faults d1)"
    using g assms(2) answering_not_fails by (auto simp: get_last_candle_time_def answering_def split: if_splits)
  obtain r2 e1 f1 where f: "fetch ticker tf (projr r1) (lb_env s, d1) = (r2, e1, f1)" by (rule prod_cases3)
  have f1: "True \<notin> set (ca_faults f1)" using fetch_answers [OF f d1] by simp
  obtain r3 d2 where u: "upsert_all ticker tf (projr r2) f1 = (r3, d2)" by fastforce
  have d2: "True \<notin> set (ca_faults d2)" using upsert_all_answering [OF f1 u] by simp
  obtain r4 d3 where l: "list_recent ticker tf 240 d2 = (r4, d3)" by fastforce
  have d3: "True \<notin> set (ca_faults d3)"
    using l d2 answering_not_fails by (auto simp: list_recent_def split: if_splits)
  obtain r5 q where n: "run_for_timeframe sts tf ticker (map candle_of_row (projr r4)) now (lb_queue s) = (r5, q)" by fastforce
  have "lb_candles s' \<in> {d1, f1, d2, d3}"
    using assms(1) g f u l n
    by (cases r1; cases r2; cases r3; cases r4) (auto simp: sync_and_scan_def)
  then show ?thesis using d1 f1 d2 d3 by (auto simp: answering_def)
qed

lemma sync_and_scan_no_sql:
  assumes "sync_and_scan fetch sts ticker tf now s = (Inl x, s')" "answering s"
  shows "\<not> is_sql_error x"
proof -
  obtain r1 d1 where g: "get_last_candle_time ticker tf (lb_candles s) = (r1, d1)" by fastforce
  obtain lt where r1: "r1 = Inr lt" and d1: "True \<notin> set (ca_faults d1)"
    using g assms(2) answering_not_fails by (auto simp: get_last_candle_time_def answering_def split: if_splits)
  obtain r2 e1 f1 where f: "fetch ticker tf lt (lb_env s, d1) = (r2, e1, f1)" by (rule prod_cases3)
  have f1: "True \<notin> set (ca_faults f1)" using fetch_answers [OF f d1] by simp
  show ?thesis
  proof (cases r2)
    case (Inl y)
    then show ?thesis using assms(1) g r1 f fetch_answers [OF f d1] by (auto simp: sync_and_scan_def)
  next
    case (Inr fresh)
    obtain r3 d2 where u: "upsert_all ticker tf fresh f1 = (r3, d2)" by fastforce
    have r3: "r3 = Inr ()" and d2: "True \<notin> set (ca_faults d2)" using upsert_all_answering [OF f1 u] by simp_all
    obtain rows d3 where l: "list_recent ticker tf 240 d2 = (Inr rows, d3)"
      using d2 answering_not_fails by (auto simp: list_recent_def)
    have "run_for_timeframe sts tf ticker (map candle_of_row rows) now (lb_queue s) = (Inl x, lb_queue s')"
      using assms(1) g r1 f Inr u r3 l by (auto simp: sync_and_scan_def split: prod.splits)
    then show ?thesis using scan_no_sql by (auto simp: run_for_timeframe_def split: sum.splits)
  qed
qed

lemma run_due_marks:
  assumes "run_due fetch sts ticker now tfs acc s = (Inr n, s')" "answering s" "tf \<in> set tfs"
  shows "marked now ticker s' tf"
  using assms
proof (induction tfs arbitrary: acc s)
  case (Cons t tfs)
  obtain r1 s1 where sy: "sync_and_scan fetch sts ticker t now s = (r1, s1)" by fastforce
  have a1: "answering s1" using sync_and_scan_answering [OF sy Cons.prems(2)] .
  show ?case
  proof (cases "lb_slots s (ticker, t) = Some (slot_key now t)")
    case True
    then have run: "run_due fetch sts ticker now tfs acc s = (Inr n, s')" using Cons.prems(1) by (simp add: Let_def)
    show ?thesis
    proof (cases "tf = t")
      case eq: True
      have "marked now ticker s tf" using True eq by (simp add: marked_def)
      then show ?thesis by (rule run_due_keeps_marks [OF run])
    next
      case False
      then show ?thesis using Cons.IH [OF run Cons.prems(2)] Cons.prems(3) by simp
    qed
  next
    case False
    show ?thesis
    proof (cases r1)
      case (Inl x)
      have "\<not> is_sql_error x" by (rule sync_and_scan_no_sql [OF sy [unfolded Inl] Cons.prems(2)])
      then show ?thesis using Cons.prems(1) False sy Inl by (simp add: Let_def)
    next
      case (Inr k)
      let ?s2 = "s1\<lparr>lb_slots := (lb_slots s1)((ticker, t) \<mapsto> slot_key now t)\<rparr>"
      have run: "run_due fetch sts ticker now tfs (acc + k) ?s2 = (Inr n, s')"
        using Cons.prems(1) False sy Inr by (simp add: Let_def)
      have a2: "answering ?s2" using a1 by (simp add: answering_def)
      show ?thesis
      proof (cases "tf = t")
        case True
        then have "marked now ticker ?s2 tf" by (simp add: marked_def)
        then show ?thesis by (rule run_due_keeps_marks [OF run])
      next
        case ne: False
        then show ?thesis using Cons.IH [OF run a2] Cons.prems(3) by simp
      qed
    qed
  qed
qed simp

end

section \<open>Properties\<close>

text \<open>
  Two moments share the slot of an intraday timeframe exactly if they lie in the same bar:
  the same date, the same hour and the same stretch of the timeframe's minutes.
\<close>

theorem slot_identifies_the_bar:
  assumes "datetime_ok a" "datetime_ok b" "tf \<noteq> ''1d''"
  shows "slot_key a tf = slot_key b tf \<longleftrightarrow>
    date_str a = date_str b \<and> dt_hour a = dt_hour b \<and> dt_minute a div bar_minutes tf = dt_minute b div bar_minutes tf"
  using assms by (rule slot_key_inj)

definition sample_time :: "nat \<Rightarrow> nat \<Rightarrow> datetime" where
  "sample_time h m = \<lparr>dt_year = 2024, dt_month = 1, dt_day = 2, dt_hour = h, dt_minute = m, dt_second = 0, dt_micro = 0, dt_offset = 32400\<rparr>"

theorem slot_identifies_the_bar_witness:
  "slot_key (sample_time 9 16) ''15m'' = slot_key (sample_time 9 29) ''15m'' \<and>
   slot_key (sample_time 9 16) ''15m'' \<noteq> slot_key (sample_time 9 30) ''15m''"
  using slot_identifies_the_bar [of "sample_time 9 16" "sample_time 9 29" "''15m''"]
    slot_identifies_the_bar [of "sample_time 9 16" "sample_time 9 30" "''15m''"]
  by (simp add: sample_time_def datetime_ok_def bar_minutes_def date_str_def)

text \<open>
  During the auctions and outside 08:00 to 20:00 nothing is read, stored or put into the queue.
\<close>

theorem no_scan_outside_the_session:
  assumes "in_auction now \<or> dt_hour now * 60 + dt_minute now < 480 \<or> 1200 < dt_hour now * 60 + dt_minute now"
  shows "run_once_for_ticker fetch sts now ticker s = (Inr 0, s)"
proof -
  have "due_timeframes now = []" using assms no_due_in_auction due_within_hours [of now] by fastforce
  then show ?thesis by (simp add: run_once_for_ticker_def)
qed

theorem no_scan_outside_the_session_witness:
  "\<forall>s. run_once_for_ticker (\<lambda>t f l s. (Inl (OtherError ''down''), s)) [] (sample_time 15 25) ''A'' s = (Inr 0, s)"
  by (intro allI no_scan_outside_the_session) (simp add: in_auction_def sample_time_def)

end
