(* ===== verification/Market_Sources.thy ===== *)
theory Market_Sources
  imports Loop_A Loop_B
begin

text \<open>
  The price, ATR and candle providers of \<open>app/services/runtime_factory.py\<close>. The live market data
  (the broker gateway) is a pair of functions over the broker's state \<open>'b\<close>, which may raise; the
  fallbacks read the candle table. They answer whatever fails, which is what Loop A and Loop B
  rely on.
\<close>

section \<open>The code\<close>

type_synonym 'b market_price_fn = "string \<Rightarrow> 'b \<Rightarrow> real py \<times> 'b"
type_synonym 'b market_candles_fn = "string \<Rightarrow> string \<Rightarrow> instant option \<Rightarrow> 'b \<Rightarrow> candle list py \<times> 'b"

text \<open>The environment of the live loops: the broker, the fetcher's error count, the candle table.\<close>

type_synonym 'b live = "('b \<times> nat) \<times> candle_db"

text \<open>\<open>DbPriceProvider\<close>: no candle and no database alike give a price of zero.\<close>

definition db_price :: "string \<Rightarrow> candle_db \<Rightarrow> real \<times> candle_db" where
  "db_price ticker d =
     (case get_latest_close ticker d of
        (Inr (Some v), d') \<Rightarrow> (v, d')
      | (Inr None, d') \<Rightarrow> (0, d')
      | (Inl _, d') \<Rightarrow> (0, d'))"

text \<open>\<open>LivePriceProvider\<close> with its fallback.\<close>

definition live_price :: "'b market_price_fn \<Rightarrow> 'b live price_fn" where
  "live_price market ticker s =
     (case s of ((b, n), d) \<Rightarrow>
      (case market ticker b of
         (Inr p, b') \<Rightarrow>
           if p > 0 then (Inr p, (b', n), d)
           else (case db_price ticker d of (v, d') \<Rightarrow> (Inr v, (b', n), d'))
       | (Inl _, b') \<Rightarrow> (case db_price ticker d of (v, d') \<Rightarrow> (Inr v, (b', n), d'))))"

definition db_atr :: "'b live atr_fn" where
  "db_atr ticker sid s =
     (case s of (e, d) \<Rightarrow>
      (case list_recent ticker ''5m'' 20 d of
         (Inl _, d') \<Rightarrow> (Inr 1, e, d')
       | (Inr rows, d') \<Rightarrow>
           if length rows < 2 then (Inr 1, e, d')
           else (case compute_atr (map cn_high rows) (map cn_low rows) (map cn_close rows) of
                   Inl x \<Rightarrow> (Inl x, e, d')
                 | Inr a \<Rightarrow> (Inr (max a 1), e, d'))))"

definition db_fallback_fetch :: "string \<Rightarrow> string \<Rightarrow> instant option \<Rightarrow> candle_db \<Rightarrow> candle list \<times> candle_db" where
  "db_fallback_fetch ticker timeframe since d =
     (case list_range ticker timeframe since None 0 240 d of
        (Inl _, d') \<Rightarrow> ([], d')
      | (Inr rows, d') \<Rightarrow> (map candle_of_row rows, d'))"

text \<open>
  \<open>ResilientCandleFetcher\<close>: the primary is tried \<open>retry_count + 1\<close> times (the pauses are not
  modelled), each failure is counted, then the fallback answers.
\<close>

fun try_primary ::
  "'b market_candles_fn \<Rightarrow> string \<Rightarrow> string \<Rightarrow> instant option \<Rightarrow> nat \<Rightarrow> 'b \<times> nat \<Rightarrow> candle list option \<times> 'b \<times> nat" where
  "try_primary primary ticker timeframe since 0 s = (None, s)"
| "try_primary primary ticker timeframe since (Suc k) (b, errors) =
     (case primary ticker timeframe since b of
        (Inr cs, b') \<Rightarrow> (Some cs, b', errors)
      | (Inl _, b') \<Rightarrow> try_primary primary ticker timeframe since k (b', errors + 1))"

definition resilient_fetch :: "'b market_candles_fn \<Rightarrow> nat \<Rightarrow> ('b \<times> nat) fetch_fn" where
  "resilient_fetch primary retry_count ticker timeframe since s =
     (case s of (e, d) \<Rightarrow>
      (case try_primary primary ticker timeframe since (retry_count + 1) e of
         (Some cs, e') \<Rightarrow> (Inr cs, e', d)
       | (None, e') \<Rightarrow> (case db_fallback_fetch ticker timeframe since d of (cs, d') \<Rightarrow> (Inr cs, e', d'))))"

section \<open>They answer\<close>

lemma live_price_eq:
  "live_price market t ((b, n), d) =
     (case fst (market t b) of
        Inr p \<Rightarrow> if p > 0 then (Inr p, (snd (market t b), n), d)
                 else (Inr (fst (db_price t d)), (snd (market t b), n), snd (db_price t d))
      | Inl _ \<Rightarrow> (Inr (fst (db_price t d)), (snd (market t b), n), snd (db_price t d)))"
  unfolding live_price_def prod.case
  by (cases "market t b"; cases "db_price t d") (simp split: sum.splits)

lemma db_price_eq:
  "db_price t d = ((if ca_fails d then 0 else case latest_close t (ca_rows d) of None \<Rightarrow> 0 | Some v \<Rightarrow> v), ca_tick d)"
  by (simp add: db_price_def get_latest_close_def split: option.splits)

lemma live_price_answers: "\<exists>x s'. live_price market t s = (Inr x, s')"
proof -
  obtain b n d where s: "s = ((b, n), d)" by (metis surj_pair)
  show ?thesis
  proof (cases "fst (market t b)")
    case (Inl x)
    then show ?thesis by (simp add: s live_price_eq)
  next
    case (Inr p)
    then show ?thesis by (cases "p > 0") (simp_all add: s live_price_eq)
  qed
qed

lemma db_atr_answers: "\<exists>a s'. db_atr t sid s = (Inr a, s') \<and> 1 \<le> a"
proof -
  obtain e d where s: "s = (e, d)" by fastforce
  obtain r d' where l: "list_recent t ''5m'' 20 d = (r, d')" by fastforce
  show ?thesis
  proof (cases r)
    case (Inl x)
    then show ?thesis by (simp add: db_atr_def s l)
  next
    case (Inr rows)
    show ?thesis
    proof (cases "length rows < 2")
      case False
      then have "rows \<noteq> []" by auto
      then obtain a where "compute_atr (map cn_high rows) (map cn_low rows) (map cn_close rows) = Inr a"
        using compute_atr_total [of "map cn_high rows" "map cn_low rows" "map cn_close rows"] by auto
      then show ?thesis using False Inr by (simp add: db_atr_def s l)
    qed (simp add: db_atr_def s l Inr)
  qed
qed

lemma sources_answer: "answers (live_price market) db_atr"
  using live_price_answers db_atr_answers unfolding answers_def by metis

lemma live_price_reads:
  assumes "live_price market t (e, d) = (r, e', d')"
  shows "ca_rows d' = ca_rows d"
  using assms by (cases e; cases "fst (market t (fst e))") (auto simp: live_price_eq db_price_eq split: if_splits)

lemma db_atr_reads: "db_atr t sid (e, d) = (r, e', d') \<Longrightarrow> ca_rows d' = ca_rows d"
  by (auto simp: db_atr_def list_recent_def split: prod.splits sum.splits if_splits)

text \<open>The broker's price is used when it is positive; otherwise the latest stored close, if any.\<close>

lemma live_price_value:
  assumes "\<not> ca_fails d"
  shows "fst (live_price market t ((b, n), d)) =
    Inr (case fst (market t b) of
           Inr p \<Rightarrow> if p > 0 then p else (case latest_close t (ca_rows d) of None \<Rightarrow> 0 | Some v \<Rightarrow> v)
         | Inl _ \<Rightarrow> (case latest_close t (ca_rows d) of None \<Rightarrow> 0 | Some v \<Rightarrow> v))"
  using assms by (simp add: live_price_eq db_price_eq split: sum.splits)

section \<open>The fetcher is a candle source\<close>

lemma db_fallback_fetch_effect:
  "db_fallback_fetch t f l d = (cs, d') \<Longrightarrow> ca_rows d' = ca_rows d \<and> ca_faults d' = tl (ca_faults d)"
  by (auto simp: db_fallback_fetch_def list_range_def Let_def split: if_splits)

lemma resilient_fetch_effect:
  assumes "resilient_fetch primary k t f l (e, d) = (r, e', d')"
  shows "\<exists>cs. r = Inr cs \<and> ca_rows d' = ca_rows d \<and> (ca_faults d' = ca_faults d \<or> ca_faults d' = tl (ca_faults d))"
  using assms
  by (auto simp: resilient_fetch_def split: prod.splits option.splits dest: db_fallback_fetch_effect)

interpretation live: candle_source "resilient_fetch primary k"
proof unfold_locales
  fix t f l e d r e' d'
  assume run: "resilient_fetch primary k t f l (e, d) = (r, e', d')"
  from resilient_fetch_effect [OF run] show "ca_rows d' = ca_rows d" by blast
  assume ok: "True \<notin> set (ca_faults d)"
  show "True \<notin> set (ca_faults d') \<and> (\<forall>x. r = Inl x \<longrightarrow> \<not> is_sql_error x)"
    using resilient_fetch_effect [OF run] answering_not_fails(2) [OF ok] ok by auto
qed

text \<open>How often the primary is asked, and that its failures are counted.\<close>

lemma try_primary_errors:
  "try_primary primary t f l k (b, n) = (r, b', n') \<Longrightarrow> n \<le> n' \<and> n' \<le> n + k \<and> (r = None \<longrightarrow> n' = n + k) \<and> (r \<noteq> None \<longrightarrow> n' < n + k)"
proof (induction k arbitrary: b n)
  case (Suc k)
  obtain x b1 where p: "primary t f l b = (x, b1)" by fastforce
  show ?case
  proof (cases x)
    case (Inl y)
    then have "try_primary primary t f l k (b1, n + 1) = (r, b', n')" using Suc.prems p by simp
    from Suc.IH [OF this] show ?thesis by auto
  next
    case (Inr cs)
    then show ?thesis using Suc.prems p by auto
  qed
qed simp

section \<open>Property\<close>

text \<open>
  C19: with the live sources and a database that answers, a bar is scanned once: after a run for a
  ticker that did not raise, another run at a moment of the same minute, when the same bars are due, puts
  nothing into the queue and changes nothing.
\<close>

theorem bars_are_scanned_once:
  assumes "run_once_for_ticker (resilient_fetch primary k) sts now ticker s = (Inr n, s')" "answering s"
    and "same_minute now later"
  shows "run_once_for_ticker (resilient_fetch primary k) sts later ticker s' = (Inr 0, s')"
proof -
  have "marked now ticker s' tf" if "tf \<in> set (due_timeframes now)" for tf
    using live.run_due_marks [OF assms(1) [unfolded run_once_for_ticker_def] assms(2) that] .
  then have "\<forall>tf\<in>set (due_timeframes later). lb_slots s' (ticker, tf) = Some (slot_key later tf)"
    using same_minute_due [OF assms(3)] same_minute_slot [OF assms(3)] by (simp add: marked_def)
  from run_due_done [OF this] show ?thesis by (simp add: run_once_for_ticker_def)
qed

definition sample_loop_b :: "(unit \<times> nat) loop_b" where
  "sample_loop_b = \<lparr>lb_env = ((), 0), lb_candles = sample_candles, lb_queue = [], lb_slots = (\<lambda>_. None)\<rparr>"

text \<open>
  At six past nine three minutes are over: the bars the broker has, the last of which opens above the close
  before it, are stored and scanned, and the signal is queued. Half a minute later nothing happens,
  because the bar is marked: without the mark the signal would be queued again.
\<close>

definition sample_bar_close :: candle where
  "sample_bar_close = \<lparr>cd_open = 99, cd_high = 101, cd_low = 98, cd_close = 100, cd_ts = 0, cd_volume = 10\<rparr>"

definition sample_bar_gap :: candle where
  "sample_bar_gap = \<lparr>cd_open = 105, cd_high = 107, cd_low = 104, cd_close = 106, cd_ts = 180, cd_volume = 20\<rparr>"

definition gap_market :: "unit market_candles_fn" where
  "gap_market ticker timeframe since b = (Inr [sample_bar_close, sample_bar_gap], b)"

definition sample_gap :: strategy where
  "sample_gap = \<lparr>str_kind = GapMomentum, str_id = ''1'', str_timeframe = ''3m'', str_active_hours = [(hhmm 9 0, hhmm 10 0)]\<rparr>"

definition gap_rows :: "candle_row list" where
  "gap_rows = [new_row ''A'' ''3m'' 0 sample_bar_close, new_row ''A'' ''3m'' 180 sample_bar_gap]"

lemma sample_gap_scan: "\<exists>sg. scan [sample_gap] ''3m'' ''A'' (map candle_of_row gap_rows) (sample_time 9 6) = Inr [sg]"
proof -
  have "is_active_time sample_gap (sample_time 9 6)"
    by (simp add: is_active_time_def sample_gap_def sample_time_def time_of_def hhmm_def)
  then show ?thesis
    by (simp add: scan_def for_timeframe_def sample_gap_def gap_rows_def sample_bar_close_def sample_bar_gap_def generate_def
        gap_generate_def candle_of_row_def new_row_def Let_def)
qed

lemma sample_gap_sync:
  assumes "lb_candles s = \<lparr>ca_rows = rows, ca_faults = []\<rparr>" "rows = [] \<or> rows = gap_rows"
  obtains sg s1 where "sync_and_scan (resilient_fetch gap_market k) [sample_gap] ''A'' ''3m'' (sample_time 9 6) s = (Inr 1, s1)"
    "lb_candles s1 = \<lparr>ca_rows = gap_rows, ca_faults = []\<rparr>" "lb_queue s1 = lb_queue s @ [sg]" "lb_slots s1 = lb_slots s"
proof -
  obtain sg where sg: "scan [sample_gap] ''3m'' ''A'' (map candle_of_row gap_rows) (sample_time 9 6) = Inr [sg]"
    using sample_gap_scan by blast
  obtain n where e: "lb_env s = ((), n)" by (cases "lb_env s") simp
  have f: "resilient_fetch gap_market k t f l (((), n), d) = (Inr [sample_bar_close, sample_bar_gap], ((), n), d)" for t f l d
    by (simp add: resilient_fetch_def gap_market_def)
  have last: "\<exists>x. get_last_candle_time ''A'' ''3m'' \<lparr>ca_rows = rows, ca_faults = []\<rparr> = (Inr x, \<lparr>ca_rows = rows, ca_faults = []\<rparr>)"
    by (simp add: get_last_candle_time_def ca_tick_def)
  then obtain x where x: "get_last_candle_time ''A'' ''3m'' \<lparr>ca_rows = rows, ca_faults = []\<rparr> = (Inr x, \<lparr>ca_rows = rows, ca_faults = []\<rparr>)"
    by blast
  have up: "upsert_all ''A'' ''3m'' [sample_bar_close, sample_bar_gap] \<lparr>ca_rows = rows, ca_faults = []\<rparr>
      = (Inr (), \<lparr>ca_rows = gap_rows, ca_faults = []\<rparr>)"
    using assms(2) by (auto simp: upsert_incremental_def find_row_def row_key_def new_row_def update_row_def set_prices_def
        sample_bar_close_def sample_bar_gap_def gap_rows_def ca_tick_def Let_def)
  have rec: "list_recent ''A'' ''3m'' 240 \<lparr>ca_rows = gap_rows, ca_faults = []\<rparr> = (Inr gap_rows, \<lparr>ca_rows = gap_rows, ca_faults = []\<rparr>)"
    by (simp add: list_recent_def recent_rows_def rows_of_def py_sorted_rev_def gap_rows_def new_row_def ca_tick_def)
  let ?s1 = "s\<lparr>lb_env := ((), n), lb_candles := \<lparr>ca_rows = gap_rows, ca_faults = []\<rparr>, lb_queue := lb_queue s @ [sg]\<rparr>"
  have "sync_and_scan (resilient_fetch gap_market k) [sample_gap] ''A'' ''3m'' (sample_time 9 6) s = (Inr 1, ?s1)"
    by (simp only: sync_and_scan_def assms(1) x e f up rec prod.case sum.case run_for_timeframe_def sg put_many_def) simp
  then show thesis by (rule that) simp_all
qed

lemma sample_gap_run:
  assumes "lb_candles s = \<lparr>ca_rows = rows, ca_faults = []\<rparr>" "rows = [] \<or> rows = gap_rows" "lb_slots s (''A'', ''3m'') = None"
  obtains sg s1 where "run_once_for_ticker (resilient_fetch gap_market k) [sample_gap] (sample_time 9 6) ''A'' s = (Inr 1, s1)"
    "lb_candles s1 = \<lparr>ca_rows = gap_rows, ca_faults = []\<rparr>" "lb_queue s1 = lb_queue s @ [sg]"
proof -
  have due: "due_timeframes (sample_time 9 6) = [''3m'']" by (simp add: due_timeframes_def in_auction_def sample_time_def)
  obtain sg s1 where "sync_and_scan (resilient_fetch gap_market k) [sample_gap] ''A'' ''3m'' (sample_time 9 6) s = (Inr 1, s1)"
    "lb_candles s1 = \<lparr>ca_rows = gap_rows, ca_faults = []\<rparr>" "lb_queue s1 = lb_queue s @ [sg]"
    using assms(1,2) by (rule sample_gap_sync)
  then show thesis
    using assms(3) by (intro that [of "s1\<lparr>lb_slots := (lb_slots s1)((''A'', ''3m'') \<mapsto> slot_key (sample_time 9 6) ''3m'')\<rparr>" sg])
      (simp_all add: run_once_for_ticker_def due Let_def)
qed

theorem bars_are_scanned_once_witness:
  "\<exists>s' s2. run_once_for_ticker (resilient_fetch gap_market 1) [sample_gap] (sample_time 9 6) ''A'' sample_loop_b = (Inr 1, s') \<and>
     length (lb_queue s') = 1 \<and>
     run_once_for_ticker (resilient_fetch gap_market 1) [sample_gap] ((sample_time 9 6)\<lparr>dt_second := 30\<rparr>) ''A'' s' = (Inr 0, s') \<and>
     run_once_for_ticker (resilient_fetch gap_market 1) [sample_gap] (sample_time 9 6) ''A'' (s'\<lparr>lb_slots := (\<lambda>_. None)\<rparr>) = (Inr 1, s2)"
proof -
  have s: "lb_candles sample_loop_b = \<lparr>ca_rows = [], ca_faults = []\<rparr>" "lb_slots sample_loop_b (''A'', ''3m'') = None" "lb_queue sample_loop_b = []"
    by (simp_all add: sample_loop_b_def sample_candles_def)
  then obtain sg s' where run: "run_once_for_ticker (resilient_fetch gap_market 1) [sample_gap] (sample_time 9 6) ''A'' sample_loop_b = (Inr 1, s')"
    "lb_candles s' = \<lparr>ca_rows = gap_rows, ca_faults = []\<rparr>" "lb_queue s' = [sg]"
    using sample_gap_run [of sample_loop_b "[]" 1] by (metis append_Nil)
  obtain s2 where "run_once_for_ticker (resilient_fetch gap_market 1) [sample_gap] (sample_time 9 6) ''A'' (s'\<lparr>lb_slots := (\<lambda>_. None)\<rparr>) = (Inr 1, s2)"
    by (rule sample_gap_run [of "s'\<lparr>lb_slots := (\<lambda>_. None)\<rparr>" gap_rows 1]) (simp_all add: run(2))
  moreover have "answering sample_loop_b" by (simp add: answering_def s)
  moreover have "same_minute (sample_time 9 6) ((sample_time 9 6)\<lparr>dt_second := 30\<rparr>)" by (simp add: same_minute_def)
  ultimately show ?thesis using bars_are_scanned_once [OF run(1)] run by (intro exI [of _ s'] exI [of _ s2]) simp
qed

end
