(* ===== verification/Universe_Repository.thy ===== *)
theory Universe_Repository
  imports Db_Session Domain_Models "HOL-Library.Char_ord" "HOL-Library.List_Lexorder"
begin

text \<open>
  \<open>app/repositories/universe.py\<close>: the symbols table (\<open>app/db/models/universe.py\<close>), whose primary
  key is the ticker, the three views of it that the loops read, and the filtered listing.
\<close>

record symbol =
  sy_ticker :: string
  sy_name :: string
  sy_market :: string
  sy_in_universe :: bool
  sy_is_active :: bool
  sy_is_blocked :: bool
  sy_status :: string

record universe_db =
  un_rows :: "symbol list"
  un_faults :: fault_plan

abbreviation un_fails :: "universe_db \<Rightarrow> bool" where
  "un_fails d \<equiv> stmt_fails (un_faults d)"

definition un_tick :: "universe_db \<Rightarrow> universe_db" where
  "un_tick d = d\<lparr>un_faults := tl (un_faults d)\<rparr>"

section \<open>The code\<close>

definition find_symbol :: "string \<Rightarrow> symbol list \<Rightarrow> symbol option" where
  "find_symbol ticker rows = find (\<lambda>r. sy_ticker r = ticker) rows"

definition put_symbol :: "symbol \<Rightarrow> symbol list \<Rightarrow> symbol list" where
  "put_symbol row rows =
     (if find_symbol (sy_ticker row) rows = None then rows @ [row]
      else map (\<lambda>r. if sy_ticker r = sy_ticker row then row else r) rows)"

text \<open>\<open>db.get\<close>, change, \<open>db.commit\<close>, \<open>db.refresh\<close>: three statements.\<close>

definition write_symbol :: "(symbol list \<Rightarrow> symbol py) \<Rightarrow> universe_db \<Rightarrow> symbol py \<times> universe_db" where
  "write_symbol f d =
     (if un_fails d then (Inl db_error, un_tick d)
      else
        (case f (un_rows d) of
           Inl x \<Rightarrow> (Inl x, un_tick d)
         | Inr row \<Rightarrow>
             let d1 = un_tick d in
             if un_fails d1 then (Inl db_error, un_tick d1)
             else
               (let d2 = (un_tick d1)\<lparr>un_rows := put_symbol row (un_rows d)\<rparr> in
                if un_fails d2 then (Inl db_error, un_tick d2) else (Inr row, un_tick d2))))"

definition upsert_symbol :: "symbol \<Rightarrow> universe_db \<Rightarrow> symbol py \<times> universe_db" where
  "upsert_symbol row = write_symbol (\<lambda>_. Inr row)"

definition set_blocked :: "string \<Rightarrow> bool \<Rightarrow> universe_db \<Rightarrow> symbol py \<times> universe_db" where
  "set_blocked ticker blocked =
     write_symbol (\<lambda>rows. case find_symbol ticker rows of
        None \<Rightarrow> Inl (KeyError (''symbol not found: '' @ ticker))
      | Some row \<Rightarrow> Inr (row\<lparr>sy_is_blocked := blocked\<rparr>))"

definition select_tickers :: "(symbol \<Rightarrow> bool) \<Rightarrow> nat \<Rightarrow> universe_db \<Rightarrow> string list py \<times> universe_db" where
  "select_tickers P limit d =
     (if un_fails d then (Inl db_error, un_tick d)
      else (Inr (take limit (sort (map sy_ticker (filter P (un_rows d))))), un_tick d))"

definition tradable :: "symbol \<Rightarrow> bool" where
  "tradable r \<longleftrightarrow> sy_in_universe r \<and> sy_is_active r \<and> \<not> sy_is_blocked r \<and> sy_status r \<noteq> status_value HALTED"

definition tracked :: "symbol \<Rightarrow> bool" where
  "tracked r \<longleftrightarrow> sy_in_universe r \<and> sy_is_active r"

definition list_trading_tickers :: "nat \<Rightarrow> universe_db \<Rightarrow> string list py \<times> universe_db" where
  "list_trading_tickers limit d = select_tickers tradable limit d"

definition list_tracking_tickers :: "nat \<Rightarrow> universe_db \<Rightarrow> string list py \<times> universe_db" where
  "list_tracking_tickers limit d = select_tickers tracked limit d"

definition list_universe_tickers :: "nat \<Rightarrow> universe_db \<Rightarrow> string list py \<times> universe_db" where
  "list_universe_tickers limit d = select_tickers sy_in_universe limit d"

definition list_runtime_tickers :: "nat \<Rightarrow> universe_db \<Rightarrow> string list py \<times> universe_db" where
  "list_runtime_tickers limit d = list_trading_tickers limit d"

text \<open>
  \<open>ILIKE\<close> with the database's pattern characters: a percent sign matches any text, an underscore
  one character, a backslash quotes the next; the query text is not escaped by the code.
\<close>

fun sql_like :: "string \<Rightarrow> string \<Rightarrow> bool" where
  "sql_like [] s = (s = [])"
| "sql_like (p # ps) [] = (p = CHR ''%'' \<and> sql_like ps [])"
| "sql_like (p # ps) (c # cs) =
     (if p = CHR ''%'' then sql_like ps (c # cs) \<or> sql_like (p # ps) cs
      else if p = CHR ''_'' then sql_like ps cs
      else if p = CHR 0x5C then (case ps of [] \<Rightarrow> False | q # qs \<Rightarrow> q = c \<and> sql_like qs cs)
      else p = c \<and> sql_like ps cs)"

definition ilike_contains :: "string \<Rightarrow> string \<Rightarrow> bool" where
  "ilike_contains query text = sql_like (''%'' @ py_lower (py_strip query) @ ''%'') (py_lower text)"

record symbol_filter =
  fl_runtime_only :: bool
  fl_in_universe :: "bool option"
  fl_market :: "string option"
  fl_is_active :: "bool option"
  fl_is_blocked :: "bool option"
  fl_status :: "string option"
  fl_ticker_query :: "string option"

definition opt_bool :: "bool option \<Rightarrow> bool \<Rightarrow> bool" where
  "opt_bool p b = (case p of None \<Rightarrow> True | Some v \<Rightarrow> b = v)"

definition symbol_matches :: "symbol_filter \<Rightarrow> symbol \<Rightarrow> bool" where
  "symbol_matches f r \<longleftrightarrow>
     (fl_runtime_only f \<longrightarrow> tradable r) \<and>
     opt_bool (fl_in_universe f) (sy_in_universe r) \<and>
     opt_filter (fl_market f) (\<lambda>m. sy_market r = m) \<and>
     opt_bool (fl_is_active f) (sy_is_active r) \<and>
     opt_bool (fl_is_blocked f) (sy_is_blocked r) \<and>
     opt_filter (fl_status f) (\<lambda>s. sy_status r = s) \<and>
     opt_filter (fl_ticker_query f) (\<lambda>q. ilike_contains q (sy_ticker r) \<or> ilike_contains q (sy_name r))"

definition list_symbols :: "symbol_filter \<Rightarrow> int \<Rightarrow> nat \<Rightarrow> universe_db \<Rightarrow> symbol list py \<times> universe_db" where
  "list_symbols f offset limit d =
     (if un_fails d then (Inl db_error, un_tick d)
      else (Inr (page offset limit (sort_key sy_ticker (filter (symbol_matches f) (un_rows d)))), un_tick d))"

definition count_symbols :: "symbol_filter \<Rightarrow> universe_db \<Rightarrow> nat py \<times> universe_db" where
  "count_symbols f d =
     (if un_fails d then (Inl db_error, un_tick d)
      else (Inr (length (filter (symbol_matches f) (un_rows d))), un_tick d))"

section \<open>Facts\<close>

definition universe_inv :: "universe_db \<Rightarrow> bool" where
  "universe_inv d \<longleftrightarrow> distinct (map sy_ticker (un_rows d))"

lemma un_tick_simps [simp]: "un_rows (un_tick d) = un_rows d" "un_faults (un_tick d) = tl (un_faults d)"
  by (simp_all add: un_tick_def)

lemma universe_inv_tick [simp]: "universe_inv (un_tick d) = universe_inv d"
  by (simp add: universe_inv_def)

lemma find_symbol_None: "find_symbol t rows = None \<longleftrightarrow> t \<notin> sy_ticker ` set rows"
  by (auto simp: find_symbol_def find_None_iff)

lemma find_put_symbol: "find_symbol t (put_symbol row rows) = (if t = sy_ticker row then Some row else find_symbol t rows)"
proof -
  have upd: "find_symbol t (map (\<lambda>r. if sy_ticker r = sy_ticker row then row else r) rows) =
      (if t = sy_ticker row \<and> find_symbol t rows \<noteq> None then Some row else find_symbol t rows)"
    unfolding find_symbol_def by (induction rows) auto
  have app: "find_symbol t (rows @ [row]) =
      (case find_symbol t rows of None \<Rightarrow> if sy_ticker row = t then Some row else None | Some r \<Rightarrow> Some r)"
    unfolding find_symbol_def by (induction rows) auto
  show ?thesis
    by (cases "find_symbol (sy_ticker row) rows") (auto simp: put_symbol_def upd app split: option.splits)
qed

lemma put_symbol_inv: "distinct (map sy_ticker rows) \<Longrightarrow> distinct (map sy_ticker (put_symbol row rows))"
proof -
  assume d: "distinct (map sy_ticker rows)"
  have m: "map sy_ticker (map (\<lambda>r. if sy_ticker r = sy_ticker row then row else r) rows) = map sy_ticker rows" by auto
  show ?thesis
  proof (cases "find_symbol (sy_ticker row) rows = None")
    case True
    then show ?thesis using d by (simp add: put_symbol_def find_symbol_None)
  next
    case False
    show ?thesis unfolding put_symbol_def if_not_P [OF False] m by (rule d)
  qed
qed

lemma write_symbol_inv: "universe_inv d \<Longrightarrow> write_symbol f d = (r, d') \<Longrightarrow> universe_inv d'"
  by (auto simp: write_symbol_def Let_def universe_inv_def put_symbol_inv split: if_splits sum.splits)

text \<open>A write that succeeds stores exactly its row; the other symbols keep theirs.\<close>

lemma write_symbol_Inr:
  assumes "write_symbol f d = (Inr row, d')"
  shows "f (un_rows d) = Inr row"
    and "find_symbol t (un_rows d') = (if t = sy_ticker row then Some row else find_symbol t (un_rows d))"
  using assms by (auto simp: write_symbol_def Let_def find_put_symbol split: if_splits sum.splits)

lemma select_tickers_Inr:
  assumes "select_tickers P limit d = (Inr ts, d')"
  shows "ts = take limit (sort (map sy_ticker (filter P (un_rows d))))" "d' = un_tick d"
  using assms by (auto simp: select_tickers_def split: if_splits)

lemma select_tickers_frame: "select_tickers P limit d = (r, d') \<Longrightarrow> d' = un_tick d \<and> (\<forall>x. r = Inl x \<longrightarrow> x = db_error)"
  by (auto simp: select_tickers_def split: if_splits)

text \<open>
  With room for all tracked symbols, the symbols that may be traded are tracked, and the tracked
  ones are in the universe.
\<close>

lemma tradable_tracked: "tradable r \<Longrightarrow> tracked r"
  by (simp add: tradable_def tracked_def)

lemma select_tickers_mono:
  assumes "select_tickers P n d = (Inr ps, d1)" "select_tickers Q m d2 = (Inr qs, d3)"
    and "un_rows d2 = un_rows d" "\<And>r. P r \<Longrightarrow> Q r" "length (filter Q (un_rows d)) \<le> m"
  shows "set ps \<subseteq> set qs"
  using select_tickers_Inr(1) [OF assms(1)] select_tickers_Inr(1) [OF assms(2)] assms(3-5)
  by (auto dest!: in_set_takeD)

lemma list_symbols_count:
  assumes "list_symbols f 0 n d = (Inr rows, d1)" "count_symbols f d = (Inr k, d2)" "k \<le> n"
  shows "length rows = k"
  using assms by (auto simp: list_symbols_def count_symbols_def page_def split: if_splits)

lemma sql_like_literal:
  assumes "list_all (\<lambda>c. c \<noteq> CHR ''%'' \<and> c \<noteq> CHR ''_'' \<and> c \<noteq> CHR 0x5C) p"
  shows "sql_like (p @ ''%'') s \<longleftrightarrow> py_startswith s p"
  using assms
proof (induction p arbitrary: s)
  case Nil
  have "sql_like ''%'' s" by (induction s) simp_all
  then show ?case by simp
next
  case (Cons c p)
  then show ?case by (cases s) auto
qed

lemma ilike_contains_infix:
  assumes "list_all (\<lambda>c. c \<noteq> CHR ''%'' \<and> c \<noteq> CHR ''_'' \<and> c \<noteq> CHR 0x5C) (py_lower (py_strip q))"
  shows "ilike_contains q t \<longleftrightarrow> (\<exists>a b. py_lower t = a @ py_lower (py_strip q) @ b)"
proof -
  let ?p = "py_lower (py_strip q)"
  have "sql_like (CHR ''%'' # ?p @ ''%'') s \<longleftrightarrow> (\<exists>a b. s = a @ ?p @ b)" for s
  proof (induction s)
    case Nil
    have "sql_like (?p @ ''%'') [] \<longleftrightarrow> ?p = []"
      using sql_like_literal [OF assms, of "[]"] by (cases ?p) auto
    then show ?case by simp
  next
    case (Cons c s)
    have "sql_like (CHR ''%'' # ?p @ ''%'') (c # s) \<longleftrightarrow> sql_like (?p @ ''%'') (c # s) \<or> (\<exists>a b. s = a @ ?p @ b)"
      using Cons by simp
    also have "\<dots> \<longleftrightarrow> (\<exists>b. c # s = ?p @ b) \<or> (\<exists>a b. s = a @ ?p @ b)"
      using sql_like_literal [OF assms, of "c # s"] by (simp add: py_startswith_iff)
    also have "\<dots> \<longleftrightarrow> (\<exists>a b. c # s = a @ ?p @ b)"
    proof
      assume "(\<exists>b. c # s = ?p @ b) \<or> (\<exists>a b. s = a @ ?p @ b)"
      then show "\<exists>a b. c # s = a @ ?p @ b" by (metis append_Cons append_Nil)
    next
      assume "\<exists>a b. c # s = a @ ?p @ b"
      then obtain a b where "c # s = a @ ?p @ b" by blast
      then show "(\<exists>b. c # s = ?p @ b) \<or> (\<exists>a b. s = a @ ?p @ b)" by (cases a) auto
    qed
    finally show ?case .
  qed
  then show ?thesis by (simp add: ilike_contains_def)
qed

end
