(* ===== verification/Maintenance.thy ===== *)
theory Maintenance
  imports Py_Datetime
begin

text \<open>
  \<open>RuntimeMaintenanceService\<close> of \<open>app/services/runtime_factory.py\<close>: the time stamps of the
  maintenance steps, the ticker counts and the post-market backfill, which runs as a background
  task at most once per local day.
\<close>

section \<open>The code\<close>

datatype payload =
    Note string string  \<comment> \<open>slot and message, not ok\<close>
  | Result string bool nat nat  \<comment> \<open>slot, ok, processed and failed counts\<close>

record maintenance =
  mt_last_refresh_at :: "instant option"
  mt_last_optimize_at :: "instant option"
  mt_last_aggregate_at :: "instant option"
  mt_trading :: nat
  mt_tracking :: nat
  mt_universe :: nat
  mt_last_backfill :: "payload option"
  mt_last_slot :: "string option"
  mt_task :: "string option"  \<comment> \<open>the slot of the running task\<close>

definition maintenance_init :: maintenance where
  "maintenance_init = \<lparr>mt_last_refresh_at = None, mt_last_optimize_at = None, mt_last_aggregate_at = None,
     mt_trading = 0, mt_tracking = 0, mt_universe = 0, mt_last_backfill = None, mt_last_slot = None, mt_task = None\<rparr>"

definition refresh_universe :: "instant \<Rightarrow> maintenance \<Rightarrow> maintenance" where
  "refresh_universe now m = m\<lparr>mt_last_refresh_at := Some now\<rparr>"

definition optimize_parameters :: "instant \<Rightarrow> maintenance \<Rightarrow> maintenance" where
  "optimize_parameters now m = m\<lparr>mt_last_optimize_at := Some now\<rparr>"

text \<open>
  The \<open>after_aggregate\<close> callback that \<open>main.py\<close> sets only creates a task, a step of its own (\<open>trigger_task\<close> of
  \<open>Application\<close>); its exceptions are swallowed.
\<close>

definition aggregate_daily_performance :: "instant \<Rightarrow> maintenance \<Rightarrow> maintenance" where
  "aggregate_daily_performance now m = m\<lparr>mt_last_aggregate_at := Some now\<rparr>"

definition set_ticker_counts :: "int \<Rightarrow> int \<Rightarrow> int \<Rightarrow> maintenance \<Rightarrow> maintenance" where
  "set_ticker_counts trading tracking universe m =
     m\<lparr>mt_trading := nat (max trading 0), mt_tracking := nat (max tracking 0), mt_universe := nat (max universe 0)\<rparr>"

definition is_post_market_window :: "datetime \<Rightarrow> bool" where
  "is_post_market_window d \<longleftrightarrow>
     (let total = dt_hour d * 60 + dt_minute d in 15 * 60 + 40 \<le> total \<and> total \<le> 20 * 60)"

definition schedule_post_market_backfill_if_due :: "datetime \<Rightarrow> bool \<Rightarrow> bool \<Rightarrow> maintenance \<Rightarrow> maintenance" where
  "schedule_post_market_backfill_if_due now has_runner loop_running m =
     (if \<not> is_post_market_window now then m
      else
        (let slot = date_str now in
         if mt_last_slot m = Some slot then m
         else if mt_task m \<noteq> None then m
         else
           (let m1 = m\<lparr>mt_last_slot := Some slot\<rparr> in
            if \<not> has_runner then m1\<lparr>mt_last_backfill := Some (Note slot ''runner_not_configured'')\<rparr>
            else if \<not> loop_running then m1\<lparr>mt_last_slot := None\<rparr>
            else m1\<lparr>mt_last_backfill := Some (Note slot ''running''), mt_task := Some slot\<rparr>)))"

text \<open>The end of the background task: the runner's counts, or the exception it raised.\<close>

definition finish_backfill :: "(bool \<times> nat \<times> nat) py \<Rightarrow> maintenance \<Rightarrow> maintenance" where
  "finish_backfill outcome m =
     (case mt_task m of
        None \<Rightarrow> m
      | Some slot \<Rightarrow>
          m\<lparr>mt_task := None,
            mt_last_backfill := Some (case outcome of
                Inr (ok, processed, failed) \<Rightarrow> Result slot ok processed failed
              | Inl x \<Rightarrow> Note slot (''backfill_failed:'' @ exn_str x))\<rparr>)"

section \<open>Steps\<close>

inductive maint_step :: "maintenance \<Rightarrow> string option \<Rightarrow> maintenance \<Rightarrow> bool" where
  scheduled: "m' = schedule_post_market_backfill_if_due now has_runner loop_running m \<Longrightarrow>
     maint_step m (if mt_task m = None \<and> mt_task m' \<noteq> None then mt_task m' else None) m'"
| finished: "maint_step m None (finish_backfill r m)"
| refreshed: "maint_step m None (refresh_universe t m)"
| optimized: "maint_step m None (optimize_parameters t m)"
| aggregated: "maint_step m None (aggregate_daily_performance t m)"
| counted: "maint_step m None (set_ticker_counts a b c m)"

text \<open>A history of steps and the slots of the backfills it started.\<close>

inductive maint_run :: "string list \<Rightarrow> maintenance \<Rightarrow> bool" where
  init: "maint_run [] maintenance_init"
| step: "maint_run slots m \<Longrightarrow> maint_step m started m' \<Longrightarrow>
     maint_run (slots @ (case started of None \<Rightarrow> [] | Some s \<Rightarrow> [s])) m'"

text \<open>
  The invariant: a running task belongs to the last slot, and the last slot started is the last
  slot recorded unless a day without a loop or runner came later.
\<close>

definition maint_inv :: "maintenance \<Rightarrow> bool" where
  "maint_inv m \<longleftrightarrow> (\<forall>s. mt_task m = Some s \<longrightarrow> mt_last_slot m = Some s)"

lemma maint_step_inv: "maint_step m st m' \<Longrightarrow> maint_inv m \<Longrightarrow> maint_inv m'"
  by (induction rule: maint_step.induct)
     (auto simp: maint_inv_def schedule_post_market_backfill_if_due_def finish_backfill_def Let_def
        refresh_universe_def optimize_parameters_def aggregate_daily_performance_def set_ticker_counts_def
      split: if_splits option.splits)

lemma maint_run_inv: "maint_run slots m \<Longrightarrow> maint_inv m"
  by (induction rule: maint_run.induct) (auto simp: maint_inv_def maintenance_init_def dest: maint_step_inv [unfolded maint_inv_def])

text \<open>Once a day's backfill has been started it is not started again that day, even if it failed.\<close>

lemma no_second_backfill:
  assumes "mt_last_slot m = Some (date_str now)"
  shows "schedule_post_market_backfill_if_due now has_runner loop_running m = m"
  using assms by (simp add: schedule_post_market_backfill_if_due_def Let_def)

lemma started_backfill:
  assumes "mt_task m = None" "schedule_post_market_backfill_if_due now hr lr m = m'" "mt_task m' \<noteq> None"
  shows "mt_task m' = Some (date_str now)" "mt_last_slot m' = Some (date_str now)" "mt_last_slot m \<noteq> Some (date_str now)"
    "is_post_market_window now" "hr" "lr"
  using assms by (auto simp: schedule_post_market_backfill_if_due_def Let_def split: if_splits)

lemma finish_keeps_slot: "mt_last_slot (finish_backfill r m) = mt_last_slot m"
  by (simp add: finish_backfill_def split: option.splits)

end
