(* ===== verification/Time_Sync.thy ===== *)
theory Time_Sync
  imports Py_Datetime
begin

text \<open>
  \<open>app/core/time_sync.py\<close>: the offset to the server's clock and the once-a-day pre-market
  synchronisation. An instant is read as a civil time by the server's zone, the parameter
  \<open>civil\<close>; offsets are microseconds. The provider of the server time may raise.
\<close>

record sync_params =
  sp_hour :: nat
  sp_minute :: nat
  sp_window :: nat
  sp_retry :: int

definition default_sync_params :: sync_params where
  "default_sync_params = \<lparr>sp_hour = 7, sp_minute = 50, sp_window = 10, sp_retry = 30\<rparr>"

record time_sync =
  ts_offset :: int
  ts_last_synced_date :: "string option"
  ts_last_attempt :: "instant option"

definition time_sync_init :: time_sync where
  "time_sync_init = \<lparr>ts_offset = 0, ts_last_synced_date = None, ts_last_attempt = None\<rparr>"

type_synonym 'e server_time_fn = "'e \<Rightarrow> instant py \<times> 'e"

section \<open>The code\<close>

definition sync_offset_seconds ::
  "(instant \<Rightarrow> datetime) \<Rightarrow> 'e server_time_fn \<Rightarrow> instant \<Rightarrow> time_sync \<times> 'e \<Rightarrow> int py \<times> time_sync \<times> 'e" where
  "sync_offset_seconds civil provider local_now s =
     (case s of (ts, e) \<Rightarrow>
      (case provider e of
         (Inl x, e') \<Rightarrow> (Inl x, ts, e')
       | (Inr server_now, e') \<Rightarrow>
           (let off = server_now - local_now
            in (Inr off, \<lparr>ts_offset = off, ts_last_synced_date = Some (date_str (civil local_now)),
                          ts_last_attempt = Some local_now\<rparr>, e'))))"

definition aligned_now :: "instant \<Rightarrow> time_sync \<Rightarrow> instant" where
  "aligned_now now ts = now + ts_offset ts"

definition in_pre_market_sync_window :: "sync_params \<Rightarrow> datetime \<Rightarrow> bool" where
  "in_pre_market_sync_window p d \<longleftrightarrow>
     (let current = dt_hour d * 60 + dt_minute d; start = sp_hour p * 60 + sp_minute p
      in start \<le> current \<and> current < start + sp_window p)"

definition sync_if_due_pre_market ::
  "sync_params \<Rightarrow> (instant \<Rightarrow> datetime) \<Rightarrow> 'e server_time_fn \<Rightarrow> instant \<Rightarrow> time_sync \<times> 'e
     \<Rightarrow> int option py \<times> time_sync \<times> 'e" where
  "sync_if_due_pre_market p civil provider now s =
     (case s of (ts, e) \<Rightarrow>
        if \<not> in_pre_market_sync_window p (civil now) then (Inr None, ts, e)
        else if ts_last_synced_date ts = Some (date_str (civil now)) then (Inr (Some (ts_offset ts)), ts, e)
        else if (case ts_last_attempt ts of None \<Rightarrow> False | Some t \<Rightarrow> now - t < seconds (max (sp_retry p) 1))
        then (Inr None, ts, e)
        else
          (case sync_offset_seconds civil provider now (ts\<lparr>ts_last_attempt := Some now\<rparr>, e) of
             (Inl x, s') \<Rightarrow> (Inl x, s')
           | (Inr off, s') \<Rightarrow> (Inr (Some off), s')))"

section \<open>Facts\<close>

text \<open>After a synchronisation the aligned clock shows the server's time.\<close>

lemma sync_aligns:
  assumes "sync_offset_seconds civil provider now (ts, e) = (Inr off, ts', e')" "provider e = (Inr server_now, e2)"
  shows "aligned_now (now + d) ts' = server_now + d"
  using assms by (auto simp: sync_offset_seconds_def Let_def aligned_now_def)

lemma sync_error_keeps_offset:
  "sync_offset_seconds civil provider now (ts, e) = (Inl x, ts', e') \<Longrightarrow> ts' = ts"
  by (auto simp: sync_offset_seconds_def Let_def split: prod.splits sum.splits)

text \<open>The provider is asked at most once after a success on one date, and not sooner than the retry interval after a failure.\<close>

lemma no_second_sync:
  assumes "sync_if_due_pre_market p civil provider now (ts, e) = (Inr (Some off), ts', e')"
    and "date_str (civil now') = date_str (civil now)"
  shows "sync_if_due_pre_market p civil provider now' (ts', e'')
     \<in> {(Inr None, ts', e''), (Inr (Some off), ts', e'')}"
proof -
  have "ts_last_synced_date ts' = Some (date_str (civil now)) \<and> ts_offset ts' = off"
    using assms(1)
    by (auto simp: sync_if_due_pre_market_def sync_offset_seconds_def Let_def split: if_splits prod.splits sum.splits)
  then show ?thesis using assms(2) by (simp add: sync_if_due_pre_market_def)
qed

lemma failed_sync_waits:
  assumes "sync_if_due_pre_market p civil provider now (ts, e) = (Inl x, ts', e')"
    and "now' < now + seconds (max (sp_retry p) 1)" "ts_last_synced_date ts \<noteq> Some (date_str (civil now'))"
  shows "sync_if_due_pre_market p civil provider now' (ts', e'') = (Inr None, ts', e'')"
proof -
  have "ts_last_attempt ts' = Some now \<and> ts_last_synced_date ts' = ts_last_synced_date ts"
    using assms(1)
    by (auto simp: sync_if_due_pre_market_def sync_offset_seconds_def Let_def split: if_splits prod.splits sum.splits)
  then show ?thesis using assms(2,3) by (simp add: sync_if_due_pre_market_def)
qed

end
