(* ===== verification/Runtime_Factory.thy ===== *)
theory Runtime_Factory
  imports Market_Sources Universe_Repository Maintenance Time_Sync Loop_Runtime
begin

text \<open>
  \<open>app/services/runtime_factory.py\<close>: the tickers the loops follow, the post-market backfill, the
  connectivity check, and the bundle that wires the three loops, the providers and the
  repositories into one coordinator. The system state is the product of the components' states;
  the broker is a parameter: its state \<open>'b\<close> and its functions.
\<close>

section \<open>Tracked tickers\<close>

definition load_tracking_tickers ::
  "universe_db \<times> odb \<times> maintenance \<Rightarrow> string list \<times> universe_db \<times> odb \<times> maintenance" where
  "load_tracking_tickers s =
     (case s of (u, d, m) \<Rightarrow>
      (case list_trading_tickers 500 u of
         (Inl _, u1) \<Rightarrow> ([], u1, d, m)
       | (Inr trading, u1) \<Rightarrow>
           (case list_tracking_tickers 500 u1 of
              (Inl _, u2) \<Rightarrow> ([], u2, d, m)
            | (Inr tracking, u2) \<Rightarrow>
                (case list_universe_tickers 20000 u2 of
                   (Inl _, u3) \<Rightarrow> ([], u3, d, m)
                 | (Inr universe, u3) \<Rightarrow>
                     (case list_open_positions d of
                        (Inl _, d1) \<Rightarrow> ([], u3, d1, m)
                      | (Inr positions, d1) \<Rightarrow>
                          (let merged = sort (remdups (tracking @
                                 filter (\<lambda>t. t \<noteq> []) (map (\<lambda>p. py_strip (pos_ticker p)) positions)))
                           in (merged, u3, d1,
                               set_ticker_counts (int (length trading)) (int (length merged)) (int (length universe)) m)))))))"

section \<open>Post-market backfill\<close>

record backfill_report =
  bf_ok :: bool
  bf_ticker_count :: nat
  bf_failed :: nat
  bf_inserted :: nat
  bf_updated :: nat
  bf_errors :: "string list"

definition batch_of :: "candle list \<Rightarrow> batch_item list" where
  "batch_of cs = map (\<lambda>c. \<lparr>bi_time = Some (cd_ts c), bi_candle = c\<rparr>) cs"

text \<open>One ticker: any exception is its failure; what was stored before it stays.\<close>

definition backfill_one :: "'e fetch_fn \<Rightarrow> string \<Rightarrow> 'e \<times> candle_db \<Rightarrow> (nat \<times> nat) py \<times> 'e \<times> candle_db" where
  "backfill_one fetch ticker s =
     (case s of (e, d) \<Rightarrow>
      (case get_last_candle_time ticker ''1d'' d of
         (Inl x, d1) \<Rightarrow> (Inl x, e, d1)
       | (Inr since, d1) \<Rightarrow>
           (case fetch ticker ''1d'' since (e, d1) of
              (Inl x, s2) \<Rightarrow> (Inl x, s2)
            | (Inr candles, e2, d2) \<Rightarrow>
                if candles = [] then (Inr (0, 0), e2, d2)
                else (case upsert_batch ticker ''1d'' (batch_of candles) d2 of (r, d3) \<Rightarrow> (r, e2, d3)))))"

fun backfill_all :: "'e fetch_fn \<Rightarrow> string list \<Rightarrow> backfill_report \<Rightarrow> 'e \<times> candle_db \<Rightarrow> backfill_report \<times> 'e \<times> candle_db" where
  "backfill_all fetch [] rep s = (rep, s)"
| "backfill_all fetch (t # ts) rep s =
     (case backfill_one fetch t s of
        (Inr (i, u), s') \<Rightarrow>
          backfill_all fetch ts (rep\<lparr>bf_inserted := bf_inserted rep + i, bf_updated := bf_updated rep + u\<rparr>) s'
      | (Inl x, s') \<Rightarrow>
          backfill_all fetch ts
            (rep\<lparr>bf_failed := bf_failed rep + 1,
                 bf_errors := (if length (bf_errors rep) < 20 then bf_errors rep @ [t @ '':'' @ exn_str x] else bf_errors rep)\<rparr>) s')"

definition run_post_market_daily_backfill ::
  "'e fetch_fn \<Rightarrow> universe_db \<times> 'e \<times> candle_db \<Rightarrow> backfill_report \<times> universe_db \<times> 'e \<times> candle_db" where
  "run_post_market_daily_backfill fetch s =
     (case s of (u, e, d) \<Rightarrow>
      (case list_universe_tickers 20000 u of
         (Inl x, u1) \<Rightarrow>
           (\<lparr>bf_ok = False, bf_ticker_count = 0, bf_failed = 0, bf_inserted = 0, bf_updated = 0, bf_errors = []\<rparr>, u1, e, d)
       | (Inr tickers, u1) \<Rightarrow>
           (case backfill_all fetch tickers
                   \<lparr>bf_ok = True, bf_ticker_count = length tickers, bf_failed = 0, bf_inserted = 0, bf_updated = 0,
                    bf_errors = []\<rparr> (e, d) of
              (rep, e1, d1) \<Rightarrow> (rep\<lparr>bf_ok := (bf_failed rep = 0)\<rparr>, u1, e1, d1))))"

text \<open>\<open>success_rate\<close>, before rounding: the share of tickers without a failure, one if there are none.\<close>

definition success_rate :: "backfill_report \<Rightarrow> real" where
  "success_rate rep =
     (if bf_ticker_count rep > 0
      then real (nat (max (int (bf_ticker_count rep) - int (bf_failed rep)) 0)) / real (bf_ticker_count rep) else 1)"

section \<open>Connectivity check\<close>

record connectivity =
  cc_ok :: bool
  cc_token_ok :: bool
  cc_server_time_ok :: bool
  cc_price_ok :: bool
  cc_price :: "real option"
  cc_price_ticker :: "string option"

definition run_live_connectivity_check ::
  "('b \<Rightarrow> string py \<times> 'b) \<Rightarrow> ('b \<Rightarrow> instant py \<times> 'b) \<Rightarrow> 'b market_price_fn \<Rightarrow> string \<Rightarrow> 'b \<Rightarrow> connectivity \<times> 'b" where
  "run_live_connectivity_check token server_time market target b =
     (let (t, b1) = token b;
          (st, b2) = server_time b1;
          (p, b3) = market target b2;
          tok_ok = (case t of Inr tk \<Rightarrow> tk \<noteq> [] | Inl _ \<Rightarrow> False);
          no_exn = (\<not> isl t \<and> \<not> isl st);
          rec0 = \<lparr>cc_ok = no_exn, cc_token_ok = tok_ok, cc_server_time_ok = \<not> isl st, cc_price_ok = False,
                  cc_price = None, cc_price_ticker = None\<rparr>
      in case p of
           Inl _ \<Rightarrow> (rec0\<lparr>cc_ok := False\<rparr>, b3)
         | Inr price \<Rightarrow>
             if price \<le> 0 \<and> target \<noteq> ''005930''
             then (case market ''005930'' b3 of
                     (Inl _, b4) \<Rightarrow> (rec0\<lparr>cc_ok := False\<rparr>, b4)
                   | (Inr fp, b4) \<Rightarrow>
                       if fp > 0
                       then (rec0\<lparr>cc_price_ok := True, cc_price := Some fp, cc_price_ticker := Some ''005930''\<rparr>, b4)
                       else (rec0\<lparr>cc_ok := False, cc_price := Some price, cc_price_ticker := Some target\<rparr>, b4))
             else (rec0\<lparr>cc_ok := no_exn \<and> price > 0, cc_price_ok := price > 0, cc_price := Some price,
                        cc_price_ticker := Some target\<rparr>, b3))"

section \<open>The bundle\<close>

text \<open>What the broker offers: orders, order status, prices, candles, its clock.\<close>

record 'b broker =
  br_place :: "'b place_fn"
  br_status :: "'b status_fn"
  br_price :: "'b market_price_fn"
  br_candles :: "'b market_candles_fn"
  br_server_time :: "'b server_time_fn"

text \<open>In paper mode the orders go to the paper gateway, whose counter is part of the state.\<close>

datatype mode = Live | Paper

definition mode_of :: "string \<Rightarrow> mode" where
  "mode_of trading_mode = (if py_lower trading_mode = ''live'' then Live else Paper)"

type_synonym 'b venue = "paper_gateway \<times> 'b"

definition venue_place :: "mode \<Rightarrow> 'b broker \<Rightarrow> ('b venue) place_fn" where
  "venue_place md br req s =
     (case s of (n, b) \<Rightarrow>
        (case md of
           Live \<Rightarrow> (case br_place br req b of (r, b') \<Rightarrow> (r, n, b'))
         | Paper \<Rightarrow> (case paper_place_order req n of (r, n') \<Rightarrow> (r, n', b))))"

definition venue_status :: "mode \<Rightarrow> 'b broker \<Rightarrow> ('b venue) status_fn" where
  "venue_status md br oid s =
     (case s of (n, b) \<Rightarrow>
        (case md of
           Live \<Rightarrow> (case br_status br oid b of (r, b') \<Rightarrow> (r, n, b'))
         | Paper \<Rightarrow> (case paper_get_order_status oid n of (r, n') \<Rightarrow> (r, n', b))))"

definition venue_price :: "'b broker \<Rightarrow> ('b venue) market_price_fn" where
  "venue_price br t s = (case s of (n, b) \<Rightarrow> (case br_price br t b of (r, b') \<Rightarrow> (r, n, b')))"

definition venue_candles :: "'b broker \<Rightarrow> ('b venue) market_candles_fn" where
  "venue_candles br t f l s = (case s of (n, b) \<Rightarrow> (case br_candles br t f l b of (r, b') \<Rightarrow> (r, n, b')))"

text \<open>Orders do not touch the candle table and the error count of the live environment.\<close>

definition on_venue :: "('v \<Rightarrow> 'r \<times> 'v) \<Rightarrow> 'v live \<Rightarrow> 'r \<times> 'v live" where
  "on_venue f s = (case s of ((v, n), d) \<Rightarrow> (case f v of (r, v') \<Rightarrow> (r, (v', n), d)))"

record 'b system =
  ss_venue :: "'b venue \<times> nat"
  ss_candles :: candle_db
  ss_safety :: safety
  ss_odb :: odb
  ss_queue :: queue
  ss_slots :: "string \<times> string \<Rightarrow> string option"
  ss_universe :: universe_db
  ss_maint :: maintenance
  ss_sync :: time_sync

record wiring =
  wi_mode :: mode
  wi_config :: config
  wi_civil :: "instant \<Rightarrow> datetime"
  wi_strategies :: "strategy list"

definition wired_loop_a :: "'b broker \<Rightarrow> wiring \<Rightarrow> instant \<Rightarrow> 'b system \<Rightarrow> loop_a_result py \<times> 'b system" where
  "wired_loop_a br wi now s =
     (case loop_a_run_once (\<lambda>req. on_venue (venue_place (wi_mode wi) br req)) (\<lambda>oid. on_venue (venue_status (wi_mode wi) br oid))
             (live_price (venue_price br)) db_atr (Some (wi_config wi)) (Fin (3 / 2)) now
             (ss_queue s, (ss_venue s, ss_candles s), Some (ss_safety s), ss_odb s) of
        (r, q, (v, d), sf, o') \<Rightarrow>
          (r, s\<lparr>ss_queue := q, ss_venue := v, ss_candles := d,
                ss_safety := (case sf of None \<Rightarrow> ss_safety s | Some x \<Rightarrow> x), ss_odb := o'\<rparr>))"

definition wired_hook :: "'b broker \<Rightarrow> wiring \<Rightarrow> instant \<Rightarrow> 'b system \<Rightarrow> unit py \<times> 'b system" where
  "wired_hook br wi now s =
     (case ss_venue s of ((k, b), n) \<Rightarrow>
      (case sync_if_due_pre_market default_sync_params (wi_civil wi) (br_server_time br) now (ss_sync s, b) of
         (r, ts, b') \<Rightarrow> (map_sum (\<lambda>x. x) (\<lambda>_. ()) r, s\<lparr>ss_sync := ts, ss_venue := ((k, b'), n)\<rparr>)))"

definition wired_tickers :: "'b system \<Rightarrow> string list py \<times> 'b system" where
  "wired_tickers s =
     (case load_tracking_tickers (ss_universe s, ss_odb s, ss_maint s) of
        (ts, u, d, m) \<Rightarrow> (Inr ts, s\<lparr>ss_universe := u, ss_odb := d, ss_maint := m\<rparr>))"

definition wired_loop_b :: "'b broker \<Rightarrow> wiring \<Rightarrow> instant \<Rightarrow> string \<Rightarrow> 'b system \<Rightarrow> nat py \<times> 'b system" where
  "wired_loop_b br wi now ticker s =
     (case run_once_for_ticker (resilient_fetch (venue_candles br) 1) (wi_strategies wi)
             (wi_civil wi (aligned_now now (ss_sync s))) ticker
             \<lparr>lb_env = ss_venue s, lb_candles = ss_candles s, lb_queue = ss_queue s, lb_slots = ss_slots s\<rparr> of
        (r, lb) \<Rightarrow> (r, s\<lparr>ss_venue := lb_env lb, ss_candles := lb_candles lb, ss_queue := lb_queue lb, ss_slots := lb_slots lb\<rparr>))"

definition wired_loop_c :: "wiring \<Rightarrow> instant \<Rightarrow> 'b system \<Rightarrow> unit py \<times> 'b system" where
  "wired_loop_c wi now s =
     (Inr (), s\<lparr>ss_maint := maintainer_run_once
        (Some (schedule_post_market_backfill_if_due (wi_civil wi now) True True))
        (refresh_universe now) (optimize_parameters now) (aggregate_daily_performance now) (ss_maint s)\<rparr>)"

definition wired_env :: "'b broker \<Rightarrow> wiring \<Rightarrow> instant \<Rightarrow> 'b system cycle_env" where
  "wired_env br wi now =
     \<lparr>en_loop_a = wired_loop_a br wi now, en_hook = Some (wired_hook br wi now), en_tickers = wired_tickers,
      en_loop_b = wired_loop_b br wi now, en_loop_c = wired_loop_c wi now,
      en_critical = (\<lambda>c m s. s\<lparr>ss_safety := critical now c m (ss_safety s)\<rparr>), en_interval = 30\<rparr>"

section \<open>Facts about the tickers and the backfill\<close>

lemma load_tracking_covers_positions:
  assumes "load_tracking_tickers (u, d, m) = (ts, u', d', m')" "ts \<noteq> []" "p \<in> set (od_positions d)"
    "pos_state p \<noteq> ''CLOSED''" "py_strip (pos_ticker p) \<noteq> []"
  shows "py_strip (pos_ticker p) \<in> set ts"
proof -
  obtain r1 u1 where 1: "list_trading_tickers 500 u = (r1, u1)" by fastforce
  obtain r2 u2 where 2: "list_tracking_tickers 500 u1 = (r2, u2)" by fastforce
  obtain r3 u3 where 3: "list_universe_tickers 20000 u2 = (r3, u3)" by fastforce
  obtain r4 d4 where 4: "list_open_positions d = (r4, d4)" by fastforce
  have "\<exists>tr. r2 = Inr tr \<and> (\<exists>ps. r4 = Inr ps \<and>
      ts = sort (remdups (tr @ filter (\<lambda>t. t \<noteq> []) (map (\<lambda>p. py_strip (pos_ticker p)) ps))))"
    using assms(1,2) 1 2 3 4
    by (cases r1; cases r2; cases r3; cases r4) (auto simp: load_tracking_tickers_def Let_def)
  then obtain tr ps where r4: "r4 = Inr ps"
    and ts: "ts = sort (remdups (tr @ filter (\<lambda>t. t \<noteq> []) (map (\<lambda>p. py_strip (pos_ticker p)) ps)))" by blast
  have "p \<in> set ps" using list_open_positions_Inr [OF 4 [unfolded r4]] assms(3,4) by simp
  then show ?thesis using ts assms(5) by auto
qed

lemma load_tracking_frame:
  assumes "load_tracking_tickers (u, d, m) = (ts, u', d', m')"
  shows "un_rows u' = un_rows u" "d' = d \<or> d' = tick d" "sorted ts" "distinct ts"
proof -
  obtain r1 u1 where 1: "list_trading_tickers 500 u = (r1, u1)" by fastforce
  obtain r2 u2 where 2: "list_tracking_tickers 500 u1 = (r2, u2)" by fastforce
  obtain r3 u3 where 3: "list_universe_tickers 20000 u2 = (r3, u3)" by fastforce
  obtain r4 d4 where 4: "list_open_positions d = (r4, d4)" by fastforce
  have u: "u1 = un_tick u" "u2 = un_tick u1" "u3 = un_tick u2"
    using select_tickers_frame [OF 1 [unfolded list_trading_tickers_def]]
      select_tickers_frame [OF 2 [unfolded list_tracking_tickers_def]]
      select_tickers_frame [OF 3 [unfolded list_universe_tickers_def]] by simp_all
  have d4: "d4 = tick d" using 4 by (auto simp: list_open_positions_def split: if_splits)
  note run = assms [unfolded load_tracking_tickers_def prod.case 1 2 3 4]
  consider "ts = []" "u' \<in> {u1, u2, u3}" "d' = d \<or> d' = d4"
    | tr and ps :: "position_row list" where "ts = sort (remdups (tr @ filter (\<lambda>t. t \<noteq> []) (map (\<lambda>p. py_strip (pos_ticker p)) ps)))" "u' = u3" "d' = d4"
  proof (cases r1)
    case (Inl x)
    with run show thesis by (intro that(1)) simp_all
  next
    case r1: (Inr tr1)
    show thesis
    proof (cases r2)
      case (Inl x)
      with run r1 show thesis by (intro that(1)) simp_all
    next
      case r2: (Inr tr2)
      show thesis
      proof (cases r3)
        case (Inl x)
        with run r1 r2 show thesis by (intro that(1)) simp_all
      next
        case r3: (Inr tr3)
        show thesis
        proof (cases r4)
          case (Inl x)
          with run r1 r2 r3 show thesis by (intro that(1)) simp_all
        next
          case (Inr ps)
          with run r1 r2 r3 show thesis by (intro that(2) [of tr2 ps]) (simp_all add: Let_def)
        qed
      qed
    qed
  qed
  then have "u' \<in> {u1, u2, u3} \<and> (d' = d \<or> d' = d4) \<and> sorted ts \<and> distinct ts"
    by cases simp_all
  then show "un_rows u' = un_rows u" "d' = d \<or> d' = tick d" "sorted ts" "distinct ts" using u d4 by auto
qed

context candle_source
begin

lemma backfill_one_inv:
  assumes "backfill_one fetch t (e, d) = (r, e', d')" "candles_inv d"
  shows "candles_inv d'"
proof -
  obtain r1 d1 where g: "get_last_candle_time t ''1d'' d = (r1, d1)" by fastforce
  obtain r2 e2 d2 where f: "fetch t ''1d'' (projr r1) (e, d1) = (r2, e2, d2)" by (rule prod_cases3)
  obtain r3 d3 where u: "upsert_batch t ''1d'' (batch_of (projr r2)) d2 = (r3, d3)" by fastforce
  have i: "candles_inv d1" "candles_inv d2" "candles_inv d3"
    using get_last_inv [OF g] fetch_reads [OF f] assms(2) upsert_batch_inv [OF _ u] by (auto simp: candles_inv_def)
  have "d' \<in> {d1, d2, d3}"
    using assms(1) g f u by (cases r1; cases r2) (auto simp: backfill_one_def split: if_splits)
  then show ?thesis using i by auto
qed

lemma backfill_all_inv:
  "backfill_all fetch ts rep (e, d) = (rep', e', d') \<Longrightarrow> candles_inv d \<Longrightarrow> candles_inv d'"
proof (induction ts arbitrary: rep e d)
  case (Cons t ts)
  obtain r e1 d1 where one: "backfill_one fetch t (e, d) = (r, e1, d1)" by (rule prod_cases3)
  have "candles_inv d1" using backfill_one_inv [OF one Cons.prems(2)] .
  then show ?case using Cons.prems(1) Cons.IH one by (cases r) auto
qed simp

end

lemma backfill_all_counts:
  "backfill_all fetch ts rep s = (rep', s') \<Longrightarrow>
     bf_failed rep \<le> bf_failed rep' \<and> bf_failed rep' \<le> bf_failed rep + length ts \<and>
     bf_ticker_count rep' = bf_ticker_count rep \<and>
     (length (bf_errors rep) \<le> 20 \<longrightarrow> length (bf_errors rep') \<le> 20)"
proof (induction ts arbitrary: rep s)
  case (Cons t ts)
  obtain r s1 where one: "backfill_one fetch t s = (r, s1)" by (rule prod.exhaust)
  show ?case
  proof (cases r)
    case (Inl x)
    then have "backfill_all fetch ts (rep\<lparr>bf_failed := bf_failed rep + 1,
        bf_errors := (if length (bf_errors rep) < 20 then bf_errors rep @ [t @ '':'' @ exn_str x] else bf_errors rep)\<rparr>) s1
        = (rep', s')" using Cons.prems one by simp
    from Cons.IH [OF this] show ?thesis by (auto split: if_splits)
  next
    case (Inr iu)
    then have "backfill_all fetch ts (rep\<lparr>bf_inserted := bf_inserted rep + fst iu, bf_updated := bf_updated rep + snd iu\<rparr>) s1
        = (rep', s')" using Cons.prems one by (simp split: prod.splits)
    from Cons.IH [OF this] show ?thesis by simp
  qed
qed simp

section \<open>The wired system keeps its invariants\<close>

definition system_inv :: "'b system \<Rightarrow> bool" where
  "system_inv s \<longleftrightarrow> odb_inv (ss_odb s) \<and> candles_inv (ss_candles s) \<and> universe_inv (ss_universe s) \<and> safety_inv (ss_safety s)"

text \<open>The wired order venue, prices and candles leave the candle rows alone.\<close>

interpretation wired: loop_a_env
  "\<lambda>req. on_venue (venue_place md br req)" "\<lambda>oid. on_venue (venue_status md br oid)" "\<lambda>(v, d). candles_inv d"
  "live_price (venue_price br)" db_atr
proof unfold_locales
  fix e e' :: "'a venue live" and req x
  assume "case e of (v, d) \<Rightarrow> candles_inv d" "on_venue (venue_place md br req) e = (x, e')"
  then show "case e' of (v, d) \<Rightarrow> candles_inv d" by (auto simp: on_venue_def split: prod.splits)
next
  fix e e' :: "'a venue live" and oid y
  assume "case e of (v, d) \<Rightarrow> candles_inv d" "on_venue (venue_status md br oid) e = (y, e')"
  then show "case e' of (v, d) \<Rightarrow> candles_inv d" by (auto simp: on_venue_def split: prod.splits)
next
  fix e e' :: "'a venue live" and t x
  assume "case e of (v, d) \<Rightarrow> candles_inv d" "live_price (venue_price br) t e = (x, e')"
  then show "case e' of (v, d) \<Rightarrow> candles_inv d"
    using live_price_reads by (cases e; cases e') (fastforce simp: candles_inv_def)
next
  fix e e' :: "'a venue live" and t s x
  assume "case e of (v, d) \<Rightarrow> candles_inv d" "db_atr t s e = (x, e')"
  then show "case e' of (v, d) \<Rightarrow> candles_inv d"
    using db_atr_reads by (cases e; cases e') (fastforce simp: candles_inv_def)
qed

lemma wired_loop_a_inv:
  assumes "wired_loop_a br wi now s = (r, s')" "system_inv s"
  shows "system_inv s'"
proof -
  obtain r1 q e sf o' where run: "loop_a_run_once (\<lambda>req. on_venue (venue_place (wi_mode wi) br req))
      (\<lambda>oid. on_venue (venue_status (wi_mode wi) br oid)) (live_price (venue_price br)) db_atr (Some (wi_config wi)) (Fin (3 / 2)) now
      (ss_queue s, (ss_venue s, ss_candles s), Some (ss_safety s), ss_odb s) = (r1, q, e, sf, o')"
    by (rule prod_cases5)
  obtain v d where e: "e = (v, d)" by fastforce
  have "odb_inv o'" using loop_a_inv [OF run] assms(2) by (simp add: system_inv_def)
  moreover have "candles_inv d"
    using wired.loop_a_ginv [OF run] assms(2) e by (simp add: system_inv_def)
  moreover have "pred_option safety_inv sf"
    using journal.loop_a_safety [OF run] assms(2) by (simp add: system_inv_def)
  moreover have "s' = s\<lparr>ss_queue := q, ss_venue := v, ss_candles := d,
      ss_safety := (case sf of None \<Rightarrow> ss_safety s | Some x \<Rightarrow> x), ss_odb := o'\<rparr>"
    using assms(1) run e by (simp add: wired_loop_a_def)
  ultimately show ?thesis using assms(2) by (auto simp: system_inv_def split: option.splits)
qed

lemma wired_hook_inv: "wired_hook br wi now s = (r, s') \<Longrightarrow> system_inv s \<Longrightarrow> system_inv s'"
  by (auto simp: wired_hook_def system_inv_def split: prod.splits)

lemma wired_tickers_inv:
  assumes "wired_tickers s = (r, s')" "system_inv s"
  shows "system_inv s'"
proof -
  obtain ts u d m where l: "load_tracking_tickers (ss_universe s, ss_odb s, ss_maint s) = (ts, u, d, m)"
    by (rule prod_cases4)
  then have "s' = s\<lparr>ss_universe := u, ss_odb := d, ss_maint := m\<rparr>" using assms(1) by (simp add: wired_tickers_def)
  then show ?thesis using load_tracking_frame(1,2) [OF l] assms(2)
    by (auto simp: system_inv_def universe_inv_def)
qed

lemma wired_loop_b_inv:
  assumes "wired_loop_b br wi now t s = (r, s')" "system_inv s"
  shows "system_inv s'"
proof -
  let ?lb = "\<lparr>lb_env = ss_venue s, lb_candles = ss_candles s, lb_queue = ss_queue s, lb_slots = ss_slots s\<rparr>"
  obtain r1 lb where run: "run_once_for_ticker (resilient_fetch (venue_candles br) 1) (wi_strategies wi)
      (wi_civil wi (aligned_now now (ss_sync s))) t ?lb = (r1, lb)" by fastforce
  have "candles_inv (lb_candles lb)"
    using live.run_due_effect(2) [OF run [unfolded run_once_for_ticker_def]] assms(2) by (simp add: system_inv_def)
  then show ?thesis using assms run by (auto simp: wired_loop_b_def system_inv_def)
qed

lemma wired_loop_c_inv: "wired_loop_c wi now s = (r, s') \<Longrightarrow> system_inv s \<Longrightarrow> system_inv s'"
  by (auto simp: wired_loop_c_def system_inv_def)

lemma wired_cycle_inv:
  assumes "run_cycle (wired_env br wi now) ck (co, s) = (rep, co', s')" "system_inv s"
  shows "system_inv s'"
  by (rule run_cycle_inv [where P = system_inv, OF _ _ _ _ _ _ assms(2,1)])
     (auto simp: wired_env_def wired_loop_a_inv wired_hook_inv wired_tickers_inv wired_loop_b_inv wired_loop_c_inv,
      auto simp: system_inv_def critical_inv)

text \<open>With a validated configuration Loop A of the wired system never raises.\<close>

lemma wired_loop_a_Inr:
  assumes "config_inv (wi_config wi)" "config_get ''trail_atr_mult'' (wi_config wi) = Inr v" "system_inv s"
  shows "\<exists>res. fst (wired_loop_a br wi now s) = Inr res \<and> closed_positions res + failed_close_orders res \<le> monitored_positions res"
proof -
  have cfg: "case Some (wi_config wi) of None \<Rightarrow> True | Some c \<Rightarrow> config_inv c \<and> config_get ''trail_atr_mult'' c = Inr v"
    using assms(1,2) by simp
  have "odb_inv (ss_odb s)" using assms(3) by (simp add: system_inv_def)
  from loop_a_Inr [OF sources_answer resolve_trail_Inr [OF cfg] this,
      of "\<lambda>req. on_venue (venue_place (wi_mode wi) br req)" "\<lambda>oid. on_venue (venue_status (wi_mode wi) br oid)"
        "venue_price br" "Fin (3 / 2)" now "ss_queue s" "(ss_venue s, ss_candles s)" "Some (ss_safety s)"]
  show ?thesis by (auto simp: wired_loop_a_def split: prod.splits)
qed

section \<open>Properties\<close>

text \<open>
  C6: whatever fails, the database, the broker, its prices, bars or clock, a cycle of the wired
  runtime keeps the whole system well formed: the ordering tables, the unique bars, the unique
  symbols and the journal of events.
\<close>

theorem cycle_keeps_the_system_well_formed:
  assumes "system_inv s"
  shows "system_inv (snd (snd (run_cycle (wired_env br wi now) ck (co, s))))"
proof -
  obtain rep co' s' where "run_cycle (wired_env br wi now) ck (co, s) = (rep, co', s')" by (rule prod_cases3)
  with wired_cycle_inv [OF this assms] show ?thesis by simp
qed

definition dead_broker :: "unit broker" where
  "dead_broker = \<lparr>br_place = (\<lambda>r b. (Inl (OtherError ''down''), b)), br_status = (\<lambda>i b. (Inl (OtherError ''down''), b)),
     br_price = (\<lambda>t b. (Inl (OtherError ''down''), b)), br_candles = (\<lambda>t f l b. (Inl (OtherError ''down''), b)),
     br_server_time = (\<lambda>b. (Inl (OtherError ''down''), b))\<rparr>"

definition sample_wiring :: wiring where
  "sample_wiring = \<lparr>wi_mode = Live, wi_config = default_values, wi_civil = (\<lambda>_. sample_time 9 0), wi_strategies = []\<rparr>"

definition sample_system :: "fault_plan \<Rightarrow> unit system" where
  "sample_system faults = \<lparr>ss_venue = ((0, ()), 0), ss_candles = sample_candles, ss_safety = safety_init False 200,
     ss_odb = odb_init faults, ss_queue = [], ss_slots = (\<lambda>_. None),
     ss_universe = \<lparr>un_rows = [], un_faults = faults\<rparr>, ss_maint = maintenance_init, ss_sync = time_sync_init\<rparr>"

lemma sample_system_inv: "system_inv (sample_system fs)"
  by (simp add: system_inv_def sample_system_def odb_inv_def odb_init_def keys_ok_def candles_inv_def sample_candles_def
      universe_inv_def safety_inv_def safety_init_def)

theorem cycle_keeps_the_system_well_formed_witness:
  "system_inv (snd (snd (run_cycle (wired_env dead_broker sample_wiring 5)
     \<lparr>ck_started = sample_time 9 0, ck_mono_start = 1, ck_slot_now = sample_time 9 0, ck_mono_end = 3, ck_completed = sample_time 9 0\<rparr>
     (coordinator_init, sample_system [True, False, True]))))"
  by (rule cycle_keeps_the_system_well_formed [OF sample_system_inv])

text \<open>
  When the tickers to follow could be read, they include the ticker of every position that is
  not closed, each once and in order.
\<close>

theorem tracked_tickers_cover_open_positions:
  assumes "load_tracking_tickers (u, d, m) = (ts, u', d', m')" "ts \<noteq> []"
  shows "sorted ts \<and> distinct ts \<and>
    (\<forall>p\<in>set (od_positions d). pos_state p \<noteq> ''CLOSED'' \<and> py_strip (pos_ticker p) \<noteq> [] \<longrightarrow> py_strip (pos_ticker p) \<in> set ts)"
  using load_tracking_frame(3,4) [OF assms(1)] load_tracking_covers_positions [OF assms] by blast


theorem tracked_tickers_cover_open_positions_witness:
  "\<exists>ts u' d' m'. load_tracking_tickers (\<lparr>un_rows = [], un_faults = []\<rparr>, snd (open_position 1 None ''B'' ''1'' 5 4 6 1 (odb_init [])), maintenance_init)
     = (ts, u', d', m') \<and> ''B'' \<in> set ts"
proof -
  obtain ts u' d' m' where run: "load_tracking_tickers (\<lparr>un_rows = [], un_faults = []\<rparr>,
      snd (open_position 1 None ''B'' ''1'' 5 4 6 1 (odb_init [])), maintenance_init) = (ts, u', d', m')"
    by (rule prod_cases4)
  have s: "py_strip ''B'' = ''B''" by (simp add: py_strip_def py_isspace_def ch_code_def)
  have ts: "ts = [''B'']" using run s
    by (simp add: load_tracking_tickers_def list_trading_tickers_def list_tracking_tickers_def list_universe_tickers_def
        select_tickers_def stmt_fails_def un_tick_def list_open_positions_def open_position_def odb_init_def tick_def Let_def)
  from tracked_tickers_cover_open_positions [OF run] ts s run show ?thesis by auto
qed

end
