(* ===== verification/Kiwoom_Gateway.thy ===== *)
theory Kiwoom_Gateway
  imports Trading_Service
begin

text \<open>
  The broker adapter: \<open>app/integrations/kiwoom/schema.py\<close> (reading a response), \<open>gateway.py\<close> (orders
  and their status) and the token handling of \<open>client.py\<close>. A response is JSON; the transport, which
  is not code of the repository, is a function over an environment that may raise. The order
  gateway is the second interpretation of \<open>order_gateway\<close>.
\<close>

section \<open>JSON values\<close>

datatype json =
    JNull | JBool bool | JInt int | JFloat pyfloat | JStr string | JList "json list" | JObj "(string \<times> json) list"

type_synonym dict = "(string \<times> json) list"

text \<open>
  \<open>bool(x)\<close> and \<open>str(x)\<close>. The text of a float or a container is the parameter \<open>fmt\<close>: a text that is
  never empty, as its first character and the rest.
\<close>

type_synonym json_text = "json \<Rightarrow> char \<times> string"

fun json_truthy :: "json \<Rightarrow> bool" where
  "json_truthy JNull = False"
| "json_truthy (JBool b) = b"
| "json_truthy (JInt i) = (i \<noteq> 0)"
| "json_truthy (JFloat x) = (x \<noteq> Fin 0)"
| "json_truthy (JStr s) = (s \<noteq> [])"
| "json_truthy (JList xs) = (xs \<noteq> [])"
| "json_truthy (JObj kvs) = (kvs \<noteq> [])"

fun json_str :: "json_text \<Rightarrow> json \<Rightarrow> string" where
  "json_str fmt JNull = ''None''"
| "json_str fmt (JBool b) = (if b then ''True'' else ''False'')"
| "json_str fmt (JInt i) = show_int i"
| "json_str fmt (JStr s) = s"
| "json_str fmt v = (case fmt v of (c, cs) \<Rightarrow> c # cs)"

section \<open>schema.py\<close>

fun present :: "json \<Rightarrow> bool" where
  "present JNull = False"
| "present (JStr s) = (py_strip s \<noteq> [])"
| "present _ = True"

fun first_present :: "string list \<Rightarrow> dict \<Rightarrow> json option" where
  "first_present [] data = None"
| "first_present (k # ks) data =
     (case map_of data k of
        Some v \<Rightarrow> if present v then Some v else first_present ks data
      | None \<Rightarrow> first_present ks data)"

definition container_keys :: "string list" where
  "container_keys = [''output'', ''output1'', ''output2'', ''data'', ''result'']"

fun in_containers :: "(dict \<Rightarrow> 'a option) \<Rightarrow> string list \<Rightarrow> dict \<Rightarrow> 'a option" where
  "in_containers f [] data = None"
| "in_containers f (k # ks) data =
     (case map_of data k of
        Some (JObj nested) \<Rightarrow> (case f nested of Some v \<Rightarrow> Some v | None \<Rightarrow> in_containers f ks data)
      | _ \<Rightarrow> in_containers f ks data)"

definition first_non_empty :: "dict \<Rightarrow> string list \<Rightarrow> bool \<Rightarrow> json option" where
  "first_non_empty data keys deep =
     (case first_present keys data of
        Some v \<Rightarrow> Some v
      | None \<Rightarrow> if deep then in_containers (first_present keys) container_keys data else None)"

definition objects_of :: "json list \<Rightarrow> dict list" where
  "objects_of xs = List.map_filter (\<lambda>x. case x of JObj d \<Rightarrow> Some d | _ \<Rightarrow> None) xs"

fun first_list_in :: "string list \<Rightarrow> dict \<Rightarrow> dict list option" where
  "first_list_in [] data = None"
| "first_list_in (k # ks) data =
     (case map_of data k of Some (JList xs) \<Rightarrow> Some (objects_of xs) | _ \<Rightarrow> first_list_in ks data)"

definition first_list :: "dict \<Rightarrow> string list \<Rightarrow> dict list" where
  "first_list data keys =
     (case first_list_in keys data of
        Some rows \<Rightarrow> rows
      | None \<Rightarrow> (case in_containers (first_list_in keys) container_keys data of Some rows \<Rightarrow> rows | None \<Rightarrow> []))"

text \<open>\<open>float(i)\<close> of an integer beyond the doubles is an \<open>OverflowError\<close>.\<close>

definition float_of_int :: "int \<Rightarrow> pyfloat py" where
  "float_of_int i =
     (if \<bar>real_of_int i\<bar> \<ge> float_overflow then Inl (OtherError ''int too large to convert to float'')
      else Inr (Fin (real_of_int i)))"

definition remove_commas :: "string \<Rightarrow> string" where
  "remove_commas s = filter (\<lambda>c. c \<noteq> CHR '','') s"

fun parse_float :: "json option \<Rightarrow> pyfloat option py" where
  "parse_float (Some (JBool b)) = Inr (Some (Fin (if b then 1 else 0)))"
| "parse_float (Some (JInt i)) = py_bind (float_of_int i) (\<lambda>x. Inr (Some x))"
| "parse_float (Some (JFloat x)) = Inr (Some x)"
| "parse_float (Some (JStr s)) =
     (let text = py_strip (remove_commas s) in Inr (if text = [] then None else py_float_of text))"
| "parse_float _ = Inr None"

fun pf_abs :: "pyfloat \<Rightarrow> pyfloat" where
  "pf_abs (Fin x) = Fin \<bar>x\<bar>"
| "pf_abs PosInf = PosInf"
| "pf_abs NegInf = PosInf"
| "pf_abs NaN = NaN"

definition parse_price :: "json option \<Rightarrow> pyfloat option py" where
  "parse_price v = py_bind (parse_float v) (\<lambda>r. Inr (map_option pf_abs r))"

section \<open>client.py\<close>

text \<open>One request: the URL, the API id and token of its headers, the payload, whether it is an order.\<close>

record request =
  hr_url :: string
  hr_api_id :: string
  hr_token :: string
  hr_payload :: dict
  hr_is_order :: bool

type_synonym 'e transport = "request \<Rightarrow> 'e \<Rightarrow> dict py \<times> 'e"

record client =
  kc_base_url :: string
  kc_app_key :: string
  kc_app_secret :: string
  kc_attempts :: nat  \<comment> \<open>the length of the backoff list\<close>
  kc_token :: "string option"
  kc_expires_at :: "instant option"

definition token_expiring :: "instant \<Rightarrow> client \<Rightarrow> bool" where
  "token_expiring now c =
     (case (kc_token c, kc_expires_at c) of
        (Some t, Some e) \<Rightarrow> t = [] \<or> now \<ge> e - seconds 300
      | _ \<Rightarrow> True)"

text \<open>The attempts to get a token response: the first success, or the last error.\<close>

fun token_attempts :: "'e transport \<Rightarrow> request \<Rightarrow> nat \<Rightarrow> string \<Rightarrow> 'e \<Rightarrow> dict py \<times> 'e" where
  "token_attempts tr req 0 err e = (Inl (RuntimeError (''kiwoom token refresh failed: '' @ err)), e)"
| "token_attempts tr req (Suc k) err e =
     (case tr req e of
        (Inr d, e') \<Rightarrow> (Inr d, e')
      | (Inl x, e') \<Rightarrow> token_attempts tr req k (exn_str x) e')"

text \<open>
  \<open>data.get("token") or data.get("access_token")\<close>. The token's expiry: \<open>expires_dt\<close> read by
  \<open>strptime\<close> (a parameter; \<open>None\<close> is its \<open>ValueError\<close>) or \<open>expires_in\<close> seconds, 3600 by default.
\<close>

definition token_of :: "dict \<Rightarrow> json option" where
  "token_of d =
     (case map_of d ''token'' of
        Some v \<Rightarrow> if json_truthy v then Some v else map_of d ''access_token''
      | None \<Rightarrow> map_of d ''access_token'')"

fun json_int :: "json \<Rightarrow> int py" where
  "json_int (JInt i) = Inr i"
| "json_int (JBool b) = Inr (if b then 1 else 0)"
| "json_int (JFloat (Fin x)) = Inr (if x \<ge> 0 then floor x else ceiling x)"
| "json_int (JStr s) = (case py_int_of s of None \<Rightarrow> Inl (ValueError ''invalid literal for int()'') | Some i \<Rightarrow> Inr i)"
| "json_int _ = Inl (TypeError ''int() argument'')"

definition expiry_of :: "(string \<Rightarrow> instant option) \<Rightarrow> instant \<Rightarrow> dict \<Rightarrow> instant py" where
  "expiry_of strptime now d =
     (case map_of d ''expires_dt'' of
        Some v \<Rightarrow>
          if json_truthy v
          then (case v of
                  JStr s \<Rightarrow> (case strptime s of None \<Rightarrow> Inl (ValueError ''time data does not match format'') | Some t \<Rightarrow> Inr t)
                | _ \<Rightarrow> Inl (TypeError ''strptime() argument 1 must be str''))
          else py_bind (case map_of d ''expires_in'' of None \<Rightarrow> Inr 3600 | Some x \<Rightarrow> json_int x) (\<lambda>n. Inr (now + seconds n))
      | None \<Rightarrow> py_bind (case map_of d ''expires_in'' of None \<Rightarrow> Inr 3600 | Some x \<Rightarrow> json_int x) (\<lambda>n. Inr (now + seconds n)))"

text \<open>The token must be text to be of use in a header; another truthy value is kept as its text.\<close>

definition refresh_token ::
  "json_text \<Rightarrow> (string \<Rightarrow> instant option) \<Rightarrow> 'e transport \<Rightarrow> instant \<Rightarrow> client \<times> 'e \<Rightarrow> string py \<times> client \<times> 'e" where
  "refresh_token fmt strptime tr now s =
     (case s of (c, e) \<Rightarrow>
        if kc_app_key c = [] \<or> kc_app_secret c = []
        then (Inl (RuntimeError ''KIWOOM_APP_KEY and KIWOOM_APP_SECRET are required''), c, e)
        else
          (case token_attempts tr
                  \<lparr>hr_url = kc_base_url c @ ''/oauth2/token'', hr_api_id = [], hr_token = [],
                   hr_payload = [(''grant_type'', JStr ''client_credentials''), (''appkey'', JStr (kc_app_key c)),
                                 (''secretkey'', JStr (kc_app_secret c))], hr_is_order = False\<rparr>
                  (kc_attempts c) ''None'' e of
             (Inl x, e') \<Rightarrow> (Inl x, c, e')
           | (Inr d, e') \<Rightarrow>
               (case token_of d of
                  None \<Rightarrow> (Inl (RuntimeError ''token not found in response''), c, e')
                | Some tk \<Rightarrow>
                    if \<not> json_truthy tk then (Inl (RuntimeError ''token not found in response''), c, e')
                    else
                      (let c1 = c\<lparr>kc_token := Some (json_str fmt tk)\<rparr>
                       in case expiry_of strptime now d of
                            Inl x \<Rightarrow> (Inl x, c1, e')
                          | Inr t \<Rightarrow> (Inr (json_str fmt tk), c1\<lparr>kc_expires_at := Some t\<rparr>, e')))))"

definition ensure_token ::
  "json_text \<Rightarrow> (string \<Rightarrow> instant option) \<Rightarrow> 'e transport \<Rightarrow> instant \<Rightarrow> client \<times> 'e \<Rightarrow> string py \<times> client \<times> 'e" where
  "ensure_token fmt strptime tr now s =
     (case s of (c, e) \<Rightarrow>
        if token_expiring now c
        then (case refresh_token fmt strptime tr now s of
                (Inl x, s') \<Rightarrow> (Inl x, s')
              | (Inr _, (c', e')) \<Rightarrow> (Inr (case kc_token c' of None \<Rightarrow> [] | Some t \<Rightarrow> t), c', e'))
        else (Inr (case kc_token c of None \<Rightarrow> [] | Some t \<Rightarrow> t), c, e))"

definition client_post ::
  "json_text \<Rightarrow> (string \<Rightarrow> instant option) \<Rightarrow> 'e transport \<Rightarrow> instant \<Rightarrow> string \<Rightarrow> string \<Rightarrow> dict \<Rightarrow> bool
     \<Rightarrow> client \<times> 'e \<Rightarrow> dict py \<times> client \<times> 'e" where
  "client_post fmt strptime tr now path api_id payload is_order s =
     (case ensure_token fmt strptime tr now s of
        (Inl x, s') \<Rightarrow> (Inl x, s')
      | (Inr token, (c, e)) \<Rightarrow>
          (case tr \<lparr>hr_url = kc_base_url c @ path, hr_api_id = api_id, hr_token = token, hr_payload = payload,
                    hr_is_order = is_order\<rparr> e of
             (r, e') \<Rightarrow> (r, c, e')))"

section \<open>gateway.py\<close>

type_synonym 's post_fn = "string \<Rightarrow> string \<Rightarrow> dict \<Rightarrow> bool \<Rightarrow> 's \<Rightarrow> dict py \<times> 's"

definition with_suffix :: "string \<Rightarrow> string" where
  "with_suffix ticker = ticker @ ''_AL''"

definition order_payload :: "string \<Rightarrow> order_request \<Rightarrow> dict" where
  "order_payload account req =
     [(''acc_no'', JStr account), (''dmst_stex_tp'', JStr ''KRX''), (''stk_cd'', JStr (with_suffix (rq_ticker req))),
      (''ord_qty'', JInt (truncate_real (rq_qty req))), (''ord_uv'', JInt (truncate_real (or_real (rq_price req) 0))),
      (''trde_tp'', JStr (if rq_order_type req = ''market'' then ''3'' else ''0''))]"

definition order_result_of :: "json_text \<Rightarrow> dict \<Rightarrow> order_result" where
  "order_result_of fmt data =
     (let oid = first_non_empty data [''ord_no'', ''order_no'', ''odno''] True;
          code_v = first_non_empty data [''return_code'', ''rt_cd'', ''code''] True;
          cd = (case code_v of Some v \<Rightarrow> if json_truthy v then json_str fmt v else ''0'' | None \<Rightarrow> ''0'');
          msg = first_non_empty data [''return_msg'', ''msg1'', ''message''] True;
          has_id = (case oid of Some v \<Rightarrow> json_truthy v | None \<Rightarrow> False);
          ok = (cd \<in> {''0'', ''None''} \<and> has_id)
      in \<lparr>res_ok = ok,
          res_order_id = (if has_id then Some (json_str fmt (the oid)) else None),
          res_error = (if ok then None
                       else Some (case msg of Some v \<Rightarrow> if json_truthy v then json_str fmt v else ''order_failed''
                                            | None \<Rightarrow> ''order_failed''))\<rparr>)"

definition kiwoom_place_order :: "json_text \<Rightarrow> string \<Rightarrow> 's post_fn \<Rightarrow> 's place_fn" where
  "kiwoom_place_order fmt account post req s =
     (if account = [] then (Inr \<lparr>res_ok = False, res_order_id = None, res_error = Some ''KIWOOM_ACCOUNT_NO is required''\<rparr>, s)
      else if rq_side req \<noteq> ''buy'' \<and> rq_side req \<noteq> ''sell''
      then (Inr \<lparr>res_ok = False, res_order_id = None, res_error = Some (''unsupported side: '' @ rq_side req)\<rparr>, s)
      else
        (case post ''/api/dostk/ordr'' (if rq_side req = ''buy'' then ''kt10000'' else ''kt10001'') (order_payload account req) True s of
           (Inl x, s') \<Rightarrow> (Inl x, s')
         | (Inr data, s') \<Rightarrow> (Inr (order_result_of fmt data), s')))"

definition status_payload :: "string \<Rightarrow> string \<Rightarrow> dict" where
  "status_payload account oid =
     [(''acc_no'', JStr account), (''dmst_stex_tp'', JStr ''KRX''), (''qry_tp'', JStr ''1''), (''stk_cd'', JStr []),
      (''ord_no'', JStr oid)]"

definition order_status_of :: "json_text \<Rightarrow> dict \<Rightarrow> order_status py" where
  "order_status_of fmt data =
     (case first_list data [''stk_unexp_trde_opt_data_qry'', ''acnt_ord_cntr_prps_dtl'', ''orders''] of
        [] \<Rightarrow> Inr \<lparr>st_exists = False, st_status = ''not_found'', st_filled_qty = Fin 0\<rparr>
      | row # _ \<Rightarrow>
          (let st = (case first_non_empty row [''ord_stts'', ''ord_gb'', ''status''] True of
                       Some v \<Rightarrow> if json_truthy v then json_str fmt v else ''accepted''
                     | None \<Rightarrow> ''accepted'')
           in py_bind (parse_float (first_non_empty row [''cntr_qty'', ''filled_qty'', ''exec_qty''] True)) (\<lambda>f.
                Inr \<lparr>st_exists = True, st_status = py_lower st,
                     st_filled_qty = (case f of None \<Rightarrow> Fin 0 | Some x \<Rightarrow> x)\<rparr>)))"

definition kiwoom_get_order_status :: "json_text \<Rightarrow> string \<Rightarrow> 's post_fn \<Rightarrow> 's status_fn" where
  "kiwoom_get_order_status fmt account post oid s =
     (if account = [] then (Inr \<lparr>st_exists = False, st_status = ''missing_account'', st_filled_qty = Fin 0\<rparr>, s)
      else
        (case post ''/api/dostk/acnt'' ''ka10075'' (status_payload account oid) False s of
           (Inl x, s') \<Rightarrow> (Inl x, s')
         | (Inr data, s') \<Rightarrow> (order_status_of fmt data, s')))"

section \<open>Facts\<close>

lemma first_present_present: "first_present ks d = Some v \<Longrightarrow> present v"
  by (induction ks) (auto split: option.splits if_splits)

lemma in_containers_cases: "in_containers f ks d = Some v \<Longrightarrow> \<exists>nested. f nested = Some v"
  by (induction ks) (auto split: option.splits json.splits)

lemma first_non_empty_present: "first_non_empty d ks deep = Some v \<Longrightarrow> present v"
  by (auto simp: first_non_empty_def dest: first_present_present in_containers_cases split: option.splits if_splits)

text \<open>A key that is there at the top level wins over the containers and over later keys.\<close>

lemma first_non_empty_first:
  "map_of d k = Some v \<Longrightarrow> present v \<Longrightarrow> first_non_empty d (k # ks) deep = Some v"
  by (simp add: first_non_empty_def)

lemma order_result_has_id:
  assumes "res_ok (order_result_of fmt d)"
  shows "truthy_str (res_order_id (order_result_of fmt d))"
proof -
  obtain v where v: "first_non_empty d [''ord_no'', ''order_no'', ''odno''] True = Some v" "json_truthy v"
    using assms by (auto simp: order_result_of_def Let_def split: option.splits)
  have "show_int i \<noteq> []" for i by (simp add: show_int_def)
  then have "json_str fmt v \<noteq> []" using v(2) by (cases v) (auto split: prod.splits)
  then show ?thesis using v by (simp add: order_result_of_def Let_def truthy_str_def)
qed

text \<open>The gateway's state is the client with its token and the transport's environment.\<close>

lemma token_attempts_inv:
  "(\<And>req e r e'. I e \<Longrightarrow> tr req e = (r, e') \<Longrightarrow> I e') \<Longrightarrow> I e \<Longrightarrow> token_attempts tr req k err e = (r, e') \<Longrightarrow> I e'"
proof (induction k arbitrary: err e)
  case (Suc k)
  obtain x e1 where t: "tr req e = (x, e1)" by fastforce
  then have "I e1" using Suc.prems(1,2) by blast
  then show ?case using Suc.prems(1,3) Suc.IH t by (cases x) auto
qed simp

lemma kiwoom_accepted_has_id:
  assumes "kiwoom_place_order fmt account post req s = (Inr r, s')" "res_ok r"
  shows "truthy_str (res_order_id r)"
  using assms order_result_has_id [of fmt]
  by (auto simp: kiwoom_place_order_def split: if_splits prod.splits sum.splits)

interpretation kiwoom: order_gateway "kiwoom_place_order fmt account post" "kiwoom_get_order_status fmt account post"
  "\<lambda>_. True"
  by unfold_locales (auto intro: kiwoom_accepted_has_id)

text \<open>An order the broker never saw: refused without a request.\<close>

lemma kiwoom_refuses:
  "account = [] \<or> rq_side req \<notin> {''buy'', ''sell''} \<Longrightarrow>
     \<exists>r. kiwoom_place_order fmt account post req s = (Inr r, s) \<and> \<not> res_ok r \<and> res_order_id r = None"
  by (auto simp: kiwoom_place_order_def)

section \<open>Tokens\<close>

lemma ensure_token_fresh:
  assumes "\<not> token_expiring now c"
  shows "ensure_token fmt strptime tr now (c, e) = (Inr (the (kc_token c)), c, e)"
  using assms by (auto simp: ensure_token_def token_expiring_def split: option.splits)

lemma token_attempts_count:
  assumes "\<And>req e. tr req e = (Inl (OtherError ''down''), e + (1::nat))"
  shows "token_attempts tr req k err e = (Inl (RuntimeError (''kiwoom token refresh failed: '' @ (if k = 0 then err else ''down''))), e + k)"
  using assms by (induction k arbitrary: err e) auto

end
