(* ===== verification/Kiwoom_Market.thy ===== *)
theory Kiwoom_Market
  imports Kiwoom_Gateway Py_Datetime
begin

text \<open>
  \<open>app/integrations/kiwoom/market_data.py\<close>, the date part of \<open>schema.py\<close> and
  \<open>KiwoomOrderGateway.get_server_time\<close>: reading the broker's prices, bars and clock. Parameters:
  \<open>fromiso\<close> is \<open>datetime.fromisoformat\<close> with UTC for a naive result (\<open>None\<close> its \<open>ValueError\<close>), \<open>today\<close>
  the current UTC date as eight digits, \<open>kst\<close> the civil time in Korea of an instant. A price is a
  \<open>pyfloat\<close>: the texts "nan" and "inf" are numbers to \<open>float\<close>.
\<close>

section \<open>Timestamps\<close>

text \<open>
  \<open>strptime(s, "%Y%m%d%H%M%S")\<close> on fourteen characters: every field has its two digits (four
  for the year) and its range; an impossible date is a \<open>ValueError\<close>, as are seconds beyond 59.
\<close>

definition utc_datetime :: "nat \<Rightarrow> nat \<Rightarrow> nat \<Rightarrow> nat \<Rightarrow> nat \<Rightarrow> nat \<Rightarrow> datetime" where
  "utc_datetime y mo d h mi s = \<lparr>dt_year = y, dt_month = mo, dt_day = d, dt_hour = h, dt_minute = mi, dt_second = s,
     dt_micro = 0, dt_offset = 0\<rparr>"

definition strptime14 :: "string \<Rightarrow> instant option" where
  "strptime14 s =
     (let f = (\<lambda>i n. digits_val (take n (drop i s)));
          y = f 0 4; mo = f 4 2; d = f 6 2; h = f 8 2; mi = f 10 2; sec = f 12 2
      in if length s = 14 \<and> list_all ascii_digit s \<and> 1 \<le> y \<and> 1 \<le> mo \<and> mo \<le> 12 \<and> 1 \<le> d \<and> d \<le> days_in_month y mo \<and>
            h < 24 \<and> mi < 60 \<and> sec < 60
         then Some (instant_of (utc_datetime y mo d h mi sec)) else None)"

definition ljust14 :: "string \<Rightarrow> string" where
  "ljust14 s = s @ replicate (14 - length s) (CHR ''0'')"

definition only_digits :: "string \<Rightarrow> string" where
  "only_digits s = filter py_isdigit_char s"

fun parse_dt_any :: "(string \<Rightarrow> instant option) \<Rightarrow> json option \<Rightarrow> instant option" where
  "parse_dt_any fromiso (Some (JStr s)) =
     (let stripped = py_strip s in
      if stripped = [] then None
      else (case fromiso stripped of
              Some t \<Rightarrow> Some t
            | None \<Rightarrow>
                (let digits = only_digits stripped in
                 if length digits \<in> {8, 12, 14} then strptime14 (take 14 (ljust14 digits)) else None)))"
| "parse_dt_any fromiso _ = None"

definition build_datetime :: "json_text \<Rightarrow> string \<Rightarrow> json option \<Rightarrow> json option \<Rightarrow> instant option" where
  "build_datetime fmt today date_part time_part =
     (if date_part = None \<and> time_part = None then None
      else
        (let dp = (case date_part of None \<Rightarrow> today | Some v \<Rightarrow> json_str fmt v);
             tp = (case time_part of None \<Rightarrow> ''000000'' | Some v \<Rightarrow> json_str fmt v)
         in strptime14 (take 14 (ljust14 (only_digits (dp @ tp))))))"

definition get_server_time ::
  "json_text \<Rightarrow> (string \<Rightarrow> instant option) \<Rightarrow> string \<Rightarrow> instant \<Rightarrow> 's post_fn \<Rightarrow> 's \<Rightarrow> instant py \<times> 's" where
  "get_server_time fmt fromiso today now post s =
     (case post ''/api/dostk/stkinfo'' ''ka10001'' [(''stk_cd'', JStr ''005930_AL'')] False s of
        (Inl x, s') \<Rightarrow> (Inl x, s')
      | (Inr data, s') \<Rightarrow>
          (let timestamp = first_non_empty data [''server_time'', ''trd_tm'', ''stck_cntg_hour'', ''time''] True in
           (Inr (case parse_dt_any fromiso timestamp of
                   Some t \<Rightarrow> t
                 | None \<Rightarrow> (case build_datetime fmt today (Some (JStr today)) timestamp of Some t \<Rightarrow> t | None \<Rightarrow> now)), s')))"

section \<open>Prices\<close>

definition get_current_price :: "'s post_fn \<Rightarrow> string \<Rightarrow> 's \<Rightarrow> pyfloat py \<times> 's" where
  "get_current_price post ticker s =
     (case post ''/api/dostk/stkinfo'' ''ka10001'' [(''stk_cd'', JStr (with_suffix ticker))] False s of
        (Inl x, s') \<Rightarrow> (Inl x, s')
      | (Inr data, s') \<Rightarrow>
          (py_bind (parse_price (first_non_empty data
              [''cur_prc'', ''prpr'', ''stck_prpr'', ''current_price'', ''last_price''] True))
            (\<lambda>p. Inr (case p of None \<Rightarrow> Fin 0 | Some x \<Rightarrow> x)), s'))"

text \<open>Python's \<open>max\<close> and \<open>min\<close> of several floats: the first one no later one beats.\<close>

definition pf_max :: "pyfloat list \<Rightarrow> pyfloat" where
  "pf_max xs = foldl (\<lambda>m x. if pf_lt m x then x else m) (hd xs) (tl xs)"

definition pf_min :: "pyfloat list \<Rightarrow> pyfloat" where
  "pf_min xs = foldl (\<lambda>m x. if pf_lt x m then x else m) (hd xs) (tl xs)"

record raw_bar =
  rb_open :: pyfloat
  rb_high :: pyfloat
  rb_low :: pyfloat
  rb_close :: pyfloat
  rb_volume :: pyfloat
  rb_ts :: instant

definition or_zero :: "pyfloat option \<Rightarrow> pyfloat" where
  "or_zero x = (case x of None \<Rightarrow> Fin 0 | Some v \<Rightarrow> v)"

definition price_field :: "dict \<Rightarrow> string list \<Rightarrow> pyfloat py" where
  "price_field row keys = py_bind (parse_price (first_non_empty row keys True)) (\<lambda>p. Inr (or_zero p))"

definition parse_row_time :: "json_text \<Rightarrow> (string \<Rightarrow> instant option) \<Rightarrow> string \<Rightarrow> dict \<Rightarrow> instant option" where
  "parse_row_time fmt fromiso today row =
     (let raw = first_non_empty row [''candle_time'', ''datetime'', ''timestamp'', ''cntr_tm'', ''dt''] False in
      case parse_dt_any fromiso raw of
        Some t \<Rightarrow> Some t
      | None \<Rightarrow> build_datetime fmt today
                  (first_non_empty row [''stck_bsop_date'', ''date'', ''dt''] False)
                  (first_non_empty row [''stck_cntg_hour'', ''time'', ''tm''] False))"

definition parse_bar :: "dict \<Rightarrow> instant \<Rightarrow> raw_bar py" where
  "parse_bar row ts =
     py_bind (price_field row [''open'', ''open_pric'', ''stck_oprc'']) (\<lambda>op.
     py_bind (price_field row [''high'', ''high_pric'', ''stck_hgpr'']) (\<lambda>h.
     py_bind (price_field row [''low'', ''low_pric'', ''stck_lwpr'']) (\<lambda>l.
     py_bind (price_field row [''close'', ''cur_prc'', ''stck_clpr'', ''stck_prpr'']) (\<lambda>c.
     py_bind (parse_float (first_non_empty row [''volume'', ''trde_qty'', ''acml_vol'', ''acc_trde_qty''] True)) (\<lambda>v.
       Inr \<lparr>rb_open = op, rb_high = pf_max [op, h, l, c], rb_low = pf_min [op, h, l, c], rb_close = c,
            rb_volume = or_zero v, rb_ts = ts\<rparr>)))))"

fun parse_rows ::
  "json_text \<Rightarrow> (string \<Rightarrow> instant option) \<Rightarrow> string \<Rightarrow> instant option \<Rightarrow> dict list \<Rightarrow> raw_bar list py" where
  "parse_rows fmt fromiso today since [] = Inr []"
| "parse_rows fmt fromiso today since (row # rows) =
     (case parse_row_time fmt fromiso today row of
        None \<Rightarrow> parse_rows fmt fromiso today since rows
      | Some ts \<Rightarrow>
          if (case since of None \<Rightarrow> False | Some t \<Rightarrow> ts \<le> t) then parse_rows fmt fromiso today since rows
          else py_bind (parse_bar row ts) (\<lambda>b. py_bind (parse_rows fmt fromiso today since rows) (\<lambda>bs. Inr (b # bs))))"

section \<open>Charts\<close>

definition fmt_date :: "(instant \<Rightarrow> datetime) \<Rightarrow> instant \<Rightarrow> instant option \<Rightarrow> string" where
  "fmt_date kst now since =
     (let d = kst (case since of None \<Rightarrow> now | Some t \<Rightarrow> t) in
      pad4 (dt_year d) @ pad2 (dt_month d) @ pad2 (dt_day d))"

definition build_chart_request ::
  "(instant \<Rightarrow> datetime) \<Rightarrow> instant \<Rightarrow> string \<Rightarrow> string \<Rightarrow> instant option \<Rightarrow> (string \<times> string \<times> dict) py" where
  "build_chart_request kst now ticker timeframe since =
     (if timeframe = ''1d''
      then Inr (''/api/dostk/chart'', ''ka10081'',
             [(''stk_cd'', JStr (with_suffix ticker)), (''base_dt'', JStr (fmt_date kst now since)), (''upd_stkpc_tp'', JStr ''1'')])
      else
        (case map_of [(''3m'', ''3''), (''5m'', ''5''), (''15m'', ''15''), (''60m'', ''60'')] timeframe of
           None \<Rightarrow> Inl (ValueError (''unsupported timeframe: '' @ timeframe))
         | Some scope \<Rightarrow> Inr (''/api/dostk/chart'', ''ka10080'',
             [(''stk_cd'', JStr (with_suffix ticker)), (''tic_scope'', JStr scope),
              (''base_dt'', JStr (fmt_date kst now since)), (''upd_stkpc_tp'', JStr ''1'')])))"

definition fetch_candles_incremental ::
  "json_text \<Rightarrow> (string \<Rightarrow> instant option) \<Rightarrow> string \<Rightarrow> (instant \<Rightarrow> datetime) \<Rightarrow> instant \<Rightarrow> 's post_fn
     \<Rightarrow> string \<Rightarrow> string \<Rightarrow> instant option \<Rightarrow> 's \<Rightarrow> raw_bar list py \<times> 's" where
  "fetch_candles_incremental fmt fromiso today kst now post ticker timeframe since s =
     (case build_chart_request kst now ticker timeframe since of
        Inl x \<Rightarrow> (Inl x, s)
      | Inr (path, api_id, payload) \<Rightarrow>
          (case post path api_id payload False s of
             (Inl x, s') \<Rightarrow> (Inl x, s')
           | (Inr data, s') \<Rightarrow>
               (py_bind (parse_rows fmt fromiso today since
                   (first_list data [''candles'', ''output'', ''output1'', ''stk_min_pole_chart_qry'',
                                     ''stk_dt_pole_chart_qry'', ''items'', ''rows'']))
                 (\<lambda>bars. Inr (sort_key rb_ts bars)), s')))"

section \<open>Facts\<close>

definition stamp :: "datetime \<Rightarrow> string" where
  "stamp d = pad4 (dt_year d) @ pad2 (dt_month d) @ pad2 (dt_day d) @ pad2 (dt_hour d) @ pad2 (dt_minute d) @ pad2 (dt_second d)"

lemma pad2_all_digits: "n < 100 \<Longrightarrow> list_all ascii_digit (pad2 n)"
  by (simp add: pad2_digits ascii_digit_char)

lemma pad4_all_digits: "list_all ascii_digit (pad4 n)"
  by (auto simp: pad4_def show_nat_digits ascii_digit_def ch_code_def)

lemma strptime14_stamp:
  assumes "datetime_ok d" "dt_day d \<le> days_in_month (dt_year d) (dt_month d)" "dt_offset d = 0" "dt_micro d = 0"
  shows "strptime14 (stamp d) = Some (instant_of d)"
proof -
  have l: "length (pad4 (dt_year d)) = 4" "length (pad2 (dt_month d)) = 2" "length (pad2 (dt_day d)) = 2"
    "length (pad2 (dt_hour d)) = 2" "length (pad2 (dt_minute d)) = 2" "length (pad2 (dt_second d)) = 2"
    using assms(1) by (auto simp: datetime_ok_def length_pad4 length_pad2)
  have "utc_datetime (dt_year d) (dt_month d) (dt_day d) (dt_hour d) (dt_minute d) (dt_second d) = d"
    using assms(3,4) by (cases d) (simp add: utc_datetime_def)
  then show ?thesis using assms(1,2) l
    by (auto simp: strptime14_def stamp_def Let_def datetime_ok_def pad4_all_digits pad2_all_digits)
qed

lemma stamp_digits:
  assumes "datetime_ok d"
  shows "length (stamp d) = 14" "only_digits (stamp d) = stamp d" "py_strip (stamp d) = stamp d" "stamp d \<noteq> []"
proof -
  show l: "length (stamp d) = 14" using assms by (auto simp: stamp_def datetime_ok_def length_pad4 length_pad2)
  then show ne: "stamp d \<noteq> []" by auto
  have a: "list_all ascii_digit (stamp d)"
    using assms by (auto simp: stamp_def datetime_ok_def pad4_all_digits pad2_all_digits)
  then show "only_digits (stamp d) = stamp d" by (auto simp: only_digits_def list_all_iff py_isdigit_char_def intro: filter_True)
  show "py_strip (stamp d) = stamp d" by (rule py_strip_digits [OF a])
qed

text \<open>The broker's digits are read as UTC.\<close>

lemma parse_dt_any_stamp:
  assumes "datetime_ok d" "dt_day d \<le> days_in_month (dt_year d) (dt_month d)" "dt_offset d = 0" "dt_micro d = 0"
    "fromiso (stamp d) = None"
  shows "parse_dt_any fromiso (Some (JStr (stamp d))) = Some (instant_of d)"
  using strptime14_stamp [OF assms(1-4)] stamp_digits [OF assms(1)] assms(5)
  by (simp add: ljust14_def Let_def)

lemma pf_lt_irrefl: "\<not> pf_lt x x"
  by (cases x) auto

lemma pf_le_refl: "x \<noteq> NaN \<Longrightarrow> pf_le x x"
  by (simp add: pf_le_def)

definition bar_canonical :: "raw_bar \<Rightarrow> bool" where
  "bar_canonical b \<longleftrightarrow> pf_le (rb_low b) (rb_open b) \<and> pf_le (rb_low b) (rb_close b) \<and>
     pf_le (rb_open b) (rb_high b) \<and> pf_le (rb_close b) (rb_high b)"

lemma pf_not_lt: "x \<noteq> NaN \<Longrightarrow> y \<noteq> NaN \<Longrightarrow> \<not> pf_lt x y \<longleftrightarrow> pf_le y x"
  by (cases x; cases y) (auto simp: pf_le_def)

lemma pf_lt_le: "pf_lt x y \<Longrightarrow> pf_le x y"
  by (simp add: pf_le_def)

lemma pf_le_trans: "pf_le x y \<Longrightarrow> pf_le y z \<Longrightarrow> pf_le x z"
  by (cases x; cases y; cases z) (auto simp: pf_le_def)

lemma pf_max_fold:
  assumes "m \<noteq> NaN" "NaN \<notin> set xs"
  shows "\<forall>x\<in>set (m # xs). pf_le x (foldl (\<lambda>m x. if pf_lt m x then x else m) m xs)"
  using assms
proof (induction xs arbitrary: m)
  case (Cons y ys)
  let ?m = "if pf_lt m y then y else m"
  have "pf_le m ?m" "pf_le y ?m" "?m \<noteq> NaN" using Cons.prems pf_not_lt [of m y] by (auto simp: pf_lt_le pf_le_refl)
  with Cons.IH [of ?m] Cons.prems show ?case by (auto intro: pf_le_trans)
qed (simp add: pf_le_refl)

lemma pf_min_fold:
  assumes "m \<noteq> NaN" "NaN \<notin> set xs"
  shows "\<forall>x\<in>set (m # xs). pf_le (foldl (\<lambda>m x. if pf_lt x m then x else m) m xs) x"
  using assms
proof (induction xs arbitrary: m)
  case (Cons y ys)
  let ?m = "if pf_lt y m then y else m"
  have "pf_le ?m m" "pf_le ?m y" "?m \<noteq> NaN" using Cons.prems pf_not_lt [of y m] by (auto simp: pf_lt_le pf_le_refl)
  with Cons.IH [of ?m] Cons.prems show ?case by (auto intro: pf_le_trans)
qed (simp add: pf_le_refl)

lemma parse_rows_since:
  "parse_rows fmt fromiso today since rows = Inr bars \<Longrightarrow> b \<in> set bars \<Longrightarrow>
     (case since of None \<Rightarrow> True | Some t \<Rightarrow> t < rb_ts b) \<and> (\<exists>row\<in>set rows. parse_bar row (rb_ts b) = Inr b)"
proof (induction rows arbitrary: bars)
  case (Cons row rows)
  show ?case
  proof (cases "parse_row_time fmt fromiso today row")
    case None
    then show ?thesis using Cons by auto
  next
    case (Some ts)
    show ?thesis
    proof (cases "case since of None \<Rightarrow> False | Some t \<Rightarrow> ts \<le> t")
      case True
      then show ?thesis using Cons Some by auto
    next
      case False
      then obtain b0 bs where b0: "parse_bar row ts = Inr b0" and bs: "parse_rows fmt fromiso today since rows = Inr bs"
        and bars: "bars = b0 # bs"
        using Cons.prems(1) Some by (auto simp: py_bind_Inr_iff)
      have ts: "rb_ts b0 = ts" using b0 by (auto simp: parse_bar_def py_bind_Inr_iff)
      from Cons.prems(2) bars consider "b = b0" | "b \<in> set bs" by auto
      then show ?thesis
      proof cases
        case 1
        then show ?thesis using False b0 ts by (auto split: option.splits)
      next
        case 2
        then show ?thesis using Cons.IH [OF bs] by auto
      qed
    qed
  qed
qed simp

lemma parse_bar_canonical:
  assumes "parse_bar row ts = Inr b" "NaN \<notin> {rb_open b, rb_close b, rb_high b, rb_low b}"
    "\<And>p. price_field row [''high'', ''high_pric'', ''stck_hgpr''] = Inr p \<Longrightarrow> p \<noteq> NaN"
    "\<And>p. price_field row [''low'', ''low_pric'', ''stck_lwpr''] = Inr p \<Longrightarrow> p \<noteq> NaN"
  shows "bar_canonical b"
proof -
  obtain o' h l c v where f: "price_field row [''high'', ''high_pric'', ''stck_hgpr''] = Inr h"
      "price_field row [''low'', ''low_pric'', ''stck_lwpr''] = Inr l"
    and b: "b = \<lparr>rb_open = o', rb_high = pf_max [o', h, l, c], rb_low = pf_min [o', h, l, c], rb_close = c,
            rb_volume = or_zero v, rb_ts = ts\<rparr>"
    using assms(1) by (auto simp: parse_bar_def py_bind_Inr_iff)
  have n: "o' \<noteq> NaN" "NaN \<notin> set [h, l, c]" using assms(2-4) f b by auto
  from pf_max_fold [OF n] pf_min_fold [OF n] show ?thesis by (simp add: b bar_canonical_def pf_max_def pf_min_def)
qed

section \<open>Properties\<close>

text \<open>
  A timestamp printed as fourteen digits and read back is the same moment, if the digits mean
  UTC (and fromisoformat does not claim them).
\<close>

theorem timestamp_round_trip:
  assumes "datetime_ok d" "dt_day d \<le> days_in_month (dt_year d) (dt_month d)" "dt_offset d = 0" "dt_micro d = 0"
    and "fromiso (stamp d) = None"
  shows "parse_dt_any fromiso (Some (JStr (stamp d))) = Some (instant_of d)"
  using assms by (rule parse_dt_any_stamp)

definition sample_utc :: datetime where
  "sample_utc = utc_datetime 2024 2 29 15 30 0"

lemma sample_utc_ok: "datetime_ok sample_utc" "dt_day sample_utc \<le> days_in_month (dt_year sample_utc) (dt_month sample_utc)"
  "dt_offset sample_utc = 0" "dt_micro sample_utc = 0"
  by (simp_all add: sample_utc_def utc_datetime_def datetime_ok_def days_in_month_def is_leap_def)

theorem timestamp_round_trip_witness:
  "parse_dt_any (\<lambda>_. None) (Some (JStr (stamp sample_utc))) = Some (instant_of sample_utc)"
  by (rule timestamp_round_trip [OF sample_utc_ok]) simp

text \<open>
  The broker's bar times are Korean wall-clock digits, but they are stored as if they were
  UTC: nine hours after the moment they denote.
\<close>

theorem bar_times_are_nine_hours_late:
  assumes "datetime_ok d" "dt_day d \<le> days_in_month (dt_year d) (dt_month d)" "dt_offset d = 9 * 3600" "dt_micro d = 0"
    and "map_of row ''candle_time'' = None" "map_of row ''datetime'' = None" "map_of row ''timestamp'' = None"
    and "map_of row ''cntr_tm'' = Some (JStr (stamp d))" "fromiso (stamp d) = None"
  shows "parse_row_time fmt fromiso today row = Some (instant_of d + seconds (9 * 3600))"
proof -
  let ?u = "d\<lparr>dt_offset := 0\<rparr>"
  have st: "stamp ?u = stamp d" by (simp add: stamp_def)
  have ok: "datetime_ok ?u" "dt_day ?u \<le> days_in_month (dt_year ?u) (dt_month ?u)" "dt_offset ?u = 0" "dt_micro ?u = 0"
    using assms(1,2,4) by (simp_all add: datetime_ok_def)
  have p: "present (JStr (stamp d))" using stamp_digits [OF assms(1)] by simp
  have "parse_dt_any fromiso (Some (JStr (stamp d))) = Some (instant_of ?u)"
    using parse_dt_any_stamp [OF ok] assms(9) unfolding st by blast
  moreover have "instant_of ?u = instant_of d + seconds (9 * 3600)" using assms(3) by (simp add: instant_of_def)
  ultimately show ?thesis using assms(5-8) p by (simp add: parse_row_time_def first_non_empty_def Let_def del: parse_dt_any.simps)
qed

definition sample_kst :: datetime where
  "sample_kst = sample_utc\<lparr>dt_offset := 32400\<rparr>"

theorem bar_times_are_nine_hours_late_witness:
  "parse_row_time (\<lambda>_. (CHR ''x'', [])) (\<lambda>_. None) ''20240101'' [(''cntr_tm'', JStr (stamp sample_kst))]
     = Some (instant_of sample_kst + 32400000000)"
  using bar_times_are_nine_hours_late [of sample_kst "[(''cntr_tm'', JStr (stamp sample_kst))]" "\<lambda>_. None"] sample_utc_ok
  by (simp add: sample_kst_def datetime_ok_def)

text \<open>
  The bars of a fetch are in the order of their times, all later than the last one known, and
  a bar whose fields are numbers has its low below and its high above its open and close.
\<close>

theorem fetched_bars_are_new_and_ordered:
  assumes "fetch_candles_incremental fmt fromiso today kst now post ticker tf (Some t0) s = (Inr bars, s')"
  shows "sorted (map rb_ts bars) \<and> (\<forall>b\<in>set bars. t0 < rb_ts b \<and>
    (\<exists>row. parse_bar row (rb_ts b) = Inr b \<and>
      (NaN \<notin> {rb_open b, rb_close b, rb_high b, rb_low b} \<and>
       price_field row [''high'', ''high_pric'', ''stck_hgpr''] \<noteq> Inr NaN \<and>
       price_field row [''low'', ''low_pric'', ''stck_lwpr''] \<noteq> Inr NaN \<longrightarrow> bar_canonical b)))"
proof -
  obtain rows raw where raw: "parse_rows fmt fromiso today (Some t0) rows = Inr raw" and bars: "bars = sort_key rb_ts raw"
    using assms by (auto simp: fetch_candles_incremental_def py_bind_Inr_iff split: sum.splits prod.splits)
  have "t0 < rb_ts b \<and> (\<exists>row. parse_bar row (rb_ts b) = Inr b)" if "b \<in> set bars" for b
    using parse_rows_since [OF raw] that by (auto simp: bars)
  then show ?thesis using parse_bar_canonical by (auto simp: bars) metis
qed

definition sample_row :: dict where
  "sample_row = [(''dt'', JStr ''20240102''), (''open'', JFloat (Fin 100)), (''high'', JFloat (Fin 90)),
     (''low'', JFloat (Fin 95)), (''close'', JFloat (Fin (- 110)))]"

definition sample_answer :: "unit post_fn" where
  "sample_answer path api payload is_order s = (Inr [(''rows'', JList [JObj sample_row])], s)"

lemma sample_fields:
  "price_field sample_row [''open'', ''open_pric'', ''stck_oprc''] = Inr (Fin 100)"
  "price_field sample_row [''high'', ''high_pric'', ''stck_hgpr''] = Inr (Fin 90)"
  "price_field sample_row [''low'', ''low_pric'', ''stck_lwpr''] = Inr (Fin 95)"
  "price_field sample_row [''close'', ''cur_prc'', ''stck_clpr'', ''stck_prpr''] = Inr (Fin 110)"
  "parse_float (first_non_empty sample_row [''volume'', ''trde_qty'', ''acml_vol'', ''acc_trde_qty''] True) = Inr None"
  by (simp_all add: price_field_def sample_row_def first_non_empty_def parse_price_def or_zero_def container_keys_def)

definition sample_parsed :: raw_bar where
  "sample_parsed = \<lparr>rb_open = Fin 100, rb_high = Fin 110, rb_low = Fin 90, rb_close = Fin 110, rb_volume = Fin 0, rb_ts = 5\<rparr>"

lemma sample_bar_parsed: "parse_bar sample_row 5 = Inr sample_parsed"
  by (simp add: parse_bar_def sample_fields pf_max_def pf_min_def or_zero_def sample_parsed_def)

lemma sample_fetch:
  "fetch_candles_incremental (\<lambda>_. (CHR ''x'', [])) (\<lambda>_. Some 5) ''20240102'' (\<lambda>_. sample_kst) 9 sample_answer ''A'' ''5m'' (Some 1) ()
     = (Inr [sample_parsed], ())"
proof -
  have "parse_row_time (\<lambda>_. (CHR ''x'', [])) (\<lambda>_. Some 5) ''20240102'' sample_row = Some 5"
    by (simp add: parse_row_time_def sample_row_def first_non_empty_def py_strip_def py_isspace_def ch_code_def)
  then show ?thesis
    by (simp add: fetch_candles_incremental_def build_chart_request_def sample_answer_def first_list_def objects_of_def
        List.map_filter_def sample_bar_parsed)
qed

theorem fetched_bars_are_new_and_ordered_witness: "1 < rb_ts sample_parsed"
proof -
  note c = fetched_bars_are_new_and_ordered [OF sample_fetch]
  show ?thesis using conjunct2 [OF c] by simp
qed

end
