(* ===== verification/Backtest.thy ===== *)
theory Backtest
  imports Risk_Engine "HOL-Library.AList"
begin

text \<open>
  The trade simulation of \<open>app/backtest/core.py\<close> and \<open>app/services/backtest_jobs.py\<close>: the entry at
  the open of the bar after the signal, the exits bar by bar, and the statistics of a run. Long and
  short trades are two bar functions over one loop. Prices and multipliers are finite reals.
\<close>

section \<open>Entry\<close>

definition entry_price_n_plus_one_open :: "real \<Rightarrow> candle list \<Rightarrow> signal \<Rightarrow> real py" where
  "entry_price_n_plus_one_open slippage_pct candles s =
     (let next_idx = sg_index s + 1 in
      if next_idx \<ge> int (length candles) then Inl (ValueError ''N+1 candle required'')
      else py_bind (py_index candles next_idx) (\<lambda>c.
        Inr (if sg_side s = ''buy'' then cd_open c * (1 + slippage_pct / 100)
             else cd_open c * (1 - slippage_pct / 100))))"

definition backtest_atr :: "candle list \<Rightarrow> int \<Rightarrow> int \<Rightarrow> real py" where
  "backtest_atr candles signal_index atr_period =
     (let start = max 0 (signal_index - atr_period + 1);
          window = py_slice candles start (signal_index + 1)
      in if window = [] then Inr 1
         else py_bind (compute_atr (map cd_high window) (map cd_low window) (map cd_close window))
                (\<lambda>atr. Inr (max atr (1 / 10 ^ 9))))"

section \<open>A position in the simulation\<close>

record leg =
  lg_remaining :: real
  lg_realized :: real
  lg_state :: string
  lg_extreme :: "real option"  \<comment> \<open>the highest (long) or lowest (short) price since the half close\<close>
  lg_reason :: string

definition leg_init :: leg where
  "leg_init = \<lparr>lg_remaining = 1, lg_realized = 0, lg_state = ''OPEN'', lg_extreme = None, lg_reason = ''end_of_data''\<rparr>"

record levels =
  lv_entry :: real
  lv_stop :: real
  lv_take :: real
  lv_trail :: real  \<comment> \<open>the distance of the trailing stop: ATR times its multiplier\<close>

text \<open>Close everything that remains at a price; \<open>gain\<close> is the gain per share at it.\<close>

definition close_all :: "real \<Rightarrow> string \<Rightarrow> leg \<Rightarrow> leg" where
  "close_all gain reason l =
     l\<lparr>lg_realized := lg_realized l + gain * lg_remaining l, lg_remaining := 0, lg_reason := reason\<rparr>"

definition close_half :: "real \<Rightarrow> leg \<Rightarrow> leg" where
  "close_half gain l =
     (let close_qty = lg_remaining l / 2 in
      l\<lparr>lg_realized := lg_realized l + gain * close_qty, lg_remaining := lg_remaining l - close_qty,
        lg_state := ''HALF_CLOSED''\<rparr>)"

text \<open>One bar; the flag is the \<open>break\<close> of the loop.\<close>

definition long_bar :: "levels \<Rightarrow> candle \<Rightarrow> leg \<Rightarrow> leg \<times> bool" where
  "long_bar v c l =
     (if lg_state l = ''OPEN''
      then
        if cd_low c \<le> lv_stop v then (close_all (lv_stop v - lv_entry v) ''stop_loss'' l, True)
        else if cd_high c \<ge> lv_take v
        then
          (let highest = max (cd_high c) (lv_take v);
               trailing_stop = max (highest - lv_trail v) 0;
               l1 = (close_half (lv_take v - lv_entry v) l)\<lparr>lg_extreme := Some highest\<rparr>
           in if cd_low c \<le> trailing_stop then (close_all (trailing_stop - lv_entry v) ''trailing_stop'' l1, True)
              else (l1, False))
        else (l, False)
      else
        (let highest = max (or_real (lg_extreme l) (cd_high c)) (cd_high c);
             trailing_stop = max (highest - lv_trail v) 0;
             l1 = l\<lparr>lg_extreme := Some highest\<rparr>
         in if cd_low c \<le> trailing_stop then (close_all (trailing_stop - lv_entry v) ''trailing_stop'' l1, True)
            else (l1, False)))"

definition short_bar :: "levels \<Rightarrow> candle \<Rightarrow> leg \<Rightarrow> leg \<times> bool" where
  "short_bar v c l =
     (if lg_state l = ''OPEN''
      then
        if cd_high c \<ge> lv_stop v then (close_all (lv_entry v - lv_stop v) ''stop_loss'' l, True)
        else if cd_low c \<le> lv_take v
        then
          (let lowest = min (cd_low c) (lv_take v);
               trailing_stop = lowest + lv_trail v;
               l1 = (close_half (lv_entry v - lv_take v) l)\<lparr>lg_extreme := Some lowest\<rparr>
           in if cd_high c \<ge> trailing_stop then (close_all (lv_entry v - trailing_stop) ''trailing_stop'' l1, True)
              else (l1, False))
        else (l, False)
      else
        (let lowest = min (or_real (lg_extreme l) (cd_low c)) (cd_low c);
             trailing_stop = lowest + lv_trail v;
             l1 = l\<lparr>lg_extreme := Some lowest\<rparr>
         in if cd_high c \<ge> trailing_stop then (close_all (lv_entry v - trailing_stop) ''trailing_stop'' l1, True)
            else (l1, False)))"

fun bar_loop :: "(candle \<Rightarrow> leg \<Rightarrow> leg \<times> bool) \<Rightarrow> candle list \<Rightarrow> leg \<Rightarrow> leg" where
  "bar_loop bar [] l = l"
| "bar_loop bar (c # cs) l =
     (if lg_remaining l \<le> 0 then l
      else (case bar c l of (l', stop) \<Rightarrow> if stop then l' else bar_loop bar cs l'))"

text \<open>What remains is closed at the last close of the data. The result: gain, return, reason.\<close>

definition finish_trade :: "(real \<Rightarrow> real) \<Rightarrow> real \<Rightarrow> candle list \<Rightarrow> leg \<Rightarrow> (real \<times> real \<times> string) py" where
  "finish_trade gain entry candles l =
     py_bind (if lg_remaining l > 0
              then py_bind (py_last candles) (\<lambda>c. Inr (close_all (gain (cd_close c)) ''end_of_data'' l))
              else Inr l)
       (\<lambda>l'. Inr (lg_realized l', if entry > 0 then lg_realized l' / entry else 0, lg_reason l'))"

record exit_params =
  xp_atr_period :: int
  xp_stop_atr_mult :: real
  xp_tp_atr_mult :: real
  xp_trail_atr_mult :: real

definition long_levels :: "exit_params \<Rightarrow> real \<Rightarrow> real \<Rightarrow> levels" where
  "long_levels p entry atr =
     \<lparr>lv_entry = entry, lv_stop = max (entry - atr * xp_stop_atr_mult p) 0, lv_take = entry + atr * xp_tp_atr_mult p,
      lv_trail = atr * xp_trail_atr_mult p\<rparr>"

definition short_levels :: "exit_params \<Rightarrow> real \<Rightarrow> real \<Rightarrow> levels" where
  "short_levels p entry atr =
     \<lparr>lv_entry = entry, lv_stop = entry + atr * xp_stop_atr_mult p, lv_take = max (entry - atr * xp_tp_atr_mult p) 0,
      lv_trail = atr * xp_trail_atr_mult p\<rparr>"

definition simulate_long_trade :: "exit_params \<Rightarrow> candle list \<Rightarrow> int \<Rightarrow> real \<Rightarrow> real \<Rightarrow> (real \<times> real \<times> string) py" where
  "simulate_long_trade p candles entry_idx entry atr =
     finish_trade (\<lambda>x. x - entry) entry candles
       (bar_loop (long_bar (long_levels p entry atr)) (py_slice candles entry_idx (int (length candles))) leg_init)"

definition simulate_short_trade :: "exit_params \<Rightarrow> candle list \<Rightarrow> int \<Rightarrow> real \<Rightarrow> real \<Rightarrow> (real \<times> real \<times> string) py" where
  "simulate_short_trade p candles entry_idx entry atr =
     finish_trade (\<lambda>x. entry - x) entry candles
       (bar_loop (short_bar (short_levels p entry atr)) (py_slice candles entry_idx (int (length candles))) leg_init)"

definition simulate_trade :: "real \<Rightarrow> exit_params \<Rightarrow> candle list \<Rightarrow> signal \<Rightarrow> (real \<times> real \<times> string) py" where
  "simulate_trade slippage_pct p candles s =
     (let entry_idx = sg_index s + 1 in
      if entry_idx \<ge> int (length candles) then Inl (ValueError ''N+1 candle required'')
      else
        py_bind (entry_price_n_plus_one_open slippage_pct candles s) (\<lambda>entry.
          if entry \<le> 0 then Inl (ValueError ''invalid_entry_price'')
          else py_bind (backtest_atr candles (sg_index s) (xp_atr_period p)) (\<lambda>atr.
            if sg_side s = ''sell'' then simulate_short_trade p candles entry_idx entry atr
            else simulate_long_trade p candles entry_idx entry atr)))"

section \<open>Statistics\<close>

definition sharpe_ratio :: "real list \<Rightarrow> real" where
  "sharpe_ratio returns =
     (if length returns < 2 then 0
      else
        (let n = real (length returns); avg = sum_list returns / n;
             variance = sum_list (map (\<lambda>x. (x - avg) ^ 2) returns) / n;
             std = sqrt variance
         in if std = 0 then (if avg > 0 then 10 else 0) else avg / std * sqrt n))"

fun drawdown_loop :: "real list \<Rightarrow> real \<Rightarrow> real \<Rightarrow> real \<Rightarrow> real" where
  "drawdown_loop [] equity peak max_dd = max_dd"
| "drawdown_loop (r # rs) equity peak max_dd =
     (let equity' = equity * max 0 (1 + r); peak' = max peak equity' in
      drawdown_loop rs equity' peak' (if peak' > 0 then max max_dd ((peak' - equity') / peak') else max_dd))"

definition max_drawdown :: "real list \<Rightarrow> real" where
  "max_drawdown returns = drawdown_loop returns 1 1 0"

section \<open>The tally of a run\<close>

record tally =
  ty_pnls :: "real list"
  ty_returns :: "real list"
  ty_reasons :: "(string \<times> nat) list"
  ty_wins :: nat
  ty_losses :: nat
  ty_skipped :: nat

definition tally_init :: tally where
  "tally_init = \<lparr>ty_pnls = [], ty_returns = [], ty_reasons = [], ty_wins = 0, ty_losses = 0, ty_skipped = 0\<rparr>"

definition count_reason :: "string \<Rightarrow> (string \<times> nat) list \<Rightarrow> (string \<times> nat) list" where
  "count_reason r rs = AList.update r ((case map_of rs r of None \<Rightarrow> 0 | Some n \<Rightarrow> n) + 1) rs"

text \<open>One signal: a \<open>ValueError\<close> skips it, any other exception leaves the run.\<close>

definition tally_signal :: "real \<Rightarrow> exit_params \<Rightarrow> candle list \<Rightarrow> signal \<Rightarrow> tally \<Rightarrow> tally py" where
  "tally_signal slippage_pct p candles s t =
     (case simulate_trade slippage_pct p candles s of
        Inl (ValueError m) \<Rightarrow> Inr (t\<lparr>ty_skipped := ty_skipped t + 1\<rparr>)
      | Inl x \<Rightarrow> Inl x
      | Inr (pnl, ret, reason) \<Rightarrow>
          Inr (t\<lparr>ty_pnls := ty_pnls t @ [pnl], ty_returns := ty_returns t @ [ret],
                 ty_reasons := count_reason reason (ty_reasons t),
                 ty_wins := ty_wins t + (if pnl > 0 then 1 else 0),
                 ty_losses := ty_losses t + (if pnl < 0 then 1 else 0)\<rparr>))"

record run_metrics =
  rm_trade_count :: nat
  rm_wins :: nat
  rm_losses :: nat
  rm_skipped :: nat
  rm_win_rate :: real
  rm_total_pnl :: real
  rm_avg_pnl :: real
  rm_expectancy_r :: real
  rm_total_return :: real
  rm_sharpe_ratio :: real
  rm_mdd :: real
  rm_gross_profit :: real
  rm_gross_loss :: real
  rm_profit_factor :: "real option"
  rm_exit_reasons :: "(string \<times> nat) list"

definition metrics_of :: "tally \<Rightarrow> run_metrics" where
  "metrics_of t =
     (let trade_count = length (ty_pnls t);
          per_trade = (\<lambda>x. if trade_count \<noteq> 0 then x / real trade_count else 0);
          gross_profit = sum_list (filter (\<lambda>x. x > 0) (ty_pnls t));
          gross_loss = \<bar>sum_list (filter (\<lambda>x. x < 0) (ty_pnls t))\<bar>
      in \<lparr>rm_trade_count = trade_count, rm_wins = ty_wins t, rm_losses = ty_losses t, rm_skipped = ty_skipped t,
          rm_win_rate = per_trade (real (ty_wins t)), rm_total_pnl = sum_list (ty_pnls t),
          rm_avg_pnl = per_trade (sum_list (ty_pnls t)), rm_expectancy_r = per_trade (sum_list (ty_returns t)),
          rm_total_return = sum_list (ty_returns t), rm_sharpe_ratio = sharpe_ratio (ty_returns t),
          rm_mdd = max_drawdown (ty_returns t), rm_gross_profit = gross_profit, rm_gross_loss = gross_loss,
          rm_profit_factor = (if gross_loss > 0 then Some (gross_profit / gross_loss) else None),
          rm_exit_reasons = ty_reasons t\<rparr>)"

section \<open>What a set of exit rules promises\<close>

text \<open>
  A well-formed bar has positive, ordered prices. The rules of a side keep an invariant of the
  position as long as it lives, and guarantee a floor for what it would realise if it were
  closed at the bar's close, and for what it has realised when a rule has closed it.
\<close>

definition bar_ok :: "candle \<Rightarrow> bool" where
  "bar_ok c \<longleftrightarrow> 0 < cd_low c \<and> cd_low c \<le> cd_close c \<and> cd_close c \<le> cd_high c"

locale exit_rules =
  fixes bar :: "candle \<Rightarrow> leg \<Rightarrow> leg \<times> bool"
    and gain :: "real \<Rightarrow> real"
    and inv :: "leg \<Rightarrow> bool"
    and floor_gain :: real
  assumes live: "inv l \<Longrightarrow> 0 < lg_remaining l"
    and going: "inv l \<Longrightarrow> bar_ok c \<Longrightarrow> bar c l = (l', False) \<Longrightarrow>
      inv l' \<and> floor_gain \<le> lg_realized l' + gain (cd_close c) * lg_remaining l'"
    and exit_rule: "inv l \<Longrightarrow> bar_ok c \<Longrightarrow> bar c l = (l', True) \<Longrightarrow>
      lg_remaining l' = 0 \<and> floor_gain \<le> lg_realized l'"
begin

lemma loop_floor:
  assumes "cs \<noteq> []" "list_all bar_ok cs" "inv l"
  shows "0 \<le> lg_remaining (bar_loop bar cs l) \<and>
     floor_gain \<le> lg_realized (bar_loop bar cs l) + gain (cd_close (last cs)) * lg_remaining (bar_loop bar cs l)"
  using assms
proof (induction cs arbitrary: l)
  case (Cons c cs)
  have c: "bar_ok c" and cs: "list_all bar_ok cs" and l: "\<not> lg_remaining l \<le> 0"
    using Cons.prems live by fastforce+
  obtain l' stop where b: "bar c l = (l', stop)" by fastforce
  show ?case
  proof (cases stop)
    case True
    with exit_rule [OF Cons.prems(3) c] b l show ?thesis by simp
  next
    case False
    then have k: "inv l'" "floor_gain \<le> lg_realized l' + gain (cd_close c) * lg_remaining l'"
      using going [OF Cons.prems(3) c] b by simp_all
    have "bar_loop bar (c # cs) l = bar_loop bar cs l'" using b l False by simp
    then show ?thesis using Cons.IH [OF _ cs k(1)] k live [OF k(1)] by (cases "cs = []") auto
  qed
qed simp

lemma finished_floor:
  assumes "candles \<noteq> []" "cs \<noteq> []" "last cs = last candles" "list_all bar_ok cs" "inv l"
    "finish_trade gain entry candles (bar_loop bar cs l) = Inr (pnl, ret, reason)"
  shows "floor_gain \<le> pnl"
  using loop_floor [OF assms(2,4,5)] assms(1,3,6)
  by (auto simp: finish_trade_def py_last_def close_all_def py_bind_Inr_iff split: if_splits)

end

section \<open>The two sides\<close>

definition long_inv :: "levels \<Rightarrow> leg \<Rightarrow> bool" where
  "long_inv v l \<longleftrightarrow> 0 < lv_entry v \<and> lv_entry v \<le> lv_take v \<and> 0 \<le> lv_trail v \<and>
     (if lg_state l = ''OPEN'' then lg_remaining l = 1 \<and> lg_realized l = 0
      else lg_remaining l = 1 / 2 \<and> lg_realized l = (lv_take v - lv_entry v) / 2 \<and>
           (\<exists>h. lg_extreme l = Some h \<and> lv_take v \<le> h))"

definition short_inv :: "levels \<Rightarrow> leg \<Rightarrow> bool" where
  "short_inv v l \<longleftrightarrow> 0 \<le> lv_trail v \<and>
     (if lg_state l = ''OPEN'' then lg_remaining l = 1 \<and> lg_realized l = 0
      else lg_remaining l = 1 / 2 \<and> lg_realized l = (lv_entry v - lv_take v) / 2 \<and>
           (\<exists>h. lg_extreme l = Some h \<and> h \<le> lv_take v \<and> 0 < h))"

definition long_floor :: "levels \<Rightarrow> real" where
  "long_floor v = min (lv_stop v - lv_entry v) (lv_take v - lv_entry v - lv_trail v / 2)"

definition short_floor :: "levels \<Rightarrow> real" where
  "short_floor v = min (lv_entry v - lv_stop v) (lv_entry v - lv_take v - lv_trail v / 2)"

lemma long_floor_le: "long_floor v \<le> lv_stop v - lv_entry v" "long_floor v \<le> lv_take v - lv_entry v - lv_trail v / 2"
  by (simp_all add: long_floor_def)

lemma short_floor_le: "short_floor v \<le> lv_entry v - lv_stop v" "short_floor v \<le> lv_entry v - lv_take v - lv_trail v / 2"
  by (simp_all add: short_floor_def)

lemma long_open_bar:
  assumes "long_inv v l" "bar_ok c" "lg_state l = ''OPEN''" "long_bar v c l = (l', stop)"
  shows "(if stop then lg_remaining l' = 0 \<and> long_floor v \<le> lg_realized l'
          else long_inv v l' \<and> long_floor v \<le> lg_realized l' + (cd_close c - lv_entry v) * lg_remaining l')"
  using assms long_floor_le [of v]
  by (auto simp del: eq_divide_eq_numeral1 simp: long_bar_def long_inv_def close_all_def close_half_def bar_ok_def Let_def max_def split: if_splits) (simp_all add: field_simps)

lemma long_half_bar:
  assumes "long_inv v l" "bar_ok c" "lg_state l \<noteq> ''OPEN''" "long_bar v c l = (l', stop)"
  shows "(if stop then lg_remaining l' = 0 \<and> long_floor v \<le> lg_realized l'
          else long_inv v l' \<and> long_floor v \<le> lg_realized l' + (cd_close c - lv_entry v) * lg_remaining l')"
  using assms long_floor_le [of v]
  by (auto simp del: eq_divide_eq_numeral1 simp: long_bar_def long_inv_def close_all_def bar_ok_def Let_def or_real_def max_def split: if_splits) (simp_all add: field_simps)

lemma short_open_bar:
  assumes "short_inv v l" "bar_ok c" "lg_state l = ''OPEN''" "short_bar v c l = (l', stop)"
  shows "(if stop then lg_remaining l' = 0 \<and> short_floor v \<le> lg_realized l'
          else short_inv v l' \<and> short_floor v \<le> lg_realized l' + (lv_entry v - cd_close c) * lg_remaining l')"
  using assms short_floor_le [of v]
  by (auto simp del: eq_divide_eq_numeral1 simp: short_bar_def short_inv_def close_all_def close_half_def bar_ok_def Let_def min_def split: if_splits) (simp_all add: field_simps)

lemma short_half_bar:
  assumes "short_inv v l" "bar_ok c" "lg_state l \<noteq> ''OPEN''" "short_bar v c l = (l', stop)"
  shows "(if stop then lg_remaining l' = 0 \<and> short_floor v \<le> lg_realized l'
          else short_inv v l' \<and> short_floor v \<le> lg_realized l' + (lv_entry v - cd_close c) * lg_remaining l')"
  using assms short_floor_le [of v]
  by (auto simp del: eq_divide_eq_numeral1 simp: short_bar_def short_inv_def close_all_def bar_ok_def Let_def or_real_def min_def split: if_splits) (simp_all add: field_simps)

interpretation long: exit_rules "long_bar v" "\<lambda>x. x - lv_entry v" "long_inv v" "long_floor v"
proof unfold_locales
  show "0 < lg_remaining l" if "long_inv v l" for l
    using that by (simp add: long_inv_def split: if_splits)
  show "long_inv v l' \<and> long_floor v \<le> lg_realized l' + (cd_close c - lv_entry v) * lg_remaining l'"
    if "long_inv v l" "bar_ok c" "long_bar v c l = (l', False)" for l c l'
    using long_open_bar [OF that(1,2) _ that(3)] long_half_bar [OF that(1,2) _ that(3)] by argo
  show "lg_remaining l' = 0 \<and> long_floor v \<le> lg_realized l'"
    if "long_inv v l" "bar_ok c" "long_bar v c l = (l', True)" for l c l'
    using long_open_bar [OF that(1,2) _ that(3)] long_half_bar [OF that(1,2) _ that(3)] by argo
qed

interpretation short: exit_rules "short_bar v" "\<lambda>x. lv_entry v - x" "short_inv v" "short_floor v"
proof unfold_locales
  show "0 < lg_remaining l" if "short_inv v l" for l
    using that by (simp add: short_inv_def split: if_splits)
  show "short_inv v l' \<and> short_floor v \<le> lg_realized l' + (lv_entry v - cd_close c) * lg_remaining l'"
    if "short_inv v l" "bar_ok c" "short_bar v c l = (l', False)" for l c l'
    using short_open_bar [OF that(1,2) _ that(3)] short_half_bar [OF that(1,2) _ that(3)] by argo
  show "lg_remaining l' = 0 \<and> short_floor v \<le> lg_realized l'"
    if "short_inv v l" "bar_ok c" "short_bar v c l = (l', True)" for l c l'
    using short_open_bar [OF that(1,2) _ that(3)] short_half_bar [OF that(1,2) _ that(3)] by argo
qed

section \<open>A trade\<close>

lemma simulate_trade_Inr:
  assumes "simulate_trade sl p candles s = Inr res"
  obtains e a where "sg_index s + 1 < int (length candles)" "entry_price_n_plus_one_open sl candles s = Inr e" "0 < e"
    "backtest_atr candles (sg_index s) (xp_atr_period p) = Inr a"
    "(if sg_side s = ''sell'' then simulate_short_trade p candles (sg_index s + 1) e a
      else simulate_long_trade p candles (sg_index s + 1) e a) = Inr res"
  using assms by (auto simp: simulate_trade_def Let_def py_bind_Inr_iff split: if_splits)

lemma backtest_atr_pos: "backtest_atr candles i n = Inr a \<Longrightarrow> 0 < a"
  by (auto simp: backtest_atr_def Let_def py_bind_Inr_iff less_max_iff_disj split: if_splits)

definition trade_floor :: "string \<Rightarrow> exit_params \<Rightarrow> real \<Rightarrow> real \<Rightarrow> real" where
  "trade_floor side p entry atr =
     (if side = ''sell'' then short_floor (short_levels p entry atr) else long_floor (long_levels p entry atr))"

definition exits_ok :: "exit_params \<Rightarrow> bool" where
  "exits_ok p \<longleftrightarrow> 0 \<le> xp_stop_atr_mult p \<and> 0 \<le> xp_tp_atr_mult p \<and> 0 \<le> xp_trail_atr_mult p"

lemma leg_init_inv:
  "0 < e \<Longrightarrow> 0 < a \<Longrightarrow> exits_ok p \<Longrightarrow> long_inv (long_levels p e a) leg_init"
  "0 < a \<Longrightarrow> exits_ok p \<Longrightarrow> short_inv (short_levels p e a) leg_init"
  by (simp_all add: long_inv_def short_inv_def leg_init_def long_levels_def short_levels_def exits_ok_def)

lemma simulate_floor:
  assumes run: "simulate_trade sl p candles s = Inr (pnl, ret, reason)"
    and idx: "0 \<le> sg_index s" and ok: "list_all bar_ok candles" "exits_ok p"
    and e: "entry_price_n_plus_one_open sl candles s = Inr e"
    and a: "backtest_atr candles (sg_index s) (xp_atr_period p) = Inr a"
  shows "trade_floor (sg_side s) p e a \<le> pnl"
proof -
  let ?cs = "py_slice candles (sg_index s + 1) (int (length candles))"
  from run obtain 1: "sg_index s + 1 < int (length candles)" and pos: "0 < e"
    and 2: "(if sg_side s = ''sell'' then simulate_short_trade p candles (sg_index s + 1) e a
             else simulate_long_trade p candles (sg_index s + 1) e a) = Inr (pnl, ret, reason)"
    using e a by (elim simulate_trade_Inr) auto
  have cs: "?cs = drop (nat (sg_index s + 1)) candles" using idx by (intro py_slice_from) simp
  have ne: "candles \<noteq> []" "?cs \<noteq> []" "last ?cs = last candles" using 1 idx by (auto simp: cs)
  have all: "list_all bar_ok ?cs" using ok(1) unfolding cs by (auto simp: list_all_iff dest: in_set_dropD)
  have apos: "0 < a" by (rule backtest_atr_pos [OF a])
  show ?thesis
  proof (cases "sg_side s = ''sell''")
    case True
    have "finish_trade (\<lambda>x. lv_entry (short_levels p e a) - x) e candles
        (bar_loop (short_bar (short_levels p e a)) ?cs leg_init) = Inr (pnl, ret, reason)"
      using 2 True by (simp add: simulate_short_trade_def) (simp add: short_levels_def)
    from short.finished_floor [OF ne all leg_init_inv(2) [OF apos ok(2)] this] True show ?thesis by (simp add: trade_floor_def)
  next
    case False
    have "finish_trade (\<lambda>x. x - lv_entry (long_levels p e a)) e candles
        (bar_loop (long_bar (long_levels p e a)) ?cs leg_init) = Inr (pnl, ret, reason)"
      using 2 False by (simp add: simulate_long_trade_def) (simp add: long_levels_def)
    from long.finished_floor [OF ne all leg_init_inv(1) [OF pos apos ok(2)] this] False show ?thesis by (simp add: trade_floor_def)
  qed
qed

text \<open>A closed position ignores the bars after the one that closed it.\<close>

lemma bar_loop_closed: "lg_remaining (bar_loop bar cs l) \<le> 0 \<Longrightarrow> bar_loop bar (cs @ ds) l = bar_loop bar cs l"
proof (induction cs arbitrary: l)
  case Nil
  then show ?case by (cases ds) auto
next
  case (Cons c cs)
  then show ?case by (auto split: prod.splits)
qed

lemma finish_trade_closed:
  "finish_trade g e candles l = Inr (pnl, ret, reason) \<Longrightarrow> reason \<noteq> ''end_of_data'' \<Longrightarrow>
     lg_remaining l \<le> 0 \<and> finish_trade g e candles' l = Inr (pnl, ret, reason)"
  by (auto simp: finish_trade_def py_bind_Inr_iff close_all_def split: if_splits)

lemma finished_append:
  assumes "finish_trade g e candles (bar_loop bar cs l) = Inr (pnl, ret, reason)" "reason \<noteq> ''end_of_data''"
  shows "finish_trade g e candles' (bar_loop bar (cs @ ds) l) = Inr (pnl, ret, reason)"
  using finish_trade_closed [OF assms] bar_loop_closed [of bar cs l ds] by simp

lemma entry_append:
  assumes "0 \<le> sg_index s" "sg_index s + 1 < int (length candles)"
  shows "entry_price_n_plus_one_open sl (candles @ later) s = entry_price_n_plus_one_open sl candles s"
  using assms by (simp add: entry_price_n_plus_one_open_def Let_def py_index_nonneg nth_append nat_less_iff)

lemma atr_append:
  assumes "0 \<le> i" "i + 1 \<le> int (length candles)"
  shows "backtest_atr (candles @ later) i n = backtest_atr candles i n"
  using assms by (simp add: backtest_atr_def Let_def py_slice_append)

lemma simulate_append:
  assumes run: "simulate_trade sl p candles s = Inr (pnl, ret, reason)"
    and idx: "0 \<le> sg_index s" and closed: "reason \<noteq> ''end_of_data''"
  shows "simulate_trade sl p (candles @ later) s = Inr (pnl, ret, reason)"
proof -
  obtain e a where f: "sg_index s + 1 < int (length candles)" "entry_price_n_plus_one_open sl candles s = Inr e" "0 < e"
    "backtest_atr candles (sg_index s) (xp_atr_period p) = Inr a"
    "(if sg_side s = ''sell'' then simulate_short_trade p candles (sg_index s + 1) e a
      else simulate_long_trade p candles (sg_index s + 1) e a) = Inr (pnl, ret, reason)"
    using run by (rule simulate_trade_Inr)
  have sl: "py_slice (candles @ later) (sg_index s + 1) (int (length (candles @ later))) =
      py_slice candles (sg_index s + 1) (int (length candles)) @ later"
    using idx f(1) py_slice_from [of "sg_index s + 1" "candles @ later"] py_slice_from [of "sg_index s + 1" candles] by simp
  have e': "entry_price_n_plus_one_open sl (candles @ later) s = Inr e" using entry_append [OF idx f(1)] f(2) by simp
  have a': "backtest_atr (candles @ later) (sg_index s) (xp_atr_period p) = Inr a"
    using atr_append [of "sg_index s" candles] idx f(1,4) by simp
  have "(if sg_side s = ''sell'' then simulate_short_trade p (candles @ later) (sg_index s + 1) e a
      else simulate_long_trade p (candles @ later) (sg_index s + 1) e a) = Inr (pnl, ret, reason)"
    using f(5) unfolding simulate_short_trade_def simulate_long_trade_def sl
    by (cases "sg_side s = ''sell''") (simp_all only: if_True if_False not_True_eq_False simp_thms finished_append [OF _ closed])
  then show ?thesis using f(1,3) e' a' by (simp add: simulate_trade_def Let_def)
qed

section \<open>The statistics\<close>

lemma drawdown_bounds:
  assumes "0 \<le> eq" "eq \<le> pk" "0 \<le> d" "d \<le> 1"
  shows "0 \<le> drawdown_loop rs eq pk d \<and> drawdown_loop rs eq pk d \<le> 1"
  using assms
proof (induction rs arbitrary: eq pk d)
  case (Cons r rs)
  let ?e = "eq * max 0 (1 + r)" let ?p = "max pk ?e"
  have e: "0 \<le> ?e" "?e \<le> ?p" using Cons.prems by auto
  have q: "0 \<le> (?p - ?e) / ?p \<and> (?p - ?e) / ?p \<le> 1" if "0 < ?p" using that e by (simp add: field_simps)
  show ?case
  proof (cases "0 < ?p")
    case True
    then show ?thesis using q [OF True] Cons.prems Cons.IH [OF e, of "max d ((?p - ?e) / ?p)"] by (simp add: Let_def)
  next
    case False
    then show ?thesis using Cons.prems Cons.IH [OF e, of d] by (simp only: drawdown_loop.simps Let_def if_False)
  qed
qed simp

lemma max_drawdown_bounds: "0 \<le> max_drawdown returns" "max_drawdown returns \<le> 1"
  using drawdown_bounds [of 1 1 0 returns] by (simp_all add: max_drawdown_def)

lemma drawdown_no_loss:
  assumes "0 < eq" "list_all (\<lambda>r. 0 \<le> r) rs"
  shows "drawdown_loop rs eq eq 0 = 0"
  using assms
proof (induction rs arbitrary: eq)
  case (Cons r rs)
  have m: "max 0 (1 + r) = 1 + r" using Cons.prems by simp
  have p: "max eq (eq * (1 + r)) = eq * (1 + r)" using Cons.prems by (simp add: max_def)
  have "0 < eq * (1 + r)" using Cons.prems by simp
  with Cons.IH [OF this] Cons.prems m p show ?case by (simp add: Let_def)
qed simp

lemma sum_split_sign:
  "sum_list xs = sum_list (filter (\<lambda>x. x > 0) xs) - \<bar>sum_list (filter (\<lambda>x. x < 0) xs)\<bar>" for xs :: "real list"
proof -
  have "sum_list (filter (\<lambda>x. x < 0) xs) \<le> 0" by (rule sum_list_nonpos) auto
  moreover have "sum_list xs = sum_list (filter (\<lambda>x. x > 0) xs) + sum_list (filter (\<lambda>x. x < 0) xs)"
    by (induction xs) auto
  ultimately show ?thesis by simp
qed

text \<open>What a tally counts.\<close>

definition tally_ok :: "nat \<Rightarrow> tally \<Rightarrow> bool" where
  "tally_ok n t \<longleftrightarrow> length (ty_pnls t) + ty_skipped t = n \<and> length (ty_returns t) = length (ty_pnls t) \<and>
     ty_wins t = length (filter (\<lambda>x. x > 0) (ty_pnls t)) \<and> ty_losses t = length (filter (\<lambda>x. x < 0) (ty_pnls t)) \<and>
     distinct (map fst (ty_reasons t)) \<and> sum_list (map snd (ty_reasons t)) = length (ty_pnls t)"

lemma sum_update:
  "distinct (map fst al) \<Longrightarrow>
     sum_list (map snd (AList.update k v al)) + (case map_of al k of None \<Rightarrow> 0 | Some x \<Rightarrow> x) = sum_list (map snd al) + (v :: nat)"
  by (induction al) (auto split: option.splits simp: map_of_eq_None_iff)

lemma count_reason_sum:
  "distinct (map fst rs) \<Longrightarrow> sum_list (map snd (count_reason r rs)) = Suc (sum_list (map snd rs))"
  using sum_update [of rs r "(case map_of rs r of None \<Rightarrow> 0 | Some n \<Rightarrow> n) + 1"] by (simp add: count_reason_def)

lemma tally_signal_ok:
  assumes "tally_ok n t" "tally_signal sl p candles s t = Inr t'"
  shows "tally_ok (Suc n) t'"
proof -
  consider (skip) "t' = t\<lparr>ty_skipped := ty_skipped t + 1\<rparr>"
    | (trade) pnl ret reason where "t' = t\<lparr>ty_pnls := ty_pnls t @ [pnl], ty_returns := ty_returns t @ [ret],
                 ty_reasons := count_reason reason (ty_reasons t),
                 ty_wins := ty_wins t + (if pnl > 0 then 1 else 0),
                 ty_losses := ty_losses t + (if pnl < 0 then 1 else 0)\<rparr>"
    using assms(2) by (auto simp: tally_signal_def split: sum.splits py_exn.splits)
  then show ?thesis
  proof cases
    case skip
    then show ?thesis using assms(1) by (simp add: tally_ok_def)
  next
    case trade
    then show ?thesis using assms(1) count_reason_sum [of "ty_reasons t"]
      by (auto simp: tally_ok_def count_reason_def distinct_update)
  qed
qed

section \<open>Properties\<close>

text \<open>
  C22: for a signal with a non-negative index, on bars with a positive low that is at most the close and
  a close that is at most the high, and with non-negative multipliers, a simulated trade never
  loses more than its stop allows, or, once the take profit was hit, than half the trailing
  distance below the take profit; a long trade also never loses more than ATR times the stop
  multiplier.
\<close>

theorem simulated_loss_is_bounded:
  assumes "simulate_trade sl p candles s = Inr (pnl, ret, reason)"
    and "0 \<le> sg_index s" "list_all bar_ok candles" "exits_ok p"
    and "entry_price_n_plus_one_open sl candles s = Inr e"
    and "backtest_atr candles (sg_index s) (xp_atr_period p) = Inr a"
  shows "trade_floor (sg_side s) p e a \<le> pnl \<and>
     (sg_side s \<noteq> ''sell'' \<longrightarrow>
        min (- (a * xp_stop_atr_mult p)) (a * xp_tp_atr_mult p - a * xp_trail_atr_mult p / 2) \<le> pnl)"
  using simulate_floor [OF assms]
  by (auto simp: trade_floor_def long_floor_def long_levels_def min_le_iff_disj split: if_splits)

definition sample_bar :: "real \<Rightarrow> real \<Rightarrow> real \<Rightarrow> real \<Rightarrow> candle" where
  "sample_bar op hi lo cl = \<lparr>cd_open = op, cd_high = hi, cd_low = lo, cd_close = cl, cd_ts = 0, cd_volume = 0\<rparr>"

definition sample_bars :: "candle list" where
  "sample_bars = [sample_bar 100 102 98 101, sample_bar 100 106 99 105, sample_bar 105 112 104 111]"

definition sample_signal :: signal where
  "sample_signal = \<lparr>sg_index = 0, sg_side = ''buy'', sg_ticker = ''A'', sg_strategy_id = ''1'', sg_timeframe = ''5m'',
     sg_price = None, sg_signal_time = None\<rparr>"

definition sample_exits :: exit_params where
  "sample_exits = \<lparr>xp_atr_period = 14, xp_stop_atr_mult = 3 / 2, xp_tp_atr_mult = 2, xp_trail_atr_mult = 1\<rparr>"

lemmas sample_bar_defs = sample_bars_def sample_bar_def sample_signal_def sample_exits_def

lemma sample_bars_ok: "list_all bar_ok sample_bars" "exits_ok sample_exits" "0 \<le> sg_index sample_signal"
  by (simp_all add: sample_bar_defs bar_ok_def exits_ok_def)

lemma sample_entry: "entry_price_n_plus_one_open 0 sample_bars sample_signal = Inr 100"
  by (simp add: entry_price_n_plus_one_open_def sample_bar_defs py_index_def)

lemma sample_atr: "backtest_atr sample_bars (sg_index sample_signal) (xp_atr_period sample_exits) = Inr 4"
  by (simp add: backtest_atr_def sample_bar_defs py_slice_def slice_bound_def Let_def compute_atr_def true_ranges_def
      true_range_def py_div_def)

lemma sample_trade: "simulate_trade 0 sample_exits (take 3 sample_bars) sample_signal = Inr (8, 8 / 100, ''trailing_stop'')"
  using sample_entry sample_atr
  by (simp add: simulate_trade_def simulate_long_trade_def long_levels_def sample_bar_defs py_slice_def slice_bound_def
      Let_def long_bar_def leg_init_def close_half_def close_all_def finish_trade_def)

text \<open>A trade that runs into its stop: it loses what the stop allows, 6, and not the 9 down to the close.\<close>

definition losing_bars :: "candle list" where
  "losing_bars = [sample_bar 100 102 98 101, sample_bar 100 101 90 91]"

lemma losing_run:
  "list_all bar_ok losing_bars" "entry_price_n_plus_one_open 0 losing_bars sample_signal = Inr 100"
  "backtest_atr losing_bars (sg_index sample_signal) (xp_atr_period sample_exits) = Inr 4"
  by (simp_all add: losing_bars_def sample_bar_defs bar_ok_def entry_price_n_plus_one_open_def py_index_def backtest_atr_def
      py_slice_def slice_bound_def Let_def compute_atr_def true_ranges_def true_range_def py_div_def)

lemma losing_trade: "simulate_trade 0 sample_exits losing_bars sample_signal = Inr (- 6, - 6 / 100, ''stop_loss'')"
  using losing_run
  by (simp add: simulate_trade_def simulate_long_trade_def long_levels_def losing_bars_def sample_bar_defs py_slice_def slice_bound_def
      Let_def long_bar_def leg_init_def close_half_def close_all_def finish_trade_def)

theorem simulated_loss_is_bounded_witness:
  "case simulate_trade 0 sample_exits losing_bars sample_signal of
     Inl x \<Rightarrow> False
   | Inr (pnl, ret, reason) \<Rightarrow> pnl < 0 \<and> trade_floor (sg_side sample_signal) sample_exits 100 4 \<le> pnl"
  using simulated_loss_is_bounded [OF losing_trade sample_bars_ok(3) losing_run(1) sample_bars_ok(2) losing_run(2,3)]
  by (simp add: losing_trade)

text \<open>
  C21: the simulation does not look ahead: a trade that was closed by a stop or a trailing stop
  has the same result on any longer series of bars.
\<close>

theorem closed_trade_ignores_later_bars:
  assumes "simulate_trade sl p candles s = Inr (pnl, ret, reason)" "0 \<le> sg_index s" "reason \<noteq> ''end_of_data''"
  shows "simulate_trade sl p (candles @ later) s = Inr (pnl, ret, reason)"
  using assms by (rule simulate_append)

theorem closed_trade_ignores_later_bars_witness:
  "simulate_trade 0 sample_exits (sample_bars @ [sample_bar 111 500 1 2]) sample_signal = Inr (8, 8 / 100, ''trailing_stop'')"
  using closed_trade_ignores_later_bars [OF sample_trade sample_bars_ok(3)] by (simp add: sample_bars_def)

text \<open>
  A negative signal index, which the API accepts, makes the simulation enter on the last bar
  with an ATR computed from bars before it, that is from the future of an early signal.
\<close>

theorem negative_index_enters_at_the_end:
  assumes "2 \<le> length candles" "sg_index s = - 2" "sg_side s = ''buy''"
  shows "entry_price_n_plus_one_open sl candles s = Inr (cd_open (last candles) * (1 + sl / 100))"
proof -
  have "py_index candles (- 1) = Inr (last candles)"
    using assms(1) by (cases candles rule: rev_cases) (simp_all add: py_index_def Let_def)
  then show ?thesis using assms by (simp add: entry_price_n_plus_one_open_def Let_def)
qed

theorem negative_index_enters_at_the_end_witness:
  "entry_price_n_plus_one_open 0 sample_bars (sample_signal\<lparr>sg_index := - 2\<rparr>) = Inr 105"
  using negative_index_enters_at_the_end [of sample_bars "sample_signal\<lparr>sg_index := - 2\<rparr>" 0]
  by (simp add: sample_bar_defs)

text \<open>
  The maximum drawdown of any returns lies between zero and one, and is zero when every
  return is taken without its sign, that is when there is no loss.
\<close>

theorem drawdown_is_a_fraction:
  "0 \<le> max_drawdown returns \<and> max_drawdown returns \<le> 1 \<and>
   max_drawdown (map abs returns) = 0"
  using max_drawdown_bounds drawdown_no_loss [of 1 "map abs returns"] by (auto simp: max_drawdown_def list_all_iff)

end
