(* ===== verification/Backtest_Jobs.thy ===== *)
theory Backtest_Jobs
  imports Backtest Py_Datetime
begin

text \<open>
  \<open>BacktestJobService\<close> and \<open>AutoBacktestScheduler\<close>: the store of jobs, the asynchronous run of a job
  as a small-step task (one step from one suspension point to the next), the eviction of old jobs,
  and the daily scheduler. The numbers of a job's \<open>meta\<close> dictionary are finite floats, as the
  callers put them there; its other entries are not read.
\<close>

section \<open>Jobs\<close>

record job_meta =
  mt_source :: "string option"
  mt_atr_period :: "real option"
  mt_stop_atr_mult :: "real option"
  mt_tp_atr_mult :: "real option"
  mt_trail_atr_mult :: "real option"

definition meta_empty :: job_meta where
  "meta_empty = \<lparr>mt_source = None, mt_atr_period = None, mt_stop_atr_mult = None, mt_tp_atr_mult = None, mt_trail_atr_mult = None\<rparr>"

record job =
  jb_status :: string
  jb_progress :: int
  jb_created_at :: instant
  jb_started_at :: "instant option"
  jb_completed_at :: "instant option"
  jb_result :: "run_metrics option"
  jb_error :: "string option"
  jb_meta :: job_meta

type_synonym jobs = "(string \<times> job) list"

text \<open>One pass of \<open>_run_job\<close>; \<open>Announcing\<close> is the await of the completion message.\<close>

datatype activity =
    Pending
  | Working nat exit_params tally
  | Announcing
  | Ended

record run =
  ru_job :: string
  ru_candles :: "candle list"
  ru_signals :: "signal list"
  ru_slippage :: real
  ru_activity :: activity

text \<open>The alert sink: absent, delivering, or raising.\<close>

datatype sink = NoSink | Delivers | Raises string

record backtests =
  bs_max_jobs :: int
  bs_jobs :: jobs
  bs_runs :: "run list"
  bs_alerts :: "(string \<times> string) list"  \<comment> \<open>the messages handed to the sink: job and status\<close>

definition backtests_init :: "int \<Rightarrow> backtests" where
  "backtests_init max_jobs = \<lparr>bs_max_jobs = max_jobs, bs_jobs = [], bs_runs = [], bs_alerts = []\<rparr>"

definition update_job :: "string \<Rightarrow> (job \<Rightarrow> job) \<Rightarrow> jobs \<Rightarrow> jobs" where
  "update_job job_id f js = map (\<lambda>(k, j). (k, if k = job_id then f j else j)) js"

definition trim_jobs :: "int \<Rightarrow> jobs \<Rightarrow> jobs" where
  "trim_jobs max_jobs js =
     (let overflow = int (length js) - max_jobs in
      if overflow \<le> 0 then js
      else (let keys = map fst (sort_key (\<lambda>(k, j). jb_created_at j) js); gone = take (nat overflow) keys
            in filter (\<lambda>(k, j). k \<notin> set gone) js))"

definition new_job :: "instant \<Rightarrow> job_meta \<Rightarrow> job" where
  "new_job now meta = \<lparr>jb_status = ''queued'', jb_progress = 0, jb_created_at = now, jb_started_at = None,
     jb_completed_at = None, jb_result = None, jb_error = None, jb_meta = meta\<rparr>"

text \<open>\<open>start_job\<close>; the identifier is the \<open>uuid4\<close> drawn for it.\<close>

definition start_job ::
  "string \<Rightarrow> instant \<Rightarrow> candle list \<Rightarrow> signal list \<Rightarrow> real \<Rightarrow> job_meta \<Rightarrow> backtests \<Rightarrow> backtests" where
  "start_job job_id now candles signals slippage_pct meta s =
     s\<lparr>bs_jobs := trim_jobs (bs_max_jobs s) (AList.update job_id (new_job now meta) (bs_jobs s)),
       bs_runs := bs_runs s @ [\<lparr>ru_job = job_id, ru_candles = candles, ru_signals = signals,
         ru_slippage = slippage_pct, ru_activity = Pending\<rparr>]\<rparr>"

definition get_job :: "string \<Rightarrow> backtests \<Rightarrow> job option" where
  "get_job job_id s = map_of (bs_jobs s) job_id"

definition jobs_with_status :: "string option \<Rightarrow> backtests \<Rightarrow> (string \<times> job) list" where
  "jobs_with_status status s =
     (case status of
        None \<Rightarrow> bs_jobs s
      | Some st \<Rightarrow> if py_strip st = [] then bs_jobs s else filter (\<lambda>(k, j). jb_status j = st) (bs_jobs s))"

definition list_jobs :: "int \<Rightarrow> int \<Rightarrow> string option \<Rightarrow> backtests \<Rightarrow> (string \<times> job) list" where
  "list_jobs limit offset status s =
     (let rows = py_sorted_rev (\<lambda>(k, j). jb_created_at j) (jobs_with_status status s);
          start = max offset 0; stop = start + max limit 0
      in py_slice rows start stop)"

definition count_jobs :: "string option \<Rightarrow> backtests \<Rightarrow> nat" where
  "count_jobs status s = length (jobs_with_status status s)"

section \<open>The run of a job\<close>

definition params_of :: "job_meta \<Rightarrow> exit_params" where
  "params_of m =
     (let get = (\<lambda>x d. case x of None \<Rightarrow> d | Some v \<Rightarrow> v) in
      \<lparr>xp_atr_period = max (truncate_real (get (mt_atr_period m) 14)) 1,
       xp_stop_atr_mult = get (mt_stop_atr_mult m) (3 / 2),
       xp_tp_atr_mult = get (mt_tp_atr_mult m) 2,
       xp_trail_atr_mult = get (mt_trail_atr_mult m) (3 / 2)\<rparr>)"

definition progress_of :: "nat \<Rightarrow> nat \<Rightarrow> int" where
  "progress_of k n = truncate_real (real k / real (max n 1) * 100)"

definition update_progress :: "string \<Rightarrow> int \<Rightarrow> jobs \<Rightarrow> jobs" where
  "update_progress job_id progress js = update_job job_id (\<lambda>j. j\<lparr>jb_progress := max 0 (min progress 100)\<rparr>) js"

definition should_notify_completion :: "job \<Rightarrow> bool" where
  "should_notify_completion j =
     (case mt_source (jb_meta j) of None \<Rightarrow> True | Some src \<Rightarrow> py_lower (py_strip src) \<noteq> ''dashboard_manual'')"

definition mark_running :: "instant \<Rightarrow> job \<Rightarrow> job" where
  "mark_running now j = j\<lparr>jb_status := ''running'', jb_started_at := Some now\<rparr>"

definition mark_completed :: "instant \<Rightarrow> run_metrics \<Rightarrow> job \<Rightarrow> job" where
  "mark_completed now result j =
     j\<lparr>jb_status := ''completed'', jb_progress := 100, jb_result := Some result, jb_completed_at := Some now\<rparr>"

definition mark_failed :: "instant \<Rightarrow> string \<Rightarrow> job \<Rightarrow> job" where
  "mark_failed now err j = j\<lparr>jb_status := ''failed'', jb_error := Some err, jb_completed_at := Some now\<rparr>"

text \<open>The handler of an exception; an evicted job is left alone. The run is over in any case.\<close>

definition fail_run :: "sink \<Rightarrow> instant \<Rightarrow> string \<Rightarrow> run \<Rightarrow> jobs \<times> (string \<times> string) list \<Rightarrow> run \<times> jobs \<times> (string \<times> string) list" where
  "fail_run snk now err r s =
     (case s of (js, al) \<Rightarrow>
        (r\<lparr>ru_activity := Ended\<rparr>,
         case map_of js (ru_job r) of
           None \<Rightarrow> (js, al)
         | Some j \<Rightarrow> (update_job (ru_job r) (mark_failed now err) js,
                     if should_notify_completion j \<and> snk \<noteq> NoSink then al @ [(ru_job r, ''failed'')] else al)))"

definition run_step :: "sink \<Rightarrow> instant \<Rightarrow> run \<Rightarrow> jobs \<times> (string \<times> string) list \<Rightarrow> run \<times> jobs \<times> (string \<times> string) list" where
  "run_step snk now r s =
     (case s of (js, al) \<Rightarrow>
      (case ru_activity r of
         Pending \<Rightarrow>
           (case map_of js (ru_job r) of
              None \<Rightarrow> (r\<lparr>ru_activity := Ended\<rparr>, s)
            | Some j \<Rightarrow> (r\<lparr>ru_activity := Working 0 (params_of (jb_meta j)) tally_init\<rparr>,
                        update_job (ru_job r) (mark_running now) js, al))
       | Working k p t \<Rightarrow>
           if k < length (ru_signals r)
           then (case tally_signal (ru_slippage r) p (ru_candles r) (ru_signals r ! k) t of
                   Inr t' \<Rightarrow>
                     (r\<lparr>ru_activity := Working (Suc k) p t'\<rparr>,
                      update_progress (ru_job r) (progress_of (Suc k) (length (ru_signals r))) js, al)
                 | Inl x \<Rightarrow> fail_run snk now (exn_str x) r s)
           else
             (case map_of js (ru_job r) of
                None \<Rightarrow> (r\<lparr>ru_activity := Ended\<rparr>, s)
              | Some j \<Rightarrow>
                  (r\<lparr>ru_activity := (if should_notify_completion j \<and> snk \<noteq> NoSink then Announcing else Ended)\<rparr>,
                   update_job (ru_job r) (mark_completed now (metrics_of t)) js, al))
       | Announcing \<Rightarrow>
           (case snk of
              Raises m \<Rightarrow> fail_run snk now m r (js, al @ [(ru_job r, ''completed'')])
            | _ \<Rightarrow> (r\<lparr>ru_activity := Ended\<rparr>, js, al @ [(ru_job r, ''completed'')]))
       | Ended \<Rightarrow> (r, s)))"

text \<open>The event loop: a job is submitted, or one of the runs takes its next step.\<close>

inductive bt_step :: "backtests \<Rightarrow> backtests \<Rightarrow> bool" where
  submit: "job_id \<notin> fst ` set (bs_jobs s) \<Longrightarrow> job_id \<notin> ru_job ` set (bs_runs s) \<Longrightarrow>
     bt_step s (start_job job_id now candles signals slippage_pct meta s)"
| work: "i < length (bs_runs s) \<Longrightarrow> run_step snk now (bs_runs s ! i) (bs_jobs s, bs_alerts s) = (r, js, al) \<Longrightarrow>
     bt_step s (s\<lparr>bs_runs := (bs_runs s)[i := r], bs_jobs := js, bs_alerts := al\<rparr>)"

inductive bt_reachable :: "int \<Rightarrow> backtests \<Rightarrow> bool" for max_jobs where
  "bt_reachable max_jobs (backtests_init max_jobs)"
| "bt_reachable max_jobs s \<Longrightarrow> bt_step s s' \<Longrightarrow> bt_reachable max_jobs s'"

inductive_cases bt_stepE: "bt_step s s'"

section \<open>The scheduler\<close>

record scheduler =
  sc_last_run_date :: "string option"
  sc_last_job_id :: "string option"
  sc_last_status :: "string option"
  sc_last_reason :: "string option"
  sc_last_checked_at :: "datetime option"
  sc_last_job :: "(string \<times> job) option"
  sc_last_job_completed_at :: "datetime option"

record schedule_params =
  sp_enabled :: bool
  sp_run_hour :: int
  sp_max_signals :: int

definition scheduler_init :: scheduler where
  "scheduler_init = \<lparr>sc_last_run_date = None, sc_last_job_id = None, sc_last_status = None, sc_last_reason = None,
     sc_last_checked_at = None, sc_last_job = None, sc_last_job_completed_at = None\<rparr>"

datatype trigger_reply = Skipped string | Triggered string string nat nat real

definition skip :: "string \<Rightarrow> scheduler \<Rightarrow> trigger_reply \<times> scheduler" where
  "skip reason sc = (Skipped reason, sc\<lparr>sc_last_status := Some ''skipped'', sc_last_reason := Some reason\<rparr>)"

definition build_signals :: "int \<Rightarrow> candle list \<Rightarrow> signal list" where
  "build_signals max_signals candles =
     (let stop_idx = int (length candles) - 1 in
      if stop_idx \<le> 0 then []
      else (let start = max 0 (stop_idx - max_signals) in
            map (\<lambda>i. \<lparr>sg_index = i,
                      sg_side = (if cd_close (candles ! nat i) \<ge> cd_open (candles ! nat i) then ''buy'' else ''sell''),
                      sg_ticker = ''AUTO'', sg_strategy_id = ''default'', sg_timeframe = ''5m'', sg_price = None,
                      sg_signal_time = None\<rparr>) [start..stop_idx - 1]))"

definition clamp_slippage :: "real \<Rightarrow> real" where
  "clamp_slippage x = min (max x 0) (1 / 2)"

definition trigger_now ::
  "int \<Rightarrow> string \<Rightarrow> datetime \<Rightarrow> string \<Rightarrow> instant \<Rightarrow> candle list \<Rightarrow> real \<Rightarrow> scheduler \<times> backtests \<Rightarrow> trigger_reply \<times> scheduler \<times> backtests" where
  "trigger_now max_signals reason now job_id created candles slippage s =
     (case s of (sc, b) \<Rightarrow>
        if length candles < 2 then (case skip ''insufficient_candles'' sc of (r, sc') \<Rightarrow> (r, sc', b))
        else (let signals = build_signals max_signals candles in
              if signals = [] then (case skip ''no_signals'' sc of (r, sc') \<Rightarrow> (r, sc', b))
              else (Triggered reason job_id (length signals) (length candles) (clamp_slippage slippage),
                    sc\<lparr>sc_last_run_date := Some (date_str now), sc_last_job_id := Some job_id,
                       sc_last_status := Some ''triggered'', sc_last_reason := Some reason, sc_last_job := None\<rparr>,
                    start_job job_id created candles signals (clamp_slippage slippage) meta_empty b)))"

definition trigger_if_due ::
  "schedule_params \<Rightarrow> datetime \<Rightarrow> datetime \<Rightarrow> string \<Rightarrow> instant \<Rightarrow> candle list \<Rightarrow> real \<Rightarrow> scheduler \<times> backtests \<Rightarrow> trigger_reply \<times> scheduler \<times> backtests" where
  "trigger_if_due p now now' job_id created candles slippage s =
     (case s of (sc0, b) \<Rightarrow>
      (let sc = sc0\<lparr>sc_last_checked_at := Some now\<rparr>;
           skipped = (\<lambda>reason. case skip reason sc of (r, sc') \<Rightarrow> (r, sc', b))
       in if \<not> sp_enabled p then skipped ''disabled''
          else if int (dt_hour now) < sp_run_hour p then skipped (''before_run_hour('' @ show_int (sp_run_hour p) @ '')'')
          else if sc_last_run_date sc = Some (date_str now) then skipped ''already_ran_today''
          else trigger_now (sp_max_signals p) ''scheduled'' now' job_id created candles slippage (sc, b)))"

text \<open>One poll of \<open>_watch_job\<close>: whether it goes on waiting, and the snapshot of a finished job.\<close>

definition watch_job :: "string \<Rightarrow> datetime \<Rightarrow> backtests \<Rightarrow> scheduler \<Rightarrow> bool \<times> scheduler" where
  "watch_job job_id now b sc =
     (case get_job job_id b of
        None \<Rightarrow> (False, sc)
      | Some j \<Rightarrow>
          if jb_status j = ''completed'' \<or> jb_status j = ''failed''
          then (False, sc\<lparr>sc_last_job := Some (job_id, j), sc_last_job_completed_at := Some now\<rparr>)
          else (True, sc))"

section \<open>Eviction\<close>

lemma map_of_update_job:
  "map_of (update_job job_id f js) k = (if k = job_id then map_option f (map_of js job_id) else map_of js k)"
  by (induction js) (auto simp: update_job_def)

lemma keys_update_job [simp]: "map fst (update_job job_id f js) = map fst js"
  by (auto simp: update_job_def)

lemma filter_distinct_split:
  assumes "distinct (map fst (xs @ ys))"
  shows "filter (\<lambda>(k, j). k \<notin> fst ` set xs) (xs @ ys) = ys"
proof -
  have "filter (\<lambda>(k, j). k \<notin> fst ` set xs) xs = []" by (auto simp: filter_empty_conv image_iff)
  moreover have "filter (\<lambda>(k, j). k \<notin> fst ` set xs) ys = ys"
  proof (rule filter_True, rule ballI)
    fix y assume y: "y \<in> set ys"
    then have "fst y \<in> fst ` set ys" by simp
    then have "fst y \<notin> fst ` set xs" using assms by auto
    then show "case y of (k, j) \<Rightarrow> k \<notin> fst ` set xs" by (cases y) simp
  qed
  ultimately show ?thesis by simp
qed

text \<open>What is evicted are the oldest jobs: a prefix of the jobs in the order of their creation.\<close>

lemma trim_jobs_split:
  assumes "distinct (map fst js)"
  obtains xs ys where "sort_key (\<lambda>(k, j). jb_created_at j) js = xs @ ys" "length ys = min (length js) (nat mx)"
    "mset (trim_jobs mx js) = mset ys" "trim_jobs mx js = filter (\<lambda>(k, j). k \<notin> fst ` set xs) js"
proof -
  let ?f = "\<lambda>(k :: string, j). jb_created_at j" let ?sl = "sort_key ?f js" and ?n = "nat (int (length js) - mx)"
  let ?xs = "take ?n ?sl" and ?ys = "drop ?n ?sl"
  have m: "mset (map fst ?sl) = mset (map fst js)" by (simp only: mset_map mset_sort)
  then have d: "distinct (map fst (?xs @ ?ys))" using assms mset_eq_imp_distinct_iff by (metis append_take_drop_id)
  have keep: "trim_jobs mx js = filter (\<lambda>(k, j). k \<notin> fst ` set ?xs) js"
    by (auto simp: trim_jobs_def Let_def take_map simp flip: set_map intro!: filter_True [symmetric])
  have "mset (trim_jobs mx js) = mset (filter (\<lambda>(k, j). k \<notin> fst ` set ?xs) ?sl)"
    by (simp add: keep)
  also have "\<dots> = mset ?ys" using filter_distinct_split [OF d] by simp
  finally have ms: "mset (trim_jobs mx js) = mset ?ys" .
  have "length ?ys = min (length js) (nat mx)" by auto
  from that [OF append_take_drop_id [symmetric] this ms keep] show thesis .
qed

lemma trim_jobs_length:
  assumes "distinct (map fst js)"
  shows "length (trim_jobs mx js) = min (length js) (nat mx)"
  using assms by (rule trim_jobs_split [of js mx]) (metis size_mset)

lemma trim_jobs_lookup:
  "map_of (trim_jobs mx js) k = Some j \<Longrightarrow> distinct (map fst js) \<Longrightarrow> map_of js k = Some j"
  by (auto simp: trim_jobs_def Let_def split: if_splits dest!: map_of_SomeD)

lemma trim_jobs_keys: "distinct (map fst js) \<Longrightarrow> distinct (map fst (trim_jobs mx js))"
  by (auto simp: trim_jobs_def Let_def distinct_map_filter)

lemma trim_jobs_oldest:
  assumes "distinct (map fst js)" "(k, j) \<in> set js" "(k, j) \<notin> set (trim_jobs mx js)" "(k', j') \<in> set (trim_jobs mx js)"
  shows "jb_created_at j \<le> jb_created_at j'"
proof -
  obtain xs ys where s: "sort_key (\<lambda>(k, j). jb_created_at j) js = xs @ ys"
    and ms: "mset (trim_jobs mx js) = mset ys"
    by (rule trim_jobs_split [OF assms(1), of mx])
  have "sorted (map (\<lambda>(k, j). jb_created_at j) (xs @ ys))" unfolding s [symmetric] by simp
  moreover have "(k', j') \<in> set ys" using assms(4) ms mset_eq_setD by blast
  moreover have "(k, j) \<in> set xs"
  proof -
    have "(k, j) \<in> set (xs @ ys)" using assms(2) unfolding s [symmetric] by simp
    moreover have "set (trim_jobs mx js) = set ys" using ms by (rule mset_eq_setD)
    ultimately show ?thesis using assms(3) by simp
  qed
  ultimately show ?thesis by (auto simp: sorted_append)
qed

section \<open>A run ends\<close>

lemma fail_run_Ended: "fail_run snk now err r s = (r', s') \<Longrightarrow> r' = r\<lparr>ru_activity := Ended\<rparr>"
  by (auto simp: fail_run_def split: prod.splits)

fun steps_left :: "nat \<Rightarrow> activity \<Rightarrow> nat" where
  "steps_left n Pending = n + 3"
| "steps_left n (Working k p t) = n - k + 2"
| "steps_left n Announcing = 1"
| "steps_left n Ended = 0"

lemma run_step_same:
  assumes "run_step snk now r s = (r', s')"
  shows "ru_job r' = ru_job r \<and> ru_signals r' = ru_signals r \<and> ru_candles r' = ru_candles r \<and> ru_slippage r' = ru_slippage r"
  using assms
  by (auto simp: run_step_def split: prod.splits activity.splits option.splits sum.splits sink.splits if_splits
      dest!: fail_run_Ended)

lemma run_step_left:
  assumes "run_step snk now r s = (r', s')"
  shows "steps_left (length (ru_signals r)) (ru_activity r') \<le> steps_left (length (ru_signals r)) (ru_activity r) - 1"
  using assms
  by (auto simp: run_step_def split: prod.splits activity.splits option.splits sum.splits sink.splits if_splits
      dest!: fail_run_Ended)

text \<open>A run on its own, with what the sink and the clock do at each of its steps.\<close>

fun run_alone :: "(sink \<times> instant) list \<Rightarrow> run \<Rightarrow> jobs \<times> (string \<times> string) list \<Rightarrow> run \<times> jobs \<times> (string \<times> string) list" where
  "run_alone [] r s = (r, s)"
| "run_alone ((snk, now) # es) r s = (case run_step snk now r s of (r', s') \<Rightarrow> run_alone es r' s')"

lemma run_alone_left:
  "run_alone es r s = (r', s') \<Longrightarrow>
     ru_signals r' = ru_signals r \<and>
     steps_left (length (ru_signals r)) (ru_activity r') \<le> steps_left (length (ru_signals r)) (ru_activity r) - length es"
proof (induction es arbitrary: r s)
  case (Cons e es)
  obtain snk now where e: "e = (snk, now)" by fastforce
  obtain r1 s1 where st: "run_step snk now r s = (r1, s1)" by (rule prod.exhaust)
  have "run_alone es r1 s1 = (r', s')" using Cons.prems e st by simp
  from Cons.IH [OF this] run_step_same [OF st] run_step_left [OF st] show ?case by auto
qed simp

lemma steps_left_0: "steps_left n a = 0 \<Longrightarrow> a = Ended"
  by (cases a) auto

lemma run_alone_ends:
  assumes "length (ru_signals r) + 3 \<le> length es"
  shows "ru_activity (fst (run_alone es r s)) = Ended"
proof -
  obtain r' s' where run: "run_alone es r s = (r', s')" by (rule prod.exhaust)
  have "steps_left n a \<le> n + 3" for n a by (cases a) auto
  from this [of "length (ru_signals r)" "ru_activity r"] have "steps_left (length (ru_signals r)) (ru_activity r') = 0"
    using run_alone_left [OF run] assms by linarith
  then show ?thesis using run by (simp add: steps_left_0)
qed

section \<open>A run and its job\<close>

lemma progress_of_bounds: "k \<le> n \<Longrightarrow> 0 \<le> progress_of k n \<and> progress_of k n \<le> 100"
  by (auto simp: progress_of_def truncate_real_def field_simps intro!: floor_le_iff [THEN iffD2])

definition completed_ok :: "run \<Rightarrow> job \<Rightarrow> bool" where
  "completed_ok r j \<longleftrightarrow> jb_status j = ''completed'' \<and> jb_progress j = 100 \<and>
     (\<exists>t. tally_ok (length (ru_signals r)) t \<and> jb_result j = Some (metrics_of t))"

definition run_ok :: "run \<Rightarrow> job option \<Rightarrow> bool" where
  "run_ok r jo \<longleftrightarrow>
     (case ru_activity r of Working k p t \<Rightarrow> k \<le> length (ru_signals r) \<and> tally_ok k t | _ \<Rightarrow> True) \<and>
     (case jo of None \<Rightarrow> True
      | Some j \<Rightarrow>
          (case ru_activity r of
             Pending \<Rightarrow> jb_status j = ''queued'' \<and> jb_progress j = 0 \<and> jb_result j = None
           | Working k p t \<Rightarrow> jb_status j = ''running'' \<and> jb_progress j = progress_of k (length (ru_signals r)) \<and> jb_result j = None
           | Announcing \<Rightarrow> completed_ok r j
           | Ended \<Rightarrow> completed_ok r j \<or> (jb_status j = ''failed'' \<and> jb_error j \<noteq> None)))"

lemma tally_init_ok: "tally_ok 0 tally_init"
  by (simp add: tally_ok_def tally_init_def)

lemma mark_completed_ok:
  "tally_ok (length (ru_signals r)) t \<Longrightarrow> completed_ok (r\<lparr>ru_activity := a\<rparr>) (mark_completed now (metrics_of t) j)"
  by (auto simp: completed_ok_def mark_completed_def)

lemma fail_run_ok:
  assumes "fail_run snk now err r (js, al) = (r', js', al')"
  shows "run_ok r' (map_of js' (ru_job r))"
  using assms
  by (auto simp: fail_run_def run_ok_def map_of_update_job mark_failed_def split: option.splits)

lemma run_step_ok:
  assumes "run_step snk now r (js, al) = (r', js', al')" "run_ok r (map_of js (ru_job r))"
  shows "run_ok r' (map_of js' (ru_job r))"
proof (cases "ru_activity r")
  case Pending
  then show ?thesis using assms
    by (auto simp: run_step_def run_ok_def map_of_update_job mark_running_def tally_init_ok progress_of_def truncate_real_def
        split: option.splits)
next
  case (Working k p t)
  show ?thesis
  proof (cases "k < length (ru_signals r)")
    case True
    show ?thesis
    proof (cases "tally_signal (ru_slippage r) p (ru_candles r) (ru_signals r ! k) t")
      case (Inl x)
      then have "fail_run snk now (exn_str x) r (js, al) = (r', js', al')"
        using assms(1) Working True by (simp add: run_step_def)
      then show ?thesis by (rule fail_run_ok)
    next
      case (Inr t')
      then show ?thesis using assms Working True tally_signal_ok [OF _ Inr] progress_of_bounds [of "Suc k" "length (ru_signals r)"]
        by (auto simp: run_step_def run_ok_def map_of_update_job update_progress_def split: option.splits)
    qed
  next
    case False
    then show ?thesis using assms Working
      by (auto simp: run_step_def run_ok_def map_of_update_job split: option.splits if_splits intro: mark_completed_ok)
  qed
next
  case Announcing
  show ?thesis
  proof (cases snk)
    case (Raises m)
    then have "fail_run snk now m r (js, al @ [(ru_job r, ''completed'')]) = (r', js', al')"
      using assms(1) Announcing by (simp add: run_step_def)
    then show ?thesis by (rule fail_run_ok)
  qed (use assms Announcing in \<open>auto simp: run_step_def run_ok_def completed_ok_def split: option.splits\<close>)
next
  case Ended
  then show ?thesis using assms by (auto simp: run_step_def)
qed

lemma run_step_frame:
  assumes "run_step snk now r (js, al) = (r', js', al')"
  shows "\<exists>f. js' = update_job (ru_job r) f js"
proof -
  have id: "update_job k (\<lambda>j. j) js = js" for k js by (auto simp: update_job_def intro: map_idI)
  show ?thesis using assms
    by (auto simp: run_step_def fail_run_def update_progress_def split: activity.splits option.splits sum.splits sink.splits if_splits
        intro: id [symmetric])
qed

section \<open>All jobs\<close>

definition bt_inv :: "int \<Rightarrow> backtests \<Rightarrow> bool" where
  "bt_inv mx s \<longleftrightarrow> bs_max_jobs s = mx \<and> distinct (map fst (bs_jobs s)) \<and> length (bs_jobs s) \<le> nat mx \<and>
     distinct (map ru_job (bs_runs s)) \<and> (\<forall>r\<in>set (bs_runs s). run_ok r (map_of (bs_jobs s) (ru_job r))) \<and>
     fst ` set (bs_jobs s) \<subseteq> ru_job ` set (bs_runs s)"

lemma run_ok_None: "run_ok r jo \<Longrightarrow> run_ok r None"
  by (simp add: run_ok_def)

lemma start_job_inv:
  assumes inv: "bt_inv mx s" and new: "job_id \<notin> ru_job ` set (bs_runs s)"
  shows "bt_inv mx (start_job job_id now candles signals slippage_pct meta s)"
proof -
  let ?js = "AList.update job_id (new_job now meta) (bs_jobs s)"
  have d: "distinct (map fst ?js)" using inv by (simp add: bt_inv_def distinct_update)
  have look: "map_of (trim_jobs mx ?js) k = None \<or> map_of (trim_jobs mx ?js) k = map_of ?js k" for k
    using trim_jobs_lookup [OF _ d, of mx k] by (cases "map_of (trim_jobs mx ?js) k") auto
  have old: "run_ok r (map_of (trim_jobs mx ?js) (ru_job r))" if "r \<in> set (bs_runs s)" for r
  proof -
    have "run_ok r (map_of (bs_jobs s) (ru_job r))" "ru_job r \<noteq> job_id" using inv that new by (auto simp: bt_inv_def)
    then show ?thesis using look [of "ru_job r"] run_ok_None by (fastforce simp: update_conv')
  qed
  have fresh: "run_ok \<lparr>ru_job = job_id, ru_candles = candles, ru_signals = signals, ru_slippage = slippage_pct,
      ru_activity = Pending\<rparr> (map_of (trim_jobs mx ?js) job_id)"
    using look [of job_id] by (auto simp: update_conv' run_ok_def new_job_def)
  have len: "length (trim_jobs mx ?js) \<le> nat mx" using trim_jobs_length [OF d, of mx] by simp
  have "fst ` set (trim_jobs mx ?js) \<subseteq> fst ` set ?js" by (auto simp: trim_jobs_def Let_def)
  also have "\<dots> \<subseteq> insert job_id (fst ` set (bs_jobs s))" using dom_update [of job_id "new_job now meta" "bs_jobs s"]
    by (auto simp: dom_map_of_conv_image_fst)
  also have "\<dots> \<subseteq> insert job_id (ru_job ` set (bs_runs s))"
    using inv unfolding bt_inv_def by (intro insert_mono) simp
  finally have keys: "fst ` set (trim_jobs mx ?js) \<subseteq> insert job_id (ru_job ` set (bs_runs s))" .
  from inv new old fresh len keys trim_jobs_keys [OF d, of mx] show ?thesis
    by (simp add: bt_inv_def start_job_def)
qed

lemma work_inv:
  assumes inv: "bt_inv mx s" and i: "i < length (bs_runs s)"
    and st: "run_step snk now (bs_runs s ! i) (bs_jobs s, bs_alerts s) = (r, js, al)"
  shows "bt_inv mx (s\<lparr>bs_runs := (bs_runs s)[i := r], bs_jobs := js, bs_alerts := al\<rparr>)"
proof -
  let ?r = "bs_runs s ! i"
  obtain f where js: "js = update_job (ru_job ?r) f (bs_jobs s)" using run_step_frame [OF st] by blast
  have same: "ru_job r = ru_job ?r" using run_step_same [OF st] by simp
  have ids: "map ru_job ((bs_runs s)[i := r]) = map ru_job (bs_runs s)"
    using i same by (simp add: map_update list_update_same_conv)
  have ok: "run_ok r (map_of js (ru_job r))"
    using run_step_ok [OF st] inv i same by (simp add: bt_inv_def)
  have "run_ok x (map_of js (ru_job x))" if x: "x \<in> set ((bs_runs s)[i := r])" for x
  proof -
    obtain n where n: "n < length (bs_runs s)" "x = (bs_runs s)[i := r] ! n" using x by (auto simp: in_set_conv_nth)
    show ?thesis
    proof (cases "n = i")
      case True
      then show ?thesis using n i ok by simp
    next
      case False
      then have "x = bs_runs s ! n" using n by simp
      moreover have "ru_job (bs_runs s ! n) \<noteq> ru_job ?r"
        using inv n(1) i False nth_eq_iff_index_eq [of "map ru_job (bs_runs s)" n i] by (simp add: bt_inv_def)
      ultimately show ?thesis using inv n(1) js by (simp add: bt_inv_def map_of_update_job)
    qed
  qed
  moreover have "map fst js = map fst (bs_jobs s)" by (simp add: js)
  moreover have "ru_job ` set ((bs_runs s)[i := r]) = ru_job ` set (bs_runs s)" by (metis ids set_map)
  moreover have "fst ` set js = fst ` set (bs_jobs s)" by (metis calculation(2) set_map)
  ultimately show ?thesis using inv ids length_map [of fst js] length_map [of fst "bs_jobs s"]
    by (simp add: bt_inv_def)
qed

lemma bt_reachable_inv: "bt_reachable mx s \<Longrightarrow> bt_inv mx s"
proof (induction rule: bt_reachable.induct)
  case 1
  show ?case by (simp add: bt_inv_def backtests_init_def)
next
  case (2 s s')
  from 2(2) show ?case
  proof (cases rule: bt_step.cases)
    case submit
    then show ?thesis using start_job_inv [OF 2(3)] by simp
  next
    case work
    then show ?thesis using work_inv [OF 2(3)] by simp
  qed
qed

text \<open>A stored job belongs to a run that agrees with it.\<close>

lemma stored_job_has_run:
  assumes "bt_inv mx s" "get_job job_id s = Some j"
  obtains r where "r \<in> set (bs_runs s)" "ru_job r = job_id" "run_ok r (Some j)"
  using assms by (auto simp: bt_inv_def get_job_def dest!: map_of_SomeD)
    (metis (no_types, lifting) eq_key_imp_eq_value image_iff map_of_eq_Some_iff subsetD imageI fst_conv)

lemma run_ok_cases:
  assumes "run_ok r (Some j)"
  obtains (waiting) "jb_status j = ''queued'' \<or> jb_status j = ''running''"
  | (completed) "completed_ok r j"
  | (failed) "jb_status j = ''failed''" "jb_error j \<noteq> None"
  using assms by (auto simp: run_ok_def split: activity.splits)

lemma completed_metrics:
  assumes "completed_ok r j" "jb_result j = Some m"
  shows "rm_trade_count m + rm_skipped m = length (ru_signals r) \<and> rm_total_pnl m = rm_gross_profit m - rm_gross_loss m"
proof -
  obtain t where t: "tally_ok (length (ru_signals r)) t" "m = metrics_of t"
    using assms by (auto simp: completed_ok_def)
  then show ?thesis using sum_split_sign [of "ty_pnls t"] by (simp add: metrics_of_def tally_ok_def Let_def)
qed

section \<open>What a run computes\<close>

fun tally_all :: "real \<Rightarrow> exit_params \<Rightarrow> candle list \<Rightarrow> signal list \<Rightarrow> tally \<Rightarrow> tally py" where
  "tally_all sl p candles [] t = Inr t"
| "tally_all sl p candles (s # ss) t = py_bind (tally_signal sl p candles s t) (tally_all sl p candles ss)"

lemma run_alone_append: "run_alone (es @ fs) r s = (case run_alone es r s of (r', s') \<Rightarrow> run_alone fs r' s')"
  by (induction es arbitrary: r s) (auto split: prod.splits)

lemma work_run:
  assumes "ru_activity r = Working k p t" "k \<le> length (ru_signals r)"
    "tally_all (ru_slippage r) p (ru_candles r) (drop k (ru_signals r)) t = Inr t'"
    "map_of js (ru_job r) = Some j" "length es = length (ru_signals r) - k"
  shows "\<exists>js' j'. run_alone es r (js, al) = (r\<lparr>ru_activity := Working (length (ru_signals r)) p t'\<rparr>, js', al) \<and>
     map_of js' (ru_job r) = Some j' \<and> jb_meta j' = jb_meta j"
  using assms
proof (induction es arbitrary: r k t js j)
  case Nil
  then show ?case by auto
next
  case (Cons e es)
  obtain snk now where e: "e = (snk, now)" by fastforce
  have k: "k < length (ru_signals r)" using Cons.prems(5) by simp
  then have d: "drop k (ru_signals r) = ru_signals r ! k # drop (Suc k) (ru_signals r)" by (rule Cons_nth_drop_Suc [symmetric])
  obtain t1 where t1: "tally_signal (ru_slippage r) p (ru_candles r) (ru_signals r ! k) t = Inr t1"
    and rest: "tally_all (ru_slippage r) p (ru_candles r) (drop (Suc k) (ru_signals r)) t1 = Inr t'"
    using Cons.prems(3) by (auto simp: d py_bind_Inr_iff)
  let ?r = "r\<lparr>ru_activity := Working (Suc k) p t1\<rparr>"
  let ?js = "update_progress (ru_job r) (progress_of (Suc k) (length (ru_signals r))) js"
  have st: "run_step snk now r (js, al) = (?r, ?js, al)" using Cons.prems(1) k t1 by (simp add: run_step_def)
  obtain j1 where j1: "map_of ?js (ru_job ?r) = Some j1" "jb_meta j1 = jb_meta j"
    using Cons.prems(4) by (auto simp: update_progress_def map_of_update_job)
  have "\<exists>js' j'. run_alone es ?r (?js, al) = (?r\<lparr>ru_activity := Working (length (ru_signals ?r)) p t'\<rparr>, js', al) \<and>
     map_of js' (ru_job ?r) = Some j' \<and> jb_meta j' = jb_meta j1"
    by (rule Cons.IH [OF _ _ _ j1(1)]) (use k rest Cons.prems(5) in auto)
  then show ?case using e st j1(2) by auto
qed

text \<open>A run that meets no exception completes its job with the metrics of the folded tally.\<close>

lemma run_computes:
  assumes "ru_activity r = Pending" "map_of js (ru_job r) = Some j" "length es = length (ru_signals r) + 2"
    "tally_all (ru_slippage r) (params_of (jb_meta j)) (ru_candles r) (ru_signals r) tally_init = Inr t"
  shows "\<exists>r' js' j'. run_alone es r (js, al) = (r', js', al) \<and> map_of js' (ru_job r) = Some j' \<and>
     jb_status j' = ''completed'' \<and> jb_progress j' = 100 \<and> jb_result j' = Some (metrics_of t)"
proof -
  obtain e0 ws el where es: "es = e0 # ws @ [el]" and ws: "length ws = length (ru_signals r)"
  proof -
    obtain e0 es1 where 1: "es = e0 # es1" using assms(3) by (cases es) auto
    obtain ws el where 2: "es1 = ws @ [el]" using assms(3) 1 by (cases es1 rule: rev_cases) auto
    from that [of e0 ws el] 1 2 assms(3) show thesis by simp
  qed
  obtain snk0 now0 where e0: "e0 = (snk0, now0)" by fastforce
  obtain snk now where el: "el = (snk, now)" by fastforce
  let ?p = "params_of (jb_meta j)"
  let ?r = "r\<lparr>ru_activity := Working 0 ?p tally_init\<rparr>" and ?js = "update_job (ru_job r) (mark_running now0) js"
  have s0: "run_step snk0 now0 r (js, al) = (?r, ?js, al)" using assms(1,2) by (simp add: run_step_def)
  have j0: "map_of ?js (ru_job ?r) = Some (mark_running now0 j)" using assms(2) by (simp add: map_of_update_job)
  obtain js' j' where w: "run_alone ws ?r (?js, al) = (?r\<lparr>ru_activity := Working (length (ru_signals ?r)) ?p t\<rparr>, js', al)"
      "map_of js' (ru_job ?r) = Some j'"
    using work_run [of ?r 0 ?p tally_init t ?js "mark_running now0 j" ws al] j0 ws assms(4) by auto
  let ?a = "if should_notify_completion j' \<and> snk \<noteq> NoSink then Announcing else Ended"
  have s1: "run_step snk now (?r\<lparr>ru_activity := Working (length (ru_signals ?r)) ?p t\<rparr>) (js', al) =
      (r\<lparr>ru_activity := ?a\<rparr>, update_job (ru_job r) (mark_completed now (metrics_of t)) js', al)"
    using w(2) by (simp add: run_step_def)
  have "run_alone es r (js, al) = (r\<lparr>ru_activity := ?a\<rparr>, update_job (ru_job r) (mark_completed now (metrics_of t)) js', al)"
    using s0 w(1) s1 by (simp add: es e0 el run_alone_append)
  then show ?thesis using w(2) by (simp add: map_of_update_job mark_completed_def)
qed

section \<open>Scheduled runs\<close>

lemma simulate_total:
  assumes "0 \<le> sg_index s" "sg_index s + 1 < int (length candles)" "list_all (\<lambda>c. 0 < cd_open c) candles"
    "0 \<le> sl" "sl \<le> 1 / 2"
  shows "\<exists>res. simulate_trade sl p candles s = Inr res"
proof -
  let ?c = "candles ! nat (sg_index s + 1)"
  have o: "0 < cd_open ?c" using assms(1-3) by (simp add: list_all_iff)
  have f: "0 < 1 + sl / 100" "0 < 1 - sl / 100" using assms(4,5) by simp_all
  obtain e where e: "entry_price_n_plus_one_open sl candles s = Inr e" "0 < e"
    using assms(1,2) o f by (auto simp: entry_price_n_plus_one_open_def Let_def py_index_nonneg)
  obtain a where a: "backtest_atr candles (sg_index s) (xp_atr_period p) = Inr a"
    using compute_atr_total by (auto simp: backtest_atr_def Let_def) (metis (no_types, lifting) map_is_Nil_conv py_bind.simps(2))
  have fin: "\<exists>res. finish_trade g e candles l = Inr res" for g l
    using assms(1,2) by (auto simp: finish_trade_def py_last_def)
  show ?thesis using assms(2) e a fin
    by (auto simp: simulate_trade_def Let_def simulate_long_trade_def simulate_short_trade_def)
qed

lemma tally_all_total:
  assumes "\<forall>s\<in>set ss. \<exists>res. simulate_trade sl p candles s = Inr res"
  shows "\<exists>t'. tally_all sl p candles ss t = Inr t' \<and> ty_skipped t' = ty_skipped t"
  using assms
proof (induction ss arbitrary: t)
  case (Cons s ss)
  obtain pnl ret reason where "simulate_trade sl p candles s = Inr (pnl, ret, reason)" using Cons.prems by fastforce
  then obtain t1 where "tally_signal sl p candles s t = Inr t1" "ty_skipped t1 = ty_skipped t"
    by (simp add: tally_signal_def)
  with Cons show ?case by fastforce
qed simp

lemma tally_all_ok: "tally_all sl p candles ss t = Inr t' \<Longrightarrow> tally_ok n t \<Longrightarrow> tally_ok (n + length ss) t'"
  by (induction ss arbitrary: t n) (auto simp: py_bind_Inr_iff dest: tally_signal_ok, metis add_Suc_right add_Suc tally_signal_ok)

lemma build_signals_valid:
  assumes "s \<in> set (build_signals m candles)"
  shows "0 \<le> sg_index s \<and> sg_index s + 1 < int (length candles)"
  using assms by (auto simp: build_signals_def Let_def split: if_splits)

lemma length_build_signals: "length (build_signals m candles) = nat (min m (int (length candles) - 1))"
  by (auto simp: build_signals_def Let_def)

lemma clamp_slippage_bounds: "0 \<le> clamp_slippage x" "clamp_slippage x \<le> 1 / 2"
  by (auto simp: clamp_slippage_def)

lemma build_signals_tally:
  assumes "list_all (\<lambda>c. 0 < cd_open c) candles"
  shows "\<exists>t. tally_all (clamp_slippage sl) p candles (build_signals m candles) tally_init = Inr t \<and> ty_skipped t = 0 \<and>
     length (ty_pnls t) = length (build_signals m candles)"
proof -
  have "\<forall>s\<in>set (build_signals m candles). \<exists>res. simulate_trade (clamp_slippage sl) p candles s = Inr res"
    using build_signals_valid simulate_total assms clamp_slippage_bounds by blast
  from tally_all_total [OF this, of tally_init] obtain t where
    t: "tally_all (clamp_slippage sl) p candles (build_signals m candles) tally_init = Inr t" "ty_skipped t = 0"
    by (auto simp: tally_init_def)
  from tally_all_ok [OF t(1) tally_init_ok] t show ?thesis by (auto simp: tally_ok_def)
qed

lemma trigger_once_a_day:
  assumes "trigger_if_due p now now' job_id created candles slippage (sc, b) = (r, sc', b')"
    "sc_last_run_date sc = Some (date_str now)"
  shows "b' = b \<and> (\<exists>reason. r = Skipped reason) \<and> sc_last_run_date sc' = sc_last_run_date sc"
  using assms by (auto simp: trigger_if_due_def skip_def Let_def split: if_splits)

section \<open>Properties\<close>

text \<open>
  C29: a run of a backtest job on its own is over after one step more than two beyond its number
  of signals, whatever the alert sink does and whether or not its job is still stored.
\<close>

theorem run_ends:
  assumes "length (ru_signals r) + 3 \<le> length es"
  shows "ru_activity (fst (run_alone es r s)) = Ended"
  using assms by (rule run_alone_ends)

definition sample_run :: run where
  "sample_run = \<lparr>ru_job = ''j1'', ru_candles = sample_bars, ru_signals = [sample_signal], ru_slippage = 0, ru_activity = Pending\<rparr>"

theorem run_ends_witness:
  "ru_activity (fst (run_alone [(NoSink, 1), (Delivers, 2), (Raises ''down'', 3), (Delivers, 4)] sample_run ([], []))) = Ended"
  by (rule run_ends) (simp add: sample_run_def)

text \<open>
  C28: however submissions and the steps of the runs interleave, at most the maximal number of
  jobs is stored, and a stored job is consistent: a completed one shows full progress and metrics
  whose trades and skipped signals are all the signals of its run, a failed one an error.
\<close>

theorem stored_jobs_are_consistent:
  assumes "bt_reachable mx s" "get_job job_id s = Some j"
  shows "length (bs_jobs s) \<le> nat mx \<and> jb_status j \<in> {''queued'', ''running'', ''completed'', ''failed''} \<and>
    (jb_status j = ''completed'' \<longrightarrow> jb_progress j = 100 \<and>
       (\<exists>r\<in>set (bs_runs s). \<exists>m. ru_job r = job_id \<and> jb_result j = Some m \<and>
          rm_trade_count m + rm_skipped m = length (ru_signals r) \<and> rm_total_pnl m = rm_gross_profit m - rm_gross_loss m)) \<and>
    (jb_status j = ''failed'' \<longrightarrow> jb_error j \<noteq> None)"
proof -
  have inv: "bt_inv mx s" by (rule bt_reachable_inv [OF assms(1)])
  obtain r where r: "r \<in> set (bs_runs s)" "ru_job r = job_id" and ok: "run_ok r (Some j)"
    using stored_job_has_run [OF inv assms(2)] by blast
  have m: "rm_trade_count m + rm_skipped m = length (ru_signals r) \<and> rm_total_pnl m = rm_gross_profit m - rm_gross_loss m"
    if "completed_ok r j" "jb_result j = Some m" for m
    using that by (rule completed_metrics)
  have len: "length (bs_jobs s) \<le> nat mx" using inv by (simp add: bt_inv_def)
  from ok show ?thesis
  proof (cases rule: run_ok_cases)
    case waiting
    then show ?thesis using len by auto
  next
    case completed
    then obtain t where t: "jb_status j = ''completed''" "jb_progress j = 100" "jb_result j = Some (metrics_of t)"
      by (auto simp: completed_ok_def)
    then show ?thesis using len r m [OF completed t(3)] by auto
  next
    case failed
    then show ?thesis using len by simp
  qed
qed

theorem stored_jobs_are_consistent_witness:
  "jb_status (new_job 3 meta_empty) \<in> {''queued'', ''running'', ''completed'', ''failed''} \<and>
   length (bs_jobs (start_job ''j1'' 3 sample_bars [sample_signal] 0 meta_empty (backtests_init 2))) \<le> 2"
proof -
  let ?s = "start_job ''j1'' 3 sample_bars [sample_signal] 0 meta_empty (backtests_init 2)"
  have "bt_step (backtests_init 2) ?s" by (rule submit) (simp_all add: backtests_init_def)
  then have r: "bt_reachable 2 ?s" by (rule bt_reachable.intros(2) [OF bt_reachable.intros(1)])
  have g: "get_job ''j1'' ?s = Some (new_job 3 meta_empty)"
    by (simp add: get_job_def start_job_def backtests_init_def trim_jobs_def)
  note c = stored_jobs_are_consistent [OF r g]
  have "length (bs_jobs ?s) \<le> nat 2" by (rule conjunct1 [OF c])
  moreover have "jb_status (new_job 3 meta_empty) \<in> {''queued'', ''running'', ''completed'', ''failed''}"
    by (rule conjunct1 [OF conjunct2 [OF c]])
  ultimately show ?thesis by simp
qed

text \<open>
  A job that meets no exception completes with the metrics of its signals tallied in order,
  after as many steps as it has signals and two more.
\<close>

theorem job_computes_its_metrics:
  assumes "ru_activity r = Pending" "map_of js (ru_job r) = Some j" "length es = length (ru_signals r) + 2"
    and "tally_all (ru_slippage r) (params_of (jb_meta j)) (ru_candles r) (ru_signals r) tally_init = Inr t"
  shows "\<exists>r' js' j'. run_alone es r (js, al) = (r', js', al) \<and> map_of js' (ru_job r) = Some j' \<and>
     jb_status j' = ''completed'' \<and> jb_progress j' = 100 \<and> jb_result j' = Some (metrics_of t)"
  using assms by (rule run_computes)

theorem job_computes_its_metrics_witness:
  "\<exists>r' js' j'. run_alone [(NoSink, 5), (NoSink, 6)] (sample_run\<lparr>ru_signals := []\<rparr>) ([(''j1'', new_job 1 meta_empty)], [])
       = (r', js', []) \<and> map_of js' ''j1'' = Some j' \<and>
     jb_status j' = ''completed'' \<and> jb_progress j' = 100 \<and> jb_result j' = Some (metrics_of tally_init)"
  using job_computes_its_metrics [of "sample_run\<lparr>ru_signals := []\<rparr>" "[(''j1'', new_job 1 meta_empty)]" "new_job 1 meta_empty"
      "[(NoSink, 5), (NoSink, 6)]" tally_init "[]"]
  by (simp add: sample_run_def)

text \<open>
  The scheduler's job, over bars with positive opens, trades every signal it was given, the
  last bars up to the configured number, and skips none.
\<close>

theorem scheduled_job_trades_every_signal:
  assumes "list_all (\<lambda>c. 0 < cd_open c) candles"
  shows "\<exists>t. tally_all (clamp_slippage sl) p candles (build_signals m candles) tally_init = Inr t \<and>
     rm_skipped (metrics_of t) = 0 \<and> rm_trade_count (metrics_of t) = nat (min m (int (length candles) - 1))"
  using build_signals_tally [OF assms, of sl p m] length_build_signals [of m candles]
  by (auto simp: metrics_of_def Let_def)

theorem scheduled_job_trades_every_signal_witness:
  "\<exists>t. tally_all (clamp_slippage 9) sample_exits sample_bars (build_signals 80 sample_bars) tally_init = Inr t \<and>
     rm_trade_count (metrics_of t) = 2"
  using scheduled_job_trades_every_signal [of sample_bars 9 sample_exits 80] by (auto simp: sample_bar_defs)

text \<open>
  After a scheduled run, no further check on the same date starts a job.
\<close>

theorem scheduler_runs_once_a_day:
  assumes "trigger_if_due p now now' job_id created candles sl (sc, b) = (Triggered w jid k n x, sc', b')"
    and "trigger_if_due p2 later later' job_id2 created2 candles2 sl2 (sc', b2) = (r, sc2, b3)"
    and "date_str later = date_str now'"
  shows "b3 = b2 \<and> (\<exists>reason. r = Skipped reason)"
proof -
  have "sc_last_run_date sc' = Some (date_str now')"
    using assms(1) by (auto simp: trigger_if_due_def trigger_now_def skip_def Let_def split: if_splits)
  then show ?thesis using trigger_once_a_day [OF assms(2)] assms(3) by simp
qed

definition sample_noon :: datetime where
  "sample_noon = \<lparr>dt_year = 2024, dt_month = 1, dt_day = 2, dt_hour = 17, dt_minute = 0, dt_second = 0, dt_micro = 0, dt_offset = 32400\<rparr>"

theorem scheduler_runs_once_a_day_witness:
  "\<exists>sc' b' reason. trigger_if_due \<lparr>sp_enabled = True, sp_run_hour = 16, sp_max_signals = 80\<rparr> sample_noon sample_noon ''j1'' 1
       sample_bars 0 (scheduler_init, backtests_init 200) = (Triggered ''scheduled'' ''j1'' 2 3 0, sc', b') \<and>
     fst (trigger_if_due \<lparr>sp_enabled = True, sp_run_hour = 16, sp_max_signals = 80\<rparr> sample_noon sample_noon ''j2'' 2
       sample_bars 0 (sc', b')) = Skipped reason"
proof -
  let ?p = "\<lparr>sp_enabled = True, sp_run_hour = 16, sp_max_signals = 80\<rparr>"
  obtain sc' b' where run: "trigger_if_due ?p sample_noon sample_noon ''j1'' 1 sample_bars 0 (scheduler_init, backtests_init 200)
      = (Triggered ''scheduled'' ''j1'' 2 3 0, sc', b')"
    by (simp add: trigger_if_due_def trigger_now_def sample_noon_def scheduler_init_def Let_def clamp_slippage_def
        sample_bars_def build_signals_def upto.simps)
  obtain r sc2 b3 where again: "trigger_if_due ?p sample_noon sample_noon ''j2'' 2 sample_bars 0 (sc', b') = (r, sc2, b3)"
    by (rule prod_cases3)
  from scheduler_runs_once_a_day [OF run again refl] run again show ?thesis by auto
qed

text \<open>
  If the message about a completed job cannot be sent, the job is marked failed although its
  result was computed and stored.
\<close>

theorem failed_message_fails_completed_job:
  assumes "ru_activity r = Announcing" "map_of js (ru_job r) = Some j" "jb_result j = Some m"
  shows "\<exists>r' js' al' j'. run_step (Raises err) now r (js, al) = (r', js', al') \<and> map_of js' (ru_job r) = Some j' \<and>
     jb_status j' = ''failed'' \<and> jb_error j' = Some err \<and> jb_result j' = Some m"
  using assms by (auto simp: run_step_def fail_run_def map_of_update_job mark_failed_def)

theorem failed_message_fails_completed_job_witness:
  "\<exists>r' js' al' j'. run_step (Raises ''down'') 9 (sample_run\<lparr>ru_activity := Announcing\<rparr>)
       ([(''j1'', mark_completed 8 (metrics_of tally_init) (new_job 1 meta_empty))], []) = (r', js', al') \<and>
     map_of js' ''j1'' = Some j' \<and> jb_status j' = ''failed'' \<and> jb_result j' = Some (metrics_of tally_init)"
  using failed_message_fails_completed_job [of "sample_run\<lparr>ru_activity := Announcing\<rparr>"
      "[(''j1'', mark_completed 8 (metrics_of tally_init) (new_job 1 meta_empty))]"
      "mark_completed 8 (metrics_of tally_init) (new_job 1 meta_empty)" "metrics_of tally_init" "''down''" 9 "[]"]
  by (auto simp: sample_run_def mark_completed_def)

end
