(* ===== verification/Account_Repository.thy ===== *)
theory Account_Repository
  imports Db_Session Domain_Models
begin

text \<open>
  \<open>app/repositories/paper.py\<close> and \<open>app/repositories/performance.py\<close> over the rows of
  \<open>app/db/models/paper.py\<close> and \<open>app/db/models/performance.py\<close>: simulated orders and trades,
  account snapshots and cash flows, with the statements at which the database may fail. The
  order of rows with equal sort keys is that of their insertion.
\<close>

section \<open>Rows\<close>

record paper_order =
  po_id :: nat
  po_ticker :: string
  po_side :: string
  po_order_type :: string
  po_price :: real
  po_quantity :: real
  po_status :: string
  po_created_at :: instant

record paper_trade =
  pt_id :: nat
  pt_ticker :: string
  pt_strategy_id :: string
  pt_side :: string
  pt_entry_price :: real
  pt_exit_price :: "real option"
  pt_quantity :: real
  pt_pnl :: "real option"
  pt_created_at :: instant

record account_snapshot =
  sn_id :: nat
  sn_time :: instant
  sn_type :: string
  sn_total_assets :: real
  sn_cash :: real
  sn_stock_value :: real
  sn_margin_used :: real
  sn_open_positions :: int

record cash_flow =
  fw_id :: nat
  fw_time :: instant
  fw_amount :: real
  fw_total_before :: real
  fw_total_after :: real
  fw_detected_by :: string

record account_db =
  ac_orders :: "paper_order list"
  ac_trades :: "paper_trade list"
  ac_snapshots :: "account_snapshot list"
  ac_flows :: "cash_flow list"
  ac_next_order :: nat
  ac_next_trade :: nat
  ac_next_snapshot :: nat
  ac_next_flow :: nat
  ac_faults :: fault_plan

definition account_db_init :: "fault_plan \<Rightarrow> account_db" where
  "account_db_init plan =
     \<lparr>ac_orders = [], ac_trades = [], ac_snapshots = [], ac_flows = [], ac_next_order = 1, ac_next_trade = 1,
      ac_next_snapshot = 1, ac_next_flow = 1, ac_faults = plan\<rparr>"

text \<open>One statement: it fails, or the rest goes on after it.\<close>

definition ac_tick :: "account_db \<Rightarrow> account_db" where
  "ac_tick d = d\<lparr>ac_faults := tl (ac_faults d)\<rparr>"

definition ac_stmt :: "account_db \<Rightarrow> (account_db \<Rightarrow> 'a py \<times> account_db) \<Rightarrow> 'a py \<times> account_db" where
  "ac_stmt d k = (if stmt_fails (ac_faults d) then (Inl db_error, ac_tick d) else k (ac_tick d))"

definition ac_query :: "(account_db \<Rightarrow> 'a) \<Rightarrow> account_db \<Rightarrow> 'a py \<times> account_db" where
  "ac_query q d = ac_stmt d (\<lambda>d1. (Inr (q d1), d1))"

section \<open>Paper repository\<close>

text \<open>\<open>db.add; db.commit; db.refresh\<close>: a failed refresh leaves the committed row.\<close>

definition create_paper_order ::
  "instant \<Rightarrow> string \<Rightarrow> string \<Rightarrow> string \<Rightarrow> real \<Rightarrow> real \<Rightarrow> string \<Rightarrow> account_db \<Rightarrow> paper_order py \<times> account_db" where
  "create_paper_order now ticker side order_type price quantity status d =
     ac_stmt d (\<lambda>d1.
       let row = \<lparr>po_id = ac_next_order d1, po_ticker = ticker, po_side = side, po_order_type = order_type,
                  po_price = price, po_quantity = quantity, po_status = status, po_created_at = now\<rparr>
       in ac_stmt (d1\<lparr>ac_orders := ac_orders d1 @ [row], ac_next_order := Suc (ac_next_order d1)\<rparr>) (\<lambda>d2. (Inr row, d2)))"

text \<open>\<open>created_at or datetime.now(timezone.utc)\<close>: a datetime is never falsy.\<close>

definition create_trade ::
  "instant \<Rightarrow> string \<Rightarrow> string \<Rightarrow> string \<Rightarrow> real \<Rightarrow> real option \<Rightarrow> real \<Rightarrow> real option \<Rightarrow> instant option
     \<Rightarrow> account_db \<Rightarrow> paper_trade py \<times> account_db" where
  "create_trade now ticker sid side entry_price exit_price quantity pnl created_at d =
     ac_stmt d (\<lambda>d1.
       let row = \<lparr>pt_id = ac_next_trade d1, pt_ticker = ticker, pt_strategy_id = sid, pt_side = side,
                  pt_entry_price = entry_price, pt_exit_price = exit_price, pt_quantity = quantity, pt_pnl = pnl,
                  pt_created_at = (case created_at of None \<Rightarrow> now | Some t \<Rightarrow> t)\<rparr>
       in ac_stmt (d1\<lparr>ac_trades := ac_trades d1 @ [row], ac_next_trade := Suc (ac_next_trade d1)\<rparr>) (\<lambda>d2. (Inr row, d2)))"

text \<open>A bound that is absent does not restrict the query.\<close>

definition opt_bound :: "instant option \<Rightarrow> (instant \<Rightarrow> bool) \<Rightarrow> bool" where
  "opt_bound b test = (case b of None \<Rightarrow> True | Some t \<Rightarrow> test t)"

definition in_window :: "instant option \<Rightarrow> instant option \<Rightarrow> instant \<Rightarrow> bool" where
  "in_window start until t \<longleftrightarrow> opt_bound start (\<lambda>b. b \<le> t) \<and> opt_bound until (\<lambda>b. t \<le> b)"

record trade_filter =
  tf_start :: "instant option"
  tf_end :: "instant option"
  tf_ticker :: "string option"
  tf_strategy_id :: "string option"
  tf_side :: "string option"

definition any_trade :: trade_filter where
  "any_trade = \<lparr>tf_start = None, tf_end = None, tf_ticker = None, tf_strategy_id = None, tf_side = None\<rparr>"

text \<open>The ticker and the side are compared stripped, the strategy as it is given.\<close>

definition trade_matches :: "trade_filter \<Rightarrow> paper_trade \<Rightarrow> bool" where
  "trade_matches f x \<longleftrightarrow>
     in_window (tf_start f) (tf_end f) (pt_created_at x) \<and>
     opt_filter (tf_ticker f) (\<lambda>t. pt_ticker x = py_strip t) \<and>
     opt_filter (tf_strategy_id f) (\<lambda>s. pt_strategy_id x = s) \<and>
     opt_filter (tf_side f) (\<lambda>s. pt_side x = py_strip s)"

definition list_trades :: "trade_filter \<Rightarrow> int \<Rightarrow> nat \<Rightarrow> bool \<Rightarrow> account_db \<Rightarrow> paper_trade list py \<times> account_db" where
  "list_trades f offset limit descending =
     ac_query (\<lambda>d. let rows = filter (trade_matches f) (ac_trades d)
       in page offset limit (if descending then py_sorted_rev pt_created_at rows else sort_key pt_created_at rows))"

definition count_trades :: "trade_filter \<Rightarrow> account_db \<Rightarrow> nat py \<times> account_db" where
  "count_trades f = ac_query (\<lambda>d. length (filter (trade_matches f) (ac_trades d)))"

definition list_paper_orders :: "nat \<Rightarrow> account_db \<Rightarrow> paper_order list py \<times> account_db" where
  "list_paper_orders limit = ac_query (\<lambda>d. take limit (sort_key po_created_at (ac_orders d)))"

section \<open>Performance repository\<close>

definition create_snapshot ::
  "instant \<Rightarrow> string \<Rightarrow> real \<Rightarrow> real \<Rightarrow> real \<Rightarrow> real \<Rightarrow> int \<Rightarrow> account_db \<Rightarrow> account_snapshot py \<times> account_db" where
  "create_snapshot time typ total_assets cash stock_value margin_used open_positions d =
     ac_stmt d (\<lambda>d1.
       let row = \<lparr>sn_id = ac_next_snapshot d1, sn_time = time, sn_type = typ, sn_total_assets = total_assets,
                  sn_cash = cash, sn_stock_value = stock_value, sn_margin_used = margin_used,
                  sn_open_positions = open_positions\<rparr>
       in ac_stmt (d1\<lparr>ac_snapshots := ac_snapshots d1 @ [row], ac_next_snapshot := Suc (ac_next_snapshot d1)\<rparr>)
            (\<lambda>d2. (Inr row, d2)))"

definition snapshot_matches :: "instant option \<Rightarrow> instant option \<Rightarrow> string option \<Rightarrow> account_snapshot \<Rightarrow> bool" where
  "snapshot_matches start until typ x \<longleftrightarrow> in_window start until (sn_time x) \<and> opt_filter typ (\<lambda>s. sn_type x = s)"

definition list_snapshots ::
  "instant option \<Rightarrow> instant option \<Rightarrow> string option \<Rightarrow> int \<Rightarrow> nat \<Rightarrow> account_db \<Rightarrow> account_snapshot list py \<times> account_db" where
  "list_snapshots start until typ offset limit =
     ac_query (\<lambda>d. page offset limit (sort_key sn_time (filter (snapshot_matches start until typ) (ac_snapshots d))))"

definition create_cash_flow ::
  "instant \<Rightarrow> real \<Rightarrow> real \<Rightarrow> real \<Rightarrow> string \<Rightarrow> account_db \<Rightarrow> cash_flow py \<times> account_db" where
  "create_cash_flow time amount total_before total_after detected_by d =
     ac_stmt d (\<lambda>d1.
       let row = \<lparr>fw_id = ac_next_flow d1, fw_time = time, fw_amount = amount, fw_total_before = total_before,
                  fw_total_after = total_after, fw_detected_by = detected_by\<rparr>
       in ac_stmt (d1\<lparr>ac_flows := ac_flows d1 @ [row], ac_next_flow := Suc (ac_next_flow d1)\<rparr>) (\<lambda>d2. (Inr row, d2)))"

definition flow_matches :: "instant option \<Rightarrow> instant option \<Rightarrow> string option \<Rightarrow> cash_flow \<Rightarrow> bool" where
  "flow_matches start until who x \<longleftrightarrow> in_window start until (fw_time x) \<and> opt_filter who (\<lambda>s. fw_detected_by x = s)"

definition list_cash_flows ::
  "instant option \<Rightarrow> instant option \<Rightarrow> string option \<Rightarrow> int \<Rightarrow> nat \<Rightarrow> account_db \<Rightarrow> cash_flow list py \<times> account_db" where
  "list_cash_flows start until who offset limit =
     ac_query (\<lambda>d. page offset limit (sort_key fw_time (filter (flow_matches start until who) (ac_flows d))))"

definition flow_near :: "instant \<Rightarrow> int \<Rightarrow> cash_flow list \<Rightarrow> bool" where
  "flow_near time tolerance fs \<longleftrightarrow>
     list_ex (\<lambda>x. time - seconds tolerance \<le> fw_time x \<and> fw_time x \<le> time + seconds tolerance) fs"

definition has_cash_flow_near :: "instant \<Rightarrow> account_db \<Rightarrow> bool py \<times> account_db" where
  "has_cash_flow_near time = ac_query (\<lambda>d. flow_near time 90 (ac_flows d))"

definition count_snapshots :: "instant option \<Rightarrow> instant option \<Rightarrow> string option \<Rightarrow> account_db \<Rightarrow> nat py \<times> account_db" where
  "count_snapshots start until typ = ac_query (\<lambda>d. length (filter (snapshot_matches start until typ) (ac_snapshots d)))"

definition count_cash_flows :: "instant option \<Rightarrow> instant option \<Rightarrow> string option \<Rightarrow> account_db \<Rightarrow> nat py \<times> account_db" where
  "count_cash_flows start until who = ac_query (\<lambda>d. length (filter (flow_matches start until who) (ac_flows d)))"

section \<open>Facts\<close>

lemma ac_tick_simps [simp]:
  "ac_orders (ac_tick d) = ac_orders d" "ac_trades (ac_tick d) = ac_trades d"
  "ac_snapshots (ac_tick d) = ac_snapshots d" "ac_flows (ac_tick d) = ac_flows d"
  "ac_next_order (ac_tick d) = ac_next_order d" "ac_next_trade (ac_tick d) = ac_next_trade d"
  "ac_next_snapshot (ac_tick d) = ac_next_snapshot d" "ac_next_flow (ac_tick d) = ac_next_flow d"
  "ac_faults (ac_tick d) = tl (ac_faults d)"
  by (simp_all add: ac_tick_def)

text \<open>A statement ends in the error, or the rest of the work ran after it.\<close>

lemma ac_stmt_cases:
  assumes "ac_stmt d k = (r, d')"
  obtains (failed) "r = Inl db_error" "d' = ac_tick d" | (answered) "k (ac_tick d) = (r, d')"
  using assms that by (cases "stmt_fails (ac_faults d)") (simp_all add: ac_stmt_def)

lemma ac_query_cases:
  assumes "ac_query q d = (r, d')"
  obtains (failed) "r = Inl db_error" "d' = ac_tick d" | (answered) "r = Inr (q (ac_tick d))" "d' = ac_tick d"
proof (cases "stmt_fails (ac_faults d)")
  case True
  then show thesis using assms by (intro failed) (auto simp: ac_query_def ac_stmt_def)
next
  case False
  then show thesis using assms by (intro answered) (auto simp: ac_query_def ac_stmt_def)
qed

lemma ac_query_Inr: "ac_query q d = (Inr x, d') \<Longrightarrow> x = q (ac_tick d) \<and> d' = ac_tick d"
  by (erule ac_query_cases) simp_all

lemma ac_stmt_answering [simp]: "ac_faults d = [] \<Longrightarrow> ac_stmt d k = k (ac_tick d)"
  by (simp add: ac_stmt_def)

lemma ac_tick_answering [simp]: "ac_faults d = [] \<Longrightarrow> ac_tick d = d"
  by (simp add: ac_tick_def)

lemma ac_query_answering [simp]: "ac_faults d = [] \<Longrightarrow> ac_query q d = (Inr (q d), d)"
  by (simp add: ac_query_def)

text \<open>A new flow is a row of the table at once; the other tables are not touched.\<close>

lemma create_cash_flow_cases:
  assumes "create_cash_flow time amount tb ta who d = (r, d')"
  obtains (lost) "r = Inl db_error" "ac_flows d' = ac_flows d"
  | (kept) x where "ac_flows d' = ac_flows d @ [x]" "fw_time x = time" "fw_amount x = amount" "fw_total_before x = tb"
      "fw_total_after x = ta" "fw_detected_by x = who" "r = Inl db_error \<or> r = Inr x"
  using assms unfolding create_cash_flow_def
proof (cases rule: ac_stmt_cases)
  case failed
  then show ?thesis using lost by simp
next
  case answered
  let ?x = "\<lparr>fw_id = ac_next_flow d, fw_time = time, fw_amount = amount, fw_total_before = tb,
    fw_total_after = ta, fw_detected_by = who\<rparr>"
  have "ac_flows d' = ac_flows d @ [?x]" "r = Inl db_error \<or> r = Inr ?x"
    using answered by (auto simp: ac_stmt_def Let_def split: if_splits)
  then show ?thesis by (intro kept [of ?x]) simp_all
qed

lemma create_cash_flow_frame:
  "create_cash_flow time amount tb ta who d = (r, d') \<Longrightarrow>
     ac_trades d' = ac_trades d \<and> ac_snapshots d' = ac_snapshots d \<and> ac_orders d' = ac_orders d"
  by (auto simp: create_cash_flow_def ac_stmt_def Let_def split: if_splits)

text \<open>Keys stay distinct, whatever fails.\<close>

definition account_inv :: "account_db \<Rightarrow> bool" where
  "account_inv d \<longleftrightarrow>
     keys_ok po_id (ac_orders d) (ac_next_order d) \<and> keys_ok pt_id (ac_trades d) (ac_next_trade d) \<and>
     keys_ok sn_id (ac_snapshots d) (ac_next_snapshot d) \<and> keys_ok fw_id (ac_flows d) (ac_next_flow d)"

lemma account_inv_tick [simp]: "account_inv (ac_tick d) = account_inv d"
  by (simp add: account_inv_def)

lemma create_paper_order_inv: "account_inv d \<Longrightarrow> create_paper_order now t s ot p q st d = (r, d') \<Longrightarrow> account_inv d'"
  by (auto simp: create_paper_order_def ac_stmt_def Let_def account_inv_def split: if_splits)

lemma create_trade_inv: "account_inv d \<Longrightarrow> create_trade now t sid s ep xp q pnl ca d = (r, d') \<Longrightarrow> account_inv d'"
  by (auto simp: create_trade_def ac_stmt_def Let_def account_inv_def split: if_splits)

lemma create_snapshot_inv: "account_inv d \<Longrightarrow> create_snapshot t ty ta c sv mu n d = (r, d') \<Longrightarrow> account_inv d'"
  by (auto simp: create_snapshot_def ac_stmt_def Let_def account_inv_def split: if_splits)

lemma create_cash_flow_inv: "account_inv d \<Longrightarrow> create_cash_flow t a tb ta who d = (r, d') \<Longrightarrow> account_inv d'"
  by (auto simp: create_cash_flow_def ac_stmt_def Let_def account_inv_def split: if_splits)

text \<open>A query result is sorted; a page of it too.\<close>

lemma sorted_page: "sorted (map f xs) \<Longrightarrow> sorted (map f (page off n xs))"
  by (simp add: page_def flip: take_map drop_map)

lemma sorted_snapshots:
  "list_snapshots start until typ off n d = (Inr xs, d') \<Longrightarrow> sorted (map sn_time xs)"
  by (auto simp: list_snapshots_def dest!: ac_query_Inr intro!: sorted_page)

lemma sorted_flows:
  "list_cash_flows start until who off n d = (Inr xs, d') \<Longrightarrow> sorted (map fw_time xs)"
  by (auto simp: list_cash_flows_def dest!: ac_query_Inr intro!: sorted_page)

text \<open>A listing with room for all rows has as many as the count says.\<close>

lemma listed_as_counted:
  assumes "list_trades f 0 n dsc d = (Inr xs, d1)" "count_trades f d2 = (Inr k, d3)" "ac_trades d2 = ac_trades d"
  shows "length xs = min n k"
  using assms by (auto simp: list_trades_def count_trades_def page_def Let_def dest!: ac_query_Inr split: if_splits)

end
