(* ===== verification/Performance.thy ===== *)
theory Performance
  imports Account_Repository
begin

text \<open>
  \<open>PerformanceService\<close> of \<open>app/services/performance.py\<close>: recording of account snapshots and cash
  flows, the detection of flows from the difference between two snapshots, the time-weighted
  return (TWR) and the equity curve. The answers are dictionaries in the code; here they are
  records, or \<open>Inl\<close> the text of the caught \<open>SQLAlchemyError\<close> (the repositories raise nothing
  else, \<open>only_sql_errors\<close>). Timestamps are instants, not their ISO texts. Assets are reals, so
  the test of \<open>math.isfinite\<close> always succeeds.
\<close>

section \<open>The code\<close>

definition ac_bind :: "'a py \<times> account_db \<Rightarrow> ('a \<Rightarrow> account_db \<Rightarrow> 'b py \<times> account_db) \<Rightarrow> 'b py \<times> account_db" where
  "ac_bind m f = (case m of (Inl x, d) \<Rightarrow> (Inl x, d) | (Inr v, d) \<Rightarrow> f v d)"

definition answer :: "'a py \<times> account_db \<Rightarrow> (string + 'a) \<times> account_db" where
  "answer m = (case m of (Inl x, d) \<Rightarrow> (Inl (exn_str x), d) | (Inr v, d) \<Rightarrow> (Inr v, d))"

definition record_snapshot ::
  "instant \<Rightarrow> string \<Rightarrow> real \<Rightarrow> real \<Rightarrow> real \<Rightarrow> real \<Rightarrow> int \<Rightarrow> account_db \<Rightarrow> (string + account_snapshot) \<times> account_db" where
  "record_snapshot time typ total_assets cash stock_value margin_used open_positions d =
     answer (create_snapshot time typ total_assets cash stock_value margin_used open_positions d)"

definition record_cash_flow ::
  "instant \<Rightarrow> real \<Rightarrow> real \<Rightarrow> real \<Rightarrow> string \<Rightarrow> account_db \<Rightarrow> (string + cash_flow) \<times> account_db" where
  "record_cash_flow time amount total_before total_after detected_by d =
     answer (create_cash_flow time amount total_before total_after detected_by d)"

text \<open>The realised profit in the half-open period; the trades come from the default page of 10000.\<close>

definition realized_between :: "instant \<Rightarrow> instant \<Rightarrow> paper_trade list \<Rightarrow> real" where
  "realized_between start until trades =
     sum_list (map (\<lambda>x. or_real (pt_pnl x) 0)
       (filter (\<lambda>x. pt_exit_price x \<noteq> None \<and> pt_pnl x \<noteq> None \<and> start < pt_created_at x \<and> pt_created_at x \<le> until) trades))"

definition sum_realized_pnl :: "instant \<Rightarrow> instant \<Rightarrow> account_db \<Rightarrow> real py \<times> account_db" where
  "sum_realized_pnl start until d =
     ac_bind (list_trades (any_trade\<lparr>tf_start := Some start, tf_end := Some until\<rparr>) 0 10000 False d)
       (\<lambda>trades d1. (Inr (realized_between start until trades), d1))"

text \<open>
  A commit expires the loaded rows of its session: the next access to one reads it again, which
  is one more statement that may fail.
\<close>

definition reload :: "bool \<Rightarrow> account_db \<Rightarrow> unit py \<times> account_db" where
  "reload stale d = (if stale then ac_query (\<lambda>_. ()) d else (Inr (), d))"

definition detect_one ::
  "real \<Rightarrow> bool \<Rightarrow> bool \<Rightarrow> account_snapshot \<times> account_snapshot \<Rightarrow> account_db \<Rightarrow> cash_flow option py \<times> account_db" where
  "detect_one threshold stale_prev stale_curr p d =
     (case p of (older, newer) \<Rightarrow>
     ac_bind (reload stale_prev d) (\<lambda>_ d1.
     ac_bind (reload stale_curr d1) (\<lambda>_ d2.
     ac_bind (sum_realized_pnl (sn_time older) (sn_time newer) d2) (\<lambda>pnl d3.
       let delta_assets = sn_total_assets newer - sn_total_assets older;
           inferred_flow = delta_assets - pnl
       in if \<bar>inferred_flow\<bar> < threshold then (Inr None, d3)
          else
            ac_bind (has_cash_flow_near (sn_time newer) d3) (\<lambda>near d4.
              if near then (Inr None, d4)
              else
                ac_bind (create_cash_flow (sn_time newer) inferred_flow (sn_total_assets newer - inferred_flow)
                           (sn_total_assets newer) ''auto'' d4) (\<lambda>row d5. (Inr (Some row), d5)))))))"

fun detect_loop ::
  "real \<Rightarrow> bool \<Rightarrow> bool \<Rightarrow> (account_snapshot \<times> account_snapshot) list \<Rightarrow> account_db \<Rightarrow> cash_flow list py \<times> account_db" where
  "detect_loop threshold stale_prev stale_curr [] d = (Inr [], d)"
| "detect_loop threshold stale_prev stale_curr (p # ps) d =
     ac_bind (detect_one threshold stale_prev stale_curr p d) (\<lambda>created d1.
       case created of
         None \<Rightarrow> detect_loop threshold False stale_curr ps d1
       | Some row \<Rightarrow> ac_bind (detect_loop threshold True True ps d1) (\<lambda>rows d2. (Inr (row # rows), d2)))"

definition consecutive :: "'a list \<Rightarrow> ('a \<times> 'a) list" where
  "consecutive xs = zip xs (tl xs)"

text \<open>The answer of a detection; an error reports nothing created, even after some flows were.\<close>

record detection =
  de_error :: "string option"
  de_created :: nat
  de_items :: "cash_flow list"

definition detect_cash_flows ::
  "real \<Rightarrow> instant option \<Rightarrow> instant option \<Rightarrow> real option \<Rightarrow> account_db \<Rightarrow> detection \<times> account_db" where
  "detect_cash_flows auto_min start until min_amount d =
     (let threshold = (case min_amount of None \<Rightarrow> auto_min | Some m \<Rightarrow> m) in
      case ac_bind (list_snapshots start until None 0 5000 d) (\<lambda>snapshots d1.
             if length snapshots < 2 then (Inr [], d1)
             else detect_loop threshold False False (consecutive snapshots) d1)
      of (Inl x, d') \<Rightarrow> (\<lparr>de_error = Some (exn_str x), de_created = 0, de_items = []\<rparr>, d')
       | (Inr rows, d') \<Rightarrow> (\<lparr>de_error = None, de_created = length rows, de_items = rows\<rparr>, d'))"

record 'a listing =
  ls_total :: nat
  ls_offset :: int
  ls_limit :: nat
  ls_items :: "'a list"

definition list_snapshot_records ::
  "instant option \<Rightarrow> instant option \<Rightarrow> string option \<Rightarrow> int \<Rightarrow> nat \<Rightarrow> account_db
     \<Rightarrow> (string + account_snapshot listing) \<times> account_db" where
  "list_snapshot_records start until typ offset limit d =
     answer (ac_bind (count_snapshots start until typ d) (\<lambda>total d1.
             ac_bind (list_snapshots start until typ offset limit d1) (\<lambda>rows d2.
               (Inr \<lparr>ls_total = total, ls_offset = offset, ls_limit = limit, ls_items = rows\<rparr>, d2))))"

definition list_cash_flow_records ::
  "instant option \<Rightarrow> instant option \<Rightarrow> string option \<Rightarrow> int \<Rightarrow> nat \<Rightarrow> account_db
     \<Rightarrow> (string + cash_flow listing) \<times> account_db" where
  "list_cash_flow_records start until who offset limit d =
     answer (ac_bind (count_cash_flows start until who d) (\<lambda>total d1.
             ac_bind (list_cash_flows start until who offset limit d1) (\<lambda>rows d2.
               (Inr \<lparr>ls_total = total, ls_offset = offset, ls_limit = limit, ls_items = rows\<rparr>, d2))))"

text \<open>\<open>_compute_twr\<close>: a period that starts without assets is left out, a loss of more than all counts as all.\<close>

definition flow_between :: "instant \<Rightarrow> instant \<Rightarrow> cash_flow list \<Rightarrow> real" where
  "flow_between a b cash_flows = sum_list (map fw_amount (filter (\<lambda>cf. a < fw_time cf \<and> fw_time cf \<le> b) cash_flows))"

definition gross_return :: "account_snapshot \<Rightarrow> account_snapshot \<Rightarrow> cash_flow list \<Rightarrow> real" where
  "gross_return older newer cash_flows =
     (sn_total_assets newer - flow_between (sn_time older) (sn_time newer) cash_flows) / sn_total_assets older"

fun compound_loop :: "(account_snapshot \<times> account_snapshot) list \<Rightarrow> cash_flow list \<Rightarrow> real \<Rightarrow> real" where
  "compound_loop [] cash_flows compound = compound"
| "compound_loop ((older, newer) # ps) cash_flows compound =
     (if sn_total_assets older \<le> 0 then compound_loop ps cash_flows compound
      else compound_loop ps cash_flows (compound * max (gross_return older newer cash_flows) 0))"

definition compute_twr :: "account_snapshot list \<Rightarrow> cash_flow list \<Rightarrow> real" where
  "compute_twr snapshots cash_flows = compound_loop (consecutive snapshots) cash_flows 1 - 1"

record twr_answer =
  tw_twr :: real
  tw_twr_pct :: real
  tw_period_count :: nat
  tw_cash_flow_count :: nat
  tw_cumulative_pnl :: real
  tw_realized_trade_pnl :: real
  tw_account_drift :: real

definition twr_report :: "instant option \<Rightarrow> instant option \<Rightarrow> account_db \<Rightarrow> (string + twr_answer) \<times> account_db" where
  "twr_report start until d =
     answer (ac_bind (list_snapshots start until None 0 5000 d) (\<lambda>snapshots d1.
             ac_bind (list_cash_flows start until None 0 5000 d1) (\<lambda>cash_flows d2.
       if length snapshots < 2
       then (Inr \<lparr>tw_twr = 0, tw_twr_pct = 0, tw_period_count = nat (max (int (length snapshots) - 1) 0),
                  tw_cash_flow_count = length cash_flows, tw_cumulative_pnl = 0, tw_realized_trade_pnl = 0,
                  tw_account_drift = 0\<rparr>, d2)
       else
         (let twr = compute_twr snapshots cash_flows;
              total_flow = sum_list (map fw_amount cash_flows);
              cumulative_pnl = sn_total_assets (last snapshots) - sn_total_assets (hd snapshots) - total_flow
          in ac_bind (sum_realized_pnl (sn_time (hd snapshots)) (sn_time (last snapshots)) d2) (\<lambda>realized d3.
               (Inr \<lparr>tw_twr = twr, tw_twr_pct = twr * 100, tw_period_count = length snapshots - 1,
                     tw_cash_flow_count = length cash_flows, tw_cumulative_pnl = cumulative_pnl,
                     tw_realized_trade_pnl = realized, tw_account_drift = cumulative_pnl - realized\<rparr>, d3))))))"

text \<open>
  \<open>equity_curve\<close>: one pass over the snapshots with a pointer into the flows (\<open>rest\<close> is the list
  from the pointer on), the flow so far, the first adjusted value, the compounded return and the
  previous snapshot.
\<close>

fun consume_flows :: "instant \<Rightarrow> cash_flow list \<Rightarrow> real \<Rightarrow> cash_flow list \<times> real" where
  "consume_flows t [] flow = ([], flow)"
| "consume_flows t (cf # rest) flow =
     (if fw_time cf \<le> t then consume_flows t rest (flow + fw_amount cf) else (cf # rest, flow))"

record equity_point =
  eq_time :: instant
  eq_total_assets :: real
  eq_cash :: real
  eq_stock_value :: real
  eq_margin_used :: real
  eq_open_positions :: int
  eq_cumulative_pnl :: real
  eq_period_return :: real
  eq_twr :: real

fun curve_loop ::
  "cash_flow list \<Rightarrow> account_snapshot list \<Rightarrow> cash_flow list \<Rightarrow> real \<Rightarrow> real option \<Rightarrow> real \<Rightarrow> account_snapshot option
     \<Rightarrow> equity_point list \<times> real" where
  "curve_loop cash_flows [] rest flow baseline twr older = ([], twr)"
| "curve_loop cash_flows (snap # snaps) rest flow baseline twr older =
     (let (rest', flow') = consume_flows (sn_time snap) rest flow;
          adjusted = sn_total_assets snap - flow';
          base = (case baseline of None \<Rightarrow> adjusted | Some b \<Rightarrow> b);
          gross = (case older of
                     Some p \<Rightarrow> if sn_total_assets p > 0 then Some (gross_return p snap cash_flows) else None
                   | None \<Rightarrow> None);
          period_return = (case gross of None \<Rightarrow> 0 | Some g \<Rightarrow> g - 1);
          twr' = (case gross of None \<Rightarrow> twr | Some g \<Rightarrow> twr * max g 0);
          point = \<lparr>eq_time = sn_time snap, eq_total_assets = sn_total_assets snap, eq_cash = sn_cash snap,
                   eq_stock_value = sn_stock_value snap, eq_margin_used = sn_margin_used snap,
                   eq_open_positions = sn_open_positions snap, eq_cumulative_pnl = adjusted - base,
                   eq_period_return = period_return, eq_twr = twr' - 1\<rparr>;
          (points, final) = curve_loop cash_flows snaps rest' flow' (Some base) twr' (Some snap)
      in (point # points, final))"

text \<open>The answer: the points and, when there are any, the TWR of the whole curve.\<close>

record curve_answer =
  cv_items :: "equity_point list"
  cv_twr :: "real option"
  cv_twr_pct :: "real option"

definition equity_curve :: "instant option \<Rightarrow> instant option \<Rightarrow> account_db \<Rightarrow> (string + curve_answer) \<times> account_db" where
  "equity_curve start until d =
     answer (ac_bind (list_snapshots start until None 0 5000 d) (\<lambda>snapshots d1.
             ac_bind (list_cash_flows start until None 0 5000 d1) (\<lambda>cash_flows d2.
       (Inr (if snapshots = [] then \<lparr>cv_items = [], cv_twr = None, cv_twr_pct = None\<rparr>
             else (let (items, twr) = curve_loop cash_flows snapshots cash_flows 0 None 1 None
                   in \<lparr>cv_items = items, cv_twr = Some (twr - 1), cv_twr_pct = Some ((twr - 1) * 100)\<rparr>)), d2))))"

section \<open>Binding and answering\<close>

lemma ac_bind_simps [simp]: "ac_bind (Inl x, d) f = (Inl x, d)" "ac_bind (Inr v, d) f = f v d"
  by (simp_all add: ac_bind_def)

lemma ac_bind_Inr:
  assumes "ac_bind m f = (Inr y, d')"
  obtains v d1 where "m = (Inr v, d1)" "f v d1 = (Inr y, d')"
proof (cases m)
  case (Pair r d1)
  then show thesis using assms that by (cases r) auto
qed

lemma answer_Inr: "answer m = (Inr v, d) \<longleftrightarrow> m = (Inr v, d)"
  by (cases m; cases "fst m") (auto simp: answer_def)

lemma answer_simps [simp]: "answer (Inl x, d) = (Inl (exn_str x), d)" "answer (Inr v, d) = (Inr v, d)"
  by (simp_all add: answer_def)

text \<open>The only exceptions of the repositories are database errors, all of which are caught.\<close>

definition only_sql_errors :: "'a py \<times> account_db \<Rightarrow> bool" where
  "only_sql_errors m \<longleftrightarrow> (\<forall>x d. m = (Inl x, d) \<longrightarrow> x = db_error)"

lemma only_sql_query [simp]: "only_sql_errors (ac_query q d)"
  by (auto simp: only_sql_errors_def elim: ac_query_cases)

lemma only_sql_bind: "only_sql_errors m \<Longrightarrow> (\<And>v d. only_sql_errors (f v d)) \<Longrightarrow> only_sql_errors (ac_bind m f)"
  unfolding only_sql_errors_def by (cases m; cases "fst m") auto

lemma only_sql_Inr [simp]: "only_sql_errors (Inr v, d)"
  by (simp add: only_sql_errors_def)

lemma only_sql_queries [simp]:
  "only_sql_errors (list_trades f off n dsc d)" "only_sql_errors (list_snapshots a b t off n d)"
  "only_sql_errors (list_cash_flows a b w off n d)" "only_sql_errors (has_cash_flow_near u d)"
  "only_sql_errors (count_snapshots a b t d)" "only_sql_errors (count_cash_flows a b w d)"
  "only_sql_errors (reload s d)" "only_sql_errors (sum_realized_pnl u v d)"
  by (auto simp: list_trades_def list_snapshots_def list_cash_flows_def has_cash_flow_near_def
      count_snapshots_def count_cash_flows_def reload_def sum_realized_pnl_def intro: only_sql_bind)

section \<open>The equity curve\<close>

definition flow_upto :: "instant \<Rightarrow> cash_flow list \<Rightarrow> real" where
  "flow_upto t cash_flows = sum_list (map fw_amount (filter (\<lambda>cf. fw_time cf \<le> t) cash_flows))"

lemma flow_upto_split: "a \<le> b \<Longrightarrow> flow_upto b cfs = flow_upto a cfs + flow_between a b cfs"
  unfolding flow_upto_def flow_between_def by (induction cfs) auto

text \<open>On flows in the order of time the pointer has passed exactly the flows up to the snapshot.\<close>

lemma consume_sorted:
  "sorted (map fw_time cfs) \<Longrightarrow>
     consume_flows t cfs a = (filter (\<lambda>cf. t < fw_time cf) cfs, a + flow_upto t cfs)"
proof (induction cfs arbitrary: a)
  case (Cons c cfs)
  show ?case
  proof (cases "fw_time c \<le> t")
    case True
    then show ?thesis using Cons by (simp add: flow_upto_def)
  next
    case False
    then have "filter (\<lambda>cf. t < fw_time cf) cfs = cfs" "filter (\<lambda>cf. fw_time cf \<le> t) cfs = []"
      using Cons.prems by (auto simp: filter_id_conv filter_empty_conv)
    then show ?thesis using False by (simp add: flow_upto_def)
  qed
qed (simp add: flow_upto_def)

lemma consume_step:
  assumes "sorted (map fw_time cfs)" "a \<le> b"
  shows "consume_flows b (filter (\<lambda>cf. a < fw_time cf) cfs) (flow_upto a cfs) = (filter (\<lambda>cf. b < fw_time cf) cfs, flow_upto b cfs)"
proof -
  have s: "sorted (map fw_time (filter (\<lambda>cf. a < fw_time cf) cfs))" using assms(1) by (induction cfs) auto
  have "flow_upto b (filter (\<lambda>cf. a < fw_time cf) cfs) = flow_between a b cfs"
    by (simp add: flow_upto_def flow_between_def conj_commute)
  moreover have "filter (\<lambda>cf. b < fw_time cf) (filter (\<lambda>cf. a < fw_time cf) cfs) = filter (\<lambda>cf. b < fw_time cf) cfs"
    using assms(2) by (auto intro!: filter_cong)
  ultimately show ?thesis using assms(2) by (simp add: consume_sorted [OF s] flow_upto_split [of a b])
qed

lemma curve_twr:
  "snd (curve_loop cfs ss rest flow b twr (Some p)) = compound_loop (zip (p # ss) ss) cfs twr"
  by (induction ss arbitrary: rest flow b twr p) (auto simp: Let_def split_beta)

lemma curve_points:
  assumes "sorted (map fw_time cfs)" "sorted (t0 # map sn_time ss)"
  shows "map eq_cumulative_pnl (fst (curve_loop cfs ss (filter (\<lambda>cf. t0 < fw_time cf) cfs) (flow_upto t0 cfs) (Some b) twr p))
         = map (\<lambda>s. sn_total_assets s - flow_upto (sn_time s) cfs - b) ss"
  using assms(2)
proof (induction ss arbitrary: t0 twr p)
  case (Cons s ss)
  have "consume_flows (sn_time s) (filter (\<lambda>cf. t0 < fw_time cf) cfs) (flow_upto t0 cfs)
      = (filter (\<lambda>cf. sn_time s < fw_time cf) cfs, flow_upto (sn_time s) cfs)"
    using Cons.prems by (intro consume_step [OF assms(1)]) simp
  moreover have "sorted (sn_time s # map sn_time ss)" using Cons.prems by simp
  ultimately show ?case by (simp add: Let_def split_beta Cons.IH)
qed simp

text \<open>The whole curve: what each point shows, and the return it ends with.\<close>

lemma curve_of_snapshots:
  assumes "sorted (map fw_time cfs)" "sorted (map sn_time (s # ss))"
  shows "map eq_cumulative_pnl (fst (curve_loop cfs (s # ss) cfs 0 None 1 None))
         = map (\<lambda>x. sn_total_assets x - sn_total_assets s - flow_between (sn_time s) (sn_time x) cfs) (s # ss)"
    and "snd (curve_loop cfs (s # ss) cfs 0 None 1 None) - 1 = compute_twr (s # ss) cfs"
proof -
  have c: "consume_flows (sn_time s) cfs 0 = (filter (\<lambda>cf. sn_time s < fw_time cf) cfs, flow_upto (sn_time s) cfs)"
    using consume_sorted [OF assms(1), of "sn_time s" 0] by simp
  have "flow_between (sn_time s) (sn_time s) cfs = 0" by (simp add: flow_between_def)
  moreover have "flow_upto (sn_time x) cfs = flow_upto (sn_time s) cfs + flow_between (sn_time s) (sn_time x) cfs" if "x \<in> set ss" for x
    using that assms(2) by (intro flow_upto_split) simp
  moreover have "map eq_cumulative_pnl (fst (curve_loop cfs ss (filter (\<lambda>cf. sn_time s < fw_time cf) cfs) (flow_upto (sn_time s) cfs)
      (Some (sn_total_assets s - flow_upto (sn_time s) cfs)) 1 (Some s)))
    = map (\<lambda>x. sn_total_assets x - flow_upto (sn_time x) cfs - (sn_total_assets s - flow_upto (sn_time s) cfs)) ss"
    using assms(2) by (intro curve_points [OF assms(1)]) simp
  ultimately show "map eq_cumulative_pnl (fst (curve_loop cfs (s # ss) cfs 0 None 1 None))
      = map (\<lambda>x. sn_total_assets x - sn_total_assets s - flow_between (sn_time s) (sn_time x) cfs) (s # ss)"
    by (simp add: c Let_def split_beta)
  have "snd (curve_loop cfs (s # ss) cfs 0 None 1 None)
      = snd (curve_loop cfs ss (filter (\<lambda>cf. sn_time s < fw_time cf) cfs) (flow_upto (sn_time s) cfs)
          (Some (sn_total_assets s - flow_upto (sn_time s) cfs)) 1 (Some s))"
    by (simp add: c Let_def split_beta)
  then show "snd (curve_loop cfs (s # ss) cfs 0 None 1 None) - 1 = compute_twr (s # ss) cfs"
    by (simp only: curve_twr) (simp add: compute_twr_def consecutive_def)
qed

section \<open>The detection of cash flows\<close>

definition same_tables :: "account_db \<Rightarrow> account_db \<Rightarrow> bool" where
  "same_tables d e \<longleftrightarrow> ac_trades e = ac_trades d \<and> ac_snapshots e = ac_snapshots d \<and> ac_flows e = ac_flows d \<and> ac_orders e = ac_orders d"

lemma same_tables_tick [simp]: "same_tables d (ac_tick e) = same_tables d e" "same_tables d d"
  by (simp_all add: same_tables_def)

lemma same_tables_trans: "same_tables d e \<Longrightarrow> same_tables e f \<Longrightarrow> same_tables d f"
  by (simp add: same_tables_def)

text \<open>The realised profit of a period as a function of the trades.\<close>

definition period_pnl :: "paper_trade list \<Rightarrow> instant \<Rightarrow> instant \<Rightarrow> real" where
  "period_pnl trades a b =
     realized_between a b (page 0 10000 (sort_key pt_created_at
       (filter (trade_matches (any_trade\<lparr>tf_start := Some a, tf_end := Some b\<rparr>)) trades)))"

definition inferred :: "account_db \<Rightarrow> account_snapshot \<times> account_snapshot \<Rightarrow> real" where
  "inferred d p = sn_total_assets (snd p) - sn_total_assets (fst p) - period_pnl (ac_trades d) (sn_time (fst p)) (sn_time (snd p))"

lemma sum_realized_cases:
  assumes "sum_realized_pnl a b d = (r, d')"
  shows "d' = ac_tick d \<and> (r = Inl db_error \<or> r = Inr (period_pnl (ac_trades d) a b))"
  using assms by (auto simp: sum_realized_pnl_def list_trades_def ac_query_def ac_stmt_def period_pnl_def Let_def split: if_splits)

lemma reload_cases: "reload s d = (r, d') \<Longrightarrow> same_tables d d' \<and> (r = Inl db_error \<or> r = Inr ())"
  by (auto simp: reload_def ac_query_def ac_stmt_def split: if_splits)

lemma near_cases: "has_cash_flow_near t d = (r, d') \<Longrightarrow> d' = ac_tick d \<and> (r = Inl db_error \<or> r = Inr (flow_near t 90 (ac_flows d)))"
  by (auto simp: has_cash_flow_near_def ac_query_def ac_stmt_def split: if_splits)

text \<open>A period whose change of assets is explained, or which has a flow at its end, stays quiet.\<close>

definition explained :: "real \<Rightarrow> account_db \<Rightarrow> account_snapshot \<times> account_snapshot \<Rightarrow> bool" where
  "explained th d p \<longleftrightarrow> \<bar>inferred d p\<bar> < th \<or> flow_near (sn_time (snd p)) 90 (ac_flows d)"

definition detected :: "account_db \<Rightarrow> account_snapshot \<times> account_snapshot \<Rightarrow> cash_flow \<Rightarrow> bool" where
  "detected d p x \<longleftrightarrow> fw_time x = sn_time (snd p) \<and> fw_amount x = inferred d p \<and> fw_detected_by x = ''auto'' \<and>
     fw_total_before x = sn_total_assets (snd p) - inferred d p \<and> fw_total_after x = sn_total_assets (snd p)"

text \<open>One period: an error (after which the flow may be stored), nothing to record, or one new flow.\<close>

lemma detect_one_cases:
  assumes "detect_one th sp sc p d = (r, d')"
  obtains (failed) xs where "r = Inl db_error" "ac_trades d' = ac_trades d" "ac_flows d' = ac_flows d @ xs"
      "explained th d p \<Longrightarrow> xs = []"
  | (quiet) "r = Inr None" "same_tables d d'" "explained th d p"
  | (created) x where "r = Inr (Some x)" "\<not> explained th d p" "detected d p x"
      "ac_trades d' = ac_trades d" "ac_snapshots d' = ac_snapshots d" "ac_flows d' = ac_flows d @ [x]"
proof -
  obtain older newer where p: "p = (older, newer)" by (cases p)
  obtain r1 d1 where r1: "reload sp d = (r1, d1)" by (rule prod.exhaust)
  obtain r2 d2 where r2: "reload sc d1 = (r2, d2)" by (rule prod.exhaust)
  obtain r3 d3 where r3: "sum_realized_pnl (sn_time older) (sn_time newer) d2 = (r3, d3)" by (rule prod.exhaust)
  obtain r4 d4 where r4: "has_cash_flow_near (sn_time newer) d3 = (r4, d4)" by (rule prod.exhaust)
  obtain r5 d5 where r5: "create_cash_flow (sn_time newer) (inferred d p) (sn_total_assets newer - inferred d p)
      (sn_total_assets newer) ''auto'' d4 = (r5, d5)" by (rule prod.exhaust)
  have t1: "same_tables d d1" and t2: "same_tables d d2"
    using reload_cases [OF r1] reload_cases [OF r2] by (auto intro: same_tables_trans)
  have t3: "same_tables d d3" and t4: "same_tables d d4"
    using sum_realized_cases [OF r3] near_cases [OF r4] t2 by (auto simp: same_tables_def)
  have v3: "r3 = Inl db_error \<or> (\<exists>pnl. r3 = Inr pnl \<and> sn_total_assets newer - sn_total_assets older - pnl = inferred d p)"
    using sum_realized_cases [OF r3] t2 by (auto simp: inferred_def p same_tables_def)
  have v4: "r4 = Inl db_error \<or> r4 = Inr (flow_near (sn_time newer) 90 (ac_flows d))"
    using near_cases [OF r4] t3 by (auto simp: same_tables_def)
  have e: "explained th d p \<longleftrightarrow> \<bar>inferred d p\<bar> < th \<or> flow_near (sn_time newer) 90 (ac_flows d)"
    by (simp add: explained_def p)
  have fail: thesis if "same_tables d d'" "r = Inl db_error"
    using that by (intro failed [of "[]"]) (simp_all add: same_tables_def)
  note prem = assms [unfolded p detect_one_def, simplified, unfolded r1]
  consider x where "r1 = Inl x" | x u where "r1 = Inr u" "r2 = Inl x"
    | u v where "r1 = Inr u" "r2 = Inr v" "r3 = Inl db_error"
    | u v w where "r1 = Inr u" "r2 = Inr v" "r3 = Inr w" "sn_total_assets newer - sn_total_assets older - w = inferred d p"
    using v3 by (cases r1; cases r2) auto
  then show thesis
  proof cases
    case 1
    then show thesis using prem t1 reload_cases [OF r1] by (intro fail) auto
  next
    case 2
    then show thesis using prem t2 reload_cases [OF r2] r2 by (intro fail) auto
  next
    case 3
    then show thesis using prem t3 by (intro fail) (auto simp: r2 r3)
  next
    case (4 u v w)
    note prem4 = prem [unfolded 4 ac_bind_simps r2 r3 Let_def]
    consider "\<bar>inferred d p\<bar> < th" | "\<not> \<bar>inferred d p\<bar> < th" "r4 = Inl db_error"
      | "\<not> \<bar>inferred d p\<bar> < th" "r4 = Inr True" "flow_near (sn_time newer) 90 (ac_flows d)"
      | "\<not> \<bar>inferred d p\<bar> < th" "r4 = Inr False" "\<not> flow_near (sn_time newer) 90 (ac_flows d)"
      using v4 by (cases "flow_near (sn_time newer) 90 (ac_flows d)") auto
    then show thesis
    proof cases
      case 1
      then show thesis using prem4 t3 e by (intro quiet) auto
    next
      case 2
      then show thesis using prem4 t4 by (intro fail) (auto simp: r4)
    next
      case 3
      then show thesis using prem4 t4 e by (intro quiet) (auto simp: r4)
    next
      case new: 4
      have out: "(r, d') = ac_bind (r5, d5) (\<lambda>row d5. (Inr (Some row), d5))"
        using prem4 new by (simp add: r4 r5)
      have ne: "\<not> explained th d p" using new e by simp
      from r5 show thesis
      proof (cases rule: create_cash_flow_cases)
        case lost
        then show thesis using out create_cash_flow_frame [OF r5] t4 by (intro failed [of "[]"]) (auto simp: same_tables_def)
      next
        case (kept x)
        from kept(7) show thesis
        proof
          assume "r5 = Inl db_error"
          then show thesis using kept out create_cash_flow_frame [OF r5] t4 ne by (intro failed [of "[x]"]) (auto simp: same_tables_def)
        next
          assume "r5 = Inr x"
          then show thesis using kept out create_cash_flow_frame [OF r5] t4 ne
            by (intro created [of x]) (auto simp: same_tables_def detected_def p)
        qed
      qed
    qed
  qed
qed

lemma flow_near_append: "flow_near t k (xs @ ys) \<longleftrightarrow> flow_near t k xs \<or> flow_near t k ys"
  by (simp add: flow_near_def)

lemma flow_near_self:
  assumes "x \<in> set xs"
  shows "flow_near (fw_time x) 90 xs"
  unfolding flow_near_def list_ex_iff using assms by (intro bexI [of _ x]) simp_all

lemma explained_mono: "explained th d p \<Longrightarrow> ac_trades e = ac_trades d \<Longrightarrow> ac_flows e = ac_flows d @ xs \<Longrightarrow> explained th e p"
  by (auto simp: explained_def inferred_def flow_near_append)

lemma explained_same: "same_tables d e \<Longrightarrow> explained th e p = explained th d p"
  by (simp add: explained_def inferred_def same_tables_def)

text \<open>
  A successful detection leaves the other tables alone, appends the flows it reports, one for
  each period that was not explained, and afterwards every period is.
\<close>

lemma detect_frame:
  assumes "detect_loop th sp sc ps d = (Inr rows, d')"
  shows "ac_trades d' = ac_trades d \<and> ac_snapshots d' = ac_snapshots d \<and> ac_flows d' = ac_flows d @ rows"
  using assms
proof (induction ps arbitrary: sp sc d rows)
  case (Cons p ps)
  obtain r d1 where one: "detect_one th sp sc p d = (r, d1)" by (rule prod.exhaust)
  from one show ?case
  proof (cases rule: detect_one_cases)
    case (failed xs)
    then show ?thesis using Cons.prems one by simp
  next
    case quiet
    then show ?thesis using Cons.prems one Cons.IH [of False sc d1 rows] by (simp add: same_tables_def)
  next
    case (created x)
    then obtain rows1 where "detect_loop th True True ps d1 = (Inr rows1, d')" "rows = x # rows1"
      using Cons.prems one by (auto elim!: ac_bind_Inr)
    then show ?thesis using created Cons.IH [of True True d1 rows1] by simp
  qed
qed simp

lemma detect_explains:
  assumes "detect_loop th sp sc ps d = (Inr rows, d')" "p \<in> set ps"
  shows "explained th d' p"
  using assms
proof (induction ps arbitrary: sp sc d rows)
  case (Cons q qs)
  obtain r d1 where one: "detect_one th sp sc q d = (r, d1)" by (rule prod.exhaust)
  then obtain s t rows1 where rest: "detect_loop th s t qs d1 = (Inr rows1, d')" and ok: "\<not> (\<exists>x. r = Inl x)"
    using Cons.prems(1) by (cases r) (auto elim!: ac_bind_Inr split: option.splits)
  have "explained th d1 q"
    using one
  proof (cases rule: detect_one_cases)
    case (failed xs)
    then show ?thesis using ok by simp
  next
    case quiet
    then show ?thesis by (simp add: explained_same)
  next
    case (created x)
    then show ?thesis using flow_near_self [of x "ac_flows d1"] by (simp add: explained_def detected_def)
  qed
  then have "explained th d' q" using detect_frame [OF rest] by (auto intro: explained_mono)
  then show ?case using Cons.IH [OF rest] Cons.prems(2) by auto
qed simp

lemma detect_quiet:
  assumes "detect_loop th sp sc ps d = (r, d')" "\<forall>p\<in>set ps. explained th d p"
  shows "ac_flows d' = ac_flows d \<and> (\<forall>rows. r = Inr rows \<longrightarrow> rows = [])"
  using assms
proof (induction ps arbitrary: sp sc d)
  case (Cons p ps)
  obtain r1 d1 where one: "detect_one th sp sc p d = (r1, d1)" by (rule prod.exhaust)
  from one show ?case
  proof (cases rule: detect_one_cases)
    case (failed xs)
    then show ?thesis using Cons.prems one by auto
  next
    case quiet
    then have "\<forall>q\<in>set ps. explained th d1 q" using Cons.prems(2) by (simp add: explained_same)
    moreover have "detect_loop th False sc ps d1 = (r, d')" using Cons.prems(1) one quiet by simp
    ultimately have "ac_flows d' = ac_flows d1 \<and> (\<forall>rows. r = Inr rows \<longrightarrow> rows = [])" by (intro Cons.IH)
    then show ?thesis using quiet by (simp add: same_tables_def)
  next
    case (created x)
    then show ?thesis using Cons.prems(2) by simp
  qed
qed auto

lemma detect_append:
  assumes "detect_loop th sp sc (ps @ qs) d = (Inr rows, d')"
  obtains d1 s t rows1 rows2 where "detect_loop th sp sc ps d = (Inr rows1, d1)" "detect_loop th s t qs d1 = (Inr rows2, d')"
    "rows = rows1 @ rows2"
  using assms
proof (induction ps arbitrary: sp sc d rows thesis)
  case Nil
  show ?case by (rule Nil.prems(1) [of "[]" d sp sc rows]) (use Nil.prems(2) in simp_all)
next
  case (Cons p ps)
  obtain r d1 where one: "detect_one th sp sc p d = (r, d1)" by (rule prod.exhaust)
  show ?case
  proof (cases r)
    case (Inl x)
    then show ?thesis using Cons.prems(2) one by simp
  next
    case (Inr y)
    show ?thesis
    proof (cases y)
      case None
      have "detect_loop th False sc (ps @ qs) d1 = (Inr rows, d')" using Cons.prems(2) one Inr None by simp
      then obtain d2 s t rows1 rows2 where "detect_loop th False sc ps d1 = (Inr rows1, d2)"
        "detect_loop th s t qs d2 = (Inr rows2, d')" "rows = rows1 @ rows2" by (rule Cons.IH [rotated])
      then show ?thesis using one Inr None by (intro Cons.prems(1)) simp_all
    next
      case (Some x)
      then obtain rs where "detect_loop th True True (ps @ qs) d1 = (Inr rs, d')" and rows: "rows = x # rs"
        using Cons.prems(2) one Inr by (auto elim!: ac_bind_Inr)
      from this(1) obtain d2 s t rows1 rows2 where "detect_loop th True True ps d1 = (Inr rows1, d2)"
        "detect_loop th s t qs d2 = (Inr rows2, d')" "rs = rows1 @ rows2" by (rule Cons.IH [rotated])
      then show ?thesis using one Inr Some rows by (intro Cons.prems(1) [of "x # rows1" d2 s t rows2]) simp_all
    qed
  qed
qed

text \<open>New flows stand at ends of periods, and nowhere near a flow that was there before.\<close>

lemma detected_times:
  assumes "detect_loop th sp sc ps d = (Inr rows, d')" "x \<in> set rows"
  shows "fw_time x \<in> (sn_time \<circ> snd) ` set ps \<and> \<not> flow_near (fw_time x) 90 (ac_flows d)"
  using assms
proof (induction ps arbitrary: sp sc d rows)
  case (Cons p ps)
  obtain r d1 where one: "detect_one th sp sc p d = (r, d1)" by (rule prod.exhaust)
  from one show ?case
  proof (cases rule: detect_one_cases)
    case (failed xs)
    then show ?thesis using Cons.prems one by simp
  next
    case quiet
    then show ?thesis using Cons.prems one Cons.IH [of False sc d1 rows] by (auto simp: same_tables_def)
  next
    case (created y)
    then obtain rows1 where rest: "detect_loop th True True ps d1 = (Inr rows1, d')" "rows = y # rows1"
      using Cons.prems one by (auto elim!: ac_bind_Inr)
    show ?thesis
    proof (cases "x = y")
      case True
      then show ?thesis using created by (simp add: detected_def explained_def)
    next
      case False
      then show ?thesis using Cons.IH [OF rest(1)] rest(2) Cons.prems(2) created by (auto simp: flow_near_append)
    qed
  qed
qed simp

lemma flow_between_append: "flow_between a b (xs @ ys) = flow_between a b xs + flow_between a b ys"
  by (simp add: flow_between_def)

lemma flow_between_none: "\<forall>x\<in>set xs. fw_time x \<le> a \<or> b < fw_time x \<Longrightarrow> flow_between a b xs = 0"
  unfolding flow_between_def by (induction xs) auto

text \<open>
  The pair of a period that is longer than the tolerance, in the order of its snapshots: what is
  detected before it lies before it, what is detected after it lies after it.
\<close>

lemma detect_one_period:
  assumes run: "detect_loop th sp sc (ps @ (a, b) # qs) d = (Inr rows, d')"
    and before: "\<forall>p\<in>set ps. sn_time (snd p) \<le> sn_time a" and after: "\<forall>p\<in>set qs. sn_time b \<le> sn_time (snd p)"
    and long: "sn_time a + seconds 90 < sn_time b"
    and free: "\<forall>x\<in>set (ac_flows d). fw_time x \<le> sn_time a \<or> sn_time b + seconds 90 < fw_time x"
    and big: "th \<le> \<bar>inferred d (a, b)\<bar>"
  shows "flow_between (sn_time a) (sn_time b) (ac_flows d') = inferred d (a, b)"
proof -
  from run obtain d1 s t rows1 rows2 where one: "detect_loop th sp sc ps d = (Inr rows1, d1)"
    and two: "detect_loop th s t ((a, b) # qs) d1 = (Inr rows2, d')" and rows: "rows = rows1 @ rows2"
    by (rule detect_append)
  have f1: "ac_flows d1 = ac_flows d @ rows1" "ac_trades d1 = ac_trades d" using detect_frame [OF one] by auto
  have early: "fw_time x \<le> sn_time a" if "x \<in> set rows1" for x
    using detected_times [OF one that] before by auto
  have far: "\<forall>x\<in>set (ac_flows d1). fw_time x \<le> sn_time a \<or> sn_time b + seconds 90 < fw_time x"
    using free early f1 by auto
  then have "\<not> flow_near (sn_time b) 90 (ac_flows d1)"
    using long by (fastforce simp: flow_near_def list_ex_iff)
  then have new: "\<not> explained th d1 (a, b)"
    using big f1 by (simp add: explained_def inferred_def)
  obtain r d2 where step: "detect_one th s t (a, b) d1 = (r, d2)" by (rule prod.exhaust)
  from step show ?thesis
  proof (cases rule: detect_one_cases)
    case (failed xs)
    then show ?thesis using two step by simp
  next
    case quiet
    then show ?thesis using new by simp
  next
    case (created x)
    then obtain rows3 where three: "detect_loop th True True qs d2 = (Inr rows3, d')"
      using two step by (auto elim!: ac_bind_Inr)
    have late: "sn_time b < fw_time y" if "y \<in> set rows3" for y
    proof -
      have "sn_time b \<le> fw_time y" "\<not> flow_near (fw_time y) 90 (ac_flows d2)"
        using detected_times [OF three that] after by auto
      moreover have "flow_near (sn_time b) 90 (ac_flows d2)"
        using flow_near_self [of x "ac_flows d2"] created by (simp add: detected_def)
      ultimately show ?thesis by (metis le_neq_trans)
    qed
    have "ac_flows d' = (ac_flows d1 @ [x]) @ rows3" using detect_frame [OF three] created by simp
    moreover have "flow_between (sn_time a) (sn_time b) rows3 = 0" using late by (intro flow_between_none) auto
    moreover have "flow_between (sn_time a) (sn_time b) (ac_flows d1) = 0" using far by (intro flow_between_none) auto
    moreover have "flow_between (sn_time a) (sn_time b) [x] = inferred d (a, b)"
      using created long f1 by (simp add: flow_between_def detected_def inferred_def)
    ultimately show ?thesis by (simp only: flow_between_append add_0_left add_0_right)
  qed
qed

lemma compound_nonneg: "0 \<le> c \<Longrightarrow> 0 \<le> compound_loop ps cfs c"
  by (induction ps cfs c rule: compound_loop.induct) auto

text \<open>What an answered report or curve was computed from.\<close>

abbreviation listed_snapshots :: "instant option \<Rightarrow> instant option \<Rightarrow> account_db \<Rightarrow> account_snapshot list" where
  "listed_snapshots start until d \<equiv> page 0 5000 (sort_key sn_time (filter (snapshot_matches start until None) (ac_snapshots d)))"

abbreviation listed_flows :: "instant option \<Rightarrow> instant option \<Rightarrow> account_db \<Rightarrow> cash_flow list" where
  "listed_flows start until d \<equiv> page 0 5000 (sort_key fw_time (filter (flow_matches start until None) (ac_flows d)))"

lemma curve_answered:
  assumes "equity_curve start until d = (Inr c, d')" "listed_snapshots start until d \<noteq> []"
  shows "cv_items c = fst (curve_loop (listed_flows start until d) (listed_snapshots start until d) (listed_flows start until d) 0 None 1 None)"
    and "cv_twr c = Some (snd (curve_loop (listed_flows start until d) (listed_snapshots start until d) (listed_flows start until d) 0 None 1 None) - 1)"
  using assms unfolding equity_curve_def answer_Inr
  by (auto simp: list_snapshots_def list_cash_flows_def split_beta elim!: ac_bind_Inr dest!: ac_query_Inr)

lemma curve_empty:
  assumes "equity_curve start until d = (Inr c, d')" "listed_snapshots start until d = []"
  shows "cv_items c = []"
  using assms unfolding equity_curve_def answer_Inr
  by (auto simp: list_snapshots_def list_cash_flows_def elim!: ac_bind_Inr dest!: ac_query_Inr)

lemma report_answered:
  assumes "twr_report start until d = (Inr r, d')" "2 \<le> length (listed_snapshots start until d)"
  shows "tw_twr r = compute_twr (listed_snapshots start until d) (listed_flows start until d)"
    and "tw_period_count r = length (listed_snapshots start until d) - 1"
    and "tw_cumulative_pnl r = sn_total_assets (last (listed_snapshots start until d)) - sn_total_assets (hd (listed_snapshots start until d))
       - sum_list (map fw_amount (listed_flows start until d))"
  using assms unfolding twr_report_def answer_Inr
  by (auto simp: list_snapshots_def list_cash_flows_def Let_def elim!: ac_bind_Inr dest!: ac_query_Inr)

lemma sorted_listed: "sorted (map sn_time (listed_snapshots a b d))" "sorted (map fw_time (listed_flows a b d))"
  by (simp_all add: sorted_page)


text \<open>A detection fails to read the snapshots, or runs over the consecutive pairs of them.\<close>

lemma consecutive_short: "length xs < 2 \<Longrightarrow> consecutive xs = []"
  by (cases xs) (auto simp: consecutive_def)

lemma detect_run:
  assumes "detect_cash_flows auto_min start until m d = (r, d')"
  obtains (unread) "stmt_fails (ac_faults d)" "de_error r \<noteq> None" "de_created r = 0" "same_tables d d'"
  | (ran) r1 where
      "detect_loop (case m of None \<Rightarrow> auto_min | Some v \<Rightarrow> v) False False (consecutive (listed_snapshots start until d)) (ac_tick d) = (r1, d')"
      "de_error r = (case r1 of Inl x \<Rightarrow> Some (exn_str x) | Inr _ \<Rightarrow> None)"
      "de_created r = (case r1 of Inl _ \<Rightarrow> 0 | Inr rows \<Rightarrow> length rows)"
      "de_items r = (case r1 of Inl _ \<Rightarrow> [] | Inr rows \<Rightarrow> rows)"
proof -
  obtain q d1 where q: "list_snapshots start until None 0 5000 d = (q, d1)" by (rule prod.exhaust)
  show thesis
  proof (cases q)
    case (Inl x)
    then have "d1 = ac_tick d" "stmt_fails (ac_faults d)"
      using q by (auto simp: list_snapshots_def ac_query_def ac_stmt_def split: if_splits)
    then show thesis using assms Inl q by (intro unread) (auto simp: detect_cash_flows_def Let_def)
  next
    case (Inr ss)
    then have ss: "ss = listed_snapshots start until d" "d1 = ac_tick d" using q by (auto simp: list_snapshots_def dest!: ac_query_Inr)
    obtain r1 d2 where l: "detect_loop (case m of None \<Rightarrow> auto_min | Some v \<Rightarrow> v) False False (consecutive ss) d1 = (r1, d2)"
      by (rule prod.exhaust)
    then have "(if length ss < 2 then (Inr [], d1) else detect_loop (case m of None \<Rightarrow> auto_min | Some v \<Rightarrow> v) False False (consecutive ss) d1)
        = (r1, d2)" by (auto simp: consecutive_short)
    then have out: "(case (r1, d2) of (Inl x, d') \<Rightarrow> (\<lparr>de_error = Some (exn_str x), de_created = 0, de_items = []\<rparr>, d')
       | (Inr rows, d') \<Rightarrow> (\<lparr>de_error = None, de_created = length rows, de_items = rows\<rparr>, d')) = (r, d')"
      using assms q Inr by (simp add: detect_cash_flows_def Let_def)
    show thesis by (rule ran [of r1]) (use l ss out in \<open>auto split: sum.splits\<close>)
  qed
qed

lemma curve_length: "length (fst (curve_loop cfs ss rest flow b twr p)) = length ss"
  by (induction ss arbitrary: rest flow b twr p) (simp_all add: Let_def split_beta)

lemma sum_by_period:
  "sum_list (map fw_amount cfs) = flow_between a b cfs + sum_list (map fw_amount (filter (\<lambda>x. fw_time x \<le> a \<or> b < fw_time x) cfs))"
  unfolding flow_between_def by (induction cfs) auto

lemma consecutive_split: "consecutive (xs @ a # b # ys) = consecutive (xs @ [a]) @ (a, b) # consecutive (b # ys)"
proof (induction xs)
  case (Cons x xs)
  then show ?case by (cases xs) (simp_all add: consecutive_def)
qed (simp add: consecutive_def)

lemma consecutive_snd: "p \<in> set (consecutive xs) \<Longrightarrow> snd p \<in> set (tl xs)"
  by (cases p) (auto simp: consecutive_def dest: set_zip_rightD)

section \<open>Properties\<close>

text \<open>
  C27: the equity curve and the report are two computations of the same return: over the same tables
  the curve ends with the report's TWR, which is never below minus one. The profits they show
  differ by the flows at or before the first snapshot and after the last one, which the report
  subtracts although they are no change within the period.
\<close>

theorem curve_and_report_agree:
  assumes "equity_curve start until d = (Inr c, d')" "twr_report start until e = (Inr r, e')"
    and "ac_snapshots e = ac_snapshots d" "ac_flows e = ac_flows d" "2 \<le> length (cv_items c)"
  shows "cv_twr c = Some (tw_twr r) \<and> - 1 \<le> tw_twr r \<and> length (cv_items c) = Suc (tw_period_count r) \<and>
    eq_cumulative_pnl (last (cv_items c)) = tw_cumulative_pnl r
      + sum_list (map fw_amount (filter (\<lambda>x. fw_time x \<le> eq_time (hd (cv_items c)) \<or> eq_time (last (cv_items c)) < fw_time x)
          (listed_flows start until d)))"
proof -
  let ?ss = "listed_snapshots start until d" and ?cfs = "listed_flows start until d"
  have ne: "?ss \<noteq> []" using assms(5) curve_empty [OF assms(1)] by auto
  then obtain s ss where ss: "?ss = s # ss" by (cases ?ss) auto
  note c = curve_answered [OF assms(1) ne]
  have len: "length (cv_items c) = length ?ss" by (simp only: c(1) curve_length)
  then have two: "2 \<le> length (listed_snapshots start until e)" using assms(3,5) by simp
  note r = report_answered [OF assms(2) two, unfolded assms(3,4)]
  have sf: "sorted (map fw_time ?cfs)" and sn: "sorted (map sn_time (s # ss))"
    using sorted_listed [where a = start and b = until and d = d] ss by simp_all
  note pts = curve_of_snapshots [OF sf sn]
  have times: "map eq_time (fst (curve_loop cfs xs rest flow b twr p)) = map sn_time xs" for cfs xs rest flow b twr p
    by (induction xs arbitrary: rest flow b twr p) (simp_all add: Let_def split_beta)
  have items: "cv_items c = fst (curve_loop ?cfs (s # ss) ?cfs 0 None 1 None)" using c(1) ss by simp
  have ne2: "cv_items c \<noteq> []" using assms(5) by auto
  have "eq_cumulative_pnl (last (cv_items c)) = last (map eq_cumulative_pnl (cv_items c))" using ne2 by (simp add: last_map)
  also have "\<dots> = sn_total_assets (last (s # ss)) - sn_total_assets s - flow_between (sn_time s) (sn_time (last (s # ss))) ?cfs"
    by (simp only: items pts(1)) (simp add: last_map)
  finally have pnl: "eq_cumulative_pnl (last (cv_items c)) = sn_total_assets (last (s # ss)) - sn_total_assets s
      - flow_between (sn_time s) (sn_time (last (s # ss))) ?cfs" .
  have "map eq_time (cv_items c) = map sn_time (s # ss)" by (simp only: items times)
  then have "eq_time (hd (cv_items c)) = sn_time s" "eq_time (last (cv_items c)) = sn_time (last (s # ss))"
    using ne2 hd_map [of "cv_items c" eq_time] last_map [of "cv_items c" eq_time] last_map [of "s # ss" sn_time] by auto
  moreover have "- 1 \<le> tw_twr r" using r(1) compound_nonneg [of 1] by (simp add: compute_twr_def)
  moreover have "length (cv_items c) = Suc (tw_period_count r)" using r(2) len two assms(3) by simp
  moreover have "cv_twr c = Some (tw_twr r)" using c(2) pts(2) r(1) by (simp only: ss)
  ultimately show ?thesis
    using pnl r(3) sum_by_period [of ?cfs "sn_time s" "sn_time (last (s # ss))"] by (simp add: ss)
qed

text \<open>
  A second detection finds nothing: after a detection that answered, another one over the same
  tables, whatever fails in it, stores no flow and reports none.
\<close>

theorem detection_is_idempotent:
  assumes "detect_cash_flows auto_min start until m d = (r, d')" "de_error r = None"
    and "same_tables d' e" "detect_cash_flows auto_min start until m e = (r2, e')"
  shows "ac_flows e' = ac_flows e \<and> de_created r2 = 0"
  using assms(4)
proof (cases rule: detect_run)
  case unread
  then show ?thesis by (simp add: same_tables_def)
next
  case (ran r3)
  let ?th = "case m of None \<Rightarrow> auto_min | Some v \<Rightarrow> v"
  from assms(1) obtain rows where d: "detect_loop ?th False False (consecutive (listed_snapshots start until d)) (ac_tick d) = (Inr rows, d')"
    using assms(2) by (cases rule: detect_run) (auto split: sum.splits)
  then have "ac_snapshots e = ac_snapshots d" using detect_frame [OF d] assms(3) by (simp add: same_tables_def)
  then have "\<forall>p\<in>set (consecutive (listed_snapshots start until e)). explained ?th (ac_tick e) p"
    using detect_explains [OF d] assms(3) explained_same [of d' "ac_tick e"] by simp
  from detect_quiet [OF ran(1) this] show ?thesis using ran by (auto split: sum.splits)
qed


text \<open>
  What detection is for: when the assets changed in a period by at least the threshold more than
  its trades explain, and no flow was recorded in it or near its end, the return of the period is
  afterwards exactly that of its trades.
\<close>

theorem detected_flow_leaves_the_trading_return:
  assumes "detect_cash_flows auto_min start until m d = (r, d')" "de_error r = None"
    and "listed_snapshots start until d = pre @ a # b # post" "sn_time a + seconds 90 < sn_time b"
    and "\<forall>x\<in>set (ac_flows d). fw_time x \<le> sn_time a \<or> sn_time b + seconds 90 < fw_time x"
    and "(case m of None \<Rightarrow> auto_min | Some v \<Rightarrow> v) \<le> \<bar>inferred d (a, b)\<bar>" "0 < sn_total_assets a"
  shows "gross_return a b (ac_flows d') = 1 + period_pnl (ac_trades d) (sn_time a) (sn_time b) / sn_total_assets a"
proof -
  let ?th = "case m of None \<Rightarrow> auto_min | Some v \<Rightarrow> v"
  have srt: "sorted (map sn_time (pre @ a # b # post))" using sorted_listed(1) [of start until d] assms(3) by simp
  from assms(1) obtain rows where "detect_loop ?th False False (consecutive (pre @ a # b # post)) (ac_tick d) = (Inr rows, d')"
    using assms(2) by (cases rule: detect_run) (auto simp: assms(3) split: sum.splits)
  then have "flow_between (sn_time a) (sn_time b) (ac_flows d') = inferred (ac_tick d) (a, b)"
    unfolding consecutive_split
  proof (rule detect_one_period)
    show "\<forall>p\<in>set (consecutive (pre @ [a])). sn_time (snd p) \<le> sn_time a"
      using srt consecutive_snd [of _ "pre @ [a]"] list.set_sel(2) [of "pre @ [a]"] by (fastforce simp: sorted_append)
    show "\<forall>p\<in>set (consecutive (b # post)). sn_time b \<le> sn_time (snd p)"
      using srt consecutive_snd [of _ "b # post"] by (fastforce simp: sorted_append)
    show "?th \<le> \<bar>inferred (ac_tick d) (a, b)\<bar>" using assms(6) by (simp add: inferred_def)
  qed (use assms in simp_all)
  then show ?thesis using assms(7) by (simp add: gross_return_def inferred_def field_simps)
qed

definition sample_snapshot :: "nat \<Rightarrow> instant \<Rightarrow> real \<Rightarrow> account_snapshot" where
  "sample_snapshot i t assets = \<lparr>sn_id = i, sn_time = t, sn_type = ''daily'', sn_total_assets = assets, sn_cash = assets,
     sn_stock_value = 0, sn_margin_used = 0, sn_open_positions = 0\<rparr>"

definition sample_account :: "cash_flow list \<Rightarrow> account_db" where
  "sample_account fs = (account_db_init [])\<lparr>ac_snapshots := [sample_snapshot 1 0 100, sample_snapshot 2 (seconds 1000) 150],
     ac_flows := fs\<rparr>"

lemma sample_account_lists:
  "listed_snapshots None None (sample_account fs) = [sample_snapshot 1 0 100, sample_snapshot 2 (seconds 1000) 150]"
  "ac_trades (sample_account fs) = []" "ac_flows (sample_account fs) = fs" "ac_faults (sample_account fs) = []"
  "ac_snapshots (sample_account fs) = [sample_snapshot 1 0 100, sample_snapshot 2 (seconds 1000) 150]"
  by (simp_all add: sample_account_def sample_snapshot_def account_db_init_def page_def snapshot_matches_def in_window_def
      opt_bound_def opt_filter_def)

text \<open>
  A flow that was recorded by hand in the middle of a period is detected again: the detection
  looks for recorded flows only within 90 seconds of the later snapshot. The return of the
  period, zero before, is then wrong by the share of the flow.
\<close>

theorem manual_flow_is_detected_again:
  assumes "ac_snapshots d = [a, b]" "ac_trades d = []" "ac_flows d = [f]" "ac_faults d = []"
    and "sn_time a < fw_time f" "fw_time f + seconds 90 < sn_time b" "0 < sn_total_assets a"
    and "fw_amount f = sn_total_assets b - sn_total_assets a" "auto_min \<le> \<bar>fw_amount f\<bar>"
  shows "\<exists>r d'. detect_cash_flows auto_min None None None d = (r, d') \<and> de_error r = None \<and> de_created r = 1 \<and>
    gross_return a b (ac_flows d) = 1 \<and> gross_return a b (ac_flows d') = 1 - fw_amount f / sn_total_assets a"
proof -
  have l: "listed_snapshots None None d = [a, b]"
    using assms by (simp add: page_def snapshot_matches_def in_window_def opt_bound_def opt_filter_def)
  obtain r d' where run: "detect_cash_flows auto_min None None None d = (r, d')" by (rule prod.exhaust)
  have inf: "inferred d (a, b) = fw_amount f"
    using assms by (simp add: inferred_def period_pnl_def realized_between_def page_def)
  have ne: "\<not> explained auto_min d (a, b)"
    using assms(3,6,9) inf by (auto simp: explained_def flow_near_def)
  obtain r1 d1 where one: "detect_one auto_min False False (a, b) d = (r1, d1)" by (rule prod.exhaust)
  from one obtain x where x: "r1 = Inr (Some x)" "detected d (a, b) x" "ac_flows d1 = [f, x]"
  proof (cases rule: detect_one_cases)
    case (failed xs)
    then show thesis using one assms(4)
      by (auto simp: detect_one_def reload_def sum_realized_pnl_def list_trades_def has_cash_flow_near_def create_cash_flow_def Let_def split: if_splits)
  next
    case (created x)
    then show thesis using that assms(3) by simp
  qed (use ne in simp)
  have "ac_tick d = d" using assms(4) by simp
  then have dl: "detect_loop auto_min False False (consecutive [a, b]) (ac_tick d) = (Inr [x], d1)"
    using one x by (simp add: consecutive_def)
  have "de_error r = None \<and> de_created r = 1 \<and> d' = d1"
    using run
  proof (cases rule: detect_run)
    case unread
    then show ?thesis using assms(4) by simp
  next
    case (ran r2)
    then show ?thesis using dl l by auto
  qed
  moreover have "gross_return a b (ac_flows d) = 1" "gross_return a b [f, x] = 1 - fw_amount f / sn_total_assets a"
    using assms x(2) inf by (auto simp: gross_return_def flow_between_def detected_def field_simps)
  ultimately show ?thesis using run x(3) by (intro exI [of _ r] exI [of _ d']) simp
qed

definition sample_flow :: cash_flow where
  "sample_flow = \<lparr>fw_id = 1, fw_time = seconds 500, fw_amount = 50, fw_total_before = 100, fw_total_after = 150,
     fw_detected_by = ''manual''\<rparr>"

theorem manual_flow_is_detected_again_witness:
  "\<exists>r d'. detect_cash_flows 10 None None None (sample_account [sample_flow]) = (r, d') \<and> de_created r = 1"
  using manual_flow_is_detected_again [of "sample_account [sample_flow]" "sample_snapshot 1 0 100"
      "sample_snapshot 2 (seconds 1000) 150" sample_flow 10]
  by (auto simp: sample_account_lists sample_snapshot_def sample_flow_def)

theorem detected_flow_leaves_the_trading_return_witness:
  "\<exists>r d'. detect_cash_flows 10 None None None (sample_account []) = (r, d') \<and>
     gross_return (sample_snapshot 1 0 100) (sample_snapshot 2 (seconds 1000) 150) (ac_flows d') = 1"
proof -
  obtain r d' where run: "detect_cash_flows 10 None None None (sample_account []) = (r, d')" by (rule prod.exhaust)
  have none: "period_pnl [] (sn_time a) (sn_time b) = 0" for a b :: account_snapshot
    by (simp add: period_pnl_def realized_between_def page_def)
  have "de_error r = None"
    using run
    by (auto simp: detect_cash_flows_def list_snapshots_def list_trades_def sample_account_lists consecutive_def detect_one_def reload_def
        sum_realized_pnl_def has_cash_flow_near_def create_cash_flow_def Let_def none period_pnl_def realized_between_def page_def split: if_splits)
  then have "gross_return (sample_snapshot 1 0 100) (sample_snapshot 2 (seconds 1000) 150) (ac_flows d')
      = 1 + period_pnl [] (sn_time (sample_snapshot 1 0 100)) (sn_time (sample_snapshot 2 (seconds 1000) 150)) / 100"
    using detected_flow_leaves_the_trading_return [OF run _ sample_account_lists(1) [THEN trans, OF append_Nil [symmetric]]]
    by (simp add: sample_account_lists(2,3) inferred_def none) (simp add: sample_snapshot_def)
  then show ?thesis using run by (simp add: none)
qed

theorem detection_is_idempotent_witness:
  "\<exists>r d'. detect_cash_flows 10 None None None (sample_account []) = (r, d') \<and>
     ac_flows (snd (detect_cash_flows 10 None None None d')) = ac_flows d'"
proof -
  obtain r d' where run: "detect_cash_flows 10 None None None (sample_account []) = (r, d')" by (rule prod.exhaust)
  obtain r2 e' where again: "detect_cash_flows 10 None None None d' = (r2, e')" by (rule prod.exhaust)
  have none: "period_pnl [] (sn_time a) (sn_time b) = 0" for a b :: account_snapshot
    by (simp add: period_pnl_def realized_between_def page_def)
  have "de_error r = None"
    using run
    by (auto simp: detect_cash_flows_def list_snapshots_def list_trades_def sample_account_lists consecutive_def detect_one_def reload_def
        sum_realized_pnl_def has_cash_flow_near_def create_cash_flow_def Let_def none period_pnl_def realized_between_def page_def split: if_splits)
  then show ?thesis using detection_is_idempotent [OF run _ _ again] run again by auto
qed

theorem curve_and_report_agree_witness:
  "\<exists>c d' r e'. equity_curve None None (sample_account [sample_flow]) = (Inr c, d') \<and>
     twr_report None None (sample_account [sample_flow]) = (Inr r, e') \<and> cv_twr c = Some (tw_twr r)"
proof -
  let ?d = "sample_account [sample_flow]"
  obtain c d' where c: "equity_curve None None ?d = (Inr c, d')"
    by (simp add: equity_curve_def list_snapshots_def list_cash_flows_def sample_account_lists(2-4))
  obtain r e' where r: "twr_report None None ?d = (Inr r, e')"
    by (cases "length (listed_snapshots None None ?d) < 2")
      (auto simp: twr_report_def list_snapshots_def list_cash_flows_def sum_realized_pnl_def list_trades_def sample_account_lists(2-4) Let_def)
  have "2 \<le> length (cv_items c)"
    unfolding curve_answered(1) [OF c, unfolded sample_account_lists(1), OF list.distinct(2)] curve_length
    by (simp only: list.size)
  then show ?thesis using curve_and_report_agree [OF c r] c r by auto
qed

end
