(* ===== verification/Reports.thy ===== *)
theory Reports
  imports Performance Runtime_Safety "HOL-Library.AList" "HOL-Library.Char_ord" "HOL-Library.List_Lexorder"
    "HOL-Library.Option_ord"
begin

text \<open>
  What is computed from the simulated trades and the journal of events: the pass or fail report
  of paper trading (\<open>app/services/paper_report.py\<close>), the metrics per strategy
  (\<open>app/services/strategy_performance.py\<close>) and the daily and weekly operations report
  (\<open>app/services/daily_report.py\<close>). The lines of a report are values, not Korean texts. The
  local date of an instant is the time zone's, a parameter; dates are proleptic day numbers.
\<close>

definition is_closed_trade :: "paper_trade \<Rightarrow> bool" where
  "is_closed_trade t \<longleftrightarrow> pt_exit_price t \<noteq> None \<and> pt_pnl t \<noteq> None"

abbreviation trade_pnl :: "paper_trade \<Rightarrow> real" where
  "trade_pnl t \<equiv> or_real (pt_pnl t) 0"

section \<open>The paper report\<close>

record pass_criteria =
  pc_min_signals :: nat
  pc_min_days :: int
  pc_min_win_rate :: real
  pc_min_sharpe :: real
  pc_max_mdd :: real
  pc_max_position_mismatch :: nat
  pc_max_error_rate :: real

definition default_criteria :: pass_criteria where
  "default_criteria = \<lparr>pc_min_signals = 100, pc_min_days = 14, pc_min_win_rate = 52 / 100, pc_min_sharpe = 1,
     pc_max_mdd = 15 / 100, pc_max_position_mismatch = 0, pc_max_error_rate = 1 / 1000\<rparr>"

text \<open>The service: its criteria and capital, the safety manager and the counts of cycles and errors, if any.\<close>

record paper_service =
  pr_criteria :: pass_criteria
  pr_initial_capital :: real
  pr_safety :: "safety option"
  pr_health :: "(nat \<times> nat) option"

record paper_metrics =
  pm_total_signals :: nat
  pm_operating_days :: int
  pm_closed_trades :: nat
  pm_win_rate :: real
  pm_sharpe_ratio :: real
  pm_mdd :: real
  pm_expected_value :: real
  pm_total_pnl :: real
  pm_position_mismatch_count :: nat
  pm_error_rate :: real

definition mean_of :: "real list \<Rightarrow> real" where
  "mean_of xs = sum_list xs / real (length xs)"

definition pstdev_of :: "real list \<Rightarrow> real" where
  "pstdev_of xs = sqrt (sum_list (map (\<lambda>x. (x - mean_of xs)\<^sup>2) xs) / real (length xs))"

definition paper_sharpe :: "real list \<Rightarrow> real" where
  "paper_sharpe returns =
     (if length returns < 2 then 0
      else (let avg = mean_of returns; std = pstdev_of returns
            in if std = 0 then (if avg > 0 then 10 else 0)
               else avg / std * sqrt (real (length returns))))"

fun equity_drawdown :: "paper_trade list \<Rightarrow> real \<Rightarrow> real \<Rightarrow> real \<Rightarrow> real" where
  "equity_drawdown [] equity peak max_dd = max_dd"
| "equity_drawdown (t # ts) equity peak max_dd =
     (let equity' = equity + trade_pnl t; peak' = max peak equity'
      in equity_drawdown ts equity' peak' (if peak' > 0 then max max_dd ((peak' - equity') / peak') else max_dd))"

definition paper_max_drawdown :: "real \<Rightarrow> paper_trade list \<Rightarrow> real" where
  "paper_max_drawdown capital finished =
     (if finished = [] then 0 else equity_drawdown (sort_key pt_created_at finished) capital capital 0)"

definition trade_returns :: "paper_trade list \<Rightarrow> real list" where
  "trade_returns finished =
     map (\<lambda>t. trade_pnl t / (pt_entry_price t * pt_quantity t)) (filter (\<lambda>t. \<not> pt_entry_price t * pt_quantity t \<le> 0) finished)"

definition operating_days :: "(instant \<Rightarrow> int) \<Rightarrow> paper_trade list \<Rightarrow> int" where
  "operating_days local_day trades =
     (if trades = [] then 0
      else local_day (Max (pt_created_at ` set trades)) - local_day (Min (pt_created_at ` set trades)) + 1)"

definition paper_metrics_of :: "(instant \<Rightarrow> int) \<Rightarrow> paper_service \<Rightarrow> paper_trade list \<Rightarrow> paper_trade list \<Rightarrow> paper_metrics" where
  "paper_metrics_of local_day sv trades finished =
     (let closed_count = length finished;
          wins = length (filter (\<lambda>t. trade_pnl t > 0) finished);
          total_pnl = sum_list (map trade_pnl finished)
      in \<lparr>pm_total_signals = length trades, pm_operating_days = operating_days local_day trades, pm_closed_trades = closed_count,
          pm_win_rate = (if closed_count \<noteq> 0 then real wins / real closed_count else 0),
          pm_sharpe_ratio = paper_sharpe (trade_returns finished),
          pm_mdd = paper_max_drawdown (pr_initial_capital sv) finished,
          pm_expected_value = (if closed_count \<noteq> 0 then total_pnl / real closed_count else 0),
          pm_total_pnl = total_pnl,
          pm_position_mismatch_count =
            (case pr_safety sv of None \<Rightarrow> 0
             | Some sf \<Rightarrow> length (filter (\<lambda>e. ev_code e = ''position_mismatch'') (latest_events 1000 sf))),
          pm_error_rate =
            (case pr_health sv of None \<Rightarrow> 0
             | Some (cycles, errors) \<Rightarrow> if cycles > 0 then real errors / real cycles else 0)\<rparr>)"

datatype threshold = AtLeast real | AtMost real | Below real

record criterion =
  cr_key :: string
  cr_pass :: bool
  cr_value :: real
  cr_threshold :: threshold

definition check_criteria :: "pass_criteria \<Rightarrow> paper_metrics \<Rightarrow> criterion list" where
  "check_criteria c m =
     [\<lparr>cr_key = ''min_signals'', cr_pass = pc_min_signals c \<le> pm_total_signals m,
        cr_value = real (pm_total_signals m), cr_threshold = AtLeast (real (pc_min_signals c))\<rparr>,
      \<lparr>cr_key = ''min_operating_days'', cr_pass = pc_min_days c \<le> pm_operating_days m,
        cr_value = real_of_int (pm_operating_days m), cr_threshold = AtLeast (real_of_int (pc_min_days c))\<rparr>,
      \<lparr>cr_key = ''win_rate'', cr_pass = pc_min_win_rate c \<le> pm_win_rate m,
        cr_value = pm_win_rate m, cr_threshold = AtLeast (pc_min_win_rate c)\<rparr>,
      \<lparr>cr_key = ''sharpe_ratio'', cr_pass = pc_min_sharpe c \<le> pm_sharpe_ratio m,
        cr_value = pm_sharpe_ratio m, cr_threshold = AtLeast (pc_min_sharpe c)\<rparr>,
      \<lparr>cr_key = ''mdd'', cr_pass = pm_mdd m \<le> pc_max_mdd c, cr_value = pm_mdd m, cr_threshold = AtMost (pc_max_mdd c)\<rparr>,
      \<lparr>cr_key = ''position_mismatch_count'', cr_pass = pm_position_mismatch_count m \<le> pc_max_position_mismatch c,
        cr_value = real (pm_position_mismatch_count m), cr_threshold = AtMost (real (pc_max_position_mismatch c))\<rparr>,
      \<lparr>cr_key = ''error_rate'', cr_pass = pm_error_rate m < pc_max_error_rate c,
        cr_value = pm_error_rate m, cr_threshold = Below (pc_max_error_rate c)\<rparr>]"

record paper_report =
  rp_passed :: bool
  rp_metrics :: paper_metrics
  rp_criteria :: "criterion list"

definition build_paper_report ::
  "(instant \<Rightarrow> int) \<Rightarrow> paper_service \<Rightarrow> account_db \<Rightarrow> (string + paper_report) \<times> account_db" where
  "build_paper_report local_day sv d =
     answer (ac_bind (list_trades any_trade 0 10000 False d) (\<lambda>trades d1.
       let finished = filter is_closed_trade trades;
           metrics = paper_metrics_of local_day sv trades finished;
           checks = check_criteria (pr_criteria sv) metrics
       in (Inr \<lparr>rp_passed = list_all cr_pass checks, rp_metrics = metrics, rp_criteria = checks\<rparr>, d1)))"

section \<open>Metrics per strategy\<close>

record strategy_metrics =
  sm_strategy_id :: string
  sm_trades :: nat
  sm_wins :: nat
  sm_losses :: nat
  sm_win_rate :: real
  sm_total_pnl :: real
  sm_avg_pnl :: real
  sm_expectancy :: real
  sm_payoff_ratio :: "real option"
  sm_profit_factor :: "real option"

definition compute_metrics :: "string \<Rightarrow> paper_trade list \<Rightarrow> strategy_metrics" where
  "compute_metrics sid rows =
     (let trades = length rows;
          pnls = map trade_pnl rows;
          wins = length (filter (\<lambda>x. x > 0) pnls);
          losses = length (filter (\<lambda>x. x < 0) pnls);
          total_pnl = sum_list pnls;
          avg_pnl = (if trades \<noteq> 0 then total_pnl / real trades else 0);
          gross_profit = sum_list (filter (\<lambda>x. x > 0) pnls);
          gross_loss_abs = \<bar>sum_list (filter (\<lambda>x. x < 0) pnls)\<bar>;
          avg_win = (if wins > 0 then gross_profit / real wins else 0);
          avg_loss_abs = (if losses > 0 then gross_loss_abs / real losses else 0)
      in \<lparr>sm_strategy_id = sid, sm_trades = trades, sm_wins = wins, sm_losses = losses,
          sm_win_rate = (if trades \<noteq> 0 then real wins / real trades else 0), sm_total_pnl = total_pnl, sm_avg_pnl = avg_pnl,
          sm_expectancy = avg_pnl,
          sm_payoff_ratio = (if avg_loss_abs > 0 then Some (avg_win / avg_loss_abs) else None),
          sm_profit_factor = (if gross_loss_abs > 0 then Some (gross_profit / gross_loss_abs) else None)\<rparr>)"

text \<open>\<open>grouped.setdefault(strategy, []).append(trade)\<close> for every finished trade.\<close>

definition group_trades :: "paper_trade list \<Rightarrow> (string \<times> paper_trade list) list" where
  "group_trades trades =
     foldl (\<lambda>g t. AList.map_default (pt_strategy_id t) [t] (\<lambda>rows. rows @ [t]) g) [] (filter is_closed_trade trades)"

text \<open>\<open>float("-inf")\<close> for an absent ratio: \<open>None\<close> is below every number.\<close>

definition sort_value :: "string \<Rightarrow> strategy_metrics \<Rightarrow> real option" where
  "sort_value sort_by m =
     (let key = py_lower (py_strip sort_by)
      in if key = ''strategy_id'' then Some 0
         else if key = ''trades'' then Some (real (sm_trades m))
         else if key = ''wins'' then Some (real (sm_wins m))
         else if key = ''losses'' then Some (real (sm_losses m))
         else if key = ''win_rate'' then Some (sm_win_rate m)
         else if key = ''avg_pnl'' then Some (sm_avg_pnl m)
         else if key = ''expectancy'' then Some (sm_expectancy m)
         else if key = ''payoff_ratio'' then sm_payoff_ratio m
         else if key = ''profit_factor'' then sm_profit_factor m
         else Some (sm_total_pnl m))"

text \<open>\<open>needle in text\<close>\<close>

definition py_contains :: "string \<Rightarrow> string \<Rightarrow> bool" where
  "py_contains needle txt = list_ex (\<lambda>i. py_startswith (drop i txt) needle) [0..<Suc (length txt)]"

record strategy_query =
  sq_start :: "instant option"
  sq_end :: "instant option"
  sq_strategy_id :: "string option"
  sq_query :: "string option"
  sq_offset :: int
  sq_limit :: int
  sq_min_trades :: int
  sq_sort_by :: string
  sq_sort_order :: string

definition sort_metrics :: "string \<Rightarrow> string \<Rightarrow> strategy_metrics list \<Rightarrow> strategy_metrics list" where
  "sort_metrics sort_by sort_order ms =
     (let descending = py_lower sort_order \<noteq> ''asc''
      in if py_lower (py_strip sort_by) = ''strategy_id''
         then (if descending then py_sorted_rev sm_strategy_id ms else sort_key sm_strategy_id ms)
         else (if descending then py_sorted_rev (sort_value sort_by) ms else sort_key (sort_value sort_by) ms))"

definition select_metrics :: "strategy_query \<Rightarrow> paper_trade list \<Rightarrow> strategy_metrics list" where
  "select_metrics q trades =
     (let metrics = map (\<lambda>(sid, rows). compute_metrics sid rows) (group_trades trades);
          enough = filter (\<lambda>m. int (sm_trades m) \<ge> max (sq_min_trades q) 0) metrics;
          found = filter (\<lambda>m. opt_filter (sq_query q) (\<lambda>s. py_contains (py_lower (py_strip s)) (py_lower (sm_strategy_id m)))) enough
      in sort_metrics (sq_sort_by q) (sq_sort_order q) found)"

record strategy_answer =
  sa_items :: "strategy_metrics list"
  sa_total :: nat
  sa_offset :: int
  sa_limit :: int

definition strategy_report :: "strategy_query \<Rightarrow> account_db \<Rightarrow> (string + strategy_answer) \<times> account_db" where
  "strategy_report q d =
     answer (ac_bind
       (list_trades \<lparr>tf_start = sq_start q, tf_end = sq_end q, tf_ticker = None, tf_strategy_id = sq_strategy_id q, tf_side = None\<rparr>
          0 100000 False d)
       (\<lambda>trades d1.
          let metrics = select_metrics q trades; off = max (sq_offset q) 0; lim = max (sq_limit q) 1
          in (Inr \<lparr>sa_items = py_slice metrics off (off + lim), sa_total = length metrics, sa_offset = off, sa_limit = lim\<rparr>, d1)))"

section \<open>Grouping is filtering\<close>

lemma map_of_map_default:
  "map_of (AList.map_default k v f al) = (map_of al)(k \<mapsto> case map_of al k of None \<Rightarrow> v | Some x \<Rightarrow> f x)"
  by (induction al) (auto simp: fun_eq_iff)

lemma fst_map_default: "fst ` set (AList.map_default k v f al) = insert k (fst ` set al)"
  by (induction al) auto

lemma distinct_map_default: "distinct (map fst al) \<Longrightarrow> distinct (map fst (AList.map_default k v f al))"
proof (induction al)
  case (Cons a al)
  then show ?case using fst_map_default [of k v f al] by (cases a) auto
qed simp

text \<open>Each strategy's group is the list of its closed trades, in their order.\<close>

lemma group_trades_map:
  "map_of (group_trades trades) sid =
     (let rows = filter (\<lambda>t. is_closed_trade t \<and> pt_strategy_id t = sid) trades in if rows = [] then None else Some rows)
   \<and> distinct (map fst (group_trades trades))"
proof (induction trades rule: rev_induct)
  case Nil
  show ?case by (simp add: group_trades_def)
next
  case (snoc t ts)
  show ?case
  proof (cases "is_closed_trade t")
    case False
    then have "group_trades (ts @ [t]) = group_trades ts" by (simp add: group_trades_def)
    then show ?thesis using snoc False by simp
  next
    case True
    then have g: "group_trades (ts @ [t]) = AList.map_default (pt_strategy_id t) [t] (\<lambda>rows. rows @ [t]) (group_trades ts)"
      by (simp add: group_trades_def)
    have "map_of (group_trades (ts @ [t])) sid = (if sid = pt_strategy_id t
        then Some (case map_of (group_trades ts) sid of None \<Rightarrow> [t] | Some x \<Rightarrow> x @ [t]) else map_of (group_trades ts) sid)"
      by (simp add: g map_of_map_default)
    then show ?thesis using snoc True by (auto simp: Let_def g distinct_map_default)
  qed
qed

lemma group_trades_set:
  "(sid, rows) \<in> set (group_trades trades) \<longleftrightarrow>
     rows = filter (\<lambda>t. is_closed_trade t \<and> pt_strategy_id t = sid) trades \<and> rows \<noteq> []"
proof -
  have "distinct (map fst (group_trades trades))" using group_trades_map by blast
  then have "(sid, rows) \<in> set (group_trades trades) \<longleftrightarrow> map_of (group_trades trades) sid = Some rows"
    by (simp add: map_of_eq_Some_iff)
  then show ?thesis using group_trades_map [of trades sid] by (auto simp: Let_def split: if_splits)
qed

text \<open>Nothing is counted twice or lost: a sum over the groups is the sum over the closed trades.\<close>

lemma sum_map_default:
  fixes h :: "paper_trade \<Rightarrow> 'a::comm_monoid_add"
  assumes "distinct (map fst al)"
  shows "sum_list (map (\<lambda>(s, rows). sum_list (map h rows)) (AList.map_default k [t] (\<lambda>rows. rows @ [t]) al))
         = sum_list (map (\<lambda>(s, rows). sum_list (map h rows)) al) + h t"
  using assms by (induction al) (auto simp: ac_simps)

lemma sum_groups:
  fixes h :: "paper_trade \<Rightarrow> 'a::comm_monoid_add"
  shows "sum_list (map (\<lambda>(s, rows). sum_list (map h rows)) (group_trades trades)) = sum_list (map h (filter is_closed_trade trades))"
proof (induction trades rule: rev_induct)
  case (snoc t ts)
  show ?case
  proof (cases "is_closed_trade t")
    case True
    then have "group_trades (ts @ [t]) = AList.map_default (pt_strategy_id t) [t] (\<lambda>rows. rows @ [t]) (group_trades ts)"
      by (simp add: group_trades_def)
    then show ?thesis using snoc True group_trades_map [of ts] by (simp add: sum_map_default)
  next
    case False
    then have "group_trades (ts @ [t]) = group_trades ts" by (simp add: group_trades_def)
    then show ?thesis using snoc False by simp
  qed
qed (simp add: group_trades_def)

section \<open>Selection and order\<close>

lemma set_sort_metrics [simp]: "set (sort_metrics by' order' ms) = set ms"
  by (simp add: sort_metrics_def Let_def)

lemma mset_sort_metrics [simp]: "mset (sort_metrics by' order' ms) = mset ms"
  by (simp add: sort_metrics_def py_sorted_rev_def Let_def)

lemma compute_metrics_id [simp]: "sm_strategy_id (compute_metrics sid rows) = sid"
  by (simp add: compute_metrics_def Let_def)

text \<open>The profit and loss of a list of trades, split by sign.\<close>

lemma pnl_split: "sum_list xs = sum_list (filter (\<lambda>x. x > 0) xs) - \<bar>sum_list (filter (\<lambda>x. x < 0) xs)\<bar>" for xs :: "real list"
proof -
  have "sum_list (filter (\<lambda>x. x < 0) xs) \<le> 0" by (induction xs) auto
  moreover have "sum_list xs = sum_list (filter (\<lambda>x. x > 0) xs) + sum_list (filter (\<lambda>x. x < 0) xs)"
    by (induction xs) auto
  ultimately show ?thesis by simp
qed

lemma losses_negative: "\<bar>sum_list (filter (\<lambda>x. x < 0) xs)\<bar> > 0 \<longleftrightarrow> length (filter (\<lambda>x. x < 0) xs) > 0" for xs :: "real list"
proof (induction xs)
  case (Cons a xs)
  have "sum_list (filter (\<lambda>x. x < 0) xs) \<le> 0" by (induction xs) auto
  then show ?case using Cons by auto
qed simp

lemma wins_and_losses: "length (filter (\<lambda>x. x > 0) xs) + length (filter (\<lambda>x. x < 0) xs) \<le> length xs" for xs :: "real list"
  by (induction xs) auto

text \<open>What the metrics of a strategy say: a profit factor above one is a gain, and the counts fit.\<close>

lemma metrics_laws:
  defines "m \<equiv> \<lambda>sid rows. compute_metrics sid rows"
  shows "sm_wins (m sid rows) + sm_losses (m sid rows) \<le> sm_trades (m sid rows)"
    and "0 \<le> sm_win_rate (m sid rows)" "sm_win_rate (m sid rows) \<le> 1"
    and "sm_profit_factor (m sid rows) = None \<longleftrightarrow> sm_losses (m sid rows) = 0"
    and "sm_profit_factor (m sid rows) = Some f \<Longrightarrow> 1 < f \<longleftrightarrow> 0 < sm_total_pnl (m sid rows)"
proof -
  let ?xs = "map trade_pnl rows"
  let ?g = "sum_list (filter (\<lambda>x. x > 0) ?xs)" and ?l = "\<bar>sum_list (filter (\<lambda>x. x < 0) ?xs)\<bar>"
  have m: "sm_trades (m sid rows) = length rows" "sm_wins (m sid rows) = length (filter (\<lambda>x. x > 0) ?xs)"
    "sm_losses (m sid rows) = length (filter (\<lambda>x. x < 0) ?xs)" "sm_total_pnl (m sid rows) = sum_list ?xs"
    "sm_win_rate (m sid rows) = (if length rows \<noteq> 0 then real (length (filter (\<lambda>x. x > 0) ?xs)) / real (length rows) else 0)"
    "sm_profit_factor (m sid rows) = (if ?l > 0 then Some (?g / ?l) else None)"
    by (simp_all add: m_def compute_metrics_def Let_def)
  show "sm_wins (m sid rows) + sm_losses (m sid rows) \<le> sm_trades (m sid rows)"
    using wins_and_losses [of ?xs] by (simp only: m length_map)
  have "length (filter (\<lambda>x. x > 0) ?xs) \<le> length rows" using length_filter_le [of _ ?xs] by (simp only: length_map)
  then show "0 \<le> sm_win_rate (m sid rows)" "sm_win_rate (m sid rows) \<le> 1" by (auto simp: m(5) divide_le_eq)
  show "sm_profit_factor (m sid rows) = None \<longleftrightarrow> sm_losses (m sid rows) = 0"
    unfolding m(3,6) using losses_negative [of ?xs] by auto
  assume f: "sm_profit_factor (m sid rows) = Some f"
  then have l: "?l > 0" and "f = ?g / ?l" unfolding m(6) by (auto split: if_splits)
  then have "1 < f \<longleftrightarrow> ?l < ?g" by (simp add: less_divide_eq)
  then show "1 < f \<longleftrightarrow> 0 < sm_total_pnl (m sid rows)" unfolding m(4) using pnl_split [of ?xs] by linarith
qed

section \<open>The drawdown\<close>

text \<open>The reference: the largest relative distance of the equity from its highest value so far.\<close>

definition equities :: "real \<Rightarrow> paper_trade list \<Rightarrow> real list" where
  "equities capital ts = map (\<lambda>n. capital + sum_list (map trade_pnl (take n ts))) [0..<Suc (length ts)]"

definition falls :: "real \<Rightarrow> real list \<Rightarrow> real list" where
  "falls pk es = map (\<lambda>n. (Max (insert pk (set (take (Suc n) es))) - es ! n) / Max (insert pk (set (take (Suc n) es)))) [0..<length es]"

lemma falls_Cons: "falls pk (e # es) = (max pk e - e) / max pk e # falls (max pk e) es"
proof -
  have "Max (insert pk (set (take (Suc (Suc n)) (e # es)))) = Max (insert (max pk e) (set (take (Suc n) es)))" for n
  proof (cases "set (take (Suc n) es) = {}")
    case True
    then show ?thesis by (simp add: max.commute)
  next
    case False
    then show ?thesis by (simp add: Max_insert max.assoc)
  qed
  then show ?thesis
    by (simp add: falls_def upt_conv_Cons comp_def del: upt_Suc take_Suc_Cons flip: map_Suc_upt) (simp add: max.commute)
qed

lemma drawdown_falls:
  assumes "0 < pk"
  shows "equity_drawdown ts eq pk d = foldl max d (falls pk (tl (equities eq ts)))"
  using assms
proof (induction ts arbitrary: eq pk d)
  case Nil
  show ?case by (simp add: equities_def falls_def)
next
  case (Cons t ts)
  have e: "tl (equities eq (t # ts)) = (eq + trade_pnl t) # tl (equities (eq + trade_pnl t) ts)"
    by (simp add: equities_def upt_conv_Cons comp_def add.assoc del: upt_Suc flip: map_Suc_upt)
  have "0 < max pk (eq + trade_pnl t)" using Cons.prems by simp
  then show ?case using Cons.IH by (simp add: e falls_Cons Let_def)
qed

lemma foldl_max: "foldl max a xs = Max (insert a (set xs))" for a :: real
proof (induction xs arbitrary: a)
  case (Cons x xs)
  have "foldl max a (x # xs) = Max (insert (max a x) (set xs))" using Cons by simp
  also have "\<dots> = Max (insert a (insert x (set xs)))" by (cases "set xs = {}") (simp_all add: Max_insert max.assoc)
  finally show ?case by simp
qed simp

section \<open>Properties\<close>

text \<open>
  The drawdown of a paper report is the largest fall of the equity below its highest value so far,
  relative to that value, over all moments from the first trade to the last.
\<close>

theorem paper_drawdown_is_the_largest_fall:
  assumes "0 < capital"
  shows "paper_max_drawdown capital ts = Max (set (falls capital (equities capital (sort_key pt_created_at ts))))"
proof -
  let ?ts = "sort_key pt_created_at ts"
  have hd: "equities capital ?ts = capital # tl (equities capital ?ts)"
    by (simp add: equities_def upt_conv_Cons del: upt_Suc)
  have "falls capital (equities capital ?ts) = 0 # falls capital (tl (equities capital ?ts))"
    by (subst hd) (simp add: falls_Cons)
  moreover have "paper_max_drawdown capital ts = foldl max 0 (falls capital (tl (equities capital ?ts)))"
    using drawdown_falls [OF assms, of ?ts capital 0]
    by (cases "ts = []") (simp_all add: paper_max_drawdown_def equities_def falls_def)
  ultimately show ?thesis by (simp add: foldl_max)
qed

definition sample_trade :: "string \<Rightarrow> instant \<Rightarrow> real option \<Rightarrow> paper_trade" where
  "sample_trade sid t pnl = \<lparr>pt_id = 1, pt_ticker = ''A'', pt_strategy_id = sid, pt_side = ''sell'', pt_entry_price = 10,
     pt_exit_price = Some 11, pt_quantity = 2, pt_pnl = pnl, pt_created_at = t\<rparr>"

theorem paper_drawdown_is_the_largest_fall_witness:
  "paper_max_drawdown 100 [sample_trade ''1'' 5 (Some (- 30)), sample_trade ''1'' 3 (Some 20)]
     = Max (set (falls 100 [100, 120, 90]))"
proof -
  have "equities 100 (sort_key pt_created_at [sample_trade ''1'' 5 (Some (- 30)), sample_trade ''1'' 3 (Some 20)]) = [100, 120, 90]"
    by (simp add: equities_def sample_trade_def or_real_def)
  then show ?thesis using paper_drawdown_is_the_largest_fall [of 100 "[sample_trade ''1'' 5 (Some (- 30)), sample_trade ''1'' 3 (Some 20)]"]
    by simp
qed

text \<open>
  The report per strategy accounts for every closed trade once: with no restriction its rows are
  those of distinct strategies, each computed from exactly the closed trades of its strategy, and
  their counts and profits add up to those of all closed trades.
\<close>

theorem strategies_account_for_every_trade:
  assumes "sq_min_trades q \<le> 1" "sq_query q = None"
  shows "distinct (map sm_strategy_id (select_metrics q trades)) \<and>
    set (select_metrics q trades) = (\<lambda>sid. compute_metrics sid (filter (\<lambda>t. is_closed_trade t \<and> pt_strategy_id t = sid) trades))
       ` pt_strategy_id ` {t \<in> set trades. is_closed_trade t} \<and>
    sum_list (map sm_trades (select_metrics q trades)) = length (filter is_closed_trade trades) \<and>
    sum_list (map sm_total_pnl (select_metrics q trades)) = sum_list (map trade_pnl (filter is_closed_trade trades))"
proof -
  let ?g = "group_trades trades" and ?ms = "map (\<lambda>(sid, rows). compute_metrics sid rows) (group_trades trades)"
  have n: "sm_trades (compute_metrics sid rows) = length rows" "sm_total_pnl (compute_metrics sid rows) = sum_list (map trade_pnl rows)" for sid rows
    by (simp_all add: compute_metrics_def Let_def)
  have "\<forall>m\<in>set ?ms. int (sm_trades m) \<ge> max (sq_min_trades q) 0"
    using assms(1) by (auto simp: n group_trades_set Suc_le_eq simp flip: length_greater_0_conv)
  then have sel: "select_metrics q trades = sort_metrics (sq_sort_by q) (sq_sort_order q) ?ms"
    using assms(2) by (auto simp: select_metrics_def Let_def opt_filter_def cong: filter_cong intro!: arg_cong [where f = "sort_metrics _ _"] filter_True)
  have ms: "mset (select_metrics q trades) = mset ?ms" by (simp add: sel)
  have "map sm_strategy_id ?ms = map fst ?g" by (auto simp: comp_def split_beta)
  then have "distinct (map sm_strategy_id ?ms)" using group_trades_map by metis
  then have "distinct (map sm_strategy_id (select_metrics q trades))" using ms by (metis mset_eq_imp_distinct_iff mset_map)
  moreover have "set (select_metrics q trades) = (\<lambda>(sid, rows). compute_metrics sid rows) ` set ?g" by (simp add: sel)
  moreover have "\<dots> = (\<lambda>sid. compute_metrics sid (filter (\<lambda>t. is_closed_trade t \<and> pt_strategy_id t = sid) trades))
       ` pt_strategy_id ` {t \<in> set trades. is_closed_trade t}" (is "?A = ?B")
  proof (intro equalityI subsetI)
    fix m assume "m \<in> ?A"
    then obtain sid rows where "(sid, rows) \<in> set ?g" "m = compute_metrics sid rows" by auto
    then show "m \<in> ?B" by (fastforce simp: group_trades_set filter_empty_conv)
  next
    fix m assume "m \<in> ?B"
    then obtain t where t: "t \<in> set trades" "is_closed_trade t"
      "m = compute_metrics (pt_strategy_id t) (filter (\<lambda>u. is_closed_trade u \<and> pt_strategy_id u = pt_strategy_id t) trades)" by auto
    then have "(pt_strategy_id t, filter (\<lambda>u. is_closed_trade u \<and> pt_strategy_id u = pt_strategy_id t) trades) \<in> set ?g"
      by (auto simp: group_trades_set filter_empty_conv)
    then show "m \<in> ?A" using t(3) by (force simp: image_iff)
  qed
  moreover have "sum_list (map sm_trades (select_metrics q trades)) = sum_list (map sm_trades ?ms)"
    "sum_list (map sm_total_pnl (select_metrics q trades)) = sum_list (map sm_total_pnl ?ms)"
    using ms by (metis mset_map sum_mset_sum_list)+
  moreover have "sum_list (map sm_trades ?ms) = length (filter is_closed_trade trades)"
    using sum_groups [of "\<lambda>_. 1::nat" trades] by (simp add: comp_def split_beta' n sum_list_triv)
  moreover have "sum_list (map sm_total_pnl ?ms) = sum_list (map trade_pnl (filter is_closed_trade trades))"
    using sum_groups [of trade_pnl trades] by (simp add: comp_def split_beta' n)
  ultimately show ?thesis by simp
qed

definition sample_query :: strategy_query where
  "sample_query = \<lparr>sq_start = None, sq_end = None, sq_strategy_id = None, sq_query = None, sq_offset = 0, sq_limit = 8,
     sq_min_trades = 1, sq_sort_by = ''total_pnl'', sq_sort_order = ''desc''\<rparr>"

theorem strategies_account_for_every_trade_witness:
  "sum_list (map sm_trades (select_metrics sample_query [sample_trade ''1'' 5 (Some 3), sample_trade ''2'' 3 None, sample_trade ''1'' 4 (Some 2)])) = 2"
  using strategies_account_for_every_trade [of sample_query "[sample_trade ''1'' 5 (Some 3), sample_trade ''2'' 3 None, sample_trade ''1'' 4 (Some 2)]"]
  by (simp add: sample_query_def sample_trade_def is_closed_trade_def)

text \<open>A strategy's profit factor is above one exactly if it made money, and is absent exactly if it never lost.\<close>

theorem profit_factor_above_one_is_gain:
  assumes "sm_profit_factor (compute_metrics sid rows) = Some f"
  shows "(1 < f) = (0 < sm_total_pnl (compute_metrics sid rows)) \<and> 0 < sm_losses (compute_metrics sid rows)"
  using metrics_laws(4,5) [of sid rows] assms by (cases "sm_losses (compute_metrics sid rows)") auto

theorem profit_factor_above_one_is_gain_witness:
  "0 < sm_total_pnl (compute_metrics ''1'' [sample_trade ''1'' 5 (Some 3), sample_trade ''1'' 4 (Some (- 2))])"
  using profit_factor_above_one_is_gain [of "''1''" "[sample_trade ''1'' 5 (Some 3), sample_trade ''1'' 4 (Some (- 2))]" "3 / 2"]
  by (simp add: compute_metrics_def sample_trade_def or_real_def Let_def)

end
