(* ===== verification/Daily_Report.thy ===== *)
theory Daily_Report
  imports Reports Backtest_Jobs
begin

text \<open>
  \<open>app/services/daily_report.py\<close>: the daily and weekly operations report and its delivery, once a
  day and once a week. A day is a proleptic day number (day 1 a Monday); the key of an ISO week is
  its number counted from the first one, which names the same week as the pair of ISO year and
  week. A report is the list of its lines; the outbox, not a state of the code, holds the reports
  handed to the sink with the sink's answers.
\<close>

section \<open>The code\<close>

datatype period = Daily int | Weekly int int

datatype report_line =
    Heading period nat
  | CodeCount string nat
  | BacktestUnavailable
  | BacktestState bool "string option" "string option"
  | BacktestResult run_metrics
  | BacktestError string
  | StrategyUnavailable
  | StrategyError string
  | StrategyNoData
  | TopStrategy strategy_metrics
  | BottomStrategy strategy_metrics

text \<open>What the providers answer or raise at the time of the report; \<open>None\<close> is an absent provider.\<close>

record report_sources =
  rs_backtest :: "(bool \<times> scheduler) py option"
  rs_strategies :: "(string + strategy_answer) py option"

record reporter =
  dr_last_sent_day :: "int option"
  dr_last_weekly :: "int option"
  dr_outbox :: "(report_line list \<times> bool) list"

definition reporter_init :: reporter where
  "reporter_init = \<lparr>dr_last_sent_day = None, dr_last_weekly = None, dr_outbox = []\<rparr>"

text \<open>\<open>_summaries\<close>: the events counted by their code, sorted.\<close>

definition count_codes :: "runtime_event list \<Rightarrow> (string \<times> nat) list" where
  "count_codes events = foldl (\<lambda>g e. AList.map_default (ev_code e) 1 Suc g) [] events"

definition summaries :: "runtime_event list \<Rightarrow> report_line list" where
  "summaries events = map (\<lambda>(cd, n). CodeCount cd n) (sort_key fst (count_codes events))"

definition backtest_lines :: "(bool \<times> scheduler) py option \<Rightarrow> report_line list" where
  "backtest_lines provider =
     (case provider of
        None \<Rightarrow> []
      | Some (Inl _) \<Rightarrow> [BacktestUnavailable]
      | Some (Inr (enabled, sc)) \<Rightarrow>
          BacktestState enabled (sc_last_status sc) (sc_last_job_id sc) #
          (case sc_last_job sc of
             None \<Rightarrow> []
           | Some (_, j) \<Rightarrow>
               (case jb_result j of
                  Some r \<Rightarrow> [BacktestResult r]
                | None \<Rightarrow> if truthy_str (jb_error j) then [BacktestError (the (jb_error j))] else [])))"

definition strategy_lines :: "(string + strategy_answer) py option \<Rightarrow> report_line list" where
  "strategy_lines provider =
     (case provider of
        None \<Rightarrow> []
      | Some (Inl _) \<Rightarrow> [StrategyUnavailable]
      | Some (Inr (Inl err)) \<Rightarrow> [StrategyError err]
      | Some (Inr (Inr a)) \<Rightarrow>
          (if sa_items a = [] then [StrategyNoData]
           else TopStrategy (hd (sa_items a)) # (if length (sa_items a) > 1 then [BottomStrategy (last (sa_items a))] else [])))"

definition build_template :: "report_sources \<Rightarrow> period \<Rightarrow> runtime_event list \<Rightarrow> report_line list" where
  "build_template src p events =
     Heading p (length events) # (if events \<noteq> [] then summaries events else []) @
     backtest_lines (rs_backtest src) @ strategy_lines (rs_strategies src)"

definition build_report_text :: "(instant \<Rightarrow> int) \<Rightarrow> report_sources \<Rightarrow> safety \<Rightarrow> int \<Rightarrow> report_line list" where
  "build_report_text local_day src sf day = build_template src (Daily day) (events_on local_day day sf)"

definition week_events :: "(instant \<Rightarrow> int) \<Rightarrow> safety \<Rightarrow> int \<Rightarrow> int \<Rightarrow> runtime_event list" where
  "week_events local_day sf end_day days =
     (let start_day = end_day - max (days - 1) 0
      in concat (map (\<lambda>i. events_on local_day (start_day + int i) sf) [0..<nat (max days 1)]))"

definition build_weekly_report_text :: "(instant \<Rightarrow> int) \<Rightarrow> report_sources \<Rightarrow> safety \<Rightarrow> int \<Rightarrow> int \<Rightarrow> report_line list" where
  "build_weekly_report_text local_day src sf end_day days =
     build_template src (Weekly (end_day - max (days - 1) 0) end_day) (week_events local_day sf end_day days)"

definition iso_week_key :: "int \<Rightarrow> int" where
  "iso_week_key day = (day - 1) div 7"

text \<open>Sending: \<open>sink\<close> is absent or answers whether the message was delivered.\<close>

definition send_report :: "report_line list \<Rightarrow> bool option \<Rightarrow> int \<Rightarrow> reporter \<Rightarrow> bool \<times> reporter" where
  "send_report lns sink day r =
     (case sink of
        None \<Rightarrow> (False, r)
      | Some ok \<Rightarrow>
          (ok, (if ok then r\<lparr>dr_last_sent_day := Some day\<rparr> else r)\<lparr>dr_outbox := dr_outbox r @ [(lns, ok)]\<rparr>))"

definition send_report_once_per_day :: "report_line list \<Rightarrow> bool option \<Rightarrow> int \<Rightarrow> reporter \<Rightarrow> bool \<times> reporter" where
  "send_report_once_per_day lns sink day r =
     (if dr_last_sent_day r = Some day then (False, r) else send_report lns sink day r)"

definition send_weekly_report :: "report_line list \<Rightarrow> bool option \<Rightarrow> int \<Rightarrow> reporter \<Rightarrow> bool \<times> reporter" where
  "send_weekly_report lns sink end_day r =
     (case sink of
        None \<Rightarrow> (False, r)
      | Some ok \<Rightarrow>
          (ok, (if ok then r\<lparr>dr_last_weekly := Some (iso_week_key end_day)\<rparr> else r)\<lparr>dr_outbox := dr_outbox r @ [(lns, ok)]\<rparr>))"

definition send_weekly_report_once_per_week :: "report_line list \<Rightarrow> bool option \<Rightarrow> int \<Rightarrow> reporter \<Rightarrow> bool \<times> reporter" where
  "send_weekly_report_once_per_week lns sink end_day r =
     (if dr_last_weekly r = Some (iso_week_key end_day) then (False, r) else send_weekly_report lns sink end_day r)"

section \<open>Counting\<close>

lemma count_codes_map:
  "map_of (count_codes es) cd = (let n = length (filter (\<lambda>e. ev_code e = cd) es) in if n = 0 then None else Some n)
   \<and> distinct (map fst (count_codes es)) \<and> sum_list (map snd (count_codes es)) = length es"
proof (induction es rule: rev_induct)
  case Nil
  show ?case by (simp add: count_codes_def)
next
  case (snoc e es)
  have g: "count_codes (es @ [e]) = AList.map_default (ev_code e) 1 Suc (count_codes es)" by (simp add: count_codes_def)
  have sum: "sum_list (map snd (AList.map_default k (Suc 0) Suc al)) = Suc (sum_list (map snd al))" for k al
    by (induction al) auto
  have "map_of (count_codes (es @ [e])) cd = (if cd = ev_code e
      then Some (case map_of (count_codes es) cd of None \<Rightarrow> Suc 0 | Some n \<Rightarrow> Suc n) else map_of (count_codes es) cd)"
    by (simp add: g map_of_map_default)
  then show ?case using snoc by (auto simp: g sum distinct_map_default Let_def filter_empty_conv)
qed

lemma week_events_filter:
  "mset (week_events local_day sf end_day days)
     = mset (filter (\<lambda>e. end_day - max (days - 1) 0 \<le> local_day (ev_created_at e) \<and> local_day (ev_created_at e) \<le> end_day) (sf_events sf))"
proof -
  have gen: "mset (concat (map (\<lambda>i. filter (\<lambda>e. f e = a + int i) es) [0..<n])) = mset (filter (\<lambda>e. a \<le> f e \<and> f e < a + int n) es)"
    for f :: "runtime_event \<Rightarrow> int" and a n es
  proof (induction n)
    case (Suc n)
    have "mset (filter (\<lambda>e. a \<le> f e \<and> f e < a + int (Suc n)) es)
        = mset (filter (\<lambda>e. a \<le> f e \<and> f e < a + int n) es) + mset (filter (\<lambda>e. f e = a + int n) es)"
      by (induction es) auto
    then show ?case using Suc by simp
  qed simp
  have "t < end_day - max (days - 1) 0 + int (nat (max days 1)) \<longleftrightarrow> t \<le> end_day" for t
    by (simp add: max_def)
  then show ?thesis
    using gen [of "\<lambda>e. local_day (ev_created_at e)" "end_day - max (days - 1) 0" "sf_events sf" "nat (max days 1)"]
    by (simp only: week_events_def Let_def events_on_def)
qed

section \<open>Properties\<close>

definition days_events :: "(instant \<Rightarrow> int) \<Rightarrow> safety \<Rightarrow> int \<Rightarrow> int \<Rightarrow> runtime_event list" where
  "days_events local_day sf end_day days =
     filter (\<lambda>e. end_day - max (days - 1) 0 \<le> local_day (ev_created_at e) \<and> local_day (ev_created_at e) \<le> end_day) (sf_events sf)"

text \<open>
  A weekly report covers exactly the days up to its end: the number in its heading is that of the
  events of those days, its lines name every code that occurred with the number of its events, in
  order and once each, and they add up to the heading.
\<close>

theorem weekly_report_covers_its_days:
  "hd (build_weekly_report_text local_day src sf end_day days)
      = Heading (Weekly (end_day - max (days - 1) 0) end_day) (length (days_events local_day sf end_day days)) \<and>
    set (count_codes (week_events local_day sf end_day days))
      = (\<lambda>cd. (cd, length (filter (\<lambda>e. ev_code e = cd) (days_events local_day sf end_day days))))
          ` ev_code ` set (days_events local_day sf end_day days) \<and>
    sorted (map fst (sort_key fst (count_codes (week_events local_day sf end_day days)))) \<and>
    distinct (map fst (count_codes (week_events local_day sf end_day days))) \<and>
    sum_list (map snd (count_codes (week_events local_day sf end_day days))) = length (days_events local_day sf end_day days)"
proof -
  let ?w = "week_events local_day sf end_day days" and ?es = "days_events local_day sf end_day days"
  have m: "mset ?w = mset ?es" by (simp add: week_events_filter days_events_def)
  then have len: "length ?w = length ?es" by (metis size_mset)
  have cnt: "length (filter P ?w) = length (filter P ?es)" for P by (metis m mset_filter size_mset)
  have dist: "distinct (map fst (count_codes ?w))" using count_codes_map by blast
  have "(cd, n) \<in> set (count_codes ?w) \<longleftrightarrow> cd \<in> ev_code ` set ?es \<and> n = length (filter (\<lambda>e. ev_code e = cd) ?es)" for cd n
  proof -
    have "(cd, n) \<in> set (count_codes ?w) \<longleftrightarrow> map_of (count_codes ?w) cd = Some n" using dist by (simp add: map_of_eq_Some_iff)
    also have "\<dots> \<longleftrightarrow> n = length (filter (\<lambda>e. ev_code e = cd) ?es) \<and> n \<noteq> 0"
      using count_codes_map [of ?w cd] cnt [of "\<lambda>e. ev_code e = cd"] by (auto simp: Let_def)
    also have "\<dots> \<longleftrightarrow> cd \<in> ev_code ` set ?es \<and> n = length (filter (\<lambda>e. ev_code e = cd) ?es)"
      by (auto simp: filter_empty_conv)
    finally show ?thesis .
  qed
  then have "set (count_codes ?w) = (\<lambda>cd. (cd, length (filter (\<lambda>e. ev_code e = cd) ?es))) ` ev_code ` set ?es" by auto
  moreover have "sum_list (map snd (count_codes ?w)) = length ?es" using count_codes_map [of ?w] len by simp
  ultimately show ?thesis using dist len by (simp add: build_weekly_report_text_def build_template_def)
qed

text \<open>A history of attempts to send the report of a day; \<open>True\<close> is a delivery.\<close>

fun attempts_to_send :: "(report_line list \<times> bool option \<times> int) list \<Rightarrow> reporter \<Rightarrow> (int \<times> bool) list \<times> reporter" where
  "attempts_to_send [] r = ([], r)"
| "attempts_to_send ((lns, sink, day) # xs) r =
     (let (ok, r1) = send_report_once_per_day lns sink day r; (acks, r2) = attempts_to_send xs r1 in ((day, ok) # acks, r2))"

lemma once_per_day_gen:
  assumes "attempts_to_send xs r = (acks, r')" "sorted (map (snd \<circ> snd) xs)"
    and "\<And>d. dr_last_sent_day r = Some d \<Longrightarrow> \<forall>x\<in>set xs. d \<le> snd (snd x)"
  shows "distinct (map fst (filter snd acks)) \<and> (\<forall>d. dr_last_sent_day r = Some d \<longrightarrow> (d, True) \<notin> set acks) \<and> map fst acks = map (snd \<circ> snd) xs"
  using assms
proof (induction xs arbitrary: r acks)
  case (Cons x xs)
  obtain lns sink day where x: "x = (lns, sink, day)" by (cases x)
  obtain ok r1 where s: "send_report_once_per_day lns sink day r = (ok, r1)" by (rule prod.exhaust)
  obtain acks1 where rest: "attempts_to_send xs r1 = (acks1, r')"
    using Cons.prems(1) by (auto simp: x s split: prod.splits)
  have acks: "acks = (day, ok) # acks1" using Cons.prems(1) by (simp add: x s rest)
  have last: "if ok then dr_last_sent_day r1 = Some day \<and> dr_last_sent_day r \<noteq> Some day else dr_last_sent_day r1 = dr_last_sent_day r"
    using s by (auto simp: send_report_once_per_day_def send_report_def split: if_splits option.splits)
  have srt: "sorted (map (snd \<circ> snd) xs)" "\<forall>x\<in>set xs. day \<le> snd (snd x)" using Cons.prems(2) by (auto simp: x comp_def)
  have "\<forall>y\<in>set xs. d \<le> snd (snd y)" if "dr_last_sent_day r1 = Some d" for d
    using that last srt(2) Cons.prems(3) by (cases ok) auto
  note ih = Cons.IH [OF rest srt(1) this]
  have le: "day \<le> d" if "(d, True) \<in> set acks1" for d
  proof -
    have "d \<in> set (map (snd \<circ> snd) xs)" using ih that by (metis fst_conv image_eqI list.set_map)
    then show ?thesis using srt(2) by auto
  qed
  have no: "(d, True) \<notin> set acks" if "dr_last_sent_day r = Some d" for d
  proof
    assume "(d, True) \<in> set acks"
    moreover have "d \<le> day" using Cons.prems(3) [OF that] by (simp add: x)
    ultimately show False using last ih that le [of d] by (cases ok) (auto simp: acks)
  qed
  show ?case using ih last no by (cases ok) (auto simp: acks x)
qed simp

text \<open>
  However often it is tried, and whatever the sink answers, in the course of time at most one
  report of each day is delivered; an attempt that was not delivered is made again.
\<close>

theorem one_report_a_day:
  assumes "attempts_to_send xs reporter_init = (acks, r)" "sorted (map (snd \<circ> snd) xs)"
  shows "distinct (map fst (filter snd acks)) \<and> map fst acks = map (snd \<circ> snd) xs"
  using once_per_day_gen [OF assms] by (simp add: reporter_init_def)

theorem one_report_a_day_witness:
  "\<exists>r. attempts_to_send [([], Some False, 5), ([], Some True, 5), ([], Some True, 5), ([], Some True, 6)] reporter_init
     = ([(5, False), (5, True), (5, False), (6, True)], r) \<and> distinct (map fst (filter snd [(5::int, False), (5, True), (5, False), (6, True)]))"
proof -
  obtain r where r: "attempts_to_send [([], Some False, 5), ([], Some True, 5), ([], Some True, 5), ([], Some True, 6)] reporter_init
     = ([(5, False), (5, True), (5, False), (6, True)], r)"
    by (simp add: send_report_once_per_day_def send_report_def reporter_init_def)
  then show ?thesis using one_report_a_day [OF r] by simp
qed

end
