(* ===== verification/Config_Service.thy ===== *)
theory Config_Service
  imports Config_Manager Db_Session
begin

text \<open>
  \<open>app/repositories/config.py\<close> and \<open>app/services/config_service.py\<close>: the configuration with its
  table and history. The manager (in memory) and the table (on disk) are separate states; the
  service sets both, and only the manager when the database fails. The change hook is the list
  of the calls made to it (its exceptions are swallowed).
\<close>

section \<open>State\<close>

record history_row =
  hi_id :: nat
  hi_key :: string
  hi_old_value :: "string option"
  hi_new_value :: string
  hi_changed_by :: string
  hi_changed_at :: int

record config_db =
  cf_rows :: "(string \<times> string) list"  \<comment> \<open>the table, unique by its key\<close>
  cf_history :: "history_row list"
  cf_next :: nat
  cf_faults :: fault_plan

abbreviation cf_fails :: "config_db \<Rightarrow> bool" where
  "cf_fails d \<equiv> stmt_fails (cf_faults d)"

definition cf_tick :: "config_db \<Rightarrow> config_db" where
  "cf_tick d = d\<lparr>cf_faults := tl (cf_faults d)\<rparr>"

section \<open>The repository\<close>

text \<open>A row whose key is unknown is skipped; any other error leaves the loop with the rows set so far.\<close>

fun load_rows :: "(string \<times> string) list \<Rightarrow> config \<Rightarrow> unit py \<times> config" where
  "load_rows [] cfg = (Inr (), cfg)"
| "load_rows ((k, v) # rows) cfg =
     (case config_set k v True cfg of
        Inr cfg' \<Rightarrow> load_rows rows cfg'
      | Inl (KeyError m) \<Rightarrow> load_rows rows cfg
      | Inl x \<Rightarrow> (Inl x, cfg))"

definition load_into_manager :: "config \<times> config_db \<Rightarrow> unit py \<times> config \<times> config_db" where
  "load_into_manager s =
     (case s of (cfg, d) \<Rightarrow>
        if cf_fails d then (Inl db_error, cfg, cf_tick d)
        else (case load_rows (cf_rows d) cfg of (r, cfg') \<Rightarrow> (r, cfg', cf_tick d)))"

text \<open>
  \<open>ConfigRepository.set\<close>: read the row, set the manager (which may refuse), commit the row with
  its history entry. A failed commit leaves the table as it was but not the manager.
\<close>

definition repo_set :: "int \<Rightarrow> string \<Rightarrow> string \<Rightarrow> string \<Rightarrow> config \<times> config_db \<Rightarrow> unit py \<times> config \<times> config_db" where
  "repo_set now key value changed_by s =
     (case s of (cfg, d) \<Rightarrow>
        if cf_fails d then (Inl db_error, cfg, cf_tick d)
        else
          (let old_value = map_of (cf_rows d) key; d1 = cf_tick d
           in case config_set key value False cfg of
                Inl x \<Rightarrow> (Inl x, cfg, d1)
              | Inr cfg' \<Rightarrow>
                  if cf_fails d1 then (Inl db_error, cfg', cf_tick d1)
                  else
                    (Inr (), cfg',
                     (cf_tick d1)\<lparr>cf_rows := AList.update key value (cf_rows d),
                       cf_history := cf_history d @ [\<lparr>hi_id = cf_next d, hi_key = key, hi_old_value = old_value,
                         hi_new_value = value, hi_changed_by = changed_by, hi_changed_at = now\<rparr>],
                       cf_next := Suc (cf_next d)\<rparr>)))"

definition list_history :: "string option \<Rightarrow> int \<Rightarrow> nat \<Rightarrow> config_db \<Rightarrow> history_row list py \<times> config_db" where
  "list_history key offset limit d =
     (if cf_fails d then (Inl db_error, cf_tick d)
      else (Inr (page offset limit (py_sorted_rev hi_changed_at
             (filter (\<lambda>r. opt_filter key (\<lambda>k. hi_key r = k)) (cf_history d)))), cf_tick d))"

definition count_history :: "string option \<Rightarrow> config_db \<Rightarrow> nat py \<times> config_db" where
  "count_history key d =
     (if cf_fails d then (Inl db_error, cf_tick d)
      else (Inr (length (filter (\<lambda>r. opt_filter key (\<lambda>k. hi_key r = k)) (cf_history d))), cf_tick d))"

section \<open>The service\<close>

record config_service =
  sv_config :: config
  sv_db :: "config_db option"  \<comment> \<open>\<open>None\<close>: no session factory\<close>
  sv_hook_calls :: "(string \<times> string \<times> string) list"

text \<open>\<open>load_from_db\<close>: a database error is swallowed, an invalid stored value is not.\<close>

definition load_from_db :: "config_service \<Rightarrow> unit py \<times> config_service" where
  "load_from_db s =
     (case sv_db s of
        None \<Rightarrow> (Inr (), s)
      | Some d \<Rightarrow>
          (case load_into_manager (sv_config s, d) of
             (r, cfg', d') \<Rightarrow>
               ((case r of Inl x \<Rightarrow> if is_sql_error x then Inr () else Inl x | Inr u \<Rightarrow> Inr u),
                s\<lparr>sv_config := cfg', sv_db := Some d'\<rparr>)))"

definition run_on_change :: "string \<Rightarrow> string \<Rightarrow> string \<Rightarrow> config_service \<Rightarrow> config_service" where
  "run_on_change key value changed_by s = s\<lparr>sv_hook_calls := sv_hook_calls s @ [(key, value, changed_by)]\<rparr>"

definition service_set :: "int \<Rightarrow> string \<Rightarrow> string \<Rightarrow> string \<Rightarrow> config_service \<Rightarrow> unit py \<times> config_service" where
  "service_set now key value changed_by s =
     (case sv_db s of
        None \<Rightarrow>
          (case config_set key value False (sv_config s) of
             Inl x \<Rightarrow> (Inl x, s)
           | Inr cfg' \<Rightarrow> (Inr (), run_on_change key value changed_by (s\<lparr>sv_config := cfg'\<rparr>)))
      | Some d \<Rightarrow>
          (case repo_set now key value changed_by (sv_config s, d) of
             (Inr _, cfg', d') \<Rightarrow> (Inr (), run_on_change key value changed_by (s\<lparr>sv_config := cfg', sv_db := Some d'\<rparr>))
           | (Inl x, cfg', d') \<Rightarrow>
               (let s1 = s\<lparr>sv_config := cfg', sv_db := Some d'\<rparr> in
                if \<not> is_sql_error x then (Inl x, s1)
                else
                  (case config_set key value False cfg' of
                     Inl y \<Rightarrow> (Inl y, s1)
                   | Inr cfg'' \<Rightarrow> (Inr (), run_on_change key value changed_by (s1\<lparr>sv_config := cfg''\<rparr>))))))"

section \<open>What a writer of the configuration promises\<close>

text \<open>
  Both the manager and the service are such writers: an accepted write is read back, a refused
  one changes nothing that can be read, and what can be read always obeys the rules.
\<close>

locale config_writer =
  fixes set_value :: "string \<Rightarrow> string \<Rightarrow> 's \<Rightarrow> unit py \<times> 's"
    and view :: "'s \<Rightarrow> config"
  assumes accepted: "set_value k v s = (Inr u, s') \<Longrightarrow> config_set k v False (view s) = Inr c \<Longrightarrow>
      (\<forall>k'. map_of (view s') k' = map_of c k')"
    and accepts_iff: "fst (set_value k v s) = Inr u \<longleftrightarrow> (\<exists>c. config_set k v False (view s) = Inr c)"
    and refused: "set_value k v s = (Inl x, s') \<Longrightarrow> map_of (view s') = map_of (view s)"
    and keeps: "config_inv (view s) \<Longrightarrow> set_value k v s = (r, s') \<Longrightarrow> config_inv (view s')"
begin

fun set_all :: "(string \<times> string) list \<Rightarrow> 's \<Rightarrow> 's" where
  "set_all [] s = s"
| "set_all ((k, v) # kvs) s = set_all kvs (snd (set_value k v s))"

lemma set_all_inv: "config_inv (view s) \<Longrightarrow> config_inv (view (set_all kvs s))"
proof (induction kvs arbitrary: s)
  case (Cons kv kvs)
  obtain k v where kv: "kv = (k, v)" by fastforce
  have "config_inv (view (snd (set_value k v s)))"
    using keeps [OF Cons.prems, of k v "fst (set_value k v s)" "snd (set_value k v s)"] by simp
  then show ?case using Cons.IH kv by simp
qed simp

text \<open>Reading after a write, whatever came of it.\<close>

lemma read_after_write:
  assumes "set_value k v s = (r, s')"
  shows "config_get k' (view s') = (if (\<exists>c. config_set k v False (view s) = Inr c) \<and> k' = k then Inr v else config_get k' (view s))"
proof (cases "\<exists>c. config_set k v False (view s) = Inr c")
  case True
  then obtain c where c: "config_set k v False (view s) = Inr c" by blast
  then have "r = Inr ()" using accepts_iff [of k v s "()"] assms by auto
  with accepted [of k v s "()" s' c] assms c have "map_of (view s') = map_of c" by auto
  moreover have "config_get k' c = (if k' = k then Inr v else config_get k' (view s))" by (rule config_get_set [OF c])
  ultimately show ?thesis using True by (simp add: config_get_def)
next
  case False
  then obtain x where "r = Inl x" using accepts_iff [of k v s "()"] assms by (cases r) auto
  then show ?thesis using refused assms False by (simp add: config_get_def)
qed

end

section \<open>The manager and the service are writers\<close>

definition manager_set :: "string \<Rightarrow> string \<Rightarrow> config \<Rightarrow> unit py \<times> config" where
  "manager_set k v cfg = (case config_set k v False cfg of Inl x \<Rightarrow> (Inl x, cfg) | Inr c \<Rightarrow> (Inr (), c))"

interpretation manager: config_writer manager_set "\<lambda>c. c"
  by unfold_locales (auto simp: manager_set_def config_set_inv split: sum.splits)

lemma config_set_twice:
  assumes "config_set k v False cfg = Inr c"
  shows "\<exists>c'. config_set k v False c = Inr c' \<and> map_of c' = map_of c"
  using assms by (auto simp: config_set_Inr update_conv')

definition no_sql :: "'a py \<Rightarrow> bool" where
  "no_sql r \<longleftrightarrow> (case r of Inl x \<Rightarrow> \<not> is_sql_error x | Inr _ \<Rightarrow> True)"

lemma no_sql_simps [simp]: "no_sql (Inr v)" "no_sql (Inl x) \<longleftrightarrow> \<not> is_sql_error x"
  by (simp_all add: no_sql_def)

lemma no_sql_bind [intro]: "no_sql a \<Longrightarrow> (\<And>v. no_sql (f v)) \<Longrightarrow> no_sql (py_bind a f)"
  by (cases a) auto

lemma no_sql_if: "no_sql a \<Longrightarrow> no_sql b \<Longrightarrow> no_sql (if c then a else b)"
  by simp

lemma no_sql_option: "no_sql a \<Longrightarrow> (\<And>x. no_sql (f x)) \<Longrightarrow> no_sql (case z of None \<Rightarrow> a | Some x \<Rightarrow> f x)"
  by (cases z) simp_all

lemma check_bounds_no_sql [simp]: "no_sql (check_bounds k rl n)"
  by (auto simp: check_bounds_def)

lemma read_number_no_sql [simp]: "no_sql (read_number i v)"
  by (auto simp: read_number_def split: option.splits)

lemma check_number_no_sql [simp]: "no_sql (check_number k rl v)"
  by (auto simp: check_number_def)

lemma check_allowed_no_sql [simp]: "no_sql (check_allowed k rl v)"
  by (auto simp: check_allowed_def split: option.splits)

lemma check_close_time_no_sql [simp]: "no_sql (check_close_time v)"
  by (auto simp: check_close_time_def split: list.splits option.splits)

lemma check_priority_no_sql [simp]: "no_sql (check_priority v)"
  by (auto simp: check_priority_def Let_def)

lemma check_override_no_sql [simp]: "no_sql (check_override k v)"
  by (auto simp: check_override_def split: option.splits)

lemma config_check_no_sql: "no_sql (config_check k v ro)"
  unfolding config_check_def by (intro no_sql_if no_sql_bind no_sql_option) simp_all

lemma config_set_no_sql: "config_set k v ro cfg = Inl x \<Longrightarrow> \<not> is_sql_error x"
  using config_check_no_sql [of k v ro] by (auto simp: config_set_def py_bind_Inl_iff)

lemma config_set_stateless: "config_set k v ro cfg = Inl x \<longleftrightarrow> config_check k v ro = Inl x"
  by (auto simp: config_set_def py_bind_Inl_iff)

lemma repo_set_outcome:
  assumes "repo_set now k v by' (cfg, d) = (r, cfg', d')"
  obtains (refused) x where "config_set k v False cfg = Inl x" "r = Inl x" "cfg' = cfg" "\<not> is_sql_error x" "cf_rows d' = cf_rows d"
  | (no_read) "r = Inl db_error" "cfg' = cfg" "cf_rows d' = cf_rows d" "cf_history d' = cf_history d"
  | (no_commit) "r = Inl db_error" "config_set k v False cfg = Inr cfg'" "cf_rows d' = cf_rows d" "cf_history d' = cf_history d"
  | (stored) "r = Inr ()" "config_set k v False cfg = Inr cfg'" "cf_rows d' = AList.update k v (cf_rows d)"
      "\<exists>h. cf_history d' = cf_history d @ [h] \<and> hi_key h = k \<and> hi_new_value h = v \<and> hi_old_value h = map_of (cf_rows d) k \<and>
         hi_changed_by h = by'"
proof (cases "cf_fails d")
  case True
  with assms have "r = Inl db_error" "cfg' = cfg" "cf_rows d' = cf_rows d" "cf_history d' = cf_history d"
    by (auto simp: repo_set_def cf_tick_def)
  then show thesis by (rule no_read)
next
  case nf: False
  show thesis
  proof (cases "config_set k v False cfg")
    case (Inl x)
    with assms nf have e: "r = Inl x" "cfg' = cfg" "cf_rows d' = cf_rows d"
      by (auto simp: repo_set_def cf_tick_def)
    show thesis by (rule refused [OF Inl e(1,2) config_set_no_sql [OF Inl] e(3)])
  next
    case (Inr c)
    show thesis
    proof (cases "cf_fails (cf_tick d)")
      case True
      with assms nf Inr have e: "r = Inl db_error" "cfg' = c" "cf_rows d' = cf_rows d" "cf_history d' = cf_history d"
        by (auto simp: repo_set_def cf_tick_def Let_def)
      show thesis by (rule no_commit) (simp_all add: e Inr)
    next
      case False
      with assms nf Inr have e: "r = Inr ()" "cfg' = c" "cf_rows d' = AList.update k v (cf_rows d)"
        "cf_history d' = cf_history d @ [\<lparr>hi_id = cf_next d, hi_key = k, hi_old_value = map_of (cf_rows d) k,
            hi_new_value = v, hi_changed_by = by', hi_changed_at = now\<rparr>]"
        by (auto simp: repo_set_def cf_tick_def Let_def)
      show thesis by (rule stored) (simp_all add: e Inr)
    qed
  qed
qed

text \<open>The service accepts exactly what the manager accepts, whatever the database does.\<close>

lemma service_set_outcome:
  assumes "service_set now k v by' s = (r, s')"
  shows "(case config_set k v False (sv_config s) of
            Inl x \<Rightarrow> r = Inl x \<and> sv_config s' = sv_config s \<and> sv_hook_calls s' = sv_hook_calls s
          | Inr c \<Rightarrow> r = Inr () \<and> map_of (sv_config s') = map_of c \<and> sv_hook_calls s' = sv_hook_calls s @ [(k, v, by')] \<and>
              (\<exists>b. config_set k v False b = Inr (sv_config s') \<and> (b = sv_config s \<or> b = c)))"
proof (cases "sv_db s")
  case None
  then show ?thesis using assms by (auto simp: service_set_def run_on_change_def split: sum.splits)
next
  case (Some d)
  obtain r1 cfg1 d1 where rs: "repo_set now k v by' (sv_config s, d) = (r1, cfg1, d1)" by (rule prod_cases3)
  from rs show ?thesis
  proof (cases rule: repo_set_outcome)
    case (refused x)
    then show ?thesis using assms Some rs by (auto simp: service_set_def)
  next
    case no_read
    then show ?thesis using assms Some rs by (auto simp: service_set_def run_on_change_def Let_def split: sum.splits)
  next
    case no_commit
    obtain c' where c': "config_set k v False cfg1 = Inr c'" "map_of c' = map_of cfg1"
      using config_set_twice [OF no_commit(2)] by blast
    then show ?thesis using assms Some rs no_commit by (auto simp: service_set_def run_on_change_def Let_def)
  next
    case stored
    then show ?thesis using assms Some rs by (auto simp: service_set_def run_on_change_def)
  qed
qed

interpretation service: config_writer "\<lambda>k v. service_set now k v who" sv_config
proof unfold_locales
  fix k v s u s' c
  assume "service_set now k v who s = (Inr u, s')" "config_set k v False (sv_config s) = Inr c"
  then show "\<forall>k'. map_of (sv_config s') k' = map_of c k'" using service_set_outcome by fastforce
next
  fix k v s u
  obtain r s' where run: "service_set now k v who s = (r, s')" by fastforce
  show "fst (service_set now k v who s) = Inr u \<longleftrightarrow> (\<exists>c. config_set k v False (sv_config s) = Inr c)"
    using service_set_outcome [OF run] run by (auto split: sum.splits)
next
  fix k v s x s'
  assume "service_set now k v who s = (Inl x, s')"
  then show "map_of (sv_config s') = map_of (sv_config s)"
    using service_set_outcome by (fastforce split: sum.splits)
next
  fix s k v r s'
  assume inv: "config_inv (sv_config s)" and run: "service_set now k v who s = (r, s')"
  from service_set_outcome [OF run] inv show "config_inv (sv_config s')"
    by (auto split: sum.splits dest: config_set_inv)
qed

section \<open>Loading what was stored\<close>

definition rows_ok :: "(string \<times> string) list \<Rightarrow> bool" where
  "rows_ok rows \<longleftrightarrow> distinct (map fst rows) \<and> (\<forall>(k, v)\<in>set rows. config_check k v True = Inr ())"

lemma load_rows_ok:
  assumes "rows_ok rows"
  shows "\<exists>cfg'. load_rows rows cfg = (Inr (), cfg') \<and>
     (\<forall>k. map_of cfg' k = (case map_of rows k of Some v \<Rightarrow> Some v | None \<Rightarrow> map_of cfg k))"
  using assms
proof (induction rows arbitrary: cfg)
  case (Cons kv rows)
  obtain k v where kv: "kv = (k, v)" by fastforce
  have ok: "config_check k v True = Inr ()" and rest: "rows_ok rows" and new: "k \<notin> fst ` set rows"
    using Cons.prems kv by (auto simp: rows_ok_def)
  let ?c = "AList.update k v cfg"
  have set_ok: "config_set k v True cfg = Inr ?c" using ok by (simp add: config_set_Inr)
  obtain cfg' where run: "load_rows rows ?c = (Inr (), cfg')"
    and m: "\<forall>k'. map_of cfg' k' = (case map_of rows k' of Some v \<Rightarrow> Some v | None \<Rightarrow> map_of ?c k')"
    using Cons.IH [OF rest] by blast
  have "map_of rows k = None" using new by (simp add: map_of_eq_None_iff)
  then have "\<forall>k'. map_of cfg' k' = (case map_of (kv # rows) k' of Some v \<Rightarrow> Some v | None \<Rightarrow> map_of cfg k')"
    using m by (auto simp: kv update_conv' split: option.splits)
  then show ?case using set_ok run by (simp add: kv)
qed simp

lemma config_check_read_only: "config_check k v False = Inr () \<Longrightarrow> config_check k v True = Inr ()"
  by (auto simp: config_check_def split: if_splits)

lemma repo_set_rows_ok:
  assumes "repo_set now k v by' (cfg, d) = (r, cfg', d')" "rows_ok (cf_rows d)"
  shows "rows_ok (cf_rows d')"
  using assms(1)
proof (cases rule: repo_set_outcome)
  case stored
  have "config_check k v True = Inr ()" using stored(2) config_check_read_only by (auto simp: config_set_Inr)
  then show ?thesis
    using assms(2) set_AList_update [of k v "cf_rows d"] stored(3) distinct_update [of "cf_rows d" k v]
    by (auto simp: rows_ok_def)
qed (use assms(2) in \<open>simp_all\<close>)

text \<open>A stored value that no longer passes its rule stops the load; the rows after it are not read.\<close>

lemma load_stops_at_invalid:
  assumes "rows_ok good" "config_check k v True = Inl (ValueError m)"
  shows "\<exists>cfg'. load_rows (good @ (k, v) # rest) cfg = (Inl (ValueError m), cfg') \<and>
     (\<forall>k. map_of cfg' k = (case map_of good k of Some v \<Rightarrow> Some v | None \<Rightarrow> map_of cfg k))"
proof -
  have app: "load_rows (xs @ ys) c = (case load_rows xs c of (Inl x, c') \<Rightarrow> (Inl x, c') | (Inr _, c') \<Rightarrow> load_rows ys c')" for xs ys c
    by (induction xs c rule: load_rows.induct) (auto split: sum.splits py_exn.splits)
  obtain c' where l: "load_rows good cfg = (Inr (), c')"
    and m: "\<forall>k. map_of c' k = (case map_of good k of Some v \<Rightarrow> Some v | None \<Rightarrow> map_of cfg k)"
    using load_rows_ok [OF assms(1)] by blast
  have "config_set k v True c' = Inl (ValueError m)" using assms(2) by (simp add: config_set_stateless)
  then show ?thesis using l m by (simp add: app)
qed

section \<open>Properties\<close>

text \<open>
  C23: the service accepts exactly the writes the manager accepts, whatever statements of the
  database fail; an accepted value is read back, a refused write changes nothing that is read,
  and the change hook is called once for every accepted write and never for a refused one.
\<close>

theorem service_accepts_what_the_manager_accepts:
  "case config_set k v False (sv_config s) of
     Inl x \<Rightarrow> fst (service_set now k v who s) = Inl x \<and> sv_config (snd (service_set now k v who s)) = sv_config s \<and>
        sv_hook_calls (snd (service_set now k v who s)) = sv_hook_calls s
   | Inr c \<Rightarrow> fst (service_set now k v who s) = Inr () \<and> config_get k (sv_config (snd (service_set now k v who s))) = Inr v \<and>
        sv_hook_calls (snd (service_set now k v who s)) = sv_hook_calls s @ [(k, v, who)]"
proof -
  obtain r s' where run: "service_set now k v who s = (r, s')" by (rule prod.exhaust)
  show ?thesis
  proof (cases "config_set k v False (sv_config s)")
    case (Inl x)
    then show ?thesis using service_set_outcome [OF run] run by simp
  next
    case (Inr c)
    then have "config_get k (sv_config s') = config_get k c"
      using service_set_outcome [OF run] by (simp add: config_get_def)
    then show ?thesis using service_set_outcome [OF run] run Inr config_get_set [OF Inr, of k] by simp
  qed
qed

fun repo_sets :: "int \<Rightarrow> string \<Rightarrow> (string \<times> string) list \<Rightarrow> config \<times> config_db \<Rightarrow> config \<times> config_db" where
  "repo_sets now who [] s = s"
| "repo_sets now who ((k, v) # kvs) s = repo_sets now who kvs (snd (repo_set now k v who s))"

lemma repo_sets_rows_ok: "rows_ok (cf_rows d) \<Longrightarrow> repo_sets now who kvs (cfg, d) = (cfg', d') \<Longrightarrow> rows_ok (cf_rows d')"
proof (induction kvs arbitrary: cfg d)
  case (Cons kv kvs)
  obtain k v where kv: "kv = (k, v)" by fastforce
  obtain r c1 d1 where st: "repo_set now k v who (cfg, d) = (r, c1, d1)" by (rule prod_cases3)
  from Cons.IH [OF repo_set_rows_ok [OF st Cons.prems(1)]] Cons.prems(2) kv st show ?case by simp
qed simp

text \<open>
  C36: the values stored by accepted writes load back: from rows with unique keys and admissible
  values, loading sets exactly the stored keys to their stored values.
\<close>

theorem stored_configuration_loads_back:
  assumes "cf_rows d = []" "repo_sets now who kvs (cfg, d) = (cfg', d')" "\<not> cf_fails d'"
  shows "\<exists>cfg2. load_into_manager (default_values, d') = (Inr (), cfg2, cf_tick d') \<and>
    (\<forall>k. map_of cfg2 k = (case map_of (cf_rows d') k of Some v \<Rightarrow> Some v | None \<Rightarrow> map_of default_values k))"
proof -
  have "rows_ok (cf_rows d')" using repo_sets_rows_ok [OF _ assms(2)] assms(1) by (simp add: rows_ok_def)
  from load_rows_ok [OF this, of default_values] assms(3) show ?thesis by (auto simp: load_into_manager_def)
qed

definition sample_cfdb :: config_db where
  "sample_cfdb = \<lparr>cf_rows = [], cf_history = [], cf_next = 1, cf_faults = []\<rparr>"

theorem stored_configuration_loads_back_witness:
  "\<exists>cfg2. load_into_manager (default_values, snd (repo_sets 1 ''me'' [(''sync_mode'', ''manual''), (''sync_mode'', ''never'')] (default_values, sample_cfdb)))
     = (Inr (), cfg2, cf_tick (snd (repo_sets 1 ''me'' [(''sync_mode'', ''manual''), (''sync_mode'', ''never'')] (default_values, sample_cfdb))))"
proof -
  have ff: "cf_faults (snd (snd (repo_set now k v who (c, d)))) \<in> {tl (cf_faults d), tl (tl (cf_faults d))}" for now k v who c d
    by (auto simp: repo_set_def cf_tick_def Let_def split: sum.splits)
  obtain c' d' where run: "repo_sets 1 ''me'' [(''sync_mode'', ''manual''), (''sync_mode'', ''never'')] (default_values, sample_cfdb) = (c', d')"
    by (rule prod.exhaust)
  obtain r1 c1 d1 where s1: "repo_set 1 ''sync_mode'' ''manual'' ''me'' (default_values, sample_cfdb) = (r1, c1, d1)" by (rule prod_cases3)
  obtain r2 c2 d2 where s2: "repo_set 1 ''sync_mode'' ''never'' ''me'' (c1, d1) = (r2, c2, d2)" by (rule prod_cases3)
  have "d' = d2" using run s1 s2 by simp
  moreover have "cf_faults d1 = []" using ff [of 1 "''sync_mode''" "''manual''" "''me''" default_values sample_cfdb] s1 by (simp add: sample_cfdb_def)
  moreover have "cf_faults d2 \<in> {tl (cf_faults d1), tl (tl (cf_faults d1))}" using ff [of 1 "''sync_mode''" "''never''" "''me''" c1 d1] s2 by simp
  ultimately have "\<not> cf_fails d'" by (auto simp: stmt_fails_def)
  then show ?thesis using stored_configuration_loads_back [OF _ run] run by (auto simp: sample_cfdb_def)
qed

text \<open>
  A stored value that no longer passes its rule stops the load with its error; the rows
  before it are set, the rows after it are not read.
\<close>

theorem invalid_row_stops_the_load:
  assumes "rows_ok good" "config_check k v True = Inl (ValueError m)"
  shows "\<exists>cfg'. load_rows (good @ (k, v) # rest) cfg = (Inl (ValueError m), cfg') \<and>
     (\<forall>k. map_of cfg' k = (case map_of good k of Some v \<Rightarrow> Some v | None \<Rightarrow> map_of cfg k))"
  using assms by (rule load_stops_at_invalid)

theorem invalid_row_stops_the_load_witness:
  "\<exists>cfg'. load_rows [(''sync_mode'', ''never''), (''log_level'', ''DEBUG'')] default_values
     = (Inl (ValueError ''sync_mode must be one of: auto, manual''), cfg') \<and> map_of cfg' ''log_level'' = Some ''INFO''"
proof -
  have "\<not> is_strategy_override_key ''sync_mode''" by (simp add: is_strategy_override_key_def)
  then have "config_check ''sync_mode'' ''never'' True = Inl (ValueError ''sync_mode must be one of: auto, manual'')"
    by (simp add: config_check_def check_number_def check_allowed_def)
  from invalid_row_stops_the_load [OF _ this, of "[]" "[(''log_level'', ''DEBUG'')]" default_values]
  show ?thesis by (auto simp: rows_ok_def default_values_def)
qed

end
