(* ===== verification/Telegram.thy ===== *)
theory Telegram
  imports Daily_Report Config_Service Runtime_Safety Kiwoom_Gateway
begin

text \<open>
  \<open>app/integrations/telegram/client.py\<close> and \<open>app/services/telegram_command_service.py\<close>: the message
  sink that never raises, and the commands an operator may send. The Korean texts of the answers
  are values of \<open>message\<close>. What the providers of the status and report commands answer or raise at
  the time of the command is an argument; a provider that is absent is \<open>None\<close>.
\<close>

section \<open>The client\<close>

definition telegram_url :: "string \<Rightarrow> string" where
  "telegram_url token = ''https://api.telegram.org/bot'' @ token @ ''/sendMessage''"

text \<open>\<open>post url payload\<close> is the transport as the rate limited client calls it.\<close>

definition send_message ::
  "(string \<Rightarrow> dict \<Rightarrow> 'e \<Rightarrow> dict py \<times> 'e) \<Rightarrow> string option \<Rightarrow> string option \<Rightarrow> string \<Rightarrow> 'e \<Rightarrow> bool \<times> 'e" where
  "send_message post token chat_id msg e =
     (if \<not> truthy_str token \<or> \<not> truthy_str chat_id then (False, e)
      else
        (case post (telegram_url (the token)) [(''chat_id'', JStr (the chat_id)), (''text'', JStr msg)] e of
           (Inl _, e1) \<Rightarrow> (False, e1)
         | (Inr result, e1) \<Rightarrow> ((case map_of result ''ok'' of None \<Rightarrow> True | Some v \<Rightarrow> json_truthy v), e1)))"

section \<open>The commands\<close>

datatype runtime_snippet = RuntimeUnknown | RuntimeStatus bool nat "real option"

datatype backtest_snippet = BacktestNotAvailable | BacktestStatus "string option" "string option"

datatype message =
    EmptyCommand
  | EntryPaused
  | AllPaused
  | Resumed
  | StatusMessage bool bool bool "string option" "runtime_snippet option" "backtest_snippet option"
  | SettingsMessage string
  | NoReport
  | ReportMessage "report_line list" "backtest_snippet option"
  | NoPaperReport
  | PaperReportFailed string
  | PaperReportMessage bool paper_metrics "backtest_snippet option"
  | SetUsage
  | WebOnly string
  | AwaitConfirmation string string
  | SettingChanged string string
  | NothingPending
  | PendingApplied
  | CloseUsage
  | CloseAllAccepted
  | CloseAccepted string
  | ErrorMessage string
  | Unsupported string

record command_result =
  cm_ok :: bool
  cm_message :: message

abbreviation reply :: "bool \<Rightarrow> message \<Rightarrow> command_result" where
  "reply ok m \<equiv> \<lparr>cm_ok = ok, cm_message = m\<rparr>"

record command_sources =
  cs_report :: "report_line list py option"
  cs_paper :: "(string + paper_report) py option"
  cs_backtest :: "(string option \<times> string option) py option"
  cs_runtime :: "(bool \<times> nat \<times> real option) py option"

definition confirm_required_keys :: "string list" where
  "confirm_required_keys =
     [''position_size_max_pct'', ''position_size_min_pct'', ''risk_per_trade_pct'', ''daily_loss_pct'', ''stop_count'',
      ''cooldown_hours'', ''max_positions'', ''margin_ratio'', ''order_cancel_minutes'']"

definition telegram_blocked_keys :: "string list" where
  "telegram_blocked_keys = [''atr_period'', ''stop_atr_mult'', ''tp_atr_mult'', ''trail_atr_mult'', ''margin_close_priority'']"

definition backtest_status_snippet :: "command_sources \<Rightarrow> backtest_snippet option" where
  "backtest_status_snippet src =
     (case cs_backtest src of
        None \<Rightarrow> None
      | Some (Inl _) \<Rightarrow> Some BacktestNotAvailable
      | Some (Inr (status, job_id)) \<Rightarrow> Some (BacktestStatus status job_id))"

definition runtime_status_snippet :: "command_sources \<Rightarrow> runtime_snippet option" where
  "runtime_status_snippet src =
     (case cs_runtime src of
        None \<Rightarrow> None
      | Some (Inl _) \<Rightarrow> Some RuntimeUnknown
      | Some (Inr (running, cycles, last_ms)) \<Rightarrow> Some (RuntimeStatus running cycles last_ms))"

text \<open>\<open>s.split(maxsplit=n)\<close> at runs of white space; the last piece is the rest as it is.\<close>

fun py_split_ws :: "nat \<Rightarrow> string \<Rightarrow> string list" where
  "py_split_ws n s =
     (let t = dropWhile py_isspace s in
      if t = [] then []
      else case n of 0 \<Rightarrow> [t]
           | Suc m \<Rightarrow> takeWhile (\<lambda>c. \<not> py_isspace c) t # py_split_ws m (dropWhile (\<lambda>c. \<not> py_isspace c) t))"

declare py_split_ws.simps [simp del]

text \<open>
  The configuration the commands write to is any \<open>ConfigWriter\<close>: \<open>set_by who key value\<close> and
  \<open>get_all\<close>. A \<open>KeyError\<close> or \<open>ValueError\<close> becomes the answer, anything else is raised.
\<close>

type_synonym 's set_by = "string \<Rightarrow> string \<Rightarrow> string \<Rightarrow> 's \<Rightarrow> unit py \<times> 's"

definition handle_set :: "'s set_by \<Rightarrow> string \<Rightarrow> runtime_state \<times> 's \<Rightarrow> command_result py \<times> runtime_state \<times> 's" where
  "handle_set set_by cmd st =
     (case st of (rt, s) \<Rightarrow>
        (case py_split_ws 2 cmd of
           [_, key, value] \<Rightarrow>
             (if key \<in> set telegram_blocked_keys \<or> py_startswith key ''strategy.'' then (Inr (reply False (WebOnly key)), rt, s)
              else if key \<in> set confirm_required_keys
              then (Inr (reply True (AwaitConfirmation key value)),
                    rt\<lparr>pending_change := Some \<lparr>pc_key = key, pc_value = value, pc_changed_by = ''telegram''\<rparr>\<rparr>, s)
              else (case set_by ''telegram'' key value s of
                      (Inr _, s1) \<Rightarrow> (Inr (reply True (SettingChanged key value)), rt, s1)
                    | (Inl x, s1) \<Rightarrow>
                        ((if is_key_or_value_error x then Inr (reply False (ErrorMessage (exn_str x))) else Inl x), rt, s1)))
         | _ \<Rightarrow> (Inr (reply False SetUsage), rt, s)))"

definition confirm_pending :: "'s set_by \<Rightarrow> runtime_state \<times> 's \<Rightarrow> command_result py \<times> runtime_state \<times> 's" where
  "confirm_pending set_by st =
     (case st of (rt, s) \<Rightarrow>
        (case pending_change rt of
           None \<Rightarrow> (Inr (reply False NothingPending), rt, s)
         | Some p \<Rightarrow>
             (case set_by (pc_changed_by p) (pc_key p) (pc_value p) s of
                (Inr _, s1) \<Rightarrow> (Inr (reply True PendingApplied), rt\<lparr>pending_change := None\<rparr>, s1)
              | (Inl x, s1) \<Rightarrow>
                  ((if is_key_or_value_error x then Inr (reply False (ErrorMessage (exn_str x))) else Inl x), rt, s1))))"

definition handle_close :: "string \<Rightarrow> command_result" where
  "handle_close cmd =
     (if cmd = ''/close all'' then reply True CloseAllAccepted
      else (case py_split_ws 1 cmd of
              [_, arg] \<Rightarrow> (let ticker = py_strip arg in if ticker = [] then reply False CloseUsage else reply True (CloseAccepted ticker))
            | _ \<Rightarrow> reply False CloseUsage))"

definition handle_paper_report :: "command_sources \<Rightarrow> command_result py" where
  "handle_paper_report src =
     (case cs_paper src of
        None \<Rightarrow> Inr (reply False NoPaperReport)
      | Some (Inl x) \<Rightarrow> Inl x
      | Some (Inr (Inl err)) \<Rightarrow> Inr (reply False (PaperReportFailed err))
      | Some (Inr (Inr r)) \<Rightarrow> Inr (reply True (PaperReportMessage (rp_passed r) (rp_metrics r) (backtest_status_snippet src))))"

definition settings_text :: "(string \<times> string) list \<Rightarrow> string" where
  "settings_text pairs = py_join '', '' (map (\<lambda>(k, v). k @ ''='' @ v) (sort_key fst pairs))"

definition handle ::
  "'s set_by \<Rightarrow> ('s \<Rightarrow> (string \<times> string) list) \<Rightarrow> command_sources \<Rightarrow> string \<Rightarrow> runtime_state \<times> 's
     \<Rightarrow> command_result py \<times> runtime_state \<times> 's" where
  "handle set_by get_all src command st =
     (let cmd = py_strip command; rt = fst st; s = snd st
      in if cmd = [] then (Inr (reply False EmptyCommand), st)
         else if cmd = ''/pause'' \<or> cmd = ''/pause entry'' then (Inr (reply True EntryPaused), pause_entry rt, s)
         else if cmd = ''/pause all'' then (Inr (reply True AllPaused), pause_all rt, s)
         else if cmd = ''/resume'' then (Inr (reply True Resumed), resume rt, s)
         else if cmd = ''/status''
         then (Inr (reply True (StatusMessage (entry_paused rt) (all_paused rt) (halted rt) (map_option pc_key (pending_change rt))
                 (runtime_status_snippet src) (backtest_status_snippet src))), st)
         else if cmd = ''/settings'' then (Inr (reply True (SettingsMessage (settings_text (get_all s)))), st)
         else if cmd = ''/report''
         then (case cs_report src of
                 None \<Rightarrow> Inr (reply False NoReport)
               | Some (Inl x) \<Rightarrow> Inl x
               | Some (Inr lns) \<Rightarrow> Inr (reply True (ReportMessage lns (backtest_status_snippet src))), st)
         else if cmd = ''/paper_report'' then (handle_paper_report src, st)
         else if cmd = ''/confirm'' then confirm_pending set_by st
         else if py_startswith cmd ''/set '' then handle_set set_by cmd st
         else if py_startswith cmd ''/close '' then (Inr (handle_close cmd), st)
         else (Inr (reply False (Unsupported cmd)), st))"

fun handle_all ::
  "'s set_by \<Rightarrow> ('s \<Rightarrow> (string \<times> string) list) \<Rightarrow> (command_sources \<times> string) list \<Rightarrow> runtime_state \<times> 's \<Rightarrow> runtime_state \<times> 's" where
  "handle_all set_by get_all [] st = st"
| "handle_all set_by get_all ((src, cmd) # cmds) st = handle_all set_by get_all cmds (snd (handle set_by get_all src cmd st))"

section \<open>The configuration behind the commands\<close>

locale command_config =
  fixes set_by :: "'s set_by" and view :: "'s \<Rightarrow> config"
  assumes writer: "config_writer (set_by who) view"
    and refuses_by: "set_by who k v s = (Inl x, s') \<Longrightarrow> is_key_or_value_error x"
begin

lemma reads_after:
  "set_by who k v s = (r, s') \<Longrightarrow>
     config_get k' (view s') = (if (\<exists>c. config_set k v False (view s) = Inr c) \<and> k' = k then Inr v else config_get k' (view s))"
  by (rule config_writer.read_after_write [OF writer])

text \<open>What one command can do to the configuration: nothing, or one write of a permitted key.\<close>

lemma handle_cases:
  assumes "handle set_by view src cmd (rt, s) = (r, rt', s')"
  obtains (untouched) "s' = s" "pending_change rt' = pending_change rt"
  | (asked) key v where "s' = s" "key \<in> set confirm_required_keys"
      "pending_change rt' = Some \<lparr>pc_key = key, pc_value = v, pc_changed_by = ''telegram''\<rparr>"
  | (wrote) key v r1 where "set_by ''telegram'' key v s = (r1, s')" "pending_change rt' = pending_change rt"
      "key \<notin> set telegram_blocked_keys" "key \<notin> set confirm_required_keys" "\<not> py_startswith key ''strategy.''"
  | (confirmed) p r1 where "py_strip cmd = ''/confirm''" "pending_change rt = Some p"
      "set_by (pc_changed_by p) (pc_key p) (pc_value p) s = (r1, s')"
      "pending_change rt' = (case r1 of Inr _ \<Rightarrow> None | Inl _ \<Rightarrow> Some p)"
proof -
  let ?c = "py_strip cmd"
  note pure = pause_entry_def pause_all_def resume_def
  consider (set) "?c \<noteq> ''/confirm''" "handle_set set_by ?c (rt, s) = (r, rt', s')"
    | (confirm) "?c = ''/confirm''" "confirm_pending set_by (rt, s) = (r, rt', s')"
    | (rest) "s' = s" "pending_change rt' = pending_change rt"
    using assms unfolding handle_def Let_def by (auto simp: pure split: if_splits)
  then show thesis
  proof cases
    case set
    show thesis
    proof (cases "\<exists>a key v. py_split_ws 2 ?c = [a, key, v]")
      case False
      then have "handle_set set_by ?c (rt, s) = (Inr (reply False SetUsage), rt, s)"
        by (simp add: handle_set_def split: list.splits)
      then show thesis using set(2) untouched by simp
    next
      case True
      then obtain a key v where sp: "py_split_ws 2 ?c = [a, key, v]" by blast
      obtain r1 s1 where w: "set_by ''telegram'' key v s = (r1, s1)" by (rule prod.exhaust)
      show thesis
      proof (cases "key \<in> set telegram_blocked_keys \<or> py_startswith key ''strategy.''")
        case True
        then show thesis using set(2) sp untouched by (simp add: handle_set_def)
      next
        case free: False
        show thesis
        proof (cases "key \<in> set confirm_required_keys")
          case True
          then show thesis using set(2) sp free by (intro asked [of key v]) (auto simp: handle_set_def)
        next
          case False
          then show thesis using set(2) sp free w by (intro wrote [of key v r1]) (auto simp: handle_set_def split: sum.splits)
        qed
      qed
    qed
  next
    case confirm
    show thesis
    proof (cases "pending_change rt")
      case None
      then show thesis using confirm untouched by (simp add: confirm_pending_def)
    next
      case (Some p)
      obtain r1 s1 where w: "set_by (pc_changed_by p) (pc_key p) (pc_value p) s = (r1, s1)" by (rule prod.exhaust)
      show thesis using confirm Some w by (intro confirmed [of p r1]) (auto simp: confirm_pending_def split: sum.splits)
    qed
  qed (rule untouched)
qed

text \<open>A change of a setting that needs confirmation is the confirmed pending change.\<close>

lemma changed_after_confirmation:
  assumes "handle set_by view src cmd (rt, s) = (r, rt', s')" "k \<in> set confirm_required_keys"
    "config_get k (view s') \<noteq> config_get k (view s)"
  shows "py_strip cmd = ''/confirm'' \<and> (\<exists>p. pending_change rt = Some p \<and> pc_key p = k \<and> config_get k (view s') = Inr (pc_value p))"
  using assms(1)
proof (cases rule: handle_cases)
  case (wrote key v r1)
  then show ?thesis using reads_after [OF wrote(1), of k] assms(2,3) by (auto split: if_splits)
next
  case (confirmed p r1)
  then show ?thesis using reads_after [OF confirmed(3), of k] assms(3) by (auto split: if_splits)
qed (use assms(3) in simp_all)

text \<open>The pending change is of a key that needs confirmation; keys of the web interface never change.\<close>

definition pending_ok :: "runtime_state \<Rightarrow> bool" where
  "pending_ok rt \<longleftrightarrow> (\<forall>p. pending_change rt = Some p \<longrightarrow> pc_key p \<in> set confirm_required_keys)"

lemma handle_pending_ok:
  assumes "handle set_by view src cmd (rt, s) = (r, rt', s')" "pending_ok rt"
  shows "pending_ok rt'"
  using assms(1)
proof (cases rule: handle_cases)
  case (confirmed p r1)
  then show ?thesis using assms(2) by (cases r1) (auto simp: pending_ok_def)
qed (use assms(2) in \<open>auto simp: pending_ok_def\<close>)

lemma web_only:
  assumes "handle set_by view src cmd (rt, s) = (r, rt', s')" "pending_ok rt"
    "k \<in> set telegram_blocked_keys \<or> py_startswith k ''strategy.''"
  shows "config_get k (view s') = config_get k (view s)"
proof -
  have ne: "k \<notin> set confirm_required_keys"
    using assms(3) by (auto simp: confirm_required_keys_def telegram_blocked_keys_def)
  from assms(1) show ?thesis
  proof (cases rule: handle_cases)
    case (wrote key v r1)
    then have "k \<noteq> key" using assms(3) by auto
    then show ?thesis using reads_after [OF wrote(1), of k] by auto
  next
    case (confirmed p r1)
    then have "k \<noteq> pc_key p" using assms(2) ne by (auto simp: pending_ok_def)
    then show ?thesis using reads_after [OF confirmed(3), of k] by auto
  qed simp_all
qed

lemma web_only_all:
  assumes "handle_all set_by view cmds (rt, s) = (rt', s')" "pending_ok rt"
    "k \<in> set telegram_blocked_keys \<or> py_startswith k ''strategy.''"
  shows "config_get k (view s') = config_get k (view s)"
  using assms(1,2)
proof (induction cmds arbitrary: rt s)
  case (Cons c cmds)
  obtain src cmd where c: "c = (src, cmd)" by (cases c)
  obtain r rt1 s1 where h: "handle set_by view src cmd (rt, s) = (r, rt1, s1)" by (rule prod_cases3)
  then have "handle_all set_by view cmds (rt1, s1) = (rt', s')" using Cons.prems(1) by (simp add: c)
  then have "config_get k (view s') = config_get k (view s1)" using handle_pending_ok [OF h Cons.prems(2)] by (rule Cons.IH)
  then show ?case using web_only [OF h Cons.prems(2) assms(3)] by simp
qed simp

text \<open>A command raises only what the provider of a report raised.\<close>

lemma handle_raises:
  assumes "handle set_by view src cmd (rt, s) = (Inl x, rt', s')"
  shows "py_strip cmd = ''/report'' \<and> cs_report src = Some (Inl x) \<or> py_strip cmd = ''/paper_report'' \<and> cs_paper src = Some (Inl x)"
proof -
  have set: "fst (handle_set set_by c (rt, s)) \<noteq> Inl x" for c
    by (auto simp: handle_set_def refuses_by split: list.splits sum.splits prod.splits)
  have confirm: "fst (confirm_pending set_by (rt, s)) \<noteq> Inl x"
    by (auto simp: confirm_pending_def refuses_by split: option.splits sum.splits prod.splits)
  have "fst (handle set_by view src cmd (rt, s)) = Inl x" using assms by simp
  then show ?thesis using set confirm
    by (auto simp: handle_def Let_def handle_paper_report_def split: if_splits option.splits sum.splits)
qed

end

section \<open>The configuration service is such a configuration\<close>

interpretation commands: command_config "\<lambda>who k v. service_set now k v who" sv_config
proof (rule command_config.intro)
  fix who
  show "config_writer (\<lambda>k v. service_set now k v who) sv_config" by (rule service.config_writer_axioms)
next
  fix who k v and s s' :: config_service and x
  assume "service_set now k v who s = (Inl x, s')"
  from service_set_outcome [OF this] have "config_set k v False (sv_config s) = Inl x" by (auto split: sum.splits)
  then show "is_key_or_value_error x" by (rule config_set_kv_only)
qed

section \<open>Properties\<close>

text \<open>
  C11: no sequence of commands, with whatever the providers and the database do, changes a setting that
  is reserved to the web interface: the blocked keys and every override of a strategy's parameters.
\<close>

theorem web_settings_stay_out_of_reach:
  assumes "handle_all (\<lambda>who k v. service_set now k v who) sv_config cmds (rt, s) = (rt', s')" "pending_change rt = None"
    and "k \<in> set telegram_blocked_keys \<or> py_startswith k ''strategy.''"
  shows "config_get k (sv_config s') = config_get k (sv_config s)"
  using assms(1) _ assms(3) by (rule commands.web_only_all) (simp add: commands.pending_ok_def assms(2))

text \<open>
  C10: a setting that needs confirmation changes only by the command that confirms it, to the pending
  value, and that command is answered.
\<close>

theorem limits_change_only_when_confirmed:
  assumes "handle (\<lambda>who k v. service_set now k v who) sv_config src cmd (rt, s) = (r, rt', s')"
    and "k \<in> set confirm_required_keys" "config_get k (sv_config s') \<noteq> config_get k (sv_config s)"
  shows "py_strip cmd = ''/confirm'' \<and> (\<exists>c. r = Inr c) \<and>
    (\<exists>p. pending_change rt = Some p \<and> pc_key p = k \<and> config_get k (sv_config s') = Inr (pc_value p))"
  proof -
  note c = commands.changed_after_confirmation [OF assms]
  have "r \<noteq> Inl x" for x
  proof
    assume "r = Inl x"
    from commands.handle_raises [OF assms(1) [unfolded this]] c show False by simp
  qed
  then show ?thesis using c by (cases r) auto
qed

section \<open>Writing a command down and having it applied\<close>

lemma py_strip_id:
  assumes "s \<noteq> []" "\<not> py_isspace (hd s)" "\<not> py_isspace (last s)"
  shows "py_strip s = s"
proof -
  have "dropWhile py_isspace s = s" using assms(1,2) by (cases s) auto
  moreover have "dropWhile py_isspace (rev s) = rev s" using assms(1,3) by (cases s rule: rev_cases) auto
  ultimately show ?thesis by (simp add: py_strip_def)
qed

lemma split_ws_word:
  assumes "w \<noteq> []" "list_all (\<lambda>c. \<not> py_isspace c) w" "py_isspace c"
  shows "py_split_ws (Suc n) (w @ c # s) = w # py_split_ws n (c # s)"
proof -
  have "dropWhile py_isspace (w @ c # s) = w @ c # s" using assms by (cases w) auto
  moreover have "takeWhile (\<lambda>c. \<not> py_isspace c) (w @ c # s) = w" "dropWhile (\<lambda>c. \<not> py_isspace c) (w @ c # s) = c # s"
    using assms by (auto simp: list_all_iff takeWhile_append dropWhile_append)
  ultimately show ?thesis using assms(1) by (simp add: py_split_ws.simps [of "Suc n"])
qed

lemma split_ws_space: "py_isspace c \<Longrightarrow> py_split_ws n (c # s) = py_split_ws n s"
  by (simp add: py_split_ws.simps [of n "c # s"] py_split_ws.simps [of n s])

lemma split_ws_rest: "s \<noteq> [] \<Longrightarrow> \<not> py_isspace (hd s) \<Longrightarrow> py_split_ws 0 s = [s]"
  by (cases s) (simp_all add: py_split_ws.simps)

definition set_command :: "string \<Rightarrow> string \<Rightarrow> string" where
  "set_command k v = ''/set '' @ k @ '' '' @ v"

lemma set_command_split:
  assumes "k \<noteq> []" "list_all (\<lambda>c. \<not> py_isspace c) k" "v \<noteq> []" "\<not> py_isspace (hd v)" "\<not> py_isspace (last v)"
  shows "py_strip (set_command k v) = set_command k v" "py_split_ws 2 (set_command k v) = [''/set'', k, v]"
proof -
  have sp: "py_isspace (CHR '' '')" "\<not> py_isspace (CHR ''/'')" by (simp_all add: py_isspace_def ch_code_def)
  show "py_strip (set_command k v) = set_command k v"
    using assms(3,5) sp by (intro py_strip_id) (simp_all add: set_command_def)
  have "py_split_ws 2 (''/set'' @ CHR '' '' # k @ CHR '' '' # v) = ''/set'' # py_split_ws 1 (CHR '' '' # k @ CHR '' '' # v)"
    unfolding numeral_2_eq_2 One_nat_def by (rule split_ws_word) (simp_all add: py_isspace_def ch_code_def)
  also have "py_split_ws 1 (CHR '' '' # k @ CHR '' '' # v) = k # py_split_ws 0 (CHR '' '' # v)"
    unfolding One_nat_def split_ws_space [OF sp(1), of "Suc 0"] by (rule split_ws_word [OF assms(1,2) sp(1)])
  also have "py_split_ws 0 (CHR '' '' # v) = [v]"
    unfolding split_ws_space [OF sp(1)] by (rule split_ws_rest [OF assms(3,4)])
  finally show "py_split_ws 2 (set_command k v) = [''/set'', k, v]" by (simp add: set_command_def)
qed

lemma confirm_keys_are_words: "k \<in> set confirm_required_keys \<Longrightarrow> k \<noteq> [] \<and> list_all (\<lambda>c. \<not> py_isspace c) k \<and>
    k \<notin> set telegram_blocked_keys \<and> \<not> py_startswith k ''strategy.''"
  by (auto simp: confirm_required_keys_def telegram_blocked_keys_def py_isspace_def ch_code_def)

text \<open>
  The round trip of a limit: the command that sets it changes nothing but the pending change, and
  after the confirmation the setting reads back as it was written, if its rule admits the value;
  otherwise the setting and the pending change stay.
\<close>

theorem confirmed_setting_is_applied:
  assumes "k \<in> set confirm_required_keys" "v \<noteq> []" "\<not> py_isspace (hd v)" "\<not> py_isspace (last v)"
    and "handle_all (\<lambda>who k v. service_set now k v who) sv_config [(src, set_command k v), (src2, ''/confirm'')] (rt, s) = (rt', s')"
  shows "config_get k (sv_config s') = (if config_check k v False = Inr () then Inr v else config_get k (sv_config s)) \<and>
    (pending_change rt' = None) = (config_check k v False = Inr ())"
proof -
  note word = confirm_keys_are_words [OF assms(1)]
  note sp = set_command_split [OF word [THEN conjunct1] word [THEN conjunct2, THEN conjunct1] assms(2-4)]
  let ?p = "\<lparr>pc_key = k, pc_value = v, pc_changed_by = ''telegram''\<rparr>"
  let ?rt = "rt\<lparr>pending_change := Some ?p\<rparr>"
  have "handle (\<lambda>who k v. service_set now k v who) sv_config src (set_command k v) (rt, s)
      = (Inr (reply True (AwaitConfirmation k v)), ?rt, s)"
    unfolding handle_def sp(1) Let_def using word assms(1) sp(2)
    by (simp add: set_command_def handle_set_def)
  moreover have "py_strip ''/confirm'' = ''/confirm''" by (rule py_strip_id) (simp_all add: py_isspace_def ch_code_def)
  ultimately have c: "(rt', s') = snd (confirm_pending (\<lambda>who k v. service_set now k v who) (?rt, s))"
    using assms(5) by (simp add: handle_def Let_def)
  obtain r1 s1 where w: "service_set now k v ''telegram'' s = (r1, s1)" by (rule prod.exhaust)
  have cs: "(\<exists>c. config_set k v False (sv_config s) = Inr c) \<longleftrightarrow> config_check k v False = Inr ()"
    by (auto simp: config_set_Inr)
  have "config_get k (sv_config s1) = (if config_check k v False = Inr () then Inr v else config_get k (sv_config s))"
    using commands.reads_after [OF w, of k] cs by simp
  moreover have "(\<exists>u. r1 = Inr u) \<longleftrightarrow> config_check k v False = Inr ()"
    using service_set_outcome [OF w] cs by (cases "config_set k v False (sv_config s)") auto
  ultimately show ?thesis using c w by (cases r1) (auto simp: confirm_pending_def)
qed

definition sample_service :: config_service where
  "sample_service = \<lparr>sv_config = default_values, sv_db = None, sv_hook_calls = []\<rparr>"

abbreviation no_sources :: command_sources where
  "no_sources \<equiv> \<lparr>cs_report = None, cs_paper = None, cs_backtest = None, cs_runtime = None\<rparr>"

lemma seven_is_admitted: "config_check ''max_positions'' ''7'' False = Inr ()"
  by (simp add: config_check_def check_number_def check_bounds_def check_allowed_def read_number_def is_strategy_override_key_def text_eval)

theorem confirmed_setting_is_applied_witness:
  "\<exists>rt' s'. handle_all (\<lambda>who k v. service_set 3 k v who) sv_config [(no_sources, set_command ''max_positions'' ''7''), (no_sources, ''/confirm'')]
      (runtime_init, sample_service) = (rt', s') \<and> config_get ''max_positions'' (sv_config s') = Inr ''7'' \<and> pending_change rt' = None"
proof -
  obtain rt' s' where h: "handle_all (\<lambda>who k v. service_set 3 k v who) sv_config
      [(no_sources, set_command ''max_positions'' ''7''), (no_sources, ''/confirm'')] (runtime_init, sample_service) = (rt', s')"
    by (rule prod.exhaust)
  have "\<not> py_isspace (hd ''7'')" "\<not> py_isspace (last ''7'')" by (simp_all add: py_isspace_def ch_code_def)
  from confirmed_setting_is_applied [OF _ _ this h] show ?thesis
    using h seven_is_admitted by (auto simp: confirm_required_keys_def)
qed

theorem web_settings_stay_out_of_reach_witness:
  "config_get ''atr_period'' (sv_config (snd (handle_all (\<lambda>who k v. service_set 3 k v who) sv_config
     [(no_sources, ''/set atr_period 20''), (no_sources, ''/confirm'')] (runtime_init, sample_service)))) = Inr ''14''"
proof -
  obtain rt' s' where h: "handle_all (\<lambda>who k v. service_set 3 k v who) sv_config
      [(no_sources, ''/set atr_period 20''), (no_sources, ''/confirm'')] (runtime_init, sample_service) = (rt', s')"
    by (rule prod.exhaust)
  have "config_get ''atr_period'' (sv_config s') = config_get ''atr_period'' (sv_config sample_service)"
    by (rule web_settings_stay_out_of_reach [OF h]) (simp_all add: runtime_init_def telegram_blocked_keys_def)
  moreover have "config_get ''atr_period'' (sv_config sample_service) = Inr ''14''"
    by (simp add: sample_service_def config_get_def default_values_def)
  ultimately show ?thesis by (simp only: h snd_conv)
qed

theorem limits_change_only_when_confirmed_witness:
  "\<exists>p. pc_key p = ''max_positions'' \<and> pc_value p = ''7'' \<and>
     config_get ''max_positions'' (sv_config (snd (snd (handle (\<lambda>who k v. service_set 3 k v who) sv_config no_sources '' /confirm''
       (runtime_init\<lparr>pending_change := Some p\<rparr>, sample_service))))) = Inr ''7''"
proof -
  let ?p = "\<lparr>pc_key = ''max_positions'', pc_value = ''7'', pc_changed_by = ''telegram''\<rparr>"
  let ?rt = "runtime_init\<lparr>pending_change := Some ?p\<rparr>"
  obtain r rt' s' where h: "handle (\<lambda>who k v. service_set 3 k v who) sv_config no_sources '' /confirm'' (?rt, sample_service) = (r, rt', s')"
    by (rule prod_cases3)
  have strip: "py_strip '' /confirm'' = ''/confirm''" by (simp add: py_strip_def py_isspace_def ch_code_def)
  obtain r1 s1 where w: "service_set 3 ''max_positions'' ''7'' ''telegram'' sample_service = (r1, s1)" by (rule prod.exhaust)
  have s1: "s' = s1" using h w by (cases r1) (auto simp: handle_def strip confirm_pending_def)
  have "\<exists>c. config_set ''max_positions'' ''7'' False (sv_config sample_service) = Inr c"
    using seven_is_admitted by (auto simp: config_set_Inr)
  then have new: "config_get ''max_positions'' (sv_config s') = Inr ''7''"
    using commands.reads_after [OF w, of "''max_positions''"] s1 by simp
  moreover have "config_get ''max_positions'' (sv_config sample_service) = Inr ''10''"
    by (simp add: sample_service_def config_get_def default_values_def)
  ultimately have "config_get ''max_positions'' (sv_config s') \<noteq> config_get ''max_positions'' (sv_config sample_service)" by simp
  moreover have "''max_positions'' \<in> set confirm_required_keys" by (simp add: confirm_required_keys_def)
  ultimately have "\<exists>p. pending_change ?rt = Some p \<and> pc_key p = ''max_positions'' \<and> config_get ''max_positions'' (sv_config s') = Inr (pc_value p)"
    using limits_change_only_when_confirmed [OF h] by blast
  then have "pc_key ?p = ''max_positions'' \<and> pc_value ?p = ''7'' \<and> config_get ''max_positions'' (sv_config s') = Inr ''7''" by simp
  then show ?thesis using h by (intro exI [of _ ?p]) (simp only: h snd_conv)
qed

end
