(* ===== verification/Otp_Auth.thy ===== *)
theory Otp_Auth
  imports Domain_Models
begin

text \<open>
  \<open>app/services/auth.py\<close>: one-time passwords, rate and failure locks, sessions. The dictionaries
  are partial maps; the audit and alert sinks are the lists of what was handed to them (a sink
  that is absent or raises changes nothing else). The random code and session id are arguments.
  The detail texts of audit events are not modelled.
\<close>

section \<open>State\<close>

record otp_record =
  otp_code :: string
  otp_expires_at :: instant

record rate_state =
  rt_window_start :: instant
  rt_request_count :: nat
  rt_locked_until :: "instant option"

record verify_state =
  vf_fail_count :: nat
  vf_locked_until :: "instant option"

record session_record =
  se_session_id :: string
  se_ip :: string
  se_issued_at :: instant
  se_expires_at :: instant

record auth_params =
  ap_otp_ttl :: int
  ap_window :: int
  ap_request_limit :: nat
  ap_lock :: int
  ap_fail_limit :: nat
  ap_verify_lock :: int
  ap_session_ttl :: int

definition default_params :: auth_params where
  "default_params = \<lparr>ap_otp_ttl = 180, ap_window = 60, ap_request_limit = 3, ap_lock = 600, ap_fail_limit = 5,
     ap_verify_lock = 600, ap_session_ttl = 86400\<rparr>"

datatype audit_event = Audit string string bool  \<comment> \<open>ip, event type, ok\<close>

datatype auth_alert = OtpCode string | VerifyFailure string string

record auth =
  au_otp :: "string \<Rightarrow> otp_record option"
  au_rate :: "string \<Rightarrow> rate_state option"
  au_verify :: "string \<Rightarrow> verify_state option"
  au_session :: "string \<Rightarrow> session_record option"
  au_audit :: "audit_event list"
  au_alerts :: "auth_alert list"

definition auth_init :: auth where
  "auth_init = \<lparr>au_otp = (\<lambda>_. None), au_rate = (\<lambda>_. None), au_verify = (\<lambda>_. None), au_session = (\<lambda>_. None),
     au_audit = [], au_alerts = []\<rparr>"

definition audit :: "string \<Rightarrow> string \<Rightarrow> bool \<Rightarrow> auth \<Rightarrow> auth" where
  "audit ip ty ok s = s\<lparr>au_audit := au_audit s @ [Audit ip ty ok]\<rparr>"

definition alert_auth :: "auth_alert \<Rightarrow> auth \<Rightarrow> auth" where
  "alert_auth a s = s\<lparr>au_alerts := au_alerts s @ [a]\<rparr>"

text \<open>\<open>max(int((until - now).total_seconds()), 1)\<close> for a positive difference.\<close>

definition seconds_left :: "instant \<Rightarrow> instant \<Rightarrow> int" where
  "seconds_left until now = max ((until - now) div 1000000) 1"

definition locked_at :: "instant \<Rightarrow> instant option \<Rightarrow> bool" where
  "locked_at now l = (case l of None \<Rightarrow> False | Some t \<Rightarrow> now < t)"

definition lock_expired :: "instant \<Rightarrow> instant option \<Rightarrow> bool" where
  "lock_expired now l = (case l of None \<Rightarrow> False | Some t \<Rightarrow> now \<ge> t)"

section \<open>The code\<close>

definition put_rate :: "string \<Rightarrow> rate_state \<Rightarrow> auth \<Rightarrow> auth" where
  "put_rate ip r s = s\<lparr>au_rate := (au_rate s)(ip \<mapsto> r)\<rparr>"

definition put_verify :: "string \<Rightarrow> verify_state \<Rightarrow> auth \<Rightarrow> auth" where
  "put_verify ip v s = s\<lparr>au_verify := (au_verify s)(ip \<mapsto> v)\<rparr>"

definition unlock_verify_if_expired :: "string \<Rightarrow> instant \<Rightarrow> verify_state \<Rightarrow> auth \<Rightarrow> verify_state \<times> auth" where
  "unlock_verify_if_expired ip now v s =
     (if lock_expired now (vf_locked_until v)
      then (let v' = v\<lparr>vf_locked_until := None, vf_fail_count := 0\<rparr>
            in (v', audit ip ''otp_verify_unlocked'' True (put_verify ip v' s)))
      else (v, s))"

text \<open>The replies: an accepted request, or an error with the seconds to wait.\<close>

datatype request_reply = OtpSent | RequestDenied string int

definition request_otp :: "auth_params \<Rightarrow> instant \<Rightarrow> string \<Rightarrow> string \<Rightarrow> auth \<Rightarrow> request_reply \<times> auth" where
  "request_otp ap now cd ip s0 =
     (let st0 = (case au_rate s0 ip of
                   None \<Rightarrow> \<lparr>rt_window_start = now, rt_request_count = 0, rt_locked_until = None\<rparr> | Some r \<Rightarrow> r);
          s1 = put_rate ip st0 s0;
          (st1, s2) = (if lock_expired now (rt_locked_until st0)
                       then (let st = \<lparr>rt_window_start = now, rt_request_count = 0, rt_locked_until = None\<rparr>
                             in (st, audit ip ''otp_request_unlocked'' True (put_rate ip st s1)))
                       else (st0, s1))
      in if locked_at now (rt_locked_until st1)
         then (RequestDenied ''otp_request_locked'' (seconds_left (the (rt_locked_until st1)) now),
               audit ip ''otp_request_locked'' False s2)
         else
           (let (vlock, s3) = (case au_verify s2 ip of
                                 None \<Rightarrow> (None, s2)
                               | Some v \<Rightarrow> (let (v', s') = unlock_verify_if_expired ip now v s2 in (vf_locked_until v', s')))
            in if locked_at now vlock
               then (RequestDenied ''otp_verify_locked'' (seconds_left (the vlock) now),
                     audit ip ''otp_request_denied_verify_locked'' False s3)
               else
                 (let st2 = (if now - rt_window_start st1 \<ge> seconds (ap_window ap)
                             then st1\<lparr>rt_window_start := now, rt_request_count := 0, rt_locked_until := None\<rparr> else st1);
                      st3 = st2\<lparr>rt_request_count := rt_request_count st2 + 1\<rparr>
                  in if rt_request_count st3 > ap_request_limit ap
                     then (let until = now + seconds (ap_lock ap)
                           in (RequestDenied ''otp_request_rate_limited'' (seconds_left until now),
                               audit ip ''otp_request_rate_limited'' False
                                 (put_rate ip (st3\<lparr>rt_locked_until := Some until\<rparr>) s3)))
                     else
                       (let s4 = put_rate ip st3 s3;
                            s5 = s4\<lparr>au_otp := (au_otp s4)(ip \<mapsto>
                                   \<lparr>otp_code = cd, otp_expires_at = now + seconds (ap_otp_ttl ap)\<rparr>)\<rparr>
                        in (OtpSent, alert_auth (OtpCode cd) (audit ip ''otp_request_issued'' True s5))))))"

text \<open>The code: four decimal digits of a number below 10000.\<close>

definition generate_otp :: "nat \<Rightarrow> string" where
  "generate_otp n = pad4 (n mod 10000)"

datatype verify_reply =
    LoggedIn string instant
  | VerifyDenied string nat           \<comment> \<open>error, fail count\<close>
  | VerifyLocked int "nat option"     \<comment> \<open>retry after, fail count if this attempt locked\<close>

definition register_verify_failure ::
  "auth_params \<Rightarrow> string \<Rightarrow> instant \<Rightarrow> string \<Rightarrow> auth \<Rightarrow> verify_reply \<times> auth" where
  "register_verify_failure ap ip now base_error s =
     (let v0 = (case au_verify s ip of None \<Rightarrow> \<lparr>vf_fail_count = 0, vf_locked_until = None\<rparr> | Some v \<Rightarrow> v);
          v1 = v0\<lparr>vf_fail_count := vf_fail_count v0 + 1\<rparr>
      in if vf_fail_count v1 \<ge> ap_fail_limit ap
         then (let until = now + seconds (ap_verify_lock ap)
               in (VerifyLocked (seconds_left until now) (Some (vf_fail_count v1)),
                   audit ip ''otp_verify_locked'' False (put_verify ip (v1\<lparr>vf_locked_until := Some until\<rparr>) s)))
         else (VerifyDenied base_error (vf_fail_count v1), audit ip ''otp_verify_failed'' False (put_verify ip v1 s)))"

definition drop_otp :: "string \<Rightarrow> auth \<Rightarrow> auth" where
  "drop_otp ip s = s\<lparr>au_otp := (au_otp s)(ip := None)\<rparr>"

definition verify_otp :: "auth_params \<Rightarrow> instant \<Rightarrow> string \<Rightarrow> string \<Rightarrow> string \<Rightarrow> auth \<Rightarrow> verify_reply \<times> auth" where
  "verify_otp ap now token ip cd s0 =
     (let clean = py_strip cd;
          v0 = (case au_verify s0 ip of None \<Rightarrow> \<lparr>vf_fail_count = 0, vf_locked_until = None\<rparr> | Some v \<Rightarrow> v);
          (v1, s1) = unlock_verify_if_expired ip now v0 (put_verify ip v0 s0)
      in if locked_at now (vf_locked_until v1)
         then (VerifyLocked (seconds_left (the (vf_locked_until v1)) now) None, audit ip ''otp_verify_locked'' False s1)
         else
           (case au_otp s1 ip of
              None \<Rightarrow> register_verify_failure ap ip now ''otp_not_requested'' s1
            | Some otp \<Rightarrow>
                if now > otp_expires_at otp
                then register_verify_failure ap ip now ''otp_expired'' (drop_otp ip s1)
                else if otp_code otp \<noteq> clean
                then (case register_verify_failure ap ip now ''otp_mismatch'' s1 of
                        (r, s2) \<Rightarrow> (r, alert_auth (VerifyFailure ip clean) s2))
                else
                  (let until = now + seconds (ap_session_ttl ap);
                       s2 = s1\<lparr>au_session := (au_session s1)(token \<mapsto>
                              \<lparr>se_session_id = token, se_ip = ip, se_issued_at = now, se_expires_at = until\<rparr>)\<rparr>;
                       s3 = put_verify ip \<lparr>vf_fail_count = 0, vf_locked_until = None\<rparr> (drop_otp ip s2)
                   in (LoggedIn token until, audit ip ''otp_verify_success'' True s3))))"

datatype session_reply = SessionOk session_record | SessionDenied string

definition validate_session :: "instant \<Rightarrow> string \<Rightarrow> string \<Rightarrow> auth \<Rightarrow> session_reply \<times> auth" where
  "validate_session now sid ip s =
     (case au_session s sid of
        None \<Rightarrow> (SessionDenied ''session_not_found'', audit ip ''session_validate_not_found'' False s)
      | Some row \<Rightarrow>
          if se_expires_at row < now
          then (SessionDenied ''session_expired'',
                audit ip ''session_validate_expired'' False (s\<lparr>au_session := (au_session s)(sid := None)\<rparr>))
          else if se_ip row \<noteq> ip
          then (SessionDenied ''session_ip_mismatch'', audit ip ''session_validate_ip_mismatch'' False s)
          else (SessionOk row, audit ip ''session_validate_ok'' True s))"

definition revoke_session :: "string \<Rightarrow> auth \<Rightarrow> auth" where
  "revoke_session sid s =
     (case au_session s sid of
        None \<Rightarrow> s
      | Some row \<Rightarrow> audit (se_ip row) ''session_revoke'' True (s\<lparr>au_session := (au_session s)(sid := None)\<rparr>))"

section \<open>Facts\<close>

lemma auth_frames [simp]:
  "au_otp (audit ip t b s) = au_otp s" "au_rate (audit ip t b s) = au_rate s"
  "au_verify (audit ip t b s) = au_verify s" "au_session (audit ip t b s) = au_session s"
  "au_otp (alert_auth a s) = au_otp s" "au_rate (alert_auth a s) = au_rate s"
  "au_verify (alert_auth a s) = au_verify s" "au_session (alert_auth a s) = au_session s"
  "au_otp (put_rate ip r s) = au_otp s" "au_rate (put_rate ip r s) = (au_rate s)(ip \<mapsto> r)"
  "au_verify (put_rate ip r s) = au_verify s" "au_session (put_rate ip r s) = au_session s"
  "au_otp (put_verify ip v s) = au_otp s" "au_rate (put_verify ip v s) = au_rate s"
  "au_verify (put_verify ip v s) = (au_verify s)(ip \<mapsto> v)" "au_session (put_verify ip v s) = au_session s"
  "au_otp (drop_otp ip s) = (au_otp s)(ip := None)" "au_verify (drop_otp ip s) = au_verify s"
  "au_rate (drop_otp ip s) = au_rate s" "au_session (drop_otp ip s) = au_session s"
  by (simp_all add: audit_def alert_auth_def put_rate_def put_verify_def drop_otp_def)

lemma unlock_verify_frames [simp]:
  "au_otp (snd (unlock_verify_if_expired ip now v s)) = au_otp s"
  "au_rate (snd (unlock_verify_if_expired ip now v s)) = au_rate s"
  "au_session (snd (unlock_verify_if_expired ip now v s)) = au_session s"
  by (simp_all add: unlock_verify_if_expired_def Let_def)

lemma register_failure_frames:
  "register_verify_failure ap ip now b s = (r, s') \<Longrightarrow>
     au_otp s' = au_otp s \<and> au_session s' = au_session s \<and> (\<forall>t u. r \<noteq> LoggedIn t u)"
  by (auto simp: register_verify_failure_def Let_def split: if_splits)

text \<open>A session is created only by the unexpired code issued to the same address, which it uses up.\<close>

lemma verify_otp_LoggedIn:
  assumes "verify_otp ap now token ip cd s = (LoggedIn sid until, s')"
  shows "\<exists>otp. au_otp s ip = Some otp \<and> otp_code otp = py_strip cd \<and> now \<le> otp_expires_at otp"
    and "au_otp s' ip = None" "sid = token" "until = now + seconds (ap_session_ttl ap)"
    and "au_session s' = (au_session s)(token \<mapsto>
           \<lparr>se_session_id = token, se_ip = ip, se_issued_at = now, se_expires_at = until\<rparr>)"
    and "\<not> (\<exists>v. au_verify s ip = Some v \<and> locked_at now (vf_locked_until v))"
proof -
  let ?v0 = "case au_verify s ip of None \<Rightarrow> \<lparr>vf_fail_count = 0, vf_locked_until = None\<rparr> | Some v \<Rightarrow> v"
  obtain v1 s1 where u: "unlock_verify_if_expired ip now ?v0 (put_verify ip ?v0 s) = (v1, s1)" by fastforce
  have s1: "au_otp s1 = au_otp s" "au_session s1 = au_session s"
    using unlock_verify_frames [of ip now ?v0 "put_verify ip ?v0 s"] u by simp_all
  note run = assms [unfolded verify_otp_def Let_def u prod.case]
  from run have nl: "\<not> locked_at now (vf_locked_until v1)" by (auto split: if_splits)
  note run1 = run [unfolded if_not_P [OF nl]]
  from run1 obtain otp where otp: "au_otp s1 ip = Some otp"
    by (auto split: option.splits dest: register_failure_frames)
  note run2 = run1 [unfolded otp option.case]
  from run2 have ne: "\<not> now > otp_expires_at otp" by (auto split: if_splits dest: register_failure_frames)
  note run3 = run2 [unfolded if_not_P [OF ne]]
  from run3 have eq: "otp_code otp = py_strip cd" by (auto split: if_splits prod.splits dest: register_failure_frames)
  show "\<exists>otp. au_otp s ip = Some otp \<and> otp_code otp = py_strip cd \<and> now \<le> otp_expires_at otp"
    using otp s1 ne eq by auto
  from run3 eq show "au_otp s' ip = None" "sid = token" "until = now + seconds (ap_session_ttl ap)"
    "au_session s' = (au_session s)(token \<mapsto>
           \<lparr>se_session_id = token, se_ip = ip, se_issued_at = now, se_expires_at = until\<rparr>)"
    using s1 by auto
  show "\<not> (\<exists>v. au_verify s ip = Some v \<and> locked_at now (vf_locked_until v))"
  proof
    assume "\<exists>v. au_verify s ip = Some v \<and> locked_at now (vf_locked_until v)"
    then obtain v where v: "au_verify s ip = Some v" "locked_at now (vf_locked_until v)" by blast
    then have "\<not> lock_expired now (vf_locked_until v)" by (auto simp: locked_at_def lock_expired_def split: option.splits)
    with u v have "v1 = v" by (simp add: unlock_verify_if_expired_def)
    with nl v show False by simp
  qed
qed

lemma validate_session_ok:
  assumes "validate_session now sid ip s = (SessionOk row, s')"
  shows "au_session s sid = Some row \<and> se_ip row = ip \<and> now \<le> se_expires_at row"
  using assms by (auto simp: validate_session_def split: option.splits if_splits)

lemma revoked_session_denied:
  "fst (validate_session now sid ip (revoke_session sid s)) = SessionDenied ''session_not_found''"
  by (auto simp: validate_session_def revoke_session_def split: option.splits)

section \<open>Guessing\<close>

text \<open>Attempts from one address: the replies in order.\<close>

fun attempts :: "auth_params \<Rightarrow> string \<Rightarrow> (instant \<times> string \<times> string) list \<Rightarrow> auth \<Rightarrow> verify_reply list" where
  "attempts ap ip [] s = []"
| "attempts ap ip ((now, token, cd) # as) s =
     (case verify_otp ap now token ip cd s of (r, s') \<Rightarrow> r # attempts ap ip as s')"

fun is_locked_reply :: "verify_reply \<Rightarrow> bool" where
  "is_locked_reply (VerifyLocked _ _) = True"
| "is_locked_reply _ = False"

fun is_logged_in :: "verify_reply \<Rightarrow> bool" where
  "is_logged_in (LoggedIn _ _) = True"
| "is_logged_in _ = False"

definition fails_of :: "auth \<Rightarrow> string \<Rightarrow> nat" where
  "fails_of s ip = (case au_verify s ip of None \<Rightarrow> 0 | Some v \<Rightarrow> vf_fail_count v)"

definition vlock_of :: "auth \<Rightarrow> string \<Rightarrow> instant option" where
  "vlock_of s ip = (case au_verify s ip of None \<Rightarrow> None | Some v \<Rightarrow> vf_locked_until v)"

lemma verify_while_locked:
  assumes "locked_at now (vlock_of s ip)"
  shows "\<exists>s'. verify_otp ap now token ip cd s = (VerifyLocked (seconds_left (the (vlock_of s ip)) now) None, s') \<and>
     au_verify s' = au_verify s \<and> au_otp s' = au_otp s \<and> au_session s' = au_session s"
proof -
  obtain v where v: "au_verify s ip = Some v" "locked_at now (vf_locked_until v)"
    using assms by (auto simp: vlock_of_def locked_at_def split: option.splits)
  then have ne: "\<not> lock_expired now (vf_locked_until v)"
    by (auto simp: locked_at_def lock_expired_def split: option.splits)
  have "(au_verify s)(ip \<mapsto> v) = au_verify s" using v(1) by auto
  then show ?thesis
    using v ne by (simp add: verify_otp_def Let_def unlock_verify_if_expired_def vlock_of_def)
qed

lemma register_failure_effect:
  "register_verify_failure ap ip now b s = (r, s') \<Longrightarrow>
     fails_of s' ip = Suc (fails_of s ip) \<and>
     (if ap_fail_limit ap \<le> Suc (fails_of s ip)
      then is_locked_reply r \<and> vlock_of s' ip = Some (now + seconds (ap_verify_lock ap))
      else \<not> is_locked_reply r \<and> vlock_of s' ip = vlock_of s ip)"
  by (auto simp: register_verify_failure_def Let_def fails_of_def vlock_of_def split: if_splits option.splits)

text \<open>One failed attempt on an unlocked address counts; the one that reaches the limit locks.\<close>

lemma verify_failure_counts:
  assumes "verify_otp ap now token ip cd s = (r, s')" "\<not> is_logged_in r" "vlock_of s ip = None"
  shows "fails_of s' ip = Suc (fails_of s ip) \<and>
     (if ap_fail_limit ap \<le> Suc (fails_of s ip)
      then is_locked_reply r \<and> vlock_of s' ip = Some (now + seconds (ap_verify_lock ap))
      else \<not> is_locked_reply r \<and> vlock_of s' ip = None)"
proof -
  let ?v0 = "case au_verify s ip of None \<Rightarrow> \<lparr>vf_fail_count = 0, vf_locked_until = None\<rparr> | Some v \<Rightarrow> v"
  let ?s1 = "put_verify ip ?v0 s"
  have l: "vf_locked_until ?v0 = None" using assms(3) by (auto simp: vlock_of_def split: option.splits)
  have u: "unlock_verify_if_expired ip now ?v0 ?s1 = (?v0, ?s1)"
    using l by (simp add: unlock_verify_if_expired_def lock_expired_def)
  have f: "fails_of ?s1 ip = fails_of s ip" "vlock_of ?s1 ip = None" "fails_of (drop_otp ip ?s1) ip = fails_of s ip"
    "vlock_of (drop_otp ip ?s1) ip = None"
    using l by (auto simp: fails_of_def vlock_of_def split: option.splits)
  have al: "fails_of (alert_auth a t) = fails_of t" "vlock_of (alert_auth a t) = vlock_of t" for a t
    by (simp_all add: fails_of_def vlock_of_def fun_eq_iff)
  note run = assms(1) [unfolded verify_otp_def Let_def u prod.case l]
  have nl: "\<not> locked_at now None" by (simp add: locked_at_def)
  note run1 = run [unfolded if_not_P [OF nl]]
  consider b where "register_verify_failure ap ip now b ?s1 = (r, s')"
    | b where "register_verify_failure ap ip now b (drop_otp ip ?s1) = (r, s')"
    | b s2 a where "register_verify_failure ap ip now b ?s1 = (r, s2)" "s' = alert_auth a s2"
    using run1 assms(2) by (auto split: option.splits if_splits prod.splits)
  then show ?thesis
    by cases (use register_failure_effect f al in \<open>fastforce+\<close>)
qed

lemma attempts_while_locked:
  assumes "vlock_of s ip = Some u" "\<forall>a\<in>set as. fst a < u"
  shows "list_all is_locked_reply (attempts ap ip as s)"
  using assms
proof (induction as arbitrary: s)
  case (Cons a as)
  obtain now token cd where a: "a = (now, token, cd)" by (rule prod_cases3)
  have "locked_at now (vlock_of s ip)" using Cons.prems a by (simp add: locked_at_def)
  from verify_while_locked [OF this, of ap token cd] obtain s' where
    v: "verify_otp ap now token ip cd s = (VerifyLocked (seconds_left (the (vlock_of s ip)) now) None, s')"
      "au_verify s' = au_verify s" by blast
  then have "vlock_of s' ip = Some u" using Cons.prems(1) by (simp add: vlock_of_def)
  then show ?case using Cons.IH Cons.prems(2) v a by simp
qed simp

text \<open>
  However many codes are tried within one lock period, without a success in between, fewer than
  the limit are answered by anything but "locked".
\<close>

lemma guesses_bounded:
  assumes "vlock_of s ip = None" "fails_of s ip < ap_fail_limit ap"
    and "list_all (\<lambda>r. \<not> is_logged_in r) (attempts ap ip as s)"
    and "\<forall>a\<in>set as. t0 \<le> fst a \<and> fst a < t0 + seconds (ap_verify_lock ap)"
  shows "length (filter (\<lambda>r. \<not> is_locked_reply r) (attempts ap ip as s)) + fails_of s ip < ap_fail_limit ap"
  using assms
proof (induction as arbitrary: s)
  case (Cons a as)
  obtain now token cd where a: "a = (now, token, cd)" by (rule prod_cases3)
  obtain r s' where v: "verify_otp ap now token ip cd s = (r, s')" by fastforce
  have nl: "\<not> is_logged_in r" using Cons.prems(3) a v by simp
  note E = verify_failure_counts [OF v nl Cons.prems(1)]
  show ?case
  proof (cases "ap_fail_limit ap \<le> Suc (fails_of s ip)")
    case True
    then have lk: "is_locked_reply r" "vlock_of s' ip = Some (now + seconds (ap_verify_lock ap))" using E by simp_all
    have "\<forall>b\<in>set as. fst b < now + seconds (ap_verify_lock ap)" using Cons.prems(4) a by fastforce
    from attempts_while_locked [OF lk(2) this, of ap]
    have "filter (\<lambda>r. \<not> is_locked_reply r) (attempts ap ip as s') = []" by (simp add: list_all_iff filter_empty_conv)
    then show ?thesis using Cons.prems(2) a v lk(1) by simp
  next
    case False
    then have "vlock_of s' ip = None" "fails_of s' ip = Suc (fails_of s ip)" "\<not> is_locked_reply r" using E by simp_all
    moreover have "list_all (\<lambda>r. \<not> is_logged_in r) (attempts ap ip as s')" using Cons.prems(3) a v by simp
    ultimately have "length (filter (\<lambda>r. \<not> is_locked_reply r) (attempts ap ip as s')) + Suc (fails_of s ip) < ap_fail_limit ap"
      using Cons.IH [of s'] Cons.prems(4) False by simp
    then show ?thesis using a v \<open>\<not> is_locked_reply r\<close> by simp
  qed
qed simp

section \<open>Requests\<close>

text \<open>What a window has issued never exceeds the limit unless the address is locked.\<close>

definition rate_ok :: "auth_params \<Rightarrow> rate_state \<Rightarrow> bool" where
  "rate_ok ap r \<longleftrightarrow> rt_request_count r \<le> ap_request_limit ap \<or> rt_locked_until r \<noteq> None"

definition rates_ok :: "auth_params \<Rightarrow> auth \<Rightarrow> bool" where
  "rates_ok ap s \<longleftrightarrow> (\<forall>ip r. au_rate s ip = Some r \<longrightarrow> rate_ok ap r)"

lemma request_otp_sent:
  assumes "request_otp ap now cd ip s = (OtpSent, s')"
  shows "au_otp s' = (au_otp s)(ip \<mapsto> \<lparr>otp_code = cd, otp_expires_at = now + seconds (ap_otp_ttl ap)\<rparr>)"
    and "\<exists>r. au_rate s' ip = Some r \<and> 0 < rt_request_count r \<and> rt_request_count r \<le> ap_request_limit ap \<and>
           now - rt_window_start r < max 1 (seconds (ap_window ap))"
    and "au_session s' = au_session s"
  using assms
  by (auto simp: request_otp_def Let_def unlock_verify_if_expired_def split: if_splits option.splits prod.splits)

section \<open>Properties\<close>

text \<open>
  C20: a login needs the code last issued to the address, unexpired and entered while the address
  is not locked; it consumes the code, so the same code does not log in twice, and the session it
  opens belongs to that address.
\<close>

theorem login_needs_issued_code:
  assumes "verify_otp ap now token ip cd s = (LoggedIn sid until, s')"
  shows "(\<exists>otp. au_otp s ip = Some otp \<and> otp_code otp = py_strip cd \<and> now \<le> otp_expires_at otp) \<and>
    \<not> locked_at now (vlock_of s ip) \<and>
    \<not> is_logged_in (fst (verify_otp ap now2 token2 ip cd2 s')) \<and>
    (\<exists>row. au_session s' sid = Some row \<and> se_ip row = ip \<and> se_expires_at row = now + seconds (ap_session_ttl ap))"
proof -
  note v = verify_otp_LoggedIn [OF assms]
  have "\<not> locked_at now (vlock_of s ip)"
    using v(6) by (auto simp: vlock_of_def locked_at_def split: option.splits)
  moreover have "\<not> is_logged_in (fst (verify_otp ap now2 token2 ip cd2 s'))"
  proof
    assume "is_logged_in (fst (verify_otp ap now2 token2 ip cd2 s'))"
    then obtain sid2 u2 s2 where "verify_otp ap now2 token2 ip cd2 s' = (LoggedIn sid2 u2, s2)"
      by (cases "verify_otp ap now2 token2 ip cd2 s'"; cases "fst (verify_otp ap now2 token2 ip cd2 s')") auto
    from verify_otp_LoggedIn(1) [OF this] v(2) show False by simp
  qed
  ultimately show ?thesis using v(1,3,4,5) by auto
qed

definition sample_auth :: auth where
  "sample_auth = snd (request_otp default_params 0 ''1234'' ''ip'' auth_init)"

lemma sample_login:
  "fst (verify_otp default_params 5 ''t'' ''ip'' ''1234 '' sample_auth) = LoggedIn ''t'' (5 + seconds 86400)"
  by (simp add: verify_otp_def sample_auth_def request_otp_def auth_init_def default_params_def unlock_verify_if_expired_def
      locked_at_def lock_expired_def Let_def py_strip_def py_isspace_def ch_code_def put_rate_def put_verify_def audit_def
      alert_auth_def)

theorem login_needs_issued_code_witness:
  "\<not> is_logged_in (fst (verify_otp default_params 6 ''u'' ''ip'' ''1234'' (snd (verify_otp default_params 5 ''t'' ''ip'' ''1234 '' sample_auth))))"
proof -
  have "verify_otp default_params 5 ''t'' ''ip'' ''1234 '' sample_auth
      = (LoggedIn ''t'' (5 + seconds 86400), snd (verify_otp default_params 5 ''t'' ''ip'' ''1234 '' sample_auth))"
    using sample_login by (metis prod.collapse)
  from login_needs_issued_code [OF this] show ?thesis by blast
qed

text \<open>
  C35: within the time of one lock, an address that never logs in gets fewer unlocked answers than
  the failure limit, however often and whatever it guesses.
\<close>

theorem guesses_per_lock_are_bounded:
  assumes "vlock_of s ip = None" "fails_of s ip < ap_fail_limit ap"
    and "list_all (\<lambda>r. \<not> is_logged_in r) (attempts ap ip as s)"
    and "\<forall>a\<in>set as. t0 \<le> fst a \<and> fst a < t0 + seconds (ap_verify_lock ap)"
  shows "length (filter (\<lambda>r. \<not> is_locked_reply r) (attempts ap ip as s)) + fails_of s ip < ap_fail_limit ap"
  using assms by (rule guesses_bounded)

text \<open>With a limit of two the second wrong code locks the address, and later ones are not looked at.\<close>

theorem guesses_per_lock_are_bounded_witness:
  "map is_locked_reply (attempts (default_params\<lparr>ap_fail_limit := 2\<rparr>) ''ip'' (map (\<lambda>i. (int i, ''t'', ''0000'')) [0..<4]) auth_init) =
     [False, True, True, True] \<and>
   length (filter (\<lambda>r. \<not> is_locked_reply r)
     (attempts (default_params\<lparr>ap_fail_limit := 2\<rparr>) ''ip'' (map (\<lambda>i. (int i, ''t'', ''0000'')) [0..<4]) auth_init)) < 2"
proof -
  let ?p = "default_params\<lparr>ap_fail_limit := 2\<rparr>" and ?as = "map (\<lambda>i. (int i, ''t'', ''0000'')) [0..<4]"
  have run: "map is_locked_reply (attempts ?p ''ip'' ?as auth_init) = [False, True, True, True]"
    "list_all (\<lambda>r. \<not> is_logged_in r) (attempts ?p ''ip'' ?as auth_init)"
    by (simp_all add: upt_rec verify_otp_def auth_init_def default_params_def unlock_verify_if_expired_def
      locked_at_def lock_expired_def Let_def put_verify_def audit_def register_verify_failure_def)
  then show ?thesis
    using guesses_per_lock_are_bounded [of auth_init "''ip''" ?p ?as 0]
    by (simp add: auth_init_def vlock_of_def fails_of_def default_params_def)
qed

end
