(* ===== verification/Auth_Audit.thy ===== *)
theory Auth_Audit
  imports Otp_Auth Account_Repository
begin

text \<open>
  \<open>app/repositories/auth_audit.py\<close> and \<open>app/services/auth_audit.py\<close>: the log of what the login
  did, its filtered listing and the counts per window. The authentication service writes to it
  through a sink that swallows database errors. \<open>created_at\<close> is the database's clock, an argument.
\<close>

section \<open>The code\<close>

record audit_row =
  al_id :: nat
  al_event_type :: string
  al_ip :: string
  al_ok :: bool
  al_detail :: "string option"
  al_created_at :: instant

record audit_db =
  ad_rows :: "audit_row list"
  ad_next :: nat
  ad_faults :: fault_plan

definition ad_tick :: "audit_db \<Rightarrow> audit_db" where
  "ad_tick d = d\<lparr>ad_faults := tl (ad_faults d)\<rparr>"

definition ad_stmt :: "audit_db \<Rightarrow> (audit_db \<Rightarrow> 'a py \<times> audit_db) \<Rightarrow> 'a py \<times> audit_db" where
  "ad_stmt d k = (if stmt_fails (ad_faults d) then (Inl db_error, ad_tick d) else k (ad_tick d))"

definition create_audit :: "instant \<Rightarrow> string \<Rightarrow> string \<Rightarrow> bool \<Rightarrow> string option \<Rightarrow> audit_db \<Rightarrow> audit_row py \<times> audit_db" where
  "create_audit now event_type ip ok detail d =
     ad_stmt d (\<lambda>d1.
       let row = \<lparr>al_id = ad_next d1, al_event_type = event_type, al_ip = ip, al_ok = ok, al_detail = detail, al_created_at = now\<rparr>
       in ad_stmt (d1\<lparr>ad_rows := ad_rows d1 @ [row], ad_next := Suc (ad_next d1)\<rparr>) (\<lambda>d2. (Inr row, d2)))"

record audit_filter =
  af_event_type :: "string option"
  af_event_types :: "string list"
  af_ip :: "string option"
  af_ok :: "bool option"
  af_start :: "instant option"
  af_end :: "instant option"

text \<open>A list of event types restricts the query only if something is left of it without blank entries.\<close>

definition audit_matches :: "audit_filter \<Rightarrow> audit_row \<Rightarrow> bool" where
  "audit_matches f x \<longleftrightarrow>
     opt_filter (af_event_type f) (\<lambda>t. al_event_type x = t) \<and>
     (let normalized = filter (\<lambda>t. py_strip t \<noteq> []) (af_event_types f) in normalized \<noteq> [] \<longrightarrow> al_event_type x \<in> set normalized) \<and>
     opt_filter (af_ip f) (\<lambda>i. al_ip x = i) \<and>
     (case af_ok f of None \<Rightarrow> True | Some b \<Rightarrow> al_ok x = b) \<and>
     in_window (af_start f) (af_end f) (al_created_at x)"

definition list_audit :: "audit_filter \<Rightarrow> int \<Rightarrow> nat \<Rightarrow> audit_db \<Rightarrow> audit_row list py \<times> audit_db" where
  "list_audit f offset limit d =
     ad_stmt d (\<lambda>d1. (Inr (page offset limit (py_sorted_rev al_created_at (filter (audit_matches f) (ad_rows d1)))), d1))"

definition count_audit :: "audit_filter \<Rightarrow> audit_db \<Rightarrow> nat py \<times> audit_db" where
  "count_audit f d = ad_stmt d (\<lambda>d1. (Inr (length (filter (audit_matches f) (ad_rows d1))), d1))"

section \<open>The service\<close>

definition locked_events :: "string list" where
  "locked_events = [''otp_request_locked'', ''otp_request_rate_limited'', ''otp_request_denied_verify_locked'', ''otp_verify_locked'']"

definition unlocked_events :: "string list" where
  "unlocked_events = [''otp_request_unlocked'', ''otp_verify_unlocked'']"

definition log_event :: "instant \<Rightarrow> string \<Rightarrow> string \<Rightarrow> bool \<Rightarrow> string option \<Rightarrow> audit_db \<Rightarrow> bool \<times> audit_db" where
  "log_event now event_type ip ok detail d =
     (case create_audit now event_type ip ok detail d of (Inl _, d') \<Rightarrow> (False, d') | (Inr _, d') \<Rightarrow> (True, d'))"

record audit_listing =
  au_items :: "audit_row list"
  au_total :: nat

definition list_events :: "audit_filter \<Rightarrow> int \<Rightarrow> nat \<Rightarrow> audit_db \<Rightarrow> (string + audit_listing) \<times> audit_db" where
  "list_events f offset limit d =
     (case count_audit f d of
        (Inl x, d1) \<Rightarrow> (Inl (exn_str x), d1)
      | (Inr n_total, d1) \<Rightarrow>
          (case list_audit f offset limit d1 of
             (Inl x, d2) \<Rightarrow> (Inl (exn_str x), d2)
           | (Inr rows, d2) \<Rightarrow> (Inr \<lparr>au_items = rows, au_total = n_total\<rparr>, d2)))"

record audit_metrics =
  am_total :: nat
  am_successful :: nat
  am_failed :: nat
  am_locked :: nat
  am_unlocked :: nat
  am_failure_rate :: real

text \<open>The counts one after the other, in one window up to now; the first error ends the query.\<close>

fun audit_counts :: "audit_filter list \<Rightarrow> audit_db \<Rightarrow> nat list py \<times> audit_db" where
  "audit_counts [] d = (Inr [], d)"
| "audit_counts (f # fs) d =
     (case count_audit f d of
        (Inl x, d1) \<Rightarrow> (Inl x, d1)
      | (Inr n, d1) \<Rightarrow> (case audit_counts fs d1 of (Inl x, d2) \<Rightarrow> (Inl x, d2) | (Inr ns, d2) \<Rightarrow> (Inr (n # ns), d2)))"

definition metrics_filters :: "instant \<Rightarrow> int \<Rightarrow> string option \<Rightarrow> audit_filter list" where
  "metrics_filters now last_hours ip =
     (let safe_hours = max last_hours 1;
          base = \<lparr>af_event_type = None, af_event_types = [], af_ip = ip, af_ok = None,
                  af_start = Some (now - seconds (safe_hours * 3600)), af_end = Some now\<rparr>
      in [base, base\<lparr>af_ok := Some False\<rparr>, base\<lparr>af_event_types := locked_events\<rparr>,
          base\<lparr>af_event_types := unlocked_events\<rparr>, base\<lparr>af_ok := Some True\<rparr>])"

definition audit_metrics_of :: "instant \<Rightarrow> int \<Rightarrow> string option \<Rightarrow> audit_db \<Rightarrow> (string + audit_metrics) \<times> audit_db" where
  "audit_metrics_of now last_hours ip d =
     (case audit_counts (metrics_filters now last_hours ip) d of
           (Inr [n_total, failed, locked, unlocked, successful], d1) \<Rightarrow>
             (Inr \<lparr>am_total = n_total, am_successful = successful, am_failed = failed, am_locked = locked, am_unlocked = unlocked,
                   am_failure_rate = (if n_total > 0 then real failed / real n_total else 0)\<rparr>, d1)
         | (Inr _, d1) \<Rightarrow> (Inl [], d1)
         | (Inl x, d1) \<Rightarrow> (Inl (exn_str x), d1))"

section \<open>What the login reports\<close>

text \<open>The operations of the authentication service, and their events written to the log.\<close>

datatype auth_call =
    RequestOtp string string
  | VerifyOtp string string string
  | ValidateSession string string
  | RevokeSession string

fun auth_step :: "auth_params \<Rightarrow> instant \<Rightarrow> auth_call \<Rightarrow> auth \<Rightarrow> auth" where
  "auth_step ap now (RequestOtp cd ip) s = snd (request_otp ap now cd ip s)"
| "auth_step ap now (VerifyOtp token ip cd) s = snd (verify_otp ap now token ip cd s)"
| "auth_step ap now (ValidateSession sid ip) s = snd (validate_session now sid ip s)"
| "auth_step ap now (RevokeSession sid) s = revoke_session sid s"

fun log_all :: "(audit_event \<Rightarrow> string option) \<Rightarrow> instant \<Rightarrow> audit_event list \<Rightarrow> audit_db \<Rightarrow> audit_db" where
  "log_all detail now [] d = d"
| "log_all detail now (Audit ip ty ok # es) d = log_all detail now es (snd (log_event now ty ip ok (detail (Audit ip ty ok)) d))"

inductive audited :: "auth_params \<Rightarrow> auth \<Rightarrow> audit_db \<Rightarrow> bool" for ap where
  start: "audited ap auth_init \<lparr>ad_rows = [], ad_next = 1, ad_faults = plan\<rparr>"
| call: "audited ap s d \<Longrightarrow> s' = auth_step ap now c s \<Longrightarrow>
     audited ap s' (log_all detail now' (drop (length (au_audit s)) (au_audit s')) d)"

section \<open>Facts\<close>

lemma ad_tick_simps [simp]: "ad_rows (ad_tick d) = ad_rows d" "ad_next (ad_tick d) = ad_next d"
  by (simp_all add: ad_tick_def)

fun honest :: "audit_event \<Rightarrow> bool" where
  "honest (Audit ip ty ok) \<longleftrightarrow> (ty \<in> set locked_events \<longrightarrow> \<not> ok) \<and> (ty \<in> set unlocked_events \<longrightarrow> ok)"

definition honest_row :: "audit_row \<Rightarrow> bool" where
  "honest_row x \<longleftrightarrow> honest (Audit (al_ip x) (al_event_type x) (al_ok x))"

text \<open>An operation appends honest events only.\<close>

definition adds_honest :: "auth \<Rightarrow> auth \<Rightarrow> bool" where
  "adds_honest s s' \<longleftrightarrow> (\<exists>es. au_audit s' = au_audit s @ es \<and> (\<forall>e\<in>set es. honest e))"

lemma adds_honest_same: "au_audit s' = au_audit s \<Longrightarrow> adds_honest s s'"
  by (simp add: adds_honest_def)

lemma adds_honest_trans: "adds_honest s s' \<Longrightarrow> adds_honest s' s'' \<Longrightarrow> adds_honest s s''"
  unfolding adds_honest_def by (elim exE conjE) (metis UnE append.assoc set_append)

lemma adds_honest_audit: "honest (Audit ip ty ok) \<Longrightarrow> adds_honest s s' \<Longrightarrow> adds_honest s (audit ip ty ok s')"
  by (erule adds_honest_trans) (auto simp: adds_honest_def audit_def)

lemma audit_frames [simp]:
  "au_audit (put_rate ip r s) = au_audit s" "au_audit (put_verify ip v s) = au_audit s"
  "au_audit (alert_auth a s) = au_audit s" "au_audit (drop_otp ip s) = au_audit s"
  by (simp_all add: put_rate_def put_verify_def alert_auth_def drop_otp_def)

lemma adds_honest_frames [simp]:
  "adds_honest s (put_rate ip r t) = adds_honest s t" "adds_honest s (put_verify ip v t) = adds_honest s t"
  "adds_honest s (alert_auth a t) = adds_honest s t" "adds_honest s (drop_otp ip t) = adds_honest s t"
  "adds_honest s (t\<lparr>au_otp := x\<rparr>) = adds_honest s t" "adds_honest s (t\<lparr>au_session := y\<rparr>) = adds_honest s t"
  by (simp_all add: adds_honest_def)

lemmas honest_events = honest.simps locked_events_def unlocked_events_def

lemma unlock_honest: "adds_honest s t \<Longrightarrow> adds_honest s (snd (unlock_verify_if_expired ip now v t))"
  by (auto simp: unlock_verify_if_expired_def Let_def honest_events intro!: adds_honest_audit)

lemma request_otp_honest: "adds_honest s (snd (request_otp ap now cd ip s))"
proof -
  define st0 where "st0 = (case au_rate s ip of None \<Rightarrow> \<lparr>rt_window_start = now, rt_request_count = 0, rt_locked_until = None\<rparr> | Some r \<Rightarrow> r)"
  obtain st1 s2 where a: "(if lock_expired now (rt_locked_until st0)
      then (let st = \<lparr>rt_window_start = now, rt_request_count = 0, rt_locked_until = None\<rparr>
            in (st, audit ip ''otp_request_unlocked'' True (put_rate ip st (put_rate ip st0 s))))
      else (st0, put_rate ip st0 s)) = (st1, s2)" by (rule prod.exhaust)
  have h2: "adds_honest s s2"
    using a by (auto simp: Let_def honest_events adds_honest_same split: if_splits intro!: adds_honest_audit)
  obtain vlock s3 where b: "(case au_verify s2 ip of None \<Rightarrow> (None, s2)
      | Some v \<Rightarrow> (let (v', s') = unlock_verify_if_expired ip now v s2 in (vf_locked_until v', s'))) = (vlock, s3)" by (rule prod.exhaust)
  have h3: "adds_honest s s3"
    using b h2 unlock_honest [OF h2, of ip now] by (auto simp: split_beta split: option.splits)
  have "adds_honest s (snd (request_otp ap now cd ip s))"
    unfolding request_otp_def Let_def st0_def [symmetric] a [unfolded Let_def] prod.case b [unfolded Let_def]
    using h2 h3 by (auto simp: honest_events intro!: adds_honest_audit)
  then show ?thesis .
qed

lemma register_failure_honest: "adds_honest s t \<Longrightarrow> adds_honest s (snd (register_verify_failure ap ip now e t))"
  by (auto simp: register_verify_failure_def Let_def honest_events intro!: adds_honest_audit)

lemma verify_otp_honest: "adds_honest s (snd (verify_otp ap now token ip cd s))"
proof -
  define v0 where "v0 = (case au_verify s ip of None \<Rightarrow> \<lparr>vf_fail_count = 0, vf_locked_until = None\<rparr> | Some v \<Rightarrow> v)"
  obtain v1 s1 where a: "unlock_verify_if_expired ip now v0 (put_verify ip v0 s) = (v1, s1)" by (rule prod.exhaust)
  have h1: "adds_honest s s1"
    using unlock_honest [of s "put_verify ip v0 s" ip now v0] a by (simp add: adds_honest_same)
  show ?thesis
    unfolding verify_otp_def Let_def v0_def [symmetric] a prod.case
    using h1 by (auto simp: honest_events split_beta register_failure_honest split: option.splits intro!: adds_honest_audit)
qed

lemma auth_step_honest: "adds_honest s (auth_step ap now c s)"
proof (cases c)
  case (ValidateSession sid ip)
  then show ?thesis
    by (auto simp: validate_session_def honest_events adds_honest_same split: option.splits intro!: adds_honest_audit)
next
  case (RevokeSession sid)
  then show ?thesis
    by (auto simp: revoke_session_def honest_events adds_honest_same split: option.splits intro!: adds_honest_audit)
qed (simp_all add: request_otp_honest verify_otp_honest)

lemma log_event_honest:
  "honest (Audit ip ty ok) \<Longrightarrow> \<forall>x\<in>set (ad_rows d). honest_row x \<Longrightarrow> \<forall>x\<in>set (ad_rows (snd (log_event now ty ip ok dt d))). honest_row x"
  by (auto simp: log_event_def create_audit_def ad_stmt_def Let_def honest_row_def simp del: honest.simps)

lemma log_all_honest:
  "\<forall>e\<in>set es. honest e \<Longrightarrow> \<forall>x\<in>set (ad_rows d). honest_row x \<Longrightarrow> \<forall>x\<in>set (ad_rows (log_all detail now es d)). honest_row x"
proof (induction detail now es d rule: log_all.induct)
  case (2 detail now ip ty ok es d)
  then show ?case using log_event_honest [of ip ty ok d now "detail (Audit ip ty ok)"] by (simp del: honest.simps)
qed simp

lemma audited_honest: "audited ap s d \<Longrightarrow> \<forall>x\<in>set (ad_rows d). honest_row x"
proof (induction rule: audited.induct)
  case (call s d s' now c detail now')
  obtain es where "au_audit s' = au_audit s @ es" "\<forall>e\<in>set es. honest e"
    using auth_step_honest [of s ap now c] call(2) by (auto simp: adds_honest_def)
  then show ?case using call.IH by (intro log_all_honest) simp_all
qed simp

text \<open>The counts of an answered metrics query.\<close>

lemma count_audit_Inr: "count_audit f d = (Inr n, d') \<Longrightarrow> n = length (filter (audit_matches f) (ad_rows d)) \<and> ad_rows d' = ad_rows d"
  by (auto simp: count_audit_def ad_stmt_def split: if_splits)

lemma counts_Inr: "audit_counts fs d = (Inr ns, d') \<Longrightarrow> ns = map (\<lambda>f. length (filter (audit_matches f) (ad_rows d))) fs \<and> ad_rows d' = ad_rows d"
  by (induction fs d arbitrary: ns d' rule: audit_counts.induct) (auto split: sum.splits prod.splits dest!: count_audit_Inr)

lemma length_filter_mono: "(\<And>x. x \<in> set xs \<Longrightarrow> P x \<Longrightarrow> Q x) \<Longrightarrow> length (filter P xs) \<le> length (filter Q xs)"
  by (induction xs) (auto simp: le_SucI)

lemma length_filter_split: "length (filter (\<lambda>x. P x \<and> Q x) xs) + length (filter (\<lambda>x. P x \<and> \<not> Q x) xs) = length (filter P xs)"
  by (induction xs) auto

section \<open>Properties\<close>

text \<open>
  Whatever calls the login service has answered and whichever of its log entries the database
  lost, the counts of a metrics query fit together: successes and failures make up the total, what
  was counted as locked failed, what was counted as unlocked succeeded, and the failure rate is a
  fraction.
\<close>

theorem audit_metrics_add_up:
  assumes "audited ap s d" "audit_metrics_of now hours ip d = (Inr m, d')"
  shows "am_successful m + am_failed m = am_total m \<and> am_locked m \<le> am_failed m \<and> am_unlocked m \<le> am_successful m \<and>
    0 \<le> am_failure_rate m \<and> am_failure_rate m \<le> 1"
proof -
  let ?b = "\<lparr>af_event_type = None, af_event_types = [], af_ip = ip, af_ok = None,
      af_start = Some (now - seconds (max hours 1 * 3600)), af_end = Some now\<rparr>"
  let ?n = "\<lambda>f. length (filter (audit_matches f) (ad_rows d))"
  obtain r d1 where c: "audit_counts (metrics_filters now hours ip) d = (r, d1)" by (rule prod.exhaust)
  obtain ns where r: "r = Inr ns" using assms(2) c by (cases r) (auto simp: audit_metrics_of_def)
  have ns: "ns = map ?n [?b, ?b\<lparr>af_ok := Some False\<rparr>, ?b\<lparr>af_event_types := locked_events\<rparr>,
      ?b\<lparr>af_event_types := unlocked_events\<rparr>, ?b\<lparr>af_ok := Some True\<rparr>]"
    using counts_Inr [OF c [unfolded r]] by (simp only: metrics_filters_def Let_def)
  have m: "am_total m = ?n ?b" "am_failed m = ?n (?b\<lparr>af_ok := Some False\<rparr>)" "am_locked m = ?n (?b\<lparr>af_event_types := locked_events\<rparr>)"
    "am_unlocked m = ?n (?b\<lparr>af_event_types := unlocked_events\<rparr>)" "am_successful m = ?n (?b\<lparr>af_ok := Some True\<rparr>)"
    "am_failure_rate m = (if am_total m > 0 then real (am_failed m) / real (am_total m) else 0)"
    using assms(2) unfolding audit_metrics_of_def c r ns by auto
  have ts: "list_all (\<lambda>t. py_strip t \<noteq> []) locked_events" "list_all (\<lambda>t. py_strip t \<noteq> []) unlocked_events"
    "locked_events \<noteq> []" "unlocked_events \<noteq> []"
    by (simp_all add: locked_events_def unlocked_events_def py_strip_def py_isspace_def ch_code_def)
  have typed: "audit_matches ?b x \<and> al_event_type x \<in> set types"
    if "audit_matches (?b\<lparr>af_event_types := types\<rparr>) x" "list_all (\<lambda>t. py_strip t \<noteq> []) types" "types \<noteq> []" for types x
    using that by (auto simp: audit_matches_def Let_def list_all_iff)
  note types = typed [OF _ ts(1,3)] typed [OF _ ts(2,4)]
  have ok: "audit_matches (?b\<lparr>af_ok := Some b\<rparr>) x \<longleftrightarrow> audit_matches ?b x \<and> al_ok x = b" for b x
    by (auto simp: audit_matches_def)
  have split: "?n (?b\<lparr>af_ok := Some True\<rparr>) + ?n (?b\<lparr>af_ok := Some False\<rparr>) = ?n ?b"
    unfolding ok by (simp add: length_filter_split)
  have "?n (?b\<lparr>af_event_types := locked_events\<rparr>) \<le> ?n (?b\<lparr>af_ok := Some False\<rparr>)"
    "?n (?b\<lparr>af_event_types := unlocked_events\<rparr>) \<le> ?n (?b\<lparr>af_ok := Some True\<rparr>)"
    using audited_honest [OF assms(1)] types unfolding ok by (intro length_filter_mono; auto simp: honest_row_def)+
  then show ?thesis using m split by (auto simp: divide_le_eq)
qed

theorem audit_metrics_add_up_witness:
  "\<exists>s d m d'. audited default_params s d \<and> audit_metrics_of 100 24 None d = (Inr m, d') \<and> am_successful m + am_failed m = am_total m \<and> am_total m = 1"
proof -
  let ?d0 = "\<lparr>ad_rows = [], ad_next = 1, ad_faults = []\<rparr>"
  let ?s = "auth_step default_params 0 (ValidateSession ''x'' ''ip'') auth_init"
  let ?d = "log_all (\<lambda>_. None) 50 (drop (length (au_audit auth_init)) (au_audit ?s)) ?d0"
  have a: "audited default_params ?s ?d" by (rule audited.call [OF audited.start refl])
  have d: "?d = \<lparr>ad_rows = [\<lparr>al_id = 1, al_event_type = ''session_validate_not_found'', al_ip = ''ip'', al_ok = False, al_detail = None, al_created_at = 50\<rparr>],
      ad_next = 2, ad_faults = []\<rparr>"
    by (simp add: auth_init_def validate_session_def audit_def log_event_def create_audit_def ad_stmt_def ad_tick_def Let_def)
  obtain m d' where m: "audit_metrics_of 100 24 None ?d = (Inr m, d')" "am_total m = 1"
    unfolding d by (simp add: audit_metrics_of_def metrics_filters_def Let_def count_audit_def ad_stmt_def ad_tick_def audit_matches_def in_window_def
        opt_bound_def opt_filter_def)
  then show ?thesis using audit_metrics_add_up [OF a m(1)] a m by blast
qed

end
