(* ===== verification/Rate_Limited_Client.thy ===== *)
theory Rate_Limited_Client
  imports Py_Prelude
begin

text \<open>
  \<open>app/core/rate_limited_client.py\<close>: the one worker through which every request to the broker and
  to Telegram goes. Jobs wait in a priority queue, orders before everything else and otherwise
  in the order of submission; the worker keeps a distance between calls. The points at which the
  asyncio tasks are suspended make the steps: submitting, taking a job, waking from the sleep,
  the end of a call, the cancellation of a waiting caller, and the death of the worker task
  (a \<open>CancelledError\<close> is no \<open>Exception\<close> and is not caught). The readings of the monotonic clock
  never go back.
\<close>

section \<open>Jobs and their order\<close>

text \<open>
  The dataclass compares priority, sequence number and then the callback; sequence numbers are
  distinct, so the callback is never compared.
\<close>

datatype rank = Rank (rk_priority: nat) (rk_seq: nat)

instantiation rank :: linorder
begin

definition less_eq_rank :: "rank \<Rightarrow> rank \<Rightarrow> bool" where
  "less_eq_rank a b \<longleftrightarrow> rk_priority a < rk_priority b \<or> rk_priority a = rk_priority b \<and> rk_seq a \<le> rk_seq b"

definition less_rank :: "rank \<Rightarrow> rank \<Rightarrow> bool" where
  "less_rank a b \<longleftrightarrow> rk_priority a < rk_priority b \<or> rk_priority a = rk_priority b \<and> rk_seq a < rk_seq b"

instance
  by standard (auto simp: less_eq_rank_def less_rank_def rank.expand)

end

record 'f rate_job =
  jo_rank :: rank
  jo_fn :: 'f

abbreviation jo_seq :: "'f rate_job \<Rightarrow> nat" where
  "jo_seq j \<equiv> rk_seq (jo_rank j)"

text \<open>\<open>PriorityQueue.get\<close>: the least job and the queue without it.\<close>

definition least_job :: "'f rate_job list \<Rightarrow> 'f rate_job" where
  "least_job q = hd (sort_key jo_rank q)"

definition pop_job :: "'f rate_job list \<Rightarrow> 'f rate_job \<times> 'f rate_job list" where
  "pop_job q = (let j = least_job q in (j, filter (\<lambda>i. jo_rank i \<noteq> jo_rank j) q))"

section \<open>The client\<close>

datatype 'r future = Waiting | Resolved 'r | Rejected py_exn | Cancelled

datatype 'f worker = NoWorker | Idle | Sleeping "'f rate_job" real | Calling "'f rate_job" real

text \<open>The log of calls made is not state of the code: it is what the properties speak of.\<close>

record call =
  cl_rank :: rank
  cl_start :: real
  cl_end :: real
  cl_ok :: bool

record ('f, 'r) rate_client =
  rc_min_interval :: real
  rc_last_ts :: real
  rc_seq :: nat
  rc_queue :: "'f rate_job list"
  rc_futures :: "(nat \<times> 'r future) list"
  rc_worker :: "'f worker"
  rc_token :: "string option"
  rc_token_expires_at :: real
  rc_clock :: real
  rc_calls :: "call list"

definition rate_client_init :: "real \<Rightarrow> ('f, 'r) rate_client" where
  "rate_client_init min_interval =
     \<lparr>rc_min_interval = min_interval, rc_last_ts = 0, rc_seq = 0, rc_queue = [], rc_futures = [], rc_worker = NoWorker,
      rc_token = None, rc_token_expires_at = 0, rc_clock = 0, rc_calls = []\<rparr>"

text \<open>\<open>_ensure_worker\<close> and \<open>submit\<close> up to the wait for the future.\<close>

definition ensure_worker :: "('f, 'r) rate_client \<Rightarrow> ('f, 'r) rate_client" where
  "ensure_worker c = (if rc_worker c = NoWorker then c\<lparr>rc_worker := Idle\<rparr> else c)"

definition submit :: "'f \<Rightarrow> bool \<Rightarrow> ('f, 'r) rate_client \<Rightarrow> ('f, 'r) rate_client" where
  "submit fn is_order c =
     (let seq = Suc (rc_seq c)
      in ensure_worker (c\<lparr>rc_seq := seq,
           rc_futures := rc_futures c @ [(seq, Waiting)],
           rc_queue := rc_queue c @ [\<lparr>jo_rank = Rank (if is_order then 0 else 1) seq, jo_fn = fn\<rparr>]\<rparr>))"

text \<open>\<open>set_result\<close> and \<open>set_exception\<close> of a future that is not done, and the cancellation of its waiter.\<close>

definition settle :: "nat \<Rightarrow> 'r future \<Rightarrow> ('f, 'r) rate_client \<Rightarrow> ('f, 'r) rate_client" where
  "settle seq outcome c =
     c\<lparr>rc_futures := map (\<lambda>(s, f). if s = seq \<and> f = Waiting then (s, outcome) else (s, f)) (rc_futures c)\<rparr>"

text \<open>The worker: taking a job, the end of its sleep, the end of the call with or without an exception.\<close>

definition take_job :: "real \<Rightarrow> ('f, 'r) rate_client \<Rightarrow> ('f, 'r) rate_client" where
  "take_job now c =
     (let (j, q) = pop_job (rc_queue c); elapsed = now - rc_last_ts c
      in c\<lparr>rc_queue := q,
           rc_worker := (if elapsed < rc_min_interval c then Sleeping j (now + (rc_min_interval c - elapsed)) else Calling j now)\<rparr>)"

definition call_succeeds :: "real \<Rightarrow> 'r \<Rightarrow> ('f, 'r) rate_client \<Rightarrow> ('f, 'r) rate_client" where
  "call_succeeds now result c =
     (case rc_worker c of
        Calling j t \<Rightarrow> settle (jo_seq j) (Resolved result)
          (c\<lparr>rc_last_ts := now, rc_worker := Idle,
             rc_calls := rc_calls c @ [\<lparr>cl_rank = jo_rank j, cl_start = t, cl_end = now, cl_ok = True\<rparr>]\<rparr>)
      | _ \<Rightarrow> c)"

definition call_raises :: "real \<Rightarrow> py_exn \<Rightarrow> ('f, 'r) rate_client \<Rightarrow> ('f, 'r) rate_client" where
  "call_raises now x c =
     (case rc_worker c of
        Calling j t \<Rightarrow> settle (jo_seq j) (Rejected x)
          (c\<lparr>rc_worker := Idle,
             rc_calls := rc_calls c @ [\<lparr>cl_rank = jo_rank j, cl_start = t, cl_end = now, cl_ok = False\<rparr>]\<rparr>)
      | _ \<Rightarrow> c)"

definition set_token :: "real \<Rightarrow> string \<Rightarrow> real \<Rightarrow> ('f, 'r) rate_client \<Rightarrow> ('f, 'r) rate_client" where
  "set_token now token expires_in c = c\<lparr>rc_token := Some token, rc_token_expires_at := now + max expires_in 0\<rparr>"

definition get_token :: "('f, 'r) rate_client \<Rightarrow> string option" where
  "get_token c = rc_token c"

definition rate_token_expiring :: "real \<Rightarrow> real \<Rightarrow> ('f, 'r) rate_client \<Rightarrow> bool" where
  "rate_token_expiring buffer now c = (\<not> truthy_str (rc_token c) \<or> rc_token_expires_at c - now \<le> buffer)"

section \<open>Runs\<close>

inductive rc_step :: "('f, 'r) rate_client \<Rightarrow> ('f, 'r) rate_client \<Rightarrow> bool" where
  submits: "rc_step c (submit fn is_order c)"
| takes: "rc_worker c = Idle \<Longrightarrow> rc_queue c \<noteq> [] \<Longrightarrow> rc_step c (take_job (rc_clock c) c)"
| wakes: "rc_worker c = Sleeping j until \<Longrightarrow> until \<le> rc_clock c \<Longrightarrow> rc_step c (c\<lparr>rc_worker := Calling j (rc_clock c)\<rparr>)"
| succeeds: "rc_worker c = Calling j t \<Longrightarrow> rc_step c (call_succeeds (rc_clock c) result c)"
| raises: "rc_worker c = Calling j t \<Longrightarrow> rc_step c (call_raises (rc_clock c) x c)"
| cancels: "rc_step c (settle seq Cancelled c)"
| dies: "rc_worker c \<noteq> NoWorker \<Longrightarrow> rc_step c (c\<lparr>rc_worker := NoWorker\<rparr>)"
| tokens: "rc_step c (set_token (rc_clock c) token n c)"
| passes: "rc_clock c \<le> now \<Longrightarrow> rc_step c (c\<lparr>rc_clock := now\<rparr>)"

inductive rc_reachable :: "real \<Rightarrow> ('f, 'r) rate_client \<Rightarrow> bool" for min_interval where
  start: "rc_reachable min_interval (rate_client_init min_interval)"
| step: "rc_reachable min_interval c \<Longrightarrow> rc_step c c' \<Longrightarrow> rc_reachable min_interval c'"

inductive_cases rc_stepE: "rc_step c c'"

section \<open>The least job\<close>

lemma least_job_in: "q \<noteq> [] \<Longrightarrow> least_job q \<in> set q"
  unfolding least_job_def by (metis hd_in_set set_sort length_0_conv length_sort)

lemma least_job_le: "j \<in> set q \<Longrightarrow> jo_rank (least_job q) \<le> jo_rank j"
proof -
  assume j: "j \<in> set q"
  then have ne: "sort_key jo_rank q \<noteq> []" by (metis set_sort list.set(1) empty_iff)
  have "sorted (map jo_rank (sort_key jo_rank q))" by simp
  then show ?thesis using j ne by (cases "sort_key jo_rank q") (auto simp: least_job_def simp flip: set_sort [of jo_rank q])
qed

lemma set_pop_job: "pop_job q = (j, q') \<Longrightarrow> set q' \<subseteq> set q"
  by (auto simp: pop_job_def Let_def)

text \<open>Ranks of one class, in order of their numbers: taking the least job takes the first of its class.\<close>

definition in_class :: "nat \<Rightarrow> rank list \<Rightarrow> nat list" where
  "in_class p rs = map rk_seq (filter (\<lambda>r. rk_priority r = p) rs)"

lemma in_class_append [simp]: "in_class p (rs @ ss) = in_class p rs @ in_class p ss"
  and in_class_Cons: "in_class p (r # rs) = (if rk_priority r = p then rk_seq r # in_class p rs else in_class p rs)"
  and in_class_Nil [simp]: "in_class p [] = []"
  by (simp_all add: in_class_def)

lemma set_in_class: "set (in_class p rs) \<subseteq> rk_seq ` set rs"
  by (auto simp: in_class_def)

lemma class_without_head:
  assumes "sorted_wrt (<) (in_class p rs)" "r \<in> set rs" "rk_priority r = p"
    and "\<And>s. s \<in> set rs \<Longrightarrow> rk_priority s = p \<Longrightarrow> rk_seq r \<le> rk_seq s"
  shows "in_class p rs = rk_seq r # in_class p (filter (\<lambda>s. s \<noteq> r) rs)"
  using assms
proof (induction rs)
  case (Cons s rs)
  show ?case
  proof (cases "s = r")
    case True
    have "r \<notin> set rs" using Cons.prems(1,3) True set_in_class [of p rs] by (auto simp: in_class_Cons in_class_def)
    then have "filter (\<lambda>s. s \<noteq> r) rs = rs" by (auto intro: filter_True)
    then show ?thesis using True Cons.prems(3) by (simp add: in_class_Cons)
  next
    case False
    then have r: "r \<in> set rs" using Cons.prems(2) by auto
    have np: "rk_priority s \<noteq> p"
    proof
      assume "rk_priority s = p"
      then have "rk_seq s < rk_seq r" using Cons.prems(1,3) r by (auto simp: in_class_Cons in_class_def)
      then show False using Cons.prems(4) [of s] \<open>rk_priority s = p\<close> by simp
    qed
    then show ?thesis using Cons False r by (auto simp: in_class_Cons)
  qed
qed simp

lemma class_without_other: "rk_priority r \<noteq> p \<Longrightarrow> in_class p (filter (\<lambda>s. s \<noteq> r) rs) = in_class p rs"
  by (induction rs) (auto simp: in_class_Cons)

lemma pop_job_class:
  assumes "q \<noteq> []" "pop_job q = (j, q')" "\<And>p. sorted_wrt (<) (in_class p (map jo_rank q))"
  shows "in_class p (map jo_rank q) = in_class p (jo_rank j # map jo_rank q')"
proof -
  have j: "j = least_job q" and q': "map jo_rank q' = filter (\<lambda>s. s \<noteq> jo_rank j) (map jo_rank q)"
    using assms(2) by (auto simp: pop_job_def Let_def filter_map comp_def)
  have le: "rk_seq (jo_rank j) \<le> rk_seq s" if "s \<in> set (map jo_rank q)" "rk_priority s = rk_priority (jo_rank j)" for s
    using least_job_le that unfolding j by (fastforce simp: less_eq_rank_def)
  show ?thesis
    using class_without_head [OF assms(3) _ refl le] class_without_other [of "jo_rank j" p "map jo_rank q"]
      least_job_in [OF assms(1)] unfolding q' by (cases "rk_priority (jo_rank j) = p") (auto simp: in_class_Cons j)
qed

section \<open>The invariant\<close>

text \<open>The jobs taken so far: those of the calls made and the one in hand.\<close>

definition in_hand :: "('f, 'r) rate_client \<Rightarrow> rank list" where
  "in_hand c = (case rc_worker c of Sleeping j _ \<Rightarrow> [jo_rank j] | Calling j _ \<Rightarrow> [jo_rank j] | _ \<Rightarrow> [])"

definition all_ranks :: "('f, 'r) rate_client \<Rightarrow> rank list" where
  "all_ranks c = map cl_rank (rc_calls c) @ in_hand c @ map jo_rank (rc_queue c)"

definition spaced :: "real \<Rightarrow> call list \<Rightarrow> bool" where
  "spaced d = sorted_wrt (\<lambda>a b. cl_end a \<le> cl_start b \<and> (cl_ok a \<longrightarrow> cl_end a + d \<le> cl_start b))"

definition may_start :: "real \<Rightarrow> ('f, 'r) rate_client \<Rightarrow> bool" where
  "may_start t c \<longleftrightarrow> rc_last_ts c + rc_min_interval c \<le> t \<and> (\<forall>a\<in>set (rc_calls c). cl_end a \<le> t)"

definition rc_inv :: "real \<Rightarrow> ('f, 'r) rate_client \<Rightarrow> bool" where
  "rc_inv d c \<longleftrightarrow> rc_min_interval c = d \<and>
     (\<forall>r\<in>set (all_ranks c). rk_seq r \<le> rc_seq c) \<and> (\<forall>p. sorted_wrt (<) (in_class p (all_ranks c))) \<and>
     distinct (map rk_seq (all_ranks c)) \<and> map fst (rc_futures c) = [1..<Suc (rc_seq c)] \<and>
     spaced d (rc_calls c) \<and> (\<forall>a\<in>set (rc_calls c). cl_end a \<le> rc_clock c \<and> (cl_ok a \<longrightarrow> cl_end a \<le> rc_last_ts c)) \<and>
     (case rc_worker c of Sleeping _ u \<Rightarrow> rc_last_ts c + d \<le> u | Calling _ t \<Rightarrow> may_start t c \<and> t \<le> rc_clock c | _ \<Rightarrow> True)"

lemma rc_invD:
  assumes "rc_inv d c"
  shows "rc_min_interval c = d" "\<And>r. r \<in> set (all_ranks c) \<Longrightarrow> rk_seq r \<le> rc_seq c"
    "\<And>p. sorted_wrt (<) (in_class p (all_ranks c))" "distinct (map rk_seq (all_ranks c))"
    "map fst (rc_futures c) = [1..<Suc (rc_seq c)]" "spaced d (rc_calls c)"
    "\<And>a. a \<in> set (rc_calls c) \<Longrightarrow> cl_end a \<le> rc_clock c" "\<And>a. a \<in> set (rc_calls c) \<Longrightarrow> cl_ok a \<Longrightarrow> cl_end a \<le> rc_last_ts c"
    "\<And>j u. rc_worker c = Sleeping j u \<Longrightarrow> rc_last_ts c + d \<le> u"
    "\<And>j t. rc_worker c = Calling j t \<Longrightarrow> may_start t c \<and> t \<le> rc_clock c"
  using assms unfolding rc_inv_def by auto

lemma settle_frame [simp]:
  "rc_min_interval (settle s f c) = rc_min_interval c" "rc_last_ts (settle s f c) = rc_last_ts c"
  "rc_seq (settle s f c) = rc_seq c" "rc_queue (settle s f c) = rc_queue c" "rc_worker (settle s f c) = rc_worker c"
  "rc_clock (settle s f c) = rc_clock c" "rc_calls (settle s f c) = rc_calls c"
  "map fst (rc_futures (settle s f c)) = map fst (rc_futures c)"
  by (auto simp: settle_def comp_def intro!: map_cong)

lemma all_ranks_settle [simp]: "all_ranks (settle s f c) = all_ranks c"
  by (simp add: all_ranks_def in_hand_def)

lemma rc_inv_settle: "rc_inv d c \<Longrightarrow> rc_inv d (settle s f c)"
  by (cases "rc_worker c") (simp_all add: rc_inv_def may_start_def)

lemma rc_inv_init: "rc_inv d (rate_client_init d)"
  by (simp add: rc_inv_def rate_client_init_def all_ranks_def in_hand_def spaced_def)


lemma rc_inv_submit:
  assumes "rc_inv d c"
  shows "rc_inv d (submit fn is_order c)"
proof -
  note D = rc_invD [OF assms]
  let ?r = "Rank (if is_order then 0 else 1) (Suc (rc_seq c))"
  have all: "all_ranks (submit fn is_order c) = all_ranks c @ [?r]"
    by (cases "rc_worker c") (auto simp: submit_def ensure_worker_def all_ranks_def in_hand_def Let_def)
  have "sorted_wrt (<) (in_class p (all_ranks c @ [?r]))" for p
  proof -
    have "x < Suc (rc_seq c)" if "x \<in> set (in_class p (all_ranks c))" for x
      using that D(2) set_in_class [of p "all_ranks c"] by (auto simp: less_Suc_eq_le)
    then show ?thesis using D(3) [of p] by (simp add: sorted_wrt_append in_class_Cons)
  qed
  moreover have "distinct (map rk_seq (all_ranks c @ [?r]))" using D(2,4) by fastforce
  moreover have "\<forall>r\<in>set (all_ranks c @ [?r]). rk_seq r \<le> Suc (rc_seq c)" using D(2) by (auto intro: le_SucI)
  ultimately show ?thesis
    using assms unfolding rc_inv_def all
    by (cases "rc_worker c") (auto simp: submit_def ensure_worker_def Let_def may_start_def)
qed

lemma rc_inv_take:
  assumes "rc_inv d c" "rc_worker c = Idle" "rc_queue c \<noteq> []"
  shows "rc_inv d (take_job (rc_clock c) c)"
proof -
  note D = rc_invD [OF assms(1)]
  obtain j q where pop: "pop_job (rc_queue c) = (j, q)" by (rule prod.exhaust)
  let ?c = "take_job (rc_clock c) c"
  have c: "rc_queue ?c = q" "rc_calls ?c = rc_calls c" "rc_last_ts ?c = rc_last_ts c" "rc_seq ?c = rc_seq c"
    "rc_futures ?c = rc_futures c" "rc_min_interval ?c = rc_min_interval c" "rc_clock ?c = rc_clock c" "in_hand ?c = [jo_rank j]"
    by (auto simp: take_job_def pop Let_def in_hand_def)
  have w: "rc_worker ?c = (if rc_clock c - rc_last_ts c < d then Sleeping j (rc_last_ts c + d) else Calling j (rc_clock c))"
    using D(1) by (simp add: take_job_def pop Let_def)
  have old: "all_ranks c = map cl_rank (rc_calls c) @ map jo_rank (rc_queue c)" using assms(2) by (simp add: all_ranks_def in_hand_def)
  have new: "all_ranks ?c = map cl_rank (rc_calls c) @ jo_rank j # map jo_rank q" by (simp add: all_ranks_def c)
  have srt: "sorted_wrt (<) (in_class p (map jo_rank (rc_queue c)))" for p
    using D(3) [of p] by (simp add: old sorted_wrt_append)
  have cls: "in_class p (all_ranks ?c) = in_class p (all_ranks c)" for p
    using pop_job_class [OF assms(3) pop srt, of p] by (simp add: new old)
  have j: "j = least_job (rc_queue c)" "j \<in> set (rc_queue c)" and q: "q = filter (\<lambda>i. jo_rank i \<noteq> jo_rank j) (rc_queue c)"
    using pop least_job_in [OF assms(3)] by (auto simp: pop_job_def Let_def)
  have sub: "set (all_ranks ?c) \<subseteq> set (all_ranks c)" using j(2) q by (auto simp: new old)
  have "distinct (map rk_seq (map jo_rank q))" "jo_seq j \<notin> set (map jo_seq q)"
    "set (map rk_seq (map cl_rank (rc_calls c))) \<inter> set (map jo_seq (rc_queue c)) = {}"
    using D(4) j(2) unfolding old q by (auto simp: distinct_map_filter inj_on_def distinct_map)
  then have "distinct (map rk_seq (all_ranks ?c))"
    using D(4) j(2) unfolding new old q by auto
  then show ?thesis
    using D sub cls unfolding rc_inv_def c w by (auto simp: may_start_def c)
qed

lemma rc_inv_wake:
  assumes "rc_inv d c" "rc_worker c = Sleeping j until" "until \<le> rc_clock c"
  shows "rc_inv d (c\<lparr>rc_worker := Calling j (rc_clock c)\<rparr>)"
  using assms by (auto simp: rc_inv_def all_ranks_def in_hand_def may_start_def)

lemma rc_inv_call:
  assumes "rc_inv d c" "rc_worker c = Calling j t" "ts = (if ok then rc_clock c else rc_last_ts c)" "0 \<le> d"
  shows "rc_inv d (c\<lparr>rc_last_ts := ts, rc_worker := Idle,
           rc_calls := rc_calls c @ [\<lparr>cl_rank = jo_rank j, cl_start = t, cl_end = rc_clock c, cl_ok = ok\<rparr>]\<rparr>)" (is "rc_inv d ?c")
proof -
  note D = rc_invD [OF assms(1)]
  have all: "all_ranks ?c = all_ranks c" using assms(2) by (simp add: all_ranks_def in_hand_def)
  have s: "may_start t c" "t \<le> rc_clock c" using D(10) [OF assms(2)] by auto
  have "spaced d (rc_calls ?c)"
    using D(6,8) s(1) D(1) by (fastforce simp: spaced_def sorted_wrt_append may_start_def)
  moreover have "rc_last_ts c \<le> rc_clock c" using s D(1) assms(4) by (auto simp: may_start_def)
  ultimately show ?thesis
    using D(1-5,7,8) unfolding rc_inv_def all by (auto simp: assms(3) intro: order_trans)
qed

lemma rc_inv_tokens: "rc_inv d c \<Longrightarrow> rc_inv d (set_token now token n c)"
  by (cases "rc_worker c") (simp_all add: rc_inv_def set_token_def all_ranks_def in_hand_def may_start_def)

lemma rc_inv_step: "rc_step c c' \<Longrightarrow> rc_inv d c \<Longrightarrow> 0 \<le> d \<Longrightarrow> rc_inv d c'"
proof (induction rule: rc_step.induct)
  case (succeeds c j t result)
  then show ?case using rc_inv_call [of d c j t "rc_clock c" True] by (simp add: call_succeeds_def rc_inv_settle)
next
  case (raises c j t x)
  have "c\<lparr>rc_last_ts := rc_last_ts c, rc_worker := Idle, rc_calls := a\<rparr> = c\<lparr>rc_worker := Idle, rc_calls := a\<rparr>" for a by simp
  then show ?case using raises rc_inv_call [of d c j t "rc_last_ts c" False] by (simp add: call_raises_def rc_inv_settle)
next
  case (dies c)
  have "\<exists>xs. all_ranks c = map cl_rank (rc_calls c) @ xs @ map jo_rank (rc_queue c)" by (auto simp: all_ranks_def)
  then show ?case using dies by (auto simp: rc_inv_def all_ranks_def in_hand_def sorted_wrt_append)
next
  case (passes c now)
  then show ?case by (cases "rc_worker c") (force simp: rc_inv_def all_ranks_def in_hand_def may_start_def)+
qed (auto simp: rc_inv_submit rc_inv_take rc_inv_wake rc_inv_settle rc_inv_tokens)

lemma rc_reachable_inv: "rc_reachable d c \<Longrightarrow> 0 \<le> d \<Longrightarrow> rc_inv d c"
  by (induction rule: rc_reachable.induct) (auto simp: rc_inv_init rc_inv_step)


section \<open>Serving the queue\<close>

text \<open>
  The worker left to itself: it takes a job, sleeps as long as it has to, and calls the function,
  which takes some time and returns or raises (\<open>h\<close> says which).
\<close>

definition begin_call :: "('f, 'r) rate_client \<Rightarrow> ('f, 'r) rate_client" where
  "begin_call c =
     (case rc_worker c of
        Sleeping j until \<Rightarrow> let c1 = c\<lparr>rc_clock := max (rc_clock c) until\<rparr> in c1\<lparr>rc_worker := Calling j (rc_clock c1)\<rparr>
      | _ \<Rightarrow> c)"

definition end_call :: "('f \<Rightarrow> real \<times> 'r py) \<Rightarrow> ('f, 'r) rate_client \<Rightarrow> ('f, 'r) rate_client" where
  "end_call h c =
     (case rc_worker c of
        Calling j t \<Rightarrow>
          (let now = rc_clock c + max (fst (h (jo_fn j))) 0; c1 = c\<lparr>rc_clock := now\<rparr>
           in case snd (h (jo_fn j)) of Inr v \<Rightarrow> call_succeeds now v c1 | Inl x \<Rightarrow> call_raises now x c1)
      | _ \<Rightarrow> c)"

definition serve_one :: "('f \<Rightarrow> real \<times> 'r py) \<Rightarrow> ('f, 'r) rate_client \<Rightarrow> ('f, 'r) rate_client" where
  "serve_one h c = end_call h (begin_call (take_job (rc_clock c) c))"

primrec serve_all :: "nat \<Rightarrow> ('f \<Rightarrow> real \<times> 'r py) \<Rightarrow> ('f, 'r) rate_client \<Rightarrow> ('f, 'r) rate_client" where
  "serve_all 0 h c = c"
| "serve_all (Suc n) h c = serve_all n h (serve_one h c)"

lemma reach_time: "rc_reachable d c \<Longrightarrow> rc_clock c \<le> t \<Longrightarrow> rc_reachable d (c\<lparr>rc_clock := t\<rparr>)"
  by (blast intro: rc_reachable.step rc_step.passes)

lemma reach_submit: "rc_reachable d c \<Longrightarrow> rc_reachable d (submit fn is_order c)"
  by (blast intro: rc_reachable.step rc_step.submits)

lemma begin_call_reach:
  assumes "rc_reachable d c"
  shows "rc_reachable d (begin_call c)"
proof (cases "rc_worker c")
  case (Sleeping j until)
  let ?c = "c\<lparr>rc_clock := max (rc_clock c) until\<rparr>"
  have "rc_reachable d ?c" using assms by (rule reach_time) simp
  moreover have "rc_step ?c (?c\<lparr>rc_worker := Calling j (rc_clock ?c)\<rparr>)"
    using Sleeping by (intro rc_step.wakes [of _ j until]) simp_all
  ultimately show ?thesis using Sleeping by (simp add: begin_call_def Let_def rc_reachable.step)
qed (use assms in \<open>simp_all add: begin_call_def\<close>)

lemma end_call_reach:
  assumes "rc_reachable d c"
  shows "rc_reachable d (end_call h c)"
proof (cases "rc_worker c")
  case (Calling j t)
  let ?c = "c\<lparr>rc_clock := rc_clock c + max (fst (h (jo_fn j))) 0\<rparr>"
  have "rc_reachable d ?c" using assms by (rule reach_time) simp
  moreover have "rc_worker ?c = Calling j t" using Calling by simp
  then have "rc_step ?c (call_succeeds (rc_clock ?c) v ?c)" "rc_step ?c (call_raises (rc_clock ?c) x ?c)" for v x
    by (rule rc_step.succeeds, rule rc_step.raises)
  ultimately show ?thesis
    using Calling by (auto simp: end_call_def Let_def split: sum.splits intro: rc_reachable.step)
qed (use assms in \<open>simp_all add: end_call_def\<close>)

lemma serve_one_seq: "rc_seq (serve_one h c) = rc_seq c"
proof -
  have b: "rc_seq (begin_call x) = rc_seq x" for x :: "('a, 'b) rate_client"
    by (cases "rc_worker x") (simp_all add: begin_call_def Let_def)
  have e: "rc_seq (end_call h x) = rc_seq x" for x
    by (cases "rc_worker x") (simp_all add: end_call_def call_succeeds_def call_raises_def Let_def split: sum.splits)
  show ?thesis by (simp add: serve_one_def b e take_job_def Let_def split_beta)
qed

lemma serve_seq: "rc_seq (serve_all n h c) = rc_seq c"
  by (induction n arbitrary: c) (simp_all add: serve_one_seq)

lemma serve_one_reach: "rc_reachable d c \<Longrightarrow> rc_worker c = Idle \<Longrightarrow> rc_queue c \<noteq> [] \<Longrightarrow> rc_reachable d (serve_one h c)"
  unfolding serve_one_def by (intro end_call_reach begin_call_reach) (blast intro: rc_reachable.step rc_step.takes)

text \<open>One round: the least job leaves the queue, is called once and its future is settled.\<close>

definition answered :: "('f, 'r) rate_client \<Rightarrow> nat \<Rightarrow> bool" where
  "answered c s \<longleftrightarrow> (s, Waiting) \<notin> set (rc_futures c)"

lemma settle_answers:
  "answered (settle s f c) s' \<longleftrightarrow> answered c s' \<or> (s' = s \<and> f \<noteq> Waiting)"
  unfolding answered_def settle_def by (force simp: image_iff split: if_splits)

lemma serve_one_effect:
  assumes "rc_worker c = Idle" "pop_job (rc_queue c) = (j, q)"
  shows "rc_worker (serve_one h c) = Idle \<and> rc_queue (serve_one h c) = q \<and>
    map cl_rank (rc_calls (serve_one h c)) = map cl_rank (rc_calls c) @ [jo_rank j] \<and>
    (\<forall>s. answered (serve_one h c) s \<longleftrightarrow> answered c s \<or> s = jo_seq j)"
proof -
  obtain t c1 where b: "begin_call (take_job (rc_clock c) c) = c1" "rc_worker c1 = Calling j t" "rc_queue c1 = q"
      "rc_calls c1 = rc_calls c" "rc_futures c1 = rc_futures c"
  proof (cases "rc_clock c - rc_last_ts c < rc_min_interval c")
    case True
    then show thesis using that [of _ "max (rc_clock c) (rc_last_ts c + rc_min_interval c)"] assms
      by (simp add: begin_call_def take_job_def Let_def)
  next
    case False
    then show thesis using that [of _ "rc_clock c"] assms by (simp add: begin_call_def take_job_def)
  qed
  let ?c2 = "c1\<lparr>rc_clock := rc_clock c1 + max (fst (h (jo_fn j))) 0\<rparr>"
  have a: "answered ?c2 s = answered c s" for s using b by (simp add: answered_def)
  obtain f ok ts where e: "f \<noteq> Waiting"
      "end_call h c1 = settle (jo_seq j) f (?c2\<lparr>rc_last_ts := ts, rc_worker := Idle,
         rc_calls := rc_calls c @ [\<lparr>cl_rank = jo_rank j, cl_start = t, cl_end = rc_clock ?c2, cl_ok = ok\<rparr>]\<rparr>)"
  proof (cases "snd (h (jo_fn j))")
    case (Inl x)
    then show thesis
      using that [of "Rejected x" False "rc_last_ts c1"] b by (simp add: end_call_def call_raises_def Let_def)
  next
    case (Inr v)
    then show thesis
      using that [of "Resolved v" True "rc_clock ?c2"] b by (simp add: end_call_def call_succeeds_def Let_def)
  qed
  have "answered (?c2\<lparr>rc_last_ts := x, rc_worker := Idle, rc_calls := y\<rparr>) s = answered c s" for s x y
    using a by (simp add: answered_def)
  then show ?thesis unfolding serve_one_def b(1) e(2) using b(3) e(1) by (simp add: settle_answers)
qed

lemma sort_pop:
  assumes "q \<noteq> []" "pop_job q = (j, q')" "distinct (map jo_rank q)"
  shows "sort (map jo_rank q) = jo_rank j # sort (map jo_rank q')" "mset q = add_mset j (mset q')" "length q = Suc (length q')"
    "distinct (map jo_rank q')"
proof -
  have j: "j = least_job q" "j \<in> set q" and q': "q' = filter (\<lambda>i. jo_rank i \<noteq> jo_rank j) q"
    using assms(2) least_job_in [OF assms(1)] by (auto simp: pop_job_def Let_def)
  have "\<forall>i\<in>set q. jo_rank i = jo_rank j \<longrightarrow> i = j" using assms(3) j(2) by (auto simp: distinct_map inj_on_def)
  then have "filter (\<lambda>i. jo_rank i = jo_rank j) q = filter (\<lambda>i. i = j) q" using j(2) by (auto intro!: filter_cong)
  moreover have "distinct q" using assms(3) by (simp add: distinct_map)
  then have "mset (filter (\<lambda>i. i = j) q) = {#j#}" using j(2) by (simp add: filter_eq_replicate_mset distinct_count_atmost_1)
  moreover have "mset q = mset (filter (\<lambda>i. jo_rank i = jo_rank j) q) + mset q'"
    unfolding q' mset_filter by (rule multiset_partition)
  ultimately show m: "mset q = add_mset j (mset q')" by (simp only: add_mset_add_single [of j "mset q'"] union_commute [of "{#j#}"])
  then show "length q = Suc (length q')" by (metis size_mset size_add_mset)
  show "distinct (map jo_rank q')" using assms(3) unfolding q' by (auto simp: distinct_map_filter)
  have "mset (map jo_rank q) = mset (jo_rank j # sort (map jo_rank q'))" using m by simp
  moreover have "sorted (jo_rank j # sort (map jo_rank q'))" using least_job_le j q' by auto
  ultimately show "sort (map jo_rank q) = jo_rank j # sort (map jo_rank q')" by (metis properties_for_sort)
qed

lemma serve_effect:
  assumes "rc_worker c = Idle" "distinct (map jo_rank (rc_queue c))" "rc_reachable d c"
  shows "rc_queue (serve_all (length (rc_queue c)) h c) = [] \<and> rc_worker (serve_all (length (rc_queue c)) h c) = Idle \<and>
    map cl_rank (rc_calls (serve_all (length (rc_queue c)) h c)) = map cl_rank (rc_calls c) @ sort (map jo_rank (rc_queue c)) \<and>
    (\<forall>s. answered (serve_all (length (rc_queue c)) h c) s \<longleftrightarrow> answered c s \<or> s \<in> jo_seq ` set (rc_queue c)) \<and>
    rc_reachable d (serve_all (length (rc_queue c)) h c)"
  using assms
proof (induction "length (rc_queue c)" arbitrary: c)
  case 0
  then show ?case by simp
next
  case (Suc n)
  obtain j q where pop: "pop_job (rc_queue c) = (j, q)" by (rule prod.exhaust)
  have ne: "rc_queue c \<noteq> []" using Suc.hyps(2) by auto
  note srt = sort_pop [OF ne pop Suc.prems(2)]
  note eff = serve_one_effect [OF Suc.prems(1) pop, of h]
  have n: "n = length (rc_queue (serve_one h c))" using eff srt(3) Suc.hyps(2) by simp
  have "set (rc_queue c) = insert j (set q)" using arg_cong [OF srt(2), of set_mset] by simp
  moreover have "rc_reachable d (serve_one h c)" by (rule serve_one_reach [OF Suc.prems(3,1) ne])
  ultimately show ?case
    using Suc.hyps(1) [OF n] eff srt Suc.hyps(2) n by (auto simp flip: Suc.hyps(2))
qed


text \<open>Any two calls: the earlier one is over, for the interval if it succeeded, and was submitted earlier if of the same class.\<close>

lemma calls_spaced:
  assumes "rc_inv d c" "j < length (rc_calls c)" "i < j"
  shows "cl_end (rc_calls c ! i) \<le> cl_start (rc_calls c ! j) \<and>
    (cl_ok (rc_calls c ! i) \<longrightarrow> cl_end (rc_calls c ! i) + d \<le> cl_start (rc_calls c ! j)) \<and>
    cl_rank (rc_calls c ! i) \<noteq> cl_rank (rc_calls c ! j) \<and>
    (rk_priority (cl_rank (rc_calls c ! i)) = rk_priority (cl_rank (rc_calls c ! j)) \<longrightarrow>
       rk_seq (cl_rank (rc_calls c ! i)) < rk_seq (cl_rank (rc_calls c ! j)))"
proof -
  note D = rc_invD [OF assms(1)]
  let ?a = "cl_rank (rc_calls c ! i)" and ?b = "cl_rank (rc_calls c ! j)"
  let ?pre = "map cl_rank (take i (rc_calls c))" and ?mid = "map cl_rank (drop (Suc i) (take j (rc_calls c)))"
  have cs: "rc_calls c = take i (rc_calls c) @ rc_calls c ! i # drop (Suc i) (take j (rc_calls c)) @ rc_calls c ! j # drop (Suc j) (rc_calls c)"
  proof -
    have "rc_calls c = take j (rc_calls c) @ rc_calls c ! j # drop (Suc j) (rc_calls c)" using assms(2) by (rule id_take_nth_drop)
    moreover have "take j (rc_calls c) = take i (rc_calls c) @ rc_calls c ! i # drop (Suc i) (take j (rc_calls c))"
      using id_take_nth_drop [of i "take j (rc_calls c)"] assms(2,3) by simp
    ultimately show ?thesis by (metis append.assoc append_Cons)
  qed
  define post where "post = map cl_rank (drop (Suc j) (rc_calls c)) @ in_hand c @ map jo_rank (rc_queue c)"
  have all: "all_ranks c = ?pre @ ?a # ?mid @ ?b # post"
    unfolding all_ranks_def post_def by (subst cs) simp
  have "rk_seq ?a \<noteq> rk_seq ?b" using D(4) unfolding all by simp
  moreover have "rk_seq ?a < rk_seq ?b" if "rk_priority ?a = rk_priority ?b"
    using D(3) [of "rk_priority ?a"] that unfolding all by (simp add: in_class_Cons sorted_wrt_append)
  moreover have "cl_end (rc_calls c ! i) \<le> cl_start (rc_calls c ! j) \<and>
      (cl_ok (rc_calls c ! i) \<longrightarrow> cl_end (rc_calls c ! i) + d \<le> cl_start (rc_calls c ! j))"
    using D(6) assms(2,3) unfolding spaced_def sorted_wrt_iff_nth_less by blast
  ultimately show ?thesis by auto
qed

text \<open>The job that a step takes is in the queue, and no other job in it comes before.\<close>

lemma in_hand_submit [simp]: "in_hand (submit fn is_order c) = in_hand c"
  by (cases "rc_worker c") (simp_all add: submit_def ensure_worker_def in_hand_def Let_def)

lemma queue_submit:
  "rc_queue (submit fn is_order c) = rc_queue c @ [\<lparr>jo_rank = Rank (if is_order then 0 else 1) (Suc (rc_seq c)), jo_fn = fn\<rparr>]"
  "rc_seq (submit fn is_order c) = Suc (rc_seq c)"
  by (simp_all add: submit_def ensure_worker_def Let_def)

lemma in_hand_take: "in_hand (take_job now c) = [jo_rank (least_job (rc_queue c))]"
  by (simp add: take_job_def pop_job_def in_hand_def Let_def)

lemma taken_job_is_least:
  assumes "rc_step c c'" "in_hand c = []" "in_hand c' = [r]"
  shows "r \<in> jo_rank ` set (rc_queue c) \<and> (\<forall>k\<in>set (rc_queue c). r \<le> jo_rank k)"
  using assms(1)
proof (cases rule: rc_step.cases)
  case takes
  then have "r = jo_rank (least_job (rc_queue c))" using assms(3) by (simp add: in_hand_take)
  then show ?thesis using least_job_in [OF takes(3)] least_job_le [of _ "rc_queue c"] by simp
next
  case submits
  then show ?thesis using assms(2,3) by simp
qed (use assms in \<open>auto simp: in_hand_def call_succeeds_def call_raises_def set_token_def\<close>)

lemma order_overtakes:
  assumes "rc_inv d c" "rc_step (submit fn' True (submit fn False c)) c'" "in_hand c = []" "in_hand c' = [r]"
  shows "rk_priority r = 0 \<and> rk_seq r \<noteq> Suc (rc_seq c)"
proof -
  have t: "r \<in> jo_rank ` set (rc_queue c) \<union> {Rank 1 (Suc (rc_seq c)), Rank 0 (Suc (Suc (rc_seq c)))}"
      "r \<le> Rank 0 (Suc (Suc (rc_seq c)))"
    using taken_job_is_least [OF assms(2) _ assms(4)] assms(3) by (auto simp: queue_submit)
  then have "rk_priority r = 0" by (simp add: less_eq_rank_def)
  moreover have "rk_seq k \<le> rc_seq c" if "k \<in> jo_rank ` set (rc_queue c)" for k
    using rc_invD(2) [OF assms(1)] that by (auto simp: all_ranks_def)
  ultimately show ?thesis using t(1) by fastforce
qed

section \<open>Properties\<close>

text \<open>
  C12: under every interleaving calls do not overlap, a call starts no earlier than the minimal
  interval after any earlier call that succeeded, calls of one class are made in the order of
  their submission, and no job is called twice. Orders go first: the job that the worker takes next
  is the least of those waiting, by class and then by number, so an order submitted after another
  request is taken before it.
\<close>

theorem calls_keep_their_distance:
  assumes "rc_reachable d c" "0 \<le> d"
  shows "(\<forall>j<length (rc_calls c). \<forall>i<j.
      cl_end (rc_calls c ! i) \<le> cl_start (rc_calls c ! j) \<and>
      (cl_ok (rc_calls c ! i) \<longrightarrow> cl_end (rc_calls c ! i) + d \<le> cl_start (rc_calls c ! j)) \<and>
      cl_rank (rc_calls c ! i) \<noteq> cl_rank (rc_calls c ! j) \<and>
      (rk_priority (cl_rank (rc_calls c ! i)) = rk_priority (cl_rank (rc_calls c ! j)) \<longrightarrow>
         rk_seq (cl_rank (rc_calls c ! i)) < rk_seq (cl_rank (rc_calls c ! j)))) \<and>
    (\<forall>c' r. rc_step c c' \<and> in_hand c = [] \<and> in_hand c' = [r] \<longrightarrow>
       r \<in> jo_rank ` set (rc_queue c) \<and>
       (\<forall>k\<in>jo_rank ` set (rc_queue c). rk_priority r < rk_priority k \<or> rk_priority r = rk_priority k \<and> rk_seq r \<le> rk_seq k)) \<and>
    (\<forall>fn fn' c' r. rc_step (submit fn' True (submit fn False c)) c' \<and> in_hand c = [] \<and> in_hand c' = [r] \<longrightarrow>
       rk_priority r = 0 \<and> rk_seq r \<noteq> Suc (rc_seq c))"
proof -
  note inv = rc_reachable_inv [OF assms]
  have "\<forall>j<length (rc_calls c). \<forall>i<j.
      cl_end (rc_calls c ! i) \<le> cl_start (rc_calls c ! j) \<and>
      (cl_ok (rc_calls c ! i) \<longrightarrow> cl_end (rc_calls c ! i) + d \<le> cl_start (rc_calls c ! j)) \<and>
      cl_rank (rc_calls c ! i) \<noteq> cl_rank (rc_calls c ! j) \<and>
      (rk_priority (cl_rank (rc_calls c ! i)) = rk_priority (cl_rank (rc_calls c ! j)) \<longrightarrow>
         rk_seq (cl_rank (rc_calls c ! i)) < rk_seq (cl_rank (rc_calls c ! j)))"
    using calls_spaced [OF inv] by blast
  moreover have "\<forall>c' r. rc_step c c' \<and> in_hand c = [] \<and> in_hand c' = [r] \<longrightarrow>
       r \<in> jo_rank ` set (rc_queue c) \<and>
       (\<forall>k\<in>jo_rank ` set (rc_queue c). rk_priority r < rk_priority k \<or> rk_priority r = rk_priority k \<and> rk_seq r \<le> rk_seq k)"
    using taken_job_is_least unfolding less_eq_rank_def by blast
  moreover have "\<forall>fn fn' c' r. rc_step (submit fn' True (submit fn False c)) c' \<and> in_hand c = [] \<and> in_hand c' = [r] \<longrightarrow>
       rk_priority r = 0 \<and> rk_seq r \<noteq> Suc (rc_seq c)"
    using order_overtakes [OF inv] by blast
  ultimately show ?thesis by blast
qed

text \<open>
  C30: whatever the calls return or raise and however long they take, the worker left to itself
  empties the queue: every waiting job is called once, orders first and otherwise in the order of
  submission, and every waiting caller gets an answer.
\<close>

theorem waiting_jobs_are_served:
  assumes "rc_reachable d c" "0 \<le> d" "rc_worker c = Idle"
  shows "rc_queue (serve_all (length (rc_queue c)) h c) = [] \<and>
    map cl_rank (rc_calls (serve_all (length (rc_queue c)) h c)) = map cl_rank (rc_calls c) @ sort (map jo_rank (rc_queue c)) \<and>
    (\<forall>j\<in>set (rc_queue c). answered (serve_all (length (rc_queue c)) h c) (jo_seq j)) \<and>
    rc_reachable d (serve_all (length (rc_queue c)) h c)"
proof -
  have "distinct (map rk_seq (map jo_rank (rc_queue c)))"
    using rc_invD(4) [OF rc_reachable_inv [OF assms(1,2)]] by (simp add: all_ranks_def)
  then have "distinct (map jo_rank (rc_queue c))" unfolding distinct_map [of rk_seq] by simp
  from serve_effect [OF assms(3) this assms(1), of h] show ?thesis by auto
qed

definition sample_client :: "(nat, nat) rate_client" where
  "sample_client = submit 7 True (submit 8 False (rate_client_init (1 / 5)))"

lemma sample_client_reachable: "rc_reachable (1 / 5) sample_client" "rc_worker sample_client = Idle"
  "map jo_rank (rc_queue sample_client) = [Rank 1 1, Rank 0 2]" "rc_calls sample_client = []"
proof -
  show "rc_reachable (1 / 5) sample_client" unfolding sample_client_def
    by (intro reach_submit rc_reachable.start)
qed (simp_all add: sample_client_def submit_def ensure_worker_def rate_client_init_def Let_def)

lemma sample_served:
  "map cl_rank (rc_calls (serve_all (length (rc_queue sample_client)) h sample_client)) = [Rank 0 2, Rank 1 1]"
  "rc_reachable (1 / 5) (serve_all (length (rc_queue sample_client)) h sample_client)"
proof -
  have "distinct (map jo_rank (rc_queue sample_client))" by (simp add: sample_client_reachable)
  note e = serve_effect [OF sample_client_reachable(2) this sample_client_reachable(1), of h]
  have "sort [Rank 1 1, Rank 0 2] = [Rank 0 2, Rank 1 1]" by (simp add: less_eq_rank_def)
  with e show "map cl_rank (rc_calls (serve_all (length (rc_queue sample_client)) h sample_client)) = [Rank 0 2, Rank 1 1]"
    by (simp add: sample_client_reachable)
  show "rc_reachable (1 / 5) (serve_all (length (rc_queue sample_client)) h sample_client)" using e by blast
qed

theorem waiting_jobs_are_served_witness:
  "\<exists>c. map cl_rank (rc_calls c) = [Rank 0 2, Rank 1 1] \<and> rc_queue c = ([] :: nat rate_job list) \<and> answered (c :: (nat, nat) rate_client) 1"
proof -
  let ?h = "\<lambda>n. (3, if n = 7 then Inr 1 else Inl (OtherError ''down'')) :: real \<times> nat py"
  let ?c = "serve_all (length (rc_queue sample_client)) ?h sample_client"
  have "\<forall>j\<in>set (rc_queue sample_client). answered ?c (jo_seq j)" and q: "rc_queue ?c = []"
    using waiting_jobs_are_served [OF sample_client_reachable(1) _ sample_client_reachable(2), of ?h] by simp_all
  then have "list_all (answered ?c) (map rk_seq (map jo_rank (rc_queue sample_client)))" by (simp add: list_all_iff)
  then show ?thesis using q sample_served(1) [of ?h] unfolding sample_client_reachable(3) by (intro exI [of _ ?c]) simp
qed

text \<open>Two calls were made; and while a request and a later order wait, the order is taken.\<close>

theorem calls_keep_their_distance_witness:
  "\<exists>c. rc_reachable (1 / 5) (c :: (nat, nat) rate_client) \<and> length (rc_calls c) = 2 \<and> cl_end (rc_calls c ! 0) \<le> cl_start (rc_calls c ! 1) \<and>
     (\<exists>c'. rc_step (submit 7 True (submit 8 False c)) c' \<and> in_hand c' = [Rank 0 4])"
proof -
  let ?h = "\<lambda>_. (3, Inr 1) :: real \<times> nat py"
  let ?c = "serve_all (length (rc_queue sample_client)) ?h sample_client"
  let ?s = "submit 7 True (submit 8 False ?c)"
  note reach = sample_served(2) [of ?h]
  have len: "length (rc_calls ?c) = 2"
    using arg_cong [OF sample_served(1) [of ?h], of length] by simp
  have "distinct (map jo_rank (rc_queue sample_client))" by (simp add: sample_client_reachable)
  note e = serve_effect [OF sample_client_reachable(2) this sample_client_reachable(1), of ?h]
  have sq: "rc_seq ?c = 2" by (simp add: serve_seq) (simp add: sample_client_def queue_submit rate_client_init_def)
  have q: "rc_queue ?c = []" "rc_worker ?c = Idle" using e by blast+
  have idle: "rc_worker ?s = Idle" "rc_queue ?s \<noteq> []" using q by (simp_all add: submit_def ensure_worker_def Let_def)
  then have st: "rc_step ?s (take_job (rc_clock ?s) ?s)" by (rule rc_step.takes)
  obtain r where r: "in_hand (take_job (rc_clock ?s) ?s) = [r]" using in_hand_take by blast
  have none: "in_hand ?c = []" using q by (simp add: in_hand_def)
  note P = calls_keep_their_distance [OF reach]
  have "rk_priority r = 0 \<and> rk_seq r \<noteq> Suc (rc_seq ?c)" using P st r none by simp
  moreover have "r = Rank 1 3 \<or> r = Rank 0 4"
    using taken_job_is_least [OF st _ r] q none sq by (auto simp: queue_submit)
  ultimately have "in_hand (take_job (rc_clock ?s) ?s) = [Rank 0 4]" using r by auto
  moreover have "cl_end (rc_calls ?c ! 0) \<le> cl_start (rc_calls ?c ! 1)" using P len by simp
  ultimately show ?thesis using reach len st by (intro exI [of _ ?c]) blast
qed

text \<open>
  The time stamp is set by a successful call only: after a call that raised, the next one is made
  at once.
\<close>

theorem failed_call_is_not_spaced:
  "\<exists>c. rc_reachable 1 (c :: (nat, nat) rate_client) \<and> length (rc_calls c) = 2 \<and> cl_start (rc_calls c ! 1) = cl_end (rc_calls c ! 0)"
proof -
  let ?c0 = "(submit 7 False (submit 7 False (rate_client_init 1)))\<lparr>rc_clock := 5\<rparr> :: (nat, nat) rate_client"
  let ?h = "\<lambda>_. (0, Inl (OtherError ''429'')) :: real \<times> nat py"
  let ?c1 = "serve_one ?h ?c0" let ?c2 = "serve_one ?h ?c1"
  have "rc_reachable 1 ?c0"
    by (rule reach_time, intro reach_submit rc_reachable.start)
       (simp add: submit_def ensure_worker_def rate_client_init_def Let_def)
  moreover have q0: "rc_queue ?c0 = [\<lparr>jo_rank = Rank 1 1, jo_fn = 7\<rparr>, \<lparr>jo_rank = Rank 1 2, jo_fn = 7\<rparr>]" "rc_worker ?c0 = Idle"
    by (simp_all add: submit_def ensure_worker_def rate_client_init_def Let_def)
  ultimately have r1: "rc_reachable 1 ?c1" by (intro serve_one_reach) simp_all
  have p0: "pop_job (rc_queue ?c0) = (\<lparr>jo_rank = Rank 1 1, jo_fn = 7\<rparr>, [\<lparr>jo_rank = Rank 1 2, jo_fn = 7\<rparr>])"
    unfolding q0 by (simp add: pop_job_def least_job_def less_eq_rank_def)
  have c1: "rc_queue ?c1 = [\<lparr>jo_rank = Rank 1 2, jo_fn = 7\<rparr>]" "rc_worker ?c1 = Idle" "rc_clock ?c1 = 5" "rc_last_ts ?c1 = 0"
    "rc_min_interval ?c1 = 1" "rc_calls ?c1 = [\<lparr>cl_rank = Rank 1 1, cl_start = 5, cl_end = 5, cl_ok = False\<rparr>]"
    unfolding serve_one_def take_job_def p0
    by (simp_all add: begin_call_def end_call_def call_raises_def Let_def)
       (simp_all add: submit_def ensure_worker_def rate_client_init_def Let_def)
  then have r2: "rc_reachable 1 ?c2" by (intro serve_one_reach r1) simp_all
  have p1: "pop_job (rc_queue ?c1) = (\<lparr>jo_rank = Rank 1 2, jo_fn = 7\<rparr>, [])"
    unfolding c1 by (simp add: pop_job_def least_job_def)
  have "rc_calls ?c2 = [\<lparr>cl_rank = Rank 1 1, cl_start = 5, cl_end = 5, cl_ok = False\<rparr>, \<lparr>cl_rank = Rank 1 2, cl_start = 5, cl_end = 5, cl_ok = False\<rparr>]"
    unfolding serve_one_def [of ?h ?c1] take_job_def p1
    by (simp add: c1 begin_call_def end_call_def call_raises_def Let_def)
  then show ?thesis using r2 by (intro exI [of _ ?c2]) simp
qed

end
