(* ===== verification/Universe_Bootstrap.thy ===== *)
theory Universe_Bootstrap
  imports Runtime_Factory Kiwoom_Gateway Config_Service
begin

text \<open>
  \<open>app/services/universe_bootstrap.py\<close> and the rebalancing in \<open>app/main.py\<close>: where the symbols of
  the universe come from (the exchange's list of the two indices, or the operator), how they are
  labelled, seeded, rebalanced and activated by their liquidity.

  A session of the database does not flush before a query (\<open>autoflush=False\<close>): a query selects by
  the committed rows, and answers the session's objects, which carry the changes made so far.
\<close>

section \<open>Source labels\<close>

definition valid_universe_sources :: "string list" where
  "valid_universe_sources = [''KOSPI200'', ''KOSDAQ150'', ''USER'']"

definition legacy_map :: "(string \<times> string) list" where
  "legacy_map = [(''KOSPI'', ''KOSPI200''), (''KOSDAQ'', ''KOSDAQ150''), (''UNKNOWN'', ''USER''), ([], ''USER'')]"

definition normalize_universe_source :: "string option \<Rightarrow> string option" where
  "normalize_universe_source v =
     (case v of
        None \<Rightarrow> None
      | Some s \<Rightarrow>
          (let n = py_upper (py_strip s);
               n' = (case map_of legacy_map n of None \<Rightarrow> n | Some m \<Rightarrow> m)
           in if n' \<in> set valid_universe_sources then Some n' else None))"

section \<open>The exchange's lists\<close>

text \<open>
  The web as the code uses it: a GET, a POST of a form (URL, fields, referer) that answers the
  decoded body, and \<open>json.loads\<close>, which reads a text or says why it cannot. All are code of
  libraries.
\<close>

record 'e krx_web =
  kw_get :: "string \<Rightarrow> 'e \<Rightarrow> unit py \<times> 'e"
  kw_post :: "string \<Rightarrow> (string \<times> string) list \<Rightarrow> string \<Rightarrow> 'e \<Rightarrow> string py \<times> 'e"
  kw_loads :: "string \<Rightarrow> string + json"
  kw_fmt :: json_text

definition krx_base_url :: string where
  "krx_base_url = ''https://index.krx.co.kr''"

definition krx_otp_url :: string where
  "krx_otp_url = krx_base_url @ ''/contents/COM/GenerateOTP.jspx''"

definition krx_data_url :: string where
  "krx_data_url = krx_base_url @ ''/contents/IDX/99/IDX99000001.jspx''"

definition krx_index_page_base_url :: string where
  "krx_index_page_base_url = krx_base_url @ ''/contents/MKD/03/0304/03040101/MKD03040101.jsp''"

definition krx_referer :: "string \<Rightarrow> string \<Rightarrow> string \<Rightarrow> string" where
  "krx_referer upmid_cd idx_cd idx_id =
     krx_index_page_base_url @ ''?upmidCd='' @ upmid_cd @ ''&idxCd='' @ idx_cd @ ''&idxId='' @ idx_id"

definition krx_index_page_path :: string where
  "krx_index_page_path = ''/contents/MKD/03/0304/03040101/MKD03040101T3.jsp''"

definition krx_index_bld :: string where
  "krx_index_bld = ''/IDX/03/0304/03040101/mkd03040101T3_01''"

definition krx_generate_otp :: "'e krx_web \<Rightarrow> string \<Rightarrow> string \<Rightarrow> 'e \<Rightarrow> string py \<times> 'e" where
  "krx_generate_otp web bld referer e =
     (case kw_post web krx_otp_url [(''name'', ''form''), (''bld'', bld)] referer e of
        (Inl x, e1) \<Rightarrow> (Inl x, e1)
      | (Inr body, e1) \<Rightarrow>
          (let otp = py_strip body in (if otp = [] then Inl (ValueError (''krx_otp_empty:'' @ bld)) else Inr otp, e1)))"

definition krx_post_json_with_otp ::
  "'e krx_web \<Rightarrow> string \<Rightarrow> (string \<times> string) list \<Rightarrow> string \<Rightarrow> 'e \<Rightarrow> dict py \<times> 'e" where
  "krx_post_json_with_otp web otp form referer e =
     (case kw_post web krx_data_url ((''code'', otp) # form) referer e of
        (Inl x, e1) \<Rightarrow> (Inl x, e1)
      | (Inr raw, e1) \<Rightarrow>
          ((case kw_loads web raw of
              Inl err \<Rightarrow> Inl (ValueError (''krx_json_decode_error:'' @ err))
            | Inr (JObj d) \<Rightarrow> Inr d
            | Inr _ \<Rightarrow> Inl (ValueError ''krx_json_not_object'')), e1))"

definition krx_json_rows :: "dict \<Rightarrow> dict list" where
  "krx_json_rows payload =
     (case first_list_in [''block1'', ''output'', ''DS1'', ''result''] payload of None \<Rightarrow> [] | Some rows \<Rightarrow> rows)"

definition date_of_row :: "'e krx_web \<Rightarrow> dict \<Rightarrow> string" where
  "date_of_row web row = py_strip (case map_of row ''max_work_dt'' of None \<Rightarrow> [] | Some v \<Rightarrow> json_str (kw_fmt web) v)"

definition is_date :: "string \<Rightarrow> bool" where
  "is_date s \<longleftrightarrow> length s = 8 \<and> py_isdigit s"

definition krx_latest_trading_date :: "'e krx_web \<Rightarrow> 'e \<Rightarrow> string py \<times> 'e" where
  "krx_latest_trading_date web e =
     (let referer = krx_referer ''0102'' ''1028'' ''K2G01P'' in
      case krx_generate_otp web ''/COM/market_date_t'' referer e of
        (Inl x, e1) \<Rightarrow> (Inl x, e1)
      | (Inr otp, e1) \<Rightarrow>
          (case krx_post_json_with_otp web otp [(''pagePath'', krx_index_page_path)] referer e1 of
             (Inl x, e2) \<Rightarrow> (Inl x, e2)
           | (Inr payload, e2) \<Rightarrow>
               ((case filter is_date (map (date_of_row web) (krx_json_rows payload)) of
                   [] \<Rightarrow> Inl (ValueError ''krx_market_date_missing'')
                 | d # _ \<Rightarrow> Inr d), e2)))"

text \<open>\<open>str(a or b or default)\<close> over fields of a row.\<close>

fun str_or :: "json_text \<Rightarrow> string list \<Rightarrow> string \<Rightarrow> dict \<Rightarrow> string" where
  "str_or fmt [] dflt row = dflt"
| "str_or fmt (k # ks) dflt row =
     (case map_of row k of
        Some v \<Rightarrow> if json_truthy v then json_str fmt v else str_or fmt ks dflt row
      | None \<Rightarrow> str_or fmt ks dflt row)"

record seed_item =
  si_ticker :: string
  si_name :: string
  si_market :: string

text \<open>A dict filled by ticker, read in the order of its sorted keys: the last item of a ticker stays.\<close>

definition by_ticker :: "(seed_item \<Rightarrow> string) \<Rightarrow> seed_item list \<Rightarrow> seed_item list" where
  "by_ticker key items = map (\<lambda>t. last (filter (\<lambda>i. key i = t) items)) (sort (remdups (map key items)))"

definition item_of_row :: "json_text \<Rightarrow> string \<Rightarrow> dict \<Rightarrow> seed_item option" where
  "item_of_row fmt market row =
     (let ticker = py_upper (py_strip (str_or fmt [''isu_cd'', ''ISU_CD''] [] row));
          name = py_strip (str_or fmt [''isu_nm'', ''ISU_NM'', ''isu_abbrv'', ''ISU_ABBRV''] ticker row)
      in if ticker = [] then None
         else Some \<lparr>si_ticker = ticker, si_name = (if name = [] then ticker else name), si_market = market\<rparr>)"

definition krx_fetch_index_constituents ::
  "'e krx_web \<Rightarrow> string \<Rightarrow> string \<Rightarrow> string \<Rightarrow> string \<Rightarrow> string \<Rightarrow> string \<Rightarrow> string \<Rightarrow> 'e \<Rightarrow> seed_item list py \<times> 'e" where
  "krx_fetch_index_constituents web market idx_id idx_cd upmid_cd ind_tp_cd idx_ind_cd trade_date e =
     (let referer = krx_referer upmid_cd idx_cd idx_id in
      case kw_get web referer e of
        (Inl x, e1) \<Rightarrow> (Inl x, e1)
      | (Inr _, e1) \<Rightarrow>
      (case krx_generate_otp web krx_index_bld referer e1 of
         (Inl x, e2) \<Rightarrow> (Inl x, e2)
       | (Inr otp, e2) \<Rightarrow>
       (case krx_post_json_with_otp web otp
               [(''ind_tp_cd'', ind_tp_cd), (''idx_ind_cd'', idx_ind_cd), (''idx_id'', idx_id), (''idxCd'', idx_cd),
                (''upmidCd'', upmid_cd), (''lang'', ''ko''), (''compst_isu_tp'', ''1''), (''schdate'', trade_date),
                (''fromdate'', trade_date), (''todate'', trade_date), (''pagePath'', krx_index_page_path)] referer e2 of
          (Inl x, e3) \<Rightarrow> (Inl x, e3)
        | (Inr payload, e3) \<Rightarrow>
            (Inr (by_ticker si_ticker (List.map_filter (item_of_row (kw_fmt web) market) (krx_json_rows payload))), e3))))"

text \<open>The seed: an error text, or the date and the items.\<close>

type_synonym seed = "string + string \<times> seed_item list"

fun is_network_or_value_error :: "py_exn \<Rightarrow> bool" where
  "is_network_or_value_error (NetworkError _) = True"
| "is_network_or_value_error (ValueError _) = True"
| "is_network_or_value_error _ = False"

definition seed_error :: "py_exn \<Rightarrow> seed" where
  "seed_error x =
     Inl ((if is_network_or_value_error x then ''seed_fetch_network_or_parse_error:'' else ''seed_fetch_exception:'') @ exn_str x)"

definition seed_of_lists :: "string \<Rightarrow> seed_item list \<Rightarrow> seed_item list \<Rightarrow> seed" where
  "seed_of_lists trade_date kospi200 kosdaq150 =
     (if length kospi200 \<noteq> 200 then Inl (''constituent_count_mismatch:kospi200='' @ show_nat (length kospi200))
      else if length kosdaq150 \<noteq> 150 then Inl (''constituent_count_mismatch:kosdaq150='' @ show_nat (length kosdaq150))
      else
        (let items = by_ticker (\<lambda>i. py_strip (si_ticker i)) (filter (\<lambda>i. py_strip (si_ticker i) \<noteq> []) (kospi200 @ kosdaq150))
         in if length items \<noteq> 350 then Inl (''constituent_union_count_mismatch:'' @ show_nat (length items))
            else Inr (trade_date, items)))"

definition fetch_prd_initial_universe_seed :: "'e krx_web \<Rightarrow> 'e \<Rightarrow> seed \<times> 'e" where
  "fetch_prd_initial_universe_seed web e =
     (case kw_get web (krx_referer ''0102'' ''1028'' ''K2G01P'') e of
        (Inl x, e1) \<Rightarrow> (seed_error x, e1)
      | (Inr _, e1) \<Rightarrow>
      (case krx_latest_trading_date web e1 of
         (Inl x, e2) \<Rightarrow> (seed_error x, e2)
       | (Inr trade_date, e2) \<Rightarrow>
       (case krx_fetch_index_constituents web ''KOSPI200'' ''K2G01P'' ''1028'' ''0102'' ''1'' ''028'' trade_date e2 of
          (Inl x, e3) \<Rightarrow> (seed_error x, e3)
        | (Inr kospi200, e3) \<Rightarrow>
        (case krx_fetch_index_constituents web ''KOSDAQ150'' ''Q5G01P'' ''2203'' ''0103'' ''2'' ''203'' trade_date e3 of
           (Inl x, e4) \<Rightarrow> (seed_error x, e4)
         | (Inr kosdaq150, e4) \<Rightarrow> (seed_of_lists trade_date kospi200 kosdaq150, e4)))))"

section \<open>A session over the symbols\<close>

text \<open>
  The objects of a session: the loaded rows with the changes made to them, and the rows added. A
  query selects by the committed rows; of each it answers the session's object, if it was loaded.
\<close>

record session =
  se_loaded :: "symbol list"
  se_new :: "symbol list"

definition all_symbols :: symbol_filter where
  "all_symbols = \<lparr>fl_runtime_only = False, fl_in_universe = None, fl_market = None, fl_is_active = None,
     fl_is_blocked = None, fl_status = None, fl_ticker_query = None\<rparr>"

definition universe_only :: symbol_filter where
  "universe_only = all_symbols\<lparr>fl_in_universe := Some True\<rparr>"

definition session_object :: "session \<Rightarrow> symbol \<Rightarrow> symbol" where
  "session_object se row = (case find_symbol (sy_ticker row) (se_loaded se) of None \<Rightarrow> row | Some r \<Rightarrow> r)"

definition query_symbols :: "symbol_filter \<Rightarrow> nat \<Rightarrow> session \<Rightarrow> universe_db \<Rightarrow> symbol list py \<times> universe_db" where
  "query_symbols f limit se u =
     (case list_symbols f 0 limit u of
        (Inl x, u1) \<Rightarrow> (Inl x, u1)
      | (Inr rows, u1) \<Rightarrow> (Inr (map (session_object se) rows), u1))"

definition keep_objects :: "symbol list \<Rightarrow> session \<Rightarrow> session" where
  "keep_objects rows se = se\<lparr>se_loaded := foldl (\<lambda>acc r. put_symbol r acc) (se_loaded se) rows\<rparr>"

text \<open>The commit: the changed rows are updated, the new ones inserted; the primary key is the ticker.\<close>

definition commit_session :: "session \<Rightarrow> universe_db \<Rightarrow> unit py \<times> universe_db" where
  "commit_session se u =
     (let rows = map (session_object se) (un_rows u) @ se_new se in
      if un_fails u \<or> \<not> distinct (map sy_ticker rows) then (Inl db_error, un_tick u)
      else (Inr (), (un_tick u)\<lparr>un_rows := rows\<rparr>))"

section \<open>Migration of old labels\<close>

definition migrated :: "symbol \<Rightarrow> symbol" where
  "migrated row =
     (let n = (case normalize_universe_source (Some (sy_market row)) of None \<Rightarrow> ''USER'' | Some m \<Rightarrow> m)
      in if sy_market row \<noteq> n then row\<lparr>sy_market := n\<rparr> else row)"

definition migrate_universe_source_labels :: "universe_db \<Rightarrow> (string + nat) \<times> universe_db" where
  "migrate_universe_source_labels u =
     (let se = \<lparr>se_loaded = [], se_new = []\<rparr> in
      case query_symbols all_symbols 20000 se u of
        (Inl x, u1) \<Rightarrow> (Inl ((if is_sql_error x then ''db_error:'' else ''error:'') @ exn_str x), u1)
      | (Inr rows, u1) \<Rightarrow>
          (let updated = length (filter (\<lambda>r. migrated r \<noteq> r) rows) in
           if updated = 0 then (Inr 0, u1)
           else
             (case commit_session (keep_objects (map migrated rows) se) u1 of
                (Inl x, u2) \<Rightarrow> (Inl ((if is_sql_error x then ''db_error:'' else ''error:'') @ exn_str x), u2)
              | (Inr _, u2) \<Rightarrow> (Inr updated, u2))))"

section \<open>Coverage by candles\<close>

record coverage =
  cv_in_universe_count :: nat
  cv_per_timeframe :: "(string \<times> nat) list"
  cv_needs_bootstrap :: bool

text \<open>The distinct tickers of a timeframe's candles that are in the universe: a join, one statement.\<close>

definition covered_tickers :: "symbol list \<Rightarrow> candle_row list \<Rightarrow> string \<Rightarrow> string list" where
  "covered_tickers symbols candles timeframe =
     remdups (filter (\<lambda>t. t \<in> set (map sy_ticker (filter sy_in_universe symbols)))
                (map cn_ticker (filter (\<lambda>c. cn_timeframe c = timeframe) candles)))"

fun coverage_counts :: "string list \<Rightarrow> universe_db \<times> candle_db \<Rightarrow> (string \<times> nat) list py \<times> universe_db \<times> candle_db" where
  "coverage_counts [] s = (Inr [], s)"
| "coverage_counts (tf # tfs) (u, c) =
     (if ca_fails c then (Inl db_error, u, ca_tick c)
      else
        (case coverage_counts tfs (u, ca_tick c) of
           (Inl x, s) \<Rightarrow> (Inl x, s)
         | (Inr rest, s) \<Rightarrow> (Inr ((tf, length (covered_tickers (un_rows u) (ca_rows c) tf)) # rest), s)))"

definition candle_bootstrap_coverage :: "string list \<Rightarrow> universe_db \<times> candle_db \<Rightarrow> coverage py \<times> universe_db \<times> candle_db" where
  "candle_bootstrap_coverage timeframes s =
     (case s of (u, c) \<Rightarrow>
      (case count_symbols universe_only u of
         (Inl x, u1) \<Rightarrow> (Inl x, u1, c)
       | (Inr n, u1) \<Rightarrow>
           (case coverage_counts timeframes (u1, c) of
              (Inl x, s1) \<Rightarrow> (Inl x, s1)
            | (Inr counts, s1) \<Rightarrow>
                (Inr \<lparr>cv_in_universe_count = n, cv_per_timeframe = counts,
                       cv_needs_bootstrap = (n > 0 \<and> (\<exists>p\<in>set counts. snd p < n))\<rparr>, s1))))"

section \<open>Activation by liquidity\<close>

definition frozen :: "symbol \<Rightarrow> bool" where
  "frozen r \<longleftrightarrow> sy_status r \<in> {status_value HALTED, status_value REMOVED, status_value EXIT_PENDING}"

definition avg_daily_value :: "candle_row list \<Rightarrow> real" where
  "avg_daily_value daily = sum_list (map (\<lambda>x. max (cn_close x) 0 * max (cn_volume x) 0) daily) / real (length daily)"

definition liquid :: "pyfloat \<Rightarrow> candle_row list \<Rightarrow> bool" where
  "liquid threshold daily \<longleftrightarrow> 20 \<le> length daily \<and> pf_le threshold (Fin (avg_daily_value daily))"

record recompute_counts =
  rn_active :: nat
  rn_updated :: nat
  rn_insufficient :: nat

definition recompute_row :: "symbol \<Rightarrow> bool \<Rightarrow> bool \<Rightarrow> recompute_counts \<Rightarrow> recompute_counts" where
  "recompute_row row should_activate insufficient n =
     n\<lparr>rn_insufficient := rn_insufficient n + (if insufficient then 1 else 0),
       rn_updated := rn_updated n + (if sy_is_active row \<noteq> should_activate then 1 else 0),
       rn_active := rn_active n + (if should_activate then 1 else 0)\<rparr>"

text \<open>Whether a row is to be active, and whether its daily bars were too few to say.\<close>

definition check_row :: "pyfloat \<Rightarrow> symbol \<Rightarrow> candle_db \<Rightarrow> (bool \<times> bool) py \<times> candle_db" where
  "check_row th row c =
     (if frozen row then (Inr (False, False), c)
      else (case list_recent (sy_ticker row) ''1d'' 20 c of
              (Inl x, c1) \<Rightarrow> (Inl x, c1)
            | (Inr daily, c1) \<Rightarrow> (Inr (liquid th daily, length daily < 20), c1)))"

fun recompute_rows :: "pyfloat \<Rightarrow> symbol list \<Rightarrow> recompute_counts \<Rightarrow> candle_db \<Rightarrow> (symbol list \<times> recompute_counts) py \<times> candle_db" where
  "recompute_rows th [] n c = (Inr ([], n), c)"
| "recompute_rows th (row # rows) n c =
     (case check_row th row c of
        (Inl x, c1) \<Rightarrow> (Inl x, c1)
      | (Inr (act, insufficient), c1) \<Rightarrow>
          (case recompute_rows th rows (recompute_row row act insufficient n) c1 of
             (Inl x, c2) \<Rightarrow> (Inl x, c2)
           | (Inr (out, n2), c2) \<Rightarrow> (Inr (row\<lparr>sy_is_active := act\<rparr> # out, n2), c2)))"

record recompute_answer =
  ra_threshold_eok :: pyfloat
  ra_in_universe :: nat
  ra_counts :: recompute_counts

definition liquidity_threshold :: "config \<Rightarrow> pyfloat py" where
  "liquidity_threshold cfg =
     py_bind (config_get ''liquidity_threshold'' cfg) (\<lambda>s.
       case py_float_of s of None \<Rightarrow> Inl (ValueError ''could not convert string to float'') | Some x \<Rightarrow> Inr x)"

definition recompute_active_universe ::
  "config \<Rightarrow> session \<Rightarrow> universe_db \<times> candle_db \<Rightarrow> (recompute_answer \<times> session) py \<times> universe_db \<times> candle_db" where
  "recompute_active_universe cfg se s =
     (case s of (u, c) \<Rightarrow>
      (case liquidity_threshold cfg of
         Inl x \<Rightarrow> (Inl x, u, c)
       | Inr eok \<Rightarrow>
      (case query_symbols universe_only 20000 se u of
         (Inl x, u1) \<Rightarrow> (Inl x, u1, c)
       | (Inr rows, u1) \<Rightarrow>
      (case recompute_rows (pf_scale 100000000 eok) rows \<lparr>rn_active = 0, rn_updated = 0, rn_insufficient = 0\<rparr> c of
         (Inl x, c1) \<Rightarrow> (Inl x, u1, c1)
       | (Inr (rows', n), c1) \<Rightarrow>
           (Inr (\<lparr>ra_threshold_eok = eok, ra_in_universe = length rows, ra_counts = n\<rparr>, keep_objects rows' se), u1, c1)))))"

section \<open>Seeding the candles\<close>

text \<open>The inserted and updated bars and the tickers with data of one timeframe, and of the whole run.\<close>

record tf_stat =
  ts_inserted :: nat
  ts_updated :: nat
  ts_tickers :: nat

record candle_status =
  ct_ok :: bool
  ct_message :: string
  ct_ticker_count :: nat
  ct_inserted :: nat
  ct_updated :: nat
  ct_tickers :: nat
  ct_errors :: "string list"
  ct_stats :: "string \<Rightarrow> tf_stat"

definition candle_status_init :: "string list \<Rightarrow> candle_status" where
  "candle_status_init tickers =
     \<lparr>ct_ok = False, ct_message = ''not_started'', ct_ticker_count = length tickers, ct_inserted = 0, ct_updated = 0,
      ct_tickers = 0, ct_errors = [], ct_stats = (\<lambda>_. \<lparr>ts_inserted = 0, ts_updated = 0, ts_tickers = 0\<rparr>)\<rparr>"

type_synonym 'e bar_fetch = "string \<Rightarrow> string \<Rightarrow> instant option \<Rightarrow> 'e \<Rightarrow> candle list py \<times> 'e"

text \<open>One ticker and timeframe: what was inserted and updated, \<open>None\<close> if there was nothing to store.\<close>

definition seed_bars :: "'e bar_fetch \<Rightarrow> string \<Rightarrow> string \<Rightarrow> candle_db \<times> 'e \<Rightarrow> (nat \<times> nat) option py \<times> candle_db \<times> 'e" where
  "seed_bars fetch ticker timeframe s =
     (case s of (d, e) \<Rightarrow>
      (case get_last_candle_time ticker timeframe d of
         (Inl x, d1) \<Rightarrow> (Inl x, d1, e)
       | (Inr since, d1) \<Rightarrow>
      (case fetch ticker timeframe since e of
         (Inl x, e1) \<Rightarrow> (Inl x, d1, e1)
       | (Inr candles, e1) \<Rightarrow>
           if candles = [] then (Inr None, d1, e1)
           else (case upsert_batch ticker timeframe (batch_of candles) d1 of
                   (Inl x, d2) \<Rightarrow> (Inl x, d2, e1)
                 | (Inr p, d2) \<Rightarrow> (Inr (Some p), d2, e1)))))"

definition count_bars :: "string \<Rightarrow> nat \<times> nat \<Rightarrow> candle_status \<Rightarrow> candle_status" where
  "count_bars timeframe p st =
     (case p of (i, u) \<Rightarrow>
        let t = ct_stats st timeframe
        in st\<lparr>ct_inserted := ct_inserted st + i, ct_updated := ct_updated st + u,
              ct_stats := (ct_stats st)(timeframe :=
                \<lparr>ts_inserted = ts_inserted t + i, ts_updated = ts_updated t + u,
                 ts_tickers = ts_tickers t + (if i + u > 0 then 1 else 0)\<rparr>)\<rparr>)"

fun seed_timeframes ::
  "'e bar_fetch \<Rightarrow> string \<Rightarrow> string list \<Rightarrow> bool \<Rightarrow> candle_status \<Rightarrow> candle_db \<times> 'e \<Rightarrow> bool \<times> candle_status \<times> candle_db \<times> 'e" where
  "seed_timeframes fetch ticker [] has_any st s = (has_any, st, s)"
| "seed_timeframes fetch ticker (tf # tfs) has_any st s =
     (case seed_bars fetch ticker tf s of
        (Inl x, s1) \<Rightarrow>
          seed_timeframes fetch ticker tfs has_any (st\<lparr>ct_errors := ct_errors st @ [ticker @ '':'' @ tf @ '':'' @ exn_str x]\<rparr>) s1
      | (Inr None, s1) \<Rightarrow> seed_timeframes fetch ticker tfs has_any st s1
      | (Inr (Some p), s1) \<Rightarrow> seed_timeframes fetch ticker tfs (has_any \<or> fst p + snd p > 0) (count_bars tf p st) s1)"

fun seed_tickers :: "'e bar_fetch \<Rightarrow> string list \<Rightarrow> string list \<Rightarrow> candle_status \<Rightarrow> candle_db \<times> 'e \<Rightarrow> candle_status \<times> candle_db \<times> 'e" where
  "seed_tickers fetch tfs [] st s = (st, s)"
| "seed_tickers fetch tfs (t # ts) st s =
     (case seed_timeframes fetch t tfs False st s of
        (has_any, st1, s1) \<Rightarrow>
          seed_tickers fetch tfs ts (if has_any then st1\<lparr>ct_tickers := ct_tickers st1 + 1\<rparr> else st1) s1)"

definition bootstrap_candles_on_first_run ::
  "string \<Rightarrow> string \<Rightarrow> ('e \<Rightarrow> unit py \<times> 'e) \<Rightarrow> 'e bar_fetch \<Rightarrow> string list \<Rightarrow> string list \<Rightarrow> candle_db \<times> 'e
     \<Rightarrow> candle_status \<times> candle_db \<times> 'e" where
  "bootstrap_candles_on_first_run app_key app_secret ensure fetch tickers timeframes s =
     (let st0 = candle_status_init tickers in
      if tickers = [] then (st0\<lparr>ct_message := ''skipped_no_tickers'', ct_ok := True\<rparr>, s)
      else if app_key = [] \<or> app_secret = [] then (st0\<lparr>ct_message := ''kiwoom_credentials_missing''\<rparr>, s)
      else
        (case ensure (snd s) of
           (Inl x, e1) \<Rightarrow> (st0\<lparr>ct_message := ''kiwoom_auth_failed:'' @ exn_str x\<rparr>, fst s, e1)
         | (Inr _, e1) \<Rightarrow>
             (case seed_tickers fetch timeframes tickers st0 (fst s, e1) of
                (st, s1) \<Rightarrow>
                  (let st1 = st\<lparr>ct_errors := take 20 (ct_errors st)\<rparr>
                   in (if ct_tickers st = 0 then st1\<lparr>ct_message := ''no_candles_collected''\<rparr>
                       else st1\<lparr>ct_ok := True,
                                ct_message := (if ct_errors st \<noteq> [] then ''partial_success:'' @ show_nat (length (ct_errors st))
                                               else ''completed'')\<rparr>, s1)))))"

section \<open>Seeding the universe\<close>

record universe_status_report =
  us_bootstrapped :: bool
  us_source :: "string option"
  us_message :: string
  us_seeded_count :: nat

definition seeded_symbol :: "string \<Rightarrow> string \<Rightarrow> string \<Rightarrow> symbol" where
  "seeded_symbol ticker name market =
     \<lparr>sy_ticker = ticker, sy_name = name, sy_market = market, sy_in_universe = True, sy_is_active = False,
      sy_is_blocked = False, sy_status = status_value NORMAL\<rparr>"

text \<open>The rows of the seeds in order, or the first market that is not one.\<close>

fun seeded_symbols :: "seed_item list \<Rightarrow> string + symbol list" where
  "seeded_symbols [] = Inr []"
| "seeded_symbols (i # is) =
     (let ticker = py_strip (si_ticker i); name = py_strip (si_name i)
      in if ticker = [] then seeded_symbols is
         else
           (case normalize_universe_source (Some (si_market i)) of
              None \<Rightarrow> Inl (si_market i)
            | Some m \<Rightarrow>
                (case seeded_symbols is of
                   Inl bad \<Rightarrow> Inl bad
                 | Inr rows \<Rightarrow> Inr (seeded_symbol ticker (if name = [] then ticker else name) m # rows))))"

definition bootstrap_universe_on_first_run :: "('e \<Rightarrow> seed \<times> 'e) \<Rightarrow> universe_db \<times> 'e \<Rightarrow> universe_status_report \<times> universe_db \<times> 'e" where
  "bootstrap_universe_on_first_run seed_fetcher s =
     (let st = \<lparr>us_bootstrapped = False, us_source = None, us_message = ''skipped'', us_seeded_count = 0\<rparr>;
          db_failed = (\<lambda>x. st\<lparr>us_message := (if is_sql_error x then ''bootstrap_db_error:'' else ''bootstrap_error:'') @ exn_str x\<rparr>)
      in case s of (u, e) \<Rightarrow>
      (case count_symbols all_symbols u of
         (Inl x, u1) \<Rightarrow> (db_failed x, u1, e)
       | (Inr n, u1) \<Rightarrow>
           if n > 0 then (st\<lparr>us_message := ''already_initialized:'' @ show_nat n\<rparr>, u1, e)
           else
      (case seed_fetcher e of
         (Inl err, e1) \<Rightarrow> (st\<lparr>us_message := ''seed_fetch_failed:'' @ err\<rparr>, u1, e1)
       | (Inr (trade_date, items), e1) \<Rightarrow>
           if items = [] then (st\<lparr>us_message := ''seed_fetch_empty''\<rparr>, u1, e1)
           else
      (case seeded_symbols items of
         Inl bad \<Rightarrow> (st\<lparr>us_message := ''bootstrap_error:invalid_market:'' @ bad\<rparr>, u1, e1)
       | Inr rows \<Rightarrow>
      (case commit_session \<lparr>se_loaded = [], se_new = rows\<rparr> u1 of
         (Inl x, u2) \<Rightarrow> (db_failed x, u2, e1)
       | (Inr _, u2) \<Rightarrow>
           (\<lparr>us_bootstrapped = True, us_source = Some ''prd_index_constituents'',
             us_message = ''bootstrapped:'' @ show_nat (length rows), us_seeded_count = length rows\<rparr>, u2, e1))))))"

section \<open>Rebalancing\<close>

text \<open>The target of a rebalance: the tickers asked for, or the exchange's lists.\<close>

definition manual_items :: "symbol list \<Rightarrow> string list \<Rightarrow> seed_item list" where
  "manual_items rows manual =
     map (\<lambda>t. case find_symbol t rows of
            None \<Rightarrow> \<lparr>si_ticker = t, si_name = t, si_market = ''USER''\<rparr>
          | Some r \<Rightarrow> \<lparr>si_ticker = t, si_name = sy_name r,
                       si_market = (case normalize_universe_source (Some (sy_market r)) of
                                      None \<Rightarrow> ''USER'' | Some m \<Rightarrow> m)\<rparr>)
       (sort (remdups manual))"

fun labelled_items :: "seed_item list \<Rightarrow> string + seed_item list" where
  "labelled_items [] = Inr []"
| "labelled_items (i # is) =
     (let ticker = py_strip (si_ticker i); name = py_strip (si_name i)
      in if ticker = [] then labelled_items is
         else
           (case normalize_universe_source (Some (si_market i)) of
              None \<Rightarrow> Inl (si_market i)
            | Some m \<Rightarrow>
                (case labelled_items is of
                   Inl bad \<Rightarrow> Inl bad
                 | Inr items \<Rightarrow>
                     Inr (\<lparr>si_ticker = ticker, si_name = (if name = [] then ticker else name), si_market = m\<rparr> # items))))"

datatype rebalance_error =
    SeedFetchFailed string | SeedEmpty | SeedLabel string | NoTarget | RebalanceDbError string

definition seed_target :: "seed \<Rightarrow> rebalance_error + seed_item list" where
  "seed_target seeds =
     (case seeds of
        Inl err \<Rightarrow> Inl (SeedFetchFailed err)
      | Inr (trade_date, items) \<Rightarrow>
          if items = [] then Inl SeedEmpty
          else (case labelled_items items of
                  Inl bad \<Rightarrow> Inl (SeedLabel bad)
                | Inr its \<Rightarrow> Inr (by_ticker si_ticker its)))"

text \<open>A loaded row in the target, and one that is not.\<close>

definition keep_row :: "string set \<Rightarrow> seed_item \<Rightarrow> symbol \<Rightarrow> symbol" where
  "keep_row open_tickers i row =
     row\<lparr>sy_name := si_name i, sy_market := si_market i, sy_in_universe := True,
         sy_status := (if sy_status row \<in> {status_value REMOVED, status_value EXIT_PENDING} \<and> sy_ticker row \<notin> open_tickers
                       then status_value NORMAL else sy_status row)\<rparr>"

definition drop_row :: "string set \<Rightarrow> symbol \<Rightarrow> symbol" where
  "drop_row open_tickers row =
     (if \<not> sy_in_universe row then row
      else if sy_ticker row \<in> open_tickers
      then row\<lparr>sy_status := status_value EXIT_PENDING, sy_is_active := False\<rparr>
      else row\<lparr>sy_in_universe := False, sy_is_active := False, sy_status := status_value REMOVED\<rparr>)"

definition target_item :: "seed_item list \<Rightarrow> string \<Rightarrow> seed_item option" where
  "target_item items t = find (\<lambda>i. si_ticker i = t) items"

definition rebalanced_row :: "string set \<Rightarrow> seed_item list \<Rightarrow> symbol \<Rightarrow> symbol" where
  "rebalanced_row open_tickers items row =
     (case target_item items (sy_ticker row) of
        Some i \<Rightarrow> keep_row open_tickers i row
      | None \<Rightarrow> drop_row open_tickers row)"

definition new_rows :: "seed_item list \<Rightarrow> symbol list \<Rightarrow> symbol list" where
  "new_rows items rows =
     map (\<lambda>i. seeded_symbol (si_ticker i) (si_name i) (si_market i))
       (filter (\<lambda>i. find_symbol (si_ticker i) rows = None) items)"

record rebalance_answer =
  rb_source :: string
  rb_added :: "string list"
  rb_removed :: "string list"
  rb_pending_exit :: "string list"
  rb_kept :: "string list"
  rb_target_count :: nat
  rb_recompute :: recompute_answer

type_synonym 'e universe_state = "universe_db \<times> candle_db \<times> odb \<times> 'e"

definition apply_target ::
  "config \<Rightarrow> string \<Rightarrow> seed_item list \<Rightarrow> symbol list \<Rightarrow> string set \<Rightarrow> universe_db \<times> candle_db
     \<Rightarrow> rebalance_answer py \<times> universe_db \<times> candle_db" where
  "apply_target cfg source items rows open_tickers s =
     (let leaving = filter (\<lambda>r. sy_in_universe r \<and> target_item items (sy_ticker r) = None) rows;
          se = \<lparr>se_loaded = map (rebalanced_row open_tickers items) rows, se_new = new_rows items rows\<rparr>
      in case recompute_active_universe cfg se s of
           (Inl x, s1) \<Rightarrow> (Inl x, s1)
         | (Inr (answer, se1), (u1, c1)) \<Rightarrow>
             (case commit_session se1 u1 of
                (Inl x, u2) \<Rightarrow> (Inl x, u2, c1)
              | (Inr _, u2) \<Rightarrow>
                  (Inr \<lparr>rb_source = source, rb_added = map sy_ticker (new_rows items rows),
                         rb_removed = map sy_ticker (filter (\<lambda>r. sy_ticker r \<notin> open_tickers) leaving),
                         rb_pending_exit = map sy_ticker (filter (\<lambda>r. sy_ticker r \<in> open_tickers) leaving),
                         rb_kept = filter (\<lambda>t. find_symbol t rows \<noteq> None) (map si_ticker items),
                         rb_target_count = length items, rb_recompute = answer\<rparr>, u2, c1)))"

definition catch_db :: "rebalance_answer py \<Rightarrow> (rebalance_error + rebalance_answer) py" where
  "catch_db r = (case r of Inr a \<Rightarrow> Inr (Inr a) | Inl x \<Rightarrow> if is_sql_error x then Inr (Inl (RebalanceDbError (exn_str x))) else Inl x)"

definition rebalance_universe ::
  "config \<Rightarrow> ('e \<Rightarrow> seed \<times> 'e) \<Rightarrow> string list \<Rightarrow> 'e universe_state \<Rightarrow> (rebalance_error + rebalance_answer) py \<times> 'e universe_state" where
  "rebalance_universe cfg seed_fetcher tickers s =
     (case s of (u, c, d, e) \<Rightarrow>
      (case query_symbols all_symbols 20000 \<lparr>se_loaded = [], se_new = []\<rparr> u of
         (Inl x, u1) \<Rightarrow> (catch_db (Inl x), u1, c, d, e)
       | (Inr rows, u1) \<Rightarrow>
      (case list_open_positions d of
         (Inl x, d1) \<Rightarrow> (catch_db (Inl x), u1, c, d1, e)
       | (Inr positions, d1) \<Rightarrow>
           (let manual = filter (\<lambda>t. t \<noteq> []) (map py_strip tickers);
                open_tickers = set (map pos_ticker positions);
                (target, source, e1) =
                  (if manual \<noteq> [] then (Inr (manual_items rows manual), ''manual'', e)
                   else (case seed_fetcher e of (seeds, e1) \<Rightarrow> (seed_target seeds, ''prd_index_constituents'', e1)))
            in case target of
                 Inl err \<Rightarrow> (Inr (Inl err), u1, c, d1, e1)
               | Inr [] \<Rightarrow> (Inr (Inl NoTarget), u1, c, d1, e1)
               | Inr items \<Rightarrow>
                   (case apply_target cfg source items rows open_tickers (u1, c) of
                      (r, u2, c2) \<Rightarrow> (catch_db r, u2, c2, d1, e1))))))"

text \<open>\<open>_handle_config_changed\<close>: any exception is logged only.\<close>

definition handle_config_changed :: "config \<Rightarrow> string \<Rightarrow> universe_db \<times> candle_db \<Rightarrow> universe_db \<times> candle_db" where
  "handle_config_changed cfg key s =
     (if key \<noteq> ''liquidity_threshold'' then s
      else
        (case recompute_active_universe cfg \<lparr>se_loaded = [], se_new = []\<rparr> s of
           (Inl _, s1) \<Rightarrow> s1
         | (Inr (answer, se), (u1, c1)) \<Rightarrow> (snd (commit_session se u1), c1)))"

section \<open>Sessions\<close>

lemma find_symbol_Some: "find_symbol t rows = Some r \<Longrightarrow> sy_ticker r = t \<and> r \<in> set rows"
  by (induction rows) (auto simp: find_symbol_def split: if_splits)

lemma find_symbol_Cons: "find_symbol t (r # rows) = (if sy_ticker r = t then Some r else find_symbol t rows)"
  by (simp add: find_symbol_def)

lemma find_symbol_append:
  "find_symbol t (xs @ ys) = (case find_symbol t xs of None \<Rightarrow> find_symbol t ys | Some r \<Rightarrow> Some r)"
  by (induction xs) (simp_all add: find_symbol_def)

lemma find_symbol_map:
  "(\<And>r. sy_ticker (f r) = sy_ticker r) \<Longrightarrow> find_symbol t (map f rows) = map_option f (find_symbol t rows)"
  by (induction rows) (simp_all add: find_symbol_def)

lemma find_symbol_distinct:
  "distinct (map sy_ticker rows) \<Longrightarrow> r \<in> set rows \<Longrightarrow> find_symbol (sy_ticker r) rows = Some r"
  by (induction rows) (auto simp: find_symbol_Cons)

lemma find_symbol_mset:
  assumes "mset xs = mset ys" "distinct (map sy_ticker xs)"
  shows "find_symbol t xs = find_symbol t ys"
proof -
  have s: "set xs = set ys" using assms(1) by (metis set_mset_mset)
  have d: "distinct (map sy_ticker ys)" using assms by (metis mset_map mset_eq_imp_distinct_iff)
  show ?thesis
  proof (cases "find_symbol t xs")
    case None
    then have "t \<notin> sy_ticker ` set ys" using s by (simp add: find_symbol_None)
    then show ?thesis using None by (simp add: find_symbol_None [symmetric])
  next
    case (Some r)
    from find_symbol_Some [OF this] s have "sy_ticker r = t" "r \<in> set ys" by auto
    then show ?thesis using find_symbol_distinct [OF d] Some by metis
  qed
qed

lemma session_object_ticker [simp]: "sy_ticker (session_object se row) = sy_ticker row"
  by (auto simp: session_object_def dest: find_symbol_Some split: option.split)

lemma foldl_put_symbol:
  assumes "distinct (map sy_ticker rows)"
  shows "find_symbol t (foldl (\<lambda>acc r. put_symbol r acc) l rows)
           = (case find_symbol t rows of None \<Rightarrow> find_symbol t l | Some r \<Rightarrow> Some r)"
  using assms
proof (induction rows arbitrary: l)
  case (Cons r rows)
  then have "find_symbol (sy_ticker r) rows = None" by (simp add: find_symbol_None)
  then show ?case using Cons by (auto simp: find_symbol_Cons find_put_symbol split: option.split)
qed (simp add: find_symbol_def)

lemma session_object_keep:
  assumes "distinct (map sy_ticker rows)"
  shows "session_object (keep_objects rows se) b
           = (case find_symbol (sy_ticker b) rows of None \<Rightarrow> session_object se b | Some r \<Rightarrow> r)"
  by (auto simp: session_object_def keep_objects_def foldl_put_symbol [OF assms] split: option.split)

lemma keep_objects_new [simp]: "se_new (keep_objects rows se) = se_new se"
  by (simp add: keep_objects_def)

lemma commit_session_cases:
  assumes "commit_session se u = (r, u')"
  obtains (failed) "r = Inl db_error" "un_rows u' = un_rows u"
  | (stored) "r = Inr ()" "un_rows u' = map (session_object se) (un_rows u) @ se_new se" "universe_inv u'"
  using assms by (auto simp: commit_session_def universe_inv_def Let_def split: if_splits)

lemma commit_session_inv: "universe_inv u \<Longrightarrow> commit_session se u = (r, u') \<Longrightarrow> universe_inv u'"
  by (auto simp: commit_session_def universe_inv_def Let_def split: if_splits)

text \<open>With room for all rows, a query answers the session's objects of the committed rows selected.\<close>

lemma query_symbols_Inr:
  assumes "query_symbols f n se u = (Inr rows, u')" "length (un_rows u) \<le> n"
  shows "rows = map (session_object se) (sort_key sy_ticker (filter (symbol_matches f) (un_rows u)))" "u' = un_tick u"
proof -
  have "length (sort_key sy_ticker (filter (symbol_matches f) (un_rows u))) \<le> n"
    using le_trans [OF length_filter_le assms(2)] by simp
  then show "rows = map (session_object se) (sort_key sy_ticker (filter (symbol_matches f) (un_rows u)))" "u' = un_tick u"
    using assms(1) by (auto simp: query_symbols_def list_symbols_def page_def split: if_splits)
qed

lemma query_symbols_frame: "query_symbols f n se u = (r, u') \<Longrightarrow> u' = un_tick u \<and> (\<forall>x. r = Inl x \<longrightarrow> x = db_error)"
  by (auto simp: query_symbols_def list_symbols_def split: if_splits)

lemma matches_all [simp]: "symbol_matches all_symbols r" "symbol_matches universe_only r = sy_in_universe r"
  by (simp_all add: symbol_matches_def all_symbols_def universe_only_def opt_bool_def opt_filter_def)

lemma session_object_nil [simp]: "session_object \<lparr>se_loaded = [], se_new = ns\<rparr> r = r"
  by (simp add: session_object_def find_symbol_def)

lemma filter_all_symbols [simp]: "filter (symbol_matches all_symbols) rows = rows"
  "filter (symbol_matches universe_only) rows = filter sy_in_universe rows"
  by (simp add: filter_id_conv) (rule filter_cong, simp_all)

section \<open>Activation\<close>

definition to_activate :: "pyfloat \<Rightarrow> candle_row list \<Rightarrow> symbol \<Rightarrow> bool" where
  "to_activate th candles r \<longleftrightarrow> \<not> frozen r \<and> liquid th (recent_rows (sy_ticker r) ''1d'' 20 candles)"

lemma check_row_cases:
  assumes "check_row th row c = (r, c')"
  shows "ca_rows c' = ca_rows c \<and> (case r of Inl x \<Rightarrow> x = db_error | Inr (act, insuff) \<Rightarrow> act = to_activate th (ca_rows c) row)"
  using assms by (auto simp: check_row_def to_activate_def list_recent_def ca_tick_def split: if_splits)

lemma recompute_rows_frame: "recompute_rows th rows n c = (r, c') \<Longrightarrow> ca_rows c' = ca_rows c \<and> (\<forall>x. r = Inl x \<longrightarrow> x = db_error)"
proof (induction rows arbitrary: n c r c')
  case (Cons row rows)
  obtain r1 c1 where one: "check_row th row c = (r1, c1)" by (rule prod.exhaust)
  note c1 = check_row_cases [OF one]
  show ?case
  proof (cases r1)
    case (Inl x)
    then show ?thesis using Cons.prems one c1 by auto
  next
    case (Inr p)
    obtain act insuff where p: "p = (act, insuff)" by (rule prod.exhaust)
    obtain r2 c2 where rest: "recompute_rows th rows (recompute_row row act insuff n) c1 = (r2, c2)" by (rule prod.exhaust)
    from Cons.IH [OF rest] show ?thesis using Cons.prems one rest c1 Inr p by (cases r2) auto
  qed
qed auto

lemma recompute_rows_Inr:
  "recompute_rows th rows n c = (Inr (out, n'), c') \<Longrightarrow>
     out = map (\<lambda>r. r\<lparr>sy_is_active := to_activate th (ca_rows c) r\<rparr>) rows \<and>
     rn_active n' = rn_active n + length (filter (to_activate th (ca_rows c)) rows) \<and>
     rn_updated n' = rn_updated n + length (filter (\<lambda>r. sy_is_active r \<noteq> to_activate th (ca_rows c) r) rows)"
proof (induction rows arbitrary: n c out)
  case (Cons row rows)
  obtain r1 c1 where one: "check_row th row c = (r1, c1)" by (rule prod.exhaust)
  with Cons.prems obtain act insuff where r1: "r1 = Inr (act, insuff)" by (cases r1) auto
  have act: "act = to_activate th (ca_rows c) row" and c1: "ca_rows c1 = ca_rows c"
    using check_row_cases [OF one] r1 by auto
  obtain r2 c2 where rest: "recompute_rows th rows (recompute_row row act insuff n) c1 = (r2, c2)" by (rule prod.exhaust)
  with Cons.prems one r1 obtain out2 n2 where r2: "r2 = Inr (out2, n2)" by (cases r2) auto
  have eq: "n2 = n'" "c2 = c'" "out = row\<lparr>sy_is_active := act\<rparr> # out2"
    using Cons.prems one r1 rest r2 by auto
  from Cons.IH [OF rest [unfolded r2 eq]] show ?case using act c1 eq by (auto simp: recompute_row_def)
qed simp

text \<open>What a recomputation makes of the session's objects of the committed rows.\<close>

lemma recompute_Inr:
  assumes "recompute_active_universe cfg se (u, c) = (Inr (a, se1), u1, c1)" "universe_inv u" "length (un_rows u) \<le> 20000"
  obtains eok where "liquidity_threshold cfg = Inr eok" "u1 = un_tick u" "ca_rows c1 = ca_rows c" "se_new se1 = se_new se"
    "\<forall>b\<in>set (un_rows u). session_object se1 b =
        (let r = session_object se b
         in if sy_in_universe b then r\<lparr>sy_is_active := to_activate (pf_scale 100000000 eok) (ca_rows c) r\<rparr> else r)"
proof -
  obtain eok where eok: "liquidity_threshold cfg = Inr eok"
    using assms(1) by (cases "liquidity_threshold cfg") (auto simp: recompute_active_universe_def)
  let ?upd = "\<lambda>r. r\<lparr>sy_is_active := to_activate (pf_scale 100000000 eok) (ca_rows c) r\<rparr>"
  let ?n0 = "\<lparr>rn_active = 0, rn_updated = 0, rn_insufficient = 0\<rparr>"
  obtain q u2 where q: "query_symbols universe_only 20000 se u = (q, u2)" by (rule prod.exhaust)
  with assms(1) eok obtain rows where qr: "q = Inr rows" by (cases q) (auto simp: recompute_active_universe_def)
  note rows = query_symbols_Inr [OF q [unfolded qr] assms(3)]
  obtain r c2 where rc: "recompute_rows (pf_scale 100000000 eok) rows ?n0 c = (r, c2)" by (rule prod.exhaust)
  with assms(1) eok q qr obtain out n where r: "r = Inr (out, n)" by (cases r) (auto simp: recompute_active_universe_def)
  have out: "out = map ?upd rows" using recompute_rows_Inr [OF rc [unfolded r]] by blast
  have eq: "se1 = keep_objects out se" "u1 = u2" "c1 = c2"
    using assms(1) eok q qr rc r by (auto simp: recompute_active_universe_def)
  let ?base = "sort_key sy_ticker (filter sy_in_universe (un_rows u))"
  have base: "rows = map (session_object se) ?base" using rows(1) by simp
  have d: "distinct (map sy_ticker (filter sy_in_universe (un_rows u)))"
    using assms(2) by (simp add: universe_inv_def distinct_map_filter)
  have fb: "find_symbol t ?base = find_symbol t (filter sy_in_universe (un_rows u))" for t
    using d by (intro find_symbol_mset [symmetric]) simp_all
  have m: "map sy_ticker out = map sy_ticker ?base" by (simp add: out base)
  have db: "distinct (map sy_ticker ?base)"
    using d by (metis mset_map mset_eq_imp_distinct_iff mset_sort)
  have "session_object se1 b = (let r = session_object se b in if sy_in_universe b then ?upd r else r)"
    if b: "b \<in> set (un_rows u)" for b
  proof -
    have "find_symbol (sy_ticker b) out = map_option ?upd (map_option (session_object se) (find_symbol (sy_ticker b) ?base))"
      by (simp add: out base find_symbol_map option.map_comp)
    also have "find_symbol (sy_ticker b) ?base = (if sy_in_universe b then Some b else None)"
    proof (cases "sy_in_universe b")
      case True
      then show ?thesis using b find_symbol_distinct [OF d, of b] by (simp add: fb)
    next
      case False
      have "b' = b" if "b' \<in> set (un_rows u)" "sy_ticker b' = sy_ticker b" for b'
        using assms(2) b that by (auto simp: universe_inv_def distinct_map dest: inj_onD)
      then show ?thesis using False by (auto simp: fb find_symbol_None)
    qed
    finally show ?thesis
      using m db by (simp add: eq session_object_keep Let_def)
  qed
  then show thesis
    using that [OF eok] rows(2) eq recompute_rows_frame [OF rc] by simp
qed

lemma recompute_frame:
  assumes "recompute_active_universe cfg se (u, c) = (r, u1, c1)"
  shows "un_rows u1 = un_rows u" "ca_rows c1 = ca_rows c"
proof -
  have "un_rows u1 = un_rows u \<and> ca_rows c1 = ca_rows c"
  proof (cases "liquidity_threshold cfg")
    case (Inl x)
    then show ?thesis using assms by (auto simp: recompute_active_universe_def)
  next
    case (Inr eok)
    obtain q u2 where q: "query_symbols universe_only 20000 se u = (q, u2)" by (rule prod.exhaust)
    note u2 = query_symbols_frame [OF q]
    show ?thesis
    proof (cases q)
      case (Inl x)
      then show ?thesis using assms Inr q u2 by (auto simp: recompute_active_universe_def)
    next
      case rows: (Inr rows)
      obtain rr c2 where rc: "recompute_rows (pf_scale 100000000 eok) rows \<lparr>rn_active = 0, rn_updated = 0, rn_insufficient = 0\<rparr> c = (rr, c2)"
        by (rule prod.exhaust)
      then show ?thesis using assms Inr q u2 rows recompute_rows_frame [OF rc]
        by (cases rr) (auto simp: recompute_active_universe_def)
    qed
  qed
  then show "un_rows u1 = un_rows u" "ca_rows c1 = ca_rows c" by blast+
qed

section \<open>Rebalancing\<close>

definition recomputed_row :: "pyfloat \<Rightarrow> candle_row list \<Rightarrow> symbol \<Rightarrow> symbol \<Rightarrow> symbol" where
  "recomputed_row th candles before row = (if sy_in_universe before then row\<lparr>sy_is_active := to_activate th candles row\<rparr> else row)"

lemma rebalanced_row_ticker [simp]: "sy_ticker (rebalanced_row opn items row) = sy_ticker row"
  by (simp add: rebalanced_row_def keep_row_def drop_row_def split: option.split)

lemma recomputed_row_simps [simp]:
  "sy_ticker (recomputed_row th candles b row) = sy_ticker row" "sy_status (recomputed_row th candles b row) = sy_status row"
  "sy_in_universe (recomputed_row th candles b row) = sy_in_universe row"
  "sy_is_blocked (recomputed_row th candles b row) = sy_is_blocked row"
  by (simp_all add: recomputed_row_def)

lemma new_rows_find:
  "find_symbol t (new_rows items rows) \<noteq> None \<Longrightarrow> find_symbol t rows = None"
  by (induction items) (auto simp: new_rows_def find_symbol_Cons seeded_symbol_def find_symbol_def split: if_splits)

lemma apply_target_Inr:
  assumes "apply_target cfg source items rows opn (u, c) = (Inr a, u', c')"
    and "mset rows = mset (un_rows u)" "universe_inv u" "length (un_rows u) \<le> 20000"
  obtains eok where "liquidity_threshold cfg = Inr eok" "universe_inv u'"
    "un_rows u' = map (\<lambda>b. recomputed_row (pf_scale 100000000 eok) (ca_rows c) b (rebalanced_row opn items b)) (un_rows u)
                  @ new_rows items rows"
    "rb_added a = map sy_ticker (new_rows items rows)"
    "rb_kept a = filter (\<lambda>t. find_symbol t rows \<noteq> None) (map si_ticker items)"
    "set (rb_removed a) = {sy_ticker r |r. r \<in> set (un_rows u) \<and> sy_in_universe r \<and> target_item items (sy_ticker r) = None \<and> sy_ticker r \<notin> opn}"
    "set (rb_pending_exit a) = {sy_ticker r |r. r \<in> set (un_rows u) \<and> sy_in_universe r \<and> target_item items (sy_ticker r) = None \<and> sy_ticker r \<in> opn}"
proof -
  let ?se = "\<lparr>se_loaded = map (rebalanced_row opn items) rows, se_new = new_rows items rows\<rparr>"
  have sets: "set rows = set (un_rows u)" using assms(2) by (metis set_mset_mset)
  have d: "distinct (map sy_ticker rows)" using assms(2,3) unfolding universe_inv_def by (metis mset_map mset_eq_imp_distinct_iff)
  obtain r1 u1 c1 where rec: "recompute_active_universe cfg ?se (u, c) = (r1, u1, c1)" by (rule prod_cases3)
  with assms(1) obtain ans se1 where r1: "r1 = Inr (ans, se1)" by (cases r1) (auto simp: apply_target_def Let_def)
  obtain r2 u2 where com: "commit_session se1 u1 = (r2, u2)" by (rule prod.exhaust)
  with assms(1) rec r1 have r2: "r2 = Inr ()" by (cases r2) (auto simp: apply_target_def Let_def)
  have a: "u' = u2" "rb_added a = map sy_ticker (new_rows items rows)"
    "rb_kept a = filter (\<lambda>t. find_symbol t rows \<noteq> None) (map si_ticker items)"
    "rb_removed a = map sy_ticker (filter (\<lambda>r. sy_ticker r \<notin> opn) (filter (\<lambda>r. sy_in_universe r \<and> target_item items (sy_ticker r) = None) rows))"
    "rb_pending_exit a = map sy_ticker (filter (\<lambda>r. sy_ticker r \<in> opn) (filter (\<lambda>r. sy_in_universe r \<and> target_item items (sy_ticker r) = None) rows))"
    using assms(1) rec r1 com r2 by (auto simp: apply_target_def Let_def)
  from recompute_Inr [OF rec [unfolded r1] assms(3,4)] obtain eok where
    eok: "liquidity_threshold cfg = Inr eok" and u1: "u1 = un_tick u" and new: "se_new se1 = new_rows items rows"
    and obj: "\<forall>b\<in>set (un_rows u). session_object se1 b =
        (let r = session_object ?se b
         in if sy_in_universe b then r\<lparr>sy_is_active := to_activate (pf_scale 100000000 eok) (ca_rows c) r\<rparr> else r)"
    by (metis session.select_convs(2))
  have se: "session_object ?se b = rebalanced_row opn items b" if "b \<in> set (un_rows u)" for b
    using that sets find_symbol_distinct [OF d, of b] by (simp add: session_object_def find_symbol_map)
  have rows': "un_rows u2 = map (session_object se1) (un_rows u) @ new_rows items rows" and inv: "universe_inv u2"
    using com [unfolded r2] u1 new by (auto elim!: commit_session_cases simp: db_error_def)
  have "map (session_object se1) (un_rows u)
      = map (\<lambda>b. recomputed_row (pf_scale 100000000 eok) (ca_rows c) b (rebalanced_row opn items b)) (un_rows u)"
    by (rule map_cong) (simp_all add: obj se recomputed_row_def Let_def)
  then show thesis
    using that [OF eok] inv rows' a sets by auto
qed

lemma apply_target_frame:
  assumes "apply_target cfg source items rows opn (u, c) = (r, u', c')"
  shows "ca_rows c' = ca_rows c \<and> (\<forall>x. r = Inl x \<longrightarrow> un_rows u' = un_rows u)"
proof -
  let ?se = "\<lparr>se_loaded = map (rebalanced_row opn items) rows, se_new = new_rows items rows\<rparr>"
  obtain r1 u1 c1 where rec: "recompute_active_universe cfg ?se (u, c) = (r1, u1, c1)" by (rule prod_cases3)
  note fr = recompute_frame [OF rec]
  show ?thesis
  proof (cases r1)
    case (Inl x)
    then show ?thesis using assms rec fr by (auto simp: apply_target_def Let_def)
  next
    case (Inr p)
    obtain ans se1 where p: "p = (ans, se1)" by (rule prod.exhaust)
    obtain r2 u2 where com: "commit_session se1 u1 = (r2, u2)" by (rule prod.exhaust)
    then show ?thesis using assms rec Inr p fr
      by (cases rule: commit_session_cases [OF com]) (auto simp: apply_target_def Let_def)
  qed
qed

lemma manual_or_seeded:
  "(case (if manual \<noteq> [] then (Inr (manual_items rows manual), ''manual'', e)
          else (case f e of (seeds, e1) \<Rightarrow> (seed_target seeds, ''prd_index_constituents'', e1))) of
      (target, source, e1) \<Rightarrow> k target source e1)
    = (if manual \<noteq> [] then k (Inr (manual_items rows manual)) ''manual'' e
       else k (seed_target (fst (f e))) ''prd_index_constituents'' (snd (f e)))"
  by (simp split: prod.split)

lemma rebalance_cases:
  assumes "rebalance_universe cfg f tickers (u, c, d, e) = (r, u', c', d', e')"
  obtains (unchanged) "un_rows u' = un_rows u" "c' = c" "od_positions d' = od_positions d" "\<And>a. r \<noteq> Inr (Inr a)"
  | (applied) rows items source r1 where
      "query_symbols all_symbols 20000 \<lparr>se_loaded = [], se_new = []\<rparr> u = (Inr rows, un_tick u)"
      "apply_target cfg source items rows {pos_ticker p |p. p \<in> set (od_positions d) \<and> pos_state p \<noteq> ''CLOSED''} (un_tick u, c)
         = (r1, u', c')" "r = catch_db r1" "od_positions d' = od_positions d"
proof -
  obtain q u1 where q: "query_symbols all_symbols 20000 \<lparr>se_loaded = [], se_new = []\<rparr> u = (q, u1)" by (rule prod.exhaust)
  note u1 = query_symbols_frame [OF q]
  obtain ps d1 where ps: "list_open_positions d = (ps, d1)" by (rule prod.exhaust)
  have d1: "od_positions d1 = od_positions d"
    "\<And>xs. ps = Inr xs \<Longrightarrow> set (map pos_ticker xs) = {pos_ticker p |p. p \<in> set (od_positions d) \<and> pos_state p \<noteq> ''CLOSED''}"
    using ps by (auto simp: list_open_positions_def split: if_splits)
  have no: "catch_db (Inl x) \<noteq> Inr (Inr a)" for x a by (simp add: catch_db_def)
  show thesis
  proof (cases q)
    case (Inl x)
    then show thesis using assms q u1 no unchanged by (auto simp: rebalance_universe_def)
  next
    case rows: (Inr rows)
    show thesis
    proof (cases ps)
      case (Inl x)
      then show thesis using assms q u1 no rows ps d1 unchanged by (auto simp: rebalance_universe_def)
    next
      case xs: (Inr xs)
      let ?man = "filter (\<lambda>t. t \<noteq> []) (map py_strip tickers)"
      obtain target source e1 where t: "(if ?man \<noteq> [] then (Inr (manual_items rows ?man), ''manual'', e)
          else (case f e of (seeds, e1) \<Rightarrow> (seed_target seeds, ''prd_index_constituents'', e1))) = (target, source, e1)"
        by (rule prod_cases3)
      have eq: "rebalance_universe cfg f tickers (u, c, d, e) =
          (case target of Inl err \<Rightarrow> (Inr (Inl err), u1, c, d1, e1)
           | Inr [] \<Rightarrow> (Inr (Inl NoTarget), u1, c, d1, e1)
           | Inr items \<Rightarrow> (case apply_target cfg source items rows (set (map pos_ticker xs)) (u1, c) of
               (r, u2, c2) \<Rightarrow> (catch_db r, u2, c2, d1, e1)))"
        by (simp only: rebalance_universe_def prod.case q rows ps xs sum.case Let_def t)
      show thesis
      proof (cases "\<exists>i is. target = Inr (i # is)")
        case False
        then show thesis using assms eq u1 d1(1) unchanged by (auto split: sum.splits list.splits)
      next
        case True
        then obtain i "is" where items: "target = Inr (i # is)" by blast
        obtain r1 u2 c2 where ap: "apply_target cfg source (i # is) rows (set (map pos_ticker xs)) (u1, c) = (r1, u2, c2)"
          by (rule prod_cases3)
        then have "u' = u2" "c' = c2" "d' = d1" "r = catch_db r1" using assms eq items by auto
        then show thesis using applied [of rows source "i # is" r1] q rows ap u1 d1(1) d1(2) [OF xs] by auto
      qed
    qed
  qed
qed

lemma catch_db_ok: "catch_db r = Inr (Inr a) \<longleftrightarrow> r = Inr a"
  by (auto simp: catch_db_def split: sum.splits)

lemma target_item_None: "target_item items t = None \<longleftrightarrow> t \<notin> si_ticker ` set items"
  by (auto simp: target_item_def find_None_iff)

lemma rebalance_row:
  assumes "rebalance_universe cfg f tickers (u, c, d, e) = (Inr (Inr a), u', c', d', e')"
    and "universe_inv u" "length (un_rows u) \<le> 20000" "find_symbol t (un_rows u) = Some r"
  obtains eok items where "liquidity_threshold cfg = Inr eok" "universe_inv u'"
    "find_symbol t (un_rows u') = Some (recomputed_row (pf_scale 100000000 eok) (ca_rows c) r
       (rebalanced_row {pos_ticker p |p. p \<in> set (od_positions d) \<and> pos_state p \<noteq> ''CLOSED''} items r))"
    "t \<in> set (rb_kept a) \<longleftrightarrow> target_item items t \<noteq> None"
    "target_item items t = None \<and> sy_in_universe r \<longrightarrow>
       (if \<exists>p\<in>set (od_positions d). pos_state p \<noteq> ''CLOSED'' \<and> pos_ticker p = t
        then t \<in> set (rb_pending_exit a) else t \<in> set (rb_removed a))"
  using assms(1)
proof (cases rule: rebalance_cases)
  case (applied rows items source r1)
  let ?opn = "{pos_ticker p |p. p \<in> set (od_positions d) \<and> pos_state p \<noteq> ''CLOSED''}"
  have r1: "r1 = Inr a" using applied(3) by (simp add: catch_db_ok [symmetric])
  have rows: "rows = sort_key sy_ticker (un_rows u)"
    using query_symbols_Inr(1) [OF applied(1) assms(3)] by (simp add: map_idI)
  have m: "mset rows = mset (un_rows (un_tick u))" "universe_inv (un_tick u)" "length (un_rows (un_tick u)) \<le> 20000"
    using assms(2,3) by (simp_all add: rows)
  obtain eok where eok: "liquidity_threshold cfg = Inr eok" and inv: "universe_inv u'"
    and u': "un_rows u' = map (\<lambda>b. recomputed_row (pf_scale 100000000 eok) (ca_rows c) b (rebalanced_row ?opn items b)) (un_rows u)
                  @ new_rows items rows"
    and "rb_added a = map sy_ticker (new_rows items rows)"
    and kept: "rb_kept a = filter (\<lambda>t. find_symbol t rows \<noteq> None) (map si_ticker items)"
    and removed: "set (rb_removed a) = {sy_ticker r |r. r \<in> set (un_rows u) \<and> sy_in_universe r \<and> target_item items (sy_ticker r) = None \<and> sy_ticker r \<notin> ?opn}"
    and pending: "set (rb_pending_exit a) = {sy_ticker r |r. r \<in> set (un_rows u) \<and> sy_in_universe r \<and> target_item items (sy_ticker r) = None \<and> sy_ticker r \<in> ?opn}"
    by (rule apply_target_Inr [OF applied(2) [unfolded r1] m, unfolded un_tick_simps])
  note r = find_symbol_Some [OF assms(4)]
  show thesis
  proof (rule that [OF eok inv])
    show "find_symbol t (un_rows u') = Some (recomputed_row (pf_scale 100000000 eok) (ca_rows c) r (rebalanced_row ?opn items r))"
      by (simp add: u' find_symbol_append find_symbol_map assms(4))
    show "t \<in> set (rb_kept a) \<longleftrightarrow> target_item items t \<noteq> None"
      using r by (auto simp: kept target_item_None find_symbol_None rows)
    show "target_item items t = None \<and> sy_in_universe r \<longrightarrow>
       (if \<exists>p\<in>set (od_positions d). pos_state p \<noteq> ''CLOSED'' \<and> pos_ticker p = t
        then t \<in> set (rb_pending_exit a) else t \<in> set (rb_removed a))"
    proof (intro impI)
      assume gone: "target_item items t = None \<and> sy_in_universe r"
      show "if \<exists>p\<in>set (od_positions d). pos_state p \<noteq> ''CLOSED'' \<and> pos_ticker p = t
        then t \<in> set (rb_pending_exit a) else t \<in> set (rb_removed a)"
      proof (cases "t \<in> ?opn")
        case True
        then have "t \<in> set (rb_pending_exit a)" using r gone unfolding pending by (intro CollectI exI [of _ r]) simp
        then show ?thesis using True by auto
      next
        case False
        then have "t \<in> set (rb_removed a)" using r gone unfolding removed by (intro CollectI exI [of _ r]) simp
        then show ?thesis using False by auto
      qed
    qed
  qed
next
  case unchanged
  then show thesis by blast
qed

text \<open>
  C13: a rebalance that is answered keeps every symbol it knew, with its block: one of the target is in
  the universe; one that leaves is inactive, and stays in the universe as pending its exit exactly
  if a position of it is open, otherwise it is removed; the others are untouched. A symbol that was
  in the universe is active only if its daily bars are liquid enough.
\<close>

theorem rebalance_keeps_held_symbols:
  assumes "rebalance_universe cfg f tickers (u, c, d, e) = (Inr (Inr a), u', c', d', e')"
    and "universe_inv u" "length (un_rows u) \<le> 20000" "find_symbol t (un_rows u) = Some r"
  shows "\<exists>r'. find_symbol t (un_rows u') = Some r' \<and> sy_is_blocked r' = sy_is_blocked r \<and>
    (t \<in> set (rb_kept a) \<longrightarrow> sy_in_universe r') \<and>
    (t \<notin> set (rb_kept a) \<and> sy_in_universe r \<longrightarrow> \<not> sy_is_active r' \<and>
       (if \<exists>p\<in>set (od_positions d). pos_state p \<noteq> ''CLOSED'' \<and> pos_ticker p = t
        then sy_in_universe r' \<and> sy_status r' = status_value EXIT_PENDING \<and> t \<in> set (rb_pending_exit a)
        else \<not> sy_in_universe r' \<and> sy_status r' = status_value REMOVED \<and> t \<in> set (rb_removed a))) \<and>
    (t \<notin> set (rb_kept a) \<and> \<not> sy_in_universe r \<longrightarrow> r' = r) \<and>
    (sy_in_universe r \<and> sy_is_active r' \<longrightarrow>
       (\<exists>eok. liquidity_threshold cfg = Inr eok \<and> liquid (pf_scale 100000000 eok) (recent_rows t ''1d'' 20 (ca_rows c))))"
proof -
  let ?opn = "{pos_ticker p |p. p \<in> set (od_positions d) \<and> pos_state p \<noteq> ''CLOSED''}"
  obtain eok items where r': "liquidity_threshold cfg = Inr eok" "universe_inv u'"
    "find_symbol t (un_rows u') = Some (recomputed_row (pf_scale 100000000 eok) (ca_rows c) r (rebalanced_row ?opn items r))"
    "t \<in> set (rb_kept a) \<longleftrightarrow> target_item items t \<noteq> None"
    "target_item items t = None \<and> sy_in_universe r \<longrightarrow>
       (if \<exists>p\<in>set (od_positions d). pos_state p \<noteq> ''CLOSED'' \<and> pos_ticker p = t
        then t \<in> set (rb_pending_exit a) else t \<in> set (rb_removed a))"
    by (rule rebalance_row [OF assms])
  note r = find_symbol_Some [OF assms(4)]
  show ?thesis
    using r r' by (intro exI [of _ "recomputed_row (pf_scale 100000000 eok) (ca_rows c) r (rebalanced_row ?opn items r)"])
      (auto simp: rebalanced_row_def keep_row_def drop_row_def to_activate_def frozen_def recomputed_row_def split: option.splits)
qed

text \<open>
  C39: a rebalance that is not answered with a success, for whatever reason and after whichever
  statement, has changed no symbol; positions and candles never change.
\<close>

theorem failed_rebalance_changes_nothing:
  assumes "rebalance_universe cfg f tickers (u, c, d, e) = (r, u', c', d', e')"
  shows "ca_rows c' = ca_rows c \<and> od_positions d' = od_positions d \<and> ((\<nexists>a. r = Inr (Inr a)) \<longrightarrow> un_rows u' = un_rows u)"
  using assms
proof (cases rule: rebalance_cases)
  case (applied rows items source r1)
  then show ?thesis using apply_target_frame [OF applied(2)] by (cases r1) (auto simp: catch_db_ok)
qed simp

section \<open>The exchange's lists\<close>

lemma by_ticker_keys: "map key (by_ticker key items) = sort (remdups (map key items))"
proof -
  have "key (last (filter (\<lambda>i. key i = t) items)) = t" if "t \<in> key ` set items" for t
  proof -
    from that have "filter (\<lambda>i. key i = t) items \<noteq> []" by (auto simp: filter_empty_conv)
    from last_in_set [OF this] show ?thesis by simp
  qed
  then show ?thesis unfolding by_ticker_def map_map comp_def by (intro map_idI) simp
qed

lemma by_ticker_set: "set (by_ticker key items) \<subseteq> set items"
proof
  fix x assume "x \<in> set (by_ticker key items)"
  then obtain t where t: "t \<in> key ` set items" "x = last (filter (\<lambda>i. key i = t) items)" by (auto simp: by_ticker_def)
  then have "filter (\<lambda>i. key i = t) items \<noteq> []" by (auto simp: filter_empty_conv)
  from last_in_set [OF this] t show "x \<in> set items" by simp
qed

lemma by_ticker_distinct:
  assumes "distinct (map key items)"
  shows "mset (by_ticker key items) = mset items"
proof -
  have d: "distinct (by_ticker key items)"
    using by_ticker_keys [of key items] by (metis distinct_map distinct_remdups distinct_sort)
  have "x \<in> set (by_ticker key items)" if "x \<in> set items" for x
  proof -
    from that have "key x \<in> set (map key (by_ticker key items))" by (simp add: by_ticker_keys)
    then obtain y where "y \<in> set (by_ticker key items)" "key y = key x" by auto
    then show ?thesis using that by_ticker_set [of key items] assms by (metis distinct_map inj_onD subsetD)
  qed
  then have "set (by_ticker key items) = set items" using by_ticker_set by blast
  then show ?thesis using d assms by (simp add: set_eq_iff_mset_eq_distinct [symmetric] distinct_map)
qed

lemma krx_constituents_Inr:
  assumes "krx_fetch_index_constituents web market a b c d g h e = (Inr items, e')"
  shows "distinct (map si_ticker items) \<and> (\<forall>i\<in>set items. si_market i = market)"
proof -
  have "\<exists>payload. items = by_ticker si_ticker (List.map_filter (item_of_row (kw_fmt web) market) (krx_json_rows payload))"
    using assms by (auto simp: krx_fetch_index_constituents_def Let_def split: sum.splits prod.splits)
  then obtain its where its: "items = by_ticker si_ticker its" "\<forall>i\<in>set its. si_market i = market"
    by (auto simp: List.map_filter_def item_of_row_def Let_def split: if_splits)
  then show ?thesis using by_ticker_keys [of si_ticker its] by_ticker_set [of si_ticker its] by auto
qed

text \<open>
  Lists of 200 and 150 whose union by stripped ticker has 350 share no ticker: the seed is exactly
  the two lists.
\<close>

lemma seed_of_lists_Inr:
  assumes "seed_of_lists date ks qs = Inr (date', items)"
  shows "date' = date \<and> mset items = mset (ks @ qs) \<and> length ks = 200 \<and> length qs = 150 \<and>
    distinct (map (\<lambda>i. py_strip (si_ticker i)) items) \<and> (\<forall>i\<in>set items. py_strip (si_ticker i) \<noteq> [])"
proof -
  let ?key = "\<lambda>i. py_strip (si_ticker i)"
  let ?l = "filter (\<lambda>i. ?key i \<noteq> []) (ks @ qs)"
  have len: "length ks = 200" "length qs = 150" and items: "items = by_ticker ?key ?l" "length items = 350" and "date' = date"
    using assms by (auto simp: seed_of_lists_def Let_def split: if_splits)
  have "length items = length (remdups (map ?key ?l))"
    using by_ticker_keys [of ?key ?l] items(1) by (metis length_map length_sort)
  moreover have "length (remdups (map ?key ?l)) \<le> length ?l" by (metis length_map length_remdups_leq)
  moreover have "length ?l \<le> 350" using len length_filter_le [of "\<lambda>i. ?key i \<noteq> []" "ks @ qs"] by simp
  ultimately have eq: "length (remdups (map ?key ?l)) = length (map ?key ?l)" "length ?l = length (ks @ qs)"
    using items(2) len by simp_all
  have d: "distinct (map ?key ?l)" using eq(1) by (metis remdups_id_iff_distinct length_remdups_eq)
  have "?l = ks @ qs" using eq(2) by (metis filter_id_conv length_filter_less less_irrefl)
  then show ?thesis
    using by_ticker_distinct [OF d] items(1) len \<open>date' = date\<close> by (metis (mono_tags, lifting) d mset_eq_setD mset_map mset_eq_imp_distinct_iff filter_id_conv)
qed

lemma fetch_seed_Inr:
  assumes "fetch_prd_initial_universe_seed web e = (Inr (date, items), e')"
  obtains ks qs where "seed_of_lists date ks qs = Inr (date, items)"
    "\<forall>i\<in>set ks. si_market i = ''KOSPI200''" "\<forall>i\<in>set qs. si_market i = ''KOSDAQ150''"
proof -
  have "\<exists>date1 ks qs e2 e3 e4. seed_of_lists date1 ks qs = Inr (date, items) \<and>
      krx_fetch_index_constituents web ''KOSPI200'' ''K2G01P'' ''1028'' ''0102'' ''1'' ''028'' date1 e2 = (Inr ks, e3) \<and>
      krx_fetch_index_constituents web ''KOSDAQ150'' ''Q5G01P'' ''2203'' ''0103'' ''2'' ''203'' date1 e3 = (Inr qs, e4)"
    using assms unfolding fetch_prd_initial_universe_seed_def seed_error_def by (auto split: sum.splits prod.splits) blast
  then obtain date1 ks qs e2 e3 e4 where s: "seed_of_lists date1 ks qs = Inr (date, items)"
    and k: "krx_fetch_index_constituents web ''KOSPI200'' ''K2G01P'' ''1028'' ''0102'' ''1'' ''028'' date1 e2 = (Inr ks, e3)"
    and q: "krx_fetch_index_constituents web ''KOSDAQ150'' ''Q5G01P'' ''2203'' ''0103'' ''2'' ''203'' date1 e3 = (Inr qs, e4)"
    by blast
  have "date1 = date" using seed_of_lists_Inr [OF s] by blast
  with s have "seed_of_lists date ks qs = Inr (date, items)" by simp
  then show thesis using krx_constituents_Inr [OF k] krx_constituents_Inr [OF q] by (intro that [of ks qs]) blast+
qed

lemma seeded_symbols_Inr:
  assumes "\<forall>i\<in>set items. py_strip (si_ticker i) \<noteq> []"
  shows "seeded_symbols items = Inr rows \<Longrightarrow>
    map sy_ticker rows = map (\<lambda>i. py_strip (si_ticker i)) items \<and>
    map (\<lambda>r. Some (sy_market r)) rows = map (\<lambda>i. normalize_universe_source (Some (si_market i))) items \<and>
    (\<forall>r\<in>set rows. sy_in_universe r \<and> \<not> sy_is_active r \<and> \<not> sy_is_blocked r \<and> sy_status r = status_value NORMAL)"
  using assms
proof (induction items arbitrary: rows)
  case (Cons i items)
  obtain m where m: "normalize_universe_source (Some (si_market i)) = Some m"
    using Cons.prems by (cases "normalize_universe_source (Some (si_market i))") (simp_all add: Let_def)
  obtain rs where rs: "seeded_symbols items = Inr rs"
    using Cons.prems m by (cases "seeded_symbols items") (simp_all add: Let_def)
  have "rows = seeded_symbol (py_strip (si_ticker i)) (if py_strip (si_name i) = [] then py_strip (si_ticker i) else py_strip (si_name i)) m # rs"
    using Cons.prems m rs by (simp add: Let_def)
  then show ?case using Cons.IH [OF rs] Cons.prems(2) m by (simp add: seeded_symbol_def)
qed simp

lemma seeded_symbols_ok:
  "\<forall>i\<in>set items. normalize_universe_source (Some (si_market i)) \<noteq> None \<Longrightarrow> \<exists>rows. seeded_symbols items = Inr rows"
  by (induction items) (auto simp: Let_def)

lemma normalize_index_labels [simp]:
  "normalize_universe_source (Some ''KOSPI200'') = Some ''KOSPI200''"
  "normalize_universe_source (Some ''KOSDAQ150'') = Some ''KOSDAQ150''"
  by code_simp+

lemma count_all: "count_symbols all_symbols u = (if un_fails u then Inl db_error else Inr (length (un_rows u)), un_tick u)"
  by (simp add: count_symbols_def)

text \<open>What the first start makes of a seed.\<close>

lemma bootstrap_cases:
  fixes web :: "'e krx_web"
  assumes "bootstrap_universe_on_first_run (fetch_prd_initial_universe_seed web) (u, e) = (st, u', e')"
  obtains (skipped) "\<not> us_bootstrapped st" "un_rows u' = un_rows u"
      "\<not> (un_rows u = [] \<and> \<not> un_fails u \<and> \<not> un_fails (un_tick u) \<and> (\<exists>x. fst (fetch_prd_initial_universe_seed web e) = Inr x))"
  | (seeded) date items rows where "us_bootstrapped st" "un_rows u = []" "\<not> un_fails u" "\<not> un_fails (un_tick u)"
      "fst (fetch_prd_initial_universe_seed web e) = Inr (date, items)" "seeded_symbols items = Inr rows"
      "un_rows u' = rows" "us_seeded_count st = length rows"
proof (cases "un_fails u \<or> un_rows u \<noteq> []")
  case True
  then show thesis using assms
    by (cases "un_fails u"; intro skipped) (auto simp: bootstrap_universe_on_first_run_def count_all Let_def db_error_def)
next
  case False
  obtain sd e1 where f: "fetch_prd_initial_universe_seed web e = (sd, e1)" by (rule prod.exhaust)
  show thesis
  proof (cases sd)
    case (Inl err)
    then show thesis using assms False f
      by (intro skipped) (auto simp: bootstrap_universe_on_first_run_def count_all Let_def)
  next
    case (Inr p)
    obtain date items where p: "p = (date, items)" by (rule prod.exhaust)
    obtain ks qs where l: "seed_of_lists date ks qs = Inr (date, items)" and ms: "\<forall>i\<in>set ks. si_market i = ''KOSPI200''"
      "\<forall>i\<in>set qs. si_market i = ''KOSDAQ150''"
      using fetch_seed_Inr [OF f [unfolded Inr p]] .
    note lists = seed_of_lists_Inr [OF l]
    have s: "set items = set ks \<union> set qs" using lists by (metis mset_eq_setD set_append)
    have "items \<noteq> []" using lists by auto
    obtain rows where rows: "seeded_symbols items = Inr rows"
      using seeded_symbols_ok [of items] s ms by force
    have "distinct (map sy_ticker rows)" using seeded_symbols_Inr [OF _ rows] lists by simp
    then have com: "commit_session \<lparr>se_loaded = [], se_new = rows\<rparr> (un_tick u)
        = (if un_fails (un_tick u) then (Inl db_error, un_tick (un_tick u)) else (Inr (), (un_tick (un_tick u))\<lparr>un_rows := rows\<rparr>))"
      using False by (simp add: commit_session_def Let_def)
    note run = bootstrap_universe_on_first_run_def count_all Let_def db_error_def
    show thesis
    proof (cases "un_fails (un_tick u)")
      case True
      then show thesis using assms False f Inr p rows \<open>items \<noteq> []\<close> com by (intro skipped) (auto simp: run)
    next
      case ok: False
      then have "st = \<lparr>us_bootstrapped = True, us_source = Some ''prd_index_constituents'',
          us_message = ''bootstrapped:'' @ show_nat (length rows), us_seeded_count = length rows\<rparr>"
        "u' = (un_tick (un_tick u))\<lparr>un_rows := rows\<rparr>"
        using assms False f Inr p rows \<open>items \<noteq> []\<close> com by (auto simp: run)
      then show thesis using False ok f Inr p rows by (intro seeded [of date items rows]) simp_all
    qed
  qed
qed

text \<open>
  The first start seeds the universe exactly when the table is empty, the exchange's lists could be
  read and the statements of the database succeed; then it holds the 200 and the 150 constituents
  of the two indices under distinct tickers, normal and not yet active. Otherwise the table is
  as it was.
\<close>

theorem first_start_seeds_the_indices:
  fixes web :: "'e krx_web"
  assumes "bootstrap_universe_on_first_run (fetch_prd_initial_universe_seed web) (u, e) = (st, u', e')"
  shows "(us_bootstrapped st \<longleftrightarrow> un_rows u = [] \<and> \<not> un_fails u \<and> \<not> un_fails (un_tick u) \<and>
        (\<exists>x. fst (fetch_prd_initial_universe_seed web e) = Inr x)) \<and>
    (if us_bootstrapped st
      then length (un_rows u') = 350 \<and> us_seeded_count st = 350 \<and> distinct (map sy_ticker (un_rows u')) \<and>
        length (filter (\<lambda>r. sy_market r = ''KOSPI200'') (un_rows u')) = 200 \<and>
        length (filter (\<lambda>r. sy_market r = ''KOSDAQ150'') (un_rows u')) = 150 \<and>
        (\<forall>r\<in>set (un_rows u'). sy_in_universe r \<and> \<not> sy_is_active r \<and> \<not> sy_is_blocked r \<and> sy_status r = status_value NORMAL)
      else un_rows u' = un_rows u)"
  using assms
proof (cases rule: bootstrap_cases)
  case (seeded date items rows)
  obtain e1 where "fetch_prd_initial_universe_seed web e = (Inr (date, items), e1)"
    using seeded(5) by (cases "fetch_prd_initial_universe_seed web e") auto
  from fetch_seed_Inr [OF this] obtain ks qs where l: "seed_of_lists date ks qs = Inr (date, items)"
    and ms: "\<forall>i\<in>set ks. si_market i = ''KOSPI200''" "\<forall>i\<in>set qs. si_market i = ''KOSDAQ150''" .
  note lists = seed_of_lists_Inr [OF l]
  note rows = seeded_symbols_Inr [OF _ seeded(6)]
  have count: "length (filter (\<lambda>r. sy_market r = m) rows) = length (filter (\<lambda>i. si_market i = m) (ks @ qs))"
    if "m = ''KOSPI200'' \<or> m = ''KOSDAQ150''" for m
  proof -
    have "\<forall>i\<in>set items. normalize_universe_source (Some (si_market i)) = Some (si_market i)"
      using lists ms by (metis Un_iff mset_eq_setD normalize_index_labels set_append)
    then have "map Some (map sy_market rows) = map Some (map si_market items)" using rows lists by (simp add: comp_def)
    then have "map sy_market rows = map si_market items" by (simp only: inj_map_eq_map [OF inj_Some])
    then have "length (filter (\<lambda>x. x = m) (map sy_market rows)) = length (filter (\<lambda>x. x = m) (map si_market items))" by simp
    also have "\<dots> = length (filter (\<lambda>x. x = m) (map si_market (ks @ qs)))"
      using lists by (metis mset_filter mset_map size_mset)
    finally show ?thesis by (simp add: filter_map comp_def)
  qed
  have "filter (\<lambda>i. si_market i = ''KOSPI200'') ks = ks" "filter (\<lambda>i. si_market i = ''KOSPI200'') qs = []"
    "filter (\<lambda>i. si_market i = ''KOSDAQ150'') ks = []" "filter (\<lambda>i. si_market i = ''KOSDAQ150'') qs = qs"
    using ms by (simp_all add: filter_id_conv filter_empty_conv)
  then have c: "length (filter (\<lambda>r. sy_market r = ''KOSPI200'') rows) = 200"
    "length (filter (\<lambda>r. sy_market r = ''KOSDAQ150'') rows) = 150"
    using count lists by simp_all
  have "length rows = length items" using rows lists by (metis length_map)
  moreover have "length items = 350" using lists by (metis length_append size_mset numeral_plus_numeral semiring_norm(2-10))
  ultimately show ?thesis using seeded rows lists c by auto
qed auto

section \<open>Halted symbols\<close>

lemma rebalanced_removed:
  assumes "target_item items t = Some i" "sy_ticker r = t" "t \<notin> opn" "sy_status r = status_value REMOVED"
  shows "sy_status (rebalanced_row opn items r) = status_value NORMAL" "sy_in_universe (rebalanced_row opn items r)"
  using assms by (simp_all add: rebalanced_row_def keep_row_def)

text \<open>
  The halt of a symbol is lost by leaving the universe: a rebalance without it writes its status
  over, and a later one with it makes it a normal symbol again, although nothing has lifted the
  halt.
\<close>

theorem halt_is_lost_by_leaving:
  assumes "rebalance_universe cfg f tickers (u, c, d, e) = (Inr (Inr a), u1, c1, d1, e1)"
    and "rebalance_universe cfg f tickers' (u1, c1, d1, e1) = (Inr (Inr b), u2, c2, d2, e2)"
    and "universe_inv u" "length (un_rows u) \<le> 20000" "length (un_rows u1) \<le> 20000"
    and "find_symbol t (un_rows u) = Some r" "sy_in_universe r" "sy_status r = status_value HALTED"
    and "\<forall>p\<in>set (od_positions d). pos_ticker p = t \<longrightarrow> pos_state p = ''CLOSED''"
    and "t \<notin> set (rb_kept a)" "t \<in> set (rb_kept b)"
  shows "\<exists>r'. find_symbol t (un_rows u2) = Some r' \<and> sy_in_universe r' \<and> sy_status r' = status_value NORMAL"
proof -
  let ?opn = "\<lambda>d. {pos_ticker p |p. p \<in> set (od_positions d) \<and> pos_state p \<noteq> ''CLOSED''}"
  have d1: "od_positions d1 = od_positions d"
    using assms(1) by (cases rule: rebalance_cases) simp_all
  have no: "t \<notin> ?opn d" "t \<notin> ?opn d1" using assms(9) d1 by auto
  obtain eok items where inv1: "universe_inv u1"
    and r1: "find_symbol t (un_rows u1) = Some (recomputed_row (pf_scale 100000000 eok) (ca_rows c) r (rebalanced_row (?opn d) items r))"
    and k1: "t \<in> set (rb_kept a) \<longleftrightarrow> target_item items t \<noteq> None"
    by (rule rebalance_row [OF assms(1,3,4,6)])
  let ?r1 = "recomputed_row (pf_scale 100000000 eok) (ca_rows c) r (rebalanced_row (?opn d) items r)"
  have t: "sy_ticker r = t" using find_symbol_Some [OF assms(6)] by blast
  have t1: "sy_ticker ?r1 = t" using t by simp
  have s1: "sy_status ?r1 = status_value REMOVED"
    using k1 assms(7,10) no t by (simp add: rebalanced_row_def drop_row_def)
  obtain eok' items' where
    r2: "find_symbol t (un_rows u2) = Some (recomputed_row (pf_scale 100000000 eok') (ca_rows c1) ?r1 (rebalanced_row (?opn d1) items' ?r1))"
    and k2: "t \<in> set (rb_kept b) \<longleftrightarrow> target_item items' t \<noteq> None"
    by (rule rebalance_row [OF assms(2) inv1 assms(5) r1])
  obtain i where "target_item items' t = Some i" using k2 assms(11) by blast
  note kept = rebalanced_removed [OF this t1 no(2) s1]
  show ?thesis unfolding r2 by (intro exI conjI, rule refl) (simp_all only: recomputed_row_simps kept)
qed

section \<open>Activation\<close>

lemma recompute_rows_answers:
  "ca_faults c = [] \<Longrightarrow> \<exists>out n' c'. recompute_rows th rows n c = (Inr (out, n'), c') \<and> ca_faults c' = []"
proof (induction rows arbitrary: n c)
  case (Cons row rows)
  have "\<exists>act insuff c1. check_row th row c = (Inr (act, insuff), c1) \<and> ca_faults c1 = []"
    using Cons.prems by (cases "frozen row") (auto simp: check_row_def list_recent_def ca_tick_def)
  then obtain act insuff c1 where one: "check_row th row c = (Inr (act, insuff), c1)" "ca_faults c1 = []" by blast
  then show ?case using Cons.IH [OF one(2), of "recompute_row row act insuff n"] by auto
qed simp

text \<open>
  After a change of the liquidity threshold, with an answering database and a threshold that reads
  as a number, a symbol of the universe is active exactly if it is neither halted, removed nor
  leaving, and its last twenty daily bars exist and trade the threshold on average; the rest of the
  table is as it was.
\<close>

theorem threshold_change_activates_the_liquid:
  assumes "universe_inv u" "length (un_rows u) \<le> 20000" "un_faults u = []" "ca_faults c = []"
    and "liquidity_threshold cfg = Inr eok"
  shows "un_rows (fst (handle_config_changed cfg ''liquidity_threshold'' (u, c))) =
    map (\<lambda>r. if sy_in_universe r
             then r\<lparr>sy_is_active :=
               sy_status r \<notin> {status_value HALTED, status_value REMOVED, status_value EXIT_PENDING} \<and>
               20 \<le> length (recent_rows (sy_ticker r) ''1d'' 20 (ca_rows c)) \<and>
               pf_le (pf_scale 100000000 eok) (Fin (avg_daily_value (recent_rows (sy_ticker r) ''1d'' 20 (ca_rows c))))\<rparr>
             else r) (un_rows u)"
proof -
  let ?se = "\<lparr>se_loaded = [], se_new = []\<rparr>"
  obtain r1 u1 c1 where rec: "recompute_active_universe cfg ?se (u, c) = (r1, u1, c1)" by (rule prod_cases3)
  have "\<exists>rows. query_symbols universe_only 20000 ?se u = (Inr rows, un_tick u)"
    using assms(3) by (simp add: query_symbols_def list_symbols_def)
  then obtain rows where q: "query_symbols universe_only 20000 ?se u = (Inr rows, un_tick u)" by blast
  obtain out n c2 where rr: "recompute_rows (pf_scale 100000000 eok) rows \<lparr>rn_active = 0, rn_updated = 0, rn_insufficient = 0\<rparr> c
      = (Inr (out, n), c2)" using recompute_rows_answers [OF assms(4)] by blast
  obtain ans se1 where r1: "r1 = Inr (ans, se1)"
    using rec by (auto simp: recompute_active_universe_def assms(5) q rr)
  obtain eok' where eok': "liquidity_threshold cfg = Inr eok'" and u1: "u1 = un_tick u" and "ca_rows c1 = ca_rows c"
    and new: "se_new se1 = se_new ?se" and obj': "\<forall>b\<in>set (un_rows u). session_object se1 b =
        (let r = session_object ?se b
         in if sy_in_universe b then r\<lparr>sy_is_active := to_activate (pf_scale 100000000 eok') (ca_rows c) r\<rparr> else r)"
    by (rule recompute_Inr [OF rec [unfolded r1] assms(1,2)])
  have "eok' = eok" using eok' assms(5) by simp
  then have obj: "session_object se1 b =
        (if sy_in_universe b then b\<lparr>sy_is_active := to_activate (pf_scale 100000000 eok) (ca_rows c) b\<rparr> else b)"
    if "b \<in> set (un_rows u)" for b
    using obj' that by (simp add: Let_def)
  have rows: "map (session_object se1) (un_rows u) = map (\<lambda>b. if sy_in_universe b
       then b\<lparr>sy_is_active := to_activate (pf_scale 100000000 eok) (ca_rows c) b\<rparr> else b) (un_rows u)"
    by (rule map_cong) (simp_all add: obj)
  have "distinct (map sy_ticker (map (session_object se1) (un_rows u)))"
    using assms(1) by (simp add: universe_inv_def comp_def)
  then have "commit_session se1 u1 = (Inr (), (un_tick u1)\<lparr>un_rows := map (session_object se1) (un_rows u)\<rparr>)"
    using assms(3) by (simp add: commit_session_def u1 new)
  then have "un_rows (fst (handle_config_changed cfg ''liquidity_threshold'' (u, c))) = map (session_object se1) (un_rows u)"
    using rec r1 by (simp add: handle_config_changed_def)
  then show ?thesis unfolding rows to_activate_def frozen_def liquid_def .
qed

section \<open>Seeding the candles\<close>

definition seeded_ok :: "nat \<Rightarrow> string list \<Rightarrow> candle_status \<Rightarrow> candle_db \<Rightarrow> bool" where
  "seeded_ok n tfs st d \<longleftrightarrow> \<not> ct_ok st \<and>
     length (ca_rows d) = n + ct_inserted st \<and> ct_inserted st = sum_list (map (\<lambda>tf. ts_inserted (ct_stats st tf)) tfs) \<and>
     ct_updated st = sum_list (map (\<lambda>tf. ts_updated (ct_stats st tf)) tfs) \<and> candles_inv d"

lemma sum_list_upd:
  fixes g :: "'a \<Rightarrow> nat"
  assumes "distinct xs" "x \<in> set xs"
  shows "sum_list (map (\<lambda>y. if y = x then g y + i else g y) xs) = sum_list (map g xs) + i"
  using assms
proof (induction xs)
  case (Cons y ys)
  show ?case
  proof (cases "y = x")
    case True
    then have "map (\<lambda>y. if y = x then g y + i else g y) ys = map g ys" using Cons.prems(1) by (intro map_cong) auto
    from arg_cong [OF this, of sum_list] show ?thesis using True by simp
  next
    case False
    then show ?thesis using Cons by simp
  qed
qed simp

lemma count_bars_ok:
  assumes "seeded_ok n tfs st d" "distinct tfs" "tf \<in> set tfs"
    and "length (ca_rows d') = length (ca_rows d) + i" "candles_inv d'"
  shows "seeded_ok n tfs (count_bars tf (i, k) st) d'"
proof -
  let ?st = "count_bars tf (i, k) st"
  have "(\<lambda>t. ts_inserted (ct_stats ?st t)) = (\<lambda>t. if t = tf then ts_inserted (ct_stats st t) + i else ts_inserted (ct_stats st t))"
    "(\<lambda>t. ts_updated (ct_stats ?st t)) = (\<lambda>t. if t = tf then ts_updated (ct_stats st t) + k else ts_updated (ct_stats st t))"
    by (auto simp: count_bars_def Let_def)
  then show ?thesis using assms by (simp add: seeded_ok_def sum_list_upd) (simp add: count_bars_def Let_def)
qed

lemma seed_bars_rows:
  assumes "seed_bars fetch t tf (d, e) = (r, d', e')" "candles_inv d"
  shows "candles_inv d' \<and> length (ca_rows d') = length (ca_rows d) + (case r of Inr (Some (i, u)) \<Rightarrow> i | _ \<Rightarrow> 0)"
proof -
  obtain r1 d1 where g: "get_last_candle_time t tf d = (r1, d1)" by (rule prod.exhaust)
  have d1: "ca_rows d1 = ca_rows d" "candles_inv d1"
    using g assms(2) by (auto simp: get_last_candle_time_def ca_tick_def candles_inv_def split: if_splits)
  show ?thesis
  proof (cases r1)
    case (Inl x)
    then show ?thesis using assms(1) g d1 by (auto simp: seed_bars_def)
  next
    case (Inr since)
    obtain r2 e1 where f: "fetch t tf since e = (r2, e1)" by (rule prod.exhaust)
    show ?thesis
    proof (cases "\<exists>cs. r2 = Inr cs \<and> cs \<noteq> []")
      case False
      then show ?thesis using assms(1) g d1 Inr f by (cases r2) (auto simp: seed_bars_def)
    next
      case True
      then obtain cs where cs: "r2 = Inr cs" "cs \<noteq> []" by blast
      obtain r3 d2 where u: "upsert_batch t tf (batch_of cs) d1 = (r3, d2)" by (rule prod.exhaust)
      note inv = upsert_batch_inv [OF d1(2) u]
      show ?thesis
      proof (cases r3)
        case (Inl x)
        then show ?thesis using assms(1) g d1 Inr f cs u inv upsert_batch_error by (auto simp: seed_bars_def)
      next
        case iu: (Inr iu)
        then show ?thesis using assms(1) g d1 Inr f cs u inv upsert_batch_map [of t tf "batch_of cs" d1 "fst iu" "snd iu" d2]
          by (auto simp: seed_bars_def split: prod.splits)
      qed
    qed
  qed
qed

lemma seed_timeframes_ok:
  assumes "distinct tfs0"
  shows "seed_timeframes fetch t tfs any st (d, e) = (any', st', d', e') \<Longrightarrow> set tfs \<subseteq> set tfs0 \<Longrightarrow>
    seeded_ok n tfs0 st d \<Longrightarrow> seeded_ok n tfs0 st' d' \<and> ct_tickers st' = ct_tickers st \<and>
      (any' \<longleftrightarrow> any \<or> ct_inserted st' + ct_updated st' > ct_inserted st + ct_updated st) \<and>
      ct_inserted st \<le> ct_inserted st' \<and> ct_updated st \<le> ct_updated st'"
proof (induction tfs arbitrary: any st d e)
  case (Cons tf tfs)
  obtain r d1 e1 where one: "seed_bars fetch t tf (d, e) = (r, d1, e1)" by (rule prod_cases3)
  have inv: "candles_inv d" using Cons.prems(3) by (simp add: seeded_ok_def)
  note rows = seed_bars_rows [OF one inv]
  have sub: "set tfs \<subseteq> set tfs0" using Cons.prems(2) by simp
  show ?case
  proof (cases "\<exists>i k. r = Inr (Some (i, k))")
    case True
    then obtain i k where r: "r = Inr (Some (i, k))" by blast
    have ok: "seeded_ok n tfs0 (count_bars tf (i, k) st) d1"
      using count_bars_ok [OF Cons.prems(3) assms, of tf d1 i k] Cons.prems(2) rows r by simp
    have "seed_timeframes fetch t tfs (any \<or> i + k > 0) (count_bars tf (i, k) st) (d1, e1) = (any', st', d', e')"
      using Cons.prems(1) one r by simp
    from Cons.IH [OF this sub ok] show ?thesis by (auto simp: count_bars_def Let_def)
  next
    case False
    have keep: "seeded_ok n tfs0 st d1" using Cons.prems(3) rows False by (auto simp: seeded_ok_def split: sum.splits option.splits)
    show ?thesis
    proof (cases r)
      case (Inl x)
      have ok: "seeded_ok n tfs0 (st\<lparr>ct_errors := ct_errors st @ [t @ '':'' @ tf @ '':'' @ exn_str x]\<rparr>) d1"
        using keep by (simp add: seeded_ok_def)
      from Cons.IH [OF _ sub ok] show ?thesis using Cons.prems(1) one Inl by auto
    next
      case (Inr q)
      then have "q = None" using False by (cases q) auto
      then show ?thesis using Cons.IH [OF _ sub keep] Cons.prems(1) one Inr by auto
    qed
  qed
qed simp

lemma seed_tickers_ok:
  assumes "distinct tfs"
  shows "seed_tickers fetch tfs ts st (d, e) = (st', d', e') \<Longrightarrow> seeded_ok n tfs st d \<Longrightarrow>
    seeded_ok n tfs st' d' \<and> ct_tickers st' \<le> ct_tickers st + length ts \<and>
    ct_tickers st \<le> ct_tickers st' \<and> ct_inserted st \<le> ct_inserted st' \<and> ct_updated st \<le> ct_updated st' \<and>
    (ct_tickers st < ct_tickers st' \<longleftrightarrow> ct_inserted st + ct_updated st < ct_inserted st' + ct_updated st')"
proof (induction ts arbitrary: st d e)
  case (Cons t ts)
  obtain a st1 d1 e1 where one: "seed_timeframes fetch t tfs False st (d, e) = (a, st1, d1, e1)" by (rule prod_cases4)
  note tf = seed_timeframes_ok [OF assms one subset_refl Cons.prems(2)]
  let ?st1 = "if a then st1\<lparr>ct_tickers := ct_tickers st1 + 1\<rparr> else st1"
  have ok: "seeded_ok n tfs ?st1 d1" using tf by (simp add: seeded_ok_def)
  have "seed_tickers fetch tfs ts ?st1 (d1, e1) = (st', d', e')" using Cons.prems(1) one by simp
  from Cons.IH [OF this ok] show ?case using tf by (cases a) auto
qed simp

text \<open>
  What the first run reports of the candles adds up, whatever the broker and the database do: the
  table grew by exactly the bars inserted, they are the sum over the timeframes, the run is a
  success only if it had no tickers or stored something, and no more tickers than asked for have
  data.
\<close>

theorem seeded_candles_add_up:
  assumes "bootstrap_candles_on_first_run app_key app_secret ensure fetch tickers timeframes (d, e) = (st, d', e')"
    and "distinct timeframes" "candles_inv d"
  shows "candles_inv d' \<and> length (ca_rows d') = length (ca_rows d) + ct_inserted st \<and>
    ct_inserted st = sum_list (map (\<lambda>tf. ts_inserted (ct_stats st tf)) timeframes) \<and>
    ct_updated st = sum_list (map (\<lambda>tf. ts_updated (ct_stats st tf)) timeframes) \<and>
    (ct_ok st \<longleftrightarrow> tickers = [] \<or> ct_inserted st + ct_updated st > 0) \<and>
    ct_tickers st \<le> length tickers \<and> length (ct_errors st) \<le> 20"
proof -
  let ?st0 = "candle_status_init tickers"
  have init: "seeded_ok (length (ca_rows d)) timeframes ?st0 d"
    using assms(3) by (simp add: seeded_ok_def candle_status_init_def)
  note i = candle_status_init_def
  show ?thesis
  proof (cases "tickers = [] \<or> app_key = [] \<or> app_secret = []")
    case True
    then show ?thesis using assms(1) init
      by (cases "tickers = []") (auto simp: bootstrap_candles_on_first_run_def Let_def seeded_ok_def i)
  next
    case False
    obtain r e1 where en: "ensure e = (r, e1)" by (rule prod.exhaust)
    show ?thesis
    proof (cases r)
      case (Inl x)
      then show ?thesis using assms(1) init False en
        by (auto simp: bootstrap_candles_on_first_run_def Let_def seeded_ok_def i)
    next
      case (Inr v)
      obtain st1 d1 e2 where run: "seed_tickers fetch timeframes tickers ?st0 (d, e1) = (st1, d1, e2)" by (rule prod_cases3)
      note ok = seed_tickers_ok [OF assms(2) run init]
      have z: "ct_tickers ?st0 = 0" "ct_inserted ?st0 = 0" "ct_updated ?st0 = 0" by (simp_all add: i)
      have e: "d' = d1" "ct_inserted st = ct_inserted st1" "ct_updated st = ct_updated st1" "ct_stats st = ct_stats st1"
        "ct_tickers st = ct_tickers st1" "length (ct_errors st) \<le> 20"
        using assms(1) False en Inr run
        by (auto simp: bootstrap_candles_on_first_run_def Let_def split: if_splits)
      have "ct_ok st \<longleftrightarrow> ct_tickers st1 > 0"
        using assms(1) False en Inr run ok by (auto simp: bootstrap_candles_on_first_run_def Let_def seeded_ok_def split: if_splits)
      then have "ct_ok st \<longleftrightarrow> tickers = [] \<or> ct_inserted st + ct_updated st > 0" using ok z False e by simp
      then show ?thesis using ok z e unfolding seeded_ok_def by simp
    qed
  qed
qed

section \<open>Samples\<close>

text \<open>Two symbols, one halted; a position of the other one is open. The threshold is fifty.\<close>

definition sample_symbol :: "string \<Rightarrow> string \<Rightarrow> symbol" where
  "sample_symbol t status = \<lparr>sy_ticker = t, sy_name = t, sy_market = ''USER'', sy_in_universe = True, sy_is_active = True,
     sy_is_blocked = False, sy_status = status\<rparr>"

definition sample_universe :: universe_db where
  "sample_universe = \<lparr>un_rows = [sample_symbol ''A'' ''normal'', sample_symbol ''B'' ''halted''], un_faults = []\<rparr>"

definition sample_state :: "unit universe_state" where
  "sample_state = (sample_universe, \<lparr>ca_rows = [], ca_faults = []\<rparr>, snd (open_position 1 None ''A'' ''1'' 5 4 6 1 (odb_init [])), ())"

abbreviation sample_threshold :: config where
  "sample_threshold \<equiv> [(''liquidity_threshold'', ''50'')]"

lemma sample_threshold_read: "liquidity_threshold sample_threshold = Inr (Fin 50)"
  by (simp add: liquidity_threshold_def config_get_def text_eval)

lemmas rebalance_eval = rebalance_universe_def apply_target_def recompute_active_universe_def sample_threshold_read
  query_symbols_def list_symbols_def page_def commit_session_def list_open_positions_def open_position_def odb_init_def tick_def
  manual_items_def new_rows_def rebalanced_row_def keep_row_def drop_row_def target_item_def find_symbol_def
  session_object_def keep_objects_def put_symbol_def check_row_def frozen_def list_recent_def recent_rows_def rows_of_def
  py_sorted_rev_def liquid_def seeded_symbol_def un_tick_def ca_tick_def catch_db_def recompute_row_def Let_def
  sample_symbol_def sample_universe_def sample_state_def py_strip_def py_isspace_def ch_code_def

lemma sample_rebalance:
  "\<exists>a u1 c1 d1 b s2. rebalance_universe sample_threshold (\<lambda>e. (Inl [], e)) [''C''] sample_state = (Inr (Inr a), u1, c1, d1, ()) \<and>
     rebalance_universe sample_threshold (\<lambda>e. (Inl [], e)) [''B''] (u1, c1, d1, ()) = (Inr (Inr b), s2) \<and>
     rb_kept a = [] \<and> rb_kept b = [''B''] \<and> length (un_rows u1) = 3"
  by (simp add: rebalance_eval)

lemma sample_facts:
  "universe_inv sample_universe" "length (un_rows sample_universe) \<le> 20000"
  "find_symbol ''A'' (un_rows sample_universe) = Some (sample_symbol ''A'' ''normal'')"
  "find_symbol ''B'' (un_rows sample_universe) = Some (sample_symbol ''B'' ''halted'')"
  "od_positions (snd (open_position 1 None ''A'' ''1'' 5 4 6 1 (odb_init []))) \<noteq> [] \<and>
   (\<forall>p\<in>set (od_positions (snd (open_position 1 None ''A'' ''1'' 5 4 6 1 (odb_init [])))). pos_ticker p = ''A'' \<and> pos_state p \<noteq> ''CLOSED'')"
  by (simp_all add: sample_universe_def sample_symbol_def universe_inv_def find_symbol_def open_position_def odb_init_def tick_def Let_def)

theorem rebalance_keeps_held_symbols_witness:
  "\<exists>a s' r'. rebalance_universe sample_threshold (\<lambda>e. (Inl [], e)) [''C''] sample_state = (Inr (Inr a), s') \<and>
     find_symbol ''A'' (un_rows (fst s')) = Some r' \<and> sy_in_universe r' \<and> \<not> sy_is_active r' \<and>
     sy_status r' = status_value EXIT_PENDING \<and> ''A'' \<in> set (rb_pending_exit a)"
proof -
  obtain a u1 c1 d1 where run: "rebalance_universe sample_threshold (\<lambda>e. (Inl [], e)) [''C''] sample_state = (Inr (Inr a), u1, c1, d1, ())"
    and kept: "rb_kept a = []" using sample_rebalance by blast
  from rebalance_keeps_held_symbols [OF run [unfolded sample_state_def] sample_facts(1,2,3)] kept sample_facts(5)
  obtain r' where "find_symbol ''A'' (un_rows u1) = Some r'" "sy_in_universe r'" "\<not> sy_is_active r'"
    "sy_status r' = status_value EXIT_PENDING" "''A'' \<in> set (rb_pending_exit a)"
    by (auto simp: sample_symbol_def split: if_splits)
  then show ?thesis using run by (intro exI [of _ a] exI [of _ "(u1, c1, d1, ())"] exI [of _ r']) simp
qed

theorem halt_is_lost_by_leaving_witness:
  "\<exists>s1 b s2 r'. snd (rebalance_universe sample_threshold (\<lambda>e. (Inl [], e)) [''C''] sample_state) = s1 \<and>
     rebalance_universe sample_threshold (\<lambda>e. (Inl [], e)) [''B''] s1 = (Inr (Inr b), s2) \<and>
     find_symbol ''B'' (un_rows (fst s2)) = Some r' \<and> sy_in_universe r' \<and> sy_status r' = status_value NORMAL"
proof -
  obtain a u1 c1 d1 b s2 where run: "rebalance_universe sample_threshold (\<lambda>e. (Inl [], e)) [''C''] sample_state = (Inr (Inr a), u1, c1, d1, ())"
    and again: "rebalance_universe sample_threshold (\<lambda>e. (Inl [], e)) [''B''] (u1, c1, d1, ()) = (Inr (Inr b), s2)"
    and kept: "rb_kept a = []" "rb_kept b = [''B'']" and len: "length (un_rows u1) = 3" using sample_rebalance by blast
  obtain u2 c2 d2 e2 where s2: "s2 = (u2, c2, d2, e2)" by (rule prod_cases4)
  have "\<exists>r'. find_symbol ''B'' (un_rows u2) = Some r' \<and> sy_in_universe r' \<and> sy_status r' = status_value NORMAL"
    using sample_facts(5) kept len
    by (intro halt_is_lost_by_leaving [OF run [unfolded sample_state_def] again [unfolded s2] sample_facts(1,2) _ sample_facts(4)])
      (auto simp: sample_symbol_def)
  then show ?thesis using run again s2 by auto
qed

theorem threshold_change_activates_the_liquid_witness:
  "un_rows (fst (handle_config_changed sample_threshold ''liquidity_threshold'' (sample_universe, \<lparr>ca_rows = [], ca_faults = []\<rparr>)))
     = [(sample_symbol ''A'' ''normal'')\<lparr>sy_is_active := False\<rparr>, (sample_symbol ''B'' ''halted'')\<lparr>sy_is_active := False\<rparr>]"
  by (subst threshold_change_activates_the_liquid [OF sample_facts(1,2) _ _ sample_threshold_read])
    (simp_all add: sample_universe_def sample_symbol_def recent_rows_def rows_of_def py_sorted_rev_def)

text \<open>A broker with one bar for every request.\<close>

definition sample_fetch :: "unit bar_fetch" where
  "sample_fetch t tf since e = (Inr [\<lparr>cd_open = 1, cd_high = 3, cd_low = 1, cd_close = 2, cd_ts = 5, cd_volume = 9\<rparr>], e)"

theorem seeded_candles_add_up_witness:
  "\<exists>st d'. bootstrap_candles_on_first_run ''k'' ''s'' (\<lambda>e. (Inr (), e)) sample_fetch [''A''] [''1d'', ''3m''] (\<lparr>ca_rows = [], ca_faults = [False, True]\<rparr>, ())
     = (st, d', ()) \<and> length (ca_rows d') = ct_inserted st \<and> length (ct_errors st) \<le> 20"
proof -
  obtain st d' where run: "bootstrap_candles_on_first_run ''k'' ''s'' (\<lambda>e. (Inr (), e)) sample_fetch [''A''] [''1d'', ''3m'']
      (\<lparr>ca_rows = [], ca_faults = [False, True]\<rparr>, ()) = (st, d', ())" by (metis (full_types) old.unit.exhaust prod_cases3)
  show ?thesis using seeded_candles_add_up [OF run] run by (simp add: candles_inv_def)
qed

text \<open>An exchange whose constituents are A, AA, AAA and so on, and B, BB and so on.\<close>

definition ones :: "char \<Rightarrow> nat \<Rightarrow> string" where
  "ones ch i = replicate (Suc i) ch"

definition sample_list :: "char \<Rightarrow> nat \<Rightarrow> string + json" where
  "sample_list ch n = Inr (JObj [(''output'', JList (map (\<lambda>i. JObj [(''isu_cd'', JStr (ones ch i))]) [0..<n]))])"

definition sample_web :: "unit krx_web" where
  "sample_web = \<lparr>kw_get = (\<lambda>url e. (Inr (), e)),
     kw_post = (\<lambda>url form ref e. (Inr (case map_of form ''idx_id'' of Some i \<Rightarrow> i | None \<Rightarrow> ''x''), e)),
     kw_loads = (\<lambda>s. if s = ''K2G01P'' then sample_list CHR ''A'' 200 else if s = ''Q5G01P'' then sample_list CHR ''B'' 150
                      else Inr (JObj [(''output'', JList [JObj [(''max_work_dt'', JStr ''20240102'')]])])),
     kw_fmt = (\<lambda>v. (CHR ''x'', []))\<rparr>"

definition sample_items_of :: "char \<Rightarrow> string \<Rightarrow> nat \<Rightarrow> seed_item list" where
  "sample_items_of ch m n = map (\<lambda>i. \<lparr>si_ticker = ones ch i, si_name = ones ch i, si_market = m\<rparr>) [0..<n]"

lemma ones_text:
  assumes "\<not> py_isspace ch" "py_upper_char ch = [ch]"
  shows "py_strip (ones ch i) = ones ch i" "py_upper (ones ch i) = ones ch i" "ones ch i \<noteq> []"
proof -
  show "ones ch i \<noteq> []" by (simp add: ones_def)
  have "dropWhile py_isspace (replicate (Suc n) ch) = replicate (Suc n) ch" for n using assms by simp
  then show "py_strip (ones ch i) = ones ch i" by (simp only: py_strip_def ones_def rev_replicate)
  have "concat (map py_upper_char (replicate n ch)) = replicate n ch" for n using assms by (induction n) auto
  then show "py_upper (ones ch i) = ones ch i" by (simp only: py_upper_def ones_def)
qed

lemma item_of_ones:
  assumes "\<not> py_isspace ch" "py_upper_char ch = [ch]"
  shows "item_of_row fmt m [(''isu_cd'', JStr (ones ch i))] = Some \<lparr>si_ticker = ones ch i, si_name = ones ch i, si_market = m\<rparr>"
  by (simp add: item_of_row_def ones_text [OF assms] Let_def)

lemma sample_rows:
  assumes "\<not> py_isspace ch" "py_upper_char ch = [ch]"
  shows "List.map_filter (item_of_row fmt m) (objects_of (map (\<lambda>i. JObj [(''isu_cd'', JStr (ones ch i))]) xs))
    = map (\<lambda>i. \<lparr>si_ticker = ones ch i, si_name = ones ch i, si_market = m\<rparr>) xs"
  by (induction xs) (simp_all add: objects_of_def List.map_filter_def item_of_ones [OF assms])

lemma ones_inj [simp]: "ones a i = ones b j \<longleftrightarrow> a = b \<and> i = j"
  by (auto simp: ones_def)

lemma sample_chars: "\<not> py_isspace CHR ''A''" "py_upper_char CHR ''A'' = ''A''" "\<not> py_isspace CHR ''B''" "py_upper_char CHR ''B'' = ''B''"
  by code_simp+

lemma sample_constituents:
  "krx_fetch_index_constituents sample_web m ''K2G01P'' a b c' d g () = (Inr (by_ticker si_ticker (sample_items_of CHR ''A'' m 200)), ())"
  "krx_fetch_index_constituents sample_web m ''Q5G01P'' a b c' d g () = (Inr (by_ticker si_ticker (sample_items_of CHR ''B'' m 150)), ())"
  by (simp_all add: krx_fetch_index_constituents_def Let_def sample_web_def krx_generate_otp_def krx_post_json_with_otp_def
      krx_json_rows_def sample_list_def sample_items_of_def sample_rows sample_chars py_strip_def py_isspace_def ch_code_def)

lemma sample_lengths: "length (by_ticker si_ticker (sample_items_of ch m n)) = n"
proof -
  have "distinct (map si_ticker (sample_items_of ch m n))" by (simp add: sample_items_of_def comp_def distinct_map inj_on_def)
  from by_ticker_distinct [OF this] have "length (by_ticker si_ticker (sample_items_of ch m n)) = length (sample_items_of ch m n)"
    by (metis size_mset)
  then show ?thesis by (simp add: sample_items_of_def)
qed

lemma sample_seed: "\<exists>x. fst (fetch_prd_initial_universe_seed sample_web ()) = Inr x"
proof -
  let ?k = "by_ticker si_ticker (sample_items_of CHR ''A'' ''KOSPI200'' 200)"
  let ?q = "by_ticker si_ticker (sample_items_of CHR ''B'' ''KOSDAQ150'' 150)"
  have sub: "set ?k \<subseteq> set (sample_items_of CHR ''A'' ''KOSPI200'' 200)" "set ?q \<subseteq> set (sample_items_of CHR ''B'' ''KOSDAQ150'' 150)"
    by (rule by_ticker_set)+
  have strip: "py_strip (si_ticker i) = si_ticker i \<and> si_ticker i \<noteq> []" if "i \<in> set (?k @ ?q)" for i
    using that sub ones_text [OF sample_chars(1,2)] ones_text [OF sample_chars(3,4)] by (auto simp: sample_items_of_def)
  have "distinct (map si_ticker ?k)" "distinct (map si_ticker ?q)" by (simp_all only: by_ticker_keys distinct_sort distinct_remdups)
  moreover have "si_ticker ` set ?k \<inter> si_ticker ` set ?q = {}"
    using image_mono [OF sub(1), of si_ticker] image_mono [OF sub(2), of si_ticker] by (auto simp: sample_items_of_def image_image) force?
  ultimately have "distinct (map si_ticker (?k @ ?q))" by (simp only: map_append distinct_append set_map)
  moreover have "map (\<lambda>i. py_strip (si_ticker i)) (?k @ ?q) = map si_ticker (?k @ ?q)"
    by (rule map_cong) (use strip in auto)
  ultimately have d: "distinct (map (\<lambda>i. py_strip (si_ticker i)) (?k @ ?q))" by metis
  have f: "filter (\<lambda>i. py_strip (si_ticker i) \<noteq> []) (?k @ ?q) = ?k @ ?q"
    by (rule filter_True) (use strip in auto)
  have "length (by_ticker (\<lambda>i. py_strip (si_ticker i)) (?k @ ?q)) = length (?k @ ?q)"
    using by_ticker_distinct [OF d] by (metis size_mset)
  then have l: "length (by_ticker (\<lambda>i. py_strip (si_ticker i)) (?k @ ?q)) = 350" by (simp add: sample_lengths)
  have "\<exists>x. seed_of_lists t ?k ?q = Inr x" for t
    unfolding seed_of_lists_def f by (simp add: sample_lengths l Let_def del: filter_append)
  moreover have date: "krx_latest_trading_date sample_web () = (Inr ''20240102'', ())"
    by (simp add: krx_latest_trading_date_def Let_def sample_web_def krx_generate_otp_def krx_post_json_with_otp_def
        krx_json_rows_def objects_of_def List.map_filter_def date_of_row_def is_date_def py_strip_def py_isspace_def ch_code_def
        py_isdigit_def py_isdigit_char_def ascii_digit_def)
  moreover have get: "kw_get sample_web url () = (Inr (), ())" for url by (simp add: sample_web_def)
  ultimately show ?thesis
    by (simp only: fetch_prd_initial_universe_seed_def get sample_constituents sum.case prod.case fst_conv)
qed

theorem first_start_seeds_the_indices_witness:
  "\<exists>st u'. bootstrap_universe_on_first_run (fetch_prd_initial_universe_seed sample_web) (\<lparr>un_rows = [], un_faults = []\<rparr>, ()) = (st, u', ()) \<and>
     us_bootstrapped st \<and> length (un_rows u') = 350"
proof -
  obtain st u' where run: "bootstrap_universe_on_first_run (fetch_prd_initial_universe_seed sample_web) (\<lparr>un_rows = [], un_faults = []\<rparr>, ()) = (st, u', ())"
    by (metis (full_types) old.unit.exhaust prod_cases3)
  show ?thesis using first_start_seeds_the_indices [OF run] sample_seed run by (auto simp: un_tick_def split: if_splits)
qed

theorem failed_rebalance_changes_nothing_witness:
  "\<exists>r s'. rebalance_universe [] (\<lambda>e. (Inl [], e)) [''C''] sample_state = (r, s') \<and> un_rows (fst s') = un_rows sample_universe"
proof -
  obtain r u1 c1 d1 e1 where run: "rebalance_universe [] (\<lambda>e. (Inl [], e)) [''C''] sample_state = (r, u1, c1, d1, e1)"
    by (rule prod_cases5)
  have "\<nexists>a. r = Inr (Inr a)"
    using run by (auto simp: rebalance_eval liquidity_threshold_def config_get_def)
  then show ?thesis using failed_rebalance_changes_nothing [OF run [unfolded sample_state_def]] run by auto
qed

end
