(* ===== verification/Live_Preflight.thy ===== *)
theory Live_Preflight
  imports Runtime_Factory Loop_Background
begin

text \<open>
  \<open>app/services/live_preflight.py\<close>: the checks before trading live and the rehearsal that runs some
  cycles if they pass. What the service is given (the mode, the runtime state, the background's status,
  the tickers, the connectivity check) is a record of functions over the world \<open>'w\<close>; the wired
  service at the end takes them from the system of \<open>Runtime_Factory\<close>. The Korean texts of
  the actions are constructors; the times in the reports are left out.
\<close>

section \<open>The checks\<close>

datatype check_detail = DMode string | DHalt string | DRunning bool | DCount nat | DConnectivity connectivity

record preflight_check =
  ch_key :: string
  ch_ok :: bool
  ch_detail :: check_detail
  ch_required :: bool

record stage_policy =
  sp_background :: bool
  sp_tickers :: bool
  sp_connectivity :: bool

definition policies :: "string \<rightharpoonup> stage_policy" where
  "policies = [''pre_market'' \<mapsto> \<lparr>sp_background = True, sp_tickers = True, sp_connectivity = True\<rparr>,
               ''market'' \<mapsto> \<lparr>sp_background = True, sp_tickers = True, sp_connectivity = True\<rparr>,
               ''post_market'' \<mapsto> \<lparr>sp_background = False, sp_tickers = False, sp_connectivity = False\<rparr>]"

definition policy_for :: "string \<Rightarrow> stage_policy" where
  "policy_for stage = (case policies (py_lower (py_strip stage)) of Some p \<Rightarrow> p | None \<Rightarrow> the (policies ''market''))"

datatype action = SwitchToLive | ResolveHalt | StartLoops | SeedUniverse | CheckConnection

definition action_map :: "string \<rightharpoonup> action" where
  "action_map = [''trading_mode_live'' \<mapsto> SwitchToLive, ''runtime_not_halted'' \<mapsto> ResolveHalt,
                 ''background_running'' \<mapsto> StartLoops, ''runtime_tickers_present'' \<mapsto> SeedUniverse,
                 ''kiwoom_connectivity'' \<mapsto> CheckConnection]"

definition actions_of :: "preflight_check list \<Rightarrow> action list" where
  "actions_of failed = List.map_filter (\<lambda>c. action_map (ch_key c)) failed"

record preflight_report =
  pr_ok :: bool
  pr_stage :: string
  pr_policy :: stage_policy
  pr_checks :: "preflight_check list"
  pr_failed :: "string list"
  pr_actions :: "action list"

record 'w preflight_env =
  pv_mode :: string
  pv_runtime :: "'w \<Rightarrow> runtime_state"
  pv_running :: "'w \<Rightarrow> bool"
  pv_tickers :: "'w \<Rightarrow> string list py \<times> 'w"
  pv_connectivity :: "string option \<Rightarrow> 'w \<Rightarrow> connectivity \<times> 'w"

text \<open>\<open>halt_reason or "ok"\<close>: the empty reason counts as none.\<close>

definition halt_detail :: "runtime_state \<Rightarrow> string" where
  "halt_detail r = (case halt_reason r of None \<Rightarrow> ''ok'' | Some m \<Rightarrow> if m = [] then ''ok'' else m)"

definition checks_of :: "stage_policy \<Rightarrow> string \<Rightarrow> runtime_state \<Rightarrow> bool \<Rightarrow> nat \<Rightarrow> connectivity \<Rightarrow> preflight_check list" where
  "checks_of pol md rt running n conn =
     [\<lparr>ch_key = ''trading_mode_live'', ch_ok = (py_lower md = ''live''), ch_detail = DMode md, ch_required = True\<rparr>,
      \<lparr>ch_key = ''runtime_not_halted'', ch_ok = (\<not> halted rt), ch_detail = DHalt (halt_detail rt), ch_required = True\<rparr>,
      \<lparr>ch_key = ''background_running'', ch_ok = (if sp_background pol then running else True),
       ch_detail = DRunning running, ch_required = sp_background pol\<rparr>,
      \<lparr>ch_key = ''runtime_tickers_present'', ch_ok = (0 < n), ch_detail = DCount n, ch_required = sp_tickers pol\<rparr>,
      \<lparr>ch_key = ''kiwoom_connectivity'', ch_ok = cc_ok conn, ch_detail = DConnectivity conn,
       ch_required = sp_connectivity pol\<rparr>]"

text \<open>The runtime state and the background's status are read before the provider and the broker are asked.\<close>

definition preflight :: "'w preflight_env \<Rightarrow> string \<Rightarrow> string option \<Rightarrow> 'w \<Rightarrow> preflight_report py \<times> 'w" where
  "preflight pv stage ticker w =
     (case pv_tickers pv w of
        (Inl x, w1) \<Rightarrow> (Inl x, w1)
      | (Inr tickers, w1) \<Rightarrow>
          (case pv_connectivity pv ticker w1 of
             (conn, w2) \<Rightarrow>
               (let pol = policy_for stage;
                    checks = checks_of pol (pv_mode pv) (pv_runtime pv w) (pv_running pv w) (length tickers) conn;
                    failed = filter (\<lambda>c. ch_required c \<and> \<not> ch_ok c) checks
                in (Inr \<lparr>pr_ok = (failed = []), pr_stage = stage, pr_policy = pol, pr_checks = checks,
                         pr_failed = map ch_key failed, pr_actions = actions_of failed\<rparr>, w2))))"

section \<open>The rehearsal\<close>

datatype rehearsal_error = PreflightFailed "string list" | CycleError string

record rehearsal_report =
  rr_ok :: bool
  rr_cycles :: int
  rr_succeeded :: int
  rr_failed :: int
  rr_preflight_ok :: bool
  rr_errors :: "rehearsal_error list"

text \<open>One clock per cycle to run; \<open>if report.error\<close> drops the empty text.\<close>

fun rehearse :: "'w cycle_env \<Rightarrow> cycle_clock list \<Rightarrow> int \<times> int \<times> string list \<Rightarrow> coordinator \<times> 'w \<Rightarrow>
    (int \<times> int \<times> string list) \<times> coordinator \<times> 'w" where
  "rehearse en [] acc s = (acc, s)"
| "rehearse en (ck # cks) (succeeded, failed, errors) s =
     (case run_cycle en ck s of
        (rep, s') \<Rightarrow>
          rehearse en cks
            (if cr_ok rep then (succeeded + 1, failed, errors)
             else (succeeded, failed + 1,
                   (case cr_error rep of Some e \<Rightarrow> if e = [] then errors else errors @ [e] | None \<Rightarrow> errors))) s')"

text \<open>\<open>clocks\<close> holds the readings of the cycles, at least \<open>max(cycles, 1)\<close> of them.\<close>

definition run_rehearsal ::
  "'w preflight_env \<Rightarrow> 'w cycle_env \<Rightarrow> (nat \<Rightarrow> cycle_clock) \<Rightarrow> string \<Rightarrow> string option \<Rightarrow> int \<Rightarrow> coordinator \<times> 'w \<Rightarrow>
    rehearsal_report py \<times> coordinator \<times> 'w" where
  "run_rehearsal pv en clock stage ticker cycles s =
     (case s of (co, w) \<Rightarrow>
      (case preflight pv stage ticker w of
         (Inl x, w1) \<Rightarrow> (Inl x, co, w1)
       | (Inr pre, w1) \<Rightarrow>
           if \<not> pr_ok pre
           then (Inr \<lparr>rr_ok = False, rr_cycles = cycles, rr_succeeded = 0, rr_failed = cycles, rr_preflight_ok = False,
                      rr_errors = [PreflightFailed (pr_failed pre)]\<rparr>, co, w1)
           else
             (case rehearse en (map clock [0..<nat (max cycles 1)]) (0, 0, []) (co, w1) of
                ((succeeded, failed, errors), s') \<Rightarrow>
                  (Inr \<lparr>rr_ok = (failed = 0), rr_cycles = max cycles 1, rr_succeeded = succeeded, rr_failed = failed,
                        rr_preflight_ok = True, rr_errors = map CycleError errors\<rparr>, s'))))"

section \<open>The wired service\<close>

text \<open>
  \<open>main.py\<close> gives the service the runtime state of the safety manager, the status of the
  background runner and the connectivity check on the broker. The check's token and its default ticker
  come from outside the system state.
\<close>

definition wired_connectivity ::
  "('b \<Rightarrow> string py \<times> 'b) \<Rightarrow> string \<Rightarrow> 'b broker \<Rightarrow> string option \<Rightarrow> 'b system \<Rightarrow> connectivity \<times> 'b system" where
  "wired_connectivity token default_ticker br ticker s =
     (case ss_venue s of ((k, b), n) \<Rightarrow>
        (case run_live_connectivity_check token (br_server_time br) (br_price br)
                (case ticker of Some t \<Rightarrow> if t = [] then default_ticker else t | None \<Rightarrow> default_ticker) b of
           (conn, b') \<Rightarrow> (conn, s\<lparr>ss_venue := ((k, b'), n)\<rparr>)))"

definition wired_preflight ::
  "string \<Rightarrow> ('b \<Rightarrow> string py \<times> 'b) \<Rightarrow> string \<Rightarrow> 'b broker \<Rightarrow> background \<Rightarrow> 'b system preflight_env" where
  "wired_preflight md token default_ticker br bg =
     \<lparr>pv_mode = md, pv_runtime = (\<lambda>s. sf_runtime (ss_safety s)), pv_running = (\<lambda>_. bs_running (background_status bg)),
      pv_tickers = wired_tickers, pv_connectivity = wired_connectivity token default_ticker br\<rparr>"

section \<open>Facts\<close>

lemma policy_for_cases:
  "policy_for stage = \<lparr>sp_background = b, sp_tickers = b, sp_connectivity = b\<rparr>
     \<longleftrightarrow> b = (py_lower (py_strip stage) \<noteq> ''post_market'')"
  by (auto simp: policy_for_def policies_def)

text \<open>Each failed check has its action, in the same order.\<close>

lemma actions_of_checks:
  "cs \<subseteq> set (checks_of pol md rt running n conn) \<Longrightarrow> set failed \<subseteq> cs \<Longrightarrow>
     map action_map (map ch_key failed) = map Some (actions_of failed)"
proof (induction failed)
  case (Cons c failed)
  then have "c \<in> set (checks_of pol md rt running n conn)" by auto
  then have "\<exists>a. action_map (ch_key c) = Some a" by (auto simp: checks_of_def action_map_def)
  with Cons show ?case by (auto simp: actions_of_def List.map_filter_simps)
qed (simp add: actions_of_def List.map_filter_simps)

lemma preflight_Inr:
  assumes "preflight pv stage ticker w = (Inr rep, w')"
  obtains tickers w1 conn where "pv_tickers pv w = (Inr tickers, w1)" "pv_connectivity pv ticker w1 = (conn, w')"
    "pr_checks rep = checks_of (policy_for stage) (pv_mode pv) (pv_runtime pv w) (pv_running pv w) (length tickers) conn"
    "pr_failed rep = map ch_key (filter (\<lambda>c. ch_required c \<and> \<not> ch_ok c) (pr_checks rep))"
    "pr_ok rep = (filter (\<lambda>c. ch_required c \<and> \<not> ch_ok c) (pr_checks rep) = [])"
    "pr_actions rep = actions_of (filter (\<lambda>c. ch_required c \<and> \<not> ch_ok c) (pr_checks rep))"
proof -
  obtain t w1 where t: "pv_tickers pv w = (t, w1)" by fastforce
  with assms obtain ts where ts: "t = Inr ts" by (cases t) (auto simp: preflight_def)
  obtain conn w2 where c: "pv_connectivity pv ticker w1 = (conn, w2)" by fastforce
  have "w2 = w'" using assms t ts c by (simp add: preflight_def Let_def)
  moreover have "rep = fst (rep, w')" by simp
  ultimately show thesis
    using that [OF t [unfolded ts]] c assms t ts by (auto simp: preflight_def Let_def)
qed

text \<open>The rehearsal's counts are the cycles' outcomes, and the metrics have the same history.\<close>

lemma rehearse_counts:
  assumes "rehearse en cks (a, b, es) (co, w) = ((a', b', es'), co', w')" "metrics_ok os co"
  shows "\<exists>xs. metrics_ok (os @ xs) co' \<and> length xs = length cks \<and> b' = b + int (length (filter is_failure xs)) \<and>
     a' = a + int (length (filter (\<lambda>x. \<not> is_failure x) xs)) \<and> length es' \<le> length es + length (filter is_failure xs)"
  using assms
proof (induction cks arbitrary: a b es co w os)
  case Nil
  then show ?case by (intro exI [of _ "[]"]) simp
next
  case (Cons ck cks)
  obtain rep co1 w1 where run: "run_cycle en ck (co, w) = (rep, co1, w1)" by (rule prod_cases3)
  obtain x where x: "metrics_ok (os @ [x]) co1" "is_failure x = (\<not> cr_ok rep)"
    using run_cycle_history [OF run Cons.prems(2)] by blast
  obtain a1 b1 es1 where acc: "(if cr_ok rep then (a + 1, b, es) else (a, b + 1,
      case cr_error rep of Some e \<Rightarrow> if e = [] then es else es @ [e] | None \<Rightarrow> es)) = (a1, b1, es1)"
    by (rule prod_cases3)
  have step: "b1 = b + (if is_failure x then 1 else 0)" "a1 = a + (if is_failure x then 0 else 1)"
      "length es1 \<le> length es + (if is_failure x then 1 else 0)"
    using acc x(2) by (auto split: if_splits option.splits)
  have "rehearse en cks (a1, b1, es1) (co1, w1) = ((a', b', es'), co', w')"
    using Cons.prems(1) run acc by simp
  from Cons.IH [OF this x(1)] obtain xs where xs: "metrics_ok ((os @ [x]) @ xs) co'" "length xs = length cks"
      "b' = b1 + int (length (filter is_failure xs))" "a' = a1 + int (length (filter (\<lambda>x. \<not> is_failure x) xs))"
      "length es' \<le> length es1 + length (filter is_failure xs)" by blast
  show ?case
    by (rule exI [of _ "x # xs"]) (use xs step in auto)
qed

lemma rehearse_inv:
  assumes "\<And>ck co w rep co' w'. P w \<Longrightarrow> run_cycle en ck (co, w) = (rep, co', w') \<Longrightarrow> P w'"
  shows "P w \<Longrightarrow> rehearse en cks acc (co, w) = (acc', co', w') \<Longrightarrow> P w'"
proof (induction cks arbitrary: acc co w)
  case (Cons ck cks)
  obtain a b es where acc: "acc = (a, b, es)" by (rule prod_cases3)
  obtain rep co1 w1 where run: "run_cycle en ck (co, w) = (rep, co1, w1)" by (rule prod_cases3)
  show ?case using Cons.IH [OF assms [OF Cons.prems(1) run]] Cons.prems(2) run acc by simp
qed simp

lemma wired_connectivity_inv: "wired_connectivity token dt br t s = (c, s') \<Longrightarrow> system_inv s \<Longrightarrow> system_inv s'"
  by (auto simp: wired_connectivity_def system_inv_def split: prod.splits)

lemma wired_preflight_inv:
  assumes "preflight (wired_preflight md token dt br bg) stage ticker s = (r, s')" "system_inv s"
  shows "system_inv s'"
proof -
  obtain t s1 where t: "wired_tickers s = (t, s1)" by fastforce
  have i1: "system_inv s1" by (rule wired_tickers_inv [OF t assms(2)])
  obtain c s2 where c: "wired_connectivity token dt br ticker s1 = (c, s2)" by fastforce
  have "system_inv s2" by (rule wired_connectivity_inv [OF c i1])
  moreover have "s' = s1 \<or> s' = s2"
    using assms(1) t c by (cases t) (auto simp: preflight_def wired_preflight_def Let_def)
  ultimately show ?thesis using i1 by auto
qed

section \<open>Properties\<close>

text \<open>The conditions of a stage that are not met, each with its name and the action that helps.\<close>

definition unmet :: "bool \<Rightarrow> bool \<Rightarrow> bool \<Rightarrow> bool \<Rightarrow> bool \<Rightarrow> bool \<Rightarrow> (string \<times> action) list" where
  "unmet live stopped after_market running has_tickers answering_broker =
     map snd (filter fst
       [(\<not> live, ''trading_mode_live'', SwitchToLive),
        (stopped, ''runtime_not_halted'', ResolveHalt),
        (\<not> after_market \<and> \<not> running, ''background_running'', StartLoops),
        (\<not> after_market \<and> \<not> has_tickers, ''runtime_tickers_present'', SeedUniverse),
        (\<not> after_market \<and> \<not> answering_broker, ''kiwoom_connectivity'', CheckConnection)])"

text \<open>The failed checks with their actions, one by one.\<close>

lemma failed_are_unmet:
  fixes md rt running tickers conn b post
  defines "failed \<equiv> filter (\<lambda>c. ch_required c \<and> \<not> ch_ok c)
    (checks_of \<lparr>sp_background = b \<noteq> post, sp_tickers = b \<noteq> post, sp_connectivity = b \<noteq> post\<rparr> md rt running (length tickers) conn)"
  shows "zip (map ch_key failed) (actions_of failed) =
    unmet (py_lower md = ''live'') (halted rt) (b = post) running (tickers \<noteq> []) (cc_ok conn)"
  unfolding failed_def checks_of_def unmet_def
  by (cases "py_lower md = ''live''"; cases "halted rt"; cases "b = post"; cases running; cases "tickers = []"; cases "cc_ok conn")
     (simp_all add: actions_of_def action_map_def List.map_filter_simps)

text \<open>
  C17: the preflight passes exactly if the mode is live and the runtime is not halted and, except after
  the market, the background runs, there are tickers and the broker answers. One that fails names
  exactly the conditions that are not met, in this order, and for each of them the action that helps.
\<close>

theorem preflight_passes_iff_every_condition:
  assumes "preflight pv stage ticker w = (Inr rep, w')"
  shows "\<exists>tickers w1 conn. pv_tickers pv w = (Inr tickers, w1) \<and> pv_connectivity pv ticker w1 = (conn, w') \<and>
    pr_ok rep = (py_lower (pv_mode pv) = ''live'' \<and> \<not> halted (pv_runtime pv w) \<and>
      (py_lower (py_strip stage) = ''post_market'' \<or> (pv_running pv w \<and> tickers \<noteq> [] \<and> cc_ok conn))) \<and>
    (pr_ok rep = (pr_failed rep = [])) \<and> map action_map (pr_failed rep) = map Some (pr_actions rep) \<and>
    zip (pr_failed rep) (pr_actions rep) = unmet (py_lower (pv_mode pv) = ''live'') (halted (pv_runtime pv w))
      (py_lower (py_strip stage) = ''post_market'') (pv_running pv w) (tickers \<noteq> []) (cc_ok conn)"
proof -
  from assms obtain tickers w1 conn where f: "pv_tickers pv w = (Inr tickers, w1)" "pv_connectivity pv ticker w1 = (conn, w')"
    "pr_checks rep = checks_of (policy_for stage) (pv_mode pv) (pv_runtime pv w) (pv_running pv w) (length tickers) conn"
    "pr_failed rep = map ch_key (filter (\<lambda>c. ch_required c \<and> \<not> ch_ok c) (pr_checks rep))"
    "pr_ok rep = (filter (\<lambda>c. ch_required c \<and> \<not> ch_ok c) (pr_checks rep) = [])"
    "pr_actions rep = actions_of (filter (\<lambda>c. ch_required c \<and> \<not> ch_ok c) (pr_checks rep))"
    by (rule preflight_Inr)
  let ?b = "py_lower (py_strip stage) \<noteq> ''post_market''"
  have pol: "policy_for stage = \<lparr>sp_background = ?b, sp_tickers = ?b, sp_connectivity = ?b\<rparr>"
    by (subst policy_for_cases) simp
  have "pr_ok rep = (py_lower (pv_mode pv) = ''live'' \<and> \<not> halted (pv_runtime pv w) \<and>
      (\<not> ?b \<or> (pv_running pv w \<and> tickers \<noteq> [] \<and> cc_ok conn)))"
    unfolding f(5,3) pol by (cases ?b) (simp_all add: checks_of_def)
  moreover have "map action_map (pr_failed rep) = map Some (pr_actions rep)"
    unfolding f(4,6) by (rule actions_of_checks [OF subset_refl]) (use f(3) in auto)
  moreover have "pr_ok rep = (pr_failed rep = [])" unfolding f(4,5) by simp
  moreover have "zip (pr_failed rep) (pr_actions rep) = unmet (py_lower (pv_mode pv) = ''live'') (halted (pv_runtime pv w))
      (py_lower (py_strip stage) = ''post_market'') (pv_running pv w) (tickers \<noteq> []) (cc_ok conn)"
    unfolding f(4,6,3) pol by (rule failed_are_unmet)
  ultimately show ?thesis using f(1,2) by blast
qed

definition sample_token :: "unit \<Rightarrow> string py \<times> unit" where
  "sample_token b = (Inr ''T'', b)"

definition sample_background :: background where
  "sample_background = snd (bg_start background_init)"

lemma sample_preflight:
  "preflight (wired_preflight ''LIVE'' sample_token ''1'' dead_broker background_init) ''post_market'' None (sample_system [])
     = (Inr rep, s') \<Longrightarrow> pr_ok rep"
  "\<exists>rep s'. preflight (wired_preflight md sample_token ''1'' dead_broker bg) stage None (sample_system []) = (Inr rep, s')"
proof -
  obtain ts u d m where "load_tracking_tickers (ss_universe (sample_system []), ss_odb (sample_system []),
      ss_maint (sample_system [])) = (ts, u, d, m)" by (rule prod_cases4)
  then obtain s1 where t: "wired_tickers (sample_system []) = (Inr ts, s1)" by (simp add: wired_tickers_def)
  show ex: "\<exists>rep s'. preflight (wired_preflight md sample_token ''1'' dead_broker bg) stage None (sample_system []) = (Inr rep, s')"
    for md bg stage using t by (auto simp: preflight_def wired_preflight_def Let_def split: prod.splits)
  have l: "py_lower ''LIVE'' = ''live''" "py_lower (py_strip ''post_market'') = ''post_market''"
    by code_simp+
  assume "preflight (wired_preflight ''LIVE'' sample_token ''1'' dead_broker background_init) ''post_market'' None (sample_system [])
     = (Inr rep, s')"
  then show "pr_ok rep"
    using t l by (auto simp: preflight_def wired_preflight_def Let_def policy_for_def policies_def checks_of_def
      sample_system_def safety_init_def runtime_init_def split: prod.splits)
qed

theorem preflight_passes_iff_every_condition_witness:
  "\<exists>rep s'. preflight (wired_preflight ''paper'' sample_token ''1'' dead_broker sample_background) ''market'' None (sample_system [])
     = (Inr rep, s') \<and> \<not> pr_ok rep \<and> hd (zip (pr_failed rep) (pr_actions rep)) = (''trading_mode_live'', SwitchToLive)"
proof -
  obtain rep s' where run: "preflight (wired_preflight ''paper'' sample_token ''1'' dead_broker sample_background) ''market'' None
      (sample_system []) = (Inr rep, s')" using sample_preflight(2) by blast
  have "py_lower ''paper'' \<noteq> ''live''" by code_simp
  with preflight_passes_iff_every_condition [OF run] show ?thesis
    using run by (auto simp: wired_preflight_def unmet_def)
qed

text \<open>
  A rehearsal whose preflight fails runs no cycle. Otherwise it runs as many as asked for, at
  least one; the successes and failures it reports add up to them, are the ones the metrics record,
  and it is passed exactly if none failed.
\<close>

theorem rehearsal_counts_its_cycles:
  assumes "run_rehearsal pv en clock stage ticker cycles (co, w) = (Inr rep, co', w')" "metrics_ok os co"
  shows "if rr_preflight_ok rep
    then \<exists>xs. metrics_ok (os @ xs) co' \<and> int (length xs) = max cycles 1 \<and> rr_cycles rep = max cycles 1 \<and>
      rr_failed rep = int (length (filter is_failure xs)) \<and> rr_succeeded rep + rr_failed rep = rr_cycles rep \<and>
      rr_ok rep = (\<not> (\<exists>x\<in>set xs. is_failure x)) \<and> length (rr_errors rep) \<le> length (filter is_failure xs)
    else co' = co \<and> rr_succeeded rep = 0 \<and> \<not> rr_ok rep \<and>
      (\<exists>pre. preflight pv stage ticker w = (Inr pre, w') \<and> \<not> pr_ok pre \<and> rr_errors rep = [PreflightFailed (pr_failed pre)])"
proof -
  obtain p w1 where p: "preflight pv stage ticker w = (p, w1)" by fastforce
  with assms(1) obtain pre where pre: "p = Inr pre" by (cases p) (auto simp: run_rehearsal_def)
  show ?thesis
  proof (cases "pr_ok pre")
    case False
    then show ?thesis using assms(1) p pre by (auto simp: run_rehearsal_def)
  next
    case True
    let ?cks = "map clock [0..<nat (max cycles 1)]"
    obtain a b es co1 w2 where r: "rehearse en ?cks (0, 0, []) (co, w1) = ((a, b, es), co1, w2)"
      by (metis prod.exhaust)
    have rep: "rep = \<lparr>rr_ok = (b = 0), rr_cycles = max cycles 1, rr_succeeded = a, rr_failed = b, rr_preflight_ok = True,
        rr_errors = map CycleError es\<rparr>" "co' = co1"
      using assms(1) p pre True r by (auto simp: run_rehearsal_def)
    obtain xs where xs: "metrics_ok (os @ xs) co1" "length xs = length ?cks" "b = int (length (filter is_failure xs))"
        "a = int (length (filter (\<lambda>x. \<not> is_failure x) xs))" "length es \<le> length (filter is_failure xs)"
      using rehearse_counts [OF r assms(2)] by auto
    have "0 \<le> max cycles 1" by simp
    then have "int (length xs) = max cycles 1" using xs(2) by simp
    moreover have "a + b = int (length xs)" using xs(3,4) sum_length_filter_compl [of is_failure xs] by simp
    moreover have "(b = 0) = (\<not> (\<exists>x\<in>set xs. is_failure x))" using xs(3) by (auto simp: filter_empty_conv)
    ultimately show ?thesis using rep xs by auto
  qed
qed

definition sample_clock :: "nat \<Rightarrow> cycle_clock" where
  "sample_clock n = \<lparr>ck_started = sample_time 9 0, ck_mono_start = 1, ck_slot_now = sample_time 9 0, ck_mono_end = 3,
     ck_completed = sample_time 9 0\<rparr>"

theorem rehearsal_counts_its_cycles_witness:
  "\<exists>rep s'. run_rehearsal (wired_preflight ''LIVE'' sample_token ''1'' dead_broker background_init)
     (wired_env dead_broker sample_wiring 5) sample_clock ''post_market'' None 2 (coordinator_init, sample_system []) = (Inr rep, s') \<and>
     rr_preflight_ok rep \<and> rr_succeeded rep + rr_failed rep = 2 \<and> cycle_count (co_metrics (fst s')) = 2"
proof -
  obtain pre s1 where p: "preflight (wired_preflight ''LIVE'' sample_token ''1'' dead_broker background_init) ''post_market'' None
      (sample_system []) = (Inr pre, s1)" using sample_preflight(2) by blast
  obtain succeeded failed errors co s2 where r: "rehearse (wired_env dead_broker sample_wiring 5) (map sample_clock [0..<nat (max 2 1)])
      (0, 0, []) (coordinator_init, s1) = ((succeeded, failed, errors), co, s2)" by (metis prod.exhaust)
  then obtain rep where run: "run_rehearsal (wired_preflight ''LIVE'' sample_token ''1'' dead_broker background_init)
     (wired_env dead_broker sample_wiring 5) sample_clock ''post_market'' None 2 (coordinator_init, sample_system []) = (Inr rep, co, s2)"
    and ok: "rr_preflight_ok rep"
    using p sample_preflight(1) [OF p] by (simp add: run_rehearsal_def)
  from rehearsal_counts_its_cycles [OF run metrics_ok_init] ok obtain xs where
    "metrics_ok xs co" "int (length xs) = 2" "rr_succeeded rep + rr_failed rep = rr_cycles rep" "rr_cycles rep = 2" by auto
  then have "cycle_count (co_metrics co) = 2" by (simp add: metrics_ok_def)
  with run ok \<open>rr_succeeded rep + rr_failed rep = rr_cycles rep\<close> \<open>rr_cycles rep = 2\<close> show ?thesis by auto
qed

text \<open>A rehearsal of the wired system keeps it well formed.\<close>

lemma wired_rehearsal_inv:
  assumes "run_rehearsal (wired_preflight md token dt br bg) (wired_env br wi now) clock stage ticker cycles (co, s) = (r, co', s')"
    "system_inv s"
  shows "system_inv s'"
proof -
  obtain p s1 where p: "preflight (wired_preflight md token dt br bg) stage ticker s = (p, s1)" by fastforce
  have i1: "system_inv s1" by (rule wired_preflight_inv [OF p assms(2)])
  obtain acc co2 s2 where r: "rehearse (wired_env br wi now) (map clock [0..<nat (max cycles 1)]) (0, 0, []) (co, s1) = (acc, co2, s2)"
    by (rule prod_cases3)
  have "system_inv s2" 
    by (rule rehearse_inv [where P = system_inv, OF _ i1 r]) (rule wired_cycle_inv)
  moreover have "s' = s1 \<or> s' = s2"
    using assms(1) p r by (cases p) (auto simp: run_rehearsal_def split: if_splits prod.splits)
  ultimately show ?thesis using i1 by auto
qed

end
