(* ===== verification/Web_Auth.thy ===== *)
theory Web_Auth
  imports Otp_Auth
begin

text \<open>
  The login side of the HTTP application: the client's address and the session guard of \<open>main.py\<close>
  and the routes of \<open>app/api/routes/auth.py\<close>. A request is what the code reads of it: the forwarding
  header, the peer's address, the session cookie. The framework runs a guarded handler only if the
  guard returns; an \<open>HTTPException\<close> with status 401 is the constructor \<open>Unauthorized\<close>.
\<close>

section \<open>Requests\<close>

record http_request =
  hq_forwarded :: "string option"
  hq_host :: "string option"
  hq_cookie :: "string option"

text \<open>The Korean word for "unknown" in UTF-8, for a request without an address.\<close>

definition unknown_ip :: string where
  "unknown_ip = [CHR 0xEC, CHR 0x95, CHR 0x8C, CHR 0xEC, CHR 0x88, CHR 0x98, CHR 0xEC, CHR 0x97, CHR 0x86,
                 CHR 0xEC, CHR 0x9D, CHR 0x8C]"

definition client_ip :: "http_request \<Rightarrow> string" where
  "client_ip rq =
     (let direct = (case hq_host rq of Some h \<Rightarrow> if h = [] then unknown_ip else h | None \<Rightarrow> unknown_ip)
      in case hq_forwarded rq of
           None \<Rightarrow> direct
         | Some forwarded \<Rightarrow>
             if forwarded = [] then direct
             else (let candidate = py_strip (hd (py_split (CHR '','') forwarded))
                   in if candidate \<noteq> [] then candidate else direct))"

text \<open>The guard of the dashboard routes: the detail of the 401, or the session.\<close>

definition require_dashboard_session :: "instant \<Rightarrow> http_request \<Rightarrow> auth \<Rightarrow> (string + session_record) \<times> auth" where
  "require_dashboard_session now rq s =
     (case hq_cookie rq of
        None \<Rightarrow> (Inl ''session_missing'', s)
      | Some sid \<Rightarrow>
          (case validate_session now sid (client_ip rq) s of
             (SessionDenied err, s') \<Rightarrow> (Inl err, s')
           | (SessionOk row, s') \<Rightarrow> (Inr row, s')))"

datatype 'a http = Answer 'a | Unauthorized string

definition guarded :: "instant \<Rightarrow> http_request \<Rightarrow> ('s \<Rightarrow> 'a \<times> 's) \<Rightarrow> auth \<times> 's \<Rightarrow> 'a http \<times> auth \<times> 's" where
  "guarded now rq handler s =
     (case s of (au, w) \<Rightarrow>
      (case require_dashboard_session now rq au of
         (Inl err, au') \<Rightarrow> (Unauthorized err, au', w)
       | (Inr _, au') \<Rightarrow> (case handler w of (a, w') \<Rightarrow> (Answer a, au', w'))))"

section \<open>The routes of the login\<close>

text \<open>What a response does to the session cookie: nothing, set it with its \<open>max_age\<close>, delete it.\<close>

datatype cookie_change = KeepCookie | SetCookie string int | DeleteCookie

definition otp_request_route :: "auth_params \<Rightarrow> instant \<Rightarrow> string \<Rightarrow> http_request \<Rightarrow> auth \<Rightarrow> request_reply \<times> auth" where
  "otp_request_route ap now cd rq s = request_otp ap now cd (client_ip rq) s"

definition otp_verify_route ::
  "auth_params \<Rightarrow> instant \<Rightarrow> string \<Rightarrow> string \<Rightarrow> http_request \<Rightarrow> auth \<Rightarrow> (verify_reply \<times> cookie_change) \<times> auth" where
  "otp_verify_route ap now token cd rq s =
     (case verify_otp ap now token (client_ip rq) cd s of
        (LoggedIn sid until, s') \<Rightarrow> ((LoggedIn sid until, SetCookie sid (ap_session_ttl ap)), s')
      | (r, s') \<Rightarrow> ((r, KeepCookie), s'))"

definition auth_session_route :: "instant \<Rightarrow> http_request \<Rightarrow> auth \<Rightarrow> session_reply \<times> auth" where
  "auth_session_route now rq s =
     (case hq_cookie rq of
        None \<Rightarrow> (SessionDenied ''session_missing'', s)
      | Some sid \<Rightarrow> validate_session now sid (client_ip rq) s)"

definition auth_logout_route :: "http_request \<Rightarrow> auth \<Rightarrow> cookie_change \<times> auth" where
  "auth_logout_route rq s = (DeleteCookie, (case hq_cookie rq of None \<Rightarrow> s | Some sid \<Rightarrow> revoke_session sid s))"

datatype page_reply = RedirectToLogin | AppPage

definition dashboard_app_page :: "instant \<Rightarrow> http_request \<Rightarrow> auth \<Rightarrow> page_reply \<times> auth" where
  "dashboard_app_page now rq s =
     (case hq_cookie rq of
        None \<Rightarrow> (RedirectToLogin, s)
      | Some sid \<Rightarrow>
          (case validate_session now sid (client_ip rq) s of
             (SessionDenied _, s') \<Rightarrow> (RedirectToLogin, s')
           | (SessionOk _, s') \<Rightarrow> (AppPage, s')))"

section \<open>A server under requests\<close>

text \<open>The calls that reach the login state, with the random code or session id they draw.\<close>

datatype web_call =
    CallRequest http_request string
  | CallVerify http_request string string   \<comment> \<open>code entered, session id drawn\<close>
  | CallSession http_request
  | CallLogout http_request
  | CallPage http_request
  | CallGuarded http_request

fun web_step :: "auth_params \<Rightarrow> instant \<Rightarrow> web_call \<Rightarrow> auth \<Rightarrow> auth" where
  "web_step ap now (CallRequest rq cd) s = snd (otp_request_route ap now cd rq s)"
| "web_step ap now (CallVerify rq cd token) s = snd (otp_verify_route ap now token cd rq s)"
| "web_step ap now (CallSession rq) s = snd (auth_session_route now rq s)"
| "web_step ap now (CallLogout rq) s = snd (auth_logout_route rq s)"
| "web_step ap now (CallPage rq) s = snd (dashboard_app_page now rq s)"
| "web_step ap now (CallGuarded rq) s = snd (require_dashboard_session now rq s)"

fun web_run :: "auth_params \<Rightarrow> (instant \<times> web_call) list \<Rightarrow> auth \<Rightarrow> auth" where
  "web_run ap [] s = s"
| "web_run ap ((now, c) # cs) s = web_run ap cs (web_step ap now c s)"

text \<open>A call that logs the session out, and one that draws its id again.\<close>

fun logs_out :: "string \<Rightarrow> web_call \<Rightarrow> bool" where
  "logs_out sid (CallLogout rq) = (hq_cookie rq = Some sid)"
| "logs_out sid _ = False"

fun draws :: "string \<Rightarrow> web_call \<Rightarrow> bool" where
  "draws sid (CallVerify rq cd token) = (token = sid)"
| "draws sid _ = False"

section \<open>Facts\<close>

lemma request_otp_session: "request_otp ap now cd ip s = (r, s') \<Longrightarrow> au_session s' = au_session s"
  by (auto simp: request_otp_def Let_def unlock_verify_if_expired_def split: if_splits option.splits prod.splits)

lemma verify_otp_session:
  assumes "verify_otp ap now token ip cd s = (r, s')" "sid \<noteq> token"
  shows "au_session s' sid = au_session s sid"
proof -
  let ?v0 = "case au_verify s ip of None \<Rightarrow> \<lparr>vf_fail_count = 0, vf_locked_until = None\<rparr> | Some v \<Rightarrow> v"
  obtain v1 s1 where u: "unlock_verify_if_expired ip now ?v0 (put_verify ip ?v0 s) = (v1, s1)" by fastforce
  have s1: "au_session s1 = au_session s"
    using unlock_verify_frames(3) [of ip now ?v0 "put_verify ip ?v0 s"] u by simp
  have reg: "au_session t' = au_session t" if "register_verify_failure ap ip now b t = (x, t')" for b t x t'
    using register_failure_frames [OF that] by blast
  show ?thesis
    using assms s1
    by (auto simp: verify_otp_def Let_def u split: if_splits option.splits prod.splits dest!: reg)
qed

lemma validate_session_keeps:
  assumes "validate_session now sid' ip s = (r, s')"
  shows "au_session s' sid = au_session s sid \<or>
     (\<exists>row. au_session s sid = Some row \<and> se_expires_at row < now \<and> au_session s' sid = None)"
  using assms by (auto simp: validate_session_def split: option.splits if_splits)

lemma revoke_session_keeps: "sid \<noteq> sid' \<Longrightarrow> au_session (revoke_session sid' s) sid = au_session s sid"
  by (auto simp: revoke_session_def split: option.splits)

text \<open>The three routes that ask for the session have its effect or none.\<close>

lemma guard_state:
  "snd (require_dashboard_session now rq s) = (case hq_cookie rq of None \<Rightarrow> s | Some sid \<Rightarrow> snd (validate_session now sid (client_ip rq) s))"
  "snd (auth_session_route now rq s) = (case hq_cookie rq of None \<Rightarrow> s | Some sid \<Rightarrow> snd (validate_session now sid (client_ip rq) s))"
  "snd (dashboard_app_page now rq s) = (case hq_cookie rq of None \<Rightarrow> s | Some sid \<Rightarrow> snd (validate_session now sid (client_ip rq) s))"
  by (auto simp: require_dashboard_session_def auth_session_route_def dashboard_app_page_def
      split: option.splits prod.splits session_reply.splits)

lemma asked_session_keeps:
  "au_session (case c of None \<Rightarrow> s | Some sid' \<Rightarrow> snd (validate_session now sid' ip s)) sid = au_session s sid \<or>
   (\<exists>row. au_session s sid = Some row \<and> se_expires_at row < now \<and>
      au_session (case c of None \<Rightarrow> s | Some sid' \<Rightarrow> snd (validate_session now sid' ip s)) sid = None)"
  using validate_session_keeps [of now "the c" ip s "fst (validate_session now (the c) ip s)"
      "snd (validate_session now (the c) ip s)" sid]
  by (cases c) auto

text \<open>A session changes only by its logout, its expiry or a login that draws its id.\<close>

lemma web_step_session:
  assumes "\<not> draws sid c"
  shows "au_session (web_step ap now c s) sid = au_session s sid \<or>
     au_session (web_step ap now c s) sid = None \<and>
       (logs_out sid c \<or> (\<exists>row. au_session s sid = Some row \<and> se_expires_at row < now))"
proof (cases c)
  case (CallRequest rq cd)
  obtain r s' where "request_otp ap now cd (client_ip rq) s = (r, s')" by fastforce
  with request_otp_session [OF this] CallRequest show ?thesis by (simp add: otp_request_route_def)
next
  case (CallVerify rq cd token)
  then have ne: "sid \<noteq> token" using assms by auto
  obtain r s' where v: "verify_otp ap now token (client_ip rq) cd s = (r, s')" by fastforce
  show ?thesis using verify_otp_session [OF v ne] v CallVerify by (cases r) (auto simp: otp_verify_route_def)
next
  case (CallLogout rq)
  then show ?thesis
    using revoke_session_keeps [of sid "the (hq_cookie rq)" s]
    by (cases "hq_cookie rq"; cases "au_session s sid") (auto simp: auth_logout_route_def revoke_session_def split: option.splits)
qed (use asked_session_keeps in \<open>fastforce simp: guard_state\<close>)+

lemma web_run_keeps:
  assumes "au_session s sid = Some row" "\<forall>(t, c)\<in>set cs. t \<le> se_expires_at row \<and> \<not> draws sid c \<and> \<not> logs_out sid c"
  shows "au_session (web_run ap cs s) sid = Some row"
  using assms
proof (induction cs arbitrary: s)
  case (Cons a cs)
  obtain t c where a: "a = (t, c)" by fastforce
  have "au_session (web_step ap t c s) sid = Some row"
    using web_step_session [of sid c ap t s] Cons.prems a by auto
  then show ?case using Cons a by auto
qed simp

lemma web_run_absent:
  assumes "au_session s sid = None" "\<forall>(t, c)\<in>set cs. \<not> draws sid c"
  shows "au_session (web_run ap cs s) sid = None"
  using assms
proof (induction cs arbitrary: s)
  case (Cons a cs)
  obtain t c where a: "a = (t, c)" by fastforce
  have "au_session (web_step ap t c s) sid = None"
    using web_step_session [of sid c ap t s] Cons.prems a by auto
  then show ?case using Cons a by auto
qed simp

lemma guard_without_row:
  "hq_cookie rq = Some sid \<Longrightarrow> au_session s sid = None \<Longrightarrow>
     fst (require_dashboard_session now rq s) = Inl ''session_not_found''"
  by (simp add: require_dashboard_session_def validate_session_def)

lemma guard_with_row:
  "hq_cookie rq = Some sid \<Longrightarrow> au_session s sid = Some row \<Longrightarrow> se_ip row = client_ip rq \<Longrightarrow> now \<le> se_expires_at row \<Longrightarrow>
     fst (require_dashboard_session now rq s) = Inr row"
  by (simp add: require_dashboard_session_def validate_session_def)

section \<open>Properties\<close>

text \<open>A refused session leaves a trace in the audit log, and goes if its time is over; nothing else changes.\<close>

lemma refused_session:
  assumes "validate_session now sid ip s = (SessionDenied err, s')"
  shows "au_otp s' = au_otp s \<and> au_rate s' = au_rate s \<and> au_verify s' = au_verify s \<and> au_alerts s' = au_alerts s \<and>
    (\<exists>ty. au_audit s' = au_audit s @ [Audit ip ty False])"
    "\<not> (\<exists>row. au_session s sid = Some row \<and> se_ip row = ip \<and> now \<le> se_expires_at row)"
    "au_session s' i = au_session s i \<or>
       i = sid \<and> au_session s' i = None \<and> (\<exists>row. au_session s i = Some row \<and> se_expires_at row < now)"
  using assms by (auto simp: validate_session_def audit_def split: option.splits if_splits)

text \<open>
  C14: a handler behind the guard runs exactly for a request whose cookie names a session that exists, has
  not expired and was opened from the address the request comes from. Any other request is
  answered 401: the handler's state is left alone, and so are the codes, limits, locks and alerts of the
  login; of the sessions only the one that the cookie names can go, and only because it has
  expired; and a cookie that was looked up leaves one row in the audit log.
\<close>

theorem guarded_routes_need_a_session:
  "case guarded now rq handler (au, w) of
     (Answer a, au', w') \<Rightarrow> handler w = (a, w') \<and> au_session au' = au_session au \<and>
       (\<exists>sid row. hq_cookie rq = Some sid \<and> au_session au sid = Some row \<and> se_ip row = client_ip rq \<and> now \<le> se_expires_at row)
   | (Unauthorized err, au', w') \<Rightarrow> w' = w \<and>
       \<not> (\<exists>sid row. hq_cookie rq = Some sid \<and> au_session au sid = Some row \<and> se_ip row = client_ip rq \<and> now \<le> se_expires_at row) \<and>
       au_otp au' = au_otp au \<and> au_rate au' = au_rate au \<and> au_verify au' = au_verify au \<and> au_alerts au' = au_alerts au \<and>
       (\<forall>sid. au_session au' sid = au_session au sid \<or>
          hq_cookie rq = Some sid \<and> au_session au' sid = None \<and> (\<exists>row. au_session au sid = Some row \<and> se_expires_at row < now)) \<and>
       (case hq_cookie rq of None \<Rightarrow> au' = au | Some sid \<Rightarrow> \<exists>ty. au_audit au' = au_audit au @ [Audit (client_ip rq) ty False])"
proof (cases "hq_cookie rq")
  case (Some sid)
  obtain r au1 where v: "validate_session now sid (client_ip rq) au = (r, au1)" by (rule prod.exhaust)
  obtain a w1 where h: "handler w = (a, w1)" by (rule prod.exhaust)
  show ?thesis
  proof (cases r)
    case (SessionOk row)
    then have "au_session au1 = au_session au" using v by (auto simp: validate_session_def split: option.splits if_splits)
    then show ?thesis
      using Some v h SessionOk validate_session_ok [OF v [unfolded SessionOk]] by (simp add: guarded_def require_dashboard_session_def)
  next
    case (SessionDenied err)
    note R = refused_session [OF v [unfolded SessionDenied]]
    have g: "guarded now rq handler (au, w) = (Unauthorized err, au1, w)"
      using Some v SessionDenied by (simp add: guarded_def require_dashboard_session_def)
    show ?thesis unfolding g using R Some by (simp del: not_ex) blast
  qed
qed (simp add: guarded_def require_dashboard_session_def)

text \<open>
  C37: a login lasts exactly as long as its cookie. Whatever other requests the server answers until then,
  unless they log this session out or draw its id again, a request from the same address with the
  cookie passes the guard at every time within the max_age of the login.
\<close>

theorem login_lasts_as_long_as_its_cookie:
  assumes "otp_verify_route ap now token cd rq s = ((r, SetCookie sid age), s')"
    and "\<forall>(t, c)\<in>set cs. t \<le> t' \<and> \<not> draws sid c \<and> \<not> logs_out sid c"
    and "t' \<le> now + seconds age" "hq_cookie rq' = Some sid" "client_ip rq' = client_ip rq"
  shows "\<exists>row. fst (require_dashboard_session t' rq' (web_run ap cs s')) = Inr row \<and> se_session_id row = token"
proof -
  obtain r1 s1 where v: "verify_otp ap now token (client_ip rq) cd s = (r1, s1)" by fastforce
  with assms(1) obtain until where r1: "r1 = LoggedIn sid until" "age = ap_session_ttl ap" "s' = s1"
    by (cases r1) (auto simp: otp_verify_route_def)
  note L = verify_otp_LoggedIn [OF v [unfolded r1]]
  let ?row = "\<lparr>se_session_id = token, se_ip = client_ip rq, se_issued_at = now, se_expires_at = until\<rparr>"
  have row: "au_session s' sid = Some ?row" using L(3,5) r1(3) by simp
  have le: "t' \<le> until" using assms(3) L(4) r1(2) by simp
  have "au_session (web_run ap cs s') sid = Some ?row"
    by (rule web_run_keeps [OF row]) (use assms(2) le in fastforce)
  from guard_with_row [OF assms(4) this] assms(5) le show ?thesis by simp
qed

text \<open>
  A logout is final: after it no request with that cookie passes the guard, at any time and after any
  further requests, as long as no login draws the same session id.
\<close>

theorem logout_is_final:
  assumes "hq_cookie rq = Some sid" "hq_cookie rq' = Some sid" "\<forall>(t, c)\<in>set cs. \<not> draws sid c"
  shows "fst (require_dashboard_session t' rq' (web_run ap cs (snd (auth_logout_route rq s)))) = Inl ''session_not_found''"
proof -
  have "au_session (snd (auth_logout_route rq s)) sid = None"
    using assms(1) by (auto simp: auth_logout_route_def revoke_session_def split: option.splits)
  from web_run_absent [OF this assms(3)] assms(2) show ?thesis by (simp add: guard_without_row)
qed

text \<open>A request from one peer under an address of its choice, and many of them.\<close>

definition forwarded_request :: "string \<Rightarrow> string \<Rightarrow> http_request" where
  "forwarded_request peer addr = \<lparr>hq_forwarded = Some addr, hq_host = Some peer, hq_cookie = None\<rparr>"

fun otp_requests :: "auth_params \<Rightarrow> (instant \<times> string \<times> http_request) list \<Rightarrow> auth \<Rightarrow> request_reply list \<times> auth" where
  "otp_requests ap [] s = ([], s)"
| "otp_requests ap ((now, cd, rq) # rqs) s =
     (case otp_request_route ap now cd rq s of
        (r, s1) \<Rightarrow> (case otp_requests ap rqs s1 of (rs, s2) \<Rightarrow> (r # rs, s2)))"

lemma fresh_request_sent:
  assumes "au_rate s ip = None" "au_verify s ip = None" "0 < ap_request_limit ap"
  shows "\<exists>s'. request_otp ap now cd ip s = (OtpSent, s') \<and> (\<forall>i. i \<noteq> ip \<longrightarrow> au_rate s' i = au_rate s i) \<and> au_verify s' = au_verify s"
  using assms by (auto simp: request_otp_def Let_def lock_expired_def locked_at_def)

lemma fresh_requests_sent:
  assumes "0 < ap_request_limit ap" "distinct (map (\<lambda>(t, cd, rq). client_ip rq) rqs)"
    "\<forall>(t, cd, rq)\<in>set rqs. au_rate s (client_ip rq) = None \<and> au_verify s (client_ip rq) = None"
  shows "fst (otp_requests ap rqs s) = replicate (length rqs) OtpSent"
  using assms
proof (induction rqs arbitrary: s)
  case (Cons a rqs)
  obtain t cd rq where a: "a = (t, cd, rq)" by (rule prod_cases3)
  from Cons.prems a obtain s1 where s1: "request_otp ap t cd (client_ip rq) s = (OtpSent, s1)"
    "\<forall>i. i \<noteq> client_ip rq \<longrightarrow> au_rate s1 i = au_rate s i" "au_verify s1 = au_verify s"
    using fresh_request_sent [of s "client_ip rq" ap t cd] by auto
  have "\<forall>(t, cd, rq)\<in>set rqs. au_rate s1 (client_ip rq) = None \<and> au_verify s1 (client_ip rq) = None"
    using Cons.prems a s1 by (fastforce simp: image_iff)
  then show ?case using Cons.IH [of s1] Cons.prems a s1(1) by (simp add: otp_request_route_def split_beta)
qed simp

lemma split_strip_digits:
  "ds \<noteq> [] \<Longrightarrow> list_all ascii_digit ds \<Longrightarrow> py_strip (hd (py_split (CHR '','') ds)) = ds"
proof -
  assume ds: "ds \<noteq> []" "list_all ascii_digit ds"
  have "CHR '','' \<notin> set ds" using ds(2) by (auto simp: list_all_iff ascii_digit_def ch_code_def)
  then have "py_split (CHR '','') ds = [ds]" by (induction ds) auto
  with ds show ?thesis by (simp add: py_strip_digits)
qed

text \<open>
  The limits on login requests count addresses a client names itself. One peer that puts another
  address into the forwarding header of each request is sent a code for every one of them, however
  many and however fast, and no lock is ever set.
\<close>

theorem forwarding_header_evades_the_request_limit:
  "fst (otp_requests default_params (map (\<lambda>i. (now, cd, forwarded_request peer (show_nat i))) [0..<n]) auth_init)
     = replicate n OtpSent"
proof -
  have ip: "client_ip (forwarded_request peer (show_nat i)) = show_nat i" for i
    using split_strip_digits [OF show_nat_nonempty show_nat_digits]
    by (simp add: client_ip_def forwarded_request_def Let_def show_nat_nonempty)
  have "inj show_nat" by (rule injI) (simp add: show_nat_inj)
  then have "distinct (map show_nat [0..<n])" by (simp add: distinct_map inj_on_def inj_def)
  then show ?thesis
    using fresh_requests_sent [of default_params "map (\<lambda>i. (now, cd, forwarded_request peer (show_nat i))) [0..<n]" auth_init]
    by (simp add: ip comp_def auth_init_def default_params_def)
qed

definition sample_peer :: "string option \<Rightarrow> http_request" where
  "sample_peer c = \<lparr>hq_forwarded = Some '' ip , proxy'', hq_host = Some ''peer'', hq_cookie = c\<rparr>"

lemma sample_peer_ip: "client_ip (sample_peer c) = ''ip''"
  by (simp add: client_ip_def sample_peer_def py_strip_def py_isspace_def ch_code_def)

lemma sample_route:
  "otp_verify_route default_params 5 ''t'' ''1234 '' (sample_peer None) sample_auth
     = ((LoggedIn ''t'' (5 + seconds 86400), SetCookie ''t'' 86400),
        snd (verify_otp default_params 5 ''t'' ''ip'' ''1234 '' sample_auth))"
proof -
  obtain s' where "verify_otp default_params 5 ''t'' ''ip'' ''1234 '' sample_auth = (LoggedIn ''t'' (5 + seconds 86400), s')"
    using sample_login by (metis prod.collapse)
  moreover have "ap_session_ttl default_params = 86400" by (simp add: default_params_def)
  ultimately show ?thesis by (simp add: otp_verify_route_def sample_peer_ip)
qed

theorem login_lasts_as_long_as_its_cookie_witness:
  "\<exists>row. fst (require_dashboard_session (5 + seconds 86400) (sample_peer (Some ''t''))
     (web_run default_params [(6, CallLogout (sample_peer (Some ''x''))), (7, CallPage (sample_peer (Some ''t'')))]
       (snd (verify_otp default_params 5 ''t'' ''ip'' ''1234 '' sample_auth)))) = Inr row \<and> se_session_id row = ''t''"
proof -
  have q: "\<forall>(t, c)\<in>set [(6 :: instant, CallLogout (sample_peer (Some ''x''))), (7, CallPage (sample_peer (Some ''t'')))].
      t \<le> 5 + seconds 86400 \<and> \<not> draws ''t'' c \<and> \<not> logs_out ''t'' c"
    by (simp add: sample_peer_def)
  show ?thesis
    by (rule login_lasts_as_long_as_its_cookie [OF sample_route q]) (simp_all add: sample_peer_ip, simp add: sample_peer_def)
qed

theorem logout_is_final_witness:
  "fst (require_dashboard_session 9 (sample_peer (Some ''t''))
     (web_run default_params [(6, CallPage (sample_peer (Some ''t'')))]
       (snd (auth_logout_route (sample_peer (Some ''t''))
         (snd (verify_otp default_params 5 ''t'' ''ip'' ''1234 '' sample_auth)))))) = Inl ''session_not_found''"
  by (rule logout_is_final [where sid = "''t''"]) (simp_all add: sample_peer_def)

end
