(* ===== verification/Web_Backtest.thy ===== *)
theory Web_Backtest
  imports Runtime_Factory Backtest_Jobs Reports
begin

text \<open>
  The backtests of \<open>main.py\<close>: the route that runs given signals, the dashboard's manual run that
  lets a strategy look at every prefix of the stored bars, the automatic run over the first followed
  ticker, and the job lists. The job's id, its time and the civil time of an instant are arguments.
  A number of the configuration may be "nan", which the simulation's numbers are not: a run that would
  store one is an outcome of its own and its job is left out.
\<close>

section \<open>Helpers\<close>

definition supported_timeframes :: "string list" where
  "supported_timeframes = [''3m'', ''5m'', ''15m'', ''60m'', ''1d'']"

definition strategy_aliases :: "(string \<times> string) list" where
  "strategy_aliases =
    [(''1'', ''1''), (''gap'', ''1''), (''gap_momentum'', ''1''), (''2'', ''2''), (''ema'', ''2''), (''ema_pullback'', ''2''),
     (''3'', ''3''), (''breakout'', ''3''), (''volatility_breakout'', ''3''), (''4'', ''4''), (''volume'', ''4''),
     (''volume_surge'', ''4''), (''5'', ''5''), (''support'', ''5''), (''support_resistance'', ''5'')]"

definition normalize_strategy_id :: "string \<Rightarrow> string" where
  "normalize_strategy_id sid =
     (case map_of strategy_aliases (py_lower (py_strip sid)) of Some a \<Rightarrow> a | None \<Rightarrow> py_strip sid)"

text \<open>The Korean message "unsupported strategy_id: " in UTF-8.\<close>

definition unsupported_strategy :: string where
  "unsupported_strategy =
    [CHR 0xEC, CHR 0xA7, CHR 0x80, CHR 0xEC, CHR 0x9B, CHR 0x90, CHR 0xED, CHR 0x95, CHR 0x98, CHR 0xEC,
     CHR 0xA7, CHR 0x80, CHR 0x20, CHR 0xEC, CHR 0x95, CHR 0x8A, CHR 0xEB, CHR 0x8A, CHR 0x94, CHR 0x20,
     CHR 0x73, CHR 0x74, CHR 0x72, CHR 0x61, CHR 0x74, CHR 0x65, CHR 0x67, CHR 0x79, CHR 0x5F, CHR 0x69,
     CHR 0x64, CHR 0x3A, CHR 0x20]"

definition build_strategy_instance :: "string \<Rightarrow> string \<Rightarrow> real \<Rightarrow> strategy py" where
  "build_strategy_instance sid timeframe k =
     (let normalized = normalize_strategy_id sid in
      if normalized = ''1'' then GapMomentumStrategy timeframe None
      else if normalized = ''2'' then EmaPullbackStrategy timeframe None
      else if normalized = ''3'' then VolatilityBreakoutStrategy timeframe None k
      else if normalized = ''4'' then VolumeSurgeStrategy timeframe None
      else if normalized = ''5'' then SupportResistanceStrategy timeframe None
      else Inl (ValueError (unsupported_strategy @ sid)))"

record risk_meta =
  rm_atr_period :: pyfloat
  rm_stop_atr_mult :: pyfloat
  rm_tp_atr_mult :: pyfloat
  rm_trail_atr_mult :: pyfloat

definition backtest_risk_meta :: "config \<Rightarrow> risk_meta py" where
  "backtest_risk_meta cfg =
     py_bind (to_float (config_get ''atr_period'' cfg)) (\<lambda>a.
     py_bind (to_float (config_get ''stop_atr_mult'' cfg)) (\<lambda>s.
     py_bind (to_float (config_get ''tp_atr_mult'' cfg)) (\<lambda>t.
     py_bind (to_float (config_get ''trail_atr_mult'' cfg)) (\<lambda>r.
       Inr \<lparr>rm_atr_period = a, rm_stop_atr_mult = s, rm_tp_atr_mult = t, rm_trail_atr_mult = r\<rparr>))))"

text \<open>\<open>min(max(value, 0.0), 0.5)\<close>: a NaN comes through both.\<close>

definition backtest_slippage_default :: "config \<Rightarrow> pyfloat py" where
  "backtest_slippage_default cfg =
     py_bind (to_float (config_get ''slippage_pct'' cfg)) (\<lambda>v.
       (let hi = (if pf_lt v (Fin 0) then Fin 0 else v)
        in Inr (if pf_lt (Fin (1 / 2)) hi then Fin (1 / 2) else hi)))"

text \<open>The numbers of a job, if all of them are.\<close>

definition job_meta_of :: "string \<Rightarrow> risk_meta \<Rightarrow> job_meta option" where
  "job_meta_of source r =
     (case (rm_atr_period r, rm_stop_atr_mult r, rm_tp_atr_mult r, rm_trail_atr_mult r) of
        (Fin a, Fin s, Fin t, Fin q) \<Rightarrow>
          Some \<lparr>mt_source = Some source, mt_atr_period = Some a, mt_stop_atr_mult = Some s, mt_tp_atr_mult = Some t,
                mt_trail_atr_mult = Some q\<rparr>
      | _ \<Rightarrow> None)"

section \<open>Running given signals\<close>

text \<open>\<open>start_job\<close> with the meta of a route; every value of it is read before the job starts.\<close>

definition start_with_meta ::
  "config \<Rightarrow> string \<Rightarrow> string \<Rightarrow> instant \<Rightarrow> candle list \<Rightarrow> signal list \<Rightarrow> pyfloat \<Rightarrow> backtests \<Rightarrow> bool py \<times> backtests" where
  "start_with_meta cfg source job_id created candles signals slippage b =
     (case backtest_risk_meta cfg of
        Inl x \<Rightarrow> (Inl x, b)
      | Inr r \<Rightarrow>
          (case (slippage, job_meta_of source r) of
             (Fin s, Some meta) \<Rightarrow> (Inr True, start_job job_id created candles signals s meta b)
           | _ \<Rightarrow> (Inr False, b)))"

definition bad_slippage :: "pyfloat \<Rightarrow> bool" where
  "bad_slippage s = (pf_lt s (Fin 0) \<or> pf_lt (Fin (1 / 2)) s)"

datatype run_outcome = RunQueued string | RunBadSlippage | RunNotANumber

definition run_backtest ::
  "config \<Rightarrow> string \<Rightarrow> instant \<Rightarrow> candle list \<Rightarrow> signal list \<Rightarrow> real option \<Rightarrow> backtests \<Rightarrow> run_outcome py \<times> backtests" where
  "run_backtest cfg job_id created candles signals slippage_pct b =
     (case (case slippage_pct of None \<Rightarrow> backtest_slippage_default cfg | Some s \<Rightarrow> Inr (Fin s)) of
        Inl x \<Rightarrow> (Inl x, b)
      | Inr s \<Rightarrow>
          if bad_slippage s then (Inr RunBadSlippage, b)
          else (case start_with_meta cfg ''system_api'' job_id created candles signals s b of
                  (Inl x, b') \<Rightarrow> (Inl x, b')
                | (Inr started, b') \<Rightarrow> (Inr (if started then RunQueued job_id else RunNotANumber), b')))"

section \<open>The manual run\<close>

record manual_request =
  mr_ticker :: string
  mr_strategy_id :: string
  mr_timeframe :: string
  mr_start :: instant
  mr_end :: instant
  mr_slippage :: "real option"
  mr_k :: real

datatype manual_error =
    EndNotAfterStart | BadSlippage | UnsupportedTimeframe string | StrategyError string
  | NoCandleTable | DbError string | TooFewCandles

record manual_meta =
  mm_ticker :: string
  mm_strategy_id :: string
  mm_timeframe :: string
  mm_candles :: nat
  mm_signals :: nat
  mm_slippage :: pyfloat

datatype manual_reply = ManualQueued string manual_meta | ManualRefused manual_error | ManualNotANumber

text \<open>The loop over the prefixes; a strategy that raises ends it.\<close>

fun manual_signals ::
  "strategy \<Rightarrow> (instant \<Rightarrow> datetime) \<Rightarrow> string \<Rightarrow> string \<Rightarrow> candle list \<Rightarrow> nat list \<Rightarrow> signal list py" where
  "manual_signals st civil ticker timeframe candles [] = Inr []"
| "manual_signals st civil ticker timeframe candles (i # is) =
     (let window = take (i + 1) candles in
      py_bind (generate st ticker window (civil (cd_ts (last window)))) (\<lambda>sg.
      py_bind (manual_signals st civil ticker timeframe candles is) (\<lambda>rest.
        Inr (case sg of
               None \<Rightarrow> rest
             | Some s \<Rightarrow> \<lparr>sg_index = int i, sg_side = sg_side s, sg_ticker = ticker, sg_strategy_id = sg_strategy_id s,
                          sg_timeframe = timeframe, sg_price = sg_price s, sg_signal_time = sg_signal_time s\<rparr> # rest))))"

text \<open>The run once the request is accepted: the stored bars, the signals, the job.\<close>

definition queue_manual ::
  "config \<Rightarrow> string \<Rightarrow> instant \<Rightarrow> manual_request \<Rightarrow> string \<Rightarrow> string \<Rightarrow> pyfloat \<Rightarrow> candle list \<Rightarrow> signal list \<Rightarrow> backtests \<Rightarrow>
    manual_reply py \<times> backtests" where
  "queue_manual cfg job_id created req ticker timeframe slippage candles signals b =
     (case start_with_meta cfg ''dashboard_manual'' job_id created candles signals slippage b of
        (Inl x, b') \<Rightarrow> (Inl x, b')
      | (Inr started, b') \<Rightarrow>
          (Inr (if started
                then ManualQueued job_id
                  \<lparr>mm_ticker = ticker, mm_strategy_id = normalize_strategy_id (mr_strategy_id req), mm_timeframe = timeframe,
                   mm_candles = length candles, mm_signals = length signals, mm_slippage = slippage\<rparr>
                else ManualNotANumber), b'))"

definition manual_run ::
  "config \<Rightarrow> (instant \<Rightarrow> datetime) \<Rightarrow> string \<Rightarrow> instant \<Rightarrow> manual_request \<Rightarrow> string \<Rightarrow> string \<Rightarrow> pyfloat \<Rightarrow> strategy \<Rightarrow>
    candle_db \<times> backtests \<Rightarrow> manual_reply py \<times> candle_db \<times> backtests" where
  "manual_run cfg civil job_id created req ticker timeframe slippage strat st =
     (case st of (d, b) \<Rightarrow>
      (case list_range ticker timeframe (Some (mr_start req)) (Some (mr_end req)) 0 100000 d of
         (Inl x, d') \<Rightarrow>
           (case x of
              SQLAlchemyError m \<Rightarrow> (Inr (ManualRefused (if py_contains ''rebuild_candles'' m then NoCandleTable else DbError m)), d', b)
            | _ \<Rightarrow> (Inl x, d', b))
       | (Inr rows, d') \<Rightarrow>
           if length rows < 2 then (Inr (ManualRefused TooFewCandles), d', b)
           else
             (let candles = map candle_of_row rows in
              case manual_signals strat civil ticker timeframe candles [0..<length candles - 1] of
                Inl x \<Rightarrow> (Inl x, d', b)
              | Inr signals \<Rightarrow>
                  (case queue_manual cfg job_id created req ticker timeframe slippage candles signals b of
                     (r, b') \<Rightarrow> (r, d', b')))))"

definition start_manual_backtest ::
  "config \<Rightarrow> (instant \<Rightarrow> datetime) \<Rightarrow> string \<Rightarrow> instant \<Rightarrow> manual_request \<Rightarrow> candle_db \<times> backtests \<Rightarrow>
    manual_reply py \<times> candle_db \<times> backtests" where
  "start_manual_backtest cfg civil job_id created req st =
     (case (case mr_slippage req of None \<Rightarrow> backtest_slippage_default cfg | Some s \<Rightarrow> Inr (Fin s)) of
        Inl x \<Rightarrow> (Inl x, st)
      | Inr slippage \<Rightarrow>
          if mr_end req \<le> mr_start req then (Inr (ManualRefused EndNotAfterStart), st)
          else if bad_slippage slippage then (Inr (ManualRefused BadSlippage), st)
          else
            (let timeframe = py_strip (mr_timeframe req); ticker = py_strip (mr_ticker req) in
             if timeframe \<notin> set supported_timeframes then (Inr (ManualRefused (UnsupportedTimeframe timeframe)), st)
             else
               (case build_strategy_instance (mr_strategy_id req) timeframe (mr_k req) of
                  Inl x \<Rightarrow> (case x of ValueError m \<Rightarrow> (Inr (ManualRefused (StrategyError m)), st) | _ \<Rightarrow> (Inl x, st))
                | Inr strat \<Rightarrow> manual_run cfg civil job_id created req ticker timeframe slippage strat st)))"

section \<open>The automatic run\<close>

text \<open>\<open>_load_auto_backtest_candles\<close>: every exception is the empty list.\<close>

definition load_auto_backtest_candles :: "nat \<Rightarrow> string \<Rightarrow> 'b system \<Rightarrow> candle list \<times> 'b system" where
  "load_auto_backtest_candles limit timeframe s =
     (case wired_tickers s of
        (Inl _, s1) \<Rightarrow> ([], s1)
      | (Inr [], s1) \<Rightarrow> ([], s1)
      | (Inr (target # _), s1) \<Rightarrow>
          (case list_recent target timeframe limit (ss_candles s1) of
             (Inl _, d) \<Rightarrow> ([], s1\<lparr>ss_candles := d\<rparr>)
           | (Inr rows, d) \<Rightarrow> (map candle_of_row rows, s1\<lparr>ss_candles := d\<rparr>)))"

text \<open>The route that triggers the scheduler at once; a slippage that is no number is not modelled.\<close>

definition auto_backtest_run_now ::
  "config \<Rightarrow> datetime \<Rightarrow> string \<Rightarrow> instant \<Rightarrow> 'b system \<times> scheduler \<times> backtests \<Rightarrow>
    trigger_reply option py \<times> 'b system \<times> scheduler \<times> backtests" where
  "auto_backtest_run_now cfg now job_id created st =
     (case st of (s, sc, b) \<Rightarrow>
      (case load_auto_backtest_candles 240 ''5m'' s of
         (candles, s1) \<Rightarrow>
           (case backtest_slippage_default cfg of
              Inr (Fin slippage) \<Rightarrow>
                (case trigger_now 80 ''manual_api'' now job_id created candles slippage (sc, b) of
                   (r, sc', b') \<Rightarrow> (Inr (Some r), s1, sc', b'))
            | _ \<Rightarrow>
                if length candles < 2 \<or> build_signals 80 candles = []
                then (case trigger_now 80 ''manual_api'' now job_id created candles 0 (sc, b) of
                        (r, sc', b') \<Rightarrow> (Inr (Some r), s1, sc', b'))
                else (case backtest_slippage_default cfg of
                        Inl x \<Rightarrow> (Inl x, s1, sc, b)
                      | Inr _ \<Rightarrow> (Inr None, s1, sc, b)))))"

section \<open>The job routes\<close>

record job_listing =
  jl_total :: nat
  jl_offset :: int
  jl_limit :: int
  jl_items :: "(string \<times> job) list"

definition list_backtest_jobs :: "int \<Rightarrow> int \<Rightarrow> string option \<Rightarrow> backtests \<Rightarrow> job_listing" where
  "list_backtest_jobs limit offset status b =
     \<lparr>jl_total = count_jobs status b, jl_offset = max offset 0, jl_limit = max 1 (min limit 200),
      jl_items = list_jobs (max 1 (min limit 200)) (max offset 0) status b\<rparr>"

definition get_backtest_job :: "string \<Rightarrow> backtests \<Rightarrow> (string + job)" where
  "get_backtest_job job_id b = (case get_job job_id b of None \<Rightarrow> Inl ''job_not_found'' | Some j \<Rightarrow> Inr j)"

section \<open>Facts\<close>

lemma manual_signals_append:
  "manual_signals st civil ticker timeframe cs (is @ js) =
     py_bind (manual_signals st civil ticker timeframe cs is) (\<lambda>xs.
     py_bind (manual_signals st civil ticker timeframe cs js) (\<lambda>ys. Inr (xs @ ys)))"
proof (induction "is")
  case Nil
  show ?case by (cases "manual_signals st civil ticker timeframe cs js") simp_all
next
  case (Cons i "is")
  show ?case
    unfolding append_Cons manual_signals.simps Let_def Cons.IH
    by (cases "generate st ticker (take (i + 1) cs) (civil (cd_ts (last (take (i + 1) cs))))";
        cases "manual_signals st civil ticker timeframe cs is"; cases "manual_signals st civil ticker timeframe cs js")
       (auto split: option.splits)
qed

lemma manual_signals_cong:
  assumes "take m cs = take m cs'" "\<forall>i\<in>set is. i < m"
  shows "manual_signals st civil ticker timeframe cs is = manual_signals st civil ticker timeframe cs' is"
  using assms(2)
proof (induction "is")
  case (Cons i "is")
  have "take (i + 1) cs = take (i + 1) (take m cs)" using Cons.prems by (simp add: min_def)
  also have "\<dots> = take (i + 1) cs'" using assms(1) Cons.prems by (simp add: min_def)
  finally show ?case using Cons by simp
qed simp

text \<open>Each signal stands at one of the indices, with the prefix it was made from.\<close>

lemma manual_signals_mem:
  assumes "manual_signals st civil ticker timeframe cs is = Inr sigs" "s \<in> set sigs"
  shows "\<exists>i sg. i \<in> set is \<and> generate st ticker (take (i + 1) cs) (civil (cd_ts (last (take (i + 1) cs)))) = Inr (Some sg) \<and>
    s = \<lparr>sg_index = int i, sg_side = sg_side sg, sg_ticker = ticker, sg_strategy_id = sg_strategy_id sg,
         sg_timeframe = timeframe, sg_price = sg_price sg, sg_signal_time = sg_signal_time sg\<rparr>"
  using assms
proof (induction "is" arbitrary: sigs)
  case (Cons i "is")
  from Cons.prems(1) obtain sg rest where g: "generate st ticker (take (i + 1) cs) (civil (cd_ts (last (take (i + 1) cs)))) = Inr sg"
    and r: "manual_signals st civil ticker timeframe cs is = Inr rest"
    and sigs: "sigs = (case sg of None \<Rightarrow> rest
      | Some s \<Rightarrow> \<lparr>sg_index = int i, sg_side = sg_side s, sg_ticker = ticker, sg_strategy_id = sg_strategy_id s,
                   sg_timeframe = timeframe, sg_price = sg_price s, sg_signal_time = sg_signal_time s\<rparr> # rest)"
    by (auto simp: Let_def py_bind_Inr_iff)
  show ?case
  proof (cases "s \<in> set rest")
    case True
    from Cons.IH [OF r True] show ?thesis by auto
  next
    case False
    with Cons.prems(2) sigs g show ?thesis by (cases sg) auto
  qed
qed simp

lemma manual_signals_index:
  "manual_signals st civil ticker timeframe cs is = Inr sigs \<Longrightarrow> s \<in> set sigs \<Longrightarrow> nat (sg_index s) \<in> set is \<and> 0 \<le> sg_index s"
  by (drule (1) manual_signals_mem) auto

lemma built_strategy:
  assumes "build_strategy_instance sid timeframe k = Inr st"
  shows "str_id st = normalize_strategy_id sid" "str_timeframe st = timeframe"
  using assms
  by (auto simp: build_strategy_instance_def Let_def GapMomentumStrategy_def EmaPullbackStrategy_def
      VolatilityBreakoutStrategy_def VolumeSurgeStrategy_def SupportResistanceStrategy_def base_strategy_def
      py_bind_Inr_iff split: if_splits)

lemma start_with_meta_cases:
  assumes "start_with_meta cfg source job_id created cs sigs slippage b = (r, b')"
  obtains meta s where "r = Inr True" "slippage = Fin s" "b' = start_job job_id created cs sigs s meta b"
  | "r \<noteq> Inr True" "b' = b"
  using assms
  by (cases "backtest_risk_meta cfg"; cases slippage; cases "job_meta_of source (projr (backtest_risk_meta cfg))")
     (auto simp: start_with_meta_def)

lemma slippage_default_bounds:
  assumes "backtest_slippage_default cfg = Inr s"
  shows "s = NaN \<or> (\<exists>x. s = Fin x \<and> 0 \<le> x \<and> x \<le> 1 / 2)"
  using assms
proof (cases "to_float (config_get ''slippage_pct'' cfg)")
  case (Inr v)
  with assms show ?thesis
    by (cases v) (auto simp: backtest_slippage_default_def Let_def split: if_splits)
qed (simp add: backtest_slippage_default_def)

lemma list_range_rows:
  assumes "list_range ticker timeframe (Some a) (Some b) off n d = (Inr rows, d')"
  shows "sorted (map cn_time rows) \<and> (\<forall>r\<in>set rows. cn_ticker r = ticker \<and> cn_timeframe r = timeframe \<and> a \<le> cn_time r \<and> cn_time r \<le> b) \<and>
    set rows \<subseteq> set (ca_rows d)"
proof -
  let ?q = "sort_key cn_time (filter (\<lambda>r. a \<le> cn_time r \<and> cn_time r \<le> b) (rows_of ticker timeframe (ca_rows d)))"
  have rows: "rows = page off (nat (max 1 n)) ?q" using assms by (simp add: list_range_def Let_def split: if_splits)
  have "sorted (map cn_time rows)"
    unfolding rows page_def take_map [symmetric] drop_map [symmetric] by (intro sorted_wrt_take sorted_wrt_drop) simp
  moreover have "set rows \<subseteq> set ?q" unfolding rows by (rule set_page)
  ultimately show ?thesis by (auto simp: rows_of_def)
qed

lemma list_range_frame: "list_range ticker timeframe a b off n d = (r, d') \<Longrightarrow> ca_rows d' = ca_rows d"
  by (auto simp: list_range_def ca_tick_def Let_def split: if_splits)

definition queued :: "manual_reply py \<Rightarrow> bool" where
  "queued r = (\<exists>i m. r = Inr (ManualQueued i m))"

lemma queue_manual_cases:
  assumes "queue_manual cfg job_id created req ticker timeframe slippage cs sigs b = (r, b')"
  shows "\<not> queued r \<and> b' = b \<or>
     (\<exists>meta s. slippage = Fin s \<and> b' = start_job job_id created cs sigs s meta b \<and>
        r = Inr (ManualQueued job_id \<lparr>mm_ticker = ticker, mm_strategy_id = normalize_strategy_id (mr_strategy_id req),
          mm_timeframe = timeframe, mm_candles = length cs, mm_signals = length sigs, mm_slippage = Fin s\<rparr>))"
proof -
  obtain r1 b1 where s: "start_with_meta cfg ''dashboard_manual'' job_id created cs sigs slippage b = (r1, b1)" by fastforce
  from s show ?thesis
  proof (cases rule: start_with_meta_cases)
    case (1 meta x)
    then show ?thesis using assms s by (auto simp: queue_manual_def)
  next
    case 2
    then show ?thesis using assms s by (cases r1) (auto simp: queue_manual_def queued_def)
  qed
qed

lemma manual_run_cases:
  assumes "manual_run cfg civil job_id created req ticker timeframe slippage strat (d, b) = (r, d', b')"
  shows "ca_rows d' = ca_rows d" and "\<not> queued r \<Longrightarrow> b' = b"
    and "queued r \<Longrightarrow> \<exists>rows sigs s meta. list_range ticker timeframe (Some (mr_start req)) (Some (mr_end req)) 0 100000 d = (Inr rows, d') \<and>
      2 \<le> length rows \<and> manual_signals strat civil ticker timeframe (map candle_of_row rows) [0..<length rows - 1] = Inr sigs \<and>
      slippage = Fin s \<and> b' = start_job job_id created (map candle_of_row rows) sigs s meta b \<and>
      r = Inr (ManualQueued job_id \<lparr>mm_ticker = ticker, mm_strategy_id = normalize_strategy_id (mr_strategy_id req),
          mm_timeframe = timeframe, mm_candles = length rows, mm_signals = length sigs, mm_slippage = Fin s\<rparr>)"
proof -
  obtain q d1 where l: "list_range ticker timeframe (Some (mr_start req)) (Some (mr_end req)) 0 100000 d = (q, d1)" by fastforce
  have fr: "ca_rows d1 = ca_rows d" by (rule list_range_frame [OF l])
  have d1: "d' = d1 \<and> ((\<not> queued r \<and> b' = b) \<or> (\<exists>rows sigs. q = Inr rows \<and> 2 \<le> length rows \<and>
      manual_signals strat civil ticker timeframe (map candle_of_row rows) [0..<length rows - 1] = Inr sigs \<and>
      queue_manual cfg job_id created req ticker timeframe slippage (map candle_of_row rows) sigs b = (r, b')))"
    using assms l
    by (auto simp: manual_run_def queued_def Let_def split: sum.splits py_exn.splits if_splits prod.splits)
  then show "ca_rows d' = ca_rows d" using fr by simp
  show "b' = b" if "\<not> queued r" using d1 queue_manual_cases that by (metis queued_def)
  assume "queued r"
  with d1 obtain rows sigs where q: "q = Inr rows" "2 \<le> length rows" "d' = d1"
      "manual_signals strat civil ticker timeframe (map candle_of_row rows) [0..<length rows - 1] = Inr sigs"
      "queue_manual cfg job_id created req ticker timeframe slippage (map candle_of_row rows) sigs b = (r, b')" by blast
  from queue_manual_cases [OF q(5)] \<open>queued r\<close> obtain meta s where "slippage = Fin s"
      "b' = start_job job_id created (map candle_of_row rows) sigs s meta b"
      "r = Inr (ManualQueued job_id \<lparr>mm_ticker = ticker, mm_strategy_id = normalize_strategy_id (mr_strategy_id req),
          mm_timeframe = timeframe, mm_candles = length rows, mm_signals = length sigs, mm_slippage = Fin s\<rparr>)"
    by auto
  with l q show "\<exists>rows sigs s meta. list_range ticker timeframe (Some (mr_start req)) (Some (mr_end req)) 0 100000 d = (Inr rows, d') \<and>
      2 \<le> length rows \<and> manual_signals strat civil ticker timeframe (map candle_of_row rows) [0..<length rows - 1] = Inr sigs \<and>
      slippage = Fin s \<and> b' = start_job job_id created (map candle_of_row rows) sigs s meta b \<and>
      r = Inr (ManualQueued job_id \<lparr>mm_ticker = ticker, mm_strategy_id = normalize_strategy_id (mr_strategy_id req),
          mm_timeframe = timeframe, mm_candles = length rows, mm_signals = length sigs, mm_slippage = Fin s\<rparr>)" by blast
qed

lemma manual_backtest_cases:
  assumes "start_manual_backtest cfg civil job_id created req (d, b) = (r, d', b')"
  shows "(\<not> queued r \<and> d' = d \<and> b' = b) \<or>
     (\<exists>strat slippage. build_strategy_instance (mr_strategy_id req) (py_strip (mr_timeframe req)) (mr_k req) = Inr strat \<and>
        \<not> bad_slippage slippage \<and>
        manual_run cfg civil job_id created req (py_strip (mr_ticker req)) (py_strip (mr_timeframe req)) slippage strat (d, b)
          = (r, d', b'))"
  using assms
  by (auto simp: start_manual_backtest_def queued_def Let_def split: sum.splits py_exn.splits if_splits)

text \<open>A signal with a bar after it has an entry price.\<close>

lemma entry_exists:
  "0 \<le> sg_index s \<Longrightarrow> sg_index s + 1 < int (length cs) \<Longrightarrow> \<exists>e. entry_price_n_plus_one_open sl cs s = Inr e"
  by (auto simp: entry_price_n_plus_one_open_def Let_def py_index_nonneg)

section \<open>Properties\<close>

text \<open>
  C15: a manual backtest never looks ahead. Two histories that agree on their first m bars, whatever
  follows, give the same signals at the indices below m.
\<close>

theorem manual_signals_never_look_ahead:
  assumes "manual_signals st civil ticker timeframe cs [0..<length cs - 1] = Inr sigs"
    and "manual_signals st civil ticker timeframe cs' [0..<length cs' - 1] = Inr sigs'"
    and "take m cs = take m cs'" "m < length cs" "m < length cs'"
  shows "filter (\<lambda>s. sg_index s < int m) sigs = filter (\<lambda>s. sg_index s < int m) sigs'"
proof -
  have split: "\<exists>xs. manual_signals st civil ticker timeframe c [0..<m] = Inr xs \<and> filter (\<lambda>s. sg_index s < int m) zs = xs"
    if z: "manual_signals st civil ticker timeframe c [0..<length c - 1] = Inr zs" and m: "m < length c" for c zs
  proof -
    have u: "[0..<length c - 1] = [0..<m] @ [m..<length c - 1]"
      using m upt_add_eq_append [of 0 m "length c - 1 - m"] by simp
    obtain xs ys where xy: "manual_signals st civil ticker timeframe c [0..<m] = Inr xs"
        "manual_signals st civil ticker timeframe c [m..<length c - 1] = Inr ys" "zs = xs @ ys"
      using z unfolding u manual_signals_append by (auto simp: py_bind_Inr_iff)
    have "\<forall>s\<in>set xs. sg_index s < int m" using manual_signals_index [OF xy(1)] by fastforce
    moreover have "\<forall>s\<in>set ys. \<not> sg_index s < int m" using manual_signals_index [OF xy(2)] by fastforce
    ultimately show ?thesis using xy by (auto simp: filter_empty_conv intro: filter_True)
  qed
  have "manual_signals st civil ticker timeframe cs [0..<m] = manual_signals st civil ticker timeframe cs' [0..<m]"
    by (rule manual_signals_cong [OF assms(3)]) simp
  then show ?thesis using split [OF assms(1,4)] split [OF assms(2,5)] by auto
qed

text \<open>
  A manual backtest that is refused or fails leaves the jobs alone. One that is queued adds one run
  over stored bars of the asked ticker, timeframe and interval in the order of time, and each of its
  signals belongs to the asked strategy, carries the close of its bar and has a next bar to enter at.
\<close>

theorem manual_backtest_queues_runnable_signals:
  assumes "start_manual_backtest cfg civil job_id created req (d, b) = (r, d', b')"
  shows "if queued r
    then \<exists>rows sigs sl meta. bs_runs b' = bs_runs b @ [\<lparr>ru_job = job_id, ru_candles = map candle_of_row rows, ru_signals = sigs,
        ru_slippage = sl, ru_activity = Pending\<rparr>] \<and>
      b' = start_job job_id created (map candle_of_row rows) sigs sl meta b \<and> 0 \<le> sl \<and> sl \<le> 1 / 2 \<and>
      set rows \<subseteq> set (ca_rows d) \<and> sorted (map cn_time rows) \<and>
      (\<forall>x\<in>set rows. cn_ticker x = py_strip (mr_ticker req) \<and> cn_timeframe x = py_strip (mr_timeframe req) \<and>
         mr_start req \<le> cn_time x \<and> cn_time x \<le> mr_end req) \<and>
      (\<forall>s\<in>set sigs. sg_strategy_id s = normalize_strategy_id (mr_strategy_id req) \<and>
         sg_ticker s = py_strip (mr_ticker req) \<and> 0 \<le> sg_index s \<and>
         sg_price s = Some (cn_close (rows ! nat (sg_index s))) \<and>
         (\<exists>e. entry_price_n_plus_one_open sl (map candle_of_row rows) s = Inr e))
    else b' = b"
proof (cases "queued r")
  case False
  with manual_backtest_cases [OF assms] manual_run_cases(2) show ?thesis by auto
next
  case True
  with manual_backtest_cases [OF assms] obtain strat slippage where
    st: "build_strategy_instance (mr_strategy_id req) (py_strip (mr_timeframe req)) (mr_k req) = Inr strat"
    and ns: "\<not> bad_slippage slippage"
    and run: "manual_run cfg civil job_id created req (py_strip (mr_ticker req)) (py_strip (mr_timeframe req)) slippage strat (d, b)
      = (r, d', b')" by blast
  from manual_run_cases(3) [OF run True] obtain rows sigs sl meta where
    rows: "list_range (py_strip (mr_ticker req)) (py_strip (mr_timeframe req)) (Some (mr_start req)) (Some (mr_end req)) 0 100000 d = (Inr rows, d')"
    and sigs: "manual_signals strat civil (py_strip (mr_ticker req)) (py_strip (mr_timeframe req)) (map candle_of_row rows)
      [0..<length rows - 1] = Inr sigs"
    and sl: "slippage = Fin sl" and b': "b' = start_job job_id created (map candle_of_row rows) sigs sl meta b" by blast
  have each: "sg_strategy_id s = normalize_strategy_id (mr_strategy_id req) \<and> sg_ticker s = py_strip (mr_ticker req) \<and>
      0 \<le> sg_index s \<and> sg_price s = Some (cn_close (rows ! nat (sg_index s))) \<and>
      (\<exists>e. entry_price_n_plus_one_open sl (map candle_of_row rows) s = Inr e)" if s: "s \<in> set sigs" for s
  proof -
    from manual_signals_mem [OF sigs s] obtain i sg where i: "i < length rows - 1"
      and g: "signal_of strat (py_strip (mr_ticker req)) (take (i + 1) (map candle_of_row rows))
        (civil (cd_ts (last (take (i + 1) (map candle_of_row rows))))) sg"
      and eq: "s = \<lparr>sg_index = int i, sg_side = sg_side sg, sg_ticker = py_strip (mr_ticker req), sg_strategy_id = sg_strategy_id sg,
         sg_timeframe = py_strip (mr_timeframe req), sg_price = sg_price sg, sg_signal_time = sg_signal_time sg\<rparr>"
      using generate_signal_of by fastforce
    have "last (take (i + 1) (map candle_of_row rows)) = candle_of_row (rows ! i)"
      using i by (simp add: take_Suc_conv_app_nth)
    then have "sg_price sg = Some (cn_close (rows ! i))" "sg_strategy_id sg = normalize_strategy_id (mr_strategy_id req)"
      using g built_strategy [OF st] by (auto simp: signal_of_def candle_of_row_def)
    moreover have "\<exists>e. entry_price_n_plus_one_open sl (map candle_of_row rows) s = Inr e"
      by (rule entry_exists) (use eq i in auto)
    ultimately show ?thesis using eq by simp
  qed
  have "0 \<le> sl" "sl \<le> 1 / 2" using ns sl by (auto simp: bad_slippage_def)
  then show ?thesis using True b' list_range_rows [OF rows] each by (auto simp: start_job_def)
qed

text \<open>Two bars and a third with a gap, and the request that runs the gap strategy over them.\<close>

lemma manual_signals_total:
  "\<forall>c\<in>set cs. 0 < cd_close c \<Longrightarrow> \<exists>sigs. manual_signals st civil ticker timeframe cs is = Inr sigs"
proof (induction "is")
  case (Cons i "is")
  then obtain rest where "manual_signals st civil ticker timeframe cs is = Inr rest" by blast
  moreover obtain sg where "generate st ticker (take (i + 1) cs) (civil (cd_ts (last (take (i + 1) cs)))) = Inr sg"
    using generate_total [of "take (i + 1) cs"] Cons.prems by (meson in_set_takeD)
  ultimately show ?case by (simp add: Let_def)
qed simp

definition manual_bar :: "instant \<Rightarrow> real \<Rightarrow> candle_row" where
  "manual_bar t x = \<lparr>cn_ticker = ''A'', cn_timeframe = ''5m'', cn_time = t, cn_open = x, cn_high = x, cn_low = x, cn_close = x,
     cn_volume = 1\<rparr>"

definition sample_manual :: manual_request where
  "sample_manual = \<lparr>mr_ticker = ''A '', mr_strategy_id = ''1'', mr_timeframe = ''5m'', mr_start = 0, mr_end = 9,
     mr_slippage = Some (1 / 10), mr_k = 1\<rparr>"

lemma sample_rows_positive:
  "\<forall>c\<in>set (map candle_of_row [manual_bar 1 5, manual_bar 2 6, manual_bar 3 7, manual_bar 4 1]). 0 < cd_close c"
  "\<forall>c\<in>set (map candle_of_row [manual_bar 1 5, manual_bar 2 6, manual_bar 3 2]). 0 < cd_close c"
  by (simp_all add: candle_of_row_def manual_bar_def)

theorem manual_signals_never_look_ahead_witness:
  "\<exists>sigs sigs'. manual_signals \<lparr>str_kind = GapMomentum, str_id = ''1'', str_timeframe = ''5m'', str_active_hours = [(0, 2000)]\<rparr>
      (\<lambda>_. sample_time 9 0) ''A'' ''5m'' (map candle_of_row [manual_bar 1 5, manual_bar 2 6, manual_bar 3 7, manual_bar 4 1]) [0..<3] = Inr sigs \<and>
    manual_signals \<lparr>str_kind = GapMomentum, str_id = ''1'', str_timeframe = ''5m'', str_active_hours = [(0, 2000)]\<rparr>
      (\<lambda>_. sample_time 9 0) ''A'' ''5m'' (map candle_of_row [manual_bar 1 5, manual_bar 2 6, manual_bar 3 2]) [0..<2] = Inr sigs' \<and>
    filter (\<lambda>s. sg_index s < 2) sigs = filter (\<lambda>s. sg_index s < 2) sigs'"
proof -
  let ?st = "\<lparr>str_kind = GapMomentum, str_id = ''1'', str_timeframe = ''5m'', str_active_hours = [(0, 2000)]\<rparr>"
  let ?cs = "map candle_of_row [manual_bar 1 5, manual_bar 2 6, manual_bar 3 7, manual_bar 4 1]"
  let ?cs' = "map candle_of_row [manual_bar 1 5, manual_bar 2 6, manual_bar 3 2]"
  have len: "length ?cs - 1 = 3" "length ?cs' - 1 = 2" by simp_all
  obtain sigs where a: "manual_signals ?st (\<lambda>_. sample_time 9 0) ''A'' ''5m'' ?cs [0..<length ?cs - 1] = Inr sigs"
    using manual_signals_total [OF sample_rows_positive(1)] by blast
  obtain sigs' where b: "manual_signals ?st (\<lambda>_. sample_time 9 0) ''A'' ''5m'' ?cs' [0..<length ?cs' - 1] = Inr sigs'"
    using manual_signals_total [OF sample_rows_positive(2)] by blast
  have "filter (\<lambda>s. sg_index s < int 2) sigs = filter (\<lambda>s. sg_index s < int 2) sigs'"
    by (rule manual_signals_never_look_ahead [OF a b]) simp_all
  then show ?thesis using a b unfolding len by auto
qed

lemma sample_meta: "backtest_risk_meta default_values =
    Inr \<lparr>rm_atr_period = Fin 14, rm_stop_atr_mult = Fin (3 / 2), rm_tp_atr_mult = Fin 2, rm_trail_atr_mult = Fin (3 / 2)\<rparr>"
proof -
  have "py_float_of ''14'' = Some (Fin 14)" "py_float_of ''1.5'' = Some (Fin (3 / 2))" "py_float_of ''2.0'' = Some (Fin 2)"
    by (simp_all add: text_eval)
  moreover have "config_get ''atr_period'' default_values = Inr ''14''" "config_get ''stop_atr_mult'' default_values = Inr ''1.5''"
    "config_get ''tp_atr_mult'' default_values = Inr ''2.0''" "config_get ''trail_atr_mult'' default_values = Inr ''1.5''"
    by (simp_all add: config_get_def default_values_def)
  ultimately show ?thesis by (simp add: backtest_risk_meta_def to_float_def)
qed

lemma sample_strategy: "\<exists>st. build_strategy_instance ''1'' ''5m'' k = Inr st"
proof -
  have "normalize_strategy_id ''1'' = ''1''"
    by (simp add: normalize_strategy_id_def strategy_aliases_def text_eval)
  then show ?thesis
    by (simp add: build_strategy_instance_def GapMomentumStrategy_def base_strategy_def hours_or_def hour_literals)
qed

lemma sample_manual_queued:
  "\<exists>r d' b'. start_manual_backtest default_values (\<lambda>_. sample_time 9 0) ''j'' 7 sample_manual
     (\<lparr>ca_rows = [manual_bar 2 6, manual_bar 1 5, manual_bar 3 2], ca_faults = []\<rparr>, backtests_init 5) = (r, d', b') \<and> queued r"
proof -
  let ?d = "\<lparr>ca_rows = [manual_bar 2 6, manual_bar 1 5, manual_bar 3 2], ca_faults = []\<rparr>"
  have l: "list_range ''A'' ''5m'' (Some 0) (Some 9) 0 100000 ?d = (Inr [manual_bar 1 5, manual_bar 2 6, manual_bar 3 2], ca_tick ?d)"
    by (simp add: list_range_def rows_of_def manual_bar_def page_def)
  obtain st where st: "build_strategy_instance ''1'' ''5m'' 1 = Inr st" using sample_strategy by blast
  obtain sigs where sg: "manual_signals st (\<lambda>_. sample_time 9 0) ''A'' ''5m'' (map candle_of_row [manual_bar 1 5, manual_bar 2 6, manual_bar 3 2])
      [0..<2] = Inr sigs"
    using manual_signals_total [OF sample_rows_positive(2)] by blast
  have t: "py_strip ''A '' = ''A''" "py_strip ''5m'' = ''5m''" by (simp_all add: text_eval)
  have "\<exists>r b'. manual_run default_values (\<lambda>_. sample_time 9 0) ''j'' 7 sample_manual ''A'' ''5m'' (Fin (1 / 10)) st (?d, backtests_init 5)
      = (r, ca_tick ?d, b') \<and> queued r"
    using l sg by (simp add: manual_run_def sample_manual_def queue_manual_def start_with_meta_def sample_meta job_meta_of_def
      queued_def numeral_2_eq_2)
  then show ?thesis
    using st t by (auto simp: start_manual_backtest_def sample_manual_def bad_slippage_def supported_timeframes_def)
qed

theorem manual_backtest_queues_runnable_signals_witness:
  "\<exists>r d' b'. start_manual_backtest default_values (\<lambda>_. sample_time 9 0) ''j'' 7 sample_manual
     (\<lparr>ca_rows = [manual_bar 2 6, manual_bar 1 5, manual_bar 3 2], ca_faults = []\<rparr>, backtests_init 5) = (r, d', b') \<and> queued r \<and>
     length (bs_runs b') = Suc (length (bs_runs (backtests_init 5)))"
proof -
  obtain r d' b' where run: "start_manual_backtest default_values (\<lambda>_. sample_time 9 0) ''j'' 7 sample_manual
     (\<lparr>ca_rows = [manual_bar 2 6, manual_bar 1 5, manual_bar 3 2], ca_faults = []\<rparr>, backtests_init 5) = (r, d', b')"
    and q: "queued r" using sample_manual_queued by blast
  from manual_backtest_queues_runnable_signals [OF run] q have "length (bs_runs b') = Suc (length (bs_runs (backtests_init 5)))" by auto
  with run q show ?thesis by blast
qed

end
