(* ===== verification/Web_Pages.thy ===== *)
theory Web_Pages
  imports Universe_Repository Config_Service Ordering_Repository Candle_Repository Auth_Audit Reports Backtest_Jobs
begin

text \<open>
  The paged lists of the dashboard (\<open>app/api/routes/dashboard_read.py\<close>, \<open>dashboard_records.py\<close>,
  \<open>dashboard_analytics.py\<close>): how a page number and a size become an offset, how many pages there
  are, and the lists that are one count and one query. What they promise together, that the pages in
  order are the whole list, is proved once, in a locale over the count and the query.
\<close>

section \<open>Pages\<close>

definition safe_page :: "int \<Rightarrow> int" where
  "safe_page p = max p 1"

definition safe_size :: "int \<Rightarrow> int \<Rightarrow> int" where
  "safe_size limit n = max 1 (min n limit)"

definition page_offset :: "int \<Rightarrow> int \<Rightarrow> int" where
  "page_offset p n = (p - 1) * n"

definition total_pages :: "int \<Rightarrow> int \<Rightarrow> int" where
  "total_pages tot n = (if tot > 0 then (tot + n - 1) div n else 0)"

record 'a paged =
  pg_items :: "'a list"
  pg_total :: nat
  pg_page :: int
  pg_size :: int
  pg_pages :: int

definition paged_of :: "int \<Rightarrow> int \<Rightarrow> nat \<Rightarrow> 'a list \<Rightarrow> 'a paged" where
  "paged_of p n tot xs = \<lparr>pg_items = xs, pg_total = tot, pg_page = p, pg_size = n, pg_pages = total_pages (int tot) n\<rparr>"

text \<open>An answer of the dashboard: the error of a failed database, or the result.\<close>

definition sql_answer :: "'a py \<Rightarrow> (string + 'a) py" where
  "sql_answer r = (case r of Inr x \<Rightarrow> Inr (Inr x) | Inl x \<Rightarrow> if is_sql_error x then Inr (Inl (exn_str x)) else Inl x)"

text \<open>Count, then query one page; inside one \<open>try\<close>.\<close>

definition count_and_list ::
  "('d \<Rightarrow> nat py \<times> 'd) \<Rightarrow> (int \<Rightarrow> nat \<Rightarrow> 'd \<Rightarrow> 'a list py \<times> 'd) \<Rightarrow> int \<Rightarrow> int \<Rightarrow> int \<Rightarrow> 'd \<Rightarrow> 'a paged py \<times> 'd" where
  "count_and_list cnt lst limit p n d =
     (let p' = safe_page p; n' = safe_size limit n in
      case cnt d of
        (Inl x, d1) \<Rightarrow> (Inl x, d1)
      | (Inr tot, d1) \<Rightarrow>
          (case lst (page_offset p' n') (nat n') d1 of
             (Inl x, d2) \<Rightarrow> (Inl x, d2)
           | (Inr xs, d2) \<Rightarrow> (Inr (paged_of p' n' tot xs), d2)))"

definition paged_read ::
  "('d \<Rightarrow> nat py \<times> 'd) \<Rightarrow> (int \<Rightarrow> nat \<Rightarrow> 'd \<Rightarrow> 'a list py \<times> 'd) \<Rightarrow> int \<Rightarrow> int \<Rightarrow> int \<Rightarrow> 'd \<Rightarrow> (string + 'a paged) py \<times> 'd" where
  "paged_read cnt lst limit p n d =
     (case count_and_list cnt lst limit p n d of (r, d') \<Rightarrow> (sql_answer r, d'))"

section \<open>The lists\<close>

definition universe_page :: "symbol_filter \<Rightarrow> int \<Rightarrow> int \<Rightarrow> universe_db \<Rightarrow> (string + symbol paged) py \<times> universe_db" where
  "universe_page f = paged_read (count_symbols f) (list_symbols f) 500"

definition history_page :: "string option \<Rightarrow> int \<Rightarrow> int \<Rightarrow> config_db \<Rightarrow> (string + history_row paged) py \<times> config_db" where
  "history_page key = paged_read (count_history key) (list_history key) 1000"

definition trades_read :: "trade_filter \<Rightarrow> int \<Rightarrow> int \<Rightarrow> account_db \<Rightarrow> paper_trade paged py \<times> account_db" where
  "trades_read f = count_and_list (count_trades f) (\<lambda>off lim. list_trades f off lim True) 1000"

definition positions_read :: "string option \<Rightarrow> int \<Rightarrow> int \<Rightarrow> odb \<Rightarrow> position_row paged py \<times> odb" where
  "positions_read state = count_and_list (count_positions state) (list_positions state) 500"

text \<open>\<open>/dashboard/backtests\<close>: the job lists cannot fail.\<close>

definition backtests_page :: "string option \<Rightarrow> int \<Rightarrow> int \<Rightarrow> backtests \<Rightarrow> (string \<times> job) paged" where
  "backtests_page status p n b =
     (let p' = safe_page p; n' = safe_size 200 n
      in paged_of p' n' (count_jobs status b) (list_jobs n' (page_offset p' n') status b))"

text \<open>A list of a service that answers errors itself: a failed one is an empty page with the error.\<close>

definition service_page :: "int \<Rightarrow> int \<Rightarrow> string + nat \<times> 'a list \<Rightarrow> 'a paged \<times> string option" where
  "service_page p n r =
     (case r of
        Inl err \<Rightarrow> (paged_of p n 0 [], Some err)
      | Inr (tot, xs) \<Rightarrow> (paged_of p n tot xs, None))"

definition snapshots_page ::
  "instant option \<Rightarrow> instant option \<Rightarrow> string option \<Rightarrow> int \<Rightarrow> int \<Rightarrow> account_db \<Rightarrow> (account_snapshot paged \<times> string option) \<times> account_db" where
  "snapshots_page start until typ p n d =
     (let p' = safe_page p; n' = safe_size 1000 n in
      case list_snapshot_records start until typ (page_offset p' n') (nat n') d of
        (r, d') \<Rightarrow> (service_page p' n' (map_sum id (\<lambda>l. (ls_total l, ls_items l)) r), d'))"

definition audit_page ::
  "audit_filter \<Rightarrow> int \<Rightarrow> int \<Rightarrow> audit_db \<Rightarrow> (audit_row paged \<times> string option) \<times> audit_db" where
  "audit_page f p n d =
     (let p' = safe_page p; n' = safe_size 1000 n in
      case list_events f (page_offset p' n') (nat n') d of
        (r, d') \<Rightarrow> (service_page p' n' (map_sum id (\<lambda>l. (au_total l, au_items l)) r), d'))"

definition strategies_page ::
  "strategy_query \<Rightarrow> int \<Rightarrow> int \<Rightarrow> account_db \<Rightarrow> (strategy_metrics paged \<times> string option) \<times> account_db" where
  "strategies_page q p n d =
     (let p' = safe_page p; n' = safe_size 1000 n in
      case strategy_report (q\<lparr>sq_offset := page_offset p' n', sq_limit := n', sq_min_trades := max (sq_min_trades q) 0\<rparr>) d of
        (r, d') \<Rightarrow> (service_page p' n' (map_sum id (\<lambda>l. (sa_total l, sa_items l)) r), d'))"

section \<open>Arithmetic of pages\<close>

lemma safe_size_pos [simp]: "0 < safe_size limit n" "1 \<le> safe_size limit n" "0 \<le> safe_size limit n"
  by (simp_all add: safe_size_def)

lemma safe_page_pos [simp]: "1 \<le> safe_page p"
  by (simp add: safe_page_def)

lemma page_offset_nonneg [simp]: "0 \<le> page_offset (safe_page p) (safe_size limit n)"
  by (simp add: page_offset_def safe_page_def safe_size_def)

text \<open>There are enough pages, and one fewer would not do.\<close>

lemma total_pages_cover:
  assumes "0 < n" "0 \<le> tot"
  shows "tot \<le> total_pages tot n * n" "0 \<le> total_pages tot n" "0 < tot \<Longrightarrow> (total_pages tot n - 1) * n < tot"
proof -
  have q: "tot + n - 1 = n * ((tot + n - 1) div n) + (tot + n - 1) mod n" by (simp only: mult_div_mod_eq)
  have m: "0 \<le> (tot + n - 1) mod n" "(tot + n - 1) mod n < n" using assms by simp_all
  show "tot \<le> total_pages tot n * n"
  proof -
    have "tot \<le> n * ((tot + n - 1) div n)" using q m by linarith
    then show ?thesis using assms by (simp add: total_pages_def mult.commute)
  qed
  show "0 \<le> total_pages tot n"
    using assms by (simp add: total_pages_def pos_imp_zdiv_nonneg_iff)
  show "(total_pages tot n - 1) * n < tot" if "0 < tot"
  proof -
    have "n * ((tot + n - 1) div n) - n < tot" using q m by linarith
    then show ?thesis using that by (simp add: total_pages_def algebra_simps)
  qed
qed

lemma page_of_number:
  assumes "0 < n" "1 \<le> p"
  shows "page (page_offset p n) (nat n) xs = take (nat n) (drop (nat (p - 1) * nat n) xs)"
  using assms by (simp add: page_def page_offset_def nat_mult_distrib)

section \<open>The pages of a list\<close>

text \<open>The items of the pages from the first one on, as a client reads them one after the other.\<close>

fun pages_upto ::
  "('d \<Rightarrow> nat py \<times> 'd) \<Rightarrow> (int \<Rightarrow> nat \<Rightarrow> 'd \<Rightarrow> 'a list py \<times> 'd) \<Rightarrow> int \<Rightarrow> int \<Rightarrow> nat \<Rightarrow> 'd \<Rightarrow> 'a list py \<times> 'd" where
  "pages_upto cnt lst limit n 0 d = (Inr [], d)"
| "pages_upto cnt lst limit n (Suc k) d =
     (case pages_upto cnt lst limit n k d of
        (Inl x, d1) \<Rightarrow> (Inl x, d1)
      | (Inr xs, d1) \<Rightarrow>
          (case count_and_list cnt lst limit (int (Suc k)) n d1 of
             (Inl x, d2) \<Rightarrow> (Inl x, d2)
           | (Inr pg, d2) \<Rightarrow> (Inr (xs @ pg_items pg), d2)))"

locale paged_source =
  fixes cnt :: "'d \<Rightarrow> nat py \<times> 'd" and lst :: "int \<Rightarrow> nat \<Rightarrow> 'd \<Rightarrow> 'a list py \<times> 'd" and items :: "'d \<Rightarrow> 'a list"
  assumes count_items: "cnt d = (r, d') \<Longrightarrow> items d' = items d \<and> (\<forall>n. r = Inr n \<longrightarrow> n = length (items d))"
    and list_items: "lst off n d = (q, d') \<Longrightarrow> items d' = items d \<and> (\<forall>xs. q = Inr xs \<longrightarrow> xs = page off n (items d))"
begin

lemma count_and_list_page:
  assumes "count_and_list cnt lst limit p n d = (r, d')"
  shows "items d' = items d"
    and "r = Inr pg \<Longrightarrow> pg = paged_of (safe_page p) (safe_size limit n) (length (items d))
           (take (nat (safe_size limit n)) (drop (nat (safe_page p - 1) * nat (safe_size limit n)) (items d)))"
proof -
  obtain c d1 where c: "cnt d = (c, d1)" by fastforce
  obtain l d2 where l: "lst (page_offset (safe_page p) (safe_size limit n)) (nat (safe_size limit n)) d1 = (l, d2)" by fastforce
  note C = count_items [OF c] and L = list_items [OF l]
  show "items d' = items d" using assms c l C L by (auto simp: count_and_list_def Let_def split: sum.splits)
  show "r = Inr pg \<Longrightarrow> pg = paged_of (safe_page p) (safe_size limit n) (length (items d))
           (take (nat (safe_size limit n)) (drop (nat (safe_page p - 1) * nat (safe_size limit n)) (items d)))"
    using assms c l C L page_of_number [of "safe_size limit n" "safe_page p" "items d"]
    by (auto simp: count_and_list_def Let_def split: sum.splits)
qed

lemma pages_upto_take:
  "pages_upto cnt lst limit n k d = (r, d') \<Longrightarrow>
     items d' = items d \<and> (\<forall>xs. r = Inr xs \<longrightarrow> xs = take (k * nat (safe_size limit n)) (items d))"
proof (induction k arbitrary: r d')
  case (Suc k)
  let ?n = "nat (safe_size limit n)"
  obtain q d1 where a: "pages_upto cnt lst limit n k d = (q, d1)" by fastforce
  note A = Suc.IH [OF a]
  show ?case
  proof (cases q)
    case (Inl x)
    then show ?thesis using Suc.prems a A by auto
  next
    case (Inr xs)
    obtain pr d2 where b: "count_and_list cnt lst limit (int (Suc k)) n d1 = (pr, d2)" by fastforce
    have i2: "items d2 = items d" using count_and_list_page(1) [OF b] A by simp
    show ?thesis
    proof (cases pr)
      case (Inl x)
      then show ?thesis using Suc.prems a b Inr i2 by auto
    next
      case pr: (Inr pg)
      from count_and_list_page(2) [OF b pr] A have "pg_items pg = take ?n (drop (k * ?n) (items d))"
        by (simp add: paged_of_def safe_page_def)
      moreover have "xs = take (k * ?n) (items d)" using A Inr by simp
      moreover have "r = Inr (xs @ pg_items pg) \<and> d' = d2" using Suc.prems a b Inr pr by simp
      moreover have "take (k * ?n) (items d) @ take ?n (drop (k * ?n) (items d)) = take (Suc k * ?n) (items d)"
        by (simp add: take_add [symmetric] add.commute)
      ultimately show ?thesis using i2 by simp
    qed
  qed
qed auto

text \<open>All pages in order are the list, whatever size was asked for.\<close>

lemma all_pages:
  assumes "pages_upto cnt lst limit n (nat (total_pages (int (length (items d))) (safe_size limit n))) d = (Inr xs, d')"
  shows "xs = items d \<and> items d' = items d"
proof -
  let ?n = "safe_size limit n" and ?t = "int (length (items d))"
  have "?t \<le> total_pages ?t ?n * ?n" by (rule total_pages_cover) simp_all
  then have "length (items d) \<le> nat (total_pages ?t ?n) * nat ?n"
    using total_pages_cover(2) [of ?n ?t] by (simp add: nat_mult_distrib nat_le_iff flip: nat_mult_distrib)
  with pages_upto_take [OF assms] show ?thesis by simp
qed

text \<open>A page is empty exactly beyond the last one.\<close>

lemma empty_page:
  assumes "count_and_list cnt lst limit p n d = (Inr pg, d')"
  shows "pg_items pg = [] \<longleftrightarrow> pg_page pg > pg_pages pg"
proof -
  let ?n = "safe_size limit n" and ?p = "safe_page p" and ?t = "int (length (items d))"
  have pg: "pg_items pg = take (nat ?n) (drop (nat (?p - 1) * nat ?n) (items d))" "pg_page pg = ?p" "pg_pages pg = total_pages ?t ?n"
    using count_and_list_page(2) [OF assms refl] by (simp_all add: paged_of_def)
  have n: "0 < ?n" "1 \<le> ?p" by simp_all
  have "pg_items pg = [] \<longleftrightarrow> length (items d) \<le> nat (?p - 1) * nat ?n" using n(1) by (simp add: pg(1) del: safe_size_pos)
  also have "\<dots> \<longleftrightarrow> ?t \<le> int (nat (?p - 1) * nat ?n)" by (rule of_nat_le_iff [symmetric])
  also have "\<dots> \<longleftrightarrow> ?t \<le> (?p - 1) * ?n" using n by (simp del: safe_size_pos safe_page_pos)
  also have "\<dots> \<longleftrightarrow> ?p > total_pages ?t ?n"
  proof (cases "?t = 0")
    case True
    have "0 \<le> (?p - 1) * ?n" "0 < ?p" using n by (simp_all del: safe_size_pos safe_page_pos)
    with True show ?thesis by (simp add: total_pages_def)
  next
    case False
    then have lt: "(total_pages ?t ?n - 1) * ?n < ?t" "?t \<le> total_pages ?t ?n * ?n"
      using total_pages_cover [of ?n ?t] n by simp_all
    show ?thesis
    proof
      assume "?t \<le> (?p - 1) * ?n"
      with lt(1) have "(total_pages ?t ?n - 1) * ?n < (?p - 1) * ?n" by linarith
      then have "total_pages ?t ?n - 1 < ?p - 1" by (rule mult_right_less_imp_less) simp
      then show "?p > total_pages ?t ?n" by simp
    next
      assume "?p > total_pages ?t ?n"
      then have "total_pages ?t ?n * ?n \<le> (?p - 1) * ?n" by (intro mult_right_mono) simp_all
      with lt(2) show "?t \<le> (?p - 1) * ?n" by linarith
    qed
  qed
  finally show ?thesis using pg by simp
qed

end

text \<open>The lists of the dashboard are such sources.\<close>

interpretation universe_pages: paged_source "count_symbols f" "list_symbols f"
  "\<lambda>d. sort_key sy_ticker (filter (symbol_matches f) (un_rows d))"
  by unfold_locales (auto simp: count_symbols_def list_symbols_def split: if_splits)

interpretation history_pages: paged_source "count_history key" "list_history key"
  "\<lambda>d. py_sorted_rev hi_changed_at (filter (\<lambda>r. opt_filter key (\<lambda>k. hi_key r = k)) (cf_history d))"
  by unfold_locales (auto simp: count_history_def list_history_def cf_tick_def split: if_splits)

interpretation position_pages: paged_source "count_positions state" "list_positions state"
  "\<lambda>d. py_sorted_rev pos_updated_at (filter (\<lambda>p. opt_filter state (\<lambda>s. pos_state p = s)) (od_positions d))"
  by unfold_locales (auto simp: count_positions_def list_positions_def tick_def split: if_splits)

interpretation trade_pages: paged_source "count_trades f" "\<lambda>off lim. list_trades f off lim True"
  "\<lambda>d. py_sorted_rev pt_created_at (filter (trade_matches f) (ac_trades d))"
  by unfold_locales
    (auto simp: count_trades_def list_trades_def ac_query_def ac_stmt_def ac_tick_def Let_def split: if_splits)

section \<open>Property\<close>

text \<open>
  The dashboard's universe list is complete. Whatever filter and page size are asked for, if the
  pages 1 up to the reported number of pages are read without an error, they hold, in the order of
  the tickers, every matching symbol exactly once; and a page is empty exactly beyond that number.
\<close>

theorem universe_pages_are_the_universe:
  assumes "pages_upto (count_symbols f) (list_symbols f) 500 n
      (nat (total_pages (int (length (filter (symbol_matches f) (un_rows d)))) (safe_size 500 n))) d = (Inr xs, d')"
    and "universe_page f p n d = (Inr (Inr pg), d2)" "universe_inv d"
  shows "xs = sort_key sy_ticker (filter (symbol_matches f) (un_rows d)) \<and> distinct xs \<and>
    set xs = {r \<in> set (un_rows d). symbol_matches f r} \<and> set (pg_items pg) \<subseteq> set xs \<and>
    pg_pages pg = total_pages (int (length xs)) (safe_size 500 n) \<and> (pg_items pg = [] \<longleftrightarrow> pg_page pg > pg_pages pg)"
proof -
  have xs: "xs = sort_key sy_ticker (filter (symbol_matches f) (un_rows d))"
    by (rule conjunct1 [OF universe_pages.all_pages [where f = f and limit = 500 and n = n and d' = d']]) (simp add: assms(1))
  obtain r d3 where run: "count_and_list (count_symbols f) (list_symbols f) 500 p n d = (r, d3)" by fastforce
  with assms(2) have r: "r = Inr pg" by (auto simp: universe_page_def paged_read_def sql_answer_def split: sum.splits if_splits)
  note P = universe_pages.count_and_list_page(2) [OF run r] and E = universe_pages.empty_page [OF run [unfolded r]]
  have "distinct (map sy_ticker (filter (symbol_matches f) (un_rows d)))"
    using assms(3) by (auto simp: universe_inv_def distinct_map intro: inj_on_subset)
  then have "distinct xs" unfolding xs by (simp add: distinct_map)
  moreover have "set (pg_items pg) \<subseteq> set xs" unfolding P xs paged_of_def paged.simps by (blast dest: in_set_takeD in_set_dropD)
  moreover have "pg_pages pg = total_pages (int (length xs)) (safe_size 500 n)" using P xs by (simp add: paged_of_def)
  ultimately show ?thesis using xs E by auto
qed

definition sample_symbols :: universe_db where
  "sample_symbols = \<lparr>un_rows = map (\<lambda>t. \<lparr>sy_ticker = t, sy_name = t, sy_market = ''USER'', sy_in_universe = True, sy_is_active = True,
     sy_is_blocked = False, sy_status = ''normal''\<rparr>) [''C'', ''A'', ''B''], un_faults = []\<rparr>"

definition any_symbol :: symbol_filter where
  "any_symbol = \<lparr>fl_runtime_only = False, fl_in_universe = None, fl_market = None, fl_is_active = None, fl_is_blocked = None,
     fl_status = None, fl_ticker_query = None\<rparr>"

theorem universe_pages_are_the_universe_witness:
  "\<exists>xs d' pg d2. pages_upto (count_symbols any_symbol) (list_symbols any_symbol) 500 2 2 sample_symbols = (Inr xs, d') \<and>
     universe_page any_symbol 3 2 sample_symbols = (Inr (Inr pg), d2) \<and> map sy_ticker xs = [''A'', ''B'', ''C''] \<and> pg_items pg = []"
proof -
  have all: "filter (symbol_matches any_symbol) (un_rows sample_symbols) = un_rows sample_symbols"
    by (simp add: symbol_matches_def any_symbol_def opt_bool_def opt_filter_def)
  have np: "nat (total_pages (int (length (filter (symbol_matches any_symbol) (un_rows sample_symbols)))) (safe_size 500 2)) = 2"
    unfolding all by (simp add: sample_symbols_def total_pages_def safe_size_def)
  obtain xs d' where run: "pages_upto (count_symbols any_symbol) (list_symbols any_symbol) 500 2 2 sample_symbols = (Inr xs, d')"
    by (simp add: numeral_2_eq_2 Let_def count_and_list_def count_symbols_def list_symbols_def sample_symbols_def un_tick_def)
  obtain pg d2 where pg: "universe_page any_symbol 3 2 sample_symbols = (Inr (Inr pg), d2)"
    by (simp add: Let_def universe_page_def paged_read_def sql_answer_def count_and_list_def count_symbols_def list_symbols_def
        sample_symbols_def un_tick_def)
  have inv: "universe_inv sample_symbols" by (simp add: universe_inv_def sample_symbols_def)
  note U = universe_pages_are_the_universe [OF run [folded np] pg inv]
  have "map sy_ticker xs = [''A'', ''B'', ''C'']" using U unfolding all by (simp add: sample_symbols_def)
  moreover have "pg_items pg = []"
    using pg unfolding universe_page_def paged_read_def sql_answer_def count_and_list_def count_symbols_def list_symbols_def
    by (auto simp: all Let_def safe_page_def safe_size_def page_offset_def page_def paged_of_def sample_symbols_def un_tick_def)
  ultimately show ?thesis by (intro exI conjI) (rule run, rule pg)
qed

end
