(* ===== verification/Web_Records.thy ===== *)
theory Web_Records
  imports Web_Pages
begin

text \<open>
  The records of the dashboard: positions with their unrealised result, trades matched with the
  positions they closed, the CSV export (\<open>main.py\<close>, \<open>app/api/routes/dashboard_analytics.py\<close> and
  \<open>dashboard_records.py\<close>) and the settings. How Python prints a float and a time is a parameter;
  \<open>csv.writer\<close> is modelled as far as the export uses it.
\<close>

section \<open>Positions\<close>

record position_view =
  px_row :: position_row
  px_current_price :: "real option"
  px_unrealized :: "real option"
  px_unrealized_pct :: "real option"

definition position_to_dict :: "position_row \<Rightarrow> real option \<Rightarrow> position_view" where
  "position_to_dict row price =
     (let valued = (case price of None \<Rightarrow> None | Some c \<Rightarrow> if pos_remaining_quantity row > 0 then Some c else None)
      in \<lparr>px_row = row, px_current_price = price,
          px_unrealized = map_option (\<lambda>c. (c - pos_entry_price row) * pos_remaining_quantity row) valued,
          px_unrealized_pct =
            (case valued of
               None \<Rightarrow> None
             | Some c \<Rightarrow> if pos_entry_price row > 0 then Some ((c / pos_entry_price row - 1) * 100) else None)\<rparr>)"

text \<open>The rows in order; the latest close of a ticker is asked for once and kept.\<close>

fun price_rows ::
  "position_row list \<Rightarrow> (string \<times> real option) list \<Rightarrow> candle_db \<Rightarrow> position_view list py \<times> candle_db" where
  "price_rows [] latest_prices d = (Inr [], d)"
| "price_rows (p # ps) latest_prices d =
     (case (case map_of latest_prices (pos_ticker p) of
              Some x \<Rightarrow> (Inr x, d)
            | None \<Rightarrow> get_latest_close (pos_ticker p) d) of
        (Inl x, d1) \<Rightarrow> (Inl x, d1)
      | (Inr price, d1) \<Rightarrow>
          (case price_rows ps (AList.update (pos_ticker p) price latest_prices) d1 of
             (Inl x, d2) \<Rightarrow> (Inl x, d2)
           | (Inr vs, d2) \<Rightarrow> (Inr (position_to_dict p price # vs), d2)))"

definition dashboard_positions ::
  "string option \<Rightarrow> int \<Rightarrow> int \<Rightarrow> odb \<times> candle_db \<Rightarrow> (string + position_view paged) py \<times> odb \<times> candle_db" where
  "dashboard_positions state p n s =
     (case s of (od, cd) \<Rightarrow>
      (case positions_read state p n od of
         (Inl x, od1) \<Rightarrow> (sql_answer (Inl x), od1, cd)
       | (Inr pg, od1) \<Rightarrow>
           (case price_rows (pg_items pg) [] cd of
              (r, cd1) \<Rightarrow>
                (sql_answer (map_sum id (\<lambda>vs. paged_of (pg_page pg) (pg_size pg) (pg_total pg) vs) r), od1, cd1))))"

section \<open>Trades\<close>

text \<open>The closed position whose closing time is nearest: the first of the nearest ones.\<close>

fun nearest_loop :: "instant \<Rightarrow> position_row list \<Rightarrow> (position_row \<times> int) option \<Rightarrow> (position_row \<times> int) option" where
  "nearest_loop created [] best = best"
| "nearest_loop created (p # ps) best =
     nearest_loop created ps
       (case pos_closed_time p of
          None \<Rightarrow> best
        | Some closed_at \<Rightarrow>
            (let gap = \<bar>closed_at - created\<bar> in
             case best of None \<Rightarrow> Some (p, gap) | Some (_, g) \<Rightarrow> if gap < g then Some (p, gap) else best))"

definition find_nearest_closed_position :: "instant \<Rightarrow> position_row list \<Rightarrow> position_row option" where
  "find_nearest_closed_position created candidates =
     (case nearest_loop created candidates None of
        None \<Rightarrow> None
      | Some (p, gap) \<Rightarrow> if gap \<le> seconds 172800 then Some p else None)"

record trade_view =
  tv_row :: paper_trade
  tv_pnl_pct :: "real option"
  tv_entry_time :: instant
  tv_exit_time :: instant
  tv_holding_minutes :: "int option"
  tv_close_reason :: "string option"

definition trade_to_dict :: "paper_trade \<Rightarrow> position_row option \<Rightarrow> trade_view" where
  "trade_to_dict row closed_position =
     (let pct = (case pt_pnl row of
                   None \<Rightarrow> None
                 | Some pnl \<Rightarrow> if pt_entry_price row > 0 then Some (pnl / pt_entry_price row * 100) else None)
      in case closed_position of
           None \<Rightarrow> \<lparr>tv_row = row, tv_pnl_pct = pct, tv_entry_time = pt_created_at row, tv_exit_time = pt_created_at row,
                     tv_holding_minutes = None, tv_close_reason = None\<rparr>
         | Some p \<Rightarrow>
             (let entry_time = pos_entry_time p;
                  exit_time = (case pos_closed_time p of Some t \<Rightarrow> t | None \<Rightarrow> pt_created_at row)
              in \<lparr>tv_row = row, tv_pnl_pct = pct, tv_entry_time = entry_time, tv_exit_time = exit_time,
                  tv_holding_minutes = Some (max ((exit_time - entry_time) div seconds 60) 0),
                  tv_close_reason = pos_close_reason p\<rparr>))"

text \<open>The closed positions of a ticker and strategy by their closing time.\<close>

definition bucket_of :: "position_row list \<Rightarrow> string \<times> string \<Rightarrow> position_row list" where
  "bucket_of closed_positions key =
     sort_key (\<lambda>p. case pos_closed_time p of None \<Rightarrow> 0 | Some t \<Rightarrow> t)
       (filter (\<lambda>p. (pos_ticker p, pos_strategy_id p) = key) closed_positions)"

definition match_trade :: "position_row list \<Rightarrow> paper_trade \<Rightarrow> trade_view" where
  "match_trade closed_positions t =
     trade_to_dict t (find_nearest_closed_position (pt_created_at t)
       (bucket_of closed_positions (pt_ticker t, pt_strategy_id t)))"

definition dashboard_trades ::
  "trade_filter \<Rightarrow> int \<Rightarrow> int \<Rightarrow> account_db \<times> odb \<Rightarrow> (string + trade_view paged) py \<times> account_db \<times> odb" where
  "dashboard_trades f p n s =
     (case s of (ad, od) \<Rightarrow>
      (case trades_read f p n ad of
         (Inl x, ad1) \<Rightarrow> (sql_answer (Inl x), ad1, od)
       | (Inr pg, ad1) \<Rightarrow>
           (case list_positions (Some ''CLOSED'') 0 20000 od of
              (r, od1) \<Rightarrow>
                (sql_answer (map_sum id (\<lambda>closed_positions.
                   paged_of (pg_page pg) (pg_size pg) (pg_total pg) (map (match_trade closed_positions) (pg_items pg))) r),
                 ad1, od1))))"

section \<open>The export\<close>

text \<open>\<open>csv.writer\<close>: a field with a comma, a quote or a line end is quoted, its quotes doubled.\<close>

definition csv_special :: "char \<Rightarrow> bool" where
  "csv_special c = (c = CHR '','' \<or> c = CHR 34 \<or> c = CHR 10 \<or> c = CHR 13)"

fun double_quotes :: "string \<Rightarrow> string" where
  "double_quotes [] = []"
| "double_quotes (c # cs) = (if c = CHR 34 then [CHR 34, CHR 34] else [c]) @ double_quotes cs"

definition csv_field :: "string \<Rightarrow> string" where
  "csv_field s = (if list_ex csv_special s then [CHR 34] @ double_quotes s @ [CHR 34] else s)"

definition csv_row :: "string list \<Rightarrow> string" where
  "csv_row cells = py_join '','' (map csv_field cells) @ [CHR 13, CHR 10]"

definition csv_header :: "string list" where
  "csv_header = [''id'', ''ticker'', ''strategy_id'', ''side'', ''entry_price'', ''exit_price'', ''quantity'', ''pnl'', ''pnl_pct'',
     ''entry_time'', ''exit_time'', ''holding_minutes'', ''close_reason'']"

definition opt_cell :: "('a \<Rightarrow> string) \<Rightarrow> 'a option \<Rightarrow> string" where
  "opt_cell f x = (case x of None \<Rightarrow> [] | Some v \<Rightarrow> f v)"

definition csv_cells :: "(real \<Rightarrow> string) \<Rightarrow> (instant \<Rightarrow> string) \<Rightarrow> trade_view \<Rightarrow> string list" where
  "csv_cells show_float isoformat v =
     (let t = tv_row v in
      [show_nat (pt_id t), pt_ticker t, pt_strategy_id t, pt_side t, show_float (pt_entry_price t),
       opt_cell show_float (pt_exit_price t), show_float (pt_quantity t), opt_cell show_float (pt_pnl t),
       opt_cell show_float (tv_pnl_pct v), isoformat (tv_entry_time v), isoformat (tv_exit_time v),
       opt_cell show_int (tv_holding_minutes v), opt_cell id (tv_close_reason v)])"

definition dashboard_trades_export_csv ::
  "(real \<Rightarrow> string) \<Rightarrow> (instant \<Rightarrow> string) \<Rightarrow> trade_filter \<Rightarrow> account_db \<Rightarrow> string py \<times> account_db" where
  "dashboard_trades_export_csv show_float isoformat f d =
     (case list_trades f 0 50000 True d of
        (Inl x, d') \<Rightarrow> (Inl x, d')
      | (Inr rows, d') \<Rightarrow>
          (Inr (concat (map csv_row (csv_header # map (\<lambda>t. csv_cells show_float isoformat (trade_to_dict t None)) rows))), d'))"

text \<open>A reader of such a file, as RFC 4180 has it: fields and rows so far are kept reversed.\<close>

datatype csv_mode = PlainField | QuotedField | QuoteSeen

fun csv_read :: "csv_mode \<Rightarrow> string \<Rightarrow> string list \<Rightarrow> string \<Rightarrow> string list list" where
  "csv_read m f r [] = []"
| "csv_read QuotedField f r (c # cs) =
     (if c = CHR 34 then csv_read QuoteSeen f r cs else csv_read QuotedField (c # f) r cs)"
| "csv_read m f r (c # cs) =
     (if c = CHR '','' then csv_read PlainField [] (rev f # r) cs
      else if c = CHR 13 then csv_read m f r cs
      else if c = CHR 10 then rev (rev f # r) # csv_read PlainField [] [] cs
      else if c = CHR 34 then csv_read QuotedField (if m = QuoteSeen then c # f else f) r cs
      else csv_read PlainField (c # f) r cs)"

section \<open>Settings\<close>

definition webui_only_keys :: "string list" where
  "webui_only_keys = [''atr_period'', ''stop_atr_mult'', ''tp_atr_mult'', ''trail_atr_mult'', ''margin_close_priority'']"

record setting_item =
  it_key :: string
  it_value :: string
  it_editable :: bool
  it_webui_only :: bool
  it_label :: display
  it_allowed :: "string list"

definition dashboard_setting_item :: "string \<Rightarrow> string \<Rightarrow> setting_item" where
  "dashboard_setting_item key value =
     (case describe key of (label, allowed) \<Rightarrow>
        \<lparr>it_key = key, it_value = value, it_editable = (key \<noteq> ''daily_base_capital''),
         it_webui_only = (key \<in> set webui_only_keys \<or> py_startswith key ''strategy.''), it_label = label, it_allowed = allowed\<rparr>)"

definition dashboard_settings :: "config_service \<Rightarrow> setting_item list" where
  "dashboard_settings s = map (\<lambda>(k, v). dashboard_setting_item k v) (sort_key fst (config_get_all (sv_config s)))"

text \<open>\<open>except (KeyError, ValueError)\<close>: the text of the error; anything else is raised.\<close>

definition dashboard_set_settings ::
  "int \<Rightarrow> string \<Rightarrow> string \<Rightarrow> config_service \<Rightarrow> (string + unit) py \<times> config_service" where
  "dashboard_set_settings now key value s =
     (case service_set now key value ''webui'' s of
        (Inr _, s') \<Rightarrow> (Inr (Inr ()), s')
      | (Inl x, s') \<Rightarrow> ((if is_key_or_value_error x then Inr (Inl (exn_str x)) else Inl x), s'))"

section \<open>Prices are asked for once\<close>

lemma price_rows_ref:
  assumes "price_rows ps cache d = (Inr vs, d')" "\<forall>k v. map_of cache k = Some v \<longrightarrow> v = latest_close k (ca_rows d)"
  shows "vs = map (\<lambda>p. position_to_dict p (latest_close (pos_ticker p) (ca_rows d))) ps \<and> ca_rows d' = ca_rows d \<and>
     ca_faults d' = drop (card (set (map pos_ticker ps) - dom (map_of cache))) (ca_faults d)"
  using assms
proof (induction ps arbitrary: cache d vs d')
  case (Cons p ps)
  let ?t = "pos_ticker p" and ?S = "set (map pos_ticker ps)"
  obtain r d1 where a: "(case map_of cache ?t of Some x \<Rightarrow> (Inr x, d) | None \<Rightarrow> get_latest_close ?t d) = (r, d1)" by fastforce
  obtain price where price: "r = Inr price" using Cons.prems(1) a by (cases r) auto
  have cache: "map_of (AList.update ?t price cache) = (map_of cache)(?t \<mapsto> price)" by (rule update_conv')
  obtain us d2 where b: "price_rows ps (AList.update ?t price cache) d1 = (Inr us, d2)" "vs = position_to_dict p price # us" "d2 = d'"
    using Cons.prems(1) a price by (auto split: prod.splits sum.splits)
  have d1: "ca_rows d1 = ca_rows d" "price = latest_close ?t (ca_rows d)"
      "ca_faults d1 = (if ?t \<in> dom (map_of cache) then ca_faults d else tl (ca_faults d))"
    using a price Cons.prems(2) by (auto simp: get_latest_close_def ca_tick_def split: option.splits if_splits)
  have inv: "\<forall>k v. map_of (AList.update ?t price cache) k = Some v \<longrightarrow> v = latest_close k (ca_rows d1)"
    using Cons.prems(2) d1 unfolding cache by auto
  note IH = Cons.IH [OF b(1) inv]
  have "card (set (map pos_ticker (p # ps)) - dom (map_of cache)) =
      (if ?t \<in> dom (map_of cache) then 0 else 1) + card (?S - dom (map_of (AList.update ?t price cache)))"
  proof (cases "?t \<in> dom (map_of cache)")
    case True
    then have "set (map pos_ticker (p # ps)) - dom (map_of cache) = ?S - dom (map_of (AList.update ?t price cache))"
      unfolding cache by auto
    then show ?thesis using True by simp
  next
    case False
    then have "set (map pos_ticker (p # ps)) - dom (map_of cache) = insert ?t (?S - dom (map_of (AList.update ?t price cache)))"
      unfolding cache by auto
    moreover have "?t \<notin> ?S - dom (map_of (AList.update ?t price cache))" unfolding cache by simp
    ultimately show ?thesis using False by simp
  qed
  then have "ca_faults d' = drop (card (set (map pos_ticker (p # ps)) - dom (map_of cache))) (ca_faults d)"
    using IH b(3) d1(3) by (simp add: drop_Suc)
  then show ?case using IH b d1 by simp
qed auto

lemma unrealized_sign:
  "px_unrealized (position_to_dict p c) = Some u \<Longrightarrow> px_unrealized_pct (position_to_dict p c) = Some q \<Longrightarrow> (0 < u) = (0 < q)"
proof -
  assume a: "px_unrealized (position_to_dict p c) = Some u" "px_unrealized_pct (position_to_dict p c) = Some q"
  then obtain x where x: "0 < pos_remaining_quantity p" "0 < pos_entry_price p"
      "u = (x - pos_entry_price p) * pos_remaining_quantity p" "q = (x / pos_entry_price p - 1) * 100"
    by (auto simp: position_to_dict_def Let_def split: option.splits if_splits)
  have "(0 < u) = (pos_entry_price p < x)" using x(1,3) by (simp add: zero_less_mult_iff)
  moreover have "(0 < q) = (pos_entry_price p < x)" using x(2,4) by (simp add: less_divide_eq)
  ultimately show ?thesis by simp
qed

section \<open>The nearest position\<close>

lemma nearest_loop_spec:
  "case nearest_loop c ps best of
     None \<Rightarrow> best = None \<and> (\<forall>p\<in>set ps. pos_closed_time p = None)
   | Some (p, g) \<Rightarrow>
       (best = Some (p, g) \<or> p \<in> set ps \<and> (\<exists>t. pos_closed_time p = Some t \<and> g = \<bar>t - c\<bar>)) \<and>
       (\<forall>q\<in>set ps. \<forall>t. pos_closed_time q = Some t \<longrightarrow> g \<le> \<bar>t - c\<bar>) \<and> (\<forall>q h. best = Some (q, h) \<longrightarrow> g \<le> h)"
proof (induction ps arbitrary: best)
  case Nil
  then show ?case by (auto split: option.splits)
next
  case (Cons p ps)
  let ?b = "case pos_closed_time p of
          None \<Rightarrow> best
        | Some closed_at \<Rightarrow>
            (let gap = \<bar>closed_at - c\<bar> in
             case best of None \<Rightarrow> Some (p, gap) | Some (_, g) \<Rightarrow> if gap < g then Some (p, gap) else best)"
  note IH = Cons.IH [of ?b]
  show ?case
  proof (cases "nearest_loop c ps ?b")
    case None
    then show ?thesis using IH by (auto simp: Let_def split: option.splits if_splits)
  next
    case (Some r)
    obtain q g where r: "r = (q, g)" by fastforce
    from IH Some r have I: "?b = Some (q, g) \<or> q \<in> set ps \<and> (\<exists>t. pos_closed_time q = Some t \<and> g = \<bar>t - c\<bar>)"
      "\<forall>q\<in>set ps. \<forall>t. pos_closed_time q = Some t \<longrightarrow> g \<le> \<bar>t - c\<bar>" "\<forall>q h. ?b = Some (q, h) \<longrightarrow> g \<le> h" by simp_all
    have m: "best = Some (q, g) \<or> q \<in> set (p # ps) \<and> (\<exists>t. pos_closed_time q = Some t \<and> g = \<bar>t - c\<bar>)"
      using I(1) by (auto simp: Let_def split: option.splits if_splits)
    have h: "g \<le> h" if "best = Some (q', h)" for q' h
      using I(3) that by (cases "pos_closed_time p") (auto simp: Let_def split: if_splits)
    have p: "g \<le> \<bar>t - c\<bar>" if t: "pos_closed_time p = Some t" for t
    proof (cases best)
      case None
      then show ?thesis using I(3) t by simp
    next
      case b: (Some bb)
      obtain q' h' where "bb = (q', h')" by fastforce
      then show ?thesis using I(3) t b h by (auto simp: Let_def split: if_splits)
    qed
    have "nearest_loop c (p # ps) best = Some (q, g)" using Some r by simp
    then show ?thesis using m h p I(2) by auto
  qed
qed

section \<open>Writing and reading a file\<close>

lemma read_plain:
  assumes "\<not> list_ex csv_special s"
  shows "csv_read PlainField f r (s @ CHR '','' # cs) = csv_read PlainField [] ((rev f @ s) # r) cs"
    and "csv_read PlainField f r (s @ CHR 13 # CHR 10 # cs) = rev ((rev f @ s) # r) # csv_read PlainField [] [] cs"
  using assms by (induction s arbitrary: f) (auto simp: csv_special_def)

lemma read_quoted:
  "csv_read QuotedField f r (double_quotes s @ CHR 34 # cs) = csv_read QuoteSeen (rev s @ f) r cs"
  if "cs = CHR '','' # t \<or> cs = CHR 13 # t"
proof (induction s arbitrary: f)
  case Nil
  show ?case by simp
next
  case (Cons c s)
  show ?case
  proof (cases "c = CHR 34")
    case True
    then show ?thesis using Cons.IH [of "c # f"] by simp
  next
    case False
    then show ?thesis using Cons.IH [of "c # f"] by simp
  qed
qed

lemma read_field:
  "csv_read PlainField [] r (csv_field s @ CHR '','' # cs) = csv_read PlainField [] (s # r) cs"
  "csv_read PlainField [] r (csv_field s @ CHR 13 # CHR 10 # cs) = rev (s # r) # csv_read PlainField [] [] cs"
proof -
  show "csv_read PlainField [] r (csv_field s @ CHR '','' # cs) = csv_read PlainField [] (s # r) cs"
  proof (cases "list_ex csv_special s")
    case True
    then show ?thesis using read_quoted [of "CHR '','' # cs" cs "[]" r s] by (simp add: csv_field_def)
  next
    case False
    then show ?thesis using read_plain(1) [of s "[]" r cs] by (simp add: csv_field_def)
  qed
  show "csv_read PlainField [] r (csv_field s @ CHR 13 # CHR 10 # cs) = rev (s # r) # csv_read PlainField [] [] cs"
  proof (cases "list_ex csv_special s")
    case True
    then show ?thesis using read_quoted [of "CHR 13 # CHR 10 # cs" "CHR 10 # cs" "[]" r s] by (simp add: csv_field_def)
  next
    case False
    then show ?thesis using read_plain(2) [of s "[]" r cs] by (simp add: csv_field_def)
  qed
qed

lemma read_row:
  "cells \<noteq> [] \<Longrightarrow> csv_read PlainField [] r (csv_row cells @ cs) = (rev r @ cells) # csv_read PlainField [] [] cs"
proof (induction cells arbitrary: r)
  case (Cons s cells)
  show ?case
  proof (cases cells)
    case Nil
    then show ?thesis using read_field(2) [of r s cs] by (simp add: csv_row_def)
  next
    case (Cons s' rest)
    then have "csv_row (s # cells) @ cs = csv_field s @ CHR '','' # (csv_row cells @ cs)" by (simp add: csv_row_def)
    then show ?thesis using read_field(1) [of r s "csv_row cells @ cs"] Cons.IH [of "s # r"] Cons by simp
  qed
qed simp

lemma read_rows: "\<forall>cells\<in>set rows. cells \<noteq> [] \<Longrightarrow> csv_read PlainField [] [] (concat (map csv_row rows)) = rows"
  by (induction rows) (simp_all add: read_row)

section \<open>Properties\<close>

text \<open>
  The positions of the dashboard are valued at the latest stored close of their ticker, each ticker
  being looked up once however many positions it has; a shown result and its percentage have the
  same sign, and nothing is changed.
\<close>

theorem positions_are_valued_at_the_latest_close:
  assumes "dashboard_positions state p n (od, cd) = (Inr (Inr pg), od', cd')"
  shows "\<exists>rows. rows = page (page_offset (safe_page p) (safe_size 500 n)) (nat (safe_size 500 n))
      (py_sorted_rev pos_updated_at (filter (\<lambda>x. opt_filter state (\<lambda>s. pos_state x = s)) (od_positions od))) \<and>
    pg_items pg = map (\<lambda>x. position_to_dict x (latest_close (pos_ticker x) (ca_rows cd))) rows \<and>
    ca_faults cd' = drop (card (set (map pos_ticker rows))) (ca_faults cd) \<and> ca_rows cd' = ca_rows cd \<and>
    od_positions od' = od_positions od \<and>
    (\<forall>v\<in>set (pg_items pg). \<forall>u q. px_unrealized v = Some u \<and> px_unrealized_pct v = Some q \<longrightarrow> (0 < u) = (0 < q))"
proof -
  obtain r od1 where a: "positions_read state p n od = (r, od1)" by fastforce
  with assms obtain pg1 where r: "r = Inr pg1" by (cases r) (auto simp: dashboard_positions_def sql_answer_def split: if_splits)
  obtain q cd1 where b: "price_rows (pg_items pg1) [] cd = (q, cd1)" by fastforce
  with assms a r obtain vs where vs: "q = Inr vs" "pg = paged_of (pg_page pg1) (pg_size pg1) (pg_total pg1) vs" "od1 = od'" "cd1 = cd'"
    by (cases q) (auto simp: dashboard_positions_def sql_answer_def split: if_splits)
  let ?rows = "page (page_offset (safe_page p) (safe_size 500 n)) (nat (safe_size 500 n))
      (py_sorted_rev pos_updated_at (filter (\<lambda>x. opt_filter state (\<lambda>s. pos_state x = s)) (od_positions od)))"
  have rows: "pg_items pg1 = ?rows" "od_positions od' = od_positions od"
    using a r vs(3) by (auto simp: positions_read_def count_and_list_def count_positions_def list_positions_def tick_def
      paged_of_def Let_def split: if_splits)
  note P = price_rows_ref [OF b [unfolded vs(1)]]
  have "pg_items pg = vs" using vs(2) by (simp add: paged_of_def)
  then show ?thesis using P rows vs(4) unrealized_sign by auto
qed

text \<open>
  The position shown with a trade is the one that closed nearest to it. If a candidate closed within
  48 hours of the trade, one is found and none closed nearer; otherwise there is none.
\<close>

theorem matched_position_is_the_nearest:
  "case find_nearest_closed_position created candidates of
     None \<Rightarrow> (\<forall>p\<in>set candidates. \<forall>t. pos_closed_time p = Some t \<longrightarrow> seconds 172800 < \<bar>t - created\<bar>)
   | Some p \<Rightarrow> p \<in> set candidates \<and> (\<exists>t. pos_closed_time p = Some t \<and> \<bar>t - created\<bar> \<le> seconds 172800 \<and>
       (\<forall>q\<in>set candidates. \<forall>u. pos_closed_time q = Some u \<longrightarrow> \<bar>t - created\<bar> \<le> \<bar>u - created\<bar>))"
proof (cases "nearest_loop created candidates None")
  case None
  then show ?thesis
    using nearest_loop_spec [where c = created and ps = candidates and best = None] by (simp add: find_nearest_closed_position_def)
next
  case (Some r)
  obtain p g where r: "r = (p, g)" by fastforce
  from nearest_loop_spec [where c = created and ps = candidates and best = None] Some r obtain t where
    p: "p \<in> set candidates" "pos_closed_time p = Some t" "g = \<bar>t - created\<bar>"
      "\<forall>q\<in>set candidates. \<forall>u. pos_closed_time q = Some u \<longrightarrow> g \<le> \<bar>u - created\<bar>" by auto
  show ?thesis
  proof (cases "g \<le> seconds 172800")
    case True
    then show ?thesis using Some r p by (auto simp: find_nearest_closed_position_def)
  next
    case False
    then have "\<forall>q\<in>set candidates. \<forall>u. pos_closed_time q = Some u \<longrightarrow> seconds 172800 < \<bar>u - created\<bar>" using p(4) by fastforce
    then show ?thesis using False Some r by (simp add: find_nearest_closed_position_def)
  qed
qed

text \<open>
  C38: the exported file reads back as what was exported: the header and one line of thirteen fields per
  matching trade, the newest first, whatever commas, quotes or line ends the texts hold.
\<close>

theorem exported_file_reads_back:
  assumes "dashboard_trades_export_csv show_float isoformat f d = (Inr content, d')"
  shows "\<exists>rows. rows = take 50000 (py_sorted_rev pt_created_at (filter (trade_matches f) (ac_trades d))) \<and>
    csv_read PlainField [] [] content
      = csv_header # map (\<lambda>t. csv_cells show_float isoformat (trade_to_dict t None)) rows"
proof -
  let ?rows = "take 50000 (py_sorted_rev pt_created_at (filter (trade_matches f) (ac_trades d)))"
  have "content = concat (map csv_row (csv_header # map (\<lambda>t. csv_cells show_float isoformat (trade_to_dict t None)) ?rows))"
    using assms
    by (auto simp: dashboard_trades_export_csv_def list_trades_def ac_query_def ac_stmt_def ac_tick_def page_def Let_def split: if_splits)
  moreover have "\<forall>cells\<in>set (csv_header # map (\<lambda>t. csv_cells show_float isoformat (trade_to_dict t None)) ?rows). cells \<noteq> []"
    by (simp add: csv_header_def csv_cells_def Let_def)
  ultimately show ?thesis using read_rows by blast
qed

text \<open>
  The settings route always answers. It says yes exactly if the configuration manager accepts the
  value, and then the setting holds; otherwise it answers the manager's error and nothing is changed.
\<close>

theorem settings_route_answers_every_request:
  "\<exists>a s'. dashboard_set_settings now key value s = (Inr a, s') \<and>
     (case config_set key value False (sv_config s) of
        Inl x \<Rightarrow> a = Inl (exn_str x) \<and> sv_config s' = sv_config s
      | Inr c \<Rightarrow> a = Inr () \<and> map_of (sv_config s') = map_of c)"
proof -
  obtain r s' where run: "service_set now key value ''webui'' s = (r, s')" by fastforce
  note S = service_set_outcome [OF run]
  show ?thesis
  proof (cases "config_set key value False (sv_config s)")
    case (Inl x)
    with S config_set_kv_only [OF Inl] run show ?thesis by (auto simp: dashboard_set_settings_def)
  next
    case (Inr c)
    with S run show ?thesis by (auto simp: dashboard_set_settings_def)
  qed
qed

definition sample_closed :: "nat \<Rightarrow> instant option \<Rightarrow> position_row" where
  "sample_closed i closed_at = \<lparr>pos_id = i, pos_order_id = None, pos_ticker = ''A'', pos_strategy_id = ''1'', pos_state = ''CLOSED'',
     pos_entry_price = 5, pos_stop_price = 4, pos_take_profit_price = 7, pos_trailing_stop_price = None, pos_highest_price = None,
     pos_quantity = 2, pos_remaining_quantity = 1, pos_entry_time = 0, pos_closed_time = closed_at, pos_close_reason = None,
     pos_updated_at = 0\<rparr>"

theorem matched_position_is_the_nearest_witness:
  "\<exists>p. find_nearest_closed_position 10 [sample_closed 1 (Some 5), sample_closed 2 None, sample_closed 3 (Some 12)] = Some p \<and>
     pos_closed_time p = Some 12"
proof (cases "find_nearest_closed_position 10 [sample_closed 1 (Some 5), sample_closed 2 None, sample_closed 3 (Some 12)]")
  case None
  with matched_position_is_the_nearest [where created = 10 and candidates = "[sample_closed 1 (Some 5), sample_closed 2 None, sample_closed 3 (Some 12)]"]
  show ?thesis by (simp add: sample_closed_def)
next
  case (Some p)
  with matched_position_is_the_nearest [where created = 10 and candidates = "[sample_closed 1 (Some 5), sample_closed 2 None, sample_closed 3 (Some 12)]"]
  show ?thesis by (auto simp: sample_closed_def)
qed

theorem exported_file_reads_back_witness:
  "\<exists>content d'. dashboard_trades_export_csv (\<lambda>x. ''1'') show_int any_trade
       ((account_db_init [])\<lparr>ac_trades := [sample_trade ''a,b'' 5 None]\<rparr>) = (Inr content, d') \<and>
     length (csv_read PlainField [] [] content) = 2"
proof -
  obtain content d' where run: "dashboard_trades_export_csv (\<lambda>x. ''1'') show_int any_trade
       ((account_db_init [])\<lparr>ac_trades := [sample_trade ''a,b'' 5 None]\<rparr>) = (Inr content, d')"
    by (simp add: dashboard_trades_export_csv_def list_trades_def ac_query_def ac_stmt_def account_db_init_def Let_def)
  have "trade_matches any_trade (sample_trade ''a,b'' 5 None)"
    by (simp add: trade_matches_def any_trade_def in_window_def opt_bound_def opt_filter_def)
  then have one: "length (take 50000 (py_sorted_rev pt_created_at (filter (trade_matches any_trade)
      (ac_trades ((account_db_init [])\<lparr>ac_trades := [sample_trade ''a,b'' 5 None]\<rparr>))))) = 1" by simp
  from exported_file_reads_back [OF run] one have "length (csv_read PlainField [] [] content) = 2"
    by (elim exE conjE) (simp only: length_map list.size)
  with run show ?thesis by blast
qed

theorem positions_are_valued_at_the_latest_close_witness:
  "\<exists>pg od' cd'. dashboard_positions None 1 10 ((odb_init [])\<lparr>od_positions := [sample_closed 1 None, sample_closed 2 None]\<rparr>,
       \<lparr>ca_rows = [], ca_faults = [False, True]\<rparr>) = (Inr (Inr pg), od', cd') \<and> ca_faults cd' = [True]"
proof -
  let ?od = "(odb_init [])\<lparr>od_positions := [sample_closed 1 None, sample_closed 2 None]\<rparr>"
  let ?cd = "\<lparr>ca_rows = [], ca_faults = [False, True]\<rparr> :: candle_db"
  have sorted: "py_sorted_rev pos_updated_at [sample_closed 1 None, sample_closed 2 None] = [sample_closed 1 None, sample_closed 2 None]"
    by (simp add: py_sorted_rev_def sample_closed_def)
  obtain pg od1 where pg: "positions_read None 1 10 ?od = (Inr pg, od1)" "pg_items pg = [sample_closed 1 None, sample_closed 2 None]"
    by (simp add: positions_read_def count_and_list_def count_positions_def list_positions_def odb_init_def tick_def opt_filter_def
        page_def page_offset_def safe_page_def safe_size_def paged_of_def sorted Let_def del: One_nat_def)
  then obtain pg' od' cd' where run: "dashboard_positions None 1 10 (?od, ?cd) = (Inr (Inr pg'), od', cd')"
    by (simp add: dashboard_positions_def get_latest_close_def sample_closed_def sql_answer_def ca_tick_def)
  have "od_positions ?od = [sample_closed 1 None, sample_closed 2 None]" by simp
  with positions_are_valued_at_the_latest_close [OF run] have "ca_faults cd' = [True]"
    by (auto simp: sorted opt_filter_def page_def page_offset_def safe_page_def safe_size_def sample_closed_def simp del: One_nat_def)
  with run show ?thesis by blast
qed

end
