(* ===== verification/Web_Universe.thy ===== *)
theory Web_Universe
  imports Universe_Bootstrap Web_Pages Loop_Background
begin

text \<open>
  The universe over HTTP and at startup: the system routes that list, change and block symbols
  (\<open>main.py\<close>), the dashboard's universe and the range of the stored bars
  (\<open>app/api/routes/dashboard_read.py\<close>), and the \<open>lifespan\<close> of the application with the bootstrap it
  leaves running. The schema creation and the log lines are left out.
\<close>

section \<open>Routes\<close>

record symbol_view =
  vw_row :: symbol
  vw_label :: label_ko

definition symbol_to_dict :: "symbol \<Rightarrow> symbol_view" where
  "symbol_to_dict row = \<lparr>vw_row = row, vw_label = universe_status_label_ko (sy_status row)\<rparr>"

record universe_listing =
  ul_total :: nat
  ul_offset :: int
  ul_limit :: int
  ul_items :: "symbol_view list"

definition list_universe :: "symbol_filter \<Rightarrow> int \<Rightarrow> int \<Rightarrow> universe_db \<Rightarrow> (string + universe_listing) py \<times> universe_db" where
  "list_universe f offset limit u =
     (case count_symbols f u of
        (Inl x, u1) \<Rightarrow> (sql_answer (Inl x), u1)
      | (Inr n, u1) \<Rightarrow>
          (case list_symbols f (max offset 0) (nat (max 1 (min limit 2000))) u1 of
             (Inl x, u2) \<Rightarrow> (sql_answer (Inl x), u2)
           | (Inr rows, u2) \<Rightarrow>
               (Inr (Inr \<lparr>ul_total = n, ul_offset = max offset 0, ul_limit = max 1 (min limit 2000),
                          ul_items = map symbol_to_dict rows\<rparr>), u2)))"

definition dashboard_universe :: "symbol_filter \<Rightarrow> int \<Rightarrow> int \<Rightarrow> universe_db \<Rightarrow> (string + symbol_view paged) py \<times> universe_db" where
  "dashboard_universe f p n u =
     (case universe_page f p n u of
        (r, u') \<Rightarrow> (map_sum id (map_sum id (\<lambda>pg. paged_of (pg_page pg) (pg_size pg) (pg_total pg) (map symbol_to_dict (pg_items pg)))) r, u'))"

record upsert_request =
  ur_ticker :: string
  ur_name :: string
  ur_market :: string
  ur_in_universe :: bool
  ur_is_active :: bool
  ur_is_blocked :: bool
  ur_status :: universe_status

datatype symbol_reply = SymbolOk symbol_view | BadMarket | SymbolDbError string | SymbolNotFound

definition upsert_universe_symbol :: "upsert_request \<Rightarrow> universe_db \<Rightarrow> symbol_reply py \<times> universe_db" where
  "upsert_universe_symbol req u =
     (case normalize_universe_source (Some (ur_market req)) of
        None \<Rightarrow> (Inr BadMarket, u)
      | Some market \<Rightarrow>
          (case upsert_symbol \<lparr>sy_ticker = ur_ticker req, sy_name = ur_name req, sy_market = market,
                   sy_in_universe = ur_in_universe req, sy_is_active = ur_is_active req, sy_is_blocked = ur_is_blocked req,
                   sy_status = status_value (ur_status req)\<rparr> u of
             (Inr row, u') \<Rightarrow> (Inr (SymbolOk (symbol_to_dict row)), u')
           | (Inl x, u') \<Rightarrow> ((if is_sql_error x then Inr (SymbolDbError (exn_str x)) else Inl x), u')))"

definition block_universe_symbol :: "string \<Rightarrow> bool \<Rightarrow> universe_db \<Rightarrow> symbol_reply py \<times> universe_db" where
  "block_universe_symbol ticker blocked u =
     (case set_blocked ticker blocked u of
        (Inr row, u') \<Rightarrow> (Inr (SymbolOk (symbol_to_dict row)), u')
      | (Inl x, u') \<Rightarrow>
          ((case x of SQLAlchemyError _ \<Rightarrow> Inr (SymbolDbError (exn_str x)) | KeyError _ \<Rightarrow> Inr SymbolNotFound | _ \<Rightarrow> Inl x), u'))"

text \<open>One aggregate query: the number of bars, the first and the last.\<close>

datatype range_reply = NoTicker | BadTimeframe string | RangeDbError string | BarRange nat "(instant \<times> instant) option"

definition candle_range :: "string list \<Rightarrow> string \<Rightarrow> string \<Rightarrow> candle_db \<Rightarrow> range_reply \<times> candle_db" where
  "candle_range timeframes ticker timeframe d =
     (let clean_ticker = py_strip ticker; clean_timeframe = py_strip timeframe in
      if clean_ticker = [] then (NoTicker, d)
      else if clean_timeframe \<notin> set timeframes then (BadTimeframe clean_timeframe, d)
      else if ca_fails d then (RangeDbError (exn_str db_error), ca_tick d)
      else
        (let times = map cn_time (rows_of clean_ticker clean_timeframe (ca_rows d)) in
         (if times = [] then BarRange 0 None else BarRange (length times) (Some (Min (set times), Max (set times))), ca_tick d)))"

section \<open>Startup\<close>

datatype candle_phase = NotStarted | Running nat | Finished candle_status

record startup_status =
  su_report :: universe_status_report
  su_message :: string
  su_migration :: "string + nat"
  su_coverage :: "coverage option"
  su_recompute :: "recompute_answer option"
  su_candles :: candle_phase

definition initial_bootstrap_timeframes :: "string list" where
  "initial_bootstrap_timeframes = [''1d'', ''3m'', ''5m'', ''15m'', ''60m'']"

definition empty_session :: session where
  "empty_session = \<lparr>se_loaded = [], se_new = []\<rparr>"

text \<open>After a first start: the tickers of the new universe.\<close>

definition startup_new :: "universe_db \<Rightarrow> string list py \<times> universe_db" where
  "startup_new u =
     (case list_symbols universe_only 0 20000 u of
        (Inl x, u1) \<Rightarrow> (Inl x, u1) | (Inr rows, u1) \<Rightarrow> (Inr (map sy_ticker rows), u1))"

text \<open>Later: coverage, recomputation and tickers in one session, then its commit.\<close>

definition startup_existing ::
  "config \<Rightarrow> universe_db \<times> candle_db \<Rightarrow> (coverage \<times> recompute_answer \<times> string list) py \<times> universe_db \<times> candle_db" where
  "startup_existing cfg s =
     (case candle_bootstrap_coverage initial_bootstrap_timeframes s of
        (Inl x, s1) \<Rightarrow> (Inl x, s1)
      | (Inr cov, s1) \<Rightarrow>
          (case recompute_active_universe cfg empty_session s1 of
             (Inl x, s2) \<Rightarrow> (Inl x, s2)
           | (Inr (ans, se), (u2, c2)) \<Rightarrow>
               (case query_symbols universe_only 20000 se u2 of
                  (Inl x, u3) \<Rightarrow> (Inl x, u3, c2)
                | (Inr rows, u3) \<Rightarrow>
                    (case commit_session se u3 of
                       (Inl x, u4) \<Rightarrow> (Inl x, u4, c2)
                     | (Inr _, u4) \<Rightarrow> (Inr (cov, ans, map sy_ticker rows), u4, c2)))))"

text \<open>\<open>lifespan\<close> up to the \<open>yield\<close>: the status and the tickers the bootstrap task is given.\<close>

definition lifespan_startup ::
  "('e \<Rightarrow> seed \<times> 'e) \<Rightarrow> bool \<Rightarrow> config_service \<times> universe_db \<times> candle_db \<times> background \<times> 'e \<Rightarrow>
    (startup_status \<times> string list) py \<times> config_service \<times> universe_db \<times> candle_db \<times> background \<times> 'e" where
  "lifespan_startup seed_fetcher enable_loops st =
     (case st of (sv, u, c, bg, e) \<Rightarrow>
      (case load_from_db sv of
         (Inl x, sv1) \<Rightarrow> (Inl x, sv1, u, c, bg, e)
       | (Inr _, sv1) \<Rightarrow>
           (case migrate_universe_source_labels u of (migration, u1) \<Rightarrow>
           (case bootstrap_universe_on_first_run seed_fetcher (u1, e) of (rep, u2, e1) \<Rightarrow>
             (let bg1 = (if enable_loops then snd (bg_start bg) else bg);
                  status = (\<lambda>suffix cov rc tickers.
                    \<lparr>su_report = rep, su_message = us_message rep @ suffix, su_migration = migration, su_coverage = cov,
                     su_recompute = rc, su_candles = Running (length tickers)\<rparr>)
              in if us_bootstrapped rep
                 then (case startup_new u2 of
                         (Inl x, u3) \<Rightarrow> (Inl x, sv1, u3, c, bg, e1)
                       | (Inr tickers, u3) \<Rightarrow>
                           (Inr (status '';candles_bootstrap_running'' None None tickers, tickers), sv1, u3, c, bg1, e1))
                 else (case startup_existing (sv_config sv1) (u2, c) of
                         (Inl x, u3, c3) \<Rightarrow> (Inl x, sv1, u3, c3, bg, e1)
                       | (Inr (cov, ans, tickers), u3, c3) \<Rightarrow>
                           (Inr (status '';candles_bootstrap_running_existing'' (Some cov) (Some ans) tickers, tickers),
                            sv1, u3, c3, bg1, e1)))))))"

text \<open>\<open>_run_post_seed_bootstrap\<close>: the bars, then a recomputation in a session of its own.\<close>

definition run_post_seed_bootstrap ::
  "string \<Rightarrow> string \<Rightarrow> ('e \<Rightarrow> unit py \<times> 'e) \<Rightarrow> 'e bar_fetch \<Rightarrow> config \<Rightarrow> string list \<Rightarrow> startup_status \<times> universe_db \<times> candle_db \<times> 'e \<Rightarrow>
    unit py \<times> startup_status \<times> universe_db \<times> candle_db \<times> 'e" where
  "run_post_seed_bootstrap app_key app_secret ensure fetch cfg tickers st =
     (case st of (su, u, c, e) \<Rightarrow>
      (case bootstrap_candles_on_first_run app_key app_secret ensure fetch tickers initial_bootstrap_timeframes (c, e) of
         (cs, c1, e1) \<Rightarrow>
           (let su1 = su\<lparr>su_candles := Finished cs\<rparr> in
            case recompute_active_universe cfg empty_session (u, c1) of
              (Inl x, u2, c2) \<Rightarrow> (Inl x, su1, u2, c2, e1)
            | (Inr (ans, se), u2, c2) \<Rightarrow>
                (case commit_session se u2 of
                   (Inl x, u3) \<Rightarrow> (Inl x, su1, u3, c2, e1)
                 | (Inr _, u3) \<Rightarrow>
                     (Inr (), su1\<lparr>su_recompute := Some ans,
                        su_message := su_message su @
                          (if ct_ok cs then '';candles='' @ show_nat (ct_inserted cs) else '';candles_failed:'' @ ct_message cs)\<rparr>,
                      u3, c2, e1)))))"

section \<open>The labels\<close>

definition row_ok :: "symbol \<Rightarrow> bool" where
  "row_ok r \<longleftrightarrow> sy_market r \<in> set valid_universe_sources \<and> (\<exists>s. sy_status r = status_value s)"

definition labels_ok :: "universe_db \<Rightarrow> bool" where
  "labels_ok u \<longleftrightarrow> (\<forall>r\<in>set (un_rows u). row_ok r)"

definition session_ok :: "session \<Rightarrow> bool" where
  "session_ok se \<longleftrightarrow> (\<forall>r\<in>set (se_loaded se) \<union> set (se_new se). row_ok r)"

lemma row_ok_simps [simp]:
  "row_ok (r\<lparr>sy_is_active := b\<rparr>) = row_ok r" "row_ok (r\<lparr>sy_is_blocked := b\<rparr>) = row_ok r"
  "row_ok (r\<lparr>sy_in_universe := b\<rparr>) = row_ok r" "row_ok (r\<lparr>sy_name := n\<rparr>) = row_ok r"
  by (simp_all add: row_ok_def)

lemma normalize_valid: "normalize_universe_source v = Some m \<Longrightarrow> m \<in> set valid_universe_sources"
  by (auto simp: normalize_universe_source_def Let_def split: option.splits if_splits)

lemma user_valid [simp]: "''USER'' \<in> set valid_universe_sources"
  by (simp add: valid_universe_sources_def)

lemma labels_ok_tick [simp]: "labels_ok (un_tick u) = labels_ok u"
  by (simp add: labels_ok_def)

lemma empty_session_ok [simp]: "session_ok empty_session" "session_ok \<lparr>se_loaded = [], se_new = []\<rparr>"
  by (simp_all add: session_ok_def empty_session_def)

lemma session_object_ok: "session_ok se \<Longrightarrow> row_ok b \<Longrightarrow> row_ok (session_object se b)"
  by (auto simp: session_object_def session_ok_def dest: find_symbol_Some split: option.split)

lemma query_symbols_ok:
  "query_symbols f n se u = (Inr rows, u') \<Longrightarrow> labels_ok u \<Longrightarrow> session_ok se \<Longrightarrow> \<forall>r\<in>set rows. row_ok r"
  using set_page [of 0 n "sort_key sy_ticker (filter (symbol_matches f) (un_rows u))"]
  by (fastforce simp: query_symbols_def list_symbols_def labels_ok_def intro: session_object_ok split: if_splits)

lemma keep_objects_ok: "\<forall>r\<in>set rows. row_ok r \<Longrightarrow> session_ok se \<Longrightarrow> session_ok (keep_objects rows se)"
proof -
  have "\<forall>r\<in>set (foldl (\<lambda>acc r. put_symbol r acc) l rows). row_ok r" if "\<forall>r\<in>set rows. row_ok r" "\<forall>r\<in>set l. row_ok r" for l
    using that
  proof (induction rows arbitrary: l)
    case (Cons r rows)
    have "set (put_symbol r l) \<subseteq> insert r (set l)" by (auto simp: put_symbol_def)
    then show ?case using Cons by (metis (no_types, lifting) foldl_Cons insert_iff list.set_intros(1) list.set_intros(2) subsetD)
  qed simp
  from this [of "se_loaded se"] show "\<forall>r\<in>set rows. row_ok r \<Longrightarrow> session_ok se \<Longrightarrow> session_ok (keep_objects rows se)"
    by (auto simp: session_ok_def keep_objects_def)
qed

text \<open>Well-formed: one row per ticker, known labels and states.\<close>

definition universe_good :: "universe_db \<Rightarrow> bool" where
  "universe_good u \<longleftrightarrow> universe_inv u \<and> labels_ok u"

lemma universe_good_tick [simp]: "universe_good (un_tick u) = universe_good u"
  by (simp add: universe_good_def)

lemma good_rows: "un_rows u' = un_rows u \<Longrightarrow> universe_good u' = universe_good u"
  by (simp add: universe_good_def universe_inv_def labels_ok_def)

lemma commit_session_good:
  assumes "commit_session se u = (r, u')" "session_ok se" "universe_good u"
  shows "universe_good u'"
  using assms
  by (cases rule: commit_session_cases [OF assms(1)])
    (auto simp: universe_good_def universe_inv_def labels_ok_def session_ok_def
       intro!: session_object_ok [unfolded session_ok_def])

lemma write_symbol_good:
  assumes "write_symbol f u = (r, u')" "universe_good u" "\<And>row. f (un_rows u) = Inr row \<Longrightarrow> row_ok row"
  shows "universe_good u'"
proof -
  have "set (put_symbol row l) \<subseteq> insert row (set l)" for row l by (auto simp: put_symbol_def)
  then have "labels_ok u'"
    using assms by (fastforce simp: write_symbol_def labels_ok_def universe_good_def Let_def split: if_splits sum.splits)
  then show ?thesis using write_symbol_inv assms(1,2) by (auto simp: universe_good_def)
qed

lemma recompute_ok:
  assumes "recompute_active_universe cfg se (u, c) = (Inr (a, se1), u1, c1)" "session_ok se" "labels_ok u"
  shows "session_ok se1"
proof -
  obtain eok where eok: "liquidity_threshold cfg = Inr eok"
    using assms(1) by (cases "liquidity_threshold cfg") (auto simp: recompute_active_universe_def)
  obtain q u2 where q: "query_symbols universe_only 20000 se u = (q, u2)" by (rule prod.exhaust)
  with assms(1) eok obtain rows where qr: "q = Inr rows" by (cases q) (auto simp: recompute_active_universe_def)
  obtain r c2 where rc: "recompute_rows (pf_scale 100000000 eok) rows \<lparr>rn_active = 0, rn_updated = 0, rn_insufficient = 0\<rparr> c = (r, c2)"
    by (rule prod.exhaust)
  with assms(1) eok q qr obtain out n where r: "r = Inr (out, n)" by (cases r) (auto simp: recompute_active_universe_def)
  have "\<forall>x\<in>set out. row_ok x"
    using recompute_rows_Inr [OF rc [unfolded r]] query_symbols_ok [OF q [unfolded qr] assms(3,2)] by auto
  moreover have "se1 = keep_objects out se" using assms(1) eok q qr rc r by (auto simp: recompute_active_universe_def)
  ultimately show ?thesis using keep_objects_ok assms(2) by simp
qed

text \<open>A recomputation and its commit, wherever they stand.\<close>

lemma recompute_commit_good:
  assumes "recompute_active_universe cfg se (u, c) = (r, u1, c1)" "session_ok se" "universe_good u"
  shows "universe_good u1" and "r = Inr (a, se1) \<Longrightarrow> session_ok se1"
    and "r = Inr (a, se1) \<Longrightarrow> universe_good (snd (commit_session se1 u1))"
proof -
  show g: "universe_good u1" using recompute_frame(1) [OF assms(1)] assms(3) good_rows by blast
  show s: "session_ok se1" if "r = Inr (a, se1)"
    using recompute_ok [OF assms(1) [unfolded that] assms(2)] assms(3) by (simp add: universe_good_def)
  show "universe_good (snd (commit_session se1 u1))" if "r = Inr (a, se1)"
    by (cases "commit_session se1 u1") (simp add: commit_session_good [OF _ s [OF that] g])
qed

section \<open>Every operation keeps the universe well formed\<close>

lemma upsert_good: "upsert_universe_symbol req u = (r, u') \<Longrightarrow> universe_good u \<Longrightarrow> universe_good u'"
proof (cases "normalize_universe_source (Some (ur_market req))")
  case (Some market)
  assume run: "upsert_universe_symbol req u = (r, u')" and g: "universe_good u"
  let ?row = "\<lparr>sy_ticker = ur_ticker req, sy_name = ur_name req, sy_market = market, sy_in_universe = ur_in_universe req,
    sy_is_active = ur_is_active req, sy_is_blocked = ur_is_blocked req, sy_status = status_value (ur_status req)\<rparr>"
  obtain q u1 where w: "write_symbol (\<lambda>_. Inr ?row) u = (q, u1)" by fastforce
  have "row_ok ?row" using normalize_valid [OF Some] by (auto simp: row_ok_def)
  then have "universe_good u1" using write_symbol_good [OF w g] by simp
  then show ?thesis using run Some w by (auto simp: upsert_universe_symbol_def upsert_symbol_def split: sum.splits)
qed (simp add: upsert_universe_symbol_def)

lemma block_good: "block_universe_symbol ticker b u = (r, u') \<Longrightarrow> universe_good u \<Longrightarrow> universe_good u'"
proof -
  assume run: "block_universe_symbol ticker b u = (r, u')" and g: "universe_good u"
  obtain q u1 where w: "set_blocked ticker b u = (q, u1)" by fastforce
  have "universe_good u1"
  proof (rule write_symbol_good [OF w [unfolded set_blocked_def] g])
    fix row
    assume "(case find_symbol ticker (un_rows u) of None \<Rightarrow> Inl (KeyError (''symbol not found: '' @ ticker))
      | Some row \<Rightarrow> Inr (row\<lparr>sy_is_blocked := b\<rparr>)) = Inr row"
    then show "row_ok row"
      using g by (auto simp: universe_good_def labels_ok_def dest: find_symbol_Some split: option.splits)
  qed
  moreover have "u' = u1" using run w by (auto simp: block_universe_symbol_def split: sum.splits)
  ultimately show ?thesis by simp
qed

lemma status_texts [simp]:
  "\<exists>s. status_value t = status_value s" "\<exists>s. ''normal'' = status_value s" "\<exists>s. ''exit_pending'' = status_value s"
  "\<exists>s. ''removed'' = status_value s"
  by (auto intro: exI [of _ NORMAL] exI [of _ EXIT_PENDING] exI [of _ REMOVED])

lemma labelled_items_ok: "labelled_items is = Inr items \<Longrightarrow> \<forall>i\<in>set items. si_market i \<in> set valid_universe_sources"
  by (induction "is" arbitrary: items) (auto simp: Let_def normalize_valid split: if_splits option.splits sum.splits)

lemma seed_target_ok: "seed_target seeds = Inr items \<Longrightarrow> \<forall>i\<in>set items. si_market i \<in> set valid_universe_sources"
  using by_ticker_set labelled_items_ok by (fastforce simp: seed_target_def split: sum.splits prod.splits if_splits)

lemma manual_items_ok: "\<forall>i\<in>set (manual_items rows ts). si_market i \<in> set valid_universe_sources"
  by (auto simp: manual_items_def split: option.splits dest: normalize_valid)

lemma seeded_symbols_row_ok: "seeded_symbols is = Inr rows \<Longrightarrow> \<forall>r\<in>set rows. row_ok r"
  by (induction "is" arbitrary: rows)
    (auto simp: Let_def seeded_symbol_def row_ok_def normalize_valid split: if_splits option.splits sum.splits)

lemma rebalanced_row_ok:
  assumes "\<forall>i\<in>set items. si_market i \<in> set valid_universe_sources" "row_ok r"
  shows "row_ok (rebalanced_row opn items r)"
proof (cases "target_item items (sy_ticker r)")
  case None
  then show ?thesis using assms(2) by (auto simp: rebalanced_row_def drop_row_def row_ok_def)
next
  case (Some i)
  then have "i \<in> set items" by (auto simp: target_item_def find_Some_iff)
  then show ?thesis using Some assms by (auto simp: rebalanced_row_def keep_row_def row_ok_def)
qed

lemma new_rows_ok:
  "\<forall>i\<in>set items. si_market i \<in> set valid_universe_sources \<Longrightarrow> \<forall>r\<in>set (new_rows items rows). row_ok r"
  by (auto simp: new_rows_def seeded_symbol_def row_ok_def)

lemma apply_target_good:
  assumes "apply_target cfg source items rows opn (u, c) = (r, u', c')" "universe_good u"
    and "\<forall>i\<in>set items. si_market i \<in> set valid_universe_sources" "\<forall>x\<in>set rows. row_ok x"
  shows "universe_good u'"
proof -
  let ?se = "\<lparr>se_loaded = map (rebalanced_row opn items) rows, se_new = new_rows items rows\<rparr>"
  have se: "session_ok ?se" using rebalanced_row_ok new_rows_ok assms(3,4) by (auto simp: session_ok_def)
  obtain r1 u1 c1 where rec: "recompute_active_universe cfg ?se (u, c) = (r1, u1, c1)" by (rule prod_cases3)
  note G = recompute_commit_good [OF rec se assms(2)]
  show ?thesis
  proof (cases r1)
    case (Inl x)
    then show ?thesis using assms(1) rec G(1) by (simp add: apply_target_def Let_def)
  next
    case (Inr p)
    obtain a se1 where p: "p = (a, se1)" by fastforce
    obtain r2 u2 where com: "commit_session se1 u1 = (r2, u2)" by fastforce
    have "u' = u2" using assms(1) rec Inr p com by (auto simp: apply_target_def Let_def split: sum.splits)
    then show ?thesis using G(3) Inr p com by (metis snd_conv)
  qed
qed

lemma rebalance_good:
  assumes "rebalance_universe cfg f tickers (u, c, d, e) = (r, u', c', d', e')" "universe_good u"
  shows "universe_good u'"
proof -
  obtain q u1 where q: "query_symbols all_symbols 20000 \<lparr>se_loaded = [], se_new = []\<rparr> u = (q, u1)" by fastforce
  have u1: "u1 = un_tick u" using query_symbols_frame [OF q] by blast
  obtain ps d1 where ps: "list_open_positions d = (ps, d1)" by fastforce
  show ?thesis
  proof (cases "(\<exists>x. q = Inl x) \<or> (\<exists>x. ps = Inl x)")
    case True
    then show ?thesis using assms q ps u1 by (cases q) (auto simp: rebalance_universe_def)
  next
    case False
    then obtain rows xs where rows: "q = Inr rows" and xs: "ps = Inr xs" by (cases q; cases ps) auto
    let ?man = "filter (\<lambda>t. t \<noteq> []) (map py_strip tickers)"
    obtain target source e1 where t: "(if ?man \<noteq> [] then (Inr (manual_items rows ?man), ''manual'', e)
        else (case f e of (seeds, e1) \<Rightarrow> (seed_target seeds, ''prd_index_constituents'', e1))) = (target, source, e1)"
      by (rule prod_cases3)
    have ok: "\<forall>i\<in>set items. si_market i \<in> set valid_universe_sources" if "target = Inr items" for items
      using t that manual_items_ok seed_target_ok by (auto split: if_splits prod.splits)
    have eq: "rebalance_universe cfg f tickers (u, c, d, e) =
        (case target of Inl err \<Rightarrow> (Inr (Inl err), u1, c, d1, e1)
         | Inr [] \<Rightarrow> (Inr (Inl NoTarget), u1, c, d1, e1)
         | Inr items \<Rightarrow> (case apply_target cfg source items rows (set (map pos_ticker xs)) (u1, c) of
             (r, u2, c2) \<Rightarrow> (catch_db r, u2, c2, d1, e1)))"
      by (simp only: rebalance_universe_def prod.case q rows ps xs sum.case Let_def t)
    have rok: "\<forall>x\<in>set rows. row_ok x"
      using query_symbols_ok [OF q [unfolded rows]] assms(2) by (simp add: universe_good_def)
    show ?thesis
    proof (cases "\<exists>i is. target = Inr (i # is)")
      case False
      then show ?thesis using assms eq u1 by (auto split: sum.splits list.splits)
    next
      case True
      then obtain i "is" where items: "target = Inr (i # is)" by blast
      obtain r1 u2 c2 where ap: "apply_target cfg source (i # is) rows (set (map pos_ticker xs)) (u1, c) = (r1, u2, c2)"
        by (rule prod_cases3)
      have "u' = u2" using assms(1) eq items ap by auto
      then show ?thesis using apply_target_good [OF ap _ ok [OF items] rok] assms(2) u1 by simp
    qed
  qed
qed

lemma config_change_good: "handle_config_changed cfg key (u, c) = (u', c') \<Longrightarrow> universe_good u \<Longrightarrow> universe_good u'"
proof -
  assume run: "handle_config_changed cfg key (u, c) = (u', c')" and g: "universe_good u"
  obtain r u1 c1 where rec: "recompute_active_universe cfg \<lparr>se_loaded = [], se_new = []\<rparr> (u, c) = (r, u1, c1)" by (rule prod_cases3)
  note G = recompute_commit_good [OF rec _ g]
  show ?thesis
  proof (cases r)
    case (Inl x)
    then show ?thesis using run rec g G(1) by (auto simp: handle_config_changed_def split: if_splits)
  next
    case (Inr p)
    obtain a se1 where "p = (a, se1)" by fastforce
    then show ?thesis using run rec g G(3) Inr by (auto simp: handle_config_changed_def split: if_splits)
  qed
qed

lemma migrated_row_ok: "row_ok r \<Longrightarrow> row_ok (migrated r)"
  by (auto simp: migrated_def row_ok_def Let_def split: option.splits dest: normalize_valid)

lemma migrate_good: "migrate_universe_source_labels u = (r, u') \<Longrightarrow> universe_good u \<Longrightarrow> universe_good u'"
proof -
  assume run: "migrate_universe_source_labels u = (r, u')" and g: "universe_good u"
  obtain q u1 where q: "query_symbols all_symbols 20000 \<lparr>se_loaded = [], se_new = []\<rparr> u = (q, u1)" by fastforce
  have u1: "u1 = un_tick u" using query_symbols_frame [OF q] by blast
  show ?thesis
  proof (cases q)
    case (Inl x)
    then show ?thesis using run q u1 g by (auto simp: migrate_universe_source_labels_def Let_def)
  next
    case (Inr rows)
    have "\<forall>x\<in>set (map migrated rows). row_ok x"
      using query_symbols_ok [OF q [unfolded Inr]] g migrated_row_ok by (auto simp: universe_good_def)
    then have "session_ok (keep_objects (map migrated rows) \<lparr>se_loaded = [], se_new = []\<rparr>)" by (rule keep_objects_ok) simp
    moreover obtain r2 u2 where com: "commit_session (keep_objects (map migrated rows) \<lparr>se_loaded = [], se_new = []\<rparr>) u1 = (r2, u2)"
      by fastforce
    ultimately have "universe_good u2" using commit_session_good g u1 by fastforce
    moreover have "u' = u1 \<or> u' = u2"
      using run q Inr com by (auto simp: migrate_universe_source_labels_def Let_def split: if_splits sum.splits)
    ultimately show ?thesis using g u1 by auto
  qed
qed

lemma bootstrap_good: "bootstrap_universe_on_first_run f (u, e) = (rep, u', e') \<Longrightarrow> universe_good u \<Longrightarrow> universe_good u'"
proof -
  assume run: "bootstrap_universe_on_first_run f (u, e) = (rep, u', e')" and g: "universe_good u"
  have com: "universe_good u2"
    if "seeded_symbols is = Inr rows" "commit_session \<lparr>se_loaded = [], se_new = rows\<rparr> (un_tick u) = (q, u2)" for "is" rows q u2
    using commit_session_good [OF that(2)] seeded_symbols_row_ok [OF that(1)] g by (simp add: session_ok_def)
  show ?thesis
    using run g com
    by (auto simp: bootstrap_universe_on_first_run_def Let_def count_symbols_def split: if_splits sum.splits prod.splits)
qed

lemma coverage_frame: "candle_bootstrap_coverage tfs (u, c) = (r, u', c') \<Longrightarrow> un_rows u' = un_rows u"
proof -
  have counts: "fst (snd (coverage_counts tfs (u, c))) = u" for tfs u c
    by (induction tfs "(u, c)" arbitrary: u c rule: coverage_counts.induct) (auto split: sum.splits prod.splits)
  assume "candle_bootstrap_coverage tfs (u, c) = (r, u', c')"
  then show ?thesis using counts
    by (auto simp: candle_bootstrap_coverage_def count_symbols_def split: if_splits sum.splits prod.splits) (metis fst_conv snd_conv un_tick_simps(1))+
qed


lemma startup_existing_good:
  assumes "startup_existing cfg (u, c) = (r, u', c')" "universe_good u"
  shows "universe_good u'"
proof -
  obtain r1 u1 c1 where cov: "candle_bootstrap_coverage initial_bootstrap_timeframes (u, c) = (r1, u1, c1)" by (rule prod_cases3)
  have g1: "universe_good u1" using coverage_frame [OF cov] assms(2) good_rows by blast
  obtain r2 u2 c2 where rec: "recompute_active_universe cfg empty_session (u1, c1) = (r2, u2, c2)" by (rule prod_cases3)
  note G = recompute_commit_good [OF rec empty_session_ok(1) g1]
  show ?thesis
  proof (cases "(\<exists>x. r1 = Inl x) \<or> (\<exists>x. r2 = Inl x)")
    case True
    then show ?thesis using assms(1) cov rec g1 G(1) by (cases r1) (auto simp: startup_existing_def)
  next
    case False
    then obtain cv a se where r: "r1 = Inr cv" "r2 = Inr (a, se)" by (cases r1; cases r2) auto
    obtain q u3 where q: "query_symbols universe_only 20000 se u2 = (q, u3)" by fastforce
    have g3: "universe_good u3" using query_symbols_frame [OF q] G(1) by simp
    obtain w u4 where com: "commit_session se u3 = (w, u4)" by fastforce
    have "universe_good u4" by (rule commit_session_good [OF com G(2) [OF r(2)] g3])
    then show ?thesis using assms(1) cov rec r q com g3 by (auto simp: startup_existing_def split: sum.splits)
  qed
qed

lemma startup_new_frame: "startup_new u = (r, u') \<Longrightarrow> u' = un_tick u"
  by (auto simp: startup_new_def list_symbols_def split: if_splits)

lemma lifespan_good:
  assumes "lifespan_startup f en (sv, u, c, bg, e) = (r, sv', u', c', bg', e')" "universe_good u"
  shows "universe_good u'"
proof -
  obtain r0 sv1 where l: "load_from_db sv = (r0, sv1)" by fastforce
  obtain m u1 where m: "migrate_universe_source_labels u = (m, u1)" by fastforce
  have g1: "universe_good u1" by (rule migrate_good [OF m assms(2)])
  obtain rep u2 e1 where b: "bootstrap_universe_on_first_run f (u1, e) = (rep, u2, e1)" by (rule prod_cases3)
  have g2: "universe_good u2" by (rule bootstrap_good [OF b g1])
  obtain r3 u3 where n: "startup_new u2 = (r3, u3)" by fastforce
  have g3: "universe_good u3" using startup_new_frame [OF n] g2 by simp
  obtain r4 u4 c4 where x: "startup_existing (sv_config sv1) (u2, c) = (r4, u4, c4)" by (rule prod_cases3)
  have g4: "universe_good u4" by (rule startup_existing_good [OF x g2])
  have "u' \<in> {u, u3, u4}"
    using assms(1) l m b n x by (auto simp: lifespan_startup_def Let_def split: sum.splits if_splits prod.splits)
  then show ?thesis using assms(2) g3 g4 by auto
qed

lemma post_seed_good:
  assumes "run_post_seed_bootstrap k sc ensure fetch cfg tickers (su, u, c, e) = (r, su', u', c', e')" "universe_good u"
  shows "universe_good u'"
proof -
  obtain cs c1 e1 where b: "bootstrap_candles_on_first_run k sc ensure fetch tickers initial_bootstrap_timeframes (c, e) = (cs, c1, e1)"
    by (rule prod_cases3)
  obtain r2 u2 c2 where rec: "recompute_active_universe cfg empty_session (u, c1) = (r2, u2, c2)" by (rule prod_cases3)
  note G = recompute_commit_good [OF rec empty_session_ok(1) assms(2)]
  show ?thesis
  proof (cases r2)
    case (Inl x)
    then show ?thesis using assms(1) b rec G(1) by (simp add: run_post_seed_bootstrap_def Let_def)
  next
    case (Inr p)
    obtain a se where p: "p = (a, se)" by fastforce
    obtain w u3 where com: "commit_session se u2 = (w, u3)" by fastforce
    have "universe_good u3" using G(3) Inr p com by (metis snd_conv)
    then show ?thesis using assms(1) b rec Inr p com by (auto simp: run_post_seed_bootstrap_def Let_def split: sum.splits)
  qed
qed

text \<open>
  The changes a running application makes to its universe, in any order and with any failures: the
  routes, a rebalance over any seeds, a changed threshold, a restart, the bootstrap task.
\<close>

inductive universe_change :: "universe_db \<Rightarrow> universe_db \<Rightarrow> bool" where
  upserted: "upsert_universe_symbol req u = (r, u') \<Longrightarrow> universe_change u u'"
| blocked: "block_universe_symbol ticker b u = (r, u') \<Longrightarrow> universe_change u u'"
| rebalanced: "rebalance_universe cfg (\<lambda>e. (seeds, e)) tickers (u, c, d, ()) = (r, u', c', d', ()) \<Longrightarrow> universe_change u u'"
| reconfigured: "handle_config_changed cfg key (u, c) = (u', c') \<Longrightarrow> universe_change u u'"
| restarted: "lifespan_startup (\<lambda>e. (seeds, e)) en (sv, u, c, bg, ()) = (r, sv', u', c', bg', ()) \<Longrightarrow> universe_change u u'"
| seeded: "run_post_seed_bootstrap k sc ensure fetch cfg tickers (su, u, c, e :: nat) = (r, su', u', c', e') \<Longrightarrow> universe_change u u'"

lemma universe_change_good: "universe_change u u' \<Longrightarrow> universe_good u \<Longrightarrow> universe_good u'"
  by (induction rule: universe_change.induct)
    (blast intro: upsert_good block_good rebalance_good config_change_good lifespan_good post_seed_good)+

lemma universe_changes_good: "universe_change\<^sup>*\<^sup>* u u' \<Longrightarrow> universe_good u \<Longrightarrow> universe_good u'"
  by (induction rule: rtranclp_induct) (auto intro: universe_change_good)

text \<open>A migration that is answered leaves known labels only.\<close>

lemma migrated_valid: "sy_market (migrated r) \<in> set valid_universe_sources"
  by (auto simp: migrated_def Let_def normalize_valid split: option.splits)

lemma migration_labels:
  assumes "migrate_universe_source_labels u = (Inr n, u')" "length (un_rows u) \<le> 20000" "universe_inv u"
  shows "un_rows u' = map migrated (un_rows u)"
proof -
  let ?se = "\<lparr>se_loaded = [], se_new = []\<rparr>"
  obtain q u1 where q: "query_symbols all_symbols 20000 ?se u = (q, u1)" by fastforce
  with assms(1) obtain rows where qr: "q = Inr rows" by (cases q) (auto simp: migrate_universe_source_labels_def Let_def)
  have rows: "rows = sort_key sy_ticker (un_rows u)" "u1 = un_tick u"
    using query_symbols_Inr [OF q [unfolded qr] assms(2)] by (simp_all add: map_idI)
  have tick: "sy_ticker (migrated r) = sy_ticker r" for r by (simp add: migrated_def Let_def)
  show ?thesis
  proof (cases "filter (\<lambda>r. migrated r \<noteq> r) rows = []")
    case True
    then have "u' = un_tick u" using assms(1) q qr rows by (auto simp: migrate_universe_source_labels_def Let_def)
    then have "un_rows u' = un_rows u" by simp
    moreover have "\<forall>r\<in>set (un_rows u). migrated r = r" using True rows by (auto simp: filter_empty_conv)
    ultimately show ?thesis by (simp add: map_idI)
  next
    case False
    let ?se1 = "keep_objects (map migrated rows) ?se"
    obtain w u2 where com: "commit_session ?se1 u1 = (w, u2)" by fastforce
    have w: "w = Inr ()" "u' = u2" using assms(1) q qr False com by (auto simp: migrate_universe_source_labels_def Let_def split: sum.splits)
    have d: "distinct (map sy_ticker rows)"
      using assms(3) rows(1) unfolding universe_inv_def by (metis mset_map mset_eq_imp_distinct_iff mset_sort)
    have obj: "session_object ?se1 b = migrated b" if "b \<in> set (un_rows u)" for b
    proof -
      have "find_symbol (sy_ticker b) (map migrated rows) = Some (migrated b)"
        using find_symbol_distinct [OF d, of b] that rows(1) by (simp add: find_symbol_map tick)
      then show ?thesis using d by (simp add: session_object_keep tick comp_def)
    qed
    have "un_rows u2 = map (session_object ?se1) (un_rows u)"
      using com [unfolded w(1)] rows(2) by (auto elim!: commit_session_cases simp: db_error_def)
    then show ?thesis using obj w(2) by simp
  qed
qed

section \<open>Properties\<close>

text \<open>
  C16: a startup repairs the labels and nothing breaks them again. Let the table have one row per ticker, at
  most 20000 of them, each in one of the four states and with whatever source label. If the start of the
  application is completed and its migration answered, every symbol has one of the three source labels
  after it, and after whatever routes, rebalances, settings, bootstraps and restarts follow, with whatever
  failures of the database; and there is still one row per ticker, in one of the four states.
\<close>

theorem startup_repairs_the_labels_for_good:
  assumes "lifespan_startup f en (sv, u, c, bg, e) = (Inr (st, tickers), sv1, u1, c1, bg1, e1)" "su_migration st = Inr n"
    and "universe_inv u" "length (un_rows u) \<le> 20000" "\<forall>r\<in>set (un_rows u). \<exists>s. sy_status r = status_value s"
    and "universe_change\<^sup>*\<^sup>* u1 u2"
  shows "universe_inv u2 \<and>
    (\<forall>r\<in>set (un_rows u2). sy_market r \<in> {''KOSPI200'', ''KOSDAQ150'', ''USER''} \<and> universe_status_of (sy_status r) \<noteq> None)"
proof -
  obtain r0 sv2 where l: "load_from_db sv = (r0, sv2)" by fastforce
  obtain m u3 where m: "migrate_universe_source_labels u = (m, u3)" by fastforce
  obtain rep u4 e4 where b: "bootstrap_universe_on_first_run f (u3, e) = (rep, u4, e4)" by (rule prod_cases3)
  obtain r5 u5 where nw: "startup_new u4 = (r5, u5)" by fastforce
  obtain r6 u6 c6 where x: "startup_existing (sv_config sv2) (u4, c) = (r6, u6, c6)" by (rule prod_cases3)
  have eq: "m = Inr n \<and> u1 \<in> {u5, u6}"
    using assms(1,2) l m b nw x by (auto simp: lifespan_startup_def Let_def split: sum.splits if_splits)
  have "un_rows u3 = map migrated (un_rows u)" using migration_labels assms(3,4) m eq by blast
  moreover have "sy_ticker (migrated r) = sy_ticker r" "sy_status (migrated r) = sy_status r" for r
    by (simp_all add: migrated_def Let_def)
  ultimately have "universe_good u3"
    using assms(3,5) migrated_valid by (auto simp: universe_good_def universe_inv_def labels_ok_def row_ok_def comp_def)
  then have g4: "universe_good u4" by (rule bootstrap_good [OF b])
  have "universe_good u5" using startup_new_frame [OF nw] g4 by simp
  moreover have "universe_good u6" by (rule startup_existing_good [OF x g4])
  ultimately have "universe_good u1" using eq by auto
  then have "universe_good u2" using universe_changes_good assms(6) by blast
  then show ?thesis by (auto simp: universe_good_def labels_ok_def row_ok_def valid_universe_sources_def)
qed

definition old_symbols :: universe_db where
  "old_symbols = \<lparr>un_rows = [\<lparr>sy_ticker = ''A'', sy_name = ''A'', sy_market = ''kospi'', sy_in_universe = True, sy_is_active = True,
     sy_is_blocked = False, sy_status = ''normal''\<rparr>], un_faults = []\<rparr>"

definition old_service :: config_service where
  "old_service = \<lparr>sv_config = default_values, sv_db = None, sv_hook_calls = []\<rparr>"

theorem startup_repairs_the_labels_for_good_witness:
  "\<exists>st tickers sv1 u1 c1 bg1 e1 u2 r. lifespan_startup (\<lambda>e. (Inl ''down'', e)) False
      (old_service, old_symbols, sample_candles, background_init, ()) = (Inr (st, tickers), sv1, u1, c1, bg1, e1) \<and>
     block_universe_symbol ''A'' True u1 = (r, u2) \<and> universe_inv u2"
proof -
  have n: "normalize_universe_source (Some ''kospi'') = Some ''KOSPI200''" by code_simp
  have th: "\<exists>x. liquidity_threshold default_values = Inr x"
  proof -
    have "py_float_of ''50'' = Some (Fin 50)" by (simp add: text_eval)
    then show ?thesis by (simp add: liquidity_threshold_def config_get_def default_values_def)
  qed
  then obtain x where x: "liquidity_threshold default_values = Inr x" by blast
  let ?row = "\<lparr>sy_ticker = ''A'', sy_name = ''A'', sy_market = ''KOSPI200'', sy_in_universe = True, sy_is_active = True,
     sy_is_blocked = False, sy_status = ''normal''\<rparr>"
  have m: "migrate_universe_source_labels old_symbols = (Inr 1, \<lparr>un_rows = [?row], un_faults = []\<rparr>)"
    by (simp add: migrate_universe_source_labels_def old_symbols_def query_symbols_def list_symbols_def page_def migrated_def n
        commit_session_def keep_objects_def put_symbol_def find_symbol_def session_object_def un_tick_def Let_def)
  let ?u = "\<lparr>un_rows = [?row], un_faults = []\<rparr>"
  have tick: "un_tick ?u = ?u" "ca_tick sample_candles = sample_candles" by (simp_all add: un_tick_def ca_tick_def sample_candles_def)
  have b: "\<exists>rep. bootstrap_universe_on_first_run (\<lambda>e. (Inl ''down'', e)) (?u, ()) = (rep, ?u, ()) \<and> \<not> us_bootstrapped rep"
    by (simp add: bootstrap_universe_on_first_run_def count_symbols_def tick)
  have cov: "\<exists>cv. candle_bootstrap_coverage initial_bootstrap_timeframes (?u, sample_candles) = (Inr cv, ?u, sample_candles)"
    by (simp add: candle_bootstrap_coverage_def initial_bootstrap_timeframes_def count_symbols_def tick) (simp add: sample_candles_def)
  have q: "query_symbols f 20000 se ?u = (Inr (map (session_object se) (filter (symbol_matches f) [?row])), ?u)" for f se
    by (simp add: query_symbols_def list_symbols_def page_def tick)
  have rec: "\<exists>ans se. recompute_active_universe default_values empty_session (?u, sample_candles) = (Inr (ans, se), ?u, sample_candles) \<and> se_new se = []"
    by (simp add: recompute_active_universe_def x q empty_session_def check_row_def frozen_def list_recent_def tick)
       (simp add: sample_candles_def)
  have com: "\<exists>u'. commit_session se ?u = (Inr (), u')" if "se_new se = []" for se
    using that by (simp add: commit_session_def tick)
  have "\<exists>r u' c'. startup_existing default_values (?u, sample_candles) = (Inr r, u', c')"
    using cov rec com q by (fastforce simp: startup_existing_def)
  then obtain cv ans tk u4 c4 where ex: "startup_existing default_values (?u, sample_candles) = (Inr (cv, ans, tk), u4, c4)"
    by (metis prod.exhaust)
  have l: "load_from_db old_service = (Inr (), old_service)" by (simp add: load_from_db_def old_service_def)
  obtain rep where rep: "bootstrap_universe_on_first_run (\<lambda>e. (Inl ''down'', e)) (?u, ()) = (rep, ?u, ())" "\<not> us_bootstrapped rep"
    using b by blast
  have cfg: "sv_config old_service = default_values" by (simp add: old_service_def)
  obtain st tickers u1 c1 where run: "lifespan_startup (\<lambda>e. (Inl ''down'', e)) False
      (old_service, old_symbols, sample_candles, background_init, ()) = (Inr (st, tickers), old_service, u1, c1, background_init, ())"
    and mig: "su_migration st = Inr 1"
    by (simp add: lifespan_startup_def l m rep ex cfg Let_def)
  obtain r u2 where blk: "block_universe_symbol ''A'' True u1 = (r, u2)" by fastforce
  have chg: "universe_change\<^sup>*\<^sup>* u1 u2" by (rule r_into_rtranclp) (rule universe_change.blocked [OF blk])
  have inv: "universe_inv old_symbols" "length (un_rows old_symbols) \<le> 20000"
      "\<forall>r\<in>set (un_rows old_symbols). \<exists>s. sy_status r = status_value s"
    by (simp_all add: old_symbols_def universe_inv_def)
  from startup_repairs_the_labels_for_good [OF run mig inv chg] have "universe_inv u2" by blast
  with run blk show ?thesis by blast
qed

end
