(* ===== verification/Application.thy ===== *)
theory Application
  imports Live_Preflight Web_Auth Web_Backtest Web_Records Web_Universe Telegram Daily_Report
begin

text \<open>
  The application as \<open>main.py\<close>, \<open>app/bootstrap/core_services.py\<close> and \<open>app/api/routes/system_core.py\<close> put it
  together: one state that holds the state of every service, the objects the services share (one
  configuration, one safety manager, one table of each kind), the routes over it, and a step for
  everything that can change it: a request, a cycle of the background loop, a step of a task.
  A cycle is one step: requests answered while a cycle waits for the broker are not interleaved
  with it. Day numbers and the text of an audit event are the time zone's and the format's,
  parameters; what a Telegram delivery answers is an argument of the call.
\<close>

section \<open>The services\<close>

record 'b fixtures =
  fx_broker :: "'b broker"
  fx_token :: "'b \<Rightarrow> string py \<times> 'b"
  fx_ticker :: string
  fx_mode :: string
  fx_civil :: "instant \<Rightarrow> datetime"
  fx_day :: "instant \<Rightarrow> int"
  fx_strategies :: "strategy list"
  fx_auth :: auth_params
  fx_schedule :: schedule_params
  fx_sink :: bool
  fx_detail :: "audit_event \<Rightarrow> string option"

record 'b app =
  app_auth :: auth
  app_audit :: audit_db
  app_service :: config_service
  app_sys :: "'b system"
  app_co :: coordinator
  app_bg :: background
  app_account :: account_db
  app_backtests :: backtests
  app_scheduler :: scheduler
  app_reporter :: reporter
  app_startup :: "(startup_status \<times> string list) option"

text \<open>The tables the services find.\<close>

record databases =
  db_config :: config_db
  db_orders :: odb
  db_candles :: candle_db
  db_universe :: universe_db
  db_account :: account_db
  db_audit :: audit_db

text \<open>\<open>build_core_services\<close>: every service in its first state, over shared ones.\<close>

definition build_core_services :: "bool \<Rightarrow> databases \<Rightarrow> 'b \<Rightarrow> 'b app" where
  "build_core_services has_sink db b =
     \<lparr>app_auth = auth_init, app_audit = db_audit db,
      app_service = \<lparr>sv_config = default_values, sv_db = Some (db_config db), sv_hook_calls = []\<rparr>,
      app_sys = \<lparr>ss_venue = ((0, b), 0), ss_candles = db_candles db, ss_safety = safety_init has_sink 200,
                 ss_odb = db_orders db, ss_queue = [], ss_slots = (\<lambda>_. None), ss_universe = db_universe db,
                 ss_maint = maintenance_init, ss_sync = time_sync_init\<rparr>,
      app_co = coordinator_init, app_bg = background_init, app_account = db_account db,
      app_backtests = backtests_init 200, app_scheduler = scheduler_init, app_reporter = reporter_init,
      app_startup = None\<rparr>"

text \<open>The loops read the one configuration of the configuration service.\<close>

definition wiring_of :: "'b fixtures \<Rightarrow> 'b app \<Rightarrow> wiring" where
  "wiring_of fx a = \<lparr>wi_mode = mode_of (fx_mode fx), wi_config = sv_config (app_service a), wi_civil = fx_civil fx,
     wi_strategies = fx_strategies fx\<rparr>"

section \<open>Settings\<close>

text \<open>
  What a write of a setting reaches: the service and, through the hook that \<open>main.py\<close> gave it, the
  universe and the bars. The hook runs after an accepted write.
\<close>

type_synonym settings_state = "config_service \<times> universe_db \<times> candle_db"

definition settings_of :: "'b app \<Rightarrow> settings_state" where
  "settings_of a = (app_service a, ss_universe (app_sys a), ss_candles (app_sys a))"

definition put_settings :: "settings_state \<Rightarrow> 'b app \<Rightarrow> 'b app" where
  "put_settings s a = (case s of (sv, u, c) \<Rightarrow> a\<lparr>app_service := sv, app_sys := (app_sys a)\<lparr>ss_universe := u, ss_candles := c\<rparr>\<rparr>)"

definition hooked_set :: "int \<Rightarrow> string \<Rightarrow> string \<Rightarrow> string \<Rightarrow> settings_state \<Rightarrow> unit py \<times> settings_state" where
  "hooked_set now who key value s =
     (case s of (sv, u, c) \<Rightarrow>
      (case service_set now key value who sv of
         (Inl x, sv') \<Rightarrow> (Inl x, sv', u, c)
       | (Inr _, sv') \<Rightarrow> (case handle_config_changed (sv_config sv') key (u, c) of (u', c') \<Rightarrow> (Inr (), sv', u', c'))))"

definition get_config :: "'b app \<Rightarrow> (string \<times> string) list" where
  "get_config a = config_get_all (sv_config (app_service a))"

text \<open>\<open>POST /config\<close>: nobody is asked for a session; a refused value is an internal error.\<close>

definition set_config :: "int \<Rightarrow> string \<Rightarrow> string \<Rightarrow> string \<Rightarrow> 'b app \<Rightarrow> unit py \<times> 'b app" where
  "set_config now key value changed_by a =
     (case hooked_set now changed_by key value (settings_of a) of (r, s) \<Rightarrow> (r, put_settings s a))"

text \<open>The dashboard's route, behind the guard, over the hooked service.\<close>

definition dashboard_set :: "int \<Rightarrow> string \<Rightarrow> string \<Rightarrow> 'b app \<Rightarrow> (string + unit) py \<times> 'b app" where
  "dashboard_set now key value a =
     (case set_config now key value ''webui'' a of
        (Inr _, a') \<Rightarrow> (Inr (Inr ()), a')
      | (Inl x, a') \<Rightarrow> ((if is_key_or_value_error x then Inr (Inl (exn_str x)) else Inl x), a'))"

section \<open>The runtime\<close>

datatype metrics_extra = TickerCounts nat nat nat | LastBackfill "payload option"

definition runtime_metrics_snapshot :: "maintenance \<Rightarrow> (string \<times> metrics_extra) list" where
  "runtime_metrics_snapshot m =
     [(''ticker_counts'', TickerCounts (mt_trading m) (mt_tracking m) (mt_universe m)),
      (''post_market_backfill'', LastBackfill (mt_last_backfill m))]"

record runtime_view =
  rv_entry_paused :: bool
  rv_all_paused :: bool
  rv_halted :: bool
  rv_halt_reason :: "string option"
  rv_halted_at :: "instant option"
  rv_events :: "runtime_event list"
  rv_health :: "(string \<times> metrics_extra health_value) list"
  rv_background :: bg_status
  rv_pending :: "(string \<times> string) option"

definition runtime_snapshot :: "datetime \<Rightarrow> 'b app \<Rightarrow> runtime_view" where
  "runtime_snapshot now a =
     (let sf = ss_safety (app_sys a); rt = sf_runtime sf in
      \<lparr>rv_entry_paused = entry_paused rt, rv_all_paused = all_paused rt, rv_halted = halted rt,
       rv_halt_reason = halt_reason rt, rv_halted_at = halted_at rt, rv_events = latest_events 20 sf,
       rv_health = health_snapshot 5 now (Some (Inr (runtime_metrics_snapshot (ss_maint (app_sys a))))) (app_co a),
       rv_background = background_status (app_bg a),
       rv_pending = map_option (\<lambda>p. (pc_key p, pc_value p)) (pending_change rt)\<rparr>)"

definition run_cycle_route :: "'b fixtures \<Rightarrow> instant \<Rightarrow> cycle_clock \<Rightarrow> 'b app \<Rightarrow> cycle_report \<times> 'b app" where
  "run_cycle_route fx now ck a =
     (case run_cycle (wired_env (fx_broker fx) (wiring_of fx a) now) ck (app_co a, app_sys a) of
        (rep, co, s) \<Rightarrow> (rep, a\<lparr>app_co := co, app_sys := s\<rparr>))"

definition start_loops :: "'b app \<Rightarrow> (bool \<times> bool) \<times> 'b app" where
  "start_loops a =
     (case bg_start (app_bg a) of (started, bg) \<Rightarrow> ((started, bs_running (background_status bg)), a\<lparr>app_bg := bg\<rparr>))"

definition stop_loops :: "instant \<Rightarrow> real \<Rightarrow> 'b app \<Rightarrow> (bool \<times> bool) \<times> 'b app" where
  "stop_loops now duration a =
     (case bg_stop now duration (app_bg a) of (stopped, bg) \<Rightarrow> ((stopped, bs_running (background_status bg)), a\<lparr>app_bg := bg\<rparr>))"

text \<open>One round of the background loop: it goes on while it has a task.\<close>

definition background_cycle :: "'b fixtures \<Rightarrow> instant \<Rightarrow> cycle_clock \<Rightarrow> real \<Rightarrow> bool \<Rightarrow> 'b app \<Rightarrow> 'b app" where
  "background_cycle fx now ck duration sleeps a =
     (if bg_task (app_bg a) \<in> {Scheduled, Asleep}
      then (case run_cycle_route fx now ck (a\<lparr>app_bg := begin_cycle now (app_bg a)\<rparr>) of
              (rep, a') \<Rightarrow> a'\<lparr>app_bg := finish_cycle now duration (Inr (cr_error rep)) sleeps (app_bg a')\<rparr>)
      else a)"

section \<open>Live checks\<close>

definition preflight_env_of :: "'b fixtures \<Rightarrow> 'b app \<Rightarrow> 'b system preflight_env" where
  "preflight_env_of fx a = wired_preflight (fx_mode fx) (fx_token fx) (fx_ticker fx) (fx_broker fx) (app_bg a)"

definition live_connectivity_check :: "'b fixtures \<Rightarrow> string option \<Rightarrow> 'b app \<Rightarrow> connectivity \<times> 'b app" where
  "live_connectivity_check fx ticker a =
     (case wired_connectivity (fx_token fx) (fx_ticker fx) (fx_broker fx) ticker (app_sys a) of (r, s) \<Rightarrow> (r, a\<lparr>app_sys := s\<rparr>))"

definition live_preflight_check :: "'b fixtures \<Rightarrow> string \<Rightarrow> string option \<Rightarrow> 'b app \<Rightarrow> preflight_report py \<times> 'b app" where
  "live_preflight_check fx stage ticker a =
     (case preflight (preflight_env_of fx a) stage ticker (app_sys a) of (r, s) \<Rightarrow> (r, a\<lparr>app_sys := s\<rparr>))"

definition live_rehearsal ::
  "'b fixtures \<Rightarrow> instant \<Rightarrow> (nat \<Rightarrow> cycle_clock) \<Rightarrow> string \<Rightarrow> string option \<Rightarrow> int \<Rightarrow> 'b app \<Rightarrow> rehearsal_report py \<times> 'b app" where
  "live_rehearsal fx now clock stage ticker cycles a =
     (case run_rehearsal (preflight_env_of fx a) (wired_env (fx_broker fx) (wiring_of fx a) now) clock stage ticker cycles
             (app_co a, app_sys a) of
        (r, co, s) \<Rightarrow> (r, a\<lparr>app_co := co, app_sys := s\<rparr>))"

section \<open>Performance and reports\<close>

definition on_account :: "(account_db \<Rightarrow> 'r \<times> account_db) \<Rightarrow> 'b app \<Rightarrow> 'r \<times> 'b app" where
  "on_account f a = (case f (app_account a) of (r, d) \<Rightarrow> (r, a\<lparr>app_account := d\<rparr>))"

definition add_performance_snapshot ::
  "instant \<Rightarrow> string \<Rightarrow> real \<Rightarrow> real \<Rightarrow> real \<Rightarrow> real \<Rightarrow> int \<Rightarrow> 'b app \<Rightarrow> (string + account_snapshot) \<times> 'b app" where
  "add_performance_snapshot time typ total_assets cash stock_value margin_used open_positions =
     on_account (record_snapshot time typ total_assets cash stock_value margin_used open_positions)"

definition add_cash_flow :: "instant \<Rightarrow> real \<Rightarrow> real \<Rightarrow> real \<Rightarrow> string \<Rightarrow> 'b app \<Rightarrow> (string + cash_flow) \<times> 'b app" where
  "add_cash_flow time amount total_before total_after detected_by =
     on_account (record_cash_flow time amount total_before total_after detected_by)"

definition detect_flows_route :: "instant option \<Rightarrow> instant option \<Rightarrow> real option \<Rightarrow> 'b app \<Rightarrow> detection \<times> 'b app" where
  "detect_flows_route start until min_amount = on_account (detect_cash_flows 10000 start until min_amount)"

definition list_performance_snapshots ::
  "instant option \<Rightarrow> instant option \<Rightarrow> string option \<Rightarrow> int \<Rightarrow> int \<Rightarrow> 'b app \<Rightarrow> (string + account_snapshot listing) \<times> 'b app" where
  "list_performance_snapshots start until typ offset limit =
     on_account (list_snapshot_records start until typ (max offset 0) (nat (max 1 (min limit 1000))))"

definition list_performance_cash_flows ::
  "instant option \<Rightarrow> instant option \<Rightarrow> string option \<Rightarrow> int \<Rightarrow> int \<Rightarrow> 'b app \<Rightarrow> (string + cash_flow listing) \<times> 'b app" where
  "list_performance_cash_flows start until who offset limit =
     on_account (list_cash_flow_records start until who (max offset 0) (nat (max 1 (min limit 1000))))"

definition get_twr_report :: "instant option \<Rightarrow> instant option \<Rightarrow> 'b app \<Rightarrow> (string + twr_answer) \<times> 'b app" where
  "get_twr_report start until = on_account (twr_report start until)"

text \<open>The paper report sees the journal of the safety manager and the counts of the coordinator.\<close>

definition paper_service_of :: "'b app \<Rightarrow> paper_service" where
  "paper_service_of a =
     \<lparr>pr_criteria = default_criteria, pr_initial_capital = 10000000, pr_safety = Some (ss_safety (app_sys a)),
      pr_health = Some (cycle_count (co_metrics (app_co a)), error_count (co_metrics (app_co a)))\<rparr>"

definition paper_report_route :: "'b fixtures \<Rightarrow> 'b app \<Rightarrow> (string + paper_report) \<times> 'b app" where
  "paper_report_route fx a = on_account (build_paper_report (fx_day fx) (paper_service_of a)) a"

definition summary_query :: strategy_query where
  "summary_query = \<lparr>sq_start = None, sq_end = None, sq_strategy_id = None, sq_query = None, sq_offset = 0, sq_limit = 8,
     sq_min_trades = 1, sq_sort_by = ''total_pnl'', sq_sort_order = ''desc''\<rparr>"

text \<open>The reporter's providers: the scheduler's status and the best strategies, asked for with every text.\<close>

definition report_sources_of :: "'b fixtures \<Rightarrow> 'b app \<Rightarrow> report_sources \<times> 'b app" where
  "report_sources_of fx a =
     (case on_account (strategy_report summary_query) a of
        (r, a') \<Rightarrow> (\<lparr>rs_backtest = Some (Inr (sp_enabled (fx_schedule fx), app_scheduler a)), rs_strategies = Some (Inr r)\<rparr>, a'))"

definition daily_text :: "'b fixtures \<Rightarrow> int \<Rightarrow> 'b app \<Rightarrow> report_line list \<times> 'b app" where
  "daily_text fx day a =
     (case report_sources_of fx a of (src, a') \<Rightarrow> (build_report_text (fx_day fx) src (ss_safety (app_sys a)) day, a'))"

definition weekly_text :: "'b fixtures \<Rightarrow> int \<Rightarrow> int \<Rightarrow> 'b app \<Rightarrow> report_line list \<times> 'b app" where
  "weekly_text fx day days a =
     (case report_sources_of fx a of
        (src, a') \<Rightarrow> (build_weekly_report_text (fx_day fx) src (ss_safety (app_sys a)) day days, a'))"

definition sink_of :: "'b fixtures \<Rightarrow> bool \<Rightarrow> bool option" where
  "sink_of fx delivered = (if fx_sink fx then Some delivered else None)"

text \<open>The route builds the text for its answer; a delivery builds its own.\<close>

definition send_daily_report :: "'b fixtures \<Rightarrow> bool \<Rightarrow> int \<Rightarrow> 'b app \<Rightarrow> (bool \<times> report_line list) \<times> 'b app" where
  "send_daily_report fx delivered day a =
     (let (txt, a1) = daily_text fx day a;
          (lns, a2) = (if dr_last_sent_day (app_reporter a1) = Some day \<or> \<not> fx_sink fx then ([], a1) else daily_text fx day a1);
          (sent, r) = send_report_once_per_day lns (sink_of fx delivered) day (app_reporter a2)
      in ((sent, txt), a2\<lparr>app_reporter := r\<rparr>))"

definition send_weekly_report_route :: "'b fixtures \<Rightarrow> bool \<Rightarrow> int \<Rightarrow> int \<Rightarrow> 'b app \<Rightarrow> (bool \<times> report_line list) \<times> 'b app" where
  "send_weekly_report_route fx delivered day days a =
     (let n = max days 1;
          (txt, a1) = weekly_text fx day n a;
          (lns, a2) = (if dr_last_weekly (app_reporter a1) = Some (iso_week_key day) \<or> \<not> fx_sink fx then ([], a1)
                       else weekly_text fx day n a1);
          (sent, r) = send_weekly_report_once_per_week lns (sink_of fx delivered) day (app_reporter a2)
      in ((sent, txt), a2\<lparr>app_reporter := r\<rparr>))"

section \<open>Commands\<close>

text \<open>\<open>POST /telegram/command\<close>: a provider is asked only by the command that shows its answer.\<close>

definition telegram_command :: "'b fixtures \<Rightarrow> instant \<Rightarrow> string \<Rightarrow> 'b app \<Rightarrow> command_result py \<times> 'b app" where
  "telegram_command fx now command a =
     (let (lns, a1) = (if py_strip command = ''/report'' then daily_text fx (fx_day fx now) a else ([], a));
          (paper, a2) = (if py_strip command = ''/paper_report'' then paper_report_route fx a1 else (Inl [], a1));
          src = \<lparr>cs_report = Some (Inr lns), cs_paper = Some (Inr paper),
                 cs_backtest = Some (Inr (sc_last_status (app_scheduler a2), sc_last_job_id (app_scheduler a2))),
                 cs_runtime = Some (Inr (bs_running (background_status (app_bg a2)), bg_cycles (app_bg a2), bg_last_duration_ms (app_bg a2)))\<rparr>;
          sf = ss_safety (app_sys a2)
      in case handle (hooked_set now) (\<lambda>s. sv_config (fst s)) src command (sf_runtime sf, settings_of a2) of
           (r, rt, s) \<Rightarrow>
             (r, put_settings s (a2\<lparr>app_sys := (app_sys a2)\<lparr>ss_safety := sf\<lparr>sf_runtime := rt\<rparr>\<rparr>\<rparr>)))"

section \<open>Logins and the guard\<close>

text \<open>What the authentication service reports goes to the audit log, whose failures it does not see.\<close>

definition on_auth :: "'b fixtures \<Rightarrow> instant \<Rightarrow> (auth \<Rightarrow> 'r \<times> auth) \<Rightarrow> 'b app \<Rightarrow> 'r \<times> 'b app" where
  "on_auth fx now f a =
     (case f (app_auth a) of
        (r, au) \<Rightarrow>
          (r, a\<lparr>app_auth := au,
                app_audit := log_all (fx_detail fx) now (drop (length (au_audit (app_auth a))) (au_audit au)) (app_audit a)\<rparr>))"

definition behind_guard :: "'b fixtures \<Rightarrow> instant \<Rightarrow> http_request \<Rightarrow> ('b app \<Rightarrow> 'r \<times> 'b app) \<Rightarrow> 'b app \<Rightarrow> 'r http \<times> 'b app" where
  "behind_guard fx now rq handler a =
     (case on_auth fx now (require_dashboard_session now rq) a of
        (Inl err, a') \<Rightarrow> (Unauthorized err, a')
      | (Inr _, a') \<Rightarrow> (case handler a' of (r, a'') \<Rightarrow> (Answer r, a'')))"

section \<open>The dashboard\<close>

record dashboard_view =
  dv_runtime :: runtime_view
  dv_performance :: "string + twr_answer"
  dv_paper :: "string + paper_report"
  dv_connectivity :: connectivity

definition get_runtime :: "'b fixtures \<Rightarrow> instant \<Rightarrow> 'b app \<Rightarrow> runtime_view" where
  "get_runtime fx now a = runtime_snapshot (fx_civil fx (aligned_now now (ss_sync (app_sys a)))) a"

definition dashboard_summary :: "'b fixtures \<Rightarrow> instant \<Rightarrow> 'b app \<Rightarrow> dashboard_view \<times> 'b app" where
  "dashboard_summary fx now a =
     (let (twr, a1) = get_twr_report None None a;
          (paper, a2) = paper_report_route fx a1;
          (conn, a3) = live_connectivity_check fx None a2
      in (\<lparr>dv_runtime = get_runtime fx now a, dv_performance = twr, dv_paper = paper, dv_connectivity = conn\<rparr>, a3))"

definition dashboard_equity_curve :: "instant option \<Rightarrow> instant option \<Rightarrow> 'b app \<Rightarrow> (string + curve_answer) \<times> 'b app" where
  "dashboard_equity_curve start until = on_account (equity_curve start until)"

definition dashboard_auth_metrics :: "instant \<Rightarrow> int \<Rightarrow> string option \<Rightarrow> 'b app \<Rightarrow> (string + audit_metrics) \<times> 'b app" where
  "dashboard_auth_metrics now last_hours ip a =
     (case audit_metrics_of now last_hours ip (app_audit a) of (r, d) \<Rightarrow> (r, a\<lparr>app_audit := d\<rparr>))"

text \<open>The universe: what the exchange answers for a rebalance is an argument.\<close>

definition on_universe :: "(universe_db \<Rightarrow> 'r \<times> universe_db) \<Rightarrow> 'b app \<Rightarrow> 'r \<times> 'b app" where
  "on_universe f a = (case f (ss_universe (app_sys a)) of (r, u) \<Rightarrow> (r, a\<lparr>app_sys := (app_sys a)\<lparr>ss_universe := u\<rparr>\<rparr>))"

definition dashboard_universe_rebalance ::
  "seed \<Rightarrow> string list \<Rightarrow> 'b app \<Rightarrow> (rebalance_error + rebalance_answer) py \<times> 'b app" where
  "dashboard_universe_rebalance seeds tickers a =
     (let s = app_sys a in
      case rebalance_universe (sv_config (app_service a)) (\<lambda>e. (seeds, e)) tickers (ss_universe s, ss_candles s, ss_odb s, ()) of
        (r, u, c, d, _) \<Rightarrow> (r, a\<lparr>app_sys := s\<lparr>ss_universe := u, ss_candles := c, ss_odb := d\<rparr>\<rparr>))"

section \<open>Backtests\<close>

definition manual_run_route :: "'b fixtures \<Rightarrow> instant \<Rightarrow> string \<Rightarrow> manual_request \<Rightarrow> 'b app \<Rightarrow> manual_reply py \<times> 'b app" where
  "manual_run_route fx created job_id req a =
     (case start_manual_backtest (sv_config (app_service a)) (fx_civil fx) job_id created req (ss_candles (app_sys a), app_backtests a) of
        (r, c, b) \<Rightarrow> (r, a\<lparr>app_sys := (app_sys a)\<lparr>ss_candles := c\<rparr>, app_backtests := b\<rparr>))"

definition run_backtest_route ::
  "instant \<Rightarrow> string \<Rightarrow> candle list \<Rightarrow> signal list \<Rightarrow> real option \<Rightarrow> 'b app \<Rightarrow> run_outcome py \<times> 'b app" where
  "run_backtest_route created job_id candles signals slippage a =
     (case run_backtest (sv_config (app_service a)) job_id created candles signals slippage (app_backtests a) of
        (r, b) \<Rightarrow> (r, a\<lparr>app_backtests := b\<rparr>))"

definition run_auto_now :: "'b fixtures \<Rightarrow> instant \<Rightarrow> string \<Rightarrow> 'b app \<Rightarrow> trigger_reply option py \<times> 'b app" where
  "run_auto_now fx created job_id a =
     (case auto_backtest_run_now (sv_config (app_service a)) (fx_civil fx created) job_id created
             (app_sys a, app_scheduler a, app_backtests a) of
        (r, s, sc, b) \<Rightarrow> (r, a\<lparr>app_sys := s, app_scheduler := sc, app_backtests := b\<rparr>))"

text \<open>
  The task that the maintenance of a cycle leaves behind (\<open>main.py\<close> gives it \<open>trigger_if_due_background\<close>):
  bars are loaded and the slippage is read only if a run is due. A slippage that cannot be read ends the
  task after the check; a run with a NaN slippage is left out.
\<close>

definition run_is_due :: "schedule_params \<Rightarrow> datetime \<Rightarrow> scheduler \<Rightarrow> bool" where
  "run_is_due p now sc =
     (sp_enabled p \<and> sp_run_hour p \<le> int (dt_hour now) \<and> sc_last_run_date sc \<noteq> Some (date_str now))"

definition trigger_task :: "'b fixtures \<Rightarrow> instant \<Rightarrow> string \<Rightarrow> 'b app \<Rightarrow> 'b app" where
  "trigger_task fx now job_id a =
     (let t = fx_civil fx now; p = fx_schedule fx; sc = app_scheduler a;
          trigger = (\<lambda>candles slippage s1.
            case trigger_if_due p t t job_id now candles slippage (sc, app_backtests a) of
              (_, sc', b) \<Rightarrow> a\<lparr>app_sys := s1, app_scheduler := sc', app_backtests := b\<rparr>)
      in if \<not> run_is_due p t sc then trigger [] 0 (app_sys a)
         else
           (case load_auto_backtest_candles 240 ''5m'' (app_sys a) of
              (candles, s1) \<Rightarrow>
                if length candles < 2 \<or> build_signals (sp_max_signals p) candles = [] then trigger candles 0 s1
                else (case backtest_slippage_default (sv_config (app_service a)) of
                        Inr (Fin slippage) \<Rightarrow> trigger candles slippage s1
                      | _ \<Rightarrow> a\<lparr>app_sys := s1, app_scheduler := sc\<lparr>sc_last_checked_at := Some t\<rparr>\<rparr>)))"

text \<open>A poll of the task that watches the job of the scheduler.\<close>

definition watch_task :: "'b fixtures \<Rightarrow> instant \<Rightarrow> string \<Rightarrow> 'b app \<Rightarrow> 'b app" where
  "watch_task fx now job_id a =
     a\<lparr>app_scheduler := snd (watch_job job_id (fx_civil fx now) (app_backtests a) (app_scheduler a))\<rparr>"

text \<open>One step of a run, by its place among the runs.\<close>

definition backtest_work :: "sink \<Rightarrow> instant \<Rightarrow> nat \<Rightarrow> 'b app \<Rightarrow> 'b app" where
  "backtest_work snk now i a =
     (let b = app_backtests a in
      if i < length (bs_runs b)
      then (case run_step snk now (bs_runs b ! i) (bs_jobs b, bs_alerts b) of
              (r, js, al) \<Rightarrow> a\<lparr>app_backtests := b\<lparr>bs_runs := (bs_runs b)[i := r], bs_jobs := js, bs_alerts := al\<rparr>\<rparr>)
      else a)"

section \<open>Startup and the other tasks\<close>

definition startup :: "seed \<Rightarrow> bool \<Rightarrow> 'b app \<Rightarrow> 'b app" where
  "startup seeds enable_loops a =
     (let s = app_sys a in
      case lifespan_startup (\<lambda>e. (seeds, e)) enable_loops (app_service a, ss_universe s, ss_candles s, app_bg a, ()) of
        (r, sv, u, c, bg, _) \<Rightarrow>
          a\<lparr>app_service := sv, app_sys := s\<lparr>ss_universe := u, ss_candles := c\<rparr>, app_bg := bg,
            app_startup := (case r of Inl _ \<Rightarrow> None | Inr x \<Rightarrow> Some x)\<rparr>)"

text \<open>The bootstrap task a startup leaves behind, with the keys of the broker and its bars.\<close>

definition post_seed_task :: "string \<Rightarrow> string \<Rightarrow> ('b \<Rightarrow> unit py \<times> 'b) \<Rightarrow> 'b bar_fetch \<Rightarrow> 'b app \<Rightarrow> 'b app" where
  "post_seed_task app_key app_secret ensure fetch a =
     (case app_startup a of
        None \<Rightarrow> a
      | Some (su, tickers) \<Rightarrow>
          (let s = app_sys a in
           case ss_venue s of
             ((k, b), n) \<Rightarrow>
               (case run_post_seed_bootstrap app_key app_secret ensure fetch (sv_config (app_service a)) tickers
                       (su, ss_universe s, ss_candles s, b) of
                  (_, su', u, c, b') \<Rightarrow>
                    a\<lparr>app_sys := s\<lparr>ss_venue := ((k, b'), n), ss_universe := u, ss_candles := c\<rparr>,
                      app_startup := Some (su', tickers)\<rparr>)))"

text \<open>The backfill task, if one runs.\<close>

definition backfill_task :: "'b fixtures \<Rightarrow> 'b app \<Rightarrow> 'b app" where
  "backfill_task fx a =
     (let s = app_sys a in
      if mt_task (ss_maint s) = None then a
      else
        (case run_post_market_daily_backfill (resilient_fetch (venue_candles (fx_broker fx)) 1) (ss_universe s, ss_venue s, ss_candles s) of
           (rep, u, v, c) \<Rightarrow>
             a\<lparr>app_sys := s\<lparr>ss_universe := u, ss_venue := v, ss_candles := c,
                 ss_maint := finish_backfill (Inr (bf_ok rep, bf_ticker_count rep, bf_failed rep)) (ss_maint s)\<rparr>\<rparr>))"

section \<open>Everything that can happen\<close>

text \<open>
  The pages and lists that only read (\<open>Web_Pages\<close>, \<open>Web_Records\<close>, \<open>Web_Universe\<close>) are left out here: they leave every
  table, the services and the settings as they were. Shutting the server down ends the run.
\<close>

datatype dashboard_call =
    ReadSummary
  | SaveSetting string string
  | Rebalance seed "string list"
  | BlockHere string bool
  | ManualBacktest string manual_request

datatype 'b app_call =
    PostConfig string string string
  | Command string
  | RunCycle cycle_clock
  | StartLoops
  | StopLoops real
  | DailyReport bool int
  | WeeklyReport bool int int
  | CheckConnectivity "string option"
  | CheckPreflight string "string option"
  | Rehearse "nat \<Rightarrow> cycle_clock" string "string option" int
  | AddSnapshot string real real real real int
  | AddCashFlow instant real real real string
  | DetectFlows "instant option" "instant option" "real option"
  | ReadPaperReport
  | UpsertSymbol upsert_request
  | BlockSymbol string bool
  | RunBacktest string "candle list" "signal list" "real option"
  | RunAutoBacktest string
  | Login web_call
  | Dashboard http_request dashboard_call
  | Startup seed bool
  | PostSeedTask string string "'b \<Rightarrow> unit py \<times> 'b" "'b bar_fetch"
  | BackgroundCycle cycle_clock real bool
  | BackfillTask
  | TriggerTask string
  | WatchTask string
  | BacktestWork sink nat

fun dashboard_step :: "'b fixtures \<Rightarrow> instant \<Rightarrow> dashboard_call \<Rightarrow> 'b app \<Rightarrow> 'b app" where
  "dashboard_step fx now ReadSummary a = snd (dashboard_summary fx now a)"
| "dashboard_step fx now (SaveSetting key value) a = snd (dashboard_set now key value a)"
| "dashboard_step fx now (Rebalance seeds tickers) a = snd (dashboard_universe_rebalance seeds tickers a)"
| "dashboard_step fx now (BlockHere ticker blocked) a = snd (on_universe (block_universe_symbol ticker blocked) a)"
| "dashboard_step fx now (ManualBacktest job_id req) a = snd (manual_run_route fx now job_id req a)"

fun app_step :: "'b fixtures \<Rightarrow> instant \<Rightarrow> 'b app_call \<Rightarrow> 'b app \<Rightarrow> 'b app" where
  "app_step fx now (PostConfig key value who) a = snd (set_config now key value who a)"
| "app_step fx now (Command cmd) a = snd (telegram_command fx now cmd a)"
| "app_step fx now (RunCycle ck) a = snd (run_cycle_route fx now ck a)"
| "app_step fx now StartLoops a = snd (start_loops a)"
| "app_step fx now (StopLoops duration) a = snd (stop_loops now duration a)"
| "app_step fx now (DailyReport delivered day) a = snd (send_daily_report fx delivered day a)"
| "app_step fx now (WeeklyReport delivered day days) a = snd (send_weekly_report_route fx delivered day days a)"
| "app_step fx now (CheckConnectivity ticker) a = snd (live_connectivity_check fx ticker a)"
| "app_step fx now (CheckPreflight stage ticker) a = snd (live_preflight_check fx stage ticker a)"
| "app_step fx now (Rehearse clock stage ticker cycles) a = snd (live_rehearsal fx now clock stage ticker cycles a)"
| "app_step fx now (AddSnapshot typ ta c sv mu n) a = snd (add_performance_snapshot now typ ta c sv mu n a)"
| "app_step fx now (AddCashFlow t am tb ta who) a = snd (add_cash_flow t am tb ta who a)"
| "app_step fx now (DetectFlows start until amount) a = snd (detect_flows_route start until amount a)"
| "app_step fx now ReadPaperReport a = snd (paper_report_route fx a)"
| "app_step fx now (UpsertSymbol req) a = snd (on_universe (upsert_universe_symbol req) a)"
| "app_step fx now (BlockSymbol ticker blocked) a = snd (on_universe (block_universe_symbol ticker blocked) a)"
| "app_step fx now (RunBacktest job_id cs sgs slippage) a = snd (run_backtest_route now job_id cs sgs slippage a)"
| "app_step fx now (RunAutoBacktest job_id) a = snd (run_auto_now fx now job_id a)"
| "app_step fx now (Login c) a = snd (on_auth fx now (\<lambda>s. ((), web_step (fx_auth fx) now c s)) a)"
| "app_step fx now (Dashboard rq c) a = snd (behind_guard fx now rq (\<lambda>a. ((), dashboard_step fx now c a)) a)"
| "app_step fx now (Startup seeds enable) a = startup seeds enable a"
| "app_step fx now (PostSeedTask k sc ensure fetch) a = post_seed_task k sc ensure fetch a"
| "app_step fx now (BackgroundCycle ck duration sleeps) a = background_cycle fx now ck duration sleeps a"
| "app_step fx now BackfillTask a = backfill_task fx a"
| "app_step fx now (TriggerTask job_id) a = trigger_task fx now job_id a"
| "app_step fx now (WatchTask job_id) a = watch_task fx now job_id a"
| "app_step fx now (BacktestWork snk i) a = backtest_work snk now i a"

fun app_run :: "'b fixtures \<Rightarrow> (instant \<times> 'b app_call) list \<Rightarrow> 'b app \<Rightarrow> 'b app" where
  "app_run fx [] a = a"
| "app_run fx ((now, c) # cs) a = app_run fx cs (app_step fx now c a)"

end
