(* ===== verification/App_Invariants.thy ===== *)
theory App_Invariants
  imports Application
begin

text \<open>
  What holds of the application at every moment. The invariant of every component, proved in its
  theory, is kept by everything that can happen to the application (\<open>Application\<close>): the tables, the
  journal, the configuration, the jobs, the background runner, the metrics, the audit log. A halt
  is explained by the journal, and only a resumption ends it: what the reports of critical events
  keep is kept by all else, which is proved once for every such observation of the safety manager.
\<close>

section \<open>The hooked configuration is a writer\<close>

abbreviation settings_view :: "settings_state \<Rightarrow> config" where
  "settings_view s \<equiv> sv_config (fst s)"

lemma handle_config_changed_rows:
  assumes "handle_config_changed cfg key (u, c) = (u', c')"
  shows "ca_rows c' = ca_rows c"
proof -
  obtain r u1 c1 where "recompute_active_universe cfg \<lparr>se_loaded = [], se_new = []\<rparr> (u, c) = (r, u1, c1)" by (rule prod_cases3)
  with recompute_frame(2) [OF this] assms show ?thesis
    by (auto simp: handle_config_changed_def split: if_splits sum.splits)
qed

lemma hooked_set_service:
  "hooked_set now who k v (sv, u, c) = (r, sv', u', c') \<Longrightarrow> service_set now k v who sv = (r, sv')"
  by (auto simp: hooked_set_def split: prod.splits sum.splits)

lemma hooked_set_rest:
  assumes "hooked_set now who k v (sv, u, c) = (r, sv', u', c')"
  shows "ca_rows c' = ca_rows c" "universe_good u \<Longrightarrow> universe_good u'"
proof -
  obtain r1 sv1 where s: "service_set now k v who sv = (r1, sv1)" by fastforce
  obtain u1 c1 where h: "handle_config_changed (sv_config sv1) k (u, c) = (u1, c1)" by fastforce
  have "(u', c') = (u, c) \<or> (u', c') = (u1, c1)" using assms s h by (auto simp: hooked_set_def split: sum.splits)
  then show "ca_rows c' = ca_rows c" "universe_good u \<Longrightarrow> universe_good u'"
    using handle_config_changed_rows [OF h] config_change_good [OF h] by auto
qed

interpretation hooked: config_writer "\<lambda>k v. hooked_set now who k v" settings_view
proof unfold_locales
  fix k v u c and s s' :: settings_state
  assume "hooked_set now who k v s = (Inr u, s')" "config_set k v False (settings_view s) = Inr c"
  then show "\<forall>k'. map_of (settings_view s') k' = map_of c k'"
    using hooked_set_service service.accepted by (cases s; cases s') fastforce
next
  fix k v u and s :: settings_state
  obtain sv un ca where s: "s = (sv, un, ca)" by (rule prod_cases3)
  obtain r sv' un' ca' where run: "hooked_set now who k v s = (r, sv', un', ca')" by (rule prod_cases4)
  then have "fst (service_set now k v who sv) = r" using hooked_set_service s by fastforce
  moreover have "fst (service_set now k v who sv) = Inr u \<longleftrightarrow> (\<exists>c. config_set k v False (sv_config sv) = Inr c)"
    by (rule service.accepts_iff)
  ultimately show "fst (hooked_set now who k v s) = Inr u \<longleftrightarrow> (\<exists>c. config_set k v False (settings_view s) = Inr c)"
    using run s by simp
next
  fix k v x and s s' :: settings_state
  assume "hooked_set now who k v s = (Inl x, s')"
  then show "map_of (settings_view s') = map_of (settings_view s)"
    using hooked_set_service service.refused by (cases s; cases s') fastforce
next
  fix k v r and s s' :: settings_state
  assume "config_inv (settings_view s)" "hooked_set now who k v s = (r, s')"
  then show "config_inv (settings_view s')"
    using hooked_set_service service.keeps by (cases s; cases s') fastforce
qed

interpretation hooked_commands: command_config "hooked_set now" settings_view
proof (rule command_config.intro)
  fix who
  show "config_writer (\<lambda>k v. hooked_set now who k v) settings_view" by (rule hooked.config_writer_axioms)
next
  fix who k v x and s s' :: settings_state
  assume "hooked_set now who k v s = (Inl x, s')"
  then have "service_set now k v who (fst s) = (Inl x, fst s')"
    using hooked_set_service by (cases s; cases s') fastforce
  then show "is_key_or_value_error x" by (rule commands.refuses_by)
qed

section \<open>The runtime's flags\<close>

text \<open>What a command does to the runtime, apart from a resumption.\<close>

definition resumes :: "string \<Rightarrow> bool" where
  "resumes cmd \<longleftrightarrow> py_strip cmd = ''/resume''"

lemma handle_flags:
  assumes "handle set_by get_all src cmd (rt, s) = (r, rt', s')"
  shows "(\<exists>p. rt' \<in> {rt, pause_entry rt, pause_all rt, rt\<lparr>pending_change := p\<rparr>}) \<or> resumes cmd \<and> rt' = resume rt"
proof -
  let ?c = "py_strip cmd"
  consider (set) "handle_set set_by ?c (rt, s) = (r, rt', s')"
    | (confirm) "confirm_pending set_by (rt, s) = (r, rt', s')"
    | (rest) "rt' = rt \<or> rt' = pause_entry rt \<or> rt' = pause_all rt"
    | (resumed) "?c = ''/resume''" "rt' = resume rt"
    using assms unfolding handle_def Let_def by (auto split: if_splits)
  then show ?thesis
  proof cases
    case set
    then have "rt' = rt \<or> (\<exists>p. rt' = rt\<lparr>pending_change := p\<rparr>)"
      by (auto simp: handle_set_def split: list.splits sum.splits prod.splits if_splits)
    then show ?thesis by auto
  next
    case confirm
    then have "rt' = rt \<or> (\<exists>p. rt' = rt\<lparr>pending_change := p\<rparr>)"
      by (auto simp: confirm_pending_def split: option.splits sum.splits prod.splits)
    then show ?thesis by auto
  qed (auto simp: resumes_def)
qed

text \<open>An observation of the safety manager that neither reports nor commands other than a resumption end.\<close>

locale runtime_observer = safety_observer +
  assumes flags_keep: "P s \<Longrightarrow> rt' \<in> {sf_runtime s, pause_entry (sf_runtime s), pause_all (sf_runtime s), (sf_runtime s)\<lparr>pending_change := p\<rparr>} \<Longrightarrow>
    P (s\<lparr>sf_runtime := rt'\<rparr>)"

definition halt_explained :: "safety \<Rightarrow> bool" where
  "halt_explained sf \<longleftrightarrow> 0 < sf_max_events sf \<and>
     (halted (sf_runtime sf) \<longrightarrow>
       (\<exists>es e. sf_events sf = es @ [e] \<and> halt_reason (sf_runtime sf) = Some (ev_code e @ '': '' @ ev_message e) \<and>
          halted_at (sf_runtime sf) = Some (ev_created_at e)))"

lemma push_event_snoc: "0 < mx \<Longrightarrow> \<exists>es'. push_event mx es e = es' @ [e]"
  by (cases es) (auto simp: push_event_def Let_def)

lemma critical_explained:
  assumes "halt_explained s"
  shows "halt_explained (critical now c m s)"
proof -
  let ?e = "\<lparr>ev_level = ''CRITICAL'', ev_code = c, ev_message = m, ev_created_at = now\<rparr>"
  obtain es' where es: "push_event (sf_max_events s) (sf_events s) ?e = es' @ [?e]"
    using push_event_snoc assms by (fastforce simp: halt_explained_def)
  have "\<exists>es e. es' @ [?e] = es @ [e] \<and> Some (c @ '': '' @ m) = Some (ev_code e @ '': '' @ ev_message e) \<and> Some now = Some (ev_created_at e)"
    by (rule exI [of _ es'], rule exI [of _ ?e]) simp
  with es assms show ?thesis by (simp add: halt_explained_def critical_def Let_def)
qed

lemma flags_simps [simp]:
  "halted (pause_entry rt) = halted rt" "halted (pause_all rt) = halted rt" "\<not> halted (resume rt)"
  "halt_reason (pause_entry rt) = halt_reason rt" "halt_reason (pause_all rt) = halt_reason rt"
  "halted_at (pause_entry rt) = halted_at rt" "halted_at (pause_all rt) = halted_at rt"
  by (simp_all add: op_defs)

interpretation halting: runtime_observer "\<lambda>s. halted (sf_runtime s)"
  by unfold_locales auto

interpretation explained: runtime_observer halt_explained
  by unfold_locales (auto simp: critical_explained, auto simp: halt_explained_def)

section \<open>A cycle under observation\<close>

lemma wired_safety_frames:
  "wired_hook br wi now s = (r, s') \<Longrightarrow> ss_safety s' = ss_safety s"
  "wired_tickers s = (r2, s') \<Longrightarrow> ss_safety s' = ss_safety s"
  "wired_loop_b br wi now t s = (r3, s') \<Longrightarrow> ss_safety s' = ss_safety s"
  "wired_loop_c wi now s = (r4, s') \<Longrightarrow> ss_safety s' = ss_safety s"
  "wired_connectivity token dt br tk s = (c, s') \<Longrightarrow> ss_safety s' = ss_safety s"
  by (auto simp: wired_hook_def wired_tickers_def wired_loop_b_def wired_loop_c_def wired_connectivity_def split: prod.splits)

lemma preflight_safety:
  assumes "preflight (wired_preflight md token dt br bg) stage ticker s = (r, s')"
  shows "ss_safety s' = ss_safety s"
proof -
  obtain t s1 where t: "wired_tickers s = (t, s1)" by fastforce
  obtain c s2 where c: "wired_connectivity token dt br ticker s1 = (c, s2)" by fastforce
  have "s' = s1 \<or> s' = s2"
    using assms t c by (cases t) (auto simp: preflight_def wired_preflight_def Let_def)
  then show ?thesis using wired_safety_frames(2) [OF t] wired_safety_frames(5) [OF c] by auto
qed

context safety_observer
begin

lemma wired_loop_a_keeps:
  assumes "wired_loop_a br wi now s = (r, s')" "P (ss_safety s)"
  shows "P (ss_safety s')"
proof -
  obtain r1 q e sf o' where run: "loop_a_run_once (\<lambda>req. on_venue (venue_place (wi_mode wi) br req))
      (\<lambda>oid. on_venue (venue_status (wi_mode wi) br oid)) (live_price (venue_price br)) db_atr (Some (wi_config wi)) (Fin (3 / 2)) now
      (ss_queue s, (ss_venue s, ss_candles s), Some (ss_safety s), ss_odb s) = (r1, q, e, sf, o')"
    by (rule prod_cases5)
  have "pred_option P sf" using loop_a_safety [OF run] assms(2) by simp
  moreover have "ss_safety s' = (case sf of None \<Rightarrow> ss_safety s | Some x \<Rightarrow> x)"
    using assms(1) run by (auto simp: wired_loop_a_def split: prod.splits)
  ultimately show ?thesis using assms(2) by (auto split: option.splits)
qed

lemma wired_cycle_keeps:
  assumes "run_cycle (wired_env br wi now) ck (co, s) = (rep, co', s')" "P (ss_safety s)"
  shows "P (ss_safety s')"
  by (rule run_cycle_inv [where P = "\<lambda>s. P (ss_safety s)", OF _ _ _ _ _ _ assms(2,1)])
     (auto simp: wired_env_def critical_keeps dest: wired_safety_frames intro: wired_loop_a_keeps)

lemma wired_rehearsal_keeps:
  assumes "run_rehearsal (wired_preflight md token dt br bg) (wired_env br wi now) clock stage ticker cycles (co, s) = (r, co', s')"
    "P (ss_safety s)"
  shows "P (ss_safety s')"
proof -
  obtain p s1 where p: "preflight (wired_preflight md token dt br bg) stage ticker s = (p, s1)" by fastforce
  have i1: "P (ss_safety s1)" using preflight_safety [OF p] assms(2) by simp
  obtain acc co2 s2 where r: "rehearse (wired_env br wi now) (map clock [0..<nat (max cycles 1)]) (0, 0, []) (co, s1) = (acc, co2, s2)"
    by (rule prod_cases3)
  have "P (ss_safety s2)"
    by (rule rehearse_inv [where P = "\<lambda>s. P (ss_safety s)", OF _ i1 r]) (rule wired_cycle_keeps)
  moreover have "s' = s1 \<or> s' = s2"
    using assms(1) p r by (cases p) (auto simp: run_rehearsal_def split: if_splits prod.splits)
  ultimately show ?thesis using i1 by auto
qed

end

section \<open>The system\<close>

definition pending_confirms :: "safety \<Rightarrow> bool" where
  "pending_confirms sf \<longleftrightarrow> (\<forall>p. pending_change (sf_runtime sf) = Some p \<longrightarrow> pc_key p \<in> set confirm_required_keys)"

interpretation pending: safety_observer pending_confirms
  by unfold_locales (simp add: pending_confirms_def critical_frame)

definition system_good :: "'b system \<Rightarrow> bool" where
  "system_good s \<longleftrightarrow> system_inv s \<and> universe_good (ss_universe s) \<and> halt_explained (ss_safety s) \<and> pending_confirms (ss_safety s)"

lemma system_good_change:
  assumes "system_good s" "system_inv s'" "universe_good (ss_universe s')" "ss_safety s' = ss_safety s"
  shows "system_good s'"
  using assms by (simp add: system_good_def)

lemma system_invI:
  "odb_inv (ss_odb s) \<Longrightarrow> candles_inv (ss_candles s) \<Longrightarrow> universe_inv (ss_universe s) \<Longrightarrow> safety_inv (ss_safety s) \<Longrightarrow> system_inv s"
  by (simp add: system_inv_def)

lemma wired_universe_frames:
  "wired_loop_a br wi now s = (r1, s') \<Longrightarrow> un_rows (ss_universe s') = un_rows (ss_universe s)"
  "wired_hook br wi now s = (r, s') \<Longrightarrow> un_rows (ss_universe s') = un_rows (ss_universe s)"
  "wired_loop_b br wi now t s = (r3, s') \<Longrightarrow> un_rows (ss_universe s') = un_rows (ss_universe s)"
  "wired_loop_c wi now s = (r4, s') \<Longrightarrow> un_rows (ss_universe s') = un_rows (ss_universe s)"
  "wired_connectivity token dt br tk s = (c, s') \<Longrightarrow> un_rows (ss_universe s') = un_rows (ss_universe s)"
  by (auto simp: wired_loop_a_def wired_hook_def wired_loop_b_def wired_loop_c_def wired_connectivity_def split: prod.splits)

lemma wired_tickers_universe: "wired_tickers s = (r, s') \<Longrightarrow> un_rows (ss_universe s') = un_rows (ss_universe s)"
proof -
  assume run: "wired_tickers s = (r, s')"
  obtain ts u d m where l: "load_tracking_tickers (ss_universe s, ss_odb s, ss_maint s) = (ts, u, d, m)"
    by (rule prod_cases4)
  then show ?thesis using run load_tracking_frame(1) [OF l] by (auto simp: wired_tickers_def)
qed

lemma wired_cycle_universe:
  assumes "run_cycle (wired_env br wi now) ck (co, s) = (rep, co', s')"
  shows "un_rows (ss_universe s') = un_rows (ss_universe s)"
  by (rule run_cycle_inv [where P = "\<lambda>x. un_rows (ss_universe x) = un_rows (ss_universe s)", OF _ _ _ _ _ _ refl assms])
     (auto simp: wired_env_def dest: wired_universe_frames wired_tickers_universe)

lemma good_cycle:
  assumes "run_cycle (wired_env br wi now) ck (co, s) = (rep, co', s')" "system_good s"
  shows "system_good s'"
  using assms wired_cycle_inv [OF assms(1)] wired_cycle_universe [OF assms(1)] explained.wired_cycle_keeps [OF assms(1)]
    pending.wired_cycle_keeps [OF assms(1)] good_rows
  unfolding system_good_def by blast

lemma good_connectivity:
  assumes "wired_connectivity token dt br tk s = (c, s')" "system_good s"
  shows "system_good s'"
  using assms wired_connectivity_inv [OF assms(1)] wired_universe_frames(5) [OF assms(1)] wired_safety_frames(5) [OF assms(1)] good_rows
  unfolding system_good_def by metis

lemma good_tickers:
  assumes "wired_tickers s = (r, s')" "system_good s"
  shows "system_good s'"
  using assms wired_tickers_inv [OF assms(1)] wired_tickers_universe [OF assms(1)] wired_safety_frames(2) [OF assms(1)] good_rows
  unfolding system_good_def by metis

lemma good_preflight:
  assumes "preflight (wired_preflight md token dt br bg) stage ticker s = (r, s')" "system_good s"
  shows "system_good s'"
proof -
  obtain t s1 where t: "wired_tickers s = (t, s1)" by fastforce
  obtain c s2 where c: "wired_connectivity token dt br ticker s1 = (c, s2)" by fastforce
  have "s' = s1 \<or> s' = s2"
    using assms(1) t c by (cases t) (auto simp: preflight_def wired_preflight_def Let_def)
  then show ?thesis using good_tickers [OF t assms(2)] good_connectivity [OF c] by auto
qed

lemma good_rehearsal:
  assumes "run_rehearsal (wired_preflight md token dt br bg) (wired_env br wi now) clock stage ticker cycles (co, s) = (r, co', s')"
    "system_good s"
  shows "system_good s'"
proof -
  obtain p s1 where p: "preflight (wired_preflight md token dt br bg) stage ticker s = (p, s1)" by fastforce
  have i1: "system_good s1" by (rule good_preflight [OF p assms(2)])
  obtain acc co2 s2 where r: "rehearse (wired_env br wi now) (map clock [0..<nat (max cycles 1)]) (0, 0, []) (co, s1) = (acc, co2, s2)"
    by (rule prod_cases3)
  have "system_good s2"
    by (rule rehearse_inv [where P = system_good, OF _ i1 r]) (rule good_cycle)
  moreover have "s' = s1 \<or> s' = s2"
    using assms(1) p r by (cases p) (auto simp: run_rehearsal_def split: if_splits prod.splits)
  ultimately show ?thesis using i1 by auto
qed

section \<open>The other parts\<close>

text \<open>The configuration: its values obey the rules, and no key it started with is ever missing.\<close>

definition config_ok :: "config \<Rightarrow> bool" where
  "config_ok cfg \<longleftrightarrow> config_inv cfg \<and> fst ` set default_values \<subseteq> fst ` set cfg"

lemma config_set_ok: "config_set k v ro cfg = Inr cfg' \<Longrightarrow> config_ok cfg \<Longrightarrow> config_ok cfg'"
  using dom_update [of k v cfg] by (auto simp: config_ok_def config_set_inv config_set_Inr config_inv_update config_check_weaken dom_map_of_conv_image_fst)

lemma service_set_ok: "service_set now k v who s = (r, s') \<Longrightarrow> config_ok (sv_config s) \<Longrightarrow> config_ok (sv_config s')"
  using service_set_outcome [of now k v who s r s'] by (auto split: sum.splits dest: config_set_ok)

lemma load_rows_config_ok: "load_rows rows cfg = (r, cfg') \<Longrightarrow> config_ok cfg \<Longrightarrow> config_ok cfg'"
proof (induction rows cfg rule: load_rows.induct)
  case (2 k v rows cfg)
  show ?case
  proof (cases "config_set k v True cfg")
    case (Inl x)
    then show ?thesis using 2 by (cases x) auto
  next
    case (Inr c)
    then show ?thesis using 2 config_set_ok [OF Inr] by simp
  qed
qed simp

lemma load_from_db_ok: "load_from_db s = (r, s') \<Longrightarrow> config_ok (sv_config s) \<Longrightarrow> config_ok (sv_config s')"
  by (auto simp: load_from_db_def load_into_manager_def split: option.splits if_splits prod.splits dest: load_rows_config_ok)

lemma config_ok_get: "config_ok cfg \<Longrightarrow> k \<in> fst ` set default_values \<Longrightarrow> \<exists>v. config_get k cfg = Inr v"
proof -
  assume "config_ok cfg" "k \<in> fst ` set default_values"
  then have "k \<in> dom (map_of cfg)" unfolding config_ok_def dom_map_of_conv_image_fst by blast
  then obtain v where "map_of cfg k = Some v" by blast
  then have "config_get k cfg = Inr v" by (simp add: config_get_def)
  then show ?thesis by blast
qed

text \<open>The accounts: every query leaves the tables alone, every insertion keeps the keys unique.\<close>

lemma account_query [simp]: "account_inv (snd (ac_query q d)) = account_inv d"
  by (simp add: ac_query_def ac_stmt_def)

lemma account_bind:
  "account_inv (snd m) \<Longrightarrow> (\<And>v d. account_inv d \<Longrightarrow> account_inv (snd (f v d))) \<Longrightarrow> account_inv (snd (ac_bind m f))"
  by (cases m) (auto simp: ac_bind_def split: sum.split)

lemma account_answer [simp]: "snd (answer m) = snd m"
  by (auto simp: answer_def split: prod.split sum.split)

lemma account_lists [simp]:
  "account_inv (snd (list_trades f off n b d)) = account_inv d"
  "account_inv (snd (list_snapshots st un ty off n d)) = account_inv d"
  "account_inv (snd (list_cash_flows st un ty off n d)) = account_inv d"
  "account_inv (snd (has_cash_flow_near t d)) = account_inv d"
  "account_inv (snd (reload b d)) = account_inv d"
  by (simp_all add: list_trades_def list_snapshots_def list_cash_flows_def has_cash_flow_near_def reload_def)

lemma account_creates:
  "account_inv d \<Longrightarrow> account_inv (snd (create_snapshot t ty ta c sv mu n d))"
  "account_inv d \<Longrightarrow> account_inv (snd (create_cash_flow t2 a tb ta2 who d))"
  using create_snapshot_inv create_cash_flow_inv by (metis prod.collapse)+

lemma detect_one_inv: "account_inv d \<Longrightarrow> account_inv (snd (detect_one th sp sc p d))"
  unfolding detect_one_def by (cases p) (auto simp: sum_realized_pnl_def Let_def intro!: account_bind account_creates)

lemma detect_loop_inv: "account_inv d \<Longrightarrow> account_inv (snd (detect_loop th sp sc ps d))"
  by (induction th sp sc ps d rule: detect_loop.induct) (auto intro!: account_bind detect_one_inv split: option.split)

lemma detect_inv: "detect_cash_flows am st un mi d = (r, d') \<Longrightarrow> account_inv d \<Longrightarrow> account_inv d'"
proof -
  assume run: "detect_cash_flows am st un mi d = (r, d')" and inv: "account_inv d"
  let ?th = "case mi of None \<Rightarrow> am | Some m \<Rightarrow> m"
  have "account_inv (snd (ac_bind (list_snapshots st un None 0 5000 d) (\<lambda>snapshots d1.
             if length snapshots < 2 then (Inr [], d1)
             else detect_loop ?th False False (consecutive snapshots) d1)))"
    using inv by (intro account_bind) (auto intro: detect_loop_inv)
  then show ?thesis using run by (auto simp: detect_cash_flows_def Let_def split: prod.splits sum.splits)
qed

lemma account_reports:
  "account_inv d \<Longrightarrow> account_inv (snd (build_paper_report day sv d))"
  "account_inv d \<Longrightarrow> account_inv (snd (strategy_report q d))"
  "account_inv d \<Longrightarrow> account_inv (snd (twr_report st un d))"
  by (auto simp: build_paper_report_def strategy_report_def twr_report_def sum_realized_pnl_def Let_def intro!: account_bind)

section \<open>The invariant\<close>

definition app_inv :: "'b app \<Rightarrow> bool" where
  "app_inv a \<longleftrightarrow>
     system_good (app_sys a) \<and> config_ok (sv_config (app_service a)) \<and> account_inv (app_account a) \<and>
     bt_inv 200 (app_backtests a) \<and> background_inv (app_bg a) \<and> (\<exists>os. metrics_ok os (app_co a)) \<and>
     (\<forall>x\<in>set (ad_rows (app_audit a)). honest_row x)"

lemma candles_rows: "ca_rows d' = ca_rows d \<Longrightarrow> candles_inv d' = candles_inv d"
  by (simp add: candles_inv_def)

text \<open>Steps that neither report, command nor configure.\<close>

definition quiet :: "'b app \<Rightarrow> 'b app \<Rightarrow> bool" where
  "quiet a a' \<longleftrightarrow> ss_safety (app_sys a') = ss_safety (app_sys a) \<and> sv_config (app_service a') = sv_config (app_service a)"

lemma quiet_refl [simp]: "quiet a a"
  by (simp add: quiet_def)

lemma quiet_trans: "quiet a b \<Longrightarrow> quiet b c \<Longrightarrow> quiet a c"
  by (simp add: quiet_def)

text \<open>New tables in a good system.\<close>

lemma good_tables:
  assumes "system_good s" "universe_good u" "candles_inv c" "odb_inv d"
  shows "system_good (s\<lparr>ss_universe := u, ss_candles := c, ss_odb := d\<rparr>)" "system_good (s\<lparr>ss_universe := u, ss_candles := c\<rparr>)"
    "system_good (s\<lparr>ss_universe := u\<rparr>)" "system_good (s\<lparr>ss_candles := c\<rparr>)"
    "system_good (s\<lparr>ss_venue := v, ss_universe := u, ss_candles := c\<rparr>)"
    "system_good (s\<lparr>ss_universe := u, ss_venue := v, ss_candles := c, ss_maint := m\<rparr>)"
  using assms by (auto simp: system_good_def system_inv_def universe_good_def)

lemma system_goodD: "system_good s \<Longrightarrow> universe_good (ss_universe s) \<and> candles_inv (ss_candles s) \<and> odb_inv (ss_odb s) \<and> safety_inv (ss_safety s)"
  by (simp add: system_good_def system_inv_def)

section \<open>Settings and commands\<close>

lemma put_settings_inv:
  assumes "app_inv a" "config_ok (sv_config sv)" "universe_good u" "ca_rows c = ca_rows (ss_candles (app_sys a))"
  shows "app_inv (put_settings (sv, u, c) a)"
proof -
  have g: "system_good (app_sys a)" using assms(1) by (simp add: app_inv_def)
  have "candles_inv c" using candles_rows [OF assms(4)] system_goodD [OF g] by simp
  then have "system_good ((app_sys a)\<lparr>ss_universe := u, ss_candles := c\<rparr>)"
    using good_tables(2) [OF g assms(3)] system_goodD [OF g] by blast
  then show ?thesis using assms by (simp add: app_inv_def put_settings_def)
qed

lemma hooked_set_ok:
  assumes "hooked_set now who k v (sv, u, c) = (r, sv', u', c')" "config_ok (sv_config sv)"
  shows "config_ok (sv_config sv')"
  using service_set_ok [OF hooked_set_service [OF assms(1)] assms(2)] .

lemma set_config_inv:
  assumes "set_config now k v who a = (r, a')" "app_inv a"
  shows "app_inv a'"
proof -
  obtain r1 sv u c where h: "hooked_set now who k v (app_service a, ss_universe (app_sys a), ss_candles (app_sys a)) = (r1, sv, u, c)"
    by (rule prod_cases4)
  have "config_ok (sv_config (app_service a))" "universe_good (ss_universe (app_sys a))"
    using assms(2) by (simp_all add: app_inv_def system_good_def)
  then have "app_inv (put_settings (sv, u, c) a)"
    using put_settings_inv [OF assms(2) hooked_set_ok [OF h]] hooked_set_rest [OF h] by simp
  then show ?thesis using assms(1) h by (simp add: set_config_def settings_of_def)
qed

lemma dashboard_set_inv:
  assumes "dashboard_set now k v a = (r, a')" "app_inv a"
  shows "app_inv a'"
proof -
  obtain r1 a1 where s: "set_config now k v ''webui'' a = (r1, a1)" by fastforce
  with assms(1) have "a' = a1" by (cases r1) (auto simp: dashboard_set_def)
  then show ?thesis using set_config_inv [OF s assms(2)] by simp
qed

text \<open>A command: at most one write, which keeps everything the service keeps.\<close>

lemma handle_settings:
  assumes "handle (hooked_set now) settings_view src cmd (rt, s) = (r, rt', s')"
  obtains "s' = s" | who k v r1 where "hooked_set now who k v s = (r1, s')"
  using assms by (rule hooked_commands.handle_cases) blast+

lemma account_part: "app_inv a \<Longrightarrow> account_inv d \<Longrightarrow> app_inv (a\<lparr>app_account := d\<rparr>)"
  by (simp add: app_inv_def)

lemma on_account_inv:
  assumes "on_account f a = (r, a')" "\<And>d. account_inv d \<Longrightarrow> account_inv (snd (f d))"
  shows "app_inv a \<Longrightarrow> app_inv a'"
    and "app_sys a' = app_sys a" "app_service a' = app_service a" "app_reporter a' = app_reporter a"
proof -
  obtain r1 d where f: "f (app_account a) = (r1, d)" by fastforce
  then have a': "a' = a\<lparr>app_account := d\<rparr>" using assms(1) by (simp add: on_account_def)
  show "app_inv a \<Longrightarrow> app_inv a'"
    using account_part a' assms(2) [of "app_account a"] f by (auto simp: app_inv_def)
  show "app_sys a' = app_sys a" "app_service a' = app_service a" "app_reporter a' = app_reporter a" using a' by simp_all
qed

lemma on_account_quiet: "on_account f a = (r, a') \<Longrightarrow> quiet a a'"
  by (auto simp: on_account_def quiet_def split: prod.splits)

lemmas on_account_both = on_account_inv(1) on_account_quiet

section \<open>Reports\<close>

lemma report_sources_inv:
  assumes "report_sources_of fx a = (src, a')"
  shows "app_inv a \<Longrightarrow> app_inv a'" "quiet a a'" "app_reporter a' = app_reporter a"
proof -
  obtain r a1 where s: "on_account (strategy_report summary_query) a = (r, a1)" by fastforce
  then have "a' = a1" using assms by (simp add: report_sources_of_def)
  then show "app_inv a \<Longrightarrow> app_inv a'" "quiet a a'" "app_reporter a' = app_reporter a"
    using on_account_inv [OF s] on_account_quiet [OF s] account_reports(2) by auto
qed

lemma texts_inv:
  "daily_text fx day a = (lns, a') \<Longrightarrow> app_inv a \<Longrightarrow> app_inv a'" "daily_text fx day a = (lns, a') \<Longrightarrow> quiet a a'"
  "weekly_text fx day days a = (lns, a') \<Longrightarrow> app_inv a \<Longrightarrow> app_inv a'" "weekly_text fx day days a = (lns, a') \<Longrightarrow> quiet a a'"
  using report_sources_inv by (auto simp: daily_text_def weekly_text_def split: prod.splits)

lemma paper_report_inv:
  assumes "paper_report_route fx a = (r, a')"
  shows "app_inv a \<Longrightarrow> app_inv a'" "quiet a a'"
  using on_account_both [OF assms [unfolded paper_report_route_def]] account_reports(1) by auto

lemma reporter_part [simp]: "app_inv (a\<lparr>app_reporter := x\<rparr>) = app_inv a" "quiet a (b\<lparr>app_reporter := x\<rparr>) = quiet a b"
  by (simp_all add: app_inv_def quiet_def)

lemma send_daily_inv:
  assumes "send_daily_report fx ok day a = (r, a')"
  shows "app_inv a \<Longrightarrow> app_inv a'" "quiet a a'"
proof -
  obtain body a1 where t: "daily_text fx day a = (body, a1)" by fastforce
  obtain lns a2 where u: "(if dr_last_sent_day (app_reporter a1) = Some day \<or> \<not> fx_sink fx then ([], a1) else daily_text fx day a1) = (lns, a2)"
    by fastforce
  obtain sent x where "send_report_once_per_day lns (sink_of fx ok) day (app_reporter a2) = (sent, x)" by fastforce
  then have a': "a' = a2\<lparr>app_reporter := x\<rparr>" using assms t u by (simp add: send_daily_report_def)
  have "quiet a1 a2" "app_inv a1 \<Longrightarrow> app_inv a2" using u texts_inv(1,2) by (auto split: if_splits)
  then show "app_inv a \<Longrightarrow> app_inv a'" "quiet a a'"
    using texts_inv(1,2) [OF t] a' quiet_trans by auto
qed

lemma send_weekly_inv:
  assumes "send_weekly_report_route fx ok day days a = (r, a')"
  shows "app_inv a \<Longrightarrow> app_inv a'" "quiet a a'"
proof -
  let ?n = "max days 1"
  obtain body a1 where t: "weekly_text fx day ?n a = (body, a1)" by fastforce
  obtain lns a2 where u: "(if dr_last_weekly (app_reporter a1) = Some (iso_week_key day) \<or> \<not> fx_sink fx then ([], a1)
      else weekly_text fx day ?n a1) = (lns, a2)"
    by fastforce
  obtain sent x where "send_weekly_report_once_per_week lns (sink_of fx ok) day (app_reporter a2) = (sent, x)" by fastforce
  then have a': "a' = a2\<lparr>app_reporter := x\<rparr>" using assms t u by (simp add: send_weekly_report_route_def)
  have "quiet a1 a2" "app_inv a1 \<Longrightarrow> app_inv a2" using u texts_inv(3,4) by (auto split: if_splits)
  then show "app_inv a \<Longrightarrow> app_inv a'" "quiet a a'"
    using texts_inv(3,4) [OF t] a' quiet_trans by auto
qed

section \<open>Commands\<close>

text \<open>A command: what it reads, and then one call of the handler on the runtime and the settings.\<close>

lemma telegram_command_cases:
  assumes "telegram_command fx now cmd a = (r, a')"
  obtains src a2 rt s where "app_inv a \<Longrightarrow> app_inv a2" "quiet a a2"
    "handle (hooked_set now) settings_view src cmd (sf_runtime (ss_safety (app_sys a2)), settings_of a2) = (r, rt, s)"
    "a' = put_settings s (a2\<lparr>app_sys := (app_sys a2)\<lparr>ss_safety := (ss_safety (app_sys a2))\<lparr>sf_runtime := rt\<rparr>\<rparr>\<rparr>)"
proof -
  obtain lns a1 where l: "(if py_strip cmd = ''/report'' then daily_text fx (fx_day fx now) a else ([], a)) = (lns, a1)" by fastforce
  obtain paper a2 where p: "(if py_strip cmd = ''/paper_report'' then paper_report_route fx a1 else (Inl [], a1)) = (paper, a2)" by fastforce
  have q1: "app_inv a \<Longrightarrow> app_inv a1" "quiet a a1" using l texts_inv(1,2) by (auto split: if_splits)
  have q2: "app_inv a1 \<Longrightarrow> app_inv a2" "quiet a1 a2" using p paper_report_inv by (auto split: if_splits)
  let ?src = "\<lparr>cs_report = Some (Inr lns), cs_paper = Some (Inr paper),
                 cs_backtest = Some (Inr (sc_last_status (app_scheduler a2), sc_last_job_id (app_scheduler a2))),
                 cs_runtime = Some (Inr (bs_running (background_status (app_bg a2)), bg_cycles (app_bg a2), bg_last_duration_ms (app_bg a2)))\<rparr>"
  obtain r1 rt s where h: "handle (hooked_set now) settings_view ?src cmd (sf_runtime (ss_safety (app_sys a2)), settings_of a2) = (r1, rt, s)"
    by (rule prod_cases3)
  have eq: "r1 = r" "a' = put_settings s (a2\<lparr>app_sys := (app_sys a2)\<lparr>ss_safety := (ss_safety (app_sys a2))\<lparr>sf_runtime := rt\<rparr>\<rparr>\<rparr>)"
    using assms l p h by (simp_all add: telegram_command_def Let_def)
  from q1 q2 quiet_trans h eq show thesis by (intro that [of a2 ?src rt s]) auto
qed

lemma put_settings_frame:
  "ss_safety (app_sys (put_settings s a)) = ss_safety (app_sys a)" "sv_config (app_service (put_settings s a)) = settings_view s"
  by (simp_all add: put_settings_def split: prod.split)

lemma flags_part:
  assumes "app_inv a" "halt_explained (sf\<lparr>sf_runtime := rt\<rparr>)" "pending_confirms (sf\<lparr>sf_runtime := rt\<rparr>)" "sf = ss_safety (app_sys a)"
  shows "app_inv (a\<lparr>app_sys := (app_sys a)\<lparr>ss_safety := sf\<lparr>sf_runtime := rt\<rparr>\<rparr>\<rparr>)"
proof -
  have "safety_inv sf" using assms(1,4) by (simp add: app_inv_def system_good_def system_inv_def)
  then have "safety_inv (sf\<lparr>sf_runtime := rt\<rparr>)" by (simp add: safety_inv_def)
  then show ?thesis using assms by (simp add: app_inv_def system_good_def system_inv_def)
qed

lemma telegram_command_inv:
  assumes "telegram_command fx now cmd a = (r, a')" "app_inv a"
  shows "app_inv a'"
  using assms(1)
proof (cases rule: telegram_command_cases)
  case (1 src a2 rt s)
  let ?sf = "ss_safety (app_sys a2)"
  have i2: "app_inv a2" using 1(1) assms(2) .
  then have x: "halt_explained ?sf" "pending_confirms ?sf" by (simp_all add: app_inv_def system_good_def)
  have e: "halt_explained (?sf\<lparr>sf_runtime := rt\<rparr>)"
    using handle_flags [OF 1(3)] x(1) explained.flags_keep [OF x(1)] by (fastforce simp: halt_explained_def)
  have p: "pending_confirms (?sf\<lparr>sf_runtime := rt\<rparr>)"
  proof -
    have "hooked_commands.pending_ok (sf_runtime ?sf)" using x(2) unfolding pending_confirms_def hooked_commands.pending_ok_def .
    from hooked_commands.handle_pending_ok [OF 1(3) this]
    have "\<forall>q. pending_change rt = Some q \<longrightarrow> pc_key q \<in> set confirm_required_keys" unfolding hooked_commands.pending_ok_def .
    then show ?thesis unfolding pending_confirms_def by simp
  qed
  have i3: "app_inv (a2\<lparr>app_sys := (app_sys a2)\<lparr>ss_safety := ?sf\<lparr>sf_runtime := rt\<rparr>\<rparr>\<rparr>)"
    by (rule flags_part [OF i2 e p refl])
  obtain sv u c where s: "s = (sv, u, c)" by (rule prod_cases3)
  have ok: "config_ok (sv_config (app_service a2))" "universe_good (ss_universe (app_sys a2))"
    using i2 by (simp_all add: app_inv_def system_good_def)
  have "config_ok (sv_config sv)" "universe_good u" "ca_rows c = ca_rows (ss_candles (app_sys a2))"
    using 1(3)
    by (rule handle_settings; use ok s in \<open>auto simp: settings_of_def dest: hooked_set_ok hooked_set_rest\<close>)+
  then show ?thesis using put_settings_inv [OF i3] 1(4) s by simp
qed

end
