(* ===== verification/App_Routes.thy ===== *)
theory App_Routes
  imports App_Invariants
begin

text \<open>
  The routes and tasks of the application, one by one: each keeps the invariant of \<open>App_Invariants\<close>, most
  are quiet, and a route that may start a backtest submits at most one run.
\<close>

section \<open>Loops and live checks\<close>

lemma cycle_part:
  assumes "app_inv a" "system_good s" "\<exists>os. metrics_ok os co"
  shows "app_inv (a\<lparr>app_co := co, app_sys := s\<rparr>)"
  using assms by (simp add: app_inv_def)

lemma run_cycle_route_inv:
  assumes "run_cycle_route fx now ck a = (rep, a')" "app_inv a"
  shows "app_inv a'"
proof -
  obtain rep1 co s where run: "run_cycle (wired_env (fx_broker fx) (wiring_of fx a) now) ck (app_co a, app_sys a) = (rep1, co, s)"
    by (rule prod_cases3)
  obtain os where m: "metrics_ok os (app_co a)" using assms(2) by (auto simp: app_inv_def)
  have "\<exists>os. metrics_ok os co" using run_cycle_history [OF run m] by blast
  moreover have "system_good s" using good_cycle [OF run] assms(2) by (simp add: app_inv_def)
  ultimately show ?thesis using assms run cycle_part by (auto simp: run_cycle_route_def)
qed

lemma background_part: "app_inv a \<Longrightarrow> background_inv bg \<Longrightarrow> app_inv (a\<lparr>app_bg := bg\<rparr>)"
  by (simp add: app_inv_def)

lemma start_stop_inv:
  "app_inv a \<Longrightarrow> app_inv (snd (start_loops a))" "app_inv a \<Longrightarrow> app_inv (snd (stop_loops now duration a))"
  using bg_step_inv [OF bg_step.start] bg_step_inv [OF bg_step.stop]
  by (auto simp: start_loops_def stop_loops_def app_inv_def split: prod.split) (metis snd_conv)+

lemma start_stop_quiet: "quiet a (snd (start_loops a))" "quiet a (snd (stop_loops now duration a))"
  by (auto simp: start_loops_def stop_loops_def quiet_def split: prod.split)

lemma background_cycle_cases:
  assumes "bg_task (app_bg a) \<in> {Scheduled, Asleep}"
  obtains rep a1 where "run_cycle_route fx now ck (a\<lparr>app_bg := begin_cycle now (app_bg a)\<rparr>) = (rep, a1)"
    "app_bg a1 = begin_cycle now (app_bg a)"
    "background_cycle fx now ck duration sleeps a =
       a1\<lparr>app_bg := finish_cycle now duration (Inr (cr_error rep)) sleeps (app_bg a1)\<rparr>"
proof -
  obtain rep a1 where run: "run_cycle_route fx now ck (a\<lparr>app_bg := begin_cycle now (app_bg a)\<rparr>) = (rep, a1)" by fastforce
  then have "app_bg a1 = begin_cycle now (app_bg a)" by (auto simp: run_cycle_route_def split: prod.splits)
  moreover have "background_cycle fx now ck duration sleeps a =
       a1\<lparr>app_bg := finish_cycle now duration (Inr (cr_error rep)) sleeps (app_bg a1)\<rparr>"
    using assms run by (simp add: background_cycle_def)
  ultimately show thesis by (rule that [OF run])
qed

lemma background_cycle_inv:
  assumes "app_inv a"
  shows "app_inv (background_cycle fx now ck duration sleeps a)"
proof (cases "bg_task (app_bg a) \<in> {Scheduled, Asleep}")
  case True
  then show ?thesis
  proof (cases rule: background_cycle_cases [of a fx now ck duration sleeps])
    case (1 rep a1)
    let ?b = "begin_cycle now (app_bg a)"
    have b: "background_inv (app_bg a)" using assms by (simp add: app_inv_def)
    have b1: "background_inv ?b"
      using True bg_step_inv [OF bg_step.begin_first b] bg_step_inv [OF bg_step.wake b] by blast
    have b2: "background_inv (finish_cycle now duration (Inr (cr_error rep)) sleeps ?b)"
      by (rule bg_step_inv [OF bg_step.cycle_done b1]) (simp add: begin_cycle_def)
    have "app_inv a1" by (rule run_cycle_route_inv [OF 1(1) background_part [OF assms b1]])
    then show ?thesis using 1(2,3) b2 background_part by simp
  qed
qed (use assms in \<open>simp add: background_cycle_def\<close>)

lemma system_part: "app_inv a \<Longrightarrow> system_good s \<Longrightarrow> app_inv (a\<lparr>app_sys := s\<rparr>)"
  by (simp add: app_inv_def)

lemma connectivity_inv:
  assumes "live_connectivity_check fx ticker a = (r, a')"
  shows "app_inv a \<Longrightarrow> app_inv a'" "quiet a a'"
proof -
  obtain c s where run: "wired_connectivity (fx_token fx) (fx_ticker fx) (fx_broker fx) ticker (app_sys a) = (c, s)" by fastforce
  then have a': "a' = a\<lparr>app_sys := s\<rparr>" using assms by (simp add: live_connectivity_check_def)
  show "app_inv a \<Longrightarrow> app_inv a'" using a' good_connectivity [OF run] system_part by (auto simp: app_inv_def)
  show "quiet a a'" using a' wired_safety_frames(5) [OF run] by (simp add: quiet_def)
qed

lemma preflight_route_inv:
  assumes "live_preflight_check fx stage ticker a = (r, a')"
  shows "app_inv a \<Longrightarrow> app_inv a'" "quiet a a'"
proof -
  obtain c s where run: "preflight (preflight_env_of fx a) stage ticker (app_sys a) = (c, s)" by fastforce
  then have a': "a' = a\<lparr>app_sys := s\<rparr>" using assms by (simp add: live_preflight_check_def)
  note run = run [unfolded preflight_env_of_def]
  show "app_inv a \<Longrightarrow> app_inv a'" using a' good_preflight [OF run] system_part by (auto simp: app_inv_def)
  show "quiet a a'" using a' preflight_safety [OF run] by (simp add: quiet_def)
qed

lemma rehearse_metrics:
  assumes "rehearse en cks acc (co, w) = (acc', co', w')" "metrics_ok os co"
  shows "\<exists>os. metrics_ok os co'"
proof -
  obtain x y es where a: "acc = (x, y, es)" by (rule prod_cases3)
  obtain x' y' es' where a': "acc' = (x', y', es')" by (rule prod_cases3)
  show ?thesis using rehearse_counts [OF assms(1) [unfolded a a'] assms(2)] by blast
qed

lemma run_rehearsal_metrics:
  assumes "run_rehearsal pv en clock stage ticker cycles (co, w) = (r, co', w')" "metrics_ok os co"
  shows "\<exists>os. metrics_ok os co'"
proof -
  obtain p w1 where p: "preflight pv stage ticker w = (p, w1)" by fastforce
  obtain acc co2 w2 where re: "rehearse en (map clock [0..<nat (max cycles 1)]) (0, 0, []) (co, w1) = (acc, co2, w2)"
    by (rule prod_cases3)
  have "co' = co \<or> co' = co2"
    using assms(1) p re by (cases p) (auto simp: run_rehearsal_def split: if_splits prod.splits)
  then show ?thesis using assms(2) rehearse_metrics [OF re assms(2)] by blast
qed

lemma live_rehearsal_inv:
  assumes "live_rehearsal fx now clock stage ticker cycles a = (r, a')" "app_inv a"
  shows "app_inv a'"
proof -
  obtain r1 co s where run: "run_rehearsal (preflight_env_of fx a) (wired_env (fx_broker fx) (wiring_of fx a) now) clock stage ticker
      cycles (app_co a, app_sys a) = (r1, co, s)" by (rule prod_cases3)
  then have a': "a' = a\<lparr>app_co := co, app_sys := s\<rparr>" using assms(1) by (simp add: live_rehearsal_def)
  obtain os where m: "metrics_ok os (app_co a)" using assms(2) by (auto simp: app_inv_def)
  have "system_good s"
    using good_rehearsal [OF run [unfolded preflight_env_of_def]] assms(2) by (simp add: app_inv_def)
  then show ?thesis unfolding a' by (rule cycle_part [OF assms(2) _ run_rehearsal_metrics [OF run m]])
qed

section \<open>Accounts\<close>

lemma snapshot_inv: "account_inv d \<Longrightarrow> account_inv (snd (record_snapshot t ty ta c sv mu n d))"
  by (auto simp: record_snapshot_def intro!: account_creates)

lemma cash_flow_inv: "account_inv d \<Longrightarrow> account_inv (snd (record_cash_flow t am tb ta who d))"
  by (auto simp: record_cash_flow_def intro!: account_creates)

lemma account_routes_inv:
  assumes "app_inv a"
  shows "app_inv (snd (add_performance_snapshot now ty ta c sv mu n a))" "app_inv (snd (add_cash_flow t am tb tf who a))"
    "app_inv (snd (detect_flows_route start until amount a))" "app_inv (snd (paper_report_route fx a))"
proof -
  have on: "app_inv (snd (on_account f a))" if "\<And>d. account_inv d \<Longrightarrow> account_inv (snd (f d))" for f
    by (rule on_account_inv(1) [OF prod.collapse [symmetric] that assms])
  show "app_inv (snd (add_performance_snapshot now ty ta c sv mu n a))"
    unfolding add_performance_snapshot_def by (rule on) (rule snapshot_inv)
  show "app_inv (snd (add_cash_flow t am tb tf who a))"
    unfolding add_cash_flow_def by (rule on) (rule cash_flow_inv)
  show "app_inv (snd (detect_flows_route start until amount a))"
    unfolding detect_flows_route_def by (rule on) (rule detect_inv, rule prod.collapse [symmetric])
  show "app_inv (snd (paper_report_route fx a))"
    unfolding paper_report_route_def by (rule on) (rule account_reports(1))
qed

lemma account_routes_quiet:
  "quiet a (snd (add_performance_snapshot now ty ta c sv mu n a))" "quiet a (snd (add_cash_flow t am tb tf who a))"
  "quiet a (snd (detect_flows_route start until amount a))" "quiet a (snd (paper_report_route fx a))"
  "quiet a (snd (get_twr_report start until a))"
  unfolding add_performance_snapshot_def add_cash_flow_def detect_flows_route_def paper_report_route_def get_twr_report_def
  by (rule on_account_quiet [OF prod.collapse [symmetric]])+

section \<open>The universe\<close>

lemma on_universe_inv:
  assumes "on_universe f a = (r, a')" "\<And>r u u'. f u = (r, u') \<Longrightarrow> universe_good u \<Longrightarrow> universe_good u'"
  shows "app_inv a \<Longrightarrow> app_inv a'" "quiet a a'"
proof -
  obtain r1 u where f: "f (ss_universe (app_sys a)) = (r1, u)" by fastforce
  then have a': "a' = a\<lparr>app_sys := (app_sys a)\<lparr>ss_universe := u\<rparr>\<rparr>" using assms(1) by (simp add: on_universe_def)
  show "quiet a a'" by (simp add: a' quiet_def)
  assume i: "app_inv a"
  then have g: "system_good (app_sys a)" by (simp add: app_inv_def)
  have "system_good ((app_sys a)\<lparr>ss_universe := u\<rparr>)"
    using good_tables(3) [OF g assms(2) [OF f]] system_goodD [OF g] by blast
  then show "app_inv a'" unfolding a' by (rule system_part [OF i])
qed

lemma rebalance_tables:
  assumes "rebalance_universe cfg f tickers (u, c, d, e) = (r, u', c', d', e')"
  shows "d' = d \<or> d' = snd (list_open_positions d)" "ca_rows c' = ca_rows c"
proof -
  obtain q u1 where q: "query_symbols all_symbols 20000 \<lparr>se_loaded = [], se_new = []\<rparr> u = (q, u1)" by fastforce
  obtain ps d1 where ps: "list_open_positions d = (ps, d1)" by fastforce
  have "d' = d \<or> d' = d1"
    using assms q ps by (cases q; cases ps) (auto simp: rebalance_universe_def Let_def split: prod.splits sum.splits list.splits)
  then show "d' = d \<or> d' = snd (list_open_positions d)" using ps by simp
  show "ca_rows c' = ca_rows c"
    using assms by (cases rule: rebalance_cases) (auto dest: apply_target_frame)
qed

lemma dashboard_rebalance_inv:
  assumes "dashboard_universe_rebalance seeds tickers a = (r, a')"
  shows "app_inv a \<Longrightarrow> app_inv a'" "quiet a a'"
proof -
  let ?s = "app_sys a"
  obtain r1 u c d e where run: "rebalance_universe (sv_config (app_service a)) (\<lambda>e. (seeds, e)) tickers
      (ss_universe ?s, ss_candles ?s, ss_odb ?s, ()) = (r1, u, c, d, e)" by (rule prod_cases5)
  then have a': "a' = a\<lparr>app_sys := ?s\<lparr>ss_universe := u, ss_candles := c, ss_odb := d\<rparr>\<rparr>"
    using assms by (simp add: dashboard_universe_rebalance_def)
  show "quiet a a'" by (simp add: a' quiet_def)
  assume i: "app_inv a"
  then have g: "system_good ?s" by (simp add: app_inv_def)
  have "odb_inv d" using rebalance_tables(1) [OF run] system_goodD [OF g]
    by (auto simp: list_open_positions_def odb_inv_def split: if_splits)
  moreover have "candles_inv c" using candles_rows [OF rebalance_tables(2) [OF run]] system_goodD [OF g] by simp
  moreover have "universe_good u" using rebalance_good [OF run] system_goodD [OF g] by simp
  ultimately have "system_good (?s\<lparr>ss_universe := u, ss_candles := c, ss_odb := d\<rparr>)" by (intro good_tables(1) [OF g])
  then show "app_inv a'" unfolding a' by (rule system_part [OF i])
qed


section \<open>Backtests\<close>

text \<open>A route that may start a run changes the jobs by at most that one start.\<close>

definition submits :: "string \<Rightarrow> backtests \<Rightarrow> backtests \<Rightarrow> bool" where
  "submits job_id b b' \<longleftrightarrow> b' = b \<or> (\<exists>now cs sgs s meta. b' = start_job job_id now cs sgs s meta b)"

abbreviation run_ids :: "backtests \<Rightarrow> string set" where
  "run_ids b \<equiv> ru_job ` set (bs_runs b)"

lemma submits_refl [simp]: "submits job_id b b"
  by (simp add: submits_def)

lemma submits_start [simp]: "submits job_id b (start_job job_id now cs sgs s meta b)"
  unfolding submits_def by blast

lemma submits_inv: "submits job_id b b' \<Longrightarrow> bt_inv mx b \<Longrightarrow> job_id \<notin> run_ids b \<Longrightarrow> bt_inv mx b'"
  by (auto simp: submits_def intro: start_job_inv)

lemma submits_ids: "submits job_id b b' \<Longrightarrow> run_ids b' \<subseteq> insert job_id (run_ids b)"
  by (auto simp: submits_def start_job_def)

lemma run_backtest_submits: "run_backtest cfg job_id created cs sgs sl b = (r, b') \<Longrightarrow> submits job_id b b'"
proof -
  assume run: "run_backtest cfg job_id created cs sgs sl b = (r, b')"
  have st: "submits job_id b b1" if "start_with_meta cfg src job_id created cs sgs s b = (q, b1)" for src s q b1
    using that by (rule start_with_meta_cases) auto
  show ?thesis using run by (auto simp: run_backtest_def split: sum.splits prod.splits if_splits dest: st)
qed

lemma manual_backtest_submits:
  assumes "start_manual_backtest cfg civil job_id created req (d, b) = (r, d', b')"
  shows "ca_rows d' = ca_rows d" "submits job_id b b'"
proof -
  show "ca_rows d' = ca_rows d"
    using manual_backtest_cases [OF assms] by (auto dest: manual_run_cases(1))
  show "submits job_id b b'"
    using manual_backtest_cases [OF assms]
  proof
    assume "\<exists>strat slippage. build_strategy_instance (mr_strategy_id req) (py_strip (mr_timeframe req)) (mr_k req) = Inr strat \<and>
        \<not> bad_slippage slippage \<and>
        manual_run cfg civil job_id created req (py_strip (mr_ticker req)) (py_strip (mr_timeframe req)) slippage strat (d, b) = (r, d', b')"
    then obtain strat slippage where run:
      "manual_run cfg civil job_id created req (py_strip (mr_ticker req)) (py_strip (mr_timeframe req)) slippage strat (d, b) = (r, d', b')"
      by blast
    show ?thesis
    proof (cases "queued r")
      case True
      then show ?thesis using manual_run_cases(3) [OF run] by fastforce
    qed (use manual_run_cases(2) [OF run] in simp)
  qed simp
qed

lemma trigger_now_submits: "trigger_now n why t job_id created cs s (sc, b) = (r, sc', b') \<Longrightarrow> submits job_id b b'"
  by (auto simp: trigger_now_def skip_def Let_def split: if_splits)

lemma trigger_if_due_submits: "trigger_if_due p t t' job_id created cs s (sc, b) = (r, sc', b') \<Longrightarrow> submits job_id b b'"
  by (auto simp: trigger_if_due_def skip_def Let_def split: if_splits dest: trigger_now_submits)

lemma auto_candles_good:
  assumes "load_auto_backtest_candles n tf s = (cs, s')"
  shows "system_good s \<Longrightarrow> system_good s'" "ss_safety s' = ss_safety s"
proof -
  obtain ts s1 where t: "wired_tickers s = (ts, s1)" by fastforce
  have "s' = s1 \<or> (\<exists>c. ca_rows c = ca_rows (ss_candles s1) \<and> s' = s1\<lparr>ss_candles := c\<rparr>)"
    using assms t by (auto simp: load_auto_backtest_candles_def split: sum.splits list.splits prod.splits dest: list_recent_frame)
  moreover have "system_good (s1\<lparr>ss_candles := c\<rparr>)" if "system_good s1" "ca_rows c = ca_rows (ss_candles s1)" for c
    using good_tables(4) [OF that(1)] system_goodD [OF that(1)] candles_rows [OF that(2)] by blast
  ultimately show "system_good s \<Longrightarrow> system_good s'" "ss_safety s' = ss_safety s"
    using good_tickers [OF t] wired_safety_frames(2) [OF t] by auto
qed

lemma backtest_part:
  assumes "app_inv a" "system_good s" "submits job_id (app_backtests a) b" "job_id \<notin> run_ids (app_backtests a)"
  shows "app_inv (a\<lparr>app_sys := s, app_scheduler := sc, app_backtests := b\<rparr>)" "app_inv (a\<lparr>app_sys := s, app_backtests := b\<rparr>)"
    "app_inv (a\<lparr>app_sys := s, app_scheduler := sc\<rparr>)" "app_inv (a\<lparr>app_backtests := b\<rparr>)"
  using assms submits_inv [OF assms(3) _ assms(4)] by (simp_all add: app_inv_def)

text \<open>What the four routes share: quiet, and at most one new run.\<close>

lemma run_backtest_route_parts:
  assumes "run_backtest_route created job_id cs sgs sl a = (r, a')"
  shows "quiet a a'" "submits job_id (app_backtests a) (app_backtests a')"
    "app_inv a \<Longrightarrow> job_id \<notin> run_ids (app_backtests a) \<Longrightarrow> app_inv a'"
proof -
  obtain r1 b where run: "run_backtest (sv_config (app_service a)) job_id created cs sgs sl (app_backtests a) = (r1, b)" by fastforce
  then have a': "a' = a\<lparr>app_backtests := b\<rparr>" using assms by (simp add: run_backtest_route_def)
  note s = run_backtest_submits [OF run]
  show "quiet a a'" "submits job_id (app_backtests a) (app_backtests a')" using a' s by (simp_all add: quiet_def)
  show "app_inv a \<Longrightarrow> job_id \<notin> run_ids (app_backtests a) \<Longrightarrow> app_inv a'"
    unfolding a' by (rule backtest_part(4) [where s = "app_sys a", OF _ _ s]) (simp_all add: app_inv_def)
qed

lemma manual_run_route_parts:
  assumes "manual_run_route fx created job_id req a = (r, a')"
  shows "quiet a a'" "submits job_id (app_backtests a) (app_backtests a')"
    "app_inv a \<Longrightarrow> job_id \<notin> run_ids (app_backtests a) \<Longrightarrow> app_inv a'"
proof -
  let ?s = "app_sys a"
  obtain r1 c b where run: "start_manual_backtest (sv_config (app_service a)) (fx_civil fx) job_id created req (ss_candles ?s, app_backtests a) = (r1, c, b)"
    by (rule prod_cases3)
  then have a': "a' = a\<lparr>app_sys := ?s\<lparr>ss_candles := c\<rparr>, app_backtests := b\<rparr>" using assms by (simp add: manual_run_route_def)
  note s = manual_backtest_submits [OF run]
  show "quiet a a'" "submits job_id (app_backtests a) (app_backtests a')" using a' s by (simp_all add: quiet_def)
  assume i: "app_inv a" and n: "job_id \<notin> run_ids (app_backtests a)"
  then have g: "system_good ?s" by (simp add: app_inv_def)
  have "system_good (?s\<lparr>ss_candles := c\<rparr>)"
    using good_tables(4) [OF g] system_goodD [OF g] candles_rows [OF s(1)] by blast
  then show "app_inv a'" unfolding a' by (rule backtest_part(2) [OF i _ s(2) n])
qed

lemma run_auto_now_parts:
  assumes "run_auto_now fx created job_id a = (r, a')"
  shows "quiet a a'" "submits job_id (app_backtests a) (app_backtests a')"
    "app_inv a \<Longrightarrow> job_id \<notin> run_ids (app_backtests a) \<Longrightarrow> app_inv a'"
proof -
  obtain cs s1 where l: "load_auto_backtest_candles 240 ''5m'' (app_sys a) = (cs, s1)" by fastforce
  obtain r1 s sc b where run: "auto_backtest_run_now (sv_config (app_service a)) (fx_civil fx created) job_id created
      (app_sys a, app_scheduler a, app_backtests a) = (r1, s, sc, b)" by (rule prod_cases4)
  then have a': "a' = a\<lparr>app_sys := s, app_scheduler := sc, app_backtests := b\<rparr>" using assms by (simp add: run_auto_now_def)
  have s: "s = s1" "submits job_id (app_backtests a) b"
    using run l by (auto simp: auto_backtest_run_now_def split: sum.splits pyfloat.splits prod.splits if_splits dest: trigger_now_submits)
  note g = auto_candles_good [OF l]
  show "quiet a a'" "submits job_id (app_backtests a) (app_backtests a')" using a' s g by (simp_all add: quiet_def)
  assume i: "app_inv a" and n: "job_id \<notin> run_ids (app_backtests a)"
  have "system_good s" using g s i by (simp add: app_inv_def)
  then show "app_inv a'" unfolding a' by (rule backtest_part(1) [OF i _ s(2) n])
qed

lemma trigger_task_parts:
  shows "quiet a (trigger_task fx now job_id a)" "submits job_id (app_backtests a) (app_backtests (trigger_task fx now job_id a))"
    "app_inv a \<Longrightarrow> job_id \<notin> run_ids (app_backtests a) \<Longrightarrow> app_inv (trigger_task fx now job_id a)"
proof -
  let ?a = "trigger_task fx now job_id a"
  obtain cs s1 where l: "load_auto_backtest_candles 240 ''5m'' (app_sys a) = (cs, s1)" by fastforce
  note g = auto_candles_good [OF l]
  have "\<exists>s sc b. ?a = a\<lparr>app_sys := s, app_scheduler := sc, app_backtests := b\<rparr> \<and> s \<in> {app_sys a, s1} \<and> submits job_id (app_backtests a) b"
  proof -
    let ?p = "fx_schedule fx" and ?t = "fx_civil fx now"
    consider (trig) c sl s where "s \<in> {app_sys a, s1}" "?a = (case trigger_if_due ?p ?t ?t job_id now c sl (app_scheduler a, app_backtests a) of
        (_, sc', b) \<Rightarrow> a\<lparr>app_sys := s, app_scheduler := sc', app_backtests := b\<rparr>)"
      | (off) sc where "?a = a\<lparr>app_sys := s1, app_scheduler := sc\<rparr>"
    proof (cases "run_is_due ?p ?t (app_scheduler a) \<and> \<not> (length cs < 2 \<or> build_signals (sp_max_signals ?p) cs = [])")
      case True
      show thesis
      proof (cases "\<exists>x. backtest_slippage_default (sv_config (app_service a)) = Inr (Fin x)")
        case True
        then obtain x where "backtest_slippage_default (sv_config (app_service a)) = Inr (Fin x)" by blast
        then show thesis using \<open>run_is_due ?p ?t _ \<and> _\<close> l by (intro trig [of s1 cs x]) (simp_all add: trigger_task_def Let_def)
      next
        case False
        then have "?a = a\<lparr>app_sys := s1, app_scheduler := (app_scheduler a)\<lparr>sc_last_checked_at := Some ?t\<rparr>\<rparr>"
          using \<open>run_is_due ?p ?t _ \<and> _\<close> l
          by (cases "backtest_slippage_default (sv_config (app_service a))") (auto simp: trigger_task_def Let_def split: pyfloat.split)
        then show thesis by (rule off)
      qed
    next
      case False
      show thesis
      proof (cases "run_is_due ?p ?t (app_scheduler a)")
        case True
        with False show thesis using l by (intro trig [of s1 cs 0]) (simp_all add: trigger_task_def Let_def)
      next
        case False
        then show thesis by (intro trig [of "app_sys a" "[]" 0]) (simp_all add: trigger_task_def Let_def)
      qed
    qed
    then show ?thesis
    proof cases
      case trig
      obtain r sc' b where t: "trigger_if_due ?p ?t ?t job_id now c sl (app_scheduler a, app_backtests a) = (r, sc', b)" by (rule prod_cases3)
      then have "?a = a\<lparr>app_sys := s, app_scheduler := sc', app_backtests := b\<rparr>" using trig(2) by simp
      then show ?thesis using trig(1) trigger_if_due_submits [OF t] by blast
    next
      case off
      have "?a = a\<lparr>app_sys := s1, app_scheduler := sc, app_backtests := app_backtests a\<rparr>" using off by simp
      then show ?thesis using submits_refl by blast
    qed
  qed
  then obtain s sc b where a': "?a = a\<lparr>app_sys := s, app_scheduler := sc, app_backtests := b\<rparr>" "s \<in> {app_sys a, s1}"
    and sb: "submits job_id (app_backtests a) b" by blast
  show "quiet a ?a" "submits job_id (app_backtests a) (app_backtests ?a)" using a' sb g by (auto simp: quiet_def)
  assume i: "app_inv a" and n: "job_id \<notin> run_ids (app_backtests a)"
  have "system_good s" using a'(2) g i by (auto simp: app_inv_def)
  then show "app_inv ?a" unfolding a'(1) by (rule backtest_part(1) [OF i _ sb n])
qed

lemma backtest_work_parts:
  shows "quiet a (backtest_work snk now i a)" "run_ids (app_backtests (backtest_work snk now i a)) = run_ids (app_backtests a)"
    "app_inv a \<Longrightarrow> app_inv (backtest_work snk now i a)"
proof -
  let ?b = "app_backtests a" and ?a = "backtest_work snk now i a"
  have "quiet a ?a \<and> run_ids (app_backtests ?a) = run_ids ?b \<and> (app_inv a \<longrightarrow> app_inv ?a)"
  proof (cases "i < length (bs_runs ?b)")
    case True
    obtain r js al where st: "run_step snk now (bs_runs ?b ! i) (bs_jobs ?b, bs_alerts ?b) = (r, js, al)" by (rule prod_cases3)
    have a': "?a = a\<lparr>app_backtests := ?b\<lparr>bs_runs := (bs_runs ?b)[i := r], bs_jobs := js, bs_alerts := al\<rparr>\<rparr>"
      using True st by (simp add: backtest_work_def Let_def)
    have "map ru_job ((bs_runs ?b)[i := r]) = map ru_job (bs_runs ?b)"
      using True run_step_same [OF st] by (simp add: map_update list_update_same_conv)
    then have "ru_job ` set ((bs_runs ?b)[i := r]) = ru_job ` set (bs_runs ?b)" by (metis set_map)
    then show ?thesis using work_inv [OF _ True st] unfolding a' by (simp add: quiet_def app_inv_def)
  qed (simp add: backtest_work_def Let_def)
  then show "quiet a ?a" "run_ids (app_backtests ?a) = run_ids ?b" "app_inv a \<Longrightarrow> app_inv ?a" by blast+
qed

lemma watch_task_parts:
  "app_inv (watch_task fx now job_id a) = app_inv a" "quiet a (watch_task fx now job_id a)"
  "app_backtests (watch_task fx now job_id a) = app_backtests a"
  by (simp_all add: watch_task_def app_inv_def quiet_def)

section \<open>Logins\<close>

lemma web_step_honest: "adds_honest s (web_step ap now c s)"
proof -
  have vs: "adds_honest s (case k of None \<Rightarrow> s | Some sid \<Rightarrow> snd (validate_session now sid ip s))" for k ip
    using auth_step_honest [of s ap now "ValidateSession (the k) ip"] adds_honest_same [OF refl] by (cases k) simp_all
  show ?thesis
  proof (cases c)
    case (CallVerify rq cd token)
    obtain r s' where v: "verify_otp ap now token (client_ip rq) cd s = (r, s')" by fastforce
    then have "adds_honest s s'" using verify_otp_honest [of s ap now token "client_ip rq" cd] by simp
    then show ?thesis using v CallVerify by (cases r) (simp_all add: otp_verify_route_def)
  next
    case (CallLogout rq)
    show ?thesis
      using auth_step_honest [of s ap now "RevokeSession (the (hq_cookie rq))"] adds_honest_same [OF refl] CallLogout
      by (cases "hq_cookie rq") (simp_all add: auth_logout_route_def)
  qed (simp_all add: otp_request_route_def request_otp_honest guard_state vs)
qed

lemma audit_part: "app_inv a \<Longrightarrow> \<forall>x\<in>set (ad_rows d). honest_row x \<Longrightarrow> app_inv (a\<lparr>app_auth := au, app_audit := d\<rparr>)"
  by (simp add: app_inv_def)

lemma on_auth_parts:
  assumes "on_auth fx now f a = (r, a')" "adds_honest (app_auth a) (snd (f (app_auth a)))"
  shows "app_inv a \<Longrightarrow> app_inv a'" "quiet a a'" "app_backtests a' = app_backtests a"
proof -
  obtain r1 au where f: "f (app_auth a) = (r1, au)" by fastforce
  let ?es = "drop (length (au_audit (app_auth a))) (au_audit au)"
  have a': "a' = a\<lparr>app_auth := au, app_audit := log_all (fx_detail fx) now ?es (app_audit a)\<rparr>"
    using assms(1) f by (simp add: on_auth_def)
  have "\<forall>e\<in>set ?es. honest e" using assms(2) f by (auto simp: adds_honest_def)
  note h = log_all_honest [OF this, where detail = "fx_detail fx" and now = now and d = "app_audit a"]
  show "app_inv a'" if "app_inv a"
  proof -
    from that have "\<forall>x\<in>set (ad_rows (app_audit a)). honest_row x" by (simp add: app_inv_def)
    then show ?thesis unfolding a' by (intro audit_part [OF that] h)
  qed
  show "quiet a a'" "app_backtests a' = app_backtests a" by (simp_all add: a' quiet_def)
qed

lemma login_parts:
  assumes "on_auth fx now (\<lambda>s. ((), web_step ap now c s)) a = (r, a')"
  shows "app_inv a \<Longrightarrow> app_inv a'" "quiet a a'" "app_backtests a' = app_backtests a"
  using on_auth_parts [OF assms] web_step_honest by simp_all

text \<open>The guard: what it does itself is quiet; what it lets through happens after it.\<close>

lemma guard_parts:
  assumes "on_auth fx now (require_dashboard_session now rq) a = (r, a')"
  shows "app_inv a \<Longrightarrow> app_inv a'" "quiet a a'" "app_backtests a' = app_backtests a"
  using on_auth_parts [OF assms] web_step_honest [of "app_auth a" _ now "CallGuarded rq"] by simp_all

lemma behind_guard_cases:
  assumes "behind_guard fx now rq h a = (r, a')"
  obtains err where "on_auth fx now (require_dashboard_session now rq) a = (Inl err, a')" "r = Unauthorized err"
  | row a1 x where "on_auth fx now (require_dashboard_session now rq) a = (Inr row, a1)" "h a1 = (x, a')" "r = Answer x"
  using assms by (auto simp: behind_guard_def split: prod.splits sum.splits)

section \<open>Startup and the tasks\<close>

lemma coverage_counts_rows: "coverage_counts tfs (u, c) = (r, u', c') \<Longrightarrow> ca_rows c' = ca_rows c"
proof (induction tfs arbitrary: c r)
  case (Cons tf tfs)
  obtain r1 u1 c1 where one: "coverage_counts tfs (u, ca_tick c) = (r1, u1, c1)" by (rule prod_cases3)
  show ?case
  proof (cases "ca_fails c")
    case False
    then have "c' = c1" "u' = u1" using Cons.prems one by (cases r1; simp)+
    then show ?thesis using Cons.IH one by fastforce
  qed (use Cons.prems in auto)
qed simp

lemma coverage_rows: "candle_bootstrap_coverage tfs (u, c) = (r, u', c') \<Longrightarrow> ca_rows c' = ca_rows c"
  by (auto simp: candle_bootstrap_coverage_def split: sum.splits prod.splits dest: coverage_counts_rows)

lemma startup_existing_rows:
  assumes "startup_existing cfg (u, c) = (r, u', c')"
  shows "ca_rows c' = ca_rows c"
proof -
  obtain r1 u1 c1 where cov: "candle_bootstrap_coverage initial_bootstrap_timeframes (u, c) = (r1, u1, c1)" by (rule prod_cases3)
  obtain r2 u2 c2 where rec: "recompute_active_universe cfg empty_session (u1, c1) = (r2, u2, c2)" by (rule prod_cases3)
  have "c' \<in> {c1, c2}"
    using assms cov rec by (auto simp: startup_existing_def split: sum.splits prod.splits)
  then show ?thesis using coverage_rows [OF cov] recompute_frame(2) [OF rec] by auto
qed

lemma lifespan_rest:
  assumes "lifespan_startup f en (sv, u, c, bg, e) = (r, sv', u', c', bg', e')"
  shows "config_ok (sv_config sv) \<Longrightarrow> config_ok (sv_config sv')" "ca_rows c' = ca_rows c" "background_inv bg \<Longrightarrow> background_inv bg'"
proof -
  obtain r0 sv1 where l: "load_from_db sv = (r0, sv1)" by fastforce
  obtain m u1 where m: "migrate_universe_source_labels u = (m, u1)" by fastforce
  obtain rep u2 e1 where b: "bootstrap_universe_on_first_run f (u1, e) = (rep, u2, e1)" by (rule prod_cases3)
  obtain r3 u3 where n: "startup_new u2 = (r3, u3)" by fastforce
  obtain r4 u4 c4 where x: "startup_existing (sv_config sv1) (u2, c) = (r4, u4, c4)" by (rule prod_cases3)
  have parts: "sv' = sv1" "c' \<in> {c, c4}" "bg' \<in> {bg, snd (bg_start bg)}"
    using assms l m b n x by (auto simp: lifespan_startup_def Let_def split: sum.splits if_splits prod.splits)
  show "config_ok (sv_config sv) \<Longrightarrow> config_ok (sv_config sv')" using parts load_from_db_ok [OF l] by simp
  show "ca_rows c' = ca_rows c" using parts startup_existing_rows [OF x] by auto
  show "background_inv bg \<Longrightarrow> background_inv bg'" using parts bg_step_inv [OF bg_step.start] by auto
qed

lemma startup_parts:
  shows "app_inv a \<Longrightarrow> app_inv (startup seeds en a)" "ss_safety (app_sys (startup seeds en a)) = ss_safety (app_sys a)"
    "app_backtests (startup seeds en a) = app_backtests a"
proof -
  let ?s = "app_sys a"
  obtain r sv u c bg e where run: "lifespan_startup (\<lambda>e. (seeds, e)) en (app_service a, ss_universe ?s, ss_candles ?s, app_bg a, ()) = (r, sv, u, c, bg, e)"
    by (rule prod_cases6)
  let ?st = "case r of Inl _ \<Rightarrow> None | Inr x \<Rightarrow> Some x"
  have a': "startup seeds en a = a\<lparr>app_service := sv, app_sys := ?s\<lparr>ss_universe := u, ss_candles := c\<rparr>, app_bg := bg, app_startup := ?st\<rparr>"
    using run by (simp add: startup_def Let_def)
  show "ss_safety (app_sys (startup seeds en a)) = ss_safety ?s" "app_backtests (startup seeds en a) = app_backtests a"
    by (simp_all add: a')
  assume i: "app_inv a"
  then have g: "system_good ?s" by (simp add: app_inv_def)
  have "universe_good u" "candles_inv c"
    using lifespan_good [OF run] candles_rows [OF lifespan_rest(2) [OF run]] system_goodD [OF g] by simp_all
  then have "system_good (?s\<lparr>ss_universe := u, ss_candles := c\<rparr>)" using good_tables(2) [OF g] system_goodD [OF g] by blast
  then show "app_inv (startup seeds en a)" using i lifespan_rest(1,3) [OF run] unfolding a' by (simp add: app_inv_def)
qed

lemma first_run_candles:
  assumes "bootstrap_candles_on_first_run k sc ensure fetch ts tfs (d, e) = (st, d', e')" "distinct tfs" "candles_inv d"
  shows "candles_inv d'"
proof -
  obtain st1 d1 e1 where z: "seed_tickers fetch tfs ts (candle_status_init ts) (d, snd (ensure e)) = (st1, d1, e1)" by (rule prod_cases3)
  have "seeded_ok (length (ca_rows d)) tfs (candle_status_init ts) d"
    using assms(3) by (simp add: seeded_ok_def candle_status_init_def)
  then have "seeded_ok (length (ca_rows d)) tfs st1 d1" using seed_tickers_ok [OF assms(2) z] by blast
  then have "candles_inv d1" by (simp add: seeded_ok_def)
  moreover have "d' = d \<or> d' = d1"
    using assms(1) z by (cases "ensure e") (auto simp: bootstrap_candles_on_first_run_def Let_def split: if_splits sum.splits prod.splits)
  ultimately show ?thesis using assms(3) by auto
qed

lemma post_seed_task_parts:
  shows "app_inv a \<Longrightarrow> app_inv (post_seed_task k sc ensure fetch a)" "quiet a (post_seed_task k sc ensure fetch a)"
    "app_backtests (post_seed_task k sc ensure fetch a) = app_backtests a"
proof -
  let ?s = "app_sys a" and ?a = "post_seed_task k sc ensure fetch a"
  have "(app_inv a \<longrightarrow> app_inv ?a) \<and> quiet a ?a \<and> app_backtests ?a = app_backtests a"
  proof (cases "app_startup a")
    case (Some p)
    obtain su ts where p: "p = (su, ts)" by fastforce
    obtain v b n where v: "ss_venue ?s = ((v, b), n)" by (metis prod.exhaust)
    obtain r su' u c b' where run: "run_post_seed_bootstrap k sc ensure fetch (sv_config (app_service a)) ts (su, ss_universe ?s, ss_candles ?s, b)
        = (r, su', u, c, b')" by (rule prod_cases5)
    have a': "?a = a\<lparr>app_sys := ?s\<lparr>ss_venue := ((v, b'), n), ss_universe := u, ss_candles := c\<rparr>, app_startup := Some (su', ts)\<rparr>"
      using Some p v run by (simp add: post_seed_task_def Let_def)
    have "app_inv ?a" if i: "app_inv a"
    proof -
      from i have g: "system_good ?s" by (simp add: app_inv_def)
      obtain cs c1 e1 where first: "bootstrap_candles_on_first_run k sc ensure fetch ts initial_bootstrap_timeframes (ss_candles ?s, b) = (cs, c1, e1)"
        by (rule prod_cases3)
      obtain r2 u2 c2 where rec: "recompute_active_universe (sv_config (app_service a)) empty_session (ss_universe ?s, c1) = (r2, u2, c2)"
        by (rule prod_cases3)
      have "c = c2" using run first rec by (auto simp: run_post_seed_bootstrap_def Let_def split: sum.splits prod.splits)
      moreover have "candles_inv c1"
        by (rule first_run_candles [OF first]) (use system_goodD [OF g] in \<open>simp_all add: initial_bootstrap_timeframes_def\<close>)
      ultimately have "candles_inv c" using candles_rows [OF recompute_frame(2) [OF rec]] by simp
      moreover have "universe_good u" using post_seed_good [OF run] system_goodD [OF g] by simp
      ultimately have "system_good (?s\<lparr>ss_venue := ((v, b'), n), ss_universe := u, ss_candles := c\<rparr>)"
        using good_tables(5) [OF g] system_goodD [OF g] by blast
      then show ?thesis using i unfolding a' by (simp add: app_inv_def)
    qed
    then show ?thesis by (simp add: a' quiet_def)
  qed (simp add: post_seed_task_def)
  then show "app_inv a \<Longrightarrow> app_inv ?a" "quiet a ?a" "app_backtests ?a = app_backtests a" by blast+
qed

lemma backfill_task_parts:
  shows "app_inv a \<Longrightarrow> app_inv (backfill_task fx a)" "quiet a (backfill_task fx a)"
    "app_backtests (backfill_task fx a) = app_backtests a"
proof -
  let ?s = "app_sys a" and ?a = "backfill_task fx a" and ?f = "resilient_fetch (venue_candles (fx_broker fx)) 1"
  have "(app_inv a \<longrightarrow> app_inv ?a) \<and> quiet a ?a \<and> app_backtests ?a = app_backtests a"
  proof (cases "mt_task (ss_maint ?s) = None")
    case False
    obtain rep u v c where run: "run_post_market_daily_backfill ?f (ss_universe ?s, ss_venue ?s, ss_candles ?s) = (rep, u, v, c)"
      by (rule prod_cases4)
    obtain m where a': "?a = a\<lparr>app_sys := ?s\<lparr>ss_universe := u, ss_venue := v, ss_candles := c, ss_maint := m\<rparr>\<rparr>"
      using False run by (simp add: backfill_task_def Let_def)
    have "app_inv ?a" if i: "app_inv a"
    proof -
      from i have g: "system_good ?s" by (simp add: app_inv_def)
      obtain q u1 where q: "list_universe_tickers 20000 (ss_universe ?s) = (q, u1)" by fastforce
      have u: "u = u1" "candles_inv c"
        using run q system_goodD [OF g]
        by (auto simp: run_post_market_daily_backfill_def split: sum.splits prod.splits dest: live.backfill_all_inv)
      have "un_rows u1 = un_rows (ss_universe ?s)" using q by (auto simp: list_universe_tickers_def select_tickers_def split: if_splits)
      then have "universe_good u" using u(1) good_rows system_goodD [OF g] by metis
      then have "system_good (?s\<lparr>ss_universe := u, ss_venue := v, ss_candles := c, ss_maint := m\<rparr>)"
        using good_tables(6) [OF g] u(2) system_goodD [OF g] by blast
      then show ?thesis unfolding a' by (rule system_part [OF i])
    qed
    then show ?thesis by (simp add: a' quiet_def)
  qed (simp add: backfill_task_def Let_def)
  then show "app_inv a \<Longrightarrow> app_inv ?a" "quiet a ?a" "app_backtests ?a = app_backtests a" by blast+
qed

end
