(* ===== verification/App_Runs.thy ===== *)
theory App_Runs
  imports App_Routes
begin

text \<open>
  Everything that can happen to the application, and sequences of it. What every call keeps, every run of
  calls keeps. The properties: the application stays well formed and its Loop A serves its positions,
  a halt lasts until it is resumed, and a setting has few writers.
\<close>

section \<open>One step\<close>

text \<open>The runs a call may start.\<close>

fun dashboard_jobs :: "dashboard_call \<Rightarrow> string list" where
  "dashboard_jobs (ManualBacktest job_id req) = [job_id]"
| "dashboard_jobs _ = []"

fun call_jobs :: "'b app_call \<Rightarrow> string list" where
  "call_jobs (RunBacktest job_id cs sgs slippage) = [job_id]"
| "call_jobs (RunAutoBacktest job_id) = [job_id]"
| "call_jobs (TriggerTask job_id) = [job_id]"
| "call_jobs (Dashboard rq c) = dashboard_jobs c"
| "call_jobs _ = []"

lemma put_settings_runs [simp]: "app_backtests (put_settings s a) = app_backtests a"
  by (simp add: put_settings_def split: prod.split)

lemma on_account_runs: "on_account f a = (r, a') \<Longrightarrow> app_backtests a' = app_backtests a"
  by (auto simp: on_account_def split: prod.splits)

lemma report_sources_runs: "report_sources_of fx a = (src, a') \<Longrightarrow> app_backtests a' = app_backtests a"
  by (auto simp: report_sources_of_def split: prod.splits dest: on_account_runs)

lemma text_runs:
  "daily_text fx day a = (lns, a') \<Longrightarrow> app_backtests a' = app_backtests a"
  "weekly_text fx day days a = (lns, a') \<Longrightarrow> app_backtests a' = app_backtests a"
  by (auto simp: daily_text_def weekly_text_def split: prod.splits dest: report_sources_runs)

lemma report_runs:
  "send_daily_report fx ok day a = (r, a') \<Longrightarrow> app_backtests a' = app_backtests a"
  "send_weekly_report_route fx ok day days a = (r2, a') \<Longrightarrow> app_backtests a' = app_backtests a"
  "paper_report_route fx a = (r3, a') \<Longrightarrow> app_backtests a' = app_backtests a"
  by (auto simp: send_daily_report_def send_weekly_report_route_def paper_report_route_def Let_def
      split: prod.splits if_splits dest!: text_runs on_account_runs)

lemma command_runs: "telegram_command fx now cmd a = (r, a') \<Longrightarrow> app_backtests a' = app_backtests a"
  by (auto simp: telegram_command_def Let_def split: prod.splits if_splits dest!: text_runs(1) report_runs(3))

lemma connectivity_runs: "live_connectivity_check fx tk a = (r, a') \<Longrightarrow> app_backtests a' = app_backtests a"
  by (auto simp: live_connectivity_check_def split: prod.splits)

lemma summary_parts:
  assumes "dashboard_summary fx now a = (r, a')"
  shows "app_inv a \<Longrightarrow> app_inv a'" "quiet a a'" "app_backtests a' = app_backtests a"
proof -
  obtain twr a1 where t: "get_twr_report None None a = (twr, a1)" by fastforce
  obtain p a2 where p: "paper_report_route fx a1 = (p, a2)" by fastforce
  obtain c a3 where c: "live_connectivity_check fx None a2 = (c, a3)" by fastforce
  have a': "a' = a3" using assms t p c by (simp add: dashboard_summary_def)
  note t = t [unfolded get_twr_report_def]
  show "app_inv a \<Longrightarrow> app_inv a'"
    using a' connectivity_inv(1) [OF c] paper_report_inv(1) [OF p] on_account_inv(1) [OF t] account_reports(3) by blast
  show "quiet a a'"
    using a' connectivity_inv(2) [OF c] paper_report_inv(2) [OF p] on_account_quiet [OF t] quiet_trans by metis
  show "app_backtests a' = app_backtests a"
    using a' connectivity_runs [OF c] report_runs(3) [OF p] on_account_runs [OF t] by simp
qed

text \<open>The runs after a call: those before it, and what it submits.\<close>

lemma dashboard_step_runs: "run_ids (app_backtests (dashboard_step fx now c a)) \<subseteq> run_ids (app_backtests a) \<union> set (dashboard_jobs c)"
proof (cases c)
  case ReadSummary
  then show ?thesis by (simp add: summary_parts(3) [OF prod.collapse [symmetric]])
next
  case (ManualBacktest job_id req)
  then show ?thesis by (simp add: submits_ids [OF manual_run_route_parts(2) [OF prod.collapse [symmetric]]])
qed (auto simp: dashboard_set_def set_config_def dashboard_universe_rebalance_def on_universe_def Let_def split: prod.split sum.split)

lemma quiet_frames:
  "app_backtests (snd (set_config now k v who a)) = app_backtests a"
  "app_backtests (snd (run_cycle_route fx now ck a)) = app_backtests a"
  "app_backtests (snd (start_loops a)) = app_backtests a" "app_backtests (snd (stop_loops now d a)) = app_backtests a"
  "app_backtests (snd (live_preflight_check fx st tk a)) = app_backtests a"
  "app_backtests (snd (live_rehearsal fx now cl st tk n a)) = app_backtests a"
  "app_backtests (snd (on_account f a)) = app_backtests a" "app_backtests (snd (on_universe g a)) = app_backtests a"
  by (auto simp: set_config_def run_cycle_route_def start_loops_def stop_loops_def live_preflight_check_def live_rehearsal_def
      on_account_def on_universe_def split: prod.split)

lemma background_cycle_runs: "app_backtests (background_cycle fx now ck d sl a) = app_backtests a"
  by (auto simp: background_cycle_def run_cycle_route_def split: prod.split)

lemma app_step_runs: "run_ids (app_backtests (app_step fx now c a)) \<subseteq> run_ids (app_backtests a) \<union> set (call_jobs c)"
proof (cases c)
  case (Command cmd)
  then show ?thesis by (simp add: command_runs [OF prod.collapse [symmetric]])
next
  case (DailyReport ok day)
  then show ?thesis by (simp add: report_runs(1) [OF prod.collapse [symmetric]])
next
  case (WeeklyReport ok day days)
  then show ?thesis by (simp add: report_runs(2) [OF prod.collapse [symmetric]])
next
  case (CheckConnectivity tk)
  then show ?thesis by (simp add: connectivity_runs [OF prod.collapse [symmetric]])
next
  case (RunBacktest job_id cs sgs slippage)
  then show ?thesis by (simp add: submits_ids [OF run_backtest_route_parts(2) [OF prod.collapse [symmetric]]])
next
  case (RunAutoBacktest job_id)
  then show ?thesis by (simp add: submits_ids [OF run_auto_now_parts(2) [OF prod.collapse [symmetric]]])
next
  case (Login w)
  then show ?thesis by (simp add: login_parts(3) [OF prod.collapse [symmetric]])
next
  case (Dashboard rq d)
  obtain r a' where run: "behind_guard fx now rq (\<lambda>a. ((), dashboard_step fx now d a)) a = (r, a')" by fastforce
  from run have "run_ids (app_backtests a') \<subseteq> run_ids (app_backtests a) \<union> set (dashboard_jobs d)"
  proof (cases rule: behind_guard_cases)
    case (2 row a1 x)
    then show ?thesis using dashboard_step_runs [of fx now d a1] guard_parts(3) [OF 2(1)] by simp
  qed (simp add: guard_parts(3))
  then show ?thesis using Dashboard run by simp
next
  case (TriggerTask job_id)
  then show ?thesis using submits_ids [OF trigger_task_parts(2)] by simp
qed (simp_all add: quiet_frames add_performance_snapshot_def add_cash_flow_def detect_flows_route_def paper_report_route_def
    startup_parts post_seed_task_parts background_cycle_runs backfill_task_parts backtest_work_parts watch_task_parts)

text \<open>Each call keeps the invariant, if what it submits is new.\<close>

lemma dashboard_step_inv:
  assumes "app_inv a" "set (dashboard_jobs c) \<inter> run_ids (app_backtests a) = {}"
  shows "app_inv (dashboard_step fx now c a)"
proof (cases c)
  case ReadSummary
  then show ?thesis using assms by (simp add: summary_parts(1) [OF prod.collapse [symmetric]])
next
  case (SaveSetting k v)
  then show ?thesis using assms by (simp add: dashboard_set_inv [OF prod.collapse [symmetric]])
next
  case (Rebalance seeds tickers)
  then show ?thesis using assms by (simp add: dashboard_rebalance_inv(1) [OF prod.collapse [symmetric]])
next
  case (BlockHere ticker b)
  then show ?thesis using assms by (simp add: on_universe_inv(1) [OF prod.collapse [symmetric] block_good])
next
  case (ManualBacktest job_id req)
  then show ?thesis using assms by (simp add: manual_run_route_parts(3) [OF prod.collapse [symmetric]])
qed

lemma app_step_inv:
  assumes "app_inv a" "set (call_jobs c) \<inter> run_ids (app_backtests a) = {}"
  shows "app_inv (app_step fx now c a)"
proof (cases c)
  case (PostConfig k v who)
  then show ?thesis using assms by (simp add: set_config_inv [OF prod.collapse [symmetric]])
next
  case (Command cmd)
  then show ?thesis using assms by (simp add: telegram_command_inv [OF prod.collapse [symmetric]])
next
  case (RunCycle ck)
  then show ?thesis using assms by (simp add: run_cycle_route_inv [OF prod.collapse [symmetric]])
next
  case (DailyReport ok day)
  then show ?thesis using assms by (simp add: send_daily_inv(1) [OF prod.collapse [symmetric]])
next
  case (WeeklyReport ok day days)
  then show ?thesis using assms by (simp add: send_weekly_inv(1) [OF prod.collapse [symmetric]])
next
  case (CheckConnectivity tk)
  then show ?thesis using assms by (simp add: connectivity_inv(1) [OF prod.collapse [symmetric]])
next
  case (CheckPreflight st tk)
  then show ?thesis using assms by (simp add: preflight_route_inv(1) [OF prod.collapse [symmetric]])
next
  case (Rehearse cl st tk n)
  then show ?thesis using assms by (simp add: live_rehearsal_inv [OF prod.collapse [symmetric]])
next
  case (UpsertSymbol req)
  then show ?thesis using assms by (simp add: on_universe_inv(1) [OF prod.collapse [symmetric] upsert_good])
next
  case (BlockSymbol ticker b)
  then show ?thesis using assms by (simp add: on_universe_inv(1) [OF prod.collapse [symmetric] block_good])
next
  case (RunBacktest job_id cs sgs sl)
  then show ?thesis using assms by (simp add: run_backtest_route_parts(3) [OF prod.collapse [symmetric]])
next
  case (RunAutoBacktest job_id)
  then show ?thesis using assms by (simp add: run_auto_now_parts(3) [OF prod.collapse [symmetric]])
next
  case (Login w)
  then show ?thesis using assms by (simp add: login_parts(1) [OF prod.collapse [symmetric]])
next
  case (Dashboard rq d)
  obtain r a' where run: "behind_guard fx now rq (\<lambda>a. ((), dashboard_step fx now d a)) a = (r, a')" by fastforce
  from run have "app_inv a'"
  proof (cases rule: behind_guard_cases)
    case (2 row a1 x)
    then show ?thesis
      using dashboard_step_inv [of a1 d fx now] guard_parts(1,3) [OF 2(1)] assms Dashboard by simp
  qed (use guard_parts(1) assms(1) in blast)
  then show ?thesis using Dashboard run by simp
next
  case (TriggerTask job_id)
  then show ?thesis using assms by (simp add: trigger_task_parts(3))
qed (simp_all add: assms start_stop_inv account_routes_inv startup_parts post_seed_task_parts background_cycle_inv
    backfill_task_parts backtest_work_parts watch_task_parts)

section \<open>Runs\<close>

text \<open>A run whose calls submit nothing twice.\<close>

definition fresh_calls :: "(instant \<times> 'b app_call) list \<Rightarrow> 'b app \<Rightarrow> bool" where
  "fresh_calls cs a \<longleftrightarrow> distinct (concat (map (call_jobs \<circ> snd) cs)) \<and>
     set (concat (map (call_jobs \<circ> snd) cs)) \<inter> run_ids (app_backtests a) = {}"

lemma fresh_calls_Cons:
  assumes "fresh_calls ((now, c) # cs) a"
  shows "set (call_jobs c) \<inter> run_ids (app_backtests a) = {}" "fresh_calls cs (app_step fx now c a)"
proof -
  show "set (call_jobs c) \<inter> run_ids (app_backtests a) = {}" using assms by (auto simp: fresh_calls_def)
  let ?later = "set (concat (map (call_jobs \<circ> snd) cs))"
  have "?later \<inter> (run_ids (app_backtests a) \<union> set (call_jobs c)) = {}"
    using assms by (auto simp: fresh_calls_def)
  then have "?later \<inter> run_ids (app_backtests (app_step fx now c a)) = {}"
    using app_step_runs [of fx now c a] by (metis inf_mono subset_empty subset_refl)
  then show "fresh_calls cs (app_step fx now c a)"
    using assms by (simp only: fresh_calls_def) simp
qed

text \<open>What every step of fresh calls keeps, from a good application, every run keeps.\<close>

lemma app_run_keeps:
  assumes "\<And>t c a. (t, c) \<in> set cs \<Longrightarrow> app_inv a \<Longrightarrow> P a \<Longrightarrow> P (app_step fx t c a)"
  shows "fresh_calls cs a \<Longrightarrow> app_inv a \<Longrightarrow> P a \<Longrightarrow> app_inv (app_run fx cs a) \<and> P (app_run fx cs a)"
  using assms
proof (induction fx cs a rule: app_run.induct)
  case (2 fx now c cs a)
  note fresh = fresh_calls_Cons [OF 2(2)]
  have "app_inv (app_step fx now c a)" using app_step_inv [OF 2(3) fresh(1)] .
  moreover have "P (app_step fx now c a)" using 2(3-5) by simp
  ultimately show ?case using 2(1) fresh(2) 2(5) by simp
qed simp

section \<open>Quiet calls\<close>

text \<open>The calls that may touch the safety manager or the configuration.\<close>

fun noisy :: "'b app_call \<Rightarrow> bool" where
  "noisy (PostConfig k v who) = True"
| "noisy (Command cmd) = True"
| "noisy (RunCycle ck) = True"
| "noisy (BackgroundCycle ck d sleeps) = True"
| "noisy (Rehearse clock stage ticker n) = True"
| "noisy (Startup seeds en) = True"
| "noisy (Dashboard rq (SaveSetting k v)) = True"
| "noisy _ = False"

lemma dashboard_step_quiet: "\<forall>k v. c \<noteq> SaveSetting k v \<Longrightarrow> quiet a (dashboard_step fx now c a)"
  by (cases c)
     (simp_all add: summary_parts(2) [OF prod.collapse [symmetric]] dashboard_rebalance_inv(2) [OF prod.collapse [symmetric]]
       on_universe_inv(2) [OF prod.collapse [symmetric] block_good] manual_run_route_parts(1) [OF prod.collapse [symmetric]])

lemma guarded_quiet:
  assumes "\<forall>k v. d \<noteq> SaveSetting k v"
  shows "quiet a (snd (behind_guard fx now rq (\<lambda>a. ((), dashboard_step fx now d a)) a))"
proof -
  obtain r a' where run: "behind_guard fx now rq (\<lambda>a. ((), dashboard_step fx now d a)) a = (r, a')" by fastforce
  from run have "quiet a a'"
  proof (cases rule: behind_guard_cases)
    case (2 row a1 x)
    then show ?thesis using quiet_trans [OF guard_parts(2) [OF 2(1)] dashboard_step_quiet [OF assms, of a1 fx now]] by simp
  qed (rule guard_parts(2))
  then show ?thesis using run by simp
qed

lemma app_step_quiet:
  assumes "\<not> noisy c"
  shows "quiet a (app_step fx now c a)"
proof (cases c)
  case (Dashboard rq d)
  then have "\<forall>k v. d \<noteq> SaveSetting k v" using assms by auto
  then show ?thesis using Dashboard guarded_quiet by simp
next
  case (RunBacktest job_id cs sgs sl)
  then show ?thesis by (simp add: run_backtest_route_parts(1) [OF prod.collapse [symmetric]])
next
  case (RunAutoBacktest job_id)
  then show ?thesis by (simp add: run_auto_now_parts(1) [OF prod.collapse [symmetric]])
qed (use assms in \<open>simp_all add: start_stop_quiet account_routes_quiet post_seed_task_parts backfill_task_parts backtest_work_parts watch_task_parts
    trigger_task_parts send_daily_inv(2) [OF prod.collapse [symmetric]] send_weekly_inv(2) [OF prod.collapse [symmetric]]
    connectivity_inv(2) [OF prod.collapse [symmetric]] preflight_route_inv(2) [OF prod.collapse [symmetric]]
    on_universe_inv(2) [OF prod.collapse [symmetric] upsert_good] on_universe_inv(2) [OF prod.collapse [symmetric] block_good]
    login_parts(2) [OF prod.collapse [symmetric]]\<close>)

section \<open>The safety manager under calls\<close>

lemma settings_safety:
  "ss_safety (app_sys (snd (set_config now k v who a))) = ss_safety (app_sys a)"
  "ss_safety (app_sys (snd (dashboard_set now k v a))) = ss_safety (app_sys a)"
  by (auto simp: dashboard_set_def set_config_def put_settings_frame split: prod.split sum.split)

context runtime_observer
begin

lemma cycle_route_keeps: "P (ss_safety (app_sys a)) \<Longrightarrow> P (ss_safety (app_sys (snd (run_cycle_route fx now ck a))))"
  using wired_cycle_keeps by (auto simp: run_cycle_route_def split: prod.split)

lemma background_cycle_keeps:
  assumes "P (ss_safety (app_sys a))"
  shows "P (ss_safety (app_sys (background_cycle fx now ck d sleeps a)))"
proof (cases "bg_task (app_bg a) \<in> {Scheduled, Asleep}")
  case True
  then show ?thesis
  proof (cases rule: background_cycle_cases [of a fx now ck d sleeps])
    case (1 rep a1)
    then show ?thesis using cycle_route_keeps [of "a\<lparr>app_bg := begin_cycle now (app_bg a)\<rparr>" fx now ck] assms by simp
  qed
qed (simp add: background_cycle_def assms)

lemma rehearsal_keeps:
  assumes "P (ss_safety (app_sys a))"
  shows "P (ss_safety (app_sys (snd (live_rehearsal fx now clock stage ticker n a))))"
proof -
  obtain r co s where run: "run_rehearsal (preflight_env_of fx a) (wired_env (fx_broker fx) (wiring_of fx a) now) clock stage ticker n
      (app_co a, app_sys a) = (r, co, s)" by (rule prod_cases3)
  then show ?thesis using wired_rehearsal_keeps [OF run [unfolded preflight_env_of_def] assms] by (simp add: live_rehearsal_def)
qed

lemma command_keeps:
  assumes "P (ss_safety (app_sys a))" "\<not> resumes cmd"
  shows "P (ss_safety (app_sys (snd (telegram_command fx now cmd a))))"
proof -
  obtain r a' where run: "telegram_command fx now cmd a = (r, a')" by fastforce
  then have "P (ss_safety (app_sys a'))"
  proof (cases rule: telegram_command_cases)
    case (1 src a2 rt s)
    have "P (ss_safety (app_sys a2))" using 1(2) assms(1) by (simp add: quiet_def)
    moreover obtain p where "rt \<in> {sf_runtime (ss_safety (app_sys a2)), pause_entry (sf_runtime (ss_safety (app_sys a2))),
        pause_all (sf_runtime (ss_safety (app_sys a2))), (sf_runtime (ss_safety (app_sys a2)))\<lparr>pending_change := p\<rparr>}"
      using handle_flags [OF 1(3)] assms(2) by blast
    ultimately show ?thesis using flags_keep 1(4) by (simp add: put_settings_frame)
  qed
  then show ?thesis using run by simp
qed

lemma app_step_observed:
  assumes "P (ss_safety (app_sys a))" "\<forall>cmd. c = Command cmd \<longrightarrow> \<not> resumes cmd"
  shows "P (ss_safety (app_sys (app_step fx now c a)))"
proof (cases "noisy c")
  case True
  then show ?thesis
  proof (cases c rule: noisy.cases)
    case (7 rq k v)
    obtain r a' where run: "behind_guard fx now rq (\<lambda>a. ((), dashboard_step fx now (SaveSetting k v) a)) a = (r, a')" by fastforce
    then have "ss_safety (app_sys a') = ss_safety (app_sys a)"
      by (cases rule: behind_guard_cases) (auto simp: settings_safety dest: guard_parts(2) simp: quiet_def)
    then show ?thesis using 7 run assms(1) by simp
  qed (use assms True in \<open>simp_all add: cycle_route_keeps background_cycle_keeps rehearsal_keeps command_keeps settings_safety startup_parts\<close>)
next
  case False
  then show ?thesis using app_step_quiet [OF False, of a fx now] assms(1) by (simp add: quiet_def)
qed

lemma app_run_observed:
  "P (ss_safety (app_sys a)) \<Longrightarrow> \<forall>(t, c)\<in>set cs. \<forall>cmd. c = Command cmd \<longrightarrow> \<not> resumes cmd \<Longrightarrow>
   P (ss_safety (app_sys (app_run fx cs a)))"
  by (induction fx cs a rule: app_run.induct) (simp_all add: app_step_observed)

end

section \<open>The configuration under calls\<close>

text \<open>Every way to write settings leaves those of other keys, and those it writes as they were written.\<close>

lemma set_config_reads:
  assumes "config_get k (sv_config (app_service (snd (set_config now key v who a)))) \<noteq> config_get k (sv_config (app_service a))"
  shows "key = k" "config_get k (sv_config (app_service (snd (set_config now key v who a)))) = Inr v"
proof -
  obtain r s where h: "hooked_set now who key v (settings_of a) = (r, s)" by (rule prod.exhaust)
  have "config_get k (settings_view s) = (if (\<exists>c. config_set key v False (settings_view (settings_of a)) = Inr c) \<and> k = key
      then Inr v else config_get k (settings_view (settings_of a)))"
    by (rule hooked.read_after_write [OF h])
  moreover have "sv_config (app_service (snd (set_config now key v who a))) = settings_view s"
    using h by (simp add: set_config_def put_settings_frame)
  ultimately show "key = k" "config_get k (sv_config (app_service (snd (set_config now key v who a)))) = Inr v"
    using assms by (auto simp: settings_of_def split: if_splits)
qed

lemma dashboard_set_state: "snd (dashboard_set now k v a) = snd (set_config now k v ''webui'' a)"
  by (auto simp: dashboard_set_def split: prod.split sum.split)

lemma command_reads:
  assumes "telegram_command fx now cmd a = (r, a')" "pending_confirms (ss_safety (app_sys a))"
    and "config_get k (sv_config (app_service a')) \<noteq> config_get k (sv_config (app_service a))"
  shows "k \<notin> set telegram_blocked_keys \<and> \<not> py_startswith k ''strategy.'' \<and> (k \<in> set confirm_required_keys \<longrightarrow> py_strip cmd = ''/confirm'')"
  using assms(1)
proof (cases rule: telegram_command_cases)
  case (1 src a2 rt s)
  let ?rt = "sf_runtime (ss_safety (app_sys a2))"
  have eq: "settings_view (settings_of a2) = sv_config (app_service a)" "settings_view s = sv_config (app_service a')"
    using 1(2,4) by (simp_all add: quiet_def settings_of_def put_settings_frame)
  have ok: "hooked_commands.pending_ok ?rt"
    using 1(2) assms(2) unfolding quiet_def pending_confirms_def hooked_commands.pending_ok_def by simp
  have ne: "config_get k (settings_view s) \<noteq> config_get k (settings_view (settings_of a2))" using assms(3) eq by simp
  then have "\<not> (k \<in> set telegram_blocked_keys \<or> py_startswith k ''strategy.'')"
    using hooked_commands.web_only [OF 1(3) ok] by blast
  moreover have "k \<in> set confirm_required_keys \<longrightarrow> py_strip cmd = ''/confirm''"
    using hooked_commands.changed_after_confirmation [OF 1(3) _ ne] by blast
  ultimately show ?thesis by blast
qed

lemma cycles_config:
  "sv_config (app_service (snd (run_cycle_route fx now ck a))) = sv_config (app_service a)"
  "sv_config (app_service (background_cycle fx now ck d sleeps a)) = sv_config (app_service a)"
  "sv_config (app_service (snd (live_rehearsal fx now clock stage ticker n a))) = sv_config (app_service a)"
  by (auto simp: background_cycle_def run_cycle_route_def live_rehearsal_def split: prod.split)

lemma guarded_save_state:
  assumes "behind_guard fx now rq (\<lambda>a. ((), dashboard_step fx now (SaveSetting key v) a)) a = (r, a')"
    and "config_get k (sv_config (app_service a')) \<noteq> config_get k (sv_config (app_service a))"
  shows "key = k \<and> config_get k (sv_config (app_service a')) = Inr v \<and> (\<exists>row. fst (require_dashboard_session now rq (app_auth a)) = Inr row)"
  using assms(1)
proof (cases rule: behind_guard_cases)
  case (1 err)
  then show ?thesis using assms(2) guard_parts(2) [OF 1(1)] by (simp add: quiet_def)
next
  case (2 row a1 x)
  have q: "sv_config (app_service a1) = sv_config (app_service a)" using guard_parts(2) [OF 2(1)] by (simp add: quiet_def)
  have a': "a' = snd (set_config now key v ''webui'' a1)" using 2(2) by (simp add: dashboard_set_state)
  have "fst (require_dashboard_session now rq (app_auth a)) = Inr row"
    using 2(1) by (auto simp: on_auth_def split: prod.splits)
  then show ?thesis using set_config_reads [of k now key v "''webui''" a1] assms(2) q a' by auto
qed

section \<open>The start\<close>

lemma default_config_ok: "config_ok default_values"
  unfolding config_ok_def by (intro conjI subset_refl default_values_ok)

lemma build_inv:
  assumes "candles_inv (db_candles db)" "odb_inv (db_orders db)" "universe_good (db_universe db)" "account_inv (db_account db)"
    "\<forall>x\<in>set (ad_rows (db_audit db)). honest_row x"
  shows "app_inv (build_core_services has_sink db b)"
proof -
  have "system_good (app_sys (build_core_services has_sink db b))"
    using assms(1-3) by (simp add: build_core_services_def system_good_def system_inv_def universe_good_def halt_explained_def
        pending_confirms_def safety_init_def runtime_init_def safety_inv_def)
  moreover have "bt_inv 200 (backtests_init 200)" "background_inv background_init" "\<exists>os. metrics_ok os coordinator_init"
    using metrics_ok_init by (auto simp: bt_inv_def backtests_init_def background_inv_def background_init_def)
  ultimately show ?thesis using assms(4,5) default_config_ok by (simp add: app_inv_def build_core_services_def)
qed

section \<open>Properties\<close>

text \<open>
  C1: from its start over well-formed tables, whatever sequence of requests, commands, cycles, logins,
  startups and task steps comes, with whatever the broker, the databases and the sink answer, and if
  no job id is drawn twice, the application stays well formed: its tables, the configuration, the job
  store, the metrics, the audit log and the journal, which explains every halt; and the next run of
  Loop A returns and counts each position at most once.
\<close>

theorem application_stays_well_formed:
  assumes "candles_inv (db_candles db)" "odb_inv (db_orders db)" "universe_good (db_universe db)" "account_inv (db_account db)"
    and "\<forall>x\<in>set (ad_rows (db_audit db)). honest_row x" and "distinct (concat (map (call_jobs \<circ> snd) cs))"
    and "a = app_run fx cs (build_core_services has_sink db b)"
  shows "app_inv a \<and> (\<exists>res. fst (wired_loop_a (fx_broker fx) (wiring_of fx a) now (app_sys a)) = Inr res \<and>
      closed_positions res + failed_close_orders res \<le> monitored_positions res)"
proof -
  have fresh: "fresh_calls cs (build_core_services has_sink db b)"
    using assms(6) by (simp add: fresh_calls_def build_core_services_def backtests_init_def)
  have inv: "app_inv a"
    unfolding assms(7) by (rule app_run_keeps [where P = "\<lambda>_. True", OF TrueI fresh build_inv [OF assms(1-5)] TrueI, THEN conjunct1])
  then have ok: "config_ok (sv_config (app_service a))" "system_inv (app_sys a)" by (simp_all add: app_inv_def system_good_def)
  have "''trail_atr_mult'' \<in> fst ` set default_values" by (simp add: default_values_def)
  then obtain v where "config_get ''trail_atr_mult'' (sv_config (app_service a)) = Inr v" using config_ok_get [OF ok(1)] by blast
  then have "\<exists>res. fst (wired_loop_a (fx_broker fx) (wiring_of fx a) now (app_sys a)) = Inr res \<and>
      closed_positions res + failed_close_orders res \<le> monitored_positions res"
    using ok by (intro wired_loop_a_Inr) (simp_all add: wiring_of_def config_ok_def)
  then show ?thesis using inv by blast
qed

text \<open>
  C2: a halt lasts until it is resumed: whatever happens to the application but a resume command, a
  halted application stays halted, and no live preflight passes.
\<close>

theorem halt_lasts_until_resumed:
  assumes "halted (sf_runtime (ss_safety (app_sys a)))" "\<forall>(t, c)\<in>set cs. \<forall>cmd. c = Command cmd \<longrightarrow> \<not> resumes cmd"
  shows "halted (sf_runtime (ss_safety (app_sys (app_run fx cs a)))) \<and>
    (\<forall>stage ticker rep b. live_preflight_check fx stage ticker (app_run fx cs a) = (Inr rep, b) \<longrightarrow> \<not> pr_ok rep)"
proof -
  have h: "halted (sf_runtime (ss_safety (app_sys (app_run fx cs a))))" by (rule halting.app_run_observed [OF assms])
  have "\<not> pr_ok rep" if "live_preflight_check fx stage ticker (app_run fx cs a) = (Inr rep, b)" for stage ticker rep b
  proof -
    from that obtain s where "preflight (preflight_env_of fx (app_run fx cs a)) stage ticker (app_sys (app_run fx cs a)) = (Inr rep, s)"
      by (auto simp: live_preflight_check_def split: prod.splits)
    then show ?thesis by (rule preflight_Inr) (use h in \<open>auto simp: preflight_env_of_def wired_preflight_def checks_of_def\<close>)
  qed
  with h show ?thesis by blast
qed

text \<open>
  C3: who may change a setting of a well-formed application: whoever posts it to the open configuration
  route, a dashboard request with a live session that saves it, a startup that loads the stored
  settings, or a command; a command changes no setting reserved to the web interface, and a limit only
  if it confirms it.
\<close>

theorem settings_have_few_writers:
  assumes "app_inv a"
    and "config_get k (sv_config (app_service (app_step fx now c a))) \<noteq> config_get k (sv_config (app_service a))"
  shows "(\<exists>v who. c = PostConfig k v who \<and> config_get k (sv_config (app_service (app_step fx now c a))) = Inr v) \<or>
    (\<exists>rq v row. c = Dashboard rq (SaveSetting k v) \<and> fst (require_dashboard_session now rq (app_auth a)) = Inr row \<and>
       config_get k (sv_config (app_service (app_step fx now c a))) = Inr v) \<or>
    (\<exists>seeds en. c = Startup seeds en) \<or>
    (\<exists>cmd. c = Command cmd \<and> k \<notin> set telegram_blocked_keys \<and> \<not> py_startswith k ''strategy.'' \<and>
       (k \<in> set confirm_required_keys \<longrightarrow> py_strip cmd = ''/confirm''))"
proof (cases "noisy c")
  case True
  then show ?thesis
  proof (cases c rule: noisy.cases)
    case (1 key v who)
    then show ?thesis using set_config_reads [of k now key v who a] assms(2) by simp
  next
    case (2 cmd)
    have "pending_confirms (ss_safety (app_sys a))" using assms(1) by (simp add: app_inv_def system_good_def)
    then show ?thesis using command_reads [OF prod.collapse [symmetric], of a k fx now cmd] assms(2) 2 by simp
  next
    case (7 rq key v)
    obtain r a' where run: "behind_guard fx now rq (\<lambda>a. ((), dashboard_step fx now (SaveSetting key v) a)) a = (r, a')"
      by (rule prod.exhaust)
    then show ?thesis using guarded_save_state [OF run] assms(2) 7 by simp
  qed (use assms(2) True in \<open>simp_all add: cycles_config\<close>)
next
  case False
  then show ?thesis using app_step_quiet [OF False, of a fx now] assms(2) by (simp add: quiet_def)
qed

text \<open>The open route in particular: no session is asked for, whoever the caller says to be.\<close>

theorem open_route_changes_any_setting:
  assumes "config_check k v False = Inr ()"
  shows "config_get k (sv_config (app_service (app_step fx now (PostConfig k v who) a))) = Inr v \<and>
    app_auth (app_step fx now (PostConfig k v who) a) = app_auth a"
proof -
  obtain r s where h: "hooked_set now who k v (settings_of a) = (r, s)" by (rule prod.exhaust)
  have "\<exists>c. config_set k v False (settings_view (settings_of a)) = Inr c" using assms by (auto simp: config_set_Inr)
  then have "config_get k (settings_view s) = Inr v" using hooked.read_after_write [OF h, of k] by simp
  then show ?thesis using h by (simp add: set_config_def put_settings_frame) (simp add: put_settings_def split: prod.split)
qed

section \<open>Witnesses\<close>

definition sample_fixtures :: "unit fixtures" where
  "sample_fixtures = \<lparr>fx_broker = dead_broker, fx_token = sample_token, fx_ticker = ''005930'', fx_mode = ''PAPER'',
     fx_civil = (\<lambda>_. sample_time 9 0), fx_day = (\<lambda>_. 0), fx_strategies = [],
     fx_auth = default_params, fx_schedule = \<lparr>sp_enabled = True, sp_run_hour = 16, sp_max_signals = 80\<rparr>, fx_sink = False, fx_detail = (\<lambda>_. None)\<rparr>"

definition sample_databases :: databases where
  "sample_databases = \<lparr>db_config = \<lparr>cf_rows = [], cf_history = [], cf_next = 1, cf_faults = []\<rparr>, db_orders = odb_init [True],
     db_candles = sample_candles, db_universe = \<lparr>un_rows = [], un_faults = [False, True]\<rparr>, db_account = account_db_init [],
     db_audit = \<lparr>ad_rows = [], ad_next = 1, ad_faults = []\<rparr>\<rparr>"

definition sample_app :: "unit app" where
  "sample_app = build_core_services False sample_databases ()"

definition stopped_app :: "unit app" where
  "stopped_app = sample_app\<lparr>app_sys := (app_sys sample_app)\<lparr>ss_safety := critical 0 ''order'' ''lost'' (safety_init False 200)\<rparr>\<rparr>"

definition morning_clock :: cycle_clock where
  "morning_clock = \<lparr>ck_started = sample_time 9 0, ck_mono_start = 1, ck_slot_now = sample_time 9 0, ck_mono_end = 3,
     ck_completed = sample_time 9 0\<rparr>"

definition sample_calls :: "(instant \<times> unit app_call) list" where
  "sample_calls = [(1, PostConfig ''margin_close_priority'' ''5,4,3,2,1'' ''webui''), (2, RunAutoBacktest ''j1''), (3, Startup (Inl ''down'') True),
     (4, RunCycle morning_clock), (5, TriggerTask ''j2''), (6, Command ''/pause'')]"

lemma sample_tables:
  "candles_inv (db_candles sample_databases)" "odb_inv (db_orders sample_databases)" "universe_good (db_universe sample_databases)"
  "account_inv (db_account sample_databases)" "\<forall>x\<in>set (ad_rows (db_audit sample_databases)). honest_row x"
  by (simp_all add: sample_databases_def candles_inv_def sample_candles_def odb_inv_def odb_init_def keys_ok_def universe_good_def
      universe_inv_def labels_ok_def account_inv_def account_db_init_def)

theorem application_stays_well_formed_witness:
  "app_inv (app_run sample_fixtures sample_calls sample_app)"
proof -
  have "distinct (concat (map (call_jobs \<circ> snd) sample_calls))" by (simp add: sample_calls_def)
  from application_stays_well_formed [OF sample_tables this refl] show ?thesis by (simp add: sample_app_def)
qed

lemma no_resume: "\<forall>(t, c)\<in>set sample_calls. \<forall>cmd. c = Command cmd \<longrightarrow> \<not> resumes cmd"
proof -
  have "\<not> resumes ''/pause''" unfolding resumes_def by code_simp
  then show ?thesis by (simp add: sample_calls_def)
qed

theorem halt_lasts_until_resumed_witness:
  "halted (sf_runtime (ss_safety (app_sys (app_run sample_fixtures sample_calls stopped_app))))"
  using halt_lasts_until_resumed [OF _ no_resume, of stopped_app] by (simp add: stopped_app_def)

theorem settings_have_few_writers_witness:
  "config_get ''margin_close_priority'' (sv_config (app_service (app_step sample_fixtures 1 (PostConfig ''margin_close_priority'' ''5,4,3,2,1'' ''webui'') sample_app)))
     = Inr ''5,4,3,2,1'' \<and> config_get ''margin_close_priority'' (sv_config (app_service sample_app)) \<noteq> Inr ''5,4,3,2,1''"
proof -
  let ?c = "PostConfig ''margin_close_priority'' ''5,4,3,2,1'' ''webui'' :: unit app_call"
  let ?after = "config_get ''margin_close_priority'' (sv_config (app_service (app_step sample_fixtures 1 ?c sample_app)))"
  have before: "config_get ''margin_close_priority'' (sv_config (app_service sample_app)) \<noteq> Inr ''5,4,3,2,1''"
    by (simp add: sample_app_def build_core_services_def config_get_def default_values_def)
  have "config_check ''margin_close_priority'' ''5,4,3,2,1'' False = Inr ()" by code_simp
  then have "?after = Inr ''5,4,3,2,1''" by (rule open_route_changes_any_setting [THEN conjunct1])
  moreover have "app_inv sample_app" unfolding sample_app_def by (rule build_inv [OF sample_tables])
  moreover have "?after \<noteq> config_get ''margin_close_priority'' (sv_config (app_service sample_app))" using before \<open>?after = Inr ''5,4,3,2,1''\<close> by simp
  ultimately show ?thesis using settings_have_few_writers [of sample_app "''margin_close_priority''" sample_fixtures 1 ?c] before by auto
qed

end
