(* ===== verification/Cycle_View.thy ===== *)
theory Cycle_View
  imports Application
begin

text \<open>
  What a cycle does not look at. A projection of the world that every part of a cycle respects is
  respected by the cycle (the locale \<open>cycle_view\<close>, the unwinding argument of noninterference). It is
  interpreted on the wired runtime with everything but the safety manager: its flags and its journal
  are written by a cycle and never read by it, so a halt or a pause stops nothing.
\<close>

section \<open>The argument\<close>

definition alike :: "('w \<Rightarrow> 'v) \<Rightarrow> 'r \<times> 'w \<Rightarrow> 'r \<times> 'w \<Rightarrow> bool" where
  "alike view x y \<longleftrightarrow> fst x = fst y \<and> view (snd x) = view (snd y)"

lemma alikeI: "r = r' \<Longrightarrow> view w = view w' \<Longrightarrow> alike view (r, w) (r', w')"
  by (simp add: alike_def)

lemma alikeE:
  assumes "alike view x y"
  obtains r w w' where "x = (r, w)" "y = (r, w')" "view w = view w'"
  using assms by (cases x; cases y) (simp add: alike_def)

locale cycle_view =
  fixes view :: "'w \<Rightarrow> 'v" and en :: "'w cycle_env"
  assumes loop_a_alike: "view w = view w' \<Longrightarrow> alike view (en_loop_a en w) (en_loop_a en w')"
    and hook_alike: "en_hook en = Some h \<Longrightarrow> view w = view w' \<Longrightarrow> alike view (h w) (h w')"
    and tickers_alike: "view w = view w' \<Longrightarrow> alike view (en_tickers en w) (en_tickers en w')"
    and loop_b_alike: "view w = view w' \<Longrightarrow> alike view (en_loop_b en t w) (en_loop_b en t w')"
    and loop_c_alike: "view w = view w' \<Longrightarrow> alike view (en_loop_c en w) (en_loop_c en w')"
    and critical_alike: "view w = view w' \<Longrightarrow> view (en_critical en c m w) = view (en_critical en c m w')"
begin

lemma hook_step:
  "view w = view w' \<Longrightarrow> alike view (case en_hook en of None \<Rightarrow> (Inr (), w) | Some h \<Rightarrow> h w) (case en_hook en of None \<Rightarrow> (Inr (), w') | Some h \<Rightarrow> h w')"
  by (cases "en_hook en") (auto intro: alikeI hook_alike)

lemma loop_b_all_alike:
  "view w = view w' \<Longrightarrow> alike view (loop_b_all (en_loop_b en) ts n w) (loop_b_all (en_loop_b en) ts n w')"
proof (induction ts arbitrary: n w w')
  case (Cons t ts)
  from loop_b_alike [OF Cons.prems, of t] show ?case
    by (rule alikeE) (auto simp: alikeI Cons.IH split: sum.split)
qed (simp add: alikeI)

text \<open>The coordinator after the body is the same one.\<close>

lemma cycle_body_alike:
  assumes "view w = view w'"
  shows "alike (map_prod id view) (cycle_body en ck (co, w)) (cycle_body en ck (co, w'))"
proof -
  note pair = alike_def [of "map_prod id view"]
  obtain a w1 w1' where a: "en_loop_a en w = (a, w1)" "en_loop_a en w' = (a, w1')" "view w1 = view w1'"
    by (rule alikeE [OF loop_a_alike [OF assms]])
  obtain h w2 w2' where h: "(case en_hook en of None \<Rightarrow> (Inr (), w1) | Some h \<Rightarrow> h w1) = (h, w2)"
    "(case en_hook en of None \<Rightarrow> (Inr (), w1') | Some h \<Rightarrow> h w1') = (h, w2')" "view w2 = view w2'"
    by (rule alikeE [OF hook_step [OF a(3)]])
  obtain t w3 w3' where t: "en_tickers en w2 = (t, w3)" "en_tickers en w2' = (t, w3')" "view w3 = view w3'"
    by (rule alikeE [OF tickers_alike [OF h(3)]])
  obtain b w4 w4' where b: "loop_b_all (en_loop_b en) (projr t) 0 w3 = (b, w4)" "loop_b_all (en_loop_b en) (projr t) 0 w3' = (b, w4')"
    "view w4 = view w4'"
    by (rule alikeE [OF loop_b_all_alike [OF t(3)]])
  obtain c w5 w5' where c: "en_loop_c en w4 = (c, w5)" "en_loop_c en w4' = (c, w5')" "view w5 = view w5'"
    by (rule alikeE [OF loop_c_alike [OF b(3)]])
  obtain due co1 where d: "should_run_loop_c (en_interval en) (ck_slot_now ck) co = (due, co1)" by fastforce
  note run = cycle_body_def prod.case a(1,2) h(1,2) t(1,2) c(1,2) d sum.case
  consider (a) x where "a = Inl x" | (h) y x where "a = Inr y" "h = Inl x" | (t) y x where "a = Inr y" "h = Inr ()" "t = Inl x"
    | (b) y ts where "a = Inr y" "h = Inr ()" "t = Inr ts"
    by (cases a; cases h; cases t) auto
  then show ?thesis
  proof cases
    case b
    with \<open>t = Inr ts\<close> have bs: "loop_b_all (en_loop_b en) ts 0 w3 = (b, w4)" "loop_b_all (en_loop_b en) ts 0 w3' = (b, w4')"
      using \<open>loop_b_all _ (projr t) 0 w3 = _\<close> \<open>loop_b_all _ (projr t) 0 w3' = _\<close> by simp_all
    show ?thesis using b bs c(3) \<open>view w4 = view w4'\<close>
      by (cases b; cases due; cases c) (auto simp: run pair split: bool.split)
  qed (simp_all add: run pair a(3) h(3) t(3))
qed

lemma run_cycle_alike:
  assumes "view w = view w'"
  shows "alike (map_prod id view) (run_cycle en ck (co, w)) (run_cycle en ck (co, w'))"
proof -
  let ?co0 = "co\<lparr>co_metrics := (co_metrics co)\<lparr>last_started_at := Some (ck_started ck)\<rparr>\<rparr>"
  obtain r x x' where b: "cycle_body en ck (?co0, w) = (r, x)" "cycle_body en ck (?co0, w') = (r, x')"
    "map_prod id view x = map_prod id view x'"
    by (rule alikeE [OF cycle_body_alike [OF assms]])
  obtain co1 w1 w1' where x: "x = (co1, w1)" "x' = (co1, w1')" "view w1 = view w1'"
    using b(3) by (cases x; cases x') auto
  show ?thesis
    using b(1,2) x critical_alike [OF x(3)]
    by (cases r) (auto simp: run_cycle_def Let_def alike_def)
qed

end

section \<open>The loops do not read the safety manager\<close>

text \<open>A world of Loop A without its safety manager.\<close>

definition unwatched :: "'e world \<Rightarrow> 'e \<times> odb" where
  "unwatched w = (case w of (e, sf, d) \<Rightarrow> (e, d))"

lemma unwatched_simps [simp]: "unwatched (e, sf, d) = (e, d)"
  by (simp add: unwatched_def)

lemma unwatchedE:
  assumes "unwatched w = unwatched w'"
  obtains e sf sf' d where "w = (e, sf, d)" "w' = (e, sf', d)"
  using assms by (cases w; cases w') auto

lemma placed_alike:
  obtains r e1 s1 s2 where "place_with_reconcile place status now req (e, sf) = (r, e1, s1)"
    "place_with_reconcile place status now req (e, sf') = (r, e1, s2)"
proof -
  obtain r e1 s1 where p: "place_with_reconcile place status now req (e, sf) = (r, e1, s1)" by (rule prod_cases3)
  with place_with_reconcile_indep [OF p] that show thesis by blast
qed

lemma execute_alike:
  "unwatched w = unwatched w' \<Longrightarrow> alike unwatched (execute_from_signal place status now sg w) (execute_from_signal place status now sg w')"
proof (erule unwatchedE)
  fix e sf sf' d
  assume w: "w = (e, sf, d)" "w' = (e, sf', d)"
  obtain r e1 s1 s2 where p: "place_with_reconcile place status now (signal_request sg) (e, sf) = (r, e1, s1)"
    "place_with_reconcile place status now (signal_request sg) (e, sf') = (r, e1, s2)" by (rule placed_alike)
  show ?thesis unfolding w
    by (simp add: execute_from_signal_def Let_def p alike_def split: sum.split prod.split)
qed

lemma close_position_alike:
  "unwatched w = unwatched w' \<Longrightarrow> alike unwatched (close_position place status now p c t w) (close_position place status now p c t w')"
proof (erule unwatchedE)
  fix e sf sf' d
  assume w: "w = (e, sf, d)" "w' = (e, sf', d)"
  obtain r e1 s1 s2 where p: "place_with_reconcile place status now (close_request p t) (e, sf) = (r, e1, s1)"
    "place_with_reconcile place status now (close_request p t) (e, sf') = (r, e1, s2)" by (rule placed_alike)
  show ?thesis unfolding w
    by (simp add: close_position_def update_failed_def p alike_def split: sum.split prod.split)
qed

lemma act_on_alike:
  "unwatched w = unwatched w' \<Longrightarrow> alike unwatched (act_on place status now p c t w) (act_on place status now p c t w')"
proof (erule unwatchedE)
  fix e sf sf' d
  assume w: "w = (e, sf, d)" "w' = (e, sf', d)"
  have "alike unwatched (close_position place status now p c t (e, sf, tick d)) (close_position place status now p c t (e, sf', tick d))"
    by (rule close_position_alike) simp
  then show ?thesis unfolding w
    by (auto simp: act_on_def refresh_position_def update_failed_def alike_def split: sum.split prod.split)
qed

lemma monitor_one_alike:
  "unwatched w = unwatched w' \<Longrightarrow>
   alike unwatched (monitor_one place status price atr cfg dm now p w) (monitor_one place status price atr cfg dm now p w')"
proof (erule unwatchedE)
  fix e sf sf' d
  assume w: "w = (e, sf, d)" "w' = (e, sf', d)"
  have "alike unwatched (act_on place status now p c t (e1, sf, d)) (act_on place status now p c t (e1, sf', d))" for c t e1
    by (rule act_on_alike) simp
  then show ?thesis unfolding w
    by (simp add: monitor_one_def alike_def split: sum.split prod.split)
qed

lemma monitor_all_alike:
  assumes "\<And>p w w'. unwatched w = unwatched w' \<Longrightarrow> alike unwatched (one p w) (one p w')"
  shows "unwatched w = unwatched w' \<Longrightarrow> alike unwatched (monitor_all one ps acc w) (monitor_all one ps acc w')"
proof (induction ps arbitrary: acc w w')
  case (Cons p ps)
  from assms [OF Cons.prems, of p] show ?case
    by (rule alikeE) (auto simp: alikeI Cons.IH split: sum.split prod.split)
qed (simp add: alikeI)

lemma monitor_positions_alike:
  "unwatched w = unwatched w' \<Longrightarrow>
   alike unwatched (monitor_positions_once place status price atr cfg dm now w) (monitor_positions_once place status price atr cfg dm now w')"
proof (erule unwatchedE)
  fix e sf sf' d
  assume w: "w = (e, sf, d)" "w' = (e, sf', d)"
  obtain ps d1 where l: "list_open_positions d = (ps, d1)" by fastforce
  let ?all = "monitor_all (monitor_one place status price atr cfg dm now) (projr ps) (0, 0)"
  have "alike unwatched (?all (e, sf, d1)) (?all (e, sf', d1))"
    by (rule monitor_all_alike [OF monitor_one_alike]) simp_all
  then obtain r w1 w1' where m: "?all (e, sf, d1) = (r, w1)" "?all (e, sf', d1) = (r, w1')" "unwatched w1 = unwatched w1'"
    by (rule alikeE)
  show ?thesis
  proof (cases ps)
    case (Inr xs)
    then show ?thesis unfolding w using l m by (cases r) (simp_all add: monitor_positions_once_def alike_def)
  qed (simp add: w monitor_positions_once_def l alike_def)
qed

lemma loop_a_alike:
  assumes "unwatched w = unwatched w'"
  shows "alike (map_prod id unwatched) (loop_a_run_once place status price atr cfg dm now (q, w)) (loop_a_run_once place status price atr cfg dm now (q, w'))"
proof -
  have "alike (map_prod id unwatched) (consume_signal_once place status now q w) (consume_signal_once place status now q w')"
  proof (cases "pop_one q")
    case (Pair sg q1)
    show ?thesis
    proof (cases sg)
      case (Some s)
      obtain r w1 w1' where x: "execute_from_signal place status now s w = (r, w1)" "execute_from_signal place status now s w' = (r, w1')"
        "unwatched w1 = unwatched w1'" by (rule alikeE [OF execute_alike [OF assms]])
      then show ?thesis
        by (elim unwatchedE) (cases r; simp add: consume_signal_once_def Pair Some alike_def)
    qed (simp add: consume_signal_once_def Pair alike_def assms)
  qed
  then obtain x y y' where c: "consume_signal_once place status now q w = (x, y)" "consume_signal_once place status now q w' = (x, y')"
    "map_prod id unwatched y = map_prod id unwatched y'" by (rule alikeE)
  obtain q1 w1 w1' where y: "y = (q1, w1)" "y' = (q1, w1')" "unwatched w1 = unwatched w1'"
    using c(3) by (cases y; cases y') auto
  obtain r w2 w2' where m: "monitor_positions_once place status price atr cfg dm now w1 = (r, w2)"
    "monitor_positions_once place status price atr cfg dm now w1' = (r, w2')" "unwatched w2 = unwatched w2'"
    by (rule alikeE [OF monitor_positions_alike [OF y(3)]])
  show ?thesis using m(3)
    by (simp add: loop_a_run_once_def c(1,2) y m(1,2) alike_def split: sum.split prod.split)
qed

section \<open>The wired runtime\<close>

definition unguarded :: "'b system \<Rightarrow> 'b system" where
  "unguarded s = s\<lparr>ss_safety := safety_init False 0\<rparr>"

lemma unguardedD: "unguarded s = unguarded s' \<Longrightarrow> s' = s\<lparr>ss_safety := ss_safety s'\<rparr>"
  by (cases s; cases s') (simp add: unguarded_def)

lemma unguarded_put [simp]: "unguarded (s\<lparr>ss_safety := x\<rparr>) = unguarded s"
  by (simp add: unguarded_def)

lemma wired_loop_a_alike: "alike unguarded (wired_loop_a br wi now s) (wired_loop_a br wi now (s\<lparr>ss_safety := x\<rparr>))"
proof -
  let ?w = "((ss_venue s, ss_candles s), Some (ss_safety s), ss_odb s)" and ?w' = "((ss_venue s, ss_candles s), Some x, ss_odb s)"
  let ?run = "\<lambda>w. loop_a_run_once (\<lambda>req. on_venue (venue_place (wi_mode wi) br req)) (\<lambda>oid. on_venue (venue_status (wi_mode wi) br oid))
    (live_price (venue_price br)) db_atr (Some (wi_config wi)) (Fin (3 / 2)) now (ss_queue s, w)"
  have "alike (map_prod id unwatched) (?run ?w) (?run ?w')" by (rule loop_a_alike) simp
  then obtain r y y' where c: "?run ?w = (r, y)" "?run ?w' = (r, y')" "map_prod id unwatched y = map_prod id unwatched y'"
    by (rule alikeE)
  obtain q e sf sf' d where y: "y = (q, e, sf, d)" "y' = (q, e, sf', d)"
    using c(3) by (cases y; cases y') auto
  show ?thesis using c(1,2) y
    by (cases e) (simp add: wired_loop_a_def alike_def unguarded_def)
qed

lemma wired_rest_alike:
  "alike unguarded (wired_hook br wi now s) (wired_hook br wi now (s\<lparr>ss_safety := x\<rparr>))"
  "alike unguarded (wired_tickers s) (wired_tickers (s\<lparr>ss_safety := x\<rparr>))"
  "alike unguarded (wired_loop_b br wi now t s) (wired_loop_b br wi now t (s\<lparr>ss_safety := x\<rparr>))"
  "alike unguarded (wired_loop_c wi now s) (wired_loop_c wi now (s\<lparr>ss_safety := x\<rparr>))"
  by (simp_all add: alike_def unguarded_def wired_hook_def wired_tickers_def wired_loop_b_def wired_loop_c_def split: prod.split)

interpretation unread: cycle_view unguarded "wired_env br wi now"
proof unfold_locales
  fix s s' :: "'a system"
  assume "unguarded s = unguarded s'"
  then have eq: "s' = s\<lparr>ss_safety := ss_safety s'\<rparr>" by (rule unguardedD)
  show "alike unguarded (en_loop_a (wired_env br wi now) s) (en_loop_a (wired_env br wi now) s')"
    unfolding wired_env_def by (subst eq) (simp add: wired_loop_a_alike)
  show "alike unguarded (h s) (h s')" if "en_hook (wired_env br wi now) = Some h" for h
    using that unfolding wired_env_def by (subst eq) (auto simp: wired_rest_alike)
  show "alike unguarded (en_tickers (wired_env br wi now) s) (en_tickers (wired_env br wi now) s')"
    unfolding wired_env_def by (subst eq) (simp add: wired_rest_alike)
  show "alike unguarded (en_loop_b (wired_env br wi now) t s) (en_loop_b (wired_env br wi now) t s')" for t
    unfolding wired_env_def by (subst eq) (simp add: wired_rest_alike)
  show "alike unguarded (en_loop_c (wired_env br wi now) s) (en_loop_c (wired_env br wi now) s')"
    unfolding wired_env_def by (subst eq) (simp add: wired_rest_alike)
  show "unguarded (en_critical (wired_env br wi now) c m s) = unguarded (en_critical (wired_env br wi now) c m s')" for c m
    using \<open>unguarded s = unguarded s'\<close> by (simp add: wired_env_def)
qed

section \<open>Property\<close>

text \<open>
  C4: a halt or a pause stops nothing: whatever the flags, the pending change and the journal of the safety
  manager are, a cycle reports the same, records the same metrics and leaves the same rows, orders,
  positions, bars, queue and broker behind.
\<close>

theorem halt_stops_nothing:
  "fst (run_cycle_route fx now ck (a\<lparr>app_sys := (app_sys a)\<lparr>ss_safety := sf\<rparr>\<rparr>)) = fst (run_cycle_route fx now ck a) \<and>
   (\<exists>sf'. snd (run_cycle_route fx now ck (a\<lparr>app_sys := (app_sys a)\<lparr>ss_safety := sf\<rparr>\<rparr>)) =
     (let b = snd (run_cycle_route fx now ck a) in b\<lparr>app_sys := (app_sys b)\<lparr>ss_safety := sf'\<rparr>\<rparr>))"
proof -
  let ?en = "wired_env (fx_broker fx) (wiring_of fx a) now" and ?s = "(app_sys a)\<lparr>ss_safety := sf\<rparr>"
  have "alike (map_prod id unguarded) (run_cycle ?en ck (app_co a, app_sys a)) (run_cycle ?en ck (app_co a, ?s))"
    by (rule unread.run_cycle_alike) simp
  then obtain rep x x' where c: "run_cycle ?en ck (app_co a, app_sys a) = (rep, x)" "run_cycle ?en ck (app_co a, ?s) = (rep, x')"
    "map_prod id unguarded x = map_prod id unguarded x'" by (rule alikeE)
  obtain co s s' where x: "x = (co, s)" "x' = (co, s')" "unguarded s = unguarded s'"
    using c(3) by (cases x; cases x') auto
  have w: "wiring_of fx (a\<lparr>app_sys := ?s\<rparr>) = wiring_of fx a" by (simp add: wiring_of_def)
  have "s' = s\<lparr>ss_safety := ss_safety s'\<rparr>" by (rule unguardedD [OF x(3)])
  with c(1,2) x(1,2) show ?thesis
    by (simp add: run_cycle_route_def w Let_def) metis
qed

end
