(* ===== verification/Legacy_Orders.thy ===== *)
theory Legacy_Orders
  imports Loop_A Candle_Repository
begin

text \<open>
  The first version of the program, which the repository keeps under \<open>legacy/app_v1\<close> as a reference: its
  orders (\<open>orders/safe_order_service.py\<close>, \<open>broker.py\<close>, \<open>position_manager.py\<close>, \<open>executor.py\<close>) and its risk engine. The
  database answers here; an exception, of the gateway or of a setting, leaves the session, which rolls
  back. The lemmas compare the version with its successor: the order service and the exits agree.
\<close>

section \<open>The order service\<close>

definition recovered :: "'e status_fn \<Rightarrow> order_result \<Rightarrow> 'e \<Rightarrow> bool py \<times> 'e" where
  "recovered status r e =
     (if truthy_str (res_order_id r)
      then (case status (the (res_order_id r)) e of
              (Inl x, e') \<Rightarrow> (Inl x, e')
            | (Inr st, e') \<Rightarrow> (Inr (st_exists st \<and> st_status st \<in> accepted_states), e'))
      else (Inr False, e))"

definition recovery :: "order_result \<Rightarrow> order_result" where
  "recovery r = \<lparr>res_ok = True, res_order_id = res_order_id r, res_error = None\<rparr>"

text \<open>One attempt: placed, or recovered by the status query; \<open>None\<close> goes on.\<close>

definition attempt :: "'e place_fn \<Rightarrow> 'e status_fn \<Rightarrow> order_request \<Rightarrow> 'e \<Rightarrow> (order_result \<times> order_result option) py \<times> 'e" where
  "attempt place status req e =
     (case place req e of
        (Inl x, e1) \<Rightarrow> (Inl x, e1)
      | (Inr r, e1) \<Rightarrow>
          if res_ok r then (Inr (r, Some r), e1)
          else (case recovered status r e1 of
                  (Inl x, e2) \<Rightarrow> (Inl x, e2)
                | (Inr yes, e2) \<Rightarrow> (Inr (r, if yes then Some (recovery r) else None), e2)))"

definition v1_unresolved :: "order_result \<Rightarrow> order_result \<Rightarrow> string" where
  "v1_unresolved second first =
     (if truthy_str (res_error second) then the (res_error second)
      else if truthy_str (res_error first) then the (res_error first)
      else ''order_status_unresolved'')"

definition v1_place_with_reconcile :: "'e place_fn \<Rightarrow> 'e status_fn \<Rightarrow> order_request \<Rightarrow> 'e \<Rightarrow> order_result py \<times> 'e" where
  "v1_place_with_reconcile place status req e =
     (case attempt place status req e of
        (Inl x, e1) \<Rightarrow> (Inl x, e1)
      | (Inr (first, Some r), e1) \<Rightarrow> (Inr r, e1)
      | (Inr (first, None), e1) \<Rightarrow>
          (case attempt place status req e1 of
             (Inl x, e2) \<Rightarrow> (Inl x, e2)
           | (Inr (second, Some r), e2) \<Rightarrow> (Inr r, e2)
           | (Inr (second, None), e2) \<Rightarrow>
               (Inr \<lparr>res_ok = False, res_order_id = res_order_id second, res_error = Some (v1_unresolved second first)\<rparr>, e2)))"

section \<open>Brokers\<close>

record fill =
  fl_ok :: bool
  fl_order_id :: "string option"
  fl_avg_price :: real
  fl_filled_qty :: real
  fl_status :: string
  fl_error :: "string option"

record 'e v1_broker =
  vb_entry :: "string \<Rightarrow> real \<Rightarrow> real \<Rightarrow> 'e \<Rightarrow> fill py \<times> 'e"
  vb_exit :: "string \<Rightarrow> real \<Rightarrow> 'e \<Rightarrow> fill py \<times> 'e"

definition paper_broker :: "'e v1_broker" where
  "paper_broker =
     \<lparr>vb_entry = (\<lambda>t q p e. (Inr \<lparr>fl_ok = True, fl_order_id = Some ''paper-entry'', fl_avg_price = p, fl_filled_qty = q,
        fl_status = ''filled'', fl_error = None\<rparr>, e)),
      vb_exit = (\<lambda>t q e. (Inr \<lparr>fl_ok = True, fl_order_id = Some ''paper-exit'', fl_avg_price = 0, fl_filled_qty = q,
        fl_status = ''filled'', fl_error = None\<rparr>, e))\<rparr>"

definition fill_of :: "real \<Rightarrow> real \<Rightarrow> order_result \<Rightarrow> fill" where
  "fill_of avg qty r =
     \<lparr>fl_ok = res_ok r, fl_order_id = res_order_id r, fl_avg_price = avg, fl_filled_qty = (if res_ok r then qty else 0),
      fl_status = (if res_ok r then ''filled'' else ''rejected''), fl_error = res_error r\<rparr>"

definition live_broker :: "'e place_fn \<Rightarrow> 'e status_fn \<Rightarrow> 'e v1_broker" where
  "live_broker place status =
     \<lparr>vb_entry = (\<lambda>t q p e.
        (case v1_place_with_reconcile place status
                \<lparr>rq_ticker = t, rq_side = ''buy'', rq_order_type = ''limit'', rq_qty = q, rq_price = Some p\<rparr> e of
           (r, e') \<Rightarrow> (map_sum id (fill_of p q) r, e'))),
      vb_exit = (\<lambda>t q e.
        (case v1_place_with_reconcile place status
                \<lparr>rq_ticker = t, rq_side = ''sell'', rq_order_type = ''market'', rq_qty = q, rq_price = None\<rparr> e of
           (r, e') \<Rightarrow> (map_sum id (fill_of 0 q) r, e')))\<rparr>"

section \<open>Positions\<close>

text \<open>The configured multipliers are read with \<open>float\<close>, so the prices made of them may be NaN.\<close>

record v1_position =
  vp_id :: nat
  vp_ticker :: string
  vp_strategy_id :: string
  vp_state :: string
  vp_entry_price :: real
  vp_stop_price :: pyfloat
  vp_take_profit_price :: pyfloat
  vp_trailing_stop_price :: "pyfloat option"
  vp_highest_price :: "real option"
  vp_quantity :: real
  vp_remaining_quantity :: real
  vp_entry_time :: instant
  vp_closed_time :: "instant option"
  vp_close_reason :: "string option"

record exit_decision =
  xd_exit :: bool
  xd_reason :: "string option"
  xd_qty :: real

definition stay_in :: exit_decision where
  "stay_in = \<lparr>xd_exit = False, xd_reason = None, xd_qty = 0\<rparr>"

definition decide_exit :: "pyfloat \<Rightarrow> v1_position \<Rightarrow> real \<Rightarrow> real \<Rightarrow> exit_decision" where
  "decide_exit tm p current_price atr_value =
     (if vp_state p = ''OPEN'' then
        if pf_le (Fin current_price) (vp_stop_price p)
        then \<lparr>xd_exit = True, xd_reason = Some ''stop_loss'', xd_qty = vp_remaining_quantity p\<rparr>
        else if pf_le (vp_take_profit_price p) (Fin current_price)
        then \<lparr>xd_exit = True, xd_reason = Some ''take_profit_half'', xd_qty = max (vp_remaining_quantity p / 2) 0\<rparr>
        else stay_in
      else if vp_state p = ''HALF_CLOSED'' then
        let highest = max (or_real (vp_highest_price p) current_price) current_price;
            trailing = pf_minus highest (pf_scale atr_value tm)
        in if pf_le (Fin current_price) trailing
           then \<lparr>xd_exit = True, xd_reason = Some ''trailing_stop'', xd_qty = vp_remaining_quantity p\<rparr>
           else stay_in
      else stay_in)"

text \<open>The row after the commit and whether an order was filled; an exception commits nothing.\<close>

definition follow_high :: "pyfloat \<Rightarrow> real \<Rightarrow> real \<Rightarrow> v1_position \<Rightarrow> v1_position" where
  "follow_high tm current_price atr_value p =
     (if vp_state p = ''HALF_CLOSED''
      then (let high = max (or_real (vp_highest_price p) current_price) current_price
            in p\<lparr>vp_highest_price := Some high, vp_trailing_stop_price := Some (pf_minus high (pf_scale atr_value tm))\<rparr>)
      else p)"

definition after_fill :: "pyfloat \<Rightarrow> instant \<Rightarrow> real \<Rightarrow> real \<Rightarrow> exit_decision \<Rightarrow> v1_position \<Rightarrow> v1_position" where
  "after_fill tm now current_price atr_value x p =
     (if xd_reason x = Some ''take_profit_half''
      then p\<lparr>vp_state := ''HALF_CLOSED'', vp_remaining_quantity := vp_remaining_quantity p - xd_qty x,
             vp_highest_price := Some current_price,
             vp_trailing_stop_price := Some (pf_minus current_price (pf_scale atr_value tm))\<rparr>
      else
        (let rest = max (vp_remaining_quantity p - xd_qty x) 0;
             q = p\<lparr>vp_remaining_quantity := rest\<rparr>
         in if rest \<le> 0
            then q\<lparr>vp_state := ''CLOSED'', vp_closed_time := Some now, vp_close_reason := xd_reason x\<rparr>
            else q))"

definition monitor_and_close ::
  "'e v1_broker \<Rightarrow> pyfloat \<Rightarrow> instant \<Rightarrow> v1_position \<Rightarrow> real \<Rightarrow> real \<Rightarrow> 'e \<Rightarrow> (bool \<times> v1_position) py \<times> 'e" where
  "monitor_and_close br tm now p current_price atr_value e =
     (let x = decide_exit tm p current_price atr_value in
      if \<not> xd_exit x then (Inr (False, follow_high tm current_price atr_value p), e)
      else
        (case vb_exit br (vp_ticker p) (xd_qty x) e of
           (Inl err, e') \<Rightarrow> (Inl err, e')
         | (Inr f, e') \<Rightarrow>
             if \<not> fl_ok f then (Inr (False, p), e')
             else (Inr (True, after_fill tm now current_price atr_value x p), e')))"

section \<open>The risk engine\<close>

definition v1_get :: "string \<Rightarrow> config \<Rightarrow> string py" where
  "v1_get key cfg = (case map_of cfg key of None \<Rightarrow> Inl (KeyError (''Unknown config key: '' @ key)) | Some v \<Rightarrow> Inr v)"

definition v1_int :: "string \<Rightarrow> config \<Rightarrow> int py" where
  "v1_int key cfg =
     py_bind (v1_get key cfg) (\<lambda>s. case py_int_of s of
       None \<Rightarrow> Inl (ValueError ''invalid literal for int() with base 10'') | Some n \<Rightarrow> Inr n)"

definition v1_can_open_new_position :: "config \<Rightarrow> nat \<Rightarrow> bool py" where
  "v1_can_open_new_position cfg n = py_bind (v1_int ''max_positions'' cfg) (\<lambda>mx. Inr (int n < mx))"

definition v1_mult :: "string \<Rightarrow> config \<Rightarrow> pyfloat py" where
  "v1_mult key cfg = to_float (v1_get key cfg)"

text \<open>A negative limit is refused by the database.\<close>

definition compute_atr_value :: "config \<Rightarrow> candle_row list \<Rightarrow> string \<Rightarrow> string \<Rightarrow> real \<Rightarrow> real py" where
  "compute_atr_value cfg rows ticker timeframe fallback_price =
     py_bind (v1_int ''atr_period'' cfg) (\<lambda>period.
       if period < 0 then Inl db_error
       else
         (let cs = take (nat period) (py_sorted_rev cn_time (rows_of ticker timeframe rows)) in
          if cs = [] then Inr (fallback_price * (1 / 100))
          else
            (let ranges = map (\<lambda>c. max (cn_high c - cn_low c) 0) cs
             in Inr (max (sum_list ranges / real (length ranges)) (fallback_price * (5 / 1000))))))"

definition get_last_price :: "candle_row list \<Rightarrow> string \<Rightarrow> string \<Rightarrow> real option" where
  "get_last_price rows ticker timeframe =
     (case py_sorted_rev cn_time (rows_of ticker timeframe rows) of [] \<Rightarrow> None | c # _ \<Rightarrow> Some (cn_close c))"

section \<open>Agreement with the order service of the rebuild\<close>

text \<open>A gateway that answers: it does not raise.\<close>

definition answers_orders :: "'e place_fn \<Rightarrow> 'e status_fn \<Rightarrow> bool" where
  "answers_orders place status \<longleftrightarrow> (\<forall>req e. \<exists>r e'. place req e = (Inr r, e')) \<and> (\<forall>oid e. \<exists>st e'. status oid e = (Inr st, e'))"

lemma check_status_recovered:
  assumes "answers_orders place status"
  obtains yes e' where "recovered status r e = (Inr yes, e')"
    "\<And>now l sf. check_status status now l req r (e, sf) = (if yes then Some (recovery r) else None, e', sf)"
proof (cases "truthy_str (res_order_id r)")
  case True
  then obtain oid where oid: "res_order_id r = Some oid" "oid \<noteq> []" by (auto simp: truthy_str_def split: option.splits)
  obtain st e1 where st: "status oid e = (Inr st, e1)" using assms unfolding answers_orders_def by blast
  show thesis
    by (rule that [of "st_exists st \<and> st_status st \<in> accepted_states" e1])
       (use True oid st in \<open>auto simp: recovered_def check_status_def recovery_def\<close>)
next
  case False
  show thesis
    by (rule that [of False e]) (use False in \<open>auto simp: recovered_def check_status_def truthy_str_def split: option.splits\<close>)
qed

text \<open>The same attempt in both versions.\<close>

lemma attempt_agrees:
  assumes "answers_orders place status"
  obtains r ro e1 e2 where "attempt place status req e = (Inr (r, ro), e2)" "place req e = (Inr r, e1)"
    "\<And>now cd sf. try_place place now cd req (e, sf) = (r, e1, sf)" "res_ok r \<Longrightarrow> ro = Some r \<and> e2 = e1"
    "\<And>now l sf. \<not> res_ok r \<Longrightarrow> check_status status now l req r (e1, sf) = (ro, e2, sf)"
    "\<And>x. \<not> res_ok r \<Longrightarrow> ro = Some x \<Longrightarrow> x = recovery r"
proof -
  obtain r e1 where p: "place req e = (Inr r, e1)" using assms unfolding answers_orders_def by blast
  have t: "try_place place now cd req (e, sf) = (r, e1, sf)" for now cd sf by (simp add: try_place_def p)
  show thesis
  proof (cases "res_ok r")
    case True
    then show thesis using p t by (intro that [of r "Some r" e1 e1]) (simp_all add: attempt_def)
  next
    case False
    obtain yes e2 where c: "recovered status r e1 = (Inr yes, e2)"
      "\<And>now l sf. check_status status now l req r (e1, sf) = (if yes then Some (recovery r) else None, e2, sf)"
      by (rule check_status_recovered [OF assms, of r e1 req]) blast
    then show thesis using p t c False
      by (intro that [of r "if yes then Some (recovery r) else None" e2 e1]) (auto simp: attempt_def split: if_splits)
  qed
qed

section \<open>Agreement with the exits of the rebuild\<close>

text \<open>A row of the rebuild as the first version would hold it.\<close>

definition v1_of :: "position_row \<Rightarrow> v1_position" where
  "v1_of r =
     \<lparr>vp_id = pos_id r, vp_ticker = pos_ticker r, vp_strategy_id = pos_strategy_id r, vp_state = pos_state r,
      vp_entry_price = pos_entry_price r, vp_stop_price = Fin (pos_stop_price r),
      vp_take_profit_price = Fin (pos_take_profit_price r), vp_trailing_stop_price = pos_trailing_stop_price r,
      vp_highest_price = pos_highest_price r, vp_quantity = pos_quantity r, vp_remaining_quantity = pos_remaining_quantity r,
      vp_entry_time = pos_entry_time r, vp_closed_time = pos_closed_time r, vp_close_reason = pos_close_reason r\<rparr>"

lemma v1_of_ticker [simp]: "vp_ticker (v1_of r) = pos_ticker r"
  by (simp add: v1_of_def)

lemma decide_exit_agrees:
  assumes "position_wf row" "t = decide (snapshot_of row) price atr tm"
  shows "decide_exit tm (v1_of row) price atr = \<lparr>xd_exit = (0 < tr_close_qty t), xd_reason = tr_reason t, xd_qty = tr_close_qty t\<rparr>"
  using assms(1)
  by (rule position_wf_cases)
     (simp_all add: assms(2) decide_exit_def decide_def snapshot_of_def v1_of_def stay_in_def Let_def)

lemma follow_high_agrees:
  assumes "position_wf row" "pos_state row \<noteq> ''CLOSED''" "t = decide (snapshot_of row) price atr tm" "\<not> 0 < tr_close_qty t"
  shows "follow_high tm price atr (v1_of row) = v1_of (sm_apply now row t)"
  using assms(1)
proof (cases rule: position_wf_cases)
  case open_pos
  with assms(4) have "t = \<lparr>tr_new_state = ''OPEN'', tr_close_qty = 0, tr_reason = None,
      tr_new_highest = pos_highest_price row, tr_new_trailing_stop = pos_trailing_stop_price row\<rparr>"
    unfolding assms(3) by (simp add: decide_def snapshot_of_def split: if_splits)
  with open_pos show ?thesis by (simp add: follow_high_def v1_of_def sm_apply_def)
next
  case half_pos
  define hi where "hi = max (or_real (pos_highest_price row) price) price"
  from half_pos assms(4) have "t = \<lparr>tr_new_state = ''HALF_CLOSED'', tr_close_qty = 0, tr_reason = None,
      tr_new_highest = Some hi, tr_new_trailing_stop = Some (pf_minus hi (pf_scale atr tm))\<rparr>"
    unfolding assms(3) by (simp add: decide_def snapshot_of_def hi_def Let_def split: if_splits)
  with half_pos show ?thesis by (simp add: follow_high_def v1_of_def sm_apply_def hi_def Let_def)
next
  case closed_pos
  with assms(2) show ?thesis by simp
qed

text \<open>A decision that sells, in the three ways it can.\<close>

lemma selling_cases:
  assumes "position_wf row" "t = decide (snapshot_of row) price atr tm" "0 < tr_close_qty t"
  obtains (half) "pos_state row = ''OPEN''" "0 < pos_remaining_quantity row"
      "t = \<lparr>tr_new_state = ''HALF_CLOSED'', tr_close_qty = pos_remaining_quantity row / 2, tr_reason = Some ''take_profit_half'',
            tr_new_highest = Some price, tr_new_trailing_stop = Some (pf_minus price (pf_scale atr tm))\<rparr>"
    | (stop) "0 < pos_remaining_quantity row"
      "t = \<lparr>tr_new_state = ''CLOSED'', tr_close_qty = pos_remaining_quantity row, tr_reason = Some ''stop_loss'',
            tr_new_highest = pos_highest_price row, tr_new_trailing_stop = pos_trailing_stop_price row\<rparr>"
    | (trail) hi tr where "0 < pos_remaining_quantity row"
      "t = \<lparr>tr_new_state = ''CLOSED'', tr_close_qty = pos_remaining_quantity row, tr_reason = Some ''trailing_stop'',
            tr_new_highest = Some hi, tr_new_trailing_stop = Some tr\<rparr>"
  using assms(1)
proof (cases rule: position_wf_cases)
  case open_pos
  show thesis
  proof (cases "price \<le> pos_stop_price row")
    case True
    with open_pos show thesis by (intro stop) (simp_all add: assms(2) decide_def snapshot_of_def)
  next
    case False
    with open_pos assms(3) show thesis
      by (intro half) (simp_all add: assms(2) decide_def snapshot_of_def split: if_splits)
  qed
next
  case half_pos
  with assms(3) show thesis by (intro trail) (simp_all add: assms(2) decide_def snapshot_of_def Let_def split: if_splits)
next
  case closed_pos
  with assms(3) show thesis by (simp add: assms(2) decide_def snapshot_of_def)
qed

lemma after_fill_agrees:
  assumes "position_wf row" "t = decide (snapshot_of row) price atr tm" "0 < tr_close_qty t"
  shows "after_fill tm now price atr \<lparr>xd_exit = True, xd_reason = tr_reason t, xd_qty = tr_close_qty t\<rparr> (v1_of row) =
    (if tr_reason t = Some ''trailing_stop''
     then (v1_of (sm_apply now row t))\<lparr>vp_highest_price := pos_highest_price row, vp_trailing_stop_price := pos_trailing_stop_price row\<rparr>
     else v1_of (sm_apply now row t))"
  using assms
proof (cases rule: selling_cases)
  case half
  then show ?thesis by (simp add: after_fill_def v1_of_def sm_apply_def Let_def)
next
  case stop
  then show ?thesis by (simp add: after_fill_def v1_of_def sm_apply_def truthy_str_def Let_def)
next
  case (trail hi tr)
  then show ?thesis by (simp add: after_fill_def v1_of_def sm_apply_def truthy_str_def Let_def)
qed

section \<open>Properties\<close>

text \<open>
  The order services of the two versions agree: over a gateway that answers they ask it the same
  things and come to the same result, but for the name of an error nobody names.
\<close>

theorem order_services_agree:
  assumes "answers_orders place status" "v1_place_with_reconcile place status req e = (r1, e1)"
    and "place_with_reconcile place status now req (e, sf) = (r2, e2, sf2)"
  shows "e1 = e2 \<and> (\<exists>r. r1 = Inr r \<and> res_ok r = res_ok r2 \<and> res_order_id r = res_order_id r2 \<and>
    (res_error r = res_error r2 \<or> res_error r = Some ''order_status_unresolved'' \<and> res_error r2 = Some ''unresolved''))"
proof -
  obtain a ao ea eb where a: "attempt place status req e = (Inr (a, ao), eb)"
    "\<And>now cd sf. try_place place now cd req (e, sf) = (a, ea, sf)" "res_ok a \<Longrightarrow> ao = Some a \<and> eb = ea"
    "\<And>now l sf. \<not> res_ok a \<Longrightarrow> check_status status now l req a (ea, sf) = (ao, eb, sf)"
    by (rule attempt_agrees [OF assms(1), of req e]) metis
  obtain b bo ec ed where b: "attempt place status req eb = (Inr (b, bo), ed)"
    "\<And>now cd sf. try_place place now cd req (eb, sf) = (b, ec, sf)" "res_ok b \<Longrightarrow> bo = Some b \<and> ed = ec"
    "\<And>now l sf. \<not> res_ok b \<Longrightarrow> check_status status now l req b (ec, sf) = (bo, ed, sf)"
    by (rule attempt_agrees [OF assms(1), of req eb]) metis
  consider (first) "res_ok a" | (again) x where "\<not> res_ok a" "ao = Some x" | (second) "\<not> res_ok a" "ao = None" "res_ok b"
    | (third) x where "\<not> res_ok a" "ao = None" "\<not> res_ok b" "bo = Some x" | (lost) "\<not> res_ok a" "ao = None" "\<not> res_ok b" "bo = None"
    by (cases "res_ok a"; cases "res_ok b"; cases ao; cases bo) auto
  then show ?thesis
  proof cases
    case first
    then show ?thesis using assms(2,3) a by (auto simp: v1_place_with_reconcile_def place_with_reconcile_def)
  next
    case again
    then show ?thesis using assms(2,3) a by (auto simp: v1_place_with_reconcile_def place_with_reconcile_def)
  next
    case second
    then show ?thesis using assms(2,3) a b by (auto simp: v1_place_with_reconcile_def place_with_reconcile_def)
  next
    case third
    then show ?thesis using assms(2,3) a b by (auto simp: v1_place_with_reconcile_def place_with_reconcile_def)
  next
    case lost
    then show ?thesis using assms(2,3) a b
      by (auto simp: v1_place_with_reconcile_def place_with_reconcile_def v1_unresolved_def unresolved_error_def)
  qed
qed

text \<open>The witness: a gateway that refuses without a word, so that both services give up.\<close>

definition v1_refuse :: "nat place_fn" where
  "v1_refuse req e = (Inr \<lparr>res_ok = False, res_order_id = None, res_error = None\<rparr>, Suc e)"

definition v1_unknown :: "nat status_fn" where
  "v1_unknown oid e = (Inr \<lparr>st_exists = False, st_status = ''not_found'', st_filled_qty = Fin 0\<rparr>, e)"

definition v1_sample_order :: order_request where
  "v1_sample_order = \<lparr>rq_ticker = ''005930'', rq_side = ''buy'', rq_order_type = ''limit'', rq_qty = 1, rq_price = Some 100\<rparr>"

theorem order_services_agree_witness:
  "fst (snd (place_with_reconcile v1_refuse v1_unknown 0 v1_sample_order (0, None))) = snd (v1_place_with_reconcile v1_refuse v1_unknown v1_sample_order 0)"
proof -
  obtain r1 e1 where v1: "v1_place_with_reconcile v1_refuse v1_unknown v1_sample_order 0 = (r1, e1)" by (rule prod.exhaust)
  obtain r2 e2 sf2 where v2: "place_with_reconcile v1_refuse v1_unknown 0 v1_sample_order (0, None) = (r2, e2, sf2)" by (rule prod_cases3)
  have "answers_orders v1_refuse v1_unknown" by (simp add: answers_orders_def v1_refuse_def v1_unknown_def)
  from order_services_agree [OF this v1 v2] show ?thesis by (simp add: v1 v2)
qed

text \<open>
  C32: the exits of the two versions agree: an open, well-formed position under a broker that fills moves as the
  state machine of the rebuild moves it and sells the same quantity, except that a trailing stop leaves
  the recorded high and stop as they were.
\<close>

theorem exits_agree:
  assumes "position_wf row" "pos_state row \<noteq> ''CLOSED''" "t = decide (snapshot_of row) price atr tm"
    and "\<forall>q. \<exists>f. vb_exit br (pos_ticker row) q e = (Inr f, fills q) \<and> fl_ok f"
  shows "monitor_and_close br tm now (v1_of row) price atr e =
    (Inr (0 < tr_close_qty t,
          if tr_reason t = Some ''trailing_stop''
          then (v1_of (sm_apply now row t))\<lparr>vp_highest_price := pos_highest_price row, vp_trailing_stop_price := pos_trailing_stop_price row\<rparr>
          else v1_of (sm_apply now row t)),
     if 0 < tr_close_qty t then fills (tr_close_qty t) else e)"
proof (cases "0 < tr_close_qty t")
  case True
  obtain f where "vb_exit br (pos_ticker row) (tr_close_qty t) e = (Inr f, fills (tr_close_qty t))" "fl_ok f"
    using assms(4) by blast
  then show ?thesis
    using True decide_exit_agrees [OF assms(1,3)] after_fill_agrees [OF assms(1,3) True]
    by (simp add: monitor_and_close_def Let_def del: if_split)
next
  case False
  then have "tr_reason t \<noteq> Some ''trailing_stop''"
    using assms(1) by (rule_tac position_wf_cases) (use assms(2,3) False in \<open>auto simp: decide_def snapshot_of_def Let_def split: if_splits\<close>)
  then show ?thesis
    using False decide_exit_agrees [OF assms(1,3)] follow_high_agrees [OF assms(1-3) False]
    by (simp add: monitor_and_close_def Let_def)
qed

definition v1_sample_row :: position_row where
  "v1_sample_row =
     \<lparr>pos_id = 1, pos_order_id = None, pos_ticker = ''005930'', pos_strategy_id = ''2'', pos_state = ''OPEN'', pos_entry_price = 100,
      pos_stop_price = 95, pos_take_profit_price = 110, pos_trailing_stop_price = None, pos_highest_price = None,
      pos_quantity = 2, pos_remaining_quantity = 2, pos_entry_time = 0, pos_closed_time = None, pos_close_reason = None, pos_updated_at = 0\<rparr>"

theorem exits_agree_witness:
  "monitor_and_close paper_broker (Fin 1) 7 (v1_of v1_sample_row) 120 3 () =
     (Inr (True, v1_of (sm_apply 7 v1_sample_row (decide (snapshot_of v1_sample_row) 120 3 (Fin 1)))), ())"
proof -
  have "position_wf v1_sample_row" "pos_state v1_sample_row \<noteq> ''CLOSED''" by (simp_all add: v1_sample_row_def position_wf_def)
  moreover have "decide (snapshot_of v1_sample_row) 120 3 (Fin 1) =
      \<lparr>tr_new_state = ''HALF_CLOSED'', tr_close_qty = 1, tr_reason = Some ''take_profit_half'', tr_new_highest = Some 120,
       tr_new_trailing_stop = Some (Fin 117)\<rparr>"
    by (simp add: decide_def snapshot_of_def v1_sample_row_def)
  moreover have "\<forall>q. \<exists>f. vb_exit paper_broker (pos_ticker v1_sample_row) q () = (Inr f, (\<lambda>_. ()) q) \<and> fl_ok f"
    by (simp add: paper_broker_def)
  ultimately show ?thesis
    using exits_agree [of v1_sample_row "decide (snapshot_of v1_sample_row) 120 3 (Fin 1)" 120 3 "Fin 1" paper_broker "()" "\<lambda>_. ()" 7] by simp
qed

end
