(* ===== verification/Legacy_Runtime.thy ===== *)
theory Legacy_Runtime
  imports Legacy_Orders Loop_Core
begin

text \<open>
  The running program of the first version (\<open>legacy/app_v1\<close>): the tables, the executor
  (\<open>orders/executor.py\<close>), the forced close of a position (\<open>orders/position_manager.py\<close>), the ticks of Loop A
  (\<open>loops/loop_a.py\<close>), the queue and the state (\<open>runtime\<close>) and the commands (\<open>services/command_service.py\<close>). The
  database answers; an exception leaves the session, which forgets what it has not committed.
  Timestamps of the rows other than those a decision reads and the message about an entry,
  whose failure the code swallows, are left out. The numbers of the rows count the rows of their
  table. A tick sees one configuration.
\<close>

section \<open>Tables\<close>

record signal_event =
  ev_ticker :: string
  ev_strategy_id :: string
  ev_timeframe :: string
  ev_signal_type :: string
  ev_side :: string
  ev_price :: real
  ev_time :: instant

record v1_order =
  vo_id :: nat
  vo_position_id :: "nat option"
  vo_external_order_id :: "string option"
  vo_ticker :: string
  vo_strategy_id :: string
  vo_side :: string
  vo_order_type :: string
  vo_price :: "real option"
  vo_quantity :: real
  vo_filled_quantity :: real
  vo_status :: string
  vo_reason :: "string option"

record v1_paper_order =
  pp_ticker :: string
  pp_side :: string
  pp_order_type :: string
  pp_price :: real
  pp_quantity :: real
  pp_status :: string

record v1_paper_trade =
  pt_ticker :: string
  pt_side :: string
  pt_entry_price :: real
  pt_exit_price :: "real option"
  pt_quantity :: real
  pt_pnl :: "real option"

record paper_holding =
  ho_ticker :: string
  ho_quantity :: real
  ho_avg_price :: real

text \<open>A row of \<open>signals\<close> is the event and its status.\<close>

record v1_db =
  d1_signals :: "(signal_event \<times> string) list"
  d1_orders :: "v1_order list"
  d1_positions :: "v1_position list"
  d1_paper_orders :: "v1_paper_order list"
  d1_paper_trades :: "v1_paper_trade list"
  d1_portfolio :: "paper_holding list"
  d1_candles :: "candle_row list"

text \<open>\<open>query(...).filter(...).first()\<close>, then an assignment to the row found.\<close>

fun update_first :: "('a \<Rightarrow> bool) \<Rightarrow> ('a \<Rightarrow> 'a) \<Rightarrow> 'a list \<Rightarrow> 'a list" where
  "update_first P f [] = []"
| "update_first P f (x # xs) = (if P x then f x # xs else x # update_first P f xs)"

definition open_positions :: "v1_db \<Rightarrow> v1_position list" where
  "open_positions d = filter (\<lambda>p. vp_state p \<noteq> ''CLOSED'') (d1_positions d)"

definition put_position :: "v1_position \<Rightarrow> v1_db \<Rightarrow> v1_db" where
  "put_position p d = d\<lparr>d1_positions := map (\<lambda>q. if vp_id q = vp_id p then p else q) (d1_positions d)\<rparr>"

section \<open>The executor\<close>

definition entry_order :: "nat \<Rightarrow> signal_event \<Rightarrow> fill \<Rightarrow> v1_order" where
  "entry_order n ev f =
     \<lparr>vo_id = n, vo_position_id = None, vo_external_order_id = fl_order_id f, vo_ticker = ev_ticker ev,
      vo_strategy_id = ev_strategy_id ev, vo_side = ev_side ev, vo_order_type = ''limit'', vo_price = Some (ev_price ev),
      vo_quantity = 1, vo_filled_quantity = fl_filled_qty f, vo_status = (if fl_ok f then ''filled'' else ''rejected''),
      vo_reason = (if truthy_str (fl_error f) then fl_error f else Some ''signal_entry'')\<rparr>"

definition pf_max0 :: "pyfloat \<Rightarrow> pyfloat" where
  "pf_max0 x = (if pf_lt x (Fin 0) then Fin 0 else x)"

definition entry_prices :: "config \<Rightarrow> candle_row list \<Rightarrow> signal_event \<Rightarrow> (pyfloat \<times> pyfloat) py" where
  "entry_prices cfg rows ev =
     py_bind (compute_atr_value cfg rows (ev_ticker ev) (ev_timeframe ev) (ev_price ev)) (\<lambda>atr.
     py_bind (v1_mult ''stop_atr_mult'' cfg) (\<lambda>sm.
     py_bind (v1_mult ''tp_atr_mult'' cfg) (\<lambda>pm.
       Inr (pf_max0 (pf_minus (ev_price ev) (pf_scale atr sm)), pf_minus (ev_price ev) (pf_neg (pf_scale atr pm))))))"

definition entry_position :: "nat \<Rightarrow> instant \<Rightarrow> signal_event \<Rightarrow> fill \<Rightarrow> pyfloat \<times> pyfloat \<Rightarrow> v1_position" where
  "entry_position n now ev f pr =
     \<lparr>vp_id = n, vp_ticker = ev_ticker ev, vp_strategy_id = ev_strategy_id ev, vp_state = ''OPEN'', vp_entry_price = ev_price ev,
      vp_stop_price = fst pr, vp_take_profit_price = snd pr, vp_trailing_stop_price = None,
      vp_highest_price = Some (ev_price ev), vp_quantity = fl_filled_qty f, vp_remaining_quantity = fl_filled_qty f,
      vp_entry_time = now, vp_closed_time = None, vp_close_reason = None\<rparr>"

definition more_held :: "real \<Rightarrow> real \<Rightarrow> paper_holding \<Rightarrow> paper_holding" where
  "more_held price qty h =
     (let new_qty = ho_quantity h + qty
      in h\<lparr>ho_quantity := new_qty,
           ho_avg_price := (if new_qty > 0 then (ho_avg_price h * ho_quantity h + price * qty) / new_qty else ho_avg_price h)\<rparr>)"

definition hold_more :: "string \<Rightarrow> real \<Rightarrow> real \<Rightarrow> paper_holding list \<Rightarrow> paper_holding list" where
  "hold_more t price qty hs =
     (if list_ex (\<lambda>h. ho_ticker h = t) hs then update_first (\<lambda>h. ho_ticker h = t) (more_held price qty) hs
      else hs @ [\<lparr>ho_ticker = t, ho_quantity = qty, ho_avg_price = price\<rparr>])"

text \<open>What the paper mode writes next to the position.\<close>

definition paper_entry :: "signal_event \<Rightarrow> fill \<Rightarrow> v1_db \<Rightarrow> v1_db" where
  "paper_entry ev f d =
     d\<lparr>d1_paper_orders := d1_paper_orders d @
         [\<lparr>pp_ticker = ev_ticker ev, pp_side = ev_side ev, pp_order_type = ''limit'', pp_price = ev_price ev,
           pp_quantity = fl_filled_qty f, pp_status = ''filled''\<rparr>],
       d1_paper_trades := d1_paper_trades d @
         [\<lparr>pt_ticker = ev_ticker ev, pt_side = ev_side ev, pt_entry_price = ev_price ev, pt_exit_price = None,
           pt_quantity = fl_filled_qty f, pt_pnl = None\<rparr>],
       d1_portfolio := hold_more (ev_ticker ev) (ev_price ev) (fl_filled_qty f) (d1_portfolio d)\<rparr>"

definition execute_signal ::
  "string \<Rightarrow> config \<Rightarrow> 'e v1_broker \<Rightarrow> instant \<Rightarrow> signal_event \<Rightarrow> 'e \<times> v1_db \<Rightarrow> unit py \<times> 'e \<times> v1_db" where
  "execute_signal mode cfg br now ev s =
     (case s of (e, d) \<Rightarrow>
        (case vb_entry br (ev_ticker ev) 1 (ev_price ev) e of
           (Inl x, e') \<Rightarrow> (Inl x, e', d)
         | (Inr f, e') \<Rightarrow>
             (let d1 = d\<lparr>d1_signals := d1_signals d @ [(ev, ''accepted'')]\<rparr>;
                  order = entry_order (Suc (length (d1_orders d))) ev f;
                  pid = Suc (length (d1_positions d))
              in if \<not> fl_ok f then (Inr (), e', d1\<lparr>d1_orders := d1_orders d @ [order]\<rparr>)
                 else
                   (case entry_prices cfg (d1_candles d) ev of
                      Inl x \<Rightarrow> (Inl x, e', d)
                    | Inr pr \<Rightarrow>
                        (let d2 = d1\<lparr>d1_orders := d1_orders d @ [order\<lparr>vo_position_id := Some pid\<rparr>],
                                     d1_positions := d1_positions d @ [entry_position pid now ev f pr]\<rparr>
                         in (Inr (), e', if mode = ''paper'' then paper_entry ev f d2 else d2))))))"

section \<open>The forced close\<close>

definition settle_paper :: "v1_position \<Rightarrow> v1_db \<Rightarrow> v1_db" where
  "settle_paper p d =
     d\<lparr>d1_paper_trades := update_first (\<lambda>t. pt_ticker t = vp_ticker p \<and> pt_exit_price t = None)
         (\<lambda>t. t\<lparr>pt_exit_price := Some (vp_entry_price p), pt_pnl := Some 0\<rparr>) (d1_paper_trades d),
       d1_portfolio := update_first (\<lambda>h. ho_ticker h = vp_ticker p)
         (\<lambda>h. h\<lparr>ho_quantity := max (ho_quantity h - vp_remaining_quantity p) 0\<rparr>) (d1_portfolio d)\<rparr>"

definition closed_by_force :: "instant \<Rightarrow> string \<Rightarrow> v1_position \<Rightarrow> v1_position" where
  "closed_by_force now reason p =
     p\<lparr>vp_remaining_quantity := 0, vp_state := ''CLOSED'', vp_closed_time := Some now, vp_close_reason := Some reason\<rparr>"

definition force_close ::
  "string \<Rightarrow> 'e v1_broker \<Rightarrow> instant \<Rightarrow> string \<Rightarrow> v1_position \<Rightarrow> 'e \<times> v1_db \<Rightarrow> bool py \<times> 'e \<times> v1_db" where
  "force_close mode br now reason p s =
     (case s of (e, d) \<Rightarrow>
        if vp_state p = ''CLOSED'' \<or> vp_remaining_quantity p \<le> 0 then (Inr False, e, d)
        else
          (case vb_exit br (vp_ticker p) (vp_remaining_quantity p) e of
             (Inl x, e') \<Rightarrow> (Inl x, e', d)
           | (Inr f, e') \<Rightarrow>
               if \<not> fl_ok f then (Inr False, e', d)
               else (let d1 = put_position (closed_by_force now reason p) d
                     in (Inr True, e', if mode = ''paper'' then settle_paper p d1 else d1))))"

section \<open>Loop A\<close>

record v1_runtime =
  rt_paused_entry :: bool
  rt_paused_all :: bool
  rt_stop_requested :: bool
  rt_last_margin_close_date :: "string option"
  rt_server_time_offset_sec :: real

text \<open>The rest of a pass over the positions that are open when it starts.\<close>

fun monitor_rows ::
  "config \<Rightarrow> 'e v1_broker \<Rightarrow> pyfloat \<Rightarrow> instant \<Rightarrow> v1_position list \<Rightarrow> 'e \<times> v1_db \<Rightarrow> unit py \<times> 'e \<times> v1_db" where
  "monitor_rows cfg br tm now [] s = (Inr (), s)"
| "monitor_rows cfg br tm now (p # ps) s =
     (case s of (e, d) \<Rightarrow>
        (case get_last_price (d1_candles d) (vp_ticker p) ''5m'' of
           None \<Rightarrow> monitor_rows cfg br tm now ps (e, d)
         | Some price \<Rightarrow>
             (case compute_atr_value cfg (d1_candles d) (vp_ticker p) ''5m'' price of
                Inl x \<Rightarrow> (Inl x, e, d)
              | Inr atr \<Rightarrow>
                  (case monitor_and_close br tm now p price atr e of
                     (Inl x, e') \<Rightarrow> (Inl x, e', d)
                   | (Inr (filled, p'), e') \<Rightarrow> monitor_rows cfg br tm now ps (e', put_position p' d)))))"

definition position_value :: "candle_row list \<Rightarrow> v1_position \<Rightarrow> real" where
  "position_value rows p = or_real (get_last_price rows (vp_ticker p) ''5m'') (vp_entry_price p) * vp_remaining_quantity p"

definition open_value :: "v1_db \<Rightarrow> real" where
  "open_value d = sum_list (map (position_value (d1_candles d)) (open_positions d))"

definition close_due :: "string \<Rightarrow> datetime \<Rightarrow> bool py" where
  "close_due margin_close_time now =
     (case py_split (CHR '':'') margin_close_time of
        [hh, mm] \<Rightarrow>
          (case py_int_of hh of
             None \<Rightarrow> Inl (ValueError ''invalid literal for int() with base 10'')
           | Some h \<Rightarrow>
               if int (dt_hour now) \<noteq> h then Inr False
               else (case py_int_of mm of
                       None \<Rightarrow> Inl (ValueError ''invalid literal for int() with base 10'')
                     | Some m \<Rightarrow> Inr (m \<le> int (dt_minute now))))
      | _ \<Rightarrow> Inl (ValueError ''values to unpack''))"

definition v1_rank :: "string list \<Rightarrow> v1_position \<Rightarrow> nat" where
  "v1_rank priority p =
     (if vp_strategy_id p \<in> set priority then length (takeWhile (\<lambda>x. x \<noteq> vp_strategy_id p) priority) else length priority)"

fun close_in_order ::
  "string \<Rightarrow> 'e v1_broker \<Rightarrow> instant \<Rightarrow> pyfloat \<Rightarrow> v1_position list \<Rightarrow> 'e \<times> v1_db \<Rightarrow> unit py \<times> 'e \<times> v1_db" where
  "close_in_order mode br now base [] s = (Inr (), s)"
| "close_in_order mode br now base (p # ps) s =
     (case force_close mode br now ''margin_forced_close'' p s of
        (Inl x, s') \<Rightarrow> (Inl x, s')
      | (Inr b, e', d') \<Rightarrow>
          if pf_le (Fin (open_value d')) base then (Inr (), e', d')
          else close_in_order mode br now base ps (e', d'))"

definition run_margin_close_if_needed ::
  "string \<Rightarrow> config \<Rightarrow> 'e v1_broker \<Rightarrow> datetime \<Rightarrow> v1_runtime \<Rightarrow> 'e \<times> v1_db \<Rightarrow> unit py \<times> v1_runtime \<times> 'e \<times> v1_db" where
  "run_margin_close_if_needed mode cfg br now rt s =
     (let day_key = date_str now; done_rt = rt\<lparr>rt_last_margin_close_date := Some day_key\<rparr> in
      case py_bind (v1_get ''margin_close_time'' cfg) (\<lambda>t. close_due t now) of
        Inl x \<Rightarrow> (Inl x, rt, s)
      | Inr due \<Rightarrow>
          if \<not> due \<or> rt_last_margin_close_date rt = Some day_key then (Inr (), rt, s)
          else
            (case to_float (v1_get ''daily_base_capital'' cfg) of
               Inl x \<Rightarrow> (Inl x, rt, s)
             | Inr base \<Rightarrow>
                 if pf_le (Fin (open_value (snd s))) base then (Inr (), done_rt, s)
                 else
                   (case v1_get ''margin_close_priority'' cfg of
                      Inl x \<Rightarrow> (Inl x, rt, s)
                    | Inr pr \<Rightarrow>
                        (case close_in_order mode br (instant_of now) base
                                (sort_key (v1_rank (priority_chunks pr)) (open_positions (snd s))) s of
                           (Inl x, s') \<Rightarrow> (Inl x, rt, s')
                         | (Inr _, s') \<Rightarrow> (Inr (), done_rt, s')))))"

text \<open>The head of the queue is gone whatever becomes of it; the limit counts the positions that are open.\<close>

definition take_entry ::
  "string \<Rightarrow> config \<Rightarrow> 'e v1_broker \<Rightarrow> instant \<Rightarrow> bool \<Rightarrow> signal_event list \<times> 'e \<times> v1_db \<Rightarrow> unit py \<times> signal_event list \<times> 'e \<times> v1_db" where
  "take_entry mode cfg br now paused w =
     (case w of
        ([], s) \<Rightarrow> (Inr (), [], s)
      | (ev # q, s) \<Rightarrow>
          if paused then (Inr (), ev # q, s)
          else
            (case v1_can_open_new_position cfg (length (open_positions (snd s))) of
               Inl x \<Rightarrow> (Inl x, q, s)
             | Inr ok \<Rightarrow>
                 if \<not> ok then (Inr (), q, s)
                 else (case execute_signal mode cfg br now ev s of (r, s') \<Rightarrow> (r, q, s'))))"

type_synonym 'e v1_world = "v1_runtime \<times> signal_event list \<times> 'e \<times> v1_db"

definition loop_a_tick ::
  "string \<Rightarrow> config \<Rightarrow> 'e v1_broker \<Rightarrow> pyfloat \<Rightarrow> datetime \<Rightarrow> 'e v1_world \<Rightarrow> unit py \<times> 'e v1_world" where
  "loop_a_tick mode cfg br tm now w =
     (case w of (rt, q, s) \<Rightarrow>
        if rt_paused_all rt then (Inr (), rt, q, s)
        else
          (case take_entry mode cfg br (instant_of now) (rt_paused_entry rt) (q, s) of
             (Inl x, q', s') \<Rightarrow> (Inl x, rt, q', s')
           | (Inr _, q', s') \<Rightarrow>
               (case monitor_rows cfg br tm (instant_of now) (open_positions (snd s')) s' of
                  (Inl x, s2) \<Rightarrow> (Inl x, rt, q', s2)
                | (Inr _, s2) \<Rightarrow>
                    (case run_margin_close_if_needed mode cfg br now rt s2 of
                       (r, rt', s3) \<Rightarrow> (r, rt', q', s3)))))"

section \<open>Commands\<close>

datatype v1_answer = Said string | Http nat string

definition flag_text :: "bool \<Rightarrow> string" where
  "flag_text b = (if b then ''True'' else ''False'')"

definition status_text :: "v1_runtime \<Rightarrow> string" where
  "status_text rt = ''paused_entry='' @ flag_text (rt_paused_entry rt) @ '', paused_all='' @ flag_text (rt_paused_all rt) @
     '', stop_requested='' @ flag_text (rt_stop_requested rt)"

text \<open>The program runs or not; \<open>/status\<close> only reads.\<close>

definition v1_command :: "string \<Rightarrow> v1_runtime option \<Rightarrow> v1_answer \<times> v1_runtime option" where
  "v1_command command runtime =
     (case runtime of
        None \<Rightarrow> (Http 400 ''runtime is disabled'', None)
      | Some rt \<Rightarrow>
          (let cmd = py_lower (py_strip command) in
           if cmd \<in> {''/pause'', ''/pause entry''} then (Said ''entry paused'', Some (rt\<lparr>rt_paused_entry := True\<rparr>))
           else if cmd = ''/pause all'' then (Said ''all paused'', Some (rt\<lparr>rt_paused_all := True\<rparr>))
           else if cmd = ''/resume'' then (Said ''resumed'', Some (rt\<lparr>rt_paused_all := False, rt_paused_entry := False\<rparr>))
           else if cmd = ''/status'' then (Said (status_text rt), Some rt)
           else (Http 400 ''unsupported command'', Some rt)))"

section \<open>Positions only advance\<close>

definition v1_wf :: "v1_position \<Rightarrow> bool" where
  "v1_wf p \<longleftrightarrow> 0 < vp_quantity p \<and>
     (vp_closed_time p = None \<and> vp_close_reason p = None \<and>
        (vp_state p = ''OPEN'' \<and> vp_remaining_quantity p = vp_quantity p
         \<or> vp_state p = ''HALF_CLOSED'' \<and> vp_remaining_quantity p = vp_quantity p / 2)
      \<or> vp_closed_time p \<noteq> None \<and> vp_state p = ''CLOSED'' \<and> vp_remaining_quantity p = 0 \<and>
        vp_close_reason p \<in> {Some ''stop_loss'', Some ''trailing_stop'', Some ''margin_forced_close''})"

text \<open>A row keeps its number, a closed one everything, and a well-formed one stays so.\<close>

definition advanced :: "v1_position \<Rightarrow> v1_position \<Rightarrow> bool" where
  "advanced p q \<longleftrightarrow> vp_id q = vp_id p \<and> (vp_state p = ''CLOSED'' \<longrightarrow> q = p) \<and> (v1_wf p \<longrightarrow> v1_wf q)"

definition advances :: "v1_db \<Rightarrow> v1_db \<Rightarrow> bool" where
  "advances d d' \<longleftrightarrow> list_all2 advanced (d1_positions d) (d1_positions d') \<and> d1_candles d' = d1_candles d"

lemma advanced_refl [simp]: "advanced p p"
  by (simp add: advanced_def)

lemma advanced_trans: "advanced p q \<Longrightarrow> advanced q r \<Longrightarrow> advanced p r"
  by (auto simp: advanced_def)

lemma advances_refl [simp]: "advances d d"
  by (simp add: advances_def list_all2_refl)

lemma advances_trans: "advances a b \<Longrightarrow> advances b c \<Longrightarrow> advances a c"
  unfolding advances_def by (auto intro: list_all2_trans [where ?P1.0 = advanced and ?P2.0 = advanced] advanced_trans)

lemma list_all2_ids: "list_all2 advanced ps qs \<Longrightarrow> map vp_id qs = map vp_id ps"
  by (induction rule: list_all2_induct) (auto simp: advanced_def)

lemma list_all2_open: "list_all2 advanced ps qs \<Longrightarrow>
    length (filter (\<lambda>p. vp_state p \<noteq> ''CLOSED'') qs) \<le> length (filter (\<lambda>p. vp_state p \<noteq> ''CLOSED'') ps)"
  by (induction rule: list_all2_induct) (auto simp: advanced_def)

lemma list_all2_wf: "list_all2 advanced ps qs \<Longrightarrow> list_all v1_wf ps \<Longrightarrow> list_all v1_wf qs"
  by (induction rule: list_all2_induct) (auto simp: advanced_def)

lemma advances_ids: "advances d d' \<Longrightarrow> map vp_id (d1_positions d') = map vp_id (d1_positions d)"
  by (simp add: advances_def list_all2_ids)

lemma advances_open: "advances d d' \<Longrightarrow> length (open_positions d') \<le> length (open_positions d)"
  by (simp add: advances_def open_positions_def list_all2_open)

text \<open>Writing a row back over the open row it came from.\<close>

lemma put_advances:
  assumes "distinct (map vp_id (d1_positions d))" "p \<in> set (open_positions d)" "vp_id p' = vp_id p" "v1_wf p \<longrightarrow> v1_wf p'"
  shows "advances d (put_position p' d)"
proof -
  have "advanced q (if vp_id q = vp_id p' then p' else q)" if "q \<in> set (d1_positions d)" for q
  proof (cases "vp_id q = vp_id p")
    case True
    have "p \<in> set (d1_positions d)" using assms(2) by (simp add: open_positions_def)
    then have "q = p" using inj_onD [OF conjunct2 [OF assms(1) [unfolded distinct_map]] True that] by simp
    then show ?thesis using assms(2-4) by (simp add: advanced_def open_positions_def)
  qed (simp add: assms(3))
  then show ?thesis by (simp add: advances_def put_position_def list_all2_map2 list_all2_same)
qed

lemma put_keeps_others:
  "q \<in> set (open_positions d) \<Longrightarrow> vp_id q \<noteq> vp_id p \<Longrightarrow> q \<in> set (open_positions (put_position p d))"
  by (auto simp: open_positions_def put_position_def image_iff intro!: bexI [of _ q])

lemma follow_high_row: "vp_id (follow_high tm price atr p) = vp_id p" "v1_wf (follow_high tm price atr p) = v1_wf p"
  by (simp_all add: follow_high_def v1_wf_def Let_def)

lemma after_fill_id: "vp_id (after_fill tm now price atr x p) = vp_id p"
  by (simp add: after_fill_def Let_def)

lemma v1_wf_cases:
  assumes "v1_wf p"
  obtains (opened) "vp_state p = ''OPEN''" "vp_remaining_quantity p = vp_quantity p" "0 < vp_quantity p"
      "vp_closed_time p = None" "vp_close_reason p = None"
    | (halved) "vp_state p = ''HALF_CLOSED''" "vp_remaining_quantity p = vp_quantity p / 2" "0 < vp_quantity p"
      "vp_closed_time p = None" "vp_close_reason p = None"
    | (finished) "vp_state p = ''CLOSED''" "vp_remaining_quantity p = 0"
  using assms opened halved finished by (auto simp: v1_wf_def)

lemma exit_cases:
  assumes "decide_exit tm p price atr = x" "xd_exit x"
  obtains (stop) "vp_state p = ''OPEN''" "xd_reason x = Some ''stop_loss''" "xd_qty x = vp_remaining_quantity p"
    | (half) "vp_state p = ''OPEN''" "xd_reason x = Some ''take_profit_half''" "xd_qty x = max (vp_remaining_quantity p / 2) 0"
    | (trail) "vp_state p = ''HALF_CLOSED''" "xd_reason x = Some ''trailing_stop''" "xd_qty x = vp_remaining_quantity p"
proof (cases "vp_state p = ''OPEN''")
  case True
  then show thesis
    using assms stop half
    by (cases "pf_le (Fin price) (vp_stop_price p)"; cases "pf_le (vp_take_profit_price p) (Fin price)")
       (auto simp: decide_exit_def stay_in_def)
next
  case False
  then show thesis
    using assms trail by (auto simp: decide_exit_def stay_in_def Let_def split: if_splits)
qed

lemma after_fill_wf:
  assumes "decide_exit tm p price atr = x" "xd_exit x" "v1_wf p"
  shows "v1_wf (after_fill tm now price atr x p)"
  using assms(1,2)
proof (cases rule: exit_cases)
  case stop
  with assms(3) show ?thesis by (cases rule: v1_wf_cases) (simp_all add: after_fill_def v1_wf_def Let_def)
next
  case half
  with assms(3) show ?thesis by (cases rule: v1_wf_cases) (simp_all add: after_fill_def v1_wf_def)
next
  case trail
  with assms(3) show ?thesis by (cases rule: v1_wf_cases) (simp_all add: after_fill_def v1_wf_def Let_def)
qed

lemma monitored_row:
  assumes "monitor_and_close br tm now p price atr e = (Inr (b, p'), e')"
  shows "vp_id p' = vp_id p" "v1_wf p \<longrightarrow> v1_wf p'"
proof -
  define x where "x = decide_exit tm p price atr"
  have "p' \<in> {p, follow_high tm price atr p} \<or> xd_exit x \<and> p' = after_fill tm now price atr x p"
    using assms by (auto simp: monitor_and_close_def x_def [symmetric] Let_def split: if_splits sum.splits prod.splits)
  then show "vp_id p' = vp_id p" "v1_wf p \<longrightarrow> v1_wf p'"
    using after_fill_wf [OF x_def [symmetric]] by (auto simp: follow_high_row after_fill_id)
qed

lemma monitor_rows_advances:
  assumes "monitor_rows cfg br tm now ps (e, d) = (r, e', d')" "set ps \<subseteq> set (open_positions d)"
    and "distinct (map vp_id ps)" "distinct (map vp_id (d1_positions d))"
  shows "advances d d'"
  using assms
proof (induction ps arbitrary: e d)
  case (Cons p ps)
  show ?case
  proof (cases "get_last_price (d1_candles d) (vp_ticker p) ''5m''")
    case None
    with Cons show ?thesis by simp
  next
    case (Some price)
    show ?thesis
    proof (cases "compute_atr_value cfg (d1_candles d) (vp_ticker p) ''5m'' price")
      case (Inl x)
      with Cons.prems(1) Some show ?thesis by simp
    next
      case (Inr atr)
      show ?thesis
      proof (cases "monitor_and_close br tm now p price atr e")
        case (Pair m e1)
        show ?thesis
        proof (cases m)
          case (Inl x)
          with Cons.prems(1) Some Inr Pair show ?thesis by simp
        next
          case m: (Inr y)
          obtain b p' where y: "y = (b, p')" by (cases y)
          note row = monitored_row [OF Pair [unfolded m y]]
          have one: "advances d (put_position p' d)"
            using Cons.prems(2) row by (intro put_advances [OF Cons.prems(4), of p]) auto
          have "advances (put_position p' d) d'"
          proof (rule Cons.IH)
            show "monitor_rows cfg br tm now ps (e1, put_position p' d) = (r, e', d')"
              using Cons.prems(1) Some Inr Pair m y by simp
            show "set ps \<subseteq> set (open_positions (put_position p' d))"
              using Cons.prems(2,3) row(1) by (intro subsetI put_keeps_others) (auto dest: image_eqI [where f = vp_id, OF sym])
            show "distinct (map vp_id ps)" using Cons.prems(3) by simp
            show "distinct (map vp_id (d1_positions (put_position p' d)))"
              using Cons.prems(4) by (simp add: advances_ids [OF one])
          qed
          with one show ?thesis by (rule advances_trans)
        qed
      qed
    qed
  qed
qed simp

lemma force_close_advances:
  assumes "force_close mode br now ''margin_forced_close'' p (e, d) = (r, e', d')" "p \<in> set (open_positions d)"
    and "distinct (map vp_id (d1_positions d))"
  shows "advances d d'" "\<And>q. q \<in> set (open_positions d) \<Longrightarrow> vp_id q \<noteq> vp_id p \<Longrightarrow> q \<in> set (open_positions d')"
proof -
  define c where "c = closed_by_force now ''margin_forced_close'' p"
  have c: "vp_id c = vp_id p" "v1_wf p \<longrightarrow> v1_wf c" by (simp_all add: c_def closed_by_force_def v1_wf_def)
  have d': "d' \<in> {d, put_position c d, settle_paper p (put_position c d)}"
    using assms(1) by (simp add: force_close_def c_def [symmetric] Let_def split: if_splits prod.splits sum.splits)
  have "advances d (put_position c d)" by (rule put_advances [OF assms(3,2) c])
  moreover have "advances d (settle_paper p (put_position c d)) = advances d (put_position c d)"
    by (simp add: advances_def settle_paper_def)
  ultimately show "advances d d'" using d' advances_refl [of d] by blast
  fix q assume q: "q \<in> set (open_positions d)" "vp_id q \<noteq> vp_id p"
  have "q \<in> set (open_positions (put_position c d))" using q c(1) by (intro put_keeps_others) simp_all
  moreover have "open_positions (settle_paper p (put_position c d)) = open_positions (put_position c d)"
    by (simp add: open_positions_def settle_paper_def)
  ultimately show "q \<in> set (open_positions d')" using d' q(1) by (elim insertE) simp_all
qed

lemma close_in_order_advances:
  assumes "close_in_order mode br now base ps (e, d) = (r, e', d')" "set ps \<subseteq> set (open_positions d)"
    and "distinct (map vp_id ps)" "distinct (map vp_id (d1_positions d))"
  shows "advances d d'"
  using assms
proof (induction ps arbitrary: e d)
  case (Cons p ps)
  obtain r1 e1 d1 where f: "force_close mode br now ''margin_forced_close'' p (e, d) = (r1, e1, d1)" by (rule prod_cases3)
  have "p \<in> set (open_positions d)" using Cons.prems(2) by simp
  note one = force_close_advances [OF f this Cons.prems(4)]
  show ?case
  proof (cases "isl r1 \<or> pf_le (Fin (open_value d1)) base")
    case True
    then have "d' = d1" using Cons.prems(1) f by (auto split: sum.splits if_splits)
    with one(1) show ?thesis by simp
  next
    case False
    have "advances d1 d'"
    proof (rule Cons.IH)
      show "close_in_order mode br now base ps (e1, d1) = (r, e', d')"
        using Cons.prems(1) f False by (cases r1) simp_all
      show "set ps \<subseteq> set (open_positions d1)"
        using Cons.prems(2,3) by (intro subsetI one(2)) (auto dest: image_eqI [where f = vp_id, OF sym])
      show "distinct (map vp_id ps)" using Cons.prems(3) by simp
      show "distinct (map vp_id (d1_positions d1))" using Cons.prems(4) by (simp add: advances_ids [OF one(1)])
    qed
    with one(1) show ?thesis by (rule advances_trans)
  qed
qed simp

lemma distinct_open: "distinct (map vp_id (d1_positions d)) \<Longrightarrow> distinct (map vp_id (open_positions d))"
  by (simp add: open_positions_def distinct_map_filter)

lemma margin_close_advances:
  assumes "run_margin_close_if_needed mode cfg br now rt (e, d) = (r, rt', e', d')" "distinct (map vp_id (d1_positions d))"
  shows "advances d d'"
proof -
  consider "d' = d" | r1 base pr where
    "close_in_order mode br (instant_of now) base (sort_key (v1_rank pr) (open_positions d)) (e, d) = (r1, e', d')"
    using assms(1) by (auto simp: run_margin_close_if_needed_def Let_def split: sum.splits if_splits prod.splits)
  then show ?thesis
  proof cases
    case (2 r1 base pr)
    have "distinct (map vp_id (sort_key (v1_rank pr) (open_positions d)))"
      using distinct_open [OF assms(2)] by (simp add: distinct_map)
    then show ?thesis by (intro close_in_order_advances [OF 2 _ _ assms(2)]) simp_all
  qed simp
qed

section \<open>The invariant of the program\<close>

definition fills_as_asked :: "'e v1_broker \<Rightarrow> bool" where
  "fills_as_asked br \<longleftrightarrow> (\<forall>t q p e f e'. vb_entry br t q p e = (Inr f, e') \<longrightarrow> fl_ok f \<longrightarrow> fl_filled_qty f = q)"

lemma brokers_fill_as_asked: "fills_as_asked paper_broker" "fills_as_asked (live_broker place status)"
proof -
  have "fl_ok f \<longrightarrow> fl_filled_qty f = q" if "map_sum id (fill_of p q) x = Inr f" for x :: "order_result py" and p q f
    using that by (cases x) (auto simp: fill_of_def)
  then show "fills_as_asked (live_broker place status)" by (auto simp: fills_as_asked_def live_broker_def split: prod.splits)
qed (simp add: fills_as_asked_def paper_broker_def)

definition v1_inv :: "nat \<Rightarrow> v1_db \<Rightarrow> bool" where
  "v1_inv n d \<longleftrightarrow> map vp_id (d1_positions d) = [1..<Suc (length (d1_positions d))] \<and> list_all v1_wf (d1_positions d) \<and>
     length (open_positions d) \<le> n"

lemma v1_inv_distinct: "v1_inv n d \<Longrightarrow> distinct (map vp_id (d1_positions d))"
  by (simp add: v1_inv_def)

lemma v1_inv_advances:
  assumes "v1_inv n d" "advances d d'"
  shows "v1_inv n d'"
proof -
  have "length (d1_positions d') = length (d1_positions d)"
    using assms(2) by (auto simp: advances_def dest: list_all2_lengthD)
  then show ?thesis
    using assms advances_ids [OF assms(2)] advances_open [OF assms(2)] list_all2_wf
    by (auto simp: v1_inv_def advances_def)
qed

text \<open>The rows of before, each advanced, and after them new ones.\<close>

definition grows :: "v1_db \<Rightarrow> v1_db \<Rightarrow> bool" where
  "grows d d' \<longleftrightarrow> (\<exists>xs ys. d1_positions d' = xs @ ys \<and> list_all2 advanced (d1_positions d) xs)"

lemma advances_grows: "advances d d' \<Longrightarrow> grows d d'"
  by (auto simp: advances_def grows_def)

lemma grows_append: "d1_positions d' = d1_positions d @ ys \<Longrightarrow> grows d d'"
  unfolding grows_def by (intro exI [of _ "d1_positions d"] exI [of _ ys]) (simp add: list_all2_refl)

lemma grows_trans:
  assumes "grows a b" "grows b c"
  shows "grows a c"
proof -
  obtain xs ys where b: "d1_positions b = xs @ ys" "list_all2 advanced (d1_positions a) xs"
    using assms(1) by (auto simp: grows_def)
  obtain zs ws where c: "d1_positions c = zs @ ws" "list_all2 advanced (xs @ ys) zs"
    using assms(2) b(1) by (auto simp: grows_def)
  obtain us vs where z: "zs = us @ vs" "list_all2 advanced xs us"
    using c(2) by (auto simp: list_all2_append1)
  have "list_all2 advanced (d1_positions a) us"
    using list_all2_trans [of advanced advanced advanced "d1_positions a" xs us] b(2) z(2) advanced_trans by blast
  then show ?thesis using c(1) z(1) by (auto simp: grows_def)
qed

lemma executed:
  assumes "execute_signal mode cfg br now ev (e, d) = (r, e', d')" "fills_as_asked br"
  obtains (same) "d1_positions d' = d1_positions d"
    | (new) p where "d1_positions d' = d1_positions d @ [p]" "vp_id p = Suc (length (d1_positions d))" "v1_wf p" "vp_state p = ''OPEN''"
proof -
  obtain r1 e1 where f: "vb_entry br (ev_ticker ev) 1 (ev_price ev) e = (r1, e1)" by (rule prod.exhaust)
  show thesis
  proof (cases r1)
    case (Inl x)
    with assms(1) f show thesis by (intro same) (simp add: execute_signal_def)
  next
    case (Inr fl)
    show thesis
    proof (cases "fl_ok fl \<and> \<not> isl (entry_prices cfg (d1_candles d) ev)")
      case True
      then obtain pr where pr: "entry_prices cfg (d1_candles d) ev = Inr pr"
        by (cases "entry_prices cfg (d1_candles d) ev") simp_all
      define p where "p = entry_position (Suc (length (d1_positions d))) now ev fl pr"
      have "fl_filled_qty fl = 1" using assms(2) f Inr True unfolding fills_as_asked_def by blast
      then have "vp_id p = Suc (length (d1_positions d)) \<and> v1_wf p \<and> vp_state p = ''OPEN''"
        by (simp add: p_def entry_position_def v1_wf_def)
      moreover have "d1_positions d' = d1_positions d @ [p]"
        using assms(1) f Inr True pr by (auto simp: execute_signal_def paper_entry_def p_def Let_def split: if_splits)
      ultimately show thesis using new [of p] by blast
    next
      case False
      with assms(1) f Inr show thesis
        by (intro same) (cases "entry_prices cfg (d1_candles d) ev"; auto simp: execute_signal_def Let_def split: if_splits)
    qed
  qed
qed

lemma take_entry_inv:
  assumes "take_entry mode cfg br now paused (q, e, d) = (r, q', e', d')" "fills_as_asked br" "v1_inv n d"
    and "\<forall>k. v1_int ''max_positions'' cfg = Inr k \<longrightarrow> k \<le> int n"
  shows "v1_inv n d' \<and> grows d d'"
proof (cases "d' = d")
  case True
  with assms(3) show ?thesis by (simp add: advances_grows)
next
  case False
  then obtain ev q1 where q: "q = ev # q1" using assms(1) by (cases q) (simp_all add: take_entry_def)
  have free: "v1_can_open_new_position cfg (length (open_positions d)) = Inr True"
    using assms(1) False q by (auto simp: take_entry_def split: if_splits sum.splits)
  then have room: "length (open_positions d) < n"
    using assms(4) by (auto simp: v1_can_open_new_position_def py_bind_Inr_iff)
  have ex: "execute_signal mode cfg br now ev (e, d) = (r, e', d')"
    using assms(1) False q free by (auto simp: take_entry_def split: if_splits prod.splits)
  from ex assms(2) show ?thesis
  proof (cases rule: executed)
    case same
    then show ?thesis using assms(3) grows_append [of d' d "[]"] by (simp add: v1_inv_def open_positions_def)
  next
    case (new p)
    then have "v1_inv n d'" using assms(3) room by (simp add: v1_inv_def open_positions_def)
    with new(1) show ?thesis using grows_append [of d' d "[p]"] by simp
  qed
qed

lemma tick_inv:
  assumes "loop_a_tick mode cfg br tm now (rt, q, e, d) = (r, rt', q', e', d')" "fills_as_asked br" "v1_inv n d"
    and "\<forall>k. v1_int ''max_positions'' cfg = Inr k \<longrightarrow> k \<le> int n"
  shows "v1_inv n d' \<and> grows d d'"
proof (cases "rt_paused_all rt")
  case True
  with assms(1,3) show ?thesis by (simp add: loop_a_tick_def advances_grows)
next
  case False
  obtain r1 q1 e1 d1 where t: "take_entry mode cfg br (instant_of now) (rt_paused_entry rt) (q, e, d) = (r1, q1, e1, d1)"
    by (rule prod_cases4)
  note one = take_entry_inv [OF t assms(2-4)]
  obtain r2 e2 d2 where m: "monitor_rows cfg br tm (instant_of now) (open_positions d1) (e1, d1) = (r2, e2, d2)" by (rule prod_cases3)
  have ids: "distinct (map vp_id (d1_positions d1))" using one by (intro v1_inv_distinct) blast
  have two: "advances d1 d2" by (rule monitor_rows_advances [OF m _ distinct_open [OF ids] ids]) simp
  obtain r3 rt3 e3 d3 where c: "run_margin_close_if_needed mode cfg br now rt (e2, d2) = (r3, rt3, e3, d3)" by (rule prod_cases4)
  have three: "advances d2 d3"
    by (rule margin_close_advances [OF c]) (simp add: advances_ids [OF two] ids)
  have "d' \<in> {d1, d2, d3}"
    using assms(1) False t m c by (auto simp: loop_a_tick_def split: sum.splits)
  then have "advances d1 d'" using two advances_trans [OF two three] advances_refl by (elim insertE) simp_all
  then show ?thesis using one v1_inv_advances grows_trans advances_grows by blast
qed

section \<open>Runs\<close>

datatype v1_action = Tick config datetime | Enqueue signal_event | Command string

fun v1_step :: "string \<Rightarrow> 'e v1_broker \<Rightarrow> pyfloat \<Rightarrow> v1_action \<Rightarrow> 'e v1_world \<Rightarrow> 'e v1_world" where
  "v1_step mode br tm (Tick cfg now) w = snd (loop_a_tick mode cfg br tm now w)"
| "v1_step mode br tm (Enqueue ev) (rt, q, s) = (rt, q @ [ev], s)"
| "v1_step mode br tm (Command c) (rt, q, s) = (the (snd (v1_command c (Some rt))), q, s)"

definition v1_run :: "string \<Rightarrow> 'e v1_broker \<Rightarrow> pyfloat \<Rightarrow> v1_action list \<Rightarrow> 'e v1_world \<Rightarrow> 'e v1_world" where
  "v1_run mode br tm acts w = foldl (\<lambda>v a. v1_step mode br tm a v) w acts"

definition limit_of :: "v1_action \<Rightarrow> int option" where
  "limit_of a = (case a of Tick cfg now \<Rightarrow> (case v1_int ''max_positions'' cfg of Inl _ \<Rightarrow> None | Inr k \<Rightarrow> Some k) | _ \<Rightarrow> None)"

lemma v1_step_inv:
  assumes "v1_step mode br tm a (rt, q, e, d) = (rt', q', e', d')" "fills_as_asked br" "v1_inv n d" "\<forall>k. limit_of a = Some k \<longrightarrow> k \<le> int n"
  shows "v1_inv n d' \<and> grows d d'"
proof (cases a)
  case (Tick cfg now)
  obtain r w where t: "loop_a_tick mode cfg br tm now (rt, q, e, d) = (r, w)" by (rule prod.exhaust)
  then have "loop_a_tick mode cfg br tm now (rt, q, e, d) = (r, rt', q', e', d')" using assms(1) Tick by simp
  from this assms(2,3) show ?thesis
    by (rule tick_inv) (use assms(4) Tick in \<open>auto simp: limit_of_def\<close>)
qed (use assms(1,3) in \<open>simp_all add: advances_grows\<close>)

lemma v1_run_inv:
  assumes "v1_run mode br tm acts (rt, q, e, d) = (rt', q', e', d')" "fills_as_asked br" "v1_inv n d"
    and "\<forall>a\<in>set acts. \<forall>k. limit_of a = Some k \<longrightarrow> k \<le> int n"
  shows "v1_inv n d' \<and> grows d d'"
  using assms
proof (induction acts arbitrary: rt q e d)
  case Nil
  then show ?case by (simp add: v1_run_def advances_grows)
next
  case (Cons a acts)
  obtain rt1 q1 e1 d1 where s: "v1_step mode br tm a (rt, q, e, d) = (rt1, q1, e1, d1)" by (rule prod_cases4)
  have one: "v1_inv n d1 \<and> grows d d1"
    by (rule v1_step_inv [OF s Cons.prems(2,3)]) (use Cons.prems(4) in simp)
  have "v1_run mode br tm acts (rt1, q1, e1, d1) = (rt', q', e', d')" using Cons.prems(1) s by (simp add: v1_run_def)
  then have "v1_inv n d' \<and> grows d1 d'" by (rule Cons.IH) (use Cons.prems one in auto)
  with one show ?case using grows_trans by blast
qed

lemma grows_keeps_closed:
  assumes "grows d d'" "p \<in> set (d1_positions d)" "vp_state p = ''CLOSED''"
  shows "p \<in> set (d1_positions d')"
proof -
  obtain xs ys where x: "d1_positions d' = xs @ ys" "list_all2 advanced (d1_positions d) xs"
    using assms(1) by (auto simp: grows_def)
  obtain i where i: "i < length (d1_positions d)" "d1_positions d ! i = p"
    using assms(2) by (auto simp: in_set_conv_nth)
  then have "i < length xs" "advanced p (xs ! i)" using x(2) by (auto simp: list_all2_conv_all_nth)
  then have "p \<in> set xs" using assms(3) nth_mem [of i xs] by (auto simp: advanced_def)
  then show ?thesis using x(1) by simp
qed

section \<open>The forced close as the rebuild decides it\<close>

definition exits_fill :: "'e v1_broker \<Rightarrow> bool" where
  "exits_fill br \<longleftrightarrow> (\<forall>t q e. \<exists>f e'. vb_exit br t q e = (Inr f, e') \<and> fl_ok f)"

definition v1_exposure :: "candle_row list \<Rightarrow> v1_position \<Rightarrow> position_exposure" where
  "v1_exposure rows p =
     \<lparr>ex_position_id = int (vp_id p), ex_strategy_id = vp_strategy_id p, ex_market_value = position_value rows p\<rparr>"

definition closed_those :: "instant \<Rightarrow> int list \<Rightarrow> v1_position list \<Rightarrow> v1_position list" where
  "closed_those now ids = map (\<lambda>p. if int (vp_id p) \<in> set ids then closed_by_force now ''margin_forced_close'' p else p)"

lemma v1_exposure_simps [simp]:
  "ex_position_id (v1_exposure rows p) = int (vp_id p)" "ex_market_value (v1_exposure rows p) = position_value rows p"
  by (simp_all add: v1_exposure_def)

lemma insort_key_map: "insort_key f (g x) (map g xs) = map g (insort_key (\<lambda>y. f (g y)) x xs)"
  by (induction xs) simp_all

lemma sort_key_of_map: "sort_key f (map g xs) = map g (sort_key (\<lambda>y. f (g y)) xs)"
  by (induction xs) (simp_all add: insort_key_map)

lemma rank_of_exposure: "priority_rank pr (v1_exposure rows p) = v1_rank pr p"
  by (simp add: priority_rank_def v1_rank_def v1_exposure_def)

lemma force_close_filled:
  assumes "exits_fill br" "vp_state p \<noteq> ''CLOSED''" "0 < vp_remaining_quantity p"
  obtains e' d' where "force_close mode br now reason p (e, d) = (Inr True, e', d')" "d1_candles d' = d1_candles d"
    "d1_positions d' = d1_positions (put_position (closed_by_force now reason p) d)"
proof -
  obtain f e' where f: "vb_exit br (vp_ticker p) (vp_remaining_quantity p) e = (Inr f, e')" "fl_ok f"
    using assms(1) unfolding exits_fill_def by blast
  define d1 where "d1 = put_position (closed_by_force now reason p) d"
  show thesis
    by (rule that [of e' "if mode = ''paper'' then settle_paper p d1 else d1"])
       (use assms(2,3) f in \<open>simp_all add: force_close_def d1_def settle_paper_def put_position_def Let_def\<close>)
qed

text \<open>Closing one row takes its value out of the sum.\<close>

lemma sum_without:
  fixes f :: "v1_position \<Rightarrow> real"
  assumes "distinct (map vp_id ps)" "p \<in> set ps" "P p" "\<not> P c" "vp_id c = vp_id p"
  shows "sum_list (map f (filter P (map (\<lambda>q. if vp_id q = vp_id c then c else q) ps))) = sum_list (map f (filter P ps)) - f p"
  using assms
proof (induction ps)
  case (Cons q ps)
  show ?case
  proof (cases "q = p")
    case True
    have "vp_id p \<notin> vp_id ` set ps" using Cons.prems(1) True by simp
    then have "map (\<lambda>q. if vp_id q = vp_id c then c else q) ps = ps"
      using Cons.prems(5) by (intro map_idI) (auto dest: image_eqI [where f = vp_id, OF sym])
    then show ?thesis using True Cons.prems(3-5) by simp
  next
    case False
    then have "p \<in> set ps" using Cons.prems(2) by simp
    moreover from this have "vp_id q \<noteq> vp_id c" using Cons.prems(1,5) by auto
    ultimately show ?thesis using Cons by simp
  qed
qed simp

lemma closed_by_force_simps [simp]:
  "vp_id (closed_by_force now reason p) = vp_id p" "vp_state (closed_by_force now reason p) = ''CLOSED''"
  by (simp_all add: closed_by_force_def)

lemma open_value_put:
  assumes "distinct (map vp_id (d1_positions d))" "p \<in> set (open_positions d)" "d1_candles d' = d1_candles d"
    and "d1_positions d' = d1_positions (put_position (closed_by_force now reason p) d)"
  shows "open_value d' = open_value d - position_value (d1_candles d) p"
proof -
  have "p \<in> set (d1_positions d)" "vp_state p \<noteq> ''CLOSED''" using assms(2) by (simp_all add: open_positions_def)
  then show ?thesis
    using sum_without [of "d1_positions d" p "\<lambda>p. vp_state p \<noteq> ''CLOSED''" "closed_by_force now reason p" "position_value (d1_candles d)"]
    using assms(1,3,4) by (simp add: open_value_def open_positions_def put_position_def)
qed

lemma put_closed_those:
  assumes "distinct (map vp_id (d1_positions d))" "p \<in> set (d1_positions d)"
  shows "d1_positions (put_position (closed_by_force now ''margin_forced_close'' p) d) = closed_those now [int (vp_id p)] (d1_positions d)"
  unfolding closed_those_def put_position_def
  using assms by (auto simp: distinct_map inj_on_def intro!: map_cong)

lemma closed_those_twice:
  "closed_those now js (closed_those now is ps) = closed_those now (is @ js) ps"
  by (auto simp: closed_those_def closed_by_force_def)

lemma closed_those_ids [simp]: "map vp_id (closed_those now is ps) = map vp_id ps"
  by (simp add: closed_those_def)

lemma closed_those_open:
  assumes "q \<in> set ps" "vp_state q \<noteq> ''CLOSED''" "int (vp_id q) \<notin> set is"
  shows "q \<in> set (filter (\<lambda>p. vp_state p \<noteq> ''CLOSED'') (closed_those now is ps))"
  using assms by (auto simp: closed_those_def image_iff intro!: bexI [of _ q])

lemma close_in_order_as_decided:
  assumes "close_in_order mode br now (Fin b) ps (e, d) = (r, e', d')" "exits_fill br" "distinct (map vp_id (d1_positions d))"
    and "distinct (map vp_id ps)" "set ps \<subseteq> set (open_positions d)" "\<forall>p\<in>set ps. 0 < vp_remaining_quantity p"
    and "rows = d1_candles d"
  shows "r = Inr () \<and>
    d1_positions d' = closed_those now (close_until b (open_value d) (map (v1_exposure rows) ps)) (d1_positions d)"
  using assms
proof (induction ps arbitrary: e d)
  case Nil
  then show ?case by (simp add: closed_those_def)
next
  case (Cons p ps)
  have p: "p \<in> set (open_positions d)" "p \<in> set (d1_positions d)" "vp_state p \<noteq> ''CLOSED''" "0 < vp_remaining_quantity p"
    using Cons.prems(5,6) by (auto simp: open_positions_def)
  obtain e1 d1 where f: "force_close mode br now ''margin_forced_close'' p (e, d) = (Inr True, e1, d1)"
    "d1_candles d1 = d1_candles d" "d1_positions d1 = d1_positions (put_position (closed_by_force now ''margin_forced_close'' p) d)"
    by (rule force_close_filled [OF Cons.prems(2) p(3,4), of mode now "''margin_forced_close''" e d]) blast
  have pos: "d1_positions d1 = closed_those now [int (vp_id p)] (d1_positions d)"
    by (simp only: f(3) put_closed_those [OF Cons.prems(3) p(2)])
  have val: "open_value d1 = open_value d - position_value (d1_candles d) p"
    by (rule open_value_put [OF Cons.prems(3) p(1) f(2,3)])
  show ?case
  proof (cases "open_value d1 \<le> b")
    case True
    have "pf_le (Fin (open_value d1)) (Fin b)" using True by (auto simp: pf_le_def)
    then have "r = Inr () \<and> d' = d1" using Cons.prems(1) f(1) by simp
    then show ?thesis using True val pos Cons.prems(7) by simp
  next
    case False
    have go: "close_in_order mode br now (Fin b) ps (e1, d1) = (r, e', d')"
      using Cons.prems(1) f(1) False by (simp add: pf_le_def)
    have others: "set ps \<subseteq> set (open_positions d1)"
    proof
      fix q assume "q \<in> set ps"
      moreover from this have "int (vp_id q) \<notin> set [int (vp_id p)]"
        using Cons.prems(4) by (auto dest: image_eqI [where f = vp_id, OF sym])
      ultimately show "q \<in> set (open_positions d1)"
        unfolding open_positions_def pos using Cons.prems(5) by (intro closed_those_open) (auto simp: open_positions_def)
    qed
    have "r = Inr () \<and> d1_positions d' = closed_those now (close_until b (open_value d1) (map (v1_exposure rows) ps)) (d1_positions d1)"
      by (rule Cons.IH [OF go Cons.prems(2)])
         (use Cons.prems(3,4,6,7) f(2) others pos in \<open>simp_all\<close>)
    then show ?thesis
      using False val pos Cons.prems(7) by (simp add: closed_those_twice)
  qed
qed

section \<open>What a pause holds back\<close>

definition entry_book :: "v1_db \<Rightarrow> (signal_event \<times> string) list \<times> v1_order list \<times> v1_paper_order list \<times> nat list" where
  "entry_book d = (d1_signals d, d1_orders d, d1_paper_orders d, map vp_id (d1_positions d))"

lemma entry_book_put [simp]: "entry_book (put_position p d) = entry_book d"
  by (simp add: entry_book_def put_position_def)

lemma entry_book_settle [simp]: "entry_book (settle_paper p d) = entry_book d"
  by (simp add: entry_book_def settle_paper_def)

lemma monitor_rows_book: "monitor_rows cfg br tm now ps (e, d) = (r, e', d') \<Longrightarrow> entry_book d' = entry_book d"
proof (induction ps arbitrary: e d)
  case (Cons p ps)
  then show ?case by (auto split: option.splits sum.splits prod.splits)
qed simp

lemma force_close_book: "force_close mode br now reason p (e, d) = (r, e', d') \<Longrightarrow> entry_book d' = entry_book d"
  by (auto simp: force_close_def Let_def split: if_splits sum.splits prod.splits)

lemma close_in_order_book: "close_in_order mode br now base ps (e, d) = (r, e', d') \<Longrightarrow> entry_book d' = entry_book d"
proof (induction ps arbitrary: e d)
  case (Cons p ps)
  obtain r1 e1 d1 where f: "force_close mode br now ''margin_forced_close'' p (e, d) = (r1, e1, d1)" by (rule prod_cases3)
  show ?case
    using Cons.prems f force_close_book [OF f] Cons.IH [of e1 d1] by (auto split: sum.splits if_splits)
qed simp

lemma margin_close_book:
  assumes "run_margin_close_if_needed mode cfg br now rt (e, d) = (r, rt', e', d')"
  shows "entry_book d' = entry_book d \<and> rt_paused_all rt' = rt_paused_all rt \<and> rt_paused_entry rt' = rt_paused_entry rt"
proof -
  have "d' = d \<or> (\<exists>r1 base ps. close_in_order mode br (instant_of now) base ps (e, d) = (r1, e', d'))"
    and "rt' \<in> {rt, rt\<lparr>rt_last_margin_close_date := Some (date_str now)\<rparr>}"
    using assms by (auto simp: run_margin_close_if_needed_def Let_def split: sum.splits if_splits prod.splits)
  then show ?thesis using close_in_order_book by auto
qed

lemma tick_paused:
  assumes "loop_a_tick mode cfg br tm now (rt, q, e, d) = (r, rt', q', e', d')"
  shows "rt_paused_all rt' = rt_paused_all rt" "rt_paused_entry rt' = rt_paused_entry rt"
    and "rt_paused_all rt \<Longrightarrow> (e', d') = (e, d)" "rt_paused_entry rt \<Longrightarrow> entry_book d' = entry_book d"
proof -
  show "rt_paused_all rt \<Longrightarrow> (e', d') = (e, d)" using assms by (simp add: loop_a_tick_def)
  have "rt_paused_all rt' = rt_paused_all rt \<and> rt_paused_entry rt' = rt_paused_entry rt \<and>
      (rt_paused_entry rt \<longrightarrow> entry_book d' = entry_book d)"
  proof (cases "rt_paused_all rt")
    case True
    with assms show ?thesis by (simp add: loop_a_tick_def)
  next
    case False
    obtain r1 q1 e1 d1 where t: "take_entry mode cfg br (instant_of now) (rt_paused_entry rt) (q, e, d) = (r1, q1, e1, d1)"
      by (rule prod_cases4)
    have one: "rt_paused_entry rt \<longrightarrow> d1 = d" using t by (auto simp: take_entry_def split: list.splits)
    obtain r2 e2 d2 where m: "monitor_rows cfg br tm (instant_of now) (open_positions d1) (e1, d1) = (r2, e2, d2)" by (rule prod_cases3)
    note two = monitor_rows_book [OF m]
    obtain r3 rt3 e3 d3 where c: "run_margin_close_if_needed mode cfg br now rt (e2, d2) = (r3, rt3, e3, d3)" by (rule prod_cases4)
    note three = margin_close_book [OF c]
    have "(rt', d') \<in> {(rt, d1), (rt, d2), (rt3, d3)}"
      using assms False t m c by (auto simp: loop_a_tick_def split: sum.splits)
    then show ?thesis using one two three by auto
  qed
  then show "rt_paused_all rt' = rt_paused_all rt" "rt_paused_entry rt' = rt_paused_entry rt"
    "rt_paused_entry rt \<Longrightarrow> entry_book d' = entry_book d" by blast+
qed

definition v1_resumes :: "v1_action \<Rightarrow> bool" where
  "v1_resumes a = (case a of Command c \<Rightarrow> py_lower (py_strip c) = ''/resume'' | _ \<Rightarrow> False)"

lemma v1_step_paused:
  assumes "v1_step mode br tm a (rt, q, e, d) = (rt', q', e', d')" "\<not> v1_resumes a"
  shows "rt_paused_all rt \<Longrightarrow> rt_paused_all rt' \<and> (e', d') = (e, d)"
    and "rt_paused_entry rt \<Longrightarrow> rt_paused_entry rt' \<and> entry_book d' = entry_book d"
proof -
  have "(rt_paused_all rt \<longrightarrow> rt_paused_all rt' \<and> (e', d') = (e, d)) \<and>
        (rt_paused_entry rt \<longrightarrow> rt_paused_entry rt' \<and> entry_book d' = entry_book d)"
  proof (cases a)
    case (Tick cfg now)
    obtain r w where t: "loop_a_tick mode cfg br tm now (rt, q, e, d) = (r, w)" by (rule prod.exhaust)
    then have "loop_a_tick mode cfg br tm now (rt, q, e, d) = (r, rt', q', e', d')" using assms(1) Tick by simp
    from tick_paused [OF this] show ?thesis by blast
  next
    case (Command c)
    with assms show ?thesis by (auto simp: v1_command_def v1_resumes_def Let_def)
  qed (use assms(1) in simp)
  then show "rt_paused_all rt \<Longrightarrow> rt_paused_all rt' \<and> (e', d') = (e, d)"
    "rt_paused_entry rt \<Longrightarrow> rt_paused_entry rt' \<and> entry_book d' = entry_book d" by blast+
qed

section \<open>Properties\<close>

text \<open>
  C33: whatever ticks, signals and commands come, the positions stay well formed and numbered, never more
  of them are open than the configured limit allows, and a closed one stays as it is.
\<close>

theorem v1_positions_stay_bounded:
  assumes "v1_run mode br tm acts (rt, q, e, d) = (rt', q', e', d')" "fills_as_asked br" "v1_inv n d"
    and "\<forall>a\<in>set acts. \<forall>k. limit_of a = Some k \<longrightarrow> k \<le> int n"
  shows "v1_inv n d' \<and> (\<forall>p\<in>set (d1_positions d). vp_state p = ''CLOSED'' \<longrightarrow> p \<in> set (d1_positions d'))"
  using v1_run_inv [OF assms] grows_keeps_closed by blast

definition v1_sample_event :: signal_event where
  "v1_sample_event = \<lparr>ev_ticker = ''005930'', ev_strategy_id = ''2'', ev_timeframe = ''5m'', ev_signal_type = ''entry'',
     ev_side = ''buy'', ev_price = 100, ev_time = 0\<rparr>"

definition v1_sample_position :: "nat \<Rightarrow> string \<Rightarrow> real \<Rightarrow> v1_position" where
  "v1_sample_position i strategy qty =
     \<lparr>vp_id = i, vp_ticker = ''005930'', vp_strategy_id = strategy, vp_state = ''OPEN'', vp_entry_price = 100,
      vp_stop_price = Fin 90, vp_take_profit_price = Fin 120, vp_trailing_stop_price = None, vp_highest_price = Some 100,
      vp_quantity = qty, vp_remaining_quantity = qty, vp_entry_time = 0, vp_closed_time = None, vp_close_reason = None\<rparr>"

definition v1_sample_db :: v1_db where
  "v1_sample_db = \<lparr>d1_signals = [], d1_orders = [], d1_positions = [v1_sample_position 1 ''5'' 3, v1_sample_position 2 ''2'' 1],
     d1_paper_orders = [], d1_paper_trades = [], d1_portfolio = [], d1_candles = []\<rparr>"

definition v1_sample_rt :: v1_runtime where
  "v1_sample_rt = \<lparr>rt_paused_entry = False, rt_paused_all = False, rt_stop_requested = False,
     rt_last_margin_close_date = None, rt_server_time_offset_sec = 0\<rparr>"

definition v1_sample_config :: config where
  "v1_sample_config = [(''max_positions'', ''3''), (''atr_period'', ''14''), (''stop_atr_mult'', ''1.5''), (''tp_atr_mult'', ''2.0''),
     (''margin_close_time'', ''15:20''), (''daily_base_capital'', ''150''), (''margin_close_priority'', ''1,2,3,5,4'')]"

definition v1_sample_now :: datetime where
  "v1_sample_now = \<lparr>dt_year = 2024, dt_month = 5, dt_day = 2, dt_hour = 15, dt_minute = 30, dt_second = 0, dt_micro = 0, dt_offset = 32400\<rparr>"

lemma v1_sample_inv: "v1_inv 3 v1_sample_db"
  by (simp add: v1_inv_def v1_sample_db_def v1_sample_position_def v1_wf_def open_positions_def upt_rec)

lemma v1_sample_limit: "limit_of (Tick v1_sample_config v1_sample_now) = Some 3"
  by (simp add: limit_of_def v1_int_def v1_get_def v1_sample_config_def) code_simp

text \<open>The witness: two positions, a third signal, a tick and a pause.\<close>

theorem v1_positions_stay_bounded_witness:
  "v1_inv 3 (snd (snd (snd (v1_run ''paper'' paper_broker (Fin 1)
     [Enqueue v1_sample_event, Tick v1_sample_config v1_sample_now, Command ''/pause''] (v1_sample_rt, [], (), v1_sample_db)))))"
proof -
  let ?acts = "[Enqueue v1_sample_event, Tick v1_sample_config v1_sample_now, Command ''/pause'']"
  obtain rt q e d where w: "v1_run ''paper'' paper_broker (Fin 1) ?acts (v1_sample_rt, [], (), v1_sample_db) = (rt, q, e, d)"
    by (rule prod_cases4)
  have "limit_of (Enqueue v1_sample_event) = None" "limit_of (Command ''/pause'') = None" by (simp_all add: limit_of_def)
  then have "\<forall>a\<in>set ?acts. \<forall>k. limit_of a = Some k \<longrightarrow> k \<le> int 3" by (simp add: v1_sample_limit)
  from v1_positions_stay_bounded [OF w brokers_fill_as_asked(1) v1_sample_inv this] w show ?thesis by simp
qed

text \<open>
  C34: a pause is obeyed until a command resumes: a paused program does nothing at all, and one whose
  entries are paused records no signal, no order and no position.
\<close>

theorem v1_pause_is_obeyed:
  assumes "v1_run mode br tm acts (rt, q, e, d) = (rt', q', e', d')" "\<not> list_ex v1_resumes acts"
  shows "(rt_paused_all rt \<longrightarrow> rt_paused_all rt' \<and> e' = e \<and> d' = d) \<and>
         (rt_paused_entry rt \<longrightarrow> rt_paused_entry rt' \<and> entry_book d' = entry_book d)"
  using assms
proof (induction acts arbitrary: rt q e d)
  case Nil
  then show ?case by (simp add: v1_run_def)
next
  case (Cons a acts)
  obtain rt1 q1 e1 d1 where s: "v1_step mode br tm a (rt, q, e, d) = (rt1, q1, e1, d1)" by (rule prod_cases4)
  have run: "v1_run mode br tm acts (rt1, q1, e1, d1) = (rt', q', e', d')" using Cons.prems(1) s by (simp add: v1_run_def)
  have "\<not> v1_resumes a" "\<not> list_ex v1_resumes acts" using Cons.prems(2) by simp_all
  then show ?case using Cons.IH [OF run] v1_step_paused [OF s] by auto
qed

theorem v1_pause_is_obeyed_witness:
  "entry_book (snd (snd (snd (v1_run ''paper'' paper_broker (Fin 1)
     [Command ''/pause all'', Enqueue v1_sample_event, Tick v1_sample_config v1_sample_now]
     (v1_sample_rt\<lparr>rt_paused_entry := True\<rparr>, [], (), v1_sample_db))))) = ([], [], [], [1, 2])"
proof -
  let ?acts = "[Command ''/pause all'', Enqueue v1_sample_event, Tick v1_sample_config v1_sample_now]"
  obtain rt q e d where w: "v1_run ''paper'' paper_broker (Fin 1) ?acts (v1_sample_rt\<lparr>rt_paused_entry := True\<rparr>, [], (), v1_sample_db) = (rt, q, e, d)"
    by (rule prod_cases4)
  have "\<not> v1_resumes (Command ''/pause all'')" unfolding v1_resumes_def by simp code_simp
  then have "\<not> list_ex v1_resumes ?acts" by (simp add: v1_resumes_def)
  from v1_pause_is_obeyed [OF w this] w show ?thesis by (simp add: entry_book_def v1_sample_db_def v1_sample_position_def)
qed

text \<open>
  The forced closes of the two versions agree: with exits that fill, a due margin close closes exactly
  the positions the risk engine of the rebuild names for the same exposures, capital and priority, once a day.
\<close>

theorem forced_closes_agree:
  assumes "run_margin_close_if_needed mode cfg br now rt (e, d) = (r, rt', e', d')" "exits_fill br" "v1_inv n d"
    and "v1_get ''margin_close_time'' cfg = Inr t" "close_due t now = Inr True" "rt_last_margin_close_date rt \<noteq> Some (date_str now)"
    and "to_float (v1_get ''daily_base_capital'' cfg) = Inr (Fin b)" "v1_get ''margin_close_priority'' cfg = Inr pr"
  shows "r = Inr () \<and> rt_last_margin_close_date rt' = Some (date_str now) \<and>
    d1_positions d' = closed_those (instant_of now)
      (margin_forced_close_order (map (v1_exposure (d1_candles d)) (open_positions d)) b (priority_chunks pr)) (d1_positions d)"
proof -
  define ps where "ps = sort_key (v1_rank (priority_chunks pr)) (open_positions d)"
  have total: "sum_list (map ex_market_value (map (v1_exposure (d1_candles d)) (open_positions d))) = open_value d"
    by (simp add: open_value_def comp_def)
  have sorted_ps: "sort_key (priority_rank (priority_chunks pr)) (map (v1_exposure (d1_candles d)) (open_positions d)) =
      map (v1_exposure (d1_candles d)) ps"
    by (simp add: sort_key_of_map rank_of_exposure ps_def)
  show ?thesis
  proof (cases "open_value d \<le> b")
    case True
    then have "pf_le (Fin (open_value d)) (Fin b)" by (auto simp: pf_le_def)
    then show ?thesis
      using assms(1,4-8) True total
      by (auto simp: run_margin_close_if_needed_def margin_forced_close_order_def closed_those_def Let_def)
  next
    case False
    obtain r1 e1 d1 where c: "close_in_order mode br (instant_of now) (Fin b) ps (e, d) = (r1, e1, d1)" by (rule prod_cases3)
    have ids: "distinct (map vp_id (d1_positions d))" by (rule v1_inv_distinct [OF assms(3)])
    have "\<forall>p\<in>set (open_positions d). 0 < vp_remaining_quantity p"
      using assms(3) by (auto simp: v1_inv_def list_all_iff open_positions_def v1_wf_def)
    then have "r1 = Inr () \<and> d1_positions d1 = closed_those (instant_of now)
        (close_until b (open_value d) (map (v1_exposure (d1_candles d)) ps)) (d1_positions d)"
      using distinct_open [OF ids]
      by (intro close_in_order_as_decided [OF c assms(2) ids]) (simp_all add: ps_def distinct_map)
    moreover have "(r, rt', e', d') = (case (r1, e1, d1) of (Inl x, s') \<Rightarrow> (Inl x, rt, s')
        | (Inr _, s') \<Rightarrow> (Inr (), rt\<lparr>rt_last_margin_close_date := Some (date_str now)\<rparr>, s'))"
      using assms(1,4-8) False c by (auto simp: run_margin_close_if_needed_def pf_le_def ps_def Let_def)
    ultimately show ?thesis
      using False total sorted_ps by (simp add: margin_forced_close_order_def Let_def)
  qed
qed

theorem forced_closes_agree_witness:
  "d1_positions (snd (snd (snd (run_margin_close_if_needed ''paper'' v1_sample_config paper_broker v1_sample_now v1_sample_rt ((), v1_sample_db)))))
     = closed_those (instant_of v1_sample_now) [2, 1] (d1_positions v1_sample_db)"
proof -
  obtain r rt e d where w: "run_margin_close_if_needed ''paper'' v1_sample_config paper_broker v1_sample_now v1_sample_rt ((), v1_sample_db) = (r, rt, e, d)"
    by (rule prod_cases4)
  have fill: "exits_fill paper_broker" by (simp add: exits_fill_def paper_broker_def)
  have cfg: "v1_get ''margin_close_time'' v1_sample_config = Inr ''15:20''"
    "v1_get ''margin_close_priority'' v1_sample_config = Inr ''1,2,3,5,4''" "v1_get ''daily_base_capital'' v1_sample_config = Inr ''150''"
    by (simp_all add: v1_get_def v1_sample_config_def)
  have due: "close_due ''15:20'' v1_sample_now = Inr True" by code_simp
  have base: "to_float (v1_get ''daily_base_capital'' v1_sample_config) = Inr (Fin 150)"
    by (simp add: cfg to_float_def text_eval)
  have pr: "priority_chunks ''1,2,3,5,4'' = [''1'', ''2'', ''3'', ''5'', ''4'']" by code_simp
  have "open_positions v1_sample_db = [v1_sample_position 1 ''5'' 3, v1_sample_position 2 ''2'' 1]" "d1_candles v1_sample_db = []"
    by (simp_all add: open_positions_def v1_sample_db_def v1_sample_position_def)
  moreover have "map (v1_exposure []) [v1_sample_position 1 ''5'' 3, v1_sample_position 2 ''2'' 1] =
      [\<lparr>ex_position_id = 1, ex_strategy_id = ''5'', ex_market_value = 300\<rparr>, \<lparr>ex_position_id = 2, ex_strategy_id = ''2'', ex_market_value = 100\<rparr>]"
    by (simp add: v1_exposure_def v1_sample_position_def position_value_def get_last_price_def rows_of_def or_real_def py_sorted_rev_def)
  ultimately have "margin_forced_close_order (map (v1_exposure (d1_candles v1_sample_db)) (open_positions v1_sample_db)) 150
      (priority_chunks ''1,2,3,5,4'') = [2, 1]"
    by (simp add: pr margin_forced_close_order_def priority_rank_def Let_def)
  moreover have "rt_last_margin_close_date v1_sample_rt \<noteq> Some (date_str v1_sample_now)" by (simp add: v1_sample_rt_def)
  note forced_closes_agree [OF w fill v1_sample_inv cfg(1) due this base cfg(2)]
  ultimately show ?thesis by (simp only: w snd_conv)
qed

end
