(* ===== verification/Legacy_Signals.thy ===== *)
theory Legacy_Signals
  imports Legacy_Runtime Universe_Repository
begin

text \<open>
  The strategies and Loop B of the first version (\<open>legacy/app_v1/strategies\<close>, \<open>loops/loop_b.py\<close>): each strategy
  reads its candles from the table, and Loop B asks every strategy once for every ticker and minute at
  which a candle of its timeframe closes. The database answers. The strategies are total.
\<close>

section \<open>Strategies\<close>

definition v1_strategies :: "strategy list" where
  "v1_strategies =
     [\<lparr>str_kind = GapMomentum, str_id = ''1'', str_timeframe = ''5m'', str_active_hours = [(hhmm 8 0, hhmm 8 30), (hhmm 9 0, hhmm 9 30)]\<rparr>,
      \<lparr>str_kind = EmaPullback, str_id = ''2'', str_timeframe = ''15m'', str_active_hours = [(hhmm 9 0, hhmm 15 20)]\<rparr>,
      \<lparr>str_kind = VolatilityBreakout (1 / 2), str_id = ''3'', str_timeframe = ''5m'', str_active_hours = [(hhmm 9 0, hhmm 15 20)]\<rparr>,
      \<lparr>str_kind = VolumeSurge, str_id = ''4'', str_timeframe = ''5m'',
       str_active_hours = [(hhmm 9 0, hhmm 15 20), (hhmm 15 30, hhmm 20 0)]\<rparr>,
      \<lparr>str_kind = SupportResistance, str_id = ''5'', str_timeframe = ''15m'', str_active_hours = [(hhmm 9 0, hhmm 15 20)]\<rparr>]"

definition pct_change :: "real \<Rightarrow> real \<Rightarrow> real" where
  "pct_change a b = (if a = 0 then 0 else ((b - a) / a) * 100)"

definition v1_ema :: "real list \<Rightarrow> nat \<Rightarrow> real" where
  "v1_ema vs period =
     (case vs of [] \<Rightarrow> 0
      | v # rest \<Rightarrow> (let k = 2 / (real period + 1) in foldl (\<lambda>r x. x * k + r * (1 - k)) v rest))"

definition last_n :: "nat \<Rightarrow> 'a list \<Rightarrow> 'a list" where
  "last_n n xs = drop (length xs - n) xs"

text \<open>The price at which a strategy enters, if it does.\<close>

definition v1_gap :: "candle_row list \<Rightarrow> string \<Rightarrow> string \<Rightarrow> real option" where
  "v1_gap rows ticker timeframe =
     (let cs = recent_rows ticker timeframe 2 rows in
      if length cs < 2 then None
      else (let prev_close = cn_close (cs ! (length cs - 2)); current_open = cn_open (last cs)
            in if \<bar>pct_change prev_close current_open\<bar> < 2 then None else Some (cn_close (last cs))))"

definition v1_pullback :: "candle_row list \<Rightarrow> string \<Rightarrow> string \<Rightarrow> real option" where
  "v1_pullback rows ticker timeframe =
     (let cs = recent_rows ticker timeframe 70 rows in
      if length cs < 60 then None
      else
        (let cls = map cn_close cs; ema5 = v1_ema (last_n 20 cls) 5; ema20 = v1_ema (last_n 30 cls) 20; ema60 = v1_ema cls 60;
             current = last cls
         in if \<not> (ema5 > ema20 \<and> ema20 > ema60) then None
            else if current < ema20 * (995 / 1000) then None
            else Some current))"

definition v1_breakout :: "real \<Rightarrow> candle_row list \<Rightarrow> string \<Rightarrow> string \<Rightarrow> real option" where
  "v1_breakout k rows ticker timeframe =
     (let cs = recent_rows ticker timeframe 80 rows; daily = recent_rows ticker ''1d'' 2 rows in
      if length cs < 50 then None
      else if length daily < 2 then None
      else (let prv = daily ! (length daily - 2); level = cn_high prv + (cn_high prv - cn_low prv) * k; current = cn_close (last cs)
            in if current \<le> level then None else Some current))"

definition v1_surge :: "candle_row list \<Rightarrow> string \<Rightarrow> string \<Rightarrow> real option" where
  "v1_surge rows ticker timeframe =
     (let cs = recent_rows ticker timeframe 25 rows in
      if length cs < 21 then None
      else
        (let current = last cs; avg_vol = sum_list (map cn_volume (py_slice cs (-21) (-1))) / 20 in
         if avg_vol \<le> 0 then None
         else if cn_volume current < avg_vol * 3 then None
         else if pct_change (cn_close (cs ! (length cs - 2))) (cn_close current) < 1 then None
         else Some (cn_close current)))"

definition v1_support :: "candle_row list \<Rightarrow> string \<Rightarrow> string \<Rightarrow> real option" where
  "v1_support rows ticker timeframe =
     (let cs = recent_rows ticker timeframe 40 rows in
      if length cs < 20 then None
      else
        (let recent = last_n 20 cs; resistance = Max (set (map cn_high (butlast recent)));
             support = Min (set (map cn_low (butlast recent))); current = cn_close (last recent)
         in if current > resistance \<or> current < support * (101 / 100) then Some current else None))"

definition v1_price :: "strategy_kind \<Rightarrow> candle_row list \<Rightarrow> string \<Rightarrow> string \<Rightarrow> real option" where
  "v1_price kind = (case kind of
       GapMomentum \<Rightarrow> v1_gap | EmaPullback \<Rightarrow> v1_pullback | VolatilityBreakout k \<Rightarrow> v1_breakout k
     | VolumeSurge \<Rightarrow> v1_surge | SupportResistance \<Rightarrow> v1_support)"

definition generate_signal :: "strategy \<Rightarrow> instant \<Rightarrow> candle_row list \<Rightarrow> string \<Rightarrow> signal_event option" where
  "generate_signal st clock rows ticker =
     map_option (\<lambda>p. \<lparr>ev_ticker = ticker, ev_strategy_id = str_id st, ev_timeframe = str_timeframe st, ev_signal_type = ''entry'',
                       ev_side = ''buy'', ev_price = p, ev_time = clock\<rparr>)
       (v1_price (str_kind st) rows ticker (str_timeframe st))"

text \<open>\<open>MockGapMomentum\<close>, which the registry does not contain: a fixed price every ten minutes.\<close>

definition mock_gap_signal :: "datetime \<Rightarrow> instant \<Rightarrow> string \<Rightarrow> signal_event option" where
  "mock_gap_signal now clock ticker =
     (if dt_minute now mod 10 \<noteq> 0 then None
      else Some \<lparr>ev_ticker = ticker, ev_strategy_id = ''gap'', ev_timeframe = ''5m'', ev_signal_type = ''entry'', ev_side = ''buy'',
                 ev_price = 10000, ev_time = clock\<rparr>)"

section \<open>Loop B\<close>

definition v1_is_candle_close :: "datetime \<Rightarrow> string \<Rightarrow> bool" where
  "v1_is_candle_close now timeframe =
     (if timeframe = ''5m'' then dt_minute now mod 5 = 0
      else if timeframe = ''15m'' then dt_minute now mod 15 = 0
      else if timeframe \<in> {''60m'', ''1h''} then dt_minute now = 0
      else False)"

definition active_tickers :: "symbol list \<Rightarrow> string list" where
  "active_tickers symbols = map sy_ticker (filter (\<lambda>s. sy_is_active s \<and> \<not> sy_is_blocked s) symbols)"

type_synonym v1_close_key = "string \<times> string \<times> string \<times> string"

definition minute_str :: "datetime \<Rightarrow> string" where
  "minute_str d = date_hour_str d @ pad2 (dt_minute d)"

definition close_key :: "datetime \<Rightarrow> string \<Rightarrow> strategy \<Rightarrow> v1_close_key" where
  "close_key now ticker st = (ticker, str_id st, str_timeframe st, minute_str now)"

type_synonym v1_scanner = "v1_close_key set \<times> signal_event list"

definition scan_pair :: "datetime \<Rightarrow> instant \<Rightarrow> candle_row list \<Rightarrow> string \<times> strategy \<Rightarrow> v1_scanner \<Rightarrow> v1_scanner" where
  "scan_pair now clock rows x s =
     (case (x, s) of ((ticker, st), (keys, q)) \<Rightarrow>
        if \<not> is_active_time st now \<or> \<not> v1_is_candle_close now (str_timeframe st) \<or> close_key now ticker st \<in> keys then s
        else (insert (close_key now ticker st) keys,
              (case generate_signal st clock rows ticker of None \<Rightarrow> q | Some ev \<Rightarrow> q @ [ev])))"

definition loop_b_tick ::
  "v1_runtime \<Rightarrow> datetime \<Rightarrow> instant \<Rightarrow> symbol list \<Rightarrow> candle_row list \<Rightarrow> v1_scanner \<Rightarrow> v1_scanner" where
  "loop_b_tick rt now clock symbols rows s =
     (if rt_paused_all rt then s
      else fold (scan_pair now clock rows) (List.product (active_tickers symbols) v1_strategies) s)"

section \<open>Every minute once\<close>

lemma minute_starts:
  assumes "hhmm h m \<le> time_of b" "dt_hour a = dt_hour b" "dt_minute a = dt_minute b" "dt_second b < 60" "dt_micro b < 1000000"
  shows "hhmm h m \<le> time_of a"
proof -
  have "60000000 * (h * 60 + m) < 60000000 * (dt_hour b * 60 + dt_minute b + 1)"
    using assms(1,4,5) unfolding hhmm_def time_of_def by simp
  then have "h * 60 + m < dt_hour b * 60 + dt_minute b + 1" unfolding mult_less_cancel1 by blast
  then show ?thesis using assms(2,3) unfolding hhmm_def time_of_def by simp
qed

text \<open>A strategy that is active in a minute was active at every earlier moment of it.\<close>

lemma active_earlier:
  assumes "is_active_time st b" "st \<in> set v1_strategies" "datetime_ok b"
    and "dt_hour a = dt_hour b" "dt_minute a = dt_minute b" "time_of a \<le> time_of b"
  shows "is_active_time st a"
proof -
  obtain s e where se: "(s, e) \<in> set (str_active_hours st)" "s \<le> time_of b" "time_of b \<le> e"
    using assms(1) by (auto simp: is_active_time_def list_ex_iff)
  have "\<exists>h m. s = hhmm h m" using se(1) assms(2) by (auto simp: v1_strategies_def, blast+)
  then have "s \<le> time_of a"
    using se(2) minute_starts [OF _ assms(4,5)] assms(3) by (auto simp: datetime_ok_def)
  then show ?thesis using se assms(6) by (auto simp: is_active_time_def list_ex_iff intro: bexI [of _ "(s, e)"])
qed

lemma scan_pair_keys: "keys \<subseteq> fst (scan_pair now clock rows x (keys, q))"
  by (auto simp: scan_pair_def split: prod.splits)

lemma fold_scan_keys: "fst s \<subseteq> fst (fold (scan_pair now clock rows) xs s)"
proof (induction xs arbitrary: s)
  case (Cons x xs)
  have "fst s \<subseteq> fst (scan_pair now clock rows x s)" using scan_pair_keys by (cases s) simp
  also have "\<dots> \<subseteq> fst (fold (scan_pair now clock rows) xs (scan_pair now clock rows x s))" by (rule Cons.IH)
  finally show ?case by simp
qed simp

lemma fold_scan_covers:
  assumes "(ticker, st) \<in> set xs" "is_active_time st now" "v1_is_candle_close now (str_timeframe st)"
  shows "close_key now ticker st \<in> fst (fold (scan_pair now clock rows) xs s)"
  using assms(1)
proof (induction xs arbitrary: s)
  case (Cons x xs)
  show ?case
  proof (cases "x = (ticker, st)")
    case True
    have "close_key now ticker st \<in> fst (scan_pair now clock rows (ticker, st) s)"
      using assms(2,3) by (auto simp: scan_pair_def split: prod.splits)
    then show ?thesis using True subsetD [OF fold_scan_keys] by simp
  next
    case False
    with Cons show ?thesis by simp
  qed
qed simp

lemma fold_scan_idle:
  assumes "\<And>ticker st. (ticker, st) \<in> set xs \<Longrightarrow> is_active_time st now \<Longrightarrow> v1_is_candle_close now (str_timeframe st) \<Longrightarrow>
      close_key now ticker st \<in> fst s"
  shows "fold (scan_pair now clock rows) xs s = s"
  using assms
proof (induction xs)
  case (Cons x xs)
  have "scan_pair now clock rows x s = s"
    using Cons.prems [of "fst x" "snd x"] by (auto simp: scan_pair_def split: prod.splits)
  then show ?case using Cons by simp
qed simp

text \<open>
  A later tick of the same minute over no new tickers queues nothing and marks nothing: every strategy
  is asked at most once for a ticker and a minute.
\<close>

theorem v1_minutes_are_scanned_once:
  assumes "\<not> rt_paused_all rt" "datetime_ok b" "dt_hour a = dt_hour b" "dt_minute a = dt_minute b" "date_str a = date_str b"
    and "time_of a \<le> time_of b" "set (active_tickers symbols') \<subseteq> set (active_tickers symbols)"
  shows "loop_b_tick rt' b clock' symbols' rows' (loop_b_tick rt a clock symbols rows s) = loop_b_tick rt a clock symbols rows s"
proof (cases "rt_paused_all rt'")
  case False
  let ?s = "loop_b_tick rt a clock symbols rows s"
  have key: "close_key b ticker st = close_key a ticker st" for ticker st
    using assms(3-5) by (simp add: close_key_def minute_str_def date_hour_str_def)
  have same_close: "v1_is_candle_close b tf = v1_is_candle_close a tf" for tf by (simp add: v1_is_candle_close_def assms(4))
  have "fold (scan_pair b clock' rows') (List.product (active_tickers symbols') v1_strategies) ?s = ?s"
  proof (rule fold_scan_idle)
    fix ticker st
    assume x: "(ticker, st) \<in> set (List.product (active_tickers symbols') v1_strategies)" "is_active_time st b"
      "v1_is_candle_close b (str_timeframe st)"
    then have "is_active_time st a" "v1_is_candle_close a (str_timeframe st)"
      using active_earlier [OF x(2) _ assms(2-4,6)] by (simp_all add: same_close)
    moreover have "(ticker, st) \<in> set (List.product (active_tickers symbols) v1_strategies)" using x(1) assms(7) by auto
    ultimately show "close_key b ticker st \<in> fst ?s"
      unfolding key using assms(1) by (simp add: loop_b_tick_def fold_scan_covers)
  qed
  with False show ?thesis by (simp add: loop_b_tick_def)
qed (simp add: loop_b_tick_def)

end
