(* ===== verification/Legacy_Web.thy ===== *)
theory Legacy_Web
  imports Legacy_Signals Kiwoom_Gateway
begin

text \<open>
  The rest of the first version (\<open>legacy/app_v1\<close>): the configuration manager (\<open>core/config_manager.py\<close>,
  \<open>config_schema.py\<close>), the universe with its service, its routes and Loop C, the candle synchronisation, the entry
  preview of the backtest, the performance report, the clock, the rate-limited client and the
  gateway to the broker. The database answers; timestamps of rows are left out.
\<close>

section \<open>Configuration\<close>

text \<open>The range rules: lower and upper bound, and whether the value is read by \<open>int\<close>.\<close>

definition range_rules :: "(string \<times> real \<times> real \<times> bool) list" where
  "range_rules =
     [(''position_size_max_pct'', 1, 30, False), (''position_size_min_pct'', 1 / 2, 10, False),
      (''risk_per_trade_pct'', 1 / 10, 3, False), (''daily_loss_pct'', 1 / 2, 10, False), (''max_positions'', 1, 30, True),
      (''order_cancel_minutes'', 1, 30, True), (''liquidity_threshold'', 10, 500, False), (''slippage_pct'', 0, 1 / 2, False),
      (''margin_ratio'', 1, 5 / 2, False)]"

definition default_configs :: config where
  "default_configs =
     [(''position_size_max_pct'', ''10''), (''position_size_min_pct'', ''2''), (''risk_per_trade_pct'', ''0.5''),
      (''daily_loss_pct'', ''2''), (''max_positions'', ''10''), (''order_cancel_minutes'', ''3''), (''liquidity_threshold'', ''50''),
      (''slippage_pct'', ''0.05''), (''margin_ratio'', ''1.5''), (''nxt_ratio'', ''50''), (''daily_base_capital'', ''10000000''),
      (''atr_period'', ''14''), (''stop_atr_mult'', ''1.5''), (''tp_atr_mult'', ''2.0''), (''trail_atr_mult'', ''1.5''),
      (''margin_close_time'', ''15:20''), (''margin_close_priority'', ''1,2,3,5,4''), (''sync_mode'', ''auto''), (''log_level'', ''INFO'')]"

definition v1_check_range :: "string \<Rightarrow> string \<Rightarrow> unit py" where
  "v1_check_range key val_text =
     (case map_of range_rules key of
        None \<Rightarrow> Inr ()
      | Some (lo, hi, is_int) \<Rightarrow>
          py_bind (read_number is_int val_text) (\<lambda>casted.
            if pf_lt casted (Fin lo) \<or> pf_lt (Fin hi) casted then Inl (ValueError (key @ '' must be between'')) else Inr ()))"

definition v1_check_time :: "string \<Rightarrow> unit py" where
  "v1_check_time val_text =
     (case py_split (CHR '':'') val_text of
        [hh, mm] \<Rightarrow>
          (case (py_int_of hh, py_int_of mm) of
             (Some h, Some m) \<Rightarrow>
               if 0 \<le> h \<and> h \<le> 23 \<and> 0 \<le> m \<and> m \<le> 59 then Inr () else Inl (ValueError ''margin_close_time must be HH:MM'')
           | _ \<Rightarrow> Inl (ValueError ''margin_close_time must be HH:MM''))
      | _ \<Rightarrow> Inl (ValueError ''margin_close_time must be HH:MM''))"

definition validate_config_value :: "string \<Rightarrow> string \<Rightarrow> unit py" where
  "validate_config_value key val_text =
     py_bind (v1_check_range key val_text) (\<lambda>_.
       if key = ''sync_mode'' \<and> val_text \<notin> {''auto'', ''manual''} then Inl (ValueError ''sync_mode must be one of: auto, manual'')
       else if key = ''log_level'' \<and> val_text \<notin> {''DEBUG'', ''INFO''} then Inl (ValueError ''log_level must be one of: DEBUG, INFO'')
       else if key = ''margin_close_time'' then v1_check_time val_text
       else Inr ())"

text \<open>The cache, the table \<open>config\<close> and its history: key, old and new value, author.\<close>

record v1_manager =
  cm_cache :: config
  cm_rows :: config
  cm_history :: "(string \<times> string option \<times> string \<times> string) list"

definition v1_load :: "v1_manager \<Rightarrow> v1_manager" where
  "v1_load m =
     (let missing = filter (\<lambda>(k, v). map_of (cm_rows m) k = None) default_configs
      in m\<lparr>cm_cache := cm_rows m @ missing, cm_rows := cm_rows m @ missing\<rparr>)"

definition v1_set :: "string \<Rightarrow> string \<Rightarrow> string \<Rightarrow> v1_manager \<Rightarrow> unit py \<times> v1_manager" where
  "v1_set key val_text changed_by m =
     (case validate_config_value key val_text of
        Inl x \<Rightarrow> (Inl x, m)
      | Inr _ \<Rightarrow>
          (Inr (), m\<lparr>cm_rows := AList.update key val_text (cm_rows m),
                     cm_history := cm_history m @ [(key, map_of (cm_cache m) key, val_text, changed_by)],
                     cm_cache := AList.update key val_text (cm_cache m)\<rparr>))"

text \<open>The route \<open>POST /config\<close>: a refused value is a 400, any other failure a 500.\<close>

definition v1_set_route :: "string \<Rightarrow> string \<Rightarrow> string \<Rightarrow> v1_manager \<Rightarrow> v1_answer \<times> v1_manager" where
  "v1_set_route key val_text changed_by m =
     (case v1_set key val_text changed_by m of
        (Inr _, m') \<Rightarrow> (Said val_text, m')
      | (Inl (ValueError msg), m') \<Rightarrow> (Http 400 msg, m')
      | (Inl x, m') \<Rightarrow> (Http 500 (''failed to update config: '' @ exn_str x), m'))"

definition v1_sets :: "(string \<times> string \<times> string) list \<Rightarrow> v1_manager \<Rightarrow> v1_manager" where
  "v1_sets ws m = fold (\<lambda>(k, v, by) m. snd (v1_set k v by m)) ws m"

definition in_step :: "v1_manager \<Rightarrow> bool" where
  "in_step m \<longleftrightarrow> map_of (cm_cache m) = map_of (cm_rows m)"

lemma v1_set_in_step: "in_step m \<Longrightarrow> in_step (snd (v1_set k v by m))"
  by (simp add: v1_set_def in_step_def update_conv' split: sum.splits)

text \<open>
  After loading, the cache and the table hold the same settings whatever is written, each default is
  set, and a value that was accepted is the one that is read.
\<close>

theorem v1_cache_and_table_agree:
  "in_step (v1_sets ws (v1_load m)) \<and>
   (validate_config_value k v = Inr () \<longrightarrow> v1_get k (cm_cache (snd (v1_set k v by (v1_sets ws (v1_load m))))) = Inr v)"
proof -
  have "in_step (v1_load m)" by (simp add: in_step_def v1_load_def Let_def)
  moreover have "in_step m \<Longrightarrow> in_step (v1_sets ws m)" for m
    unfolding v1_sets_def by (induction ws arbitrary: m) (auto simp: v1_set_in_step)
  ultimately show ?thesis by (simp add: v1_set_def v1_get_def update_conv')
qed

section \<open>Universe\<close>

definition v1_turnover :: "candle_row list \<Rightarrow> real" where
  "v1_turnover cs = sum_list (map (\<lambda>c. cn_close c * cn_volume c) cs) / real (max (length cs) 1) / 100000000"

text \<open>\<open>refresh_active_universe\<close>: one symbol, and whether it changed; then all.\<close>

definition refresh_symbol :: "instant \<Rightarrow> pyfloat \<Rightarrow> candle_row list \<Rightarrow> symbol \<Rightarrow> symbol" where
  "refresh_symbol now threshold rows s =
     (let cs = filter (\<lambda>c. now - 20 * 86400 * 1000000 \<le> cn_time c) (rows_of (sy_ticker s) ''1d'' rows) in
      if \<not> (sy_in_universe s \<and> \<not> sy_is_blocked s) \<or> cs = [] then s
      else s\<lparr>sy_is_active := pf_le threshold (Fin (v1_turnover cs))\<rparr>)"

definition refresh_active_universe :: "instant \<Rightarrow> pyfloat \<Rightarrow> candle_row list \<Rightarrow> symbol list \<Rightarrow> nat \<times> symbol list" where
  "refresh_active_universe now threshold rows ss =
     (length (filter (\<lambda>s. sy_is_active (refresh_symbol now threshold rows s) \<noteq> sy_is_active s) ss),
      map (refresh_symbol now threshold rows) ss)"

definition loop_c_tick :: "config \<Rightarrow> v1_runtime \<Rightarrow> instant \<Rightarrow> candle_row list \<Rightarrow> symbol list \<Rightarrow> nat py \<times> symbol list" where
  "loop_c_tick cfg rt now rows ss =
     (if rt_paused_all rt then (Inr 0, ss)
      else
        (case to_float (v1_get ''liquidity_threshold'' cfg) of
           Inl x \<Rightarrow> (Inl x, ss)
         | Inr threshold \<Rightarrow> (case refresh_active_universe now threshold rows ss of (n, ss') \<Rightarrow> (Inr n, ss'))))"

definition v1_upsert_symbol :: "string \<Rightarrow> string \<Rightarrow> string \<Rightarrow> symbol list \<Rightarrow> symbol list" where
  "v1_upsert_symbol ticker name market ss =
     (case find_symbol ticker ss of
        None \<Rightarrow> ss @ [\<lparr>sy_ticker = ticker, sy_name = name, sy_market = market, sy_in_universe = True, sy_is_active = True,
                       sy_is_blocked = False, sy_status = ''normal''\<rparr>]
      | Some s \<Rightarrow> put_symbol (s\<lparr>sy_name := name, sy_market := market\<rparr>) ss)"

definition v1_block_symbol :: "string \<Rightarrow> symbol list \<Rightarrow> string \<times> symbol list" where
  "v1_block_symbol ticker ss =
     (case find_symbol ticker ss of
        None \<Rightarrow> (''not_found'', ss)
      | Some s \<Rightarrow> (''blocked'', put_symbol (s\<lparr>sy_is_blocked := True, sy_is_active := False\<rparr>) ss))"

definition v1_unblock_symbol :: "string \<Rightarrow> symbol list \<Rightarrow> string \<times> symbol list" where
  "v1_unblock_symbol ticker ss =
     (case find_symbol ticker ss of
        None \<Rightarrow> (''not_found'', ss)
      | Some s \<Rightarrow> (''unblocked'', put_symbol (s\<lparr>sy_is_blocked := False\<rparr>) ss))"

datatype universe_action =
    Upsert string string string
  | Block string
  | Unblock string
  | Refresh config v1_runtime instant "candle_row list"

fun universe_step :: "universe_action \<Rightarrow> symbol list \<Rightarrow> symbol list" where
  "universe_step (Upsert t n m) ss = v1_upsert_symbol t n m ss"
| "universe_step (Block t) ss = snd (v1_block_symbol t ss)"
| "universe_step (Unblock t) ss = snd (v1_unblock_symbol t ss)"
| "universe_step (Refresh cfg rt now rows) ss = snd (loop_c_tick cfg rt now rows ss)"

definition v1_universe_ok :: "symbol list \<Rightarrow> bool" where
  "v1_universe_ok ss \<longleftrightarrow> distinct (map sy_ticker ss) \<and> (\<forall>s\<in>set ss. sy_is_blocked s \<longrightarrow> \<not> sy_is_active s)"

lemma set_put_symbol: "set (put_symbol s ss) \<subseteq> insert s (set ss)"
  by (auto simp: put_symbol_def)

lemma find_symbol_in: "find_symbol t ss = Some s \<Longrightarrow> s \<in> set ss"
  by (auto simp: find_symbol_def find_Some_iff)

lemma put_symbol_ok:
  assumes "v1_universe_ok ss" "sy_is_blocked s \<longrightarrow> \<not> sy_is_active s"
  shows "v1_universe_ok (put_symbol s ss)"
  using assms put_symbol_inv [of ss s] set_put_symbol [of s ss] by (auto simp: v1_universe_ok_def)

lemma refresh_symbol_simps [simp]:
  "sy_ticker (refresh_symbol now th rows s) = sy_ticker s" "sy_is_blocked (refresh_symbol now th rows s) = sy_is_blocked s"
  by (simp_all add: refresh_symbol_def Let_def)

lemma refresh_blocked: "sy_is_blocked s \<Longrightarrow> refresh_symbol now th rows s = s"
  by (simp add: refresh_symbol_def Let_def)

lemma refresh_ok: "v1_universe_ok ss \<Longrightarrow> v1_universe_ok (map (refresh_symbol now th rows) ss)"
  by (auto simp: v1_universe_ok_def comp_def refresh_blocked)

lemma universe_step_ok:
  assumes "v1_universe_ok ss"
  shows "v1_universe_ok (universe_step a ss)"
proof (cases a)
  case (Upsert t n m)
  show ?thesis
  proof (cases "find_symbol t ss")
    case None
    then have "t \<notin> sy_ticker ` set ss" by (simp add: find_symbol_None)
    then show ?thesis using assms Upsert None by (auto simp: v1_upsert_symbol_def v1_universe_ok_def)
  next
    case (Some s)
    have "s \<in> set ss" by (rule find_symbol_in [OF Some])
    then show ?thesis
      using assms Upsert Some by (auto simp: v1_upsert_symbol_def v1_universe_ok_def intro!: put_symbol_ok [unfolded v1_universe_ok_def])
  qed
next
  case (Block t)
  then show ?thesis using assms by (auto simp: v1_block_symbol_def put_symbol_ok split: option.splits)
next
  case (Unblock t)
  show ?thesis
  proof (cases "find_symbol t ss")
    case (Some s)
    have "s \<in> set ss" by (rule find_symbol_in [OF Some])
    then show ?thesis using assms Unblock Some by (auto simp: v1_unblock_symbol_def put_symbol_ok)
  qed (use assms Unblock in \<open>simp add: v1_unblock_symbol_def\<close>)
next
  case (Refresh cfg rt now rows)
  then show ?thesis using assms by (auto simp: loop_c_tick_def refresh_active_universe_def refresh_ok split: sum.splits)
qed

text \<open>
  From an orderly universe, whatever requests and refreshes come, the tickers stay distinct and no
  blocked symbol is among those Loop B asks about.
\<close>

theorem v1_blocked_symbols_are_not_scanned:
  assumes "v1_universe_ok ss"
  shows "v1_universe_ok (fold universe_step acts ss) \<and>
    list_all (\<lambda>s. sy_is_blocked s \<longrightarrow> sy_ticker s \<notin> set (active_tickers (fold universe_step acts ss))) (fold universe_step acts ss)"
proof -
  have ok: "v1_universe_ok (fold universe_step acts ss)"
    using assms by (induction acts arbitrary: ss) (auto simp: universe_step_ok)
  then have "s = t" if "s \<in> set (fold universe_step acts ss)" "t \<in> set (fold universe_step acts ss)" "sy_ticker s = sy_ticker t" for s t
    using that by (auto simp: v1_universe_ok_def distinct_map inj_on_def)
  then show ?thesis using ok by (auto simp: list_all_iff active_tickers_def)
qed

section \<open>Candles, clock and the entry preview\<close>

text \<open>\<open>CandleSyncService.upsert_incremental\<close>\<close>

definition v1_upsert_candle :: "string \<Rightarrow> string \<Rightarrow> candle \<Rightarrow> candle_row list \<Rightarrow> candle_row list" where
  "v1_upsert_candle ticker timeframe c rows =
     (let k = (ticker, timeframe, cd_ts c) in
      if find_row rows k = None then rows @ [new_row ticker timeframe (cd_ts c) c] else update_row k c rows)"

text \<open>\<open>TimeSyncService.sync\<close>: seconds between the two clocks.\<close>

definition v1_sync :: "('e \<Rightarrow> instant py \<times> 'e) \<Rightarrow> instant \<Rightarrow> v1_runtime \<Rightarrow> 'e \<Rightarrow> real py \<times> v1_runtime \<times> 'e" where
  "v1_sync get_server_time local_now rt e =
     (case get_server_time e of
        (Inl x, e') \<Rightarrow> (Inl x, rt, e')
      | (Inr server_now, e') \<Rightarrow>
          (let offset = real_of_int (server_now - local_now) / 1000000
           in (Inr offset, rt\<lparr>rt_server_time_offset_sec := offset\<rparr>, e')))"

definition v1_entry_price :: "real \<Rightarrow> real list \<Rightarrow> int \<Rightarrow> string \<Rightarrow> real py" where
  "v1_entry_price slippage_pct opens index side =
     (let next_index = index + 1 in
      if next_index \<ge> int (length opens) then Inl (ValueError ''N+1 candle is required for backtest entry'')
      else py_bind (py_index opens next_index) (\<lambda>raw.
        Inr (if side = ''buy'' then raw * (1 + slippage_pct / 100) else raw * (1 - slippage_pct / 100))))"

definition round_trip_cost_pct :: "real \<Rightarrow> real \<Rightarrow> real \<Rightarrow> real" where
  "round_trip_cost_pct fee_buy fee_sell tax_sell = fee_buy + fee_sell + tax_sell"

text \<open>The route \<open>POST /backtest/entry-preview\<close>: too few candles are a 400; the rest is the engine's.\<close>

definition entry_preview :: "candle_row list \<Rightarrow> string \<Rightarrow> string \<Rightarrow> int \<Rightarrow> string \<Rightarrow> (v1_answer + real \<times> real) py" where
  "entry_preview rows ticker timeframe index side =
     (let cs = sort_key cn_time (rows_of ticker timeframe rows) in
      if int (length cs) < index + 2 then Inr (Inl (Http 400 ''not enough candles for N+1 entry''))
      else py_bind (v1_entry_price (5 / 100) (map cn_open cs) index side) (\<lambda>entry.
        Inr (Inr (entry, round_trip_cost_pct (15 / 1000) (15 / 1000) (18 / 100)))))"

text \<open>
  For an index that is not negative the preview answers the open of the following candle, with the
  slippage against the trader, exactly if there is such a candle, and never raises.
\<close>

theorem preview_enters_at_the_next_open:
  assumes "0 \<le> index" "cs = sort_key cn_time (rows_of ticker timeframe rows)"
  shows "entry_preview rows ticker timeframe index side =
    (if nat index + 1 < length cs
     then Inr (Inr (cn_open (cs ! (nat index + 1)) * (if side = ''buy'' then 10005 / 10000 else 9995 / 10000), 21 / 100))
     else Inr (Inl (Http 400 ''not enough candles for N+1 entry'')))"
proof -
  have n: "nat (index + 1) = nat index + 1" using assms(1) by simp
  show ?thesis
  proof (cases "nat index + 1 < length cs")
    case True
    then have "py_index (map cn_open cs) (index + 1) = Inr (cn_open (cs ! (nat index + 1)))"
      using assms(1) py_index_nonneg [of "index + 1" "map cn_open cs"] by (simp add: n)
    then show ?thesis
      using True assms(1) unfolding entry_preview_def assms(2) [symmetric] Let_def
      by (simp add: v1_entry_price_def round_trip_cost_pct_def Let_def)
  next
    case False
    then have "int (length cs) < index + 2" using assms(1) by linarith
    then show ?thesis using False unfolding entry_preview_def assms(2) [symmetric] Let_def by simp
  qed
qed

text \<open>A negative index passes both checks and reads from the end: the preview of \<open>-2\<close> enters at the last candle.\<close>

theorem preview_takes_negative_indices:
  assumes "cs = sort_key cn_time (rows_of ticker timeframe rows)" "cs \<noteq> []"
  shows "entry_preview rows ticker timeframe (-2) ''buy'' = Inr (Inr (cn_open (last cs) * (10005 / 10000), 21 / 100))"
proof -
  have "py_index (map cn_open cs) (-1) = Inr (cn_open (last cs))"
    using assms(2) by (auto simp: py_index_def Let_def last_conv_nth nat_diff_distrib' of_nat_diff)
  then show ?thesis
    using assms(2) unfolding entry_preview_def assms(1) [symmetric] Let_def
    by (simp add: v1_entry_price_def round_trip_cost_pct_def Let_def)
qed

section \<open>The performance report\<close>

record v1_report =
  vr_total_trades :: nat
  vr_closed_trades :: nat
  vr_win_rate_pct :: real
  vr_meets_min_signals_100 :: bool

definition v1_paper_report :: "v1_paper_trade list \<Rightarrow> v1_report" where
  "v1_paper_report trades =
     (let shut = filter (\<lambda>t. pt_exit_price t \<noteq> None \<and> pt_pnl t \<noteq> None) trades;
          wins = filter (\<lambda>t. or_real (pt_pnl t) 0 > 0) shut
      in \<lparr>vr_total_trades = length trades, vr_closed_trades = length shut,
          vr_win_rate_pct = (if shut \<noteq> [] then real (length wins) / real (length shut) * 100 else 0),
          vr_meets_min_signals_100 = (length trades \<ge> 100)\<rparr>)"

definition no_profit :: "v1_db \<Rightarrow> bool" where
  "no_profit d \<longleftrightarrow> (\<forall>t\<in>set (d1_paper_trades d). pt_pnl t = None \<or> pt_pnl t = Some 0)"

lemma set_update_first: "set (update_first P f xs) \<subseteq> set xs \<union> f ` set xs"
  by (induction xs) auto

lemma settle_no_profit: "no_profit d \<Longrightarrow> no_profit (settle_paper p d)"
  using set_update_first [of "\<lambda>t. pt_ticker t = vp_ticker p \<and> pt_exit_price t = None"
      "\<lambda>t. t\<lparr>pt_exit_price := Some (vp_entry_price p), pt_pnl := Some 0\<rparr>" "d1_paper_trades d"]
  by (auto simp: no_profit_def settle_paper_def)

lemma put_no_profit [simp]: "no_profit (put_position p d) = no_profit d"
  by (simp add: no_profit_def put_position_def)

lemma execute_no_profit: "execute_signal mode cfg br now ev (e, d) = (r, e', d') \<Longrightarrow> no_profit d \<Longrightarrow> no_profit d'"
  by (auto simp: execute_signal_def paper_entry_def no_profit_def Let_def split: prod.splits sum.splits if_splits)

lemma monitor_no_profit: "monitor_rows cfg br tm now ps (e, d) = (r, e', d') \<Longrightarrow> no_profit d \<Longrightarrow> no_profit d'"
proof (induction ps arbitrary: e d)
  case (Cons p ps)
  then show ?case by (auto split: option.splits sum.splits prod.splits)
qed simp

lemma force_no_profit: "force_close mode br now reason p (e, d) = (r, e', d') \<Longrightarrow> no_profit d \<Longrightarrow> no_profit d'"
  by (auto simp: force_close_def Let_def settle_no_profit split: if_splits sum.splits prod.splits)

lemma order_no_profit: "close_in_order mode br now base ps (e, d) = (r, e', d') \<Longrightarrow> no_profit d \<Longrightarrow> no_profit d'"
proof (induction ps arbitrary: e d)
  case (Cons p ps)
  obtain r1 e1 d1 where f: "force_close mode br now ''margin_forced_close'' p (e, d) = (r1, e1, d1)" by (rule prod_cases3)
  show ?case
    using Cons.prems f force_no_profit [OF f] Cons.IH [of e1 d1] by (auto split: sum.splits if_splits)
qed simp

lemma margin_no_profit:
  assumes "run_margin_close_if_needed mode cfg br now rt (e, d) = (r, rt', e', d')" "no_profit d"
  shows "no_profit d'"
proof -
  have "d' = d \<or> (\<exists>r1 base ps. close_in_order mode br (instant_of now) base ps (e, d) = (r1, e', d'))"
    using assms(1) by (auto simp: run_margin_close_if_needed_def Let_def split: sum.splits if_splits prod.splits)
  then show ?thesis using assms(2) by (auto intro: order_no_profit)
qed

lemma tick_no_profit:
  assumes "loop_a_tick mode cfg br tm now (rt, q, e, d) = (r, rt', q', e', d')" "no_profit d"
  shows "no_profit d'"
proof (cases "rt_paused_all rt")
  case True
  with assms show ?thesis by (simp add: loop_a_tick_def)
next
  case False
  obtain r1 q1 e1 d1 where t: "take_entry mode cfg br (instant_of now) (rt_paused_entry rt) (q, e, d) = (r1, q1, e1, d1)"
    by (rule prod_cases4)
  have "d1 = d \<or> (\<exists>ev r2. execute_signal mode cfg br (instant_of now) ev (e, d) = (r2, e1, d1))"
    using t by (auto simp: take_entry_def split: list.splits if_splits sum.splits prod.splits)
  then have one: "no_profit d1" using assms(2) by (auto intro: execute_no_profit)
  obtain r2 e2 d2 where m: "monitor_rows cfg br tm (instant_of now) (open_positions d1) (e1, d1) = (r2, e2, d2)" by (rule prod_cases3)
  note two = monitor_no_profit [OF m one]
  obtain r3 rt3 e3 d3 where c: "run_margin_close_if_needed mode cfg br now rt (e2, d2) = (r3, rt3, e3, d3)" by (rule prod_cases4)
  note three = margin_no_profit [OF c two]
  have "d' \<in> {d1, d2, d3}"
    using assms(1) False t m c by (auto simp: loop_a_tick_def split: sum.splits)
  then show ?thesis using one two three by blast
qed

lemma run_no_profit: "no_profit d \<Longrightarrow> no_profit (snd (snd (snd (v1_run mode br tm acts (rt, q, e, d)))))"
proof (induction acts arbitrary: rt q e d)
  case Nil
  then show ?case by (simp add: v1_run_def)
next
  case (Cons a acts)
  obtain rt1 q1 e1 d1 where s: "v1_step mode br tm a (rt, q, e, d) = (rt1, q1, e1, d1)" by (rule prod_cases4)
  have "no_profit d1"
  proof (cases a)
    case (Tick cfg now)
    obtain r w where t: "loop_a_tick mode cfg br tm now (rt, q, e, d) = (r, w)" by (rule prod.exhaust)
    then have "loop_a_tick mode cfg br tm now (rt, q, e, d) = (r, rt1, q1, e1, d1)" using s Tick by simp
    then show ?thesis using Cons.prems by (rule tick_no_profit)
  qed (use s Cons.prems in simp_all)
  from Cons.IH [OF this, of rt1 q1 e1] s show ?case by (simp add: v1_run_def)
qed

text \<open>
  The win rate of the report is always zero: only a forced close records the result of a trade, and
  it records none; the exits of the loop leave the trade open.
\<close>

theorem v1_win_rate_is_zero:
  assumes "no_profit d"
  shows "vr_win_rate_pct (v1_paper_report (d1_paper_trades (snd (snd (snd (v1_run mode br tm acts (rt, q, e, d))))))) = 0"
proof -
  let ?d = "snd (snd (snd (v1_run mode br tm acts (rt, q, e, d))))"
  have "no_profit ?d" by (rule run_no_profit [OF assms])
  then have "filter (\<lambda>t. or_real (pt_pnl t) 0 > 0)
      (filter (\<lambda>t. pt_exit_price t \<noteq> None \<and> pt_pnl t \<noteq> None) (d1_paper_trades ?d)) = []"
    by (auto simp: filter_empty_conv no_profit_def or_real_def)
  then show ?thesis by (simp only: v1_paper_report_def Let_def v1_report.simps list.size of_nat_0 div_0 mult_zero_left if_cancel)
qed

section \<open>The rate-limited client\<close>

record client_task =
  ct_priority :: nat
  ct_seq :: nat

text \<open>
  \<open>enqueue\<close> up to the lock: the task is put, and the least one, by priority and number, is taken. Neither call
  waits, the queue being unbounded and not empty, so nothing comes between them. The result is the task that
  goes on to the lock, which serves its callers in their order.
\<close>

definition least_task :: "client_task list \<Rightarrow> client_task" where
  "least_task q = hd (sort_key ct_priority (sort_key ct_seq q))"

definition v1_enqueue :: "bool \<Rightarrow> nat \<times> client_task list \<Rightarrow> client_task \<times> nat \<times> client_task list" where
  "v1_enqueue is_order s =
     (case s of (n, q) \<Rightarrow>
        (let q1 = q @ [\<lparr>ct_priority = (if is_order then 0 else 1), ct_seq = Suc n\<rparr>]; t = least_task q1
         in (t, Suc n, remove1 t q1)))"

fun v1_drawn :: "bool list \<Rightarrow> nat \<times> client_task list \<Rightarrow> client_task list" where
  "v1_drawn [] s = []"
| "v1_drawn (o1 # os) s = (case v1_enqueue o1 s of (t, s') \<Rightarrow> t # v1_drawn os s')"

text \<open>
  The priority of orders has no effect: every caller draws its own task, so the calls go to the lock,
  and to the broker, in the order in which they were made.
\<close>

theorem v1_priority_has_no_effect:
  "map ct_seq (v1_drawn flags (n, [])) = [Suc n..<Suc n + length flags]"
proof (induction flags arbitrary: n)
  case (Cons x flags)
  have "v1_enqueue x (n, []) = (\<lparr>ct_priority = (if x then 0 else 1), ct_seq = Suc n\<rparr>, Suc n, [])"
    by (simp add: v1_enqueue_def least_task_def Let_def)
  then show ?case using Cons.IH [of "Suc n"] by (simp add: upt_conv_Cons del: upt_Suc)
qed simp

text \<open>
  \<open>_drain_one\<close> under the lock: when the previous holder left it, when the last request that returned ended, and
  the start of a call that arrives at \<open>t\<close>, takes \<open>dur\<close> and returns or raises.
\<close>

record v1_lock =
  lk_free :: real
  lk_last_request_time :: real

definition v1_drain :: "real \<Rightarrow> real \<times> real \<times> bool \<Rightarrow> v1_lock \<Rightarrow> real \<times> v1_lock" where
  "v1_drain interval call l =
     (case call of (t, dur, returns) \<Rightarrow>
        (let start = max (max t (lk_free l)) (lk_last_request_time l + interval); finish = start + dur
         in (start, \<lparr>lk_free = finish, lk_last_request_time = (if returns then finish else lk_last_request_time l)\<rparr>)))"

fun v1_starts :: "real \<Rightarrow> (real \<times> real \<times> bool) list \<Rightarrow> v1_lock \<Rightarrow> real list" where
  "v1_starts interval [] l = []"
| "v1_starts interval (c # cs) l = (case v1_drain interval c l of (start, l') \<Rightarrow> start # v1_starts interval cs l')"

text \<open>While the calls return, each starts at least the interval after the end of the one before.\<close>

lemma v1_starts_after:
  assumes "list_all (\<lambda>(t, dur, returns). 0 \<le> dur \<and> returns) cs" "0 \<le> interval"
  shows "list_all (\<lambda>s. lk_last_request_time l + interval \<le> s) (v1_starts interval cs l)"
  using assms(1)
proof (induction cs arbitrary: l)
  case (Cons c cs)
  obtain t dur where c: "c = (t, dur, True)" "0 \<le> dur" using Cons.prems by auto
  obtain start l' where d: "v1_drain interval c l = (start, l')" by (rule prod.exhaust)
  have st: "lk_last_request_time l + interval \<le> start" "lk_last_request_time l' = start + dur"
    using d c by (auto simp: v1_drain_def Let_def)
  have "list_all (\<lambda>s. lk_last_request_time l' + interval \<le> s) (v1_starts interval cs l')"
    using Cons.prems by (intro Cons.IH) simp
  then show ?case using st c(2) assms(2) by (auto simp: d list_all_iff intro: order_trans)
qed simp

text \<open>With calls that all return, the starts are the interval apart, whatever arrives when.\<close>

theorem v1_calls_keep_their_distance:
  assumes "list_all (\<lambda>(t, dur, returns). 0 \<le> dur \<and> returns) cs" "0 \<le> interval"
  shows "sorted_wrt (\<lambda>a b. a + interval \<le> b) (v1_starts interval cs l)"
  using assms(1)
proof (induction cs arbitrary: l)
  case (Cons c cs)
  obtain t dur where c: "c = (t, dur, True)" "0 \<le> dur" using Cons.prems by auto
  obtain start l' where d: "v1_drain interval c l = (start, l')" by (rule prod.exhaust)
  have l': "lk_last_request_time l' = start + dur" using d c by (auto simp: v1_drain_def Let_def)
  have tl: "list_all (\<lambda>(t, dur, returns). 0 \<le> dur \<and> returns) cs" using Cons.prems by simp
  show ?case
    using Cons.IH [OF tl, of l'] v1_starts_after [OF tl assms(2), of l'] l' c(2)
    by (auto simp: d list_all_iff intro: order_trans [of "start + interval"])
qed simp

definition v1_token_expiring_soon :: "instant \<Rightarrow> instant option \<Rightarrow> bool" where
  "v1_token_expiring_soon now expires_at = (case expires_at of None \<Rightarrow> True | Some t \<Rightarrow> t - 300 * 1000000 \<le> now)"

section \<open>The broker\<close>

text \<open>\<open>rest_client.py\<close>: the token is asked for up to three times; a response that cannot be read counts as a failure.\<close>

definition v1_needs_refresh :: "instant \<Rightarrow> client \<Rightarrow> bool" where
  "v1_needs_refresh now c =
     (if \<not> truthy_str (kc_token c) \<or> kc_expires_at c = None then True else the (kc_expires_at c) - 300 * 1000000 \<le> now)"

definition v1_read_token :: "json_text \<Rightarrow> (string \<Rightarrow> instant option) \<Rightarrow> instant \<Rightarrow> dict \<Rightarrow> (string \<times> instant) py" where
  "v1_read_token fmt strptime now d =
     (case token_of d of
        None \<Rightarrow> Inl (RuntimeError ''token missing from response'')
      | Some tk \<Rightarrow>
          if \<not> json_truthy tk then Inl (RuntimeError ''token missing from response'')
          else py_bind (expiry_of strptime now d) (\<lambda>t. Inr (json_str fmt tk, t)))"

fun v1_token_attempts ::
  "json_text \<Rightarrow> (string \<Rightarrow> instant option) \<Rightarrow> 'e transport \<Rightarrow> instant \<Rightarrow> request \<Rightarrow> nat \<Rightarrow> string \<Rightarrow> client \<times> 'e \<Rightarrow> string py \<times> client \<times> 'e" where
  "v1_token_attempts fmt strptime tr now req 0 err (c, e) = (Inl (RuntimeError (''kiwoom token refresh failed: '' @ err)), c, e)"
| "v1_token_attempts fmt strptime tr now req (Suc k) err (c, e) =
     (case tr req e of
        (Inl x, e') \<Rightarrow> v1_token_attempts fmt strptime tr now req k (exn_str x) (c, e')
      | (Inr d, e') \<Rightarrow>
          (case v1_read_token fmt strptime now d of
             Inl x \<Rightarrow> v1_token_attempts fmt strptime tr now req k (exn_str x) (c, e')
           | Inr (tok, t) \<Rightarrow> (Inr tok, c\<lparr>kc_token := Some tok, kc_expires_at := Some t\<rparr>, e')))"

definition v1_ensure_token ::
  "json_text \<Rightarrow> (string \<Rightarrow> instant option) \<Rightarrow> 'e transport \<Rightarrow> instant \<Rightarrow> client \<times> 'e \<Rightarrow> string py \<times> client \<times> 'e" where
  "v1_ensure_token fmt strptime tr now s =
     (case s of (c, e) \<Rightarrow>
        if \<not> v1_needs_refresh now c then (Inr (case kc_token c of None \<Rightarrow> [] | Some t \<Rightarrow> t), c, e)
        else if kc_app_key c = [] \<or> kc_app_secret c = []
        then (Inl (RuntimeError ''KIWOOM_APP_KEY / KIWOOM_APP_SECRET is required for live mode''), c, e)
        else v1_token_attempts fmt strptime tr now
               \<lparr>hr_url = kc_base_url c @ ''/oauth2/token'', hr_api_id = [], hr_token = [],
                hr_payload = [(''grant_type'', JStr ''client_credentials''), (''appkey'', JStr (kc_app_key c)),
                              (''secretkey'', JStr (kc_app_secret c))], hr_is_order = False\<rparr> 3 ''None'' (c, e))"

definition v1_post ::
  "json_text \<Rightarrow> (string \<Rightarrow> instant option) \<Rightarrow> 'e transport \<Rightarrow> instant \<Rightarrow> (client \<times> 'e) post_fn" where
  "v1_post fmt strptime tr now path api_id payload is_order s =
     (case v1_ensure_token fmt strptime tr now s of
        (Inl x, s') \<Rightarrow> (Inl x, s')
      | (Inr token, (c, e)) \<Rightarrow>
          (case tr \<lparr>hr_url = kc_base_url c @ path, hr_api_id = api_id, hr_token = token, hr_payload = payload,
                    hr_is_order = is_order\<rparr> e of
             (r, e') \<Rightarrow> (r, c, e')))"

text \<open>\<open>real_gateway.py\<close>. An order number that is not text is kept as its text, a falsy one as none.\<close>

definition v1_order_result_of :: "json_text \<Rightarrow> dict \<Rightarrow> order_result" where
  "v1_order_result_of fmt data =
     (let oid = map_of data ''ord_no''; has_id = (case oid of None \<Rightarrow> False | Some v \<Rightarrow> json_truthy v);
          cd = (case map_of data ''return_code'' of None \<Rightarrow> ''0'' | Some v \<Rightarrow> json_str fmt v);
          ok = (cd \<in> {''0'', ''None''} \<and> has_id)
      in \<lparr>res_ok = ok, res_order_id = (if has_id then Some (json_str fmt (the oid)) else None),
          res_error = (if ok then None
                       else (case map_of data ''return_msg'' of None \<Rightarrow> None | Some JNull \<Rightarrow> None | Some v \<Rightarrow> Some (json_str fmt v)))\<rparr>)"

definition v1_place_order :: "json_text \<Rightarrow> string \<Rightarrow> 's post_fn \<Rightarrow> 's place_fn" where
  "v1_place_order fmt account post req s =
     (case post ''/api/dostk/ordr'' (if rq_side req = ''buy'' then ''kt10000'' else ''kt10001'') (order_payload account req) True s of
        (Inl x, s') \<Rightarrow> (Inl x, s')
      | (Inr data, s') \<Rightarrow> (Inr (v1_order_result_of fmt data), s'))"

fun v1_json_float :: "json \<Rightarrow> pyfloat py" where
  "v1_json_float (JBool b) = Inr (Fin (if b then 1 else 0))"
| "v1_json_float (JInt i) = float_of_int i"
| "v1_json_float (JFloat x) = Inr x"
| "v1_json_float (JStr t) = (case py_float_of t of None \<Rightarrow> Inl (ValueError ''could not convert string to float'') | Some x \<Rightarrow> Inr x)"
| "v1_json_float _ = Inl (TypeError ''float() argument'')"

definition get_or :: "string \<Rightarrow> json \<Rightarrow> dict \<Rightarrow> json" where
  "get_or k dflt d = (case map_of d k of None \<Rightarrow> dflt | Some v \<Rightarrow> v)"

definition v1_order_status_of :: "json_text \<Rightarrow> dict \<Rightarrow> order_status py" where
  "v1_order_status_of fmt data =
     (let first = get_or ''stk_unexp_trde_opt_data_qry'' JNull data;
          rows = (if json_truthy first then first else get_or ''acnt_ord_cntr_prps_dtl'' JNull data)
      in if \<not> json_truthy rows then Inr \<lparr>st_exists = False, st_status = ''not_found'', st_filled_qty = Fin 0\<rparr>
         else
           (case rows of
              JList (JObj row # more_rows) \<Rightarrow>
                (let st = json_str fmt (get_or ''ord_stts'' (get_or ''ord_gb'' (JStr ''accepted'') row) row);
                     qty = get_or ''cntr_qty'' (get_or ''filled_qty'' (JInt 0) row) row
                 in py_bind (if json_truthy qty then v1_json_float qty else Inr (Fin 0)) (\<lambda>f.
                      Inr \<lparr>st_exists = True, st_status = py_lower st, st_filled_qty = f\<rparr>))
            | _ \<Rightarrow> Inl (TypeError ''rows are not a list of objects'')))"

definition v1_get_order_status :: "json_text \<Rightarrow> string \<Rightarrow> 's post_fn \<Rightarrow> 's status_fn" where
  "v1_get_order_status fmt account post oid s =
     (case post ''/api/dostk/acnt'' ''ka10075'' (status_payload account oid) False s of
        (Inl x, s') \<Rightarrow> (Inl x, s')
      | (Inr data, s') \<Rightarrow> (v1_order_status_of fmt data, s'))"

text \<open>\<open>get_server_time\<close>: one quote is asked for, and the local clock answers.\<close>

definition v1_get_server_time :: "'s post_fn \<Rightarrow> instant \<Rightarrow> 's \<Rightarrow> instant py \<times> 's" where
  "v1_get_server_time post clock s =
     (case post ''/api/dostk/stkinfo'' ''ka10001'' [(''stk_cd'', JStr ''005930_AL'')] False s of
        (Inl x, s') \<Rightarrow> (Inl x, s')
      | (Inr data, s') \<Rightarrow> (Inr clock, s'))"

text \<open>An answer with a code and an order number in text is read alike by the two versions.\<close>

theorem orders_are_read_alike:
  assumes "map_of data ''ord_no'' = Some (JStr oid)" "py_strip oid \<noteq> []" "map_of data ''return_code'' = Some (JInt k)"
  shows "res_ok (v1_order_result_of fmt data) = res_ok (order_result_of fmt data) \<and>
    res_order_id (v1_order_result_of fmt data) = res_order_id (order_result_of fmt data)"
proof -
  have n: "oid \<noteq> []" using assms(2) by (auto simp: py_strip_def)
  have "first_non_empty data [''ord_no'', ''order_no'', ''odno''] True = Some (JStr oid)"
    by (rule first_non_empty_first) (use assms in simp_all)
  moreover have "first_non_empty data [''return_code'', ''rt_cd'', ''code''] True = Some (JInt k)"
    by (rule first_non_empty_first) (use assms in simp_all)
  moreover have "show_int 0 = ''0''" by code_simp
  ultimately show ?thesis using assms n by (simp add: v1_order_result_of_def order_result_of_def Let_def)
qed

text \<open>\<open>MockKiwoomGateway\<close>: every order is accepted, and is filled when asked about.\<close>

definition v1_mock_place :: "'e place_fn" where
  "v1_mock_place req e = (Inr \<lparr>res_ok = True, res_order_id = Some ''live-mock-order'', res_error = None\<rparr>, e)"

definition v1_mock_status :: "'e status_fn" where
  "v1_mock_status oid e = (Inr \<lparr>st_exists = True, st_status = ''filled'', st_filled_qty = Fin 1\<rparr>, e)"

section \<open>Lists\<close>

text \<open>The routes of \<open>trading.py\<close> and \<open>system.py\<close>: the last hundred rows, and the state of the loops.\<close>

definition v1_list_positions :: "v1_db \<Rightarrow> v1_position list" where
  "v1_list_positions d = take 100 (rev (sort_key vp_id (d1_positions d)))"

definition v1_list_orders :: "v1_db \<Rightarrow> v1_order list" where
  "v1_list_orders d = take 100 (rev (sort_key vo_id (d1_orders d)))"

definition v1_runtime_status :: "v1_runtime option \<Rightarrow> bool \<times> bool \<times> real option" where
  "v1_runtime_status runtime =
     (case runtime of
        None \<Rightarrow> (False, False, None)
      | Some rt \<Rightarrow> (True, \<not> rt_stop_requested rt, Some (rt_server_time_offset_sec rt)))"

end
