(* ===== verification/Migrations.thy ===== *)
theory Migrations
  imports Py_Prelude "HOL-Library.AList"
begin

text \<open>
  The schema scripts of \<open>src/alembic/versions\<close> and the tables that the SQLAlchemy models declare
  (\<open>app/db/models\<close>, and \<open>legacy/app_v1/db/models\<close> of the first version). A schema is an association list of
  tables; the operations are those of PostgreSQL that the scripts use, and fail as they do there: a script
  runs in one transaction, so a failure changes nothing. Every \<open>upgrade\<close> is a list of steps that look before
  they create, every \<open>downgrade\<close> a list of drops. Of a column the model keeps the name, the type, whether it
  may be null and the default of the server.
\<close>

section \<open>Schemas\<close>

datatype col_type = TString nat | TText | TInteger | TFloat | TBoolean | TDateTime

record column =
  co_name :: string
  co_type :: col_type
  co_nullable :: bool
  co_default :: "string option"

definition col_req :: "string \<Rightarrow> col_type \<Rightarrow> column" where
  "col_req n t = \<lparr>co_name = n, co_type = t, co_nullable = False, co_default = None\<rparr>"

definition col_opt :: "string \<Rightarrow> col_type \<Rightarrow> column" where
  "col_opt n t = \<lparr>co_name = n, co_type = t, co_nullable = True, co_default = None\<rparr>"

definition col_default :: "string \<Rightarrow> col_type \<Rightarrow> string \<Rightarrow> column" where
  "col_default n t d = \<lparr>co_name = n, co_type = t, co_nullable = False, co_default = Some d\<rparr>"

text \<open>Unique constraints and indexes by name; a foreign key is a column with the table and column it names.\<close>

record table =
  ta_columns :: "column list"
  ta_key :: "string list"
  ta_unique :: "(string \<times> string list) list"
  ta_foreign :: "(string \<times> string \<times> string) list"
  ta_indexes :: "(string \<times> string list) list"

type_synonym schema = "(string \<times> table) list"
type_synonym model = "string \<times> table"

definition has_table :: "string \<Rightarrow> schema \<Rightarrow> bool" where
  "has_table n s = (map_of s n \<noteq> None)"

definition index_exists :: "string \<Rightarrow> string \<Rightarrow> schema \<Rightarrow> bool" where
  "index_exists t i s = (case map_of s t of None \<Rightarrow> False | Some tb \<Rightarrow> list_ex (\<lambda>(n, cols). n = i) (ta_indexes tb))"

definition column_exists :: "string \<Rightarrow> string \<Rightarrow> schema \<Rightarrow> bool" where
  "column_exists t c s = (case map_of s t of None \<Rightarrow> False | Some tb \<Rightarrow> list_ex (\<lambda>x. co_name x = c) (ta_columns tb))"

definition index_taken :: "string \<Rightarrow> schema \<Rightarrow> bool" where
  "index_taken i s = list_ex (\<lambda>(n, tb). list_ex (\<lambda>(m, cols). m = i) (ta_indexes tb)) s"

section \<open>Operations\<close>

definition create_table :: "string \<Rightarrow> table \<Rightarrow> schema \<Rightarrow> schema py" where
  "create_table n tb s =
     (if has_table n s then Inl (SQLAlchemyError ''relation already exists'')
      else if list_all (\<lambda>(c, r, k). column_exists r k s) (ta_foreign tb) then Inr (s @ [(n, tb)])
      else Inl (SQLAlchemyError ''relation does not exist''))"

definition create_index :: "string \<Rightarrow> string \<Rightarrow> string list \<Rightarrow> schema \<Rightarrow> schema py" where
  "create_index i t cols s =
     (case map_of s t of
        None \<Rightarrow> Inl (SQLAlchemyError ''relation does not exist'')
      | Some tb \<Rightarrow>
          if index_taken i s then Inl (SQLAlchemyError ''relation already exists'')
          else if list_all (\<lambda>c. column_exists t c s) cols
          then Inr (AList.update t (tb\<lparr>ta_indexes := ta_indexes tb @ [(i, cols)]\<rparr>) s)
          else Inl (SQLAlchemyError ''column does not exist''))"

text \<open>A column that may not be null and has no default can be added to an empty table only, so it needs its default.\<close>

definition add_column :: "string \<Rightarrow> column \<Rightarrow> schema \<Rightarrow> schema py" where
  "add_column t c s =
     (case map_of s t of
        None \<Rightarrow> Inl (SQLAlchemyError ''relation does not exist'')
      | Some tb \<Rightarrow>
          if column_exists t (co_name c) s then Inl (SQLAlchemyError ''column already exists'')
          else if \<not> co_nullable c \<and> co_default c = None then Inl (SQLAlchemyError ''column contains null values'')
          else Inr (AList.update t (tb\<lparr>ta_columns := ta_columns tb @ [c]\<rparr>) s))"

definition drop_table :: "string \<Rightarrow> schema \<Rightarrow> schema py" where
  "drop_table n s =
     (if \<not> has_table n s then Inl (SQLAlchemyError ''table does not exist'')
      else if list_ex (\<lambda>(m, tb). m \<noteq> n \<and> list_ex (\<lambda>(c, r, k). r = n) (ta_foreign tb)) s
      then Inl (SQLAlchemyError ''other objects depend on it'')
      else Inr (filter (\<lambda>(m, tb). m \<noteq> n) s))"

definition drop_index :: "string \<Rightarrow> string \<Rightarrow> schema \<Rightarrow> schema py" where
  "drop_index i t s =
     (if \<not> index_exists t i s then Inl (SQLAlchemyError ''index does not exist'')
      else (case map_of s t of
              None \<Rightarrow> Inl (SQLAlchemyError ''index does not exist'')
            | Some tb \<Rightarrow> Inr (AList.update t (tb\<lparr>ta_indexes := filter (\<lambda>(n, cols). n \<noteq> i) (ta_indexes tb)\<rparr>) s)))"

definition drop_column :: "string \<Rightarrow> string \<Rightarrow> schema \<Rightarrow> schema py" where
  "drop_column t c s =
     (case map_of s t of
        None \<Rightarrow> Inl (SQLAlchemyError ''relation does not exist'')
      | Some tb \<Rightarrow>
          if \<not> column_exists t c s then Inl (SQLAlchemyError ''column does not exist'')
          else Inr (AList.update t (tb\<lparr>ta_columns := filter (\<lambda>x. co_name x \<noteq> c) (ta_columns tb)\<rparr>) s))"

section \<open>Scripts\<close>

text \<open>The guarded steps: \<open>_table_exists\<close>, \<open>_index_exists\<close> and \<open>_column_exists\<close> before each operation.\<close>

datatype ensure_op =
    EnsureTable string table
  | EnsureIndex string string "string list"
  | EnsureColumn string column

fun ensure :: "ensure_op \<Rightarrow> schema \<Rightarrow> schema py" where
  "ensure (EnsureTable n tb) s = (if has_table n s then Inr s else create_table n tb s)"
| "ensure (EnsureIndex i t cols) s = (if has_table t s \<and> \<not> index_exists t i s then create_index i t cols s else Inr s)"
| "ensure (EnsureColumn t c) s = (if has_table t s \<and> \<not> column_exists t (co_name c) s then add_column t c s else Inr s)"

fun ensure_all :: "ensure_op list \<Rightarrow> schema \<Rightarrow> schema py" where
  "ensure_all [] s = Inr s"
| "ensure_all (a # as) s = py_bind (ensure a s) (ensure_all as)"

datatype drop_op = DropTable string | DropIndex string string | DropColumn string string

fun drop_one :: "drop_op \<Rightarrow> schema \<Rightarrow> schema py" where
  "drop_one (DropTable n) s = drop_table n s"
| "drop_one (DropIndex i t) s = drop_index i t s"
| "drop_one (DropColumn t c) s = drop_column t c s"

fun drop_all :: "drop_op list \<Rightarrow> schema \<Rightarrow> schema py" where
  "drop_all [] s = Inr s"
| "drop_all (a # as) s = py_bind (drop_one a s) (drop_all as)"

record migration =
  mg_revision :: string
  mg_down_revision :: "string option"
  mg_upgrade :: "ensure_op list"
  mg_downgrade :: "drop_op list"

subsection \<open>0001_init_config_tables.py\<close>

definition config_table :: table where
  "config_table = \<lparr>ta_columns =
     [col_req ''key'' (TString 128), col_req ''value'' TText, col_default ''updated_at'' TDateTime ''now''],
     ta_key = [''key''], ta_unique = [],
     ta_foreign = [], ta_indexes = []\<rparr>"

definition config_history_table :: table where
  "config_history_table = \<lparr>ta_columns =
     [col_req ''id'' TInteger, col_req ''key'' (TString 128), col_opt ''old_value'' TText, col_req ''new_value'' TText,
      col_req ''changed_by'' (TString 64), col_default ''changed_at'' TDateTime ''now''],
     ta_key = [''id''], ta_unique = [],
     ta_foreign = [], ta_indexes = []\<rparr>"

definition upgrade_0001 :: "ensure_op list" where
  "upgrade_0001 =
     [EnsureTable ''config'' config_table, EnsureTable ''config_history'' config_history_table,
      EnsureIndex ''ix_config_history_key'' ''config_history'' [''key'']]"

definition downgrade_0001 :: "drop_op list" where
  "downgrade_0001 =
     [DropIndex ''ix_config_history_key'' ''config_history'', DropTable ''config_history'', DropTable ''config'']"

subsection \<open>0002_add_core_domain_tables.py\<close>

definition symbols_table :: table where
  "symbols_table = \<lparr>ta_columns =
     [col_req ''ticker'' (TString 16), col_req ''name'' (TString 128), col_req ''market'' (TString 16),
      col_default ''in_universe'' TBoolean ''true'', col_default ''is_active'' TBoolean ''false'',
      col_default ''is_blocked'' TBoolean ''false'', col_default ''status'' (TString 32) ''normal'',
      col_default ''created_at'' TDateTime ''now'', col_default ''updated_at'' TDateTime ''now''],
     ta_key = [''ticker''], ta_unique = [],
     ta_foreign = [], ta_indexes = []\<rparr>"

definition candles_table :: table where
  "candles_table = \<lparr>ta_columns =
     [col_req ''id'' TInteger, col_req ''ticker'' (TString 16), col_req ''timeframe'' (TString 8), col_req ''candle_time'' TDateTime,
      col_req ''open'' TFloat, col_req ''high'' TFloat, col_req ''low'' TFloat, col_req ''close'' TFloat, col_req ''volume'' TFloat],
     ta_key = [''id''], ta_unique = [(''uq_candle_unique'', [''ticker'', ''timeframe'', ''candle_time''])],
     ta_foreign = [], ta_indexes = []\<rparr>"

definition signals_table :: table where
  "signals_table = \<lparr>ta_columns =
     [col_req ''id'' TInteger, col_req ''ticker'' (TString 16), col_req ''strategy_id'' (TString 32),
      col_req ''timeframe'' (TString 8), col_default ''signal_type'' (TString 16) ''entry'', col_default ''side'' (TString 8) ''buy'',
      col_req ''signal_price'' TFloat, col_req ''signal_time'' TDateTime, col_default ''status'' (TString 16) ''queued'',
      col_default ''created_at'' TDateTime ''now''],
     ta_key = [''id''], ta_unique = [],
     ta_foreign = [], ta_indexes = []\<rparr>"

definition positions_table :: table where
  "positions_table = \<lparr>ta_columns =
     [col_req ''id'' TInteger, col_req ''ticker'' (TString 16), col_req ''strategy_id'' (TString 32),
      col_default ''state'' (TString 16) ''OPEN'', col_req ''entry_price'' TFloat, col_req ''stop_price'' TFloat,
      col_req ''take_profit_price'' TFloat, col_opt ''trailing_stop_price'' TFloat, col_opt ''highest_price'' TFloat,
      col_req ''quantity'' TFloat, col_req ''remaining_quantity'' TFloat, col_req ''entry_time'' TDateTime,
      col_opt ''closed_time'' TDateTime, col_opt ''close_reason'' (TString 64), col_default ''created_at'' TDateTime ''now'',
      col_default ''updated_at'' TDateTime ''now''],
     ta_key = [''id''], ta_unique = [],
     ta_foreign = [], ta_indexes = []\<rparr>"

definition orders_table :: table where
  "orders_table = \<lparr>ta_columns =
     [col_req ''id'' TInteger, col_opt ''position_id'' TInteger, col_opt ''external_order_id'' (TString 64),
      col_req ''ticker'' (TString 16), col_req ''strategy_id'' (TString 32), col_req ''side'' (TString 8),
      col_req ''order_type'' (TString 16), col_opt ''price'' TFloat, col_req ''quantity'' TFloat,
      col_default ''filled_quantity'' TFloat ''0'', col_default ''status'' (TString 16) ''pending'', col_opt ''reason'' (TString 64),
      col_default ''created_at'' TDateTime ''now'', col_default ''updated_at'' TDateTime ''now''],
     ta_key = [''id''], ta_unique = [],
     ta_foreign = [], ta_indexes = []\<rparr>"

definition account_snapshots_table :: table where
  "account_snapshots_table = \<lparr>ta_columns =
     [col_req ''id'' TInteger, col_req ''snapshot_time'' TDateTime, col_req ''snapshot_type'' (TString 32),
      col_req ''total_assets'' TFloat, col_req ''cash'' TFloat, col_req ''stock_value'' TFloat,
      col_default ''margin_used'' TFloat ''0'', col_default ''open_positions'' TInteger ''0'', col_default ''created_at'' TDateTime ''now''],
     ta_key = [''id''], ta_unique = [],
     ta_foreign = [], ta_indexes = []\<rparr>"

definition cash_flows_table :: table where
  "cash_flows_table = \<lparr>ta_columns =
     [col_req ''id'' TInteger, col_req ''flow_time'' TDateTime, col_req ''amount'' TFloat, col_req ''total_before'' TFloat,
      col_req ''total_after'' TFloat, col_default ''detected_by'' (TString 16) ''auto'', col_default ''created_at'' TDateTime ''now''],
     ta_key = [''id''], ta_unique = [],
     ta_foreign = [], ta_indexes = []\<rparr>"

definition upgrade_0002 :: "ensure_op list" where
  "upgrade_0002 =
     [EnsureTable ''symbols'' symbols_table, EnsureTable ''candles'' candles_table,
      EnsureIndex ''ix_candles_ticker'' ''candles'' [''ticker''],
      EnsureIndex ''ix_candles_timeframe'' ''candles'' [''timeframe''],
      EnsureIndex ''ix_candles_candle_time'' ''candles'' [''candle_time''], EnsureTable ''signals'' signals_table,
      EnsureIndex ''ix_signals_ticker'' ''signals'' [''ticker''],
      EnsureIndex ''ix_signals_strategy_id'' ''signals'' [''strategy_id''],
      EnsureTable ''positions'' positions_table, EnsureIndex ''ix_positions_ticker'' ''positions'' [''ticker''],
      EnsureIndex ''ix_positions_strategy_id'' ''positions'' [''strategy_id''], EnsureTable ''orders'' orders_table,
      EnsureIndex ''ix_orders_position_id'' ''orders'' [''position_id''],
      EnsureIndex ''ix_orders_external_order_id'' ''orders'' [''external_order_id''],
      EnsureIndex ''ix_orders_ticker'' ''orders'' [''ticker''],
      EnsureIndex ''ix_orders_strategy_id'' ''orders'' [''strategy_id''],
      EnsureTable ''account_snapshots'' account_snapshots_table,
      EnsureIndex ''ix_account_snapshots_snapshot_time'' ''account_snapshots'' [''snapshot_time''],
      EnsureIndex ''ix_account_snapshots_snapshot_type'' ''account_snapshots'' [''snapshot_type''],
      EnsureTable ''cash_flows'' cash_flows_table,
      EnsureIndex ''ix_cash_flows_flow_time'' ''cash_flows'' [''flow_time'']]"

definition downgrade_0002 :: "drop_op list" where
  "downgrade_0002 =
     [DropIndex ''ix_cash_flows_flow_time'' ''cash_flows'', DropTable ''cash_flows'',
      DropIndex ''ix_account_snapshots_snapshot_type'' ''account_snapshots'',
      DropIndex ''ix_account_snapshots_snapshot_time'' ''account_snapshots'', DropTable ''account_snapshots'',
      DropIndex ''ix_orders_strategy_id'' ''orders'', DropIndex ''ix_orders_ticker'' ''orders'',
      DropIndex ''ix_orders_external_order_id'' ''orders'', DropIndex ''ix_orders_position_id'' ''orders'',
      DropTable ''orders'', DropIndex ''ix_positions_strategy_id'' ''positions'',
      DropIndex ''ix_positions_ticker'' ''positions'', DropTable ''positions'',
      DropIndex ''ix_signals_strategy_id'' ''signals'', DropIndex ''ix_signals_ticker'' ''signals'',
      DropTable ''signals'', DropIndex ''ix_candles_candle_time'' ''candles'',
      DropIndex ''ix_candles_timeframe'' ''candles'', DropIndex ''ix_candles_ticker'' ''candles'',
      DropTable ''candles'', DropTable ''symbols'']"

subsection \<open>0003_add_paper_tables.py\<close>

definition paper_portfolio_table :: table where
  "paper_portfolio_table = \<lparr>ta_columns =
     [col_req ''id'' TInteger, col_req ''ticker'' (TString 16), col_req ''quantity'' TFloat, col_req ''avg_price'' TFloat,
      col_default ''updated_at'' TDateTime ''now''],
     ta_key = [''id''], ta_unique = [],
     ta_foreign = [], ta_indexes = []\<rparr>"

definition paper_orders_table :: table where
  "paper_orders_table = \<lparr>ta_columns =
     [col_req ''id'' TInteger, col_req ''ticker'' (TString 16), col_req ''side'' (TString 8), col_req ''order_type'' (TString 16),
      col_req ''price'' TFloat, col_req ''quantity'' TFloat, col_default ''status'' (TString 16) ''filled'',
      col_default ''created_at'' TDateTime ''now''],
     ta_key = [''id''], ta_unique = [],
     ta_foreign = [], ta_indexes = []\<rparr>"

definition paper_trades_table :: table where
  "paper_trades_table = \<lparr>ta_columns =
     [col_req ''id'' TInteger, col_req ''ticker'' (TString 16), col_req ''side'' (TString 8), col_req ''entry_price'' TFloat,
      col_opt ''exit_price'' TFloat, col_req ''quantity'' TFloat, col_opt ''pnl'' TFloat, col_default ''created_at'' TDateTime ''now''],
     ta_key = [''id''], ta_unique = [],
     ta_foreign = [], ta_indexes = []\<rparr>"

definition upgrade_0003 :: "ensure_op list" where
  "upgrade_0003 =
     [EnsureTable ''paper_portfolio'' paper_portfolio_table,
      EnsureIndex ''ix_paper_portfolio_ticker'' ''paper_portfolio'' [''ticker''],
      EnsureTable ''paper_orders'' paper_orders_table,
      EnsureIndex ''ix_paper_orders_ticker'' ''paper_orders'' [''ticker''],
      EnsureTable ''paper_trades'' paper_trades_table,
      EnsureIndex ''ix_paper_trades_ticker'' ''paper_trades'' [''ticker'']]"

definition downgrade_0003 :: "drop_op list" where
  "downgrade_0003 =
     [DropIndex ''ix_paper_trades_ticker'' ''paper_trades'', DropTable ''paper_trades'',
      DropIndex ''ix_paper_orders_ticker'' ''paper_orders'', DropTable ''paper_orders'',
      DropIndex ''ix_paper_portfolio_ticker'' ''paper_portfolio'', DropTable ''paper_portfolio'']"

subsection \<open>0004_add_rebuild_core_tables.py\<close>

definition rebuild_config_table :: table where
  "rebuild_config_table = \<lparr>ta_columns =
     [col_req ''key'' (TString 128), col_req ''value'' TText, col_default ''updated_at'' TDateTime ''now''],
     ta_key = [''key''], ta_unique = [],
     ta_foreign = [], ta_indexes = []\<rparr>"

definition rebuild_config_history_table :: table where
  "rebuild_config_history_table = \<lparr>ta_columns =
     [col_req ''id'' TInteger, col_req ''key'' (TString 128), col_opt ''old_value'' TText, col_req ''new_value'' TText,
      col_req ''changed_by'' (TString 64), col_default ''changed_at'' TDateTime ''now''],
     ta_key = [''id''], ta_unique = [],
     ta_foreign = [], ta_indexes = []\<rparr>"

definition rebuild_candles_table :: table where
  "rebuild_candles_table = \<lparr>ta_columns =
     [col_req ''id'' TInteger, col_req ''ticker'' (TString 16), col_req ''timeframe'' (TString 8), col_req ''candle_time'' TDateTime,
      col_req ''open'' TFloat, col_req ''high'' TFloat, col_req ''low'' TFloat, col_req ''close'' TFloat, col_req ''volume'' TFloat],
     ta_key = [''id''], ta_unique = [(''uq_rebuild_candle_unique'', [''ticker'', ''timeframe'', ''candle_time''])],
     ta_foreign = [], ta_indexes = []\<rparr>"

definition rebuild_signals_table :: table where
  "rebuild_signals_table = \<lparr>ta_columns =
     [col_req ''id'' TInteger, col_req ''ticker'' (TString 16), col_req ''strategy_id'' (TString 32),
      col_req ''timeframe'' (TString 8), col_req ''side'' (TString 8), col_req ''signal_price'' TFloat,
      col_req ''signal_time'' TDateTime, col_default ''status'' (TString 16) ''queued'', col_default ''created_at'' TDateTime ''now''],
     ta_key = [''id''], ta_unique = [],
     ta_foreign = [], ta_indexes = []\<rparr>"

definition rebuild_orders_table :: table where
  "rebuild_orders_table = \<lparr>ta_columns =
     [col_req ''id'' TInteger, col_opt ''signal_id'' TInteger, col_opt ''external_order_id'' (TString 64),
      col_req ''ticker'' (TString 16), col_req ''side'' (TString 8), col_req ''order_type'' (TString 16), col_opt ''price'' TFloat,
      col_req ''quantity'' TFloat, col_default ''filled_quantity'' TFloat ''0'', col_default ''status'' (TString 16) ''pending'',
      col_opt ''reason'' (TString 64), col_default ''created_at'' TDateTime ''now'', col_default ''updated_at'' TDateTime ''now''],
     ta_key = [''id''], ta_unique = [],
     ta_foreign = [(''signal_id'', ''rebuild_signals'', ''id'')], ta_indexes = []\<rparr>"

definition rebuild_positions_table :: table where
  "rebuild_positions_table = \<lparr>ta_columns =
     [col_req ''id'' TInteger, col_opt ''order_id'' TInteger, col_req ''ticker'' (TString 16), col_req ''strategy_id'' (TString 32),
      col_default ''state'' (TString 16) ''OPEN'', col_req ''entry_price'' TFloat, col_req ''stop_price'' TFloat,
      col_req ''take_profit_price'' TFloat, col_opt ''trailing_stop_price'' TFloat, col_opt ''highest_price'' TFloat,
      col_req ''quantity'' TFloat, col_req ''remaining_quantity'' TFloat, col_req ''entry_time'' TDateTime,
      col_opt ''closed_time'' TDateTime, col_opt ''close_reason'' (TString 64), col_default ''created_at'' TDateTime ''now'',
      col_default ''updated_at'' TDateTime ''now''],
     ta_key = [''id''], ta_unique = [],
     ta_foreign = [(''order_id'', ''rebuild_orders'', ''id'')], ta_indexes = []\<rparr>"

definition upgrade_0004 :: "ensure_op list" where
  "upgrade_0004 =
     [EnsureTable ''rebuild_config'' rebuild_config_table,
      EnsureTable ''rebuild_config_history'' rebuild_config_history_table,
      EnsureIndex ''ix_rebuild_config_history_key'' ''rebuild_config_history'' [''key''],
      EnsureTable ''rebuild_candles'' rebuild_candles_table,
      EnsureIndex ''ix_rebuild_candles_ticker'' ''rebuild_candles'' [''ticker''],
      EnsureIndex ''ix_rebuild_candles_timeframe'' ''rebuild_candles'' [''timeframe''],
      EnsureIndex ''ix_rebuild_candles_candle_time'' ''rebuild_candles'' [''candle_time''],
      EnsureTable ''rebuild_signals'' rebuild_signals_table,
      EnsureIndex ''ix_rebuild_signals_ticker'' ''rebuild_signals'' [''ticker''],
      EnsureIndex ''ix_rebuild_signals_strategy_id'' ''rebuild_signals'' [''strategy_id''],
      EnsureTable ''rebuild_orders'' rebuild_orders_table,
      EnsureIndex ''ix_rebuild_orders_signal_id'' ''rebuild_orders'' [''signal_id''],
      EnsureIndex ''ix_rebuild_orders_external_order_id'' ''rebuild_orders'' [''external_order_id''],
      EnsureIndex ''ix_rebuild_orders_ticker'' ''rebuild_orders'' [''ticker''],
      EnsureTable ''rebuild_positions'' rebuild_positions_table,
      EnsureIndex ''ix_rebuild_positions_order_id'' ''rebuild_positions'' [''order_id''],
      EnsureIndex ''ix_rebuild_positions_ticker'' ''rebuild_positions'' [''ticker''],
      EnsureIndex ''ix_rebuild_positions_strategy_id'' ''rebuild_positions'' [''strategy_id'']]"

definition downgrade_0004 :: "drop_op list" where
  "downgrade_0004 =
     [DropIndex ''ix_rebuild_positions_strategy_id'' ''rebuild_positions'',
      DropIndex ''ix_rebuild_positions_ticker'' ''rebuild_positions'',
      DropIndex ''ix_rebuild_positions_order_id'' ''rebuild_positions'', DropTable ''rebuild_positions'',
      DropIndex ''ix_rebuild_orders_ticker'' ''rebuild_orders'',
      DropIndex ''ix_rebuild_orders_external_order_id'' ''rebuild_orders'',
      DropIndex ''ix_rebuild_orders_signal_id'' ''rebuild_orders'', DropTable ''rebuild_orders'',
      DropIndex ''ix_rebuild_signals_strategy_id'' ''rebuild_signals'',
      DropIndex ''ix_rebuild_signals_ticker'' ''rebuild_signals'', DropTable ''rebuild_signals'',
      DropIndex ''ix_rebuild_candles_candle_time'' ''rebuild_candles'',
      DropIndex ''ix_rebuild_candles_timeframe'' ''rebuild_candles'',
      DropIndex ''ix_rebuild_candles_ticker'' ''rebuild_candles'', DropTable ''rebuild_candles'',
      DropIndex ''ix_rebuild_config_history_key'' ''rebuild_config_history'', DropTable ''rebuild_config_history'',
      DropTable ''rebuild_config'']"

subsection \<open>0005_add_rebuild_performance_tables.py\<close>

definition rebuild_account_snapshots_table :: table where
  "rebuild_account_snapshots_table = \<lparr>ta_columns =
     [col_req ''id'' TInteger, col_req ''snapshot_time'' TDateTime, col_req ''snapshot_type'' (TString 32),
      col_req ''total_assets'' TFloat, col_req ''cash'' TFloat, col_req ''stock_value'' TFloat,
      col_default ''margin_used'' TFloat ''0'', col_default ''open_positions'' TInteger ''0'', col_default ''created_at'' TDateTime ''now''],
     ta_key = [''id''], ta_unique = [],
     ta_foreign = [], ta_indexes = []\<rparr>"

definition rebuild_cash_flows_table :: table where
  "rebuild_cash_flows_table = \<lparr>ta_columns =
     [col_req ''id'' TInteger, col_req ''flow_time'' TDateTime, col_req ''amount'' TFloat, col_req ''total_before'' TFloat,
      col_req ''total_after'' TFloat, col_default ''detected_by'' (TString 16) ''auto'', col_default ''created_at'' TDateTime ''now''],
     ta_key = [''id''], ta_unique = [],
     ta_foreign = [], ta_indexes = []\<rparr>"

definition upgrade_0005 :: "ensure_op list" where
  "upgrade_0005 =
     [EnsureTable ''rebuild_account_snapshots'' rebuild_account_snapshots_table,
      EnsureIndex ''ix_rebuild_account_snapshots_snapshot_time'' ''rebuild_account_snapshots'' [''snapshot_time''],
      EnsureIndex ''ix_rebuild_account_snapshots_snapshot_type'' ''rebuild_account_snapshots'' [''snapshot_type''],
      EnsureTable ''rebuild_cash_flows'' rebuild_cash_flows_table,
      EnsureIndex ''ix_rebuild_cash_flows_flow_time'' ''rebuild_cash_flows'' [''flow_time'']]"

definition downgrade_0005 :: "drop_op list" where
  "downgrade_0005 =
     [DropIndex ''ix_rebuild_cash_flows_flow_time'' ''rebuild_cash_flows'', DropTable ''rebuild_cash_flows'',
      DropIndex ''ix_rebuild_account_snapshots_snapshot_type'' ''rebuild_account_snapshots'',
      DropIndex ''ix_rebuild_account_snapshots_snapshot_time'' ''rebuild_account_snapshots'',
      DropTable ''rebuild_account_snapshots'']"

subsection \<open>0006_add_strategy_id_to_paper_trades.py\<close>

definition upgrade_0006 :: "ensure_op list" where
  "upgrade_0006 =
     [EnsureColumn ''paper_trades'' (col_default ''strategy_id'' (TString 32) ''default''),
      EnsureIndex ''ix_paper_trades_strategy_id'' ''paper_trades'' [''strategy_id'']]"

definition downgrade_0006 :: "drop_op list" where
  "downgrade_0006 =
     [DropIndex ''ix_paper_trades_strategy_id'' ''paper_trades'', DropColumn ''paper_trades'' ''strategy_id'']"

subsection \<open>0007_add_auth_audit_logs.py\<close>

definition rebuild_auth_audit_logs_table :: table where
  "rebuild_auth_audit_logs_table = \<lparr>ta_columns =
     [col_req ''id'' TInteger, col_req ''event_type'' (TString 64), col_req ''ip'' (TString 64), col_default ''ok'' TBoolean ''false'',
      col_opt ''detail'' TText, col_default ''created_at'' TDateTime ''now''],
     ta_key = [''id''], ta_unique = [],
     ta_foreign = [], ta_indexes = []\<rparr>"

definition upgrade_0007 :: "ensure_op list" where
  "upgrade_0007 =
     [EnsureTable ''rebuild_auth_audit_logs'' rebuild_auth_audit_logs_table,
      EnsureIndex ''ix_rebuild_auth_audit_logs_event_type'' ''rebuild_auth_audit_logs'' [''event_type''],
      EnsureIndex ''ix_rebuild_auth_audit_logs_ip'' ''rebuild_auth_audit_logs'' [''ip''],
      EnsureIndex ''ix_rebuild_auth_audit_logs_created_at'' ''rebuild_auth_audit_logs'' [''created_at'']]"

definition downgrade_0007 :: "drop_op list" where
  "downgrade_0007 =
     [DropIndex ''ix_rebuild_auth_audit_logs_created_at'' ''rebuild_auth_audit_logs'',
      DropIndex ''ix_rebuild_auth_audit_logs_ip'' ''rebuild_auth_audit_logs'',
      DropIndex ''ix_rebuild_auth_audit_logs_event_type'' ''rebuild_auth_audit_logs'',
      DropTable ''rebuild_auth_audit_logs'']"

definition migrations :: "migration list" where
  "migrations =
     [\<lparr>mg_revision = ''0001_init_config_tables'', mg_down_revision = None,
       mg_upgrade = upgrade_0001, mg_downgrade = downgrade_0001\<rparr>,
      \<lparr>mg_revision = ''0002_add_core_domain_tables'', mg_down_revision = Some ''0001_init_config_tables'',
       mg_upgrade = upgrade_0002, mg_downgrade = downgrade_0002\<rparr>,
      \<lparr>mg_revision = ''0003_add_paper_tables'', mg_down_revision = Some ''0002_add_core_domain_tables'',
       mg_upgrade = upgrade_0003, mg_downgrade = downgrade_0003\<rparr>,
      \<lparr>mg_revision = ''0004_add_rebuild_core_tables'', mg_down_revision = Some ''0003_add_paper_tables'',
       mg_upgrade = upgrade_0004, mg_downgrade = downgrade_0004\<rparr>,
      \<lparr>mg_revision = ''0005_rebuild_perf'', mg_down_revision = Some ''0004_add_rebuild_core_tables'',
       mg_upgrade = upgrade_0005, mg_downgrade = downgrade_0005\<rparr>,
      \<lparr>mg_revision = ''0006_paper_strategy_id'', mg_down_revision = Some ''0005_rebuild_perf'',
       mg_upgrade = upgrade_0006, mg_downgrade = downgrade_0006\<rparr>,
      \<lparr>mg_revision = ''0007_add_auth_audit_logs'', mg_down_revision = Some ''0006_paper_strategy_id'',
       mg_upgrade = upgrade_0007, mg_downgrade = downgrade_0007\<rparr>]"

text \<open>\<open>alembic upgrade head\<close> of a database without a recorded revision, and \<open>alembic downgrade base\<close> of one at the head.\<close>

definition upgrade_head :: "schema \<Rightarrow> schema py" where
  "upgrade_head = ensure_all (concat (map mg_upgrade migrations))"

definition downgrade_base :: "schema \<Rightarrow> schema py" where
  "downgrade_base = drop_all (concat (map mg_downgrade (rev migrations)))"

section \<open>The declared tables\<close>

definition model_Config :: model where
  "model_Config = (''rebuild_config'', \<lparr>ta_columns =
     [col_req ''key'' (TString 128), col_req ''value'' TText, col_default ''updated_at'' TDateTime ''now''],
     ta_key = [''key''], ta_unique = [],
     ta_foreign = [],
     ta_indexes = []\<rparr>)"

definition model_ConfigHistory :: model where
  "model_ConfigHistory = (''rebuild_config_history'', \<lparr>ta_columns =
     [col_req ''id'' TInteger, col_req ''key'' (TString 128), col_opt ''old_value'' TText, col_req ''new_value'' TText,
      col_req ''changed_by'' (TString 64), col_default ''changed_at'' TDateTime ''now''],
     ta_key = [''id''], ta_unique = [],
     ta_foreign = [],
     ta_indexes = [(''ix_rebuild_config_history_key'', [''key''])]\<rparr>)"

definition model_Candle :: model where
  "model_Candle = (''rebuild_candles'', \<lparr>ta_columns =
     [col_req ''id'' TInteger, col_req ''ticker'' (TString 16), col_req ''timeframe'' (TString 8), col_req ''candle_time'' TDateTime,
      col_req ''open'' TFloat, col_req ''high'' TFloat, col_req ''low'' TFloat, col_req ''close'' TFloat, col_req ''volume'' TFloat],
     ta_key = [''id''], ta_unique = [(''uq_rebuild_candle_unique'', [''ticker'', ''timeframe'', ''candle_time''])],
     ta_foreign = [],
     ta_indexes = [(''ix_rebuild_candles_ticker'', [''ticker'']),
                   (''ix_rebuild_candles_timeframe'', [''timeframe'']),
                   (''ix_rebuild_candles_candle_time'', [''candle_time''])]\<rparr>)"

definition model_Signal :: model where
  "model_Signal = (''rebuild_signals'', \<lparr>ta_columns =
     [col_req ''id'' TInteger, col_req ''ticker'' (TString 16), col_req ''strategy_id'' (TString 32),
      col_req ''timeframe'' (TString 8), col_req ''side'' (TString 8), col_req ''signal_price'' TFloat,
      col_req ''signal_time'' TDateTime, col_req ''status'' (TString 16), col_default ''created_at'' TDateTime ''now''],
     ta_key = [''id''], ta_unique = [],
     ta_foreign = [],
     ta_indexes = [(''ix_rebuild_signals_ticker'', [''ticker'']),
                   (''ix_rebuild_signals_strategy_id'', [''strategy_id''])]\<rparr>)"

definition model_Order :: model where
  "model_Order = (''rebuild_orders'', \<lparr>ta_columns =
     [col_req ''id'' TInteger, col_opt ''signal_id'' TInteger, col_opt ''external_order_id'' (TString 64),
      col_req ''ticker'' (TString 16), col_req ''side'' (TString 8), col_req ''order_type'' (TString 16), col_opt ''price'' TFloat,
      col_req ''quantity'' TFloat, col_req ''filled_quantity'' TFloat, col_req ''status'' (TString 16),
      col_opt ''reason'' (TString 64), col_default ''created_at'' TDateTime ''now'', col_default ''updated_at'' TDateTime ''now''],
     ta_key = [''id''], ta_unique = [],
     ta_foreign = [(''signal_id'', ''rebuild_signals'', ''id'')],
     ta_indexes = [(''ix_rebuild_orders_signal_id'', [''signal_id'']),
                   (''ix_rebuild_orders_external_order_id'', [''external_order_id'']),
                   (''ix_rebuild_orders_ticker'', [''ticker''])]\<rparr>)"

definition model_Position :: model where
  "model_Position = (''rebuild_positions'', \<lparr>ta_columns =
     [col_req ''id'' TInteger, col_opt ''order_id'' TInteger, col_req ''ticker'' (TString 16), col_req ''strategy_id'' (TString 32),
      col_req ''state'' (TString 16), col_req ''entry_price'' TFloat, col_req ''stop_price'' TFloat,
      col_req ''take_profit_price'' TFloat, col_opt ''trailing_stop_price'' TFloat, col_opt ''highest_price'' TFloat,
      col_req ''quantity'' TFloat, col_req ''remaining_quantity'' TFloat, col_req ''entry_time'' TDateTime,
      col_opt ''closed_time'' TDateTime, col_opt ''close_reason'' (TString 64), col_default ''created_at'' TDateTime ''now'',
      col_default ''updated_at'' TDateTime ''now''],
     ta_key = [''id''], ta_unique = [],
     ta_foreign = [(''order_id'', ''rebuild_orders'', ''id'')],
     ta_indexes = [(''ix_rebuild_positions_order_id'', [''order_id'']),
                   (''ix_rebuild_positions_ticker'', [''ticker'']),
                   (''ix_rebuild_positions_strategy_id'', [''strategy_id''])]\<rparr>)"

definition model_Symbol :: model where
  "model_Symbol = (''symbols'', \<lparr>ta_columns =
     [col_req ''ticker'' (TString 16), col_req ''name'' (TString 128), col_req ''market'' (TString 16),
      col_req ''in_universe'' TBoolean, col_req ''is_active'' TBoolean, col_req ''is_blocked'' TBoolean,
      col_req ''status'' (TString 32), col_default ''created_at'' TDateTime ''now'', col_default ''updated_at'' TDateTime ''now''],
     ta_key = [''ticker''], ta_unique = [],
     ta_foreign = [],
     ta_indexes = []\<rparr>)"

definition model_AccountSnapshot :: model where
  "model_AccountSnapshot = (''rebuild_account_snapshots'', \<lparr>ta_columns =
     [col_req ''id'' TInteger, col_req ''snapshot_time'' TDateTime, col_req ''snapshot_type'' (TString 32),
      col_req ''total_assets'' TFloat, col_req ''cash'' TFloat, col_req ''stock_value'' TFloat, col_req ''margin_used'' TFloat,
      col_req ''open_positions'' TInteger, col_default ''created_at'' TDateTime ''now''],
     ta_key = [''id''], ta_unique = [],
     ta_foreign = [],
     ta_indexes = [(''ix_rebuild_account_snapshots_snapshot_time'', [''snapshot_time'']),
                   (''ix_rebuild_account_snapshots_snapshot_type'', [''snapshot_type''])]\<rparr>)"

definition model_CashFlow :: model where
  "model_CashFlow = (''rebuild_cash_flows'', \<lparr>ta_columns =
     [col_req ''id'' TInteger, col_req ''flow_time'' TDateTime, col_req ''amount'' TFloat, col_req ''total_before'' TFloat,
      col_req ''total_after'' TFloat, col_req ''detected_by'' (TString 16), col_default ''created_at'' TDateTime ''now''],
     ta_key = [''id''], ta_unique = [],
     ta_foreign = [],
     ta_indexes = [(''ix_rebuild_cash_flows_flow_time'', [''flow_time''])]\<rparr>)"

definition model_PaperPortfolio :: model where
  "model_PaperPortfolio = (''paper_portfolio'', \<lparr>ta_columns =
     [col_req ''id'' TInteger, col_req ''ticker'' (TString 16), col_req ''quantity'' TFloat, col_req ''avg_price'' TFloat,
      col_default ''updated_at'' TDateTime ''now''],
     ta_key = [''id''], ta_unique = [],
     ta_foreign = [],
     ta_indexes = [(''ix_paper_portfolio_ticker'', [''ticker''])]\<rparr>)"

definition model_PaperOrder :: model where
  "model_PaperOrder = (''paper_orders'', \<lparr>ta_columns =
     [col_req ''id'' TInteger, col_req ''ticker'' (TString 16), col_req ''side'' (TString 8), col_req ''order_type'' (TString 16),
      col_req ''price'' TFloat, col_req ''quantity'' TFloat, col_req ''status'' (TString 16),
      col_default ''created_at'' TDateTime ''now''],
     ta_key = [''id''], ta_unique = [],
     ta_foreign = [],
     ta_indexes = [(''ix_paper_orders_ticker'', [''ticker''])]\<rparr>)"

definition model_PaperTrade :: model where
  "model_PaperTrade = (''paper_trades'', \<lparr>ta_columns =
     [col_req ''id'' TInteger, col_req ''ticker'' (TString 16), col_req ''strategy_id'' (TString 32), col_req ''side'' (TString 8),
      col_req ''entry_price'' TFloat, col_opt ''exit_price'' TFloat, col_req ''quantity'' TFloat, col_opt ''pnl'' TFloat,
      col_default ''created_at'' TDateTime ''now''],
     ta_key = [''id''], ta_unique = [],
     ta_foreign = [],
     ta_indexes = [(''ix_paper_trades_ticker'', [''ticker'']), (''ix_paper_trades_strategy_id'', [''strategy_id''])]\<rparr>)"

definition model_AuthAuditLog :: model where
  "model_AuthAuditLog = (''rebuild_auth_audit_logs'', \<lparr>ta_columns =
     [col_req ''id'' TInteger, col_req ''event_type'' (TString 64), col_req ''ip'' (TString 64), col_req ''ok'' TBoolean,
      col_opt ''detail'' TText, col_default ''created_at'' TDateTime ''now''],
     ta_key = [''id''], ta_unique = [],
     ta_foreign = [],
     ta_indexes = [(''ix_rebuild_auth_audit_logs_event_type'', [''event_type'']),
                   (''ix_rebuild_auth_audit_logs_ip'', [''ip'']),
                   (''ix_rebuild_auth_audit_logs_created_at'', [''created_at''])]\<rparr>)"

definition models :: "model list" where
  "models =
     [model_Config, model_ConfigHistory, model_Candle, model_Signal, model_Order, model_Position, model_Symbol,
      model_AccountSnapshot, model_CashFlow, model_PaperPortfolio, model_PaperOrder, model_PaperTrade,
      model_AuthAuditLog]"

subsection \<open>The first version\<close>

definition v1_model_Config :: model where
  "v1_model_Config = (''config'', \<lparr>ta_columns =
     [col_req ''key'' (TString 128), col_req ''value'' TText, col_default ''updated_at'' TDateTime ''now''],
     ta_key = [''key''], ta_unique = [],
     ta_foreign = [],
     ta_indexes = []\<rparr>)"

definition v1_model_ConfigHistory :: model where
  "v1_model_ConfigHistory = (''config_history'', \<lparr>ta_columns =
     [col_req ''id'' TInteger, col_req ''key'' (TString 128), col_opt ''old_value'' TText, col_req ''new_value'' TText,
      col_req ''changed_by'' (TString 64), col_default ''changed_at'' TDateTime ''now''],
     ta_key = [''id''], ta_unique = [],
     ta_foreign = [],
     ta_indexes = [(''ix_config_history_key'', [''key''])]\<rparr>)"

definition v1_model_Candle :: model where
  "v1_model_Candle = (''candles'', \<lparr>ta_columns =
     [col_req ''id'' TInteger, col_req ''ticker'' (TString 16), col_req ''timeframe'' (TString 8), col_req ''candle_time'' TDateTime,
      col_req ''open'' TFloat, col_req ''high'' TFloat, col_req ''low'' TFloat, col_req ''close'' TFloat, col_req ''volume'' TFloat],
     ta_key = [''id''], ta_unique = [(''uq_candle_unique'', [''ticker'', ''timeframe'', ''candle_time''])],
     ta_foreign = [],
     ta_indexes = [(''ix_candles_ticker'', [''ticker'']), (''ix_candles_timeframe'', [''timeframe'']),
                   (''ix_candles_candle_time'', [''candle_time''])]\<rparr>)"

definition v1_model_Signal :: model where
  "v1_model_Signal = (''signals'', \<lparr>ta_columns =
     [col_req ''id'' TInteger, col_req ''ticker'' (TString 16), col_req ''strategy_id'' (TString 32),
      col_req ''timeframe'' (TString 8), col_req ''signal_type'' (TString 16), col_req ''side'' (TString 8),
      col_req ''signal_price'' TFloat, col_req ''signal_time'' TDateTime, col_req ''status'' (TString 16),
      col_default ''created_at'' TDateTime ''now''],
     ta_key = [''id''], ta_unique = [],
     ta_foreign = [],
     ta_indexes = [(''ix_signals_ticker'', [''ticker'']), (''ix_signals_strategy_id'', [''strategy_id''])]\<rparr>)"

definition v1_model_Order :: model where
  "v1_model_Order = (''orders'', \<lparr>ta_columns =
     [col_req ''id'' TInteger, col_opt ''position_id'' TInteger, col_opt ''external_order_id'' (TString 64),
      col_req ''ticker'' (TString 16), col_req ''strategy_id'' (TString 32), col_req ''side'' (TString 8),
      col_req ''order_type'' (TString 16), col_opt ''price'' TFloat, col_req ''quantity'' TFloat, col_req ''filled_quantity'' TFloat,
      col_req ''status'' (TString 16), col_opt ''reason'' (TString 64), col_default ''created_at'' TDateTime ''now'',
      col_default ''updated_at'' TDateTime ''now''],
     ta_key = [''id''], ta_unique = [],
     ta_foreign = [],
     ta_indexes = [(''ix_orders_position_id'', [''position_id'']),
                   (''ix_orders_external_order_id'', [''external_order_id'']), (''ix_orders_ticker'', [''ticker'']),
                   (''ix_orders_strategy_id'', [''strategy_id''])]\<rparr>)"

definition v1_model_Position :: model where
  "v1_model_Position = (''positions'', \<lparr>ta_columns =
     [col_req ''id'' TInteger, col_req ''ticker'' (TString 16), col_req ''strategy_id'' (TString 32), col_req ''state'' (TString 16),
      col_req ''entry_price'' TFloat, col_req ''stop_price'' TFloat, col_req ''take_profit_price'' TFloat,
      col_opt ''trailing_stop_price'' TFloat, col_opt ''highest_price'' TFloat, col_req ''quantity'' TFloat,
      col_req ''remaining_quantity'' TFloat, col_req ''entry_time'' TDateTime, col_opt ''closed_time'' TDateTime,
      col_opt ''close_reason'' (TString 64), col_default ''created_at'' TDateTime ''now'', col_default ''updated_at'' TDateTime ''now''],
     ta_key = [''id''], ta_unique = [],
     ta_foreign = [],
     ta_indexes = [(''ix_positions_ticker'', [''ticker'']), (''ix_positions_strategy_id'', [''strategy_id''])]\<rparr>)"

definition v1_model_Symbol :: model where
  "v1_model_Symbol = (''symbols'', \<lparr>ta_columns =
     [col_req ''ticker'' (TString 16), col_req ''name'' (TString 128), col_req ''market'' (TString 16),
      col_req ''in_universe'' TBoolean, col_req ''is_active'' TBoolean, col_req ''is_blocked'' TBoolean,
      col_req ''status'' (TString 32), col_default ''created_at'' TDateTime ''now'', col_default ''updated_at'' TDateTime ''now''],
     ta_key = [''ticker''], ta_unique = [],
     ta_foreign = [],
     ta_indexes = []\<rparr>)"

definition v1_model_AccountSnapshot :: model where
  "v1_model_AccountSnapshot = (''account_snapshots'', \<lparr>ta_columns =
     [col_req ''id'' TInteger, col_req ''snapshot_time'' TDateTime, col_req ''snapshot_type'' (TString 32),
      col_req ''total_assets'' TFloat, col_req ''cash'' TFloat, col_req ''stock_value'' TFloat, col_req ''margin_used'' TFloat,
      col_req ''open_positions'' TInteger, col_default ''created_at'' TDateTime ''now''],
     ta_key = [''id''], ta_unique = [],
     ta_foreign = [],
     ta_indexes = [(''ix_account_snapshots_snapshot_time'', [''snapshot_time'']),
                   (''ix_account_snapshots_snapshot_type'', [''snapshot_type''])]\<rparr>)"

definition v1_model_CashFlow :: model where
  "v1_model_CashFlow = (''cash_flows'', \<lparr>ta_columns =
     [col_req ''id'' TInteger, col_req ''flow_time'' TDateTime, col_req ''amount'' TFloat, col_req ''total_before'' TFloat,
      col_req ''total_after'' TFloat, col_req ''detected_by'' (TString 16), col_default ''created_at'' TDateTime ''now''],
     ta_key = [''id''], ta_unique = [],
     ta_foreign = [],
     ta_indexes = [(''ix_cash_flows_flow_time'', [''flow_time''])]\<rparr>)"

definition v1_model_PaperPortfolio :: model where
  "v1_model_PaperPortfolio = (''paper_portfolio'', \<lparr>ta_columns =
     [col_req ''id'' TInteger, col_req ''ticker'' (TString 16), col_req ''quantity'' TFloat, col_req ''avg_price'' TFloat,
      col_default ''updated_at'' TDateTime ''now''],
     ta_key = [''id''], ta_unique = [],
     ta_foreign = [],
     ta_indexes = [(''ix_paper_portfolio_ticker'', [''ticker''])]\<rparr>)"

definition v1_model_PaperOrder :: model where
  "v1_model_PaperOrder = (''paper_orders'', \<lparr>ta_columns =
     [col_req ''id'' TInteger, col_req ''ticker'' (TString 16), col_req ''side'' (TString 8), col_req ''order_type'' (TString 16),
      col_req ''price'' TFloat, col_req ''quantity'' TFloat, col_req ''status'' (TString 16),
      col_default ''created_at'' TDateTime ''now''],
     ta_key = [''id''], ta_unique = [],
     ta_foreign = [],
     ta_indexes = [(''ix_paper_orders_ticker'', [''ticker''])]\<rparr>)"

definition v1_model_PaperTrade :: model where
  "v1_model_PaperTrade = (''paper_trades'', \<lparr>ta_columns =
     [col_req ''id'' TInteger, col_req ''ticker'' (TString 16), col_req ''side'' (TString 8), col_req ''entry_price'' TFloat,
      col_opt ''exit_price'' TFloat, col_req ''quantity'' TFloat, col_opt ''pnl'' TFloat, col_default ''created_at'' TDateTime ''now''],
     ta_key = [''id''], ta_unique = [],
     ta_foreign = [],
     ta_indexes = [(''ix_paper_trades_ticker'', [''ticker''])]\<rparr>)"

definition v1_models :: "model list" where
  "v1_models =
     [v1_model_Config, v1_model_ConfigHistory, v1_model_Candle, v1_model_Signal, v1_model_Order, v1_model_Position,
      v1_model_Symbol, v1_model_AccountSnapshot, v1_model_CashFlow, v1_model_PaperPortfolio, v1_model_PaperOrder,
      v1_model_PaperTrade]"

text \<open>\<open>Base.metadata.create_all\<close>: the declared tables that are missing, in the order of their foreign keys.\<close>

fun create_all :: "model list \<Rightarrow> schema \<Rightarrow> schema py" where
  "create_all [] s = Inr s"
| "create_all ((n, tb) # ms) s = (if has_table n s then create_all ms s else py_bind (create_table n tb s) (create_all ms))"

section \<open>The scripts and the models\<close>

text \<open>
  A table serves a model: it has every column of the model with its type and nullability, other columns
  only if an insert may omit them, the same keys and constraints, and the model's indexes.
\<close>

definition serves_table :: "table \<Rightarrow> table \<Rightarrow> bool" where
  "serves_table tb m \<longleftrightarrow>
     list_all (\<lambda>c. list_ex (\<lambda>x. co_name x = co_name c \<and> co_type x = co_type c \<and> co_nullable x = co_nullable c) (ta_columns tb))
       (ta_columns m) \<and>
     list_all (\<lambda>x. list_ex (\<lambda>c. co_name c = co_name x) (ta_columns m) \<or> co_nullable x \<or> co_default x \<noteq> None) (ta_columns tb) \<and>
     ta_key tb = ta_key m \<and> ta_unique tb = ta_unique m \<and> ta_foreign tb = ta_foreign m \<and>
     list_all (\<lambda>i. list_ex (\<lambda>j. j = i) (ta_indexes tb)) (ta_indexes m)"

definition serves :: "schema \<Rightarrow> model \<Rightarrow> bool" where
  "serves s m = (case map_of s (fst m) of None \<Rightarrow> False | Some tb \<Rightarrow> serves_table tb (snd m))"

definition serves_all :: "model list \<Rightarrow> schema py \<Rightarrow> bool" where
  "serves_all ms r = (case r of Inl x \<Rightarrow> False | Inr s \<Rightarrow> list_all (serves s) ms)"

lemma fresh_database_served: "serves_all (models @ v1_models) (upgrade_head [])"
  by code_simp

text \<open>\<open>create_all\<close> declares what it needs: its own tables serve the models, so the upgrade below keeps them served.\<close>

lemma created_tables_serve: "serves_all models (create_all models [])"
  by code_simp

section \<open>A second upgrade\<close>

text \<open>The step finds what it ensures.\<close>

fun ensured :: "ensure_op \<Rightarrow> schema \<Rightarrow> bool" where
  "ensured (EnsureTable n tb) s = has_table n s"
| "ensured (EnsureIndex i t cols) s = index_exists t i s"
| "ensured (EnsureColumn t c) s = column_exists t (co_name c) s"

text \<open>A schema holds all another does: every table with its columns, keys, constraints and indexes, and perhaps more.\<close>

definition extends :: "schema \<Rightarrow> schema \<Rightarrow> bool" where
  "extends s s' \<longleftrightarrow> (\<forall>n tb. map_of s n = Some tb \<longrightarrow>
     (\<exists>tb' cs is. map_of s' n = Some tb' \<and> ta_columns tb' = ta_columns tb @ cs \<and> ta_indexes tb' = ta_indexes tb @ is \<and>
        ta_key tb' = ta_key tb \<and> ta_unique tb' = ta_unique tb \<and> ta_foreign tb' = ta_foreign tb))"

lemma extends_refl [simp]: "extends s s"
  by (simp add: extends_def)

lemma extends_trans:
  assumes "extends a b" "extends b c"
  shows "extends a c"
  unfolding extends_def
proof (intro allI impI)
  fix n tb assume "map_of a n = Some tb"
  then obtain t1 c1 i1 where 1: "map_of b n = Some t1" "ta_columns t1 = ta_columns tb @ c1" "ta_indexes t1 = ta_indexes tb @ i1"
    "ta_key t1 = ta_key tb" "ta_unique t1 = ta_unique tb" "ta_foreign t1 = ta_foreign tb"
    using assms(1) unfolding extends_def by blast
  obtain t2 c2 i2 where 2: "map_of c n = Some t2" "ta_columns t2 = ta_columns t1 @ c2" "ta_indexes t2 = ta_indexes t1 @ i2"
    "ta_key t2 = ta_key t1" "ta_unique t2 = ta_unique t1" "ta_foreign t2 = ta_foreign t1"
    using assms(2) 1(1) unfolding extends_def by blast
  then show "\<exists>tb' cs is. map_of c n = Some tb' \<and> ta_columns tb' = ta_columns tb @ cs \<and> ta_indexes tb' = ta_indexes tb @ is \<and>
      ta_key tb' = ta_key tb \<and> ta_unique tb' = ta_unique tb \<and> ta_foreign tb' = ta_foreign tb"
    using 1 by (intro exI [of _ t2] exI [of _ "c1 @ c2"] exI [of _ "i1 @ i2"]) simp
qed

lemma extends_append: "\<not> has_table n s \<Longrightarrow> extends s (s @ [(n, tb)])"
  unfolding extends_def has_table_def by (auto simp: map_add_Some_iff)

lemma extends_update:
  assumes "map_of s t = Some tb" "ta_columns tb' = ta_columns tb @ cs" "ta_indexes tb' = ta_indexes tb @ is"
    and "ta_key tb' = ta_key tb" "ta_unique tb' = ta_unique tb" "ta_foreign tb' = ta_foreign tb"
  shows "extends s (AList.update t tb' s)"
  unfolding extends_def
proof (intro allI impI)
  fix n x assume x: "map_of s n = Some x"
  show "\<exists>y cs is. map_of (AList.update t tb' s) n = Some y \<and> ta_columns y = ta_columns x @ cs \<and> ta_indexes y = ta_indexes x @ is \<and>
      ta_key y = ta_key x \<and> ta_unique y = ta_unique x \<and> ta_foreign y = ta_foreign x"
  proof (cases "n = t")
    case True
    then show ?thesis using assms x by (intro exI [of _ tb'] exI [of _ cs] exI [of _ "is"]) (simp add: update_conv')
  next
    case False
    then show ?thesis using x by (intro exI [of _ x] exI [of _ "[]"]) (simp add: update_conv')
  qed
qed

lemma extends_table: "extends s s' \<Longrightarrow> has_table n s \<Longrightarrow> has_table n s'"
  unfolding extends_def has_table_def by fastforce

lemma extends_ensured:
  assumes "extends s s'" "ensured a s"
  shows "ensured a s'"
proof (cases a)
  case (EnsureTable n tb)
  then show ?thesis using assms extends_table by simp
next
  case (EnsureIndex i t cols)
  then obtain tb where "map_of s t = Some tb" "list_ex (\<lambda>(n, cols). n = i) (ta_indexes tb)"
    using assms(2) by (auto simp: index_exists_def split: option.splits)
  then show ?thesis using assms(1) EnsureIndex unfolding extends_def by (fastforce simp: index_exists_def)
next
  case (EnsureColumn t c)
  then obtain tb where "map_of s t = Some tb" "list_ex (\<lambda>x. co_name x = co_name c) (ta_columns tb)"
    using assms(2) by (auto simp: column_exists_def split: option.splits)
  then show ?thesis using assms(1) EnsureColumn unfolding extends_def by (fastforce simp: column_exists_def)
qed

fun subject :: "ensure_op \<Rightarrow> string" where
  "subject (EnsureTable n tb) = n"
| "subject (EnsureIndex i t cols) = t"
| "subject (EnsureColumn t c) = t"

fun is_table_step :: "ensure_op \<Rightarrow> bool" where
  "is_table_step (EnsureTable n tb) = True"
| "is_table_step _ = False"

lemma ensure_extends: "ensure a s = Inr s' \<Longrightarrow> extends s s'"
  by (cases a)
     (auto simp: create_table_def create_index_def add_column_def extends_append intro!: extends_update split: if_splits option.splits)

lemma ensure_ensured:
  assumes "ensure a s = Inr s'" "is_table_step a \<or> has_table (subject a) s"
  shows "ensured a s'"
proof (cases a)
  case (EnsureTable n tb)
  then show ?thesis using assms(1) by (auto simp: create_table_def has_table_def map_add_def split: if_splits option.splits)
next
  case (EnsureIndex i t cols)
  then show ?thesis
    using assms by (auto simp: create_index_def index_exists_def has_table_def update_conv' split: if_splits option.splits)
next
  case (EnsureColumn t c)
  then show ?thesis
    using assms by (auto simp: add_column_def column_exists_def has_table_def update_conv' split: if_splits option.splits)
qed

lemma ensured_idle: "ensured a s \<Longrightarrow> ensure a s = Inr s"
  by (cases a) simp_all

text \<open>A script that ensures a table before it touches its indexes and columns.\<close>

fun tables_first :: "string list \<Rightarrow> ensure_op list \<Rightarrow> bool" where
  "tables_first ts [] = True"
| "tables_first ts (a # as) = ((is_table_step a \<or> list_ex (\<lambda>t. t = subject a) ts) \<and> tables_first (subject a # ts) as)"

lemma ensure_all_extends: "ensure_all as s = Inr s' \<Longrightarrow> extends s s'"
proof (induction as arbitrary: s)
  case (Cons a as)
  then obtain s1 where "ensure a s = Inr s1" "ensure_all as s1 = Inr s'" by (auto simp: py_bind_Inr_iff)
  then show ?case using Cons.IH ensure_extends extends_trans by blast
qed simp

lemma ensure_all_ensured:
  assumes "ensure_all as s = Inr s'" "tables_first ts as" "\<forall>t\<in>set ts. has_table t s" "a \<in> set as"
  shows "ensured a s'"
  using assms
proof (induction as arbitrary: s ts)
  case (Cons b as)
  then obtain s1 where s1: "ensure b s = Inr s1" "ensure_all as s1 = Inr s'" by (auto simp: py_bind_Inr_iff)
  have known: "is_table_step b \<or> has_table (subject b) s" using Cons.prems(2,3) by (auto simp: list_ex_iff)
  note b = ensure_ensured [OF s1(1) known]
  have "has_table (subject b) s1"
    using known b extends_table [OF ensure_extends [OF s1(1)]] by (cases b) auto
  then have later: "\<forall>t\<in>set (subject b # ts). has_table t s1"
    using Cons.prems(3) extends_table [OF ensure_extends [OF s1(1)]] by auto
  show ?case
  proof (cases "a = b")
    case True
    then show ?thesis using b extends_ensured [OF ensure_all_extends [OF s1(2)]] by simp
  next
    case False
    then show ?thesis using Cons.IH [OF s1(2) _ later] Cons.prems(2,4) by simp
  qed
qed simp

lemma all_ensured_idle: "\<forall>a\<in>set as. ensured a s \<Longrightarrow> ensure_all as s = Inr s"
  by (induction as) (auto simp: ensured_idle)

lemma scripts_in_order: "tables_first [] (concat (map mg_upgrade migrations))"
  by code_simp

text \<open>
  C26: an upgrade only adds: every table keeps its columns, keys, constraints and indexes; and upgrading
  again, as when the recorded revision is lost, changes nothing. This holds from any database, also one
  whose tables the program or its first version created.
\<close>

theorem upgrade_adds_once:
  assumes "upgrade_head s = Inr s'"
  shows "extends s s' \<and> upgrade_head s' = Inr s'"
proof -
  have "\<forall>a\<in>set (concat (map mg_upgrade migrations)). ensured a s'"
    using ensure_all_ensured [OF assms [unfolded upgrade_head_def] scripts_in_order] by simp
  then show ?thesis
    using ensure_all_extends [OF assms [unfolded upgrade_head_def]] by (simp add: upgrade_head_def all_ensured_idle)
qed

theorem upgrade_adds_once_witness:
  "case upgrade_head [] of Inl x \<Rightarrow> False | Inr s \<Rightarrow> upgrade_head s = Inr s"
proof -
  obtain s where "upgrade_head [] = Inr s"
    using fresh_database_served by (cases "upgrade_head []") (simp_all add: serves_all_def)
  with upgrade_adds_once [OF this] show ?thesis by simp
qed

section \<open>What the scripts make of a database\<close>

text \<open>What a script makes of one table that exists, and of one that does not.\<close>

fun grow :: "string \<Rightarrow> ensure_op \<Rightarrow> table \<Rightarrow> table" where
  "grow n (EnsureTable t x) tb = tb"
| "grow n (EnsureIndex i t cols) tb =
     (if t = n \<and> \<not> list_ex (\<lambda>(m, cs). m = i) (ta_indexes tb) then tb\<lparr>ta_indexes := ta_indexes tb @ [(i, cols)]\<rparr> else tb)"
| "grow n (EnsureColumn t c) tb =
     (if t = n \<and> \<not> list_ex (\<lambda>x. co_name x = co_name c) (ta_columns tb) then tb\<lparr>ta_columns := ta_columns tb @ [c]\<rparr> else tb)"

fun built :: "string \<Rightarrow> ensure_op list \<Rightarrow> table option" where
  "built n [] = None"
| "built n (EnsureTable t x # as) = (if t = n then Some (fold (grow n) as x) else built n as)"
| "built n (EnsureIndex i t cols # as) = built n as"
| "built n (EnsureColumn t c # as) = built n as"

lemma ensure_grows:
  assumes "ensure a s = Inr s'" "map_of s n = Some tb"
  shows "map_of s' n = Some (grow n a tb)"
proof (cases a)
  case (EnsureTable t x)
  then show ?thesis using assms by (auto simp: create_table_def split: if_splits)
next
  case (EnsureIndex i t cols)
  then show ?thesis
    using assms by (auto simp: create_index_def index_exists_def has_table_def update_conv' split: if_splits option.splits)
next
  case (EnsureColumn t c)
  then show ?thesis
    using assms by (auto simp: add_column_def column_exists_def has_table_def update_conv' split: if_splits option.splits)
qed

lemma ensure_absent:
  assumes "ensure a s = Inr s'" "map_of s n = None"
  shows "map_of s' n = (case a of EnsureTable t x \<Rightarrow> if t = n then Some x else None | _ \<Rightarrow> None)"
proof (cases a)
  case (EnsureTable t x)
  then show ?thesis using assms by (auto simp: create_table_def has_table_def map_add_def split: if_splits)
next
  case (EnsureIndex i t cols)
  then show ?thesis using assms by (auto simp: create_index_def has_table_def update_conv' split: if_splits option.splits)
next
  case (EnsureColumn t c)
  then show ?thesis using assms by (auto simp: add_column_def has_table_def update_conv' split: if_splits option.splits)
qed

lemma ensure_all_grows:
  "ensure_all as s = Inr s' \<Longrightarrow> map_of s n = Some tb \<Longrightarrow> map_of s' n = Some (fold (grow n) as tb)"
proof (induction as arbitrary: s tb)
  case (Cons a as)
  then obtain s1 where "ensure a s = Inr s1" "ensure_all as s1 = Inr s'" by (auto simp: py_bind_Inr_iff)
  then show ?case using Cons.IH ensure_grows [OF _ Cons.prems(2)] by simp
qed simp

lemma ensure_all_builds: "ensure_all as s = Inr s' \<Longrightarrow> map_of s n = None \<Longrightarrow> map_of s' n = built n as"
proof (induction as arbitrary: s)
  case (Cons a as)
  then obtain s1 where s1: "ensure a s = Inr s1" "ensure_all as s1 = Inr s'" by (auto simp: py_bind_Inr_iff)
  show ?case
    using ensure_absent [OF s1(1) Cons.prems(2)] Cons.IH [OF s1(2)] ensure_all_grows [OF s1(2)]
    by (cases a) (auto split: if_splits)
qed simp

text \<open>A table that serves a model still does so with another index, or with a column that an insert may omit.\<close>

fun omittable :: "ensure_op \<Rightarrow> bool" where
  "omittable (EnsureColumn t c) = (co_nullable c \<or> co_default c \<noteq> None)"
| "omittable _ = True"

lemma grow_serves: "serves_table tb m \<Longrightarrow> omittable a \<Longrightarrow> serves_table (grow n a tb) m"
  by (cases a) (simp_all add: serves_table_def list_all_iff list_ex_iff; blast)+

lemma fold_grow_serves: "serves_table tb m \<Longrightarrow> list_all omittable as \<Longrightarrow> serves_table (fold (grow n) as tb) m"
  by (induction as arbitrary: tb) (simp_all add: grow_serves)

lemma scripts_omittable: "list_all omittable (concat (map mg_upgrade migrations))"
  by code_simp

lemma scripts_build:
  "list_all (\<lambda>(n, m). case built n (concat (map mg_upgrade migrations)) of None \<Rightarrow> False | Some tb \<Rightarrow> serves_table tb m)
     (models @ v1_models)"
  by code_simp

text \<open>
  C25: whatever database an upgrade starts from, if it succeeds, every table that a model of the program or of its
  first version declares is there afterwards and serves the model, unless it was there before and did
  not serve it: the scripts build what is missing, and neither their indexes nor the column they add break a table
  that the program itself, or an earlier script, created.
\<close>

theorem scripts_build_the_models:
  assumes "upgrade_head s = Inr s'" "m \<in> set (models @ v1_models)"
    and "has_table (fst m) s \<Longrightarrow> serves s m"
  shows "serves s' m"
proof (cases "map_of s (fst m)")
  case None
  have "case m of (n, x) \<Rightarrow> case built n (concat (map mg_upgrade migrations)) of None \<Rightarrow> False | Some tb \<Rightarrow> serves_table tb x"
    using scripts_build assms(2) unfolding list_all_iff by (rule bspec)
  then show ?thesis
    using ensure_all_builds [OF assms(1) [unfolded upgrade_head_def] None] by (simp add: serves_def split_beta)
next
  case (Some tb)
  then have "serves_table tb (snd m)" using assms(3) by (simp add: serves_def has_table_def)
  then show ?thesis
    using ensure_all_grows [OF assms(1) [unfolded upgrade_head_def] Some] fold_grow_serves scripts_omittable
    by (simp add: serves_def)
qed

text \<open>
  A database that a version of the program before the paper trades and the audit of logins created by itself, and
  in which the first version created its table of trades, without the column that a script adds.
\<close>

definition early_database :: schema where
  "early_database = [model_Config, model_Candle, v1_model_Symbol, v1_model_PaperTrade]"

lemma early_database_upgrades: "case upgrade_head early_database of Inl x \<Rightarrow> False | Inr s \<Rightarrow> column_exists ''paper_trades'' ''strategy_id'' s"
  by code_simp

lemma early_database_serves:
  "list_all (serves early_database) early_database"
  "map fst early_database = [''rebuild_config'', ''rebuild_candles'', ''symbols'', ''paper_trades'']"
  by code_simp+

theorem scripts_build_the_models_witness:
  "\<exists>s. upgrade_head early_database = Inr s \<and> column_exists ''paper_trades'' ''strategy_id'' s \<and>
     serves s v1_model_PaperTrade \<and> serves s model_AuthAuditLog"
proof -
  obtain s where s: "upgrade_head early_database = Inr s" "column_exists ''paper_trades'' ''strategy_id'' s"
    using early_database_upgrades by (cases "upgrade_head early_database") simp_all
  have "serves early_database v1_model_PaperTrade" using early_database_serves(1) by (simp add: early_database_def)
  moreover have "v1_model_PaperTrade \<in> set (models @ v1_models)" "model_AuthAuditLog \<in> set (models @ v1_models)"
    by (simp_all add: models_def v1_models_def)
  moreover have "\<not> has_table (fst model_AuthAuditLog) early_database"
    unfolding has_table_def map_of_eq_None_iff by (simp flip: set_map add: early_database_serves(2) model_AuthAuditLog_def)
  ultimately show ?thesis
    using scripts_build_the_models [OF s(1), of v1_model_PaperTrade] scripts_build_the_models [OF s(1), of model_AuthAuditLog] s
    by blast
qed

section \<open>Downgrades\<close>

text \<open>Each script of a list undoes itself when it runs where the ones before it have led.\<close>

fun undone :: "migration list \<Rightarrow> schema \<Rightarrow> bool" where
  "undone [] s = True"
| "undone (m # ms) s =
     (case ensure_all (mg_upgrade m) s of Inl x \<Rightarrow> False | Inr s' \<Rightarrow> drop_all (mg_downgrade m) s' = Inr s \<and> undone ms s')"

lemma ensure_all_append: "ensure_all (as @ bs) s = py_bind (ensure_all as s) (ensure_all bs)"
proof (induction as arbitrary: s)
  case (Cons a as)
  then show ?case by (cases "ensure a s") simp_all
qed simp

lemma drop_all_append: "drop_all (as @ bs) s = py_bind (drop_all as s) (drop_all bs)"
proof (induction as arbitrary: s)
  case (Cons a as)
  then show ?case by (cases "drop_one a s") simp_all
qed simp

lemma undone_all:
  "undone ms s \<Longrightarrow> py_bind (ensure_all (concat (map mg_upgrade ms)) s) (drop_all (concat (map mg_downgrade (rev ms)))) = Inr s"
proof (induction ms arbitrary: s)
  case (Cons m ms)
  then obtain s1 where s1: "ensure_all (mg_upgrade m) s = Inr s1" "drop_all (mg_downgrade m) s1 = Inr s" "undone ms s1"
    by (auto split: sum.splits)
  then obtain s2 where "ensure_all (concat (map mg_upgrade ms)) s1 = Inr s2"
    "drop_all (concat (map mg_downgrade (rev ms))) s2 = Inr s1"
    using Cons.IH [OF s1(3)] by (auto simp: py_bind_Inr_iff)
  with s1 show ?case by (simp add: ensure_all_append drop_all_append)
qed simp

text \<open>
  Each downgrade undoes its upgrade, and together they lead from the empty database to the head and
  back to the empty database without an error.
\<close>

theorem downgrades_undo_the_upgrades:
  "undone migrations [] \<and> py_bind (upgrade_head []) downgrade_base = Inr []"
proof -
  have "undone migrations []" by code_simp
  with undone_all [OF this] show ?thesis by (simp add: upgrade_head_def downgrade_base_def [abs_def])
qed

text \<open>
  The scripts form one line, and their identifiers are distinct and, other than \<open>env.py\<close> says, not longer than
  the 32 characters of the old column.
\<close>

theorem revisions_form_one_line:
  "map mg_down_revision migrations = None # map Some (butlast (map mg_revision migrations)) \<and>
   distinct (map mg_revision migrations) \<and> list_all (\<lambda>m. length (mg_revision m) \<le> 32) migrations"
  by code_simp

end
