(* ===== verification/Spec2Isabelle.thy ===== *)
theory Spec2Isabelle
  imports Loop_Background Runtime_Factory Kiwoom_Market Backtest_Jobs Telegram Auth_Audit Rate_Limited_Client Universe_Bootstrap
    Live_Preflight Web_Auth Web_Backtest Web_Records Web_Universe App_Runs Cycle_View Legacy_Web Migrations
begin

text \<open>
  The core of \<open>haru-trade-manager\<close>, an automatic trader for the Korean stock market, as a shallow
  embedding of the Python code under \<open>src/app\<close>, with its first version under \<open>src/legacy/app_v1\<close>
  and the schema scripts under \<open>src/alembic\<close>.

  The program. Three loops run in one cycle (\<open>services/loop_runtime.py\<close>, started over and over by
  \<open>services/loop_background.py\<close>). Loop B (\<open>loops/loop_b_runtime.py\<close>) fetches the bars of every
  followed ticker when a bar of a timeframe is due, stores them (\<open>repositories/candle.py\<close>) and lets
  the strategies put signals into a queue (\<open>loops/core.py\<close>). Loop A (\<open>loops/loop_a_runtime.py\<close>)
  takes one signal, executes it (\<open>services/trading_service.py\<close>) and then moves every open position
  by one decision of the position state machine (\<open>orders/state_machine.py\<close>), selling through the
  order service (\<open>orders/service.py\<close>) to the paper gateway or the broker. Loop C maintains. The
  configuration, the safety manager, OTP logins, the Telegram commands, the reports, the universe of
  symbols and the backtests stand beside the loops, behind the routes of \<open>main.py\<close> and \<open>api/routes\<close>.

  The theories.
  \<^item> \<open>Py_Prelude\<close>, \<open>Py_Datetime\<close>: what the code uses of Python: exceptions as the left of a sum, strings,
    number parsing, floats with infinities and NaN, slices, stable sorting, dates.
  \<^item> \<open>Domain_Models\<close>: the value objects and table rows. \<open>Db_Session\<close>: every statement of a database
    consumes one entry of a fault plan and fails if it is True.
  \<^item> \<open>Runtime_Safety\<close>, \<open>Order_State_Machine\<close>, \<open>Risk_Engine\<close>, \<open>Order_Service\<close>, \<open>Strategies\<close>, \<open>Config_Manager\<close>:
    the components of the same names under \<open>services\<close>, \<open>orders\<close>, \<open>risk\<close>, \<open>strategies\<close>, \<open>core\<close>.
  \<^item> \<open>Ordering_Repository\<close>, \<open>Candle_Repository\<close>, \<open>Universe_Repository\<close>, \<open>Config_Service\<close>: the tables, their
    queries and updates under faults.
  \<^item> \<open>Trading_Service\<close>, \<open>Loop_Core\<close>, \<open>Loop_A\<close>, \<open>Loop_B\<close>, \<open>Loop_Runtime\<close>, \<open>Loop_Background\<close>: the loops.
  \<^item> \<open>Market_Sources\<close>, \<open>Time_Sync\<close>, \<open>Maintenance\<close>, \<open>Runtime_Factory\<close>: prices, bars and clock with their
    fallbacks, and the wiring of everything into one system state.
  \<^item> \<open>Kiwoom_Gateway\<close>, \<open>Kiwoom_Market\<close>: the broker's REST interface. \<open>Rate_Limited_Client\<close>: the queue in front
    of it (\<open>core/rate_limited_client.py\<close>).
  \<^item> \<open>Otp_Auth\<close>, \<open>Auth_Audit\<close>: logins and their log. \<open>Telegram\<close>: the client and the commands.
  \<^item> \<open>Backtest\<close>, \<open>Backtest_Jobs\<close>: the trade simulation, its statistics, the asynchronous jobs and their
    scheduler.
  \<^item> \<open>Account_Repository\<close>, \<open>Performance\<close>, \<open>Reports\<close>, \<open>Daily_Report\<close>: the account tables, cash flows and
    returns, the paper report, the reports per strategy, day and week.
  \<^item> \<open>Universe_Bootstrap\<close>, \<open>Live_Preflight\<close>: the universe's seeding, activation and rebalance; the checks
    before live trading and the rehearsal.
  \<^item> \<open>Web_Auth\<close>, \<open>Web_Pages\<close>, \<open>Web_Records\<close>, \<open>Web_Universe\<close>, \<open>Web_Backtest\<close>: what the routes of \<open>main.py\<close> and
    \<open>api/routes\<close> do, from the decoded request to the answer before it is rendered; the startup.
  \<^item> \<open>Application\<close>: \<open>bootstrap/core_services.py\<close>, \<open>api/routes/system_core.py\<close> and the wiring in \<open>main.py\<close>: one state
    of all services and a step for everything that changes it. \<open>App_Invariants\<close>, \<open>App_Routes\<close>, \<open>App_Runs\<close>:
    what every step and so every run keeps. \<open>Cycle_View\<close>: what a cycle does not read.
  \<^item> \<open>Legacy_Orders\<close>, \<open>Legacy_Runtime\<close>, \<open>Legacy_Signals\<close>, \<open>Legacy_Web\<close>: the first version of the program, which the
    repository keeps under \<open>legacy/app_v1\<close> as a reference, with the lemmas that compare its order service, exits and
    forced close with those of the rebuild.
  \<^item> \<open>Migrations\<close>: the schema scripts under \<open>alembic/versions\<close> and the tables the models of both versions declare;
    what an upgrade makes of any database, as far as its transaction is committed (\<open>alembic/env.py\<close> is not modelled).

  States are records passed through the operations; a call the code makes to something outside
  \<open>src\<close> (the broker, the HTTP transport, the clock, random tokens) is a parameter with its own state
  type. The interfaces are locales: \<open>order_gateway\<close> (interpreted by the paper gateway and by the
  Kiwoom gateway), \<open>signal_queue\<close>, \<open>candle_source\<close> (interpreted by the live sources), \<open>loop_a_env\<close>
  (by the wired system), \<open>config_writer\<close> and \<open>command_config\<close> (by the manager, by the service and by the
  service with its change hook), \<open>exit_rules\<close> (by the two sides of the backtest), \<open>paged_source\<close> (by the
  lists), \<open>safety_observer\<close> and \<open>runtime_observer\<close> (by what the reports and commands keep of the safety
  manager: its journal, a halt, the explanation of a halt), \<open>cycle_view\<close> (by the system without its
  safety manager).

  The lemmas. Each theory proves its component's invariant for every operation and its behaviour
  on every branch, database and broker failures included; the properties numbered C1, C2 and so on
  stand in the theory of the component they are about, and those that span components stand here or in
  \<open>App_Runs\<close> and \<open>Cycle_View\<close>. A property of the application is proved in three layers: the invariant of
  each component, its preservation by each route and task, and an induction over runs.

  Bounds and termination. Loops are structural recursions over the list of work; the steps of a
  backtest run are bounded by a variant that counts the steps left; the worker of the rate limiter is
  a step relation and, on a queue, a function that ends with it.

  Approximations. Prices and quantities are reals instead of doubles, except where a NaN can enter
  (the trailing stop, which a configured multiplier reaches, and the broker's numbers). Aware
  datetimes that are only compared are integers, in microseconds. Messages keep their codes and
  keys; Korean display texts are abstract. Strings are Latin-1. A cycle of the loops is one step of the
  application: requests answered while it waits for the broker are not interleaved with it.

  Not modelled: FastAPI and pydantic (routing, decoding of requests, rendering of answers as JSON or
  HTML); the transports (\<open>UrllibJsonTransport\<close>, \<open>UrllibTelegramTransport\<close>, the exchange's download) and
  the decoding of their bytes; \<open>fromisoformat\<close> and the time zone database, which are parameters; the
  values of \<open>core/settings.py\<close>, the table of \<open>core/logging_coverage.py\<close> and log lines;
  \<open>alembic/env.py\<close>; of the first version, its startup, settings, logging and the HTTP call to Telegram, and failures of
  its database, which answers there.
\<close>

section \<open>A sample database\<close>

text \<open>One open position, the inputs on which the properties below are exercised.\<close>

definition sample_position :: position_row where
  "sample_position =
     \<lparr>pos_id = 1, pos_order_id = None, pos_ticker = ''005930'', pos_strategy_id = ''2'', pos_state = ''OPEN'',
      pos_entry_price = 100, pos_stop_price = 95, pos_take_profit_price = 110, pos_trailing_stop_price = None,
      pos_highest_price = Some 100, pos_quantity = 4, pos_remaining_quantity = 4, pos_entry_time = 0,
      pos_closed_time = None, pos_close_reason = None, pos_updated_at = 0\<rparr>"

definition sample_db :: "fault_plan \<Rightarrow> odb" where
  "sample_db faults = (odb_init faults)\<lparr>od_positions := [sample_position], od_next_position := 2\<rparr>"

lemma sample_position_wf: "position_wf sample_position"
  by (simp add: position_wf_def sample_position_def)

lemma sample_db_inv: "odb_inv (sample_db fs)"
  using sample_position_wf
  by (simp add: odb_inv_def sample_db_def odb_init_def keys_ok_def) (simp add: sample_position_def)

lemma sample_db_positions [simp]: "od_positions (sample_db fs) = [sample_position]" "od_faults (sample_db fs) = fs"
  by (simp_all add: sample_db_def odb_init_def)

lemma sample_open [simp]: "pos_state sample_position = ''OPEN''"
  by (simp add: sample_position_def)

lemma sample_closes:
  "pos_state (observed 7 (\<lambda>_. 90) (\<lambda>_ _. 2) (\<lambda>_. Fin (3 / 2)) sample_position) = ''CLOSED''"
  by (simp add: observed_def observe_def sm_apply_def decide_def snapshot_of_def sample_position_def truthy_str_def)

lemma touched_state [simp]: "pos_state (touched now p row) = pos_state row"
  by (simp add: touched_def)

section \<open>Loop A\<close>

text \<open>
  C5: when the database answers and the broker accepts, one run of Loop A moves every open
  position by exactly one observation of the position state machine at the price, ATR and
  multiplier of its ticker and strategy, leaves closed positions alone, and reports the numbers
  of open positions and of positions the state machine closed.
\<close>

theorem loop_a_refines_state_machine:
  assumes "steady_price price pr" "steady_atr atr ar" "\<And>s. resolve_trail_atr_mult cfg dm s = Inr (mu s)"
    and "accepting place" "healthy d" "odb_inv d"
  shows "\<exists>e' d'. monitor_positions_once place status price atr cfg dm now (e, sf, d)
       = (Inr (length (filter (\<lambda>p. pos_state p \<noteq> ''CLOSED'') (od_positions d)),
               length (filter (\<lambda>p. pos_state p \<noteq> ''CLOSED'' \<and> pos_state (observed now pr ar mu p) = ''CLOSED'')
                 (od_positions d)), 0), e', sf, d') \<and>
         od_positions d' = map (\<lambda>q. if pos_state q \<noteq> ''CLOSED'' then touched now q (observed now pr ar mu q) else q)
                             (od_positions d)"
  using assms by (rule monitor_positions_healthy)

lemma paper_accepting: "accepting paper_place_order"
  by (simp add: accepting_def paper_place_order_def)

theorem loop_a_refines_state_machine_witness:
  "\<exists>e' d'. monitor_positions_once paper_place_order paper_get_order_status (\<lambda>t e. (Inr 90, e)) (\<lambda>t s e. (Inr 2, e))
       None (Fin (3 / 2)) 7 (0, None, sample_db []) = (Inr (1, 1, 0), e', None, d') \<and>
     map pos_state (od_positions d') = [''CLOSED'']"
proof -
  have "steady_price (\<lambda>t e. (Inr 90, e)) (\<lambda>_. 90)" "steady_atr (\<lambda>t s e. (Inr 2, e)) (\<lambda>_ _. 2)"
    and "\<And>s. resolve_trail_atr_mult None (Fin (3 / 2)) s = Inr (Fin (3 / 2))" and "healthy (sample_db [])"
    by (simp_all add: steady_price_def steady_atr_def resolve_trail_atr_mult_def healthy_def)
  note run = loop_a_refines_state_machine [OF this(1-3) paper_accepting this(4) sample_db_inv,
      of paper_get_order_status 7 0 None]
  have "pos_state (touched 7 sample_position (observed 7 (\<lambda>_. 90) (\<lambda>_ _. 2) (\<lambda>_. Fin (3 / 2)) sample_position)) = ''CLOSED''"
    by (simp add: sample_closes)
  with run show ?thesis by (auto simp: sample_closes)
qed

text \<open>
  Whatever statements of the database fail, whatever the broker, the prices and the
  configuration are, a run of Loop A keeps the tables well formed: keys stay unique, and every
  position's quantities, state, close time and close reason stay consistent.
\<close>

theorem loop_a_keeps_tables_well_formed:
  assumes "odb_inv d"
  shows "odb_inv (snd (snd (snd (snd (loop_a_run_once place status price atr cfg dm now (q, e, sf, d))))))"
proof -
  obtain r q' e' sf' d' where "loop_a_run_once place status price atr cfg dm now (q, e, sf, d) = (r, q', e', sf', d')"
    by (rule prod_cases5)
  with loop_a_inv [OF this assms] show ?thesis by simp
qed

theorem loop_a_keeps_tables_well_formed_witness:
  "odb_inv (snd (snd (snd (snd (loop_a_run_once paper_place_order paper_get_order_status (\<lambda>t e. (Inr 90, e))
     (\<lambda>t s e. (Inr 2, e)) None (Fin (3 / 2)) 7 ([], 0, None, sample_db [False, False, True]))))))"
  by (rule loop_a_keeps_tables_well_formed [OF sample_db_inv])

text \<open>
  C7: when the price and ATR providers answer and the configuration was validated, a run of
  Loop A never raises, however the database and the broker fail, and it counts each monitored
  position at most once as closed or failed.
\<close>

theorem loop_a_never_raises:
  assumes "answers price atr" "odb_inv d"
    and "case cfg of None \<Rightarrow> True | Some c \<Rightarrow> config_inv c \<and> config_get ''trail_atr_mult'' c = Inr v"
  shows "\<exists>res. fst (loop_a_run_once place status price atr cfg dm now (q, e, sf, d)) = Inr res \<and>
           closed_positions res + failed_close_orders res \<le> monitored_positions res"
  using assms(1) resolve_trail_Inr [OF assms(3)] assms(2) by (rule loop_a_Inr)

theorem loop_a_never_raises_witness:
  "\<exists>res. fst (loop_a_run_once (\<lambda>req e. (Inl (OtherError ''timeout''), e)) paper_get_order_status (\<lambda>t e. (Inr 90, e))
     (\<lambda>t s e. (Inr 2, e)) (Some default_values) (Fin 1) 7 ([], 0, None, sample_db [False, True])) = Inr res \<and>
     closed_positions res + failed_close_orders res \<le> monitored_positions res"
  by (rule loop_a_never_raises [where v = "''1.5''"])
     (simp_all add: answers_def sample_db_inv default_values_ok, simp add: config_get_def default_values_def)

text \<open>
  A price source with no data answers zero, and at a price of zero every open position
  is closed as a stop loss (stop prices are never negative), whatever it is worth.
\<close>

theorem price_outage_closes_open_positions:
  assumes "pos_state r = ''OPEN''" "0 \<le> pos_stop_price r"
  shows "pos_state (observe r (now, 0, atr, m)) = ''CLOSED'' \<and>
    pos_close_reason (observe r (now, 0, atr, m)) = Some ''stop_loss''"
  using assms by (simp_all add: observe_def decide_def sm_apply_effects truthy_str_def)

theorem price_outage_closes_open_positions_witness:
  "pos_close_reason (observe sample_position (5, 0, 1, Fin 2)) = Some ''stop_loss''"
  using price_outage_closes_open_positions [of sample_position 5 1 "Fin 2"] by (simp add: sample_position_def)

text \<open>
  If the order row of a close that the broker filled cannot be written, the position stays
  as it was and the next attempt sells the same quantity again.
\<close>

theorem lost_close_is_ordered_again:
  assumes "accepting place" "fails d"
  shows "\<exists>e1 sf1 d1. close_position (logged_place place) (logged_status status) now p c t ((e, l), sf, d)
        = (Inr (0, 1), (e1, l @ [Place (close_request p t)]), sf1, d1) \<and> od_positions d1 = od_positions d \<and>
      (\<exists>r e2 w. close_position (logged_place place) (logged_status status) now p c t
          ((e1, l @ [Place (close_request p t)]), sf1, d1)
        = (r, (e2, l @ [Place (close_request p t), Place (close_request p t)]), w))"
  using assms by (rule lost_close)

theorem lost_close_is_ordered_again_witness:
  "\<exists>e1 sf1 d1. close_position (logged_place paper_place_order) (logged_status paper_get_order_status) 7 sample_position 90
       (decide (snapshot_of sample_position) 90 2 (Fin 1)) ((0, []), None, sample_db [True])
     = (Inr (0, 1), (e1, [Place (close_request sample_position (decide (snapshot_of sample_position) 90 2 (Fin 1)))]), sf1, d1)
     \<and> od_positions d1 = [sample_position]"
  using lost_close_is_ordered_again [OF paper_accepting, of "sample_db [True]" paper_get_order_status 7 sample_position 90
      "decide (snapshot_of sample_position) 90 2 (Fin 1)" 0 "[]" None]
  by auto

section \<open>Orders\<close>

text \<open>
  C9: the order service reports success only when the gateway accepted a placement with that
  very result, or confirmed the reported order as accepted, partially filled or filled.
\<close>

theorem reconcile_ok_is_confirmed:
  assumes "place_with_reconcile place status now req (e, sf) = (r, e', sf')" "res_ok r"
  shows "(\<exists>e0 e1. place req e0 = (Inr r, e1)) \<or>
         (\<exists>oid e0 st. res_order_id r = Some oid \<and> fst (status oid e0) = Inr st \<and> st_exists st \<and>
            st_status st \<in> accepted_states)"
  using assms(1)
  by (cases rule: place_with_reconcile_cases) (use assms(2) in \<open>blast dest: check_status_SomeD\<close>)+

definition sample_request :: order_request where
  "sample_request = \<lparr>rq_ticker = ''005930'', rq_side = ''buy'', rq_order_type = ''limit'', rq_qty = 1, rq_price = Some 100\<rparr>"

text \<open>A gateway that reports a timeout with an order id, and an order that was filled nevertheless.\<close>

definition late_place :: "unit place_fn" where
  "late_place req e = (Inr \<lparr>res_ok = False, res_order_id = Some ''A1'', res_error = Some ''timeout''\<rparr>, e)"

definition late_status :: "unit status_fn" where
  "late_status oid e = (Inr \<lparr>st_exists = True, st_status = ''filled'', st_filled_qty = Fin 1\<rparr>, e)"

theorem reconcile_ok_is_confirmed_witness:
  "(\<exists>e0 e1. late_place sample_request e0
       = (Inr \<lparr>res_ok = True, res_order_id = Some ''A1'', res_error = None\<rparr>, e1)) \<or>
   (\<exists>oid e0 st. Some ''A1'' = Some oid \<and> fst (late_status oid e0) = Inr st \<and> st_exists st \<and> st_status st \<in> accepted_states)"
proof -
  have run: "place_with_reconcile late_place late_status 7 sample_request ((), None)
      = (\<lparr>res_ok = True, res_order_id = Some ''A1'', res_error = None\<rparr>, (), None)"
    by (simp add: place_with_reconcile_def try_place_def check_status_def late_place_def late_status_def accepted_states_def)
  show ?thesis using reconcile_ok_is_confirmed [OF run] by simp
qed

text \<open>
  One reconciliation places at most twice and asks for a status only right after a failed
  placement that carried an order id, at most once for each.
\<close>

theorem reconcile_call_sequence:
  "\<exists>first second. reconcile_calls place status now req e
     \<in> {[Place req], Place req # status_calls first, Place req # status_calls first @ [Place req],
        Place req # status_calls first @ Place req # status_calls second}"
  by (rule reconcile_calls_cases [of place status now req e]) blast+

text \<open>
  When the placement raises (a timeout, say), the broker may have the order, but no id came
  back: the service places the same order again without asking for a status in between.
\<close>

theorem raised_placement_is_repeated_unchecked:
  assumes "place req e = (Inl x, e1)"
  shows "\<exists>rest. reconcile_calls place status now req e = Place req # Place req # rest"
  using assms by (rule reconcile_calls_raised)

theorem raised_placement_is_repeated_unchecked_witness:
  "\<exists>rest. reconcile_calls (\<lambda>req (n::nat). if n = 0 then (Inl (OtherError ''timeout''), 1) else paper_place_order req n)
     paper_get_order_status 7 sample_request 0 = Place sample_request # Place sample_request # rest"
  by (rule raised_placement_is_repeated_unchecked [where x = "OtherError ''timeout''"]) simp

text \<open>
  A placement that fails in the end leaves the runtime halted and names an error.
\<close>

theorem failed_reconcile_halts:
  assumes "place_with_reconcile place status now req (e, Some s) = (r, e', Some s')" "\<not> res_ok r"
  shows "halted (sf_runtime s') \<and> (\<exists>m. res_error r = Some m)"
  using reconcile_failure_halts [OF assms] reconcile_failure_has_error [OF assms] by simp

definition dead_place :: "unit place_fn" where
  "dead_place req e = (Inl (OtherError ''down''), e)"

theorem failed_reconcile_halts_witness:
  "halted (sf_runtime (critical 7 ''order_unresolved'' ''005930 buy unresolved after reconcile''
     (critical 7 ''order_retry_exception'' ''005930 buy: down''
       (critical 7 ''order_place_exception'' ''005930 buy: down'' (safety_init True 3)))))"
proof -
  have "place_with_reconcile dead_place late_status 7 sample_request ((), Some (safety_init True 3))
      = (\<lparr>res_ok = False, res_order_id = None, res_error = Some ''down''\<rparr>, (),
         Some (critical 7 ''order_unresolved'' ''005930 buy unresolved after reconcile''
           (critical 7 ''order_retry_exception'' ''005930 buy: down''
             (critical 7 ''order_place_exception'' ''005930 buy: down'' (safety_init True 3)))))"
    by (simp add: place_with_reconcile_def try_place_def check_status_def dead_place_def unresolved_error_def
        truthy_str_def sample_request_def)
  from failed_reconcile_halts [OF this] show ?thesis by simp
qed

section \<open>The life of a position\<close>

text \<open>
  C18: along any prices, what a position still holds and what was ordered to be sold add up to
  the quantity it was opened with, and it stays well formed: it is open and whole, half closed
  and half sold, or closed, sold out and closed for a stop reason.
\<close>

theorem position_is_conserved:
  assumes "position_wf r" "pos_state r = ''OPEN''"
  shows "sold r obs + pos_remaining_quantity (follow r obs) = pos_quantity r \<and> position_wf (follow r obs)"
proof -
  have "pos_remaining_quantity r = pos_quantity r" using assms by (cases rule: position_wf_cases) auto
  then show ?thesis using follow_sold [OF assms(1), of obs] follow_wf [OF assms(1)] by simp
qed

definition rally :: "observation list" where
  "rally = [(1, 111, 2, Fin 1), (2, 120, 2, Fin 1), (3, 117, 2, Fin 1)]"

theorem position_is_conserved_witness:
  "sold sample_position rally + pos_remaining_quantity (follow sample_position rally) = 4 \<and>
   position_wf (follow sample_position rally)"
  using position_is_conserved [OF sample_position_wf, of rally] by (simp add: sample_position_def)

text \<open>
  Each decision on a position takes one step of the automaton OPEN, HALF_CLOSED, CLOSED, with
  the reason that labels the step, and never sells more than remains.
\<close>

theorem decision_takes_one_phase_step:
  assumes "phase_of (ps_state p) = Some ph" "0 \<le> ps_remaining_quantity p"
  shows "(\<exists>ph'. phase_of (tr_new_state (decide p c a m)) = Some ph' \<and> phase_step ph (tr_reason (decide p c a m)) ph') \<and>
    0 \<le> tr_close_qty (decide p c a m) \<and> tr_close_qty (decide p c a m) \<le> ps_remaining_quantity p"
  using decide_phase_step [OF assms(1)] decide_close_qty [OF assms(2)] by blast+

theorem decision_takes_one_phase_step_witness:
  "0 \<le> tr_close_qty (decide (snapshot_of sample_position) 111 2 (Fin 1)) \<and>
   tr_close_qty (decide (snapshot_of sample_position) 111 2 (Fin 1)) \<le> 4"
  using decision_takes_one_phase_step [of "snapshot_of sample_position" Open 111 2 "Fin 1"]
  by (simp add: sample_position_def)

text \<open>
  A closed position stays closed and sells nothing, whatever prices follow.
\<close>

theorem closed_is_final:
  assumes "pos_state r = ''CLOSED''"
  shows "pos_state (follow r obs) = ''CLOSED'' \<and> sold r obs = 0"
  using assms by (rule closed_follow)

theorem closed_is_final_witness:
  "sold (sample_position\<lparr>pos_state := ''CLOSED''\<rparr>) rally = 0"
  using closed_is_final [of "sample_position\<lparr>pos_state := ''CLOSED''\<rparr>" rally] by simp

text \<open>
  While a position stays half closed, the high it records is the maximum of the high it
  started with and of all prices since.
\<close>

theorem trailing_high_is_maximum:
  assumes "pos_state r = ''HALF_CLOSED''" "pos_highest_price r = Some h" "0 < h"
    and "pos_state (follow r obs) = ''HALF_CLOSED''"
  shows "pos_highest_price (follow r obs) = Some (foldl max h (prices obs))"
  using assms by (rule half_follow_highest)

theorem trailing_high_is_maximum_witness:
  "pos_highest_price (follow (sample_position\<lparr>pos_state := ''HALF_CLOSED''\<rparr>) [(1, 111, 2, Fin 1), (2, 110, 2, Fin 1)])
   = Some 111"
proof -
  let ?r = "sample_position\<lparr>pos_state := ''HALF_CLOSED''\<rparr>"
  have "pos_state (follow ?r [(1, 111, 2, Fin 1), (2, 110, 2, Fin 1)]) = ''HALF_CLOSED''"
    by (simp add: observe_def decide_def sm_apply_def snapshot_of_def sample_position_def or_real_def)
  from trailing_high_is_maximum [OF _ _ _ this, of 100] show ?thesis
    by (simp add: sample_position_def)
qed

text \<open>
  The configuration accepts the text "nan" as a trailing multiplier; the multiplier then
  read is NaN, and a half-closed position is never closed by its trailing stop again.
\<close>

theorem nan_multiplier_disables_trailing_stop:
  assumes "pos_state r = ''HALF_CLOSED''"
  shows "\<exists>cfg. config_set ''trail_atr_mult'' ''nan'' False default_values = Inr cfg \<and>
     (\<forall>dm. resolve_trail_atr_mult (Some cfg) dm ''2'' = Inr NaN) \<and>
     pos_state (observe r (now, price, atr, NaN)) = ''HALF_CLOSED''"
  using nan_config nan_half_closed [OF assms] by blast

theorem nan_multiplier_disables_trailing_stop_witness:
  "\<exists>cfg. config_set ''trail_atr_mult'' ''nan'' False default_values = Inr cfg \<and>
     (\<forall>dm. resolve_trail_atr_mult (Some cfg) dm ''2'' = Inr NaN) \<and>
     pos_state (observe (sample_position\<lparr>pos_state := ''HALF_CLOSED''\<rparr>) (9, 1, 2, NaN)) = ''HALF_CLOSED''"
  by (rule nan_multiplier_disables_trailing_stop) simp

section \<open>Risk\<close>

text \<open>
  C31: the forced close asks for the shortest prefix of the positions in priority order whose
  removal brings the exposure down to the base capital, and for nothing when it is there already.
\<close>

theorem forced_close_is_shortest_prefix:
  "\<exists>k. margin_forced_close_order xs base pr = map ex_position_id (take k (sort_key (priority_rank pr) xs)) \<and>
       k \<le> length xs \<and>
       (k = length xs \<or> sum_list (map ex_market_value (drop k (sort_key (priority_rank pr) xs))) \<le> base) \<and>
       list_all (\<lambda>j. base < sum_list (map ex_market_value (drop j (sort_key (priority_rank pr) xs)))) [0..<k]"
proof (cases "sum_list (map ex_market_value xs) \<le> base")
  case True
  then show ?thesis by (intro exI [of _ 0]) (simp add: margin_forced_close_order_def sum_list_sort_key)
next
  case False
  then show ?thesis
    using close_until_prefix [of "sum_list (map ex_market_value xs)" "sort_key (priority_rank pr) xs" base]
    by (auto simp: margin_forced_close_order_def Let_def sum_list_sort_key list_all_iff)
qed

text \<open>
  The average true range exists exactly for non-empty series, is never negative, does not
  change when all prices shift and scales with them.
\<close>

theorem atr_laws:
  assumes "compute_atr hs ls cs = Inr a" "0 \<le> k"
  shows "0 \<le> a \<and> hs \<noteq> [] \<and> ls \<noteq> [] \<and> cs \<noteq> [] \<and>
    compute_atr (map (\<lambda>x. x + d) hs) (map (\<lambda>x. x + d) ls) (map (\<lambda>x. x + d) cs) = Inr a \<and>
    compute_atr (map ((*) k) hs) (map ((*) k) ls) (map ((*) k) cs) = Inr (k * a)"
  using compute_atr_nonneg [OF assms(1)] compute_atr_total [of hs ls cs] compute_atr_shift [of d hs ls cs]
    compute_atr_scale [OF assms(2,1)] assms(1) by auto

theorem atr_laws_witness:
  "compute_atr (map ((*) 3) [12, 14]) (map ((*) 3) [10, 11]) (map ((*) 3) [11, 13]) = Inr (3 * (5 / 2))"
proof -
  have "compute_atr [12, 14] [10, 11] [11, 13] = Inr (5 / 2)"
    by (simp add: compute_atr_def true_ranges_def true_range_def py_div_def upt_rec)
  from atr_laws [OF this, of 3 0] show ?thesis by simp
qed

section \<open>Configuration\<close>

text \<open>
  Whatever keys and values are set, accepted or refused, every stored value obeys its rule.
\<close>

theorem config_values_obey_rules:
  assumes "config_set_all kvs default_values = Inr cfg" "config_set key v ro cfg = Inr cfg'" "config_get k cfg' = Inr x"
  shows "value_ok k x \<and> config_get k cfg' = (if k = key then Inr v else config_get k cfg)"
proof -
  have "config_inv cfg'"
    using config_set_inv [OF config_set_all_inv [OF default_values_ok assms(1)] assms(2)] .
  then show ?thesis using config_get_ok assms(3) config_get_set [OF assms(2)] by simp
qed

theorem config_values_obey_rules_witness: "value_ok ''sync_mode'' ''manual''"
proof -
  have a: "config_set_all [] default_values = Inr default_values" by simp
  have ov: "\<not> is_strategy_override_key ''sync_mode''" by (simp add: is_strategy_override_key_def)
  have b: "config_set ''sync_mode'' ''manual'' False default_values = Inr (AList.update ''sync_mode'' ''manual'' default_values)"
    by (simp add: config_set_Inr config_check_def ov check_number_def check_allowed_def)
  have c: "config_get ''sync_mode'' (AList.update ''sync_mode'' ''manual'' default_values) = Inr ''manual''"
    by (simp add: config_get_def update_conv')
  show ?thesis using config_values_obey_rules [OF a b c] by simp
qed

text \<open>
  A numeric setting that was accepted reads back as a number within its bounds, except that
  "nan" is accepted too; the integer settings always read back as integers within their bounds.
\<close>

theorem numeric_settings_are_bounded:
  assumes "config_inv cfg" "config_get key cfg = Inr v" "rule_of key = Some (num_rule (Some lo) (Some hi) is_int)"
  shows "if is_int then (\<exists>i. py_int_of v = Some i \<and> lo \<le> real_of_int i \<and> real_of_int i \<le> hi)
         else py_float_of v = Some NaN \<or> (\<exists>x. py_float_of v = Some (Fin x) \<and> lo \<le> x \<and> x \<le> hi)"
  using config_get_ok [OF assms(1,2)] value_ok_int value_ok_float assms(3) by (cases is_int) simp_all

theorem numeric_settings_are_bounded_witness:
  "\<exists>i. py_int_of ''14'' = Some i \<and> 5 \<le> real_of_int i \<and> real_of_int i \<le> 30"
  using numeric_settings_are_bounded [OF default_values_ok, of "''atr_period''" "''14''" 5 30 True]
  by (simp add: config_get_def default_values_def)

section \<open>Strategies\<close>

text \<open>
  C40: on candles with positive closes a scan never raises, gives at most one signal per strategy
  of the timeframe, and every signal carries the ticker, the strategy's identity and timeframe,
  the last close as its price and a side the code knows.
\<close>

theorem scan_is_total:
  assumes "\<forall>c\<in>set cs. 0 < cd_close c"
  shows "\<exists>sgs. scan sts tf ticker cs now = Inr sgs \<and> length sgs \<le> length (for_timeframe sts tf) \<and>
    list_all (\<lambda>sg. list_ex (\<lambda>st. signal_of st ticker cs now sg) (for_timeframe sts tf)) sgs"
  using scan_strategies_total [OF assms, of "for_timeframe sts tf" ticker now] scan_strategies_length
    scan_strategies_signal_of [of "for_timeframe sts tf" ticker cs now]
  by (fastforce simp: scan_def list_all_iff list_ex_iff)

theorem scan_is_total_witness:
  "\<exists>sts sgs. default_strategies = Inr sts \<and> scan sts ''5m'' ''005930'' sample_bars sample_noon = Inr sgs \<and> length sgs \<le> length (for_timeframe sts ''5m'')"
proof -
  obtain sts where "default_strategies = Inr sts" using default_strategies_Inr by blast
  moreover have "\<forall>c\<in>set sample_bars. 0 < cd_close c" by (simp add: sample_bar_defs)
  ultimately show ?thesis using scan_is_total [of sample_bars sts "''5m''" "''005930''" sample_noon] by blast
qed

text \<open>
  The exponential moving average exists exactly for a positive period covered by the series,
  and lies between the smallest and the largest value.
\<close>

theorem ema_is_an_average:
  assumes "ema vs p = Inr r" "\<forall>v\<in>set vs. lo \<le> v \<and> v \<le> hi"
  shows "lo \<le> r \<and> r \<le> hi \<and> 0 < p \<and> p \<le> int (length vs)"
  using ema_bounds [OF assms] ema_Inr_iff [of vs p] assms(1) by blast

theorem ema_is_an_average_witness: "(1::real) \<le> 7 / 2 \<and> (7 / 2 :: real) \<le> 4"
proof -
  have "ema [1, 4, 4] 1 = Inr 4" by (simp add: ema_def)
  from ema_is_an_average [OF this, of 1 4] have "(1::real) \<le> 4" by simp
  then show ?thesis by simp
qed

section \<open>Critical events\<close>

text \<open>
  Whatever is reported, the journal is the tail, of at most its length, of everything
  reported so far, in order.
\<close>

theorem journal_is_tail_of_reports:
  assumes "sf_events s = []" "sf_max_events s > 0"
  shows "map (\<lambda>e. (ev_created_at e, ev_code e, ev_message e)) (sf_events (criticals rs s))
         = drop (length rs - sf_max_events s) rs"
  using assms by (rule criticals_journal)

theorem journal_is_tail_of_reports_witness:
  "map (\<lambda>e. (ev_created_at e, ev_code e, ev_message e))
     (sf_events (criticals [(1, ''a'', ''x''), (2, ''b'', ''y''), (3, ''c'', ''z'')] (safety_init False 2)))
   = [(2, ''b'', ''y''), (3, ''c'', ''z'')]"
  using journal_is_tail_of_reports [of "safety_init False 2" "[(1, ''a'', ''x''), (2, ''b'', ''y''), (3, ''c'', ''z'')]"]
  by (simp add: safety_init_def)

section \<open>The signal queue\<close>

text \<open>
  Signals leave the queue in the order they were put in, each once, whatever batches they
  came in.
\<close>

theorem queue_is_fifo:
  assumes "sq.serve n (fold put_many batches []) = (served, rest)"
  shows "served @ rest = concat batches \<and> length served = min n (length (concat batches))"
  using sq.served_in_order [OF refl assms] by simp


section \<open>Loop A at the live broker\<close>

text \<open>
  A position of one share, the size every signal opens, that reaches its take profit is half
  closed by an order of zero shares: the gateway cuts the half share off.
\<close>

theorem half_close_of_one_share_orders_nothing:
  assumes "pos_state p = ''OPEN''" "pos_remaining_quantity p = 1" "pos_stop_price p < price" "pos_take_profit_price p \<le> price"
  shows "rq_qty (close_request p (decide (snapshot_of p) price atr m)) = 1 / 2 \<and>
    map_of (order_payload account (close_request p (decide (snapshot_of p) price atr m))) ''ord_qty'' = Some (JInt 0)"
  using assms by (simp add: decide_def snapshot_of_def close_request_def order_payload_def truncate_real_def)

theorem half_close_of_one_share_orders_nothing_witness:
  "map_of (order_payload ''acct'' (close_request (sample_position\<lparr>pos_remaining_quantity := 1\<rparr>)
     (decide (snapshot_of (sample_position\<lparr>pos_remaining_quantity := 1\<rparr>)) 111 2 (Fin 1)))) ''ord_qty'' = Some (JInt 0)"
  using half_close_of_one_share_orders_nothing [of "sample_position\<lparr>pos_remaining_quantity := 1\<rparr>" 111 2 "Fin 1" "''acct''"]
  by (simp add: sample_position_def)

end
